(* ===== verification/Prelude.thy ===== *)
theory Prelude
  imports Main "HOL-Library.Word"
begin

text \<open>
  What the component theories share: the type of the program's strings, Go's
  \<open>map[string]int\<close> counter tables with the increment and delete-on-zero decrement idioms
  that the schedulers use, sums over a ticket store, and the notion of an event-driven
  component (a step function, a guard on the events it accepts, an invariant) together with
  the lemma that lifts a per-step invariant to whole runs.
\<close>

named_theorems wf_intros \<open>introduction rules for the components' well-formedness predicates\<close>
named_theorems op_defs \<open>defining equations of small straight-line operations\<close>

subsection \<open>Counter tables\<close>

text \<open>
  A Go map from strings to integers. Reading a missing key gives 0; \<open>m[k]++\<close> stores the
  successor; \<open>m[k]--; if m[k] == 0 { delete(m, k) }\<close> is the release idiom.
\<close>

type_synonym counts = "string \<rightharpoonup> int"

definition cnt :: "counts \<Rightarrow> string \<Rightarrow> int" where
  "cnt m k = (case m k of None \<Rightarrow> 0 | Some n \<Rightarrow> n)"

definition bump :: "counts \<Rightarrow> string \<Rightarrow> counts" where
  "bump m k = m(k \<mapsto> cnt m k + 1)"

definition drop_one :: "counts \<Rightarrow> string \<Rightarrow> counts" where
  "drop_one m k = (let n = cnt m k - 1 in if n = 0 then m(k := None) else m(k \<mapsto> n))"

text \<open>The contract of such a table: the value read after an update.\<close>

locale counter_table =
  fixes get :: "'m \<Rightarrow> 'k \<Rightarrow> int"
    and incr :: "'m \<Rightarrow> 'k \<Rightarrow> 'm"
    and decr :: "'m \<Rightarrow> 'k \<Rightarrow> 'm"
  assumes get_incr: "get (incr m k) j = get m j + of_bool (j = k)"
    and get_decr: "get (decr m k) j = get m j - of_bool (j = k)"
begin

lemma get_decr_incr: "get (decr (incr m k) k) j = get m j"
  by (simp add: get_incr get_decr)

lemma get_incr_decr: "get (incr (decr m k) k) j = get m j"
  by (simp add: get_incr get_decr)

lemma get_foldl_incr: "get (foldl incr m ks) j = get m j + int (count_list ks j)"
  by (induction ks arbitrary: m) (auto simp: get_incr)

lemma decr_bound: "get m j \<le> b \<Longrightarrow> get (decr m k) j \<le> b"
  by (auto simp: get_decr)

end

interpretation ct: counter_table cnt bump drop_one
  by unfold_locales (auto simp: cnt_def bump_def drop_one_def Let_def)

lemma cnt_empty [simp]: "cnt Map.empty k = 0"
  by (simp add: cnt_def)

lemma cnt_upd [simp]: "cnt (m(k \<mapsto> n)) j = (if j = k then n else cnt m j)"
  by (simp add: cnt_def)

subsection \<open>Sums over a ticket store\<close>

text \<open>A store of mutable objects is a list; an object's identity is its index.\<close>

definition tally :: "('a \<Rightarrow> int) \<Rightarrow> 'a list \<Rightarrow> int" where
  "tally f xs = sum_list (map f xs)"

lemma tally_Nil [simp]: "tally f [] = 0"
  and tally_Cons [simp]: "tally f (x # xs) = f x + tally f xs"
  and tally_append [simp]: "tally f (xs @ ys) = tally f xs + tally f ys"
  by (simp_all add: tally_def)

lemma tally_update:
  "i < length xs \<Longrightarrow> tally f (xs[i := y]) = tally f xs - f (xs ! i) + f y"
proof (induction xs arbitrary: i)
  case Nil
  then show ?case by simp
next
  case (Cons x xs)
  then show ?case by (cases i) auto
qed

lemma tally_update_same:
  "f y = f (xs ! i) \<Longrightarrow> tally f (xs[i := y]) = tally f xs"
  by (cases "i < length xs") (simp_all add: tally_update list_update_beyond)

lemma tally_nonneg: "(\<And>x. x \<in> set xs \<Longrightarrow> 0 \<le> f x) \<Longrightarrow> 0 \<le> tally f xs"
  by (induction xs) auto

lemma tally_mono: "(\<And>x. x \<in> set xs \<Longrightarrow> f x \<le> g x) \<Longrightarrow> tally f xs \<le> tally g xs"
  by (induction xs) (auto simp: add_mono)

lemma tally_member_le:
  "x \<in> set xs \<Longrightarrow> (\<And>y. y \<in> set xs \<Longrightarrow> 0 \<le> f y) \<Longrightarrow> f x \<le> tally f xs"
proof (induction xs)
  case Nil
  then show ?case by simp
next
  case (Cons a xs)
  then have "0 \<le> f a" and "0 \<le> tally f xs"
    by (auto intro: tally_nonneg)
  with Cons show ?case by fastforce
qed

lemma tally_eq_0:
  assumes "\<And>x. x \<in> set xs \<Longrightarrow> 0 \<le> f x" "tally f xs = 0" "x \<in> set xs"
  shows "f x = 0"
  using assms tally_member_le [of x xs f] by force

lemma tally_pos_ex:
  "0 < tally f xs \<Longrightarrow> \<exists>x \<in> set xs. 0 < f x"
  by (induction xs) (auto, smt (verit))

subsection \<open>Event-driven components\<close>

text \<open>
  A component that is driven by calls: \<open>step s e\<close> is the state after the call \<open>e\<close>, \<open>ok s e\<close>
  the condition under which its callers may issue that call. A run is legal when every event
  of it is issued in a state that admits it.
\<close>

fun run :: "('s \<Rightarrow> 'e \<Rightarrow> 's) \<Rightarrow> 's \<Rightarrow> 'e list \<Rightarrow> 's" where
  "run step s [] = s"
| "run step s (e # es) = run step (step s e) es"

fun legal :: "('s \<Rightarrow> 'e \<Rightarrow> 's) \<Rightarrow> ('s \<Rightarrow> 'e \<Rightarrow> bool) \<Rightarrow> 's \<Rightarrow> 'e list \<Rightarrow> bool" where
  "legal step ok s [] = True"
| "legal step ok s (e # es) = (ok s e \<and> legal step ok (step s e) es)"

locale guarded_machine =
  fixes step :: "'s \<Rightarrow> 'e \<Rightarrow> 's"
    and ok :: "'s \<Rightarrow> 'e \<Rightarrow> bool"
    and inv :: "'s \<Rightarrow> bool"
  assumes step_inv: "inv s \<Longrightarrow> ok s e \<Longrightarrow> inv (step s e)"
begin

lemma run_inv: "inv s \<Longrightarrow> legal step ok s es \<Longrightarrow> inv (run step s es)"
  by (induction es arbitrary: s) (auto intro: step_inv)

lemma run_prefix_inv:
  "inv s \<Longrightarrow> legal step ok s (es @ fs) \<Longrightarrow> inv (run step s es)"
  by (induction es arbitrary: s) (auto intro: step_inv)

end

lemma run_append: "run step s (es @ fs) = run step (run step s es) fs"
  by (induction es arbitrary: s) auto

lemma legal_append:
  "legal step ok s (es @ fs) \<longleftrightarrow> legal step ok s es \<and> legal step ok (run step s es) fs"
  by (induction es arbitrary: s) auto

subsection \<open>Strings\<close>

text \<open>
  Go strings are byte sequences: \<open>string\<close> with \<open>length\<close> counting bytes; \<open>bytes\<close> writes the UTF-8
  bytes of a literal that is not ASCII. \<open>itoa\<close> is \<open>strconv.FormatInt(n, 10)\<close>.
\<close>

definition bytes :: "nat list \<Rightarrow> string" where
  "bytes ns = map char_of ns"

definition has_prefix :: "string \<Rightarrow> string \<Rightarrow> bool" where
  "has_prefix s p = (take (length p) s = p)"

definition has_suffix :: "string \<Rightarrow> string \<Rightarrow> bool" where
  "has_suffix s p = (length p \<le> length s \<and> drop (length s - length p) s = p)"

lemma has_prefix_append [simp]: "has_prefix (p @ s) p"
  by (simp add: has_prefix_def)

lemma has_prefix_iff: "has_prefix s p \<longleftrightarrow> (\<exists>r. s = p @ r)"
  by (metis append_eq_conv_conj append_take_drop_id has_prefix_def)

definition digit_char :: "nat \<Rightarrow> char" where
  "digit_char d = char_of (48 + d)"

fun utoa :: "nat \<Rightarrow> string" where
  "utoa n = (if n < 10 then [digit_char n] else utoa (n div 10) @ [digit_char (n mod 10)])"

declare utoa.simps [simp del]

definition itoa :: "int \<Rightarrow> string" where
  "itoa n = (if n < 0 then CHR ''-'' # utoa (nat (- n)) else utoa (nat n))"

definition digit_val :: "char \<Rightarrow> nat" where
  "digit_val c = of_char c - 48"

definition atou :: "string \<Rightarrow> nat" where
  "atou s = foldl (\<lambda>n c. 10 * n + digit_val c) 0 s"

lemma digit_val_char [simp]: "d < 10 \<Longrightarrow> digit_val (digit_char d) = d"
  by (simp add: digit_val_def digit_char_def)

lemma atou_utoa [simp]: "atou (utoa n) = n"
proof (induction n rule: utoa.induct)
  case (1 n)
  show ?case
  proof (cases "n < 10")
    case True
    then show ?thesis by (simp add: utoa.simps [of n] atou_def)
  next
    case False
    then show ?thesis
      using 1 by (simp add: utoa.simps [of n] atou_def)
  qed
qed

lemma utoa_inj: "utoa m = utoa n \<longleftrightarrow> m = n"
  by (metis atou_utoa)

lemma set_utoa: "c \<in> set (utoa n) \<Longrightarrow> 48 \<le> (of_char c :: nat) \<and> (of_char c :: nat) < 58"
proof (induction n rule: utoa.induct)
  case (1 n)
  then show ?case
    by (auto simp: digit_char_def utoa.simps [of n] split: if_splits)
qed

lemma utoa_neq_Nil [simp]: "utoa n \<noteq> []"
  by (subst utoa.simps) simp

lemma utoa_no_minus: "utoa k \<noteq> CHR ''-'' # s"
  using set_utoa [of "CHR ''-''" k] by auto

lemma itoa_inj: "itoa m = itoa n \<longleftrightarrow> m = n"
  by (auto simp: itoa_def utoa_inj utoa_no_minus utoa_no_minus [symmetric] split: if_splits)

lemma itoa_hd_neq: "itoa n \<noteq> CHR ''p'' # s" "itoa n \<noteq> CHR ''a'' # s"
  using set_utoa [of "CHR ''p''" "nat n"] set_utoa [of "CHR ''a''" "nat n"]
  by (auto simp: itoa_def split: if_splits)

subsection \<open>Lists\<close>

text \<open>
  \<open>append(xs[:i], xs[i+1:]...)\<close>: removal of the element at an index, and the removal of the
  first element equal to a given one (\<open>for i, q := range xs { if q == t { ...; break } }\<close>).
\<close>

definition remove_at :: "nat \<Rightarrow> 'a list \<Rightarrow> 'a list" where
  "remove_at i xs = take i xs @ drop (Suc i) xs"

lemma length_remove_at: "i < length xs \<Longrightarrow> length (remove_at i xs) = length xs - 1"
  by (simp add: remove_at_def)

lemma set_remove_at_subset: "set (remove_at i xs) \<subseteq> set xs"
  by (auto simp: remove_at_def dest: in_set_takeD in_set_dropD)

lemma distinct_remove_at: "distinct xs \<Longrightarrow> distinct (remove_at i xs)"
  by (auto simp: remove_at_def dest: in_set_takeD in_set_dropD)
     (meson disjoint_iff le_SucI order_refl set_take_disj_set_drop_if_distinct)

lemma set_remove_at_distinct:
  assumes "distinct xs" "i < length xs"
  shows "set (remove_at i xs) = set xs - {xs ! i}"
proof -
  have d: "xs = take i xs @ xs ! i # drop (Suc i) xs"
    using assms(2) by (rule id_take_nth_drop)
  with assms(1) have "distinct (take i xs @ xs ! i # drop (Suc i) xs)" by simp
  then have "xs ! i \<notin> set (take i xs)" "xs ! i \<notin> set (drop (Suc i) xs)" by auto
  moreover have "set xs = set (take i xs) \<union> {xs ! i} \<union> set (drop (Suc i) xs)"
    using arg_cong [OF d, of set] by auto
  ultimately show ?thesis by (auto simp: remove_at_def)
qed

text \<open>The first element that satisfies a predicate, and its in-place update.\<close>

fun upd_first :: "('a \<Rightarrow> bool) \<Rightarrow> ('a \<Rightarrow> 'a) \<Rightarrow> 'a list \<Rightarrow> 'a list" where
  "upd_first p f [] = []"
| "upd_first p f (x # xs) = (if p x then f x # xs else x # upd_first p f xs)"

lemma length_upd_first [simp]: "length (upd_first p f xs) = length xs"
  by (induction xs) auto

lemma upd_first_none: "(\<And>x. x \<in> set xs \<Longrightarrow> \<not> p x) \<Longrightarrow> upd_first p f xs = xs"
  by (induction xs) auto

lemma find_upd_first:
  "(\<And>x. p x \<Longrightarrow> p (f x)) \<Longrightarrow> List.find p (upd_first p f xs) = map_option f (List.find p xs)"
  by (induction xs) auto

lemma map_upd_first:
  "(\<And>x. g (f x) = g x) \<Longrightarrow> map g (upd_first p f xs) = map g xs"
  by (induction xs) auto

lemma upd_first_keyed:
  "distinct (map k xs) \<Longrightarrow> upd_first (\<lambda>x. k x = u) f xs = map (\<lambda>x. if k x = u then f x else x) xs"
proof (induction xs)
  case Nil
  then show ?case by simp
next
  case (Cons x xs)
  show ?case
  proof (cases "k x = u")
    case True
    with Cons.prems have "map (\<lambda>x. if k x = u then f x else x) xs = map (\<lambda>x. x) xs"
      by (intro map_cong) (auto simp: image_iff)
    with True show ?thesis by simp
  next
    case False
    with Cons show ?thesis by simp
  qed
qed

lemma find_keyed_other:
  "u \<noteq> v \<Longrightarrow> (\<And>x. k (f x) = k x) \<Longrightarrow>
   List.find (\<lambda>x. k x = v) (upd_first (\<lambda>x. k x = u) f xs) = List.find (\<lambda>x. k x = v) xs"
  by (induction xs) auto

lemma find_Some_prop: "List.find p xs = Some x \<Longrightarrow> x \<in> set xs \<and> p x"
  by (induction xs) (auto split: if_splits)

lemma find_None_prop: "List.find p xs = None \<longleftrightarrow> (\<forall>x \<in> set xs. \<not> p x)"
  by (induction xs) auto

subsection \<open>Trimming and searching, as in Go's strings and bytes packages\<close>

text \<open>
  The UTF-8 encodings of the code points that \<open>unicode.IsSpace\<close> accepts. Each of them starts
  with a byte that starts a code point and none is a suffix of a longer code point, so cutting
  them off at byte level is cutting them off at rune level. \<open>strip_all\<close> removes them from the
  front while there are any.
\<close>

definition go_spaces :: "string list" where
  "go_spaces =
    [''\<newline>'', [CHR 0x09], [CHR 0x0B], [CHR 0x0C], [CHR 0x0D], '' '',
     [CHR 0xC2, CHR 0x85], [CHR 0xC2, CHR 0xA0], [CHR 0xE1, CHR 0x9A, CHR 0x80]] @
    map (\<lambda>n. [CHR 0xE2, CHR 0x80, char_of (n :: nat)]) ([0x80..<0x8B] @ [0xA8, 0xA9, 0xAF]) @
    [[CHR 0xE2, CHR 0x81, CHR 0x9F], [CHR 0xE3, CHR 0x80, CHR 0x80]]"

function strip_all :: "string list \<Rightarrow> string \<Rightarrow> string" where
  "strip_all ws s =
    (case List.find (\<lambda>w. w \<noteq> [] \<and> has_prefix s w) ws of
       None \<Rightarrow> s
     | Some w \<Rightarrow> strip_all ws (drop (length w) s))"
  by pat_completeness auto
termination
proof (relation "measure (length \<circ> snd)")
  fix ws s w
  assume "List.find (\<lambda>w. w \<noteq> [] \<and> has_prefix s w) ws = Some w"
  then have "w \<noteq> []" "has_prefix s w" by (auto simp: find_Some_iff)
  then show "((ws, drop (length w) s), (ws, s)) \<in> measure (length \<circ> snd)"
    by (auto simp: has_prefix_iff)
qed simp

declare strip_all.simps [simp del]

definition trim_space :: "string \<Rightarrow> string" where
  "trim_space s = rev (strip_all (map rev go_spaces) (rev (strip_all go_spaces s)))"

lemma strip_all_None:
  "List.find (\<lambda>w. w \<noteq> [] \<and> has_prefix s w) ws = None \<Longrightarrow> strip_all ws s = s"
  by (simp add: strip_all.simps)

lemma strip_all_Some:
  "List.find (\<lambda>w. w \<noteq> [] \<and> has_prefix s w) ws = Some w \<Longrightarrow>
   strip_all ws s = strip_all ws (drop (length w) s)"
  by (simp add: strip_all.simps [of ws s])

lemma strip_all_suffix: "\<exists>r. s = r @ strip_all ws s"
proof (induction ws s rule: strip_all.induct)
  case (1 ws s)
  show ?case
  proof (cases "List.find (\<lambda>w. w \<noteq> [] \<and> has_prefix s w) ws")
    case (Some w)
    from "1" [OF Some] obtain r where "drop (length w) s = r @ strip_all ws (drop (length w) s)" ..
    then have "s = (take (length w) s @ r) @ strip_all ws (drop (length w) s)"
      by (metis append.assoc append_take_drop_id)
    then show ?thesis unfolding strip_all_Some [OF Some] by blast
  qed (simp add: strip_all_None)
qed

lemma length_strip_all: "length (strip_all ws s) \<le> length s"
  using strip_all_suffix [of s ws] by (metis length_append le_add2)

lemma strip_all_stop: "\<not> (\<exists>w \<in> set ws. w \<noteq> [] \<and> has_prefix (strip_all ws s) w)"
proof (induction ws s rule: strip_all.induct)
  case (1 ws s)
  show ?case
  proof (cases "List.find (\<lambda>w. w \<noteq> [] \<and> has_prefix s w) ws")
    case None
    then show ?thesis unfolding strip_all_None [OF None] by (auto simp: find_None_prop)
  next
    case (Some w)
    with 1 show ?thesis unfolding strip_all_Some [OF Some] by blast
  qed
qed

lemma length_trim_space: "length (trim_space s) \<le> length s"
  unfolding trim_space_def
  by (metis length_rev length_strip_all order_trans)

lemma trim_space_nil [simp]: "trim_space [] = []"
  using length_trim_space [of "[]"] by simp

definition printable :: "char \<Rightarrow> bool" where
  "printable c = (32 < (of_char c :: nat) \<and> (of_char c :: nat) < 127)"

lemma go_spaces_ends:
  "\<forall>w \<in> set go_spaces. w \<noteq> [] \<and> \<not> printable (hd w) \<and> \<not> printable (last w)"
  by (simp add: go_spaces_def printable_def)

lemma trim_space_printable:
  assumes "\<forall>c \<in> set s. printable c"
  shows "trim_space s = s"
proof -
  have np: "\<not> has_prefix t w" if "w \<noteq> []" "\<not> printable (hd w)" "set t \<subseteq> set s" for t w
    using that assms by (cases w) (auto simp: has_prefix_iff)
  have "strip_all go_spaces s = s"
    using np go_spaces_ends by (intro strip_all_None) (auto simp: find_None_prop)
  moreover have "\<not> has_prefix (rev s) (rev w)" if "w \<in> set go_spaces" for w
    using go_spaces_ends that by (intro np) (auto simp: hd_rev)
  then have "strip_all (map rev go_spaces) (rev s) = rev s"
    by (intro strip_all_None) (auto simp: find_None_prop)
  ultimately show ?thesis by (simp add: trim_space_def)
qed

text \<open>\<open>strings.Contains\<close>, and \<open>strings.ToLower\<close> on ASCII letters.\<close>

fun contains :: "string \<Rightarrow> string \<Rightarrow> bool" where
  "contains [] p = (p = [])"
| "contains (c # s) p = (has_prefix (c # s) p \<or> contains s p)"

lemma contains_iff: "contains s p \<longleftrightarrow> (\<exists>a b. s = a @ p @ b)"
proof (induction s)
  case Nil
  then show ?case by auto
next
  case (Cons c s)
  have "(\<exists>a b. c # s = a @ p @ b) \<longleftrightarrow> (\<exists>b. c # s = p @ b) \<or> (\<exists>a b. s = a @ p @ b)"
  proof
    assume "\<exists>a b. c # s = a @ p @ b"
    then obtain a b where "c # s = a @ p @ b" by blast
    then show "(\<exists>b. c # s = p @ b) \<or> (\<exists>a b. s = a @ p @ b)" by (cases a) auto
  next
    assume "(\<exists>b. c # s = p @ b) \<or> (\<exists>a b. s = a @ p @ b)"
    then show "\<exists>a b. c # s = a @ p @ b" by (metis append_Cons append_Nil)
  qed
  with Cons show ?case by (simp add: has_prefix_iff)
qed

text \<open>The runes below 32 and the rune 127 are encoded as those bytes, and no other rune contains them.\<close>

definition has_control :: "string \<Rightarrow> bool" where
  "has_control s = (\<exists>c \<in> set s. (of_char c :: nat) < 32 \<or> (of_char c :: nat) = 127)"

subsection \<open>Hexadecimal, splitting and searching from the end\<close>

definition hex_digit :: "nat \<Rightarrow> char" where
  "hex_digit d = (if d < 10 then char_of (48 + d) else char_of (87 + d))"

text \<open>\<open>hex.EncodeToString\<close> of a digest.\<close>

definition hex_encode :: "nat list \<Rightarrow> string" where
  "hex_encode bs = concat (map (\<lambda>b. [hex_digit (b div 16 mod 16), hex_digit (b mod 16)]) bs)"

definition is_hex :: "char \<Rightarrow> bool" where
  "is_hex c = (let n = (of_char c :: nat) in
     48 \<le> n \<and> n \<le> 57 \<or> 65 \<le> n \<and> n \<le> 70 \<or> 97 \<le> n \<and> n \<le> 102)"

definition ascii_lower :: "char \<Rightarrow> char" where
  "ascii_lower c = (let n = (of_char c :: nat) in if 65 \<le> n \<and> n \<le> 90 then char_of (n + 32) else c)"

text \<open>
  \<open>strings.ToLower\<close> as far as a search for a text of ASCII letters and Chinese characters can see:
  beside the ASCII capitals, two runes have an ASCII lower case, U+0130 (i) and U+212A (k); the
  lower case of any other rune is no ASCII letter and no Chinese character.
\<close>

fun to_lower :: "string \<Rightarrow> string" where
  "to_lower [] = []"
| "to_lower (c # s) =
    (if has_prefix (c # s) (bytes [0xC4, 0xB0]) then CHR ''i'' # to_lower (drop 1 s)
     else if has_prefix (c # s) (bytes [0xE2, 0x84, 0xAA]) then CHR ''k'' # to_lower (drop 2 s)
     else ascii_lower c # to_lower s)"

text \<open>The rest after the last occurrence of a pattern that is not empty (\<open>strings.LastIndex\<close>).\<close>

fun after_last :: "string \<Rightarrow> string \<Rightarrow> string option" where
  "after_last p [] = None"
| "after_last p (c # cs) =
    (case after_last p cs of
       Some r \<Rightarrow> Some r
     | None \<Rightarrow> if has_prefix (c # cs) p then Some (drop (length p) (c # cs)) else None)"

text \<open>\<open>strings.SplitN(s, string(c), 2)[0]\<close>: the text before the first separator.\<close>

definition before :: "char \<Rightarrow> string \<Rightarrow> string" where
  "before c s = takeWhile (\<lambda>d. d \<noteq> c) s"

text \<open>\<open>strings.Join(parts, " ")\<close>.\<close>

fun join_space :: "string list \<Rightarrow> string" where
  "join_space [] = []"
| "join_space [p] = p"
| "join_space (p # q # ps) = p @ '' '' @ join_space (q # ps)"

subsection \<open>Integers of the machine\<close>

text \<open>\<open>wrap64\<close> is the overflow of int and int64 arithmetic, \<open>go_int\<close> the range of an int.\<close>

definition wrap64 :: "int \<Rightarrow> int" where
  "wrap64 x = (x + 2 ^ 63) mod 2 ^ 64 - 2 ^ 63"

definition go_int :: "int \<Rightarrow> bool" where
  "go_int x = (- (2 ^ 63) \<le> x \<and> x < 2 ^ 63)"

lemma wrap64_id [simp]: "go_int x \<Longrightarrow> wrap64 x = x"
  by (simp add: go_int_def wrap64_def)

lemma wrap64_range [simp]: "go_int (wrap64 x)"
  by (simp add: go_int_def wrap64_def)

end
