(* ===== verification/Admission.thy ===== *)
theory Admission
  imports Prelude
begin

text \<open>
  The model admission scheduler of internal/app/admission.go: one bounded queue shared by all
  authenticated applications, execution slots counted per key, per model and per upstream
  account, and a byte budget for response buffers.

  A \<open>*modelTicket\<close> is an index into the store \<open>a_tickets\<close>; the lease that wraps it (a pointer to
  the scheduler, the ticket and \<open>remaining\<close>) is one to one with it, so \<open>remaining\<close> is a field of
  the ticket. Every definition below is one critical section of the scheduler's mutex, and takes
  the readings of the clock and of the context that the section makes. An account is named by
  its resource key. The account chooser of a ticket is a closure over state outside this file
  (the account pool), so its answer is a function of the number of calls made so far, which
  leaves every call's answer free, and of the busy set it is given. \<open>memoryUsage\<close> is the reading
  of the memory gauge in force (None where the guard is off). Counts are int: a Go int
  that counts live requests does not reach \<open>2 ^ 63\<close>.
\<close>

subsection \<open>State\<close>

type_synonym chooser = "nat \<Rightarrow> (string \<Rightarrow> bool) \<Rightarrow> string option \<times> string option"

record ticket =
  t_key :: string
  t_limit :: int
  t_ready :: bool
  t_running :: bool
  t_since :: int
  t_shared :: bool
  t_model :: string
  t_chooseAccount :: "chooser option"
  t_account :: "string option"
  t_accountHeld :: bool
  t_selectionErr :: "string option"
  t_bufferBytes :: int
  t_bufferHeld :: bool
  t_released :: bool
  t_remaining :: int

record admission =
  a_unlimited :: bool
  a_capacity :: int
  a_queueSize :: int
  a_keyQueue :: int
  a_wait :: int
  a_limits :: counts
  a_active :: int
  a_sharedActive :: int
  a_sharedCapacity :: int
  a_userQueue :: int
  a_sharedQueue :: int
  a_byKey :: counts
  a_queue :: "nat list"
  a_served :: counts
  a_sequence :: int
  a_changed :: nat
  a_rejected :: counts
  a_accountLimit :: int
  a_byAccount :: counts
  a_byModel :: counts
  a_bufferBudget :: int
  a_sharedBufferBudget :: int
  a_buffers :: int
  a_sharedBuffers :: int
  a_memoryHigh :: int
  a_memoryUsage :: "int option"
  a_lastPressureGC :: int
  a_tickets :: "ticket list"
  a_calls :: nat

datatype adm_error = LocalOverload string | Canceled | CtxError string | ChooserError string

subsection \<open>Construction\<close>

record adm_config =
  ModelLimitsDisabled :: bool
  MaxConcurrentRequests :: int
  ModelQueueSize :: int
  ModelKeyQueueSize :: int
  ModelQueueWaitSeconds :: int
  ModelKeyLimits :: "counts option"
  PortalUserQueueSize :: int
  PortalSharedQueueSize :: int
  PortalSharedConcurrency :: int
  WorkBuddyAccountConcurrency :: int
  MaxResponseBytes :: int
  ModelBufferBudgetBytes :: int
  ModelMemoryGuard :: bool
  ModelMemoryHighBytes :: int

definition positiveOr :: "int \<Rightarrow> int \<Rightarrow> int" where
  "positiveOr v fallback = (if v > 0 then v else fallback)"

definition DefaultMaxResponseBytes :: int where
  "DefaultMaxResponseBytes = 128 * 2 ^ 20"

definition second :: int where
  "second = 1000000000"

definition empty_admission :: admission where
  "empty_admission = \<lparr>
     a_unlimited = False, a_capacity = 0, a_queueSize = 0, a_keyQueue = 0, a_wait = 0,
     a_limits = Map.empty, a_active = 0, a_sharedActive = 0, a_sharedCapacity = 0,
     a_userQueue = 0, a_sharedQueue = 0, a_byKey = Map.empty, a_queue = [],
     a_served = Map.empty, a_sequence = 0, a_changed = 0, a_rejected = Map.empty,
     a_accountLimit = 0, a_byAccount = Map.empty, a_byModel = Map.empty,
     a_bufferBudget = 0, a_sharedBufferBudget = 0, a_buffers = 0, a_sharedBuffers = 0,
     a_memoryHigh = 0, a_memoryUsage = None, a_lastPressureGC = 0,
     a_tickets = [], a_calls = 0\<rparr>"

text \<open>
  \<open>ModelKeyLimits\<close> is the decoded document: None when the setting is empty or does not decode,
  both of which leave the table empty. \<open>gauge\<close> is the first reading of the memory gauge.
\<close>

definition newModelAdmission :: "adm_config \<Rightarrow> int \<Rightarrow> admission" where
  "newModelAdmission c gauge =
    (let a = empty_admission\<lparr>
           a_unlimited := ModelLimitsDisabled c,
           a_capacity := positiveOr (MaxConcurrentRequests c) 13,
           a_queueSize := positiveOr (ModelQueueSize c) 32,
           a_keyQueue := positiveOr (ModelKeyQueueSize c) 16,
           a_wait := positiveOr (ModelQueueWaitSeconds c) 60 * second\<rparr>
     in if a_unlimited a then a else
       let limits = (case ModelKeyLimits c of None \<Rightarrow> Map.empty | Some m \<Rightarrow> m);
           sharedQueue = positiveOr (PortalSharedQueueSize c) 28;
           sharedQueue = (if a_queueSize a > 1 \<and> sharedQueue \<ge> a_queueSize a
                          then a_queueSize a - 1 else sharedQueue);
           sharedCapacity = positiveOr (PortalSharedConcurrency c) 12;
           sharedCapacity = (if a_capacity a > 1 \<and> sharedCapacity \<ge> a_capacity a
                             then a_capacity a - 1 else sharedCapacity);
           responseLimit = (if MaxResponseBytes c \<le> 0 then DefaultMaxResponseBytes
                            else MaxResponseBytes c);
           bufferBudget = (if ModelBufferBudgetBytes c \<le> 0
                           then 4 * responseLimit * a_capacity a
                           else ModelBufferBudgetBytes c)
       in a\<lparr>
           a_limits := limits,
           a_userQueue := positiveOr (PortalUserQueueSize c) 6,
           a_sharedQueue := sharedQueue,
           a_sharedCapacity := min sharedCapacity (a_capacity a),
           a_accountLimit := positiveOr (WorkBuddyAccountConcurrency c) 4,
           a_bufferBudget := bufferBudget,
           a_sharedBufferBudget := max 0 (bufferBudget - 4 * responseLimit),
           a_memoryHigh := (if ModelMemoryGuard c
                            then (if ModelMemoryHighBytes c \<le> 0 then 256 * 2 ^ 20
                                  else ModelMemoryHighBytes c)
                            else 0),
           a_memoryUsage := (if ModelMemoryGuard c then Some gauge else None)\<rparr>)"

subsection \<open>Tickets, buffers and the shared reserve\<close>

definition tkt :: "admission \<Rightarrow> nat \<Rightarrow> ticket" where
  "tkt a t = a_tickets a ! t"

definition mod_tkt :: "nat \<Rightarrow> (ticket \<Rightarrow> ticket) \<Rightarrow> admission \<Rightarrow> admission" where
  "mod_tkt t f a = a\<lparr>a_tickets := (a_tickets a)[t := f (a_tickets a ! t)]\<rparr>"

definition memory_pressure :: "admission \<Rightarrow> bool" where
  "memory_pressure a = (case a_memoryUsage a of None \<Rightarrow> False | Some n \<Rightarrow> n \<ge> a_memoryHigh a)"

definition bufferRoomLocked :: "admission \<Rightarrow> ticket \<Rightarrow> bool" where
  "bufferRoomLocked a t =
    (if memory_pressure a then False
     else if t_bufferHeld t then True
     else a_buffers a + t_bufferBytes t \<le> a_bufferBudget a \<and>
          (\<not> t_shared t \<or> a_sharedBuffers a + t_bufferBytes t \<le> a_sharedBufferBudget a))"

definition reserveBufferLocked :: "nat \<Rightarrow> admission \<Rightarrow> admission" where
  "reserveBufferLocked t a =
    (let k = tkt a t in
     if t_bufferHeld k then a
     else (mod_tkt t (\<lambda>k. k\<lparr>t_bufferHeld := True\<rparr>) a)\<lparr>
            a_buffers := a_buffers a + t_bufferBytes k,
            a_sharedBuffers := (if t_shared k then a_sharedBuffers a + t_bufferBytes k
                                else a_sharedBuffers a)\<rparr>)"

definition releaseBufferLocked :: "nat \<Rightarrow> admission \<Rightarrow> admission" where
  "releaseBufferLocked t a =
    (let k = tkt a t in
     if \<not> t_bufferHeld k then a
     else (mod_tkt t (\<lambda>k. k\<lparr>t_bufferHeld := False\<rparr>) a)\<lparr>
            a_buffers := a_buffers a - t_bufferBytes k,
            a_sharedBuffers := (if t_shared k then a_sharedBuffers a - t_bufferBytes k
                                else a_sharedBuffers a)\<rparr>)"

definition sharedRoomLocked :: "admission \<Rightarrow> ticket \<Rightarrow> bool" where
  "sharedRoomLocked a t = (\<not> t_shared t \<or> a_sharedActive a < a_sharedCapacity a)"

text \<open>\<open>close(a.changed); a.changed = make(chan struct{})\<close>: the channel's generation.\<close>

definition signalLocked :: "admission \<Rightarrow> admission" where
  "signalLocked a = a\<lparr>a_changed := Suc (a_changed a)\<rparr>"

definition reject_count :: "string \<Rightarrow> admission \<Rightarrow> admission" where
  "reject_count code a = a\<lparr>a_rejected := bump (a_rejected a) code\<rparr>"

subsection \<open>Dispatch\<close>

definition busy_accounts :: "admission \<Rightarrow> string \<Rightarrow> bool" where
  "busy_accounts a uid =
    (case a_byAccount a uid of None \<Rightarrow> False | Some n \<Rightarrow> n \<ge> a_accountLimit a)"

text \<open>\<open>t.account, t.selectionErr = t.chooseAccount(busy)\<close>.\<close>

definition consult :: "nat \<Rightarrow> chooser \<Rightarrow> admission \<Rightarrow> admission" where
  "consult t chs a =
    (let r = chs (a_calls a) (busy_accounts a)
     in (mod_tkt t (\<lambda>k. k\<lparr>t_account := fst r, t_selectionErr := snd r\<rparr>) a)\<lparr>
          a_calls := Suc (a_calls a)\<rparr>)"

text \<open>The slot is free for this ticket: the test that dispatch, acquire and bind share.\<close>

definition admissible :: "admission \<Rightarrow> ticket \<Rightarrow> bool" where
  "admissible a k =
    (cnt (a_byKey a) (t_key k) < t_limit k \<and> sharedRoomLocked a k \<and> bufferRoomLocked a k)"

text \<open>The least loaded key goes first, then the one served longest ago.\<close>

definition better :: "admission \<Rightarrow> nat \<Rightarrow> nat \<Rightarrow> bool" where
  "better a t p =
    (let k = t_key (tkt a t); pk = t_key (tkt a p) in
     cnt (a_byKey a) k < cnt (a_byKey a) pk \<or>
     (cnt (a_byKey a) k = cnt (a_byKey a) pk \<and> cnt (a_served a) k < cnt (a_served a) pk))"

definition take_pick :: "admission \<Rightarrow> nat \<Rightarrow> nat option \<Rightarrow> nat option" where
  "take_pick a i pick =
    (case pick of None \<Rightarrow> Some i
     | Some p \<Rightarrow> (if better a (a_queue a ! i) (a_queue a ! p) then Some i else Some p))"

text \<open>One pass over the queue from position \<open>i\<close> on: the chosen position, and the state with the
  answers of the choosers it consulted.\<close>

fun scan :: "admission \<Rightarrow> nat \<Rightarrow> nat list \<Rightarrow> nat option \<Rightarrow> admission \<times> nat option" where
  "scan a i [] pick = (a, pick)"
| "scan a i (t # q) pick =
    (let k = tkt a t in
     if \<not> t_ready k \<or> \<not> admissible a k then scan a (Suc i) q pick
     else
       case t_chooseAccount k of
         None \<Rightarrow> scan a (Suc i) q (take_pick a i pick)
       | Some chs \<Rightarrow>
           if t_accountHeld k then scan a (Suc i) q (take_pick a i pick)
           else
             let a' = consult t chs a in
             if t_account (tkt a' t) = None \<and> t_selectionErr (tkt a' t) = None
             then scan a' (Suc i) q pick
             else scan a' (Suc i) q (take_pick a' i pick))"

text \<open>The counters of a ticket that starts to run.\<close>

definition occupy :: "nat \<Rightarrow> admission \<Rightarrow> admission" where
  "occupy t a =
    (let k = tkt a t in
     a\<lparr>a_active := a_active a + 1,
       a_sharedActive := (if t_shared k then a_sharedActive a + 1 else a_sharedActive a),
       a_byModel := (if t_shared k then bump (a_byModel a) (t_model k) else a_byModel a),
       a_byKey := bump (a_byKey a) (t_key k),
       a_sequence := a_sequence a + 1,
       a_served := (a_served a)(t_key k \<mapsto> a_sequence a + 1)\<rparr>)"

definition set_running :: "nat \<Rightarrow> bool \<Rightarrow> admission \<Rightarrow> admission" where
  "set_running t b a = mod_tkt t (\<lambda>k. k\<lparr>t_running := b\<rparr>) a"

definition hold_account :: "nat \<Rightarrow> admission \<Rightarrow> admission" where
  "hold_account t a =
    (case t_account (tkt a t) of
       None \<Rightarrow> a
     | Some uid \<Rightarrow>
         if t_accountHeld (tkt a t) then a
         else (mod_tkt t (\<lambda>k. k\<lparr>t_accountHeld := True\<rparr>) a)\<lparr>
                a_byAccount := bump (a_byAccount a) uid\<rparr>)"

definition start_ticket :: "nat \<Rightarrow> admission \<Rightarrow> admission" where
  "start_ticket t a =
    occupy t (hold_account t (reserveBufferLocked t (set_running t True a)))"

definition dispatch_start :: "nat \<Rightarrow> admission \<Rightarrow> admission" where
  "dispatch_start p a =
    start_ticket (a_queue a ! p) (a\<lparr>a_queue := remove_at p (a_queue a)\<rparr>)"

lemma queue_simps [simp]:
  "a_queue (mod_tkt t f a) = a_queue a"
  "a_queue (consult t c a) = a_queue a"
  "a_queue (reserveBufferLocked t a) = a_queue a"
  "a_queue (releaseBufferLocked t a) = a_queue a"
  "a_queue (set_running t b a) = a_queue a"
  "a_queue (hold_account t a) = a_queue a"
  "a_queue (occupy t a) = a_queue a"
  by (auto simp: mod_tkt_def consult_def reserveBufferLocked_def releaseBufferLocked_def
      set_running_def hold_account_def occupy_def Let_def split: option.splits)

lemma scan_queue: "a_queue (fst (scan a i q pick)) = a_queue a"
  by (induction a i q pick rule: scan.induct) (simp_all add: Let_def split: option.splits)

lemma scan_pick_range:
  "snd (scan a i q pick) = Some p \<Longrightarrow> (\<And>p. pick = Some p \<Longrightarrow> p < i + length q) \<Longrightarrow>
   p < i + length q"
proof (induction a i q pick rule: scan.induct)
  case (1 a i pick)
  then show ?case by simp
next
  case (2 a i t q pick)
  then show ?case
    by (fastforce simp: Let_def take_pick_def split: option.splits if_splits)
qed

lemma length_dispatch_start:
  assumes "(a', Some p) = scan a 0 (a_queue a) None"
  shows "length (a_queue (dispatch_start p a')) < length (a_queue a)"
proof -
  have "a_queue a' = a_queue a"
    using scan_queue [of a 0 "a_queue a" None] assms by (metis fst_conv)
  moreover have "p < length (a_queue a)"
    using scan_pick_range [of a 0 "a_queue a" None p] assms by (metis add_0 option.distinct(1) snd_conv)
  ultimately show ?thesis
    by (simp add: dispatch_start_def start_ticket_def length_remove_at)
qed

function dispatchLocked :: "admission \<Rightarrow> admission" where
  "dispatchLocked a =
    (if a_active a < a_capacity a then
       (case scan a 0 (a_queue a) None of
          (a', None) \<Rightarrow> signalLocked a'
        | (a', Some p) \<Rightarrow> dispatchLocked (dispatch_start p a'))
     else signalLocked a)"
  by pat_completeness auto
termination
  by (relation "measure (length \<circ> a_queue)") (auto dest: length_dispatch_start)

declare dispatchLocked.simps [simp del]

subsection \<open>Queueing\<close>

definition enqueueLocked :: "nat \<Rightarrow> admission \<Rightarrow> admission \<times> adm_error option" where
  "enqueueLocked t a =
    (let k = tkt a t;
         sharedCount = int (length (filter (\<lambda>q. t_shared (tkt a q)) (a_queue a)));
         count = int (length (filter (\<lambda>q. t_key (tkt a q) = t_key k) (a_queue a)));
         queueLimit = (if t_shared k \<and> a_userQueue a < a_keyQueue a
                       then a_userQueue a else a_keyQueue a);
         reject = (\<lambda>code. (reject_count code a, Some (LocalOverload code)))
     in if t_shared k \<and> sharedCount \<ge> a_sharedQueue a then reject ''shared_queue_full''
        else if count \<ge> queueLimit then reject ''key_queue_full''
        else if int (length (a_queue a)) < a_queueSize a
             then (a\<lparr>a_queue := a_queue a @ [t]\<rparr>, None)
        else reject ''model_queue_full'')"

subsection \<open>Admission\<close>

definition new_ticket :: "string \<Rightarrow> int \<Rightarrow> int \<Rightarrow> string \<Rightarrow> int \<Rightarrow> int \<Rightarrow> ticket" where
  "new_ticket key limit now model bufferBytes remaining = \<lparr>
     t_key = key, t_limit = limit, t_ready = True, t_running = False, t_since = now,
     t_shared = has_prefix key ''portal-user-'', t_model = model, t_chooseAccount = None,
     t_account = None, t_accountHeld = False, t_selectionErr = None,
     t_bufferBytes = bufferBytes, t_bufferHeld = False, t_released = False,
     t_remaining = remaining\<rparr>"

definition add_ticket :: "ticket \<Rightarrow> admission \<Rightarrow> admission" where
  "add_ticket k a = a\<lparr>a_tickets := a_tickets a @ [k]\<rparr>"

definition effective_limit :: "admission \<Rightarrow> string \<Rightarrow> int \<Rightarrow> int" where
  "effective_limit a key limitOverride =
    (let limit = a_capacity a;
         n = cnt (a_limits a) key;
         limit = (if n > 0 \<and> n < limit then n else limit)
     in if limitOverride > 0 \<and> limitOverride < limit then limitOverride else limit)"

text \<open>The unlimited branch counts without queueing.\<close>

definition acquire_unlimited :: "int \<Rightarrow> string \<Rightarrow> string \<Rightarrow> admission \<Rightarrow> admission" where
  "acquire_unlimited now key model a =
    (let k = (new_ticket key 0 now model 0 0)\<lparr>t_running := True\<rparr>
     in (add_ticket k a)\<lparr>
          a_active := a_active a + 1,
          a_byKey := bump (a_byKey a) key,
          a_sharedActive := (if t_shared k then a_sharedActive a + 1 else a_sharedActive a),
          a_byModel := (if t_shared k then bump (a_byModel a) model else a_byModel a)\<rparr>)"

text \<open>
  Up to the await: \<open>Inl\<close> is the error returned to the caller, \<open>Inr t\<close> the new ticket, running or
  queued. In the limited mode the caller goes on to await it.
\<close>

definition acquireWithBudget ::
    "int \<Rightarrow> string option \<Rightarrow> string \<Rightarrow> int \<Rightarrow> string \<Rightarrow> int \<Rightarrow> admission \<Rightarrow>
     admission \<times> (adm_error + nat)" where
  "acquireWithBudget now ctxErr key limitOverride model bufferBytes a =
    (case ctxErr of Some e \<Rightarrow> (a, Inl (CtxError e))
     | None \<Rightarrow>
       let t = length (a_tickets a) in
       if a_unlimited a then (acquire_unlimited now key model a, Inr t)
       else
         let limit = effective_limit a key limitOverride;
             k = new_ticket key limit now model bufferBytes (a_wait a)
         in if bufferBytes > a_bufferBudget a \<or>
               (t_shared k \<and> bufferBytes > a_sharedBufferBudget a)
            then (a, Inl (LocalOverload ''response_buffer_budget''))
            else
              let a1 = dispatchLocked (add_ticket k a) in
              if a_active a1 < a_capacity a1 \<and> admissible a1 (tkt a1 t)
              then (occupy t (reserveBufferLocked t (set_running t True a1)), Inr t)
              else
                case enqueueLocked t a1 of
                  (a2, Some e) \<Rightarrow> (a2, Inl e)
                | (a2, None) \<Rightarrow> (a2, Inr t))"

definition acquireWithLimit where
  "acquireWithLimit now ctxErr key limitOverride model a =
     acquireWithBudget now ctxErr key limitOverride model 0 a"

definition acquire where
  "acquire now ctxErr key a = acquireWithLimit now ctxErr key 0 [] a"

subsection \<open>Release\<close>

definition releaseAccountLocked :: "nat \<Rightarrow> admission \<Rightarrow> admission" where
  "releaseAccountLocked t a =
    (if t_accountHeld (tkt a t) then
       (mod_tkt t (\<lambda>k. k\<lparr>t_accountHeld := False\<rparr>) a)\<lparr>
          a_byAccount := drop_one (a_byAccount a) (the (t_account (tkt a t)))\<rparr>
     else a)"

definition releaseModelLocked :: "string \<Rightarrow> admission \<Rightarrow> admission" where
  "releaseModelLocked model a = a\<lparr>a_byModel := drop_one (a_byModel a) model\<rparr>"

text \<open>The counters of a ticket that stops running, in remove, bind and throttle alike.\<close>

definition vacate :: "nat \<Rightarrow> admission \<Rightarrow> admission" where
  "vacate t a =
    (let k = tkt a t;
         a1 = a\<lparr>a_active := a_active a - 1,
                 a_sharedActive := (if t_shared k then a_sharedActive a - 1
                                    else a_sharedActive a)\<rparr>;
         a2 = (if t_shared k then releaseModelLocked (t_model k) a1 else a1)
     in set_running t False (a2\<lparr>a_byKey := drop_one (a_byKey a2) (t_key k)\<rparr>))"

definition forget_served :: "string \<Rightarrow> admission \<Rightarrow> admission" where
  "forget_served key a =
    (if cnt (a_byKey a) key = 0 \<and> \<not> (\<exists>q \<in> set (a_queue a). t_key (tkt a q) = key)
     then a\<lparr>a_served := (a_served a)(key := None)\<rparr> else a)"

definition removeLocked :: "nat \<Rightarrow> admission \<Rightarrow> admission" where
  "removeLocked t a =
    (let a1 = releaseBufferLocked t (releaseAccountLocked t a);
         a2 = (if t_running (tkt a1 t) then vacate t a1
               else a1\<lparr>a_queue := remove1 t (a_queue a1)\<rparr>)
     in forget_served (t_key (tkt a2 t)) a2)"

definition release :: "nat \<Rightarrow> admission \<Rightarrow> admission" where
  "release t a =
    (if t_released (tkt a t) then a
     else dispatchLocked (removeLocked t (mod_tkt t (\<lambda>k. k\<lparr>t_released := True\<rparr>) a)))"

subsection \<open>Binding an upstream account\<close>

datatype bind_result = BindError adm_error | BindAccount "string option" | BindAwait

text \<open>
  The unlimited branch calls the chooser outside the mutex, with no account busy, and only then
  enters the section that records the account.
\<close>

definition bind_unlimited ::
    "string option \<Rightarrow> chooser \<Rightarrow> nat \<Rightarrow> admission \<Rightarrow> admission \<times> bind_result" where
  "bind_unlimited ctxErr chs t a =
    (case ctxErr of Some e \<Rightarrow> (a, BindError (CtxError e))
     | None \<Rightarrow>
       let r = chs (a_calls a) (\<lambda>_. False);
           a = a\<lparr>a_calls := Suc (a_calls a)\<rparr>
       in case r of
            (_, Some e) \<Rightarrow> (a, BindError (ChooserError e))
          | (None, None) \<Rightarrow> (a, BindAccount None)
          | (Some uid, None) \<Rightarrow>
              if t_released (tkt a t) then (a, BindError Canceled)
              else
                let a1 = mod_tkt t (\<lambda>k. k\<lparr>t_account := Some uid, t_accountHeld := True\<rparr>)
                           (releaseAccountLocked t a)
                in (a1\<lparr>a_byAccount := bump (a_byAccount a1) uid\<rparr>, BindAccount (Some uid)))"

text \<open>Both permits go back before the queue is served: account, buffer and slot.\<close>

definition bind_yield :: "chooser \<Rightarrow> nat \<Rightarrow> admission \<Rightarrow> admission" where
  "bind_yield chs t a =
    mod_tkt t (\<lambda>k. k\<lparr>t_chooseAccount := Some chs, t_account := None, t_selectionErr := None\<rparr>)
      (vacate t (releaseBufferLocked t (releaseAccountLocked t a)))"

definition bindProviderAccount ::
    "string option \<Rightarrow> chooser \<Rightarrow> nat \<Rightarrow> admission \<Rightarrow> admission \<times> bind_result" where
  "bindProviderAccount ctxErr chs t a =
    (if a_unlimited a then bind_unlimited ctxErr chs t a
     else if t_released (tkt a t) \<or> \<not> t_running (tkt a t) then (a, BindError Canceled)
     else
       let a1 = dispatchLocked (bind_yield chs t a);
           a2 = (if a_active a1 < a_capacity a1 \<and> admissible a1 (tkt a1 t)
                 then consult t chs a1 else a1)
       in case t_selectionErr (tkt a2 t) of
            Some e \<Rightarrow> (a2, BindError (ChooserError e))
          | None \<Rightarrow>
            let a3 = (case t_account (tkt a2 t) of
                        None \<Rightarrow> a2
                      | Some _ \<Rightarrow> start_ticket t a2)
            in if t_running (tkt a3 t) then (signalLocked a3, BindAwait)
               else case enqueueLocked t a3 of
                      (a4, Some e) \<Rightarrow> (a4, BindError e)
                    | (a4, None) \<Rightarrow> (signalLocked a4, BindAwait))"

subsection \<open>Waiting\<close>

datatype await_result = AwaitGranted | AwaitSelectionErr string | AwaitFailed adm_error | AwaitAgain

text \<open>
  One turn of the await loop: \<open>ctxErr\<close> is the context's error, \<open>elapsed\<close> the time since the wait
  began. After \<open>AwaitSelectionErr\<close> the caller releases the lease and returns that error;
  \<open>AwaitAgain\<close> sleeps until the context ends, the timer fires, the channel closes or the ticker
  ticks.
\<close>

definition await_turn ::
    "string option \<Rightarrow> int \<Rightarrow> nat \<Rightarrow> admission \<Rightarrow> admission \<times> await_result" where
  "await_turn ctxErr elapsed t a =
    (if ctxErr = None \<and> t_running (tkt a t) then
       let a1 = mod_tkt t (\<lambda>k. k\<lparr>t_remaining := t_remaining k - elapsed\<rparr>) a
       in (case t_selectionErr (tkt a1 t) of
             Some e \<Rightarrow> (a1, AwaitSelectionErr e)
           | None \<Rightarrow> (a1, AwaitGranted))
     else if ctxErr \<noteq> None \<or> elapsed \<ge> t_remaining (tkt a t) then
       let a1 = (if ctxErr = None then reject_count ''model_queue_timeout'' a else a);
           e = (case ctxErr of None \<Rightarrow> LocalOverload ''model_queue_timeout'' | Some e \<Rightarrow> CtxError e)
       in (dispatchLocked (removeLocked t a1), AwaitFailed e)
     else (a, AwaitAgain))"

text \<open>The ticker's two sections: claiming the garbage collection, then serving the queue.\<close>

definition tick_collect :: "int \<Rightarrow> admission \<Rightarrow> admission \<times> bool" where
  "tick_collect now a =
    (let collect = memory_pressure a \<and> now - a_lastPressureGC a \<ge> 5 * second
     in (if collect then a\<lparr>a_lastPressureGC := now\<rparr> else a, collect))"

subsection \<open>Throttling\<close>

definition throttle_begin :: "int \<Rightarrow> nat \<Rightarrow> admission \<Rightarrow> admission \<times> adm_error option" where
  "throttle_begin start t a =
    (if t_released (tkt a t) \<or> \<not> t_running (tkt a t) then (a, Some Canceled)
     else
       case enqueueLocked t (mod_tkt t (\<lambda>k. k\<lparr>t_ready := False, t_since := start\<rparr>) a) of
         (a1, Some e) \<Rightarrow> (mod_tkt t (\<lambda>k. k\<lparr>t_ready := True\<rparr>) a1, Some e)
       | (a1, None) \<Rightarrow> (dispatchLocked (vacate t a1), None))"

definition throttle_resume :: "nat \<Rightarrow> admission \<Rightarrow> admission" where
  "throttle_resume t a = dispatchLocked (mod_tkt t (\<lambda>k. k\<lparr>t_ready := True\<rparr>) a)"

text \<open>
  After the pacing wait: \<open>waitErr\<close> is its result (\<open>Some DeadlineExceeded\<close> or another error),
  \<open>None\<close> in the outcome means the lease goes on to await.
\<close>

definition DeadlineExceeded :: string where
  "DeadlineExceeded = ''context deadline exceeded''"

definition throttle_end ::
    "string option \<Rightarrow> string option \<Rightarrow> int \<Rightarrow> nat \<Rightarrow> admission \<Rightarrow>
     admission \<times> adm_error option" where
  "throttle_end ctxErr waitErr elapsed t a =
    (let a1 = mod_tkt t (\<lambda>k. k\<lparr>t_remaining := t_remaining k - elapsed\<rparr>) a
     in case waitErr of
          Some e \<Rightarrow>
            let a2 = release t a1 in
            (case ctxErr of Some c \<Rightarrow> (a2, Some (CtxError c))
             | None \<Rightarrow>
                if e = DeadlineExceeded
                then (reject_count ''model_queue_timeout'' a2,
                      Some (LocalOverload ''model_queue_timeout''))
                else (a2, Some (CtxError e)))
        | None \<Rightarrow>
            if t_remaining (tkt a1 t) \<le> 0
            then (reject_count ''model_queue_timeout'' (release t a1),
                  Some (LocalOverload ''model_queue_timeout''))
            else (throttle_resume t a1, None))"

subsection \<open>The snapshot\<close>

definition waiting_reason :: "admission \<Rightarrow> ticket \<Rightarrow> string" where
  "waiting_reason a k =
    (if \<not> t_ready k then ''upstream_pacing''
     else if cnt (a_byKey a) (t_key k) \<ge> t_limit k then ''key_or_user_limit''
     else if \<not> sharedRoomLocked a k then ''shared_limit''
     else if memory_pressure a then ''memory_pressure''
     else if \<not> t_bufferHeld k \<and>
             (a_buffers a + t_bufferBytes k > a_bufferBudget a \<or>
              t_shared k \<and> a_sharedBuffers a + t_bufferBytes k > a_sharedBufferBudget a)
          then ''response_buffer_budget''
     else if a_active a \<ge> a_capacity a then ''execution_limit''
     else if t_chooseAccount k \<noteq> None \<and> \<not> t_accountHeld k then ''account_busy''
     else ''fairness'')"

definition waiting_reasons :: "admission \<Rightarrow> counts" where
  "waiting_reasons a =
    foldl bump Map.empty (map (\<lambda>q. waiting_reason a (tkt a q)) (a_queue a))"

definition shared_queued :: "admission \<Rightarrow> int" where
  "shared_queued a = int (length (filter (\<lambda>q. t_shared (tkt a q)) (a_queue a)))"

definition oldest_wait :: "int \<Rightarrow> admission \<Rightarrow> int" where
  "oldest_wait now a =
    foldl (\<lambda>oldest q. if now - t_since (tkt a q) > oldest then now - t_since (tkt a q) else oldest)
      0 (a_queue a)"

subsection \<open>Entering from a request\<close>

record principal =
  AppID :: int
  UserID :: int
  AppName :: string

definition admit_key :: "principal \<Rightarrow> string" where
  "admit_key p =
    (if UserID p > 0 then ''portal-user-'' @ itoa (UserID p)
     else if AppName p = ''model-test'' \<and> AppID p = 0 then ''admin-test''
     else itoa (AppID p))"

text \<open>\<open>stream\<close> is the request's streaming flag, None when the body was not inspected.\<close>

definition admit_charge :: "int \<Rightarrow> bool option \<Rightarrow> int" where
  "admit_charge maxResponseBytes stream =
    (let charge = positiveOr maxResponseBytes DefaultMaxResponseBytes * 4
     in if stream = Some True then charge div 2 else charge)"

definition admitModel ::
    "int \<Rightarrow> string option \<Rightarrow> principal \<Rightarrow> int \<Rightarrow> string \<Rightarrow> int \<Rightarrow> bool option \<Rightarrow> admission \<Rightarrow>
     admission \<times> (adm_error + nat)" where
  "admitModel now ctxErr p userLimit model maxResponseBytes stream a =
    acquireWithBudget now ctxErr (admit_key p) (if UserID p > 0 then userLimit else 0) model
      (admit_charge maxResponseBytes stream) a"

text \<open>The gauge: unsigned samples, the reclaimable classes taken off the total.\<close>

definition goMemoryUsage :: "nat \<Rightarrow> nat option list \<Rightarrow> nat" where
  "goMemoryUsage tot classes =
    foldl (\<lambda>used s. case s of None \<Rightarrow> used | Some v \<Rightarrow> used - min used v) tot classes"

end
