(* ===== verification/AdmissionInv.thy ===== *)
theory AdmissionInv
  imports Admission
begin

text \<open>
  The accounting of the admission scheduler. Four independent predicates say that the slot
  counters, the account counters, the buffer sums and the queue agree with the ticket store;
  each is a function of a projection of the state (its view), so an operation that leaves a view
  alone preserves the predicate by rewriting. The bounds (capacity, shared reserve, byte budget,
  account limit) are a fifth. The event machine at the end interleaves the critical sections of
  any number of requests.
\<close>

subsection \<open>Views\<close>

definition slot_view ::
    "admission \<Rightarrow> int \<times> int \<times> counts \<times> counts \<times> (bool \<times> string \<times> bool \<times> string) list" where
  "slot_view a = (a_active a, a_sharedActive a, a_byKey a, a_byModel a,
     map (\<lambda>k. (t_running k, t_key k, t_shared k, t_model k)) (a_tickets a))"

definition acct_view :: "admission \<Rightarrow> counts \<times> string option list" where
  "acct_view a = (a_byAccount a,
     map (\<lambda>k. if t_accountHeld k then t_account k else None) (a_tickets a))"

definition buf_view :: "admission \<Rightarrow> int \<times> int \<times> (bool \<times> int \<times> bool) list" where
  "buf_view a = (a_buffers a, a_sharedBuffers a,
     map (\<lambda>k. (t_bufferHeld k, t_bufferBytes k, t_shared k)) (a_tickets a))"

definition queue_view :: "admission \<Rightarrow> nat list \<times> bool list" where
  "queue_view a = (a_queue a, map t_running (a_tickets a))"

definition fixed_view ::
    "admission \<Rightarrow> bool \<times> int \<times> int \<times> int \<times> int \<times> int \<times> (string \<times> int \<times> int \<times> bool) list" where
  "fixed_view a = (a_unlimited a, a_capacity a, a_sharedCapacity a, a_bufferBudget a,
     a_sharedBufferBudget a, a_accountLimit a,
     map (\<lambda>k. (t_key k, t_limit k, t_bufferBytes k, t_shared k)) (a_tickets a))"

lemmas view_defs = slot_view_def acct_view_def buf_view_def queue_view_def fixed_view_def

lemma map_update_same: "g y = g (xs ! i) \<Longrightarrow> map g (xs[i := y]) = map g xs"
  by (metis list_update_beyond list_update_id map_update not_less)

text \<open>Which views each primitive leaves alone.\<close>

lemma view_mod_tkt:
  "(\<And>k. t_running (f k) = t_running k \<and> t_key (f k) = t_key k \<and> t_shared (f k) = t_shared k \<and>
        t_model (f k) = t_model k) \<Longrightarrow> slot_view (mod_tkt t f a) = slot_view a"
  "(\<And>k. t_accountHeld (f k) = t_accountHeld k \<and> t_account (f k) = t_account k) \<Longrightarrow>
   acct_view (mod_tkt t f a) = acct_view a"
  "(\<And>k. t_bufferHeld (f k) = t_bufferHeld k \<and> t_bufferBytes (f k) = t_bufferBytes k \<and>
        t_shared (f k) = t_shared k) \<Longrightarrow> buf_view (mod_tkt t f a) = buf_view a"
  "(\<And>k. t_running (f k) = t_running k) \<Longrightarrow> queue_view (mod_tkt t f a) = queue_view a"
  "(\<And>k. t_key (f k) = t_key k \<and> t_limit (f k) = t_limit k \<and> t_shared (f k) = t_shared k \<and>
        t_bufferBytes (f k) = t_bufferBytes k) \<Longrightarrow> fixed_view (mod_tkt t f a) = fixed_view a"
  by (simp_all add: view_defs mod_tkt_def map_update_same)

lemma view_reserve [simp]:
  "slot_view (reserveBufferLocked t a) = slot_view a"
  "acct_view (reserveBufferLocked t a) = acct_view a"
  "queue_view (reserveBufferLocked t a) = queue_view a"
  "fixed_view (reserveBufferLocked t a) = fixed_view a"
  by (simp_all add: view_defs reserveBufferLocked_def mod_tkt_def Let_def map_update_same)

lemma view_releaseBuffer [simp]:
  "slot_view (releaseBufferLocked t a) = slot_view a"
  "acct_view (releaseBufferLocked t a) = acct_view a"
  "queue_view (releaseBufferLocked t a) = queue_view a"
  "fixed_view (releaseBufferLocked t a) = fixed_view a"
  by (simp_all add: view_defs releaseBufferLocked_def mod_tkt_def Let_def map_update_same)

lemma view_hold [simp]:
  "slot_view (hold_account t a) = slot_view a"
  "buf_view (hold_account t a) = buf_view a"
  "queue_view (hold_account t a) = queue_view a"
  "fixed_view (hold_account t a) = fixed_view a"
  by (simp_all add: view_defs hold_account_def mod_tkt_def Let_def map_update_same
      split: option.splits)

lemma view_releaseAccount [simp]:
  "slot_view (releaseAccountLocked t a) = slot_view a"
  "buf_view (releaseAccountLocked t a) = buf_view a"
  "queue_view (releaseAccountLocked t a) = queue_view a"
  "fixed_view (releaseAccountLocked t a) = fixed_view a"
  by (simp_all add: view_defs releaseAccountLocked_def mod_tkt_def Let_def map_update_same)

lemma view_consult [simp]:
  "slot_view (consult t c a) = slot_view a"
  "buf_view (consult t c a) = buf_view a"
  "queue_view (consult t c a) = queue_view a"
  "fixed_view (consult t c a) = fixed_view a"
  by (simp_all add: view_defs consult_def mod_tkt_def Let_def map_update_same)

lemma view_consult_acct:
  "\<not> t_accountHeld (tkt a t) \<Longrightarrow> acct_view (consult t c a) = acct_view a"
  by (simp add: view_defs consult_def mod_tkt_def Let_def map_update_same tkt_def)

lemma view_set_running [simp]:
  "acct_view (set_running t b a) = acct_view a"
  "buf_view (set_running t b a) = buf_view a"
  "fixed_view (set_running t b a) = fixed_view a"
  by (simp_all add: view_defs set_running_def mod_tkt_def map_update_same)

lemma view_occupy [simp]:
  "acct_view (occupy t a) = acct_view a"
  "buf_view (occupy t a) = buf_view a"
  "queue_view (occupy t a) = queue_view a"
  "fixed_view (occupy t a) = fixed_view a"
  by (simp_all add: view_defs occupy_def Let_def)

lemma view_vacate [simp]:
  "acct_view (vacate t a) = acct_view a"
  "buf_view (vacate t a) = buf_view a"
  "fixed_view (vacate t a) = fixed_view a"
  by (simp_all add: view_defs vacate_def set_running_def mod_tkt_def releaseModelLocked_def
      Let_def map_update_same)

lemma view_signal [simp]:
  "slot_view (signalLocked a) = slot_view a"
  "acct_view (signalLocked a) = acct_view a"
  "buf_view (signalLocked a) = buf_view a"
  "queue_view (signalLocked a) = queue_view a"
  "fixed_view (signalLocked a) = fixed_view a"
  by (simp_all add: view_defs signalLocked_def)

lemma view_reject [simp]:
  "slot_view (reject_count c a) = slot_view a"
  "acct_view (reject_count c a) = acct_view a"
  "buf_view (reject_count c a) = buf_view a"
  "queue_view (reject_count c a) = queue_view a"
  "fixed_view (reject_count c a) = fixed_view a"
  by (simp_all add: view_defs reject_count_def)

lemma view_forget [simp]:
  "slot_view (forget_served c a) = slot_view a"
  "acct_view (forget_served c a) = acct_view a"
  "buf_view (forget_served c a) = buf_view a"
  "queue_view (forget_served c a) = queue_view a"
  "fixed_view (forget_served c a) = fixed_view a"
  by (simp_all add: view_defs forget_served_def)

lemma view_queue_update [simp]:
  "slot_view (a\<lparr>a_queue := q\<rparr>) = slot_view a"
  "acct_view (a\<lparr>a_queue := q\<rparr>) = acct_view a"
  "buf_view (a\<lparr>a_queue := q\<rparr>) = buf_view a"
  "fixed_view (a\<lparr>a_queue := q\<rparr>) = fixed_view a"
  by (simp_all add: view_defs)

subsection \<open>The accounting predicates\<close>

definition slots_ok :: "admission \<Rightarrow> bool" where
  "slots_ok a =
    (case slot_view a of (active, sharedActive, byKey, byModel, ks) \<Rightarrow>
       active = tally (\<lambda>(r, _). of_bool r) ks \<and>
       sharedActive = tally (\<lambda>(r, _, s, _). of_bool (r \<and> s)) ks \<and>
       (\<forall>key. cnt byKey key = tally (\<lambda>(r, k, _). of_bool (r \<and> k = key)) ks) \<and>
       (\<forall>m. cnt byModel m = tally (\<lambda>(r, _, s, n). of_bool (r \<and> s \<and> n = m)) ks))"

definition accounts_ok :: "admission \<Rightarrow> bool" where
  "accounts_ok a =
    (case acct_view a of (byAccount, us) \<Rightarrow>
       \<forall>uid. cnt byAccount uid = tally (\<lambda>u. of_bool (u = Some uid)) us)"

definition buffers_ok :: "admission \<Rightarrow> bool" where
  "buffers_ok a =
    (case buf_view a of (buffers, sharedBuffers, bs) \<Rightarrow>
       buffers = tally (\<lambda>(h, n, _). if h then n else 0) bs \<and>
       sharedBuffers = tally (\<lambda>(h, n, s). if h \<and> s then n else 0) bs \<and>
       (\<forall>(h, n, s) \<in> set bs. 0 \<le> n))"

definition queue_ok :: "admission \<Rightarrow> bool" where
  "queue_ok a =
    (case queue_view a of (q, rs) \<Rightarrow>
       distinct q \<and> (\<forall>t \<in> set q. t < length rs \<and> \<not> rs ! t))"

text \<open>A held account is never nil, and a ticket without a chooser has no account.\<close>

definition tickets_ok :: "admission \<Rightarrow> bool" where
  "tickets_ok a =
    (\<forall>k \<in> set (a_tickets a). (t_accountHeld k \<longrightarrow> t_account k \<noteq> None))"

lemma slots_ok_cong: "slot_view a = slot_view b \<Longrightarrow> slots_ok a = slots_ok b"
  and accounts_ok_cong: "acct_view a = acct_view b \<Longrightarrow> accounts_ok a = accounts_ok b"
  and buffers_ok_cong: "buf_view a = buf_view b \<Longrightarrow> buffers_ok a = buffers_ok b"
  and queue_ok_cong: "queue_view a = queue_view b \<Longrightarrow> queue_ok a = queue_ok b"
  by (simp_all add: slots_ok_def accounts_ok_def buffers_ok_def queue_ok_def)

lemma tally_map: "tally f (map g xs) = tally (\<lambda>x. f (g x)) xs"
  by (simp add: tally_def comp_def)

lemma length_tickets [simp]:
  "length (a_tickets (mod_tkt t f a)) = length (a_tickets a)"
  "length (a_tickets (reserveBufferLocked t a)) = length (a_tickets a)"
  "length (a_tickets (releaseBufferLocked t a)) = length (a_tickets a)"
  "length (a_tickets (consult t c a)) = length (a_tickets a)"
  "length (a_tickets (hold_account t a)) = length (a_tickets a)"
  "length (a_tickets (releaseAccountLocked t a)) = length (a_tickets a)"
  "length (a_tickets (set_running t b a)) = length (a_tickets a)"
  "length (a_tickets (occupy t a)) = length (a_tickets a)"
  "length (a_tickets (vacate t a)) = length (a_tickets a)"
  "length (a_tickets (signalLocked a)) = length (a_tickets a)"
  "length (a_tickets (reject_count s a)) = length (a_tickets a)"
  "length (a_tickets (forget_served s a)) = length (a_tickets a)"
  by (simp_all add: mod_tkt_def reserveBufferLocked_def releaseBufferLocked_def consult_def
      hold_account_def releaseAccountLocked_def set_running_def occupy_def vacate_def
      signalLocked_def reject_count_def forget_served_def releaseModelLocked_def Let_def
      split: option.splits)

text \<open>
  A ticket that is idle starts: the counters move together with the flag. What happens between
  the flag and the counters may be anything that leaves the slot view alone.
\<close>

lemma slot_view_occupy:
  "slot_view a = slot_view b \<Longrightarrow> t < length (a_tickets a) \<Longrightarrow>
   slot_view (occupy t a) = slot_view (occupy t b)"
proof -
  assume v: "slot_view a = slot_view b" and t: "t < length (a_tickets a)"
  from v have len: "length (a_tickets a) = length (a_tickets b)"
    by (auto simp: slot_view_def dest: map_eq_imp_length_eq)
  from v have "map (\<lambda>k. (t_running k, t_key k, t_shared k, t_model k)) (a_tickets a) ! t =
               map (\<lambda>k. (t_running k, t_key k, t_shared k, t_model k)) (a_tickets b) ! t"
    by (simp add: slot_view_def)
  with t len have "t_key (tkt a t) = t_key (tkt b t)" "t_shared (tkt a t) = t_shared (tkt b t)"
    "t_model (tkt a t) = t_model (tkt b t)"
    by (simp_all add: tkt_def)
  with v show ?thesis
    by (simp add: slot_view_def occupy_def Let_def)
qed

lemma slots_ok_start:
  assumes "slots_ok a" "t < length (a_tickets a)" "\<not> t_running (tkt a t)"
    and v: "slot_view b = slot_view (set_running t True a)"
    and len: "length (a_tickets b) = length (a_tickets a)"
  shows "slots_ok (occupy t b)"
proof -
  have "slots_ok (occupy t (set_running t True a))"
    using assms(1,2,3)
    by (auto simp: slots_ok_def slot_view_def occupy_def set_running_def mod_tkt_def tkt_def Let_def
        tally_map tally_update ct.get_incr)
  moreover have "slot_view (occupy t b) = slot_view (occupy t (set_running t True a))"
    using v len assms(2) by (intro slot_view_occupy) simp_all
  ultimately show ?thesis
    using slots_ok_cong by blast
qed

lemma slots_ok_vacate:
  assumes "slots_ok a" "t < length (a_tickets a)" "t_running (tkt a t)"
  shows "slots_ok (vacate t a)"
  using assms
  by (auto simp: slots_ok_def slot_view_def vacate_def set_running_def mod_tkt_def tkt_def Let_def
      releaseModelLocked_def tally_map tally_update ct.get_decr)

lemma buffers_ok_reserve:
  assumes "buffers_ok a" "t < length (a_tickets a)"
  shows "buffers_ok (reserveBufferLocked t a)"
  using assms
  by (auto simp: buffers_ok_def buf_view_def reserveBufferLocked_def mod_tkt_def tkt_def Let_def
      tally_map tally_update dest!: set_update_subset_insert [THEN subsetD])

lemma buffers_ok_release:
  assumes "buffers_ok a" "t < length (a_tickets a)"
  shows "buffers_ok (releaseBufferLocked t a)"
  using assms
  by (auto simp: buffers_ok_def buf_view_def releaseBufferLocked_def mod_tkt_def tkt_def Let_def
      tally_map tally_update dest!: set_update_subset_insert [THEN subsetD])

lemma accounts_ok_hold:
  assumes "accounts_ok a" "t < length (a_tickets a)"
  shows "accounts_ok (hold_account t a)"
  using assms
  by (auto simp: accounts_ok_def acct_view_def hold_account_def mod_tkt_def tkt_def Let_def
      tally_map tally_update ct.get_incr split: option.splits)

lemma accounts_ok_release:
  assumes "accounts_ok a" "t < length (a_tickets a)" "tickets_ok a"
  shows "accounts_ok (releaseAccountLocked t a)"
proof (cases "t_accountHeld (tkt a t)")
  case True
  with assms(2,3) obtain uid where "t_account (tkt a t) = Some uid"
    by (auto simp: tickets_ok_def tkt_def dest!: nth_mem)
  with assms(1,2) True show ?thesis
    by (auto simp: accounts_ok_def acct_view_def releaseAccountLocked_def mod_tkt_def tkt_def
        tally_map tally_update ct.get_decr)
next
  case False
  with assms show ?thesis by (simp add: releaseAccountLocked_def)
qed

subsection \<open>The scan of the queue\<close>

text \<open>A queued ticket that the dispatcher may start in this state.\<close>

definition startable :: "admission \<Rightarrow> nat \<Rightarrow> bool" where
  "startable a t =
    (let k = tkt a t in
     t_ready k \<and> admissible a k \<and>
     (t_chooseAccount k = None \<or> t_accountHeld k \<or> t_account k \<noteq> None \<or> t_selectionErr k \<noteq> None))"

text \<open>The chooser respects the busy set it is given, as the account selectors of the code do.\<close>

definition chooser_ok :: "chooser \<Rightarrow> bool" where
  "chooser_ok c = (\<forall>n busy uid e. c n busy = (Some uid, e) \<longrightarrow> \<not> busy uid)"

definition fresh_account :: "admission \<Rightarrow> nat \<Rightarrow> bool" where
  "fresh_account a t =
    (let k = tkt a t in
     \<not> t_accountHeld k \<longrightarrow> (\<forall>uid. t_account k = Some uid \<longrightarrow> \<not> busy_accounts a uid))"

lemma consult_simps [simp]:
  "a_byKey (consult t c a) = a_byKey a"
  "a_served (consult t c a) = a_served a"
  "a_byAccount (consult t c a) = a_byAccount a"
  "a_active (consult t c a) = a_active a"
  "a_capacity (consult t c a) = a_capacity a"
  "busy_accounts (consult t c a) = busy_accounts a"
  "admissible (consult t c a) = admissible a"
  by (auto simp: consult_def mod_tkt_def Let_def busy_accounts_def admissible_def fun_eq_iff
      sharedRoomLocked_def bufferRoomLocked_def memory_pressure_def split: option.splits)

lemma tkt_consult:
  "tkt (consult t c a) u =
    (if u = t \<and> t < length (a_tickets a)
     then (tkt a t)\<lparr>t_account := fst (c (a_calls a) (busy_accounts a)),
                    t_selectionErr := snd (c (a_calls a) (busy_accounts a))\<rparr>
     else tkt a u)"
  by (auto simp: consult_def mod_tkt_def tkt_def Let_def nth_list_update list_update_beyond)

lemma admissible_ticket [simp]:
  "admissible a (k\<lparr>t_account := x, t_selectionErr := e\<rparr>) = admissible a k"
  by (simp add: admissible_def sharedRoomLocked_def bufferRoomLocked_def)

lemma scan_views [simp]:
  "slot_view (fst (scan a i q pick)) = slot_view a"
  "acct_view (fst (scan a i q pick)) = acct_view a"
  "buf_view (fst (scan a i q pick)) = buf_view a"
  "queue_view (fst (scan a i q pick)) = queue_view a"
  "fixed_view (fst (scan a i q pick)) = fixed_view a"
  by (induction a i q pick rule: scan.induct)
     (simp_all add: Let_def view_consult_acct split: option.splits)

lemma scan_simps [simp]:
  "a_byKey (fst (scan a i q pick)) = a_byKey a"
  "a_served (fst (scan a i q pick)) = a_served a"
  "a_byAccount (fst (scan a i q pick)) = a_byAccount a"
  "a_active (fst (scan a i q pick)) = a_active a"
  "a_capacity (fst (scan a i q pick)) = a_capacity a"
  "a_queue (fst (scan a i q pick)) = a_queue a"
  "busy_accounts (fst (scan a i q pick)) = busy_accounts a"
  "admissible (fst (scan a i q pick)) = admissible a"
  "length (a_tickets (fst (scan a i q pick))) = length (a_tickets a)"
  by (induction a i q pick rule: scan.induct) (simp_all add: Let_def split: option.splits)

lemma scan_frame: "t \<notin> set q \<Longrightarrow> tkt (fst (scan a i q pick)) t = tkt a t"
  by (induction a i q pick rule: scan.induct)
     (simp_all add: Let_def tkt_consult split: option.splits)

lemma startable_frame:
  "tkt (fst (scan a i q pick)) t = tkt a t \<Longrightarrow>
   startable (fst (scan a i q pick)) t = startable a t"
  by (simp add: startable_def Let_def)

text \<open>
  One turn of the scan, as a state: the head ticket after its chooser was asked where it had to
  be. The scan then goes on with the pick updated exactly when the head is startable.
\<close>

definition asked :: "admission \<Rightarrow> nat \<Rightarrow> admission" where
  "asked a t =
    (let k = tkt a t in
     if t_ready k \<and> admissible a k \<and> \<not> t_accountHeld k
     then (case t_chooseAccount k of None \<Rightarrow> a | Some c \<Rightarrow> consult t c a) else a)"

lemma asked_simps [simp]:
  "a_byKey (asked a t) = a_byKey a"
  "a_served (asked a t) = a_served a"
  "a_queue (asked a t) = a_queue a"
  "busy_accounts (asked a t) = busy_accounts a"
  "admissible (asked a t) = admissible a"
  "length (a_tickets (asked a t)) = length (a_tickets a)"
  "u \<noteq> t \<Longrightarrow> tkt (asked a t) u = tkt a u"
  "t_key (tkt (asked a t) u) = t_key (tkt a u)"
  "t_ready (tkt (asked a t) u) = t_ready (tkt a u)"
  "t_accountHeld (tkt (asked a t) u) = t_accountHeld (tkt a u)"
  "t_chooseAccount (tkt (asked a t) u) = t_chooseAccount (tkt a u)"
  by (auto simp: asked_def Let_def tkt_consult split: option.splits)

lemma scan_Cons:
  assumes "t < length (a_tickets a)"
  shows "scan a i (t # q) pick =
    scan (asked a t) (Suc i) q (if startable (asked a t) t then take_pick (asked a t) i pick else pick)"
  using assms
  by (auto simp: asked_def startable_def Let_def tkt_consult split: option.splits)

declare scan.simps(2) [simp del]

lemma better_asked [simp]: "better (asked a t) = better a"
  by (simp add: better_def fun_eq_iff Let_def)

lemma take_pick_asked [simp]: "take_pick (asked a t) = take_pick a"
  by (simp add: take_pick_def fun_eq_iff split: option.splits)

lemma scan_better [simp]: "better (fst (scan a i q pick)) = better a"
proof (induction a i q pick rule: scan.induct)
  case (1 a i pick)
  then show ?case by simp
next
  case (2 a i t q pick)
  have c: "better (consult t c a) = better a" for c
    by (simp add: better_def fun_eq_iff Let_def tkt_consult)
  with 2 show ?case
    by (simp add: scan.simps Let_def split: option.splits)
qed

text \<open>
  After \<open>i\<close> positions the pick is the best startable ticket among them: nobody is better, and those
  before it are strictly worse, so ties go to the ticket queued first.
\<close>

definition best_of :: "admission \<Rightarrow> nat \<Rightarrow> nat option \<Rightarrow> bool" where
  "best_of a i pick =
    (let q = a_queue a in
     case pick of
       None \<Rightarrow> \<forall>j < i. \<not> startable a (q ! j)
     | Some p \<Rightarrow> p < i \<and> startable a (q ! p) \<and>
         (\<forall>j < i. startable a (q ! j) \<longrightarrow>
            \<not> better a (q ! j) (q ! p) \<and> (j < p \<longrightarrow> better a (q ! p) (q ! j))))"

lemma better_irrefl [simp]: "\<not> better a x x"
  by (simp add: better_def Let_def)

lemma better_chain: "better a i p \<Longrightarrow> \<not> better a j p \<Longrightarrow> better a i j \<and> \<not> better a j i"
  unfolding better_def Let_def by linarith

lemma best_of_step:
  assumes "best_of a i pick"
  shows "best_of a (Suc i) (if startable a (a_queue a ! i) then take_pick a i pick else pick)"
proof (cases pick)
  case None
  with assms show ?thesis
    by (simp add: best_of_def take_pick_def less_Suc_eq Let_def)
next
  case (Some p)
  show ?thesis
  proof (cases "startable a (a_queue a ! i) \<and> better a (a_queue a ! i) (a_queue a ! p)")
    case True
    with Some assms show ?thesis
      by (simp add: best_of_def take_pick_def less_Suc_eq Let_def) (meson better_chain)
  next
    case False
    with Some assms show ?thesis
      by (auto simp: best_of_def take_pick_def less_Suc_eq Let_def)
  qed
qed

lemma best_of_asked:
  assumes "best_of a i pick" "distinct (a_queue a)" "i < length (a_queue a)"
  shows "best_of (asked a (a_queue a ! i)) i pick"
proof -
  let ?t = "a_queue a ! i"
  have ne: "a_queue a ! j \<noteq> ?t" if "j < i" for j
    using assms(2,3) that by (simp add: nth_eq_iff_index_eq)
  have st: "startable (asked a ?t) (a_queue a ! j) = startable a (a_queue a ! j)" if "j < i" for j
    using ne [OF that] by (simp add: startable_def Let_def)
  show ?thesis
    using assms(1) st by (auto simp: best_of_def Let_def split: option.splits)
qed

lemma scan_best:
  assumes "drop i (a_queue a) = q" "i \<le> length (a_queue a)" "distinct (a_queue a)"
    "\<forall>t \<in> set (a_queue a). t < length (a_tickets a)" "best_of a i pick"
  shows "best_of (fst (scan a i q pick)) (length (a_queue a)) (snd (scan a i q pick))"
  using assms
proof (induction q arbitrary: a i pick)
  case Nil
  then show ?case by simp
next
  case (Cons t q)
  then have i: "i < length (a_queue a)" by (metis drop_all list.distinct(1) not_less)
  with Cons.prems have t: "t = a_queue a ! i" and q: "drop (Suc i) (a_queue a) = q"
    by (metis Cons_nth_drop_Suc list.inject)+
  then have len: "t < length (a_tickets a)"
    using Cons.prems(4) i by auto
  have "best_of (asked a t) (Suc i)
          (if startable (asked a t) t then take_pick (asked a t) i pick else pick)"
    using best_of_step [OF best_of_asked [OF Cons.prems(5,3) i]]
    unfolding asked_simps(3) t [symmetric] .
  then show ?case
    using Cons.IH [of "Suc i" "asked a t"] Cons.prems q i len by (simp add: scan_Cons)
qed

lemma scan_whole:
  assumes "queue_ok a"
  shows "best_of (fst (scan a 0 (a_queue a) None)) (length (a_queue a))
           (snd (scan a 0 (a_queue a) None))"
  using assms
  by (intro scan_best) (auto simp: queue_ok_def queue_view_def best_of_def)

text \<open>Account answers are respected, and tickets keep their well-formedness through a scan.\<close>

definition choosers_ok :: "admission \<Rightarrow> bool" where
  "choosers_ok a =
    (\<forall>k \<in> set (a_tickets a).
       (t_chooseAccount k = None \<longrightarrow> t_account k = None) \<and>
       (\<forall>c. t_chooseAccount k = Some c \<longrightarrow> chooser_ok c))"

lemma tickets_ok_iff:
  "tickets_ok a \<longleftrightarrow> (\<forall>t < length (a_tickets a). t_accountHeld (tkt a t) \<longrightarrow> t_account (tkt a t) \<noteq> None)"
  unfolding tickets_ok_def tkt_def all_set_conv_all_nth ..

lemma choosers_ok_iff:
  "choosers_ok a \<longleftrightarrow> (\<forall>t < length (a_tickets a).
     (t_chooseAccount (tkt a t) = None \<longrightarrow> t_account (tkt a t) = None) \<and>
     (\<forall>c. t_chooseAccount (tkt a t) = Some c \<longrightarrow> chooser_ok c))"
  unfolding choosers_ok_def tkt_def all_set_conv_all_nth ..

lemma asked_tickets_ok: "tickets_ok a \<Longrightarrow> tickets_ok (asked a t)"
  by (auto simp: tickets_ok_iff asked_def tkt_consult Let_def split: option.splits)

lemma asked_choosers_ok: "choosers_ok a \<Longrightarrow> choosers_ok (asked a t)"
  by (auto simp: choosers_ok_iff asked_def tkt_consult Let_def split: option.splits)

lemma asked_fresh:
  assumes "choosers_ok a" "t < length (a_tickets a)" "t_ready (tkt a t)" "admissible a (tkt a t)"
  shows "fresh_account (asked a t) t"
proof (cases "t_chooseAccount (tkt a t)")
  case None
  with assms show ?thesis
    by (force simp: fresh_account_def asked_def Let_def choosers_ok_iff split: option.splits)
next
  case (Some c)
  with assms(1,2) have "chooser_ok c"
    by (force simp: choosers_ok_iff split: option.splits)
  with Some assms show ?thesis
    by (cases "c (a_calls a) (busy_accounts a)")
       (auto simp: fresh_account_def asked_def Let_def tkt_consult chooser_ok_def)
qed

lemma scan_tickets:
  assumes "drop i (a_queue a) = q" "queue_ok a" "tickets_ok a"
  shows "tickets_ok (fst (scan a i q pick))"
  using assms
proof (induction q arbitrary: a i pick)
  case Nil
  then show ?case by simp
next
  case (Cons t q)
  then have "t \<in> set (a_queue a)" by (metis in_set_dropD list.set_intros(1))
  with Cons.prems have len: "t < length (a_tickets a)"
    by (simp add: queue_ok_def queue_view_def)
  have qv: "queue_view (asked a t) = queue_view a"
    by (simp add: asked_def Let_def split: option.splits)
  have "drop (Suc i) (a_queue a) = q"
    using Cons.prems(1) by (metis drop_Suc list.sel(3) tl_drop)
  with Cons len qv show ?case
    by (simp add: scan_Cons asked_tickets_ok queue_ok_cong [OF qv])
qed

subsection \<open>The invariant\<close>

definition bounds_ok :: "admission \<Rightarrow> bool" where
  "bounds_ok a =
    (a_active a \<le> a_capacity a \<and>
     a_sharedActive a \<le> a_sharedCapacity a \<and>
     a_buffers a \<le> a_bufferBudget a \<and>
     a_sharedBuffers a \<le> a_sharedBufferBudget a \<and>
     1 \<le> a_accountLimit a \<and>
     (\<forall>uid. cnt (a_byAccount a) uid \<le> a_accountLimit a) \<and>
     (\<forall>key L. 0 \<le> L \<longrightarrow> (\<forall>k \<in> set (a_tickets a). t_key k = key \<longrightarrow> t_limit k \<le> L) \<longrightarrow>
        cnt (a_byKey a) key \<le> L))"

definition adm_inv :: "admission \<Rightarrow> bool" where
  "adm_inv a =
    (slots_ok a \<and> accounts_ok a \<and> buffers_ok a \<and> queue_ok a \<and> tickets_ok a \<and>
     (\<not> a_unlimited a \<longrightarrow> choosers_ok a \<and> bounds_ok a))"

lemma key_bound_fixed:
  "(\<forall>k \<in> set (a_tickets a). t_key k = key \<longrightarrow> t_limit k \<le> L) \<longleftrightarrow>
   (\<forall>x \<in> set (snd (snd (snd (snd (snd (snd (fixed_view a))))))). fst x = key \<longrightarrow> fst (snd x) \<le> L)"
  by (auto simp: fixed_view_def)

lemma bounds_ok_cong:
  assumes "fixed_view b = fixed_view a" "slot_view b = slot_view a" "buf_view b = buf_view a"
    "\<And>uid. cnt (a_byAccount b) uid \<le> cnt (a_byAccount a) uid"
  shows "bounds_ok a \<Longrightarrow> bounds_ok b"
proof -
  have f: "a_capacity b = a_capacity a" "a_sharedCapacity b = a_sharedCapacity a"
    "a_bufferBudget b = a_bufferBudget a" "a_sharedBufferBudget b = a_sharedBufferBudget a"
    "a_accountLimit b = a_accountLimit a" "a_active b = a_active a"
    "a_sharedActive b = a_sharedActive a" "a_byKey b = a_byKey a" "a_buffers b = a_buffers a"
    "a_sharedBuffers b = a_sharedBuffers a"
    using assms(1-3) by (simp_all add: fixed_view_def slot_view_def buf_view_def)
  show "bounds_ok a \<Longrightarrow> bounds_ok b"
    unfolding bounds_ok_def key_bound_fixed assms(1) f
    using assms(4) order_trans by blast
qed

lemma unlimited_cong: "fixed_view b = fixed_view a \<Longrightarrow> a_unlimited b = a_unlimited a"
  by (simp add: fixed_view_def)

text \<open>An operation that changes no view keeps the invariant if it keeps the tickets' facts.\<close>

lemma adm_inv_views:
  assumes "adm_inv a" "fixed_view b = fixed_view a" "slot_view b = slot_view a"
    "buf_view b = buf_view a" "acct_view b = acct_view a" "queue_view b = queue_view a"
    "tickets_ok b" "\<not> a_unlimited a \<Longrightarrow> choosers_ok b"
  shows "adm_inv b"
proof -
  have "a_byAccount b = a_byAccount a" using assms(5) by (simp add: acct_view_def)
  then show ?thesis
    using assms bounds_ok_cong [OF assms(2-4)] unlimited_cong [OF assms(2)]
    by (simp add: adm_inv_def slots_ok_cong [OF assms(3)] accounts_ok_cong [OF assms(5)]
        buffers_ok_cong [OF assms(4)] queue_ok_cong [OF assms(6)])
qed

lemma tkt_mod [simp]:
  "tkt (mod_tkt t f a) u = (if u = t \<and> t < length (a_tickets a) then f (tkt a t) else tkt a u)"
  by (auto simp: mod_tkt_def tkt_def nth_list_update list_update_beyond)

lemma tkt_record_update [simp]:
  "tkt (a\<lparr>a_active := n\<rparr>) t = tkt a t" "tkt (a\<lparr>a_sharedActive := n\<rparr>) t = tkt a t"
  "tkt (a\<lparr>a_byModel := c\<rparr>) t = tkt a t" "tkt (a\<lparr>a_byKey := c\<rparr>) t = tkt a t"
  "tkt (a\<lparr>a_sequence := n\<rparr>) t = tkt a t" "tkt (a\<lparr>a_served := c\<rparr>) t = tkt a t"
  "tkt (a\<lparr>a_buffers := n\<rparr>) t = tkt a t" "tkt (a\<lparr>a_sharedBuffers := n\<rparr>) t = tkt a t"
  "tkt (a\<lparr>a_byAccount := c\<rparr>) t = tkt a t" "tkt (a\<lparr>a_queue := q\<rparr>) t = tkt a t"
  "tkt (a\<lparr>a_changed := m\<rparr>) t = tkt a t" "tkt (a\<lparr>a_rejected := c\<rparr>) t = tkt a t"
  "tkt (a\<lparr>a_calls := m\<rparr>) t = tkt a t"
  by (simp_all add: tkt_def)

text \<open>What each primitive does to a ticket.\<close>

lemma tkt_ops:
  "tkt (reserveBufferLocked t a) u =
     (if u = t \<and> t < length (a_tickets a) then (tkt a t)\<lparr>t_bufferHeld := True\<rparr> else tkt a u)"
  "tkt (releaseBufferLocked t a) u =
     (if u = t \<and> t < length (a_tickets a) then (tkt a t)\<lparr>t_bufferHeld := False\<rparr> else tkt a u)"
  "tkt (set_running t b a) u =
     (if u = t \<and> t < length (a_tickets a) then (tkt a t)\<lparr>t_running := b\<rparr> else tkt a u)"
  "tkt (hold_account t a) u =
     (if u = t \<and> t < length (a_tickets a) \<and> t_account (tkt a t) \<noteq> None
      then (tkt a t)\<lparr>t_accountHeld := True\<rparr> else tkt a u)"
  "tkt (releaseAccountLocked t a) u =
     (if u = t \<and> t < length (a_tickets a) then (tkt a t)\<lparr>t_accountHeld := False\<rparr> else tkt a u)"
  "tkt (vacate t a) u =
     (if u = t \<and> t < length (a_tickets a) then (tkt a t)\<lparr>t_running := False\<rparr> else tkt a u)"
  "tkt (occupy t a) u = tkt a u"
  "tkt (signalLocked a) u = tkt a u"
  "tkt (reject_count s a) u = tkt a u"
  "tkt (forget_served s a) u = tkt a u"
  by (simp_all add: reserveBufferLocked_def releaseBufferLocked_def set_running_def hold_account_def
      releaseAccountLocked_def vacate_def occupy_def signalLocked_def reject_count_def
      forget_served_def releaseModelLocked_def Let_def split: option.splits)

lemma scan_choosers:
  assumes "drop i (a_queue a) = q" "queue_ok a" "choosers_ok a"
  shows "choosers_ok (fst (scan a i q pick))"
  using assms
proof (induction q arbitrary: a i pick)
  case Nil
  then show ?case by simp
next
  case (Cons t q)
  then have "t \<in> set (a_queue a)" by (metis in_set_dropD list.set_intros(1))
  with Cons.prems have len: "t < length (a_tickets a)"
    by (simp add: queue_ok_def queue_view_def)
  have qv: "queue_view (asked a t) = queue_view a"
    by (simp add: asked_def Let_def split: option.splits)
  have "drop (Suc i) (a_queue a) = q"
    using Cons.prems(1) by (metis drop_Suc list.sel(3) tl_drop)
  with Cons len qv show ?case
    by (simp add: scan_Cons asked_choosers_ok queue_ok_cong [OF qv])
qed

text \<open>The scan leaves every startable ticket with an account that is free, or none.\<close>

lemma scan_fresh:
  assumes "drop i (a_queue a) = q" "queue_ok a" "choosers_ok a"
    "\<And>j. j < i \<Longrightarrow> startable a (a_queue a ! j) \<Longrightarrow> fresh_account a (a_queue a ! j)"
  shows "j < length (a_queue a) \<Longrightarrow> startable (fst (scan a i q pick)) (a_queue a ! j) \<Longrightarrow>
    fresh_account (fst (scan a i q pick)) (a_queue a ! j)"
  using assms
proof (induction q arbitrary: a i pick)
  case Nil
  then show ?case by simp
next
  case (Cons t q)
  then have i: "i < length (a_queue a)" by (metis drop_all list.distinct(1) not_less)
  with Cons.prems have t: "t = a_queue a ! i" and q: "drop (Suc i) (a_queue a) = q"
    by (metis Cons_nth_drop_Suc list.inject)+
  have d: "distinct (a_queue a)" and len: "t < length (a_tickets a)"
    using Cons.prems(4) i t by (auto simp: queue_ok_def queue_view_def)
  have qv: "queue_view (asked a t) = queue_view a"
    by (simp add: asked_def Let_def split: option.splits)
  have step: "fresh_account (asked a t) (a_queue a ! k)"
    if "k < Suc i" "startable (asked a t) (a_queue a ! k)" for k
  proof (cases "k = i")
    case True
    from that(2) True t have "t_ready (tkt a t)" "admissible (asked a t) (tkt (asked a t) t)"
      by (simp_all add: startable_def Let_def)
    then have "t_ready (tkt a t)" "admissible a (tkt a t)"
      using len by (auto simp: asked_def Let_def tkt_consult split: option.splits if_splits)
    with asked_fresh [OF Cons.prems(5) len] True t show ?thesis by simp
  next
    case False
    with that i d have "a_queue a ! k \<noteq> t" "k < i"
      by (auto simp: t nth_eq_iff_index_eq)
    with that Cons.prems(6) [of k] show ?thesis
      by (simp add: startable_def fresh_account_def Let_def)
  qed
  show ?case
    using Cons.IH [of "asked a t" "Suc i"] Cons.prems q len step
    by (simp add: scan_Cons asked_choosers_ok queue_ok_cong [OF qv])
qed

end
