(* ===== verification/AdmissionSteps.thy ===== *)
theory AdmissionSteps
  imports AdmissionInv
begin

text \<open>
  Every critical section of the admission scheduler keeps the accounting invariant, and what a
  dispatch leaves behind. The machine at the end interleaves the sections of any number of
  requests in any order.
\<close>

subsection \<open>Dispatch\<close>

lemma queue_ok_nth: "queue_ok a \<Longrightarrow> t \<in> set (a_queue a) \<Longrightarrow> t < length (a_tickets a) \<and> \<not> t_running (tkt a t)"
  by (auto simp: queue_ok_def queue_view_def tkt_def)

lemma queue_ok_set_running_out:
  assumes "queue_ok a" "t \<notin> set (a_queue a)"
  shows "queue_ok (set_running t b a)"
  using assms
  by (auto simp: queue_ok_def queue_view_def set_running_def mod_tkt_def map_update)
     (metis nth_list_update_neq nth_map)

lemma queue_ok_remove_at:
  assumes "queue_ok a"
  shows "queue_ok (a\<lparr>a_queue := remove_at p (a_queue a)\<rparr>)"
  using assms set_remove_at_subset [of p "a_queue a"]
  by (auto simp: queue_ok_def queue_view_def distinct_remove_at)

text \<open>The ticket, the counters and the sums after a start.\<close>

lemma tkt_start:
  "tkt (start_ticket t a) u = (if u = t \<and> t < length (a_tickets a)
     then (tkt a t)\<lparr>t_running := True, t_bufferHeld := True,
       t_accountHeld := (t_accountHeld (tkt a t) \<or> t_account (tkt a t) \<noteq> None)\<rparr> else tkt a u)"
  by (auto simp: start_ticket_def tkt_ops)

lemma length_start [simp]: "length (a_tickets (start_ticket t a)) = length (a_tickets a)"
  by (simp add: start_ticket_def)

lemma occupy_fields:
  "a_active (occupy t a) = a_active a + 1"
  "a_sharedActive (occupy t a) = a_sharedActive a + of_bool (t_shared (tkt a t))"
  "cnt (a_byKey (occupy t a)) key = cnt (a_byKey a) key + of_bool (key = t_key (tkt a t))"
  "a_buffers (occupy t a) = a_buffers a" "a_sharedBuffers (occupy t a) = a_sharedBuffers a"
  "a_byAccount (occupy t a) = a_byAccount a"
  by (simp_all add: occupy_def Let_def ct.get_incr)

lemma hold_fields:
  "a_active (hold_account t a) = a_active a"
  "a_sharedActive (hold_account t a) = a_sharedActive a" "a_byKey (hold_account t a) = a_byKey a"
  "a_buffers (hold_account t a) = a_buffers a"
  "a_sharedBuffers (hold_account t a) = a_sharedBuffers a"
  "cnt (a_byAccount (hold_account t a)) uid = cnt (a_byAccount a) uid +
     of_bool (\<not> t_accountHeld (tkt a t) \<and> t_account (tkt a t) = Some uid)"
  by (auto simp: hold_account_def mod_tkt_def ct.get_incr split: option.splits)

lemma reserve_fields:
  "a_active (reserveBufferLocked t a) = a_active a"
  "a_sharedActive (reserveBufferLocked t a) = a_sharedActive a"
  "a_byKey (reserveBufferLocked t a) = a_byKey a"
  "a_byAccount (reserveBufferLocked t a) = a_byAccount a"
  "a_buffers (reserveBufferLocked t a) = a_buffers a +
     (if t_bufferHeld (tkt a t) then 0 else t_bufferBytes (tkt a t))"
  "a_sharedBuffers (reserveBufferLocked t a) = a_sharedBuffers a +
     (if t_bufferHeld (tkt a t) \<or> \<not> t_shared (tkt a t) then 0 else t_bufferBytes (tkt a t))"
  by (simp_all add: reserveBufferLocked_def mod_tkt_def Let_def)

lemma set_running_fields:
  "a_active (set_running t b a) = a_active a"
  "a_sharedActive (set_running t b a) = a_sharedActive a" "a_byKey (set_running t b a) = a_byKey a"
  "a_buffers (set_running t b a) = a_buffers a"
  "a_sharedBuffers (set_running t b a) = a_sharedBuffers a"
  "a_byAccount (set_running t b a) = a_byAccount a"
  by (simp_all add: set_running_def mod_tkt_def)

lemma start_fields:
  "a_active (start_ticket t a) = a_active a + 1"
  "a_sharedActive (start_ticket t a) = a_sharedActive a + of_bool (t_shared (tkt a t))"
  "cnt (a_byKey (start_ticket t a)) key = cnt (a_byKey a) key + of_bool (key = t_key (tkt a t))"
  "a_buffers (start_ticket t a) = a_buffers a +
     (if t_bufferHeld (tkt a t) then 0 else t_bufferBytes (tkt a t))"
  "a_sharedBuffers (start_ticket t a) = a_sharedBuffers a +
     (if t_bufferHeld (tkt a t) \<or> \<not> t_shared (tkt a t) then 0 else t_bufferBytes (tkt a t))"
  "cnt (a_byAccount (start_ticket t a)) uid = cnt (a_byAccount a) uid +
     of_bool (\<not> t_accountHeld (tkt a t) \<and> t_account (tkt a t) = Some uid)"
  by (auto simp: start_ticket_def occupy_fields hold_fields reserve_fields set_running_fields tkt_ops)

lemma fixed_view_start [simp]: "fixed_view (start_ticket t a) = fixed_view a"
  by (simp add: start_ticket_def)

lemma fixed_fields:
  assumes "fixed_view b = fixed_view a"
  shows "a_capacity b = a_capacity a" "a_sharedCapacity b = a_sharedCapacity a"
    "a_bufferBudget b = a_bufferBudget a" "a_sharedBufferBudget b = a_sharedBufferBudget a"
    "a_accountLimit b = a_accountLimit a" "a_unlimited b = a_unlimited a"
  using assms by (simp_all add: fixed_view_def)

lemma start_bounds:
  assumes "bounds_ok a" "t < length (a_tickets a)" "a_active a < a_capacity a"
    "admissible a (tkt a t)" "fresh_account a t"
  shows "bounds_ok (start_ticket t a)"
proof -
  let ?k = "tkt a t" and ?b = "start_ticket t a"
  have f: "fixed_view ?b = fixed_view a" by simp
  have room: "cnt (a_byKey a) (t_key ?k) < t_limit ?k" "sharedRoomLocked a ?k" "bufferRoomLocked a ?k"
    using assms(4) by (simp_all add: admissible_def)
  have "a_sharedActive ?b \<le> a_sharedCapacity a"
    using assms(1) room(2) by (auto simp: start_fields bounds_ok_def sharedRoomLocked_def)
  moreover have "a_buffers ?b \<le> a_bufferBudget a" "a_sharedBuffers ?b \<le> a_sharedBufferBudget a"
    using assms(1) room(3) by (auto simp: start_fields bounds_ok_def bufferRoomLocked_def split: if_splits)
  moreover have "cnt (a_byAccount ?b) uid \<le> a_accountLimit a" for uid
  proof (cases "\<not> t_accountHeld ?k \<and> t_account ?k = Some uid")
    case True
    with assms(5) have "\<not> busy_accounts a uid" by (simp add: fresh_account_def Let_def)
    with assms(1) have "cnt (a_byAccount a) uid < a_accountLimit a"
      by (auto simp: busy_accounts_def cnt_def bounds_ok_def split: option.splits)
    then show ?thesis by (simp add: start_fields)
  next
    case False
    with assms(1) show ?thesis by (auto simp: start_fields bounds_ok_def)
  qed
  moreover have "cnt (a_byKey ?b) key \<le> L"
    if L: "0 \<le> L" "\<forall>k \<in> set (a_tickets a). t_key k = key \<longrightarrow> t_limit k \<le> L" for key L
  proof (cases "key = t_key ?k")
    case True
    with L(2) assms(2) have "t_limit ?k \<le> L" by (simp add: tkt_def)
    with True room(1) show ?thesis by (simp add: start_fields)
  next
    case False
    with assms(1) L show ?thesis by (simp add: start_fields bounds_ok_def)
  qed
  ultimately show ?thesis
    using assms(1,3) unfolding bounds_ok_def key_bound_fixed f fixed_fields [OF f]
    by (simp add: start_fields(1))
qed

text \<open>An idle ticket outside the queue that fits starts to run.\<close>

lemma start_inv:
  assumes "adm_inv a" "t < length (a_tickets a)" "\<not> t_running (tkt a t)" "t \<notin> set (a_queue a)"
    and lim: "\<not> a_unlimited a \<Longrightarrow>
      a_active a < a_capacity a \<and> admissible a (tkt a t) \<and> fresh_account a t"
  shows "adm_inv (start_ticket t a)"
proof -
  let ?r = "set_running t True a" let ?b = "reserveBufferLocked t ?r"
  have s: "slots_ok (start_ticket t a)"
    unfolding start_ticket_def using assms(1,2,3)
    by (intro slots_ok_start [of a]) (simp_all add: adm_inv_def)
  have "buffers_ok ?b"
    using assms(1,2) buffers_ok_cong [of ?r a] by (intro buffers_ok_reserve) (simp_all add: adm_inv_def)
  then have b: "buffers_ok (start_ticket t a)"
    using buffers_ok_cong [of "start_ticket t a" ?b] by (simp add: start_ticket_def)
  have "accounts_ok ?b"
    using assms(1) accounts_ok_cong [of ?b a] by (simp add: adm_inv_def)
  then have "accounts_ok (hold_account t ?b)"
    using assms(2) by (intro accounts_ok_hold) simp_all
  then have ac: "accounts_ok (start_ticket t a)"
    using accounts_ok_cong [of "start_ticket t a" "hold_account t ?b"] by (simp add: start_ticket_def)
  have "queue_ok ?r"
    using assms(1,4) by (intro queue_ok_set_running_out) (simp_all add: adm_inv_def)
  then have q: "queue_ok (start_ticket t a)"
    using queue_ok_cong [of "start_ticket t a" ?r] by (simp add: start_ticket_def)
  have tk: "tickets_ok (start_ticket t a)"
    using assms(1) by (auto simp: adm_inv_def tickets_ok_iff tkt_start)
  have ch: "choosers_ok (start_ticket t a)" if "choosers_ok a"
    using that by (auto simp: choosers_ok_iff tkt_start split: option.splits)
  show ?thesis
    using s b ac q tk ch assms(1,2) lim start_bounds fixed_fields(6) [OF fixed_view_start, of t a]
    by (simp add: adm_inv_def)
qed

lemma queue_update_simps [simp]:
  "admissible (a\<lparr>a_queue := q\<rparr>) = admissible a"
  "fresh_account (a\<lparr>a_queue := q\<rparr>) = fresh_account a"
  "tickets_ok (a\<lparr>a_queue := q\<rparr>) = tickets_ok a"
  "choosers_ok (a\<lparr>a_queue := q\<rparr>) = choosers_ok a"
  by (auto simp: admissible_def sharedRoomLocked_def bufferRoomLocked_def memory_pressure_def
      fresh_account_def busy_accounts_def tickets_ok_def choosers_ok_def fun_eq_iff Let_def
      split: option.splits)

lemma adm_inv_queue_update:
  assumes "adm_inv a" "queue_ok (a\<lparr>a_queue := q\<rparr>)"
  shows "adm_inv (a\<lparr>a_queue := q\<rparr>)"
  using assms bounds_ok_cong [of "a\<lparr>a_queue := q\<rparr>" a]
  by (simp add: adm_inv_def slots_ok_cong [of "a\<lparr>a_queue := q\<rparr>" a]
      accounts_ok_cong [of "a\<lparr>a_queue := q\<rparr>" a] buffers_ok_cong [of "a\<lparr>a_queue := q\<rparr>" a])

lemma dispatch_start_inv:
  assumes "adm_inv a" "p < length (a_queue a)" "startable a (a_queue a ! p)"
    "\<not> a_unlimited a \<Longrightarrow> a_active a < a_capacity a \<and> fresh_account a (a_queue a ! p)"
  shows "adm_inv (dispatch_start p a)"
proof -
  let ?t = "a_queue a ! p" and ?a0 = "a\<lparr>a_queue := remove_at p (a_queue a)\<rparr>"
  have q: "queue_ok a" using assms(1) by (simp add: adm_inv_def)
  then have "?t \<notin> set (remove_at p (a_queue a))"
    using assms(2) by (simp add: set_remove_at_distinct queue_ok_def queue_view_def)
  moreover have "adm_inv ?a0"
    using assms(1) queue_ok_remove_at [OF q] by (rule adm_inv_queue_update)
  moreover have "?t < length (a_tickets a)" "\<not> t_running (tkt a ?t)"
    using queue_ok_nth [OF q, of ?t] assms(2) by simp_all
  ultimately show ?thesis
    unfolding dispatch_start_def using assms(3,4)
    by (intro start_inv) (simp_all add: startable_def Let_def)
qed

lemma scan_inv:
  assumes "adm_inv a"
  shows "adm_inv (fst (scan a 0 (a_queue a) None))"
  using assms scan_tickets [of 0 a "a_queue a"] scan_choosers [of 0 a "a_queue a"]
  by (intro adm_inv_views [OF assms]) (simp_all add: adm_inv_def)

lemma scan_Some:
  assumes "adm_inv a" "scan a 0 (a_queue a) None = (a', Some p)"
  shows "p < length (a_queue a)" "startable a' (a_queue a ! p)" "a_queue a' = a_queue a"
    "a_active a' = a_active a" "a_capacity a' = a_capacity a" "adm_inv a'"
    "a_unlimited a' = a_unlimited a"
    "\<not> a_unlimited a \<Longrightarrow> fresh_account a' (a_queue a ! p)"
proof -
  have a': "a' = fst (scan a 0 (a_queue a) None)" using assms(2) by simp
  have best: "best_of a' (length (a_queue a)) (Some p)"
    using scan_whole [of a] assms by (simp add: adm_inv_def)
  show "a_queue a' = a_queue a" "a_active a' = a_active a" "a_capacity a' = a_capacity a"
    by (simp_all add: a')
  then show p: "p < length (a_queue a)" "startable a' (a_queue a ! p)"
    using best by (simp_all add: best_of_def Let_def)
  show "adm_inv a'" unfolding a' by (rule scan_inv [OF assms(1)])
  show "a_unlimited a' = a_unlimited a" unfolding a' by (intro unlimited_cong) simp
  show "fresh_account a' (a_queue a ! p)" if "\<not> a_unlimited a"
    using that assms(1) p scan_fresh [of 0 a "a_queue a" p None]
    by (simp add: adm_inv_def a')
qed

lemma signal_inv:
  assumes "adm_inv a"
  shows "adm_inv (signalLocked a)"
  using assms
  by (intro adm_inv_views [OF assms])
     (simp_all add: adm_inv_def tickets_ok_def choosers_ok_def signalLocked_def view_defs)

lemma dispatch_inv [wf_intros]: "adm_inv a \<Longrightarrow> adm_inv (dispatchLocked a)"
proof (induction a rule: dispatchLocked.induct)
  case (1 a)
  show ?case
  proof (cases "a_active a < a_capacity a")
    case False
    with 1 show ?thesis by (simp add: dispatchLocked.simps [of a] signal_inv)
  next
    case True
    obtain a' r where scan: "scan a 0 (a_queue a) None = (a', r)" by fastforce
    show ?thesis
    proof (cases r)
      case None
      have "adm_inv a'" using scan_inv [OF "1.prems"] scan by simp
      with None True scan show ?thesis by (simp add: dispatchLocked.simps [of a] signal_inv)
    next
      case (Some p)
      with scan have s: "scan a 0 (a_queue a) None = (a', Some p)" by simp
      note sc = scan_Some [OF "1.prems" s]
      have "adm_inv (dispatch_start p a')"
        using sc True by (intro dispatch_start_inv) simp_all
      then show ?thesis
        using "1.IH" [OF True s [symmetric]] True s by (simp add: dispatchLocked.simps [of a])
    qed
  qed
qed

text \<open>
  Nothing startable is left behind: when a dispatch returns, either every execution slot is in
  use or no queued ticket could start.
\<close>

lemma admissible_signal [simp]: "admissible (signalLocked a) = admissible a"
  by (rule ext) (simp add: signalLocked_def admissible_def sharedRoomLocked_def
      bufferRoomLocked_def memory_pressure_def split: option.split)

lemma startable_signal [simp]: "startable (signalLocked a) = startable a"
  by (rule ext) (simp add: startable_def tkt_ops)

lemma signal_simps [simp]:
  "a_active (signalLocked a) = a_active a" "a_capacity (signalLocked a) = a_capacity a"
  "a_queue (signalLocked a) = a_queue a"
  by (simp_all add: signalLocked_def)

lemma dispatch_saturates:
  "adm_inv a \<Longrightarrow> a_active (dispatchLocked a) < a_capacity (dispatchLocked a) \<Longrightarrow>
   t \<in> set (a_queue (dispatchLocked a)) \<Longrightarrow> \<not> startable (dispatchLocked a) t"
proof (induction a rule: dispatchLocked.induct)
  case (1 a)
  show ?case
  proof (cases "a_active a < a_capacity a")
    case False
    with "1.prems" show ?thesis by (simp add: dispatchLocked.simps [of a])
  next
    case True
    obtain a' r where scan: "scan a 0 (a_queue a) None = (a', r)" by fastforce
    show ?thesis
    proof (cases r)
      case None
      have "best_of a' (length (a_queue a)) None"
        using scan_whole [of a] scan None "1.prems"(1) by (simp add: adm_inv_def)
      moreover have "a_queue a' = a_queue a"
        using scan scan_simps(6) [of a 0 "a_queue a" None] by simp
      ultimately have "\<forall>u \<in> set (a_queue a'). \<not> startable a' u"
        by (auto simp: best_of_def in_set_conv_nth Let_def)
      with None True scan "1.prems" show ?thesis by (simp add: dispatchLocked.simps [of a])
    next
      case (Some p)
      with scan have s: "scan a 0 (a_queue a) None = (a', Some p)" by simp
      note sc = scan_Some [OF "1.prems"(1) s]
      have "adm_inv (dispatch_start p a')"
        using sc True by (intro dispatch_start_inv) simp_all
      then show ?thesis
        using "1.IH" [OF True s [symmetric]] "1.prems" True s by (simp add: dispatchLocked.simps [of a])
    qed
  qed
qed

subsection \<open>The primitives of the other sections\<close>

lemma neutral_inv:
  assumes "adm_inv a" "fixed_view b = fixed_view a" "slot_view b = slot_view a"
    "buf_view b = buf_view a" "acct_view b = acct_view a" "queue_view b = queue_view a"
    "a_tickets b = a_tickets a"
  shows "adm_inv b"
  using assms(1)
  by (intro adm_inv_views [OF assms(1-6)])
     (simp_all add: adm_inv_def tickets_ok_def choosers_ok_def assms(7))

lemma reject_inv: "adm_inv a \<Longrightarrow> adm_inv (reject_count c a)"
  by (erule neutral_inv) (simp_all, simp add: reject_count_def)

lemma forget_inv: "adm_inv a \<Longrightarrow> adm_inv (forget_served c a)"
  by (erule neutral_inv) (simp_all, simp add: forget_served_def)

text \<open>Fields of a ticket that no counter reads.\<close>

lemma mod_inv:
  assumes "adm_inv a"
    and f: "\<And>k. t_running (f k) = t_running k" "\<And>k. t_key (f k) = t_key k"
      "\<And>k. t_shared (f k) = t_shared k" "\<And>k. t_model (f k) = t_model k"
      "\<And>k. t_accountHeld (f k) = t_accountHeld k" "\<And>k. t_account (f k) = t_account k"
      "\<And>k. t_bufferHeld (f k) = t_bufferHeld k" "\<And>k. t_bufferBytes (f k) = t_bufferBytes k"
      "\<And>k. t_limit (f k) = t_limit k" "\<And>k. t_chooseAccount (f k) = t_chooseAccount k"
  shows "adm_inv (mod_tkt t f a)"
proof (rule adm_inv_views [OF assms(1)])
  show "tickets_ok (mod_tkt t f a)"
    using assms(1) by (simp add: adm_inv_def tickets_ok_iff f)
  show "choosers_ok (mod_tkt t f a)" if "\<not> a_unlimited a"
    using assms(1) that by (simp add: adm_inv_def choosers_ok_iff f)
qed (rule view_mod_tkt, simp add: f)+

lemma vacate_fields:
  "a_active (vacate t a) = a_active a - 1"
  "a_sharedActive (vacate t a) = a_sharedActive a - of_bool (t_shared (tkt a t))"
  "cnt (a_byKey (vacate t a)) key = cnt (a_byKey a) key - of_bool (key = t_key (tkt a t))"
  "a_buffers (vacate t a) = a_buffers a" "a_sharedBuffers (vacate t a) = a_sharedBuffers a"
  "a_byAccount (vacate t a) = a_byAccount a" "a_queue (vacate t a) = a_queue a"
  by (simp_all add: vacate_def set_running_fields releaseModelLocked_def Let_def ct.get_decr)

lemma bounds_ok_lower:
  assumes "bounds_ok a" "fixed_view b = fixed_view a" "a_active b \<le> a_active a"
    "a_sharedActive b \<le> a_sharedActive a" "a_buffers b \<le> a_buffers a"
    "a_sharedBuffers b \<le> a_sharedBuffers a" "\<And>u. cnt (a_byAccount b) u \<le> cnt (a_byAccount a) u"
    "\<And>k. cnt (a_byKey b) k \<le> cnt (a_byKey a) k"
  shows "bounds_ok b"
  using assms(1,3-8)
  unfolding bounds_ok_def key_bound_fixed assms(2) fixed_fields [OF assms(2)]
  by (meson order_trans)

lemma queue_ok_set_idle: "queue_ok a \<Longrightarrow> queue_ok (set_running t False a)"
proof -
  have "\<not> t_running ((a_tickets a)[t := (a_tickets a ! t)\<lparr>t_running := False\<rparr>] ! u)"
    if "u < length (a_tickets a)" "\<not> t_running (a_tickets a ! u)" for u
    using that by (cases "u = t") simp_all
  then show "queue_ok a \<Longrightarrow> queue_ok (set_running t False a)"
    by (auto simp: queue_ok_def queue_view_def set_running_def mod_tkt_def)
qed

lemma vacate_inv:
  assumes "adm_inv a" "t < length (a_tickets a)" "t_running (tkt a t)"
  shows "adm_inv (vacate t a)"
proof -
  have q: "queue_ok (vacate t a)"
    using assms(1) queue_ok_set_idle [of a t] queue_ok_cong [of "vacate t a" "set_running t False a"]
    by (simp add: adm_inv_def queue_view_def vacate_fields set_running_def mod_tkt_def vacate_def
        releaseModelLocked_def Let_def)
  have b: "bounds_ok (vacate t a)" if "bounds_ok a"
    using that by (rule bounds_ok_lower) (simp_all add: vacate_fields)
  have tk: "tickets_ok (vacate t a)"
    using assms(1) by (auto simp: adm_inv_def tickets_ok_iff tkt_ops)
  have ch: "choosers_ok (vacate t a)" if "choosers_ok a"
    using that by (auto simp: choosers_ok_iff tkt_ops split: option.splits)
  show ?thesis
    using assms slots_ok_vacate [of a t] q b tk ch
    by (simp add: adm_inv_def accounts_ok_cong [of "vacate t a" a] buffers_ok_cong [of "vacate t a" a]
        unlimited_cong [of "vacate t a" a])
qed

lemma releaseBuffer_inv:
  assumes "adm_inv a" "t < length (a_tickets a)"
  shows "adm_inv (releaseBufferLocked t a)"
proof -
  let ?b = "releaseBufferLocked t a"
  have "0 \<le> t_bufferBytes (tkt a t)"
    using assms by (auto simp: adm_inv_def buffers_ok_def buf_view_def tkt_def)
  then have b: "bounds_ok ?b" if "bounds_ok a"
    using that by (intro bounds_ok_lower [of a ?b])
      (simp_all, auto simp: releaseBufferLocked_def mod_tkt_def Let_def)
  have tk: "tickets_ok ?b"
    using assms(1) by (auto simp: adm_inv_def tickets_ok_iff tkt_ops)
  have ch: "choosers_ok ?b" if "choosers_ok a"
    using that by (auto simp: choosers_ok_iff tkt_ops split: option.splits)
  show ?thesis
    using assms buffers_ok_release [of a t] b tk ch
    by (simp add: adm_inv_def accounts_ok_cong [of ?b a] slots_ok_cong [of ?b a]
        queue_ok_cong [of ?b a] unlimited_cong [of ?b a])
qed

lemma releaseAccount_inv:
  assumes "adm_inv a" "t < length (a_tickets a)"
  shows "adm_inv (releaseAccountLocked t a)"
proof -
  let ?b = "releaseAccountLocked t a"
  have b: "bounds_ok ?b" if "bounds_ok a"
    using that by (intro bounds_ok_lower [of a ?b])
      (simp_all, auto simp: releaseAccountLocked_def mod_tkt_def ct.get_decr)
  have tk: "tickets_ok ?b"
    using assms(1) by (auto simp: adm_inv_def tickets_ok_iff tkt_ops)
  have ch: "choosers_ok ?b" if "choosers_ok a"
    using that by (auto simp: choosers_ok_iff tkt_ops split: option.splits)
  show ?thesis
    using assms accounts_ok_release [of a t] b tk ch
    by (simp add: adm_inv_def buffers_ok_cong [of ?b a] slots_ok_cong [of ?b a]
        queue_ok_cong [of ?b a] unlimited_cong [of ?b a])
qed

lemma append_queue_inv:
  assumes "adm_inv a" "t < length (a_tickets a)" "\<not> t_running (tkt a t)" "t \<notin> set (a_queue a)"
  shows "adm_inv (a\<lparr>a_queue := a_queue a @ [t]\<rparr>)"
  using assms
  by (intro adm_inv_queue_update) (auto simp: adm_inv_def queue_ok_def queue_view_def tkt_def)

lemma remove1_queue_inv:
  assumes "adm_inv a"
  shows "adm_inv (a\<lparr>a_queue := remove1 t (a_queue a)\<rparr>)"
  using assms
  by (intro adm_inv_queue_update)
     (auto simp: adm_inv_def queue_ok_def queue_view_def dest: notin_set_remove1)

lemma enqueue_outcome:
  "(\<exists>code. enqueueLocked t a = (reject_count code a, Some (LocalOverload code))) \<or>
   enqueueLocked t a = (a\<lparr>a_queue := a_queue a @ [t]\<rparr>, None) \<and>
   int (length (a_queue a)) < a_queueSize a"
  by (auto simp: enqueueLocked_def Let_def)

lemma enqueue_cases:
  obtains (reject) code where "enqueueLocked t a = (reject_count code a, Some (LocalOverload code))"
  | (queue) "enqueueLocked t a = (a\<lparr>a_queue := a_queue a @ [t]\<rparr>, None)"
    "int (length (a_queue a)) < a_queueSize a"
  using enqueue_outcome by blast

lemma enqueue_inv:
  assumes "adm_inv a" "t < length (a_tickets a)" "\<not> t_running (tkt a t)" "t \<notin> set (a_queue a)"
  shows "adm_inv (fst (enqueueLocked t a))"
  by (cases t a rule: enqueue_cases) (simp_all add: assms reject_inv append_queue_inv)

text \<open>A new ticket holds nothing.\<close>

lemma add_ticket_inv:
  assumes "adm_inv a" "\<not> t_running k" "\<not> t_accountHeld k" "\<not> t_bufferHeld k"
    "0 \<le> t_bufferBytes k" "t_chooseAccount k = None" "t_account k = None"
  shows "adm_inv (add_ticket k a)"
proof -
  have "slots_ok (add_ticket k a)" "accounts_ok (add_ticket k a)" "buffers_ok (add_ticket k a)"
    "queue_ok (add_ticket k a)" "tickets_ok (add_ticket k a)"
    using assms
    by (auto simp: adm_inv_def slots_ok_def accounts_ok_def buffers_ok_def queue_ok_def tickets_ok_def
        view_defs add_ticket_def nth_append)
  moreover have "choosers_ok (add_ticket k a)" if "choosers_ok a"
    using that assms by (auto simp: choosers_ok_def add_ticket_def)
  moreover have "bounds_ok (add_ticket k a)" if "bounds_ok a"
    using that by (auto simp: bounds_ok_def add_ticket_def)
  ultimately show ?thesis
    using assms(1) by (simp add: adm_inv_def) (simp add: add_ticket_def)
qed

subsection \<open>The sections keep the invariant\<close>

text \<open>A dispatch leaves tickets outside the queue alone, and the queue only shrinks.\<close>

lemma dispatch_start_simps:
  "a_queue (dispatch_start p a) = remove_at p (a_queue a)"
  "length (a_tickets (dispatch_start p a)) = length (a_tickets a)"
  "fixed_view (dispatch_start p a) = fixed_view a"
  by (simp_all add: dispatch_start_def start_ticket_def)

lemma dispatch_frame:
  assumes "queue_ok a"
  shows "length (a_tickets (dispatchLocked a)) = length (a_tickets a) \<and>
    fixed_view (dispatchLocked a) = fixed_view a \<and>
    set (a_queue (dispatchLocked a)) \<subseteq> set (a_queue a) \<and>
    (\<forall>t. t \<notin> set (a_queue a) \<longrightarrow> tkt (dispatchLocked a) t = tkt a t)"
  using assms
proof (induction a rule: dispatchLocked.induct)
  case (1 a)
  show ?case
  proof (cases "a_active a < a_capacity a")
    case False
    then show ?thesis by (simp add: dispatchLocked.simps [of a] tkt_ops)
  next
    case True
    obtain a' r where scan: "scan a 0 (a_queue a) None = (a', r)" by fastforce
    have a': "a' = fst (scan a 0 (a_queue a) None)" using scan by simp
    have fr: "length (a_tickets a') = length (a_tickets a)" "fixed_view a' = fixed_view a"
      "a_queue a' = a_queue a" "\<And>t. t \<notin> set (a_queue a) \<Longrightarrow> tkt a' t = tkt a t"
      by (simp_all add: a' scan_frame)
    show ?thesis
    proof (cases r)
      case None
      with True scan fr show ?thesis by (simp add: dispatchLocked.simps [of a] tkt_ops)
    next
      case (Some p)
      with scan have s: "scan a 0 (a_queue a) None = (a', Some p)" by simp
      let ?d = "dispatch_start p a'"
      have p: "p < length (a_queue a)"
        using scan_whole [OF "1.prems"] s by (simp add: best_of_def Let_def)
      have t: "a_queue a ! p < length (a_tickets a)"
        using queue_ok_nth [OF "1.prems"] p by simp
      have out: "a_queue a ! p \<notin> set (remove_at p (a_queue a))"
        using "1.prems" p by (simp add: set_remove_at_distinct queue_ok_def queue_view_def)
      have q': "queue_ok a'"
        using "1.prems" queue_ok_cong [of a' a] by (simp add: a')
      have "queue_ok ?d"
      proof -
        let ?a0 = "a'\<lparr>a_queue := remove_at p (a_queue a')\<rparr>"
        have "queue_ok (set_running (a_queue a' ! p) True ?a0)"
          using queue_ok_remove_at [OF q', of p] out fr(3)
          by (intro queue_ok_set_running_out) simp_all
        then show ?thesis
          using queue_ok_cong [of ?d "set_running (a_queue a' ! p) True ?a0"]
          by (simp add: dispatch_start_def start_ticket_def)
      qed
      moreover have "tkt ?d u = tkt a u" if "u \<notin> set (a_queue a)" for u
      proof -
        have "u \<noteq> a_queue a ! p" using that p by auto
        then show ?thesis using fr that by (simp add: dispatch_start_def tkt_start)
      qed
      moreover have "set (a_queue ?d) \<subseteq> set (a_queue a)"
        using set_remove_at_subset fr(3) by (simp add: dispatch_start_simps)
      ultimately show ?thesis
        using "1.IH" [OF True s [symmetric]] True s fr
        by (auto simp: dispatchLocked.simps [of a] dispatch_start_simps)
    qed
  qed
qed

lemma adm_inv_queue_ok [simp]: "adm_inv a \<Longrightarrow> queue_ok a"
  by (simp add: adm_inv_def)

lemmas dispatch_frames =
  dispatch_frame [OF adm_inv_queue_ok, THEN conjunct1]
  dispatch_frame [OF adm_inv_queue_ok, THEN conjunct2, THEN conjunct1]
  dispatch_frame [OF adm_inv_queue_ok, THEN conjunct2, THEN conjunct2, THEN conjunct1]
  dispatch_frame [OF adm_inv_queue_ok, THEN conjunct2, THEN conjunct2, THEN conjunct2, rule_format]

lemma removeLocked_inv:
  assumes "adm_inv a" "t < length (a_tickets a)"
  shows "adm_inv (removeLocked t a)"
proof -
  let ?a1 = "releaseBufferLocked t (releaseAccountLocked t a)"
  have i: "adm_inv ?a1"
    using assms by (simp add: releaseBuffer_inv releaseAccount_inv)
  show ?thesis
    using assms(2) i remove1_queue_inv [OF i, of t] vacate_inv [OF i, of t]
    by (auto simp: removeLocked_def Let_def intro!: forget_inv)
qed

lemma release_inv:
  assumes "adm_inv a" "t < length (a_tickets a)"
  shows "adm_inv (release t a)"
  using assms by (simp add: release_def dispatch_inv removeLocked_inv mod_inv)

lemma start_new_inv:
  assumes "adm_inv a" "t < length (a_tickets a)" "\<not> t_running (tkt a t)" "t \<notin> set (a_queue a)"
    "t_account (tkt a t) = None" "a_active a < a_capacity a" "admissible a (tkt a t)"
  shows "adm_inv (occupy t (reserveBufferLocked t (set_running t True a)))"
proof -
  have "start_ticket t a = occupy t (reserveBufferLocked t (set_running t True a))"
    using assms(2,5) by (simp add: start_ticket_def hold_account_def tkt_ops)
  moreover have "adm_inv (start_ticket t a)"
    using assms by (intro start_inv) (simp_all add: fresh_account_def)
  ultimately show ?thesis by simp
qed

lemma acquire_unlimited_inv:
  assumes "adm_inv a" "a_unlimited a"
  shows "adm_inv (acquire_unlimited now key model a)"
  using assms
  by (auto simp: adm_inv_def slots_ok_def accounts_ok_def buffers_ok_def queue_ok_def tickets_ok_def
      view_defs acquire_unlimited_def add_ticket_def new_ticket_def nth_append Let_def ct.get_incr)

lemma acquire_inv:
  assumes "adm_inv a" "0 \<le> sz"
  shows "adm_inv (fst (acquireWithBudget now ctxErr key lim model sz a))"
proof (cases "ctxErr \<noteq> None \<or> a_unlimited a")
  case True
  with assms show ?thesis
    by (auto simp: acquireWithBudget_def acquire_unlimited_inv split: option.split)
next
  case False
  let ?t = "length (a_tickets a)"
  let ?k = "new_ticket key (effective_limit a key lim) now model sz (a_wait a)"
  let ?a0 = "add_ticket ?k a" let ?a1 = "dispatchLocked ?a0"
  have i0: "adm_inv ?a0"
    using assms by (intro add_ticket_inv) (simp_all add: new_ticket_def)
  then have i1: "adm_inv ?a1" by (rule dispatch_inv)
  have q0: "?t \<notin> set (a_queue ?a0)"
    using queue_ok_nth [OF adm_inv_queue_ok [OF assms(1)]] by (auto simp: add_ticket_def)
  have k: "tkt ?a1 ?t = ?k" "?t \<notin> set (a_queue ?a1)" "?t < length (a_tickets ?a1)"
    using dispatch_frames(1,3,4) [OF i0] q0 by (auto simp: add_ticket_def tkt_def nth_append)
  have "adm_inv (occupy ?t (reserveBufferLocked ?t (set_running ?t True ?a1)))"
    if "a_active ?a1 < a_capacity ?a1" "admissible ?a1 (tkt ?a1 ?t)"
    using that k i1 by (intro start_new_inv) (simp_all add: new_ticket_def)
  moreover have "adm_inv (fst (enqueueLocked ?t ?a1))"
    using k i1 by (intro enqueue_inv) (simp_all add: new_ticket_def)
  ultimately show ?thesis
    using False assms(1)
    by (auto simp: acquireWithBudget_def Let_def split: option.split prod.split)
qed

lemma bind_unlimited_inv:
  assumes "adm_inv a" "a_unlimited a" "t < length (a_tickets a)"
  shows "adm_inv (fst (bind_unlimited ctxErr chs t a))"
proof -
  let ?r = "releaseAccountLocked t (a\<lparr>a_calls := Suc (a_calls a)\<rparr>)"
  have "adm_inv (a\<lparr>a_calls := Suc (a_calls a)\<rparr>)"
    by (rule neutral_inv [OF assms(1)]) (simp_all add: view_defs)
  then have i: "adm_inv ?r" "adm_inv (a\<lparr>a_calls := Suc (a_calls a)\<rparr>)"
    using assms(3) by (simp_all add: releaseAccount_inv)
  have u: "a_unlimited ?r" using assms(2) by (simp add: releaseAccountLocked_def mod_tkt_def)
  have f: "\<not> t_accountHeld (tkt ?r t)" "t < length (a_tickets ?r)"
    using assms(3) by (simp_all add: tkt_ops)
  have "adm_inv ((mod_tkt t (\<lambda>k. k\<lparr>t_account := Some uid, t_accountHeld := True\<rparr>) ?r)
      \<lparr>a_byAccount := bump (a_byAccount ?r) uid\<rparr>)" for uid
    using i(1) u f
    by (auto simp: adm_inv_def slots_ok_def accounts_ok_def buffers_ok_def queue_ok_def tickets_ok_def
        view_defs mod_tkt_def tkt_def map_update_same tally_map tally_update ct.get_incr
        dest!: set_update_subset_insert [THEN subsetD])
  then show ?thesis
    using assms(1) i
    by (auto simp: bind_unlimited_def Let_def mod_tkt_def split: option.split prod.split)
qed

lemma bind_yield_inv:
  assumes "adm_inv a" "t < length (a_tickets a)" "t_running (tkt a t)" "chooser_ok chs"
  shows "adm_inv (bind_yield chs t a)"
proof -
  let ?r = "releaseBufferLocked t (releaseAccountLocked t a)"
  let ?v = "vacate t ?r"
  have i: "adm_inv ?v"
    using assms by (intro vacate_inv releaseBuffer_inv releaseAccount_inv) (simp_all add: tkt_ops)
  have h: "\<not> t_accountHeld (tkt ?v t)" "t < length (a_tickets ?v)"
    using assms(2) by (simp_all add: tkt_ops)
  let ?b = "bind_yield chs t a"
  have b: "?b = mod_tkt t (\<lambda>k. k\<lparr>t_chooseAccount := Some chs, t_account := None, t_selectionErr := None\<rparr>) ?v"
    by (simp add: bind_yield_def)
  show ?thesis
  proof (rule adm_inv_views [OF i])
    show "acct_view ?b = acct_view ?v"
      using h by (simp add: b acct_view_def mod_tkt_def tkt_def map_update_same)
    show "tickets_ok ?b"
      using i h by (simp add: b adm_inv_def tickets_ok_iff)
    show "choosers_ok ?b" if "\<not> a_unlimited ?v"
      using i that assms(4) by (simp add: b adm_inv_def choosers_ok_iff)
  qed (simp_all add: b view_mod_tkt)
qed

lemma bind_yield_tkt:
  assumes "adm_inv a" "t < length (a_tickets a)" "t_running (tkt a t)"
  shows "\<not> t_running (tkt (bind_yield chs t a) t)" "t \<notin> set (a_queue (bind_yield chs t a))"
    "\<not> t_accountHeld (tkt (bind_yield chs t a) t)" "t_account (tkt (bind_yield chs t a) t) = None"
    "t_selectionErr (tkt (bind_yield chs t a) t) = None"
    "t_chooseAccount (tkt (bind_yield chs t a) t) = Some chs"
    "length (a_tickets (bind_yield chs t a)) = length (a_tickets a)"
    "a_unlimited (bind_yield chs t a) = a_unlimited a"
proof -
  show "t \<notin> set (a_queue (bind_yield chs t a))"
    using queue_ok_nth [OF adm_inv_queue_ok [OF assms(1)], of t] assms(3)
    by (auto simp: bind_yield_def vacate_fields releaseAccountLocked_def mod_tkt_def)
  have "fixed_view (bind_yield chs t a) = fixed_view a"
    by (simp add: bind_yield_def view_mod_tkt)
  then show "a_unlimited (bind_yield chs t a) = a_unlimited a" by (rule unlimited_cong)
qed (use assms(2) in \<open>simp_all add: bind_yield_def tkt_ops\<close>)

lemma consult_inv:
  assumes "adm_inv a" "t < length (a_tickets a)" "\<not> t_accountHeld (tkt a t)"
    "t_chooseAccount (tkt a t) = Some c"
  shows "adm_inv (consult t c a)"
  using assms
  by (intro adm_inv_views [OF assms(1)])
     (simp_all add: view_consult_acct adm_inv_def tickets_ok_iff choosers_ok_iff tkt_consult)

lemma bind_inv:
  assumes "adm_inv a" "t < length (a_tickets a)" "chooser_ok chs"
  shows "adm_inv (fst (bindProviderAccount ctxErr chs t a))"
proof (cases "a_unlimited a \<or> t_released (tkt a t) \<or> \<not> t_running (tkt a t)")
  case True
  with assms show ?thesis by (auto simp: bindProviderAccount_def bind_unlimited_inv)
next
  case False
  let ?y = "bind_yield chs t a" let ?a1 = "dispatchLocked ?y"
  have iy: "adm_inv ?y" using assms False by (intro bind_yield_inv) auto
  note y = bind_yield_tkt [OF assms(1,2), of chs]
  have i1: "adm_inv ?a1" by (rule dispatch_inv [OF iy])
  have k: "tkt ?a1 t = tkt ?y t" "t \<notin> set (a_queue ?a1)" "length (a_tickets ?a1) = length (a_tickets a)"
    "a_unlimited ?a1 = a_unlimited a"
    using dispatch_frames [OF iy] y False by (auto dest: unlimited_cong)
  define room where "room \<longleftrightarrow> a_active ?a1 < a_capacity ?a1 \<and> admissible ?a1 (tkt ?a1 t)"
  define a2 where "a2 = (if room then consult t chs ?a1 else ?a1)"
  have i2: "adm_inv a2"
    using i1 k y False assms(2) by (auto simp: a2_def intro: consult_inv)
  have t2: "\<not> t_running (tkt a2 t)" "t \<notin> set (a_queue a2)" "t < length (a_tickets a2)"
    "\<not> t_accountHeld (tkt a2 t)"
    using k y False assms(2) by (auto simp: a2_def tkt_consult)
  have st: "adm_inv (start_ticket t a2)" if "t_account (tkt a2 t) = Some uid" for uid
  proof -
    have room using that k y False by (auto simp: a2_def split: if_splits)
    moreover have "fresh_account a2 t"
      using that t2(4) assms(3) k assms(2) \<open>room\<close>
      by (cases "chs (a_calls ?a1) (busy_accounts ?a1)")
         (auto simp: fresh_account_def a2_def tkt_consult chooser_ok_def)
    moreover have "admissible a2 (tkt a2 t)"
      using \<open>room\<close> k assms(2) by (simp add: a2_def room_def tkt_consult)
    ultimately show ?thesis
      using i2 t2 by (intro start_inv) (simp_all add: a2_def room_def)
  qed
  have eq: "adm_inv (fst (enqueueLocked t a2))" using i2 t2 by (intro enqueue_inv)
  have u: "bindProviderAccount ctxErr chs t a =
    (case t_selectionErr (tkt a2 t) of
       Some e \<Rightarrow> (a2, BindError (ChooserError e))
     | None \<Rightarrow>
       let a3 = (case t_account (tkt a2 t) of None \<Rightarrow> a2 | Some _ \<Rightarrow> start_ticket t a2)
       in if t_running (tkt a3 t) then (signalLocked a3, BindAwait)
          else case enqueueLocked t a3 of
                 (a4, Some e) \<Rightarrow> (a4, BindError e)
               | (a4, None) \<Rightarrow> (signalLocked a4, BindAwait))"
  proof -
    have f: "a_unlimited a = False" "(t_released (tkt a t) \<or> \<not> t_running (tkt a t)) = False"
      using False by simp_all
    show ?thesis
      unfolding bindProviderAccount_def Let_def a2_def room_def f if_False ..
  qed
  show ?thesis
  proof (cases "t_selectionErr (tkt a2 t)")
    case (Some e)
    with i2 show ?thesis by (simp add: u)
  next
    case None
    note sel = this
    show ?thesis
    proof (cases "t_account (tkt a2 t)")
      case (Some uid)
      with sel st t2(3) show ?thesis by (simp add: u tkt_start signal_inv)
    next
      case None
      obtain a4 r where e: "enqueueLocked t a2 = (a4, r)" by fastforce
      with None sel t2(1) eq show ?thesis
        by (cases r) (simp_all add: u signal_inv)
    qed
  qed
qed

lemma await_inv:
  assumes "adm_inv a" "t < length (a_tickets a)"
  shows "adm_inv (fst (await_turn ctxErr elapsed t a))"
proof -
  have "adm_inv (mod_tkt t (\<lambda>k. k\<lparr>t_remaining := t_remaining k - elapsed\<rparr>) a)"
    using assms(1) by (rule mod_inv) simp_all
  moreover have "adm_inv (dispatchLocked (removeLocked t (reject_count c a)))" for c
    using assms by (intro dispatch_inv removeLocked_inv reject_inv) simp_all
  moreover have "adm_inv (dispatchLocked (removeLocked t a))"
    using assms by (intro dispatch_inv removeLocked_inv)
  ultimately show ?thesis
    using assms(1) by (simp add: await_turn_def Let_def split: option.split)
qed

lemma tick_inv: "adm_inv a \<Longrightarrow> adm_inv (fst (tick_collect now a))"
  by (auto simp: tick_collect_def Let_def view_defs intro: neutral_inv)

text \<open>Enqueueing before the slot is given back is enqueueing after it: throttle's order.\<close>

lemma vacate_queue:
  "vacate t (a\<lparr>a_queue := q\<rparr>) = (vacate t a)\<lparr>a_queue := q\<rparr>"
  by (simp add: vacate_def releaseModelLocked_def set_running_def mod_tkt_def tkt_def Let_def)

lemma throttle_begin_inv:
  assumes "adm_inv a" "t < length (a_tickets a)"
  shows "adm_inv (fst (throttle_begin start t a))"
proof (cases "t_released (tkt a t) \<or> \<not> t_running (tkt a t)")
  case True
  with assms(1) show ?thesis by (simp add: throttle_begin_def)
next
  case False
  let ?a0 = "mod_tkt t (\<lambda>k. k\<lparr>t_ready := False, t_since := start\<rparr>) a"
  have i0: "adm_inv ?a0" using assms(1) by (rule mod_inv) simp_all
  have run: "t_running (tkt ?a0 t)" "t < length (a_tickets ?a0)"
    using False assms(2) by simp_all
  then have nq: "t \<notin> set (a_queue ?a0)"
    using queue_ok_nth [OF adm_inv_queue_ok [OF i0]] by blast
  show ?thesis
  proof (cases t ?a0 rule: enqueue_cases)
    case (reject code)
    have "adm_inv (mod_tkt t (\<lambda>k. k\<lparr>t_ready := True\<rparr>) (reject_count code ?a0))"
      using reject_inv [OF i0] by (rule mod_inv) simp_all
    with reject False show ?thesis by (simp add: throttle_begin_def)
  next
    case queue
    have "adm_inv (vacate t ?a0)" using i0 run by (intro vacate_inv)
    then have "adm_inv ((vacate t ?a0)\<lparr>a_queue := a_queue (vacate t ?a0) @ [t]\<rparr>)"
      using run(2) nq by (intro append_queue_inv) (simp_all add: tkt_ops vacate_fields)
    then have "adm_inv (dispatchLocked (vacate t (?a0\<lparr>a_queue := a_queue ?a0 @ [t]\<rparr>)))"
      by (intro dispatch_inv) (simp add: vacate_queue vacate_fields)
    with queue False show ?thesis by (simp add: throttle_begin_def)
  qed
qed

lemma resume_inv: "adm_inv a \<Longrightarrow> adm_inv (throttle_resume t a)"
  unfolding throttle_resume_def by (intro dispatch_inv mod_inv) simp_all

subsection \<open>The event machine\<close>

text \<open>
  The sections of all requests, each an event on the shared scheduler. \<open>EElapse\<close> is the update of
  a lease's own \<open>remaining\<close> after the pacing wait, \<open>EReject\<close> the counter section of the timeout
  paths, \<open>EGauge\<close> a new reading of the memory gauge. The guard asks that a request names a
  ticket it was given, that a charge is a byte count, and that choosers respect the busy set.
\<close>

datatype adm_event =
    EAcquire int "string option" string int string int
  | EAwait "string option" int nat
  | ECollect int
  | EServe
  | ERelease nat
  | EBind "string option" chooser nat
  | EThrottle int nat
  | EElapse int nat
  | EReject string
  | EResume nat
  | EGauge int

fun adm_step :: "admission \<Rightarrow> adm_event \<Rightarrow> admission" where
  "adm_step a (EAcquire now ctxErr key lim model sz) =
     fst (acquireWithBudget now ctxErr key lim model sz a)"
| "adm_step a (EAwait ctxErr elapsed t) = fst (await_turn ctxErr elapsed t a)"
| "adm_step a (ECollect now) = fst (tick_collect now a)"
| "adm_step a EServe = dispatchLocked a"
| "adm_step a (ERelease t) = release t a"
| "adm_step a (EBind ctxErr chs t) = fst (bindProviderAccount ctxErr chs t a)"
| "adm_step a (EThrottle start t) = fst (throttle_begin start t a)"
| "adm_step a (EElapse d t) = mod_tkt t (\<lambda>k. k\<lparr>t_remaining := t_remaining k - d\<rparr>) a"
| "adm_step a (EReject code) = reject_count code a"
| "adm_step a (EResume t) = throttle_resume t a"
| "adm_step a (EGauge n) = a\<lparr>a_memoryUsage := map_option (\<lambda>_. n) (a_memoryUsage a)\<rparr>"

fun adm_ok :: "admission \<Rightarrow> adm_event \<Rightarrow> bool" where
  "adm_ok a (EAcquire now ctxErr key lim model sz) = (0 \<le> sz)"
| "adm_ok a (EAwait ctxErr elapsed t) = (t < length (a_tickets a))"
| "adm_ok a (ERelease t) = (t < length (a_tickets a))"
| "adm_ok a (EBind ctxErr chs t) = (t < length (a_tickets a) \<and> chooser_ok chs)"
| "adm_ok a (EThrottle start t) = (t < length (a_tickets a))"
| "adm_ok a (EElapse d t) = (t < length (a_tickets a))"
| "adm_ok a (EResume t) = (t < length (a_tickets a))"
| "adm_ok a _ = True"

lemma adm_step_inv: "adm_inv a \<Longrightarrow> adm_ok a e \<Longrightarrow> adm_inv (adm_step a e)"
proof (cases e)
  case (EElapse d t)
  then show "adm_inv a \<Longrightarrow> adm_ok a e \<Longrightarrow> adm_inv (adm_step a e)"
    by (simp add: mod_inv)
next
  case (EGauge n)
  then show "adm_inv a \<Longrightarrow> adm_ok a e \<Longrightarrow> adm_inv (adm_step a e)"
    by (auto simp: view_defs intro: neutral_inv)
qed (simp_all add: acquire_inv await_inv tick_inv dispatch_inv release_inv bind_inv
      throttle_begin_inv reject_inv resume_inv)

interpretation adm: guarded_machine adm_step adm_ok adm_inv
  by unfold_locales (rule adm_step_inv)

lemma new_admission_fields:
  "a_tickets (newModelAdmission c g) = []" "a_queue (newModelAdmission c g) = []"
  "a_active (newModelAdmission c g) = 0" "a_sharedActive (newModelAdmission c g) = 0"
  "a_byKey (newModelAdmission c g) = Map.empty" "a_byModel (newModelAdmission c g) = Map.empty"
  "a_byAccount (newModelAdmission c g) = Map.empty" "a_buffers (newModelAdmission c g) = 0"
  "a_sharedBuffers (newModelAdmission c g) = 0"
  by (simp_all add: newModelAdmission_def empty_admission_def Let_def)

lemma new_admission_limits:
  assumes "\<not> ModelLimitsDisabled c"
  shows "a_capacity (newModelAdmission c g) = positiveOr (MaxConcurrentRequests c) 13"
    "0 \<le> a_sharedCapacity (newModelAdmission c g)"
    "0 \<le> a_sharedBufferBudget (newModelAdmission c g)"
    "0 \<le> a_bufferBudget (newModelAdmission c g)"
    "a_accountLimit (newModelAdmission c g) = positiveOr (WorkBuddyAccountConcurrency c) 4"
    "\<not> a_unlimited (newModelAdmission c g)"
  using assms
  by (simp_all add: newModelAdmission_def empty_admission_def positiveOr_def
      DefaultMaxResponseBytes_def Let_def)

lemma new_admission_inv: "adm_inv (newModelAdmission c gauge)"
proof -
  have "bounds_ok (newModelAdmission c gauge)" if "\<not> ModelLimitsDisabled c"
    using new_admission_limits [OF that, of gauge]
    by (simp add: bounds_ok_def new_admission_fields positiveOr_def)
  moreover have "a_unlimited (newModelAdmission c gauge) = ModelLimitsDisabled c"
    by (simp add: newModelAdmission_def empty_admission_def Let_def)
  ultimately show ?thesis
    by (simp add: adm_inv_def slots_ok_def accounts_ok_def buffers_ok_def queue_ok_def tickets_ok_def
        choosers_ok_def view_defs new_admission_fields)
qed

lemma adm_run_inv:
  "legal adm_step adm_ok (newModelAdmission c gauge) es \<Longrightarrow>
   adm_inv (run adm_step (newModelAdmission c gauge) es)"
  by (rule adm.run_inv [OF new_admission_inv])

subsection \<open>The configuration never changes\<close>

definition limits_of ::
    "admission \<Rightarrow> bool \<times> int \<times> int \<times> int \<times> int \<times> int \<times> int \<times> int \<times> int \<times> int" where
  "limits_of a = (a_unlimited a, a_capacity a, a_sharedCapacity a, a_bufferBudget a,
     a_sharedBufferBudget a, a_accountLimit a, a_queueSize a, a_sharedQueue a, a_userQueue a,
     a_keyQueue a)"

lemma limits_of_prims [simp]:
  "limits_of (mod_tkt t f a) = limits_of a"
  "limits_of (reserveBufferLocked t a) = limits_of a"
  "limits_of (releaseBufferLocked t a) = limits_of a"
  "limits_of (consult t c a) = limits_of a"
  "limits_of (occupy t a) = limits_of a"
  "limits_of (set_running t b a) = limits_of a"
  "limits_of (hold_account t a) = limits_of a"
  "limits_of (releaseAccountLocked t a) = limits_of a"
  "limits_of (vacate t a) = limits_of a"
  "limits_of (forget_served s a) = limits_of a"
  "limits_of (signalLocked a) = limits_of a"
  "limits_of (reject_count s a) = limits_of a"
  "limits_of (add_ticket k a) = limits_of a"
  "limits_of (a\<lparr>a_queue := q\<rparr>) = limits_of a"
  "limits_of (a\<lparr>a_calls := n\<rparr>) = limits_of a"
  "limits_of (a\<lparr>a_byAccount := bs\<rparr>) = limits_of a"
  by (simp_all add: limits_of_def mod_tkt_def reserveBufferLocked_def releaseBufferLocked_def
      consult_def occupy_def set_running_def hold_account_def releaseAccountLocked_def vacate_def
      forget_served_def signalLocked_def reject_count_def add_ticket_def releaseModelLocked_def
      Let_def split: option.splits)

lemma limits_of_scan [simp]: "limits_of (fst (scan a i q pick)) = limits_of a"
  by (induction a i q pick rule: scan.induct) (simp_all add: scan.simps Let_def split: option.splits)

lemma limits_of_dispatch [simp]: "limits_of (dispatchLocked a) = limits_of a"
proof (induction a rule: dispatchLocked.induct)
  case (1 a)
  obtain a' r where scan: "scan a 0 (a_queue a) None = (a', r)" by fastforce
  then have "limits_of a' = limits_of a"
    using limits_of_scan [of a 0 "a_queue a" None] by simp
  with 1 scan show ?case
    by (cases r) (simp_all add: dispatchLocked.simps [of a] dispatch_start_def start_ticket_def)
qed

lemma limits_of_enqueue [simp]: "limits_of (fst (enqueueLocked t a)) = limits_of a"
  by (cases t a rule: enqueue_cases) simp_all

lemma limits_of_enqueue_eq: "enqueueLocked t a = (b, r) \<Longrightarrow> limits_of b = limits_of a"
  by (metis fst_conv limits_of_enqueue)

lemma limits_of_enqueue_fst:
  "limits_of (fst (case enqueueLocked t a of (b, None) \<Rightarrow> (f b, x) | (b, Some e) \<Rightarrow> (b, y e)))
     = limits_of a"
  if "\<And>b. limits_of (f b) = limits_of b"
  using that by (auto dest: limits_of_enqueue_eq split: prod.split option.split)

lemma limits_of_acquire [simp]:
  "limits_of (fst (acquireWithBudget now ctxErr key lim model sz a)) = limits_of a"
proof -
  have "limits_of (acquire_unlimited now key model a) = limits_of a"
    by (simp add: acquire_unlimited_def limits_of_def add_ticket_def Let_def)
  then show ?thesis
    by (auto simp: acquireWithBudget_def Let_def dest: limits_of_enqueue_eq
        split: option.split prod.split)
qed

lemma limits_of_bind [simp]: "limits_of (fst (bindProviderAccount ctxErr chs t a)) = limits_of a"
proof -
  have "limits_of (fst (bind_unlimited ctxErr chs t a)) = limits_of a"
    by (simp add: bind_unlimited_def Let_def split: option.split prod.split)
  moreover have "limits_of (bind_yield chs t a) = limits_of a"
    by (simp add: bind_yield_def)
  ultimately show ?thesis
    by (simp add: bindProviderAccount_def Let_def start_ticket_def limits_of_enqueue_fst
        split: option.split)
qed

lemma limits_of_remove [simp]: "limits_of (removeLocked t a) = limits_of a"
  by (simp add: removeLocked_def Let_def)

lemma limits_of_throttle [simp]: "limits_of (fst (throttle_begin start t a)) = limits_of a"
  by (auto simp: throttle_begin_def dest!: limits_of_enqueue_eq split: option.split prod.split)

lemma limits_of_step [simp]: "limits_of (adm_step a e) = limits_of a"
proof (cases e)
  case (EGauge n)
  then show ?thesis by (simp add: limits_of_def)
next
  case (ECollect now)
  then show ?thesis by (simp add: tick_collect_def limits_of_def Let_def)
qed (simp_all add: await_turn_def release_def throttle_resume_def Let_def split: option.split)

lemma limits_of_run [simp]: "limits_of (run adm_step a es) = limits_of a"
  by (induction es arbitrary: a) simp_all

lemma limits_fields:
  assumes "limits_of b = limits_of a"
  shows "a_unlimited b = a_unlimited a" "a_capacity b = a_capacity a"
    "a_sharedCapacity b = a_sharedCapacity a" "a_bufferBudget b = a_bufferBudget a"
    "a_sharedBufferBudget b = a_sharedBufferBudget a" "a_accountLimit b = a_accountLimit a"
    "a_queueSize b = a_queueSize a" "a_sharedQueue b = a_sharedQueue a"
    "a_userQueue b = a_userQueue a" "a_keyQueue b = a_keyQueue a"
  using assms by (simp_all add: limits_of_def)

subsection \<open>What the scheduler guarantees\<close>

definition how_many :: "(ticket \<Rightarrow> bool) \<Rightarrow> admission \<Rightarrow> int" where
  "how_many P a = int (length (filter P (a_tickets a)))"

lemma tally_how_many: "tally (\<lambda>k. of_bool (P k)) (a_tickets a) = how_many P a"
proof -
  have "tally (\<lambda>k. of_bool (P k)) xs = int (length (filter P xs))" for xs :: "ticket list"
    by (induction xs) auto
  then show ?thesis by (simp add: how_many_def)
qed

lemma slots_how_many:
  assumes "slots_ok a"
  shows "a_active a = how_many t_running a"
    "a_sharedActive a = how_many (\<lambda>k. t_running k \<and> t_shared k) a"
    "cnt (a_byKey a) key = how_many (\<lambda>k. t_running k \<and> t_key k = key) a"
    "cnt (a_byModel a) m = how_many (\<lambda>k. t_running k \<and> t_shared k \<and> t_model k = m) a"
  using assms by (simp_all add: slots_ok_def slot_view_def tally_map flip: tally_how_many)

lemma accounts_how_many:
  assumes "accounts_ok a"
  shows "cnt (a_byAccount a) uid = how_many (\<lambda>k. t_accountHeld k \<and> t_account k = Some uid) a"
proof -
  have "(\<lambda>k :: ticket. (if t_accountHeld k then t_account k else None) = Some uid) =
        (\<lambda>k. t_accountHeld k \<and> t_account k = Some uid)"
    by (rule ext) simp
  then have "tally (\<lambda>k. of_bool ((if t_accountHeld k then t_account k else None) = Some uid))
      (a_tickets a) = how_many (\<lambda>k. t_accountHeld k \<and> t_account k = Some uid) a"
    unfolding tally_how_many by (rule arg_cong [where f = "\<lambda>P. how_many P a"])
  moreover have "cnt (a_byAccount a) uid =
      tally (\<lambda>k. of_bool ((if t_accountHeld k then t_account k else None) = Some uid)) (a_tickets a)"
    using assms unfolding accounts_ok_def acct_view_def fst_conv snd_conv prod.case tally_map o_def
    by (rule spec)
  ultimately show ?thesis by simp
qed

text \<open>C4. The counters are exact in every reachable state: the scheduler's running totals (per
  scheduler, shared, per key, per model, per account) count exactly the tickets that run or
  hold an account, the buffer total is the sum of the reservations held, and no queued ticket
  runs. No path through admission, binding, throttling, timeout or release leaks a slot.\<close>

theorem admission_counters_exact:
  assumes "legal adm_step adm_ok (newModelAdmission c gauge) es"
  defines "a \<equiv> run adm_step (newModelAdmission c gauge) es"
  shows "a_active a = how_many t_running a \<and>
    a_sharedActive a = how_many (\<lambda>k. t_running k \<and> t_shared k) a \<and>
    cnt (a_byKey a) key = how_many (\<lambda>k. t_running k \<and> t_key k = key) a \<and>
    cnt (a_byModel a) m = how_many (\<lambda>k. t_running k \<and> t_shared k \<and> t_model k = m) a \<and>
    cnt (a_byAccount a) uid = how_many (\<lambda>k. t_accountHeld k \<and> t_account k = Some uid) a \<and>
    a_buffers a = tally (\<lambda>k. if t_bufferHeld k then t_bufferBytes k else 0) (a_tickets a) \<and>
    distinct (a_queue a) \<and> (\<forall>t \<in> set (a_queue a). \<not> t_running (tkt a t))"
proof -
  have i: "adm_inv a" unfolding a_def using assms(1) by (rule adm_run_inv)
  then have "a_buffers a = tally (\<lambda>k. if t_bufferHeld k then t_bufferBytes k else 0) (a_tickets a)"
    by (simp add: adm_inv_def buffers_ok_def buf_view_def tally_map)
  moreover have "distinct (a_queue a)"
    using i by (simp add: adm_inv_def queue_ok_def queue_view_def)
  ultimately show ?thesis
    using i queue_ok_nth [of a] by (simp add: adm_inv_def slots_how_many accounts_how_many)
qed

definition example_config :: adm_config where
  "example_config = \<lparr>ModelLimitsDisabled = False, MaxConcurrentRequests = 1, ModelQueueSize = 4,
     ModelKeyQueueSize = 2, ModelQueueWaitSeconds = 60, ModelKeyLimits = None,
     PortalUserQueueSize = 0, PortalSharedQueueSize = 0, PortalSharedConcurrency = 0,
     WorkBuddyAccountConcurrency = 0, MaxResponseBytes = 1000, ModelBufferBudgetBytes = 0,
     ModelMemoryGuard = False, ModelMemoryHighBytes = 0\<rparr>"

definition example_run :: "adm_event list" where
  "example_run = [EAcquire 0 None ''7'' 0 ''m'' 100, EAcquire 1 None ''8'' 0 ''m'' 100, EServe]"

lemma example_run_legal: "legal adm_step adm_ok (newModelAdmission example_config 0) example_run"
  by (simp add: example_run_def)

theorem admission_counters_exact_witness:
  "let a = run adm_step (newModelAdmission example_config 0) example_run
   in a_active a = how_many t_running a \<and>
      cnt (a_byKey a) ''8'' = how_many (\<lambda>k. t_running k \<and> t_key k = ''8'') a"
  unfolding Let_def using admission_counters_exact [OF example_run_legal] by blast



end
