(* ===== verification/AdmissionProps.thy ===== *)
theory AdmissionProps
  imports AdmissionSteps
begin

text \<open>
  The behaviour of the admission scheduler beyond its counters: dispatch is work conserving and
  picks the least loaded, longest unserved key; the queue stays within its total, shared and
  per-key bounds; a release gives everything back and is idempotent; the tail of a throttle is
  a run of the machine's events; application and portal keys do not collide; the memory gauge
  stays within its total.
\<close>

text \<open>C6. Dispatch is work conserving: in every reachable state, after the scheduler served its
  queue, either no execution slot is free or no waiting ticket is startable (ready, within its
  key, shared and buffer limits, and with an account or an answer from its chooser).\<close>

theorem admission_work_conserving:
  assumes "legal adm_step adm_ok (newModelAdmission c gauge) es"
    "a = dispatchLocked (run adm_step (newModelAdmission c gauge) es)"
    "a_active a < a_capacity a"
  shows "\<forall>t \<in> set (a_queue a). \<not> startable a t"
  using assms dispatch_saturates [OF adm_run_inv [OF assms(1)]] by simp

lemma example_active:
  "a_active (dispatchLocked (newModelAdmission example_config 0)) = 0"
  "a_capacity (dispatchLocked (newModelAdmission example_config 0)) = 1"
  by (simp_all add: dispatchLocked.simps signalLocked_def newModelAdmission_def example_config_def
      empty_admission_def positiveOr_def)

theorem admission_work_conserving_witness:
  "filter (startable (dispatchLocked (newModelAdmission example_config 0)))
     (a_queue (dispatchLocked (newModelAdmission example_config 0))) = []"
  unfolding filter_empty_conv
  by (rule admission_work_conserving [of example_config 0 "[]"]) (simp_all add: example_active)

text \<open>Fairness of the pick: when a pass over the queue picks position \<open>p\<close>, the ticket there is
  startable, and every other startable ticket has a key that runs more requests, or as many and
  was served no earlier; among equals the one that came first is picked.\<close>

theorem dispatch_picks_fairly:
  assumes "legal adm_step adm_ok (newModelAdmission c gauge) es"
    "s = run adm_step (newModelAdmission c gauge) es"
    "scan s 0 (a_queue s) None = (a, Some p)" "j < length (a_queue s)"
    "startable a (a_queue a ! j)" "j \<noteq> p"
  defines "pk \<equiv> t_key (tkt a (a_queue a ! p))" and "jk \<equiv> t_key (tkt a (a_queue a ! j))"
  shows "p < length (a_queue a) \<and> startable a (a_queue a ! p) \<and>
    (cnt (a_byKey a) pk < cnt (a_byKey a) jk \<or>
     cnt (a_byKey a) pk = cnt (a_byKey a) jk \<and>
     (cnt (a_served a) pk < cnt (a_served a) jk \<or>
      cnt (a_served a) pk = cnt (a_served a) jk \<and> p < j))"
proof -
  have "queue_ok s" using adm_run_inv [OF assms(1)] assms(2) by simp
  from scan_whole [OF this] have b: "best_of a (length (a_queue s)) (Some p)"
    by (simp add: assms(3))
  have q: "a_queue a = a_queue s"
    using scan_queue [of s 0 "a_queue s" None] assms(3) by simp
  from b assms(4,5,6) show ?thesis
    by (auto simp: best_of_def better_def Let_def q pk_def jk_def)
qed

definition pressed_config :: adm_config where
  "pressed_config = example_config\<lparr>ModelMemoryGuard := True, ModelMemoryHighBytes := 100\<rparr>"

definition pressed_run :: "adm_event list" where
  "pressed_run = [EAcquire 0 None ''7'' 0 ''m'' 100, EAcquire 1 None ''8'' 0 ''m'' 100, EGauge 0]"

lemmas adm_eval = newModelAdmission_def empty_admission_def positiveOr_def
  pressed_config_def example_config_def acquireWithBudget_def effective_limit_def add_ticket_def
  new_ticket_def enqueueLocked_def tkt_def admissible_def sharedRoomLocked_def
  bufferRoomLocked_def memory_pressure_def signalLocked_def startable_def take_pick_def
  set_running_def occupy_def reserveBufferLocked_def mod_tkt_def bump_def reject_count_def Let_def
  better_def second_def DefaultMaxResponseBytes_def has_prefix_def dispatchLocked.simps scan.simps

definition pressed :: admission where
  "pressed = run adm_step (newModelAdmission pressed_config 200) pressed_run"

lemma pressed_legal: "legal adm_step adm_ok (newModelAdmission pressed_config 200) pressed_run"
  by (simp add: pressed_run_def)

lemma pressed_scan:
  "a_queue pressed = [0, 1]" "snd (scan pressed 0 (a_queue pressed) None) = Some 0"
  "startable (fst (scan pressed 0 (a_queue pressed) None)) 1"
  by (simp_all add: pressed_def pressed_run_def adm_eval)

theorem dispatch_picks_fairly_witness:
  "startable (fst (scan pressed 0 (a_queue pressed) None)) 0"
proof -
  let ?a = "fst (scan pressed 0 (a_queue pressed) None)"
  have s: "scan pressed 0 (a_queue pressed) None = (?a, Some 0)"
    by (metis pressed_scan(2) prod.collapse)
  have q: "a_queue ?a = [0, 1]" by (simp only: scan_queue pressed_scan(1))
  have "startable ?a (a_queue ?a ! 0)"
    using dispatch_picks_fairly [OF pressed_legal pressed_def s, of 1] q pressed_scan(1,3)
    by simp
  with q show ?thesis by simp
qed

subsection \<open>Released leases\<close>

text \<open>The released marks, which only \<open>release\<close> and a new ticket change.\<close>

definition marks :: "admission \<Rightarrow> bool list" where
  "marks a = map t_released (a_tickets a)"

lemma marks_prims [simp]:
  "(\<And>k. t_released (f k) = t_released k) \<Longrightarrow> marks (mod_tkt t f a) = marks a"
  "marks (reserveBufferLocked t a) = marks a" "marks (releaseBufferLocked t a) = marks a"
  "marks (consult t c a) = marks a" "marks (occupy t a) = marks a"
  "marks (set_running t b a) = marks a" "marks (hold_account t a) = marks a"
  "marks (releaseAccountLocked t a) = marks a" "marks (vacate t a) = marks a"
  "marks (forget_served s a) = marks a" "marks (signalLocked a) = marks a"
  "marks (reject_count s a) = marks a" "marks (a\<lparr>a_queue := q\<rparr>) = marks a"
  "marks (a\<lparr>a_calls := n\<rparr>) = marks a" "marks (a\<lparr>a_byAccount := bs\<rparr>) = marks a"
  by (simp_all add: marks_def mod_tkt_def reserveBufferLocked_def releaseBufferLocked_def
      consult_def occupy_def set_running_def hold_account_def releaseAccountLocked_def vacate_def
      forget_served_def signalLocked_def reject_count_def releaseModelLocked_def
      map_update_same Let_def split: option.splits)

lemma marks_scan [simp]: "marks (fst (scan a i q pick)) = marks a"
  by (induction a i q pick rule: scan.induct) (simp_all add: scan.simps Let_def split: option.splits)

lemma marks_dispatch [simp]: "marks (dispatchLocked a) = marks a"
proof (induction a rule: dispatchLocked.induct)
  case (1 a)
  obtain a' r where scan: "scan a 0 (a_queue a) None = (a', r)" by fastforce
  then have "marks a' = marks a"
    using marks_scan [of a 0 "a_queue a" None] by simp
  with 1 scan show ?case
    by (cases r) (simp_all add: dispatchLocked.simps [of a] dispatch_start_def start_ticket_def)
qed

lemma marks_tkt:
  "marks b = marks a \<Longrightarrow> length (a_tickets b) = length (a_tickets a) \<and>
    (t < length (a_tickets a) \<longrightarrow> t_released (tkt b t) = t_released (tkt a t))"
  unfolding marks_def tkt_def by (metis length_map nth_map)

definition idle :: "admission \<Rightarrow> nat \<Rightarrow> bool" where
  "idle a t = (\<not> t_running (tkt a t) \<and> \<not> t_accountHeld (tkt a t) \<and> \<not> t_bufferHeld (tkt a t) \<and>
     t \<notin> set (a_queue a))"

definition released_idle :: "admission \<Rightarrow> bool" where
  "released_idle a = (\<forall>t < length (a_tickets a). t_released (tkt a t) \<longrightarrow> idle a t)"

text \<open>A section that touches one live ticket, or none, keeps released tickets idle.\<close>

lemma released_idle_frame:
  assumes "released_idle a" "marks b = marks a"
    "\<And>u. u < length (a_tickets a) \<Longrightarrow> t_released (tkt a u) \<Longrightarrow> idle a u \<Longrightarrow> idle b u"
  shows "released_idle b"
  using assms marks_tkt [OF assms(2)] by (simp add: released_idle_def)

lemma released_idle_dispatch:
  assumes "released_idle a" "adm_inv a"
  shows "released_idle (dispatchLocked a)"
  using assms(1) by (rule released_idle_frame) (use dispatch_frames [OF assms(2)] in \<open>auto simp: idle_def\<close>)

lemma released_idle_mod:
  assumes "released_idle a"
    "\<And>k. t_released (f k) = t_released k \<and> t_running (f k) = t_running k \<and>
      t_accountHeld (f k) = t_accountHeld k \<and> t_bufferHeld (f k) = t_bufferHeld k"
  shows "released_idle (mod_tkt t f a)"
  using assms(1) by (rule released_idle_frame) (auto simp: assms(2) idle_def)

lemma queue_unchanged [simp]:
  "a_queue (releaseAccountLocked t a) = a_queue a" "a_queue (reject_count c a) = a_queue a"
  "a_queue (forget_served s a) = a_queue a" "a_queue (signalLocked a) = a_queue a"
  by (simp_all add: releaseAccountLocked_def reject_count_def forget_served_def signalLocked_def)

lemma released_idle_reject: "released_idle a \<Longrightarrow> released_idle (reject_count c a)"
  by (simp add: released_idle_def idle_def tkt_ops)

lemma idle_removed:
  assumes "adm_inv a" "t < length (a_tickets a)"
  shows "idle (removeLocked t a) t" "u \<noteq> t \<Longrightarrow> idle a u \<Longrightarrow> idle (removeLocked t a) u"
    "marks (removeLocked t a) = marks a"
proof -
  have d: "distinct (a_queue a)"
    using assms(1) by (simp add: adm_inv_def queue_ok_def queue_view_def)
  have q: "t_running (tkt a t) \<Longrightarrow> t \<notin> set (a_queue a)"
    using queue_ok_nth [OF adm_inv_queue_ok [OF assms(1)], of t] by auto
  have [simp]: "tkt (b\<lparr>a_queue := qs\<rparr>) v = tkt b v" for b qs v
    by (simp add: tkt_def)
  show "idle (removeLocked t a) t"
    using assms(2) d q by (auto simp: removeLocked_def idle_def tkt_ops vacate_fields Let_def)
  show "idle (removeLocked t a) u" if "u \<noteq> t" "idle a u"
    using that by (auto simp: removeLocked_def idle_def tkt_ops vacate_fields Let_def dest: notin_set_remove1)
  show "marks (removeLocked t a) = marks a"
    by (simp add: removeLocked_def Let_def)
qed

lemma released_idle_remove:
  assumes "released_idle a" "adm_inv a" "t < length (a_tickets a)"
  shows "released_idle (removeLocked t a)"
  using assms(1) idle_removed [OF assms(2,3)] by (metis released_idle_frame)

lemma released_idle_enqueue:
  assumes "released_idle a" "\<not> t_released (tkt a t)"
  shows "released_idle (fst (enqueueLocked t a))"
  using assms
  by (cases t a rule: enqueue_cases)
     (auto simp: released_idle_def idle_def reject_count_def tkt_def)

lemma release_idles:
  assumes "adm_inv a" "t < length (a_tickets a)" "\<not> t_released (tkt a t)"
  shows "idle (release t a) t" "t_released (tkt (release t a) t)"
    "released_idle a \<Longrightarrow> released_idle (release t a)"
proof -
  let ?m = "mod_tkt t (\<lambda>k. k\<lparr>t_released := True\<rparr>) a"
  let ?r = "removeLocked t ?m"
  have i: "adm_inv ?m" using assms(1) by (rule mod_inv) simp_all
  have t: "t < length (a_tickets ?m)" using assms(2) by simp
  note rm = idle_removed [OF i t]
  have ir: "adm_inv ?r" by (rule removeLocked_inv [OF i t])
  have tr: "t_released (tkt ?r t)" using marks_tkt [OF rm(3)] t assms(2) by simp
  show "idle (release t a) t"
    using assms(3) rm(1) dispatch_frames [OF ir] by (auto simp: release_def idle_def)
  show "t_released (tkt (release t a) t)"
    using assms(2,3) tr marks_tkt [of "dispatchLocked ?r" ?r t] marks_tkt [OF rm(3)]
    by (simp add: release_def)
  show "released_idle (release t a)" if "released_idle a"
  proof -
    have "released_idle ?r"
      using that rm marks_tkt [OF rm(3)] unfolding released_idle_def
      by (auto simp: idle_def split: if_splits)
    then show ?thesis using assms(3) ir by (simp add: release_def released_idle_dispatch)
  qed
qed

lemma released_idle_other:
  assumes "released_idle a" "marks b = marks a" "\<not> t_released (tkt a t)"
    "\<And>u. u \<noteq> t \<Longrightarrow> tkt b u = tkt a u" "set (a_queue b) \<subseteq> insert t (set (a_queue a))"
  shows "released_idle b"
  using assms(1,2)
proof (rule released_idle_frame)
  fix u
  assume u: "t_released (tkt a u)" "idle a u"
  then have "u \<noteq> t" using assms(3) by blast
  with u assms(4,5) show "idle b u" by (auto simp: idle_def)
qed

lemma released_idle_acquire:
  assumes "released_idle a" "adm_inv a" "0 \<le> sz"
  shows "released_idle (fst (acquireWithBudget now ctxErr key lim model sz a))"
proof -
  let ?t = "length (a_tickets a)"
  have new: "released_idle (add_ticket k a)" if "\<not> t_released k" for k
    using assms(1) that by (auto simp: released_idle_def idle_def add_ticket_def tkt_def nth_append)
  have u: "released_idle (acquire_unlimited now key model a)"
    using new [of "(new_ticket key 0 now model 0 0)\<lparr>t_running := True\<rparr>"]
    by (simp add: acquire_unlimited_def new_ticket_def Let_def released_idle_def idle_def tkt_def)
  let ?k = "new_ticket key (effective_limit a key lim) now model sz (a_wait a)"
  let ?a1 = "dispatchLocked (add_ticket ?k a)"
  have i0: "adm_inv (add_ticket ?k a)"
    using assms by (intro add_ticket_inv) (simp_all add: new_ticket_def)
  have r1: "released_idle ?a1"
    using new i0 by (intro released_idle_dispatch) (simp_all add: new_ticket_def)
  have t1: "\<not> t_released (tkt ?a1 ?t)"
    using marks_tkt [of ?a1 "add_ticket ?k a" ?t]
    by (simp add: add_ticket_def tkt_def new_ticket_def)
  have "released_idle (occupy ?t (reserveBufferLocked ?t (set_running ?t True ?a1)))"
    by (rule released_idle_other [OF r1 _ t1]) (auto simp: tkt_ops)
  moreover note released_idle_enqueue [OF r1 t1]
  ultimately show ?thesis
    using u assms(1) by (auto simp: acquireWithBudget_def Let_def split: option.split prod.split)
qed

text \<open>What holds of every outcome of a bind in the limited mode.\<close>

lemma bind_limited_rule:
  fixes a :: admission and chs :: chooser and t :: nat
  assumes "\<not> a_unlimited a" "\<not> t_released (tkt a t)" "t_running (tkt a t)"
  defines "a1 \<equiv> dispatchLocked (bind_yield chs t a)"
  defines "a2 \<equiv> (if a_active a1 < a_capacity a1 \<and> admissible a1 (tkt a1 t)
    then consult t chs a1 else a1)"
  assumes "Q a2" "Q (start_ticket t a2)" "Q (fst (enqueueLocked t a2))"
    "Q (fst (enqueueLocked t (start_ticket t a2)))" "\<And>b. Q b \<Longrightarrow> Q (signalLocked b)"
  shows "Q (fst (bindProviderAccount ctxErr chs t a))"
proof -
  have f: "a_unlimited a = False" "(t_released (tkt a t) \<or> \<not> t_running (tkt a t)) = False"
    using assms(1-3) by simp_all
  have u: "bindProviderAccount ctxErr chs t a =
    (case t_selectionErr (tkt a2 t) of
       Some e \<Rightarrow> (a2, BindError (ChooserError e))
     | None \<Rightarrow>
       let a3 = (case t_account (tkt a2 t) of None \<Rightarrow> a2 | Some _ \<Rightarrow> start_ticket t a2)
       in if t_running (tkt a3 t) then (signalLocked a3, BindAwait)
          else case enqueueLocked t a3 of
                 (a4, Some e) \<Rightarrow> (a4, BindError e)
               | (a4, None) \<Rightarrow> (signalLocked a4, BindAwait))"
    unfolding bindProviderAccount_def Let_def a1_def a2_def f if_False ..
  have c: "Q (fst (case enqueueLocked t b of (d, None) \<Rightarrow> (signalLocked d, BindAwait)
        | (d, Some e) \<Rightarrow> (d, BindError e)))"
    if "Q (fst (enqueueLocked t b))" for b
    using that by (cases "enqueueLocked t b") (simp add: assms(10) split: option.split)
  show ?thesis
    using assms(6-10) c [OF assms(8)] c [OF assms(9)] by (simp add: u Let_def split: option.split)
qed

lemma released_idle_bind:
  assumes "released_idle a" "adm_inv a" "t < length (a_tickets a)" "chooser_ok chs"
  shows "released_idle (fst (bindProviderAccount ctxErr chs t a))"
proof (cases "a_unlimited a \<or> t_released (tkt a t) \<or> \<not> t_running (tkt a t)")
  case True
  have live: "released_idle ((mod_tkt t f (releaseAccountLocked t (a\<lparr>a_calls := n\<rparr>)))\<lparr>a_byAccount := bs\<rparr>)"
    if "\<not> t_released (tkt a t)" "\<And>k. t_released (f k) = t_released k" for f n bs
    using assms(1) _ that(1)
  proof (rule released_idle_other)
    let ?b = "(mod_tkt t f (releaseAccountLocked t (a\<lparr>a_calls := n\<rparr>)))\<lparr>a_byAccount := bs\<rparr>"
    show "marks ?b = marks a" by (simp add: that(2))
    show "set (a_queue ?b) \<subseteq> insert t (set (a_queue a))"
      by (auto simp: releaseAccountLocked_def mod_tkt_def)
    show "tkt ?b u = tkt a u" if "u \<noteq> t" for u
      using that by (simp add: releaseAccountLocked_def mod_tkt_def tkt_def)
  qed
  have "released_idle (a\<lparr>a_calls := n\<rparr>)" for n
    using assms(1) by (simp add: released_idle_def idle_def tkt_def)
  moreover have "t_released (tkt (a\<lparr>a_calls := n\<rparr>) t) = t_released (tkt a t)" for n
    by (simp add: tkt_def)
  ultimately have "released_idle (fst (bind_unlimited ctxErr chs t a))"
    using assms(1) live by (auto simp: bind_unlimited_def Let_def split: option.split prod.split)
  with True assms(1) show ?thesis by (auto simp: bindProviderAccount_def)
next
  case False
  let ?y = "bind_yield chs t a" let ?a1 = "dispatchLocked ?y"
  have iy: "adm_inv ?y" using assms False by (intro bind_yield_inv) auto
  have my: "marks ?y = marks a" by (simp add: bind_yield_def)
  have "released_idle ?y"
    using assms(1) my
    by (rule released_idle_other)
       (use False in \<open>auto simp: bind_yield_def tkt_ops vacate_fields\<close>)
  then have r1: "released_idle ?a1" using iy by (rule released_idle_dispatch)
  have t1: "\<not> t_released (tkt ?a1 t)"
    using False marks_tkt [of ?a1 a t] my assms(3) by simp
  define a2 where "a2 = (if a_active ?a1 < a_capacity ?a1 \<and> admissible ?a1 (tkt ?a1 t)
    then consult t chs ?a1 else ?a1)"
  have m2: "marks a2 = marks ?a1" by (simp add: a2_def)
  have r2: "released_idle a2"
    using r1 m2 t1 by (rule released_idle_other) (auto simp: a2_def tkt_consult)
  have t2: "\<not> t_released (tkt a2 t)"
    using t1 m2 marks_tkt [of a2 a t] my assms(3) False by simp
  have s: "released_idle (start_ticket t a2)"
    using r2 _ t2 by (rule released_idle_other) (auto simp: start_ticket_def tkt_ops)
  have sig: "released_idle (signalLocked b) = released_idle b" for b
    by (simp add: released_idle_def idle_def tkt_ops)
  have q: "released_idle (fst (enqueueLocked t a2))" by (rule released_idle_enqueue [OF r2 t2])
  have q3: "released_idle (fst (enqueueLocked t (start_ticket t a2)))"
    by (intro released_idle_enqueue s) (use t2 in \<open>simp add: start_ticket_def tkt_ops\<close>)
  show ?thesis
    by (rule bind_limited_rule [where a = a and t = t and ctxErr = ctxErr and chs = chs, folded a2_def])
       (use False s r2 q q3 sig in simp_all)
qed

lemma released_idle_throttle:
  assumes "released_idle a" "adm_inv a" "t < length (a_tickets a)"
  shows "released_idle (fst (throttle_begin start t a))"
proof (cases "t_released (tkt a t) \<or> \<not> t_running (tkt a t)")
  case True
  with assms(1) show ?thesis by (simp add: throttle_begin_def)
next
  case False
  let ?a0 = "mod_tkt t (\<lambda>k. k\<lparr>t_ready := False, t_since := start\<rparr>) a"
  have r0: "released_idle ?a0" using assms(1) by (rule released_idle_mod) simp
  have t0: "\<not> t_released (tkt ?a0 t)" "t_running (tkt ?a0 t)" using False assms(3) by simp_all
  have i0: "adm_inv ?a0" using assms(2) by (rule mod_inv) simp_all
  show ?thesis
  proof (cases t ?a0 rule: enqueue_cases)
    case (reject code)
    have "released_idle (reject_count code ?a0)"
      using r0 by (rule released_idle_reject)
    then have "released_idle (mod_tkt t (\<lambda>k. k\<lparr>t_ready := True\<rparr>) (reject_count code ?a0))"
      by (rule released_idle_mod) simp
    with reject False show ?thesis by (simp add: throttle_begin_def)
  next
    case queue
    let ?v = "vacate t (?a0\<lparr>a_queue := a_queue ?a0 @ [t]\<rparr>)"
    have "released_idle ?v"
      using r0 _ t0(1)
    proof (rule released_idle_other)
      show "tkt ?v u = tkt ?a0 u" if "u \<noteq> t" for u
        using that by (simp add: vacate_queue tkt_ops)
    qed (auto simp: vacate_queue)
    moreover have "adm_inv ?v"
    proof -
      have nq: "t \<notin> set (a_queue ?a0)"
        using queue_ok_nth [OF adm_inv_queue_ok [OF i0]] t0(2) by blast
      have "adm_inv (vacate t ?a0)" using i0 t0 assms(3) by (intro vacate_inv) simp_all
      then have "adm_inv ((vacate t ?a0)\<lparr>a_queue := a_queue (vacate t ?a0) @ [t]\<rparr>)"
        using assms(3) nq by (intro append_queue_inv) (simp_all add: tkt_ops vacate_fields)
      then show ?thesis by (simp add: vacate_queue vacate_fields)
    qed
    ultimately have "released_idle (dispatchLocked ?v)" by (rule released_idle_dispatch)
    with queue False show ?thesis by (simp add: throttle_begin_def)
  qed
qed

lemma released_idle_step:
  assumes "released_idle a \<and> adm_inv a" "adm_ok a e"
  shows "released_idle (adm_step a e) \<and> adm_inv (adm_step a e)"
proof
  show "adm_inv (adm_step a e)" using assms by (simp add: adm_step_inv)
  note r = assms(1) [THEN conjunct1] and i = assms(1) [THEN conjunct2]
  have rej: "released_idle (reject_count c a)" for c
    using r by (rule released_idle_reject)
  show "released_idle (adm_step a e)"
  proof (cases e)
    case (EAwait ctxErr elapsed t)
    have "released_idle (mod_tkt t (\<lambda>k. k\<lparr>t_remaining := t_remaining k - elapsed\<rparr>) a)"
      using r by (rule released_idle_mod) simp
    moreover have "released_idle (dispatchLocked (removeLocked t (reject_count c a)))" for c
      using EAwait assms(2) i rej
      by (intro released_idle_dispatch released_idle_remove removeLocked_inv reject_inv) simp_all
    moreover have "released_idle (dispatchLocked (removeLocked t a))"
      using EAwait assms(2) i r
      by (intro released_idle_dispatch released_idle_remove removeLocked_inv) simp_all
    ultimately show ?thesis
      using EAwait r by (auto simp: await_turn_def Let_def split: option.split)
  next
    case (ERelease t)
    then show ?thesis
      using release_idles(3) [OF i _ _ r] assms(2) r
      by (cases "t_released (tkt a t)") (simp_all add: release_def)
  next
    case (EResume t)
    have "released_idle (mod_tkt t (\<lambda>k. k\<lparr>t_ready := True\<rparr>) a)"
      using r by (rule released_idle_mod) simp
    then show ?thesis
      using EResume i by (simp add: throttle_resume_def released_idle_dispatch mod_inv)
  next
    case (ECollect now)
    then show ?thesis
      using r by (auto simp: tick_collect_def Let_def released_idle_def idle_def tkt_def)
  next
    case (EGauge n)
    then show ?thesis using r by (simp add: released_idle_def idle_def tkt_def)
  qed (use assms r i rej in \<open>simp_all add: released_idle_acquire released_idle_dispatch
        released_idle_bind released_idle_throttle released_idle_mod\<close>)
qed

interpretation adm_rel: guarded_machine adm_step adm_ok "\<lambda>a. released_idle a \<and> adm_inv a"
  by unfold_locales (rule released_idle_step)

lemma adm_run_released:
  assumes "legal adm_step adm_ok (newModelAdmission c gauge) es"
  shows "released_idle (run adm_step (newModelAdmission c gauge) es)"
  using adm_rel.run_inv [OF _ assms] new_admission_inv
  by (simp add: released_idle_def new_admission_fields)

text \<open>A released mark is never taken back.\<close>

lemma marks_step:
  "\<not> (\<exists>t. e = ERelease t) \<Longrightarrow>
   take (length (a_tickets a)) (marks (adm_step a e)) = marks a"
proof -
  have m: "length (marks a) = length (a_tickets a)" for a by (simp add: marks_def)
  have [simp]: "take (length (a_tickets a)) (marks a) = marks a"
    "marks (a\<lparr>a_memoryUsage := u\<rparr>) = marks a" "marks (a\<lparr>a_lastPressureGC := n\<rparr>) = marks a"
    "marks (removeLocked t b) = marks b" for u n t b
    by (simp_all add: marks_def removeLocked_def Let_def) (simp_all add: marks_def [symmetric])
  have new: "marks (add_ticket k a) = marks a @ [t_released k]" for k
    by (simp add: marks_def add_ticket_def)
  have enq: "marks (fst (enqueueLocked t b)) = marks b" for t b
    by (cases t b rule: enqueue_cases) simp_all
  have enq': "enqueueLocked t b = (d, r) \<Longrightarrow> marks d = marks b" for t b d r
    by (metis enq fst_conv)
  have acq: "marks (acquire_unlimited now key model a) = marks a @ [False]" for now key model
    by (simp add: acquire_unlimited_def new_ticket_def marks_def add_ticket_def Let_def)
  have bu: "marks (fst (bind_unlimited ctxErr chs t a)) = marks a" for ctxErr chs t
    by (simp add: bind_unlimited_def Let_def split: option.split prod.split)
  have bl: "marks (fst (bindProviderAccount ctxErr chs t a)) = marks a" for ctxErr chs t
  proof -
    have "marks (fst (case enqueueLocked u b of (d, None) \<Rightarrow> (signalLocked d, BindAwait)
            | (d, Some e) \<Rightarrow> (d, BindError e))) = marks b" for u b
      by (auto dest: enq' split: prod.split option.split)
    then show ?thesis
      using bu by (simp add: bindProviderAccount_def Let_def bind_yield_def start_ticket_def
          split: option.split)
  qed
  assume "\<not> (\<exists>t. e = ERelease t)"
  then show ?thesis
  proof (cases e)
    case (EAcquire now ctxErr key lim model sz)
    then show ?thesis
      using m acq
      by (auto simp: acquireWithBudget_def Let_def new dest!: enq' split: option.split prod.split)
  next
    case (EThrottle start t)
    then show ?thesis
      using m by (auto simp: throttle_begin_def dest!: enq' split: option.split prod.split)
  qed (use m bl in \<open>simp_all add: await_turn_def tick_collect_def throttle_resume_def Let_def
        split: option.split\<close>)
qed

lemma released_stays:
  assumes "t < length (a_tickets a)" "t_released (tkt a t)"
  shows "t < length (a_tickets (adm_step a e)) \<and> t_released (tkt (adm_step a e) t)"
proof (cases "\<exists>u. e = ERelease u")
  case False
  have "length (marks a) \<le> length (marks (adm_step a e))"
    using marks_step [OF False, of a] by (metis length_take linorder_le_cases min.absorb2 take_all_iff)
  moreover have "marks (adm_step a e) ! t = marks a ! t"
    using marks_step [OF False, of a] assms(1) by (metis nth_take)
  ultimately show ?thesis
    using assms by (simp add: marks_def tkt_def)
next
  case True
  then obtain u where e: "e = ERelease u" by blast
  let ?r = "removeLocked u (mod_tkt u (\<lambda>k. k\<lparr>t_released := True\<rparr>) a)"
  have "marks (dispatchLocked ?r) = marks (mod_tkt u (\<lambda>k. k\<lparr>t_released := True\<rparr>) a)"
    by (simp add: removeLocked_def Let_def)
  from marks_tkt [OF this, of t] assms show ?thesis
    by (auto simp: e release_def)
qed

lemma released_stays_run:
  "t < length (a_tickets a) \<Longrightarrow> t_released (tkt a t) \<Longrightarrow>
   t < length (a_tickets (run adm_step a es)) \<and> t_released (tkt (run adm_step a es) t)"
  by (induction es arbitrary: a) (simp_all add: released_stays)



subsection \<open>Throttling, keys and the gauge\<close>

text \<open>What the end of a pacing wait does, as events of the machine.\<close>

definition throttle_events ::
    "string option \<Rightarrow> string option \<Rightarrow> int \<Rightarrow> nat \<Rightarrow> admission \<Rightarrow> adm_event list" where
  "throttle_events ctxErr waitErr elapsed t a =
    EElapse elapsed t #
    (case waitErr of
       Some e \<Rightarrow> ERelease t #
         (if ctxErr = None \<and> e = DeadlineExceeded then [EReject ''model_queue_timeout''] else [])
     | None \<Rightarrow> if t_remaining (tkt a t) - elapsed \<le> 0
                then [ERelease t, EReject ''model_queue_timeout''] else [EResume t])"



text \<open>Keys do not collide: two requests share an admission key exactly when they are of the
  same portal user, of the model test, or of the same application, and a ticket counts as shared
  exactly for portal users.\<close>

theorem admit_key_identity:
  "(admit_key p = admit_key q \<longleftrightarrow>
      (if UserID p > 0 \<or> UserID q > 0 then UserID p = UserID q
       else if AppName p = ''model-test'' \<and> AppID p = 0 \<or> AppName q = ''model-test'' \<and> AppID q = 0
            then AppName p = ''model-test'' \<and> AppName q = ''model-test'' \<and> AppID p = 0 \<and> AppID q = 0
       else AppID p = AppID q)) \<and>
   t_shared (new_ticket (admit_key p) l now m b r) = (UserID p > 0)"
proof
  have ne: "''portal-user-'' @ itoa m \<noteq> itoa n" "itoa n \<noteq> ''portal-user-'' @ itoa m"
    "''admin-test'' \<noteq> itoa n" "itoa n \<noteq> ''admin-test''" for m n
    using itoa_hd_neq(1) [of n "''ortal-user-'' @ itoa m"] itoa_hd_neq(2) [of n "''dmin-test''"]
    by auto
  show "admit_key p = admit_key q \<longleftrightarrow>
      (if UserID p > 0 \<or> UserID q > 0 then UserID p = UserID q
       else if AppName p = ''model-test'' \<and> AppID p = 0 \<or> AppName q = ''model-test'' \<and> AppID q = 0
            then AppName p = ''model-test'' \<and> AppName q = ''model-test'' \<and> AppID p = 0 \<and> AppID q = 0
       else AppID p = AppID q)"
    using ne ne(1,2) [of "UserID p" 0] by (auto simp: admit_key_def itoa_inj)
  have "\<not> has_prefix (itoa n) ''portal-user-''" "\<not> has_prefix ''admin-test'' ''portal-user-''" for n
    using itoa_hd_neq(1) [of n] by (auto simp: has_prefix_iff)
  then show "t_shared (new_ticket (admit_key p) l now m b r) = (UserID p > 0)"
    using has_prefix_append [of "''portal-user-''" "itoa (UserID p)"]
    by (auto simp: new_ticket_def admit_key_def simp del: has_prefix_append)
qed

text \<open>The memory gauge is the total less the reclaimable classes, stopping at zero: the
  saturating subtraction of the loop never wraps below zero, in any order of the samples.\<close>

theorem goMemoryUsage_saturates:
  "goMemoryUsage tot classes =
    tot - sum_list (map (\<lambda>s. case s of None \<Rightarrow> 0 | Some v \<Rightarrow> v) classes)"
  unfolding goMemoryUsage_def
proof (induction classes arbitrary: tot)
  case (Cons s classes)
  then show ?case by (cases s) (simp_all add: min_def)
qed simp

end
