(* ===== verification/AdmissionQueue.thy ===== *)
theory AdmissionQueue
  imports AdmissionProps
begin

text \<open>
  The bounds of the admission queue: its length, its share of portal users and its share of each
  key stay within the configured limits through every section, because the only section that
  adds to the queue tests all three first and every other one takes tickets out.
\<close>

definition waiting :: "(ticket \<Rightarrow> bool) \<Rightarrow> admission \<Rightarrow> nat" where
  "waiting P a = length (filter (\<lambda>t. P (tkt a t)) (a_queue a))"

definition key_queue_limit :: "admission \<Rightarrow> string \<Rightarrow> int" where
  "key_queue_limit a key =
    (if has_prefix key ''portal-user-'' \<and> a_userQueue a < a_keyQueue a then a_userQueue a
     else a_keyQueue a)"

definition keys_shared :: "admission \<Rightarrow> bool" where
  "keys_shared a = (\<forall>t < length (a_tickets a).
     t_shared (tkt a t) = has_prefix (t_key (tkt a t)) ''portal-user-'')"

definition queue_bounded :: "admission \<Rightarrow> bool" where
  "queue_bounded a =
    (keys_shared a \<and> int (length (a_queue a)) \<le> a_queueSize a \<and>
     int (waiting t_shared a) \<le> a_sharedQueue a \<and>
     (\<forall>key. int (waiting (\<lambda>k. t_key k = key) a) \<le> key_queue_limit a key))"

lemma fixed_tkt:
  assumes "fixed_view b = fixed_view a" "t < length (a_tickets a)"
  shows "t_key (tkt b t) = t_key (tkt a t)" "t_shared (tkt b t) = t_shared (tkt a t)"
proof -
  have m: "map (\<lambda>k. (t_key k, t_limit k, t_bufferBytes k, t_shared k)) (a_tickets b) =
           map (\<lambda>k. (t_key k, t_limit k, t_bufferBytes k, t_shared k)) (a_tickets a)"
    using assms(1) by (simp add: fixed_view_def)
  then have "length (a_tickets b) = length (a_tickets a)" by (rule map_eq_imp_length_eq)
  with m assms(2) have "(t_key (tkt b t), t_limit (tkt b t), t_bufferBytes (tkt b t), t_shared (tkt b t)) =
      (t_key (tkt a t), t_limit (tkt a t), t_bufferBytes (tkt a t), t_shared (tkt a t))"
    unfolding tkt_def by (metis (no_types, lifting) nth_map)
  then show "t_key (tkt b t) = t_key (tkt a t)" "t_shared (tkt b t) = t_shared (tkt a t)"
    by simp_all
qed

lemma fixed_length: "fixed_view b = fixed_view a \<Longrightarrow> length (a_tickets b) = length (a_tickets a)"
  by (auto simp: fixed_view_def dest: map_eq_imp_length_eq)

text \<open>A section that only takes tickets out of the queue keeps it bounded.\<close>

lemma waiting_le:
  assumes "distinct (a_queue b)" "set (a_queue b) \<subseteq> set (a_queue a)"
    "\<And>t. t \<in> set (a_queue b) \<Longrightarrow> P (tkt b t) = P (tkt a t)"
  shows "waiting P b \<le> waiting P a"
proof -
  have "waiting P b = length (filter (\<lambda>t. P (tkt a t)) (a_queue b))"
    unfolding waiting_def using assms(3) by (metis (mono_tags, lifting) filter_cong)
  also have "\<dots> = card (set (filter (\<lambda>t. P (tkt a t)) (a_queue b)))"
    using assms(1) by (metis distinct_card distinct_filter)
  also have "\<dots> \<le> card (set (filter (\<lambda>t. P (tkt a t)) (a_queue a)))"
    using assms(2) by (intro card_mono) auto
  also have "\<dots> \<le> waiting P a"
    unfolding waiting_def by (rule card_length)
  finally show ?thesis .
qed

lemma queue_bounded_shrink:
  assumes "queue_bounded a" "fixed_view b = fixed_view a" "limits_of b = limits_of a"
    "queue_ok a" "queue_ok b" "set (a_queue b) \<subseteq> set (a_queue a)"
  shows "queue_bounded b"
proof -
  have d: "distinct (a_queue b)" using assms(5) by (simp add: queue_ok_def queue_view_def)
  have t: "t < length (a_tickets a)" if "t \<in> set (a_queue b)" for t
    using that assms(4,6) queue_ok_nth by blast
  have w: "waiting t_shared b \<le> waiting t_shared a"
    "waiting (\<lambda>k. t_key k = key) b \<le> waiting (\<lambda>k. t_key k = key) a"
    "waiting (\<lambda>_. True) b \<le> waiting (\<lambda>_. True) a" for key
    using d assms(6) t fixed_tkt [OF assms(2)] by (intro waiting_le; simp)+
  moreover have "keys_shared b"
    using assms(1) fixed_tkt [OF assms(2)] fixed_length [OF assms(2)]
    by (simp add: queue_bounded_def keys_shared_def)
  moreover have "key_queue_limit b = key_queue_limit a"
    by (simp add: key_queue_limit_def limits_fields [OF assms(3)] fun_eq_iff)
  ultimately show ?thesis
    using assms(1) w(1) w(3) order_trans [OF of_nat_mono [OF w(2)]]
    by (fastforce simp: queue_bounded_def waiting_def [of "\<lambda>_. True"] limits_fields [OF assms(3)])
qed

lemma queue_bounded_same:
  assumes "queue_bounded a" "fixed_view b = fixed_view a" "limits_of b = limits_of a"
    "a_queue b = a_queue a" "\<forall>t \<in> set (a_queue a). t < length (a_tickets a)"
  shows "queue_bounded b"
proof -
  have "waiting t_shared b = waiting t_shared a"
    "waiting (\<lambda>k. t_key k = key) b = waiting (\<lambda>k. t_key k = key) a" for key
    unfolding waiting_def assms(4) using fixed_tkt [OF assms(2)] assms(5)
    by (auto intro!: arg_cong [where f = length] filter_cong)
  moreover have "keys_shared b"
    using assms(1) fixed_tkt [OF assms(2)] fixed_length [OF assms(2)]
    by (simp add: queue_bounded_def keys_shared_def)
  moreover have "key_queue_limit b = key_queue_limit a"
    by (simp add: key_queue_limit_def limits_fields [OF assms(3)] fun_eq_iff)
  ultimately show ?thesis
    using assms(1) by (simp add: queue_bounded_def limits_fields [OF assms(3)] assms(4))
qed

text \<open>Enqueueing tests every bound.\<close>

lemma enqueue_accepts:
  assumes "enqueueLocked t a = (b, None)" "t_shared (tkt a t) = has_prefix (t_key (tkt a t)) ''portal-user-''"
  shows "b = a\<lparr>a_queue := a_queue a @ [t]\<rparr>" "int (length (a_queue a)) < a_queueSize a"
    "t_shared (tkt a t) \<Longrightarrow> int (waiting t_shared a) < a_sharedQueue a"
    "int (waiting (\<lambda>k. t_key k = t_key (tkt a t)) a) < key_queue_limit a (t_key (tkt a t))"
  using assms by (auto simp: enqueueLocked_def Let_def waiting_def key_queue_limit_def split: if_splits)

lemma tkt_queue [simp]: "tkt (a\<lparr>a_queue := q\<rparr>) t = tkt a t"
  by (simp add: tkt_def)

lemma queue_bounded_enqueue:
  assumes "queue_bounded a" "t < length (a_tickets a)" "\<forall>t \<in> set (a_queue a). t < length (a_tickets a)"
  shows "queue_bounded (fst (enqueueLocked t a))"
proof (cases t a rule: enqueue_cases)
  case (reject code)
  then show ?thesis
    using assms by (simp, intro queue_bounded_same [OF assms(1)]) simp_all
next
  case queue
  have sh: "t_shared (tkt a t) = has_prefix (t_key (tkt a t)) ''portal-user-''"
    using assms(1,2) by (simp add: queue_bounded_def keys_shared_def)
  note acc = enqueue_accepts [OF queue(1) sh]
  have "key_queue_limit (a\<lparr>a_queue := q\<rparr>) = key_queue_limit a" for q
    by (simp add: key_queue_limit_def fun_eq_iff)
  moreover have "keys_shared (a\<lparr>a_queue := q\<rparr>)" for q
    using assms(1) by (simp add: queue_bounded_def keys_shared_def)
  ultimately show ?thesis
    using assms(1) acc(2-4) queue(1)
    by (auto simp: queue_bounded_def waiting_def)
qed
subsection \<open>Every section\<close>

lemma queue_in_range: "adm_inv a \<Longrightarrow> \<forall>t \<in> set (a_queue a). t < length (a_tickets a)"
  using queue_ok_nth [of a] by auto

lemma queue_bounded_dispatch:
  assumes "queue_bounded a" "adm_inv a"
  shows "queue_bounded (dispatchLocked a)"
  using assms dispatch_frames [OF assms(2)] dispatch_inv [OF assms(2)]
  by (intro queue_bounded_shrink [OF assms(1)]) simp_all

lemma queue_bounded_remove:
  assumes "queue_bounded a" "adm_inv a" "t < length (a_tickets a)"
  shows "queue_bounded (removeLocked t a)"
proof (rule queue_bounded_shrink [OF assms(1)])
  show "queue_ok (removeLocked t a)" using removeLocked_inv [OF assms(2,3)] by simp
  show "fixed_view (removeLocked t a) = fixed_view a"
    by (simp add: removeLocked_def Let_def)
  show "set (a_queue (removeLocked t a)) \<subseteq> set (a_queue a)"
    using set_remove1_subset [of t "a_queue a"] by (auto simp: removeLocked_def vacate_fields Let_def)
qed (use assms(2) in simp_all)

lemma queue_bounded_acquire:
  assumes "queue_bounded a" "adm_inv a" "0 \<le> sz"
  shows "queue_bounded (fst (acquireWithBudget now ctxErr key lim model sz a))"
proof -
  let ?t = "length (a_tickets a)"
  have new: "queue_bounded (add_ticket k a)"
    if "t_shared k = has_prefix (t_key k) ''portal-user-''" for k
  proof -
    have "tkt (add_ticket k a) t = tkt a t" if "t \<in> set (a_queue a)" for t
      using that queue_in_range [OF assms(2)] by (simp add: add_ticket_def tkt_def nth_append)
    then have "waiting P (add_ticket k a) = waiting P a" for P
      by (auto simp: waiting_def add_ticket_def intro!: arg_cong [where f = length] filter_cong)
    moreover have "keys_shared (add_ticket k a)"
      using that assms(1)
      by (auto simp: queue_bounded_def keys_shared_def add_ticket_def tkt_def nth_append)
    moreover have "key_queue_limit (add_ticket k a) = key_queue_limit a"
      by (simp add: key_queue_limit_def add_ticket_def fun_eq_iff)
    ultimately show ?thesis
      using assms(1) by (simp add: queue_bounded_def) (simp add: add_ticket_def)
  qed
  have u: "queue_bounded (acquire_unlimited now key model a)"
  proof -
    let ?k = "(new_ticket key 0 now model 0 0)\<lparr>t_running := True\<rparr>"
    have b: "queue_bounded (add_ticket ?k a)" by (rule new) (simp add: new_ticket_def)
    show ?thesis
      unfolding acquire_unlimited_def Let_def
      by (rule queue_bounded_same [OF b])
         (use queue_in_range [OF assms(2)] in \<open>auto simp: fixed_view_def limits_of_def add_ticket_def\<close>)
  qed
  let ?k = "new_ticket key (effective_limit a key lim) now model sz (a_wait a)"
  let ?a1 = "dispatchLocked (add_ticket ?k a)"
  have i0: "adm_inv (add_ticket ?k a)"
    using assms by (intro add_ticket_inv) (simp_all add: new_ticket_def)
  have b1: "queue_bounded ?a1"
    using i0 by (intro queue_bounded_dispatch new) (simp_all add: new_ticket_def)
  have r1: "\<forall>t \<in> set (a_queue ?a1). t < length (a_tickets ?a1)"
    by (rule queue_in_range [OF dispatch_inv [OF i0]])
  have "queue_bounded (occupy ?t (reserveBufferLocked ?t (set_running ?t True ?a1)))"
    by (rule queue_bounded_same [OF b1]) (use r1 in simp_all)
  moreover have "queue_bounded (fst (enqueueLocked ?t ?a1))"
    using b1 _ r1 by (rule queue_bounded_enqueue) (use dispatch_frames(1) [OF i0] in \<open>simp add: add_ticket_def\<close>)
  ultimately show ?thesis
    using u assms(1) by (auto simp: acquireWithBudget_def Let_def split: option.split prod.split)
qed

lemma queue_bounded_bind:
  assumes "queue_bounded a" "adm_inv a" "t < length (a_tickets a)" "chooser_ok chs"
  shows "queue_bounded (fst (bindProviderAccount ctxErr chs t a))"
proof (cases "a_unlimited a \<or> t_released (tkt a t) \<or> \<not> t_running (tkt a t)")
  case True
  let ?b = "fst (bind_unlimited ctxErr chs t a)"
  have "fixed_view ?b = fixed_view a"
    by (simp add: bind_unlimited_def Let_def view_mod_tkt split: option.split prod.split)
       (simp add: fixed_view_def releaseAccountLocked_def mod_tkt_def map_update_same)
  moreover have "a_queue ?b = a_queue a"
    by (simp add: bind_unlimited_def Let_def split: option.split prod.split)
  moreover have "limits_of ?b = limits_of a"
    by (simp add: bind_unlimited_def Let_def split: option.split prod.split)
  ultimately have "queue_bounded ?b"
    using queue_in_range [OF assms(2)] by (intro queue_bounded_same [OF assms(1)])
  with True assms(1) show ?thesis by (auto simp: bindProviderAccount_def)
next
  case False
  let ?y = "bind_yield chs t a" let ?a1 = "dispatchLocked ?y"
  have iy: "adm_inv ?y" using assms False by (intro bind_yield_inv) auto
  have "fixed_view ?y = fixed_view a" "limits_of ?y = limits_of a" "a_queue ?y = a_queue a"
    by (simp_all add: bind_yield_def view_mod_tkt vacate_fields)
  then have "queue_bounded ?y"
    using queue_in_range [OF assms(2)] by (intro queue_bounded_same [OF assms(1)])
  then have b1: "queue_bounded ?a1" using iy by (rule queue_bounded_dispatch)
  have r1: "\<forall>t \<in> set (a_queue ?a1). t < length (a_tickets ?a1)"
    by (rule queue_in_range [OF dispatch_inv [OF iy]])
  have len: "length (a_tickets ?a1) = length (a_tickets a)"
    using dispatch_frames(1) [OF iy] fixed_length [OF \<open>fixed_view ?y = fixed_view a\<close>] by simp
  define a2 where "a2 = (if a_active ?a1 < a_capacity ?a1 \<and> admissible ?a1 (tkt ?a1 t)
    then consult t chs ?a1 else ?a1)"
  have b2: "queue_bounded a2"
    by (rule queue_bounded_same [OF b1]) (use r1 in \<open>simp_all add: a2_def\<close>)
  have r2: "\<forall>t \<in> set (a_queue a2). t < length (a_tickets a2)" "t < length (a_tickets a2)"
    using r1 len assms(3) by (simp_all add: a2_def)
  have s: "queue_bounded (start_ticket t a2)"
    by (rule queue_bounded_same [OF b2]) (use r2 in \<open>simp_all add: start_ticket_def\<close>)
  have q: "queue_bounded (fst (enqueueLocked t a2))"
    by (rule queue_bounded_enqueue [OF b2 r2(2,1)])
  have q3: "queue_bounded (fst (enqueueLocked t (start_ticket t a2)))"
    by (rule queue_bounded_enqueue [OF s]) (use r2 in \<open>simp_all add: start_ticket_def\<close>)
  have sig: "queue_bounded (signalLocked b) = queue_bounded b" for b
    by (simp add: queue_bounded_def keys_shared_def waiting_def key_queue_limit_def signalLocked_def tkt_def)
  show ?thesis
    by (rule bind_limited_rule [where a = a and t = t and ctxErr = ctxErr and chs = chs, folded a2_def])
       (use False s b2 q q3 sig in simp_all)
qed

lemma queue_bounded_throttle:
  assumes "queue_bounded a" "adm_inv a" "t < length (a_tickets a)"
  shows "queue_bounded (fst (throttle_begin start t a))"
proof (cases "t_released (tkt a t) \<or> \<not> t_running (tkt a t)")
  case True
  with assms(1) show ?thesis by (simp add: throttle_begin_def)
next
  case False
  let ?a0 = "mod_tkt t (\<lambda>k. k\<lparr>t_ready := False, t_since := start\<rparr>) a"
  have r0: "\<forall>u \<in> set (a_queue ?a0). u < length (a_tickets ?a0)"
    using queue_in_range [OF assms(2)] by simp
  have b0: "queue_bounded ?a0"
    by (rule queue_bounded_same [OF assms(1)])
       (use queue_in_range [OF assms(2)] in \<open>simp_all add: view_mod_tkt\<close>)
  have bq: "queue_bounded (fst (enqueueLocked t ?a0))"
    using b0 _ r0 by (rule queue_bounded_enqueue) (simp add: assms(3))
  show ?thesis
  proof (cases t ?a0 rule: enqueue_cases)
    case (reject code)
    have "queue_bounded (mod_tkt t (\<lambda>k. k\<lparr>t_ready := True\<rparr>) (reject_count code ?a0))"
      by (rule queue_bounded_same [OF b0]) (use r0 in \<open>simp_all add: view_mod_tkt\<close>)
    with reject False show ?thesis by (simp add: throttle_begin_def)
  next
    case queue
    let ?q = "?a0\<lparr>a_queue := a_queue ?a0 @ [t]\<rparr>"
    have "queue_bounded ?q" using bq queue by simp
    then have "queue_bounded (vacate t ?q)"
      by (rule queue_bounded_same) (use r0 assms(3) in \<open>simp_all add: vacate_fields\<close>)
    moreover have "adm_inv (vacate t ?q)"
    proof -
      have i0: "adm_inv ?a0" using assms(2) by (rule mod_inv) simp_all
      have run: "t_running (tkt ?a0 t)" using False assms(3) by simp
      have nq: "t \<notin> set (a_queue ?a0)"
        using queue_ok_nth [OF adm_inv_queue_ok [OF i0]] run by blast
      have "adm_inv (vacate t ?a0)" using i0 run assms(3) by (intro vacate_inv) simp_all
      then have "adm_inv ((vacate t ?a0)\<lparr>a_queue := a_queue (vacate t ?a0) @ [t]\<rparr>)"
        using assms(3) nq by (intro append_queue_inv) (simp_all add: tkt_ops vacate_fields)
      then show ?thesis by (simp add: vacate_queue vacate_fields)
    qed
    ultimately have "queue_bounded (dispatchLocked (vacate t ?q))" by (rule queue_bounded_dispatch)
    with queue False show ?thesis by (simp add: throttle_begin_def)
  qed
qed

lemma queue_bounded_step:
  assumes "queue_bounded a \<and> adm_inv a" "adm_ok a e"
  shows "queue_bounded (adm_step a e) \<and> adm_inv (adm_step a e)"
proof
  show "adm_inv (adm_step a e)" using assms by (simp add: adm_step_inv)
  note b = assms(1) [THEN conjunct1] and i = assms(1) [THEN conjunct2]
  note same = queue_bounded_same [OF b _ _ _ queue_in_range [OF i]]
  have rej: "queue_bounded (reject_count c a)" for c by (rule same) simp_all
  have md: "queue_bounded (mod_tkt t f a)"
    if "\<And>k. t_key (f k) = t_key k \<and> t_limit (f k) = t_limit k \<and> t_shared (f k) = t_shared k \<and>
        t_bufferBytes (f k) = t_bufferBytes k" for t f
    by (rule same) (simp_all add: view_mod_tkt that)
  show "queue_bounded (adm_step a e)"
  proof (cases e)
    case (EAwait ctxErr elapsed t)
    have "queue_bounded (dispatchLocked (removeLocked t (reject_count c a)))" for c
      using EAwait assms(2) i rej
      by (intro queue_bounded_dispatch queue_bounded_remove removeLocked_inv reject_inv) simp_all
    moreover have "queue_bounded (dispatchLocked (removeLocked t a))"
      using EAwait assms(2) i b
      by (intro queue_bounded_dispatch queue_bounded_remove removeLocked_inv) simp_all
    ultimately show ?thesis
      using EAwait b md by (simp add: await_turn_def Let_def split: option.split)
  next
    case (ERelease t)
    let ?m = "mod_tkt t (\<lambda>k. k\<lparr>t_released := True\<rparr>) a"
    have m: "adm_inv ?m" using i by (rule mod_inv) simp_all
    have "queue_bounded (dispatchLocked (removeLocked t ?m))"
      using ERelease assms(2) m md
      by (intro queue_bounded_dispatch queue_bounded_remove removeLocked_inv) simp_all
    with ERelease b show ?thesis by (simp add: release_def)
  next
    case (EResume t)
    have "queue_bounded (dispatchLocked (mod_tkt t (\<lambda>k. k\<lparr>t_ready := True\<rparr>) a))"
      using md i by (intro queue_bounded_dispatch mod_inv) simp_all
    then show ?thesis using EResume by (simp add: throttle_resume_def)
  next
    case (ECollect now)
    have "queue_bounded (fst (tick_collect now a))"
      by (rule same) (simp_all add: tick_collect_def Let_def fixed_view_def limits_of_def)
    with ECollect show ?thesis by simp
  next
    case (EGauge n)
    have "queue_bounded (a\<lparr>a_memoryUsage := u\<rparr>)" for u
      by (rule same) (simp_all add: fixed_view_def limits_of_def)
    with EGauge show ?thesis by simp
  qed (use assms b i rej md in \<open>simp_all add: queue_bounded_acquire queue_bounded_dispatch
        queue_bounded_bind queue_bounded_throttle\<close>)
qed

interpretation adm_queue: guarded_machine adm_step adm_ok "\<lambda>a. queue_bounded a \<and> adm_inv a"
  by unfold_locales (rule queue_bounded_step)

text \<open>The queue is bounded in every reachable state: in all, for portal users together, and
  for each key, where a portal user's key has the smaller of the two per-key limits.\<close>

theorem admission_queue_bounded:
  assumes "legal adm_step adm_ok (newModelAdmission c gauge) es" "\<not> ModelLimitsDisabled c"
  defines "a \<equiv> run adm_step (newModelAdmission c gauge) es"
  shows "int (length (a_queue a)) \<le> positiveOr (ModelQueueSize c) 32 \<and>
    int (waiting t_shared a) \<le> positiveOr (PortalSharedQueueSize c) 28 \<and>
    int (waiting (\<lambda>k. t_key k = key) a) \<le> positiveOr (ModelKeyQueueSize c) 16 \<and>
    int (waiting (\<lambda>k. t_key k = ''portal-user-'' @ itoa n) a) \<le> positiveOr (PortalUserQueueSize c) 6"
proof -
  let ?a0 = "newModelAdmission c gauge"
  have n: "a_queueSize ?a0 = positiveOr (ModelQueueSize c) 32"
    "0 \<le> a_sharedQueue ?a0" "a_sharedQueue ?a0 \<le> positiveOr (PortalSharedQueueSize c) 28"
    "a_keyQueue ?a0 = positiveOr (ModelKeyQueueSize c) 16"
    "a_userQueue ?a0 = positiveOr (PortalUserQueueSize c) 6"
    using assms(2) by (auto simp: newModelAdmission_def empty_admission_def positiveOr_def Let_def)
  have "queue_bounded ?a0"
    using n by (simp add: queue_bounded_def keys_shared_def waiting_def key_queue_limit_def
        new_admission_fields positiveOr_def)
  then have "queue_bounded a"
    unfolding a_def using adm_queue.run_inv [OF _ assms(1)] new_admission_inv by simp
  have "limits_of a = limits_of ?a0" by (simp add: a_def)
  note l = limits_fields [OF this]
  have "key_queue_limit a = key_queue_limit ?a0" by (simp add: key_queue_limit_def l fun_eq_iff)
  with \<open>queue_bounded a\<close> have "int (length (a_queue a)) \<le> a_queueSize ?a0" "int (waiting t_shared a) \<le> a_sharedQueue ?a0"
    "int (waiting (\<lambda>k. t_key k = key) a) \<le> key_queue_limit ?a0 key" for key
    by (simp_all add: queue_bounded_def l)
  note b = this
  have "int (waiting (\<lambda>k. t_key k = key) a) \<le> a_keyQueue ?a0"
    "int (waiting (\<lambda>k. t_key k = ''portal-user-'' @ itoa n) a) \<le> a_userQueue ?a0"
    using b(3) [of key] b(3) [of "''portal-user-'' @ itoa n"] has_prefix_append [of "''portal-user-''"]
    by (auto simp: key_queue_limit_def simp del: has_prefix_append split: if_splits)
  with b(1,2) n show ?thesis by simp
qed

theorem admission_queue_bounded_witness:
  "int (length (a_queue (run adm_step (newModelAdmission example_config 0) example_run))) \<le> 4"
proof -
  have "\<not> ModelLimitsDisabled example_config" by (simp add: example_config_def)
  from admission_queue_bounded [OF example_run_legal this]
  show ?thesis by (simp add: example_config_def positiveOr_def)
qed

end
