(* ===== verification/Capacity.thy ===== *)
theory Capacity
  imports Prelude
begin

text \<open>
  The request guard's capacity controls, internal/app/request_capacity.go and the classification
  in requestGuard (internal/app/server.go): the request-body byte budget and the charged body
  reader, the shared buffered body with its one-shot reservation, route classes and the slot pool
  each route uses, the single-flight refresh with its recorder, and the scan that bounds JSON
  complexity before decoding.

  Byte counts are int: the Go int64 values are sizes of buffers in memory. A reader is the list
  of the results of its \<open>Read\<close> calls; the loop's outcome \<open>BodyBlocked\<close> is a reader that has
  returned all of them and has not ended.
\<close>

subsection \<open>The body budget\<close>

record bodyBudget =
  bb_limit :: int
  bb_used :: int

definition reserve :: "int \<Rightarrow> bodyBudget \<Rightarrow> bool \<times> bodyBudget" where
  "reserve n b =
    (if bb_limit b > 0 \<and> n > bb_limit b - bb_used b then (False, b)
     else (True, b\<lparr>bb_used := bb_used b + n\<rparr>))"

definition budget_release :: "int \<Rightarrow> bodyBudget \<Rightarrow> bodyBudget" where
  "budget_release n b = b\<lparr>bb_used := bb_used b - n\<rparr>"

definition usage :: "bodyBudget \<Rightarrow> int" where
  "usage b = bb_used b"

subsection \<open>Reading a body\<close>

text \<open>
  One result of \<open>r.Read(chunk)\<close>: the bytes (at most 32 KiB, the chunk's length) and the error,
  or a panic of the reader.
\<close>

datatype read_err = REOF | RErr string
datatype read_result = ReadChunk string "read_err option" | ReadPanic

datatype body_result = BodyRead string | BodyOverload | BodyErr string | BodyPanic | BodyBlocked

record body_buffer =
  buf_body :: string
  buf_cap :: int
  buf_reserved :: int

definition grown_size :: "int \<Rightarrow> body_buffer \<Rightarrow> int \<Rightarrow> int" where
  "grown_size length_hint s n =
    (let size = max (buf_cap s * 2) (int (length (buf_body s)) + n)
     in if length_hint > 0 \<and> size < length_hint then length_hint else size)"

text \<open>The growth branch: None when the reservation fails.\<close>

definition grow :: "int \<Rightarrow> int \<Rightarrow> body_buffer \<Rightarrow> bodyBudget \<Rightarrow> (body_buffer \<times> bodyBudget) option" where
  "grow length_hint n s b =
    (let size = grown_size length_hint s n;
         (ok, b1) = reserve size b
     in if ok
        then Some (s\<lparr>buf_cap := size, buf_reserved := size\<rparr>, budget_release (buf_reserved s) b1)
        else None)"

fun body_loop ::
    "read_result list \<Rightarrow> int \<Rightarrow> body_buffer \<Rightarrow> bodyBudget \<Rightarrow> body_result \<times> int \<times> bodyBudget" where
  "body_loop [] length_hint s b = (BodyBlocked, buf_reserved s, b)"
| "body_loop (ReadPanic # rs) length_hint s b = (BodyPanic, 0, budget_release (buf_reserved s) b)"
| "body_loop (ReadChunk data err # rs) length_hint s b =
    (let n = int (length data);
         grown = (if n > 0 \<and> int (length (buf_body s)) + n > buf_cap s
                  then grow length_hint n s b else Some (s, b))
     in case grown of
          None \<Rightarrow> (BodyOverload, buf_reserved s, b)
        | Some (s1, b1) \<Rightarrow>
            let s2 = s1\<lparr>buf_body := buf_body s1 @ data\<rparr>
            in case err of
                 None \<Rightarrow> body_loop rs length_hint s2 b1
               | Some REOF \<Rightarrow> (BodyRead (buf_body s2), buf_reserved s2, b1)
               | Some (RErr e) \<Rightarrow> (BodyErr e, buf_reserved s2, b1))"

definition budget_read :: "read_result list \<Rightarrow> int \<Rightarrow> bodyBudget \<Rightarrow> body_result \<times> int \<times> bodyBudget" where
  "budget_read rs length_hint b =
    body_loop rs length_hint \<lparr>buf_body = [], buf_cap = 0, buf_reserved = 0\<rparr> b"

subsection \<open>The shared buffered body\<close>

text \<open>
  A body wraps the unread rest of its bytes (None once closed) and the reservation that its
  budget still holds for it. \<open>body_read p\<close> reads into a slice of \<open>p\<close> bytes.
\<close>

record bufferedRequestBody =
  rb_reader :: "string option"
  rb_reserved :: int

definition body_read :: "nat \<Rightarrow> bufferedRequestBody \<Rightarrow> (string \<times> bool) \<times> bufferedRequestBody" where
  "body_read p r =
    (case rb_reader r of
       None \<Rightarrow> (([], True), r)
     | Some rest \<Rightarrow>
         if rest = [] then (([], True), r)
         else ((take p rest, False), r\<lparr>rb_reader := Some (drop p rest)\<rparr>))"

definition body_close :: "bufferedRequestBody \<Rightarrow> bodyBudget \<Rightarrow> bufferedRequestBody \<times> bodyBudget" where
  "body_close r b =
    (let reserved = rb_reserved r
     in (r\<lparr>rb_reader := None, rb_reserved := 0\<rparr>,
         if reserved > 0 then budget_release reserved b else b))"

subsection \<open>Route classes\<close>

definition model_paths :: "string list" where
  "model_paths = [''/v1/chat/completions'', ''/v1/messages'', ''/v1/responses'', ''/v1/systemone'',
     ''/v1/images/generations'', ''/v1/images/edits'', ''/v1/videos'', ''/v1/audio/transcriptions'']"

definition isModelRoute :: "string \<Rightarrow> string \<Rightarrow> bool" where
  "isModelRoute meth path = (meth = ''POST'' \<and> path \<in> set model_paths)"

definition isRefresh :: "string \<Rightarrow> string \<Rightarrow> bool" where
  "isRefresh meth path = (meth = ''POST'' \<and> (has_suffix path ''/refresh'' \<or> path = ''/admin/models''))"

definition isHeavyAdmin :: "string \<Rightarrow> string \<Rightarrow> bool" where
  "isHeavyAdmin meth path =
    (has_prefix path ''/admin/'' \<and>
     (isRefresh meth path \<or> has_suffix path ''/checkin'' \<or> has_suffix path ''/upload'' \<or>
      has_suffix path ''/export'' \<or> contains path ''/oauth/'' \<or>
      has_suffix path ''/config'' \<and> meth = ''POST''))"

text \<open>The slot pool that requestGuard charges a request to.\<close>

datatype slot_pool = NoSlots | AdminSlots | QuerySlots | HeavySlots | RefreshSlots

definition guard_slots :: "string \<Rightarrow> string \<Rightarrow> slot_pool" where
  "guard_slots meth path =
    (let slots = AdminSlots;
         model = isModelRoute meth path;
         heavy = isHeavyAdmin meth path;
         slots = (if has_prefix path ''/v1/'' then QuerySlots else slots);
         slots = (if heavy then HeavySlots else slots);
         slots = (if model \<or> path = ''/admin/models/test'' \<or> path = ''/health'' \<or>
                     \<not> has_prefix path ''/admin/'' \<and> \<not> has_prefix path ''/v1/''
                  then NoSlots else slots)
     in if heavy \<and> isRefresh meth path then RefreshSlots else slots)"

text \<open>The size limit on a request's body; \<open>maxBytes\<close> is \<open>cfg.MaxRequestBytes\<close>.\<close>

definition guard_body_limit :: "int \<Rightarrow> int \<Rightarrow> string \<Rightarrow> int" where
  "guard_body_limit defaultMax maxBytes path =
    (if path = ''/admin/login'' \<or> has_prefix path ''/portal/api/'' \<or>
        has_prefix path ''/admin/identity'' \<or> has_prefix path ''/admin/portal/users'' \<or>
        path = ''/admin/portal/bootstrap''
     then 8 * 1024 else if maxBytes \<le> 0 then defaultMax else maxBytes)"

text \<open>Whether the body is read through the small pool of the unauthenticated routes.\<close>

definition guard_public_body :: "string \<Rightarrow> bool" where
  "guard_public_body path =
    (path = ''/admin/login'' \<or> path = ''/admin/logout'' \<or> has_prefix path ''/portal/api/auth/'')"

subsection \<open>Bounding JSON complexity\<close>

record json_scan =
  js_inString :: bool
  js_escaped :: bool
  js_depth :: int
  js_items :: int

definition scan_byte :: "char \<Rightarrow> json_scan \<Rightarrow> json_scan" where
  "scan_byte c s =
    (if js_inString s then
       (if js_escaped s then s\<lparr>js_escaped := False\<rparr>
        else if c = CHR 0x5C then s\<lparr>js_escaped := True\<rparr>
        else if c = CHR 0x22 then s\<lparr>js_inString := False\<rparr>
        else s)
     else if c = CHR 0x22 then s\<lparr>js_inString := True\<rparr>
     else if c = CHR ''{'' \<or> c = CHR ''['' then s\<lparr>js_depth := js_depth s + 1, js_items := js_items s + 1\<rparr>
     else if c = CHR ''}'' \<or> c = CHR '']'' then s\<lparr>js_depth := js_depth s - 1\<rparr>
     else if c = CHR '','' \<or> c = CHR '':'' then s\<lparr>js_items := js_items s + 1\<rparr>
     else s)"

definition over_limit :: "int \<Rightarrow> int \<Rightarrow> json_scan \<Rightarrow> bool" where
  "over_limit itemsLimit depthLimit s =
    (depthLimit > 0 \<and> js_depth s > depthLimit \<or> itemsLimit > 0 \<and> js_items s > itemsLimit)"

text \<open>The \<open>continue\<close> of the string branch skips the limit test.\<close>

fun json_loop :: "int \<Rightarrow> int \<Rightarrow> string \<Rightarrow> json_scan \<Rightarrow> bool" where
  "json_loop itemsLimit depthLimit [] s = True"
| "json_loop itemsLimit depthLimit (c # cs) s =
    (let s' = scan_byte c s
     in if js_inString s then json_loop itemsLimit depthLimit cs s'
        else if over_limit itemsLimit depthLimit s' then False
        else json_loop itemsLimit depthLimit cs s')"

definition json_start :: json_scan where
  "json_start = \<lparr>js_inString = False, js_escaped = False, js_depth = 0, js_items = 0\<rparr>"

definition jsonWithinComplexity :: "string \<Rightarrow> int \<Rightarrow> int \<Rightarrow> bool" where
  "jsonWithinComplexity body itemsLimit depthLimit =
    (if itemsLimit \<le> 0 \<and> depthLimit \<le> 0 then True
     else
       let trimmed = trim_space body
       in if trimmed = [] \<or> hd trimmed \<noteq> CHR ''{'' \<and> hd trimmed \<noteq> CHR ''['' then True
          else json_loop itemsLimit depthLimit trimmed json_start)"

subsection \<open>The reader's accounting\<close>

definition buffer_ok :: "body_buffer \<Rightarrow> bool" where
  "buffer_ok s = (buf_reserved s = buf_cap s \<and> int (length (buf_body s)) \<le> buf_cap s)"

lemma grow_some:
  assumes "grow h n s b = Some (s1, b1)" "buffer_ok s" "0 \<le> n"
  shows "buf_body s1 = buf_body s" "buf_reserved s1 = buf_cap s1"
    "int (length (buf_body s)) + n \<le> buf_cap s1"
    "bb_used b1 - buf_reserved s1 = bb_used b - buf_reserved s" "bb_limit b1 = bb_limit b"
    "bb_limit b > 0 \<Longrightarrow> bb_used b + buf_reserved s1 \<le> bb_limit b"
    "int (length (buf_body s)) + n > buf_cap s \<Longrightarrow>
     buf_cap s1 \<le> max (2 * (int (length (buf_body s)) + n)) h"
  using assms
  by (auto simp: grow_def grown_size_def reserve_def budget_release_def buffer_ok_def Let_def
      max_def split: if_splits)

lemma buffer_ok_append:
  assumes "(if 0 < int (length data) \<and> int (length (buf_body s)) + int (length data) > buf_cap s
            then grow h (int (length data)) s b else Some (s, b)) = Some (s1, b1)" "buffer_ok s"
  shows "buffer_ok (s1\<lparr>buf_body := buf_body s1 @ data\<rparr>)" "buf_body s1 = buf_body s"
    "bb_used b1 - buf_reserved s1 = bb_used b - buf_reserved s" "bb_limit b1 = bb_limit b"
  using assms grow_some [of h "int (length data)" s b s1 b1]
  by (auto simp: buffer_ok_def split: if_splits)

lemma body_loop_accounts:
  assumes "body_loop rs h s b = (res, reserved, b')" "buffer_ok s"
  shows "bb_used b' = bb_used b - buf_reserved s + reserved \<and> bb_limit b' = bb_limit b \<and>
    (res = BodyPanic \<longrightarrow> reserved = 0) \<and>
    (\<forall>d. res = BodyRead d \<longrightarrow> int (length d) \<le> reserved)"
  using assms
proof (induction rs h s b arbitrary: res reserved b' rule: body_loop.induct)
  case (3 data err rs h s b)
  let ?g = "if 0 < int (length data) \<and> int (length (buf_body s)) + int (length data) > buf_cap s
            then grow h (int (length data)) s b else Some (s, b)"
  show ?case
  proof (cases ?g)
    case None
    with 3 show ?thesis by auto
  next
    case (Some sb)
    then obtain s1 b1 where g: "?g = Some (s1, b1)" by (cases sb) auto
    note ok = buffer_ok_append [OF g "3.prems"(2)]
    show ?thesis
    proof (cases err)
      case None
      with "3.prems"(1) g have "body_loop rs h (s1\<lparr>buf_body := buf_body s1 @ data\<rparr>) b1 = (res, reserved, b')"
        by (simp add: Let_def)
      from "3.IH" [OF refl refl g refl refl None this ok(1)] ok show ?thesis by simp
    next
      case (Some e)
      then show ?thesis
        using "3.prems" g ok by (cases e) (auto simp: Let_def buffer_ok_def)
    qed
  qed
qed (auto simp: budget_release_def)

text \<open>The bytes of the reads up to the end of the stream.\<close>

fun chunks :: "read_result list \<Rightarrow> string" where
  "chunks [] = []"
| "chunks (ReadPanic # rs) = []"
| "chunks (ReadChunk data err # rs) = data @ (if err = None then chunks rs else [])"

lemma body_loop_data:
  assumes "body_loop rs h s b = (BodyRead d, reserved, b')" "buffer_ok s"
    "buf_reserved s \<le> max (2 * int (length (buf_body s))) h"
  shows "d = buf_body s @ chunks rs \<and> reserved \<le> max (2 * int (length d)) h"
  using assms
proof (induction rs h s b arbitrary: d reserved b' rule: body_loop.induct)
  case (3 data err rs h s b)
  let ?g = "if 0 < int (length data) \<and> int (length (buf_body s)) + int (length data) > buf_cap s
            then grow h (int (length data)) s b else Some (s, b)"
  obtain s1 b1 where g: "?g = Some (s1, b1)"
    using "3.prems"(1) by (cases ?g) auto
  note ok = buffer_ok_append [OF g "3.prems"(2)]
  have r: "buf_reserved (s1\<lparr>buf_body := buf_body s1 @ data\<rparr>)
      \<le> max (2 * int (length (buf_body (s1\<lparr>buf_body := buf_body s1 @ data\<rparr>)))) h"
    using g ok(2) "3.prems"(3) grow_some [of h "int (length data)" s b s1 b1] "3.prems"(2)
    by (auto split: if_splits)
  show ?case
  proof (cases err)
    case None
    with "3.prems"(1) g have "body_loop rs h (s1\<lparr>buf_body := buf_body s1 @ data\<rparr>) b1 = (BodyRead d, reserved, b')"
      by (simp add: Let_def)
    from "3.IH" [OF refl refl g refl refl None this ok(1) r] None ok(2) show ?thesis by auto
  next
    case (Some e)
    then show ?thesis
      using "3.prems" g ok(2) r by (cases e) (auto simp: Let_def)
  qed
qed auto

text \<open>The budget's limit at every reservation, including the two buffers held during growth.\<close>

lemma body_loop_within:
  assumes "body_loop rs h s b = (res, reserved, b')" "buffer_ok s" "bb_limit b > 0"
    "bb_used b \<le> bb_limit b" "0 \<le> buf_reserved s"
  shows "bb_used b' \<le> bb_limit b \<and> 0 \<le> reserved"
  using assms
proof (induction rs h s b arbitrary: res reserved b' rule: body_loop.induct)
  case (3 data err rs h s b)
  let ?g = "if 0 < int (length data) \<and> int (length (buf_body s)) + int (length data) > buf_cap s
            then grow h (int (length data)) s b else Some (s, b)"
  show ?case
  proof (cases ?g)
    case None
    with 3 show ?thesis by auto
  next
    case (Some sb)
    then obtain s1 b1 where g: "?g = Some (s1, b1)" by (cases sb) auto
    note ok = buffer_ok_append [OF g "3.prems"(2)]
    have u: "bb_used b1 \<le> bb_limit b1" "0 \<le> buf_reserved s1" "bb_limit b1 > 0"
      using g "3.prems"(2-5) grow_some [of h "int (length data)" s b s1 b1]
      by (auto split: if_splits)
    show ?thesis
    proof (cases err)
      case None
      with "3.prems"(1) g have "body_loop rs h (s1\<lparr>buf_body := buf_body s1 @ data\<rparr>) b1 = (res, reserved, b')"
        by (simp add: Let_def)
      from "3.IH" [OF refl refl g refl refl None this ok(1)] u ok(4) show ?thesis by simp
    next
      case (Some e)
      then show ?thesis
        using "3.prems" g u ok(4) by (cases e) (auto simp: Let_def)
    qed
  qed
qed (auto simp: budget_release_def)

text \<open>C12. Reading a body accounts for exactly what it allocated. On every outcome (read to the end,
  budget exhausted, read error, panic of the reader) the budget's use grows by the reservation
  that is returned to the caller, nothing after a panic; a positive limit is never exceeded; and
  a body read to the end is the concatenation of the chunks, at most its reservation long, with
  the reservation at most twice the body or the announced length.\<close>

theorem budget_read_accounts:
  assumes "budget_read rs h b = (res, reserved, b')"
  shows "bb_used b' = bb_used b + reserved \<and> (res = BodyPanic \<longrightarrow> reserved = 0) \<and>
    (bb_limit b > 0 \<longrightarrow> bb_used b \<le> bb_limit b \<longrightarrow> bb_used b' \<le> bb_limit b') \<and>
    (\<forall>d. res = BodyRead d \<longrightarrow> d = chunks rs \<and> int (length d) \<le> reserved \<and>
       reserved \<le> max (2 * int (length d)) h)"
proof -
  let ?s = "\<lparr>buf_body = [], buf_cap = 0, buf_reserved = 0\<rparr>"
  have l: "body_loop rs h ?s b = (res, reserved, b')"
    using assms by (simp add: budget_read_def)
  have ok: "buffer_ok ?s" by (simp add: buffer_ok_def)
  show ?thesis
    using body_loop_accounts [OF l ok] body_loop_within [OF l ok] body_loop_data [of rs h ?s b _ reserved b']
      l ok by auto
qed

theorem budget_read_accounts_witness:
  "budget_read [ReadChunk ''ab'' None, ReadChunk ''cde'' (Some REOF)] 0 \<lparr>bb_limit = 9, bb_used = 1\<rparr>
     = (BodyRead ''abcde'', 5, \<lparr>bb_limit = 9, bb_used = 6\<rparr>) \<and> (5 :: int) \<le> max (2 * 5) 0"
proof -
  have "budget_read [ReadChunk ''ab'' None, ReadChunk ''cde'' (Some REOF)] 0 \<lparr>bb_limit = 9, bb_used = 1\<rparr>
      = (BodyRead ''abcde'', 5, \<lparr>bb_limit = 9, bb_used = 6\<rparr>)"
    by (simp add: budget_read_def grow_def grown_size_def reserve_def budget_release_def Let_def)
  from this and budget_read_accounts [OF this] show ?thesis by simp
qed

subsection \<open>One-shot close\<close>

text \<open>Operations on a shared body, by any of its holders.\<close>

datatype body_op = OpRead nat | OpClose

fun body_step :: "bufferedRequestBody \<times> bodyBudget \<Rightarrow> body_op \<Rightarrow> bufferedRequestBody \<times> bodyBudget" where
  "body_step (r, b) (OpRead p) = (snd (body_read p r), b)"
| "body_step (r, b) OpClose = body_close r b"

lemma body_step_used:
  "0 \<le> rb_reserved (fst rb) \<Longrightarrow>
   bb_used (snd (body_step rb e)) - rb_reserved (fst (body_step rb e)) = bb_used (snd rb) - rb_reserved (fst rb) \<and>
   0 \<le> rb_reserved (fst (body_step rb e)) \<and>
   (rb_reserved (fst rb) = 0 \<and> rb_reader (fst rb) = None \<longrightarrow>
    rb_reserved (fst (body_step rb e)) = 0 \<and> rb_reader (fst (body_step rb e)) = None) \<and>
   (e = OpClose \<longrightarrow> rb_reserved (fst (body_step rb e)) = 0 \<and> rb_reader (fst (body_step rb e)) = None)"
  by (cases rb; cases e)
     (auto simp: body_read_def body_close_def budget_release_def Let_def split: option.split)

text \<open>Closing a buffered body gives its reservation back exactly once, however many holders
  read it and close it and in whatever order: after any sequence of operations that contains a
  close, the budget's use is what it was less the reservation, and every read ends at once.\<close>

theorem body_close_once:
  assumes "0 \<le> rb_reserved r" "OpClose \<in> set ops"
  shows "case foldl body_step (r, b) ops of (r', b') \<Rightarrow>
    bb_used b' = bb_used b - rb_reserved r \<and> rb_reserved r' = 0 \<and> fst (body_read p r') = ([], True)"
proof -
  have inv: "0 \<le> rb_reserved (fst rb) \<Longrightarrow>
      bb_used (snd (foldl body_step rb ops)) - rb_reserved (fst (foldl body_step rb ops)) =
        bb_used (snd rb) - rb_reserved (fst rb) \<and>
      (OpClose \<in> set ops \<or> rb_reserved (fst rb) = 0 \<and> rb_reader (fst rb) = None \<longrightarrow>
        rb_reserved (fst (foldl body_step rb ops)) = 0 \<and> rb_reader (fst (foldl body_step rb ops)) = None)"
    for rb
  proof (induction ops arbitrary: rb)
    case (Cons e ops)
    then show ?case
      using body_step_used [OF Cons.prems, of e] Cons.IH [of "body_step rb e"] by auto
  qed auto
  show ?thesis
    using inv [of "(r, b)"] assms
    by (cases "foldl body_step (r, b) ops") (simp add: body_read_def)
qed

theorem body_close_once_witness:
  "bb_used (snd (foldl body_step (\<lparr>rb_reader = Some ''abc'', rb_reserved = 4\<rparr>, \<lparr>bb_limit = 9, bb_used = 6\<rparr>)
     [OpRead 2, OpClose, OpClose, OpRead 1])) = 2"
  using body_close_once [of "\<lparr>rb_reader = Some ''abc'', rb_reserved = 4\<rparr>" "[OpRead 2, OpClose, OpClose, OpRead 1]"
      "\<lparr>bb_limit = 9, bb_used = 6\<rparr>"]
  by (simp add: case_prod_unfold)

subsection \<open>Route classes\<close>

lemma model_path_v1: "path \<in> set model_paths \<Longrightarrow> has_prefix path ''/v1/''"
  by (auto simp: model_paths_def has_prefix_def)

lemma admin_not_v1: "has_prefix path ''/admin/'' \<Longrightarrow> \<not> has_prefix path ''/v1/''"
  by (auto simp: has_prefix_iff)

lemma model_path_not_refresh: "path \<in> set model_paths \<Longrightarrow> \<not> has_suffix path ''/refresh'' \<and> path \<noteq> ''/admin/models''"
  by (auto simp: model_paths_def has_suffix_def)

text \<open>Every request is charged to exactly the pool of its class: a refresh of the
  administration surface to the refresh pool, any other heavy administration request to the
  heavy pool, model requests and everything outside the two API prefixes to none, and the rest
  of \<open>/v1/\<close> and \<open>/admin/\<close> to the query and administration pools. The classes are disjoint: a
  model route is never heavy.\<close>

theorem guard_slots_classes:
  "(guard_slots m path = RefreshSlots \<longleftrightarrow> has_prefix path ''/admin/'' \<and> isRefresh m path) \<and>
   (guard_slots m path = HeavySlots \<longleftrightarrow>
      isHeavyAdmin m path \<and> \<not> isRefresh m path \<and> path \<noteq> ''/admin/models/test'') \<and>
   (guard_slots m path = QuerySlots \<longleftrightarrow> has_prefix path ''/v1/'' \<and> \<not> isModelRoute m path) \<and>
   (guard_slots m path = AdminSlots \<longleftrightarrow>
      has_prefix path ''/admin/'' \<and> \<not> isHeavyAdmin m path \<and> path \<noteq> ''/admin/models/test'') \<and>
   \<not> (isModelRoute m path \<and> isHeavyAdmin m path)"
proof -
  have h: "path = ''/health'' \<Longrightarrow> \<not> has_prefix path ''/admin/'' \<and> \<not> has_prefix path ''/v1/''"
    by (simp add: has_prefix_def)
  have t: "path = ''/admin/models/test'' \<Longrightarrow> has_prefix path ''/admin/'' \<and> \<not> isRefresh m path"
    by (simp add: has_suffix_def has_prefix_def isRefresh_def)
  have c: "isModelRoute m path \<Longrightarrow> has_prefix path ''/v1/''"
    "isHeavyAdmin m path \<Longrightarrow> has_prefix path ''/admin/''"
    "has_prefix path ''/admin/'' \<Longrightarrow> isRefresh m path \<Longrightarrow> isHeavyAdmin m path"
    using model_path_v1 by (auto simp: isModelRoute_def isHeavyAdmin_def)
  note facts = h t c admin_not_v1 [of path]
  have g: "guard_slots m path =
    (if isHeavyAdmin m path \<and> isRefresh m path then RefreshSlots
     else if isModelRoute m path \<or> path = ''/admin/models/test'' \<or> path = ''/health'' \<or>
             \<not> has_prefix path ''/admin/'' \<and> \<not> has_prefix path ''/v1/'' then NoSlots
     else if isHeavyAdmin m path then HeavySlots
     else if has_prefix path ''/v1/'' then QuerySlots else AdminSlots)"
    by (simp add: guard_slots_def Let_def)
  show ?thesis
  proof (intro conjI)
    show "guard_slots m path = RefreshSlots \<longleftrightarrow> has_prefix path ''/admin/'' \<and> isRefresh m path"
      unfolding g using facts by (simp, blast)
    show "guard_slots m path = HeavySlots \<longleftrightarrow>
      isHeavyAdmin m path \<and> \<not> isRefresh m path \<and> path \<noteq> ''/admin/models/test''"
      unfolding g using facts by (simp, blast)
    show "guard_slots m path = QuerySlots \<longleftrightarrow> has_prefix path ''/v1/'' \<and> \<not> isModelRoute m path"
      unfolding g using facts by (simp, blast)
    show "guard_slots m path = AdminSlots \<longleftrightarrow>
      has_prefix path ''/admin/'' \<and> \<not> isHeavyAdmin m path \<and> path \<noteq> ''/admin/models/test''"
      unfolding g using facts by (simp, blast)
    show "\<not> (isModelRoute m path \<and> isHeavyAdmin m path)"
      using facts by blast
  qed
qed

subsection \<open>The complexity scan against a reference\<close>

text \<open>The rest of the text after a string literal whose opening quote was read, and the bytes of a
  text outside its string literals.\<close>

fun skip_string :: "string \<Rightarrow> string" where
  "skip_string [] = []"
| "skip_string (c # cs) =
    (if c = CHR 0x5C then (case cs of [] \<Rightarrow> [] | _ # cs' \<Rightarrow> skip_string cs')
     else if c = CHR 0x22 then cs else skip_string cs)"

lemma length_skip_string: "length (skip_string cs) \<le> length cs"
proof (induction cs rule: skip_string.induct)
  case (2 c cs)
  then show ?case by (cases cs) (auto simp: le_Suc_eq)
qed simp

function structural :: "string \<Rightarrow> string" where
  "structural [] = []"
| "structural (c # cs) = (if c = CHR 0x22 then structural (skip_string cs) else c # structural cs)"
  by pat_completeness auto
termination
  by (relation "measure length") (auto simp: less_Suc_eq_le length_skip_string)

definition opens :: "string \<Rightarrow> int" where
  "opens cs = int (length (filter (\<lambda>c. c \<in> {CHR ''{'', CHR ''[''}) cs))"

definition nesting :: "string \<Rightarrow> int" where
  "nesting cs = opens cs - int (length (filter (\<lambda>c. c \<in> {CHR ''}'', CHR '']''}) cs))"

definition json_items :: "string \<Rightarrow> int" where
  "json_items cs = opens cs + int (length (filter (\<lambda>c. c \<in> {CHR '','', CHR '':''}) cs))"

definition in_string :: "bool \<Rightarrow> json_scan \<Rightarrow> json_scan" where
  "in_string e s = s\<lparr>js_inString := True, js_escaped := e\<rparr>"

lemma json_loop_string:
  assumes "\<not> js_inString s" "\<not> js_escaped s"
  shows "json_loop il dl cs (in_string False s) = json_loop il dl (skip_string cs) s"
proof (induction cs rule: skip_string.induct)
  case (2 c cs)
  have e: "json_loop il dl (d # ds) (in_string True s) = json_loop il dl ds (in_string False s)" for d ds
    by (simp add: in_string_def scan_byte_def)
  have out: "(in_string False s)\<lparr>js_inString := False\<rparr> = s"
    using assms by (simp add: in_string_def)
  show ?case
  proof (cases "c = CHR 0x5C")
    case True
    have "json_loop il dl (c # cs) (in_string False s) = json_loop il dl cs (in_string True s)"
      using True by (simp add: scan_byte_def) (simp add: in_string_def)
    with True 2 e show ?thesis by (cases cs) simp_all
  next
    case False
    then show ?thesis using 2(2) out by (simp add: scan_byte_def) (simp add: in_string_def)
  qed
qed simp

lemma all_le_Suc: "(\<forall>n \<le> Suc k. Q n) \<longleftrightarrow> Q 0 \<and> (\<forall>n \<le> k. Q (Suc n))"
  using not0_implies_Suc by (metis Suc_le_mono zero_le)

definition byte_depth :: "char \<Rightarrow> int" where
  "byte_depth c = (if c \<in> {CHR ''{'', CHR ''[''} then 1 else if c \<in> {CHR ''}'', CHR '']''} then -1 else 0)"

definition byte_items :: "char \<Rightarrow> int" where
  "byte_items c = of_bool (c \<in> {CHR ''{'', CHR ''['', CHR '','', CHR '':''})"

lemma structural_measures [simp]:
  "nesting (c # cs) = byte_depth c + nesting cs" "json_items (c # cs) = byte_items c + json_items cs"
  "nesting [] = 0" "json_items [] = 0" "0 \<le> json_items cs" "0 \<le> byte_items c"
  by (simp_all add: nesting_def json_items_def opens_def byte_depth_def byte_items_def)

lemma scan_byte_outside:
  assumes "\<not> js_inString s" "\<not> js_escaped s" "c \<noteq> CHR 0x22"
  shows "js_depth (scan_byte c s) = js_depth s + byte_depth c"
    "js_items (scan_byte c s) = js_items s + byte_items c"
    "\<not> js_inString (scan_byte c s)" "\<not> js_escaped (scan_byte c s)"
  using assms by (auto simp: scan_byte_def byte_depth_def byte_items_def)

definition within :: "int \<Rightarrow> int \<Rightarrow> int \<Rightarrow> int \<Rightarrow> bool" where
  "within il dl depth items = (\<not> (dl > 0 \<and> depth > dl) \<and> \<not> (il > 0 \<and> items > il))"

lemma json_loop_spec:
  assumes "\<not> js_inString s" "\<not> js_escaped s" "within il dl (js_depth s) (js_items s)"
  shows "json_loop il dl cs s \<longleftrightarrow>
    (\<forall>n \<le> length (structural cs).
       within il dl (js_depth s + nesting (take n (structural cs))) (js_items s + json_items (take n (structural cs))))"
  using assms
proof (induction cs arbitrary: s rule: structural.induct)
  case 1
  then show ?case by simp
next
  case (2 c cs)
  show ?case
  proof (cases "c = CHR 0x22")
    case True
    have sc: "scan_byte c s = in_string False s"
      using "2.prems"(1,2) True by (simp add: scan_byte_def in_string_def)
    have "\<not> over_limit il dl (in_string False s)"
      using "2.prems"(3) by (simp add: over_limit_def within_def in_string_def)
    with sc "2.prems" True "2.IH"(1) [OF True "2.prems"] show ?thesis
      by (simp add: json_loop_string)
  next
    case False
    note sb = scan_byte_outside [OF "2.prems"(1,2) False]
    let ?T = "structural cs" and ?s = "scan_byte c s"
    have shift: "(\<forall>n \<le> length (c # ?T). P (take n (c # ?T))) \<longleftrightarrow> P [] \<and> (\<forall>n \<le> length ?T. P (c # take n ?T))"
      for P :: "string \<Rightarrow> bool"
      by (simp add: all_le_Suc)
    have over: "over_limit il dl ?s \<longleftrightarrow> \<not> within il dl (js_depth ?s) (js_items ?s)"
      by (auto simp: over_limit_def within_def)
    show ?thesis
    proof (cases "within il dl (js_depth ?s) (js_items ?s)")
      case True
      have "json_loop il dl (c # cs) s = json_loop il dl cs ?s"
        using True "2.prems"(1) over by simp
      also have "\<dots> \<longleftrightarrow> (\<forall>n \<le> length ?T. within il dl (js_depth ?s + nesting (take n ?T)) (js_items ?s + json_items (take n ?T)))"
        using "2.IH"(2) [OF False sb(3,4) True] .
      finally show ?thesis
        using False "2.prems"(3) shift [of "\<lambda>t. within il dl (js_depth s + nesting t) (js_items s + json_items t)"]
        by (simp add: sb(1,2) add.assoc)
    next
      case out: False
      have "\<not> json_loop il dl (c # cs) s" using out "2.prems"(1) over by simp
      moreover have "\<not> within il dl (js_depth s + nesting (take 1 (c # ?T))) (js_items s + json_items (take 1 (c # ?T)))"
        using out by (simp add: sb(1,2))
      ultimately show ?thesis using False by (auto intro!: exI [of _ 1])
    qed
  qed
qed

text \<open>The linear scan decides exactly the two bounds it stands for: for a body that starts an
  object or an array, with the bytes of its string literals (escapes included) left aside, it
  accepts when the number of containers, commas and colons is within a positive item limit and
  no prefix nests deeper than a positive depth limit; other bodies and limits that are off pass.\<close>

theorem jsonWithinComplexity_exact:
  defines "T body \<equiv> structural (trim_space body)"
  shows "jsonWithinComplexity body itemsLimit depthLimit \<longleftrightarrow>
    (trim_space body = [] \<or> hd (trim_space body) \<notin> {CHR ''{'', CHR ''[''} \<or>
     (itemsLimit \<le> 0 \<or> json_items (T body) \<le> itemsLimit) \<and>
     (depthLimit \<le> 0 \<or> (\<forall>n \<le> length (T body). nesting (take n (T body)) \<le> depthLimit)))"
proof -
  have mono: "json_items (take n cs) \<le> json_items cs" for n cs
  proof (induction cs arbitrary: n)
    case (Cons c cs)
    then show ?case
      by (cases n) simp_all
  qed simp
  have start: "json_loop itemsLimit depthLimit cs json_start \<longleftrightarrow>
    (\<forall>n \<le> length (structural cs). within itemsLimit depthLimit (nesting (take n (structural cs))) (json_items (take n (structural cs))))"
    for cs
    using json_loop_spec [of json_start itemsLimit depthLimit cs] by (simp add: json_start_def within_def)
  have "(\<forall>n \<le> length (T body). within itemsLimit depthLimit (nesting (take n (T body))) (json_items (take n (T body)))) \<longleftrightarrow>
    (itemsLimit \<le> 0 \<or> json_items (T body) \<le> itemsLimit) \<and>
    (depthLimit \<le> 0 \<or> (\<forall>n \<le> length (T body). nesting (take n (T body)) \<le> depthLimit))"
    using mono [of _ "T body"] by (auto simp: within_def not_less) (smt (verit) order_refl take_all)+
  then show ?thesis
    using start [of "trim_space body"] by (auto simp: jsonWithinComplexity_def Let_def T_def)
qed

theorem jsonWithinComplexity_exact_witness:
  "jsonWithinComplexity ''[[]]'' 2 2 \<and> \<not> jsonWithinComplexity ''[[]]'' 2 1"
proof -
  have t: "trim_space ''[[]]'' = ''[[]]''" by (rule trim_space_printable) (simp_all add: printable_def)
  have s: "structural ''[[]]'' = ''[[]]''" by simp
  show ?thesis
    unfolding jsonWithinComplexity_exact t s
    by (auto simp: less_Suc_eq_le le_Suc_eq numeral_2_eq_2 nesting_def json_items_def opens_def)
qed

end
