(* ===== verification/Refresh.thy ===== *)
theory Refresh
  imports Capacity
begin

text \<open>
  The single-flight refresh of internal/app/request_capacity.go: serveRefresh, its flights and
  its response recorder. A \<open>*refreshFlight\<close> is an index into the store \<open>rs_flights\<close>. Entering is
  one critical section of \<open>refreshMu\<close>; the leader's handler then runs outside it on the recorder,
  and the deferred section closes the flight. The heavy slots are a channel of capacity
  \<open>rs_heavyCap\<close> that other heavy administration requests take from as well.
\<close>

subsection \<open>The recorder\<close>

type_synonym header = "string \<rightharpoonup> string list"

record refreshRecorder =
  rr_header :: header
  rr_code :: int
  rr_body :: string
  rr_overflow :: bool

definition rec_WriteHeader :: "int \<Rightarrow> refreshRecorder \<Rightarrow> refreshRecorder" where
  "rec_WriteHeader code r = (if rr_code r = 0 then r\<lparr>rr_code := code\<rparr> else r)"

text \<open>The result is the number of bytes taken, None for the error.\<close>

definition rec_Write :: "string \<Rightarrow> refreshRecorder \<Rightarrow> nat option \<times> refreshRecorder" where
  "rec_Write p r =
    (if length (rr_body r) + length p > 4 * 2 ^ 20 then (None, r\<lparr>rr_overflow := True\<rparr>)
     else let r1 = rec_WriteHeader 200 r
          in (Some (length p), r1\<lparr>rr_body := rr_body r1 @ p\<rparr>))"

text \<open>What a handler does to its response writer.\<close>

datatype rec_call = SetHeader string "string list" | CallWriteHeader int | CallWrite string

fun rec_step :: "refreshRecorder \<Rightarrow> rec_call \<Rightarrow> refreshRecorder" where
  "rec_step r (SetHeader k v) = r\<lparr>rr_header := (rr_header r)(k \<mapsto> v)\<rparr>"
| "rec_step r (CallWriteHeader c) = rec_WriteHeader c r"
| "rec_step r (CallWrite p) = snd (rec_Write p r)"

definition rec_new :: refreshRecorder where
  "rec_new = \<lparr>rr_header = Map.empty, rr_code = 0, rr_body = [], rr_overflow = False\<rparr>"

subsection \<open>Flights\<close>

record refreshFlight =
  rf_done :: bool
  rf_waiters :: nat
  rf_header :: header
  rf_code :: int
  rf_body :: string

record refresh_state =
  rs_refreshes :: "string \<rightharpoonup> nat"
  rs_flights :: "refreshFlight list"
  rs_heavyCap :: nat
  rs_heavyUsed :: nat
  rs_rejected :: counts

definition refresh_failed :: string where
  "refresh_failed = ''{'' @ bytes [0x22] @ ''error'' @ bytes [0x22] @ '':{'' @ bytes [0x22] @
     ''message'' @ bytes [0x22] @ '':'' @
     bytes [0x22, 0xE5, 0x88, 0xB7, 0xE6, 0x96, 0xB0, 0xE5, 0xA4, 0xB1, 0xE8, 0xB4, 0xA5, 0x22] @
     '','' @ bytes [0x22] @ ''type'' @ bytes [0x22] @ '':'' @ bytes [0x22] @ ''server_error'' @
     bytes [0x22] @ ''}}''"

definition refresh_too_large :: string where
  "refresh_too_large = ''{'' @ bytes [0x22] @ ''error'' @ bytes [0x22] @ '':{'' @ bytes [0x22] @
     ''message'' @ bytes [0x22] @ '':'' @
     bytes [0x22, 0xE5, 0x88, 0xB7, 0xE6, 0x96, 0xB0, 0xE5, 0x93, 0x8D, 0xE5, 0xBA, 0x94, 0xE8,
            0xB6, 0x85, 0xE8, 0xBF, 0x87, 0xE9, 0x99, 0x90, 0xE5, 0x88, 0xB6, 0x22] @
     '','' @ bytes [0x22] @ ''type'' @ bytes [0x22] @ '':'' @ bytes [0x22] @
     ''response_too_large'' @ bytes [0x22] @ ''}}''"

text \<open>The key of a refresh; \<open>selected\<close> is the query's provider, empty when absent.\<close>

definition refresh_key :: "string \<Rightarrow> string \<Rightarrow> string" where
  "refresh_key path selected =
    (let key = (if path = ''/admin/models'' then ''/admin/models/refresh'' else path)
     in if key = ''/admin/models/refresh'' \<and> selected \<noteq> [] then key @ ''?provider='' @ selected
        else key)"

datatype refresh_entry = Follow nat | Overloaded | Lead nat

definition refresh_enter :: "string \<Rightarrow> refresh_state \<Rightarrow> refresh_entry \<times> refresh_state" where
  "refresh_enter key s =
    (case rs_refreshes s key of
       Some f \<Rightarrow>
         (Follow f, s\<lparr>rs_flights := (rs_flights s)[f := (rs_flights s ! f)
            \<lparr>rf_waiters := rf_waiters (rs_flights s ! f) + 1\<rparr>]\<rparr>)
     | None \<Rightarrow>
         if rs_heavyUsed s < rs_heavyCap s
         then let f = length (rs_flights s);
                  new = \<lparr>rf_done = False, rf_waiters = 0, rf_header = Map.empty, rf_code = 0,
                         rf_body = []\<rparr>
              in (Lead f, s\<lparr>rs_refreshes := (rs_refreshes s)(key \<mapsto> f),
                            rs_flights := rs_flights s @ [new],
                            rs_heavyUsed := rs_heavyUsed s + 1\<rparr>)
         else (Overloaded, s\<lparr>rs_rejected := bump (rs_rejected s) ''heavy_admin_capacity''\<rparr>))"

text \<open>The leader after its handler: None is a handler that panicked.\<close>

definition flight_result :: "refreshRecorder option \<Rightarrow> refreshFlight \<Rightarrow> refreshFlight" where
  "flight_result outcome f =
    (let f1 = (case outcome of
                 None \<Rightarrow> f
               | Some r \<Rightarrow>
                   let r1 = (if rr_overflow r
                             then r\<lparr>rr_code := 502, rr_body := refresh_too_large\<rparr> else r)
                   in f\<lparr>rf_header := rr_header r1,
                        rf_code := (if rr_code r1 = 0 then 200 else rr_code r1),
                        rf_body := rr_body r1\<rparr>)
     in if rf_code f1 = 0 then f1\<lparr>rf_code := 500, rf_body := refresh_failed\<rparr> else f1)"

definition refresh_finish :: "string \<Rightarrow> nat \<Rightarrow> refreshRecorder option \<Rightarrow> refresh_state \<Rightarrow> refresh_state" where
  "refresh_finish key f outcome s =
     s\<lparr>rs_flights := (rs_flights s)[f := (flight_result outcome (rs_flights s ! f))\<lparr>rf_done := True\<rparr>],
       rs_refreshes := (rs_refreshes s)(key := None),
       rs_heavyUsed := rs_heavyUsed s - 1\<rparr>"

text \<open>
  What a follower writes to its own client once the flight is done; None while it waits. The
  leader writes the same of its flight. \<open>own\<close> are the headers that the client's writer holds.
\<close>

definition write_flight :: "refreshFlight \<Rightarrow> header \<Rightarrow> header \<times> int \<times> string" where
  "write_flight f own = (own ++ rf_header f, rf_code f, rf_body f)"

definition refresh_follow :: "nat \<Rightarrow> header \<Rightarrow> refresh_state \<Rightarrow> (header \<times> int \<times> string) option" where
  "refresh_follow f own s =
    (if rf_done (rs_flights s ! f) then Some (write_flight (rs_flights s ! f) own) else None)"

subsection \<open>The recorder keeps the response or says that it did not\<close>

fun written :: "rec_call list \<Rightarrow> string" where
  "written [] = []"
| "written (CallWrite p # cs) = p @ written cs"
| "written (_ # cs) = written cs"

text \<open>The status a client of the recorded handler sees first: the first nonzero \<open>WriteHeader\<close>, or
  200 from a first write.\<close>

fun first_status :: "rec_call list \<Rightarrow> int" where
  "first_status [] = 0"
| "first_status (CallWriteHeader c # cs) = (if c = 0 then first_status cs else c)"
| "first_status (CallWrite p # cs) = 200"
| "first_status (SetHeader k v # cs) = first_status cs"

lemma rec_run:
  "(\<not> rr_overflow (foldl rec_step r cs) \<longrightarrow>
      rr_body (foldl rec_step r cs) = rr_body r @ written cs \<and> \<not> rr_overflow r \<and>
      rr_code (foldl rec_step r cs) = (if rr_code r = 0 then first_status cs else rr_code r)) \<and>
   (length (rr_body r) \<le> 4 * 2 ^ 20 \<longrightarrow> length (rr_body (foldl rec_step r cs)) \<le> 4 * 2 ^ 20)"
proof (induction cs arbitrary: r)
  case (Cons e cs)
  show ?case
    using Cons.IH [of "rec_step r e"]
    by (cases e) (auto simp: rec_Write_def rec_WriteHeader_def Let_def)
qed simp

text \<open>The recorder of a refresh never holds more than 4 MiB, and unless it reports an
  overflow it holds everything the handler wrote and the status that the handler's own client
  would have seen.\<close>

theorem recorder_faithful:
  "length (rr_body (foldl rec_step rec_new cs)) \<le> 4 * 2 ^ 20 \<and>
    (rr_overflow (foldl rec_step rec_new cs) \<or>
     rr_body (foldl rec_step rec_new cs) = written cs \<and> rr_code (foldl rec_step rec_new cs) = first_status cs)"
  using rec_run [of rec_new cs] by (auto simp: rec_new_def)

subsection \<open>Single flight\<close>

text \<open>
  The critical sections: entering, the leader's deferred end of its flight, and the other heavy
  administration requests that take and give back slots of the same channel. The guard asks
  that a flight is ended by its leader, and that a slot is given back by one who holds it.
\<close>

datatype refresh_event =
    REnter string
  | RFinish string nat "refreshRecorder option"
  | RHeavyTake
  | RHeavyGive

definition open_flights :: "refresh_state \<Rightarrow> int" where
  "open_flights s = tally (\<lambda>f. of_bool (\<not> rf_done f)) (rs_flights s)"

fun refresh_step :: "refresh_state \<Rightarrow> refresh_event \<Rightarrow> refresh_state" where
  "refresh_step s (REnter key) = snd (refresh_enter key s)"
| "refresh_step s (RFinish key f outcome) = refresh_finish key f outcome s"
| "refresh_step s RHeavyTake =
     (if rs_heavyUsed s < rs_heavyCap s then s\<lparr>rs_heavyUsed := rs_heavyUsed s + 1\<rparr> else s)"
| "refresh_step s RHeavyGive = s\<lparr>rs_heavyUsed := rs_heavyUsed s - 1\<rparr>"

fun refresh_ok :: "refresh_state \<Rightarrow> refresh_event \<Rightarrow> bool" where
  "refresh_ok s (REnter key) = True"
| "refresh_ok s (RFinish key f outcome) = (rs_refreshes s key = Some f)"
| "refresh_ok s RHeavyTake = True"
| "refresh_ok s RHeavyGive = (open_flights s < int (rs_heavyUsed s))"

definition refresh_start :: "nat \<Rightarrow> refresh_state" where
  "refresh_start cap = \<lparr>rs_refreshes = Map.empty, rs_flights = [], rs_heavyCap = cap,
     rs_heavyUsed = 0, rs_rejected = Map.empty\<rparr>"

definition refresh_inv :: "refresh_state \<Rightarrow> bool" where
  "refresh_inv s =
    ((\<forall>key f. rs_refreshes s key = Some f \<longrightarrow> f < length (rs_flights s) \<and> \<not> rf_done (rs_flights s ! f)) \<and>
     (\<forall>k l f. rs_refreshes s k = Some f \<and> rs_refreshes s l = Some f \<longrightarrow> k = l) \<and>
     (\<forall>f < length (rs_flights s). rf_done (rs_flights s ! f) \<longleftrightarrow> rf_code (rs_flights s ! f) \<noteq> 0) \<and>
     open_flights s \<le> int (rs_heavyUsed s) \<and> rs_heavyUsed s \<le> rs_heavyCap s)"

lemma flight_result_code: "rf_code (flight_result outcome f) \<noteq> 0"
  by (simp add: flight_result_def Let_def split: option.split)

lemma open_flights_pos:
  assumes "f < length (rs_flights s)" "\<not> rf_done (rs_flights s ! f)"
  shows "0 < open_flights s"
proof -
  have "of_bool (\<not> rf_done (rs_flights s ! f)) \<le> open_flights s"
    unfolding open_flights_def by (rule tally_member_le) (use assms in auto)
  with assms(2) show ?thesis by simp
qed

lemma refresh_inv_step: "refresh_inv s \<Longrightarrow> refresh_ok s e \<Longrightarrow> refresh_inv (refresh_step s e)"
proof (cases e)
  case (REnter key)
  assume i: "refresh_inv s"
  show "refresh_inv (refresh_step s e)"
  proof (cases "rs_refreshes s key")
    case None
    have range: "f < length (rs_flights s)" if "rs_refreshes s k = Some f" for k f
      using i that by (auto simp: refresh_inv_def)
    show ?thesis
    proof (cases "rs_heavyUsed s < rs_heavyCap s")
      case False
      with i None REnter show ?thesis
        by (simp add: refresh_inv_def refresh_enter_def open_flights_def)
    next
      case True
      let ?new = "\<lparr>rf_done = False, rf_waiters = 0, rf_header = Map.empty, rf_code = 0, rf_body = []\<rparr>"
      let ?s = "s\<lparr>rs_refreshes := (rs_refreshes s)(key \<mapsto> length (rs_flights s)),
        rs_flights := rs_flights s @ [?new], rs_heavyUsed := rs_heavyUsed s + 1\<rparr>"
      have "refresh_step s e = ?s"
        using None True REnter by (simp add: refresh_enter_def Let_def)
      moreover have "open_flights ?s = open_flights s + 1" by (simp add: open_flights_def)
      ultimately show ?thesis
        using i range True unfolding refresh_inv_def
        by (fastforce simp: nth_append split: if_splits)
    qed
  next
    case (Some f)
    have "open_flights (s\<lparr>rs_flights := (rs_flights s)[f := (rs_flights s ! f)
        \<lparr>rf_waiters := rf_waiters (rs_flights s ! f) + 1\<rparr>]\<rparr>) = open_flights s"
      by (simp add: open_flights_def tally_update_same)
    with i Some REnter show ?thesis
      by (auto simp: refresh_inv_def refresh_enter_def nth_list_update)
  qed
next
  case (RFinish key f outcome)
  assume i: "refresh_inv s" and ok: "refresh_ok s e"
  have f: "f < length (rs_flights s)" "\<not> rf_done (rs_flights s ! f)" "rs_refreshes s key = Some f"
    using i ok RFinish by (auto simp: refresh_inv_def)
  have "open_flights (refresh_finish key f outcome s) = open_flights s - 1"
    using f by (simp add: open_flights_def refresh_finish_def tally_update)
  moreover have "0 < open_flights s" using open_flights_pos [OF f(1,2)] .
  ultimately show "refresh_inv (refresh_step s e)"
    using i f RFinish flight_result_code [of outcome "rs_flights s ! f"]
    by (auto simp: refresh_inv_def refresh_finish_def nth_list_update)
next
  case RHeavyGive
  assume "refresh_inv s" "refresh_ok s e"
  with RHeavyGive show "refresh_inv (refresh_step s e)"
    by (auto simp: refresh_inv_def open_flights_def)
qed (auto simp: refresh_inv_def open_flights_def)

interpretation refresh: guarded_machine refresh_step refresh_ok refresh_inv
  by unfold_locales (rule refresh_inv_step)

lemma refresh_start_inv: "refresh_inv (refresh_start cap)"
  by (simp add: refresh_inv_def refresh_start_def open_flights_def)

text \<open>Refreshes are single flight: in every reachable state each key has at most one flight
  under way, different keys have different flights, the open flights hold no more heavy slots
  than the channel has, and a request leads only when its key has no flight; every other one
  follows the open flight or is turned away because the heavy slots are taken.\<close>

theorem refresh_single_flight:
  assumes "legal refresh_step refresh_ok (refresh_start cap) es"
  defines "s \<equiv> run refresh_step (refresh_start cap) es"
  shows "inj_on (rs_refreshes s) (dom (rs_refreshes s)) \<and>
    open_flights s \<le> int (rs_heavyUsed s) \<and> rs_heavyUsed s \<le> rs_heavyCap s \<and>
    (case fst (refresh_enter key s) of
       Lead f \<Rightarrow> rs_refreshes s key = None \<and> rs_heavyUsed s < rs_heavyCap s
     | Follow f \<Rightarrow> rs_refreshes s key = Some f \<and> f < length (rs_flights s) \<and> \<not> rf_done (rs_flights s ! f)
     | Overloaded \<Rightarrow> rs_refreshes s key = None \<and> rs_heavyUsed s = rs_heavyCap s)"
proof -
  have i: "refresh_inv s"
    unfolding s_def using refresh_start_inv assms(1) by (rule refresh.run_inv)
  moreover have "inj_on (rs_refreshes s) (dom (rs_refreshes s))"
    using i unfolding refresh_inv_def inj_on_def by (metis domD)
  ultimately show ?thesis
    by (auto simp: refresh_enter_def refresh_inv_def Let_def split: option.split)
qed

theorem refresh_single_flight_witness:
  "fst (refresh_enter ''/a/refresh'' (run refresh_step (refresh_start 1) [REnter ''/a/refresh''])) = Follow 0 \<and>
   open_flights (run refresh_step (refresh_start 1) [REnter ''/a/refresh'']) \<le> 1"
proof -
  let ?s = "run refresh_step (refresh_start 1) [REnter ''/a/refresh'']"
  have l: "legal refresh_step refresh_ok (refresh_start 1) [REnter ''/a/refresh'']" by simp
  have "fst (refresh_enter ''/a/refresh'' ?s) = Follow 0" "rs_heavyCap ?s = 1"
    by (simp_all add: refresh_enter_def refresh_start_def Let_def)
  with refresh_single_flight [OF l, of "''/a/refresh''"] show ?thesis by simp
qed

text \<open>A finished flight never changes again.\<close>

lemma refresh_done_stays:
  assumes "refresh_inv s" "refresh_ok s e" "f < length (rs_flights s)" "rf_done (rs_flights s ! f)"
  shows "f < length (rs_flights (refresh_step s e)) \<and> rs_flights (refresh_step s e) ! f = rs_flights s ! f"
  using assms
  by (cases e)
     (auto simp: refresh_inv_def refresh_enter_def refresh_finish_def nth_append nth_list_update Let_def
      split: option.split)

lemma refresh_done_stays_run:
  "refresh_inv s \<Longrightarrow> legal refresh_step refresh_ok s es \<Longrightarrow> f < length (rs_flights s) \<Longrightarrow>
   rf_done (rs_flights s ! f) \<Longrightarrow> rs_flights (run refresh_step s es) ! f = rs_flights s ! f"
proof (induction es arbitrary: s)
  case (Cons e es)
  then show ?case
    using refresh_done_stays [of s e f] refresh_inv_step [of s e] by simp
qed simp

text \<open>Every follower is answered, always with the same response: once the leader ended its flight,
  in whatever way its handler ended, each follower gets at any later time the recorded status,
  headers and body (502 after an overflow, 500 after a panic, 200 when the handler set no
  status), and the status is never zero.\<close>

theorem refresh_followers_answered:
  assumes "legal refresh_step refresh_ok (refresh_start cap) (es @ RFinish key f outcome # fs)"
  defines "s \<equiv> run refresh_step (refresh_start cap) (es @ RFinish key f outcome # fs)"
  shows "case outcome of
      None \<Rightarrow> \<exists>h. refresh_follow f own s = Some (own ++ h, 500, refresh_failed)
    | Some r \<Rightarrow> refresh_follow f own s =
        (if rr_overflow r then Some (own ++ rr_header r, 502, refresh_too_large)
         else Some (own ++ rr_header r, if rr_code r = 0 then 200 else rr_code r, rr_body r))"
proof -
  let ?a = "run refresh_step (refresh_start cap) es"
  have l: "legal refresh_step refresh_ok (refresh_start cap) es" "rs_refreshes ?a key = Some f"
    "legal refresh_step refresh_ok (refresh_finish key f outcome ?a) fs"
    using assms(1) by (simp_all add: legal_append)
  have i: "refresh_inv ?a" using refresh_start_inv l(1) by (rule refresh.run_inv)
  have f: "f < length (rs_flights ?a)" using i l(2) by (auto simp: refresh_inv_def)
  have z: "rf_code (rs_flights ?a ! f) = 0"
    using i l(2) f unfolding refresh_inv_def by blast
  have "rs_flights s ! f = rs_flights (refresh_finish key f outcome ?a) ! f"
    unfolding s_def run_append run.simps refresh_step.simps
    using refresh_inv_step [OF i, of "RFinish key f outcome"] l f
    by (intro refresh_done_stays_run) (simp_all add: refresh_finish_def)
  then show ?thesis
    using f z by (auto simp: refresh_follow_def write_flight_def refresh_finish_def flight_result_def Let_def
        split: option.split)
qed

theorem refresh_followers_answered_witness:
  "refresh_follow 0 Map.empty (run refresh_step (refresh_start 1)
     [REnter ''/a/refresh'', REnter ''/a/refresh'', RFinish ''/a/refresh'' 0 None, REnter ''/a/refresh''])
     \<noteq> None"
proof -
  have "legal refresh_step refresh_ok (refresh_start 1)
      ([REnter ''/a/refresh'', REnter ''/a/refresh''] @ RFinish ''/a/refresh'' 0 None # [REnter ''/a/refresh''])"
    by (simp add: refresh_enter_def refresh_start_def Let_def)
  from refresh_followers_answered [OF this, of Map.empty] show ?thesis by auto
qed

end
