(* ===== verification/GoFloat.thy ===== *)
theory GoFloat
  imports Complex_Main Prelude
begin

text \<open>
  Go's float64: IEEE 754 binary64 with rounding to nearest, ties to even, gradual underflow and
  overflow to infinity. A finite value is the rational number it denotes, so the two zeros are
  one; the only operation that tells them apart here, a division by zero, is written for the
  positive zero, and the code modelled on top of this theory divides by nonzero values only.
  Comparisons with NaN are false, as in Go.
\<close>

datatype f64 = NaN | PInf | NInf | Fin rat

subsection \<open>Rounding\<close>

fun ilog :: "nat \<Rightarrow> nat" where
  "ilog n = (if n < 2 then 0 else Suc (ilog (n div 2)))"

declare ilog.simps [simp del]

text \<open>The binade of a positive number: \<open>2 powi ilog2 x \<le> x < 2 powi (ilog2 x + 1)\<close>.\<close>

definition ilog2 :: "rat \<Rightarrow> int" where
  "ilog2 x =
    (let (p, q) = quotient_of x;
         e = int (ilog (nat p)) - int (ilog (nat q))
     in if 2 powi e \<le> x then e else e - 1)"

definition round_even :: "rat \<Rightarrow> int" where
  "round_even x =
    (let f = floor x; d = x - of_int f
     in if d < 1/2 then f else if d > 1/2 then f + 1 else if even f then f else f + 1)"

definition lsb_exp :: "rat \<Rightarrow> int" where
  "lsb_exp x = max (ilog2 \<bar>x\<bar> - 52) (- 1074)"

definition round_finite :: "rat \<Rightarrow> rat" where
  "round_finite x =
    (if x = 0 then 0
     else of_int (round_even (x / 2 powi lsb_exp x)) * 2 powi lsb_exp x)"

definition rnd :: "rat \<Rightarrow> f64" where
  "rnd x =
    (let y = round_finite x
     in if \<bar>y\<bar> < 2 powi 1024 then Fin y else if y > 0 then PInf else NInf)"

subsection \<open>Operations\<close>

fun fle :: "f64 \<Rightarrow> f64 \<Rightarrow> bool" where
  "fle NaN _ = False"
| "fle _ NaN = False"
| "fle NInf _ = True"
| "fle _ PInf = True"
| "fle (Fin x) (Fin y) = (x \<le> y)"
| "fle _ _ = False"

fun flt :: "f64 \<Rightarrow> f64 \<Rightarrow> bool" where
  "flt NaN _ = False"
| "flt _ NaN = False"
| "flt NInf NInf = False"
| "flt NInf _ = True"
| "flt PInf _ = False"
| "flt (Fin x) PInf = True"
| "flt (Fin x) (Fin y) = (x < y)"
| "flt (Fin x) NInf = False"

definition feq :: "f64 \<Rightarrow> f64 \<Rightarrow> bool" where
  "feq x y = (x \<noteq> NaN \<and> x = y)"

definition isNaN :: "f64 \<Rightarrow> bool" where
  "isNaN x = (x = NaN)"

definition isInf :: "f64 \<Rightarrow> bool" where
  "isInf x = (x = PInf \<or> x = NInf)"

fun fneg :: "f64 \<Rightarrow> f64" where
  "fneg NaN = NaN"
| "fneg PInf = NInf"
| "fneg NInf = PInf"
| "fneg (Fin x) = Fin (- x)"

fun fabs :: "f64 \<Rightarrow> f64" where
  "fabs NaN = NaN"
| "fabs PInf = PInf"
| "fabs NInf = PInf"
| "fabs (Fin x) = Fin \<bar>x\<bar>"

fun fadd :: "f64 \<Rightarrow> f64 \<Rightarrow> f64" where
  "fadd NaN _ = NaN"
| "fadd _ NaN = NaN"
| "fadd PInf NInf = NaN"
| "fadd NInf PInf = NaN"
| "fadd PInf _ = PInf"
| "fadd NInf _ = NInf"
| "fadd _ PInf = PInf"
| "fadd _ NInf = NInf"
| "fadd (Fin x) (Fin y) = rnd (x + y)"

definition fsub :: "f64 \<Rightarrow> f64 \<Rightarrow> f64" where
  "fsub x y = fadd x (fneg y)"

definition finf :: "bool \<Rightarrow> f64" where
  "finf positive = (if positive then PInf else NInf)"

definition fpos :: "f64 \<Rightarrow> bool" where
  "fpos x = flt (Fin 0) x"

fun fmul :: "f64 \<Rightarrow> f64 \<Rightarrow> f64" where
  "fmul NaN _ = NaN"
| "fmul _ NaN = NaN"
| "fmul (Fin x) (Fin y) = rnd (x * y)"
| "fmul x y = (if x = Fin 0 \<or> y = Fin 0 then NaN else finf (fpos x = fpos y))"

fun fdiv :: "f64 \<Rightarrow> f64 \<Rightarrow> f64" where
  "fdiv NaN _ = NaN"
| "fdiv _ NaN = NaN"
| "fdiv (Fin x) (Fin y) = (if y = 0 then (if x = 0 then NaN else finf (x > 0)) else rnd (x / y))"
| "fdiv (Fin x) _ = Fin 0"
| "fdiv x (Fin y) = finf (fpos x = (y \<ge> 0))"
| "fdiv _ _ = NaN"

text \<open>\<open>math.Min\<close> and the builtin \<open>max\<close>, both NaN when an argument is.\<close>

definition fmin :: "f64 \<Rightarrow> f64 \<Rightarrow> f64" where
  "fmin x y = (if x = NaN \<or> y = NaN then NaN else if fle x y then x else y)"

definition fmax :: "f64 \<Rightarrow> f64 \<Rightarrow> f64" where
  "fmax x y = (if x = NaN \<or> y = NaN then NaN else if fle x y then y else x)"

text \<open>\<open>float64(n)\<close> of an integer, and a constant of the source.\<close>

definition of_count :: "int \<Rightarrow> f64" where
  "of_count n = rnd (of_int n)"

definition lit :: "rat \<Rightarrow> f64" where
  "lit x = rnd x"

subsection \<open>Order\<close>

lemma fle_refl [simp]: "fle x x \<longleftrightarrow> x \<noteq> NaN"
  by (cases x) auto

lemma fle_trans: "fle x y \<Longrightarrow> fle y z \<Longrightarrow> fle x z"
  by (cases x; cases y; cases z) auto

lemma flt_iff: "flt x y \<longleftrightarrow> fle x y \<and> x \<noteq> y"
  by (cases x; cases y) auto

lemma fle_antisym: "fle x y \<Longrightarrow> fle y x \<Longrightarrow> x = y"
  by (cases x; cases y) auto

lemma fle_linear: "x \<noteq> NaN \<Longrightarrow> y \<noteq> NaN \<Longrightarrow> fle x y \<or> fle y x"
  by (cases x; cases y) auto

lemma fle_not_nan: "fle x y \<Longrightarrow> x \<noteq> NaN \<and> y \<noteq> NaN"
  by (cases x; cases y) auto

lemma not_flt: "x \<noteq> NaN \<Longrightarrow> y \<noteq> NaN \<Longrightarrow> \<not> flt x y \<longleftrightarrow> fle y x"
  by (cases x; cases y) auto

lemma flt_not_nan: "flt x y \<Longrightarrow> x \<noteq> NaN \<and> y \<noteq> NaN"
  by (cases x; cases y) auto

lemma flt_trans: "flt x y \<Longrightarrow> flt y z \<Longrightarrow> flt x z"
  by (cases x; cases y; cases z) auto

lemma flt_fle_trans: "flt x y \<Longrightarrow> fle y z \<Longrightarrow> flt x z"
  by (cases x; cases y; cases z) auto

lemma fle_flt_trans: "fle x y \<Longrightarrow> flt y z \<Longrightarrow> flt x z"
  by (cases x; cases y; cases z) auto

lemma fmax_ge:
  "fmax x y \<noteq> NaN \<Longrightarrow> fle x (fmax x y) \<and> fle y (fmax x y)"
  by (cases x; cases y) (auto simp: fmax_def)

lemma fmax_nan: "fmax x y = NaN \<longleftrightarrow> x = NaN \<or> y = NaN"
  by (auto simp: fmax_def)

subsection \<open>Rounding is monotone\<close>

lemma ilog_bounds: "0 < n \<Longrightarrow> 2 ^ ilog n \<le> n \<and> n < 2 * 2 ^ ilog n"
proof (induction n rule: ilog.induct)
  case (1 n)
  show ?case
  proof (cases "n < 2")
    case True
    with "1.prems" show ?thesis by (simp add: ilog.simps [of n])
  next
    case False
    then have "2 ^ ilog (n div 2) \<le> n div 2" "n div 2 < 2 * 2 ^ ilog (n div 2)"
      using "1.IH" by auto
    with False show ?thesis by (simp add: ilog.simps [of n]) linarith
  qed
qed

lemma ilog_int: "0 < p \<Longrightarrow> 2 ^ ilog (nat p) \<le> p \<and> p < 2 * 2 ^ ilog (nat p)"
proof -
  assume p: "0 < p"
  then have "int (2 ^ ilog (nat p)) \<le> int (nat p)" "int (nat p) < int (2 * 2 ^ ilog (nat p))"
    using ilog_bounds [of "nat p"] by (simp_all only: of_nat_le_iff of_nat_less_iff)
  with p show ?thesis by simp
qed

lemma powi_div: "e \<le> k \<Longrightarrow> (2 :: rat) powi k / 2 powi e = of_int (2 ^ nat (k - e))"
proof -
  assume "e \<le> k"
  have "(2 :: rat) powi k / 2 powi e = 2 powi (k - e)" by (simp add: power_int_diff)
  also have "\<dots> = 2 ^ nat (k - e)" using \<open>e \<le> k\<close> by (simp add: power_int_def)
  finally show ?thesis by simp
qed

lemma powi_mono: "i \<le> j \<Longrightarrow> (2 :: rat) powi i \<le> 2 powi j"
  by (intro power_int_increasing) simp_all

lemma powi_strict: "(2 :: rat) powi i < 2 powi j \<longleftrightarrow> i < j"
  by (metis leD leI less_le one_less_numeral_iff power_int_strict_increasing powi_mono semiring_norm(76))

lemma powi_pos [simp]: "0 < (2 :: rat) powi i"
  by simp

lemma ilog2_bounds:
  assumes "0 < x"
  shows "2 powi ilog2 x \<le> x" "x < 2 powi (ilog2 x + 1)"
proof -
  obtain p q where pq: "quotient_of x = (p, q)" by fastforce
  then have x: "x = of_int p / of_int q" and q: "0 < q"
    by (auto simp: quotient_of_div quotient_of_denom_pos)
  then have p: "0 < p" using assms by (simp add: zero_less_divide_iff)
  let ?a = "int (ilog (nat p))" and ?b = "int (ilog (nat q))"
  have ip: "2 ^ ilog (nat p) \<le> p" "p < 2 * 2 ^ ilog (nat p)"
    "2 ^ ilog (nat q) \<le> q" "q < 2 * 2 ^ ilog (nat q)"
    using p q ilog_int by simp_all
  have b: "(2 :: rat) powi ?a \<le> of_int p" "of_int p < (2 :: rat) * 2 powi ?a"
    "(2 :: rat) powi ?b \<le> of_int q" "of_int q < (2 :: rat) * 2 powi ?b"
    using ip by (simp_all only: power_int_of_nat of_int_le_iff [symmetric, where 'a = rat]
        of_int_less_iff [symmetric, where 'a = rat] of_int_power of_int_mult of_int_numeral)
  have qpos: "(0 :: rat) < of_int q" using q by simp
  have ab: "(2 :: rat) powi (?a - ?b) = 2 powi ?a / 2 powi ?b"
    by (simp add: power_int_diff)
  have up: "x < 2 powi (?a - ?b + 1)"
  proof -
    have "x < (2 * 2 powi ?a) / of_int q"
      unfolding x using b(2) qpos by (simp add: divide_strict_right_mono)
    also have "\<dots> \<le> (2 * 2 powi ?a) / 2 powi ?b"
      using b(3) qpos by (intro divide_left_mono) simp_all
    also have "\<dots> = 2 powi (?a - ?b + 1)" by (simp add: power_int_diff power_int_add)
    finally show ?thesis .
  qed
  have lo: "2 powi (?a - ?b - 1) \<le> x"
  proof -
    have "(2 :: rat) powi (?a - ?b - 1) = 2 powi ?a / (2 * 2 powi ?b)"
      by (simp add: power_int_diff)
    also have "\<dots> \<le> 2 powi ?a / of_int q"
      using b(4) qpos by (intro divide_left_mono) simp_all
    also have "\<dots> \<le> x"
      unfolding x using b(1) qpos by (simp add: divide_right_mono)
    finally show ?thesis .
  qed
  have "ilog2 x = (if 2 powi (?a - ?b) \<le> x then ?a - ?b else ?a - ?b - 1)"
    by (simp add: ilog2_def pq Let_def)
  with up lo show "2 powi ilog2 x \<le> x" "x < 2 powi (ilog2 x + 1)"
    by (auto simp: not_le split: if_splits)
qed

lemma ilog2_mono:
  assumes "0 < x" "x \<le> y"
  shows "ilog2 x \<le> ilog2 y"
proof -
  have "(2 :: rat) powi ilog2 x < 2 powi (ilog2 y + 1)"
    using ilog2_bounds(1) [OF assms(1)] ilog2_bounds(2) [of y] assms by linarith
  then show ?thesis by (simp add: powi_strict)
qed

lemma round_even_near: "floor x \<le> round_even x" "round_even x \<le> floor x + 1"
  by (auto simp: round_even_def Let_def)

lemma round_even_mono:
  assumes "x \<le> y"
  shows "round_even x \<le> round_even y"
proof (cases "floor x = floor y")
  case True
  with assms show ?thesis by (auto simp: round_even_def Let_def)
next
  case False
  with assms have "floor x + 1 \<le> floor y" using floor_mono [OF assms] by linarith
  then show ?thesis using round_even_near(2) [of x] round_even_near(1) [of y] by linarith
qed

lemma round_even_int [simp]: "round_even (of_int n) = n"
  by (simp add: round_even_def)

lemma round_finite_ge_power:
  assumes "0 < x" "2 powi k \<le> x" "lsb_exp x \<le> k"
  shows "2 powi k \<le> round_finite x"
proof -
  let ?e = "lsb_exp x"
  have "(2 :: rat) powi k / 2 powi ?e = of_int (2 ^ nat (k - ?e))"
    using assms(3) by (rule powi_div)
  then have "of_int (2 ^ nat (k - ?e)) \<le> x / 2 powi ?e"
    using assms(2) by (metis divide_right_mono less_imp_le powi_pos)
  then have "2 ^ nat (k - ?e) \<le> round_even (x / 2 powi ?e)"
    using round_even_mono by (metis round_even_int)
  then have "of_int (2 ^ nat (k - ?e)) * 2 powi ?e \<le> of_int (round_even (x / 2 powi ?e)) * (2 :: rat) powi ?e"
    by (intro mult_right_mono) (simp_all only: of_int_le_iff, simp)
  then show ?thesis
    using assms(1) \<open>2 powi k / 2 powi ?e = of_int (2 ^ nat (k - ?e))\<close>
    by (simp add: round_finite_def field_simps)
qed

lemma round_finite_le_power:
  assumes "0 < x" "x \<le> 2 powi k" "lsb_exp x \<le> k"
  shows "round_finite x \<le> 2 powi k"
proof -
  let ?e = "lsb_exp x"
  have "(2 :: rat) powi k / 2 powi ?e = of_int (2 ^ nat (k - ?e))"
    using assms(3) by (rule powi_div)
  then have "x / 2 powi ?e \<le> of_int (2 ^ nat (k - ?e))"
    using assms(2) by (metis divide_right_mono less_imp_le powi_pos)
  then have "round_even (x / 2 powi ?e) \<le> 2 ^ nat (k - ?e)"
    using round_even_mono by (metis round_even_int)
  then have "of_int (round_even (x / 2 powi ?e)) * (2 :: rat) powi ?e \<le> of_int (2 ^ nat (k - ?e)) * 2 powi ?e"
    by (intro mult_right_mono) (simp_all only: of_int_le_iff, simp)
  then show ?thesis
    using assms(1) \<open>2 powi k / 2 powi ?e = of_int (2 ^ nat (k - ?e))\<close>
    by (simp add: round_finite_def field_simps)
qed

lemma round_finite_mono:
  assumes "0 \<le> x" "x \<le> y"
  shows "round_finite x \<le> round_finite y"
proof (cases "x = 0")
  case True
  have "0 \<le> round_even (y / 2 powi lsb_exp y)"
    using round_even_mono [of "of_int 0" "y / 2 powi lsb_exp y"] assms True
    by (simp only: round_even_int) simp
  with True show ?thesis by (simp add: round_finite_def)
next
  case False
  with assms have x: "0 < x" "0 < y" by auto
  have l: "ilog2 x \<le> ilog2 y" by (rule ilog2_mono [OF x(1) assms(2)])
  show ?thesis
  proof (cases "lsb_exp x = lsb_exp y")
    case True
    have "x / 2 powi lsb_exp x \<le> y / 2 powi lsb_exp x"
      using assms(2) by (simp add: divide_right_mono)
    from round_even_mono [OF this] x True show ?thesis
      by (simp add: round_finite_def mult_right_mono)
  next
    case ne: False
    then have e: "lsb_exp x < lsb_exp y" "lsb_exp y = ilog2 y - 52"
      using l x by (auto simp: lsb_exp_def)
    then have lt: "ilog2 x < ilog2 y" using x l by (auto simp: lsb_exp_def)
    have "x \<le> 2 powi ilog2 y"
      using ilog2_bounds(2) [OF x(1)] powi_mono [of "ilog2 x + 1" "ilog2 y"] lt by linarith
    then have "round_finite x \<le> 2 powi ilog2 y"
      using x(1) e by (intro round_finite_le_power) linarith+
    also have "\<dots> \<le> round_finite y"
      using x(2) ilog2_bounds(1) [OF x(2)] e by (intro round_finite_ge_power) linarith+
    finally show ?thesis .
  qed
qed

lemma round_finite_0 [simp]: "round_finite 0 = 0"
  by (simp add: round_finite_def)

lemma rnd_mono:
  assumes "0 \<le> x" "x \<le> y"
  shows "fle (rnd x) (rnd y)"
  using round_finite_mono [OF assms] round_finite_mono [of 0 x] assms
  by (auto simp: rnd_def Let_def)

lemma rnd_nonneg: "0 \<le> x \<Longrightarrow> fle (Fin 0) (rnd x)"
  using rnd_mono [of 0 x] by (simp add: rnd_def)

lemma rnd_not_nan: "rnd x \<noteq> NaN"
  by (simp add: rnd_def Let_def)

text \<open>The values a float64 variable can hold.\<close>

fun is_f64 :: "f64 \<Rightarrow> bool" where
  "is_f64 (Fin x) = (rnd x = Fin x)"
| "is_f64 _ = True"

lemma fadd_ge:
  assumes "is_f64 x" "fle (Fin 0) x" "fle (Fin 0) y" "y \<noteq> PInf"
  shows "fle x (fadd x y)"
proof (cases x; cases y)
  fix a b assume xy: "x = Fin a" "y = Fin b"
  with assms have "fle (rnd a) (rnd (a + b))" by (intro rnd_mono) simp_all
  with xy assms show ?thesis by simp
qed (use assms in auto)

text \<open>Integers of at most 53 bits are represented exactly.\<close>

lemma round_finite_int:
  assumes "0 < n" "n < 2 ^ 53"
  shows "round_finite (of_int n) = of_int n"
proof -
  have pos: "(0 :: rat) < of_int n" using assms(1) by simp
  have "(of_int n :: rat) < of_int (2 ^ 53)" using assms(2) by (simp only: of_int_less_iff)
  then have "(of_int n :: rat) < 2 powi 53" by simp
  with ilog2_bounds(1) [OF pos] have "(2 :: rat) powi ilog2 (of_int n) < 2 powi 53" by linarith
  then have "ilog2 (of_int n) < 53" by (simp only: powi_strict)
  then have e: "lsb_exp (of_int n) \<le> 0" using assms(1) by (simp add: lsb_exp_def)
  let ?e = "lsb_exp (of_int n)"
  have "(of_int n :: rat) / 2 powi ?e = of_int (n * 2 ^ nat (- ?e))"
    using powi_div [OF e] by (simp add: field_simps)
  then have "round_even (of_int n / 2 powi ?e) = n * 2 ^ nat (- ?e)"
    by (metis round_even_int)
  then have "round_finite (of_int n) = of_int (n * 2 ^ nat (- ?e)) * 2 powi ?e"
    using assms(1) by (simp add: round_finite_def)
  also have "\<dots> = of_int n"
    using \<open>of_int n / 2 powi ?e = of_int (n * 2 ^ nat (- ?e))\<close> by (simp add: field_simps)
  finally show ?thesis .
qed

lemma rnd_int:
  assumes "0 \<le> n" "n < 2 ^ 53"
  shows "rnd (of_int n) = Fin (of_int n)"
proof -
  have r: "round_finite (of_int n) = of_int n"
    using assms round_finite_int [of n] by (cases "n = 0") simp_all
  have "(of_int n :: rat) < of_int (2 ^ 53)" using assms(2) by (simp only: of_int_less_iff)
  also have "\<dots> = 2 powi 53" by simp
  also have "\<dots> < 2 powi 1024" by (simp only: powi_strict)
  finally show ?thesis using r assms(1) by (simp add: rnd_def)
qed

lemma rnd_nat [simp]: "rnd 0 = Fin 0" "rnd 1 = Fin 1"
  using rnd_int [of 0] rnd_int [of 1] by simp_all

lemma rnd_numeral: "(numeral k :: int) < 2 ^ 53 \<Longrightarrow> rnd (numeral k) = Fin (numeral k)"
  using rnd_int [of "numeral k"] by simp

lemma rnd_le_int: "0 \<le> x \<Longrightarrow> x \<le> of_int n \<Longrightarrow> n < 2 ^ 53 \<Longrightarrow> fle (rnd x) (Fin (of_int n))"
  using rnd_mono [of x "of_int n"] rnd_int [of n] by (metis of_int_0_le_iff order_trans)

end
