(* ===== verification/Selection.thy ===== *)
theory Selection
  imports GoFloat
begin

text \<open>
  SelectCandidate of internal/core/provider/selection.go: the cheapest known cost, then domestic
  paid candidates, then soon-to-expire balances, then a weighted draw. \<open>draw\<close> is the value of
  \<open>rand.Float64()\<close>, at least 0 and below 1. The result None is the panic of indexing the last
  element of an empty group.
\<close>

record candidate =
  c_ID :: string
  c_Domestic :: bool
  c_International :: bool
  c_Cost :: "f64 option"
  c_Remaining :: "f64 option"
  c_Total :: "f64 option"
  c_ExpiryDays :: f64
  c_ExpiringAmount :: f64
  c_Priority :: int
  c_Failures :: int
  c_LastUsed :: f64

definition the_cost :: "candidate \<Rightarrow> f64" where
  "the_cost c = (case c_Cost c of None \<Rightarrow> NaN | Some v \<Rightarrow> v)"

definition validCost :: "candidate \<Rightarrow> bool" where
  "validCost c = (case c_Cost c of None \<Rightarrow> False
     | Some v \<Rightarrow> fle (Fin 0) v \<and> \<not> isNaN v \<and> \<not> isInf v)"

definition cost_eps :: f64 where
  "cost_eps = lit (1 / 10 ^ 9)"

definition min_cost :: "candidate list \<Rightarrow> f64" where
  "min_cost grp =
    foldl (\<lambda>m c. if validCost c \<and> flt (the_cost c) m then the_cost c else m) PInf grp"

definition cheapest :: "candidate list \<Rightarrow> candidate list" where
  "cheapest grp =
    (let m = min_cost grp
     in if m \<noteq> PInf
        then filter (\<lambda>c. validCost c \<and> fle (the_cost c) (fadd m cost_eps)) grp else grp)"

definition prefer_domestic :: "candidate list \<Rightarrow> candidate list" where
  "prefer_domestic grp =
    (let domestic = filter (\<lambda>c. validCost c \<and> fpos (the_cost c) \<and> c_Domestic c) grp
     in if domestic \<noteq> [] then domestic else grp)"

definition cost_group :: "bool \<Rightarrow> candidate list \<Rightarrow> candidate list" where
  "cost_group costAware grp =
    (if costAware then prefer_domestic (cheapest grp) else grp)"

definition urgent :: "f64 \<Rightarrow> candidate list \<Rightarrow> candidate list" where
  "urgent windowDays grp = filter (\<lambda>c. fle (c_ExpiryDays c) windowDays) grp"

definition max_expiring :: "candidate list \<Rightarrow> f64" where
  "max_expiring grp =
    foldl (\<lambda>m c. if flt m (c_ExpiringAmount c) then c_ExpiringAmount c else m) (Fin 0) grp"

text \<open>The loop that compares the costs of the grp with its first one.\<close>

record tie_state =
  ts_domestic :: bool
  ts_foreign :: bool
  ts_sameCost :: bool
  ts_reference :: f64

definition tie_step :: "tie_state \<Rightarrow> nat \<times> candidate \<Rightarrow> tie_state" where
  "tie_step s ic =
    (let (i, c) = ic;
         s = (if \<not> validCost c then s\<lparr>ts_sameCost := False\<rparr>
              else if i = 0 then s\<lparr>ts_reference := the_cost c\<rparr>
              else if flt cost_eps (fabs (fsub (the_cost c) (ts_reference s)))
                   then s\<lparr>ts_sameCost := False\<rparr>
              else s)
     in if c_Domestic c then s\<lparr>ts_domestic := True\<rparr>
        else if c_International c then s\<lparr>ts_foreign := True\<rparr> else s)"

definition tie :: "bool \<Rightarrow> candidate list \<Rightarrow> tie_state" where
  "tie costAware grp =
    foldl tie_step \<lparr>ts_domestic = False, ts_foreign = False, ts_sameCost = costAware,
      ts_reference = Fin 0\<rparr> (enumerate 0 grp)"

definition balance_factor :: "candidate \<Rightarrow> f64" where
  "balance_factor c =
    (case c_Total c of None \<Rightarrow> Fin 1
     | Some tot \<Rightarrow>
         if feq tot (Fin 0) then Fin 1
         else
           let remain = (case c_Remaining c of None \<Rightarrow> Fin 0
                         | Some r \<Rightarrow> if flt (Fin 0) r then r else Fin 0)
           in fadd (Fin (1/2)) (fdiv (fmul (Fin (1/2)) remain) tot))"

definition expiry_factor :: "candidate \<Rightarrow> f64" where
  "expiry_factor c =
    (if fle (c_ExpiryDays c) (Fin 1) then Fin 8
     else if fle (c_ExpiryDays c) (Fin 3) then Fin 6
     else if fle (c_ExpiryDays c) (Fin 7) then Fin 4
     else if fle (c_ExpiryDays c) (Fin 30) then Fin 2 else Fin 1)"

definition idle_factor :: "bool \<Rightarrow> f64 \<Rightarrow> candidate \<Rightarrow> f64" where
  "idle_factor applyIdle now c =
    (if applyIdle then
       let hours = (if flt (Fin 0) (c_LastUsed c)
                    then fdiv (fsub now (c_LastUsed c)) (Fin 3600) else Fin 0)
       in fmin (fadd (Fin 1) (fmul hours (lit (3/10)))) (Fin 3)
     else Fin 1)"

definition candidate_weight ::
    "bool \<Rightarrow> f64 \<Rightarrow> f64 \<Rightarrow> tie_state \<Rightarrow> candidate \<Rightarrow> f64" where
  "candidate_weight applyIdle now maxExpiring t c =
    (let w = fmul (fdiv (fmul (fmul (of_count (1 + max (c_Priority c) 0)) (balance_factor c))
                              (expiry_factor c))
                        (fadd (Fin 1) (of_count (c_Failures c))))
                  (idle_factor applyIdle now c);
         w = (if ts_sameCost t \<and> ts_domestic t \<and> ts_foreign t \<and> c_Domestic c
              then fmul w (Fin (5/4)) else w);
         w = (if fpos maxExpiring
              then fmul w (fadd (Fin 1) (fdiv (fmul (Fin 2) (c_ExpiringAmount c)) maxExpiring))
              else w)
     in if flt w (Fin 0) \<or> isNaN w \<or> isInf w then Fin 1 else w)"

text \<open>The draw: the first index at which the running difference is not positive.\<close>

fun draw_index :: "f64 \<Rightarrow> f64 list \<Rightarrow> nat option" where
  "draw_index pick [] = None"
| "draw_index pick (w # ws) =
    (let pick = fsub pick w
     in if fle pick (Fin 0) then Some 0 else map_option Suc (draw_index pick ws))"

definition window_of :: "f64 \<Rightarrow> f64" where
  "window_of w = (if fle w (Fin 0) then Fin 7 else w)"

definition select_group :: "candidate list \<Rightarrow> bool \<Rightarrow> f64 \<Rightarrow> candidate list" where
  "select_group candidates costAware windowDays =
    (let grp = cost_group costAware candidates;
         u = urgent (window_of windowDays) grp
     in if u = [] then grp else u)"

definition select_weights :: "candidate list \<Rightarrow> bool \<Rightarrow> f64 \<Rightarrow> f64 \<Rightarrow> f64 list" where
  "select_weights candidates costAware windowDays now =
    (let applyIdle = (urgent (window_of windowDays) (cost_group costAware candidates) = []);
         grp = select_group candidates costAware windowDays;
         maxExpiring = (if applyIdle then Fin 0 else max_expiring grp)
     in map (candidate_weight applyIdle now maxExpiring (tie costAware grp)) grp)"

definition SelectCandidate ::
    "candidate list \<Rightarrow> bool \<Rightarrow> f64 \<Rightarrow> f64 \<Rightarrow> f64 \<Rightarrow> string option" where
  "SelectCandidate candidates costAware windowDays now draw =
    (if candidates = [] then Some []
     else
       let grp = select_group candidates costAware windowDays;
           weights = select_weights candidates costAware windowDays now;
           tot = foldl fadd (Fin 0) weights
       in case draw_index (fmul draw tot) weights of
            Some i \<Rightarrow> Some (c_ID (grp ! i))
          | None \<Rightarrow> if grp = [] then None else Some (c_ID (last grp)))"

subsection \<open>The groups\<close>

lemma validCost_bounds: "validCost c \<Longrightarrow> fle (Fin 0) (the_cost c) \<and> flt (the_cost c) PInf"
  by (cases "the_cost c") (auto simp: validCost_def the_cost_def isNaN_def isInf_def split: option.splits)

lemma min_cost_fold:
  assumes "m \<noteq> NaN"
  shows "foldl (\<lambda>m c. if validCost c \<and> flt (the_cost c) m then the_cost c else m) m cs = m \<and>
      (\<forall>c \<in> set cs. validCost c \<longrightarrow> fle m (the_cost c)) \<or>
    (\<exists>c \<in> set cs. validCost c \<and> flt (the_cost c) m \<and>
      foldl (\<lambda>m c. if validCost c \<and> flt (the_cost c) m then the_cost c else m) m cs = the_cost c \<and>
      (\<forall>d \<in> set cs. validCost d \<longrightarrow> fle (the_cost c) (the_cost d)))"
  using assms
proof (induction cs arbitrary: m)
  case (Cons c cs)
  let ?m = "if validCost c \<and> flt (the_cost c) m then the_cost c else m"
  have nn: "?m \<noteq> NaN" using Cons.prems flt_not_nan by auto
  have c: "validCost c \<Longrightarrow> fle ?m (the_cost c)" "fle ?m m"
    using Cons.prems validCost_bounds [of c] fle_not_nan not_flt flt_iff by auto
  from Cons.IH [OF nn] show ?case
  proof
    assume "foldl (\<lambda>m c. if validCost c \<and> flt (the_cost c) m then the_cost c else m) ?m cs = ?m \<and>
      (\<forall>c \<in> set cs. validCost c \<longrightarrow> fle ?m (the_cost c))"
    then show ?thesis using c by (auto split: if_splits)
  next
    assume "\<exists>d \<in> set cs. validCost d \<and> flt (the_cost d) ?m \<and>
      foldl (\<lambda>m c. if validCost c \<and> flt (the_cost c) m then the_cost c else m) ?m cs = the_cost d \<and>
      (\<forall>e \<in> set cs. validCost e \<longrightarrow> fle (the_cost d) (the_cost e))"
    then obtain d where d: "d \<in> set cs" "validCost d" "flt (the_cost d) ?m"
      "foldl (\<lambda>m c. if validCost c \<and> flt (the_cost c) m then the_cost c else m) ?m cs = the_cost d"
      "\<forall>e \<in> set cs. validCost e \<longrightarrow> fle (the_cost d) (the_cost e)" by blast
    have "flt (the_cost d) m" using d(3) c(2) flt_fle_trans by blast
    moreover have "validCost c \<Longrightarrow> fle (the_cost d) (the_cost c)"
      using d(3) c(1) flt_fle_trans flt_iff by blast
    ultimately show ?thesis using d by auto
  qed
qed simp

lemma min_cost_cases:
  "min_cost cs = PInf \<and> (\<forall>c \<in> set cs. \<not> validCost c) \<or>
   (\<exists>c \<in> set cs. validCost c \<and> min_cost cs = the_cost c \<and>
     (\<forall>d \<in> set cs. validCost d \<longrightarrow> fle (the_cost c) (the_cost d)))"
proof -
  have "\<not> fle PInf (the_cost c)" if "validCost c" for c
    using validCost_bounds [OF that] by (cases "the_cost c") auto
  then show ?thesis
    using min_cost_fold [of PInf cs] unfolding min_cost_def by auto
qed

lemma cost_eps_value: "fle (Fin 0) cost_eps" "cost_eps \<noteq> PInf"
proof -
  show "fle (Fin 0) cost_eps" by (simp add: cost_eps_def lit_def rnd_nonneg)
  have "fle cost_eps (Fin 1)" using rnd_mono [of "1 / 10 ^ 9" 1] by (simp add: cost_eps_def lit_def)
  then show "cost_eps \<noteq> PInf" by auto
qed
text \<open>The costs of candidates are float64 values.\<close>

definition costs_f64 :: "candidate list \<Rightarrow> bool" where
  "costs_f64 cs = (\<forall>c \<in> set cs. is_f64 (the_cost c))"

text \<open>A candidate that is as cheap as any other one, up to the tolerance.\<close>

definition cheap :: "candidate list \<Rightarrow> candidate \<Rightarrow> bool" where
  "cheap cs c = (validCost c \<and>
     (\<forall>d \<in> set cs. validCost d \<longrightarrow> fle (the_cost c) (fadd (the_cost d) cost_eps)))"

definition domestic_paid :: "candidate \<Rightarrow> bool" where
  "domestic_paid c = (validCost c \<and> fpos (the_cost c) \<and> c_Domestic c)"

definition eligible :: "bool \<Rightarrow> candidate list \<Rightarrow> candidate \<Rightarrow> bool" where
  "eligible costAware cs c =
    (costAware \<longrightarrow>
      ((\<exists>d \<in> set cs. validCost d) \<longrightarrow> cheap cs c) \<and>
      ((\<exists>d \<in> set cs. cheap cs d \<and> domestic_paid d) \<longrightarrow> domestic_paid c))"

lemma fadd_eps_mono:
  assumes "fle (Fin 0) x" "fle x y" "flt y PInf"
  shows "fle (fadd x cost_eps) (fadd y cost_eps)"
proof -
  have "\<exists>e. cost_eps = Fin e \<and> 0 \<le> e"
  proof (cases cost_eps)
    case (Fin e)
    then show ?thesis using cost_eps_value(1) unfolding Fin by simp
  qed (use cost_eps_value in auto)
  then obtain e where e: "cost_eps = Fin e" "0 \<le> e" by blast
  from assms obtain a b where "x = Fin a" "y = Fin b" "0 \<le> a" "a \<le> b"
    by (cases x; cases y) auto
  with e(2) show ?thesis unfolding e(1) by (simp add: rnd_mono)
qed

lemma cheap_iff_min:
  assumes "\<exists>d \<in> set cs. validCost d"
  shows "cheap cs c \<longleftrightarrow> validCost c \<and> fle (the_cost c) (fadd (min_cost cs) cost_eps)"
proof -
  obtain m where m: "m \<in> set cs" "validCost m" "min_cost cs = the_cost m"
    "\<forall>d \<in> set cs. validCost d \<longrightarrow> fle (the_cost m) (the_cost d)"
    using min_cost_cases [of cs] assms by blast
  have "fle (fadd (the_cost m) cost_eps) (fadd (the_cost d) cost_eps)"
    if "d \<in> set cs" "validCost d" for d
    using that m validCost_bounds by (intro fadd_eps_mono) auto
  then show ?thesis
    unfolding cheap_def m(3) using m(1,2) fle_trans by blast
qed

lemma set_cheapest:
  "set (cheapest cs) = {c \<in> set cs. (\<exists>d \<in> set cs. validCost d) \<longrightarrow> cheap cs c}"
proof (cases "\<exists>d \<in> set cs. validCost d")
  case True
  then have "min_cost cs \<noteq> PInf"
    using min_cost_cases [of cs] validCost_bounds by fastforce
  with True show ?thesis
    by (auto simp: cheapest_def Let_def cheap_iff_min [OF True])
next
  case False
  then have "min_cost cs = PInf" using min_cost_cases [of cs] by blast
  with False show ?thesis by (simp add: cheapest_def Let_def)
qed

lemma set_prefer_domestic:
  "set (prefer_domestic cs) = {c \<in> set cs. (\<exists>d \<in> set cs. domestic_paid d) \<longrightarrow> domestic_paid c}"
  by (auto simp: prefer_domestic_def domestic_paid_def filter_empty_conv Let_def)

lemma set_cost_group: "set (cost_group costAware cs) = {c \<in> set cs. eligible costAware cs c}"
proof -
  have "cheap cs d \<or> \<not> (\<exists>d \<in> set cs. validCost d)" if "domestic_paid d" "d \<in> set (cheapest cs)" for d
    using that by (auto simp: set_cheapest)
  moreover have "cheap cs d \<Longrightarrow> validCost d" "domestic_paid d \<Longrightarrow> validCost d" for d
    by (simp_all add: cheap_def domestic_paid_def)
  ultimately show ?thesis
    unfolding cost_group_def eligible_def
    by (auto simp: set_prefer_domestic set_cheapest)
qed

lemma cost_group_nonempty:
  assumes "cs \<noteq> []" "costs_f64 cs"
  shows "cost_group costAware cs \<noteq> []"
proof -
  have "cheapest cs \<noteq> []"
  proof (cases "\<exists>d \<in> set cs. validCost d")
    case True
    then obtain m where m: "m \<in> set cs" "validCost m" "min_cost cs = the_cost m"
      using min_cost_cases [of cs] by blast
    have "fle (the_cost m) (fadd (the_cost m) cost_eps)"
      using m assms(2) validCost_bounds [of m] cost_eps_value
      by (intro fadd_ge) (auto simp: costs_f64_def)
    then have "cheap cs m" using m by (simp add: cheap_iff_min [OF True])
    with m(1) show ?thesis using set_cheapest [of cs] by force
  next
    case False
    then have "set (cheapest cs) = set cs" by (auto simp: set_cheapest)
    with assms(1) show ?thesis by (metis set_empty)
  qed
  then have "prefer_domestic (cheapest cs) \<noteq> []" by (simp add: prefer_domestic_def Let_def)
  with assms(1) show ?thesis by (simp add: cost_group_def)
qed

lemma select_group_props:
  assumes "c \<in> set (select_group cs costAware w)"
  shows "c \<in> set cs" "eligible costAware cs c"
    "(\<exists>d \<in> set cs. eligible costAware cs d \<and> fle (c_ExpiryDays d) (window_of w)) \<Longrightarrow>
     fle (c_ExpiryDays c) (window_of w)"
  using assms set_cost_group [of costAware cs]
  by (auto simp: select_group_def urgent_def window_of_def Let_def filter_empty_conv split: if_splits)

lemma select_group_nonempty:
  "cs \<noteq> [] \<Longrightarrow> costs_f64 cs \<Longrightarrow> select_group cs costAware w \<noteq> []"
  using cost_group_nonempty by (auto simp: select_group_def Let_def)

lemma draw_index_range: "draw_index pick ws = Some i \<Longrightarrow> i < length ws"
proof (induction ws arbitrary: pick i)
  case (Cons w ws)
  then show ?case by (auto simp: Let_def split: if_splits)
qed simp

lemma select_candidate_ok:
  assumes "cs \<noteq> []" "costs_f64 cs"
  shows "\<exists>c \<in> set cs. SelectCandidate cs costAware w now draw = Some (c_ID c) \<and>
    eligible costAware cs c \<and>
    ((\<exists>d \<in> set cs. eligible costAware cs d \<and> fle (c_ExpiryDays d) (window_of w)) \<longrightarrow>
     fle (c_ExpiryDays c) (window_of w))"
proof -
  let ?g = "select_group cs costAware w" and ?ws = "select_weights cs costAware w now"
  have g: "?g \<noteq> []" by (rule select_group_nonempty [OF assms])
  have len: "length ?ws = length ?g" by (simp add: select_weights_def Let_def)
  have "\<exists>c \<in> set ?g. SelectCandidate cs costAware w now draw = Some (c_ID c)"
    using g len draw_index_range [of _ ?ws] assms(1)
    by (auto simp: SelectCandidate_def Let_def split: option.split)
  then show ?thesis using select_group_props by blast
qed

text \<open>C10. The selection policy: for any draw, SelectCandidate returns the identifier of a candidate
  (it never indexes an empty group), which is as cheap as every candidate of known cost up to
  the tolerance when any cost is known, a domestic paid candidate when one of the cheapest is,
  and expires within the window when any candidate left by those two rules does.\<close>

theorem select_candidate_policy:
  assumes "cs \<noteq> []" "costs_f64 cs"
  shows "\<exists>c \<in> set cs. SelectCandidate cs costAware w now draw = Some (c_ID c) \<and>
    eligible costAware cs c \<and>
    ((\<exists>d \<in> set cs. eligible costAware cs d \<and> fle (c_ExpiryDays d) (window_of w)) \<longrightarrow>
     fle (c_ExpiryDays c) (window_of w))"
  by (rule select_candidate_ok [OF assms])

definition example_candidates :: "candidate list" where
  "example_candidates =
    (let c = \<lparr>c_ID = ''a'', c_Domestic = False, c_International = True, c_Cost = Some (Fin 2),
              c_Remaining = None, c_Total = None, c_ExpiryDays = PInf, c_ExpiringAmount = Fin 0,
              c_Priority = 0, c_Failures = 0, c_LastUsed = Fin 0\<rparr>
     in [c, c\<lparr>c_ID := ''b'', c_Cost := Some (Fin 1), c_Domestic := True, c_International := False\<rparr>])"

theorem select_candidate_policy_witness:
  "SelectCandidate example_candidates True (Fin 0) (Fin 0) (Fin 0) \<noteq> None"
proof -
  have "example_candidates \<noteq> []" "costs_f64 example_candidates"
    by (auto simp: example_candidates_def costs_f64_def the_cost_def rnd_numeral)
  from select_candidate_policy [OF this, of True "Fin 0" "Fin 0" "Fin 0"] show ?thesis by auto
qed

text \<open>Every weight of the rotation is a finite number that is not negative, so no candidate of the
  group can poison the draw: overflows, NaN from broken balances and negative idle times all
  count as weight one.\<close>

theorem select_weights_finite:
  "length (select_weights cs costAware w now) = length (select_group cs costAware w) \<and>
   list_all (\<lambda>x. \<exists>q. x = Fin q \<and> 0 \<le> q) (select_weights cs costAware w now)"
proof -
  have "\<exists>q. candidate_weight ai n m t c = Fin q \<and> 0 \<le> q" for ai n m t c
  proof -
    have sanitised: "\<exists>q. (if flt x (Fin 0) \<or> isNaN x \<or> isInf x then Fin 1 else x) = Fin q \<and> 0 \<le> q" for x
      by (cases x) (auto simp: isNaN_def isInf_def)
    show ?thesis unfolding candidate_weight_def Let_def by (rule sanitised)
  qed
  then show ?thesis by (auto simp: select_weights_def Let_def list_all_iff)
qed

end
