(* ===== verification/SiteRouting.thy ===== *)
theory SiteRouting
  imports Prelude
begin

text \<open>
  The choice of the upstream endpoint of a credential, internal/workbuddy/siterouting: four
  profiles (region and product), the allowlist of their endpoints, the validation of host hints
  and the resolution of a credential's hints. \<open>net/url.Parse\<close>, the base64 decoder and the JSON
  decoder are parameters (\<open>parse\<close>, \<open>b64\<close>, \<open>iss\<close>): what is proved about the endpoints holds for
  every behaviour of theirs.
\<close>

subsection \<open>Profiles\<close>

datatype site_error = ErrInvalidHint | ErrConflict | ErrProductConflict | ErrUnknownProfile

definition Domestic :: string where "Domestic = ''domestic''"
definition International :: string where "International = ''international''"
definition DefaultProfile :: string where "DefaultProfile = ''cn-cli''"

definition profileEndpoints :: "string \<rightharpoonup> string" where
  "profileEndpoints =
    [''cn-cli'' \<mapsto> ''https://copilot.tencent.com'', ''cn-work'' \<mapsto> ''https://www.workbuddy.cn'',
     ''intl-cli'' \<mapsto> ''https://www.codebuddy.ai'', ''intl-work'' \<mapsto> ''https://www.workbuddy.ai'']"

definition domainProfiles :: "string \<rightharpoonup> string" where
  "domainProfiles =
    [''www.codebuddy.cn'' \<mapsto> ''cn-cli'', ''www.workbuddy.cn'' \<mapsto> ''cn-work'',
     ''copilot.tencent.com'' \<mapsto> ''cn-cli'', ''www.codebuddy.ai'' \<mapsto> ''intl-cli'',
     ''www.workbuddy.ai'' \<mapsto> ''intl-work'']"

text \<open>\<open>strings.SplitN(profile, "-", 2)[0]\<close> is the text before the first dash.\<close>

definition ProfileRegion :: "string \<Rightarrow> site_error + string" where
  "ProfileRegion profile =
    (if profileEndpoints profile = None then Inl ErrUnknownProfile
     else Inr (takeWhile (\<lambda>c. c \<noteq> CHR ''-'') profile))"

definition ProfileProduct :: "string \<Rightarrow> site_error + string" where
  "ProfileProduct profile =
    (case ProfileRegion profile of
       Inl e \<Rightarrow> Inl e
     | Inr _ \<Rightarrow> if has_suffix profile ''-work'' then Inr ''workbuddy'' else Inr ''cli'')"

definition ProfileSite :: "string \<Rightarrow> string" where
  "ProfileSite profile =
    (if profile = ''qoder-cn'' then ''qoder-cn''
     else if profile = ''qoder-global'' then ''qoder-global''
     else case ProfileRegion profile of
            Inl _ \<Rightarrow> Domestic
          | Inr region \<Rightarrow> if region = ''intl'' then International else Domestic)"

subsection \<open>Host hints\<close>

text \<open>The parts of a parsed URL that the validation reads; \<open>Hostname()\<close> is \<open>Host\<close> less the port.\<close>

record parsed_url =
  u_Scheme :: string
  u_User :: bool
  u_Host :: string
  u_Hostname :: string
  u_Path :: string

text \<open>
  \<open>strings.EqualFold(s, t)\<close> for a \<open>t\<close> of lowercase ASCII letters and other ASCII characters: the
  simple case folding of Unicode maps to such a letter its capital, and beside those the long s
  (U+017F) to s and the Kelvin sign (U+212A) to k.
\<close>

fun equal_fold :: "string \<Rightarrow> string \<Rightarrow> bool" where
  "equal_fold s [] = (s = [])"
| "equal_fold s (d # t) =
    (case s of
       [] \<Rightarrow> False
     | c # s' \<Rightarrow>
         if ascii_lower c = d then equal_fold s' t
         else if d = CHR ''s'' \<and> has_prefix s (bytes [0xC5, 0xBF]) then equal_fold (drop 2 s) t
         else if d = CHR ''k'' \<and> has_prefix s (bytes [0xE2, 0x84, 0xAA]) then equal_fold (drop 3 s) t
         else False)"

text \<open>The checks that precede parsing: the trimmed text, with the scheme supplied.\<close>

definition contains_any :: "string \<Rightarrow> string \<Rightarrow> bool" where
  "contains_any s chars = (\<exists>c \<in> set s. c \<in> set chars)"

definition hint_text :: "string \<Rightarrow> string option" where
  "hint_text value =
    (if value = [] \<or> has_control value then None
     else
       let value = trim_space value
       in if value = [] \<or> contains_any value (CHR 0x5C # ''?#'') then None
          else Some (if contains value ''://'' then value else ''https://'' @ value))"

definition knownHost ::
    "(string \<Rightarrow> parsed_url option) \<Rightarrow> string \<Rightarrow> bool \<Rightarrow> site_error + string" where
  "knownHost parse value issuer =
    (case hint_text value of
       None \<Rightarrow> Inl ErrInvalidHint
     | Some raw \<Rightarrow>
         (case parse raw of
            None \<Rightarrow> Inl ErrInvalidHint
          | Some u \<Rightarrow>
              let host = u_Hostname u
              in if domainProfiles host = None then Inl ErrInvalidHint
                 else if u_User u then Inl ErrInvalidHint
                 else if \<not> equal_fold (u_Scheme u) ''https'' \<or> \<not> equal_fold (u_Host u) host \<or>
                         \<not> issuer \<and> u_Path u \<noteq> [] \<and> u_Path u \<noteq> ''/''
                      then Inl ErrInvalidHint
                 else Inr host))"

definition NormalizeDomain :: "(string \<Rightarrow> parsed_url option) \<Rightarrow> string \<Rightarrow> site_error + string" where
  "NormalizeDomain parse value = knownHost parse value False"

subsection \<open>Credentials\<close>

text \<open>A field of the auth blob: a string or a value of another type. A nil blob is the empty map.\<close>

datatype auth_value = AStr string | AOther

type_synonym auth = "string \<rightharpoonup> auth_value"

definition auth_str :: "auth \<Rightarrow> string \<Rightarrow> string" where
  "auth_str a key = (case a key of Some (AStr v) \<Rightarrow> v | _ \<Rightarrow> [])"

fun split_dot :: "string \<Rightarrow> string list" where
  "split_dot [] = [[]]"
| "split_dot (c # cs) =
    (if c = CHR ''.'' then [] # split_dot cs
     else case split_dot cs of [] \<Rightarrow> [[c]] | p # ps \<Rightarrow> (c # p) # ps)"

text \<open>\<open>b64\<close> decodes a padded base64url text, \<open>iss\<close> is the \<open>iss\<close> claim of a JSON object if it is a
  string; both are None on failure.\<close>

record decoders =
  d_parse :: "string \<Rightarrow> parsed_url option"
  d_b64 :: "string \<Rightarrow> string option"
  d_iss :: "string \<Rightarrow> string option"

definition tokenIssuer :: "decoders \<Rightarrow> string \<Rightarrow> string" where
  "tokenIssuer d token =
    (let parts = split_dot token
     in if count_list token (CHR ''.'') \<noteq> 2 then []
        else
          let payload = parts ! 1;
              pad = length payload mod 4;
              payload = (if pad \<noteq> 0 then payload @ replicate (4 - pad) (CHR ''='') else payload)
          in case d_b64 d payload of
               None \<Rightarrow> []
             | Some decoded \<Rightarrow> (case d_iss d decoded of None \<Rightarrow> [] | Some i \<Rightarrow> i))"

definition hints :: "decoders \<Rightarrow> auth \<Rightarrow> string \<times> string" where
  "hints d a =
    (let dom = auth_str a ''domain'';
         domain = (if dom = [] then []
                   else case NormalizeDomain (d_parse d) dom of Inl _ \<Rightarrow> [] | Inr h \<Rightarrow> h);
         i = tokenIssuer d (auth_str a ''accessToken'');
         issuer = (if i = [] then []
                   else case knownHost (d_parse d) i True of Inl _ \<Rightarrow> [] | Inr h \<Rightarrow> h)
     in (domain, issuer))"

definition host_profile :: "string \<Rightarrow> string" where
  "host_profile host = (case domainProfiles host of None \<Rightarrow> [] | Some p \<Rightarrow> p)"

text \<open>The one element of a set that a Go map is used as: the set has at most two.\<close>

definition hint_sites :: "string \<times> string \<Rightarrow> string list" where
  "hint_sites h =
    (case h of (domain, issuer) \<Rightarrow>
       remdups (map (\<lambda>host. ProfileSite (host_profile host))
         (filter (\<lambda>host. host \<noteq> []) [domain, issuer])))"

definition SiteForAuth :: "decoders \<Rightarrow> auth \<Rightarrow> site_error + string" where
  "SiteForAuth d a =
    (case hint_sites (hints d a) of
       [] \<Rightarrow> Inr Domestic
     | [s] \<Rightarrow> Inr s
     | _ \<Rightarrow> Inl ErrConflict)"

definition hint_profiles :: "string \<times> string \<Rightarrow> string list" where
  "hint_profiles h =
    (case h of (domain, issuer) \<Rightarrow>
       remdups (map host_profile
         (filter (\<lambda>host. host \<noteq> [] \<and> host \<noteq> ''copilot.tencent.com'') [domain, issuer])))"

definition ProfileForAuth :: "decoders \<Rightarrow> auth \<Rightarrow> site_error + string" where
  "ProfileForAuth d a =
    (case SiteForAuth d a of
       Inl e \<Rightarrow> Inl e
     | Inr _ \<Rightarrow>
         (case hint_profiles (hints d a) of
            [] \<Rightarrow> Inr DefaultProfile
          | [p] \<Rightarrow> Inr p
          | _ \<Rightarrow> Inl ErrProductConflict))"

definition EndpointForProfile :: "string \<Rightarrow> site_error + string" where
  "EndpointForProfile profile =
    (case profileEndpoints profile of None \<Rightarrow> Inl ErrUnknownProfile | Some ep \<Rightarrow> Inr ep)"

definition EndpointForAuth :: "decoders \<Rightarrow> auth \<Rightarrow> site_error + string" where
  "EndpointForAuth d a =
    (case ProfileForAuth d a of
       Inl e \<Rightarrow> Inl e
     | Inr p \<Rightarrow> Inr (case profileEndpoints p of None \<Rightarrow> [] | Some ep \<Rightarrow> ep))"

definition RefreshURLForAuth :: "decoders \<Rightarrow> auth \<Rightarrow> site_error + string" where
  "RefreshURLForAuth d a =
    (case ProfileForAuth d a of
       Inl e \<Rightarrow> Inl e
     | Inr p \<Rightarrow> Inr ((case profileEndpoints p of None \<Rightarrow> [] | Some ep \<Rightarrow> ep) @
                     ''/v2/plugin/auth/token/refresh''))"

definition DomainForAuth :: "decoders \<Rightarrow> auth \<Rightarrow> string" where
  "DomainForAuth d a =
    (case hints d a of (domain, issuer) \<Rightarrow>
       if domain \<noteq> [] then domain else if issuer \<noteq> [] then issuer else ''www.codebuddy.cn'')"

definition with_endpoint :: "string \<Rightarrow> (string \<Rightarrow> string) \<Rightarrow> site_error + string" where
  "with_endpoint profile f =
    (case EndpointForProfile profile of Inl e \<Rightarrow> Inl e | Inr ep \<Rightarrow> Inr (f ep))"

definition ChatURLForProfile :: "string \<Rightarrow> site_error + string" where
  "ChatURLForProfile profile = with_endpoint profile (\<lambda>ep. ep @ ''/v2/chat/completions'')"

definition CatalogURLForProfile :: "string \<Rightarrow> site_error + string" where
  "CatalogURLForProfile profile = with_endpoint profile (\<lambda>ep. ep @ ''/v3/config'')"

definition LegacyCatalogURLForProfile :: "string \<Rightarrow> site_error + string" where
  "LegacyCatalogURLForProfile profile =
    with_endpoint profile (\<lambda>ep.
      if has_prefix profile ''cn-'' then ep @ ''/console/enterprises/personal/models''
      else ep @ ''/v2/enterprises/personal/models'')"

subsection \<open>What the resolution guarantees\<close>

lemma knownHost_known: "knownHost parse v i = Inr h \<Longrightarrow> domainProfiles h \<noteq> None"
  by (auto simp: knownHost_def Let_def split: option.splits if_splits)

lemma domainProfiles_host: "domainProfiles h \<noteq> None \<longleftrightarrow>
    h \<in> {''www.codebuddy.cn'', ''www.workbuddy.cn'', ''copilot.tencent.com'', ''www.codebuddy.ai'',
         ''www.workbuddy.ai''}"
  by (auto simp: domainProfiles_def)

lemma hints_known:
  assumes "hints d a = (domain, issuer)"
  shows "(domain = [] \<or> domainProfiles domain \<noteq> None) \<and> (issuer = [] \<or> domainProfiles issuer \<noteq> None)"
  using assms
  by (auto simp: hints_def Let_def NormalizeDomain_def split: sum.splits if_splits dest: knownHost_known)

lemma host_profile_simps [simp]:
  "host_profile ''www.codebuddy.cn'' = ''cn-cli''" "host_profile ''www.workbuddy.cn'' = ''cn-work''"
  "host_profile ''copilot.tencent.com'' = ''cn-cli''" "host_profile ''www.codebuddy.ai'' = ''intl-cli''"
  "host_profile ''www.workbuddy.ai'' = ''intl-work''"
  by (simp_all add: host_profile_def domainProfiles_def)

lemma ProfileSite_simps [simp]:
  "ProfileSite ''cn-cli'' = Domestic" "ProfileSite ''cn-work'' = Domestic"
  "ProfileSite ''intl-cli'' = International" "ProfileSite ''intl-work'' = International"
  by (simp_all add: ProfileSite_def ProfileRegion_def profileEndpoints_def)

lemma site_neq [simp]: "Domestic \<noteq> International" "International \<noteq> Domestic"
  by (simp_all add: Domestic_def International_def)

lemma host_profile_known:
  "domainProfiles h \<noteq> None \<Longrightarrow> host_profile h \<in> {''cn-cli'', ''cn-work'', ''intl-cli'', ''intl-work''}"
  by (auto simp: host_profile_def domainProfiles_def split: if_splits)

lemma hint_profiles_member:
  assumes "p \<in> set (hint_profiles (domain, issuer))"
  shows "\<exists>h \<in> {domain, issuer}. h \<noteq> [] \<and> p = host_profile h"
  using assms by (auto simp: hint_profiles_def split: if_splits)

lemma hint_sites_member:
  "h \<in> {domain, issuer} \<Longrightarrow> h \<noteq> [] \<Longrightarrow> ProfileSite (host_profile h) \<in> set (hint_sites (domain, issuer))"
  by (auto simp: hint_sites_def)

lemma ProfileForAuth_cases:
  assumes "ProfileForAuth d a = Inr p"
  obtains (none) "hint_profiles (hints d a) = []" "p = DefaultProfile"
  | (one) "hint_profiles (hints d a) = [p]"
  using assms by (auto simp: ProfileForAuth_def split: sum.splits list.splits)

lemma profile_known:
  assumes "ProfileForAuth d a = Inr p"
  shows "p \<in> {''cn-cli'', ''cn-work'', ''intl-cli'', ''intl-work''}"
  using assms
proof (cases rule: ProfileForAuth_cases)
  case none
  then show ?thesis by (simp add: DefaultProfile_def)
next
  case one
  obtain domain issuer where h: "hints d a = (domain, issuer)" by fastforce
  with one obtain host where "host \<in> {domain, issuer}" "host \<noteq> []" "p = host_profile host"
    using hint_profiles_member [of p domain issuer] by auto
  then show ?thesis using hints_known [OF h] host_profile_known by blast
qed

text \<open>No request leaves the allowlist: whatever the parser and the decoders return for a
  credential's domain and token, an endpoint that the resolution returns is one of the four
  fixed ones, and the refresh, chat and catalog URLs of its profile have it as their origin.\<close>

theorem endpoint_allowlisted:
  assumes "ProfileForAuth d a = Inr p"
  shows "\<exists>ep \<in> {''https://copilot.tencent.com'', ''https://www.workbuddy.cn'',
            ''https://www.codebuddy.ai'', ''https://www.workbuddy.ai''}.
    EndpointForAuth d a = Inr ep \<and> EndpointForProfile p = Inr ep \<and>
    RefreshURLForAuth d a = Inr (ep @ ''/v2/plugin/auth/token/refresh'') \<and>
    ChatURLForProfile p = Inr (ep @ ''/v2/chat/completions'') \<and>
    CatalogURLForProfile p = Inr (ep @ ''/v3/config'') \<and>
    (\<exists>path. LegacyCatalogURLForProfile p = Inr (ep @ path) \<and> has_prefix path ''/'')"
  using profile_known [OF assms] assms
  by (auto simp: EndpointForAuth_def EndpointForProfile_def RefreshURLForAuth_def ChatURLForProfile_def
      CatalogURLForProfile_def LegacyCatalogURLForProfile_def with_endpoint_def profileEndpoints_def
      has_prefix_def)

definition example_decoders :: decoders where
  "example_decoders = \<lparr>
     d_parse = (\<lambda>s. if has_prefix s ''https://''
       then Some \<lparr>u_Scheme = ''https'', u_User = False, u_Host = drop 8 s, u_Hostname = drop 8 s, u_Path = []\<rparr>
       else None),
     d_b64 = (\<lambda>s. None), d_iss = (\<lambda>s. None)\<rparr>"

definition example_auth :: auth where
  "example_auth = [''domain'' \<mapsto> AStr ''www.workbuddy.ai'']"

lemma example_profile: "ProfileForAuth example_decoders example_auth = Inr ''intl-work''"
proof -
  have "trim_space ''www.workbuddy.ai'' = ''www.workbuddy.ai''"
    by (rule trim_space_printable) (simp add: printable_def)
  then have "hints example_decoders example_auth = (''www.workbuddy.ai'', [])"
    by (simp add: hints_def example_auth_def auth_str_def NormalizeDomain_def knownHost_def
        hint_text_def has_control_def contains_any_def example_decoders_def has_prefix_def domainProfiles_def ascii_lower_def
        tokenIssuer_def Let_def)
  then show ?thesis
    by (simp add: ProfileForAuth_def SiteForAuth_def hint_sites_def hint_profiles_def)
qed

theorem endpoint_allowlisted_witness:
  "EndpointForAuth example_decoders example_auth \<noteq> Inl ErrConflict"
  using endpoint_allowlisted [OF example_profile] by auto

text \<open>Hints never disagree silently: the site of a credential is refused exactly when the
  accepted hints of its domain and of its token name different sites, and the profile that is
  resolved always belongs to the resolved site.\<close>

theorem profile_matches_site:
  "(SiteForAuth d a = Inl ErrConflict \<longleftrightarrow>
      (case hints d a of (domain, issuer) \<Rightarrow> domain \<noteq> [] \<and> issuer \<noteq> [] \<and>
         ProfileSite (host_profile domain) \<noteq> ProfileSite (host_profile issuer))) \<and>
   (\<forall>p. ProfileForAuth d a = Inr p \<longrightarrow> SiteForAuth d a = Inr (ProfileSite p))"
proof -
  obtain domain issuer where h: "hints d a = (domain, issuer)" by fastforce
  have "ProfileSite p = t"
    if p: "ProfileForAuth d a = Inr p" and t: "SiteForAuth d a = Inr t" for p t
    using p
  proof (cases rule: ProfileForAuth_cases)
    case none
    then have "domain \<in> {[], ''copilot.tencent.com''}" "issuer \<in> {[], ''copilot.tencent.com''}"
      by (auto simp: h hint_profiles_def filter_empty_conv split: if_splits)
    then have "set (hint_sites (domain, issuer)) \<subseteq> {Domestic}"
      by (auto simp: hint_sites_def)
    with t none show ?thesis
      by (auto simp: SiteForAuth_def h DefaultProfile_def split: list.splits)
  next
    case one
    then obtain host where "host \<in> {domain, issuer}" "host \<noteq> []" "p = host_profile host"
      using hint_profiles_member [of p domain issuer] h by auto
    with hint_sites_member [of host domain issuer] t show ?thesis
      by (auto simp: SiteForAuth_def h split: list.splits)
  qed
  moreover have "SiteForAuth d a \<noteq> Inr t \<Longrightarrow> ProfileForAuth d a \<noteq> Inr p"
    if "\<And>t. SiteForAuth d a \<noteq> Inr t" for p t
    using that by (cases "SiteForAuth d a") (auto simp: ProfileForAuth_def)
  moreover have "SiteForAuth d a = Inl ErrConflict \<longleftrightarrow> domain \<noteq> [] \<and> issuer \<noteq> [] \<and>
      ProfileSite (host_profile domain) \<noteq> ProfileSite (host_profile issuer)"
    by (auto simp: SiteForAuth_def h hint_sites_def)
  ultimately show ?thesis
    unfolding h by (cases "SiteForAuth d a") (auto simp: ProfileForAuth_def)
qed

theorem profile_matches_site_witness:
  "SiteForAuth example_decoders example_auth = Inr International"
  using profile_matches_site [of example_decoders example_auth] example_profile by simp

text \<open>An accepted hint is exactly a known host over https: no userinfo, no port (the authority is
  the host up to letter case), no control character, query or fragment in the text that was
  parsed, and no path unless it is a token issuer.\<close>

theorem knownHost_sound:
  assumes "knownHost parse v issuer = Inr host"
  shows "\<exists>raw u. hint_text v = Some raw \<and> parse raw = Some u \<and> domainProfiles host \<noteq> None \<and>
    host = u_Hostname u \<and> \<not> u_User u \<and> equal_fold (u_Scheme u) ''https'' \<and> equal_fold (u_Host u) host \<and>
    (\<not> issuer \<longrightarrow> u_Path u = [] \<or> u_Path u = ''/'') \<and>
    \<not> has_control v \<and> \<not> contains_any raw (CHR 0x5C # ''?#'')"
proof -
  have h: "\<not> contains_any (''https://'' @ t) cs \<longleftrightarrow> \<not> contains_any t cs"
    if "\<not> contains_any ''https://'' cs" for t cs
    using that by (auto simp: contains_any_def)
  have "\<not> contains_any ''https://'' (CHR 0x5C # ''?#'')" by (simp add: contains_any_def)
  then have "\<not> has_control v \<and> \<not> contains_any raw (CHR 0x5C # ''?#'')" if "hint_text v = Some raw" for raw
    using that h unfolding hint_text_def Let_def by (auto split: if_splits simp del: append_Cons)
  then show ?thesis
    using assms unfolding knownHost_def Let_def
    by (auto simp del: equal_fold.simps split: option.splits if_splits)
qed

theorem knownHost_sound_witness:
  "\<exists>raw. hint_text ''www.workbuddy.ai'' = Some raw"
proof -
  have "trim_space ''www.workbuddy.ai'' = ''www.workbuddy.ai''"
    by (rule trim_space_printable) (simp add: printable_def)
  then have "knownHost (d_parse example_decoders) ''www.workbuddy.ai'' False = Inr ''www.workbuddy.ai''"
    by (simp add: knownHost_def hint_text_def has_control_def contains_any_def example_decoders_def has_prefix_def domainProfiles_def
        ascii_lower_def Let_def)
  from knownHost_sound [OF this] show ?thesis by blast
qed

end
