(* ===== verification/AccountPool.thy ===== *)
theory AccountPool
  imports Selection SiteRouting
begin

text \<open>
  The account pool of internal/workbuddy/pool/pool.go: accounts with their cooldowns, credits
  and failure counts, the pick of the next account, and the bookkeeping that requests, balance
  readings and the administration do on it.

  Every operation is one critical section of the pool's mutex; \<open>now\<close> is its reading of the clock
  in seconds. An account is the first one of the list with its identifier, as in the source's
  loops. A credit package is a map of decoded values; a revision is the uint64 counter of
  credit exhaustions, which does not wrap in \<open>2 ^ 64\<close> of them.
\<close>

subsection \<open>Data\<close>

record credential =
  cr_Profile :: string
  cr_Nickname :: "string option"
  cr_Path :: string

text \<open>What \<open>pkgFloat\<close> tells apart: a number, a pointer to one, an integer, anything else.\<close>

datatype pkg_value = PFloat f64 | PPtr "f64 option" | PInt int | POther

type_synonym credit_package = "string \<rightharpoonup> pkg_value"

record account =
  ac_UID :: string
  ac_Mgr :: "credential option"
  ac_Provider :: string
  ac_Enabled :: bool
  ac_Profile :: string
  ac_DisabledReason :: string
  ac_Alias :: string
  ac_Nickname :: string
  ac_CooldownUntil :: f64
  ac_otherCooldown :: f64
  ac_creditRevision :: nat
  ac_FailureCount :: int
  ac_CreditsRemain :: "f64 option"
  ac_CreditsTotal :: "f64 option"
  ac_CreditsExpireAt :: "f64 option"
  ac_CreditPackages :: "credit_package list"
  ac_Priority :: int
  ac_LastUsed :: f64

record pool =
  p_accounts :: "account list"
  p_projectAuths :: string
  p_creditRevision :: nat

definition safeProfile :: "credential option \<Rightarrow> string" where
  "safeProfile mgr =
    (case mgr of None \<Rightarrow> DefaultProfile
     | Some c \<Rightarrow> if cr_Profile c = [] then DefaultProfile else cr_Profile c)"

definition newAccount :: "string \<Rightarrow> credential option \<Rightarrow> account" where
  "newAccount uid mgr = \<lparr>
     ac_UID = uid, ac_Mgr = mgr, ac_Provider = ''workbuddy'', ac_Enabled = True,
     ac_Profile = safeProfile mgr, ac_DisabledReason = [], ac_Alias = [], ac_Nickname = [],
     ac_CooldownUntil = Fin 0, ac_otherCooldown = Fin 0, ac_creditRevision = 0,
     ac_FailureCount = 0, ac_CreditsRemain = None, ac_CreditsTotal = None,
     ac_CreditsExpireAt = None, ac_CreditPackages = [], ac_Priority = 0, ac_LastUsed = Fin 0\<rparr>"

subsection \<open>Availability\<close>

definition has_credit :: "account \<Rightarrow> bool" where
  "has_credit a = (case ac_CreditsRemain a of None \<Rightarrow> True | Some r \<Rightarrow> flt (Fin 0) r)"

definition Callable :: "account \<Rightarrow> bool" where
  "Callable a = (ac_Enabled a \<and> has_credit a)"

definition Healthy :: "f64 \<Rightarrow> account \<Rightarrow> bool" where
  "Healthy now a =
    (if \<not> Callable a then False else if flt now (ac_CooldownUntil a) then False else True)"

definition CallableFor :: "bool \<Rightarrow> account \<Rightarrow> bool" where
  "CallableFor free a = (ac_Enabled a \<and> (free \<or> has_credit a))"

definition HealthyFor :: "f64 \<Rightarrow> bool \<Rightarrow> account \<Rightarrow> bool" where
  "HealthyFor now free a = (CallableFor free a \<and> fle (ac_CooldownUntil a) now)"

definition markFailure :: "f64 \<Rightarrow> f64 \<Rightarrow> bool \<Rightarrow> account \<Rightarrow> account" where
  "markFailure now cooldownSeconds credit a =
    (let until = fadd now cooldownSeconds;
         a = a\<lparr>ac_FailureCount := ac_FailureCount a + 1\<rparr>;
         a = (if \<not> credit then a\<lparr>ac_otherCooldown := fmax (ac_otherCooldown a) until\<rparr> else a)
     in a\<lparr>ac_CooldownUntil := fmax (ac_CooldownUntil a) until\<rparr>)"

definition markSuccess :: "f64 \<Rightarrow> account \<Rightarrow> account" where
  "markSuccess now a = a\<lparr>ac_FailureCount := 0, ac_LastUsed := now\<rparr>"

subsection \<open>Expiring credit\<close>

definition pkgFloat :: "credit_package \<Rightarrow> string \<Rightarrow> f64 option" where
  "pkgFloat p key =
    (case p key of
       Some (PFloat v) \<Rightarrow> Some v
     | Some (PPtr (Some v)) \<Rightarrow> Some v
     | Some (PInt n) \<Rightarrow> Some (of_count n)
     | _ \<Rightarrow> None)"

text \<open>The packages that hold a balance and expire later than now, with their expiry.\<close>

definition live_expiry :: "f64 \<Rightarrow> credit_package \<Rightarrow> f64 option" where
  "live_expiry now p =
    (case pkgFloat p ''remain'' of
       None \<Rightarrow> None
     | Some rem \<Rightarrow>
         if fle rem (Fin 0) then None
         else case pkgFloat p ''expire_at'' of
                None \<Rightarrow> None
              | Some ex \<Rightarrow> if fle ex now then None else Some ex)"

definition nearestExpiry :: "f64 \<Rightarrow> account \<Rightarrow> f64 option" where
  "nearestExpiry now a =
    foldl (\<lambda>best p.
        case live_expiry now p of
          None \<Rightarrow> best
        | Some ex \<Rightarrow>
            (case best of None \<Rightarrow> Some ex | Some b \<Rightarrow> if flt ex b then Some ex else best))
      None (ac_CreditPackages a)"

definition expiringWithin :: "f64 \<Rightarrow> f64 \<Rightarrow> account \<Rightarrow> f64" where
  "expiringWithin now windowDays a =
    (if ac_CreditPackages a = [] \<or> fle windowDays (Fin 0) then Fin 0
     else
       let limit = fadd now (fmul windowDays (Fin 86400))
       in foldl (\<lambda>sum p.
            case pkgFloat p ''expire_at'' of
              None \<Rightarrow> sum
            | Some ex \<Rightarrow>
                if fle ex now \<or> flt limit ex then sum
                else case pkgFloat p ''remain'' of
                       None \<Rightarrow> sum
                     | Some rem \<Rightarrow> if flt (Fin 0) rem then fadd sum rem else sum)
          (Fin 0) (ac_CreditPackages a))"

definition daysToExpiry :: "f64 \<Rightarrow> account \<Rightarrow> f64" where
  "daysToExpiry now a =
    (case nearestExpiry now a of
       Some e \<Rightarrow> fdiv (fsub e now) (Fin 86400)
     | None \<Rightarrow>
         (case ac_CreditsExpireAt a of
            None \<Rightarrow> PInf
          | Some e \<Rightarrow> if fle e now then PInf else fdiv (fsub e now) (Fin 86400)))"

text \<open>The display weight.\<close>

definition account_weight :: "f64 \<Rightarrow> bool \<Rightarrow> account \<Rightarrow> f64" where
  "account_weight now applyIdle a =
    (let p = of_count (1 + max (ac_Priority a) 0);
         c = (case ac_CreditsTotal a of None \<Rightarrow> Fin 1
              | Some tot \<Rightarrow>
                  if feq tot (Fin 0) then Fin 1
                  else
                    let remain = (case ac_CreditsRemain a of None \<Rightarrow> Fin 0
                                  | Some r \<Rightarrow> if flt (Fin 0) r then r else Fin 0)
                    in fadd (Fin (1/2)) (fmul (Fin (1/2)) (fdiv remain tot)));
         days = daysToExpiry now a;
         e = (if fle days (Fin 0) then Fin 8 else if fle days (Fin 1) then Fin 8
              else if fle days (Fin 3) then Fin 6 else if fle days (Fin 7) then Fin 4
              else if fle days (Fin 30) then Fin 2 else Fin 1);
         s = fdiv (Fin 1) (fadd (Fin 1) (of_count (ac_FailureCount a)));
         i = (if applyIdle then
                let idleH = (if flt (Fin 0) (ac_LastUsed a)
                             then fdiv (fsub now (ac_LastUsed a)) (Fin 3600) else Fin 0)
                in fmin (fadd (Fin 1) (fmul idleH (lit (3/10)))) (Fin 3)
              else Fin 1)
     in fmul (fmul (fmul (fmul p c) e) s) i)"

subsection \<open>Cost groups of the legacy selection\<close>

definition domesticCostTie :: "account list \<Rightarrow> (string \<rightharpoonup> f64) \<Rightarrow> bool" where
  "domesticCostTie candidates cost =
    (let ok = (\<lambda>v. \<not> flt v (Fin 0) \<and> \<not> isNaN v \<and> \<not> isInf v);
         known = (\<lambda>a. case cost (ac_UID a) of None \<Rightarrow> False | Some v \<Rightarrow> ok v);
         near = (\<lambda>r a. case cost (ac_UID a) of None \<Rightarrow> False
                       | Some v \<Rightarrow> \<not> flt cost_eps (fabs (fsub v r)))
     in (\<forall>a \<in> set candidates. known a) \<and>
        (case candidates of [] \<Rightarrow> True
         | a # as \<Rightarrow> (\<forall>b \<in> set as. near (the (cost (ac_UID a))) b)) \<and>
        (\<exists>a \<in> set candidates. ac_Profile a \<in> {''cn-cli'', ''cn-work''}) \<and>
        (\<exists>a \<in> set candidates. ac_Profile a \<in> {''intl-cli'', ''intl-work''}))"

definition cheapestGroup :: "account list \<Rightarrow> (string \<rightharpoonup> f64) \<Rightarrow> account list" where
  "cheapestGroup cands cost =
    (let minCost = foldl (\<lambda>m a. case cost (ac_UID a) of None \<Rightarrow> m
                               | Some c \<Rightarrow> if flt c m then c else m) PInf cands
     in if minCost = PInf then cands
        else
          let grp = filter (\<lambda>a. case cost (ac_UID a) of None \<Rightarrow> False
                                | Some c \<Rightarrow> fle c (fadd minCost cost_eps)) cands
          in if grp = [] then cands else grp)"

subsection \<open>Picking an account\<close>

definition permitted :: "(string \<Rightarrow> bool) option \<Rightarrow> account \<Rightarrow> bool" where
  "permitted allowed a = (case allowed of None \<Rightarrow> True | Some f \<Rightarrow> f (ac_UID a))"

definition touch :: "f64 \<Rightarrow> string \<Rightarrow> account list \<Rightarrow> account list" where
  "touch now uid as = upd_first (\<lambda>a. ac_UID a = uid) (\<lambda>a. a\<lparr>ac_LastUsed := now\<rparr>) as"

definition pool_candidate ::
    "f64 \<Rightarrow> (string \<rightharpoonup> f64) option \<Rightarrow> f64 \<Rightarrow> account \<Rightarrow> candidate" where
  "pool_candidate now costByUID window a = \<lparr>
     c_ID = ac_UID a,
     c_Domestic = (ac_Profile a = ''cn-cli'' \<or> ac_Profile a = ''cn-work''),
     c_International = (ac_Profile a = ''intl-cli'' \<or> ac_Profile a = ''intl-work''),
     c_Cost = (case costByUID of None \<Rightarrow> None | Some m \<Rightarrow> m (ac_UID a)),
     c_Remaining = ac_CreditsRemain a, c_Total = ac_CreditsTotal a,
     c_ExpiryDays = daysToExpiry now a, c_ExpiringAmount = expiringWithin now window a,
     c_Priority = ac_Priority a, c_Failures = ac_FailureCount a, c_LastUsed = ac_LastUsed a\<rparr>"

text \<open>The soonest cooldown among the callable accounts, the first of them on ties.\<close>

definition soonest :: "(account \<Rightarrow> bool) \<Rightarrow> account list \<Rightarrow> account option" where
  "soonest ok as =
    fst (foldl (\<lambda>(best, ex) a.
           if ok a \<and> flt (ac_CooldownUntil a) ex then (Some a, ac_CooldownUntil a) else (best, ex))
         (None, PInf) as)"

datatype pick_result = Picked account | NoAccount | PickPanic

text \<open>\<open>draw\<close> is the random number of the selection.\<close>

definition PickFor ::
    "f64 \<Rightarrow> f64 \<Rightarrow> (string \<Rightarrow> bool) option \<Rightarrow> (string \<rightharpoonup> f64) option \<Rightarrow> f64 \<Rightarrow>
     (string \<Rightarrow> bool) \<Rightarrow> pool \<Rightarrow> pool \<times> pick_result" where
  "PickFor now draw allowed costByUID expiryWindowDays freeUIDs p =
    (let window = (if fle expiryWindowDays (Fin 0) then Fin 7 else expiryWindowDays);
         candidates = filter (\<lambda>a. permitted allowed a \<and> HealthyFor now (freeUIDs (ac_UID a)) a)
                        (p_accounts p);
         use = (\<lambda>a. (p\<lparr>p_accounts := touch now (ac_UID a) (p_accounts p)\<rparr>,
                     Picked (a\<lparr>ac_LastUsed := now\<rparr>)))
     in if candidates = [] then
          (case soonest (\<lambda>a. permitted allowed a \<and> CallableFor (freeUIDs (ac_UID a)) a) (p_accounts p) of
             None \<Rightarrow> (p, NoAccount)
           | Some best \<Rightarrow> use best)
        else
          (case SelectCandidate (map (pool_candidate now costByUID window) candidates)
                  (costByUID \<noteq> None) window now draw of
             None \<Rightarrow> (p, PickPanic)
           | Some uid \<Rightarrow>
               (case List.find (\<lambda>a. ac_UID a = uid) candidates of
                  None \<Rightarrow> (p, NoAccount)
                | Some a \<Rightarrow> use a)))"

definition Pick where
  "Pick now draw allowed costByUID expiryWindowDays p =
     PickFor now draw allowed costByUID expiryWindowDays (\<lambda>_. False) p"

subsection \<open>Lookups and updates\<close>

definition Get :: "pool \<Rightarrow> string \<Rightarrow> account option" where
  "Get p uid = List.find (\<lambda>a. ac_UID a = uid) (p_accounts p)"

definition HealthyCount :: "f64 \<Rightarrow> (string \<Rightarrow> bool) option \<Rightarrow> pool \<Rightarrow> nat" where
  "HealthyCount now allowed p =
    length (filter (\<lambda>a. permitted allowed a \<and> Healthy now a) (p_accounts p))"

definition on_account :: "string \<Rightarrow> (account \<Rightarrow> account) \<Rightarrow> pool \<Rightarrow> pool" where
  "on_account uid f p = p\<lparr>p_accounts := upd_first (\<lambda>a. ac_UID a = uid) f (p_accounts p)\<rparr>"

definition disabled_text :: string where
  "disabled_text = bytes [0xE5, 0xB7, 0xB2, 0xE7, 0xA6, 0x81, 0xE7, 0x94, 0xA8]"

definition contribution_text :: string where
  "contribution_text = bytes [0xE8, 0xB4, 0xA1, 0xE7, 0x8C, 0xAE, 0xE9, 0xAA, 0x8C, 0xE8, 0xAF, 0x81,
     0xE4, 0xB8, 0xAD]"

definition SetEnabled :: "string \<Rightarrow> bool \<Rightarrow> string \<Rightarrow> pool \<Rightarrow> pool" where
  "SetEnabled uid enabled reason p =
    on_account uid (\<lambda>a. a\<lparr>ac_Enabled := enabled,
      ac_DisabledReason := (if enabled then [] else if reason \<noteq> [] then reason else disabled_text)\<rparr>) p"

definition SetAlias :: "string \<Rightarrow> string \<Rightarrow> pool \<Rightarrow> pool" where
  "SetAlias uid alias p = on_account uid (\<lambda>a. a\<lparr>ac_Alias := trim_space alias\<rparr>) p"

text \<open>A nil slice of packages keeps the stored ones.\<close>

definition SetCredits ::
    "string \<Rightarrow> f64 option \<Rightarrow> f64 option \<Rightarrow> f64 option \<Rightarrow> credit_package list option \<Rightarrow> pool \<Rightarrow> pool" where
  "SetCredits uid remain tot expireAt packages p =
    on_account uid (\<lambda>a. a\<lparr>ac_CreditsRemain := remain, ac_CreditsTotal := tot,
      ac_CreditsExpireAt := expireAt,
      ac_CreditPackages := (case packages of None \<Rightarrow> ac_CreditPackages a | Some ps \<Rightarrow> ps)\<rparr>) p"

definition SetPriority :: "string \<Rightarrow> int \<Rightarrow> pool \<Rightarrow> pool" where
  "SetPriority uid priority p = on_account uid (\<lambda>a. a\<lparr>ac_Priority := priority\<rparr>) p"

definition ClearCooldown :: "string \<Rightarrow> pool \<Rightarrow> pool" where
  "ClearCooldown uid p =
    on_account uid (\<lambda>a. a\<lparr>ac_CooldownUntil := Fin 0, ac_otherCooldown := Fin 0,
      ac_creditRevision := 0, ac_FailureCount := 0\<rparr>) p"

definition CreditRevision :: "string \<Rightarrow> pool \<Rightarrow> nat" where
  "CreditRevision uid p = (case Get p uid of None \<Rightarrow> 0 | Some a \<Rightarrow> ac_creditRevision a)"

text \<open>The condition of this loop is on both the identifier and the revision.\<close>

definition ClearCreditCooldown :: "f64 \<Rightarrow> string \<Rightarrow> nat \<Rightarrow> pool \<Rightarrow> pool" where
  "ClearCreditCooldown now uid revision p =
    (if revision = 0 then p
     else p\<lparr>p_accounts := upd_first (\<lambda>a. ac_UID a = uid \<and> ac_creditRevision a = revision)
            (\<lambda>a. let a = a\<lparr>ac_CooldownUntil := ac_otherCooldown a\<rparr>
                 in if fle (ac_CooldownUntil a) now then a\<lparr>ac_FailureCount := 0\<rparr> else a)
            (p_accounts p)\<rparr>)"

definition disable_contribution :: "bool \<Rightarrow> account \<Rightarrow> account" where
  "disable_contribution disabled a =
    (if disabled then a\<lparr>ac_Enabled := False, ac_DisabledReason := contribution_text\<rparr> else a)"

text \<open>An existing account takes over the credential; \<open>mgr\<close> is not nil there.\<close>

definition hot_update :: "credential \<Rightarrow> bool \<Rightarrow> account \<Rightarrow> account" where
  "hot_update mgr disabled a =
    (let a = disable_contribution disabled a;
         a = a\<lparr>ac_Mgr := Some mgr, ac_Profile := safeProfile (Some mgr)\<rparr>
     in (case cr_Nickname mgr of None \<Rightarrow> a | Some nick \<Rightarrow> a\<lparr>ac_Nickname := nick\<rparr>))"

definition addAccount :: "string \<Rightarrow> credential \<Rightarrow> bool \<Rightarrow> pool \<Rightarrow> pool \<times> bool" where
  "addAccount uid mgr disabled p =
    (if \<exists>a \<in> set (p_accounts p). ac_UID a = uid then (on_account uid (hot_update mgr disabled) p, False)
     else (p\<lparr>p_accounts := p_accounts p @ [disable_contribution disabled (newAccount uid (Some mgr))]\<rparr>,
           True))"

fun remove_first :: "('a \<Rightarrow> bool) \<Rightarrow> 'a list \<Rightarrow> 'a list" where
  "remove_first f [] = []"
| "remove_first f (x # xs) = (if f x then xs else x # remove_first f xs)"

definition RemoveAccount :: "string \<Rightarrow> pool \<Rightarrow> pool \<times> bool" where
  "RemoveAccount uid p =
    (p\<lparr>p_accounts := remove_first (\<lambda>a. ac_UID a = uid) (p_accounts p)\<rparr>,
     \<exists>a \<in> set (p_accounts p). ac_UID a = uid)"

definition OnSuccess :: "f64 \<Rightarrow> string \<Rightarrow> pool \<Rightarrow> pool" where
  "OnSuccess now uid p = on_account uid (markSuccess now) p"

definition onFailure :: "f64 \<Rightarrow> string \<Rightarrow> f64 \<Rightarrow> bool \<Rightarrow> pool \<Rightarrow> pool \<times> nat" where
  "onFailure now uid cooldownSeconds credit p =
    (case Get p uid of
       None \<Rightarrow> (p, 0)
     | Some a \<Rightarrow>
         let rev = (if credit then p_creditRevision p + 1 else ac_creditRevision a);
             p1 = (if credit then p\<lparr>p_creditRevision := p_creditRevision p + 1\<rparr> else p)
         in (on_account uid (\<lambda>a. markFailure now cooldownSeconds credit (a\<lparr>ac_creditRevision := rev\<rparr>)) p1,
             rev))"

definition accountSource :: "pool \<Rightarrow> account \<Rightarrow> string" where
  "accountSource p a =
    (if ac_Provider a = ''qoder'' then ''qoder''
     else case ac_Mgr a of
            None \<Rightarrow> ''unknown''
          | Some m \<Rightarrow> if p_projectAuths p \<noteq> [] \<and> has_prefix (cr_Path m) (p_projectAuths p)
                      then ''project'' else ''local'')"

definition ChatURLFor :: "pool \<Rightarrow> string \<Rightarrow> string" where
  "ChatURLFor p uid =
    (case ChatURLForProfile (case Get p uid of None \<Rightarrow> DefaultProfile | Some a \<Rightarrow> ac_Profile a) of
       Inl _ \<Rightarrow> [] | Inr url \<Rightarrow> url)"

end
