(* ===== verification/AccountPoolProps.thy ===== *)
theory AccountPoolProps
  imports AccountPool
begin

text \<open>
  What the account pool guarantees: the pick's policy and its fallback, identifiers that stay
  unique, credit revisions that are never reused, cooldowns of other failures that a balance
  reading does not lift, and the expiry that drives the order of spending.
\<close>

subsection \<open>Lookups after updates\<close>

text \<open>The pool as a keyed store: a lookup sees exactly the updates of its own identifier.\<close>

locale keyed_store =
  fixes get :: "'s \<Rightarrow> string \<Rightarrow> 'a option"
    and update :: "string \<Rightarrow> ('a \<Rightarrow> 'a) \<Rightarrow> 's \<Rightarrow> 's"
    and key :: "'a \<Rightarrow> string"
  assumes get_update: "(\<And>a. key (f a) = key a) \<Longrightarrow>
      get (update u f s) v = (if v = u then map_option f (get s v) else get s v)"
    and get_key: "get s v = Some a \<Longrightarrow> key a = v"
begin

lemma get_update_same: "(\<And>a. key (f a) = key a) \<Longrightarrow> get (update u f s) u = map_option f (get s u)"
  by (simp add: get_update)

lemma get_update_other:
  "(\<And>a. key (f a) = key a) \<Longrightarrow> v \<noteq> u \<Longrightarrow> get (update u f s) v = get s v"
  by (simp add: get_update)

lemma get_update_twice:
  "(\<And>a. key (f a) = key a) \<Longrightarrow> (\<And>a. key (g a) = key a) \<Longrightarrow>
   get (update u f (update u g s)) v = get (update u (f \<circ> g) s) v"
  by (simp add: get_update option.map_comp comp_def)

end

interpretation store: keyed_store Get on_account ac_UID
proof
  fix f :: "account \<Rightarrow> account" and u p v
  assume k: "\<And>a. ac_UID (f a) = ac_UID a"
  show "Get (on_account u f p) v = (if v = u then map_option f (Get p v) else Get p v)"
    using find_upd_first [of "\<lambda>a. ac_UID a = u" f "p_accounts p"]
      find_keyed_other [of u v ac_UID f "p_accounts p"] k
    by (simp add: Get_def on_account_def)
next
  show "Get p v = Some a \<Longrightarrow> ac_UID a = v" for p v a
    by (auto simp: Get_def dest: find_Some_prop)
qed

definition uids :: "pool \<Rightarrow> string list" where
  "uids p = map ac_UID (p_accounts p)"

lemma uids_on_account [simp]: "(\<And>a. ac_UID (f a) = ac_UID a) \<Longrightarrow> uids (on_account u f p) = uids p"
  by (simp add: uids_def on_account_def map_upd_first)

lemma Get_distinct:
  assumes "distinct (uids p)" "a \<in> set (p_accounts p)"
  shows "Get p (ac_UID a) = Some a"
proof -
  have "distinct (map ac_UID as) \<Longrightarrow> a \<in> set as \<Longrightarrow> List.find (\<lambda>b. ac_UID b = ac_UID a) as = Some a" for as
    by (induction as) (auto simp: image_iff)
  with assms show ?thesis by (simp add: Get_def uids_def)
qed

lemma Get_in: "Get p u = Some a \<Longrightarrow> a \<in> set (p_accounts p) \<and> ac_UID a = u"
  unfolding Get_def by (rule find_Some_prop)

lemma touch_pool: "p\<lparr>p_accounts := touch now u (p_accounts p)\<rparr> = on_account u (\<lambda>a. a\<lparr>ac_LastUsed := now\<rparr>) p"
  by (simp add: touch_def on_account_def)

subsection \<open>The fallback\<close>

lemma soonest_fold:
  assumes "ex \<noteq> NaN" "foldl (\<lambda>(best, ex) a. if ok a \<and> flt (ac_CooldownUntil a) ex
      then (Some a, ac_CooldownUntil a) else (best, ex)) (best, ex) as = (b, e)"
  shows "(b, e) = (best, ex) \<and> (\<forall>a \<in> set as. ok a \<longrightarrow> \<not> flt (ac_CooldownUntil a) ex) \<or>
    (\<exists>a \<in> set as. ok a \<and> b = Some a \<and> e = ac_CooldownUntil a \<and> flt e ex \<and>
       (\<forall>c \<in> set as. ok c \<longrightarrow> \<not> flt (ac_CooldownUntil c) e))"
  using assms
proof (induction as arbitrary: best ex)
  case (Cons a as)
  show ?case
  proof (cases "ok a \<and> flt (ac_CooldownUntil a) ex")
    case False
    with Cons.IH [OF Cons.prems(1), of best] Cons.prems(2) show ?thesis
      by (auto simp: dest: flt_trans)
  next
    case True
    then have nn: "ac_CooldownUntil a \<noteq> NaN" using flt_not_nan by blast
    let ?c = "ac_CooldownUntil a"
    have irr: "\<not> flt x x" "flt x y \<Longrightarrow> \<not> flt y x" for x y
      by (auto simp: flt_iff dest: fle_antisym)
    from Cons.IH [OF nn, of "Some a"] Cons.prems(2) True
    have "(b, e) = (Some a, ?c) \<and> (\<forall>c \<in> set as. ok c \<longrightarrow> \<not> flt (ac_CooldownUntil c) ?c) \<or>
      (\<exists>c \<in> set as. ok c \<and> b = Some c \<and> e = ac_CooldownUntil c \<and> flt e ?c \<and>
         (\<forall>d \<in> set as. ok d \<longrightarrow> \<not> flt (ac_CooldownUntil d) e))"
      by simp
    then show ?thesis
    proof
      assume "(b, e) = (Some a, ?c) \<and> (\<forall>c \<in> set as. ok c \<longrightarrow> \<not> flt (ac_CooldownUntil c) ?c)"
      with True irr(1) [of ?c] show ?thesis by simp
    next
      assume "\<exists>c \<in> set as. ok c \<and> b = Some c \<and> e = ac_CooldownUntil c \<and> flt e ?c \<and>
         (\<forall>d \<in> set as. ok d \<longrightarrow> \<not> flt (ac_CooldownUntil d) e)"
      then obtain c where c: "c \<in> set as" "ok c" "b = Some c" "e = ac_CooldownUntil c" "flt e ?c"
        "\<forall>d \<in> set as. ok d \<longrightarrow> \<not> flt (ac_CooldownUntil d) e" by blast
      have "flt e ex" using c(5) True flt_trans by blast
      moreover have "\<not> flt ?c e" using irr(2) [OF c(5)] .
      ultimately show ?thesis using c by (intro disjI2 bexI [of _ c]) simp_all
    qed
  qed
qed simp

lemma soonest_cases:
  "soonest ok as = None \<and> (\<forall>a \<in> set as. ok a \<longrightarrow> \<not> flt (ac_CooldownUntil a) PInf) \<or>
   (\<exists>a \<in> set as. soonest ok as = Some a \<and> ok a \<and> flt (ac_CooldownUntil a) PInf \<and>
     (\<forall>c \<in> set as. ok c \<longrightarrow> \<not> flt (ac_CooldownUntil c) (ac_CooldownUntil a)))"
proof -
  obtain b e where be: "foldl (\<lambda>(best, ex) a. if ok a \<and> flt (ac_CooldownUntil a) ex
      then (Some a, ac_CooldownUntil a) else (best, ex)) (None, PInf) as = (b, e)" by fastforce
  from soonest_fold [OF _ be] show ?thesis by (auto simp: soonest_def be)
qed
subsection \<open>The pick\<close>

definition offered :: "(string \<Rightarrow> bool) option \<Rightarrow> (string \<Rightarrow> bool) \<Rightarrow> account \<Rightarrow> bool" where
  "offered allowed free a = (permitted allowed a \<and> CallableFor (free (ac_UID a)) a)"

definition ready :: "f64 \<Rightarrow> (string \<Rightarrow> bool) option \<Rightarrow> (string \<Rightarrow> bool) \<Rightarrow> account \<Rightarrow> bool" where
  "ready now allowed free a = (permitted allowed a \<and> HealthyFor now (free (ac_UID a)) a)"

lemma ready_offered: "ready now allowed free a \<Longrightarrow> offered allowed free a"
  by (simp add: ready_def offered_def HealthyFor_def)

lemma pool_costs_f64:
  assumes "\<forall>m. costs = Some m \<longrightarrow> (\<forall>u v. m u = Some v \<longrightarrow> is_f64 v)"
  shows "costs_f64 (map (pool_candidate now costs w) as)"
  using assms
  by (auto simp: costs_f64_def pool_candidate_def the_cost_def split: option.split)

lemma pick_ready:
  assumes "filter (ready now allowed free) (p_accounts p) \<noteq> []"
    "\<forall>m. costs = Some m \<longrightarrow> (\<forall>u v. m u = Some v \<longrightarrow> is_f64 v)" "distinct (uids p)"
  shows "\<exists>a \<in> set (p_accounts p). ready now allowed free a \<and>
    PickFor now draw allowed costs w free p =
      (on_account (ac_UID a) (\<lambda>a. a\<lparr>ac_LastUsed := now\<rparr>) p, Picked (a\<lparr>ac_LastUsed := now\<rparr>))"
proof -
  let ?cs = "filter (ready now allowed free) (p_accounts p)"
  let ?w = "if fle w (Fin 0) then Fin 7 else w"
  let ?m = "map (pool_candidate now costs ?w) ?cs"
  have cs: "filter (\<lambda>a. permitted allowed a \<and> HealthyFor now (free (ac_UID a)) a) (p_accounts p) = ?cs"
    by (simp add: ready_def [abs_def])
  have "?m \<noteq> []" using assms(1) by simp
  from select_candidate_ok [OF this pool_costs_f64 [OF assms(2)], of "costs \<noteq> None" ?w now draw]
  obtain c where c: "c \<in> set ?m" "SelectCandidate ?m (costs \<noteq> None) ?w now draw = Some (c_ID c)" by blast
  then obtain a where a: "a \<in> set ?cs" "c_ID c = ac_UID a"
    by (auto simp: pool_candidate_def)
  obtain b where b: "List.find (\<lambda>b. ac_UID b = ac_UID a) ?cs = Some b"
    using a(1) by (cases "List.find (\<lambda>b. ac_UID b = ac_UID a) ?cs") (auto simp: find_None_prop)
  then have "b \<in> set ?cs" using find_Some_prop by fast
  moreover have "PickFor now draw allowed costs w free p =
      (on_account (ac_UID b) (\<lambda>a. a\<lparr>ac_LastUsed := now\<rparr>) p, Picked (b\<lparr>ac_LastUsed := now\<rparr>))"
    unfolding PickFor_def Let_def cs using assms(1) c(2) a(2) b
    by (simp add: touch_pool)
  ultimately show ?thesis by auto
qed

text \<open>C11. The pick never chooses an account that is disabled, outside the allowed set, or out of
  credit without a verified free entitlement. It never panics; it gives an account that is out
  of its cooldown whenever there is one, otherwise the one whose cooldown ends first, and no
  account only when none that may be offered has a finite cooldown. The chosen account's last
  use is stamped, and nothing else of the pool changes.\<close>

theorem pick_policy:
  assumes "distinct (uids p)"
    "\<forall>m. costs = Some m \<longrightarrow> (\<forall>u v. m u = Some v \<longrightarrow> is_f64 v)"
  shows "case PickFor now draw allowed costs w free p of
      (p', PickPanic) \<Rightarrow> False
    | (p', NoAccount) \<Rightarrow> p' = p \<and>
        (\<forall>a \<in> set (p_accounts p). offered allowed free a \<longrightarrow> \<not> flt (ac_CooldownUntil a) PInf)
    | (p', Picked a') \<Rightarrow> \<exists>a \<in> set (p_accounts p). a' = a\<lparr>ac_LastUsed := now\<rparr> \<and> offered allowed free a \<and>
        p' = on_account (ac_UID a) (\<lambda>a. a\<lparr>ac_LastUsed := now\<rparr>) p \<and>
        (if \<exists>b \<in> set (p_accounts p). ready now allowed free b then ready now allowed free a
         else \<forall>b \<in> set (p_accounts p). offered allowed free b \<longrightarrow>
                \<not> flt (ac_CooldownUntil b) (ac_CooldownUntil a))"
proof (cases "filter (ready now allowed free) (p_accounts p) = []")
  case False
  from pick_ready [OF False assms(2,1)] obtain a where
    "a \<in> set (p_accounts p)" "ready now allowed free a"
    "PickFor now draw allowed costs w free p =
      (on_account (ac_UID a) (\<lambda>a. a\<lparr>ac_LastUsed := now\<rparr>) p, Picked (a\<lparr>ac_LastUsed := now\<rparr>))" by blast
  then show ?thesis using ready_offered by auto
next
  case True
  then have none: "\<not> (\<exists>b \<in> set (p_accounts p). ready now allowed free b)" by (simp add: filter_empty_conv)
  have cs: "filter (\<lambda>a. permitted allowed a \<and> HealthyFor now (free (ac_UID a)) a) (p_accounts p) = []"
    using none by (auto simp: filter_empty_conv ready_def)
  have "PickFor now draw allowed costs w free p =
    (case soonest (offered allowed free) (p_accounts p) of
       None \<Rightarrow> (p, NoAccount)
     | Some a \<Rightarrow> (on_account (ac_UID a) (\<lambda>a. a\<lparr>ac_LastUsed := now\<rparr>) p, Picked (a\<lparr>ac_LastUsed := now\<rparr>)))"
    unfolding PickFor_def Let_def cs by (simp add: touch_pool offered_def [abs_def] split: option.split)
  then show ?thesis
    using soonest_cases [of "offered allowed free" "p_accounts p"] none by auto
qed

definition example_pool :: pool where
  "example_pool = \<lparr>p_accounts = [newAccount ''u1'' None, (newAccount ''u2'' None)\<lparr>ac_Enabled := False\<rparr>],
     p_projectAuths = [], p_creditRevision = 0\<rparr>"

theorem pick_policy_witness:
  "snd (PickFor (Fin 5) (Fin 0) None None (Fin 0) (\<lambda>_. False) example_pool) \<noteq> PickPanic"
proof -
  have "distinct (uids example_pool)" by (simp add: example_pool_def uids_def newAccount_def)
  from pick_policy [OF this, where costs = None and now = "Fin 5" and draw = "Fin 0" and allowed = None
      and w = "Fin 0" and free = "\<lambda>_. False"]
  show ?thesis by (auto split: prod.splits pick_result.splits)
qed

subsection \<open>The pool as a machine\<close>

datatype pool_event =
    PPick f64 f64 "(string \<Rightarrow> bool) option" "(string \<rightharpoonup> f64) option" f64 "string \<Rightarrow> bool"
  | PSetEnabled string bool string
  | PSetAlias string string
  | PSetCredits string "f64 option" "f64 option" "f64 option" "credit_package list option"
  | PSetPriority string int
  | PClearCooldown string
  | PClearCredit f64 string nat
  | PAdd string credential bool
  | PRemove string
  | PSuccess f64 string
  | PFailure f64 string f64 bool

fun pool_step :: "pool \<Rightarrow> pool_event \<Rightarrow> pool" where
  "pool_step p (PPick now draw allowed costs w free) = fst (PickFor now draw allowed costs w free p)"
| "pool_step p (PSetEnabled u en reason) = SetEnabled u en reason p"
| "pool_step p (PSetAlias u s) = SetAlias u s p"
| "pool_step p (PSetCredits u r t e ps) = SetCredits u r t e ps p"
| "pool_step p (PSetPriority u n) = SetPriority u n p"
| "pool_step p (PClearCooldown u) = ClearCooldown u p"
| "pool_step p (PClearCredit now u rv) = ClearCreditCooldown now u rv p"
| "pool_step p (PAdd u m dis) = fst (addAccount u m dis p)"
| "pool_step p (PRemove u) = fst (RemoveAccount u p)"
| "pool_step p (PSuccess now u) = OnSuccess now u p"
| "pool_step p (PFailure now u s credit) = fst (onFailure now u s credit p)"

text \<open>The clock and the cooldown of a failure are finite and their sum does not overflow.\<close>

fun pool_event_ok :: "pool \<Rightarrow> pool_event \<Rightarrow> bool" where
  "pool_event_ok p (PFailure now u s credit) = (fadd now s \<noteq> NaN)"
| "pool_event_ok p _ = True"

definition account_ok :: "nat \<Rightarrow> account \<Rightarrow> bool" where
  "account_ok rv a =
    (ac_creditRevision a \<le> rv \<and> ac_otherCooldown a \<noteq> NaN \<and>
     fle (ac_otherCooldown a) (ac_CooldownUntil a))"

definition pool_ok :: "pool \<Rightarrow> bool" where
  "pool_ok p = (distinct (uids p) \<and> (\<forall>a \<in> set (p_accounts p). account_ok (p_creditRevision p) a))"

lemma upd_first_all:
  "\<forall>a \<in> set as. P a \<Longrightarrow> (\<And>a. a \<in> set as \<Longrightarrow> q a \<Longrightarrow> P a \<Longrightarrow> P (f a)) \<Longrightarrow> \<forall>a \<in> set (upd_first q f as). P a"
  by (induction as) auto

lemma pool_ok_on_account:
  assumes "pool_ok p" "\<And>a. ac_UID (f a) = ac_UID a"
    "\<And>a. account_ok (p_creditRevision p) a \<Longrightarrow> account_ok (p_creditRevision p) (f a)"
  shows "pool_ok (on_account u f p)"
  using assms(1) uids_on_account [OF assms(2), of u p]
    upd_first_all [of "p_accounts p" "account_ok (p_creditRevision p)" "\<lambda>a. ac_UID a = u" f] assms(3)
  by (simp add: pool_ok_def) (simp add: on_account_def)

lemma remove_first_subset: "set (remove_first q as) \<subseteq> set as"
  by (induction as) auto

lemma remove_first_distinct: "distinct (map k as) \<Longrightarrow> distinct (map k (remove_first q as))"
  using remove_first_subset by (induction as) fastforce+

lemma markFailure_ok:
  assumes "account_ok rv a" "fadd now s \<noteq> NaN"
  shows "account_ok rv (markFailure now s credit a)"
proof -
  have m: "fle x y \<Longrightarrow> u \<noteq> NaN \<Longrightarrow> fle (fmax x u) (fmax y u)" "fle x y \<Longrightarrow> u \<noteq> NaN \<Longrightarrow> fle x (fmax y u)"
    for x y u
    by (cases x; cases y; cases u; auto simp: fmax_def)+
  show ?thesis
    using assms m fmax_nan by (auto simp: account_ok_def markFailure_def Let_def)
qed

lemma hot_update_fields:
  "ac_UID (hot_update m d a) = ac_UID a" "ac_CooldownUntil (hot_update m d a) = ac_CooldownUntil a"
  "ac_otherCooldown (hot_update m d a) = ac_otherCooldown a"
  "ac_creditRevision (hot_update m d a) = ac_creditRevision a"
  "ac_FailureCount (hot_update m d a) = ac_FailureCount a"
  "ac_CreditsRemain (hot_update m d a) = ac_CreditsRemain a"
  "ac_Priority (hot_update m d a) = ac_Priority a"
  "ac_Enabled (hot_update m d a) \<longleftrightarrow> ac_Enabled a \<and> \<not> d"
  by (simp_all add: hot_update_def disable_contribution_def Let_def split: option.split)

lemma pool_ok_PickFor: "pool_ok p \<Longrightarrow> pool_ok (fst (PickFor now draw allowed costs w free p))"
proof -
  assume ok: "pool_ok p"
  have t: "pool_ok (p\<lparr>p_accounts := touch now u (p_accounts p)\<rparr>)" for u
    unfolding touch_pool using ok by (rule pool_ok_on_account) (simp_all add: account_ok_def)
  show ?thesis
    unfolding PickFor_def Let_def using ok t by (simp split: option.split)
qed

lemma pool_ok_step: "pool_ok p \<Longrightarrow> pool_event_ok p e \<Longrightarrow> pool_ok (pool_step p e)"
proof (cases e)
  case (PClearCredit now u rv)
  assume ok: "pool_ok p"
  let ?q = "\<lambda>a. ac_UID a = u \<and> ac_creditRevision a = rv"
  let ?f = "\<lambda>a. let a = a\<lparr>ac_CooldownUntil := ac_otherCooldown a\<rparr>
    in if fle (ac_CooldownUntil a) now then a\<lparr>ac_FailureCount := 0\<rparr> else a"
  have "map ac_UID (upd_first ?q ?f (p_accounts p)) = map ac_UID (p_accounts p)"
    by (rule map_upd_first) (simp add: Let_def)
  moreover have "\<forall>a \<in> set (upd_first ?q ?f (p_accounts p)). account_ok (p_creditRevision p) a"
    using ok by (intro upd_first_all) (auto simp: pool_ok_def account_ok_def Let_def)
  ultimately show ?thesis
    using ok PClearCredit by (simp add: ClearCreditCooldown_def pool_ok_def uids_def)
next
  case (PAdd u m dis)
  assume ok: "pool_ok p"
  show ?thesis
  proof (cases "\<exists>a \<in> set (p_accounts p). ac_UID a = u")
    case True
    have "pool_ok (on_account u (hot_update m dis) p)"
      using ok by (rule pool_ok_on_account) (simp_all add: account_ok_def hot_update_fields)
    with True PAdd show ?thesis by (simp add: addAccount_def)
  next
    case False
    then have "u \<notin> set (uids p)" by (auto simp: uids_def)
    with False ok PAdd show ?thesis
      by (auto simp: addAccount_def pool_ok_def account_ok_def uids_def newAccount_def disable_contribution_def)
  qed
next
  case (PRemove u)
  assume "pool_ok p"
  with PRemove show ?thesis
    using remove_first_subset [of "\<lambda>a. ac_UID a = u" "p_accounts p"]
    by (auto simp: RemoveAccount_def pool_ok_def uids_def remove_first_distinct)
next
  case (PFailure now u s credit)
  assume ok: "pool_ok p" and e: "pool_event_ok p e"
  show ?thesis
  proof (cases "Get p u")
    case None
    with ok PFailure show ?thesis by (simp add: onFailure_def)
  next
    case (Some a)
    define rv where "rv = (if credit then p_creditRevision p + 1 else ac_creditRevision a)"
    define p1 where "p1 = (if credit then p\<lparr>p_creditRevision := p_creditRevision p + 1\<rparr> else p)"
    have "account_ok (p_creditRevision p) a"
      using ok Get_in [OF Some] by (simp add: pool_ok_def)
    then have r: "rv \<le> p_creditRevision p1" by (simp add: rv_def p1_def account_ok_def)
    have "pool_ok p1"
      using ok by (auto simp: pool_ok_def p1_def uids_def account_ok_def)
    then have "pool_ok (on_account u (\<lambda>a. markFailure now s credit (a\<lparr>ac_creditRevision := rv\<rparr>)) p1)"
    proof (rule pool_ok_on_account)
      show "ac_UID (markFailure now s credit (a\<lparr>ac_creditRevision := rv\<rparr>)) = ac_UID a" for a
        by (simp add: markFailure_def Let_def)
      show "account_ok (p_creditRevision p1) (markFailure now s credit (a\<lparr>ac_creditRevision := rv\<rparr>))"
        if "account_ok (p_creditRevision p1) a" for a
        using that r e PFailure by (intro markFailure_ok) (simp_all add: account_ok_def)
    qed
    then show ?thesis
      using Some PFailure by (simp add: onFailure_def Let_def rv_def p1_def)
  qed
qed (auto simp: SetEnabled_def SetAlias_def SetCredits_def SetPriority_def ClearCooldown_def
    OnSuccess_def markSuccess_def account_ok_def pool_ok_PickFor intro!: pool_ok_on_account)

interpretation pool: guarded_machine pool_step pool_event_ok pool_ok
  by unfold_locales (rule pool_ok_step)

subsection \<open>One account through a step\<close>

text \<open>What a call may do to an account's revision and to its cooldown of other failures.\<close>

definition moved :: "pool \<Rightarrow> pool_event \<Rightarrow> string \<Rightarrow> account \<Rightarrow> account \<Rightarrow> bool" where
  "moved p e u a a' =
    (ac_creditRevision a' \<in> {ac_creditRevision a, 0, Suc (p_creditRevision p)} \<and>
     (e \<noteq> PClearCooldown u \<longrightarrow>
       ac_otherCooldown a' = ac_otherCooldown a \<or>
       (\<exists>x. x \<noteq> NaN \<and> ac_otherCooldown a' = fmax (ac_otherCooldown a) x)))"

lemma moved_refl: "moved p e u a a"
  by (simp add: moved_def)

lemma find_upd_first_any:
  "(\<And>x. k (f x) = k x) \<Longrightarrow>
   List.find (\<lambda>x. k x = v) (upd_first q f xs) = List.find (\<lambda>x. k x = v) xs \<or>
   List.find (\<lambda>x. k x = v) (upd_first q f xs) = map_option f (List.find (\<lambda>x. k x = v) xs)"
  by (induction xs) auto

lemma Get_PickFor:
  "Get (fst (PickFor now draw allowed costs w free p)) u = Get p u \<or>
   Get (fst (PickFor now draw allowed costs w free p)) u =
     map_option (\<lambda>a. a\<lparr>ac_LastUsed := now\<rparr>) (Get p u)"
proof -
  have "Get (on_account v (\<lambda>a. a\<lparr>ac_LastUsed := now\<rparr>) p) u \<in>
      {Get p u, map_option (\<lambda>a. a\<lparr>ac_LastUsed := now\<rparr>) (Get p u)}" for v
    by (simp add: store.get_update)
  then show ?thesis
    unfolding PickFor_def Let_def touch_pool by (simp split: option.split)
qed

lemma Get_moved:
  assumes "Get p u = Some a" "pool_event_ok p e" "e \<noteq> PRemove u"
  shows "\<exists>a'. Get (pool_step p e) u = Some a' \<and> moved p e u a a'"
proof (cases e)
  case (PPick now draw allowed costs w free)
  with assms(1) Get_PickFor [of now draw allowed costs w free p u] show ?thesis
    by (auto simp: moved_def)
next
  case (PClearCredit now v r)
  let ?f = "\<lambda>a. let a = a\<lparr>ac_CooldownUntil := ac_otherCooldown a\<rparr>
    in if fle (ac_CooldownUntil a) now then a\<lparr>ac_FailureCount := 0\<rparr> else a"
  have m: "moved p e u a (?f a)" by (simp add: moved_def Let_def)
  have "Get (ClearCreditCooldown now v r p) u = Get p u \<or>
      Get (ClearCreditCooldown now v r p) u = map_option ?f (Get p u)"
    using find_upd_first_any [of ac_UID ?f u "\<lambda>a. ac_UID a = v \<and> ac_creditRevision a = r" "p_accounts p"]
    by (simp add: ClearCreditCooldown_def Get_def Let_def)
  with m moved_refl [of p e u a] assms(1) PClearCredit show ?thesis by auto
next
  case (PAdd v m dis)
  have "List.find (\<lambda>a. ac_UID a = u) (as @ bs) = Some a" if "List.find (\<lambda>a. ac_UID a = u) as = Some a" for as bs
    using that by (induction as) auto
  note append = this
  show ?thesis
  proof (cases "\<exists>a \<in> set (p_accounts p). ac_UID a = v")
    case True
    let ?g = "hot_update m dis"
    have "pool_step p e = on_account v ?g p"
      using True PAdd by (simp add: addAccount_def)
    moreover have "moved p e u a (?g a)" by (simp add: moved_def hot_update_fields)
    moreover note hot_update_fields(1) [of m dis]
    ultimately show ?thesis
      using assms(1) moved_refl [of p e u a] store.get_update [of ?g v p u] by (cases "u = v") auto
  next
    case False
    with assms(1) PAdd append show ?thesis
      by (auto simp: addAccount_def Get_def moved_def)
  qed
next
  case (PRemove v)
  have "List.find (\<lambda>a. ac_UID a = u) (remove_first (\<lambda>a. ac_UID a = v) as) = List.find (\<lambda>a. ac_UID a = u) as"
    for as :: "account list"
    using assms(3) PRemove by (induction as) auto
  with assms(1) PRemove show ?thesis by (simp add: RemoveAccount_def Get_def moved_def)
next
  case (PFailure now v s credit)
  show ?thesis
  proof (cases "Get p v")
    case None
    with PFailure assms(1) show ?thesis by (simp add: onFailure_def moved_def)
  next
    case (Some b)
    have cr: "Get (p\<lparr>p_creditRevision := n\<rparr>) w = Get p w" for n w by (simp add: Get_def)
    have uid: "ac_UID (markFailure now s credit (a\<lparr>ac_creditRevision := n\<rparr>)) = ac_UID a"
    for a :: account and n
      by (simp add: markFailure_def Let_def)
    let ?n = "if credit then p_creditRevision p + 1 else ac_creditRevision b"
    let ?g = "\<lambda>a. markFailure now s credit (a\<lparr>ac_creditRevision := ?n\<rparr>)"
    have "Get (pool_step p e) u = (if u = v then map_option ?g (Get p u) else Get p u)"
      using Some PFailure store.get_update [OF uid] by (simp add: onFailure_def Let_def cr)
    moreover have "moved p e u b (?g b)"
      using PFailure assms(2) by (auto simp: moved_def markFailure_def Let_def)
    ultimately show ?thesis
      using Some assms(1) moved_refl by (cases "u = v") auto
  qed
qed (use assms(1) in \<open>auto simp: SetEnabled_def SetAlias_def SetCredits_def SetPriority_def
      ClearCooldown_def OnSuccess_def markSuccess_def store.get_update moved_def\<close>)

lemma Get_appears:
  assumes "Get p u = None" "Get (pool_step p e) u = Some a'"
  shows "ac_creditRevision a' = 0"
proof (cases e)
  case (PPick now draw allowed costs w free)
  with assms Get_PickFor [of now draw allowed costs w free p u] show ?thesis by auto
next
  case (PClearCredit now v r)
  let ?f = "\<lambda>a. let a = a\<lparr>ac_CooldownUntil := ac_otherCooldown a\<rparr>
    in if fle (ac_CooldownUntil a) now then a\<lparr>ac_FailureCount := 0\<rparr> else a"
  have "Get (ClearCreditCooldown now v r p) u = None"
    using assms(1) find_upd_first_any [of ac_UID ?f u "\<lambda>a. ac_UID a = v \<and> ac_creditRevision a = r" "p_accounts p"]
    by (simp add: ClearCreditCooldown_def Get_def Let_def)
  with assms(2) PClearCredit show ?thesis by simp
next
  case (PAdd v m dis)
  have f: "List.find q (as @ [b]) = (case List.find q as of None \<Rightarrow> if q b then Some b else None | Some x \<Rightarrow> Some x)"
    for q :: "account \<Rightarrow> bool" and as b
    by (induction as) auto
  show ?thesis
  proof (cases "\<exists>a \<in> set (p_accounts p). ac_UID a = v")
    case True
    then have "Get (pool_step p e) u = None"
      using PAdd assms(1) by (auto simp: addAccount_def store.get_update hot_update_fields)
    with assms(2) show ?thesis by simp
  next
    case False
    then show ?thesis
      using PAdd assms
      by (auto simp: addAccount_def Get_def f newAccount_def disable_contribution_def split: if_splits)
  qed
next
  case (PRemove v)
  have "List.find q as = None \<Longrightarrow> List.find q (remove_first r as) = None" for q r and as :: "account list"
    by (induction as) (auto split: if_splits)
  with assms PRemove show ?thesis by (simp add: RemoveAccount_def Get_def)
next
  case (PFailure now v s credit)
  have cr: "Get (p\<lparr>p_creditRevision := n\<rparr>) w = Get p w" for n w by (simp add: Get_def)
  have uid: "ac_UID (markFailure now s credit (a\<lparr>ac_creditRevision := n\<rparr>)) = ac_UID a"
    for a :: account and n
    by (simp add: markFailure_def Let_def)
  have "Get (on_account v (\<lambda>a. markFailure now s credit (a\<lparr>ac_creditRevision := n\<rparr>)) q) u = None"
    if "Get q u = None" for n q
    using that by (auto simp: store.get_update [OF uid])
  then have "Get (pool_step p e) u = None"
    using PFailure assms(1) by (auto simp: onFailure_def Let_def cr split: option.split)
  with assms(2) show ?thesis by simp
qed (use assms in \<open>auto simp: SetEnabled_def SetAlias_def SetCredits_def SetPriority_def
      ClearCooldown_def OnSuccess_def markSuccess_def store.get_update split: if_splits\<close>)

lemma revision_mono: "p_creditRevision p \<le> p_creditRevision (pool_step p e)"
  by (cases e)
     (auto simp: PickFor_def SetEnabled_def SetAlias_def SetCredits_def SetPriority_def
      ClearCooldown_def ClearCreditCooldown_def addAccount_def RemoveAccount_def OnSuccess_def
      onFailure_def on_account_def Let_def split: option.split)

subsection \<open>Cooldowns and credit revisions over time\<close>

lemma fle_fmax: "fle x y \<Longrightarrow> z \<noteq> NaN \<Longrightarrow> fle x (fmax y z)"
  by (cases x; cases y; cases z) (auto simp: fmax_def)

lemma held_cooldown_run:
  assumes "Get p u = Some a" "fle until (ac_otherCooldown a)" "pool_ok p"
    "legal pool_step pool_event_ok p es" "PClearCooldown u \<notin> set es" "PRemove u \<notin> set es"
  shows "\<exists>a'. Get (run pool_step p es) u = Some a' \<and> fle until (ac_otherCooldown a') \<and>
    account_ok (p_creditRevision (run pool_step p es)) a'"
  using assms
proof (induction es arbitrary: p a)
  case Nil
  then show ?case using Get_in [of p u a] by (auto simp: pool_ok_def)
next
  case (Cons e es)
  then obtain a' where a': "Get (pool_step p e) u = Some a'" "moved p e u a a'"
    using Get_moved [of p u a e] by auto
  then have "fle until (ac_otherCooldown a')"
    using Cons.prems(2,5) fle_fmax by (auto simp: moved_def)
  with Cons a' show ?case using pool_ok_step by simp
qed

text \<open>A balance reading lifts only what a credit rejection imposed: after a failure that was not
  a credit rejection, whatever requests, exhaustions, balance readings and changes of settings
  follow, the account stays in cooldown at least until that failure's cooldown has passed, unless
  the administration clears its cooldown or removes it.\<close>

theorem other_failure_cooldown_holds:
  assumes "pool_ok p" "Get p u \<noteq> None"
    "legal pool_step pool_event_ok p (PFailure now u s False # es)"
    "PClearCooldown u \<notin> set es" "PRemove u \<notin> set es"
    "flt t (fadd now s)"
  shows "\<exists>a. Get (run pool_step p (PFailure now u s False # es)) u = Some a \<and>
    fle (fadd now s) (ac_CooldownUntil a) \<and> \<not> Healthy t a"
proof -
  obtain b where b: "Get p u = Some b" using assms(2) by blast
  let ?p = "pool_step p (PFailure now u s False)"
  have nn: "fadd now s \<noteq> NaN" using assms(3) by simp
  have uid: "ac_UID (markFailure now s False (a\<lparr>ac_creditRevision := n\<rparr>)) = ac_UID a"
    for a :: account and n
    by (simp add: markFailure_def Let_def)
  have g: "Get ?p u = Some (markFailure now s False (b\<lparr>ac_creditRevision := ac_creditRevision b\<rparr>))"
    using b store.get_update [OF uid] by (simp add: onFailure_def Let_def)
  have "ac_otherCooldown b \<noteq> NaN"
    using assms(1) Get_in [OF b] by (auto simp: pool_ok_def account_ok_def)
  then have f: "fle (fadd now s) (ac_otherCooldown
      (markFailure now s False (b\<lparr>ac_creditRevision := ac_creditRevision b\<rparr>)))"
    using nn fmax_nan fmax_ge by (simp add: markFailure_def Let_def)
  have ok: "pool_ok ?p" using assms(1,3) by (intro pool_ok_step) simp_all
  from held_cooldown_run [OF g f ok] assms(3-5)
  obtain a where a: "Get (run pool_step ?p es) u = Some a" "fle (fadd now s) (ac_otherCooldown a)"
    "account_ok (p_creditRevision (run pool_step ?p es)) a" by auto
  then have c: "fle (fadd now s) (ac_CooldownUntil a)"
    using fle_trans by (auto simp: account_ok_def)
  with assms(6) have "flt t (ac_CooldownUntil a)" by (rule flt_fle_trans)
  with a(1) c show ?thesis by (auto simp: Healthy_def)
qed

theorem other_failure_cooldown_holds_witness:
  "\<exists>a. Get (run pool_step example_pool
      [PFailure (Fin 100) ''u1'' (Fin 60) False, PFailure (Fin 101) ''u1'' (Fin 600) True,
       PClearCredit (Fin 102) ''u1'' 1]) ''u1'' = Some a \<and> \<not> Healthy (Fin 120) a"
proof -
  have ok: "pool_ok example_pool" "Get example_pool ''u1'' \<noteq> None"
    by (simp_all add: pool_ok_def example_pool_def uids_def account_ok_def newAccount_def Get_def)
  have "fadd (Fin 100) (Fin 60) = Fin 160" "fadd (Fin 101) (Fin 600) = Fin 701"
    by (simp_all add: rnd_numeral)
  then show ?thesis
    using other_failure_cooldown_holds [OF ok, of "Fin 100" "Fin 60"
        "[PFailure (Fin 101) ''u1'' (Fin 600) True, PClearCredit (Fin 102) ''u1'' 1]" "Fin 120"]
    by auto
qed

lemma revision_history:
  assumes "\<forall>a. Get p u = Some a \<longrightarrow> ac_creditRevision a = 0 \<or> n \<le> ac_creditRevision a"
    "n \<le> p_creditRevision p" "pool_ok p" "legal pool_step pool_event_ok p es"
  shows "\<forall>a. Get (run pool_step p es) u = Some a \<longrightarrow> ac_creditRevision a = 0 \<or> n \<le> ac_creditRevision a"
  using assms
proof (induction es arbitrary: p)
  case (Cons e es)
  have "ac_creditRevision a' = 0 \<or> n \<le> ac_creditRevision a'" if a': "Get (pool_step p e) u = Some a'" for a'
  proof (cases "Get p u")
    case None
    then show ?thesis using Get_appears [OF None a'] by simp
  next
    case (Some a)
    show ?thesis
    proof (cases "e = PRemove u")
      case True
      have "distinct (map ac_UID as) \<Longrightarrow> List.find (\<lambda>a. ac_UID a = u) (remove_first (\<lambda>a. ac_UID a = u) as) = None"
        for as :: "account list"
        by (induction as) (auto simp: find_None_prop image_iff)
      then have "Get (pool_step p e) u = None"
        using True Cons.prems(3) by (simp add: RemoveAccount_def Get_def pool_ok_def uids_def)
      with a' show ?thesis by simp
    next
      case False
      with Get_moved [OF Some _ False] Cons.prems a' Some show ?thesis by (auto simp: moved_def)
    qed
  qed
  moreover have "n \<le> p_creditRevision (pool_step p e)"
    using Cons.prems(2) revision_mono order_trans by blast
  moreover have "pool_ok (pool_step p e)" "legal pool_step pool_event_ok (pool_step p e) es"
    using Cons.prems(3,4) pool_ok_step by simp_all
  ultimately show ?case unfolding run.simps by (intro Cons.IH) blast+
qed simp

text \<open>A balance reading clears only the rejection it started after: once the account was rejected
  for credit again, clearing with the revision of the earlier rejection changes nothing, at any
  later time.\<close>

theorem stale_credit_clear_is_void:
  assumes "pool_ok p" "Get p u \<noteq> None" "r = CreditRevision u p"
    "legal pool_step pool_event_ok p (PFailure now u s True # es)"
  shows "ClearCreditCooldown t u r (run pool_step p (PFailure now u s True # es)) =
    run pool_step p (PFailure now u s True # es)"
proof -
  let ?p = "pool_step p (PFailure now u s True)"
  obtain b where b: "Get p u = Some b" using assms(2) by blast
  have rb: "r \<le> p_creditRevision p"
    using assms(1,3) Get_in [OF b] b by (auto simp: CreditRevision_def pool_ok_def account_ok_def)
  have uid: "ac_UID (markFailure now s True (a\<lparr>ac_creditRevision := n\<rparr>)) = ac_UID a"
    for a :: account and n
    by (simp add: markFailure_def Let_def)
  have cr: "Get (p\<lparr>p_creditRevision := n\<rparr>) w = Get p w" for n w by (simp add: Get_def)
  have g: "\<forall>a. Get ?p u = Some a \<longrightarrow> ac_creditRevision a = 0 \<or> Suc (p_creditRevision p) \<le> ac_creditRevision a"
    using b store.get_update [OF uid] by (simp add: onFailure_def Let_def cr) (simp add: markFailure_def Let_def)
  have n: "Suc (p_creditRevision p) \<le> p_creditRevision ?p"
    using b by (simp add: onFailure_def on_account_def Let_def)
  have ok: "pool_ok ?p" using assms(1,4) by (intro pool_ok_step) simp_all
  let ?q = "run pool_step ?p es"
  have okq: "pool_ok ?q" using ok assms(4) by (intro pool.run_inv) simp_all
  have h: "\<forall>a. Get ?q u = Some a \<longrightarrow> ac_creditRevision a = 0 \<or> Suc (p_creditRevision p) \<le> ac_creditRevision a"
    by (rule revision_history [OF g n ok]) (use assms(4) in simp)
  have "\<not> (ac_UID a = u \<and> ac_creditRevision a = r)" if "r \<noteq> 0" "a \<in> set (p_accounts ?q)" for a
    using h rb that Get_distinct [of ?q a] okq by (auto simp: pool_ok_def)
  then have "r \<noteq> 0 \<Longrightarrow> upd_first (\<lambda>a. ac_UID a = u \<and> ac_creditRevision a = r) f (p_accounts ?q) = p_accounts ?q" for f
    by (intro upd_first_none) blast
  then show ?thesis by (simp add: ClearCreditCooldown_def)
qed

definition rejected_pool :: pool where
  "rejected_pool = pool_step example_pool (PFailure (Fin 1) ''u1'' (Fin 2) True)"

theorem stale_credit_clear_is_void_witness:
  "ClearCreditCooldown (Fin 9) ''u1'' 1 (run pool_step rejected_pool [PFailure (Fin 1) ''u1'' (Fin 2) True]) =
   run pool_step rejected_pool [PFailure (Fin 1) ''u1'' (Fin 2) True]"
proof -
  have "pool_ok example_pool"
    by (simp add: pool_ok_def example_pool_def uids_def account_ok_def newAccount_def)
  then have ok: "pool_ok rejected_pool"
    unfolding rejected_pool_def by (rule pool_ok_step) (simp add: rnd_not_nan)
  have r: "Get rejected_pool ''u1'' \<noteq> None" "1 = CreditRevision ''u1'' rejected_pool"
    by (simp_all add: rejected_pool_def example_pool_def newAccount_def Get_def onFailure_def
        on_account_def markFailure_def CreditRevision_def Let_def)
  show ?thesis
    by (rule stale_credit_clear_is_void [OF ok r, of "Fin 1" "Fin 2" "[]"]) (simp add: rnd_not_nan)
qed

subsection \<open>Expiry and membership\<close>

lemma nearest_fold:
  assumes "\<forall>p \<in> set ps. live_expiry now p \<noteq> Some NaN" "best \<noteq> Some NaN"
  defines "r \<equiv> foldl (\<lambda>best p. case live_expiry now p of None \<Rightarrow> best
      | Some ex \<Rightarrow> (case best of None \<Rightarrow> Some ex | Some b \<Rightarrow> if flt ex b then Some ex else best)) best ps"
  shows "(r = None \<longleftrightarrow> best = None \<and> (\<forall>p \<in> set ps. live_expiry now p = None)) \<and>
    (\<forall>e. r = Some e \<longrightarrow> (best = Some e \<or> (\<exists>p \<in> set ps. live_expiry now p = Some e)) \<and>
       (\<forall>b. best = Some b \<longrightarrow> fle e b) \<and>
       (\<forall>p \<in> set ps. \<forall>x. live_expiry now p = Some x \<longrightarrow> fle e x))"
  using assms(1,2) unfolding r_def
proof (induction ps arbitrary: best)
  case Nil
  then show ?case by (cases best) auto
next
  case (Cons p ps)
  let ?next = "case live_expiry now p of None \<Rightarrow> best
      | Some ex \<Rightarrow> (case best of None \<Rightarrow> Some ex | Some b \<Rightarrow> if flt ex b then Some ex else best)"
  have nn: "?next \<noteq> Some NaN" using Cons.prems by (auto split: option.splits)
  have prems: "\<forall>p \<in> set ps. live_expiry now p \<noteq> Some NaN" using Cons.prems(1) by simp
  note ih = Cons.IH [OF prems nn]
  show ?case
  proof (cases "live_expiry now p")
    case None
    with ih show ?thesis by auto
  next
    case (Some x)
    have x: "x \<noteq> NaN" using Some Cons.prems(1) by auto
    show ?thesis
    proof (cases best)
      case None
      with ih Some show ?thesis by auto
    next
      case best: (Some b)
      then have b: "b \<noteq> NaN" using Cons.prems(2) by simp
      show ?thesis
      proof (cases "flt x b")
        case True
        then have "fle x b" by (simp add: flt_iff)
        then have "fle e x \<Longrightarrow> fle e b" for e using fle_trans by blast
        with True ih Some best show ?thesis by auto
      next
        case False
        then have "fle b x" using not_flt [OF x b] by simp
        then have "fle e b \<Longrightarrow> fle e x" for e using fle_trans by blast
        with False ih Some best show ?thesis by auto
      qed
    qed
  qed
qed

text \<open>The nearest expiry is the truth about the packages: it is the earliest expiry of the
  packages that still hold a balance and expire in the future, and absent exactly when there is
  no such package.\<close>

theorem nearest_expiry_exact:
  assumes "\<forall>p \<in> set (ac_CreditPackages a). live_expiry now p \<noteq> Some NaN"
  shows "(nearestExpiry now a = None \<longleftrightarrow> (\<forall>p \<in> set (ac_CreditPackages a). live_expiry now p = None)) \<and>
    (\<forall>e. nearestExpiry now a = Some e \<longrightarrow>
       (\<exists>p \<in> set (ac_CreditPackages a). live_expiry now p = Some e) \<and> \<not> fle e now \<and>
       (\<forall>p \<in> set (ac_CreditPackages a). \<forall>x. live_expiry now p = Some x \<longrightarrow> fle e x))"
proof -
  have fut: "\<not> fle e now" if "live_expiry now p = Some e" for p e
    using that by (auto simp: live_expiry_def split: option.splits if_splits)
  note n = nearest_fold [OF assms, of None, folded nearestExpiry_def]
  show ?thesis
    using n fut by auto
qed

theorem nearest_expiry_exact_witness:
  "nearestExpiry (Fin 10) ((newAccount ''u'' None)\<lparr>ac_CreditPackages :=
     [[''remain'' \<mapsto> PFloat (Fin 5), ''expire_at'' \<mapsto> PFloat (Fin 30)],
      [''remain'' \<mapsto> PFloat (Fin 0), ''expire_at'' \<mapsto> PFloat (Fin 20)]]\<rparr>) \<noteq> None"
proof -
  let ?a = "(newAccount ''u'' None)\<lparr>ac_CreditPackages :=
     [[''remain'' \<mapsto> PFloat (Fin 5), ''expire_at'' \<mapsto> PFloat (Fin 30)],
      [''remain'' \<mapsto> PFloat (Fin 0), ''expire_at'' \<mapsto> PFloat (Fin 20)]]\<rparr>"
  have "\<forall>p \<in> set (ac_CreditPackages ?a). live_expiry (Fin 10) p \<noteq> Some NaN"
    "live_expiry (Fin 10) (hd (ac_CreditPackages ?a)) = Some (Fin 30)"
    by (simp_all add: live_expiry_def pkgFloat_def)
  with nearest_expiry_exact [OF this(1)] show ?thesis by auto
qed

text \<open>Membership: a removed account is gone and no other account is touched; adding an account
  that exists keeps its cooldown, failures, credits and priority, and never enables it.\<close>

theorem pool_membership:
  assumes "distinct (uids p)"
  shows "Get (fst (RemoveAccount u p)) u = None \<and>
    (\<forall>v. v \<noteq> u \<longrightarrow> Get (fst (RemoveAccount u p)) v = Get p v) \<and>
    (snd (addAccount u m d p) \<longleftrightarrow> Get p u = None) \<and>
    (case Get p u of
       None \<Rightarrow> \<exists>a. Get (fst (addAccount u m d p)) u = Some a \<and> ac_Enabled a = (\<not> d)
     | Some a \<Rightarrow> \<exists>a'. Get (fst (addAccount u m d p)) u = Some a' \<and>
         (ac_Enabled a' \<longrightarrow> ac_Enabled a) \<and> (d \<longrightarrow> \<not> ac_Enabled a') \<and>
         ac_CooldownUntil a' = ac_CooldownUntil a \<and> ac_otherCooldown a' = ac_otherCooldown a \<and>
         ac_FailureCount a' = ac_FailureCount a \<and> ac_CreditsRemain a' = ac_CreditsRemain a \<and>
         ac_Priority a' = ac_Priority a)"
proof -
  have gone: "distinct (map ac_UID as) \<Longrightarrow> List.find (\<lambda>a. ac_UID a = u) (remove_first (\<lambda>a. ac_UID a = u) as) = None"
    for as :: "account list"
    by (induction as) (auto simp: find_None_prop image_iff)
  have other: "v \<noteq> u \<Longrightarrow> List.find (\<lambda>a. ac_UID a = v) (remove_first (\<lambda>a. ac_UID a = u) as) = List.find (\<lambda>a. ac_UID a = v) as"
    for as :: "account list" and v
    by (induction as) auto
  have none: "Get p u = None \<longleftrightarrow> \<not> (\<exists>a \<in> set (p_accounts p). ac_UID a = u)"
    by (simp add: Get_def find_None_prop)
  have append: "List.find q as = None \<Longrightarrow> List.find q (as @ [b]) = (if q b then Some b else None)"
    for q :: "account \<Rightarrow> bool" and as b
    by (induction as) (auto split: if_splits)
  show ?thesis
  proof (cases "Get p u")
    case None
    then have f: "List.find (\<lambda>a. ac_UID a = u) (p_accounts p) = None" by (simp add: Get_def)
    from None none append [OF f] show ?thesis
      using gone other assms
      by (auto simp: RemoveAccount_def addAccount_def Get_def uids_def newAccount_def disable_contribution_def)
  next
    case (Some a)
    have "fst (addAccount u m d p) = on_account u (hot_update m d) p" "\<not> snd (addAccount u m d p)"
      using none Some by (auto simp: addAccount_def)
    moreover have "Get (on_account u (hot_update m d) p) u = Some (hot_update m d a)"
      using Some by (simp add: store.get_update hot_update_fields)
    ultimately have add: "Get (fst (addAccount u m d p)) u = Some (hot_update m d a)" "\<not> snd (addAccount u m d p)"
      by simp_all
    have "Get (fst (RemoveAccount u p)) u = None" "\<forall>v. v \<noteq> u \<longrightarrow> Get (fst (RemoveAccount u p)) v = Get p v"
      using gone other assms by (simp_all add: RemoveAccount_def Get_def uids_def)
    with add Some show ?thesis by (simp add: hot_update_fields)
  qed
qed

theorem pool_membership_witness:
  "Get (fst (RemoveAccount ''u1'' example_pool)) ''u1'' = None"
proof -
  have "distinct (uids example_pool)" by (simp add: example_pool_def uids_def newAccount_def)
  from pool_membership [OF this] show ?thesis by blast
qed

end
