(* ===== verification/NodePool.thy ===== *)
theory NodePool
  imports Prelude
begin

unbundle bit_operations_syntax

text \<open>
  The upstream pools of internal/opencode/pool.go: keys bound to proxies with a count of the
  bindings of each proxy (nodePool), the anonymous credential's cooldown per proxy
  (anonymousPool), their cursors, and the proxies' health as traffic and probes move it
  (internal/opencode/health.go).

  A node and a proxy are indices into their lists. The lists never change after construction;
  the atomics are fields that each operation reads and writes once. Times are nanoseconds;
  \<open>wrap64\<close> is the overflow of int64 arithmetic, written where a header's value can cause it.
  \<open>health\<close> gives the healthy flags as a section reads them, \<open>pick\<close> the random choice.
\<close>

subsection \<open>Numbers\<close>

text \<open>\<open>strconv.Atoi\<close>: an optional sign, decimal digits, in the range of int64.\<close>

definition go_atoi :: "string \<Rightarrow> int option" where
  "go_atoi s =
    (let (neg, ds) = (case s of
           [] \<Rightarrow> (False, [])
         | c # cs \<Rightarrow> if c = CHR ''-'' then (True, cs) else if c = CHR ''+'' then (False, cs) else (False, s));
         n = (if neg then - int (atou ds) else int (atou ds))
     in if ds \<noteq> [] \<and> (\<forall>c \<in> set ds. 48 \<le> (of_char c :: nat) \<and> (of_char c :: nat) \<le> 57) \<and>
           - (2 ^ 63) \<le> n \<and> n < 2 ^ 63
        then Some n else None)"

text \<open>The FNV-1a hash of \<open>hash/fnv\<close>.\<close>

definition fnv64a :: "string \<Rightarrow> 64 word" where
  "fnv64a s = foldl (\<lambda>h c. (h XOR of_nat (of_char c)) * 1099511628211) 14695981039346656037 s"

definition nanos :: int where
  "nanos = 1000000000"

text \<open>\<open>until\<close> is the time to the HTTP date in the value, None when it is not one.\<close>

definition parseRetryAfter :: "(string \<Rightarrow> int option) \<Rightarrow> string \<Rightarrow> int" where
  "parseRetryAfter until v =
    (let date = (case until v of Some d \<Rightarrow> max d 0 | None \<Rightarrow> 0)
     in case go_atoi (trim_space v) of
          Some n \<Rightarrow> if n > 0 then wrap64 (n * nanos) else date
        | None \<Rightarrow> date)"

subsection \<open>Errors\<close>

text \<open>What \<open>errors.As\<close> and \<open>errors.Is\<close> find in an error.\<close>

record net_error =
  ne_firstEvent :: bool
  ne_dns :: bool
  ne_deadline :: bool
  ne_canceled :: bool
  ne_refused :: bool
  ne_timeout :: bool

definition isLocalDNSFailure :: "net_error option \<Rightarrow> bool" where
  "isLocalDNSFailure err = (case err of None \<Rightarrow> False | Some e \<Rightarrow> ne_dns e)"

definition isProxyFailure :: "net_error option \<Rightarrow> bool" where
  "isProxyFailure err =
    (case err of
       None \<Rightarrow> False
     | Some e \<Rightarrow>
         if ne_dns e then False
         else if ne_deadline e \<or> ne_refused e then True
         else ne_timeout e)"

definition first_event :: "net_error option \<Rightarrow> bool" where
  "first_event err = (case err of None \<Rightarrow> False | Some e \<Rightarrow> ne_firstEvent e)"

text \<open>A response: its status and its Retry-After value.\<close>

record response =
  r_status :: int
  r_retryAfter :: string

definition harmless_status :: "int \<Rightarrow> bool" where
  "harmless_status s = (s \<noteq> 401 \<and> s \<noteq> 403 \<and> s \<noteq> 429 \<and> s < 500)"

text \<open>The early returns that both pools' MarkFailure share.\<close>

definition not_counted :: "response option \<Rightarrow> net_error option \<Rightarrow> bool" where
  "not_counted resp err =
    (first_event err \<or> err \<noteq> None \<and> isLocalDNSFailure err \<or>
     err = None \<and> (case resp of None \<Rightarrow> False | Some r \<Rightarrow> harmless_status (r_status r)))"

text \<open>\<open>cooldown * (1 << min(failures-1, 3))\<close> on the uint32 counter after its increment.\<close>

definition backoff :: "int \<Rightarrow> 32 word \<Rightarrow> int" where
  "backoff cooldown failures = cooldown * 2 ^ min (unat (failures - 1)) 3"

subsection \<open>The anonymous pool\<close>

record anonymousNode =
  an_failures :: "32 word"
  an_until :: int

record anonymousPool =
  ap_nodes :: "anonymousNode list"
  ap_next :: "64 word"
  ap_cooldown :: int

definition newAnonymousPool :: "bool \<Rightarrow> nat option \<Rightarrow> int \<Rightarrow> anonymousPool" where
  "newAnonymousPool enabled transports cooldown =
    \<lparr>ap_nodes = (case transports of
        None \<Rightarrow> []
      | Some n \<Rightarrow> if enabled then replicate n \<lparr>an_failures = 0, an_until = 0\<rparr> else []),
     ap_next = 0, ap_cooldown = cooldown\<rparr>"

record cursor =
  cu_start :: nat
  cu_offset :: nat

text \<open>An affinity hashes to its start, an empty one takes the next of the shared counter.\<close>

definition start_for :: "string \<Rightarrow> 64 word \<Rightarrow> nat \<Rightarrow> nat \<times> 64 word" where
  "start_for affinity nxt n =
    (if affinity = [] then (unat (nxt + 1 - 1) mod n, nxt + 1)
     else (unat (fnv64a affinity) mod n, nxt))"

definition anonymous_CursorFor :: "string \<Rightarrow> anonymousPool \<Rightarrow> cursor \<times> anonymousPool" where
  "anonymous_CursorFor affinity p =
    (if ap_nodes p = [] then (\<lparr>cu_start = 0, cu_offset = 0\<rparr>, p)
     else
       let (start, nxt) = start_for affinity (ap_next p) (length (ap_nodes p))
       in (\<lparr>cu_start = start, cu_offset = 0\<rparr>, p\<lparr>ap_next := nxt\<rparr>))"

text \<open>The loop of Next, with the health and the cooldowns that it reads.\<close>

function anonymous_Next :: "(nat \<Rightarrow> bool) \<Rightarrow> int \<Rightarrow> anonymousPool \<Rightarrow> cursor \<Rightarrow> nat option \<times> cursor" where
  "anonymous_Next health now p c =
    (if cu_offset c < length (ap_nodes p) then
       let i = (cu_start c + cu_offset c) mod length (ap_nodes p);
           c' = c\<lparr>cu_offset := cu_offset c + 1\<rparr>
       in if health i \<and> an_until (ap_nodes p ! i) \<le> now then (Some i, c')
          else anonymous_Next health now p c'
     else (None, c))"
  by pat_completeness auto
termination
  by (relation "measure (\<lambda>(h, now, p, c). length (ap_nodes p) - cu_offset c)") auto

declare anonymous_Next.simps [simp del]

definition anonymous_MarkSuccess :: "nat \<Rightarrow> anonymousPool \<Rightarrow> anonymousPool" where
  "anonymous_MarkSuccess i p =
    p\<lparr>ap_nodes := (ap_nodes p)[i := \<lparr>an_failures = 0, an_until = 0\<rparr>]\<rparr>"

definition anonymous_delay :: "(string \<Rightarrow> int option) \<Rightarrow> int \<Rightarrow> 32 word \<Rightarrow> response option \<Rightarrow> int" where
  "anonymous_delay until cooldown failures resp =
    (let delay = backoff cooldown failures
     in case resp of
          None \<Rightarrow> delay
        | Some r \<Rightarrow>
            let retryAfter = parseRetryAfter until (r_retryAfter r)
            in if retryAfter > delay then min retryAfter (cooldown * 8) else delay)"

definition anonymous_MarkFailure ::
    "(string \<Rightarrow> int option) \<Rightarrow> int \<Rightarrow> nat \<Rightarrow> response option \<Rightarrow> net_error option \<Rightarrow>
     anonymousPool \<Rightarrow> anonymousPool" where
  "anonymous_MarkFailure until now i resp err p =
    (if not_counted resp err then p
     else
       let failures = an_failures (ap_nodes p ! i) + 1;
           delay = anonymous_delay until (ap_cooldown p) failures resp
       in p\<lparr>ap_nodes := (ap_nodes p)[i := \<lparr>an_failures = failures, an_until = wrap64 (now + delay)\<rparr>]\<rparr>)"

subsection \<open>Keys and their proxies\<close>

record upstreamNode =
  un_key :: string
  un_preferred :: nat
  un_proxy :: nat
  un_failures :: "32 word"
  un_until :: int

record nodePool =
  np_nodes :: "upstreamNode list"
  np_items :: nat
  np_next :: "64 word"
  np_cooldown :: int
  np_binding :: "int list"

text \<open>Key \<open>i\<close> starts on proxy \<open>i % len(items)\<close>; None is the error for no proxies.\<close>

definition newNodePool :: "string list \<Rightarrow> nat \<Rightarrow> int \<Rightarrow> nodePool option" where
  "newNodePool keys items cooldown =
    (if items = 0 then None
     else Some \<lparr>
       np_nodes = map (\<lambda>(i, key). \<lparr>un_key = key, un_preferred = i mod items, un_proxy = i mod items,
           un_failures = 0, un_until = 0\<rparr>) (enumerate 0 keys),
       np_items = items, np_next = 0, np_cooldown = cooldown,
       np_binding = foldl (\<lambda>b (i, key). b[i mod items := b ! (i mod items) + 1])
         (replicate items 0) (enumerate 0 keys)\<rparr>)"

definition rebound :: "nat \<Rightarrow> upstreamNode \<Rightarrow> upstreamNode" where
  "rebound target n = n\<lparr>un_proxy := target, un_failures := 0, un_until := 0\<rparr>"

definition move_binding :: "nat \<Rightarrow> nat \<Rightarrow> int list \<Rightarrow> int list" where
  "move_binding from target b =
    (let b = (if from < length b then b[from := b ! from - 1] else b)
     in b[target := b ! target + 1])"

text \<open>One pass over the nodes: the nodes not yet visited, and the visited ones with the counts.\<close>

fun restore_loop ::
    "nat \<Rightarrow> upstreamNode list \<Rightarrow> int list \<Rightarrow> upstreamNode list \<times> int list \<times> nat" where
  "restore_loop recovered [] b = ([], b, 0)"
| "restore_loop recovered (n # ns) b =
    (if un_preferred n \<noteq> recovered \<or> un_proxy n = recovered
     then (case restore_loop recovered ns b of (ms, b', k) \<Rightarrow> (n # ms, b', k))
     else (case restore_loop recovered ns (move_binding (un_proxy n) recovered b) of
             (ms, b', k) \<Rightarrow> (rebound recovered n # ms, b', Suc k)))"

definition RestoreProxy :: "nat \<Rightarrow> nodePool \<Rightarrow> nodePool \<times> nat" where
  "RestoreProxy recovered p =
    (if recovered \<ge> np_items p then (p, 0)
     else case restore_loop recovered (np_nodes p) (np_binding p) of
            (ms, b, k) \<Rightarrow> (p\<lparr>np_nodes := ms, np_binding := b\<rparr>, k))"

text \<open>
  The scan of replacementLocked over the proxies from \<open>i\<close> on: \<open>Inl i\<close> an unused proxy, found at
  once, \<open>Inr\<close> the least-loaded candidates.
\<close>

fun replacement_scan ::
    "(nat \<Rightarrow> bool) \<Rightarrow> nat \<Rightarrow> bool \<Rightarrow> int list \<Rightarrow> nat list \<Rightarrow> int \<Rightarrow> nat list \<Rightarrow> nat + nat list" where
  "replacement_scan health failed healthyOnly b [] least cands = Inr cands"
| "replacement_scan health failed healthyOnly b (i # is) least cands =
    (if i = failed \<or> healthyOnly \<and> \<not> health i
     then replacement_scan health failed healthyOnly b is least cands
     else if b ! i = 0 then Inl i
     else if b ! i < least then replacement_scan health failed healthyOnly b is (b ! i) [i]
     else if b ! i = least then replacement_scan health failed healthyOnly b is least (cands @ [i])
     else replacement_scan health failed healthyOnly b is least cands)"

definition replacementLocked ::
    "(nat \<Rightarrow> bool) \<Rightarrow> (nat \<Rightarrow> nat) \<Rightarrow> nat \<Rightarrow> nat \<Rightarrow> bool \<Rightarrow> int list \<Rightarrow> nat option" where
  "replacementLocked health pick items failed healthyOnly b =
    (case replacement_scan health failed healthyOnly b [0..<items] (2 ^ 63 - 1) [] of
       Inl i \<Rightarrow> Some i
     | Inr cands \<Rightarrow> if cands = [] then None else Some (cands ! pick (length cands)))"

definition rebind_target ::
    "(nat \<Rightarrow> bool) \<Rightarrow> (nat \<Rightarrow> nat) \<Rightarrow> nat \<Rightarrow> nat \<Rightarrow> int list \<Rightarrow> nat option" where
  "rebind_target health pick items failed b =
    (case replacementLocked health pick items failed True b of
       Some t \<Rightarrow> Some t
     | None \<Rightarrow> replacementLocked health pick items failed False b)"

fun rebind_loop ::
    "(nat \<Rightarrow> bool) \<Rightarrow> (nat \<Rightarrow> nat) \<Rightarrow> nat \<Rightarrow> nat \<Rightarrow> upstreamNode list \<Rightarrow> int list \<Rightarrow>
     upstreamNode list \<times> int list \<times> nat" where
  "rebind_loop health pick items failed [] b = ([], b, 0)"
| "rebind_loop health pick items failed (n # ns) b =
    (if un_proxy n \<noteq> failed
     then (case rebind_loop health pick items failed ns b of (ms, b', k) \<Rightarrow> (n # ms, b', k))
     else
       case rebind_target health pick items failed b of
         None \<Rightarrow> (case rebind_loop health pick items failed ns b of (ms, b', k) \<Rightarrow> (n # ms, b', k))
       | Some t \<Rightarrow>
           (case rebind_loop health pick items failed ns (move_binding failed t b) of
              (ms, b', k) \<Rightarrow> (rebound t n # ms, b', Suc k)))"

definition RebindProxy ::
    "(nat \<Rightarrow> bool) \<Rightarrow> (nat \<Rightarrow> nat) \<Rightarrow> nat \<Rightarrow> nodePool \<Rightarrow> nodePool \<times> nat" where
  "RebindProxy health pick failed p =
    (if np_items p < 2 \<or> failed \<ge> np_items p then (p, 0)
     else case rebind_loop health pick (np_items p) failed (np_nodes p) (np_binding p) of
            (ms, b, k) \<Rightarrow> (p\<lparr>np_nodes := ms, np_binding := b\<rparr>, k))"

text \<open>\<open>fingerprint\<close> names a key.\<close>

definition NodeByID :: "(string \<Rightarrow> string) \<Rightarrow> string \<Rightarrow> nodePool \<Rightarrow> upstreamNode option" where
  "NodeByID fingerprint ident p =
    (if ident = [] then None else List.find (\<lambda>n. fingerprint (un_key n) = ident) (np_nodes p))"

definition node_Proxy :: "nat \<Rightarrow> nodePool \<Rightarrow> nat option" where
  "node_Proxy i p =
    (let index = un_proxy (np_nodes p ! i) in if index \<ge> np_items p then None else Some index)"

definition node_CursorFor :: "string \<Rightarrow> nodePool \<Rightarrow> nat \<times> nodePool" where
  "node_CursorFor affinity p =
    (if np_nodes p = [] then (0, p)
     else let (start, nxt) = start_for affinity (np_next p) (length (np_nodes p))
          in (start, p\<lparr>np_next := nxt\<rparr>))"

text \<open>The search of Next from \<open>offset\<close> on, with the choice so far and its cooldown.\<close>

fun node_search :: "int \<Rightarrow> upstreamNode list \<Rightarrow> nat \<Rightarrow> nat list \<Rightarrow> (nat \<times> int) option \<Rightarrow> nat option" where
  "node_search now ns nxt [] choice = map_option fst choice"
| "node_search now ns nxt (offset # os) choice =
    (let i = (nxt + offset) mod length ns;
         until = un_until (ns ! i)
     in if until \<le> now then Some i
        else node_search now ns nxt os
               (case choice of None \<Rightarrow> Some (i, until)
                | Some (c, earliest) \<Rightarrow> if until < earliest then Some (i, until) else Some (c, earliest)))"

definition node_Next :: "int \<Rightarrow> nodePool \<Rightarrow> nat \<Rightarrow> nat option \<times> nat" where
  "node_Next now p nxt =
    (if np_nodes p = [] then (None, nxt)
     else
       case node_search now (np_nodes p) nxt [0..<length (np_nodes p)] None of
         None \<Rightarrow> (None, nxt)
       | Some i \<Rightarrow> (Some i, (i + 1) mod length (np_nodes p)))"

definition node_MarkSuccess :: "nat \<Rightarrow> nodePool \<Rightarrow> nodePool" where
  "node_MarkSuccess i p =
    p\<lparr>np_nodes := (np_nodes p)[i := (np_nodes p ! i)\<lparr>un_failures := 0, un_until := 0\<rparr>]\<rparr>"

definition node_MarkFailure ::
    "(string \<Rightarrow> int option) \<Rightarrow> int \<Rightarrow> nat \<Rightarrow> response option \<Rightarrow> net_error option \<Rightarrow> nodePool \<Rightarrow> nodePool" where
  "node_MarkFailure until now i resp err p =
    (if not_counted resp err then p
     else
       let failures = un_failures (np_nodes p ! i) + 1;
           delay = backoff (np_cooldown p) failures;
           delay = (case resp of None \<Rightarrow> delay
             | Some r \<Rightarrow> max delay (parseRetryAfter until (r_retryAfter r)))
       in p\<lparr>np_nodes := (np_nodes p)[i := (np_nodes p ! i)
              \<lparr>un_failures := failures, un_until := wrap64 (now + delay)\<rparr>]\<rparr>)"

end
