(* ===== verification/NodePoolProps.thy ===== *)
theory NodePoolProps
  imports NodePool
begin

text \<open>
  What the upstream pools guarantee: the binding counts are exact whatever proxies fail and
  recover, a failed proxy is left by every key for a least-loaded healthy one, a recovered proxy
  gets its keys back, the cursors choose a usable node when there is one, and cooldowns stay
  within their backoff.
\<close>

subsection \<open>The binding counts\<close>

definition bound :: "nat \<Rightarrow> upstreamNode list \<Rightarrow> int" where
  "bound i ns = tally (\<lambda>n. of_bool (un_proxy n = i)) ns"

definition binding_ok :: "nat \<Rightarrow> upstreamNode list \<Rightarrow> int list \<Rightarrow> bool" where
  "binding_ok items ns b =
    (length b = items \<and> (\<forall>n \<in> set ns. un_proxy n < items) \<and> (\<forall>i < items. b ! i = bound i ns))"

definition nodes_ok :: "nodePool \<Rightarrow> bool" where
  "nodes_ok p = (binding_ok (np_items p) (np_nodes p) (np_binding p) \<and>
     (\<forall>n \<in> set (np_nodes p). un_preferred n < np_items p))"

lemma bound_Cons [simp]: "bound i (n # ns) = of_bool (un_proxy n = i) + bound i ns"
  and bound_Nil [simp]: "bound i [] = 0"
  by (simp_all add: bound_def)

lemma bound_nonneg: "0 \<le> bound i ns"
  unfolding bound_def by (rule tally_nonneg) simp

lemma move_binding_length [simp]: "length (move_binding from target b) = length b"
  by (simp add: move_binding_def Let_def)

lemma move_binding_nth:
  "from < length b \<Longrightarrow> target < length b \<Longrightarrow> from \<noteq> target \<Longrightarrow>
   move_binding from target b ! i = b ! i - of_bool (i = from) + of_bool (i = target)"
  by (auto simp: move_binding_def nth_list_update)

text \<open>The counts while a pass runs: the nodes visited so far are counted where they are now.\<close>

lemma restore_loop_counts:
  assumes "restore_loop r ns b = (ms, b', k)" "r < length b" "\<forall>n \<in> set ns. un_proxy n < length b"
    "\<forall>i < length b. b ! i = bound i ns + d i"
  shows "length b' = length b \<and> (\<forall>n \<in> set ms. un_proxy n < length b) \<and>
    (\<forall>i < length b. b' ! i = bound i ms + d i) \<and>
    ms = map (\<lambda>n. if un_preferred n = r \<and> un_proxy n \<noteq> r then rebound r n else n) ns \<and>
    k = length (filter (\<lambda>n. un_preferred n = r \<and> un_proxy n \<noteq> r) ns)"
  using assms
proof (induction ns arbitrary: b ms b' k d)
  case (Cons n ns)
  show ?case
  proof (cases "un_preferred n \<noteq> r \<or> un_proxy n = r")
    case True
    then obtain ms' where l: "restore_loop r ns b = (ms', b', k)" "ms = n # ms'"
      using Cons.prems(1) by (auto split: prod.splits)
    have "\<forall>i < length b. b ! i = bound i ns + (d i + of_bool (un_proxy n = i))"
      using Cons.prems(4) by simp
    from Cons.IH [OF l(1) Cons.prems(2) _ this] Cons.prems(3) True l(2) show ?thesis by auto
  next
    case False
    then obtain ms' k' where l: "restore_loop r ns (move_binding (un_proxy n) r b) = (ms', b', k')"
      "ms = rebound r n # ms'" "k = Suc k'"
      using Cons.prems(1) by (auto split: prod.splits)
    have "\<forall>i < length b. move_binding (un_proxy n) r b ! i = bound i ns + (d i + of_bool (i = r))"
      using Cons.prems False by (auto simp: move_binding_nth)
    from Cons.IH [OF l(1), of "\<lambda>i. d i + of_bool (i = r)"] this Cons.prems(2,3) False l(2,3)
    show ?thesis by (auto simp: rebound_def)
  qed
qed auto

text \<open>The replacement is a least-loaded candidate.\<close>

definition candidate :: "(nat \<Rightarrow> bool) \<Rightarrow> nat \<Rightarrow> bool \<Rightarrow> nat \<Rightarrow> bool" where
  "candidate health failed healthyOnly i = (i \<noteq> failed \<and> (healthyOnly \<longrightarrow> health i))"

lemma replacement_scan_result:
  assumes "\<forall>i \<in> set is. 0 \<le> b ! i \<and> b ! i \<le> 2 ^ 63 - 1" "distinct (seen @ is)"
    "\<forall>c \<in> set cands. c \<in> set seen \<and> candidate health failed ho c \<and> b ! c = least"
    "\<forall>i \<in> set seen. candidate health failed ho i \<longrightarrow> least \<le> b ! i"
    "cands = [] \<longrightarrow> least = 2 ^ 63 - 1 \<and> (\<forall>i \<in> set seen. \<not> candidate health failed ho i)"
  shows "case replacement_scan health failed ho b is least cands of
      Inl i \<Rightarrow> i \<in> set is \<and> candidate health failed ho i \<and> b ! i = 0
    | Inr cs \<Rightarrow> (\<forall>c \<in> set cs. c \<in> set (seen @ is) \<and> candidate health failed ho c \<and>
          (\<forall>i \<in> set (seen @ is). candidate health failed ho i \<longrightarrow> b ! c \<le> b ! i)) \<and>
        (cs = [] \<longrightarrow> (\<forall>i \<in> set (seen @ is). \<not> candidate health failed ho i))"
  using assms
proof (induction "is" arbitrary: seen least cands)
  case Nil
  then show ?case by auto
next
  case (Cons i "is")
  have split: "set (seen @ i # is) = set ((seen @ [i]) @ is)" by auto
  show ?case
  proof (cases "candidate health failed ho i")
    case False
    have "case replacement_scan health failed ho b is least cands of
        Inl j \<Rightarrow> j \<in> set is \<and> candidate health failed ho j \<and> b ! j = 0
      | Inr cs \<Rightarrow> (\<forall>c \<in> set cs. c \<in> set ((seen @ [i]) @ is) \<and> candidate health failed ho c \<and>
          (\<forall>j \<in> set ((seen @ [i]) @ is). candidate health failed ho j \<longrightarrow> b ! c \<le> b ! j)) \<and>
        (cs = [] \<longrightarrow> (\<forall>j \<in> set ((seen @ [i]) @ is). \<not> candidate health failed ho j))"
      using Cons.prems False by (intro Cons.IH) auto
    then show ?thesis
      using False unfolding split by (auto simp: candidate_def split: sum.splits)
  next
    case True
    then have skip: "\<not> (i = failed \<or> ho \<and> \<not> health i)" by (auto simp: candidate_def)
    show ?thesis
    proof (cases "b ! i = 0")
      case True
      then have "replacement_scan health failed ho b (i # is) least cands = Inl i"
        using skip by auto
      with True \<open>candidate health failed ho i\<close> show ?thesis by simp
    next
      case nz: False
      let ?least = "min (b ! i) least"
      let ?cands = "if b ! i < least then [i] else if b ! i = least then cands @ [i] else cands"
      have step: "replacement_scan health failed ho b (i # is) least cands =
          replacement_scan health failed ho b is ?least ?cands"
        using skip nz by (auto simp: min_def)
      have "case replacement_scan health failed ho b is ?least ?cands of
          Inl j \<Rightarrow> j \<in> set is \<and> candidate health failed ho j \<and> b ! j = 0
        | Inr cs \<Rightarrow> (\<forall>c \<in> set cs. c \<in> set ((seen @ [i]) @ is) \<and> candidate health failed ho c \<and>
            (\<forall>j \<in> set ((seen @ [i]) @ is). candidate health failed ho j \<longrightarrow> b ! c \<le> b ! j)) \<and>
          (cs = [] \<longrightarrow> (\<forall>j \<in> set ((seen @ [i]) @ is). \<not> candidate health failed ho j))"
      proof (rule Cons.IH)
        show "?cands = [] \<longrightarrow> ?least = 2 ^ 63 - 1 \<and> (\<forall>j \<in> set (seen @ [i]). \<not> candidate health failed ho j)"
          using Cons.prems(1,5) by (cases "cands = []") auto
        show "\<forall>j \<in> set (seen @ [i]). candidate health failed ho j \<longrightarrow> ?least \<le> b ! j"
          using Cons.prems(4) by auto
        show "\<forall>c \<in> set ?cands. c \<in> set (seen @ [i]) \<and> candidate health failed ho c \<and> b ! c = ?least"
          using Cons.prems(3) \<open>candidate health failed ho i\<close> by auto
      qed (use Cons.prems(1,2) in auto)
      then show ?thesis unfolding step split by (auto split: sum.splits)
    qed
  qed
qed

text \<open>The contract of \<open>rand.IntN\<close>.\<close>

definition pick_ok :: "(nat \<Rightarrow> nat) \<Rightarrow> bool" where
  "pick_ok pick = (\<forall>n > 0. pick n < n)"

lemma replacementLocked_least:
  assumes "pick_ok pick" "\<forall>i < items. 0 \<le> b ! i \<and> b ! i \<le> 2 ^ 63 - 1"
  shows "case replacementLocked health pick items failed ho b of
      None \<Rightarrow> \<forall>i < items. \<not> candidate health failed ho i
    | Some t \<Rightarrow> t < items \<and> candidate health failed ho t \<and>
        (\<forall>i < items. candidate health failed ho i \<longrightarrow> b ! t \<le> b ! i)"
proof -
  have s: "case replacement_scan health failed ho b [0..<items] (2 ^ 63 - 1) [] of
      Inl i \<Rightarrow> i \<in> set [0..<items] \<and> candidate health failed ho i \<and> b ! i = 0
    | Inr cs \<Rightarrow> (\<forall>c \<in> set cs. c \<in> set ([] @ [0..<items]) \<and> candidate health failed ho c \<and>
          (\<forall>i \<in> set ([] @ [0..<items]). candidate health failed ho i \<longrightarrow> b ! c \<le> b ! i)) \<and>
        (cs = [] \<longrightarrow> (\<forall>i \<in> set ([] @ [0..<items]). \<not> candidate health failed ho i))"
    by (rule replacement_scan_result) (use assms(2) in auto)
  show ?thesis
  proof (cases "replacement_scan health failed ho b [0..<items] (2 ^ 63 - 1) []")
    case (Inl i)
    with s assms(2) show ?thesis by (simp add: replacementLocked_def)
  next
    case (Inr cs)
    show ?thesis
    proof (cases "cs = []")
      case True
      with Inr s show ?thesis by (simp add: replacementLocked_def)
    next
      case False
      then have "cs ! pick (length cs) \<in> set cs" using assms(1) by (simp add: pick_ok_def)
      with Inr False s show ?thesis by (auto simp: replacementLocked_def)
    qed
  qed
qed

subsection \<open>Leaving a failed proxy\<close>

lemma tally_move_binding:
  assumes "from < length b" "target < length b" "from \<noteq> target"
  shows "tally (\<lambda>x. x) (move_binding from target b) = tally (\<lambda>x. x) b"
  using assms by (simp add: move_binding_def tally_update Let_def)

lemma counts_bounded:
  assumes "\<forall>x \<in> set b. 0 \<le> x" "tally (\<lambda>x. x) b \<le> M" "i < length b"
  shows "0 \<le> b ! i \<and> b ! i \<le> M"
proof -
  have "b ! i \<in> set b" using assms(3) by simp
  then show ?thesis using tally_member_le [of "b ! i" b "\<lambda>x. x"] assms(1,2) by fastforce
qed

definition rebind_rel ::
    "(nat \<Rightarrow> bool) \<Rightarrow> nat \<Rightarrow> nat \<Rightarrow> upstreamNode \<Rightarrow> upstreamNode \<Rightarrow> bool" where
  "rebind_rel health items failed n m =
    (if un_proxy n \<noteq> failed then m = n
     else \<exists>t < items. t \<noteq> failed \<and> m = rebound t n \<and>
       ((\<exists>i < items. i \<noteq> failed \<and> health i) \<longrightarrow> health t))"

lemma rebind_target_ok:
  assumes "pick_ok pick" "\<forall>i < items. 0 \<le> b ! i \<and> b ! i \<le> 2 ^ 63 - 1" "\<exists>i < items. i \<noteq> failed"
  shows "\<exists>t < items. rebind_target health pick items failed b = Some t \<and> t \<noteq> failed \<and>
    ((\<exists>i < items. i \<noteq> failed \<and> health i) \<longrightarrow> health t)"
  using replacementLocked_least [OF assms(1,2), of health failed True]
    replacementLocked_least [OF assms(1,2), of health failed False] assms(3)
  by (auto simp: rebind_target_def candidate_def split: option.splits)

lemma rebind_loop_counts:
  assumes "rebind_loop health pick items failed ns b = (ms, b', k)" "length b = items" "failed < items"
    "\<forall>n \<in> set ns. un_proxy n < items" "\<forall>i < items. b ! i = bound i ns + d i" "\<forall>i. 0 \<le> d i"
    "tally (\<lambda>x. x) b \<le> 2 ^ 63 - 1" "pick_ok pick" "\<exists>i < items. i \<noteq> failed"
  shows "length b' = items \<and> (\<forall>n \<in> set ms. un_proxy n < items \<and> un_proxy n \<noteq> failed) \<and>
    (\<forall>i < items. b' ! i = bound i ms + d i) \<and> list_all2 (rebind_rel health items failed) ns ms \<and>
    k = length (filter (\<lambda>n. un_proxy n = failed) ns)"
  using assms(1-7)
proof (induction ns arbitrary: b ms b' k d)
  case Nil
  then show ?case by auto
next
  case (Cons n ns)
  have pos: "\<forall>x \<in> set b. 0 \<le> x"
    using Cons.prems(2,5,6) bound_nonneg by (auto simp: in_set_conv_nth add_nonneg_nonneg)
  show ?case
  proof (cases "un_proxy n = failed")
    case False
    then obtain ms' where l: "rebind_loop health pick items failed ns b = (ms', b', k)" "ms = n # ms'"
      using Cons.prems(1) by (auto split: prod.splits)
    have "\<forall>i < items. b ! i = bound i ns + (d i + of_bool (un_proxy n = i))"
      using Cons.prems(5) by simp
    from Cons.IH [OF l(1) Cons.prems(2,3) _ this _ Cons.prems(7)] Cons.prems(4,6) False l(2)
    show ?thesis by (auto simp: rebind_rel_def)
  next
    case True
    have "\<forall>i < items. 0 \<le> b ! i \<and> b ! i \<le> 2 ^ 63 - 1"
      using counts_bounded [OF pos Cons.prems(7)] Cons.prems(2) by simp
    from rebind_target_ok [OF assms(8) this assms(9)] obtain t where
      t: "t < items" "rebind_target health pick items failed b = Some t" "t \<noteq> failed"
        "(\<exists>i < items. i \<noteq> failed \<and> health i) \<longrightarrow> health t" by blast
    then obtain ms' k' where l: "rebind_loop health pick items failed ns (move_binding failed t b) = (ms', b', k')"
      "ms = rebound t n # ms'" "k = Suc k'"
      using Cons.prems(1) True by (auto split: prod.splits)
    have c: "\<forall>i < items. move_binding failed t b ! i = bound i ns + (d i + of_bool (i = t))"
      using Cons.prems(2,3,5) True t by (auto simp: move_binding_nth)
    have s: "tally (\<lambda>x. x) (move_binding failed t b) \<le> 2 ^ 63 - 1"
      using tally_move_binding [of failed b t] Cons.prems(2,3,7) t by simp
    from Cons.IH [OF l(1) _ Cons.prems(3) _ c _ s] Cons.prems(2,4,6) t True l(2,3)
    show ?thesis by (auto simp: rebind_rel_def rebound_def)
  qed
qed

lemma binding_total:
  assumes "binding_ok items ns b"
  shows "tally (\<lambda>x. x) b = int (length ns)"
proof -
  have *: "\<forall>n \<in> set ns. un_proxy n < items \<Longrightarrow> tally (\<lambda>i. bound i ns) [0..<items] = int (length ns)" for ns
  proof (induction ns)
    case Nil
    have "tally (\<lambda>i. 0) xs = 0" for xs :: "nat list" by (induction xs) simp_all
    then show ?case by simp
  next
    case (Cons n ns)
    have "tally (\<lambda>i. of_bool (un_proxy n = i) + bound i ns) xs =
        tally (\<lambda>i. of_bool (un_proxy n = i)) xs + tally (\<lambda>i. bound i ns) xs" for xs
      by (induction xs) simp_all
    moreover have "tally (\<lambda>i. of_bool (j = i)) xs = (if j \<in> set xs then 1 else 0)" if "distinct xs" for j :: nat and xs
      using that by (induction xs) auto
    ultimately show ?case using Cons by simp
  qed
  have "b = map (\<lambda>i. bound i ns) [0..<items]"
    using assms by (intro nth_equalityI) (simp_all add: binding_ok_def)
  then have "tally (\<lambda>x. x) b = tally (\<lambda>i. bound i ns) [0..<items]"
    by (simp add: tally_def comp_def)
  with * assms show ?thesis by (simp add: binding_ok_def)
qed

lemma rebind_ok:
  assumes "nodes_ok p" "failed < np_items p" "1 < np_items p" "pick_ok pick"
    "int (length (np_nodes p)) < 2 ^ 63"
  shows "case RebindProxy health pick failed p of (p', moved) \<Rightarrow>
    nodes_ok p' \<and> (\<forall>n \<in> set (np_nodes p'). un_proxy n \<noteq> failed) \<and>
    list_all2 (rebind_rel health (np_items p) failed) (np_nodes p) (np_nodes p') \<and>
    int moved = np_binding p ! failed \<and> np_binding p' ! failed = 0"
proof -
  let ?items = "np_items p"
  obtain ms b k where l: "rebind_loop health pick ?items failed (np_nodes p) (np_binding p) = (ms, b, k)"
    by (metis prod_cases3)
  have bk: "binding_ok ?items (np_nodes p) (np_binding p)" using assms(1) by (simp add: nodes_ok_def)
  have alt: "\<exists>i < ?items. i \<noteq> failed"
    using assms(3) by (intro exI [of _ "if failed = 0 then 1 else 0"]) auto
  have r: "length b = ?items \<and> (\<forall>n \<in> set ms. un_proxy n < ?items \<and> un_proxy n \<noteq> failed) \<and>
    (\<forall>i < ?items. b ! i = bound i ms + 0) \<and> list_all2 (rebind_rel health ?items failed) (np_nodes p) ms \<and>
    k = length (filter (\<lambda>n. un_proxy n = failed) (np_nodes p))"
    by (rule rebind_loop_counts [OF l, where d = "\<lambda>_. 0"])
       (use bk binding_total [OF bk] assms alt in \<open>auto simp: binding_ok_def\<close>)
  have "\<forall>n \<in> set ms. un_preferred n < ?items"
  proof
    fix m assume "m \<in> set ms"
    then obtain n where "n \<in> set (np_nodes p)" "rebind_rel health ?items failed n m"
      using r by (metis list_all2_conv_all_nth in_set_conv_nth)
    then show "un_preferred m < ?items"
      using assms(1) by (auto simp: rebind_rel_def rebound_def nodes_ok_def split: if_splits)
  qed
  moreover have "bound failed ns = int (length (filter (\<lambda>n. un_proxy n = failed) ns))" for ns
    by (induction ns) auto
  moreover have "\<forall>n \<in> set xs. un_proxy n \<noteq> failed \<Longrightarrow> bound failed xs = 0" for xs
    by (induction xs) auto
  then have "bound failed ms = 0" using r by blast
  ultimately show ?thesis
    using r l assms(2,3) bk by (simp add: RebindProxy_def nodes_ok_def binding_ok_def)
qed

text \<open>When a proxy fails, every key leaves it: with another proxy configured, a rebind moves
  exactly the keys bound to the failed proxy (and reports how many), each to another proxy, a
  healthy one whenever there is one, with its failures and cooldown reset; the other keys are
  untouched, and the binding counts stay exact.\<close>

theorem rebind_leaves_failed_proxy:
  assumes "nodes_ok p" "failed < np_items p" "1 < np_items p" "pick_ok pick"
    "int (length (np_nodes p)) < 2 ^ 63"
  shows "case RebindProxy health pick failed p of (p', moved) \<Rightarrow>
    nodes_ok p' \<and> (\<forall>n \<in> set (np_nodes p'). un_proxy n \<noteq> failed) \<and>
    list_all2 (rebind_rel health (np_items p) failed) (np_nodes p) (np_nodes p') \<and>
    int moved = np_binding p ! failed \<and> np_binding p' ! failed = 0"
  by (rule rebind_ok [OF assms])

definition example_nodes :: nodePool where
  "example_nodes = the (newNodePool [''k0'', ''k1'', ''k2''] 2 60)"

lemma example_nodes_eq:
  "example_nodes = \<lparr>
     np_nodes = [\<lparr>un_key = ''k0'', un_preferred = 0, un_proxy = 0, un_failures = 0, un_until = 0\<rparr>,
       \<lparr>un_key = ''k1'', un_preferred = 1, un_proxy = 1, un_failures = 0, un_until = 0\<rparr>,
       \<lparr>un_key = ''k2'', un_preferred = 0, un_proxy = 0, un_failures = 0, un_until = 0\<rparr>],
     np_items = 2, np_next = 0, np_cooldown = 60, np_binding = [2, 1]\<rparr>"
  by (simp add: example_nodes_def newNodePool_def numeral_2_eq_2)

lemma example_nodes_ok: "nodes_ok example_nodes"
  by (simp add: example_nodes_eq nodes_ok_def binding_ok_def less_Suc_eq numeral_2_eq_2)

lemma pick_first: "pick_ok (\<lambda>_. 0)"
  by (simp add: pick_ok_def)

theorem rebind_leaves_failed_proxy_witness:
  "case RebindProxy (\<lambda>_. True) (\<lambda>_. 0) 0 example_nodes of (p', moved) \<Rightarrow>
     int moved = 2 \<and> (\<forall>n \<in> set (np_nodes p'). un_proxy n \<noteq> 0)"
proof -
  have "0 < np_items example_nodes" "1 < np_items example_nodes"
    "int (length (np_nodes example_nodes)) < 2 ^ 63" "np_binding example_nodes ! 0 = 2"
    by (simp_all add: example_nodes_eq)
  with rebind_leaves_failed_proxy [OF example_nodes_ok, of 0 "\<lambda>_. 0" "\<lambda>_. True"] pick_first
  show ?thesis by auto
qed

subsection \<open>Recovery\<close>

lemma restore_ok:
  assumes "nodes_ok p" "r < np_items p"
  shows "case RestoreProxy r p of (p', moved) \<Rightarrow>
    nodes_ok p' \<and>
    np_nodes p' = map (\<lambda>n. if un_preferred n = r \<and> un_proxy n \<noteq> r then rebound r n else n) (np_nodes p) \<and>
    (\<forall>n \<in> set (np_nodes p'). un_preferred n = r \<longrightarrow> un_proxy n = r) \<and>
    moved = length (filter (\<lambda>n. un_preferred n = r \<and> un_proxy n \<noteq> r) (np_nodes p)) \<and>
    RestoreProxy r p' = (p', 0)"
proof -
  obtain ms b k where l: "restore_loop r (np_nodes p) (np_binding p) = (ms, b, k)"
    by (metis prod_cases3)
  have bk: "binding_ok (np_items p) (np_nodes p) (np_binding p)" using assms(1) by (simp add: nodes_ok_def)
  have c: "length b = np_items p \<and> (\<forall>n \<in> set ms. un_proxy n < np_items p) \<and>
    (\<forall>i < np_items p. b ! i = bound i ms + 0) \<and>
    ms = map (\<lambda>n. if un_preferred n = r \<and> un_proxy n \<noteq> r then rebound r n else n) (np_nodes p) \<and>
    k = length (filter (\<lambda>n. un_preferred n = r \<and> un_proxy n \<noteq> r) (np_nodes p))"
    using restore_loop_counts [OF l, of "\<lambda>_. 0"] bk assms(2) by (simp add: binding_ok_def)
  have settled: "\<forall>n \<in> set ns. un_preferred n = r \<longrightarrow> un_proxy n = r \<Longrightarrow> restore_loop r ns x = (ns, x, 0)" for ns x
    by (induction ns) auto
  let ?f = "\<lambda>n. if un_preferred n = r \<and> un_proxy n \<noteq> r then rebound r n else n"
  have f: "un_preferred (?f n) = un_preferred n" "un_preferred n = r \<longrightarrow> un_proxy (?f n) = r" for n
    by (simp_all add: rebound_def)
  have ms: "ms = map ?f (np_nodes p)" using c by blast
  have m1: "\<forall>n \<in> set ms. un_preferred n = r \<longrightarrow> un_proxy n = r"
    unfolding ms set_map ball_simps f(1) using f(2) by blast
  have m2: "\<forall>n \<in> set ms. un_preferred n < np_items p"
    unfolding ms set_map ball_simps f(1) using assms(1) by (simp add: nodes_ok_def)
  note m = m1 m2
  let ?p = "p\<lparr>np_nodes := ms, np_binding := b\<rparr>"
  have eq: "RestoreProxy r p = (?p, k)" using l assms(2) by (simp add: RestoreProxy_def)
  show ?thesis
    unfolding eq prod.case
  proof (intro conjI)
    show "nodes_ok ?p" using c m(2) by (simp add: nodes_ok_def binding_ok_def)
    show "np_nodes ?p = map ?f (np_nodes p)" unfolding ms by simp
    show "\<forall>n \<in> set (np_nodes ?p). un_preferred n = r \<longrightarrow> un_proxy n = r" using m(1) by simp
    show "k = length (filter (\<lambda>n. un_preferred n = r \<and> un_proxy n \<noteq> r) (np_nodes p))" using c by blast
    show "RestoreProxy r ?p = (?p, 0)" using settled [OF m(1)] assms(2) by (simp add: RestoreProxy_def)
  qed
qed

text \<open>When a proxy recovers, it gets back exactly the keys that prefer it: after a restore every
  such key is bound to it, the moved ones with failures and cooldown reset, the others are
  untouched, and the binding counts stay exact; and a restore followed by a restore moves none.\<close>

theorem restore_returns_keys:
  assumes "nodes_ok p" "r < np_items p"
  shows "case RestoreProxy r p of (p', moved) \<Rightarrow>
    nodes_ok p' \<and>
    np_nodes p' = map (\<lambda>n. if un_preferred n = r \<and> un_proxy n \<noteq> r then rebound r n else n) (np_nodes p) \<and>
    (\<forall>n \<in> set (np_nodes p'). un_preferred n = r \<longrightarrow> un_proxy n = r) \<and>
    moved = length (filter (\<lambda>n. un_preferred n = r \<and> un_proxy n \<noteq> r) (np_nodes p)) \<and>
    RestoreProxy r p' = (p', 0)"
  by (rule restore_ok [OF assms])

definition moved_nodes :: nodePool where
  "moved_nodes = \<lparr>
     np_nodes = [\<lparr>un_key = ''k0'', un_preferred = 0, un_proxy = 1, un_failures = 0, un_until = 0\<rparr>,
       \<lparr>un_key = ''k1'', un_preferred = 1, un_proxy = 1, un_failures = 0, un_until = 0\<rparr>],
     np_items = 2, np_next = 0, np_cooldown = 60, np_binding = [0, 2]\<rparr>"

theorem restore_returns_keys_witness:
  "case RestoreProxy 0 moved_nodes of (p', moved) \<Rightarrow> nodes_ok p' \<and> moved = 1"
proof -
  have "nodes_ok moved_nodes" "0 < np_items moved_nodes"
    by (simp_all add: moved_nodes_def nodes_ok_def binding_ok_def less_Suc_eq numeral_2_eq_2)
  moreover have "length (filter (\<lambda>n. un_preferred n = 0 \<and> un_proxy n \<noteq> 0) (np_nodes moved_nodes)) = 1"
    by (simp add: moved_nodes_def)
  ultimately show ?thesis
    using restore_returns_keys [of moved_nodes 0] unfolding case_prod_unfold by metis
qed

subsection \<open>Cursors\<close>

lemma node_search_result:
  assumes "offs \<noteq> [] \<or> choice \<noteq> None"
  shows "\<exists>i. node_search now ns nxt offs choice = Some i \<and>
    ((\<exists>o' \<in> set offs. i = (nxt + o') mod length ns) \<or> (\<exists>e. choice = Some (i, e))) \<and>
    ((\<exists>o' \<in> set offs. un_until (ns ! ((nxt + o') mod length ns)) \<le> now) \<longrightarrow> un_until (ns ! i) \<le> now)"
  using assms
proof (induction offs arbitrary: choice)
  case Nil
  then show ?case by (cases choice) auto
next
  case (Cons f fs)
  show ?case
  proof (cases "un_until (ns ! ((nxt + f) mod length ns)) \<le> now")
    case True
    then show ?thesis by auto
  next
    case False
    let ?i = "(nxt + f) mod length ns"
    define c where "c = (case choice of None \<Rightarrow> Some (?i, un_until (ns ! ?i))
      | Some (c, e) \<Rightarrow> if un_until (ns ! ?i) < e then Some (?i, un_until (ns ! ?i)) else Some (c, e))"
    have "c \<noteq> None" by (auto simp: c_def split: option.split)
    with Cons.IH [of c] obtain j where j: "node_search now ns nxt fs c = Some j"
      "(\<exists>o' \<in> set fs. j = (nxt + o') mod length ns) \<or> (\<exists>e. c = Some (j, e))"
      "(\<exists>o' \<in> set fs. un_until (ns ! ((nxt + o') mod length ns)) \<le> now) \<longrightarrow> un_until (ns ! j) \<le> now"
      by blast
    have from_c: "j = ?i \<or> (\<exists>e. choice = Some (j, e))" if "c = Some (j, e)" for e
      using that by (cases choice) (auto simp: c_def split: if_splits)
    have "(\<exists>o' \<in> set (f # fs). j = (nxt + o') mod length ns) \<or> (\<exists>e. choice = Some (j, e))"
      using j(2) from_c by auto
    moreover have "node_search now ns nxt (f # fs) choice = Some j"
      using False j(1) by (simp add: Let_def c_def)
    moreover have "(\<exists>o' \<in> set (f # fs). un_until (ns ! ((nxt + o') mod length ns)) \<le> now) \<longrightarrow> un_until (ns ! j) \<le> now"
      using False j(3) by simp
    ultimately show ?thesis by blast
  qed
qed

lemma mod_reaches:
  assumes "(i :: nat) < n"
  shows "\<exists>k \<in> set [0..<n]. i = (s + k) mod n"
proof -
  have "(s + (i + n - s mod n) mod n) mod n = (s mod n + (i + n - s mod n)) mod n"
    by (simp add: mod_simps)
  also have "s mod n + (i + n - s mod n) = i + n"
    using assms mod_less_divisor [of n s] by linarith
  also have "(i + n) mod n = i" using assms by simp
  finally show ?thesis
    using assms by (intro bexI [of _ "(i + n - s mod n) mod n"]) auto
qed

text \<open>A key cursor always answers: a pool with keys gives a key on every call, one that is out of
  its cooldown whenever there is one (a cooling key only when all of them cool), and the next
  call starts after it; an empty pool gives none.\<close>

theorem node_cursor_answers:
  assumes "np_nodes p \<noteq> []"
  shows "\<exists>i < length (np_nodes p). node_Next now p nxt = (Some i, (i + 1) mod length (np_nodes p)) \<and>
    ((\<exists>n \<in> set (np_nodes p). un_until n \<le> now) \<longrightarrow> un_until (np_nodes p ! i) \<le> now)"
proof -
  let ?ns = "np_nodes p"
  obtain i where i: "node_search now ?ns nxt [0..<length ?ns] None = Some i"
    "\<exists>f \<in> set [0..<length ?ns]. i = (nxt + f) mod length ?ns"
    "(\<exists>f \<in> set [0..<length ?ns]. un_until (?ns ! ((nxt + f) mod length ?ns)) \<le> now) \<longrightarrow> un_until (?ns ! i) \<le> now"
    using node_search_result [of "[0..<length ?ns]" None now ?ns nxt] assms by auto
  have "i < length ?ns" using i(2) assms by auto
  moreover have "un_until (?ns ! i) \<le> now" if n: "n \<in> set ?ns" "un_until n \<le> now" for n
  proof -
    obtain j where j: "j < length ?ns" "n = ?ns ! j" using n(1) by (metis in_set_conv_nth)
    with mod_reaches [OF j(1), of nxt] n(2) i(3) show ?thesis by metis
  qed
  ultimately show ?thesis using i(1) assms by (auto simp: node_Next_def)
qed

theorem node_cursor_answers_witness:
  "fst (node_Next 5 example_nodes 2) \<noteq> None"
proof -
  have "np_nodes example_nodes \<noteq> []" by (simp add: example_nodes_eq)
  from node_cursor_answers [OF this, of 5 2] show ?thesis by auto
qed

text \<open>The proxy at a position of the ring, when it can be used.\<close>

definition usable_at :: "(nat \<Rightarrow> bool) \<Rightarrow> int \<Rightarrow> anonymousPool \<Rightarrow> nat \<Rightarrow> bool" where
  "usable_at health now p k =
    (let i = k mod length (ap_nodes p) in health i \<and> an_until (ap_nodes p ! i) \<le> now)"

lemma anonymous_Next_step:
  "anonymous_Next health now p c =
    (if cu_offset c < length (ap_nodes p) then
       if usable_at health now p (cu_start c + cu_offset c)
       then (Some ((cu_start c + cu_offset c) mod length (ap_nodes p)), c\<lparr>cu_offset := Suc (cu_offset c)\<rparr>)
       else anonymous_Next health now p (c\<lparr>cu_offset := Suc (cu_offset c)\<rparr>)
     else (None, c))"
  by (subst anonymous_Next.simps) (simp add: usable_at_def Let_def)

lemma anonymous_Next_ok:
  "case anonymous_Next health now p c of
      (Some i, c') \<Rightarrow> \<exists>o'. cu_offset c \<le> o' \<and> o' < length (ap_nodes p) \<and> c' = c\<lparr>cu_offset := Suc o'\<rparr> \<and>
        i = (cu_start c + o') mod length (ap_nodes p) \<and> usable_at health now p (cu_start c + o') \<and>
        (\<forall>k \<in> {cu_offset c..<o'}. \<not> usable_at health now p (cu_start c + k))
    | (None, c') \<Rightarrow> length (ap_nodes p) \<le> cu_offset c' \<and>
        (\<forall>k \<in> {cu_offset c..<length (ap_nodes p)}. \<not> usable_at health now p (cu_start c + k))"
proof (induction health now p c rule: anonymous_Next.induct)
  case (1 health now p c)
  let ?n = "length (ap_nodes p)"
  let ?c = "c\<lparr>cu_offset := Suc (cu_offset c)\<rparr>"
  show ?case
  proof (cases "cu_offset c < ?n")
    case False
    then have "anonymous_Next health now p c = (None, c)" by (subst anonymous_Next_step) simp
    with False show ?thesis by simp
  next
    case True
    show ?thesis
    proof (cases "usable_at health now p (cu_start c + cu_offset c)")
      case good: True
      with True have "anonymous_Next health now p c = (Some ((cu_start c + cu_offset c) mod ?n), ?c)"
        by (subst anonymous_Next_step) simp
      with True good show ?thesis by (auto intro!: exI [of _ "cu_offset c"])
    next
      case bad: False
      with True have step: "anonymous_Next health now p c = anonymous_Next health now p ?c"
        by (subst anonymous_Next_step) simp
      have more: "(\<forall>k \<in> {cu_offset c..<m}. \<not> usable_at health now p (cu_start c + k)) \<longleftrightarrow>
          (\<forall>k \<in> {cu_offset ?c..<m}. \<not> usable_at health now p (cu_start c + k))" for m
        using bad by (simp, metis Suc_leD atLeastLessThan_iff le_antisym not_less_eq_eq)
      note ih = "1.IH" [OF True refl refl, unfolded Suc_eq_plus1 [symmetric]]
      have "\<not> (health ((cu_start c + cu_offset c) mod ?n) \<and>
          an_until (ap_nodes p ! ((cu_start c + cu_offset c) mod ?n)) \<le> now)"
        using bad by (simp add: usable_at_def Let_def)
      note ih = ih [OF this]
      obtain r c' where rc: "anonymous_Next health now p ?c = (r, c')" by fastforce
      have eq: "anonymous_Next health now p c = (r, c')" using step rc by (rule trans)
      have off: "cu_start ?c = cu_start c" by simp
      show ?thesis
      proof (cases r)
        case None
        from ih show ?thesis unfolding rc eq None prod.case option.case off more .
      next
        case (Some i)
        from ih obtain o' where o': "cu_offset ?c \<le> o'" "o' < ?n" "c' = ?c\<lparr>cu_offset := Suc o'\<rparr>"
          "i = (cu_start c + o') mod ?n" "usable_at health now p (cu_start c + o')"
          "\<forall>k \<in> {cu_offset ?c..<o'}. \<not> usable_at health now p (cu_start c + k)"
          unfolding rc Some prod.case option.case off by blast
        have "c' = c\<lparr>cu_offset := Suc o'\<rparr>" "cu_offset c \<le> o'" using o'(1,3) by simp_all
        then show ?thesis unfolding eq Some prod.case option.case more using o' by blast
      qed
    qed
  qed
qed

text \<open>An anonymous cursor visits each proxy at most once: each answer is healthy and out of its
  cooldown, lies beyond every position visited before, and every position passed over on the way,
  up to the end of the ring when the cursor ends, was unusable.\<close>

theorem anonymous_cursor_visits_once:
  "case anonymous_Next health now p c of
      (Some i, c') \<Rightarrow> \<exists>o'. cu_offset c \<le> o' \<and> o' < length (ap_nodes p) \<and> c' = c\<lparr>cu_offset := Suc o'\<rparr> \<and>
        i = (cu_start c + o') mod length (ap_nodes p) \<and> usable_at health now p (cu_start c + o') \<and>
        (\<forall>k \<in> {cu_offset c..<o'}. \<not> usable_at health now p (cu_start c + k))
    | (None, c') \<Rightarrow> length (ap_nodes p) \<le> cu_offset c' \<and>
        (\<forall>k \<in> {cu_offset c..<length (ap_nodes p)}. \<not> usable_at health now p (cu_start c + k))"
  by (rule anonymous_Next_ok)

theorem anonymous_cursor_visits_once_witness:
  "fst (anonymous_Next (\<lambda>i. i = 1) 0 (newAnonymousPool True (Some 3) 60) \<lparr>cu_start = 2, cu_offset = 0\<rparr>) = Some 1"
proof -
  let ?p = "newAnonymousPool True (Some 3) 60"
  let ?c = "\<lparr>cu_start = 2, cu_offset = 0\<rparr> :: cursor"
  have n: "length (ap_nodes ?p) = 3" by (simp add: newAnonymousPool_def)
  have u: "usable_at (\<lambda>i. i = 1) 0 ?p k \<longleftrightarrow> k mod 3 = 1" for k
    by (auto simp: usable_at_def newAnonymousPool_def)
  obtain r c' where rc: "anonymous_Next (\<lambda>i. i = 1) 0 ?p ?c = (r, c')" by fastforce
  note t = anonymous_cursor_visits_once [where health = "\<lambda>i. i = 1" and now = 0 and p = ?p and c = ?c,
      unfolded rc prod.case n u]
  show ?thesis
  proof (cases r)
    case None
    with t have "\<forall>k \<in> {0..<3 :: nat}. Suc (Suc k) mod 3 \<noteq> Suc 0" by simp
    then have "Suc (Suc 2) mod 3 \<noteq> Suc (0 :: nat)" by (rule bspec) simp
    then show ?thesis by simp
  next
    case (Some i)
    with t have "i = 1" by auto
    with Some rc show ?thesis by simp
  qed
qed

subsection \<open>Backoff\<close>

lemma backoff_bounds: "0 \<le> cooldown \<Longrightarrow> cooldown \<le> backoff cooldown f \<and> backoff cooldown f \<le> cooldown * 8"
proof -
  assume c: "0 \<le> cooldown"
  have "(1 :: int) \<le> 2 ^ min (unat (f - 1)) 3" by simp
  moreover have "(2 :: int) ^ min (unat (f - 1)) 3 \<le> 2 ^ 3" by (intro power_increasing) simp_all
  ultimately have "cooldown * 1 \<le> cooldown * 2 ^ min (unat (f - 1)) 3"
    "cooldown * 2 ^ min (unat (f - 1)) 3 \<le> cooldown * 8"
    using c by (intro mult_left_mono; simp)+
  then show ?thesis by (simp add: backoff_def)
qed

text \<open>An anonymous proxy never cools for longer than eight times the configured cooldown, whatever
  an upstream's Retry-After says (overflowing values included), and never for less than once the
  cooldown when a failure counts.\<close>

theorem anonymous_delay_bounded:
  assumes "0 \<le> cooldown"
  shows "cooldown \<le> anonymous_delay until cooldown failures resp \<and>
    anonymous_delay until cooldown failures resp \<le> cooldown * 8"
  using backoff_bounds [OF assms, of failures]
  by (auto simp: anonymous_delay_def Let_def split: option.split)

theorem anonymous_delay_bounded_witness:
  "anonymous_delay (\<lambda>_. None) 60 3 (Some \<lparr>r_status = 429, r_retryAfter = ''7200''\<rparr>) \<le> 60 * 8"
  using anonymous_delay_bounded [of 60 "\<lambda>_. None" 3] by simp

subsection \<open>The counts over time\<close>

datatype node_event =
    NRebind "nat \<Rightarrow> bool" "nat \<Rightarrow> nat" nat
  | NRestore nat
  | NSuccess nat
  | NFailure "string \<Rightarrow> int option" int nat "response option" "net_error option"
  | NCursor string

fun node_step :: "nodePool \<Rightarrow> node_event \<Rightarrow> nodePool" where
  "node_step p (NRebind health pick failed) = fst (RebindProxy health pick failed p)"
| "node_step p (NRestore r) = fst (RestoreProxy r p)"
| "node_step p (NSuccess i) = node_MarkSuccess i p"
| "node_step p (NFailure until now i resp err) = node_MarkFailure until now i resp err p"
| "node_step p (NCursor a) = snd (node_CursorFor a p)"

fun node_ok :: "nodePool \<Rightarrow> node_event \<Rightarrow> bool" where
  "node_ok p (NRebind health pick failed) = pick_ok pick"
| "node_ok p _ = True"

definition nodes_inv :: "nat \<Rightarrow> nodePool \<Rightarrow> bool" where
  "nodes_inv k p = (nodes_ok p \<and> length (np_nodes p) = k \<and> int k < 2 ^ 63)"

lemma bound_update:
  "un_proxy m = un_proxy (ns ! i) \<Longrightarrow> bound j (ns[i := m]) = bound j ns"
  unfolding bound_def by (rule tally_update_same) simp

lemma nodes_ok_mark:
  assumes "nodes_ok p" "un_proxy m = un_proxy (np_nodes p ! i)" "un_preferred m = un_preferred (np_nodes p ! i)"
  shows "nodes_ok (p\<lparr>np_nodes := (np_nodes p)[i := m]\<rparr>)"
proof (cases "i < length (np_nodes p)")
  case True
  then have "np_nodes p ! i \<in> set (np_nodes p)" by simp
  with assms show ?thesis
    by (auto simp: nodes_ok_def binding_ok_def bound_update dest!: set_update_subset_insert [THEN subsetD])
next
  case False
  then have "(np_nodes p)[i := m] = np_nodes p" by (simp add: list_update_beyond)
  with assms(1) show ?thesis by (simp add: nodes_ok_def)
qed

lemma nodes_inv_step:
  assumes "nodes_inv k p" "node_ok p e"
  shows "nodes_inv k (node_step p e)"
proof (cases e)
  case (NRebind health pick failed)
  show ?thesis
  proof (cases "failed < np_items p \<and> 1 < np_items p")
    case True
    obtain p' moved where eq: "RebindProxy health pick failed p = (p', moved)" by fastforce
    have "nodes_ok p \<and> pick_ok pick \<and> int (length (np_nodes p)) < 2 ^ 63"
      using assms NRebind by (simp add: nodes_inv_def)
    with True rebind_ok [of p failed pick health] have
      "nodes_ok p'" "list_all2 (rebind_rel health (np_items p) failed) (np_nodes p) (np_nodes p')"
      unfolding eq prod.case by blast+
    then show ?thesis
      using NRebind assms(1) eq list_all2_lengthD by (force simp: nodes_inv_def)
  next
    case False
    then have "RebindProxy health pick failed p = (p, 0)" by (auto simp: RebindProxy_def)
    then show ?thesis using NRebind assms(1) by simp
  qed
next
  case (NRestore r)
  show ?thesis
  proof (cases "r < np_items p")
    case True
    obtain p' moved where eq: "RestoreProxy r p = (p', moved)" by fastforce
    have "nodes_ok p" using assms(1) by (simp add: nodes_inv_def)
    from restore_ok [OF this True] have "nodes_ok p' \<and> length (np_nodes p') = length (np_nodes p)"
      unfolding eq prod.case by (metis (no_types, lifting) length_map)
    then show ?thesis using NRestore assms(1) eq by (simp add: nodes_inv_def)
  next
    case False
    then have "RestoreProxy r p = (p, 0)" by (simp add: RestoreProxy_def)
    then show ?thesis using NRestore assms(1) by simp
  qed
next
  case (NSuccess i)
  then show ?thesis
    using assms(1) nodes_ok_mark [of p "(np_nodes p ! i)\<lparr>un_failures := 0, un_until := 0\<rparr>" i]
    by (simp add: node_MarkSuccess_def nodes_inv_def)
next
  case (NFailure until now i resp err)
  then show ?thesis
    using assms(1) by (auto simp: node_MarkFailure_def nodes_inv_def Let_def intro!: nodes_ok_mark)
next
  case (NCursor a)
  then show ?thesis
    using assms(1) by (auto simp: node_CursorFor_def nodes_inv_def nodes_ok_def split: prod.split)
qed

interpretation nodes: guarded_machine node_step node_ok "nodes_inv k" for k
  by unfold_locales (rule nodes_inv_step)

lemma new_binding:
  assumes "0 < items"
  shows "length (foldl (\<lambda>b (i, key). b[i mod items := b ! (i mod items) + 1]) b xs) = length b \<and>
    (length b = items \<longrightarrow> (\<forall>j < items.
      foldl (\<lambda>b (i, key). b[i mod items := b ! (i mod items) + 1]) b xs ! j =
      b ! j + bound j (map (\<lambda>(i, key). \<lparr>un_key = key, un_preferred = i mod items,
        un_proxy = i mod items, un_failures = 0, un_until = 0\<rparr>) xs)))"
proof (induction xs arbitrary: b)
  case Nil
  then show ?case by simp
next
  case (Cons x xs)
  obtain i key where x: "x = (i, key)" by fastforce
  have "i mod items < items" using assms by simp
  with Cons.IH [of "b[i mod items := b ! (i mod items) + 1]"] show ?case
    by (auto simp: x nth_list_update)
qed

lemma newNodePool_ok:
  assumes "newNodePool keys items cooldown = Some p"
  shows "nodes_ok p \<and> length (np_nodes p) = length keys \<and> np_items p = items"
proof -
  have "0 < items" using assms by (auto simp: newNodePool_def split: if_splits)
  with assms new_binding [of items "replicate items 0" "enumerate 0 keys"] show ?thesis
    by (auto simp: newNodePool_def nodes_ok_def binding_ok_def)
qed

text \<open>C9. The binding counts are exact over time: from the construction of the pool, after any run of
  rebinds, restores, marks and cursors, every key is bound to a configured proxy and prefers one,
  the count of each proxy is the number of keys bound to it, and the counts add up to the keys.\<close>

theorem binding_counts_exact:
  assumes "newNodePool keys items cooldown = Some p" "int (length keys) < 2 ^ 63"
    "legal node_step node_ok p es"
  shows "nodes_ok (run node_step p es) \<and>
    length (np_nodes (run node_step p es)) = length keys \<and>
    tally (\<lambda>x. x) (np_binding (run node_step p es)) = int (length keys)"
proof -
  have "nodes_inv (length keys) p"
    using newNodePool_ok [OF assms(1)] assms(2) by (simp add: nodes_inv_def)
  then have inv: "nodes_inv (length keys) (run node_step p es)"
    using assms(3) by (rule nodes.run_inv)
  then have "nodes_ok (run node_step p es)" by (simp add: nodes_inv_def)
  then have "tally (\<lambda>x. x) (np_binding (run node_step p es)) = int (length (np_nodes (run node_step p es)))"
    unfolding nodes_ok_def by (blast intro: binding_total)
  with inv show ?thesis by (simp add: nodes_inv_def)
qed

theorem binding_counts_exact_witness:
  "nodes_ok (run node_step example_nodes
     [NCursor ''user'', NRebind (\<lambda>_. True) (\<lambda>_. 0) 0, NSuccess 1, NRestore 0])"
proof -
  have "newNodePool [''k0'', ''k1'', ''k2''] 2 60 = Some example_nodes"
    by (simp add: example_nodes_eq newNodePool_def numeral_2_eq_2)
  moreover have "legal node_step node_ok example_nodes
     [NCursor ''user'', NRebind (\<lambda>_. True) (\<lambda>_. 0) 0, NSuccess 1, NRestore 0]"
    using pick_first by simp
  ultimately show ?thesis
    using binding_counts_exact [of "[''k0'', ''k1'', ''k2'']" 2 60 example_nodes] by (simp del: run.simps)
qed

end
