(* ===== verification/Json.thy ===== *)
theory Json
  imports Prelude GoFloat "HOL-Library.AList"
begin

text \<open>
  Decoded JSON values (\<open>any\<close> after \<open>encoding/json\<close>, with the int that Go code may put into a
  map beside the float64 of the decoder) and the accessors of internal/jsonutil/value.go. An
  object is the list of its members, which has each key once; reading a missing key gives nil,
  which is also the value null. A nil map reads like an empty one.
\<close>

datatype json =
    JNull
  | JBool bool
  | JNum f64
  | JInt int
  | JStr string
  | JList "json list"
  | JObj "(string \<times> json) list"

type_synonym json_object = "(string \<times> json) list"

definition jget :: "json_object \<Rightarrow> string \<Rightarrow> json" where
  "jget m k = (case map_of m k of None \<Rightarrow> JNull | Some v \<Rightarrow> v)"

text \<open>The type assertions with a discarded flag: \<open>s, _ := v.(string)\<close> and so on.\<close>

definition as_str :: "json \<Rightarrow> string" where
  "as_str v = (case v of JStr s \<Rightarrow> s | _ \<Rightarrow> [])"

definition as_list :: "json \<Rightarrow> json list" where
  "as_list v = (case v of JList xs \<Rightarrow> xs | _ \<Rightarrow> [])"

definition as_obj :: "json \<Rightarrow> json_object" where
  "as_obj v = (case v of JObj m \<Rightarrow> m | _ \<Rightarrow> [])"

definition as_bool :: "json \<Rightarrow> bool" where
  "as_bool v = (case v of JBool b \<Rightarrow> b | _ \<Rightarrow> False)"

lemma jget_nil [simp]: "jget [] k = JNull"
  by (simp add: jget_def)

lemma as_null [simp]: "as_str JNull = []" "as_list JNull = []"
  by (simp_all add: as_str_def as_list_def)

subsection \<open>Accessors along a path\<close>

fun walk :: "json \<Rightarrow> string list \<Rightarrow> json" where
  "walk v [] = v"
| "walk v (k # ks) = (case v of JObj m \<Rightarrow> walk (jget m k) ks | _ \<Rightarrow> JNull)"

definition AnyAt :: "json_object \<Rightarrow> string list \<Rightarrow> json" where
  "AnyAt m ks = walk (JObj m) ks"

definition SliceAt :: "json_object \<Rightarrow> string list \<Rightarrow> json list" where
  "SliceAt m ks = as_list (AnyAt m ks)"

definition MapAt :: "json_object \<Rightarrow> string list \<Rightarrow> json_object" where
  "MapAt m ks = as_obj (AnyAt m ks)"

definition StringAt :: "json_object \<Rightarrow> string list \<Rightarrow> string" where
  "StringAt m ks = as_str (AnyAt m ks)"

definition BoolAt :: "json_object \<Rightarrow> string list \<Rightarrow> bool" where
  "BoolAt m ks = as_bool (AnyAt m ks)"

text \<open>
  \<open>int(number)\<close>: truncation towards zero. Outside the range of int64 the language leaves the result
  to the implementation; on amd64 it is the least int64.
\<close>

definition int_of_float :: "f64 \<Rightarrow> int" where
  "int_of_float x =
    (case x of
       Fin q \<Rightarrow>
         let n = (if q < 0 then ceiling q else floor q) in if go_int n then n else - (2 ^ 63)
     | _ \<Rightarrow> - (2 ^ 63))"

definition int_at :: "json \<Rightarrow> int" where
  "int_at v = (case v of JNum x \<Rightarrow> int_of_float x | JInt n \<Rightarrow> n | _ \<Rightarrow> 0)"

definition IntAt :: "json_object \<Rightarrow> string list \<Rightarrow> int" where
  "IntAt m ks = int_at (AnyAt m ks)"

fun FirstNonZero :: "int list \<Rightarrow> int" where
  "FirstNonZero [] = 0"
| "FirstNonZero (v # vs) = (if v \<noteq> 0 then v else FirstNonZero vs)"

fun FirstAny :: "json list \<Rightarrow> json" where
  "FirstAny [] = JNull"
| "FirstAny (v # vs) = (if v \<noteq> JNull then v else FirstAny vs)"

fun FirstString :: "string list \<Rightarrow> string" where
  "FirstString [] = []"
| "FirstString (v # vs) = (let v = trim_space v in if v \<noteq> [] then v else FirstString vs)"

text \<open>\<open>object[key] = value\<close>, and the variant that leaves nil out.\<close>

definition jset :: "string \<Rightarrow> json \<Rightarrow> json_object \<Rightarrow> json_object" where
  "jset k v m = AList.update k v m"

definition Put :: "json_object \<Rightarrow> string \<Rightarrow> json \<Rightarrow> json_object" where
  "Put m k v = (if v \<noteq> JNull then jset k v m else m)"

definition AsSlice :: "json \<Rightarrow> json list" where
  "AsSlice v = (case v of JList xs \<Rightarrow> xs | JNull \<Rightarrow> [] | _ \<Rightarrow> [v])"

text \<open>The copy of a decoded tree: None where the source falls back to the JSON codec.\<close>

fun cloneJSONTree :: "json \<Rightarrow> json option"
  and clone_list :: "json list \<Rightarrow> json list option"
  and clone_members :: "(string \<times> json) list \<Rightarrow> (string \<times> json) list option" where
  "cloneJSONTree (JObj m) = map_option JObj (clone_members m)"
| "cloneJSONTree (JList xs) = map_option JList (clone_list xs)"
| "cloneJSONTree (JNum x) = (if isNaN x \<or> isInf x then None else Some (JNum x))"
| "cloneJSONTree (JInt n) = None"
| "cloneJSONTree v = Some v"
| "clone_list [] = Some []"
| "clone_list (x # xs) =
    (case cloneJSONTree x of None \<Rightarrow> None
     | Some y \<Rightarrow> (case clone_list xs of None \<Rightarrow> None | Some ys \<Rightarrow> Some (y # ys)))"
| "clone_members [] = Some []"
| "clone_members ((k, x) # ms) =
    (case cloneJSONTree x of None \<Rightarrow> None
     | Some y \<Rightarrow> (case clone_members ms of None \<Rightarrow> None | Some ys \<Rightarrow> Some ((k, y) # ys)))"

lemma jget_set [simp]: "jget (jset k v m) l = (if l = k then v else jget m l)"
  by (simp add: jget_def jset_def update_conv)

lemma jset_keys [simp]: "distinct (map fst m) \<Longrightarrow> distinct (map fst (jset k v m))"
  by (simp add: jset_def distinct_update)

text \<open>A clone that succeeds is the value itself, and it succeeds exactly when every number in the
  tree is a finite float.\<close>

fun plain_json :: "json \<Rightarrow> bool" where
  "plain_json (JObj m) = list_all (\<lambda>(k, v). plain_json v) m"
| "plain_json (JList xs) = list_all plain_json xs"
| "plain_json (JNum x) = (\<not> isNaN x \<and> \<not> isInf x)"
| "plain_json (JInt n) = False"
| "plain_json _ = True"

lemma clone_plain:
  "cloneJSONTree v = (if plain_json v then Some v else None)"
  "clone_list xs = (if list_all plain_json xs then Some xs else None)"
  "clone_members ms = (if list_all (\<lambda>(k, v). plain_json v) ms then Some ms else None)"
  by (induction v and xs and ms rule: cloneJSONTree_clone_list_clone_members.induct) auto

end
