(* ===== verification/SessionKeys.thy ===== *)
theory SessionKeys
  imports Json
begin

text \<open>
  The identity of a session: internal/workbuddy/runtime/session.go (key extraction and scoping)
  and internal/core/provider/session.go (bounded identifiers).

  \<open>sha\<close> is SHA-256 as a byte function. \<open>user_json\<close> is the decoding of a \<open>user_id\<close> text into the
  struct with a \<open>session_id\<close>: None when it fails, the empty string when the member is missing.
\<close>

record session_env =
  env_sha :: "string \<Rightarrow> nat list"
  env_user_json :: "string \<Rightarrow> string option"

definition BoundedSessionID :: "string \<Rightarrow> string" where
  "BoundedSessionID value =
    (let value = trim_space value
     in if value = [] \<or> length value > 512 then []
        else if has_control value then [] else value)"

lemma bounded_nil [simp]: "BoundedSessionID [] = []"
  unfolding BoundedSessionID_def by (simp add: Let_def)

text \<open>The first candidate that survives the bound, or the empty string.\<close>

fun first_bounded :: "string list \<Rightarrow> string" where
  "first_bounded [] = []"
| "first_bounded (v # vs) = (if BoundedSessionID v \<noteq> [] then BoundedSessionID v else first_bounded vs)"

definition session_headers :: "string list" where
  "session_headers = [''X-Claude-Code-Session-Id'', ''X-Session-Id'', ''Session-Id'',
     ''X-Conversation-Id'', ''Conversation-Id'', ''session_id'', ''conversation_id'']"

text \<open>\<open>headers\<close> is \<open>Get\<close>, None a nil interface.\<close>

definition HeaderSessionID :: "(string \<Rightarrow> string) option \<Rightarrow> string" where
  "HeaderSessionID headers =
    (case headers of None \<Rightarrow> [] | Some get \<Rightarrow> first_bounded (map get session_headers))"

definition body_ids :: "json_object \<Rightarrow> string" where
  "body_ids body = first_bounded (map (\<lambda>k. as_str (jget body k)) [''session_id'', ''conversation_id''])"

definition meta_ids :: "json_object \<Rightarrow> string" where
  "meta_ids meta =
    first_bounded (map (\<lambda>k. as_str (jget meta k)) [''conversation_id'', ''conversationId'', ''session_id''])"

definition ExplicitSessionID :: "(string \<Rightarrow> string) option \<Rightarrow> json_object \<Rightarrow> string" where
  "ExplicitSessionID headers body =
    (if HeaderSessionID headers \<noteq> [] then HeaderSessionID headers
     else if body_ids body \<noteq> [] then body_ids body
     else case jget body ''metadata'' of JObj meta \<Rightarrow> meta_ids meta | _ \<Rightarrow> [])"

subsection \<open>Extraction from a body\<close>

text \<open>The legacy form \<open>user_..._session_<uuid>\<close>.\<close>

definition legacy_session :: "string \<Rightarrow> string option" where
  "legacy_session raw =
    (case after_last ''_session_'' raw of
       None \<Rightarrow> None
     | Some value \<Rightarrow>
         if has_prefix raw ''user_'' \<and> length value = 36 \<and>
            (\<forall>i \<in> {8, 13, 18, 23}. value ! i = CHR ''-'') \<and>
            (let digits = filter (\<lambda>c. c \<noteq> CHR ''-'') value
             in length digits = 32 \<and> (\<forall>c \<in> set digits. is_hex c))
         then Some (map ascii_lower value) else None)"

definition metadata_key :: "session_env \<Rightarrow> json_object \<Rightarrow> string" where
  "metadata_key env meta =
    (if meta_ids meta \<noteq> [] then ''sid:'' @ meta_ids meta
     else
       let raw = as_str (jget meta ''user_id'')
       in if length raw > 512 then []
          else
            let ident = (case env_user_json env raw of None \<Rightarrow> [] | Some v \<Rightarrow> BoundedSessionID v)
            in if ident \<noteq> [] then ''sid:'' @ ident
               else case legacy_session raw of None \<Rightarrow> [] | Some v \<Rightarrow> ''sid:'' @ v)"

definition weakSessionText :: "session_env \<Rightarrow> string \<Rightarrow> string" where
  "weakSessionText env text =
    (if trim_space text = [] then []
     else ''fb:'' @ take 16 (hex_encode (env_sha env text)))"

definition user_key :: "json_object \<Rightarrow> string" where
  "user_key body =
    (case jget body ''user'' of
       JStr u \<Rightarrow> (let s = trim_space u in
         if 8 \<le> length s \<and> length s \<le> 128 then ''user:'' @ s else [])
     | _ \<Rightarrow> [])"

definition text_block :: "json \<Rightarrow> string list" where
  "text_block p =
    (case p of
       JObj b \<Rightarrow> if jget b ''type'' = JStr ''text''
                 then (case jget b ''text'' of JStr t \<Rightarrow> [t] | _ \<Rightarrow> []) else []
     | _ \<Rightarrow> [])"

definition message_text :: "json \<Rightarrow> string" where
  "message_text content =
    (case content of
       JStr c \<Rightarrow> c
     | JList ps \<Rightarrow> join_space (concat (map text_block ps))
     | _ \<Rightarrow> [])"

fun messages_key :: "session_env \<Rightarrow> json list \<Rightarrow> string" where
  "messages_key env [] = []"
| "messages_key env (m # ms) =
    (case m of
       JObj o' \<Rightarrow>
         if jget o' ''role'' = JStr ''user'' \<and> trim_space (message_text (jget o' ''content'')) \<noteq> []
         then ''fb:'' @ take 16 (hex_encode (env_sha env (message_text (jget o' ''content''))))
         else messages_key env ms
     | _ \<Rightarrow> messages_key env ms)"

definition input_block :: "json \<Rightarrow> string list" where
  "input_block p =
    (let b = as_obj p in
     if jget b ''type'' = JStr ''input_text'' \<or> jget b ''type'' = JStr ''text''
     then (if as_str (jget b ''text'') \<noteq> [] then [as_str (jget b ''text'')] else []) else [])"

definition item_text :: "json_object \<Rightarrow> string" where
  "item_text item =
    (case jget item ''content'' of
       JList blocks \<Rightarrow> join_space (concat (map input_block blocks))
     | v \<Rightarrow> as_str v)"

fun items_key :: "session_env \<Rightarrow> json list \<Rightarrow> string" where
  "items_key env [] = []"
| "items_key env (i # is) =
    (case i of
       JObj item \<Rightarrow>
         if jget item ''role'' \<noteq> JStr ''user'' \<or>
            as_str (jget item ''type'') \<notin> {[], ''message''} then items_key env is
         else if weakSessionText env (item_text item) \<noteq> [] then weakSessionText env (item_text item)
         else items_key env is
     | _ \<Rightarrow> items_key env is)"

definition ExtractSessionKey :: "session_env \<Rightarrow> json_object \<Rightarrow> string" where
  "ExtractSessionKey env body =
    (let meta = (case jget body ''metadata'' of JObj m \<Rightarrow> metadata_key env m | _ \<Rightarrow> []);
         pck = BoundedSessionID (as_str (jget body ''prompt_cache_key''));
         msgs = messages_key env (as_list (jget body ''messages''))
     in if body_ids body \<noteq> [] then ''sid:'' @ body_ids body
        else if meta \<noteq> [] then meta
        else if pck \<noteq> [] then ''pck:'' @ pck
        else if user_key body \<noteq> [] then user_key body
        else if msgs \<noteq> [] then msgs
        else case jget body ''input'' of
               JStr input \<Rightarrow> weakSessionText env input
             | v \<Rightarrow> items_key env (as_list v))"

subsection \<open>Scoping\<close>

record caller =
  cl_AppID :: int
  cl_UserID :: int
  cl_AppName :: string
  cl_TestAccount :: string
  cl_AccountScope :: "(string \<times> bool) list option"

definition namespace_of :: "caller option \<Rightarrow> string" where
  "namespace_of p =
    (case p of
       None \<Rightarrow> ''private''
     | Some c \<Rightarrow>
         (if cl_UserID c > 0 then ''portal:'' @ itoa (cl_UserID c) else ''private'') @
         '':app:'' @ itoa (cl_AppID c))"

text \<open>The text that is hashed: the three parts, each but the last closed by a NUL.\<close>

definition scope_text :: "caller option \<Rightarrow> string \<Rightarrow> string \<Rightarrow> string" where
  "scope_text p model key = namespace_of p @ bytes [0] @ model @ bytes [0] @ key"

definition ScopedSessionKey :: "session_env \<Rightarrow> caller option \<Rightarrow> string \<Rightarrow> string \<Rightarrow> string" where
  "ScopedSessionKey env p model key =
    (if key = [] then [] else hex_encode (env_sha env (scope_text p model key)))"

definition PrincipalSessionKey :: "session_env \<Rightarrow> caller option \<Rightarrow> string \<Rightarrow> json_object \<Rightarrow> string" where
  "PrincipalSessionKey env p model body = ScopedSessionKey env p model (ExtractSessionKey env body)"

text \<open>The identity that is resolved once from the original request: its key and its agent.\<close>

definition WithRequestSessionIdentity ::
    "session_env \<Rightarrow> (string \<Rightarrow> string) \<Rightarrow> json_object \<Rightarrow> string \<times> string" where
  "WithRequestSessionIdentity env get body =
    (let header = HeaderSessionID (Some get);
         key = (if header \<noteq> [] then ''sid:'' @ header else ExtractSessionKey env body);
         agent = BoundedSessionID (get ''X-Claude-Code-Agent-Id'')
     in (key, if agent \<noteq> [] then take 16 (hex_encode (env_sha env agent)) else []))"

definition RequestSessionKey ::
    "session_env \<Rightarrow> (string \<times> string) option \<Rightarrow> caller option \<Rightarrow> string \<Rightarrow> json_object \<Rightarrow> string" where
  "RequestSessionKey env ident p model body =
    (if (case p of None \<Rightarrow> False | Some c \<Rightarrow> cl_TestAccount c \<noteq> []) then []
     else case ident of
            Some (key, _) \<Rightarrow> ScopedSessionKey env p model key
          | None \<Rightarrow> PrincipalSessionKey env p model body)"

end
