(* ===== verification/Sessions.thy ===== *)
theory Sessions
  imports SessionKeys
begin

text \<open>
  The session router of internal/workbuddy/runtime: sticky bindings from session keys to accounts
  with observations and controls (session.go, session_control.go, and the compatibility memory of
  channel_compat.go).

  The map \<open>M\<close> is the list of its entries; \<open>Order\<close> is the linked list, an element being its identity
  and its key; the state and call objects that the source shares by pointer are the elements of
  two stores, and a pointer is an index. Every operation is one critical section of the router's
  mutex; \<open>now\<close> is its reading of the clock. The uint64 sequence is a nat: it does not wrap in
  \<open>2 ^ 64\<close> controls.
\<close>

subsection \<open>Texts\<close>

definition msg_target_changed :: string where
  "msg_target_changed =
    bytes [0xE7, 0x9B, 0xAE, 0xE6, 0xA0, 0x87, 0xE8, 0xB4, 0xA6, 0xE5, 0x8F, 0xB7, 0xE6, 0x9D,
      0x83, 0xE9, 0x99, 0x90, 0xE3, 0x80, 0x81, 0xE6, 0x88, 0x90, 0xE6, 0x9C, 0xAC, 0xE6, 0x88,
      0x96, 0xE5, 0x8F, 0xAF, 0xE7, 0x94, 0xA8, 0xE7, 0x8A, 0xB6, 0xE6, 0x80, 0x81, 0xE5, 0xB7,
      0xB2, 0xE5, 0x8F, 0x98, 0xE5, 0x8C, 0x96, 0xEF, 0xBC, 0x8C, 0xE5, 0xB7, 0xB2, 0xE6, 0x81,
      0xA2, 0xE5, 0xA4, 0x8D, 0xE8, 0x87, 0xAA, 0xE5, 0x8A, 0xA8, 0xE9, 0x80, 0x89, 0xE6, 0x8B,
      0xA9]"

definition msg_selected :: string where
  "msg_selected =
    bytes [0xE7, 0x9B, 0xAE, 0xE6, 0xA0, 0x87, 0xE8, 0xB4, 0xA6, 0xE5, 0x8F, 0xB7, 0xE5, 0xB7,
      0xB2, 0xE9, 0x80, 0x89, 0xE5, 0xAE, 0x9A, 0xEF, 0xBC, 0x8C, 0xE7, 0xAD, 0x89, 0xE5, 0xBE,
      0x85, 0xE5, 0xBC, 0x80, 0xE5, 0xA7, 0x8B, 0xE8, 0xB0, 0x83, 0xE7, 0x94, 0xA8]"

definition msg_executing :: string where
  "msg_executing =
    bytes [0xE6, 0x8C, 0x87, 0xE5, 0xAE, 0x9A, 0xE8, 0xB0, 0x83, 0xE6, 0x95, 0xB4, 0xE7, 0x9A,
      0x84, 0xE8, 0xB4, 0xA6, 0xE5, 0x8F, 0xB7, 0xE5, 0xBC, 0x80, 0xE5, 0xA7, 0x8B, 0xE8, 0xB0,
      0x83, 0xE7, 0x94, 0xA8]"

definition msg_trying_other :: string where
  "msg_trying_other =
    bytes [0xE7, 0x9B, 0xAE, 0xE6, 0xA0, 0x87, 0xE8, 0xB4, 0xA6, 0xE5, 0x8F, 0xB7, 0xE5, 0xA4,
      0xB1, 0xE8, 0xB4, 0xA5, 0xEF, 0xBC, 0x8C, 0xE6, 0xAD, 0xA3, 0xE5, 0x9C, 0xA8, 0xE5, 0xB0,
      0x9D, 0xE8, 0xAF, 0x95, 0xE5, 0x85, 0xB6, 0xE4, 0xBB, 0x96, 0xE6, 0x8E, 0x88, 0xE6, 0x9D,
      0x83, 0xE8, 0xB4, 0xA6, 0xE5, 0x8F, 0xB7]"

definition msg_applied :: string where
  "msg_applied =
    bytes [0xE8, 0xB0, 0x83, 0xE6, 0x95, 0xB4, 0xE8, 0xB4, 0xA6, 0xE5, 0x8F, 0xB7, 0xE5, 0xB7,
      0xB2, 0xE6, 0x88, 0x90, 0xE5, 0x8A, 0x9F, 0xE5, 0xAE, 0x8C, 0xE6, 0x88, 0x90, 0xE8, 0xB0,
      0x83, 0xE7, 0x94, 0xA8]"

definition msg_fallback :: string where
  "msg_fallback =
    bytes [0xE7, 0x9B, 0xAE, 0xE6, 0xA0, 0x87, 0xE8, 0xB4, 0xA6, 0xE5, 0x8F, 0xB7, 0xE5, 0xA4,
      0xB1, 0xE8, 0xB4, 0xA5, 0xEF, 0xBC, 0x8C, 0xE5, 0xB7, 0xB2, 0xE7, 0x94, 0xB1, 0xE5, 0x85,
      0xB6, 0xE4, 0xBB, 0x96, 0xE6, 0x8E, 0x88, 0xE6, 0x9D, 0x83, 0xE8, 0xB4, 0xA6, 0xE5, 0x8F,
      0xB7, 0xE5, 0xAE, 0x8C, 0xE6, 0x88, 0x90, 0xE8, 0xB0, 0x83, 0xE7, 0x94, 0xA8]"

definition msg_failed :: string where
  "msg_failed =
    bytes [0xE8, 0xB0, 0x83, 0xE6, 0x95, 0xB4, 0xE8, 0xB4, 0xA6, 0xE5, 0x8F, 0xB7, 0xE8, 0xB0,
      0x83, 0xE7, 0x94, 0xA8, 0xE6, 0x9C, 0xAA, 0xE6, 0x88, 0x90, 0xE5, 0x8A, 0x9F, 0xEF, 0xBC,
      0x9B, 0xE5, 0x90, 0x8E, 0xE7, 0xBB, 0xAD, 0xE6, 0x8C, 0x89, 0xE6, 0x8E, 0x88, 0xE6, 0x9D,
      0x83, 0xE5, 0x92, 0x8C, 0xE6, 0x95, 0x85, 0xE9, 0x9A, 0x9C, 0xE8, 0xA7, 0x84, 0xE5, 0x88,
      0x99, 0xE5, 0xA4, 0x84, 0xE7, 0x90, 0x86]"

definition msg_cancelled :: string where
  "msg_cancelled =
    bytes [0xE5, 0xBE, 0x85, 0xE7, 0x94, 0x9F, 0xE6, 0x95, 0x88, 0xE8, 0xB0, 0x83, 0xE6, 0x95,
      0xB4, 0xE5, 0xB7, 0xB2, 0xE5, 0x8F, 0x96, 0xE6, 0xB6, 0x88]"

definition msg_pending :: string where
  "msg_pending =
    bytes [0xE7, 0xAD, 0x89, 0xE5, 0xBE, 0x85, 0xE4, 0xB8, 0x8B, 0xE4, 0xB8, 0x80, 0xE6, 0xAC,
      0xA1, 0xE5, 0xB0, 0x9A, 0xE6, 0x9C, 0xAA, 0xE5, 0xBC, 0x80, 0xE5, 0xA7, 0x8B, 0xE6, 0x89,
      0xA7, 0xE8, 0xA1, 0x8C, 0xE7, 0x9A, 0x84, 0xE8, 0xAF, 0xB7, 0xE6, 0xB1, 0x82]"

definition clip_head :: string where
  "clip_head =
    bytes [0xE2, 0x80, 0xA6] @ ''['' @ bytes [0xE5, 0xB7, 0xB2, 0xE6, 0x88, 0xAA, 0xE6, 0x96,
      0xAD, 0xEF, 0xBC, 0x8C, 0xE5, 0x8E, 0x9F, 0xE9, 0x95, 0xBF] @ '' ''"

definition clip_tail :: string where
  "clip_tail =
    '' '' @ bytes [0xE5, 0xAD, 0x97, 0xE8, 0x8A, 0x82] @ '']''"

text \<open>\<open>utf8.RuneStart\<close> is false of continuation bytes; the cut moves back to the start of a rune.\<close>

definition rune_start :: "char \<Rightarrow> bool" where
  "rune_start c = (let n = (of_char c :: nat) in n < 128 \<or> 192 \<le> n)"

fun rune_cut :: "string \<Rightarrow> nat \<Rightarrow> nat" where
  "rune_cut s 0 = 0"
| "rune_cut s (Suc n) = (if rune_start (s ! Suc n) then Suc n else rune_cut s n)"

definition ClipContent :: "string \<Rightarrow> nat \<Rightarrow> string" where
  "ClipContent s m =
    (if m = 0 \<or> length s \<le> m then s
     else take (rune_cut s m) s @ clip_head @ itoa (int (length s)) @ clip_tail)"

subsection \<open>State\<close>

record session_state =
  st_ID :: string
  st_Model :: string
  st_App :: string
  st_UserID :: int
  st_Source :: string
  st_Version :: nat
  st_Started :: f64
  st_Last :: f64
  st_Requests :: int
  st_Running :: int
  st_Waiting :: int
  st_Credits :: f64
  st_Known :: int
  st_Unknown :: int
  st_Pending :: string
  st_Target :: string
  st_RouteStatus :: string
  st_RouteMessage :: string
  st_LastSuccess :: string
  st_LastAttempt :: string
  st_ManualUID :: string
  st_ControlEpoch :: nat
  st_AgentRequests :: int
  st_LastUID :: string
  st_Compatibility :: string
  st_CompatUID :: string
  st_CompatFingerprint :: string
  st_CompatLevel :: int
  st_Scope :: "(string \<times> bool) list option"

record session_entry =
  se_Uid :: string
  se_Expires :: f64
  se_Order :: nat
  se_Info :: "nat option"

record session_call =
  sc_Key :: string
  sc_State :: nat
  sc_Running :: bool
  sc_ControlVersion :: nat
  sc_TargetUID :: string

record session_router =
  sr_Ttl :: f64
  sr_Max :: nat
  sr_M :: "(string \<times> session_entry) list"
  sr_Order :: "(nat \<times> string) list"
  sr_Sequence :: nat
  sr_elements :: nat
  sr_states :: "session_state list"
  sr_calls :: "session_call list"

definition NewSessionRouter :: session_router where
  "NewSessionRouter = \<lparr>sr_Ttl = Fin 1800, sr_Max = 2000, sr_M = [], sr_Order = [],
     sr_Sequence = 0, sr_elements = 0, sr_states = [], sr_calls = []\<rparr>"

definition entry :: "session_router \<Rightarrow> string \<Rightarrow> session_entry option" where
  "entry r key = map_of (sr_M r) key"

definition put_entry :: "string \<Rightarrow> session_entry \<Rightarrow> session_router \<Rightarrow> session_router" where
  "put_entry key e r = r\<lparr>sr_M := AList.update key e (sr_M r)\<rparr>"

definition state_of :: "session_router \<Rightarrow> nat \<Rightarrow> session_state" where
  "state_of r i = sr_states r ! i"

definition mod_state :: "nat \<Rightarrow> (session_state \<Rightarrow> session_state) \<Rightarrow> session_router \<Rightarrow> session_router" where
  "mod_state i f r = r\<lparr>sr_states := (sr_states r)[i := f (sr_states r ! i)]\<rparr>"

definition mod_call :: "nat \<Rightarrow> (session_call \<Rightarrow> session_call) \<Rightarrow> session_router \<Rightarrow> session_router" where
  "mod_call c f r = r\<lparr>sr_calls := (sr_calls r)[c := f (sr_calls r ! c)]\<rparr>"

text \<open>\<open>list.PushBack\<close>, \<open>Remove\<close> and \<open>MoveToBack\<close>; an element that is not in the list is left alone.\<close>

definition push_back :: "string \<Rightarrow> session_router \<Rightarrow> nat \<times> session_router" where
  "push_back key r =
    (sr_elements r, r\<lparr>sr_Order := sr_Order r @ [(sr_elements r, key)], sr_elements := Suc (sr_elements r)\<rparr>)"

definition drop_element :: "nat \<Rightarrow> (nat \<times> string) list \<Rightarrow> (nat \<times> string) list" where
  "drop_element el os = filter (\<lambda>(i, k). i \<noteq> el) os"

definition move_to_back :: "nat \<Rightarrow> session_router \<Rightarrow> session_router" where
  "move_to_back el r = r\<lparr>sr_Order := drop_element el (sr_Order r) @ filter (\<lambda>(i, k). i = el) (sr_Order r)\<rparr>"

definition RemoveLocked :: "string \<Rightarrow> session_router \<Rightarrow> session_router" where
  "RemoveLocked key r =
    (case entry r key of
       None \<Rightarrow> r
     | Some e \<Rightarrow> r\<lparr>sr_Order := drop_element (se_Order e) (sr_Order r), sr_M := AList.delete key (sr_M r)\<rparr>)"

text \<open>\<open>e.Info == nil || e.Info.Running+e.Info.Waiting == 0\<close>.\<close>

definition idle_entry :: "session_router \<Rightarrow> session_entry \<Rightarrow> bool" where
  "idle_entry r e =
    (case se_Info e of None \<Rightarrow> True
     | Some i \<Rightarrow> st_Running (state_of r i) + st_Waiting (state_of r i) = 0)"

definition lapsed :: "f64 \<Rightarrow> session_router \<Rightarrow> session_entry \<Rightarrow> bool" where
  "lapsed now r e = (fle (se_Expires e) now \<and> idle_entry r e)"

text \<open>The walk of EvictIdleLocked: a key without entry reads as the zero entry, which is idle.\<close>

fun evict_scan :: "session_router \<Rightarrow> (nat \<times> string) list \<Rightarrow> string option" where
  "evict_scan r [] = None"
| "evict_scan r ((i, key) # os) =
    (if (case entry r key of None \<Rightarrow> True | Some e \<Rightarrow> idle_entry r e) then Some key
     else evict_scan r os)"

definition EvictIdleLocked :: "session_router \<Rightarrow> bool \<times> session_router" where
  "EvictIdleLocked r =
    (case evict_scan r (sr_Order r) of None \<Rightarrow> (False, r) | Some key \<Rightarrow> (True, RemoveLocked key r))"

text \<open>
  The loop that makes room, \<open>for len(r.M) >= r.Max && r.Order.Len() > 0\<close>, with fuel: None is a loop
  that has not ended; the flag is False where the source gives up.
\<close>

fun room_loop :: "nat \<Rightarrow> session_router \<Rightarrow> (bool \<times> session_router) option" where
  "room_loop 0 r = None"
| "room_loop (Suc n) r =
    (if length (sr_M r) \<ge> sr_Max r \<and> sr_Order r \<noteq> []
     then (case EvictIdleLocked r of
             (False, r') \<Rightarrow> Some (False, r')
           | (True, r') \<Rightarrow> room_loop n r')
     else Some (True, r))"

definition make_room :: "session_router \<Rightarrow> (bool \<times> session_router) option" where
  "make_room r = room_loop (Suc (length (sr_Order r))) r"

definition clear_compatibility :: "session_state \<Rightarrow> session_state" where
  "clear_compatibility s =
    s\<lparr>st_CompatUID := [], st_CompatFingerprint := [], st_CompatLevel := 0, st_Compatibility := []\<rparr>"

subsection \<open>Bindings\<close>

definition RemoveAccount :: "string \<Rightarrow> session_router \<Rightarrow> session_router" where
  "RemoveAccount uid r =
    foldl (\<lambda>r (key, e). if se_Uid e = uid then RemoveLocked key r else r) r (sr_M r)"

definition Bind :: "f64 \<Rightarrow> string \<Rightarrow> string \<Rightarrow> session_router \<Rightarrow> session_router option" where
  "Bind now key uid r =
    (if key = [] \<or> uid = [] then Some r
     else
       case entry r key of
         Some e \<Rightarrow>
           (if se_Info e \<noteq> None then Some r
            else Some (put_entry key (e\<lparr>se_Uid := uid, se_Expires := fadd now (sr_Ttl r)\<rparr>)
                   (move_to_back (se_Order e) r)))
       | None \<Rightarrow>
           (case make_room r of
              None \<Rightarrow> None
            | Some (False, r) \<Rightarrow> Some r
            | Some (True, r) \<Rightarrow>
                let (el, r1) = push_back key r
                in Some (put_entry key \<lparr>se_Uid = uid, se_Expires = fadd now (sr_Ttl r), se_Order = el,
                     se_Info = None\<rparr> r1)))"

definition next_sequence :: "session_router \<Rightarrow> session_router" where
  "next_sequence r = r\<lparr>sr_Sequence := Suc (sr_Sequence r)\<rparr>"

definition UnbindMatching :: "string \<Rightarrow> string \<Rightarrow> session_router \<Rightarrow> session_router" where
  "UnbindMatching key failedUID r =
    (if key = [] then r
     else if failedUID \<noteq> [] \<and> (case entry r key of None \<Rightarrow> [] | Some e \<Rightarrow> se_Uid e) \<noteq> failedUID then r
     else
       case entry r key of
         None \<Rightarrow> RemoveLocked key r
       | Some e \<Rightarrow>
           (case se_Info e of
              None \<Rightarrow> RemoveLocked key r
            | Some i \<Rightarrow>
                let r = next_sequence r;
                    v = sr_Sequence r
                in put_entry key (e\<lparr>se_Uid := []\<rparr>)
                     (mod_state i (\<lambda>s. (clear_compatibility (s\<lparr>st_ManualUID := []\<rparr>))\<lparr>st_Version := v\<rparr>) r)))"

definition Unbind :: "string \<Rightarrow> session_router \<Rightarrow> session_router" where
  "Unbind key r = UnbindMatching key [] r"

definition Lookup :: "f64 \<Rightarrow> string \<Rightarrow> session_router \<Rightarrow> string \<times> session_router" where
  "Lookup now key r =
    (if key = [] then ([], r)
     else case entry r key of
            None \<Rightarrow> ([], r)
          | Some e \<Rightarrow> if lapsed now r e then ([], RemoveLocked key r) else (se_Uid e, r))"

subsection \<open>Calls\<close>

text \<open>What the context of a request carries: its call and its resolved identity.\<close>

record session_ctx =
  cx_Call :: "nat option"
  cx_Identity :: "(string \<times> string) option"

definition with_principal :: "caller option \<Rightarrow> session_state \<Rightarrow> session_state" where
  "with_principal p s =
    (case p of None \<Rightarrow> s
     | Some c \<Rightarrow> s\<lparr>st_App := ClipContent (cl_AppName c) 120, st_UserID := cl_UserID c,
                   st_Scope := cl_AccountScope c\<rparr>)"

definition new_state ::
    "f64 \<Rightarrow> string \<Rightarrow> string \<Rightarrow> string \<Rightarrow> string \<Rightarrow> nat \<Rightarrow> session_state" where
  "new_state now key model source uid version = \<lparr>
     st_ID = key, st_Model = model, st_App = [], st_UserID = 0, st_Source = source,
     st_Version = version, st_Started = now, st_Last = Fin 0, st_Requests = 0, st_Running = 0,
     st_Waiting = 0, st_Credits = Fin 0, st_Known = 0, st_Unknown = 0, st_Pending = [],
     st_Target = [], st_RouteStatus = [], st_RouteMessage = [], st_LastSuccess = [],
     st_LastAttempt = [], st_ManualUID = [], st_ControlEpoch = 0, st_AgentRequests = 0,
     st_LastUID = uid, st_Compatibility = [], st_CompatUID = [], st_CompatFingerprint = [],
     st_CompatLevel = 0, st_Scope = None\<rparr>"

definition same_call :: "session_router \<Rightarrow> session_ctx \<Rightarrow> string \<Rightarrow> nat option" where
  "same_call r ctx key =
    (case cx_Call ctx of None \<Rightarrow> None
     | Some c \<Rightarrow> if sc_Key (sr_calls r ! c) = key then Some c else None)"

text \<open>The entry that a beginning request uses, with the room made for a new one.\<close>

definition begin_entry ::
    "f64 \<Rightarrow> string \<Rightarrow> session_router \<Rightarrow> (session_entry option \<times> session_router) option" where
  "begin_entry now key r =
    (let r1 = (case entry r key of None \<Rightarrow> r
                | Some e \<Rightarrow> if lapsed now r e then RemoveLocked key r else r)
     in case entry r1 key of
          Some e \<Rightarrow> Some (Some e, r1)
        | None \<Rightarrow>
            (case make_room r1 of
               None \<Rightarrow> None
             | Some (False, r2) \<Rightarrow> Some (None, r2)
             | Some (True, r2) \<Rightarrow>
                 let (el, r3) = push_back key r2
                 in Some (Some \<lparr>se_Uid = [], se_Expires = Fin 0, se_Order = el, se_Info = None\<rparr>, r3)))"

text \<open>The state of the entry, created when it has none.\<close>

definition begin_state ::
    "f64 \<Rightarrow> string \<Rightarrow> string \<Rightarrow> string \<Rightarrow> session_entry \<Rightarrow> session_router \<Rightarrow> nat \<times> session_router" where
  "begin_state now key model source e r =
    (case se_Info e of
       Some i \<Rightarrow> (i, r)
     | None \<Rightarrow>
         let r = next_sequence r
         in (length (sr_states r),
             r\<lparr>sr_states := sr_states r @ [new_state now key model source (se_Uid e) (sr_Sequence r)]\<rparr>))"

definition count_request :: "f64 \<Rightarrow> caller option \<Rightarrow> bool \<Rightarrow> session_state \<Rightarrow> session_state" where
  "count_request now p agent s =
    (let s = with_principal p s;
         s = s\<lparr>st_Requests := st_Requests s + 1\<rparr>;
         s = (if agent then s\<lparr>st_AgentRequests := st_AgentRequests s + 1\<rparr> else s)
     in s\<lparr>st_Waiting := st_Waiting s + 1, st_Last := now\<rparr>)"

text \<open>The request is counted, its entry renewed and moved to the back, its call allocated.\<close>

definition begin_call ::
    "f64 \<Rightarrow> string \<Rightarrow> string \<Rightarrow> string \<Rightarrow> caller option \<Rightarrow> bool \<Rightarrow> session_entry \<Rightarrow>
     session_router \<Rightarrow> session_router" where
  "begin_call now key model source p agent e r =
    (case begin_state now key model source e r of
       (i, r1) \<Rightarrow>
         (move_to_back (se_Order e)
           (put_entry key (e\<lparr>se_Info := Some i, se_Expires := fadd now (sr_Ttl r)\<rparr>)
             (mod_state i (count_request now p agent) r1)))
           \<lparr>sr_calls := sr_calls r @ [\<lparr>sc_Key = key, sc_State = i, sc_Running = False,
              sc_ControlVersion = 0, sc_TargetUID = []\<rparr>]\<rparr>)"

text \<open>
  The result: the context, the call whose \<open>Finish\<close> the caller must run (None for the empty
  function), and the router. None is a loop that does not end.
\<close>

definition Begin ::
    "session_env \<Rightarrow> f64 \<Rightarrow> session_ctx \<Rightarrow> string \<Rightarrow> string \<Rightarrow> caller option \<Rightarrow> json_object \<Rightarrow>
     session_router \<Rightarrow> (session_ctx \<times> nat option \<times> session_router) option" where
  "Begin env now ctx key model p body r =
    (if key = [] then Some (ctx, None, r)
     else
       case same_call r ctx key of
         Some c \<Rightarrow>
           Some (ctx, None,
             case entry r key of
               None \<Rightarrow> r
             | Some e \<Rightarrow>
                 (case p of None \<Rightarrow> r
                  | Some cl \<Rightarrow>
                      if se_Info e = Some (sc_State (sr_calls r ! c))
                      then mod_state (sc_State (sr_calls r ! c)) (\<lambda>s. s\<lparr>st_Scope := cl_AccountScope cl\<rparr>) r
                      else r))
       | None \<Rightarrow>
           (case begin_entry now key r of
              None \<Rightarrow> None
            | Some (None, r) \<Rightarrow> Some (ctx, None, r)
            | Some (Some e, r) \<Rightarrow>
                let source = (case cx_Identity ctx of
                        None \<Rightarrow> before (CHR '':'') (ExtractSessionKey env body)
                      | Some (k, _) \<Rightarrow> before (CHR '':'') k);
                    agent = (case cx_Identity ctx of None \<Rightarrow> False | Some (_, a) \<Rightarrow> a \<noteq> []);
                    c = length (sr_calls r)
                in Some (ctx\<lparr>cx_Call := Some c\<rparr>, Some c, begin_call now key model source p agent e r)))"

text \<open>The call still owns the state of its key's entry: \<open>ok && e.Info == c.State\<close>.\<close>

definition attached :: "session_router \<Rightarrow> nat \<Rightarrow> session_entry option" where
  "attached r c =
    (case entry r (sc_Key (sr_calls r ! c)) of
       None \<Rightarrow> None
     | Some e \<Rightarrow> if se_Info e = Some (sc_State (sr_calls r ! c)) then Some e else None)"

definition Phase :: "f64 \<Rightarrow> nat \<Rightarrow> bool \<Rightarrow> session_router \<Rightarrow> session_router" where
  "Phase now c running r =
    (case attached r c of
       None \<Rightarrow> r
     | Some e \<Rightarrow>
         if sc_Running (sr_calls r ! c) = running then r
         else
           mod_state (sc_State (sr_calls r ! c))
             (\<lambda>s. if running
                  then s\<lparr>st_Waiting := st_Waiting s - 1, st_Running := st_Running s + 1, st_Last := now\<rparr>
                  else s\<lparr>st_Running := st_Running s - 1, st_Waiting := st_Waiting s + 1, st_Last := now\<rparr>)
             (mod_call c (\<lambda>k. k\<lparr>sc_Running := running\<rparr>) r))"

definition Finish :: "f64 \<Rightarrow> nat \<Rightarrow> session_router \<Rightarrow> session_router" where
  "Finish now c r =
    (case attached r c of
       None \<Rightarrow> r
     | Some e \<Rightarrow>
         put_entry (sc_Key (sr_calls r ! c)) (e\<lparr>se_Expires := fadd now (sr_Ttl r)\<rparr>)
           (mod_state (sc_State (sr_calls r ! c))
             (\<lambda>s. if sc_Running (sr_calls r ! c)
                  then s\<lparr>st_Running := st_Running s - 1, st_Last := now\<rparr>
                  else s\<lparr>st_Waiting := st_Waiting s - 1, st_Last := now\<rparr>) r))"

definition SessionCredits :: "nat option \<Rightarrow> f64 option \<Rightarrow> session_router \<Rightarrow> session_router" where
  "SessionCredits call credits r =
    (case call of
       None \<Rightarrow> r
     | Some c \<Rightarrow>
         if attached r c = None then r
         else
           mod_state (sc_State (sr_calls r ! c))
             (\<lambda>s. case credits of
                Some v \<Rightarrow>
                  if fle (Fin 0) v \<and> \<not> isNaN v \<and> \<not> isInf v
                  then s\<lparr>st_Credits := fadd (st_Credits s) v, st_Known := st_Known s + 1\<rparr>
                  else s\<lparr>st_Unknown := st_Unknown s + 1\<rparr>
              | None \<Rightarrow> s\<lparr>st_Unknown := st_Unknown s + 1\<rparr>) r)"

subsection \<open>Controls\<close>

text \<open>The account, the pending action, its target, the last account and the version of a session.\<close>

definition Route :: "string \<Rightarrow> session_router \<Rightarrow> string \<times> string \<times> string \<times> string \<times> nat" where
  "Route key r =
    (case entry r key of
       None \<Rightarrow> ([], [], [], [], 0)
     | Some e \<Rightarrow>
         (case se_Info e of
            None \<Rightarrow> (se_Uid e, [], [], se_Uid e, 0)
          | Some i \<Rightarrow> (se_Uid e, st_Pending (state_of r i), st_Target (state_of r i),
                       st_LastUID (state_of r i), st_Version (state_of r i))))"

text \<open>The state of a key's session: None where the source reads a nil Info.\<close>

definition info :: "session_router \<Rightarrow> string \<Rightarrow> nat option" where
  "info r key = (case entry r key of None \<Rightarrow> None | Some e \<Rightarrow> se_Info e)"

text \<open>\<open>reason\<close> is the optional message.\<close>

definition Reject :: "string \<Rightarrow> nat \<Rightarrow> string option \<Rightarrow> session_router \<Rightarrow> session_router" where
  "Reject key version reason r =
    (case info r key of
       None \<Rightarrow> r
     | Some i \<Rightarrow>
         if st_Version (state_of r i) \<noteq> version then r
         else
           let r = next_sequence r
           in mod_state i (\<lambda>s. s\<lparr>st_Pending := [], st_Target := [], st_RouteStatus := ''failed'',
                st_RouteMessage := (case reason of None \<Rightarrow> msg_target_changed | Some m \<Rightarrow> m),
                st_Version := sr_Sequence r, st_ControlEpoch := sr_Sequence r\<rparr>) r)"

record session_selection =
  ss_Key :: string
  ss_Version :: nat
  ss_Action :: string
  ss_Target :: string
  ss_Baseline :: string
  ss_Call :: "nat option"

definition commit_state :: "string \<Rightarrow> bool \<Rightarrow> session_state \<Rightarrow> session_state" where
  "commit_state uid moved s =
    (let s = (if moved then clear_compatibility s else s)
     in if st_Pending s \<noteq> []
        then s\<lparr>st_RouteStatus := ''selected'', st_RouteMessage := msg_selected,
               st_ManualUID := (if st_Pending s = ''switch'' then uid else []),
               st_Pending := [], st_Target := []\<rparr>
        else s)"

text \<open>The effects of a commit on the state, the sequence and the call.\<close>

definition commit_router ::
    "string \<Rightarrow> session_selection \<Rightarrow> session_entry \<Rightarrow> nat \<Rightarrow> session_router \<Rightarrow> session_router" where
  "commit_router uid sel e i r =
    (let changed = (se_Uid e \<noteq> uid \<or> st_Pending (state_of r i) \<noteq> []);
         r1 = mod_state i (commit_state uid (se_Uid e \<noteq> uid)) r;
         r2 = (if changed
               then mod_state i (\<lambda>s. s\<lparr>st_Version := sr_Sequence (next_sequence r1)\<rparr>) (next_sequence r1)
               else r1);
         r3 = (case ss_Call sel of
                 None \<Rightarrow> r2
               | Some c \<Rightarrow>
                   if ss_Action sel = [] then r2
                   else mod_call c (\<lambda>k. k\<lparr>sc_ControlVersion := st_ControlEpoch (state_of r2 i),
                          sc_TargetUID := uid\<rparr>) r2)
     in mod_state i (\<lambda>s. s\<lparr>st_LastUID := uid\<rparr>) r3)"

definition Commit ::
    "f64 \<Rightarrow> session_selection option \<Rightarrow> string \<Rightarrow> session_router \<Rightarrow> bool \<times> session_router" where
  "Commit now selection uid r =
    (case selection of
       None \<Rightarrow> (True, r)
     | Some sel \<Rightarrow>
         if ss_Key sel = [] then (True, r)
         else
           case entry r (ss_Key sel) of
             None \<Rightarrow> (True, r)
           | Some e \<Rightarrow>
               (case se_Info e of
                  None \<Rightarrow> (True, r)
                | Some i \<Rightarrow>
                    if st_Version (state_of r i) \<noteq> ss_Version sel then (False, r)
                    else (True, put_entry (ss_Key sel)
                            (e\<lparr>se_Uid := uid, se_Expires := fadd now (sr_Ttl r)\<rparr>)
                            (commit_router uid sel e i r))))"

text \<open>The request that consumed the current control of its session.\<close>

definition owns_control :: "session_router \<Rightarrow> nat \<Rightarrow> bool" where
  "owns_control r c =
    (sc_ControlVersion (sr_calls r ! c) \<noteq> 0 \<and>
     sc_ControlVersion (sr_calls r ! c) = st_ControlEpoch (state_of r (sc_State (sr_calls r ! c))))"

definition Attempt :: "nat option \<Rightarrow> string \<Rightarrow> session_router \<Rightarrow> session_router" where
  "Attempt call uid r =
    (case call of
       None \<Rightarrow> r
     | Some c \<Rightarrow>
         if attached r c = None then r
         else
           mod_state (sc_State (sr_calls r ! c))
             (\<lambda>s. let s = s\<lparr>st_LastAttempt := uid\<rparr>
                  in if owns_control r c
                     then s\<lparr>st_RouteStatus := ''executing'',
                            st_RouteMessage := (if uid \<noteq> sc_TargetUID (sr_calls r ! c)
                              then msg_trying_other else msg_executing)\<rparr>
                     else s) r)"

definition outcome_state :: "bool \<Rightarrow> bool \<Rightarrow> session_state \<Rightarrow> session_state" where
  "outcome_state success on_target s =
    (if success
     then if on_target then s\<lparr>st_RouteStatus := ''applied'', st_RouteMessage := msg_applied\<rparr>
          else s\<lparr>st_RouteStatus := ''fallback'', st_RouteMessage := msg_fallback\<rparr>
     else s\<lparr>st_RouteStatus := ''failed'', st_RouteMessage := msg_failed\<rparr>)"

definition Outcome :: "nat option \<Rightarrow> string \<Rightarrow> bool \<Rightarrow> session_router \<Rightarrow> session_router" where
  "Outcome call uid success r =
    (case call of
       None \<Rightarrow> r
     | Some c \<Rightarrow>
         (case attached r c of
            None \<Rightarrow> r
          | Some e \<Rightarrow>
              mod_state (sc_State (sr_calls r ! c))
                (\<lambda>s. let s = (if success \<and> se_Uid e = uid then s\<lparr>st_LastSuccess := uid\<rparr> else s)
                     in if owns_control r c
                        then outcome_state success (uid = sc_TargetUID (sr_calls r ! c)) s
                        else s) r))"

definition ManuallyPinned :: "string \<Rightarrow> string \<Rightarrow> session_router \<Rightarrow> bool" where
  "ManuallyPinned key uid r =
    (uid \<noteq> [] \<and> (case info r key of None \<Rightarrow> False | Some i \<Rightarrow> st_ManualUID (state_of r i) = uid))"

definition control_state :: "nat \<Rightarrow> string \<Rightarrow> string \<Rightarrow> session_state \<Rightarrow> session_state" where
  "control_state version action target s =
    (let s = s\<lparr>st_Version := version, st_ControlEpoch := version\<rparr>
     in if action = ''cancel''
        then s\<lparr>st_Pending := [], st_Target := [], st_RouteStatus := ''cancelled'',
               st_RouteMessage := msg_cancelled\<rparr>
        else s\<lparr>st_Pending := action, st_Target := target, st_RouteStatus := ''pending'',
               st_RouteMessage := msg_pending\<rparr>)"

definition Control :: "string \<Rightarrow> nat \<Rightarrow> string \<Rightarrow> string \<Rightarrow> session_router \<Rightarrow> bool \<times> session_router" where
  "Control key version action target r =
    (case info r key of
       None \<Rightarrow> (False, r)
     | Some i \<Rightarrow>
         if st_Version (state_of r i) \<noteq> version then (False, r)
         else
           let r = next_sequence r
           in (True, mod_state i (control_state (sr_Sequence r) action target) r))"

subsection \<open>The compatibility memory\<close>

definition CompatibilityName :: "int \<Rightarrow> string" where
  "CompatibilityName level =
    (if level = 1 then ''identity'' else if level = 2 then ''client_metadata'' else ''original'')"

definition compatibilityLocked :: "string \<Rightarrow> string \<Rightarrow> int \<Rightarrow> session_router \<Rightarrow> int \<times> string" where
  "compatibilityLocked key uid maxLevel r =
    (case entry r key of
       None \<Rightarrow> (0, [])
     | Some e \<Rightarrow>
         (case se_Info e of
            None \<Rightarrow> (0, [])
          | Some i \<Rightarrow>
              if se_Uid e = uid \<and> st_CompatUID (state_of r i) = uid \<and>
                 st_CompatLevel (state_of r i) \<le> maxLevel
              then (st_CompatLevel (state_of r i), st_CompatFingerprint (state_of r i))
              else (0, [])))"

text \<open>Two sections with the computation of the fingerprint \<open>want\<close> between them: \<open>r\<close> and \<open>r'\<close> are the
  router in the first and the second.\<close>

definition Compatibility ::
    "string \<Rightarrow> string \<Rightarrow> int \<Rightarrow> string \<Rightarrow> session_router \<Rightarrow> session_router \<Rightarrow> int" where
  "Compatibility key uid maxLevel want r r' =
    (if key = [] then 0
     else if fst (compatibilityLocked key uid maxLevel r) = 0 then 0
     else
       case compatibilityLocked key uid maxLevel r' of
         (level, saved) \<Rightarrow> if saved = want then level else 0)"

definition RememberCompatibility ::
    "string \<Rightarrow> string \<Rightarrow> string \<Rightarrow> int \<Rightarrow> session_router \<Rightarrow> session_router" where
  "RememberCompatibility key uid fingerprint level r =
    (if key = [] then r
     else
       case entry r key of
         None \<Rightarrow> r
       | Some e \<Rightarrow>
           (case se_Info e of
              None \<Rightarrow> r
            | Some i \<Rightarrow>
                if se_Uid e \<noteq> uid \<or> st_Pending (state_of r i) \<noteq> [] then r
                else mod_state i (\<lambda>s. s\<lparr>st_CompatUID := uid, st_CompatFingerprint := fingerprint,
                       st_CompatLevel := level, st_Compatibility := CompatibilityName level\<rparr>) r))"

subsection \<open>Views\<close>

record session_view =
  sv_State :: session_state
  sv_UID :: string
  sv_Expires :: f64

text \<open>Go's \<open><\<close> on strings, and the order of the views: the latest first, then by identifier.\<close>

fun str_less :: "string \<Rightarrow> string \<Rightarrow> bool" where
  "str_less s [] = False"
| "str_less [] (d # t) = True"
| "str_less (c # s) (d # t) =
    (let m = (of_char c :: nat); n = (of_char d :: nat) in m < n \<or> m = n \<and> str_less s t)"

definition view_less :: "session_view \<Rightarrow> session_view \<Rightarrow> bool" where
  "view_less v w =
    (if feq (st_Last (sv_State v)) (st_Last (sv_State w))
     then str_less (st_ID (sv_State v)) (st_ID (sv_State w))
     else flt (st_Last (sv_State w)) (st_Last (sv_State v)))"

fun insert_by :: "('a \<Rightarrow> 'a \<Rightarrow> bool) \<Rightarrow> 'a \<Rightarrow> 'a list \<Rightarrow> 'a list" where
  "insert_by lt x [] = [x]"
| "insert_by lt x (y # ys) = (if lt y x then y # insert_by lt x ys else x # y # ys)"

definition sort_by :: "('a \<Rightarrow> 'a \<Rightarrow> bool) \<Rightarrow> 'a list \<Rightarrow> 'a list" where
  "sort_by lt xs = foldr (insert_by lt) xs []"

definition views_of :: "f64 \<Rightarrow> session_router \<Rightarrow> session_view list" where
  "views_of now r =
    concat (map (\<lambda>(key, e).
      if lapsed now r e then []
      else case se_Info e of None \<Rightarrow> []
           | Some i \<Rightarrow> [\<lparr>sv_State = state_of r i, sv_UID = se_Uid e, sv_Expires = se_Expires e\<rparr>])
      (sr_M r))"

definition Views :: "f64 \<Rightarrow> session_router \<Rightarrow> session_view list \<times> session_router" where
  "Views now r =
    (sort_by view_less (views_of now r),
     foldl (\<lambda>r (key, e). if lapsed now r e then RemoveLocked key r else r) r (sr_M r))"

definition View :: "f64 \<Rightarrow> string \<Rightarrow> session_router \<Rightarrow> session_view option \<times> session_router" where
  "View now key r =
    (case Views now r of (vs, r') \<Rightarrow> (List.find (\<lambda>v. st_ID (sv_State v) = key) vs, r'))"

end
