(* ===== verification/SessionInv.thy ===== *)
theory SessionInv
  imports Sessions
begin

text \<open>
  The invariant of the session router: its table and its list of recency agree and stay bounded,
  every state and call carries the key it was made for, versions never run ahead of the sequence,
  and the running and waiting counts are those of the unfinished calls. Every operation keeps it,
  ends its loops, leaves active sessions in the table and never lets a version go back.
\<close>

subsection \<open>The table and the list\<close>

definition linked :: "(string \<times> session_entry) list \<Rightarrow> (nat \<times> string) list \<Rightarrow> bool" where
  "linked M os =
    (distinct (map fst M) \<and> distinct (map fst os) \<and>
     (\<forall>i key. (i, key) \<in> set os \<longleftrightarrow> (\<exists>e. map_of M key = Some e \<and> se_Order e = i)))"

declare map_of_eq_Some_iff [simp del] Some_eq_map_of_iff [simp del]

lemma linked_distinct: "linked M os \<Longrightarrow> distinct (map fst M) \<and> distinct (map fst os)"
  by (simp add: linked_def)

lemma linked_iff:
  "linked M os \<Longrightarrow> (i, key) \<in> set os \<longleftrightarrow> (\<exists>e. map_of M key = Some e \<and> se_Order e = i)"
  by (simp add: linked_def)

lemma linkedI:
  "distinct (map fst M) \<Longrightarrow> distinct (map fst os) \<Longrightarrow>
   (\<And>i key. (i, key) \<in> set os \<longleftrightarrow> (\<exists>e. map_of M key = Some e \<and> se_Order e = i)) \<Longrightarrow> linked M os"
  by (simp add: linked_def)

lemma linked_length:
  assumes "linked M os"
  shows "length M = length os"
proof -
  have d: "distinct os" using assms by (simp add: linked_def distinct_map)
  have "inj_on snd (set os)"
    unfolding inj_on_def using linked_iff [OF assms] by fastforce
  moreover have "snd ` set os = fst ` set M"
  proof -
    have "k \<in> snd ` set os \<longleftrightarrow> k \<in> fst ` set M" for k
    proof
      assume "k \<in> snd ` set os"
      then obtain i where "(i, k) \<in> set os" by force
      then have "map_of M k \<noteq> None" using linked_iff [OF assms] by auto
      then show "k \<in> fst ` set M" using map_of_eq_None_iff by metis
    next
      assume "k \<in> fst ` set M"
      then obtain e where "map_of M k = Some e" using map_of_eq_None_iff [of M k] by auto
      then have "(se_Order e, k) \<in> set os" using linked_iff [OF assms] by blast
      then show "k \<in> snd ` set os" by force
    qed
    then show ?thesis by blast
  qed
  ultimately have "card (set os) = card (fst ` set M)" by (metis card_image)
  moreover have "card (fst ` set M) = length M"
    using assms distinct_card [of "map fst M"] by (simp add: linked_def)
  ultimately show ?thesis using distinct_card [OF d] by simp
qed

lemma length_update:
  "length (AList.update k v al) = (if k \<in> fst ` set al then length al else Suc (length al))"
  by (induction al) auto

lemma length_delete_le: "length (AList.delete k al) \<le> length al"
  by (simp add: AList.delete_eq)

lemma drop_element_length: "(i, k) \<in> set os \<Longrightarrow> length (drop_element i os) < length os"
  unfolding drop_element_def by (rule length_filter_less) auto

lemma linked_remove:
  assumes "linked M os" "map_of M key = Some e"
  shows "linked (AList.delete key M) (drop_element (se_Order e) os)"
proof -
  have d: "distinct (map fst (drop_element (se_Order e) os))"
    using assms(1) by (simp add: linked_def drop_element_def distinct_map_filter)
  have "(i, k) \<in> set (drop_element (se_Order e) os) \<longleftrightarrow>
      (\<exists>e'. map_of (AList.delete key M) k = Some e' \<and> se_Order e' = i)" for i k
  proof (cases "k = key")
    case True
    with assms linked_iff [OF assms(1), of i key] show ?thesis
      by (auto simp: drop_element_def delete_conv)
  next
    case False
    have "se_Order e \<noteq> i" if ik: "(i, k) \<in> set os"
    proof
      assume "se_Order e = i"
      then have "(i, key) \<in> set os" using assms(2) linked_iff [OF assms(1)] by blast
      with ik False linked_distinct [OF assms(1)] show False by (metis eq_key_imp_eq_value)
    qed
    with False linked_iff [OF assms(1), of i k] show ?thesis
      by (auto simp: drop_element_def delete_conv)
  qed
  with d linked_distinct [OF assms(1)] show ?thesis by (intro linkedI) (simp_all add: distinct_delete)
qed

lemma linked_put:
  assumes "linked M os" "map_of M key = Some e" "se_Order e' = se_Order e"
  shows "linked (AList.update key e' M) os"
proof (rule linkedI)
  show "distinct (map fst (AList.update key e' M))" "distinct (map fst os)"
    using linked_distinct [OF assms(1)] by (simp_all add: distinct_update)
  fix i k
  show "(i, k) \<in> set os \<longleftrightarrow> (\<exists>e''. map_of (AList.update key e' M) k = Some e'' \<and> se_Order e'' = i)"
    using assms(2,3) linked_iff [OF assms(1), of i k] by (simp add: update_conv)
qed

lemma linked_push:
  assumes "linked M os" "map_of M key = None" "\<forall>(i, k) \<in> set os. i < el" "se_Order e = el"
  shows "linked (AList.update key e M) (os @ [(el, key)])"
proof (rule linkedI)
  show "distinct (map fst (AList.update key e M))"
    using linked_distinct [OF assms(1)] by (simp add: distinct_update)
  have "el \<notin> fst ` set os" using assms(3) by auto
  then show "distinct (map fst (os @ [(el, key)]))" using linked_distinct [OF assms(1)] by auto
  fix i k
  show "(i, k) \<in> set (os @ [(el, key)]) \<longleftrightarrow>
      (\<exists>e'. map_of (AList.update key e M) k = Some e' \<and> se_Order e' = i)"
    using assms(2,4) linked_iff [OF assms(1), of i k] by (auto simp: update_conv)
qed

lemma set_move: "set (drop_element el os @ filter (\<lambda>(i, k). i = el) os) = set os"
  by (auto simp: drop_element_def)

lemma linked_move:
  assumes "linked M os"
  shows "linked M (drop_element el os @ filter (\<lambda>(i, k). i = el) os)"
proof -
  have "distinct (map fst (drop_element el os @ filter (\<lambda>(i, k). i = el) os))"
    using assms by (auto simp: linked_def drop_element_def distinct_map_filter)
  with assms show ?thesis unfolding linked_def set_move by blast
qed

subsection \<open>The shape of the router\<close>

definition shape :: "session_router \<Rightarrow> bool" where
  "shape r =
    (linked (sr_M r) (sr_Order r) \<and> (\<forall>(i, k) \<in> set (sr_Order r). i < sr_elements r) \<and>
     length (sr_M r) \<le> sr_Max r \<and> 0 < sr_Max r \<and>
     (\<forall>key e i. entry r key = Some e \<and> se_Info e = Some i \<longrightarrow>
        i < length (sr_states r) \<and> st_ID (sr_states r ! i) = key) \<and>
     (\<forall>k \<in> set (sr_calls r). sc_State k < length (sr_states r) \<and>
        st_ID (sr_states r ! sc_State k) = sc_Key k \<and> sc_ControlVersion k \<le> sr_Sequence r) \<and>
     (\<forall>s \<in> set (sr_states r). st_Version s \<le> sr_Sequence r \<and> st_ControlEpoch s \<le> sr_Sequence r))"

lemma entry_put [simp]: "entry (put_entry key e r) k = (if k = key then Some e else entry r k)"
  by (simp add: entry_def put_entry_def update_conv)

lemma router_simps [simp]:
  "entry (mod_state i f r) = entry r" "entry (mod_call c g r) = entry r"
  "entry (next_sequence r) = entry r" "entry (move_to_back el r) = entry r"
  "sr_states (put_entry k e r) = sr_states r" "sr_states (mod_call c g r) = sr_states r"
  "sr_states (next_sequence r) = sr_states r" "sr_states (move_to_back el r) = sr_states r"
  "sr_states (RemoveLocked k r) = sr_states r"
  "sr_calls (put_entry k e r) = sr_calls r" "sr_calls (mod_state i f r) = sr_calls r"
  "sr_calls (next_sequence r) = sr_calls r" "sr_calls (move_to_back el r) = sr_calls r"
  "sr_calls (RemoveLocked k r) = sr_calls r"
  "sr_Sequence (put_entry k e r) = sr_Sequence r" "sr_Sequence (mod_state i f r) = sr_Sequence r"
  "sr_Sequence (mod_call c g r) = sr_Sequence r" "sr_Sequence (move_to_back el r) = sr_Sequence r"
  "sr_Sequence (RemoveLocked k r) = sr_Sequence r"
  "sr_Sequence (next_sequence r) = Suc (sr_Sequence r)"
  "sr_Max (put_entry k e r) = sr_Max r" "sr_Max (mod_state i f r) = sr_Max r"
  "sr_Max (mod_call c g r) = sr_Max r" "sr_Max (move_to_back el r) = sr_Max r"
  "sr_Max (RemoveLocked k r) = sr_Max r" "sr_Max (next_sequence r) = sr_Max r"
  "sr_Ttl (RemoveLocked k r) = sr_Ttl r"
  "length (sr_states (mod_state i f r)) = length (sr_states r)"
  "length (sr_calls (mod_call c g r)) = length (sr_calls r)"
  by (auto simp: entry_def put_entry_def mod_state_def mod_call_def next_sequence_def move_to_back_def
      RemoveLocked_def fun_eq_iff split: option.split)

lemma entry_remove [simp]: "entry (RemoveLocked key r) k = (if k = key then None else entry r k)"
  by (auto simp: RemoveLocked_def entry_def delete_conv split: option.split)

lemma shape_remove: "shape r \<Longrightarrow> shape (RemoveLocked key r)"
proof (cases "entry r key")
  case None
  moreover assume "shape r"
  ultimately show ?thesis by (simp add: RemoveLocked_def)
next
  case (Some e)
  assume s: "shape r"
  have "linked (AList.delete key (sr_M r)) (drop_element (se_Order e) (sr_Order r))"
    using s Some linked_remove by (simp add: shape_def entry_def)
  moreover have "length (AList.delete key (sr_M r)) \<le> sr_Max r"
    using s length_delete_le [of key "sr_M r"] by (simp add: shape_def)
  moreover have "\<forall>k e i. entry (RemoveLocked key r) k = Some e \<and> se_Info e = Some i \<longrightarrow>
      i < length (sr_states r) \<and> st_ID (sr_states r ! i) = k"
    using s by (simp add: shape_def)
  ultimately show ?thesis
    using s Some by (simp add: shape_def RemoveLocked_def drop_element_def)
qed

lemma shape_move: "shape r \<Longrightarrow> shape (move_to_back el r)"
  unfolding shape_def router_simps
  using linked_move [of "sr_M r" "sr_Order r" el] set_move [of el "sr_Order r"]
  by (simp add: move_to_back_def)

lemma shape_put:
  assumes "shape r" "entry r key = Some e" "se_Order e' = se_Order e"
    "se_Info e' = se_Info e \<or>
      (\<forall>i. se_Info e' = Some i \<longrightarrow> i < length (sr_states r) \<and> st_ID (sr_states r ! i) = key)"
  shows "shape (put_entry key e' r)"
proof -
  have "key \<in> fst ` set (sr_M r)"
    using assms(2) map_of_eq_None_iff [of "sr_M r" key] by (auto simp: entry_def)
  then have "length (AList.update key e' (sr_M r)) = length (sr_M r)" by (simp add: length_update)
  moreover have "linked (AList.update key e' (sr_M r)) (sr_Order r)"
    using assms linked_put by (simp add: shape_def entry_def)
  ultimately show ?thesis
    using assms unfolding shape_def router_simps entry_put by (auto simp: put_entry_def)
qed

lemma shape_mod_state:
  assumes "shape r" "st_ID (f (sr_states r ! i)) = st_ID (sr_states r ! i)"
    "i < length (sr_states r) \<Longrightarrow>
      st_Version (f (sr_states r ! i)) \<le> sr_Sequence r \<and> st_ControlEpoch (f (sr_states r ! i)) \<le> sr_Sequence r"
  shows "shape (mod_state i f r)"
proof (cases "i < length (sr_states r)")
  case False
  then have "mod_state i f r = r" by (simp add: mod_state_def list_update_beyond)
  with assms(1) show ?thesis by simp
next
  case True
  have ids: "st_ID ((sr_states r)[i := f (sr_states r ! i)] ! j) = st_ID (sr_states r ! j)" for j
    using assms(2) by (cases "j = i") (simp_all add: True)
  have vs: "\<forall>s \<in> set ((sr_states r)[i := f (sr_states r ! i)]).
      st_Version s \<le> sr_Sequence r \<and> st_ControlEpoch s \<le> sr_Sequence r"
    using assms(1) assms(3) [OF True] set_update_subset_insert [of "sr_states r" i "f (sr_states r ! i)"]
    unfolding shape_def by blast
  have e: "entry (mod_state i f r) = entry r" by simp
  show ?thesis
    using assms(1) vs unfolding shape_def e by (simp add: mod_state_def ids)
qed

lemma shape_next: "shape r \<Longrightarrow> shape (next_sequence r)"
  unfolding shape_def router_simps by (auto simp: next_sequence_def)

lemma shape_mod_call:
  assumes "shape r" "sc_Key (g (sr_calls r ! c)) = sc_Key (sr_calls r ! c)"
    "sc_State (g (sr_calls r ! c)) = sc_State (sr_calls r ! c)"
    "c < length (sr_calls r) \<Longrightarrow> sc_ControlVersion (g (sr_calls r ! c)) \<le> sr_Sequence r"
  shows "shape (mod_call c g r)"
proof (cases "c < length (sr_calls r)")
  case False
  then have "mod_call c g r = r" by (simp add: mod_call_def list_update_beyond)
  with assms(1) show ?thesis by simp
next
  case True
  then have "sr_calls r ! c \<in> set (sr_calls r)" by simp
  then have ks: "\<forall>k \<in> set ((sr_calls r)[c := g (sr_calls r ! c)]). sc_State k < length (sr_states r) \<and>
        st_ID (sr_states r ! sc_State k) = sc_Key k \<and> sc_ControlVersion k \<le> sr_Sequence r"
    using assms(1-3) assms(4) [OF True] set_update_subset_insert [of "sr_calls r" c "g (sr_calls r ! c)"]
    unfolding shape_def by (metis (no_types, lifting) insertE subsetD)
  have e: "entry (mod_call c g r) = entry r" by simp
  show ?thesis using assms(1) ks unfolding shape_def e by (simp add: mod_call_def)
qed

subsection \<open>Making room\<close>

text \<open>What eviction may do: remove entries of idle sessions, nothing else.\<close>

definition evicted :: "session_router \<Rightarrow> session_router \<Rightarrow> bool" where
  "evicted r r' =
    (sr_states r' = sr_states r \<and> sr_calls r' = sr_calls r \<and> sr_Sequence r' = sr_Sequence r \<and>
     sr_Ttl r' = sr_Ttl r \<and> sr_Max r' = sr_Max r \<and>
     (\<forall>k e. entry r' k = Some e \<longrightarrow> entry r k = Some e) \<and>
     (\<forall>k e. entry r k = Some e \<and> \<not> idle_entry r e \<longrightarrow> entry r' k = Some e))"

lemma evicted_refl: "evicted r r"
  by (simp add: evicted_def)

lemma idle_same: "sr_states r' = sr_states r \<Longrightarrow> idle_entry r' e = idle_entry r e"
  by (simp add: idle_entry_def state_of_def cong: option.case_cong)

lemma evicted_trans: "evicted r s \<Longrightarrow> evicted s t \<Longrightarrow> evicted r t"
  unfolding evicted_def using idle_same by metis

lemma evicted_remove:
  "entry r key = Some e \<Longrightarrow> idle_entry r e \<Longrightarrow> evicted r (RemoveLocked key r)"
  by (auto simp: evicted_def)

lemma shape_linked: "shape r \<Longrightarrow> linked (sr_M r) (sr_Order r)"
  by (simp add: shape_def)

lemma order_entry: "shape r \<Longrightarrow> (i, key) \<in> set (sr_Order r) \<Longrightarrow> \<exists>e. entry r key = Some e \<and> se_Order e = i"
  using linked_iff [OF shape_linked] by (simp add: entry_def)

lemma entry_order: "shape r \<Longrightarrow> entry r key = Some e \<Longrightarrow> (se_Order e, key) \<in> set (sr_Order r)"
  using linked_iff [OF shape_linked] by (auto simp: entry_def)

lemma evict_scan_idle:
  assumes "shape r" "set os \<subseteq> set (sr_Order r)" "evict_scan r os = Some key"
  shows "\<exists>e. entry r key = Some e \<and> idle_entry r e"
  using assms(2,3)
proof (induction os)
  case (Cons ik os)
  obtain i k where ik: "ik = (i, k)" by fastforce
  with Cons.prems(1) order_entry [OF assms(1), of i k] obtain e where e: "entry r k = Some e" by auto
  show ?case
  proof (cases "idle_entry r e")
    case True
    with Cons.prems(2) e ik show ?thesis by auto
  next
    case False
    with Cons e ik show ?thesis by simp
  qed
qed simp

lemma EvictIdle_cases:
  assumes "shape r"
  shows "EvictIdleLocked r = (False, r) \<or>
    (\<exists>key e. EvictIdleLocked r = (True, RemoveLocked key r) \<and> entry r key = Some e \<and> idle_entry r e)"
  using evict_scan_idle [OF assms, of "sr_Order r"]
  by (cases "evict_scan r (sr_Order r)") (auto simp: EvictIdleLocked_def)

lemma room_loop_ok:
  "shape r \<Longrightarrow> length (sr_Order r) < n \<Longrightarrow>
   \<exists>b r'. room_loop n r = Some (b, r') \<and> shape r' \<and> evicted r r' \<and>
     (b \<longrightarrow> length (sr_M r') < sr_Max r')"
proof (induction n arbitrary: r)
  case (Suc n)
  show ?case
  proof (cases "length (sr_M r) \<ge> sr_Max r \<and> sr_Order r \<noteq> []")
    case False
    have "length (sr_M r) < sr_Max r"
      using False Suc.prems(1) linked_length [of "sr_M r" "sr_Order r"] by (auto simp: shape_def)
    with False Suc.prems(1) show ?thesis by (auto simp: evicted_refl)
  next
    case True
    from EvictIdle_cases [OF Suc.prems(1)] show ?thesis
    proof (elim disjE exE conjE)
      assume "EvictIdleLocked r = (False, r)"
      with True Suc.prems(1) show ?thesis by (auto simp: evicted_refl)
    next
      fix key e assume ev: "EvictIdleLocked r = (True, RemoveLocked key r)"
        and e: "entry r key = Some e" "idle_entry r e"
      have "sr_Order (RemoveLocked key r) = drop_element (se_Order e) (sr_Order r)"
        using e(1) by (simp add: RemoveLocked_def)
      then have "length (sr_Order (RemoveLocked key r)) < n"
        using drop_element_length [OF entry_order [OF Suc.prems(1) e(1)]] Suc.prems(2) by simp
      from Suc.IH [OF shape_remove [OF Suc.prems(1)] this] obtain b r' where
        l: "room_loop n (RemoveLocked key r) = Some (b, r')" "shape r'" "evicted (RemoveLocked key r) r'"
          "b \<longrightarrow> length (sr_M r') < sr_Max r'" by blast
      have "evicted r r'" using evicted_trans [OF evicted_remove [OF e] l(3)] .
      with True ev l(1,2,4) show ?thesis by simp
    qed
  qed
qed simp

lemma make_room_ok:
  assumes "shape r"
  obtains b r' where "make_room r = Some (b, r')" "shape r'" "evicted r r'"
    "b \<Longrightarrow> length (sr_M r') < sr_Max r'"
  using room_loop_ok [OF assms, of "Suc (length (sr_Order r))"] unfolding make_room_def by auto

lemma shape_insert:
  assumes "shape r" "entry r key = None" "length (sr_M r) < sr_Max r" "push_back key r = (el, r1)"
    "se_Order e = el" "\<And>i. se_Info e = Some i \<Longrightarrow> i < length (sr_states r) \<and> st_ID (sr_states r ! i) = key"
  shows "shape (put_entry key e r1)"
proof -
  have r1: "el = sr_elements r"
    "r1 = r\<lparr>sr_Order := sr_Order r @ [(sr_elements r, key)], sr_elements := Suc (sr_elements r)\<rparr>"
    using assms(4) by (auto simp: push_back_def)
  have key: "key \<notin> fst ` set (sr_M r)"
    using assms(2) map_of_eq_None_iff [of "sr_M r" key] by (simp add: entry_def)
  have "linked (AList.update key e (sr_M r)) (sr_Order r @ [(sr_elements r, key)])"
    using assms(1,2,5) r1(1) by (intro linked_push) (auto simp: shape_def entry_def)
  moreover have "\<forall>(i, k) \<in> set (sr_Order r @ [(sr_elements r, key)]). i < Suc (sr_elements r)"
    using assms(1) by (auto simp: shape_def)
  moreover have ent: "entry (put_entry key e r1) k = (if k = key then Some e else entry r k)" for k
    by (simp add: r1(2) entry_def put_entry_def update_conv)
  moreover have "length (AList.update key e (sr_M r)) \<le> sr_Max r"
    using assms(3) key by (simp add: length_update)
  ultimately show ?thesis
    using assms(1,6) unfolding shape_def ent by (auto simp: r1(2) put_entry_def)
qed

subsection \<open>The counts\<close>

text \<open>The calls of a state that have not finished, by their phase; \<open>fin\<close> are the finished ones.\<close>

definition open_calls :: "session_router \<Rightarrow> nat set \<Rightarrow> nat \<Rightarrow> bool \<Rightarrow> nat set" where
  "open_calls r fin i b =
    {c. c < length (sr_calls r) \<and> c \<notin> fin \<and> sc_State (sr_calls r ! c) = i \<and> sc_Running (sr_calls r ! c) = b}"

definition counts_ok :: "nat set \<Rightarrow> session_router \<Rightarrow> bool" where
  "counts_ok fin r =
    (\<forall>key i. info r key = Some i \<longrightarrow>
       st_Running (sr_states r ! i) = int (card (open_calls r fin i True)) \<and>
       st_Waiting (sr_states r ! i) = int (card (open_calls r fin i False)))"

definition sess_inv :: "nat set \<Rightarrow> session_router \<Rightarrow> bool" where
  "sess_inv fin r = (shape r \<and> counts_ok fin r \<and> fin \<subseteq> {..<length (sr_calls r)})"

lemma finite_open_calls [simp]: "finite (open_calls r fin i b)"
  by (simp add: open_calls_def)

lemma open_calls_same: "sr_calls r' = sr_calls r \<Longrightarrow> open_calls r' fin i b = open_calls r fin i b"
  by (simp add: open_calls_def)

lemma info_entry: "info r key = Some i \<longleftrightarrow> (\<exists>e. entry r key = Some e \<and> se_Info e = Some i)"
  by (auto simp: info_def split: option.split)

lemma counts_keep:
  assumes "counts_ok fin r" "\<And>i b. open_calls r' fin i b = open_calls r fin i b"
    "\<And>key i. info r' key = Some i \<Longrightarrow> info r key = Some i \<and>
      st_Running (sr_states r' ! i) = st_Running (sr_states r ! i) \<and>
      st_Waiting (sr_states r' ! i) = st_Waiting (sr_states r ! i)"
  shows "counts_ok fin r'"
  using assms unfolding counts_ok_def by metis

lemma inv_remove: "sess_inv fin r \<Longrightarrow> sess_inv fin (RemoveLocked key r)"
  unfolding sess_inv_def
  by (auto intro!: shape_remove counts_keep [of fin r] open_calls_same simp: info_def split: if_splits)

lemma inv_move: "sess_inv fin r \<Longrightarrow> sess_inv fin (move_to_back el r)"
  unfolding sess_inv_def
  by (auto intro!: shape_move counts_keep [of fin r] open_calls_same simp: info_def)

lemma inv_next: "sess_inv fin r \<Longrightarrow> sess_inv fin (next_sequence r)"
  unfolding sess_inv_def
  by (auto intro!: shape_next counts_keep [of fin r] open_calls_same simp: info_def)

lemma inv_put:
  assumes "sess_inv fin r" "entry r key = Some e" "se_Order e' = se_Order e" "se_Info e' = se_Info e"
  shows "sess_inv fin (put_entry key e' r)"
  using assms shape_put [of r key e e'] unfolding sess_inv_def
  by (auto intro!: counts_keep [of fin r] open_calls_same simp: info_def split: if_splits)

lemma inv_mod_state:
  assumes "sess_inv fin r" "st_ID (f (sr_states r ! i)) = st_ID (sr_states r ! i)"
    "st_Version (f (sr_states r ! i)) = st_Version (sr_states r ! i) \<or>
       st_Version (f (sr_states r ! i)) \<le> sr_Sequence r"
    "st_ControlEpoch (f (sr_states r ! i)) = st_ControlEpoch (sr_states r ! i) \<or>
       st_ControlEpoch (f (sr_states r ! i)) \<le> sr_Sequence r"
    "st_Running (f (sr_states r ! i)) = st_Running (sr_states r ! i)"
    "st_Waiting (f (sr_states r ! i)) = st_Waiting (sr_states r ! i)"
  shows "sess_inv fin (mod_state i f r)"
proof -
  have s: "shape r" using assms(1) by (simp add: sess_inv_def)
  have "shape (mod_state i f r)"
  proof (rule shape_mod_state [where r = r and f = f and i = i])
    show "shape r" by (rule s)
    show "st_ID (f (sr_states r ! i)) = st_ID (sr_states r ! i)" by (rule assms(2))
    assume "i < length (sr_states r)"
    then have "sr_states r ! i \<in> set (sr_states r)" by simp
    then have "st_Version (sr_states r ! i) \<le> sr_Sequence r \<and> st_ControlEpoch (sr_states r ! i) \<le> sr_Sequence r"
      using s unfolding shape_def by blast
    then show "st_Version (f (sr_states r ! i)) \<le> sr_Sequence r \<and>
        st_ControlEpoch (f (sr_states r ! i)) \<le> sr_Sequence r"
      using assms(3,4) by auto
  qed
  moreover have "st_Running (sr_states (mod_state i f r) ! j) = st_Running (sr_states r ! j)"
    "st_Waiting (sr_states (mod_state i f r) ! j) = st_Waiting (sr_states r ! j)" for j
    using assms(5,6) by (cases "i < length (sr_states r)"; cases "j = i"; simp add: mod_state_def list_update_beyond)+
  moreover have "open_calls (mod_state i f r) fin j b = open_calls r fin j b" for j b
    by (rule open_calls_same) simp
  ultimately show ?thesis
    using assms(1) counts_keep [of fin r "mod_state i f r"] unfolding sess_inv_def by (simp add: info_def)
qed

lemma inv_mod_call:
  assumes "sess_inv fin r" "sc_Key (g (sr_calls r ! c)) = sc_Key (sr_calls r ! c)"
    "sc_State (g (sr_calls r ! c)) = sc_State (sr_calls r ! c)"
    "sc_Running (g (sr_calls r ! c)) = sc_Running (sr_calls r ! c)"
    "sc_ControlVersion (g (sr_calls r ! c)) \<le> sr_Sequence r"
  shows "sess_inv fin (mod_call c g r)"
proof -
  have "open_calls (mod_call c g r) fin i b = open_calls r fin i b" for i b
    using assms(3,4)
    by (cases "c < length (sr_calls r)")
       (auto simp: open_calls_def mod_call_def nth_list_update list_update_beyond)
  then show ?thesis
    using assms counts_keep [of fin r "mod_call c g r"] shape_mod_call [of r g c]
    unfolding sess_inv_def by (simp add: info_def)
qed

lemma inv_evicted: "sess_inv fin r \<Longrightarrow> shape r' \<Longrightarrow> evicted r r' \<Longrightarrow> sess_inv fin r'"
proof -
  assume a: "sess_inv fin r" "shape r'" "evicted r r'"
  have s: "sr_states r' = sr_states r" "sr_calls r' = sr_calls r" using a(3) by (simp_all add: evicted_def)
  have "info r key = Some i" if "info r' key = Some i" for key i
    using that a(3) unfolding info_entry evicted_def by blast
  then show ?thesis
    using a(1,2) counts_keep [of fin r r'] open_calls_same [OF s(2)] s by (simp add: sess_inv_def)
qed

lemma inv_insert:
  assumes "sess_inv fin r" "entry r key = None" "length (sr_M r) < sr_Max r" "push_back key r = (el, r1)"
    "se_Order e = el" "se_Info e = None"
  shows "sess_inv fin (put_entry key e r1)"
proof -
  have "shape (put_entry key e r1)"
    using assms shape_insert [of r key el r1 e] by (simp add: sess_inv_def)
  moreover have "entry r1 = entry r" "sr_states r1 = sr_states r" "sr_calls r1 = sr_calls r"
    using assms(4) by (auto simp: push_back_def entry_def fun_eq_iff)
  ultimately show ?thesis
    using assms(1,6) unfolding sess_inv_def
    by (auto intro!: counts_keep [of fin r] open_calls_same simp: info_def split: if_splits)
qed

subsection \<open>Operations keep the invariant\<close>

lemma inv_remove_fold:
  "sess_inv fin r \<Longrightarrow> sess_inv fin (foldl (\<lambda>r (key, e). if P r e then RemoveLocked key r else r) r xs)"
  by (induction xs arbitrary: r) (auto simp: inv_remove)

lemma inv_RemoveAccount: "sess_inv fin r \<Longrightarrow> sess_inv fin (RemoveAccount uid r)"
  unfolding RemoveAccount_def by (rule inv_remove_fold [where P = "\<lambda>r e. se_Uid e = uid"])

lemma inv_Views: "sess_inv fin r \<Longrightarrow> sess_inv fin (snd (Views now r))"
  by (simp add: Views_def inv_remove_fold [where P = "lapsed now"])

lemma inv_Lookup: "sess_inv fin r \<Longrightarrow> sess_inv fin (snd (Lookup now key r))"
  by (simp add: Lookup_def inv_remove split: option.split)

lemma inv_shape: "sess_inv fin r \<Longrightarrow> shape r"
  by (simp add: sess_inv_def)

lemma entry_none_evicted: "evicted r r' \<Longrightarrow> entry r key = None \<Longrightarrow> entry r' key = None"
  unfolding evicted_def by (metis not_None_eq)

lemma inv_Bind:
  assumes "sess_inv fin r"
  shows "\<exists>r'. Bind now key uid r = Some r' \<and> sess_inv fin r'"
proof (cases "key = [] \<or> uid = []")
  case True
  with assms show ?thesis by (auto simp: Bind_def)
next
  case False
  show ?thesis
  proof (cases "entry r key")
    case (Some e)
    have "sess_inv fin (put_entry key (e\<lparr>se_Uid := uid, se_Expires := fadd now (sr_Ttl r)\<rparr>) (move_to_back (se_Order e) r))"
      using Some by (intro inv_put [OF inv_move [OF assms]]) simp_all
    with False Some assms show ?thesis by (simp add: Bind_def)
  next
    case None
    obtain b r1 where r1: "make_room r = Some (b, r1)" "shape r1" "evicted r r1" "b \<Longrightarrow> length (sr_M r1) < sr_Max r1"
      using make_room_ok [OF inv_shape [OF assms]] by blast
    have i1: "sess_inv fin r1" using inv_evicted [OF assms r1(2,3)] .
    show ?thesis
    proof (cases b)
      case False
      with \<open>\<not> (key = [] \<or> uid = [])\<close> None r1(1) i1 show ?thesis by (auto simp: Bind_def)
    next
      case True
      obtain el r2 where p: "push_back key r1 = (el, r2)" by fastforce
      have "sess_inv fin (put_entry key \<lparr>se_Uid = uid, se_Expires = fadd now (sr_Ttl r1), se_Order = el, se_Info = None\<rparr> r2)"
        using inv_insert [OF i1 entry_none_evicted [OF r1(3) None] r1(4) [OF True] p] by simp
      with False None True r1(1) p show ?thesis by (auto simp: Bind_def)
    qed
  qed
qed

lemma inv_UnbindMatching: "sess_inv fin r \<Longrightarrow> sess_inv fin (UnbindMatching key failed r)"
proof -
  assume a: "sess_inv fin r"
  have "sess_inv fin (put_entry key (e\<lparr>se_Uid := []\<rparr>) (mod_state i
      (\<lambda>s. (clear_compatibility (s\<lparr>st_ManualUID := []\<rparr>))\<lparr>st_Version := sr_Sequence (next_sequence r)\<rparr>) (next_sequence r)))"
    if "entry r key = Some e" for e i
    using that by (intro inv_put [where e = e] inv_mod_state inv_next [OF a]) (simp_all add: clear_compatibility_def)
  with a show ?thesis
    by (auto simp: UnbindMatching_def Let_def inv_remove split: option.split)
qed

lemma inv_SessionCredits: "sess_inv fin r \<Longrightarrow> sess_inv fin (SessionCredits call credits r)"
  by (auto simp: SessionCredits_def intro!: inv_mod_state split: option.split)

lemma inv_Reject: "sess_inv fin r \<Longrightarrow> sess_inv fin (Reject key version reason r)"
  by (auto simp: Reject_def Let_def intro!: inv_mod_state inv_next split: option.split)

lemma inv_Attempt: "sess_inv fin r \<Longrightarrow> sess_inv fin (Attempt call uid r)"
  by (auto simp: Attempt_def Let_def intro!: inv_mod_state split: option.split)

lemma inv_Outcome: "sess_inv fin r \<Longrightarrow> sess_inv fin (Outcome call uid success r)"
  by (auto simp: Outcome_def outcome_state_def Let_def intro!: inv_mod_state split: option.split)

lemma inv_Control: "sess_inv fin r \<Longrightarrow> sess_inv fin (snd (Control key version action target r))"
  by (cases "action = ''cancel''")
     (auto simp: Control_def control_state_def Let_def intro!: inv_mod_state inv_next split: option.split)

lemma inv_Remember: "sess_inv fin r \<Longrightarrow> sess_inv fin (RememberCompatibility key uid fp level r)"
  by (auto simp: RememberCompatibility_def intro!: inv_mod_state split: option.split)

lemma info_state:
  assumes "shape r" "info r key = Some i"
  shows "i < length (sr_states r) \<and> st_ID (sr_states r ! i) = key"
  using assms unfolding shape_def info_entry by blast

lemma call_state:
  assumes "shape r" "c < length (sr_calls r)"
  shows "sc_State (sr_calls r ! c) < length (sr_states r) \<and>
    st_ID (sr_states r ! sc_State (sr_calls r ! c)) = sc_Key (sr_calls r ! c) \<and>
    sc_ControlVersion (sr_calls r ! c) \<le> sr_Sequence r"
  using assms nth_mem unfolding shape_def by blast

lemma state_versions:
  assumes "shape r" "i < length (sr_states r)"
  shows "st_Version (sr_states r ! i) \<le> sr_Sequence r \<and> st_ControlEpoch (sr_states r ! i) \<le> sr_Sequence r"
  using assms nth_mem unfolding shape_def by blast

lemma attached_info:
  "attached r c = Some e \<longleftrightarrow>
    entry r (sc_Key (sr_calls r ! c)) = Some e \<and> se_Info e = Some (sc_State (sr_calls r ! c))"
  by (auto simp: attached_def split: option.split)

text \<open>Two sessions never share a state: the state of a call is that of the key it was begun for.\<close>

lemma info_unique:
  "shape r \<Longrightarrow> info r k = Some i \<Longrightarrow> info r l = Some i \<Longrightarrow> k = l"
  using info_state by blast

lemma counts_of_state:
  assumes "sess_inv fin r" "shape r'" "sr_states r' = (sr_states r)[i := s]" "i < length (sr_states r)"
    "\<And>k. info r' k = info r k"
    "\<And>j b. j \<noteq> i \<Longrightarrow> open_calls r' fin' j b = open_calls r fin j b"
    "st_Running s = int (card (open_calls r' fin' i True))"
    "st_Waiting s = int (card (open_calls r' fin' i False))"
    "fin' \<subseteq> {..<length (sr_calls r')}"
  shows "sess_inv fin' r'"
proof -
  have "counts_ok fin' r'"
    unfolding counts_ok_def
  proof (intro allI impI)
    fix key j assume "info r' key = Some j"
    then have j: "info r key = Some j" using assms(5) by simp
    show "st_Running (sr_states r' ! j) = int (card (open_calls r' fin' j True)) \<and>
        st_Waiting (sr_states r' ! j) = int (card (open_calls r' fin' j False))"
    proof (cases "j = i")
      case True
      with assms(3,4,7,8) show ?thesis by simp
    next
      case False
      with j assms(1,3,6) show ?thesis by (simp add: sess_inv_def counts_ok_def)
    qed
  qed
  with assms(2,9) show ?thesis by (simp add: sess_inv_def)
qed

lemma inv_Phase:
  assumes "sess_inv fin r" "c < length (sr_calls r)" "c \<notin> fin"
  shows "sess_inv fin (Phase now c running r)"
proof (cases "attached r c = None \<or> sc_Running (sr_calls r ! c) = running")
  case True
  with assms(1) show ?thesis by (auto simp: Phase_def split: option.split)
next
  case False
  then obtain e where e: "attached r c = Some e" and b: "sc_Running (sr_calls r ! c) = (\<not> running)" by auto
  let ?i = "sc_State (sr_calls r ! c)"
  let ?f = "\<lambda>s. if running
    then s\<lparr>st_Waiting := st_Waiting s - 1, st_Running := st_Running s + 1, st_Last := now\<rparr>
    else s\<lparr>st_Running := st_Running s - 1, st_Waiting := st_Waiting s + 1, st_Last := now\<rparr>"
  define r1 where "r1 = mod_call c (\<lambda>k. k\<lparr>sc_Running := running\<rparr>) r"
  have sh: "shape r" using assms(1) by (simp add: sess_inv_def)
  have i: "?i < length (sr_states r)" using call_state [OF sh assms(2)] by simp
  have inf: "info r (sc_Key (sr_calls r ! c)) = Some ?i" using e by (simp add: attached_info info_def)
  have eq: "Phase now c running r = mod_state ?i ?f r1"
    unfolding Phase_def e option.case r1_def using b by simp
  have s1: "shape r1" unfolding r1_def using call_state [OF sh assms(2)] by (intro shape_mod_call [OF sh]) simp_all
  have s2: "shape (mod_state ?i ?f r1)"
    using state_versions [OF sh i] by (intro shape_mod_state [OF s1]) (simp_all add: r1_def)
  have calls: "sr_calls (mod_state ?i ?f r1) = (sr_calls r)[c := (sr_calls r ! c)\<lparr>sc_Running := running\<rparr>]"
    by (simp add: r1_def mod_call_def)
  have other: "open_calls (mod_state ?i ?f r1) fin j d = open_calls r fin j d" if "j \<noteq> ?i" for j d
    using that assms(2) unfolding open_calls_def calls by (auto simp: nth_list_update)
  have mine: "open_calls (mod_state ?i ?f r1) fin ?i running = insert c (open_calls r fin ?i running)"
    "open_calls (mod_state ?i ?f r1) fin ?i (\<not> running) = open_calls r fin ?i (\<not> running) - {c}"
    "c \<notin> open_calls r fin ?i running" "c \<in> open_calls r fin ?i (\<not> running)"
    using assms(2,3) b unfolding open_calls_def calls by (auto simp: nth_list_update)
  have pos: "0 < card (open_calls r fin ?i (\<not> running))" using mine(4) by (auto simp: card_gt_0_iff)
  have cnt: "st_Running (sr_states r ! ?i) = int (card (open_calls r fin ?i True))"
    "st_Waiting (sr_states r ! ?i) = int (card (open_calls r fin ?i False))"
    using assms(1) inf by (simp_all add: sess_inv_def counts_ok_def)
  show ?thesis
    unfolding eq
  proof (rule counts_of_state [OF assms(1) s2 _ i _ other])
    show "sr_states (mod_state ?i ?f r1) = (sr_states r)[?i := ?f (sr_states r ! ?i)]"
      by (simp add: mod_state_def r1_def)
    show "info (mod_state ?i ?f r1) k = info r k" for k by (simp add: info_def r1_def)
    show "fin \<subseteq> {..<length (sr_calls (mod_state ?i ?f r1))}"
      using assms(1) by (simp add: r1_def sess_inv_def)
    show "st_Running (?f (sr_states r ! ?i)) = int (card (open_calls (mod_state ?i ?f r1) fin ?i True))"
      using cnt mine pos by (cases running) (simp_all add: card_Diff_singleton of_nat_diff)
    show "st_Waiting (?f (sr_states r ! ?i)) = int (card (open_calls (mod_state ?i ?f r1) fin ?i False))"
      using cnt mine pos by (cases running) (simp_all add: card_Diff_singleton of_nat_diff)
  qed
qed

lemma inv_Finish:
  assumes "sess_inv fin r" "c < length (sr_calls r)" "c \<notin> fin"
  shows "sess_inv (insert c fin) (Finish now c r)"
proof (cases "attached r c")
  case None
  have sh: "shape r" using assms(1) by (simp add: sess_inv_def)
  have "open_calls r (insert c fin) i b = open_calls r fin i b" if "info r key = Some i" for i b key
  proof -
    have "sc_State (sr_calls r ! c) \<noteq> i"
    proof
      assume i: "sc_State (sr_calls r ! c) = i"
      have "sc_Key (sr_calls r ! c) = key"
        using call_state [OF sh assms(2)] info_state [OF sh that] i by simp
      with None that i show False by (auto simp: attached_def info_entry)
    qed
    then show ?thesis by (auto simp: open_calls_def)
  qed
  with assms show ?thesis by (auto simp: Finish_def None sess_inv_def counts_ok_def)
next
  case (Some e)
  let ?i = "sc_State (sr_calls r ! c)" and ?k = "sc_Key (sr_calls r ! c)"
  let ?b = "sc_Running (sr_calls r ! c)"
  let ?f = "\<lambda>s. if ?b then s\<lparr>st_Running := st_Running s - 1, st_Last := now\<rparr>
    else s\<lparr>st_Waiting := st_Waiting s - 1, st_Last := now\<rparr>"
  define r' where "r' = Finish now c r"
  have sh: "shape r" using assms(1) by (simp add: sess_inv_def)
  have i: "?i < length (sr_states r)" using call_state [OF sh assms(2)] by simp
  have ent: "entry r ?k = Some e" "se_Info e = Some ?i" using Some by (simp_all add: attached_info)
  have inf: "info r ?k = Some ?i" using ent by (simp add: info_def)
  have eq: "r' = put_entry ?k (e\<lparr>se_Expires := fadd now (sr_Ttl r)\<rparr>) (mod_state ?i ?f r)"
    unfolding r'_def Finish_def Some option.case ..
  have s1: "shape (mod_state ?i ?f r)"
    using state_versions [OF sh i] by (intro shape_mod_state [OF sh]) simp_all
  have s2: "shape r'" unfolding eq using ent by (intro shape_put [OF s1, of ?k e]) simp_all
  have calls: "sr_calls r' = sr_calls r" by (simp add: eq)
  have other: "open_calls r' (insert c fin) j d = open_calls r fin j d" if "j \<noteq> ?i" for j d
    using that unfolding open_calls_def calls by auto
  have mine: "open_calls r' (insert c fin) ?i ?b = open_calls r fin ?i ?b - {c}"
    "open_calls r' (insert c fin) ?i (\<not> ?b) = open_calls r fin ?i (\<not> ?b)"
    "c \<in> open_calls r fin ?i ?b"
    using assms(2,3) unfolding open_calls_def calls by auto
  have pos: "0 < card (open_calls r fin ?i ?b)" using mine(3) by (auto simp: card_gt_0_iff)
  have cnt: "st_Running (sr_states r ! ?i) = int (card (open_calls r fin ?i True))"
    "st_Waiting (sr_states r ! ?i) = int (card (open_calls r fin ?i False))"
    using assms(1) inf by (simp_all add: sess_inv_def counts_ok_def)
  show ?thesis
    unfolding r'_def [symmetric]
  proof (rule counts_of_state [OF assms(1) s2 _ i _ other])
    show "sr_states r' = (sr_states r)[?i := ?f (sr_states r ! ?i)]"
      by (simp add: eq mod_state_def)
    show "info r' k = info r k" for k using ent by (simp add: info_def eq)
    show "insert c fin \<subseteq> {..<length (sr_calls r')}"
      using assms(1,2) by (simp add: calls sess_inv_def)
    show "st_Running (?f (sr_states r ! ?i)) = int (card (open_calls r' (insert c fin) ?i True))"
      using cnt mine pos by (cases ?b) (simp_all add: card_Diff_singleton of_nat_diff)
    show "st_Waiting (?f (sr_states r ! ?i)) = int (card (open_calls r' (insert c fin) ?i False))"
      using cnt mine pos by (cases ?b) (simp_all add: card_Diff_singleton of_nat_diff)
  qed
qed

lemma inv_Commit:
  assumes "sess_inv fin r"
  shows "sess_inv fin (snd (Commit now selection uid r))"
proof (cases "\<exists>sel e i. selection = Some sel \<and> ss_Key sel \<noteq> [] \<and> entry r (ss_Key sel) = Some e \<and>
    se_Info e = Some i \<and> st_Version (state_of r i) = ss_Version sel")
  case False
  with assms show ?thesis by (auto simp: Commit_def split: option.split)
next
  case True
  then obtain sel e i where sel: "selection = Some sel" "ss_Key sel \<noteq> []" "entry r (ss_Key sel) = Some e"
    "se_Info e = Some i" "st_Version (state_of r i) = ss_Version sel" by blast
  have sh: "shape r" using assms(1) by (simp add: sess_inv_def)
  have i: "i < length (sr_states r)" using info_state [OF sh, of "ss_Key sel" i] sel by (simp add: info_def)
  define r1 where "r1 = mod_state i (commit_state uid (se_Uid e \<noteq> uid)) r"
  define r2 where "r2 = (if se_Uid e \<noteq> uid \<or> st_Pending (state_of r i) \<noteq> []
    then mod_state i (\<lambda>s. s\<lparr>st_Version := sr_Sequence (next_sequence r1)\<rparr>) (next_sequence r1) else r1)"
  define r3 where "r3 = (case ss_Call sel of None \<Rightarrow> r2
    | Some c \<Rightarrow> if ss_Action sel = [] then r2
        else mod_call c (\<lambda>k. k\<lparr>sc_ControlVersion := st_ControlEpoch (state_of r2 i), sc_TargetUID := uid\<rparr>) r2)"
  define r4 where "r4 = mod_state i (\<lambda>s. s\<lparr>st_LastUID := uid\<rparr>) r3"
  have r4: "commit_router uid sel e i r = r4"
    unfolding commit_router_def Let_def r4_def r3_def r2_def r1_def ..
  have eq: "snd (Commit now selection uid r) =
      put_entry (ss_Key sel) (e\<lparr>se_Uid := uid, se_Expires := fadd now (sr_Ttl r)\<rparr>) r4"
    using sel by (simp add: Commit_def r4)
  have i1: "sess_inv fin r1"
    unfolding r1_def by (intro inv_mod_state [OF assms]) (simp_all add: commit_state_def clear_compatibility_def Let_def)
  have i2: "sess_inv fin r2"
    unfolding r2_def using i1 by (auto intro!: inv_mod_state inv_next)
  have len: "i < length (sr_states r2)" using i by (simp add: r2_def r1_def)
  have "st_ControlEpoch (state_of r2 i) \<le> sr_Sequence r2"
    using state_versions [OF inv_shape [OF i2] len] by (simp add: state_of_def)
  then have i3: "sess_inv fin r3"
    unfolding r3_def using i2 by (auto intro!: inv_mod_call split: option.split)
  have i4: "sess_inv fin r4" unfolding r4_def by (intro inv_mod_state [OF i3]) simp_all
  have "entry r4 (ss_Key sel) = Some e"
    using sel(3) by (simp add: r4_def r3_def r2_def r1_def split: option.split)
  then show ?thesis unfolding eq by (intro inv_put [OF i4]) simp_all
qed

lemma put_mod_state: "put_entry key e (mod_state i f r) = mod_state i f (put_entry key e r)"
  by (cases r) (simp add: put_entry_def mod_state_def)

text \<open>The step that enters a request: a fresh call waits on the state of its entry.\<close>

lemma inv_enter:
  assumes "sess_inv fin r" "i < length (sr_states r)" "st_ID (sr_states r ! i) = key"
    "shape (put_entry key e r)" "se_Info e = Some i" "info r key = Some i \<or> info r key = None \<and> (\<forall>c \<in> set (sr_calls r). sc_State c \<noteq> i) \<and>
      st_Running (sr_states r ! i) = 0 \<and> st_Waiting (sr_states r ! i) = 0"
  shows "sess_inv fin ((move_to_back el (put_entry key e (mod_state i (count_request now p agent) r)))
    \<lparr>sr_calls := sr_calls r @ [\<lparr>sc_Key = key, sc_State = i, sc_Running = False,
       sc_ControlVersion = 0, sc_TargetUID = []\<rparr>]\<rparr>)"
proof -
  let ?new = "\<lparr>sc_Key = key, sc_State = i, sc_Running = False, sc_ControlVersion = 0, sc_TargetUID = []\<rparr>"
  define r1 where "r1 = mod_state i (count_request now p agent) (put_entry key e r)"
  define r2 where "r2 = (move_to_back el r1)\<lparr>sr_calls := sr_calls r @ [?new]\<rparr>"
  have r2: "(move_to_back el (put_entry key e (mod_state i (count_request now p agent) r)))\<lparr>sr_calls := sr_calls r @ [?new]\<rparr> = r2"
    by (simp only: r2_def r1_def put_mod_state)
  have f: "st_ID (count_request now p agent s) = st_ID s" "st_Version (count_request now p agent s) = st_Version s"
    "st_ControlEpoch (count_request now p agent s) = st_ControlEpoch s"
    "st_Running (count_request now p agent s) = st_Running s"
    "st_Waiting (count_request now p agent s) = st_Waiting s + 1" for s
    by (simp_all add: count_request_def with_principal_def Let_def split: option.split)
  have sh: "shape r" using assms(1) by (simp add: sess_inv_def)
  have s1: "shape r1"
    unfolding r1_def using state_versions [OF sh assms(2)] by (intro shape_mod_state [OF assms(4)]) (simp_all add: f)
  have s1': "shape (move_to_back el r1)" using shape_move [OF s1] .
  have states: "sr_states r2 = (sr_states r)[i := count_request now p agent (sr_states r ! i)]"
    by (simp add: r2_def r1_def move_to_back_def mod_state_def put_entry_def)
  have id: "st_ID (sr_states r2 ! j) = st_ID (sr_states r ! j)" for j
    unfolding states using assms(2) f(1) by (cases "j = i") simp_all
  have "\<forall>k \<in> set (sr_calls r). sc_State k < length (sr_states r) \<and>
      st_ID (sr_states r ! sc_State k) = sc_Key k \<and> sc_ControlVersion k \<le> sr_Sequence r"
    using sh by (simp add: shape_def)
  then have calls_ok: "\<forall>k \<in> set (sr_calls r @ [?new]). sc_State k < length (sr_states r2) \<and>
      st_ID (sr_states r2 ! sc_State k) = sc_Key k \<and> sc_ControlVersion k \<le> sr_Sequence r2"
    using assms(2,3) unfolding id by (auto simp: states r2_def r1_def)
  have ent: "entry r2 = entry (move_to_back el r1)"
    by (simp add: r2_def entry_def move_to_back_def fun_eq_iff)
  have same: "sr_M r2 = sr_M (move_to_back el r1)" "sr_Order r2 = sr_Order (move_to_back el r1)"
    "sr_elements r2 = sr_elements (move_to_back el r1)" "sr_Max r2 = sr_Max (move_to_back el r1)"
    "sr_states r2 = sr_states (move_to_back el r1)" "sr_Sequence r2 = sr_Sequence (move_to_back el r1)"
    "sr_calls r2 = sr_calls r @ [?new]"
    by (simp_all add: r2_def)
  have s2: "shape r2"
    using s1' calls_ok unfolding shape_def ent same by (elim conjE) (intro conjI; assumption)
  have fin: "fin \<subseteq> {..<length (sr_calls r)}" using assms(1) by (simp add: sess_inv_def)
  have grow: "open_calls r2 fin j b = open_calls r fin j b \<union> (if j = i \<and> \<not> b then {length (sr_calls r)} else {})" for j b
    using fin unfolding open_calls_def same(7)
    by (auto simp: nth_append less_Suc_eq)
  have fresh: "length (sr_calls r) \<notin> open_calls r fin i False" by (simp add: open_calls_def)
  have cnt: "st_Running (sr_states r ! i) = int (card (open_calls r fin i True)) \<and>
    st_Waiting (sr_states r ! i) = int (card (open_calls r fin i False))"
    using assms(6)
  proof
    assume "info r key = Some i"
    then show ?thesis using assms(1) by (simp add: sess_inv_def counts_ok_def)
  next
    assume a: "info r key = None \<and> (\<forall>c \<in> set (sr_calls r). sc_State c \<noteq> i) \<and>
      st_Running (sr_states r ! i) = 0 \<and> st_Waiting (sr_states r ! i) = 0"
    then have "open_calls r fin i b = {}" for b by (auto simp: open_calls_def)
    with a show ?thesis by simp
  qed
  have "counts_ok fin r2"
    unfolding counts_ok_def
  proof (intro allI impI)
    fix k j assume kj: "info r2 k = Some j"
    show "st_Running (sr_states r2 ! j) = int (card (open_calls r2 fin j True)) \<and>
        st_Waiting (sr_states r2 ! j) = int (card (open_calls r2 fin j False))"
    proof (cases "j = i")
      case True
      with cnt fresh assms(2) show ?thesis by (simp add: grow states f)
    next
      case False
      have "k \<noteq> key" using kj False assms(5) by (auto simp: info_def ent r1_def)
      then have "info r k = Some j" using kj by (simp add: info_def ent r1_def)
      with assms(1) have "st_Running (sr_states r ! j) = int (card (open_calls r fin j True)) \<and>
          st_Waiting (sr_states r ! j) = int (card (open_calls r fin j False))"
        by (simp add: sess_inv_def counts_ok_def)
      with False show ?thesis by (simp add: grow states)
    qed
  qed
  with s2 fin show ?thesis unfolding r2 by (auto simp: sess_inv_def same(7))
qed

lemma inv_append_state:
  assumes "sess_inv fin r" "st_Version s = Suc (sr_Sequence r)" "st_ControlEpoch s \<le> Suc (sr_Sequence r)"
  shows "sess_inv fin ((next_sequence r)\<lparr>sr_states := sr_states r @ [s]\<rparr>)"
proof -
  let ?r = "(next_sequence r)\<lparr>sr_states := sr_states r @ [s]\<rparr>"
  have sh: "shape r" using assms(1) by (simp add: sess_inv_def)
  have ent: "entry ?r = entry r" by (simp add: entry_def next_sequence_def fun_eq_iff)
  have nth: "(sr_states r @ [s]) ! i = sr_states r ! i" if "i < length (sr_states r)" for i
    using that by (simp add: nth_append)
  have entries: "\<forall>key e i. entry r key = Some e \<and> se_Info e = Some i \<longrightarrow>
      i < length (sr_states r @ [s]) \<and> st_ID ((sr_states r @ [s]) ! i) = key"
  proof (intro allI impI)
    fix key e i assume "entry r key = Some e \<and> se_Info e = Some i"
    then have "i < length (sr_states r) \<and> st_ID (sr_states r ! i) = key"
      using sh unfolding shape_def by blast
    then show "i < length (sr_states r @ [s]) \<and> st_ID ((sr_states r @ [s]) ! i) = key" by (simp add: nth)
  qed
  have calls: "\<forall>k \<in> set (sr_calls r). sc_State k < length (sr_states r @ [s]) \<and>
      st_ID ((sr_states r @ [s]) ! sc_State k) = sc_Key k \<and> sc_ControlVersion k \<le> Suc (sr_Sequence r)"
    using sh unfolding shape_def by (auto simp: nth)
  have states: "\<forall>t \<in> set (sr_states r @ [s]). st_Version t \<le> Suc (sr_Sequence r) \<and> st_ControlEpoch t \<le> Suc (sr_Sequence r)"
    using sh assms(2,3) unfolding shape_def by (auto intro: le_SucI)
  have "shape ?r"
    using sh entries calls states unfolding shape_def ent by (simp add: next_sequence_def)
  moreover have "counts_ok fin ?r"
  proof (rule counts_keep [of fin r])
    show "counts_ok fin r" using assms(1) by (simp add: sess_inv_def)
    show "open_calls ?r fin i b = open_calls r fin i b" for i b by (rule open_calls_same) simp
    show "info r key = Some i \<and> st_Running (sr_states ?r ! i) = st_Running (sr_states r ! i) \<and>
        st_Waiting (sr_states ?r ! i) = st_Waiting (sr_states r ! i)" if "info ?r key = Some i" for key i
    proof -
      have "info r key = Some i" using that by (simp add: info_def ent)
      with info_state [OF sh this] show ?thesis by (simp add: nth)
    qed
  qed
  ultimately show ?thesis using assms(1) by (simp add: sess_inv_def)
qed

lemma inv_begin_call:
  assumes "sess_inv fin r" "entry r key = Some e"
  shows "sess_inv fin (begin_call now key model source p agent e r)"
proof (cases "se_Info e")
  case (Some i)
  have sh: "shape r" using assms(1) by (simp add: sess_inv_def)
  have inf: "info r key = Some i" using assms(2) Some by (simp add: info_def)
  note i = info_state [OF sh inf]
  have "shape (put_entry key (e\<lparr>se_Info := Some i, se_Expires := fadd now (sr_Ttl r)\<rparr>) r)"
    using Some by (intro shape_put [OF sh assms(2)]) simp_all
  then show ?thesis
    using inv_enter [OF assms(1) conjunct1 [OF i] conjunct2 [OF i], of
        "e\<lparr>se_Info := Some i, se_Expires := fadd now (sr_Ttl r)\<rparr>" "se_Order e" now p agent] inf Some
    by (simp add: begin_call_def begin_state_def)
next
  case None
  have sh: "shape r" using assms(1) by (simp add: sess_inv_def)
  let ?s = "new_state now key model source (se_Uid e) (Suc (sr_Sequence r))"
  define r1 where "r1 = (next_sequence r)\<lparr>sr_states := sr_states r @ [?s]\<rparr>"
  have i1: "sess_inv fin r1"
    unfolding r1_def using inv_append_state [OF assms(1), of ?s] by (simp add: new_state_def)
  have ent: "entry r1 = entry r" by (simp add: r1_def entry_def next_sequence_def fun_eq_iff)
  have nth: "sr_states r1 ! length (sr_states r) = ?s" "length (sr_states r) < length (sr_states r1)"
    by (simp_all add: r1_def)
  have s1: "shape (put_entry key (e\<lparr>se_Info := Some (length (sr_states r)), se_Expires := fadd now (sr_Ttl r)\<rparr>) r1)"
    using assms(2) nth by (intro shape_put [OF inv_shape [OF i1], of key e]) (simp_all add: ent new_state_def)
  have "\<forall>c \<in> set (sr_calls r1). sc_State c \<noteq> length (sr_states r)"
    using sh by (auto simp: shape_def r1_def)
  then have "sess_inv fin ((move_to_back (se_Order e)
      (put_entry key (e\<lparr>se_Info := Some (length (sr_states r)), se_Expires := fadd now (sr_Ttl r)\<rparr>)
        (mod_state (length (sr_states r)) (count_request now p agent) r1)))
    \<lparr>sr_calls := sr_calls r1 @ [\<lparr>sc_Key = key, sc_State = length (sr_states r), sc_Running = False,
       sc_ControlVersion = 0, sc_TargetUID = []\<rparr>]\<rparr>)"
    using assms(2) None nth by (intro inv_enter [OF i1 nth(2) _ s1]) (simp_all add: info_def ent new_state_def)
  moreover have "sr_calls r1 = sr_calls r" by (simp add: r1_def)
  moreover have "begin_state now key model source e r = (length (sr_states r), r1)"
    using None by (simp add: begin_state_def r1_def Let_def)
  ultimately show ?thesis by (simp add: begin_call_def)
qed

subsection \<open>What a step may do to the other sessions\<close>

definition active :: "session_router \<Rightarrow> nat \<Rightarrow> bool" where
  "active r i = (st_Running (state_of r i) + st_Waiting (state_of r i) \<noteq> 0)"

definition keeps_active :: "session_router \<Rightarrow> session_router \<Rightarrow> bool" where
  "keeps_active r r' = (\<forall>key i. info r key = Some i \<and> active r i \<longrightarrow> info r' key = Some i)"

text \<open>The bound stays, versions only grow, and a state that a key newly gets has a version of its own.\<close>

definition ages :: "session_router \<Rightarrow> session_router \<Rightarrow> bool" where
  "ages r r' =
    (sr_Max r' = sr_Max r \<and> sr_Sequence r \<le> sr_Sequence r' \<and>
     (\<forall>key i. info r' key = Some i \<longrightarrow>
        info r key = Some i \<and> st_Version (state_of r i) \<le> st_Version (state_of r' i) \<or>
        sr_Sequence r < st_Version (state_of r' i)))"

lemma ages_refl: "ages r r"
  by (simp add: ages_def)

lemma ages_trans:
  assumes "ages r s" "ages s t"
  shows "ages r t"
  unfolding ages_def
proof (intro conjI allI impI)
  show "sr_Max t = sr_Max r" "sr_Sequence r \<le> sr_Sequence t" using assms by (auto simp: ages_def)
  fix key i assume "info t key = Some i"
  with assms(2) have "info s key = Some i \<and> st_Version (state_of s i) \<le> st_Version (state_of t i) \<or>
      sr_Sequence s < st_Version (state_of t i)" by (simp add: ages_def)
  moreover have "sr_Sequence r \<le> sr_Sequence s" using assms(1) by (simp add: ages_def)
  moreover have "info s key = Some i \<Longrightarrow>
      info r key = Some i \<and> st_Version (state_of r i) \<le> st_Version (state_of s i) \<or>
      sr_Sequence r < st_Version (state_of s i)" using assms(1) by (simp add: ages_def)
  ultimately show "info r key = Some i \<and> st_Version (state_of r i) \<le> st_Version (state_of t i) \<or>
      sr_Sequence r < st_Version (state_of t i)" by linarith
qed

lemma keeps_same: "(\<And>key. info r' key = info r key) \<Longrightarrow> keeps_active r r'"
  by (simp add: keeps_active_def)

lemma info_prims [simp]:
  "info (mod_state i f r) = info r" "info (mod_call c g r) = info r"
  "info (next_sequence r) = info r" "info (move_to_back el r) = info r"
  by (auto simp: info_def fun_eq_iff)

lemma state_prims [simp]:
  "state_of (put_entry k e r) = state_of r" "state_of (mod_call c g r) = state_of r"
  "state_of (next_sequence r) = state_of r" "state_of (move_to_back el r) = state_of r"
  "state_of (RemoveLocked k r) = state_of r"
  by (simp_all add: state_of_def fun_eq_iff)

lemma ages_mod_state:
  assumes "st_Version (f (sr_states r ! i)) = st_Version (sr_states r ! i) \<or>
    st_Version (f (sr_states r ! i)) = sr_Sequence r \<and> shape r"
  shows "ages r (mod_state i f r)"
proof -
  have "st_Version (state_of r j) \<le> st_Version (state_of (mod_state i f r) j)" for j
  proof (cases "j = i \<and> i < length (sr_states r)")
    case True
    with assms state_versions [of r i] show ?thesis by (auto simp: state_of_def mod_state_def)
  next
    case False
    then show ?thesis by (cases "i < length (sr_states r)") (auto simp: state_of_def mod_state_def list_update_beyond)
  qed
  then show ?thesis by (simp add: ages_def)
qed

lemma ages_prims:
  "ages r (next_sequence r)" "ages r (mod_call c g r)" "ages r (move_to_back el r)"
  "ages r (RemoveLocked key r)"
  "entry r key = Some e \<Longrightarrow> se_Info e' = se_Info e \<Longrightarrow> ages r (put_entry key e' r)"
  by (auto simp: ages_def info_def split: if_splits)

lemma evicted_info:
  assumes "evicted r r'" "info r' key = Some i"
  shows "info r key = Some i"
proof -
  from assms(2) obtain e where e: "entry r' key = Some e" "se_Info e = Some i"
    unfolding info_entry by blast
  have "entry r key = Some e" using assms(1) e(1) unfolding evicted_def by blast
  with e(2) show ?thesis by (simp add: info_def)
qed

lemma ages_plain: "(\<And>s. st_Version (f s) = st_Version s) \<Longrightarrow> ages r (mod_state i f r)"
  by (rule ages_mod_state) simp

lemma ages_evicted:
  assumes "evicted r r'"
  shows "ages r r'"
proof -
  have "sr_states r' = sr_states r" "sr_Sequence r' = sr_Sequence r" "sr_Max r' = sr_Max r"
    using assms unfolding evicted_def by blast+
  with evicted_info [OF assms] show ?thesis by (simp add: ages_def state_of_def)
qed

lemma keeps_evicted:
  assumes "evicted r r'"
  shows "keeps_active r r'"
  unfolding keeps_active_def
proof (intro allI impI, elim conjE)
  fix key i assume i: "info r key = Some i" and a: "active r i"
  from i obtain e where e: "entry r key = Some e" "se_Info e = Some i" unfolding info_entry by blast
  with a have "\<not> idle_entry r e" by (simp add: idle_entry_def active_def)
  with e assms have "entry r' key = Some e" unfolding evicted_def by blast
  with e show "info r' key = Some i" by (simp add: info_def)
qed

lemma ages_mod_next:
  assumes "shape r" "\<And>s. st_Version (f s) = Suc (sr_Sequence r)"
  shows "ages r (mod_state i f (next_sequence r))"
  using ages_trans [OF ages_prims(1) ages_mod_state [of f "next_sequence r" i]] shape_next [OF assms(1)] assms(2)
  by simp

lemma steps_simple:
  "ages r (SessionCredits call credits r) \<and> keeps_active r (SessionCredits call credits r)"
  "ages r (Attempt call uid r) \<and> keeps_active r (Attempt call uid r)"
  "ages r (Outcome call uid success r) \<and> keeps_active r (Outcome call uid success r)"
  "ages r (RememberCompatibility key uid fp level r) \<and> keeps_active r (RememberCompatibility key uid fp level r)"
  by (auto simp: SessionCredits_def Attempt_def Outcome_def outcome_state_def
      RememberCompatibility_def Let_def ages_refl
      intro!: ages_plain keeps_same split: option.split)

lemma steps_control:
  assumes "shape r"
  shows "ages r (Reject key version reason r) \<and> keeps_active r (Reject key version reason r)"
    "ages r (snd (Control key version action target r)) \<and> keeps_active r (snd (Control key version action target r))"
  using assms
  by (auto simp: Reject_def Control_def control_state_def Let_def ages_refl
      intro!: ages_mod_next keeps_same split: option.split)

lemma keeps_remove_lapsed: "entry r key = Some e \<Longrightarrow> lapsed now r e \<Longrightarrow> keeps_active r (RemoveLocked key r)"
  using keeps_evicted [OF evicted_remove] by (simp add: lapsed_def)

lemma step_Phase: "ages r (Phase now c b r) \<and> keeps_active r (Phase now c b r)"
proof (cases "attached r c")
  case None
  then show ?thesis by (simp add: Phase_def ages_refl keeps_same)
next
  case (Some e)
  then show ?thesis
    by (auto simp: Phase_def ages_refl intro!: keeps_same ages_trans [OF ages_prims(2) ages_mod_state])
qed

lemma step_Finish: "ages r (Finish now c r) \<and> keeps_active r (Finish now c r)"
proof (cases "attached r c")
  case None
  then show ?thesis by (simp add: Finish_def ages_refl keeps_same)
next
  case (Some e)
  then have e: "entry r (sc_Key (sr_calls r ! c)) = Some e" by (simp add: attached_info)
  have "info (Finish now c r) k = info r k" for k
    using e by (simp add: Finish_def Some info_def)
  moreover have "ages r (Finish now c r)"
    unfolding Finish_def Some option.case
    by (rule ages_trans [OF ages_mod_state ages_prims(5) [where e = e]]) (simp_all add: e)
  ultimately show ?thesis by (simp add: keeps_same)
qed

lemma step_Lookup: "ages r (snd (Lookup now key r)) \<and> keeps_active r (snd (Lookup now key r))"
  by (auto simp: Lookup_def ages_refl keeps_same intro!: ages_prims intro: keeps_remove_lapsed split: option.split)

lemma fold_remove_ages:
  "ages r (foldl (\<lambda>r (key, e). if P r e then RemoveLocked key r else r) r xs)"
proof (induction xs arbitrary: r)
  case (Cons x xs)
  obtain key e where x: "x = (key, e)" by fastforce
  show ?case
    using Cons.IH [of "RemoveLocked key r"] Cons.IH [of r] ages_trans [OF ages_prims(4) [of r key]]
    by (simp add: x)
qed (simp add: ages_refl)

text \<open>The pass of Views removes lapsed entries only.\<close>

lemma fold_lapsed:
  "set xs \<subseteq> set (sr_M r) \<Longrightarrow> distinct (map fst xs) \<Longrightarrow> shape r \<Longrightarrow>
   evicted r (foldl (\<lambda>r (key, e). if lapsed now r e then RemoveLocked key r else r) r xs)"
proof (induction xs arbitrary: r)
  case Nil
  then show ?case by (simp add: evicted_refl)
next
  case (Cons x xs)
  obtain key e where x: "x = (key, e)" by fastforce
  have "distinct (map fst (sr_M r))" using linked_distinct [OF shape_linked [OF Cons.prems(3)]] by blast
  then have e: "entry r key = Some e"
    using Cons.prems(1) x by (simp add: entry_def map_of_eq_Some_iff)
  show ?case
  proof (cases "lapsed now r e")
    case False
    with Cons x show ?thesis by simp
  next
    case True
    have "set xs \<subseteq> set (sr_M (RemoveLocked key r))"
    proof
      fix y assume y: "y \<in> set xs"
      then have "fst y \<noteq> key" using Cons.prems(2) x by force
      with y Cons.prems(1) e show "y \<in> set (sr_M (RemoveLocked key r))"
        by (auto simp: RemoveLocked_def AList.delete_eq)
    qed
    with Cons.IH [of "RemoveLocked key r"] Cons.prems(2) shape_remove [OF Cons.prems(3)] x
    have "evicted (RemoveLocked key r)
        (foldl (\<lambda>r (key, e). if lapsed now r e then RemoveLocked key r else r) (RemoveLocked key r) xs)"
      by simp
    with True x evicted_trans [OF evicted_remove [OF e]] show ?thesis by (simp add: lapsed_def)
  qed
qed

lemma Views_evicted: "shape r \<Longrightarrow> evicted r (snd (Views now r))"
  using fold_lapsed [of "sr_M r" r now] linked_distinct [OF shape_linked [of r]] by (simp add: Views_def)

lemma step_Unbind:
  assumes "shape r"
  shows "ages r (UnbindMatching key failed r) \<and> keeps_active r (UnbindMatching key failed r)"
proof (cases "\<exists>e i. key \<noteq> [] \<and> \<not> (failed \<noteq> [] \<and> se_Uid e \<noteq> failed) \<and> entry r key = Some e \<and> se_Info e = Some i")
  case True
  then obtain e i where e: "key \<noteq> []" "\<not> (failed \<noteq> [] \<and> se_Uid e \<noteq> failed)" "entry r key = Some e"
    "se_Info e = Some i" by blast
  let ?f = "\<lambda>s. (clear_compatibility (s\<lparr>st_ManualUID := []\<rparr>))\<lparr>st_Version := Suc (sr_Sequence r)\<rparr>"
  have eq: "UnbindMatching key failed r = put_entry key (e\<lparr>se_Uid := []\<rparr>) (mod_state i ?f (next_sequence r))"
    using e by (auto simp: UnbindMatching_def Let_def)
  have "ages r (mod_state i ?f (next_sequence r))" by (rule ages_mod_next [OF assms]) simp
  then have "ages r (UnbindMatching key failed r)"
    unfolding eq by (rule ages_trans [OF _ ages_prims(5) [where e = e]]) (simp_all add: e)
  moreover have "info (UnbindMatching key failed r) k = info r k" for k
    using e by (simp add: eq info_def)
  ultimately show ?thesis by (simp add: keeps_same)
next
  case False
  then have "UnbindMatching key failed r = r \<or> UnbindMatching key failed r = RemoveLocked key r \<and> info r key = None"
    by (auto simp: UnbindMatching_def info_def split: option.split)
  then show ?thesis
    by (auto simp: ages_refl keeps_same ages_prims keeps_active_def info_def)
qed

lemma step_Bind:
  assumes "shape r" "Bind now key uid r = Some r'"
  shows "ages r r' \<and> keeps_active r r'"
proof (cases "key = [] \<or> uid = []")
  case True
  with assms(2) show ?thesis by (simp add: Bind_def ages_refl keeps_same)
next
  case False
  show ?thesis
  proof (cases "entry r key")
    case (Some e)
    let ?e = "e\<lparr>se_Uid := uid, se_Expires := fadd now (sr_Ttl r)\<rparr>"
    have "r' = r \<or> r' = put_entry key ?e (move_to_back (se_Order e) r)"
      using assms(2) False Some by (auto simp: Bind_def split: if_splits)
    moreover have "ages r (put_entry key ?e (move_to_back (se_Order e) r))"
      by (rule ages_trans [OF ages_prims(3) ages_prims(5) [where e = e]]) (simp_all add: Some)
    moreover have "info (put_entry key ?e (move_to_back (se_Order e) r)) k = info r k" for k
      using Some by (simp add: info_def)
    ultimately show ?thesis by (auto simp: ages_refl keeps_same)
  next
    case None
    obtain b r1 where r1: "make_room r = Some (b, r1)" "evicted r r1"
      using make_room_ok [OF assms(1)] by blast
    obtain el r2 where p: "push_back key r1 = (el, r2)" by fastforce
    let ?e = "\<lparr>se_Uid = uid, se_Expires = fadd now (sr_Ttl r1), se_Order = el, se_Info = None\<rparr>"
    have r': "r' = r1 \<or> r' = put_entry key ?e r2"
      using assms(2) False None r1(1) p by (auto simp: Bind_def split: bool.splits)
    have p2: "entry r2 = entry r1" "state_of r2 = state_of r1" "sr_Sequence r2 = sr_Sequence r1"
      "sr_Max r2 = sr_Max r1"
      using p by (auto simp: push_back_def entry_def state_of_def fun_eq_iff)
    have n: "entry r1 key = None" using entry_none_evicted [OF r1(2) None] .
    have "info (put_entry key ?e r2) k = info r1 k" for k using p2 n by (simp add: info_def)
    then have "ages r1 (put_entry key ?e r2)" "keeps_active r1 r1 \<Longrightarrow> \<forall>k. info (put_entry key ?e r2) k = info r1 k"
      using p2 by (simp_all add: ages_def)
    with r' ages_evicted [OF r1(2)] keeps_evicted [OF r1(2)] ages_trans show ?thesis
      using \<open>\<And>k. info (put_entry key ?e r2) k = info r1 k\<close> by (auto simp: keeps_active_def)
  qed
qed

lemma step_Commit:
  assumes "shape r"
  shows "ages r (snd (Commit now selection uid r)) \<and> keeps_active r (snd (Commit now selection uid r))"
proof (cases "snd (Commit now selection uid r) = r")
  case True
  then show ?thesis by (simp add: ages_refl keeps_same)
next
  case False
  then obtain sel e i where sel: "entry r (ss_Key sel) = Some e" "se_Info e = Some i"
    "snd (Commit now selection uid r) = put_entry (ss_Key sel)
      (e\<lparr>se_Uid := uid, se_Expires := fadd now (sr_Ttl r)\<rparr>) (commit_router uid sel e i r)"
    by (auto simp: Commit_def split: option.splits if_splits)
  define r1 where "r1 = mod_state i (commit_state uid (se_Uid e \<noteq> uid)) r"
  define r2 where "r2 = (if se_Uid e \<noteq> uid \<or> st_Pending (state_of r i) \<noteq> []
    then mod_state i (\<lambda>s. s\<lparr>st_Version := sr_Sequence (next_sequence r1)\<rparr>) (next_sequence r1) else r1)"
  define r3 where "r3 = (case ss_Call sel of None \<Rightarrow> r2
    | Some c \<Rightarrow> if ss_Action sel = [] then r2
        else mod_call c (\<lambda>k. k\<lparr>sc_ControlVersion := st_ControlEpoch (state_of r2 i), sc_TargetUID := uid\<rparr>) r2)"
  have c: "commit_router uid sel e i r = mod_state i (\<lambda>s. s\<lparr>st_LastUID := uid\<rparr>) r3"
    unfolding commit_router_def Let_def r3_def r2_def r1_def ..
  have v: "st_Version (commit_state uid m s) = st_Version s" "st_ID (commit_state uid m s) = st_ID s"
    "st_ControlEpoch (commit_state uid m s) = st_ControlEpoch s" for m s
    by (simp_all add: commit_state_def clear_compatibility_def Let_def)
  have a1: "ages r r1" unfolding r1_def by (rule ages_plain) (simp add: v)
  have s1: "shape r1" unfolding r1_def
    using state_versions [OF assms] by (intro shape_mod_state [OF assms]) (simp_all add: v)
  have "ages r1 r2" unfolding r2_def using ages_mod_next [OF s1] by (simp add: ages_refl)
  moreover have "ages r2 r3" unfolding r3_def by (auto simp: ages_refl ages_prims split: option.split)
  moreover have "ages r3 (commit_router uid sel e i r)" unfolding c by (rule ages_plain) simp
  ultimately have a: "ages r (commit_router uid sel e i r)" using a1 ages_trans by blast
  have ent: "entry (commit_router uid sel e i r) = entry r"
    by (simp add: c r3_def r2_def r1_def split: option.split)
  have "ages r (snd (Commit now selection uid r))"
    unfolding sel(3) by (rule ages_trans [OF a ages_prims(5) [where e = e]]) (simp_all add: ent sel(1))
  moreover have "info (snd (Commit now selection uid r)) k = info r k" for k
    unfolding sel(3) using sel(1,2) ent by (simp add: info_def)
  ultimately show ?thesis by (simp add: keeps_same)
qed

lemma begin_call_put:
  assumes "se_Info e = None"
  shows "begin_call now key model source p agent e (put_entry key e r) = begin_call now key model source p agent e r"
  by (simp add: assms begin_call_def begin_state_def next_sequence_def put_entry_def mod_state_def
      move_to_back_def Let_def)

lemma step_begin_call:
  assumes "entry r key = Some e" "shape r"
  shows "ages r (begin_call now key model source p agent e r) \<and>
    keeps_active r (begin_call now key model source p agent e r)"
proof -
  obtain i r1 where b: "begin_state now key model source e r = (i, r1)" by fastforce
  let ?e = "e\<lparr>se_Info := Some i, se_Expires := fadd now (sr_Ttl r)\<rparr>"
  define r2 where "r2 = put_entry key ?e (mod_state i (count_request now p agent) r1)"
  define r3 where "r3 = begin_call now key model source p agent e r"
  have r3: "r3 = (move_to_back (se_Order e) r2)\<lparr>sr_calls := sr_calls r @ [\<lparr>sc_Key = key, sc_State = i,
      sc_Running = False, sc_ControlVersion = 0, sc_TargetUID = []\<rparr>]\<rparr>"
    by (simp add: r3_def r2_def begin_call_def b)
  have r3': "info r3 = info r2" "state_of r3 = state_of r2" "sr_Sequence r3 = sr_Sequence r2"
    "sr_Max r3 = sr_Max r2"
    by (auto simp: r3 info_def entry_def state_of_def fun_eq_iff move_to_back_def)
  have f: "st_Version (count_request now p agent s) = st_Version s" for s
    by (simp add: count_request_def with_principal_def Let_def split: option.split)
  show ?thesis
  proof (cases "se_Info e")
    case (Some j)
    then have r1: "i = j" "r1 = r" using b by (simp_all add: begin_state_def)
    have "ages r r2"
      unfolding r2_def r1(2)
      by (rule ages_trans [OF ages_plain ages_prims(5) [where e = e]]) (simp_all add: f assms Some r1)
    moreover have "info r2 k = info r k" for k
      using assms(1) Some by (simp add: r2_def r1 info_def)
    ultimately show ?thesis
      unfolding r3_def [symmetric] by (simp add: ages_def keeps_active_def r3')
  next
    case None
    let ?s = "new_state now key model source (se_Uid e) (Suc (sr_Sequence r))"
    have i: "i = length (sr_states r)" "r1 = (next_sequence r)\<lparr>sr_states := sr_states r @ [?s]\<rparr>"
      using b None by (auto simp: begin_state_def Let_def)
    have ent: "entry r1 = entry r" by (simp add: i(2) entry_def next_sequence_def fun_eq_iff)
    have inf: "info r2 k = (if k = key then Some i else info r k)" for k
      by (simp add: r2_def info_def ent)
    have new: "st_Version (state_of r2 i) = Suc (sr_Sequence r)"
      by (simp add: r2_def state_of_def mod_state_def i f new_state_def)
    have old: "state_of r2 j = state_of r j" if "j < length (sr_states r)" for j
      using that by (simp add: r2_def state_of_def mod_state_def i nth_append)
    have seq: "sr_Sequence r2 = Suc (sr_Sequence r)" "sr_Max r2 = sr_Max r"
      by (simp_all add: r2_def i next_sequence_def)
    have other: "info r k = Some j \<Longrightarrow> k \<noteq> key" for k j using assms None by (auto simp: info_def)
    have "keeps_active r r2" using other by (auto simp: keeps_active_def inf)
    moreover have "st_Version (state_of r j) \<le> st_Version (state_of r2 j)" if "info r k = Some j" for j k
      using old info_state [OF assms(2) that] by simp
    ultimately show ?thesis
      unfolding r3_def [symmetric] using new seq by (auto simp: ages_def keeps_active_def r3' inf)
  qed
qed

lemma begin_entry_cases:
  assumes "sess_inv fin r"
  obtains r' where "begin_entry now key r = Some (None, r')" "sess_inv fin r'" "evicted r r'"
  | e r' where "begin_entry now key r = Some (Some e, r')" "sess_inv fin r'" "evicted r r'" "entry r' key = Some e"
  | e r1 r' where "begin_entry now key r = Some (Some e, r')" "evicted r r1" "se_Info e = None"
      "sess_inv fin (put_entry key e r')" "entry r1 key = None"
      "\<And>k. info (put_entry key e r') k = info r1 k" "state_of r' = state_of r1" "sr_Sequence r' = sr_Sequence r1" "sr_calls r' = sr_calls r1" "sr_Max r' = sr_Max r1"
proof -
  define r0 where "r0 = (case entry r key of None \<Rightarrow> r
    | Some e \<Rightarrow> if lapsed now r e then RemoveLocked key r else r)"
  have ev0: "evicted r r0"
    unfolding r0_def
    by (auto intro: evicted_refl evicted_remove simp: lapsed_def split: option.split)
  have i0: "sess_inv fin r0"
    unfolding r0_def using assms inv_remove by (auto split: option.split)
  show thesis
  proof (cases "entry r0 key")
    case (Some e)
    then have "begin_entry now key r = Some (Some e, r0)" by (simp add: begin_entry_def r0_def Let_def)
    then show thesis using that(2) i0 ev0 Some by blast
  next
    case None
    obtain b r1 where r1: "make_room r0 = Some (b, r1)" "shape r1" "evicted r0 r1"
      "b \<Longrightarrow> length (sr_M r1) < sr_Max r1"
      using make_room_ok [OF inv_shape [OF i0]] by blast
    have i1: "sess_inv fin r1" using inv_evicted [OF i0 r1(2,3)] .
    have ev1: "evicted r r1" using evicted_trans [OF ev0 r1(3)] .
    have be: "begin_entry now key r = (case make_room r0 of None \<Rightarrow> None
        | Some (False, r2) \<Rightarrow> Some (None, r2)
        | Some (True, r2) \<Rightarrow> let (el, r3) = push_back key r2 in
            Some (Some \<lparr>se_Uid = [], se_Expires = Fin 0, se_Order = el, se_Info = None\<rparr>, r3))"
      using None unfolding begin_entry_def Let_def r0_def [symmetric] by simp
    show thesis
    proof (cases b)
      case False
      then have "begin_entry now key r = Some (None, r1)" using be r1(1) by simp
      then show thesis using that(1) i1 ev1 by blast
    next
      case True
      obtain el r2 where p: "push_back key r1 = (el, r2)" by fastforce
      let ?e = "\<lparr>se_Uid = [], se_Expires = Fin 0, se_Order = el, se_Info = None\<rparr>"
      have n: "entry r1 key = None" using entry_none_evicted [OF r1(3) None] .
      have "sess_inv fin (put_entry key ?e r2)"
        using inv_insert [OF i1 n r1(4) [OF True] p] by simp
      moreover have "begin_entry now key r = Some (Some ?e, r2)" using be r1(1) True p by simp
      moreover have p2: "entry r2 = entry r1" "state_of r2 = state_of r1" "sr_Sequence r2 = sr_Sequence r1"
        "sr_calls r2 = sr_calls r1" "sr_Max r2 = sr_Max r1"
        using p by (auto simp: push_back_def entry_def state_of_def fun_eq_iff)
      moreover have "info (put_entry key ?e r2) k = info r1 k" for k using p2 n by (simp add: info_def)
      ultimately show thesis using that(3) [of ?e r2 r1] ev1 n by simp
    qed
  qed
qed

lemma begin_call_calls:
  "sr_calls (begin_call now key model source p agent e r) =
    sr_calls r @ [\<lparr>sc_Key = key, sc_State = fst (begin_state now key model source e r), sc_Running = False,
      sc_ControlVersion = 0, sc_TargetUID = []\<rparr>]"
  by (simp add: begin_call_def split: prod.split)

lemma keeps_trans_evicted:
  assumes "evicted r s" "\<And>k. info s' k = info s k" "state_of s' = state_of s" "keeps_active s' t"
  shows "keeps_active r t"
proof -
  have "state_of s = state_of r" using assms(1) by (simp add: evicted_def state_of_def fun_eq_iff)
  with keeps_evicted [OF assms(1)] assms(2-4) show ?thesis by (simp add: keeps_active_def active_def)
qed

lemma Begin_ok:
  assumes "sess_inv fin r"
  shows "\<exists>ctx' c r'. Begin env now ctx key model p body r = Some (ctx', c, r') \<and>
    sess_inv fin r' \<and> ages r r' \<and> keeps_active r r' \<and>
    (c = None \<and> ctx' = ctx \<and> length (sr_calls r') = length (sr_calls r) \<or>
     c = Some (length (sr_calls r)) \<and> cx_Call ctx' = c \<and> length (sr_calls r') = Suc (length (sr_calls r)))"
proof (cases "key = []")
  case True
  with assms show ?thesis by (simp add: Begin_def ages_refl keeps_same)
next
  case key: False
  show ?thesis
  proof (cases "same_call r ctx key")
    case (Some c)
    let ?r = "case entry r key of None \<Rightarrow> r
             | Some e \<Rightarrow>
                 (case p of None \<Rightarrow> r
                  | Some cl \<Rightarrow>
                      if se_Info e = Some (sc_State (sr_calls r ! c))
                      then mod_state (sc_State (sr_calls r ! c)) (\<lambda>s. s\<lparr>st_Scope := cl_AccountScope cl\<rparr>) r
                      else r)"
    have b: "Begin env now ctx key model p body r = Some (ctx, None, ?r)"
      using key Some by (simp add: Begin_def)
    have "sess_inv fin ?r" using assms by (auto intro!: inv_mod_state split: option.split)
    moreover have "ages r ?r" by (auto intro!: ages_plain simp: ages_refl split: option.split)
    moreover have "keeps_active r ?r" by (rule keeps_same) (simp split: option.split)
    moreover have "length (sr_calls ?r) = length (sr_calls r)" by (simp split: option.split)
    ultimately show ?thesis using b by blast
  next
    case None
    define source where "source = (case cx_Identity ctx of
        None \<Rightarrow> before (CHR '':'') (ExtractSessionKey env body) | Some (k, _) \<Rightarrow> before (CHR '':'') k)"
    define agent where "agent = (case cx_Identity ctx of None \<Rightarrow> False | Some (_, a) \<Rightarrow> a \<noteq> [])"
    have b: "Begin env now ctx key model p body r = (case begin_entry now key r of
        None \<Rightarrow> None
      | Some (None, r) \<Rightarrow> Some (ctx, None, r)
      | Some (Some e, r) \<Rightarrow> Some (ctx\<lparr>cx_Call := Some (length (sr_calls r))\<rparr>, Some (length (sr_calls r)),
          begin_call now key model source p agent e r))"
      unfolding Begin_def source_def agent_def Let_def using key None by simp
    have calls: "evicted r r' \<Longrightarrow> sr_calls r' = sr_calls r" for r' by (simp add: evicted_def)
    from assms show ?thesis
    proof (cases rule: begin_entry_cases [of fin r now key])
      case (1 r')
      with b calls ages_evicted keeps_evicted show ?thesis by auto
    next
      case (2 e r')
      let ?r = "begin_call now key model source p agent e r'"
      have "keeps_active r ?r"
        using keeps_trans_evicted [OF 2(3)] step_begin_call [OF 2(4) inv_shape [OF 2(2)]] by blast
      moreover have "ages r ?r"
        using ages_trans [OF ages_evicted [OF 2(3)]] step_begin_call [OF 2(4) inv_shape [OF 2(2)]] by blast
      ultimately show ?thesis
        using b 2(1) inv_begin_call [OF 2(2,4)] calls [OF 2(3)] by (simp add: begin_call_calls)
    next
      case (3 e r1 r')
      let ?p = "put_entry key e r'"
      let ?r = "begin_call now key model source p agent e ?p"
      have eq: "begin_call now key model source p agent e r' = ?r" using begin_call_put [OF 3(3)] by simp
      have ent: "entry ?p key = Some e" by simp
      have st: "state_of ?p = state_of r1" "sr_Sequence ?p = sr_Sequence r1" using 3(7,8) by simp_all
      note s = step_begin_call [OF ent inv_shape [OF 3(4)]]
      have "keeps_active r ?r" using keeps_trans_evicted [OF 3(2) 3(6) st(1)] s by blast
      moreover have "ages r1 ?p" by (simp add: ages_def 3(6-8,10))
      then have "ages r ?r" using ages_trans [OF ages_evicted [OF 3(2)]] s ages_trans by blast
      moreover have "sr_calls r' = sr_calls r"
        using calls [OF 3(2)] 3(9) by simp
      ultimately show ?thesis
        using b 3(1) inv_begin_call [OF 3(4) ent] by (simp add: begin_call_calls eq)
    qed
  qed
qed

end
