(* ===== verification/SessionProps.thy ===== *)
theory SessionProps
  imports SessionInv
begin

text \<open>
  What the session router guarantees over every interleaving of its critical sections.
\<close>

subsection \<open>The machine\<close>

text \<open>
  The events are the operations; the guard asks what the source's callers keep: a call changes its
  phase and finishes only before it has finished, and contexts and selections name calls that
  exist. The set beside the router is that of the finished calls.
\<close>

datatype session_event =
    SBegin session_env f64 session_ctx string string "caller option" json_object
  | SPhase f64 nat bool
  | SFinish f64 nat
  | SBind f64 string string
  | SUnbind string string
  | SLookup f64 string
  | SRemoveAccount string
  | SCredits "nat option" "f64 option"
  | SReject string nat "string option"
  | SCommit f64 "session_selection option" string
  | SAttempt "nat option" string
  | SOutcome "nat option" string bool
  | SControl string nat string string
  | SRemember string string string int
  | SViews f64

type_synonym session_world = "nat set \<times> session_router"

fun session_step :: "session_world \<Rightarrow> session_event \<Rightarrow> session_world" where
  "session_step (fin, r) (SBegin env now ctx key model p body) =
     (fin, case Begin env now ctx key model p body r of None \<Rightarrow> r | Some (ctx', c, r') \<Rightarrow> r')"
| "session_step (fin, r) (SPhase now c b) = (fin, Phase now c b r)"
| "session_step (fin, r) (SFinish now c) = (insert c fin, Finish now c r)"
| "session_step (fin, r) (SBind now key uid) = (fin, case Bind now key uid r of None \<Rightarrow> r | Some r' \<Rightarrow> r')"
| "session_step (fin, r) (SUnbind key failed) = (fin, UnbindMatching key failed r)"
| "session_step (fin, r) (SLookup now key) = (fin, snd (Lookup now key r))"
| "session_step (fin, r) (SRemoveAccount uid) = (fin, RemoveAccount uid r)"
| "session_step (fin, r) (SCredits call credits) = (fin, SessionCredits call credits r)"
| "session_step (fin, r) (SReject key v reason) = (fin, Reject key v reason r)"
| "session_step (fin, r) (SCommit now sel uid) = (fin, snd (Commit now sel uid r))"
| "session_step (fin, r) (SAttempt call uid) = (fin, Attempt call uid r)"
| "session_step (fin, r) (SOutcome call uid success) = (fin, Outcome call uid success r)"
| "session_step (fin, r) (SControl key v action target) = (fin, snd (Control key v action target r))"
| "session_step (fin, r) (SRemember key uid fp level) = (fin, RememberCompatibility key uid fp level r)"
| "session_step (fin, r) (SViews now) = (fin, snd (Views now r))"

fun session_ok :: "session_world \<Rightarrow> session_event \<Rightarrow> bool" where
  "session_ok (fin, r) (SPhase now c b) = (c < length (sr_calls r) \<and> c \<notin> fin)"
| "session_ok (fin, r) (SFinish now c) = (c < length (sr_calls r) \<and> c \<notin> fin)"
| "session_ok w e = True"

fun world_inv :: "session_world \<Rightarrow> bool" where
  "world_inv (fin, r) = sess_inv fin r"

lemma world_step: "world_inv w \<Longrightarrow> session_ok w e \<Longrightarrow> world_inv (session_step w e)"
proof (cases w; cases e)
  fix fin r env now ctx key model p body
  assume "world_inv w" "w = (fin, r)" "e = SBegin env now ctx key model p body"
  then show ?thesis using Begin_ok [of fin r env now ctx key model p body] by auto
next
  fix fin r now key uid
  assume "world_inv w" "w = (fin, r)" "e = SBind now key uid"
  then show ?thesis using inv_Bind [of fin r now key uid] by auto
qed (simp_all add: inv_Phase inv_Finish inv_UnbindMatching inv_Lookup inv_RemoveAccount inv_SessionCredits
    inv_Reject inv_Commit inv_Attempt inv_Outcome inv_Control inv_Remember inv_Views)

interpretation sessions: guarded_machine session_step session_ok world_inv
  by unfold_locales (rule world_step)

text \<open>A new router, with any bound that is not zero.\<close>

definition router_of :: "nat \<Rightarrow> session_router" where
  "router_of m = NewSessionRouter\<lparr>sr_Max := m\<rparr>"

lemma new_world: "0 < m \<Longrightarrow> world_inv ({}, router_of m)"
  by (simp add: router_of_def NewSessionRouter_def sess_inv_def shape_def linked_def counts_ok_def
      entry_def info_def)

abbreviation sess_run :: "nat \<Rightarrow> session_event list \<Rightarrow> session_world" where
  "sess_run m es \<equiv> run session_step ({}, router_of m) es"

abbreviation sess_legal :: "nat \<Rightarrow> session_event list \<Rightarrow> bool" where
  "sess_legal m es \<equiv> legal session_step session_ok ({}, router_of m) es"

lemma sess_reachable: "0 < m \<Longrightarrow> sess_legal m es \<Longrightarrow> sess_run m es = (fin, r) \<Longrightarrow> sess_inv fin r"
  using sessions.run_inv [OF new_world] by (metis world_inv.simps)

lemma ages_step:
  assumes "world_inv (fin, r)" "session_ok (fin, r) e"
  shows "ages r (snd (session_step (fin, r) e))"
proof (cases e)
  case (SBegin env now ctx key model p body)
  with Begin_ok [of fin r env now ctx key model p body] assms(1) show ?thesis by auto
next
  case (SBind now key uid)
  with assms(1) inv_Bind [of fin r now key uid] step_Bind [of r now key uid] inv_shape [of fin r]
  show ?thesis by auto
next
  case (SRemoveAccount uid)
  then show ?thesis by (simp add: RemoveAccount_def fold_remove_ages [where P = "\<lambda>r e. se_Uid e = uid"])
next
  case (SViews now)
  then show ?thesis by (simp add: Views_def fold_remove_ages [where P = "lapsed now"])
qed (use assms(1) inv_shape [of fin r] in \<open>simp_all add: steps_simple steps_control step_Phase step_Finish
    step_Lookup step_Unbind step_Commit\<close>)

lemma keeps_step:
  assumes "world_inv (fin, r)" "session_ok (fin, r) e" "\<And>uid. e \<noteq> SRemoveAccount uid"
  shows "keeps_active r (snd (session_step (fin, r) e))"
proof (cases e)
  case (SBegin env now ctx key model p body)
  with Begin_ok [of fin r env now ctx key model p body] assms(1) show ?thesis by auto
next
  case (SBind now key uid)
  with assms(1) inv_Bind [of fin r now key uid] step_Bind [of r now key uid] inv_shape [of fin r]
  show ?thesis by auto
next
  case (SRemoveAccount uid)
  with assms(3) show ?thesis by blast
next
  case (SViews now)
  with assms(1) show ?thesis using keeps_evicted [OF Views_evicted] inv_shape by simp
qed (use assms(1) inv_shape [of fin r] in \<open>simp_all add: steps_simple steps_control step_Phase step_Finish
    step_Lookup step_Unbind step_Commit\<close>)

lemma ages_run:
  "world_inv (fin, r) \<Longrightarrow> legal session_step session_ok (fin, r) es \<Longrightarrow>
   ages r (snd (run session_step (fin, r) es))"
proof (induction es arbitrary: fin r)
  case (Cons e es)
  obtain fin' r' where s: "session_step (fin, r) e = (fin', r')" by fastforce
  have "world_inv (fin', r')" using world_step [OF Cons.prems(1), of e] Cons.prems(2) s by simp
  with Cons.IH [of fin' r'] Cons.prems(2) s have "ages r' (snd (run session_step (fin', r') es))" by simp
  with ages_step [OF Cons.prems(1), of e] Cons.prems(2) s show ?case using ages_trans by fastforce
qed (simp add: ages_refl)

subsection \<open>Bounds and termination\<close>

text \<open>C14. The table of sessions stays bounded: in every reachable state it holds at most the configured
  number of sessions, each once, and the list of recency has exactly one element for each of them.
  The loops that make room always end: Begin and Bind return in every reachable state.\<close>

theorem session_table_bounded:
  assumes "0 < m" "sess_legal m es" "sess_run m es = (fin, r)"
  shows "length (sr_M r) \<le> m \<and> distinct (map fst (sr_M r)) \<and> length (sr_Order r) = length (sr_M r) \<and>
    (entry r key \<noteq> None \<longleftrightarrow> (\<exists>i. (i, key) \<in> set (sr_Order r))) \<and>
    Begin env now ctx key model p body r \<noteq> None \<and> Bind now key uid r \<noteq> None"
proof -
  have i: "sess_inv fin r" by (rule sess_reachable [OF assms])
  note sh = inv_shape [OF i]
  have "ages (router_of m) r"
    using ages_run [OF new_world [OF assms(1)] assms(2)] assms(3) by simp
  then have "sr_Max r = m" by (simp add: ages_def router_of_def)
  moreover have "length (sr_M r) \<le> sr_Max r" using sh by (simp add: shape_def)
  moreover have "entry r key \<noteq> None \<longleftrightarrow> (\<exists>i. (i, key) \<in> set (sr_Order r))"
    using entry_order [OF sh] order_entry [OF sh] by (metis not_None_eq)
  ultimately show ?thesis
    using Begin_ok [OF i, of env now ctx key model p body] inv_Bind [OF i, of now key uid]
      linked_distinct [OF shape_linked [OF sh]] linked_length [OF shape_linked [OF sh]] by auto
qed

definition test_env :: session_env where
  "test_env = \<lparr>env_sha = (\<lambda>s. []), env_user_json = (\<lambda>s. None)\<rparr>"

definition plain_ctx :: session_ctx where
  "plain_ctx = \<lparr>cx_Call = None, cx_Identity = None\<rparr>"

definition one_request :: "session_event list" where
  "one_request = [SBegin test_env (Fin 1) plain_ctx ''k'' ''m'' None []]"

lemma empty_body: "ExtractSessionKey test_env [] = []"
  by (simp add: ExtractSessionKey_def body_ids_def user_key_def)

lemmas begin_defs = begin_entry_def begin_call_def begin_state_def same_call_def make_room_def
  push_back_def next_sequence_def put_entry_def mod_state_def move_to_back_def drop_element_def
  entry_def count_request_def with_principal_def

lemma one_request_run:
  "sess_legal 1 one_request \<and> fst (sess_run 1 one_request) = {} \<and>
   info (snd (sess_run 1 one_request)) ''k'' = Some 0 \<and>
   length (sr_calls (snd (sess_run 1 one_request))) = 1 \<and>
   sc_State (sr_calls (snd (sess_run 1 one_request)) ! 0) = 0"
  by (simp add: one_request_def Begin_def begin_defs router_of_def NewSessionRouter_def plain_ctx_def info_def
      empty_body Let_def before_def)

theorem session_table_bounded_witness:
  "length (sr_M (snd (sess_run 1 [SBind (Fin 0) ''a'' ''u'', SBind (Fin 1) ''b'' ''v'']))) \<le> 1"
proof -
  have "sess_legal 1 [SBind (Fin 0) ''a'' ''u'', SBind (Fin 1) ''b'' ''v'']" by simp
  moreover obtain fin r where "sess_run 1 [SBind (Fin 0) ''a'' ''u'', SBind (Fin 1) ''b'' ''v''] = (fin, r)"
    by fastforce
  ultimately show ?thesis using session_table_bounded [of 1] by (metis less_one snd_conv)
qed

subsection \<open>Counts\<close>

text \<open>C15. The counts of a session are exact: in every reachable state, its running and waiting counts are
  the numbers of its begun calls that have not finished, by their phase, whatever was evicted,
  unbound or removed meanwhile; they are never negative.\<close>

theorem session_counts_exact:
  assumes "0 < m" "sess_legal m es" "sess_run m es = (fin, r)" "info r key = Some i"
  shows "st_Running (state_of r i) = int (card {c. c < length (sr_calls r) \<and> c \<notin> fin \<and>
      sc_State (sr_calls r ! c) = i \<and> sc_Running (sr_calls r ! c)}) \<and>
    st_Waiting (state_of r i) = int (card {c. c < length (sr_calls r) \<and> c \<notin> fin \<and>
      sc_State (sr_calls r ! c) = i \<and> \<not> sc_Running (sr_calls r ! c)}) \<and>
    (\<forall>c < length (sr_calls r). sc_State (sr_calls r ! c) = i \<longrightarrow> sc_Key (sr_calls r ! c) = key)"
proof -
  have inv: "sess_inv fin r" by (rule sess_reachable [OF assms(1-3)])
  with assms(4) have "st_Running (state_of r i) = int (card (open_calls r fin i True)) \<and>
      st_Waiting (state_of r i) = int (card (open_calls r fin i False))"
    by (simp add: sess_inv_def counts_ok_def state_of_def)
  moreover have "sc_Key (sr_calls r ! c) = key" if "c < length (sr_calls r)" "sc_State (sr_calls r ! c) = i" for c
    using call_state [OF inv_shape [OF inv] that(1)] info_state [OF inv_shape [OF inv] assms(4)] that(2) by simp
  ultimately show ?thesis by (simp add: open_calls_def)
qed

theorem session_counts_exact_witness:
  "st_Waiting (state_of (snd (sess_run 1 one_request)) 0) = int (card {c. c < 1 \<and>
      sc_State (sr_calls (snd (sess_run 1 one_request)) ! c) = 0 \<and>
      \<not> sc_Running (sr_calls (snd (sess_run 1 one_request)) ! c)})"
proof -
  obtain fin r where r: "sess_run 1 one_request = (fin, r)" by fastforce
  with one_request_run have "fin = {}" "length (sr_calls r) = 1" by simp_all
  with session_counts_exact [OF _ _ r, of "''k''" 0] one_request_run r show ?thesis by simp
qed

subsection \<open>Active sessions\<close>



end
