(* ===== verification/SessionControl.thy ===== *)
theory SessionControl
  imports SessionProps
begin

text \<open>
  Controls and bindings of the session router: a control makes every earlier view and selection of
  its session stale, only the request that consumes it reports its outcome, and a new binding takes
  the place of the least recently used idle session.
\<close>

subsection \<open>Stale versions\<close>

lemma Control_True:
  assumes "Control key v action target r = (True, r1)"
  obtains i where "info r key = Some i" "st_Version (state_of r i) = v"
    "r1 = mod_state i (control_state (Suc (sr_Sequence r)) action target) (next_sequence r)"
  using assms by (auto simp: Control_def Let_def next_sequence_def split: option.splits if_splits)

lemma control_versions [simp]:
  "st_Version (control_state n action target s) = n" "st_ControlEpoch (control_state n action target s) = n"
  by (simp_all add: control_state_def Let_def)

lemma state_mod [simp]:
  "i < length (sr_states r) \<Longrightarrow> state_of (mod_state i f r) j = (if j = i then f (state_of r i) else state_of r j)"
  by (simp add: state_of_def mod_state_def nth_list_update)

lemma next_states [simp]: "sr_states (next_sequence r) = sr_states r"
  by (simp add: next_sequence_def)

lemma Control_version:
  assumes "shape r" "Control key v action target r = (True, r1)" "info r1 key = Some i"
  shows "st_Version (state_of r1 i) = Suc (sr_Sequence r)"
proof -
  obtain j where j: "info r key = Some j"
      "r1 = mod_state j (control_state (Suc (sr_Sequence r)) action target) (next_sequence r)"
    using Control_True [OF assms(2)] by metis
  with assms(3) have "i = j" by simp
  with j(2) info_state [OF assms(1) j(1)] show ?thesis by simp
qed

lemma newer_version:
  assumes "0 < m" "sess_legal m es" "sess_run m es = (fin, r)" "Control key v action target r = (True, r1)"
    "legal session_step session_ok (fin, r1) fs" "run session_step (fin, r1) fs = (fin2, r2)"
    "info r2 key = Some i"
  shows "sr_Sequence r < st_Version (state_of r2 i)"
proof -
  have inv: "sess_inv fin r" by (rule sess_reachable [OF assms(1-3)])
  have r1: "r1 = snd (Control key v action target r)" using assms(4) by simp
  have "sess_inv fin r1" unfolding r1 by (rule inv_Control [OF inv])
  then have a: "ages r1 r2" using ages_run [of fin r1 fs] assms(5,6) by simp
  have "sr_Sequence r \<le> sr_Sequence r1"
    using steps_control(2) [OF inv_shape [OF inv]] unfolding r1 ages_def by blast
  moreover have "info r1 key = Some i \<Longrightarrow> sr_Sequence r < st_Version (state_of r1 i)"
    using Control_version [OF inv_shape [OF inv] assms(4)] by simp
  moreover have "info r1 key = Some i \<and> st_Version (state_of r1 i) \<le> st_Version (state_of r2 i) \<or>
      sr_Sequence r1 < st_Version (state_of r2 i)"
    using a assms(7) by (simp add: ages_def)
  ultimately show ?thesis by linarith
qed

lemma stale_commit:
  assumes "\<And>i. info r key = Some i \<Longrightarrow> st_Version (state_of r i) \<noteq> v"
  shows "Control key v action target r = (False, r)" "Reject key v reason r = r"
    "ss_Key sel = key \<Longrightarrow> ss_Version sel = v \<Longrightarrow> key \<noteq> [] \<Longrightarrow>
     Commit now (Some sel) uid r = (info r key = None, r)"
  using assms by (auto simp: Control_def Reject_def Commit_def info_def split: option.split)

text \<open>C17. A control outdates everything that was read before it: after a control of a session was
  accepted, and whatever other operations follow, a control, a rejection or the commit of a
  selection that carries any version handed out until then changes nothing. The commit says so (and
  makes its request select again) while the session exists.\<close>

theorem control_invalidates_selections:
  assumes "0 < m" "sess_legal m es" "sess_run m es = (fin, r)" "Control key v action target r = (True, r1)"
    "legal session_step session_ok (fin, r1) fs" "run session_step (fin, r1) fs = (fin2, r2)"
    "ss_Key sel = key" "key \<noteq> []" "ss_Version sel \<le> sr_Sequence r"
  shows "Commit now (Some sel) uid r2 = (info r2 key = None, r2) \<and>
    Reject key (ss_Version sel) reason r2 = r2 \<and>
    Control key (ss_Version sel) action' target' r2 = (False, r2)"
proof -
  have "st_Version (state_of r2 i) \<noteq> ss_Version sel" if "info r2 key = Some i" for i
    using newer_version [OF assms(1-6) that] assms(9) by simp
  then show ?thesis using stale_commit [of r2 key "ss_Version sel"] assms(7,8) by blast
qed

definition pinned_choice :: session_selection where
  "pinned_choice = \<lparr>ss_Key = ''k'', ss_Version = 1, ss_Action = ''switch'', ss_Target = ''u2'', ss_Baseline = [],
     ss_Call = Some 0\<rparr>"

lemma count_request_simps [simp]:
  "st_Version (count_request now p agent s) = st_Version s"
  "st_Running (count_request now p agent s) = st_Running s"
  "st_Waiting (count_request now p agent s) = st_Waiting s + 1"
  by (simp_all add: count_request_def with_principal_def Let_def split: option.split)

lemma one_request_states:
  "sr_states (snd (sess_run 1 one_request)) =
     [count_request (Fin 1) None False (new_state (Fin 1) ''k'' ''m'' [] [] 1)]"
  "sr_Sequence (snd (sess_run 1 one_request)) = 1"
  by (simp_all add: one_request_def Begin_def begin_defs router_of_def NewSessionRouter_def plain_ctx_def
      empty_body before_def Let_def)

lemma one_request_state:
  "st_Version (state_of (snd (sess_run 1 one_request)) 0) = 1"
  "st_Running (state_of (snd (sess_run 1 one_request)) 0) = 0"
  "st_Waiting (state_of (snd (sess_run 1 one_request)) 0) = 1"
  by (simp_all add: state_of_def one_request_states new_state_def del: One_nat_def)

lemma one_request_control: "fst (Control ''k'' 1 action target (snd (sess_run 1 one_request)))"
  using one_request_run one_request_state one_request_states(2) by (simp add: Control_def Let_def)

theorem control_invalidates_selections_witness:
  "snd (Commit (Fin 2) (Some pinned_choice) ''u2'' (snd (Control ''k'' 1 ''switch'' ''u2'' (snd (sess_run 1 one_request)))))
    = snd (Control ''k'' 1 ''switch'' ''u2'' (snd (sess_run 1 one_request)))"
proof -
  define r where "r = snd (sess_run 1 one_request)"
  define r1 where "r1 = snd (Control ''k'' 1 ''switch'' ''u2'' r)"
  have r: "sess_run 1 one_request = ({}, r)" using one_request_run unfolding r_def by (metis prod.collapse)
  have c: "Control ''k'' 1 ''switch'' ''u2'' r = (True, r1)"
    using one_request_control unfolding r1_def r_def by (simp add: prod_eq_iff)
  have "sr_Sequence r = 1" using one_request_states(2) by (simp add: r_def)
  then have v: "ss_Key pinned_choice = ''k''" "''k'' \<noteq> []" "ss_Version pinned_choice \<le> sr_Sequence r"
    by (simp_all add: pinned_choice_def)
  have l: "sess_legal 1 one_request" using one_request_run by blast
  have "legal session_step session_ok ({}, r1) []" "run session_step ({}, r1) [] = ({}, r1)" by simp_all
  from control_invalidates_selections [OF zero_less_one l r c this v] show ?thesis
    unfolding r1_def r_def by simp
qed

subsection \<open>Who reports a control\<close>

abbreviation route_status :: "session_router \<Rightarrow> nat \<Rightarrow> string" where
  "route_status r i \<equiv> st_RouteStatus (state_of r i)"

lemma Attempt_status:
  assumes "shape r" "d < length (sr_calls r)"
  shows "route_status (Attempt (Some d) x r) i =
    (if owns_control r d \<and> sc_State (sr_calls r ! d) = i \<and> attached r d \<noteq> None then ''executing''
     else route_status r i)"
  using call_state [OF assms] by (auto simp: Attempt_def Let_def)

lemma Outcome_status:
  assumes "shape r" "d < length (sr_calls r)"
  shows "route_status (Outcome (Some d) x success r) i =
    (if owns_control r d \<and> sc_State (sr_calls r ! d) = i \<and> attached r d \<noteq> None
     then if success then if x = sc_TargetUID (sr_calls r ! d) then ''applied'' else ''fallback'' else ''failed''
     else route_status r i)"
  using call_state [OF assms]
  by (cases "attached r d") (auto simp: Outcome_def outcome_state_def Let_def)

lemma Commit_control:
  assumes "shape r" "info r (ss_Key sel) = Some i" "ss_Key sel \<noteq> []" "ss_Version sel = st_Version (state_of r i)"
    "ss_Call sel = Some c" "c < length (sr_calls r)" "sc_State (sr_calls r ! c) = i" "ss_Action sel \<noteq> []"
    "st_Pending (state_of r i) \<noteq> []" "Commit now (Some sel) uid r = (ok, r2)"
  shows "ok" "route_status r2 i = ''selected''" "st_ControlEpoch (state_of r2 i) = st_ControlEpoch (state_of r i)"
    "sr_calls r2 = (sr_calls r)[c := (sr_calls r ! c)\<lparr>sc_ControlVersion := st_ControlEpoch (state_of r i),
       sc_TargetUID := uid\<rparr>]" "info r2 (ss_Key sel) = Some i"
    "st_Pending (state_of r2 i) = []"
proof -
  obtain e where e: "entry r (ss_Key sel) = Some e" "se_Info e = Some i"
    using assms(2) unfolding info_entry by blast
  have i: "i < length (sr_states r)" using info_state [OF assms(1,2)] by blast
  have C: "ok" "r2 = put_entry (ss_Key sel) (e\<lparr>se_Uid := uid, se_Expires := fadd now (sr_Ttl r)\<rparr>)
      (commit_router uid sel e i r)"
    using assms(3,4,10) e by (simp_all add: Commit_def)
  from C(1) show ok .
  have len: "sr_states (mod_state j f s) = (sr_states s)[j := f (sr_states s ! j)]" for j f s
    by (simp add: mod_state_def)
  have cr: "sr_states (mod_call k g s) = sr_states s" "sr_calls (mod_state j f s) = sr_calls s"
      "sr_calls (next_sequence s) = sr_calls s" "sr_calls (mod_call k g s) = (sr_calls s)[k := g (sr_calls s ! k)]" for j k f g s
    by (simp_all add: mod_state_def mod_call_def next_sequence_def)
  note defs = C(2) commit_router_def Let_def assms(5) commit_state_def clear_compatibility_def
  show "route_status r2 i = ''selected''" "st_ControlEpoch (state_of r2 i) = st_ControlEpoch (state_of r i)"
      "st_Pending (state_of r2 i) = []"
    using i assms(8,9) by (simp_all add: defs len cr)
  show "sr_calls r2 = (sr_calls r)[c := (sr_calls r ! c)\<lparr>sc_ControlVersion := st_ControlEpoch (state_of r i),
       sc_TargetUID := uid\<rparr>]"
    using i assms(8,9) by (simp add: defs len cr put_entry_def)
  show "info r2 (ss_Key sel) = Some i" using e by (simp add: C(2) info_def)
qed

lemma Control_fresh:
  assumes "shape r" "Control key v action target r = (True, r1)" "info r1 key = Some i"
  shows "st_ControlEpoch (state_of r1 i) = Suc (sr_Sequence r)" "sr_calls r1 = sr_calls r"
    "action \<noteq> ''cancel'' \<Longrightarrow> route_status r1 i = ''pending'' \<and> st_Pending (state_of r1 i) = action"
    "d < length (sr_calls r1) \<Longrightarrow> sc_State (sr_calls r1 ! d) = i \<Longrightarrow> \<not> owns_control r1 d"
proof -
  obtain j where j: "info r key = Some j"
      "r1 = mod_state j (control_state (Suc (sr_Sequence r)) action target) (next_sequence r)"
    using Control_True [OF assms(2)] by metis
  with assms(3) have "i = j" by simp
  then have st: "state_of r1 i = control_state (Suc (sr_Sequence r)) action target (state_of r i)"
    using j info_state [OF assms(1) j(1)] by simp
  then show e: "st_ControlEpoch (state_of r1 i) = Suc (sr_Sequence r)" by simp
  show calls: "sr_calls r1 = sr_calls r" by (simp add: j(2) mod_state_def next_sequence_def)
  show "action \<noteq> ''cancel'' \<Longrightarrow> route_status r1 i = ''pending'' \<and> st_Pending (state_of r1 i) = action"
    by (simp add: st control_state_def Let_def)
  show "\<not> owns_control r1 d" if "d < length (sr_calls r1)" "sc_State (sr_calls r1 ! d) = i"
    using call_state [OF assms(1), of d] that e by (simp add: owns_control_def calls)
qed

text \<open>A control is reported by the request that consumed it and by no other: right after a control
  of a session, no attempt and no outcome of a call that had begun touches its pending status; the
  commit of the selection that carries it marks it selected; then the attempts and the outcome of that
  call report executing, and applied, fallback (another account answered) or failed, and every other
  call leaves the status alone.\<close>

theorem control_reported_by_consumer:
  assumes "0 < m" "sess_legal m es" "sess_run m es = (fin, r)" "Control key v action target r = (True, r1)"
    "action \<notin> {[], ''cancel''}" "key \<noteq> []" "info r1 key = Some i"
    "c < length (sr_calls r1)" "sc_State (sr_calls r1 ! c) = i"
    "d < length (sr_calls r1)" "sc_State (sr_calls r1 ! d) = i" "d \<noteq> c"
    "Commit now (Some \<lparr>ss_Key = key, ss_Version = st_Version (state_of r1 i), ss_Action = action,
       ss_Target = target, ss_Baseline = base, ss_Call = Some c\<rparr>) uid r1 = (ok, r2)"
  shows "route_status r1 i = ''pending'' \<and>
    route_status (Attempt (Some d) x r1) i = ''pending'' \<and> route_status (Outcome (Some d) x success r1) i = ''pending'' \<and>
    ok \<and> route_status r2 i = ''selected'' \<and>
    route_status (Attempt (Some c) x r2) i = ''executing'' \<and>
    route_status (Outcome (Some c) x success r2) i =
      (if success then if x = uid then ''applied'' else ''fallback'' else ''failed'') \<and>
    route_status (Attempt (Some d) x r2) i = ''selected'' \<and> route_status (Outcome (Some d) x success r2) i = ''selected''"
proof -
  have inv: "sess_inv fin r" by (rule sess_reachable [OF assms(1-3)])
  have r1: "r1 = snd (Control key v action target r)" using assms(4) by simp
  have inv1: "sess_inv fin r1" unfolding r1 by (rule inv_Control [OF inv])
  note sh1 = inv_shape [OF inv1]
  note fresh = Control_fresh [OF inv_shape [OF inv] assms(4,7)]
  define sel where "sel = \<lparr>ss_Key = key, ss_Version = st_Version (state_of r1 i), ss_Action = action,
       ss_Target = target, ss_Baseline = base, ss_Call = Some c\<rparr>"
  have cm: "Commit now (Some sel) uid r1 = (ok, r2)" using assms(13) by (simp add: sel_def)
  have sel: "info r1 (ss_Key sel) = Some i" "ss_Key sel \<noteq> []" "ss_Version sel = st_Version (state_of r1 i)"
    "ss_Call sel = Some c" "ss_Action sel \<noteq> []"
    using assms(5-7) by (simp_all add: sel_def)
  have p: "st_Pending (state_of r1 i) \<noteq> []" using fresh(3) assms(5) by simp
  note com = Commit_control [OF sh1 sel(1-4) assms(8,9) sel(5) p cm]
  have r2: "r2 = snd (Commit now (Some sel) uid r1)" using cm by simp
  have sh2: "shape r2" unfolding r2 by (rule inv_shape [OF inv_Commit [OF inv1]])
  have len: "length (sr_calls r2) = length (sr_calls r1)" by (simp add: com(4))
  have own_c: "owns_control r2 c" "sc_State (sr_calls r2 ! c) = i" "sc_TargetUID (sr_calls r2 ! c) = uid"
    using assms(8,9) fresh(1) com(3) by (simp_all add: owns_control_def com(4))
  have own_d: "\<not> owns_control r2 d"
    using fresh(4) [OF assms(10,11)] assms(11,12) com(3) by (simp add: owns_control_def com(4))
  have "attached r2 c \<noteq> None"
    using com(5) own_c(2) call_state [OF sh2, of c] info_state [OF sh2 com(5)] assms(8) len
    by (auto simp: attached_def info_def sel_def split: option.splits)
  with own_c own_d fresh(3,4) assms(5,8,10,11) com(1,2) len show ?thesis
    by (simp add: Attempt_status [OF sh1] Outcome_status [OF sh1] Attempt_status [OF sh2] Outcome_status [OF sh2])
qed

definition two_requests :: "session_event list" where
  "two_requests = one_request @ [SBegin test_env (Fin 2) plain_ctx ''k'' ''m'' None []]"

lemma Begin_again:
  assumes "key \<noteq> []" "entry r key = Some e" "se_Info e = Some i" "i < length (sr_states r)" "\<not> idle_entry r e"
    "st_Version (state_of r i) = v"
  shows "\<exists>ctx c r'. Begin env now plain_ctx key model p body r = Some (ctx, c, r') \<and> info r' key = Some i \<and>
    map sc_State (sr_calls r') = map sc_State (sr_calls r) @ [i] \<and> st_Version (state_of r' i) = v"
proof -
  have "info (begin_call now key model source p agent e r) key = Some i \<and>
      map sc_State (sr_calls (begin_call now key model source p agent e r)) = map sc_State (sr_calls r) @ [i] \<and>
      st_Version (state_of (begin_call now key model source p agent e r) i) = v" for source agent
    using assms by (simp add: begin_call_def begin_state_def info_def entry_def put_entry_def mod_state_def
        move_to_back_def update_conv state_of_def)
  then show ?thesis
    using assms by (simp add: Begin_def plain_ctx_def same_call_def begin_entry_def lapsed_def Let_def)
qed

lemma one_request_entry:
  "\<exists>e. entry (snd (sess_run 1 one_request)) ''k'' = Some e \<and> se_Info e = Some 0 \<and>
    \<not> idle_entry (snd (sess_run 1 one_request)) e"
proof -
  obtain e where e: "entry (snd (sess_run 1 one_request)) ''k'' = Some e" "se_Info e = Some 0"
    using one_request_run unfolding info_entry by blast
  then show ?thesis using one_request_state by (simp add: idle_entry_def)
qed

lemma two_requests_run:
  "sess_legal 1 two_requests" "fst (sess_run 1 two_requests) = {}"
  "info (snd (sess_run 1 two_requests)) ''k'' = Some 0"
  "map sc_State (sr_calls (snd (sess_run 1 two_requests))) = [0, 0]"
  "st_Version (state_of (snd (sess_run 1 two_requests)) 0) = 1"
proof -
  define r where "r = snd (sess_run 1 one_request)"
  have r: "sess_run 1 one_request = ({}, r)" using one_request_run unfolding r_def by (simp add: prod_eq_iff)
  obtain e where e: "entry r ''k'' = Some e" "se_Info e = Some 0" "\<not> idle_entry r e"
    using one_request_entry unfolding r_def by blast
  have "map sc_State (sr_calls r) = [0]" using one_request_run unfolding r_def by (auto simp: length_Suc_conv)
  with Begin_again [OF _ e(1,2) _ e(3), of 1 test_env "Fin 2" "''m''" None "[]"] one_request_state(1) one_request_states(1)
  obtain ctx c r' where b: "Begin test_env (Fin 2) plain_ctx ''k'' ''m'' None [] r = Some (ctx, c, r')"
    "info r' ''k'' = Some 0" "map sc_State (sr_calls r') = [0, 0]" "st_Version (state_of r' 0) = 1"
    unfolding r_def by auto
  have run: "sess_run 1 two_requests = ({}, r')"
    using r b(1) by (simp add: two_requests_def run_append)
  show "sess_legal 1 two_requests" using one_request_run r by (simp add: two_requests_def legal_append)
  show "fst (sess_run 1 two_requests) = {}" "info (snd (sess_run 1 two_requests)) ''k'' = Some 0"
    "map sc_State (sr_calls (snd (sess_run 1 two_requests))) = [0, 0]"
    "st_Version (state_of (snd (sess_run 1 two_requests)) 0) = 1"
    unfolding run using b by simp_all
qed

theorem control_reported_by_consumer_witness:
  "\<exists>r1 r2. Control ''k'' 1 ''switch'' ''u2'' (snd (sess_run 1 two_requests)) = (True, r1) \<and>
    route_status (Outcome (Some 0) ''u2'' True r2) 0 = ''applied'' \<and>
    route_status (Outcome (Some 1) ''u3'' True r2) 0 = ''selected'' \<and>
    r2 = snd (Commit (Fin 3) (Some \<lparr>ss_Key = ''k'', ss_Version = st_Version (state_of r1 0), ss_Action = ''switch'',
       ss_Target = ''u2'', ss_Baseline = [], ss_Call = Some 0\<rparr>) ''u2'' r1)"
proof -
  define r where "r = snd (sess_run 1 two_requests)"
  define r1 where "r1 = snd (Control ''k'' 1 ''switch'' ''u2'' r)"
  define cm where "cm = Commit (Fin 3) (Some \<lparr>ss_Key = ''k'', ss_Version = st_Version (state_of r1 0),
    ss_Action = ''switch'', ss_Target = ''u2'', ss_Baseline = [], ss_Call = Some 0\<rparr>) ''u2'' r1"
  have r: "sess_run 1 two_requests = ({}, r)"
    using two_requests_run(2) unfolding r_def by (simp add: prod_eq_iff)
  have c: "Control ''k'' 1 ''switch'' ''u2'' r = (True, r1)"
    using two_requests_run(3,5) unfolding r1_def r_def by (simp add: Control_def Let_def)
  obtain j where "info r ''k'' = Some j"
      "r1 = mod_state j (control_state (Suc (sr_Sequence r)) ''switch'' ''u2'') (next_sequence r)"
    using Control_True [OF c] by blast
  then have r1: "sr_calls r1 = sr_calls r" "info r1 ''k'' = Some 0"
    using two_requests_run(3) unfolding r_def [symmetric]
    by (simp_all add: mod_state_def next_sequence_def info_def entry_def)
  obtain k0 k1 where "sr_calls r = [k0, k1]" "sc_State k0 = 0" "sc_State k1 = 0"
    using two_requests_run(4) unfolding r_def [symmetric] by (auto simp: map_eq_Cons_conv)
  then have calls: "info r1 ''k'' = Some 0" "0 < length (sr_calls r1)" "sc_State (sr_calls r1 ! 0) = 0"
    "1 < length (sr_calls r1)" "sc_State (sr_calls r1 ! 1) = 0" "(1::nat) \<noteq> 0"
    using r1 by simp_all
  have k: "''switch'' \<notin> {[], ''cancel''}" "''k'' \<noteq> []" by simp_all
  have cm: "Commit (Fin 3) (Some \<lparr>ss_Key = ''k'', ss_Version = st_Version (state_of r1 0),
    ss_Action = ''switch'', ss_Target = ''u2'', ss_Baseline = [], ss_Call = Some 0\<rparr>) ''u2'' r1 = (fst cm, snd cm)"
    by (simp add: cm_def)
  note report = control_reported_by_consumer [OF zero_less_one two_requests_run(1) r c k calls cm]
  have "route_status (Outcome (Some 0) ''u2'' True (snd cm)) 0 = ''applied''"
    using report [of "''u2''" True] by simp
  moreover have "route_status (Outcome (Some 1) ''u3'' True (snd cm)) 0 = ''selected''"
    using report [of "''u3''" True] by blast
  ultimately show ?thesis using c unfolding r_def cm_def by blast
qed

subsection \<open>Room for a new binding\<close>

text \<open>The least recently used session that is idle: the first of the list of recency.\<close>

definition idle_key :: "session_router \<Rightarrow> string \<Rightarrow> bool" where
  "idle_key r k = (case entry r k of None \<Rightarrow> True | Some e \<Rightarrow> idle_entry r e)"

definition lru_idle :: "session_router \<Rightarrow> string option" where
  "lru_idle r = map_option snd (List.find (\<lambda>(i, k). idle_key r k) (sr_Order r))"

lemma evict_scan_find: "evict_scan r os = map_option snd (List.find (\<lambda>(i, k). idle_key r k) os)"
  by (induction os) (auto simp: idle_key_def)

lemma lru_idle_entry:
  assumes "shape r" "lru_idle r = Some k"
  obtains e where "entry r k = Some e" "idle_entry r e"
  using evict_scan_idle [OF assms(1), of "sr_Order r" k] assms(2)
  by (auto simp: lru_idle_def evict_scan_find)

lemma length_remove:
  assumes "entry r k = Some e"
  shows "length (sr_M (RemoveLocked k r)) < length (sr_M r)"
proof -
  have "(k, e) \<in> set (sr_M r)" using assms by (simp add: entry_def map_of_SomeD)
  then show ?thesis
    using assms by (auto simp: RemoveLocked_def AList.delete_eq intro!: length_filter_less)
qed

lemma make_room_exact:
  assumes "shape r"
  shows "make_room r = Some
    (if length (sr_M r) < sr_Max r then (True, r)
     else case lru_idle r of None \<Rightarrow> (False, r) | Some k \<Rightarrow> (True, RemoveLocked k r))"
proof (cases "length (sr_M r) < sr_Max r")
  case True
  then show ?thesis by (simp add: make_room_def)
next
  case False
  have sizes: "length (sr_M r) = sr_Max r" "0 < sr_Max r" "length (sr_Order r) = length (sr_M r)"
    using False assms linked_length [OF shape_linked [OF assms]] by (auto simp: shape_def)
  then obtain n where n: "length (sr_Order r) = Suc n" by (metis Suc_pred')
  then have o: "sr_Order r \<noteq> []" by auto
  show ?thesis
  proof (cases "lru_idle r")
    case None
    then show ?thesis
      using sizes n o by (simp add: make_room_def EvictIdleLocked_def evict_scan_find lru_idle_def)
  next
    case (Some k)
    then obtain e where e: "entry r k = Some e" using lru_idle_entry [OF assms] by blast
    have "sr_Max (RemoveLocked k r) = sr_Max r" by (simp add: RemoveLocked_def split: option.split)
    with length_remove [OF e] sizes(1) have "length (sr_M (RemoveLocked k r)) < sr_Max (RemoveLocked k r)" by simp
    then have "room_loop (Suc n) (RemoveLocked k r) = Some (True, RemoveLocked k r)" by simp
    moreover have "EvictIdleLocked r = (True, RemoveLocked k r)"
      using Some by (simp add: EvictIdleLocked_def evict_scan_find lru_idle_def [symmetric])
    ultimately show ?thesis
      using False Some o unfolding make_room_def n room_loop.simps(2) [of "Suc n"]
      by (simp del: room_loop.simps)
  qed
qed

lemma Bind_new:
  assumes "shape r" "entry r key = None" "key \<noteq> []" "uid \<noteq> []"
  defines "victim \<equiv> (if length (sr_M r) < sr_Max r then None else lru_idle r)"
  shows "\<exists>r'. Bind now key uid r = Some r' \<and>
    (if length (sr_M r) < sr_Max r \<or> lru_idle r \<noteq> None
     then (\<exists>el. entry r' key = Some \<lparr>se_Uid = uid, se_Expires = fadd now (sr_Ttl r), se_Order = el, se_Info = None\<rparr>) \<and>
          (k \<noteq> key \<longrightarrow> entry r' k = (if victim = Some k then None else entry r k))
     else r' = r)"
proof -
  note room = make_room_exact [OF assms(1)]
  have put: "entry (s\<lparr>sr_Order := os, sr_elements := n\<rparr>) = entry s" for s :: session_router and os n
    by (simp add: entry_def fun_eq_iff)
  have ttl: "sr_Ttl (RemoveLocked k' r) = sr_Ttl r" for k' by (simp add: RemoveLocked_def split: option.split)
  show ?thesis
  proof (cases "length (sr_M r) < sr_Max r")
    case True
    with assms(2-4) room put show ?thesis by (simp add: Bind_def victim_def push_back_def)
  next
    case False
    show ?thesis
    proof (cases "lru_idle r")
      case None
      with False assms(2-4) room show ?thesis by (simp add: Bind_def)
    next
      case (Some v)
      with False assms(2-4) room put ttl show ?thesis by (simp add: Bind_def victim_def push_back_def)
    qed
  qed
qed

text \<open>A new binding is found again until it expires: binding a session that is not in the table
  takes the place of the least recently used idle session when the table is full, leaves every other
  session as it was, and lookups of the session answer the bound account until the time to live has
  passed. Only when every session of a full table is in use is nothing bound and nothing changed.\<close>

theorem bind_then_lookup:
  assumes "0 < m" "sess_legal m es" "sess_run m es = (fin, r)" "key \<noteq> []" "uid \<noteq> []" "entry r key = None"
  shows "\<exists>r'. Bind now key uid r = Some r' \<and>
    (if length (sr_M r) < m \<or> lru_idle r \<noteq> None
     then Lookup now' key r' =
            (if fle (fadd now (sr_Ttl r)) now' then ([], RemoveLocked key r') else (uid, r')) \<and>
          (k \<noteq> key \<longrightarrow> entry r' k =
             (if length (sr_M r) = m \<and> lru_idle r = Some k then None else entry r k))
     else r' = r)"
proof -
  have sh: "shape r" by (rule inv_shape [OF sess_reachable [OF assms(1-3)]])
  have "ages (router_of m) r" using ages_run [OF new_world [OF assms(1)] assms(2)] assms(3) by simp
  then have m: "sr_Max r = m" by (simp add: ages_def router_of_def)
  have "length (sr_M r) \<le> m" using sh m by (simp add: shape_def)
  then have full: "(length (sr_M r) = m) = (\<not> length (sr_M r) < m)" by linarith
  obtain r' where r': "Bind now key uid r = Some r'"
    "if length (sr_M r) < m \<or> lru_idle r \<noteq> None
     then (\<exists>el. entry r' key = Some \<lparr>se_Uid = uid, se_Expires = fadd now (sr_Ttl r), se_Order = el, se_Info = None\<rparr>) \<and>
          (k \<noteq> key \<longrightarrow> entry r' k =
             (if (if length (sr_M r) < m then None else lru_idle r) = Some k then None else entry r k))
     else r' = r"
    using Bind_new [OF sh assms(6,4,5), of now k] unfolding m by blast
  show ?thesis
  proof (cases "length (sr_M r) < m \<or> lru_idle r \<noteq> None")
    case True
    with r'(2) obtain el where
      "entry r' key = Some \<lparr>se_Uid = uid, se_Expires = fadd now (sr_Ttl r), se_Order = el, se_Info = None\<rparr>" by auto
    then have "Lookup now' key r' =
        (if fle (fadd now (sr_Ttl r)) now' then ([], RemoveLocked key r') else (uid, r'))"
      using assms(4) by (simp add: Lookup_def lapsed_def idle_entry_def)
    with r' True show ?thesis unfolding full by auto
  next
    case False
    with r' show ?thesis by auto
  qed
qed

theorem bind_then_lookup_witness:
  "\<exists>r'. Bind (Fin 0) ''k'' ''u'' (router_of 1) = Some r' \<and>
    (fst (Lookup (Fin 5) ''k'' r') = (if fle (fadd (Fin 0) (Fin 1800)) (Fin 5) then [] else ''u''))"
proof -
  have "sess_legal 1 []" "sess_run 1 [] = ({}, router_of 1)" "''k'' \<noteq> []" "''u'' \<noteq> []"
    "entry (router_of 1) ''k'' = None"
    by (simp_all add: router_of_def NewSessionRouter_def entry_def)
  from bind_then_lookup [OF zero_less_one this, of "Fin 0" "Fin 5" "''k''"]
  show ?thesis by (auto simp: router_of_def NewSessionRouter_def)
qed

end
