(* ===== verification/SessionKeyProps.thy ===== *)
theory SessionKeyProps
  imports SessionKeys
begin

text \<open>
  Session keys: which requests can share one, and what form the extracted keys have.
\<close>

subsection \<open>Scopes\<close>

lemma no_nul_utoa: "CHR 0x00 \<notin> set (utoa n)"
  using set_utoa [of "CHR 0x00" n] by auto

lemma no_nul_namespace: "CHR 0x00 \<notin> set (namespace_of p)"
  using no_nul_utoa by (cases p) (auto simp: namespace_of_def itoa_def)

lemma nul_byte: "bytes [0] = [CHR 0x00]"
  by (simp add: bytes_def char_of_def)

lemma split_at:
  assumes "a @ c # b = a' @ c # b'" "c \<notin> set a" "c \<notin> set a'"
  shows "a = a' \<and> b = b'"
proof -
  have "takeWhile (\<lambda>d. d \<noteq> c) (a @ c # b) = a" "takeWhile (\<lambda>d. d \<noteq> c) (a' @ c # b') = a'"
    using assms(2,3) by (auto simp: takeWhile_append)
  with assms(1) show ?thesis by auto
qed

lemma no_colon_itoa: "CHR '':'' \<notin> set (itoa n)"
  using set_utoa [of "CHR '':''"] by (auto simp: itoa_def)

lemma namespace_parts:
  "namespace_of (Some c) = namespace_of (Some d) \<longleftrightarrow>
    cl_AppID c = cl_AppID d \<and> max 0 (cl_UserID c) = max 0 (cl_UserID d)"
proof -
  have "itoa m @ '':app:'' @ x = itoa n @ '':app:'' @ y \<longleftrightarrow> m = n \<and> x = y" for m n x y
    using split_at [of "itoa m" "CHR '':''" "''app:'' @ x" "itoa n" "''app:'' @ y"] no_colon_itoa by (auto simp: itoa_inj)
  then show ?thesis by (auto simp: namespace_of_def itoa_inj max_def)
qed

lemma namespace_none: "namespace_of None \<noteq> namespace_of (Some c)"
  by (auto simp: namespace_of_def)

text \<open>Callers that the router does not tell apart.\<close>

definition same_caller :: "caller option \<Rightarrow> caller option \<Rightarrow> bool" where
  "same_caller p q =
    (case (p, q) of
       (None, None) \<Rightarrow> True
     | (Some c, Some d) \<Rightarrow> cl_AppID c = cl_AppID d \<and> max 0 (cl_UserID c) = max 0 (cl_UserID d)
     | _ \<Rightarrow> False)"

lemma namespace_same: "namespace_of p = namespace_of q \<longleftrightarrow> same_caller p q"
proof (cases p; cases q)
  fix c d assume "p = Some c" "q = Some d"
  then show ?thesis using namespace_parts by (simp add: same_caller_def)
qed (use namespace_none namespace_none [symmetric] in \<open>auto simp: same_caller_def\<close>)



subsection \<open>The form of a key\<close>

definition bounded_id :: "string \<Rightarrow> bool" where
  "bounded_id v = (v \<noteq> [] \<and> length v \<le> 512 \<and> \<not> has_control v)"

lemma BoundedSessionID_bounded: "BoundedSessionID v \<noteq> [] \<Longrightarrow> bounded_id (BoundedSessionID v)"
  by (auto simp: BoundedSessionID_def bounded_id_def Let_def split: if_splits)

lemma first_bounded_bounded: "first_bounded vs \<noteq> [] \<Longrightarrow> bounded_id (first_bounded vs)"
  by (induction vs) (auto simp: BoundedSessionID_bounded)

lemma hex_or_dash: "is_hex c \<or> c = CHR ''-'' \<Longrightarrow> \<not> has_control [ascii_lower c]"
  by (auto simp: is_hex_def ascii_lower_def has_control_def Let_def)

lemma legacy_bounded: "legacy_session raw = Some v \<Longrightarrow> bounded_id v"
proof -
  assume "legacy_session raw = Some v"
  then obtain w where w: "v = map ascii_lower w" "length w = 36" "\<forall>c \<in> set w. is_hex c \<or> c = CHR ''-''"
    by (auto simp: legacy_session_def Let_def split: option.splits if_splits)
  then have "\<not> has_control v" using hex_or_dash by (fastforce simp: has_control_def)
  with w show ?thesis by (auto simp: bounded_id_def)
qed

definition hex_id :: "string \<Rightarrow> bool" where
  "hex_id v = (length v \<le> 16 \<and> list_all is_hex v)"

lemma hex_digit_is_hex: "d < 16 \<Longrightarrow> is_hex (hex_digit d)"
  by (auto simp: is_hex_def hex_digit_def Let_def)

lemma hex_id_take: "hex_id (take 16 (hex_encode bs))"
proof -
  have "list_all is_hex (hex_encode bs)"
    by (auto simp: hex_encode_def list_all_iff intro!: hex_digit_is_hex)
  then show ?thesis by (auto simp: hex_id_def list_all_iff dest: in_set_takeD)
qed

text \<open>The forms of an extracted key.\<close>

definition session_key_form :: "string \<Rightarrow> bool" where
  "session_key_form k =
    (k = [] \<or> has_prefix k ''sid:'' \<and> bounded_id (drop 4 k) \<or> has_prefix k ''pck:'' \<and> bounded_id (drop 4 k) \<or>
     has_prefix k ''user:'' \<and> length k \<le> 133 \<or> has_prefix k ''fb:'' \<and> hex_id (drop 3 k))"

lemma form_sid [simp]: "session_key_form (''sid:'' @ v) = bounded_id v"
  by (simp add: session_key_form_def has_prefix_def)

lemma form_pck [simp]: "session_key_form (''pck:'' @ v) = bounded_id v"
  by (simp add: session_key_form_def has_prefix_def)

lemma form_fb [simp]: "session_key_form (''fb:'' @ v) = hex_id v"
  by (simp add: session_key_form_def has_prefix_def)

lemma form_nil [simp]: "session_key_form []"
  by (simp add: session_key_form_def)

lemma form_user: "session_key_form (user_key body)"
  by (auto simp: user_key_def Let_def session_key_form_def has_prefix_def split: json.split)

lemma form_weak: "session_key_form (weakSessionText env text)"
  using form_fb by (simp add: weakSessionText_def hex_id_take del: append_Cons)

lemma form_messages: "session_key_form (messages_key env ms)"
  using form_fb by (induction ms) (auto simp: hex_id_take simp del: append_Cons split: json.split)

lemma form_items: "session_key_form (items_key env is)"
  by (induction "is") (auto simp: form_weak split: json.split)

lemma form_metadata: "session_key_form (metadata_key env meta)"
proof -
  have "bounded_id (meta_ids meta)" if "meta_ids meta \<noteq> []"
    using that unfolding meta_ids_def by (rule first_bounded_bounded)
  then show ?thesis
    using BoundedSessionID_bounded legacy_bounded form_sid
    by (auto simp: metadata_key_def Let_def simp del: append_Cons split: option.split)
qed

text \<open>Whatever the body holds, an extracted session key is empty, or is marked by where it comes
  from and bounded: an explicit identifier or cache key of at most 512 bytes without control
  characters, a user of at most 128 bytes, or at most 16 digits of a digest of the first text. The
  key of a request with an explicit header or body identifier is that identifier.\<close>

theorem session_key_bounded:
  "session_key_form (ExtractSessionKey env body) \<and>
   session_key_form (fst (WithRequestSessionIdentity env get body)) \<and>
   fst (WithRequestSessionIdentity env get body) =
     (if HeaderSessionID (Some get) \<noteq> [] then ''sid:'' @ HeaderSessionID (Some get)
      else if body_ids body \<noteq> [] then ''sid:'' @ body_ids body
      else ExtractSessionKey env body) \<and>
   hex_id (snd (WithRequestSessionIdentity env get body))"
proof -
  have b: "bounded_id (body_ids body)" if "body_ids body \<noteq> []"
    using that unfolding body_ids_def by (rule first_bounded_bounded)
  have h: "bounded_id (HeaderSessionID (Some get))" if "HeaderSessionID (Some get) \<noteq> []"
    using that first_bounded_bounded by (simp add: HeaderSessionID_def)
  have e: "session_key_form (ExtractSessionKey env body)"
    using b BoundedSessionID_bounded form_sid form_pck form_user form_weak form_messages form_items form_metadata
    by (auto simp: ExtractSessionKey_def Let_def simp del: append_Cons split: json.split)
  moreover have "hex_id []" by (simp add: hex_id_def)
  ultimately show ?thesis
    using h form_sid hex_id_take
    by (auto simp: WithRequestSessionIdentity_def Let_def ExtractSessionKey_def simp del: append_Cons)
qed

end
