(* ===== verification/ErrClass.thy ===== *)
theory ErrClass
  imports Json
begin

text \<open>
  The classification of upstream errors and what each class costs the account:
  internal/workbuddy/runtime/errclass.go, the daily model limit of helpers.go.

  Parameters are the JSON decoder (\<open>ee_json\<close>: None when the text does not decode into an object),
  \<open>strconv.ParseFloat\<close> (\<open>ee_float\<close>, None on an error) and the next four o'clock in the local time zone
  (\<open>ee_next4\<close>); the random number of the jitter is an argument. Regular expressions and the
  reading of a time stamp are written out.
\<close>

record err_env =
  ee_json :: "string \<Rightarrow> json_object option"
  ee_float :: "string \<Rightarrow> f64 option"
  ee_next4 :: "f64 \<Rightarrow> f64"

subsection \<open>Texts\<close>

text \<open>The white space \<open>\s\<close> and the digits \<open>\d\<close> of a regular expression.\<close>

definition re_space :: "char \<Rightarrow> bool" where
  "re_space c = (c \<in> {CHR 0x09, CHR 0x0A, CHR 0x0C, CHR 0x0D, CHR '' ''})"

definition re_digit :: "char \<Rightarrow> bool" where
  "re_digit c = (let n = (of_char c :: nat) in 48 \<le> n \<and> n \<le> 57)"

text \<open>The first suffix for which a match gives a result: the leftmost match.\<close>

fun leftmost :: "(string \<Rightarrow> 'a option) \<Rightarrow> string \<Rightarrow> 'a option" where
  "leftmost f [] = f []"
| "leftmost f (c # s) = (case f (c # s) of Some x \<Rightarrow> Some x | None \<Rightarrow> leftmost f s)"

text \<open>\<open>(?i)\<close> of a lowercase ASCII text; the long s (U+017F) folds to s. Chinese characters match themselves.\<close>

fun fold_prefix :: "string \<Rightarrow> string \<Rightarrow> string option" where
  "fold_prefix [] s = Some s"
| "fold_prefix (p # ps) s =
    (case s of
       [] \<Rightarrow> None
     | c # s' \<Rightarrow>
         if ascii_lower c = p then fold_prefix ps s'
         else if p = CHR ''s'' \<and> has_prefix s (bytes [0xC5, 0xBF]) then fold_prefix ps (drop 2 s)
         else None)"

subsection \<open>Classes and actions\<close>

datatype ErrKind =
    ErrNone | ErrHardCredit | ErrSoftRate | ErrSessionDead | ErrNotFound | ErrServer
  | ErrChannelDenied | ErrContentBlocked | ErrBadParams | ErrAccountFault | ErrModelBlocked
  | ErrWAFBlock | ErrPromptTooLong | ErrImageInvalid | ErrClient

record ErrAction =
  ea_Rotate :: bool
  ea_Cooldown :: f64
  ea_Disable :: bool
  ea_FailFast :: bool
  ea_ModelScoped :: bool
  ea_Reason :: string

definition no_action :: ErrAction where
  "no_action = \<lparr>ea_Rotate = False, ea_Cooldown = Fin 0, ea_Disable = False, ea_FailFast = False,
     ea_ModelScoped = False, ea_Reason = []\<rparr>"

definition SoftCooldownSec :: f64 where "SoftCooldownSec = Fin 60"
definition NotFoundCooldown :: f64 where "NotFoundCooldown = Fin 60"
definition WafCooldownBase :: f64 where "WafCooldownBase = Fin 60"
definition ServerCooldown :: f64 where "ServerCooldown = Fin 120"
definition SoftRateMax :: f64 where "SoftRateMax = Fin 7200"
definition ModelBlockBaseTTL :: f64 where "ModelBlockBaseTTL = Fin 21600"
definition RetryAfterSanity :: f64 where "RetryAfterSanity = Fin 7200"

definition RateMarkers :: "string list" where
  "RateMarkers =
    [''rate limit'',
    ''rate-limiting'',
    ''rate-limited'',
    ''frequency limit'',
    ''too many requests'',
    ''usage limit'',
    bytes [0xE8, 0xAF, 0xB7, 0xE6, 0xB1, 0x82, 0xE8, 0xBF, 0x87, 0xE4, 0xBA, 0x8E, 0xE9, 0xA2,
      0x91, 0xE7, 0xB9, 0x81],
    bytes [0xE4, 0xBD, 0xBF, 0xE7, 0x94, 0xA8, 0xE9, 0xA2, 0x91, 0xE7, 0x8E, 0x87],
    bytes [0xE9, 0x99, 0x90, 0xE6, 0xB5, 0x81]]"

definition SessionDeadMarkers :: "string list" where
  "SessionDeadMarkers = [''Offline user session not found'']"

definition AccountFaultMarkers :: "string list" where
  "AccountFaultMarkers = [''trial not activated'', ''trial version is not yet activated'']"

definition PromptTooLongMarkers :: "string list" where
  "PromptTooLongMarkers =
    [bytes [0x22] @ ''code'' @ bytes [0x22] @ '':11115'',
    bytes [0x22] @ ''code'' @ bytes [0x22] @ '':'' @ bytes [0x22] @ ''11115'' @ bytes [0x22],
    ''prompt is too long'']"

definition ContentBlockedMarkers :: "string list" where
  "ContentBlockedMarkers = [''blocked by security policy'', ''unapproved channel'', ''illegal api invocation'']"

definition BadParamsMarkers :: "string list" where
  "BadParamsMarkers = [''Unmarshal chat params failed'']"

definition InvalidImageMarkers :: "string list" where
  "InvalidImageMarkers = [''invalid image_url content'', ''invalid_image_data'', ''replace the image'']"

definition HardCreditMarkers :: "string list" where
  "HardCreditMarkers =
    [''insufficient credit'',
    ''no credit'',
    ''credit exhausted'',
    ''credits exhausted'',
    ''out of credit'',
    ''quota exceeded'',
    ''quota exhaust'',
    ''payment required'',
    ''credit not enough'',
    ''not enough credit'',
    bytes [0xE7, 0xA7, 0xAF, 0xE5, 0x88, 0x86, 0xE4, 0xB8, 0x8D, 0xE8, 0xB6, 0xB3],
    bytes [0xE9, 0xA2, 0x9D, 0xE5, 0xBA, 0xA6, 0xE4, 0xB8, 0x8D, 0xE8, 0xB6, 0xB3],
    bytes [0xE4, 0xBD, 0x99, 0xE9, 0xA2, 0x9D, 0xE4, 0xB8, 0x8D, 0xE8, 0xB6, 0xB3],
    bytes [0xE7, 0xA7, 0xAF, 0xE5, 0x88, 0x86, 0xE7, 0x94, 0xA8, 0xE5, 0xAE, 0x8C],
    bytes [0xE9, 0xA2, 0x9D, 0xE5, 0xBA, 0xA6, 0xE7, 0x94, 0xA8, 0xE5, 0xB0, 0xBD],
    bytes [0xE6, 0xB2, 0xA1, 0xE6, 0x9C, 0x89, 0xE7, 0xA7, 0xAF, 0xE5, 0x88, 0x86]]"

definition PromptTooLongStatuses :: "int \<Rightarrow> bool" where
  "PromptTooLongStatuses status = (status = 400 \<or> status = 404 \<or> status = 413)"

definition HitFold :: "string \<Rightarrow> string \<Rightarrow> string list \<Rightarrow> bool" where
  "HitFold text lower patterns =
    (\<exists>p \<in> set patterns. contains lower (to_lower p) \<or> contains text p)"

definition HitLower :: "string \<Rightarrow> string list \<Rightarrow> bool" where
  "HitLower lower patterns = (\<exists>p \<in> set patterns. contains lower p)"

text \<open>\<open>"code"\s*:\s*"?<code>"?\<close> at the start of a text, for a code of digits.\<close>

definition marker_at :: "string \<Rightarrow> string \<Rightarrow> bool" where
  "marker_at code s =
    (has_prefix s (CHR 0x22 # ''code'' @ [CHR 0x22]) \<and>
     (case dropWhile re_space (drop 6 s) of
        [] \<Rightarrow> False
      | c # s' \<Rightarrow>
          c = CHR '':'' \<and>
          (let v = dropWhile re_space s'
           in has_prefix v code \<or> has_prefix v (CHR 0x22 # code))))"

definition CodeMarker :: "string \<Rightarrow> string \<Rightarrow> bool" where
  "CodeMarker lower code =
    (if code \<notin> {''11115'', ''11135'', ''11101'', ''14018''} then False
     else leftmost (\<lambda>s. if marker_at code s then Some () else None) lower \<noteq> None)"

subsection \<open>The body of an error\<close>

definition JsonRoot :: "err_env \<Rightarrow> string \<Rightarrow> json_object option" where
  "JsonRoot env text = ee_json env text"

text \<open>
  \<open>ToStr\<close>: a text, or an integral number within int64 (a number outside it does not survive the
  conversion there and back on amd64).
\<close>

definition ToStr :: "json \<Rightarrow> string" where
  "ToStr v =
    (case v of
       JStr s \<Rightarrow> s
     | JNum (Fin x) \<Rightarrow>
         if x = of_int (floor x) \<and> - (2 ^ 63) \<le> x \<and> x < 2 ^ 63 then itoa (floor x) else []
     | _ \<Rightarrow> [])"

text \<open>The object and its \<open>error\<close> member when that is an object.\<close>

definition error_nodes :: "json_object \<Rightarrow> json_object list" where
  "error_nodes doc = doc # (case jget doc ''error'' of JObj inner \<Rightarrow> [inner] | _ \<Rightarrow> [])"

definition code_keys :: "string list" where
  "code_keys = [''code'', ''errCode'', ''error_code'']"

definition node_codes :: "json_object \<Rightarrow> string list" where
  "node_codes doc =
    concat (map (\<lambda>node. map (\<lambda>k. trim_space (ToStr (jget node k))) code_keys) (error_nodes doc))"

definition node_messages :: "json_object \<Rightarrow> string list" where
  "node_messages doc =
    concat (map (\<lambda>node. map (\<lambda>k. as_str (jget node k)) [''msg'', ''message'']) (error_nodes doc))"

definition first_text :: "string list \<Rightarrow> string" where
  "first_text ts = (case List.find (\<lambda>t. t \<noteq> []) ts of None \<Rightarrow> [] | Some t \<Rightarrow> t)"

definition IsModelBlocked :: "err_env \<Rightarrow> int \<Rightarrow> string \<Rightarrow> string \<Rightarrow> bool" where
  "IsModelBlocked env status text lower =
    (if (status \<noteq> 400 \<and> status \<noteq> 404) \<or> text = [] then False
     else if \<not> contains text ''11102'' \<and> \<not> contains lower ''service info not found'' then False
     else case JsonRoot env text of
            None \<Rightarrow> False
          | Some doc \<Rightarrow>
              if first_text (node_codes doc) = ''11102'' then True
              else contains (to_lower (first_text (map trim_space (node_messages doc)))) ''service info not found'')"

text \<open>An undecodable text reads as an empty object.\<close>

definition root_or_empty :: "err_env \<Rightarrow> string \<Rightarrow> json_object" where
  "root_or_empty env text = (case JsonRoot env text of None \<Rightarrow> [] | Some doc \<Rightarrow> doc)"

definition BusinessCode :: "err_env \<Rightarrow> string \<Rightarrow> string list \<Rightarrow> bool" where
  "BusinessCode env text wanted =
    (\<exists>code \<in> set (node_codes (root_or_empty env text)). code \<in> set wanted)"

definition IsChannelDenied :: "err_env \<Rightarrow> int \<Rightarrow> string \<Rightarrow> bool" where
  "IsChannelDenied env status text =
    (if (status \<noteq> 400 \<and> status \<noteq> 403) \<or> \<not> BusinessCode env text [''11128'', ''11-128''] then False
     else \<not> (\<exists>msg \<in> set (node_messages (root_or_empty env text)).
               contains (to_lower msg) ''first message is not system prompt''))"

definition HasBusinessEnvelope :: "string \<Rightarrow> bool" where
  "HasBusinessEnvelope text =
    (contains text (CHR 0x22 # ''code'' @ [CHR 0x22, CHR '':'']) \<or>
     contains text (CHR 0x22 # ''msg'' @ [CHR 0x22, CHR '':'']))"

definition IsWAFBlocked :: "int \<Rightarrow> string \<Rightarrow> bool" where
  "IsWAFBlocked status text = (status = 403 \<and> \<not> HasBusinessEnvelope text)"

subsection \<open>Reset times\<close>

text \<open>A time stamp of the shape \<open>dddd-dd-dd dd:dd:dd\<close>; \<open>#\<close> stands for a digit.\<close>

definition shaped :: "string \<Rightarrow> string \<Rightarrow> bool" where
  "shaped p s = list_all2 (\<lambda>a c. if a = CHR ''#'' then re_digit c else c = a) p s"

definition date_shape :: string where "date_shape = ''####-##-##''"
definition clock_shape :: string where "clock_shape = ''##:##:##''"

definition num_at :: "string \<Rightarrow> nat \<Rightarrow> nat \<Rightarrow> nat" where
  "num_at s i n = atou (take n (drop i s))"

definition leap_year :: "nat \<Rightarrow> bool" where
  "leap_year y = (y mod 4 = 0 \<and> (y mod 100 \<noteq> 0 \<or> y mod 400 = 0))"

definition month_days :: "nat \<Rightarrow> nat \<Rightarrow> nat" where
  "month_days y m =
    (if m = 2 then (if leap_year y then 29 else 28)
     else if m \<in> {4, 6, 9, 11} then 30 else 31)"

text \<open>Days since the first of January 1970.\<close>

definition civil_days :: "nat \<Rightarrow> nat \<Rightarrow> nat \<Rightarrow> int" where
  "civil_days y m d =
    (let y' = int y - (if m \<le> 2 then 1 else 0);
         m' = (if m > 2 then int m - 3 else int m + 9)
     in 365 * y' + y' div 4 - y' div 100 + y' div 400 + (153 * m' + 2) div 5 + int d - 1 - 719468)"

text \<open>
  \<open>time.ParseInLocation\<close> with the layout \<open>2006-01-02 15:04:05\<close> in UTC+8, on a date followed by the
  rest of the match: one or more spaces, then the time of day.
\<close>

definition parse_stamp :: "string \<Rightarrow> int option" where
  "parse_stamp s =
    (let y = num_at s 0 4; m = num_at s 5 2; d = num_at s 8 2;
         gap = drop 10 s; t = dropWhile (\<lambda>c. c = CHR '' '') gap
     in if \<not> (shaped date_shape (take 10 s) \<and> gap \<noteq> [] \<and> hd gap = CHR '' '' \<and> shaped clock_shape t) then None
        else if m = 0 \<or> 12 < m \<or> d = 0 \<or> month_days y m < d then None
        else if num_at t 0 2 \<ge> 24 \<or> num_at t 3 2 \<ge> 60 \<or> num_at t 6 2 \<ge> 60 then None
        else Some (civil_days y m d * 86400 + int (num_at t 0 2) * 3600 + int (num_at t 3 2) * 60 +
               int (num_at t 6 2) - 8 * 3600))"

text \<open>\<open>ResetRe\<close>: the stamp after the announcement.\<close>

definition reset_at :: "string \<Rightarrow> string option" where
  "reset_at s =
    (let words = (\<lambda>w. case fold_prefix w s of
             None \<Rightarrow> None
           | Some s' \<Rightarrow>
               let t = dropWhile re_space s'
               in if shaped (date_shape @ '' '' @ clock_shape) (take 19 t) then Some (take 19 t) else None)
     in case words (bytes [0xE5, 0xB0, 0x86, 0xE5, 0x9C, 0xA8]) of
          Some t \<Rightarrow> Some t
        | None \<Rightarrow> words ''reset at'')"

definition ParseRateReset :: "string \<Rightarrow> f64 option" where
  "ParseRateReset raw =
    (case leftmost reset_at raw of
       None \<Rightarrow> None
     | Some t \<Rightarrow> map_option of_count (parse_stamp t))"

text \<open>\<open>LimitResetRe\<close>: the stamp before \<open>UTC+8\<close>, its parts separated by white space.\<close>

definition limit_reset_at :: "string \<Rightarrow> string option" where
  "limit_reset_at s =
    (let gap = drop 10 s;
         sp = takeWhile re_space gap;
         t = take 8 (dropWhile re_space gap);
         rest = dropWhile re_space (drop 8 (dropWhile re_space gap))
     in if shaped date_shape (take 10 s) \<and> has_prefix s ''20'' \<and> sp \<noteq> [] \<and> shaped clock_shape t \<and>
           fold_prefix ''utc+8'' rest \<noteq> None
        then Some (take 10 s @ sp @ t) else None)"

definition DailyModelLimit :: "err_env \<Rightarrow> f64 \<Rightarrow> string \<Rightarrow> (f64 \<times> string) option" where
  "DailyModelLimit env now raw =
    (case ee_json env raw of
       None \<Rightarrow> None
     | Some data \<Rightarrow>
         if ToStr (jget data ''code'') \<noteq> ''6004'' then None
         else
           let msg = ToStr (jget data ''msg'')
           in case leftmost limit_reset_at msg of
                None \<Rightarrow> None
              | Some t \<Rightarrow>
                  (case parse_stamp t of
                     None \<Rightarrow> None
                   | Some reset \<Rightarrow>
                       if fle (of_count reset) now \<or> flt (fadd now (Fin (48 * 3600))) (of_count reset) then None
                       else Some (of_count reset, msg)))"

text \<open>The value of one header, adjusted to seconds from now; None where the loop goes on.\<close>

definition retry_value :: "err_env \<Rightarrow> f64 \<Rightarrow> string \<Rightarrow> string \<Rightarrow> f64 option" where
  "retry_value env now name raw =
    (let raw = trim_space raw
     in if raw = [] then None
        else case ee_float env raw of
               None \<Rightarrow> None
             | Some n \<Rightarrow>
                 let n = (if name = ''Retry-After-Ms'' then fdiv n (Fin 1000)
                          else if name = ''X-Ratelimit-Reset''
                          then fsub (if flt (Fin (10 ^ 11)) n then fdiv n (Fin 1000) else n) now
                          else n)
                 in if fle n (Fin 0) \<or> flt RetryAfterSanity n then None else Some n)"

definition RetryAfterHeaders :: "string list" where
  "RetryAfterHeaders = [''Retry-After'', ''Retry-After-Ms'', ''X-Ratelimit-Reset'']"

fun first_retry :: "err_env \<Rightarrow> (string \<Rightarrow> string) \<Rightarrow> f64 \<Rightarrow> string list \<Rightarrow> f64 option" where
  "first_retry env get now [] = None"
| "first_retry env get now (name # names) =
    (case retry_value env now name (get name) of
       Some n \<Rightarrow> Some n
     | None \<Rightarrow> first_retry env get now names)"

text \<open>The headers are \<open>Get\<close>, None where they are nil.\<close>

definition ParseRetryAfter :: "err_env \<Rightarrow> (string \<Rightarrow> string) option \<Rightarrow> f64 \<Rightarrow> f64 option" where
  "ParseRetryAfter env headers now =
    (case headers of None \<Rightarrow> None | Some get \<Rightarrow> first_retry env get now RetryAfterHeaders)"

definition ClampFloat :: "f64 \<Rightarrow> f64 \<Rightarrow> f64 \<Rightarrow> f64" where
  "ClampFloat v lo hi = (if flt v lo then lo else if flt hi v then hi else v)"

definition MaxFloat :: "f64 \<Rightarrow> f64 \<Rightarrow> f64" where
  "MaxFloat a b = (if flt b a then a else b)"

definition SoftRateCooldown :: "err_env \<Rightarrow> string \<Rightarrow> (string \<Rightarrow> string) option \<Rightarrow> f64 \<Rightarrow> f64" where
  "SoftRateCooldown env raw headers now =
    (case ParseRateReset raw of
       Some reset \<Rightarrow> ClampFloat (fsub reset now) (Fin 60) SoftRateMax
     | None \<Rightarrow>
         (case ParseRetryAfter env headers now of
            Some ra \<Rightarrow> ClampFloat ra (Fin 1) SoftRateMax
          | None \<Rightarrow> SoftCooldownSec))"

definition WafCooldown :: "err_env \<Rightarrow> f64 \<Rightarrow> (string \<Rightarrow> string) option \<Rightarrow> f64 \<Rightarrow> f64" where
  "WafCooldown env draw headers now =
    (case ParseRetryAfter env headers now of
       Some ra \<Rightarrow> ClampFloat ra (Fin 1) SoftRateMax
     | None \<Rightarrow> fmul WafCooldownBase (fadd (Fin (3/4)) (fmul draw (Fin (1/2)))))"

subsection \<open>Classification\<close>

definition ClassifyUpstream :: "err_env \<Rightarrow> int \<Rightarrow> string \<Rightarrow> ErrKind" where
  "ClassifyUpstream env status text =
    (let lower = to_lower text
     in if IsChannelDenied env status text then ErrChannelDenied
        else if IsModelBlocked env status text lower then ErrModelBlocked
        else if status = 402 then ErrHardCredit
        else if status \<ge> 400 \<and> (BusinessCode env text [''12153''] \<or> HitFold text lower SessionDeadMarkers)
        then ErrSessionDead
        else if status \<ge> 400 \<and> (BusinessCode env text [''11140''] \<or> BusinessCode env text [''14017''] \<or>
                HitFold text lower AccountFaultMarkers)
        then ErrAccountFault
        else if status = 429 \<and> CodeMarker lower ''14018'' then ErrHardCredit
        else if status = 429 then ErrSoftRate
        else if HitFold text lower HardCreditMarkers then ErrHardCredit
        else if HitFold text lower RateMarkers then ErrSoftRate
        else if PromptTooLongStatuses status \<and>
                (HitFold text lower PromptTooLongMarkers \<or> CodeMarker lower ''11115'')
        then ErrPromptTooLong
        else if status = 404 then ErrNotFound
        else if status \<ge> 500 then ErrServer
        else if IsWAFBlocked status text then ErrWAFBlock
        else if status = 400 \<and> (HitFold text lower InvalidImageMarkers \<or> CodeMarker lower ''11135'')
        then ErrImageInvalid
        else if status \<ge> 400 then
          (if HitLower lower ContentBlockedMarkers then ErrContentBlocked
           else if HitFold text lower BadParamsMarkers \<or> CodeMarker lower ''11101'' then ErrBadParams
           else ErrClient)
        else ErrNone)"

definition reason_credit :: string where
  "reason_credit =
    bytes [0xE4, 0xBD, 0x99, 0xE9, 0xA2, 0x9D, 0xE4, 0xB8, 0x8D, 0xE8, 0xB6, 0xB3]"

definition reason_rate :: string where
  "reason_rate =
    ''429 '' @ bytes [0xE9, 0x99, 0x90, 0xE6, 0xB5, 0x81]"

definition reason_waf :: string where
  "reason_waf =
    ''WAF 403 '' @ bytes [0xE6, 0x8B, 0xA6, 0xE6, 0x88, 0xAA]"

definition reason_dead :: string where
  "reason_dead =
    bytes [0xE7, 0x99, 0xBB, 0xE5, 0xBD, 0x95, 0xE6, 0x80, 0x81, 0xE5, 0xA4, 0xB1, 0xE6, 0x95,
      0x88, 0xEF, 0xBC, 0x88] @ ''12153'' @ bytes [0xEF, 0xBC, 0x89, 0xEF, 0xBC, 0x8C,
      0xE8, 0xAF, 0xB7, 0xE9, 0x87, 0x8D, 0xE6, 0x96, 0xB0, 0xE6, 0x89, 0xAB, 0xE7, 0xA0,
      0x81, 0xE7, 0x99, 0xBB, 0xE5, 0xBD, 0x95]"

definition reason_nf :: string where
  "reason_nf =
    bytes [0xE4, 0xB8, 0x8A, 0xE6, 0xB8, 0xB8] @ '' 404''"

definition reason_lim :: string where
  "reason_lim =
    bytes [0xE8, 0xB4, 0xA6, 0xE5, 0x8F, 0xB7, 0xE8, 0xA2, 0xAB, 0xE4, 0xB8, 0x8A, 0xE6, 0xB8,
      0xB8, 0xE9, 0x99, 0x90, 0xE5, 0x88, 0xB6, 0xE4, 0xBD, 0xBF, 0xE7, 0x94, 0xA8, 0xEF,
      0xBC, 0x88] @ ''11140'' @ bytes [0xEF, 0xBC, 0x89, 0xEF, 0xBC, 0x8C, 0xE8, 0xAF,
      0xB7, 0xE5, 0x9C, 0xA8, 0xE5, 0xAE, 0x98, 0xE6, 0x96, 0xB9, 0xE5, 0xAE, 0xA2, 0xE6,
      0x88, 0xB7, 0xE7, 0xAB, 0xAF, 0xE6, 0xA0, 0xB8, 0xE5, 0xAE, 0x9E, 0xE7, 0x8A, 0xB6,
      0xE6, 0x80, 0x81]"

definition reason_fault :: string where
  "reason_fault =
    bytes [0xE8, 0xB4, 0xA6, 0xE5, 0x8F, 0xB7, 0xE7, 0xBA, 0xA7, 0xE6, 0x95, 0x85, 0xE9, 0x9A,
      0x9C, 0xEF, 0xBC, 0x88, 0xE8, 0xAF, 0x95, 0xE7, 0x94, 0xA8, 0xE6, 0x9C, 0xAA, 0xE6,
      0xBF, 0x80, 0xE6, 0xB4, 0xBB, 0xEF, 0xBC, 0x89]"

definition reason_srv :: string where
  "reason_srv =
    bytes [0xE4, 0xB8, 0x8A, 0xE6, 0xB8, 0xB8] @ '' 5xx''"

definition reason_den :: string where
  "reason_den =
    bytes [0xE4, 0xB8, 0x8A, 0xE6, 0xB8, 0xB8, 0xE8, 0xAF, 0xB7, 0xE6, 0xB1, 0x82, 0xE6, 0xA0,
      0xA1, 0xE9, 0xAA, 0x8C, 0xE6, 0x88, 0x96, 0xE9, 0xA3, 0x8E, 0xE6, 0x8E, 0xA7, 0xE6,
      0x8B, 0x92, 0xE7, 0xBB, 0x9D, 0xEF, 0xBC, 0x88] @ ''11128'' @ bytes [0xEF, 0xBC,
      0x89]"

definition reason_model :: string where
  "reason_model =
    bytes [0xE6, 0xA8, 0xA1, 0xE5, 0x9E, 0x8B, 0xE5, 0x9C, 0xA8, 0xE8, 0xAF, 0xA5, 0xE8, 0xB4,
      0xA6, 0xE5, 0x8F, 0xB7, 0xE4, 0xB8, 0x8D, 0xE5, 0x8F, 0xAF, 0xE7, 0x94, 0xA8, 0xEF,
      0xBC, 0x88] @ ''11102'' @ bytes [0xEF, 0xBC, 0x89]"

definition reason_bad :: string where
  "reason_bad =
    bytes [0xE8, 0xAF, 0xB7, 0xE6, 0xB1, 0x82, 0xE4, 0xBD, 0x93, 0xE7, 0x95, 0xB8, 0xE5, 0xBD,
      0xA2, 0xEF, 0xBC, 0x88, 0xE4, 0xB8, 0x8D, 0xE7, 0xBD, 0x9A, 0xE5, 0x8F, 0xB7, 0xEF,
      0xBC, 0x89]"

definition rotate_for :: "f64 \<Rightarrow> string \<Rightarrow> ErrAction" where
  "rotate_for cooldown reason = no_action\<lparr>ea_Rotate := True, ea_Cooldown := cooldown, ea_Reason := reason\<rparr>"

definition ActionFor ::
    "err_env \<Rightarrow> f64 \<Rightarrow> ErrKind \<Rightarrow> string \<Rightarrow> (string \<Rightarrow> string) option \<Rightarrow> f64 \<Rightarrow> ErrAction" where
  "ActionFor env draw kind raw headers now =
    (case kind of
       ErrHardCredit \<Rightarrow> rotate_for (MaxFloat (Fin 60) (fsub (ee_next4 env now) now)) reason_credit
     | ErrSoftRate \<Rightarrow> rotate_for (SoftRateCooldown env raw headers now) reason_rate
     | ErrWAFBlock \<Rightarrow> rotate_for (WafCooldown env draw headers now) reason_waf
     | ErrSessionDead \<Rightarrow> (rotate_for (Fin 0) reason_dead)\<lparr>ea_Disable := True\<rparr>
     | ErrNotFound \<Rightarrow> rotate_for NotFoundCooldown reason_nf
     | ErrAccountFault \<Rightarrow>
         if BusinessCode env raw [''11140''] then (rotate_for (Fin 0) reason_lim)\<lparr>ea_Disable := True\<rparr>
         else rotate_for SoftCooldownSec reason_fault
     | ErrServer \<Rightarrow> rotate_for ServerCooldown reason_srv
     | ErrChannelDenied \<Rightarrow> rotate_for (Fin 0) reason_den
     | ErrContentBlocked \<Rightarrow> no_action\<lparr>ea_FailFast := True\<rparr>
     | ErrPromptTooLong \<Rightarrow> no_action\<lparr>ea_FailFast := True\<rparr>
     | ErrImageInvalid \<Rightarrow> no_action\<lparr>ea_FailFast := True\<rparr>
     | ErrModelBlocked \<Rightarrow> (rotate_for ModelBlockBaseTTL reason_model)\<lparr>ea_ModelScoped := True\<rparr>
     | ErrBadParams \<Rightarrow> rotate_for (Fin 0) reason_bad
     | ErrClient \<Rightarrow> rotate_for (Fin 0) []
     | ErrNone \<Rightarrow> rotate_for (Fin 0) [])"

end
