(* ===== verification/Routing.thy ===== *)
theory Routing
  imports ErrClass AccountPool Sessions
begin

text \<open>
  The choice of the account of a WorkBuddy request, internal/workbuddy/runtime/routing.go: the
  cooldowns of an account for one model, what a failed attempt costs the account, the picks inside
  and outside a portal scope, the selector with its controls, and the migration of paid
  international sessions to domestic accounts.

  The state is the account pool, the session router and the model cooldowns. Parameters stand for
  the catalogue, the stored settings and ownership, the credential managers and the JSON decoder.
  A function is one request running alone between two others, with one reading \<open>now\<close> of the clock;
  \<open>draw\<close> is the random number of the selection. The copy of a cooldown that is written to the
  database is not modelled.
\<close>

subsection \<open>The environment and the state\<close>

text \<open>An entry of the catalogue: the accounts that have the model, or else the profiles that have it.\<close>

record catalog_entry =
  ce_uids :: "string list option"
  ce_profiles :: "string list option"

text \<open>
  \<open>re_model\<close>: None is a catalogue that is not ready, Some None a model that is not in it.
  \<open>re_excluded\<close>: the accounts kept out of the private pool, None a failed query. \<open>re_cost\<close> is
  \<open>Catalog.AccountCost\<close> of profile, account and model, \<open>re_costs\<close> \<open>AccountCosts\<close>; \<open>re_invalid\<close> is
  \<open>authorizationInvalid\<close>; the two settings are None where they are not set.
\<close>

record route_env =
  re_err :: err_env
  re_model :: "string \<Rightarrow> catalog_entry option option"
  re_excluded :: "string list option"
  re_cost :: "string \<Rightarrow> string \<Rightarrow> string \<Rightarrow> f64 option"
  re_costs :: "string \<Rightarrow> string \<Rightarrow> f64 list"
  re_invalid :: "string \<Rightarrow> bool"
  re_cost_aware :: "string option"
  re_expiry_days :: "string option"

record routing_state =
  rs_pool :: pool
  rs_sessions :: session_router
  rs_cooldowns :: "(string \<times> f64 \<times> string) list"

record api_error =
  ae_Status :: int
  ae_Message :: string
  ae_Type :: string

definition errBody :: "int \<Rightarrow> string \<Rightarrow> string \<Rightarrow> api_error" where
  "errBody status message typ = \<lparr>ae_Status = status, ae_Message = message, ae_Type = typ\<rparr>"

definition SessionStickyMaxCooldown :: f64 where "SessionStickyMaxCooldown = Fin 30"
definition CooldownSoft :: f64 where "CooldownSoft = Fin 60"

subsection \<open>Model cooldowns and penalties\<close>

definition cooldown_key :: "string \<Rightarrow> string \<Rightarrow> string" where
  "cooldown_key uid model = uid @ ''|'' @ model"

definition ModelCooldownUntil ::
    "f64 \<Rightarrow> string \<Rightarrow> string \<Rightarrow> routing_state \<Rightarrow> f64 \<times> routing_state" where
  "ModelCooldownUntil now uid model s =
    (case map_of (rs_cooldowns s) (cooldown_key uid model) of
       None \<Rightarrow> (Fin 0, s)
     | Some (until, reason) \<Rightarrow>
         if fle until now
         then (Fin 0, s\<lparr>rs_cooldowns := AList.delete (cooldown_key uid model) (rs_cooldowns s)\<rparr>)
         else (until, s))"

definition set_cooldown :: "string \<Rightarrow> string \<Rightarrow> f64 \<Rightarrow> string \<Rightarrow> routing_state \<Rightarrow> routing_state" where
  "set_cooldown uid model until reason s =
    s\<lparr>rs_cooldowns := AList.update (cooldown_key uid model) (until, reason) (rs_cooldowns s)\<rparr>"

text \<open>None when the error is no daily limit.\<close>

definition MarkDailyModelLimit ::
    "route_env \<Rightarrow> f64 \<Rightarrow> string \<Rightarrow> string \<Rightarrow> string \<Rightarrow> routing_state \<Rightarrow> routing_state option" where
  "MarkDailyModelLimit env now uid model raw s =
    (case DailyModelLimit (re_err env) now raw of
       None \<Rightarrow> None
     | Some (reset, reason) \<Rightarrow> Some (set_cooldown uid model reset reason s))"

definition msg_daily_limit :: string where
  "msg_daily_limit =
    bytes [0xE8, 0xAF, 0xA5, 0xE6, 0xA8, 0xA1, 0xE5, 0x9E, 0x8B, 0xE4, 0xBB, 0x8A, 0xE6,
        0x97, 0xA5, 0xE5, 0xB7, 0xB2, 0xE8, 0xBE, 0xBE, 0xE4, 0xB8, 0x8A, 0xE9, 0x99,
        0x90]"

text \<open>An upstream error; \<open>ue_Header\<close> is \<open>Get\<close>, None where it is nil.\<close>

record upstream_error =
  ue_StatusCode :: int
  ue_Raw :: string
  ue_Header :: "(string \<Rightarrow> string) option"

text \<open>
  What the action does to the pool and the cooldowns. \<open>current\<close> says that the account still has the
  manager the attempt ran with; the last result is the revision of a balance check to be queued.
\<close>

definition apply_action ::
    "route_env \<Rightarrow> f64 \<Rightarrow> bool \<Rightarrow> string \<Rightarrow> string \<Rightarrow> upstream_error \<Rightarrow> ErrKind \<Rightarrow> ErrAction \<Rightarrow>
     routing_state \<Rightarrow> routing_state \<times> nat option" where
  "apply_action env now current uid model ue kind act s =
    (if ea_Disable act then
       (if re_invalid env uid then s
        else s\<lparr>rs_pool := SetEnabled uid False (ea_Reason act) (rs_pool s)\<rparr>, None)
     else if ea_ModelScoped act \<and> flt (Fin 0) (ea_Cooldown act) then
       (set_cooldown uid model (fadd now (ea_Cooldown act)) (ea_Reason act) s, None)
     else if ea_FailFast act then (s, None)
     else if kind = ErrHardCredit \<and> flt (Fin 0) (ea_Cooldown act) then
       (if current then
          (case onFailure now uid (ea_Cooldown act) True (rs_pool s) of
             (p, revision) \<Rightarrow>
               (s\<lparr>rs_pool := p\<rparr>,
                if ue_StatusCode ue = 402 \<or> BusinessCode (re_err env) (ue_Raw ue) [''14018''] then Some revision
                else None))
        else (s, None))
     else if flt (Fin 0) (ea_Cooldown act) then
       (s\<lparr>rs_pool := fst (onFailure now uid (ea_Cooldown act) False (rs_pool s))\<rparr>, None)
     else (s, None))"

definition penalizeAccount ::
    "route_env \<Rightarrow> f64 \<Rightarrow> f64 \<Rightarrow> bool \<Rightarrow> string \<Rightarrow> string \<Rightarrow> upstream_error \<Rightarrow> routing_state \<Rightarrow>
     ErrAction \<times> routing_state \<times> nat option" where
  "penalizeAccount env now draw current uid model ue s =
    (case MarkDailyModelLimit env now uid model (ue_Raw ue) s of
       Some s' \<Rightarrow>
         (no_action\<lparr>ea_Rotate := True, ea_ModelScoped := True, ea_Reason := msg_daily_limit\<rparr>, s', None)
     | None \<Rightarrow>
         let kind = ClassifyUpstream (re_err env) (ue_StatusCode ue) (ue_Raw ue);
             act = ActionFor (re_err env) draw kind (ue_Raw ue) (ue_Header ue) now
         in (act, apply_action env now current uid model ue kind act s))"

subsection \<open>Who may serve a model\<close>

definition ModelEntryAccountUIDs :: "catalog_entry \<Rightarrow> routing_state \<Rightarrow> string list" where
  "ModelEntryAccountUIDs item s =
    (case ce_uids item of
       Some uids \<Rightarrow> uids
     | None \<Rightarrow>
         let profiles = (case ce_profiles item of None \<Rightarrow> [] | Some ps \<Rightarrow> ps)
         in map ac_UID (filter (\<lambda>a. ac_Profile a \<in> set profiles) (p_accounts (rs_pool s))))"

definition msg_catalog_not_ready :: string where
  "msg_catalog_not_ready =
    bytes [0xE6, 0xA8, 0xA1, 0xE5, 0x9E, 0x8B, 0xE7, 0x9B, 0xAE, 0xE5, 0xBD, 0x95, 0xE5,
        0xB0, 0x9A, 0xE6, 0x9C, 0xAA, 0xE5, 0xB0, 0xB1, 0xE7, 0xBB, 0xAA, 0xEF, 0xBC,
        0x8C, 0xE8, 0xAF, 0xB7, 0xE7, 0xA8, 0x8D, 0xE5, 0x90, 0x8E, 0xE9, 0x87, 0x8D,
        0xE8, 0xAF, 0x95, 0xE6, 0x88, 0x96, 0xE5, 0x9C, 0xA8, 0xE7, 0xAE, 0xA1, 0xE7,
        0x90, 0x86, 0xE7, 0xAB, 0xAF, 0xE5, 0x88, 0xB7, 0xE6, 0x96, 0xB0, 0xE6, 0xA8,
        0xA1, 0xE5, 0x9E, 0x8B, 0xE7, 0x9B, 0xAE, 0xE5, 0xBD, 0x95]"

definition msg_model_unknown :: "string \<Rightarrow> string" where
  "msg_model_unknown model =
    bytes [0xE6, 0xA8, 0xA1, 0xE5, 0x9E, 0x8B] @ '' '' @ model @
    '' '' @ bytes [0xE4, 0xB8, 0x8D, 0xE5, 0x9C, 0xA8, 0xE5, 0xBD, 0x93, 0xE5, 0x89, 0x8D,
        0xE6, 0xA8, 0xA1, 0xE5, 0x9E, 0x8B, 0xE7, 0x9B, 0xAE, 0xE5, 0xBD, 0x95, 0xE4,
        0xB8, 0xAD, 0xEF, 0xBC, 0x8C, 0xE8, 0xAF, 0xB7, 0xE6, 0xA3, 0x80, 0xE6, 0x9F,
        0xA5, 0xE6, 0xA8, 0xA1, 0xE5, 0x9E, 0x8B, 0xE5, 0x90, 0x8D, 0xE6, 0x88, 0x96,
        0xE5, 0x88, 0xB7, 0xE6, 0x96, 0xB0, 0xE6, 0xA8, 0xA1, 0xE5, 0x9E, 0x8B, 0xE7,
        0x9B, 0xAE, 0xE5, 0xBD, 0x95]"

definition ModelAccountUIDs :: "route_env \<Rightarrow> string \<Rightarrow> routing_state \<Rightarrow> api_error + string list" where
  "ModelAccountUIDs env model s =
    (case re_model env model of
       None \<Rightarrow> Inl (errBody 503 msg_catalog_not_ready ''model_unavailable'')
     | Some None \<Rightarrow> Inl (errBody 400 (msg_model_unknown model) ''invalid_request_error'')
     | Some (Some item) \<Rightarrow> Inr (remdups (ModelEntryAccountUIDs item s)))"

definition ModelFree :: "route_env \<Rightarrow> string \<Rightarrow> account \<Rightarrow> bool" where
  "ModelFree env model a =
    (case re_cost env (ac_Profile a) (ac_UID a) model of None \<Rightarrow> False | Some c \<Rightarrow> feq c (Fin 0))"

definition ModelCallable :: "route_env \<Rightarrow> string \<Rightarrow> account \<Rightarrow> bool" where
  "ModelCallable env model a =
    (\<not> re_invalid env (ac_UID a) \<and> CallableFor (ModelFree env model a) a)"

definition ModelHealthy :: "route_env \<Rightarrow> f64 \<Rightarrow> string \<Rightarrow> account \<Rightarrow> bool" where
  "ModelHealthy env now model a =
    (\<not> re_invalid env (ac_UID a) \<and> HealthyFor now (ModelFree env model a) a)"

definition AccountHealthy :: "route_env \<Rightarrow> f64 \<Rightarrow> account \<Rightarrow> bool" where
  "AccountHealthy env now a =
    (if \<not> ac_Enabled a \<or> re_invalid env (ac_UID a) \<or> flt now (ac_CooldownUntil a) then False
     else if Callable a then True
     else \<exists>c \<in> set (re_costs env (ac_Profile a) (ac_UID a)). feq c (Fin 0))"

text \<open>The quotes of the ready accounts; None where the preference is off or there are none.\<close>

definition ModelCostByUID ::
    "route_env \<Rightarrow> string \<Rightarrow> (string \<Rightarrow> bool) \<Rightarrow> routing_state \<Rightarrow> (string \<rightharpoonup> f64) option" where
  "ModelCostByUID env model ready s =
    (if re_cost_aware env \<noteq> None \<and> re_cost_aware env \<noteq> Some ''1'' then None
     else
       let quotes = concat (map (\<lambda>a. if \<not> ready (ac_UID a) then []
                      else case re_cost env (ac_Profile a) (ac_UID a) model of
                             None \<Rightarrow> [] | Some c \<Rightarrow> [(ac_UID a, c)]) (p_accounts (rs_pool s)))
       in if quotes = [] then None else Some (map_of (rev quotes)))"

definition cost_of :: "(string \<rightharpoonup> f64) option \<Rightarrow> string \<Rightarrow> f64 option" where
  "cost_of costs uid = (case costs of None \<Rightarrow> None | Some m \<Rightarrow> m uid)"

definition ExpiryWindowDays :: "route_env \<Rightarrow> f64" where
  "ExpiryWindowDays env =
    (case re_expiry_days env of
       None \<Rightarrow> Fin 7
     | Some v \<Rightarrow>
         (case ee_float (re_err env) (trim_space v) of
            None \<Rightarrow> Fin 7
          | Some d \<Rightarrow> if flt (Fin 0) d then d else Fin 7))"

definition pickModel ::
    "route_env \<Rightarrow> f64 \<Rightarrow> f64 \<Rightarrow> string \<Rightarrow> (string \<Rightarrow> bool) \<Rightarrow> (string \<rightharpoonup> f64) option \<Rightarrow> f64 \<Rightarrow>
     routing_state \<Rightarrow> pick_result \<times> routing_state" where
  "pickModel env now draw model ready costs window s =
    (let eligible = (\<lambda>uid. ready uid \<and> \<not> re_invalid env uid);
         free = (\<lambda>uid. \<exists>a \<in> set (p_accounts (rs_pool s)).
                   ac_UID a = uid \<and> eligible uid \<and> ModelFree env model a)
     in case PickFor now draw (Some eligible) costs window free (rs_pool s) of
          (p, res) \<Rightarrow> (res, s\<lparr>rs_pool := p\<rparr>))"

text \<open>A known cost: \<open>cost >= 0\<close> and neither NaN nor infinite.\<close>

definition sane_cost :: "f64 \<Rightarrow> bool" where
  "sane_cost c = (fle (Fin 0) c \<and> \<not> isNaN c \<and> \<not> isInf c)"

definition minimum_cost ::
    "route_env \<Rightarrow> f64 \<Rightarrow> string \<Rightarrow> (string \<Rightarrow> bool) \<Rightarrow> (string \<rightharpoonup> f64) option \<Rightarrow> account list \<Rightarrow> f64" where
  "minimum_cost env now model ready costs as =
    foldl (\<lambda>m a.
        if \<not> ready (ac_UID a) \<or> \<not> ModelHealthy env now model a then m
        else case cost_of costs (ac_UID a) of
               None \<Rightarrow> m
             | Some c \<Rightarrow> if sane_cost c \<and> flt c m then c else m) PInf as"

text \<open>The domestic candidates, each of which makes the source try a pick; the first that gives one.\<close>

fun domestic_pick ::
    "route_env \<Rightarrow> f64 \<Rightarrow> f64 \<Rightarrow> string \<Rightarrow> (string \<Rightarrow> bool) \<Rightarrow> (string \<rightharpoonup> f64) option \<Rightarrow> f64 \<Rightarrow> f64 \<Rightarrow>
     account list \<Rightarrow> routing_state \<Rightarrow> pick_result \<times> routing_state" where
  "domestic_pick env now draw model ready costs window minimum [] s = (NoAccount, s)"
| "domestic_pick env now draw model ready costs window minimum (a # as) s =
    (if ready (ac_UID a) \<and> ModelHealthy env now model a \<and> ProfileSite (ac_Profile a) = Domestic \<and>
        (case cost_of costs (ac_UID a) of None \<Rightarrow> False
         | Some c \<Rightarrow> fle (fabs (fsub c minimum)) cost_eps)
     then (case pickModel env now draw model ready costs window s of
             (NoAccount, s') \<Rightarrow> domestic_pick env now draw model ready costs window minimum as s'
           | r \<Rightarrow> r)
     else domestic_pick env now draw model ready costs window minimum as s)"

definition PreferDomesticSession ::
    "route_env \<Rightarrow> f64 \<Rightarrow> f64 \<Rightarrow> string \<Rightarrow> string \<Rightarrow> account \<Rightarrow> (string \<Rightarrow> bool) \<Rightarrow>
     (string \<rightharpoonup> f64) option \<Rightarrow> f64 \<Rightarrow> routing_state \<Rightarrow> pick_result \<times> routing_state" where
  "PreferDomesticSession env now draw model key current ready costs window s =
    (if ProfileSite (ac_Profile current) \<noteq> International \<or>
        ManuallyPinned key (ac_UID current) (rs_sessions s)
     then (Picked current, s)
     else
       case cost_of costs (ac_UID current) of
         None \<Rightarrow> (Picked current, s)
       | Some base \<Rightarrow>
           if fle base (Fin 0) \<or> isNaN base \<or> isInf base then (Picked current, s)
           else
             let minimum = minimum_cost env now model ready costs (p_accounts (rs_pool s))
             in if fle minimum (Fin 0) \<or> flt (fadd base cost_eps) minimum then (Picked current, s)
                else
                  (case domestic_pick env now draw model ready costs window minimum (p_accounts (rs_pool s)) s of
                     (NoAccount, s') \<Rightarrow> (Picked current, s')
                   | r \<Rightarrow> r))"

subsection \<open>Picks\<close>

datatype route_result = Routed account | Refused api_error | RoutePanic

definition msg_shared_tried :: "string \<Rightarrow> string" where
  "msg_shared_tried model =
    bytes [0xE5, 0x85, 0xB1, 0xE4, 0xBA, 0xAB, 0xE6, 0xB1, 0xA0, 0xE4, 0xB8, 0xAD, 0xE6,
        0xA8, 0xA1, 0xE5, 0x9E, 0x8B] @ '' '' @ model @
    '' '' @ bytes [0xE7, 0x9A, 0x84, 0xE5, 0x8F, 0xAF, 0xE7, 0x94, 0xA8, 0xE8, 0xB4, 0xA6,
        0xE5, 0x8F, 0xB7, 0xE5, 0x9D, 0x87, 0xE5, 0xB7, 0xB2, 0xE5, 0xB0, 0x9D, 0xE8,
        0xAF, 0x95, 0xE6, 0x88, 0x96, 0xE5, 0x86, 0xB7, 0xE5, 0x8D, 0xB4]"

definition msg_shared_none :: "string \<Rightarrow> string" where
  "msg_shared_none model =
    bytes [0xE5, 0x85, 0xB1, 0xE4, 0xBA, 0xAB, 0xE6, 0xB1, 0xA0, 0xE4, 0xB8, 0xAD, 0xE6,
        0xA8, 0xA1, 0xE5, 0x9E, 0x8B] @ '' '' @ model @
    '' '' @ bytes [0xE6, 0x9A, 0x82, 0xE6, 0x97, 0xA0, 0xE5, 0x8F, 0xAF, 0xE7, 0x94, 0xA8,
        0xE8, 0xB4, 0xA6, 0xE5, 0x8F, 0xB7, 0xEF, 0xBC, 0x88, 0xE5, 0x86, 0xB7, 0xE5,
        0x8D, 0xB4, 0xE6, 0x88, 0x96, 0xE9, 0xA2, 0x9D, 0xE5, 0xBA, 0xA6, 0xE8, 0x80,
        0x97, 0xE5, 0xB0, 0xBD, 0xEF, 0xBC, 0x89, 0xEF, 0xBC, 0x8C, 0xE8, 0xAF, 0xB7,
        0xE7, 0xA8, 0x8D, 0xE5, 0x90, 0x8E, 0xE9, 0x87, 0x8D, 0xE8, 0xAF, 0x95]"

definition ErrPoolExhausted :: "string \<Rightarrow> string list \<Rightarrow> api_error" where
  "ErrPoolExhausted model tried =
    (if tried \<noteq> [] then errBody 503 (msg_shared_tried model) ''auth_error''
     else errBody 503 (msg_shared_none model) ''auth_error'')"

definition msg_permission_query :: string where
  "msg_permission_query =
    bytes [0xE8, 0xB4, 0xA6, 0xE5, 0x8F, 0xB7, 0xE6, 0x9D, 0x83, 0xE9, 0x99, 0x90, 0xE6,
        0x9F, 0xA5, 0xE8, 0xAF, 0xA2, 0xE5, 0xA4, 0xB1, 0xE8, 0xB4, 0xA5]"

definition msg_no_callable :: "string \<Rightarrow> string" where
  "msg_no_callable model =
    bytes [0xE6, 0xA8, 0xA1, 0xE5, 0x9E, 0x8B] @ '' '' @ model @
    '' '' @ bytes [0xE5, 0xBD, 0x93, 0xE5, 0x89, 0x8D, 0xE6, 0xB2, 0xA1, 0xE6, 0x9C, 0x89,
        0xE5, 0x8F, 0xAF, 0xE8, 0xB0, 0x83, 0xE7, 0x94, 0xA8, 0xE8, 0xB4, 0xA6, 0xE5,
        0x8F, 0xB7, 0xEF, 0xBC, 0x8C, 0xE8, 0xAF, 0xB7, 0xE6, 0xA3, 0x80, 0xE6, 0x9F,
        0xA5, 0xE8, 0xB4, 0xA6, 0xE5, 0x8F, 0xB7, 0xE7, 0x8A, 0xB6, 0xE6, 0x80, 0x81,
        0xE6, 0x88, 0x96, 0xE5, 0x88, 0xB7, 0xE6, 0x96, 0xB0, 0xE6, 0xA8, 0xA1, 0xE5,
        0x9E, 0x8B, 0xE7, 0x9B, 0xAE, 0xE5, 0xBD, 0x95]"

definition msg_all_tried :: "string \<Rightarrow> string" where
  "msg_all_tried model =
    bytes [0xE6, 0xA8, 0xA1, 0xE5, 0x9E, 0x8B] @ '' '' @ model @
    '' '' @ bytes [0xE7, 0x9A, 0x84, 0xE5, 0x8F, 0xAF, 0xE7, 0x94, 0xA8, 0xE8, 0xB4, 0xA6,
        0xE5, 0x8F, 0xB7, 0xE5, 0x9D, 0x87, 0xE5, 0xB7, 0xB2, 0xE5, 0xB0, 0x9D, 0xE8,
        0xAF, 0x95, 0xE6, 0x88, 0x96, 0xE5, 0x86, 0xB7, 0xE5, 0x8D, 0xB4]"

definition msg_all_cooling :: "string \<Rightarrow> string" where
  "msg_all_cooling model =
    bytes [0xE6, 0xA8, 0xA1, 0xE5, 0x9E, 0x8B] @ '' '' @ model @
    '' '' @ bytes [0xE7, 0x9A, 0x84, 0xE5, 0x8F, 0xAF, 0xE7, 0x94, 0xA8, 0xE8, 0xB4, 0xA6,
        0xE5, 0x8F, 0xB7, 0xE6, 0x9A, 0x82, 0xE5, 0xA4, 0x84, 0xE4, 0xBA, 0x8E, 0xE5,
        0x86, 0xB7, 0xE5, 0x8D, 0xB4, 0xEF, 0xBC, 0x8C, 0xE8, 0xAF, 0xB7, 0xE7, 0xA8,
        0x8D, 0xE5, 0x90, 0x8E, 0xE9, 0x87, 0x8D, 0xE8, 0xAF, 0x95]"

definition msg_none_left :: "string \<Rightarrow> string" where
  "msg_none_left model =
    bytes [0xE6, 0xA8, 0xA1, 0xE5, 0x9E, 0x8B] @ '' '' @ model @
    '' '' @ bytes [0xE6, 0x97, 0xA0, 0xE5, 0x8F, 0xAF, 0xE7, 0x94, 0xA8, 0xE8, 0xB4, 0xA6,
        0xE5, 0x8F, 0xB7, 0xEF, 0xBC, 0x88, 0xE5, 0x85, 0xA8, 0xE9, 0x83, 0xA8, 0xE5,
        0x86, 0xB7, 0xE5, 0x8D, 0xB4, 0xE6, 0x88, 0x96, 0xE9, 0xA2, 0x9D, 0xE5, 0xBA,
        0xA6, 0xE8, 0x80, 0x97, 0xE5, 0xB0, 0xBD, 0xEF, 0xBC, 0x89, 0xEF, 0xBC, 0x8C,
        0xE8, 0xAF, 0xB7, 0xE6, 0xA3, 0x80, 0xE6, 0x9F, 0xA5, 0xE8, 0xB4, 0xA6, 0xE5,
        0x8F, 0xB7, 0xE7, 0x8A, 0xB6, 0xE6, 0x80, 0x81]"

definition msg_upstream_limited :: string where
  "msg_upstream_limited =
    bytes [0xE4, 0xB8, 0x8A, 0xE6, 0xB8, 0xB8, 0xE9, 0x99, 0x90, 0xE6, 0xB5, 0x81, 0xE4,
        0xB8, 0xAD, 0xEF, 0xBC, 0x8C, 0xE6, 0x89, 0x80, 0xE6, 0x9C, 0x89, 0xE8, 0xB4,
        0xA6, 0xE5, 0x8F, 0xB7, 0xE5, 0x9D, 0x87, 0xE5, 0x9C, 0xA8, 0xE5, 0x86, 0xB7,
        0xE5, 0x8D, 0xB4, 0xEF, 0xBC, 0x8C, 0xE8, 0xAF, 0xB7, 0xE7, 0xA8, 0x8D, 0xE5,
        0x90, 0x8E, 0xE9, 0x87, 0x8D, 0xE8, 0xAF, 0x95]"

definition msg_shared_empty :: "string \<Rightarrow> string" where
  "msg_shared_empty model =
    bytes [0xE5, 0x85, 0xB1, 0xE4, 0xBA, 0xAB, 0xE6, 0xB1, 0xA0, 0xE4, 0xB8, 0xAD, 0xE6,
        0xA8, 0xA1, 0xE5, 0x9E, 0x8B] @ '' '' @ model @
    '' '' @ bytes [0xE6, 0x9A, 0x82, 0xE6, 0x97, 0xA0, 0xE5, 0x8F, 0xAF, 0xE7, 0x94, 0xA8,
        0xE8, 0xB4, 0xA6, 0xE5, 0x8F, 0xB7, 0xEF, 0xBC, 0x8C, 0xE8, 0xAF, 0xB7, 0xE7,
        0xA8, 0x8D, 0xE5, 0x90, 0x8E, 0xE9, 0x87, 0x8D, 0xE8, 0xAF, 0x95]"

definition msg_shared_cooling :: "string \<Rightarrow> string" where
  "msg_shared_cooling model =
    bytes [0xE6, 0xA8, 0xA1, 0xE5, 0x9E, 0x8B] @ '' '' @ model @
    '' '' @ bytes [0xE7, 0x9A, 0x84, 0xE6, 0x8E, 0x88, 0xE6, 0x9D, 0x83, 0xE8, 0xB4, 0xA6,
        0xE5, 0x8F, 0xB7, 0xE6, 0x9A, 0x82, 0xE5, 0xA4, 0x84, 0xE4, 0xBA, 0x8E, 0xE5,
        0x86, 0xB7, 0xE5, 0x8D, 0xB4, 0xEF, 0xBC, 0x8C, 0xE8, 0xAF, 0xB7, 0xE7, 0xA8,
        0x8D, 0xE5, 0x90, 0x8E, 0xE9, 0x87, 0x8D, 0xE8, 0xAF, 0x95]"

text \<open>The candidates that are counted and, among them, those without a running model cooldown.\<close>

definition scan_ready ::
    "f64 \<Rightarrow> string \<Rightarrow> (string \<Rightarrow> bool) \<Rightarrow> string list \<Rightarrow> routing_state \<Rightarrow> nat \<times> string list \<times> routing_state" where
  "scan_ready now model skip allowed s =
    foldl (\<lambda>(n, ready, s) uid.
        if skip uid then (n, ready, s)
        else case ModelCooldownUntil now uid model s of
               (until, s') \<Rightarrow> (n + 1, if fle until now then ready @ [uid] else ready, s'))
      (0, [], s) allowed"

text \<open>
  The sticky account of a session: the bound one, or the one it is migrated to, when it is ready
  and usable; otherwise the binding is dropped. \<open>keep\<close> is the private pick's condition that leaves
  the binding alone. None is a pick that goes on.
\<close>

definition sticky_account ::
    "route_env \<Rightarrow> f64 \<Rightarrow> f64 \<Rightarrow> string \<Rightarrow> string \<Rightarrow> (string \<Rightarrow> bool) \<Rightarrow> string list \<Rightarrow>
     routing_state \<Rightarrow> pick_result option \<times> routing_state" where
  "sticky_account env now draw model sessionKey keep ready s =
    (if sessionKey = [] then (None, s)
     else
       case Lookup now sessionKey (rs_sessions s) of
         (uid, ses) \<Rightarrow>
           let s1 = s\<lparr>rs_sessions := ses\<rparr>;
               is_ready = (\<lambda>u. u \<in> set ready);
               usable = (if is_ready uid then
                  (case Get (rs_pool s1) uid of
                     None \<Rightarrow> None
                   | Some a \<Rightarrow>
                       if ModelCallable env model a \<and>
                          fle (fsub (ac_CooldownUntil a) now) SessionStickyMaxCooldown
                       then Some a else None)
                else None)
           in if uid = [] \<or> keep uid then (None, s1)
              else case usable of
                     Some a \<Rightarrow>
                       (case PreferDomesticSession env now draw model sessionKey a is_ready
                               (ModelCostByUID env model is_ready s1) (ExpiryWindowDays env) s1 of
                          (r, s2) \<Rightarrow> (Some r, s2))
                   | None \<Rightarrow> (None, s1\<lparr>rs_sessions := Unbind sessionKey (rs_sessions s1)\<rparr>))"

text \<open>\<open>Bind\<close> ends in every reachable router (\<open>SessionProps\<close>).\<close>

definition bind_session :: "f64 \<Rightarrow> string \<Rightarrow> string \<Rightarrow> routing_state \<Rightarrow> routing_state" where
  "bind_session now sessionKey uid s =
    (if sessionKey = [] then s
     else case Bind now sessionKey uid (rs_sessions s) of
            None \<Rightarrow> s
          | Some r \<Rightarrow> s\<lparr>rs_sessions := r\<rparr>)"

text \<open>The common end of both picks: sticky or picked; \<open>none\<close> and \<open>cooling\<close> are the refusals.\<close>

definition pick_ready ::
    "route_env \<Rightarrow> f64 \<Rightarrow> f64 \<Rightarrow> string \<Rightarrow> string \<Rightarrow> (string \<Rightarrow> bool) \<Rightarrow> string list \<Rightarrow> api_error \<Rightarrow> api_error \<Rightarrow>
     routing_state \<Rightarrow> route_result \<times> routing_state" where
  "pick_ready env now draw model sessionKey keep ready none cooling s =
    (case sticky_account env now draw model sessionKey keep ready s of
       (Some (Picked a), s1) \<Rightarrow> (Routed a, s1)
     | (Some NoAccount, s1) \<Rightarrow> (Refused none, s1)
     | (Some PickPanic, s1) \<Rightarrow> (RoutePanic, s1)
     | (None, s1) \<Rightarrow>
         let is_ready = (\<lambda>u. u \<in> set ready)
         in case pickModel env now draw model is_ready (ModelCostByUID env model is_ready s1)
                   (ExpiryWindowDays env) s1 of
              (NoAccount, s2) \<Rightarrow> (Refused none, s2)
            | (PickPanic, s2) \<Rightarrow> (RoutePanic, s2)
            | (Picked a, s2) \<Rightarrow>
                if flt SessionStickyMaxCooldown (fsub (ac_CooldownUntil a) now) then (Refused cooling, s2)
                else (Routed a, bind_session now sessionKey (ac_UID a) s2))"

text \<open>The candidates that are passed over, in a scope and in the private pool.\<close>

definition scope_skip ::
    "route_env \<Rightarrow> string list \<Rightarrow> (string \<Rightarrow> bool) \<Rightarrow> routing_state \<Rightarrow> string \<Rightarrow> bool" where
  "scope_skip env tried scope s uid =
    (uid \<in> set tried \<or> \<not> scope uid \<or>
     (case Get (rs_pool s) uid of None \<Rightarrow> True | Some a \<Rightarrow> \<not> ac_Enabled a) \<or> re_invalid env uid)"

definition private_skip :: "route_env \<Rightarrow> string list \<Rightarrow> string \<Rightarrow> bool" where
  "private_skip env tried uid = (uid \<in> set tried \<or> re_invalid env uid)"

definition PickInScope ::
    "route_env \<Rightarrow> f64 \<Rightarrow> f64 \<Rightarrow> string \<Rightarrow> string \<Rightarrow> string list \<Rightarrow> (string \<Rightarrow> bool) \<Rightarrow>
     routing_state \<Rightarrow> route_result \<times> routing_state" where
  "PickInScope env now draw model sessionKey tried scope s =
    (case ModelAccountUIDs env model s of
       Inl e \<Rightarrow> (Refused e, s)
     | Inr allowed \<Rightarrow>
         if allowed = [] then (Refused (errBody 503 (msg_shared_empty model) ''model_unavailable''), s)
         else
           case scan_ready now model (scope_skip env tried scope s) allowed s of
                (scoped, ready, s1) \<Rightarrow>
                  if ready = [] then
                    (if tried = [] \<and> 0 < scoped
                     then (Refused (errBody 429 (msg_shared_cooling model) ''rate_limit_error''), s1)
                     else (Refused (ErrPoolExhausted model tried), s1))
                  else
                    pick_ready env now draw model sessionKey (\<lambda>_. False) ready
                      (ErrPoolExhausted model []) (ErrPoolExhausted model tried) s1)"

text \<open>\<open>scope\<close> None is the private pool.\<close>

definition PickAccountExcludingIn ::
    "route_env \<Rightarrow> f64 \<Rightarrow> f64 \<Rightarrow> string \<Rightarrow> string \<Rightarrow> string list \<Rightarrow> (string \<Rightarrow> bool) option \<Rightarrow>
     routing_state \<Rightarrow> route_result \<times> routing_state" where
  "PickAccountExcludingIn env now draw model sessionKey tried scope s =
    (case scope of
       Some sc \<Rightarrow> PickInScope env now draw model sessionKey tried sc s
     | None \<Rightarrow>
         (case ModelAccountUIDs env model s of
            Inl e \<Rightarrow> (Refused e, s)
          | Inr uids \<Rightarrow>
              (case re_excluded env of
                 None \<Rightarrow> (Refused (errBody 503 msg_permission_query ''server_error''), s)
               | Some excluded \<Rightarrow>
                   let allowed = filter (\<lambda>u. u \<notin> set excluded) uids
                   in if allowed = [] then (Refused (errBody 503 (msg_no_callable model) ''model_unavailable''), s)
                      else
                        case scan_ready now model (private_skip env tried) allowed s of
                          (candidates, ready, s1) \<Rightarrow>
                            if candidates = 0 then (Refused (ErrPoolExhausted model tried), s1)
                            else if ready = [] then
                              (if tried \<noteq> [] then (Refused (errBody 503 (msg_all_tried model) ''auth_error''), s1)
                               else (Refused (errBody 429 (msg_all_cooling model) ''rate_limit_error''), s1))
                            else
                              pick_ready env now draw model sessionKey (\<lambda>uid. uid \<in> set tried) ready
                                (errBody 503 (msg_none_left model) ''auth_error'')
                                (errBody 503 msg_upstream_limited ''rate_limit_error'') s1)))"

definition PickAccountExcluding where
  "PickAccountExcluding env now draw model sessionKey tried s =
    PickAccountExcludingIn env now draw model sessionKey tried None s"

definition PickAccount where
  "PickAccount env now draw model sessionKey s = PickAccountExcluding env now draw model sessionKey [] s"

subsection \<open>The selector of a queued request\<close>

text \<open>
  What the selector captures when it is made, and the variables it changes between calls: the
  preferred account and the pair of the last migration.
\<close>

record selector =
  sl_model :: string
  sl_allowed :: "string list"
  sl_tried :: "string list"
  sl_cost :: "(string \<rightharpoonup> f64) option"
  sl_window :: f64
  sl_preferred :: string
  sl_migrationFrom :: string
  sl_migrationTarget :: string

definition AccountSelector ::
    "route_env \<Rightarrow> string \<Rightarrow> string \<Rightarrow> string list \<Rightarrow> (string \<Rightarrow> bool) option \<Rightarrow> routing_state \<Rightarrow>
     api_error + selector" where
  "AccountSelector env model preferred tried scope s =
    (case ModelAccountUIDs env model s of
       Inl e \<Rightarrow> Inl e
     | Inr uids \<Rightarrow>
         let make = (\<lambda>uids'.
               let allowed = filter (\<lambda>u. u \<notin> set tried) uids'
               in \<lparr>sl_model = model, sl_allowed = allowed, sl_tried = tried,
                   sl_cost = ModelCostByUID env model (\<lambda>u. u \<in> set allowed) s,
                   sl_window = ExpiryWindowDays env, sl_preferred = preferred,
                   sl_migrationFrom = [], sl_migrationTarget = []\<rparr>)
         in case scope of
              Some sc \<Rightarrow> Inr (make (filter sc uids))
            | None \<Rightarrow>
                (case re_excluded env of
                   None \<Rightarrow> Inl (errBody 503 msg_permission_query ''server_error'')
                 | Some excluded \<Rightarrow> Inr (make (filter (\<lambda>u. u \<notin> set excluded) uids))))"

text \<open>The accounts that may be chosen now.\<close>

definition selector_ready :: "route_env \<Rightarrow> f64 \<Rightarrow> selector \<Rightarrow> routing_state \<Rightarrow> string list \<times> routing_state" where
  "selector_ready env now sl s =
    foldl (\<lambda>(ready, s) a.
        if ac_UID a \<notin> set (sl_allowed sl) \<or>
           \<not> ModelHealthy env now (sl_model sl) a \<and>
           \<not> (ac_UID a = sl_preferred sl \<and> ModelCallable env (sl_model sl) a \<and>
              fle (fsub (ac_CooldownUntil a) now) SessionStickyMaxCooldown)
        then (ready, s)
        else case ModelCooldownUntil now (ac_UID a) (sl_model sl) s of
               (until, s') \<Rightarrow> (if flt now until then ready else ready @ [ac_UID a], s'))
      ([], s) (p_accounts (rs_pool s))"

text \<open>Both costs are known and the target's is at most the baseline's, within the tolerance.\<close>

definition no_dearer :: "f64 option \<Rightarrow> f64 option \<Rightarrow> bool" where
  "no_dearer base target =
    (case (base, target) of
       (Some b, Some t) \<Rightarrow>
         \<not> flt b (Fin 0) \<and> \<not> flt t (Fin 0) \<and> \<not> isNaN b \<and> \<not> isNaN t \<and> \<not> isInf b \<and> \<not> isInf t \<and>
         \<not> flt (fadd b cost_eps) t
     | _ \<Rightarrow> False)"

definition msg_no_alternative :: string where
  "msg_no_alternative =
    bytes [0xE6, 0xB2, 0xA1, 0xE6, 0x9C, 0x89, 0xE5, 0x85, 0xB6, 0xE4, 0xBB, 0x96, 0xE5,
        0x90, 0x8C, 0xE6, 0x88, 0x90, 0xE6, 0x9C, 0xAC, 0xE6, 0x88, 0x96, 0xE6, 0x9B,
        0xB4, 0xE4, 0xBD, 0x8E, 0xE6, 0x88, 0x90, 0xE6, 0x9C, 0xAC, 0xE7, 0x9A, 0x84,
        0xE5, 0x81, 0xA5, 0xE5, 0xBA, 0xB7, 0xE6, 0x8E, 0x88, 0xE6, 0x9D, 0x83, 0xE8,
        0xB4, 0xA6, 0xE5, 0x8F, 0xB7, 0xEF, 0xBC, 0x8C, 0xE4, 0xBF, 0x9D, 0xE7, 0x95,
        0x99, 0xE5, 0x8E, 0x9F, 0xE9, 0x80, 0x89, 0xE6, 0x8B, 0xA9]"

text \<open>
  The effect of a pending control on the candidates: the ready accounts and the preferred one, or
  None where the control is rejected and the selector gives no account.
\<close>

definition control_route ::
    "route_env \<Rightarrow> f64 \<Rightarrow> selector \<Rightarrow> session_selection \<Rightarrow> string list \<Rightarrow> string \<Rightarrow> routing_state \<Rightarrow>
     (string list \<times> string) option \<times> routing_state" where
  "control_route env now sl sel ready preferred s =
    (let reject = (\<lambda>reason. (None, s\<lparr>rs_sessions :=
             Reject (ss_Key sel) (ss_Version sel) reason (rs_sessions s)\<rparr>));
         cost = cost_of (sl_cost sl)
     in if ss_Action sel = ''reselect'' then
          (let alternatives = filter (\<lambda>uid. uid \<noteq> ss_Baseline sel \<and>
                 no_dearer (cost (ss_Baseline sel)) (cost uid)) ready
           in if alternatives = [] then reject (Some msg_no_alternative)
              else (Some (alternatives, sl_preferred sl), s))
        else if ss_Action sel = ''switch'' then
          (if ss_Target sel \<in> set ready \<and>
              (case Get (rs_pool s) (ss_Target sel) of None \<Rightarrow> False
               | Some a \<Rightarrow> ModelHealthy env now (sl_model sl) a) \<and>
              no_dearer (cost (ss_Baseline sel)) (cost (ss_Target sel))
           then (Some (ready, ss_Target sel), s)
           else reject None)
        else (Some (ready, preferred), s))"

text \<open>What the selector reads of the session, when the request has one.\<close>

definition route_selection :: "session_selection \<Rightarrow> routing_state \<Rightarrow> string \<times> session_selection" where
  "route_selection sel s =
    (case Route (ss_Key sel) (rs_sessions s) of
       (uid, action, target, baseline, version) \<Rightarrow>
         (uid, sel\<lparr>ss_Version := version, ss_Action := action, ss_Target := target, ss_Baseline := baseline\<rparr>))"

text \<open>The choice between the routed account, its migration and a pick, over the ready accounts.\<close>

definition choose_ready ::
    "route_env \<Rightarrow> f64 \<Rightarrow> f64 \<Rightarrow> selector \<Rightarrow> session_selection option \<Rightarrow> string list \<Rightarrow> string \<Rightarrow>
     routing_state \<Rightarrow> pick_result \<times> selector \<times> routing_state" where
  "choose_ready env now draw sl sel ready routePreferred s =
    (let is_ready = (\<lambda>u. u \<in> set ready);
         key = (case sel of None \<Rightarrow> [] | Some x \<Rightarrow> ss_Key x);
         automatic = (case sel of None \<Rightarrow> True | Some x \<Rightarrow> ss_Action x = []);
         found = (\<lambda>u. case Get (rs_pool s) u of None \<Rightarrow> NoAccount | Some a \<Rightarrow> Picked a)
     in if is_ready routePreferred then
          (if \<not> automatic then (found routePreferred, sl, s)
           else if sl_migrationFrom sl = routePreferred \<and> is_ready (sl_migrationTarget sl) \<and>
                   \<not> ManuallyPinned key routePreferred (rs_sessions s)
           then (found (sl_migrationTarget sl), sl, s)
           else
             case Get (rs_pool s) routePreferred of
               None \<Rightarrow> (NoAccount, sl\<lparr>sl_migrationFrom := [], sl_migrationTarget := []\<rparr>, s)
             | Some a \<Rightarrow>
                 (case PreferDomesticSession env now draw (sl_model sl) key a is_ready (sl_cost sl)
                         (sl_window sl) s of
                    (Picked b, s') \<Rightarrow>
                      (Picked b,
                       if ac_UID b \<noteq> routePreferred
                       then sl\<lparr>sl_migrationFrom := routePreferred, sl_migrationTarget := ac_UID b\<rparr>
                       else sl\<lparr>sl_migrationFrom := [], sl_migrationTarget := []\<rparr>, s')
                  | (r, s') \<Rightarrow> (r, sl\<lparr>sl_migrationFrom := [], sl_migrationTarget := []\<rparr>, s')))
        else
          (case pickModel env now draw (sl_model sl) is_ready (sl_cost sl) (sl_window sl) s of
             (Picked b, s') \<Rightarrow> (Picked b, sl\<lparr>sl_preferred := ac_UID b\<rparr>, s')
           | (r, s') \<Rightarrow> (r, sl, s')))"

datatype choice = Chosen account | NoneNow | ChoiceError api_error | ChoicePanic

text \<open>The end of a call: a busy account is not given out; a reselection records its target.\<close>

definition finish_choice ::
    "(string \<Rightarrow> bool) \<Rightarrow> session_selection option \<Rightarrow> pick_result \<times> selector \<times> routing_state \<Rightarrow>
     choice \<times> selector \<times> session_selection option \<times> routing_state" where
  "finish_choice busy routing chosen =
    (case chosen of
       (PickPanic, sl, s) \<Rightarrow> (ChoicePanic, sl, routing, s)
     | (NoAccount, sl, s) \<Rightarrow> (NoneNow, sl, routing, s)
     | (Picked a, sl, s) \<Rightarrow>
         if busy (ac_UID a) then (NoneNow, sl, routing, s)
         else (Chosen a, sl,
               map_option (\<lambda>sel. if ss_Action sel = ''reselect''
                 then sel\<lparr>ss_Target := ac_UID a\<rparr> else sel) routing, s))"

text \<open>One call of the selector: \<open>busy\<close> are the accounts without a free slot.\<close>

definition select_account ::
    "route_env \<Rightarrow> f64 \<Rightarrow> f64 \<Rightarrow> (string \<Rightarrow> bool) \<Rightarrow> selector \<Rightarrow> session_selection option \<Rightarrow> routing_state \<Rightarrow>
     choice \<times> selector \<times> session_selection option \<times> routing_state" where
  "select_account env now draw busy sl routing s =
    (case selector_ready env now sl s of
       (ready, s1) \<Rightarrow>
         if ready = [] then (ChoiceError (ErrPoolExhausted (sl_model sl) (sl_tried sl)), sl, routing, s1)
         else
           let routed = (case routing of
                   None \<Rightarrow> (None, Some (ready, sl_preferred sl), s1)
                 | Some sel \<Rightarrow>
                     if ss_Key sel = [] then (Some sel, Some (ready, sl_preferred sl), s1)
                     else
                       case route_selection sel s1 of
                         (uid, sel') \<Rightarrow>
                           (case control_route env now sl sel' ready
                                   (if uid \<noteq> [] then uid else sl_preferred sl) s1 of
                              (res, s2) \<Rightarrow> (Some sel', res, s2)))
           in case routed of
                (routing', None, s2) \<Rightarrow> (NoneNow, sl, routing', s2)
              | (routing', Some (ready', routePreferred), s2) \<Rightarrow>
                  finish_choice busy routing' (choose_ready env now draw sl routing' ready' routePreferred s2))"

end
