(* ===== verification/GoText.thy ===== *)
theory GoText
  imports Json
begin

text \<open>
  Functions of Go's strings and strconv packages that several components use: replacing, splitting and
  joining, the integers that \<open>Atoi\<close> reads, and the shortest decimal text of a float64.
\<close>

text \<open>\<open>strings.ReplaceAll\<close> for a text that is not empty.\<close>

function replace_all :: "string \<Rightarrow> string \<Rightarrow> string \<Rightarrow> string" where
  "replace_all p q [] = []"
| "replace_all p q (c # s) =
    (if p \<noteq> [] \<and> has_prefix (c # s) p then q @ replace_all p q (drop (length p) (c # s))
     else c # replace_all p q s)"
  by pat_completeness auto
termination
  by (relation "measure (\<lambda>(p, q, s). length s)") (auto simp: neq_Nil_conv)

text \<open>\<open>strings.Split(s, string(c))\<close>.\<close>

fun split_on :: "char \<Rightarrow> string \<Rightarrow> string list" where
  "split_on c [] = [[]]"
| "split_on c (d # s) =
    (if d = c then [] # split_on c s
     else case split_on c s of [] \<Rightarrow> [[d]] | f # fs \<Rightarrow> (d # f) # fs)"

text \<open>\<open>strings.Join\<close>.\<close>

fun join_with :: "string \<Rightarrow> string list \<Rightarrow> string" where
  "join_with sep [] = []"
| "join_with sep [p] = p"
| "join_with sep (p # q # ps) = p @ sep @ join_with sep (q # ps)"

text \<open>\<open>strings.Cut(s, string(c))\<close>: the texts around the first separator, None when there is none.\<close>

definition cut_at :: "char \<Rightarrow> string \<Rightarrow> (string \<times> string) option" where
  "cut_at c s =
    (if c \<in> set s then Some (takeWhile (\<lambda>d. d \<noteq> c) s, tl (dropWhile (\<lambda>d. d \<noteq> c) s)) else None)"

text \<open>\<open>strconv.Atoi\<close>: a sign and decimal digits within int64; None is the error.\<close>

definition digit :: "char \<Rightarrow> bool" where
  "digit c = (48 \<le> (of_char c :: nat) \<and> (of_char c :: nat) \<le> 57)"

definition atoi :: "string \<Rightarrow> int option" where
  "atoi s =
    (let negative = has_prefix s ''-'';
         digits = (if negative \<or> has_prefix s ''+'' then tl s else s);
         n = (if negative then - int (atou digits) else int (atou digits))
     in if digits \<noteq> [] \<and> list_all digit digits \<and> go_int n then Some n else None)"

text \<open>
  \<open>strconv.FormatFloat(x, 'f', -1, 64)\<close>: the decimal with the fewest digits that reads back as x, the
  nearest such. A finite value has at most 17 significant digits; the zero is written without its sign.
\<close>

fun ilog10 :: "nat \<Rightarrow> nat" where
  "ilog10 n = (if n < 10 then 0 else Suc (ilog10 (n div 10)))"

declare ilog10.simps [simp del]

text \<open>The decade of a positive number: \<open>10 powi e \<le> x < 10 powi (e + 1)\<close>.\<close>

definition decade :: "rat \<Rightarrow> int" where
  "decade x = (if 1 \<le> x then int (ilog10 (nat \<lfloor>x\<rfloor>)) else - 1 - int (ilog10 (nat (\<lceil>1 / x\<rceil> - 1))))"

definition short_decimal :: "rat \<Rightarrow> int \<times> int" where
  "short_decimal x =
    (let candidate = \<lambda>p. (let k = decade x - int p in (round_even (x / 10 powi k), k))
     in case List.find (\<lambda>p. let (n, k) = candidate p in rnd (of_int n * 10 powi k) = Fin x) [0..<17] of
          Some p \<Rightarrow> candidate p
        | None \<Rightarrow> candidate 17)"

definition decimal_text :: "int \<times> int \<Rightarrow> string" where
  "decimal_text d =
    (let (n, k) = d; digits = itoa n
     in if 0 \<le> k then digits @ replicate (nat k) (CHR ''0'')
        else
          let m = nat (- k); padded = replicate (Suc m - length digits) (CHR ''0'') @ digits
          in take (length padded - m) padded @ ''.'' @ drop (length padded - m) padded)"

definition format_float :: "f64 \<Rightarrow> string" where
  "format_float x =
    (case x of
       NaN \<Rightarrow> ''NaN'' | PInf \<Rightarrow> ''+Inf'' | NInf \<Rightarrow> ''-Inf''
     | Fin q \<Rightarrow>
         if q = 0 then ''0''
         else if q < 0 then CHR ''-'' # decimal_text (short_decimal (- q))
         else decimal_text (short_decimal q))"

subsection \<open>Sizes of decoded trees\<close>

lemma size_member: "(k, v) \<in> set m \<Longrightarrow> size v < size (JObj m)"
  by (induction m) auto

lemma size_list_member:
  assumes "jget m k = JList xs"
  shows "size_list size xs < size (JObj m)"
proof -
  from assms have "(k, JList xs) \<in> set m" by (auto simp: jget_def dest: map_of_SomeD split: option.splits)
  then show ?thesis using size_member by fastforce
qed

end
