(* ===== verification/BodyCompat.thy ===== *)
theory BodyCompat
  imports ErrClass SiteRouting GoText
begin

text \<open>
  The rewriting of a request body after a rejection: the neutral system texts of
  internal/workbuddy/runtime/channel_compat.go and the image repair of image_history.go.

  Parameters are what the regular expressions of client templates do (\<open>te_codex\<close>: the length of the
  matched opening; the others replace every match), \<open>strings.ToLower\<close>, the base64 decoders (with and
  without padding; None on an error) and \<open>http.DetectContentType\<close>.
\<close>

record template_env =
  te_codex :: "string \<Rightarrow> nat option"
  te_identity_line :: "string \<Rightarrow> string"
  te_file_reference :: "string \<Rightarrow> string"
  te_main_branch :: "string \<Rightarrow> string"
  te_web_gui :: "string \<Rightarrow> string"

subsection \<open>Rewriting the members of a list\<close>

text \<open>Each element is replaced where the function gives a value; None when it gives none at all.\<close>

definition map_changed :: "('a \<Rightarrow> 'a option) \<Rightarrow> 'a list \<Rightarrow> 'a list option" where
  "map_changed f xs =
    (if \<exists>x \<in> set xs. f x \<noteq> None then Some (map (\<lambda>x. case f x of None \<Rightarrow> x | Some y \<Rightarrow> y) xs) else None)"

subsection \<open>System texts\<close>

definition rewrite_block :: "(string \<Rightarrow> string) \<Rightarrow> json \<Rightarrow> json option" where
  "rewrite_block f item =
    (case item of
       JObj block \<Rightarrow>
         if jget block ''type'' \<noteq> JStr ''text'' then None
         else (case jget block ''text'' of
                 JStr t \<Rightarrow> if f t = t then None else Some (JObj (jset ''text'' (JStr (f t)) block))
               | _ \<Rightarrow> None)
     | _ \<Rightarrow> None)"

definition rewrite_content :: "(string \<Rightarrow> string) \<Rightarrow> json \<Rightarrow> json option" where
  "rewrite_content f content =
    (case content of
       JStr v \<Rightarrow> if f v = v then None else Some (JStr (f v))
     | JList items \<Rightarrow> map_option JList (map_changed (rewrite_block f) items)
     | _ \<Rightarrow> None)"

definition system_role :: "json_object \<Rightarrow> bool" where
  "system_role m = (as_str (jget m ''role'') \<in> {''system'', ''developer''})"

definition rewrite_message :: "(string \<Rightarrow> string) \<Rightarrow> json \<Rightarrow> json option" where
  "rewrite_message f item =
    (case item of
       JObj m \<Rightarrow>
         if system_role m
         then map_option (\<lambda>c. JObj (jset ''content'' c m)) (rewrite_content f (jget m ''content''))
         else None
     | _ \<Rightarrow> None)"

definition transformSystemText :: "json_object \<Rightarrow> (string \<Rightarrow> string) \<Rightarrow> json_object \<times> bool" where
  "transformSystemText body f =
    (case map_changed (rewrite_message f) (as_list (jget body ''messages'')) of
       None \<Rightarrow> (body, False)
     | Some messages \<Rightarrow> (jset ''messages'' (JList messages) body, True))"

text \<open>The texts that the transformation is called on.\<close>

definition block_texts :: "json \<Rightarrow> string list" where
  "block_texts item =
    (case item of
       JObj block \<Rightarrow>
         if jget block ''type'' \<noteq> JStr ''text'' then []
         else (case jget block ''text'' of JStr t \<Rightarrow> [t] | _ \<Rightarrow> [])
     | _ \<Rightarrow> [])"

definition message_texts :: "json \<Rightarrow> string list" where
  "message_texts item =
    (case item of
       JObj m \<Rightarrow>
         if system_role m
         then (case jget m ''content'' of
                 JStr v \<Rightarrow> [v]
               | JList items \<Rightarrow> concat (map block_texts items)
               | _ \<Rightarrow> [])
         else []
     | _ \<Rightarrow> [])"

definition system_texts :: "json_object \<Rightarrow> string list" where
  "system_texts body = concat (map message_texts (as_list (jget body ''messages'')))"

subsection \<open>Client declarations\<close>

text \<open>
  \<open>strings.EqualFold\<close> of a prefix of as many bytes as an ASCII text has: runes that are not ASCII
  take more bytes than the letter they would fold to, so only ASCII letters can match.
\<close>

definition harness_intro :: string where
  "harness_intro = ''You are an AI agent powered by DeepSeek Harness.''"

definition neutral_intro :: string where
  "neutral_intro = ''You are a coding assistant.''"

definition blank :: "char \<Rightarrow> bool" where
  "blank c = (c \<in> {CHR '' '', CHR 0x09, CHR 0x0D, CHR 0x0A})"

definition client_banners :: "string list" where
  "client_banners =
    [''You are Claude Code, Anthropic'' @ bytes [0x27] @
        ''s official CLI for Claude, running within the Claude Agent SDK.'',
     ''You are Claude Code, Anthropic'' @ bytes [0x27] @ ''s official CLI for Claude.'',
     ''You are a Claude agent, built on Anthropic'' @ bytes [0x27] @ ''s Claude Agent SDK.'',
     ''You are an agent for Claude Code, Anthropic'' @ bytes [0x27] @
        ''s official CLI for Claude.'']"

definition banner_tail_ok :: "string \<Rightarrow> string \<Rightarrow> bool" where
  "banner_tail_ok banner tail =
    (tail = [] \<or> has_prefix tail [CHR 0x0A] \<or> has_prefix tail [CHR 0x0D, CHR 0x0A] \<or>
     has_prefix banner ''You are an agent for'' \<and>
     has_prefix tail ('' Given the user'' @ bytes [0x27] @ ''s message,''))"

fun strip_banner :: "string list \<Rightarrow> string \<Rightarrow> string option" where
  "strip_banner [] text = None"
| "strip_banner (b # bs) text =
    (if has_prefix text b \<and> banner_tail_ok b (drop (length b) text)
     then Some (neutral_intro @ drop (length b) text) else strip_banner bs text)"

definition CompatibleIdentity :: "template_env \<Rightarrow> string \<Rightarrow> string option" where
  "CompatibleIdentity env text =
    (let n = length harness_intro
     in if n \<le> length text \<and> map ascii_lower (take n text) = map ascii_lower harness_intro then
          (let tail = drop n text
           in if tail \<noteq> [] \<and> \<not> blank (hd tail) then None else Some (neutral_intro @ tail))
        else
          case te_codex env text of
            Some k \<Rightarrow>
              (let tail = drop k text
               in if tail = [] \<or> blank (hd tail) then Some (neutral_intro @ tail)
                  else strip_banner client_banners text)
          | None \<Rightarrow> strip_banner client_banners text)"

definition file_fingerprint :: string where
  "file_fingerprint =
    ''Tokens prefixed with @ are paths the user explicitly referenced. Relative paths resolve from the workspace root''"

definition file_rewritten :: string where
  "file_rewritten =
    ''Tokens prefixed with @ are paths the user explicitly referenced. Relative paths resolve against the workspace root''"

definition billing_header :: string where
  "billing_header = ''x-anthropic-billing-header: cc_version=''"

definition BillingPrefix :: "string \<Rightarrow> string \<times> string" where
  "BillingPrefix text =
    (let line = takeWhile (\<lambda>c. c \<noteq> CHR 0x0A) text;
         rest = dropWhile (\<lambda>c. c \<noteq> CHR 0x0A) text;
         body = (if has_suffix line [CHR 0x0D] then butlast line else line)
     in if \<not> has_prefix line billing_header \<or> 1024 < length line then ([], text)
        else if \<exists>c \<in> set body. (of_char c :: nat) < 32 \<or> 126 < (of_char c :: nat) then ([], text)
        else if \<not> has_suffix (trim_space line) '';'' then ([], text)
        else case rest of
               [] \<Rightarrow> (line, [])
             | nl # tail \<Rightarrow> (line @ [nl], tail))"

definition neutralizeClientTemplates :: "template_env \<Rightarrow> string \<Rightarrow> string" where
  "neutralizeClientTemplates env text =
    (case BillingPrefix text of
       (prefix, rest) \<Rightarrow>
         let padding = takeWhile blank rest;
             text = (case CompatibleIdentity env (drop (length padding) rest) of
                       None \<Rightarrow> text
                     | Some value \<Rightarrow> prefix @ padding @ value)
         in te_web_gui env (te_main_branch env (te_file_reference env
              (replace_all file_fingerprint file_rewritten (te_identity_line env text)))))"

definition NeutralizeChannelFingerprints :: "template_env \<Rightarrow> json_object \<Rightarrow> json_object \<times> bool" where
  "NeutralizeChannelFingerprints env body = transformSystemText body (neutralizeClientTemplates env)"

definition compat_text :: "(string \<Rightarrow> string) \<Rightarrow> int \<Rightarrow> string \<Rightarrow> string" where
  "compat_text neutral level text =
    (if level = 2
     then case BillingPrefix (neutral text) of
            (prefix, rest) \<Rightarrow> if prefix \<noteq> [] then rest else neutral text
     else neutral text)"

definition compat_body :: "(string \<Rightarrow> string) \<Rightarrow> json_object \<Rightarrow> int \<Rightarrow> json_object \<times> bool" where
  "compat_body neutral body level =
    (if level \<noteq> 1 \<and> level \<noteq> 2 then (body, False)
     else
       let metadata = (level = 2 \<and> (\<exists>t \<in> set (system_texts body). fst (BillingPrefix (neutral t)) \<noteq> []))
       in if level = 2 \<and> \<not> metadata then (body, False)
          else transformSystemText body (compat_text neutral level))"

definition ChannelCompatibilityBody :: "template_env \<Rightarrow> json_object \<Rightarrow> int \<Rightarrow> json_object \<times> bool" where
  "ChannelCompatibilityBody env body level = compat_body (neutralizeClientTemplates env) body level"

subsection \<open>Images\<close>

datatype image_action = KeepImage | FixImage json_object | DropImage

definition image_dropped_text :: string where
  "image_dropped_text =
    ''['' @ bytes [0xE6, 0x9C, 0xAC, 0xE6, 0xAC, 0xA1, 0xE5, 0x9B, 0xBE, 0xE7, 0x89, 0x87,
        0xE8, 0xA7, 0xA3, 0xE6, 0x9E, 0x90, 0xE5, 0xA4, 0xB1, 0xE8, 0xB4, 0xA5, 0xEF,
        0xBC, 0x8C, 0xE5, 0xB7, 0xB2, 0xE9, 0x99, 0x8D, 0xE7, 0xBA, 0xA7, 0xE4, 0xB8,
        0xBA, 0xE6, 0x96, 0x87, 0xE5, 0xAD, 0x97, 0xE8, 0xAF, 0xB7, 0xE6, 0xB1, 0x82,
        0xEF, 0xBC, 0x9B, 0xE6, 0xAD, 0xA4, 0xE5, 0xA4, 0x84, 0xE5, 0x9B, 0xBE, 0xE7,
        0x89, 0x87, 0xE5, 0x86, 0x85, 0xE5, 0xAE, 0xB9, 0xE6, 0x9C, 0xAA, 0xE6, 0x8F,
        0x90, 0xE4, 0xBE, 0x9B, 0xE3, 0x80, 0x82] @ '']''"

definition dropped_part :: json where
  "dropped_part = JObj [(''type'', JStr ''text''), (''text'', JStr image_dropped_text)]"

definition image_kinds :: "string list" where
  "image_kinds = [''image_url'', ''image'', ''input_image'']"

definition image_role :: "json_object \<Rightarrow> bool" where
  "image_role m = (as_str (jget m ''role'') \<in> {''user'', ''assistant'', ''tool''})"

text \<open>The parts of a message from the index \<open>j\<close> on: the new parts, the repaired and the removed.\<close>

fun image_parts ::
    "(nat \<Rightarrow> json_object \<Rightarrow> image_action) \<Rightarrow> nat \<Rightarrow> json list \<Rightarrow> json list \<times> nat \<times> nat" where
  "image_parts act j [] = ([], 0, 0)"
| "image_parts act j (value # parts) =
    (case image_parts act (Suc j) parts of
       (rest, repaired, removed) \<Rightarrow>
         if as_str (jget (as_obj value) ''type'') \<notin> set image_kinds then (value # rest, repaired, removed)
         else case act j (as_obj value) of
                KeepImage \<Rightarrow> (value # rest, repaired, removed)
              | DropImage \<Rightarrow> (dropped_part # rest, repaired, Suc removed)
              | FixImage updated \<Rightarrow> (JObj updated # rest, Suc repaired, removed))"

definition image_message ::
    "(nat \<Rightarrow> json_object \<Rightarrow> image_action) \<Rightarrow> json \<Rightarrow> json \<times> nat \<times> nat" where
  "image_message act item =
    (let m = as_obj item
     in if \<not> image_role m then (item, 0, 0)
        else case image_parts act 0 (as_list (jget m ''content'')) of
               (content, repaired, removed) \<Rightarrow>
                 (if repaired = 0 \<and> removed = 0 then item else JObj (jset ''content'' (JList content) m),
                  repaired, removed))"

fun image_messages ::
    "(nat \<Rightarrow> nat \<Rightarrow> json_object \<Rightarrow> image_action) \<Rightarrow> nat \<Rightarrow> json list \<Rightarrow> json list \<times> nat \<times> nat" where
  "image_messages act i [] = ([], 0, 0)"
| "image_messages act i (item # items) =
    (case (image_message (act i) item, image_messages act (Suc i) items) of
       ((item', p1, r1), (items', p2, r2)) \<Rightarrow> (item' # items', p1 + p2, r1 + r2))"

definition transformRequestImages ::
    "json_object \<Rightarrow> (nat \<Rightarrow> nat \<Rightarrow> json_object \<Rightarrow> image_action) \<Rightarrow> json_object \<times> nat \<times> nat" where
  "transformRequestImages body act =
    (case image_messages act 0 (as_list (jget body ''messages'')) of
       (messages, repaired, removed) \<Rightarrow>
         if removed = 0 \<and> repaired = 0 then (body, 0, 0)
         else (jset ''messages'' (JList messages) body, repaired, removed))"

definition withoutRequestImages :: "json_object \<Rightarrow> json_object \<times> nat" where
  "withoutRequestImages body =
    (case transformRequestImages body (\<lambda>i j part. DropImage) of (out, repaired, removed) \<Rightarrow> (out, removed))"

record media_env =
  me_lower :: "string \<Rightarrow> string"
  me_base64 :: "bool \<Rightarrow> string \<Rightarrow> string option"
  me_detect :: "string \<Rightarrow> string"

text \<open>
  The corrected URL, whether it was repaired and whether it is invalid. The decoder is read to its
  end, so an error anywhere or an empty result is invalid.
\<close>

definition compatibleImageURL :: "media_env \<Rightarrow> string \<Rightarrow> string \<times> bool \<times> bool" where
  "compatibleImageURL env url =
    (let trimmed = trim_space url
     in if trimmed = [] then (url, False, True)
        else if \<not> has_prefix (me_lower env trimmed) ''data:'' then (url, False, False)
        else if CHR '','' \<notin> set (drop 5 trimmed) then (url, False, True)
        else
          let header = takeWhile (\<lambda>c. c \<noteq> CHR '','') (drop 5 trimmed);
              data = tl (dropWhile (\<lambda>c. c \<noteq> CHR '','') (drop 5 trimmed));
              fields = split_on (CHR '';'') header;
              mime = me_lower env (trim_space (hd fields))
          in if \<not> has_prefix mime ''image/'' \<or> mime = ''image/'' then (url, False, True)
             else if length fields \<noteq> 2 \<or> \<not> equal_fold (trim_space (fields ! 1)) ''base64'' then (url, False, False)
             else
               let cleaned = filter (\<lambda>c. \<not> blank c) data
               in if cleaned = [] then (url, False, True)
                  else
                    case me_base64 env (CHR ''='' \<in> set cleaned) cleaned of
                      None \<Rightarrow> (url, False, True)
                    | Some decoded \<Rightarrow>
                        if decoded = [] then (url, False, True)
                        else
                          let detected = me_detect env (take 512 decoded);
                              mime = (if has_prefix detected ''image/'' then detected else mime);
                              padding = (4 - length cleaned mod 4) mod 4
                          in if trimmed = url \<and> header = mime @ '';base64'' \<and> cleaned = data \<and> padding = 0
                             then (url, False, False)
                             else (''data:'' @ mime @ '';base64,'' @ cleaned @ replicate padding (CHR ''=''), True, False))"

text \<open>\<open>^messages\[([0-9]+)\]\.content\[([0-9]+)\](?:\.image_url(?:\.url)?)?$\<close>, both numbers within int64.\<close>

definition int64_text :: "string \<Rightarrow> nat option" where
  "int64_text ds = (if ds \<noteq> [] \<and> atou ds < 2 ^ 63 then Some (atou ds) else None)"

definition image_param :: "string \<Rightarrow> (nat \<times> nat) option" where
  "image_param param =
    (if \<not> has_prefix param ''messages['' then None
     else
       let p1 = drop 9 param; d1 = takeWhile re_digit p1; p2 = dropWhile re_digit p1
       in if \<not> has_prefix p2 ''].content['' then None
          else
            let p3 = drop 10 p2; d2 = takeWhile re_digit p3; p4 = dropWhile re_digit p3
            in if p4 \<notin> {'']'', ''].image_url'', ''].image_url.url''} then None
               else case (int64_text d1, int64_text d2) of
                      (Some i, Some j) \<Rightarrow> Some (i, j)
                    | _ \<Rightarrow> None)"

text \<open>One position named by the nodes, or None where they name none or two different ones.\<close>

fun one_position :: "(nat \<times> nat) option \<Rightarrow> (nat \<times> nat) option list \<Rightarrow> (nat \<times> nat) option" where
  "one_position found [] = found"
| "one_position found (None # ps) = one_position found ps"
| "one_position found (Some p # ps) =
    (if found \<noteq> None \<and> found \<noteq> Some p then None else one_position (Some p) ps)"

definition rejectedImagePosition :: "err_env \<Rightarrow> string \<Rightarrow> (nat \<times> nat) option" where
  "rejectedImagePosition env raw =
    (let doc = root_or_empty env raw;
         nodes = doc # concat (map (\<lambda>k. case jget doc k of JObj node \<Rightarrow> [node] | _ \<Rightarrow> []) [''error'', ''extError''])
     in one_position None (map (\<lambda>node. image_param (as_str (jget node ''param''))) nodes))"

definition repair_part :: "media_env \<Rightarrow> json_object \<Rightarrow> image_action" where
  "repair_part env part =
    (if jget part ''type'' \<noteq> JStr ''image_url'' then KeepImage
     else
       let url = (case jget part ''image_url'' of
               JStr u \<Rightarrow> u
             | JObj img \<Rightarrow> as_str (jget img ''url'')
             | _ \<Rightarrow> [])
       in case compatibleImageURL env url of
            (value, repaired, invalid) \<Rightarrow>
              if \<not> repaired then (if invalid then DropImage else KeepImage)
              else FixImage (jset ''image_url''
                     (JObj (jset ''url'' (JStr value) (as_obj (jget part ''image_url'')))) part))"

definition locallyCompatibleImages ::
    "err_env \<Rightarrow> media_env \<Rightarrow> json_object \<Rightarrow> string \<Rightarrow> json_object \<times> nat \<times> nat" where
  "locallyCompatibleImages env menv body raw =
    (let rest = transformRequestImages body (\<lambda>i j part. repair_part menv part)
     in case rejectedImagePosition env raw of
          None \<Rightarrow> rest
        | Some (mi, pj) \<Rightarrow>
            (case transformRequestImages body
                    (\<lambda>i j part. if i = mi \<and> j = pj then DropImage else KeepImage) of
               (out, repaired, removed) \<Rightarrow> if 0 < removed then (out, 0, removed) else rest))"

end
