(* ===== verification/Failover.thy ===== *)
theory Failover
  imports Routing BodyCompat
begin

text \<open>
  The failover of a WorkBuddy request: \<open>OpenUpstreamScoped\<close> of internal/workbuddy/runtime/routing.go
  with the sends of one attempt, \<open>Stream\<close> of attempt.go.

  What happens outside is given by environments: for each attempt the catalogue and the clock, for
  each round of the account selection the accounts without a free slot at the moments the scheduler
  asks, and for each send what the upstream did. A request runs alone: what other requests do in
  between is not modelled, except that catalogue, ownership and scheduler answers change freely from
  round to round. Diagnostics and logging are left out.
\<close>

subsection \<open>Errors\<close>

datatype attempt_error =
    EUpstream upstream_error | EApi api_error | ETooLarge | ECancelled | ELocalNetwork | EOther | EPanic

definition is_upstream :: "attempt_error \<Rightarrow> upstream_error option" where
  "is_upstream e = (case e of EUpstream ue \<Rightarrow> Some ue | _ \<Rightarrow> None)"

definition error_raw :: "string \<Rightarrow> string \<Rightarrow> string" where
  "error_raw message typ =
    ''{'' @ bytes [0x22] @ ''error'' @ bytes [0x22] @ '':{'' @ bytes [0x22] @ ''message'' @
        bytes [0x22] @ '':'' @ bytes [0x22] @ message @ bytes [0x22] @ '','' @ bytes [0x22] @ ''type'' @ bytes [0x22] @ '':'' @ bytes [0x22] @ typ @ bytes [0x22] @ ''}}''"

definition chatAuthorizationError :: "string \<Rightarrow> attempt_error" where
  "chatAuthorizationError message =
    EUpstream \<lparr>ue_StatusCode = 401, ue_Raw = error_raw message ''auth_error'', ue_Header = None\<rparr>"

definition msg_recovery_over :: string where
  "msg_recovery_over =
    bytes [0xE6, 0x9C, 0xAC, 0xE6, 0xAC, 0xA1, 0xE4, 0xB8, 0x8A, 0xE6, 0xB8, 0xB8, 0xE6,
        0x81, 0xA2, 0xE5, 0xA4, 0x8D, 0xE5, 0xB7, 0xB2, 0xE7, 0xBB, 0x93, 0xE6, 0x9D,
        0x9F, 0xEF, 0xBC, 0x8C, 0xE8, 0xAF, 0xB7, 0xE7, 0xA8, 0x8D, 0xE5, 0x90, 0x8E,
        0xE9, 0x87, 0x8D, 0xE8, 0xAF, 0x95]"

definition msg_still_rejected :: string where
  "msg_still_rejected =
    bytes [0xE5, 0x87, 0xAD, 0xE6, 0x8D, 0xAE, 0xE7, 0xBB, 0xAD, 0xE6, 0x9C, 0x9F, 0xE5,
        0x90, 0x8E, 0xE4, 0xBB, 0x8D, 0xE6, 0x9C, 0xAA, 0xE9, 0x80, 0x9A, 0xE8, 0xBF,
        0x87, 0xE8, 0xB0, 0x83, 0xE7, 0x94, 0xA8, 0xE9, 0x89, 0xB4, 0xE6, 0x9D, 0x83,
        0xEF, 0xBC, 0x8C, 0xE8, 0xAF, 0xB7, 0xE9, 0x87, 0x8D, 0xE6, 0x96, 0xB0, 0xE6,
        0x8E, 0x88, 0xE6, 0x9D, 0x83, 0xE6, 0x88, 0x96, 0xE6, 0xA0, 0xB8, 0xE5, 0xAE,
        0x9E, 0xE8, 0xB4, 0xA6, 0xE5, 0x8F, 0xB7, 0xE6, 0x9D, 0x83, 0xE9, 0x99, 0x90]"

definition msg_no_budget :: string where
  "msg_no_budget =
    bytes [0xE4, 0xB8, 0x8A, 0xE6, 0xB8, 0xB8, 0xE9, 0x89, 0xB4, 0xE6, 0x9D, 0x83, 0xE6,
        0x9C, 0xAA, 0xE9, 0x80, 0x9A, 0xE8, 0xBF, 0x87, 0xEF, 0xBC, 0x8C, 0xE6, 0x9C,
        0xAC, 0xE6, 0xAC, 0xA1, 0xE6, 0x81, 0xA2, 0xE5, 0xA4, 0x8D, 0xE5, 0xB7, 0xB2,
        0xE7, 0xBB, 0x93, 0xE6, 0x9D, 0x9F, 0xEF, 0xBC, 0x8C, 0xE8, 0xAF, 0xB7, 0xE6,
        0xA0, 0xB8, 0xE5, 0xAE, 0x9E, 0xE8, 0xB4, 0xA6, 0xE5, 0x8F, 0xB7, 0xE6, 0x8E,
        0x88, 0xE6, 0x9D, 0x83]"

definition msg_login_dead :: string where
  "msg_login_dead =
    bytes [0xE8, 0xB4, 0xA6, 0xE5, 0x8F, 0xB7, 0xE7, 0x99, 0xBB, 0xE5, 0xBD, 0x95, 0xE6,
        0x80, 0x81, 0xE5, 0xA4, 0xB1, 0xE6, 0x95, 0x88, 0xEF, 0xBC, 0x8C, 0xE8, 0xAF,
        0xB7, 0xE9, 0x87, 0x8D, 0xE6, 0x96, 0xB0, 0xE6, 0x8E, 0x88, 0xE6, 0x9D, 0x83]"

definition msg_refresh_failed :: string where
  "msg_refresh_failed =
    bytes [0xE5, 0x87, 0xAD, 0xE6, 0x8D, 0xAE, 0xE6, 0x9A, 0x82, 0xE6, 0x97, 0xB6, 0xE7,
        0xBB, 0xAD, 0xE6, 0x9C, 0x9F, 0xE5, 0xA4, 0xB1, 0xE8, 0xB4, 0xA5, 0xEF, 0xBC,
        0x8C, 0xE8, 0xAF, 0xB7, 0xE7, 0xA8, 0x8D, 0xE5, 0x90, 0x8E, 0xE9, 0x87, 0x8D,
        0xE8, 0xAF, 0x95]"

subsection \<open>The sends of an attempt\<close>

text \<open>The renewal of the credential after a 401.\<close>

datatype recovery =
    Refreshed | NoManager | RecoverCancelled | LoginRequired | RecoverFailed | HeadersFailed attempt_error

text \<open>
  One send: the check before it, whether output reached the client, its error, whether the context
  was done after it, and the renewal.
\<close>

record send_event =
  sv_check :: "attempt_error option"
  sv_started :: bool
  sv_error :: "attempt_error option"
  sv_done :: bool
  sv_recover :: recovery

datatype send_result = Stop bool "attempt_error option" | SendAgain

text \<open>
  What a send changes: the recovery budget, the log of sends (the account, and whether output
  began), and the session's attempts.
\<close>

record send_state =
  sn_remaining :: nat
  sn_sent :: "(string \<times> bool) list"
  sn_routing :: routing_state

definition send_once ::
    "string \<Rightarrow> nat option \<Rightarrow> bool \<Rightarrow> send_event \<Rightarrow> send_state \<Rightarrow> send_result \<times> send_state" where
  "send_once uid call second ev st =
    (case sv_check ev of
       Some e \<Rightarrow> (Stop False (Some e), st)
     | None \<Rightarrow>
         let st = st\<lparr>sn_routing := (sn_routing st)\<lparr>rs_sessions := Attempt call uid (rs_sessions (sn_routing st))\<rparr>\<rparr>
         in if sn_remaining st = 0 then (Stop False (Some (chatAuthorizationError msg_recovery_over)), st)
            else
              let st = st\<lparr>sn_remaining := sn_remaining st - 1, sn_sent := sn_sent st @ [(uid, sv_started ev)]\<rparr>;
                  unauthorized = (case sv_error ev of Some (EUpstream ue) \<Rightarrow> ue_StatusCode ue = 401 | _ \<Rightarrow> False)
              in if sv_started ev \<or> sv_done ev \<or> \<not> unauthorized then (Stop (sv_started ev) (sv_error ev), st)
                 else if second then (Stop False (Some (chatAuthorizationError msg_still_rejected)), st)
                 else if sn_remaining st = 0 then (Stop False (Some (chatAuthorizationError msg_no_budget)), st)
                 else
                   (case sv_recover ev of
                      Refreshed \<Rightarrow> SendAgain
                    | NoManager \<Rightarrow> Stop False (sv_error ev)
                    | RecoverCancelled \<Rightarrow> Stop False (Some ECancelled)
                    | LoginRequired \<Rightarrow> Stop False (Some (chatAuthorizationError msg_login_dead))
                    | RecoverFailed \<Rightarrow> Stop False (Some (chatAuthorizationError msg_refresh_failed))
                    | HeadersFailed e \<Rightarrow> Stop False (Some e), st))"

text \<open>
  The attempt: what fails before the first send (the rate limit, the checks, the headers), then at
  most two sends. The result says whether output began.
\<close>

definition run_once ::
    "string \<Rightarrow> nat option \<Rightarrow> attempt_error option \<Rightarrow> send_event \<Rightarrow> send_event \<Rightarrow> send_state \<Rightarrow>
     (bool \<times> attempt_error option) \<times> send_state" where
  "run_once uid call pre ev1 ev2 st =
    (case pre of
       Some e \<Rightarrow> ((False, Some e), st)
     | None \<Rightarrow>
         (case send_once uid call False ev1 st of
            (Stop started err, st') \<Rightarrow> ((started, err), st')
          | (SendAgain, st') \<Rightarrow>
              (case send_once uid call True ev2 st' of
                 (Stop started err, st'') \<Rightarrow> ((started, err), st'')
               | (SendAgain, st'') \<Rightarrow> ((False, sv_error ev2), st''))))"

subsection \<open>The selection of an account\<close>

text \<open>
  A round: the environment when the selector is made, the accounts without a slot at each moment the
  scheduler asks, the error that ends the wait when it is never satisfied, the environment after the
  wait, and the caller's check.
\<close>

record round_env =
  rd_env :: route_env
  rd_now :: f64
  rd_draw :: f64
  rd_busy :: "(string \<Rightarrow> bool) list"
  rd_wait :: attempt_error
  rd_after :: route_env
  rd_check :: "attempt_error option"

record failover_cfg =
  fc_model :: string
  fc_key :: string
  fc_scope :: "(string \<Rightarrow> bool) option"
  fc_call :: "nat option"
  fc_leased :: bool
  fc_identity :: bool
  fc_metadata :: bool
  fc_templates :: template_env
  fc_media :: media_env
  fc_fingerprint :: "json_object \<Rightarrow> string"
  fc_body :: json_object

datatype round_result =
  RoundAccount account | RoundAgain account | RoundError "account option" attempt_error

text \<open>The scheduler asks the selector until it names an account, fails, or the wait ends.\<close>

fun lease_account ::
    "round_env \<Rightarrow> selector \<Rightarrow> session_selection option \<Rightarrow> (string \<Rightarrow> bool) list \<Rightarrow> routing_state \<Rightarrow>
     (attempt_error + account option) \<times> session_selection option \<times> routing_state" where
  "lease_account rd sl sel [] s = (Inl (rd_wait rd), sel, s)"
| "lease_account rd sl sel (busy # bs) s =
    (case select_account (rd_env rd) (rd_now rd) (rd_draw rd) busy sl sel s of
       (Chosen a, sl', sel', s') \<Rightarrow> (Inr (Get (rs_pool s') (ac_UID a)), sel', s')
     | (ChoiceError e, sl', sel', s') \<Rightarrow> (Inl (EApi e), sel', s')
     | (ChoicePanic, sl', sel', s') \<Rightarrow> (Inl EPanic, sel', s')
     | (NoneNow, sl', sel', s') \<Rightarrow> lease_account rd sl' sel' bs s')"

definition choose_directly ::
    "round_env \<Rightarrow> selector \<Rightarrow> session_selection option \<Rightarrow> routing_state \<Rightarrow>
     (attempt_error + account option) \<times> session_selection option \<times> routing_state" where
  "choose_directly rd sl sel s =
    (case select_account (rd_env rd) (rd_now rd) (rd_draw rd) (\<lambda>_. False) sl sel s of
       (Chosen a, sl', sel', s') \<Rightarrow> (Inr (Some a), sel', s')
     | (ChoiceError e, sl', sel', s') \<Rightarrow> (Inl (EApi e), sel', s')
     | (ChoicePanic, sl', sel', s') \<Rightarrow> (Inl EPanic, sel', s')
     | (NoneNow, sl', sel', s') \<Rightarrow> (Inr None, sel', s'))"

definition msg_account_unavailable :: string where
  "msg_account_unavailable =
    bytes [0xE8, 0xB4, 0xA6, 0xE5, 0x8F, 0xB7, 0xE6, 0x9A, 0x82, 0xE4, 0xB8, 0x8D, 0xE5,
        0x8F, 0xAF, 0xE7, 0x94, 0xA8]"

definition msg_ownership_changed :: string where
  "msg_ownership_changed =
    bytes [0xE8, 0xB4, 0xA6, 0xE5, 0x8F, 0xB7, 0xE4, 0xBD, 0xBF, 0xE7, 0x94, 0xA8, 0xE8,
        0x8C, 0x83, 0xE5, 0x9B, 0xB4, 0xE5, 0xB7, 0xB2, 0xE5, 0x8F, 0x98, 0xE6, 0x9B,
        0xB4, 0xEF, 0xBC, 0x8C, 0xE8, 0xAF, 0xB7, 0xE9, 0x87, 0x8D, 0xE6, 0x96, 0xB0,
        0xE8, 0xAF, 0xB7, 0xE6, 0xB1, 0x82]"

definition msg_routing_changed :: string where
  "msg_routing_changed =
    bytes [0xE4, 0xBC, 0x9A, 0xE8, 0xAF, 0x9D, 0xE8, 0xB4, 0xA6, 0xE5, 0x8F, 0xB7, 0xE8,
        0xB0, 0x83, 0xE6, 0x95, 0xB4, 0xE9, 0xA2, 0x91, 0xE7, 0xB9, 0x81, 0xEF, 0xBC,
        0x8C, 0xE8, 0xAF, 0xB7, 0xE9, 0x87, 0x8D, 0xE8, 0xAF, 0x95]"

definition manual_action :: "session_selection \<Rightarrow> bool" where
  "manual_action sel = (ss_Action sel = ''switch'' \<or> ss_Action sel = ''reselect'')"

definition reject_selection :: "session_selection \<Rightarrow> routing_state \<Rightarrow> routing_state" where
  "reject_selection sel s = s\<lparr>rs_sessions := Reject (ss_Key sel) (ss_Version sel) None (rs_sessions s)\<rparr>"

definition reject_manual :: "session_selection \<Rightarrow> routing_state \<Rightarrow> routing_state" where
  "reject_manual sel s = (if manual_action sel then reject_selection sel s else s)"

definition private_again :: "failover_cfg \<Rightarrow> route_env \<Rightarrow> string \<Rightarrow> api_error option \<times> bool" where
  "private_again cfg env uid =
    (if fc_scope cfg \<noteq> None then (None, False)
     else case re_excluded env of
            None \<Rightarrow> (Some (errBody 503 msg_permission_query ''server_error''), False)
          | Some excluded \<Rightarrow>
              if uid \<in> set excluded then (Some (errBody 403 msg_ownership_changed ''permission_error''), True)
              else (None, False))"

definition routing_error :: "account \<Rightarrow> round_result" where
  "routing_error acc = RoundError (Some acc) (EApi (errBody 503 msg_routing_changed ''session_routing_changed''))"

text \<open>What follows the choice: ownership, the caller's check, the price of a manual choice, the commit.\<close>

definition settle_selection ::
    "failover_cfg \<Rightarrow> round_env \<Rightarrow> nat \<Rightarrow> account \<Rightarrow> session_selection \<Rightarrow> routing_state \<Rightarrow>
     round_result \<times> routing_state" where
  "settle_selection cfg rd retry acc sel s =
    (case private_again cfg (rd_after rd) (ac_UID acc) of
       (Some e, moved) \<Rightarrow>
         (RoundError (Some acc) (EApi e), if moved then reject_manual sel s else s)
     | (None, _) \<Rightarrow>
         (case rd_check rd of
            Some e \<Rightarrow> (RoundError (Some acc) e, reject_manual sel s)
          | None \<Rightarrow>
              let fresh = ModelCostByUID (rd_after rd) (fc_model cfg)
                     (\<lambda>u. u = ss_Baseline sel \<or> u = ss_Target sel) s
              in if manual_action sel \<and>
                    \<not> no_dearer (cost_of fresh (ss_Baseline sel)) (cost_of fresh (ss_Target sel))
                 then (if 3 \<le> retry then routing_error acc else RoundAgain acc, reject_selection sel s)
                 else
                   (case Commit (rd_now rd) (Some sel) (ac_UID acc) (rs_sessions s) of
                      (True, ses) \<Rightarrow> (RoundAccount acc, s\<lparr>rs_sessions := ses\<rparr>)
                    | (False, ses) \<Rightarrow>
                        (if 3 \<le> retry then routing_error acc else RoundAgain acc, s\<lparr>rs_sessions := ses\<rparr>))))"

definition selection_round ::
    "failover_cfg \<Rightarrow> round_env \<Rightarrow> nat \<Rightarrow> account \<Rightarrow> string list \<Rightarrow> routing_state \<Rightarrow>
     round_result \<times> routing_state" where
  "selection_round cfg rd retry acc tried s =
    (case AccountSelector (rd_env rd) (fc_model cfg) (ac_UID acc) tried (fc_scope cfg) s of
       Inl e \<Rightarrow> (RoundError (Some acc) (EApi e), s)
     | Inr sl \<Rightarrow>
         let sel0 = Some \<lparr>ss_Key = fc_key cfg, ss_Version = 0, ss_Action = [], ss_Target = [],
                ss_Baseline = [], ss_Call = fc_call cfg\<rparr>
         in case (if fc_leased cfg then lease_account rd sl sel0 (rd_busy rd) s
                  else choose_directly rd sl sel0 s) of
              (Inl e, sel, s1) \<Rightarrow> (RoundError (Some acc) e, s1)
            | (Inr None, sel, s1) \<Rightarrow>
                (if \<not> fc_leased cfg \<and> retry < 3 then RoundAgain acc
                 else RoundError None (EApi (errBody 503 msg_account_unavailable ''model_unavailable'')), s1)
            | (Inr (Some a), sel, s1) \<Rightarrow>
                (case sel of
                   None \<Rightarrow> (RoundError (Some a) EPanic, s1)
                 | Some sel \<Rightarrow> settle_selection cfg rd retry a sel s1))"

text \<open>The rounds, with fuel; None is a loop that has not ended.\<close>

fun selection_rounds ::
    "nat \<Rightarrow> failover_cfg \<Rightarrow> (nat \<Rightarrow> round_env) \<Rightarrow> nat \<Rightarrow> account \<Rightarrow> string list \<Rightarrow> routing_state \<Rightarrow>
     (round_result \<times> routing_state) option" where
  "selection_rounds 0 cfg rds retry acc tried s = None"
| "selection_rounds (Suc n) cfg rds retry acc tried s =
    (case selection_round cfg (rds retry) retry acc tried s of
       (RoundAgain acc', s') \<Rightarrow> selection_rounds n cfg rds (Suc retry) acc' tried s'
     | r \<Rightarrow> Some r)"

subsection \<open>One attempt\<close>

record attempt_env =
  at_env :: route_env
  at_now :: f64
  at_draw :: f64
  at_rounds :: "nat \<Rightarrow> round_env"
  at_pre :: "attempt_error option"
  at_send1 :: send_event
  at_send2 :: send_event
  at_done :: bool
  at_current :: bool

text \<open>The variables of the loop.\<close>

record failover_state =
  fs_routing :: routing_state
  fs_account :: account
  fs_body :: json_object
  fs_remaining :: nat
  fs_sent :: "(string \<times> bool) list"
  fs_tried :: "string list"
  fs_compatTries :: nat
  fs_compatUID :: string
  fs_compatLevel :: int
  fs_requestLevel :: int
  fs_imageStage :: nat

definition maxFailoverAttempts :: nat where "maxFailoverAttempts = 5"

definition max_level :: "failover_cfg \<Rightarrow> int" where
  "max_level cfg = (if fc_metadata cfg then 2 else 1)"

definition compatible_body :: "failover_cfg \<Rightarrow> json_object \<Rightarrow> int \<Rightarrow> json_object \<times> bool" where
  "compatible_body cfg body level = ChannelCompatibilityBody (fc_templates cfg) body level"

text \<open>
  The fingerprint of the request. The source computes it once, from the body before any image was
  repaired, which is the original one.
\<close>

definition fingerprint_of :: "failover_cfg \<Rightarrow> string" where
  "fingerprint_of cfg = fc_fingerprint cfg (fst (compatible_body cfg (fc_body cfg) 2))"

text \<open>The body of the attempt and its compatibility level.\<close>

definition attempt_body :: "failover_cfg \<Rightarrow> failover_state \<Rightarrow> json_object \<times> int" where
  "attempt_body cfg st =
    (if \<not> fc_identity cfg then (fs_body st, 0)
     else
       let uid = ac_UID (fs_account st);
           ses = rs_sessions (fs_routing st);
           level = max (Compatibility (fc_key cfg) uid (max_level cfg) (fingerprint_of cfg) ses ses)
                     (fs_requestLevel st);
           level = (if uid = fs_compatUID st then fs_compatLevel st else level)
       in if level \<le> 0 then (fs_body st, level)
          else case compatible_body cfg (fs_body st) level of
                 (b, matched) \<Rightarrow> if matched then (b, level) else (fs_body st, 0))"

text \<open>What the router and the pool record of the attempt's outcome before the loop decides.\<close>

definition record_outcome ::
    "failover_cfg \<Rightarrow> err_env \<Rightarrow> int \<Rightarrow> string \<Rightarrow> bool \<Rightarrow> attempt_error option \<Rightarrow> routing_state \<Rightarrow>
     routing_state" where
  "record_outcome cfg env level uid started err s =
    (let r0 = rs_sessions s;
         r1 = (if err = None
               then RememberCompatibility (fc_key cfg) uid
                      (if fc_key cfg \<noteq> [] \<and> 0 < level then fingerprint_of cfg else []) level r0
               else r0);
         denied = (case err of Some (EUpstream ue) \<Rightarrow> IsChannelDenied env (ue_StatusCode ue) (ue_Raw ue) | _ \<Rightarrow> False);
         r2 = (if denied \<and> started then UnbindMatching (fc_key cfg) uid r1 else r1)
     in s\<lparr>rs_sessions := Outcome (fc_call cfg) uid (err = None) r2\<rparr>)"

definition soften :: "f64 \<Rightarrow> string \<Rightarrow> attempt_error \<Rightarrow> routing_state \<Rightarrow> routing_state" where
  "soften now uid e s =
    (if e = ELocalNetwork then s
     else s\<lparr>rs_pool := fst (onFailure now uid CooldownSoft False (rs_pool s))\<rparr>)"

text \<open>Errors that end the request as they are.\<close>

definition final_error :: "bool \<Rightarrow> attempt_error \<Rightarrow> bool" where
  "final_error done e =
    (e = ETooLarge \<or> done \<or> e = ECancelled \<or>
     (case e of EApi ae \<Rightarrow> ae_Status ae \<in> {429, 401, 403} | _ \<Rightarrow> False))"

definition untry :: "string \<Rightarrow> failover_state \<Rightarrow> failover_state" where
  "untry uid st = st\<lparr>fs_tried := filter (\<lambda>u. u \<noteq> uid) (fs_tried st)\<rparr>"

text \<open>
  The recovery of a rejected image: the new state, and whether the request is sent again. The stage
  moves on also where nothing could be changed.
\<close>

definition image_recovery ::
    "failover_cfg \<Rightarrow> err_env \<Rightarrow> nat \<Rightarrow> int \<Rightarrow> upstream_error \<Rightarrow> failover_state \<Rightarrow> failover_state \<times> bool" where
  "image_recovery cfg env attempt level ue st =
    (if 2 \<le> fs_imageStage st \<or> ue_StatusCode ue \<noteq> 400 \<or> \<not> BusinessCode env (ue_Raw ue) [''11135''] \<or>
        maxFailoverAttempts \<le> attempt + 1 \<or> fs_remaining st < 1
     then (st, False)
     else
       let (reduced1, n1, stage1) =
             (if fs_imageStage st = 0 \<and> attempt + 2 < maxFailoverAttempts \<and> 2 \<le> fs_remaining st
              then (case locallyCompatibleImages env (fc_media cfg) (fs_body st) (ue_Raw ue) of
                      (b, fixed, removed) \<Rightarrow> (b, fixed + removed, 1))
              else (fs_body st, 0, fs_imageStage st));
           (reduced, n, stage) =
             (if n1 = 0 then (case withoutRequestImages (fs_body st) of (b, removed) \<Rightarrow> (b, removed, 2))
              else (reduced1, n1, stage1));
           st = st\<lparr>fs_imageStage := stage\<rparr>
       in if n = 0 then (st, False)
          else (untry (ac_UID (fs_account st))
                  (st\<lparr>fs_body := reduced, fs_compatUID := ac_UID (fs_account st), fs_compatLevel := level\<rparr>), True))"

text \<open>The levels above the one that was rejected, the lowest that changes the body.\<close>

definition next_level :: "failover_cfg \<Rightarrow> json_object \<Rightarrow> int \<Rightarrow> int option" where
  "next_level cfg body level =
    List.find (\<lambda>l. snd (compatible_body cfg body l)) [level + 1..max_level cfg]"

text \<open>The recovery of a denied channel: the same account once more under the next level.\<close>

definition compat_recovery :: "failover_cfg \<Rightarrow> nat \<Rightarrow> int \<Rightarrow> failover_state \<Rightarrow> failover_state \<times> bool" where
  "compat_recovery cfg attempt level st =
    (let st = st\<lparr>fs_requestLevel := max (fs_requestLevel st) level\<rparr>
     in if \<not> fc_identity cfg \<or> 2 \<le> fs_compatTries st \<or> maxFailoverAttempts \<le> attempt + 1 \<or> fs_remaining st < 1
        then (st, False)
        else case next_level cfg (fs_body st) level of
               None \<Rightarrow> (st, False)
             | Some l \<Rightarrow>
                 (untry (ac_UID (fs_account st))
                    (st\<lparr>fs_compatUID := ac_UID (fs_account st), fs_compatLevel := l,
                        fs_requestLevel := max (fs_requestLevel st) l, fs_compatTries := fs_compatTries st + 1\<rparr>),
                  ac_UID (fs_account st) \<noteq> []))"

datatype attempt_result = Finished "account option" "attempt_error option" | Retry

text \<open>The penalty and the change to another account.\<close>

definition rotate_account ::
    "failover_cfg \<Rightarrow> attempt_env \<Rightarrow> nat \<Rightarrow> upstream_error \<Rightarrow> failover_state \<Rightarrow> attempt_result \<times> failover_state" where
  "rotate_account cfg ae attempt ue st =
    (let acc = fs_account st; uid = ac_UID acc; give_up = Finished (Some acc) (Some (EUpstream ue))
     in case penalizeAccount (at_env ae) (at_now ae) (at_draw ae) (at_current ae) uid (fc_model cfg) ue (fs_routing st) of
          (act, s1, check) \<Rightarrow>
            if ea_FailFast act \<or> \<not> ea_Rotate act then (give_up, st\<lparr>fs_routing := s1\<rparr>)
            else
              let s2 = (if fc_key cfg \<noteq> []
                    then s1\<lparr>rs_sessions := UnbindMatching (fc_key cfg) uid (rs_sessions s1)\<rparr> else s1)
              in if maxFailoverAttempts \<le> attempt + 1 \<or> fs_remaining st < 1 then (give_up, st\<lparr>fs_routing := s2\<rparr>)
                 else case PickAccountExcludingIn (at_env ae) (at_now ae) (at_draw ae) (fc_model cfg) (fc_key cfg)
                             (fs_tried st) (fc_scope cfg) s2 of
                        (Routed alt, s3) \<Rightarrow> (Retry, st\<lparr>fs_routing := s3, fs_account := alt\<rparr>)
                      | (Refused e, s3) \<Rightarrow> (give_up, st\<lparr>fs_routing := s3\<rparr>)
                      | (RoutePanic, s3) \<Rightarrow> (Finished (Some acc) (Some EPanic), st\<lparr>fs_routing := s3\<rparr>))"

definition after_failure ::
    "failover_cfg \<Rightarrow> attempt_env \<Rightarrow> nat \<Rightarrow> int \<Rightarrow> bool \<Rightarrow> attempt_error \<Rightarrow> failover_state \<Rightarrow>
     attempt_result \<times> failover_state" where
  "after_failure cfg ae attempt level started e st =
    (let acc = fs_account st; uid = ac_UID acc; env = re_err (at_env ae); stop = Finished (Some acc) (Some e)
     in if final_error (at_done ae) e then (stop, st)
        else
          case is_upstream e of
            None \<Rightarrow> (stop, st\<lparr>fs_routing := soften (at_now ae) uid e (fs_routing st)\<rparr>)
          | Some ue \<Rightarrow>
              let denied = IsChannelDenied env (ue_StatusCode ue) (ue_Raw ue)
              in if started then
                   (if denied \<or> ClassifyUpstream env (ue_StatusCode ue) (ue_Raw ue) = ErrImageInvalid then (stop, st)
                    else (stop, st\<lparr>fs_routing := soften (at_now ae) uid e (fs_routing st)\<rparr>))
                 else
                   case image_recovery cfg env attempt level ue st of
                     (st1, True) \<Rightarrow> (Retry, st1)
                   | (st1, False) \<Rightarrow>
                       if \<not> denied then rotate_account cfg ae attempt ue st1
                       else case compat_recovery cfg attempt level st1 of
                              (st2, True) \<Rightarrow> (Retry, st2)
                            | (st2, False) \<Rightarrow> rotate_account cfg ae attempt ue st2)"

definition msg_not_callable :: string where
  "msg_not_callable =
    bytes [0xE8, 0xB4, 0xA6, 0xE5, 0x8F, 0xB7, 0xE5, 0xBD, 0x93, 0xE5, 0x89, 0x8D, 0xE6,
        0x97, 0xA0, 0xE6, 0xB3, 0x95, 0xE8, 0xB0, 0x83, 0xE7, 0x94, 0xA8, 0xE6, 0xAD,
        0xA4, 0xE6, 0xA8, 0xA1, 0xE5, 0x9E, 0x8B, 0xEF, 0xBC, 0x8C, 0xE8, 0xAF, 0xB7,
        0xE5, 0x88, 0xB7, 0xE6, 0x96, 0xB0, 0xE8, 0xB4, 0xA6, 0xE5, 0x8F, 0xB7, 0xE6,
        0x88, 0x96, 0xE6, 0xA8, 0xA1, 0xE5, 0x9E, 0x8B, 0xE7, 0x8A, 0xB6, 0xE6, 0x80,
        0x81, 0xE5, 0x90, 0x8E, 0xE9, 0x87, 0x8D, 0xE8, 0xAF, 0x95]"

definition phase_call :: "failover_cfg \<Rightarrow> f64 \<Rightarrow> bool \<Rightarrow> routing_state \<Rightarrow> routing_state" where
  "phase_call cfg now running s =
    (case fc_call cfg of None \<Rightarrow> s | Some c \<Rightarrow> s\<lparr>rs_sessions := Phase now c running (rs_sessions s)\<rparr>)"

text \<open>The account of the attempt: selected anew when the request is leased or tracked.\<close>

definition attempt_account ::
    "failover_cfg \<Rightarrow> attempt_env \<Rightarrow> failover_state \<Rightarrow> round_result \<times> routing_state" where
  "attempt_account cfg ae st =
    (let s = phase_call cfg (at_now ae) False (fs_routing st)
     in if \<not> fc_leased cfg \<and> fc_call cfg = None then (RoundAccount (fs_account st), s)
        else case selection_rounds 4 cfg (at_rounds ae) 0 (fs_account st) (fs_tried st) s of
               None \<Rightarrow> (RoundError None EPanic, s)
             | Some (RoundAccount a, s') \<Rightarrow>
                 (RoundAccount a, if fc_call cfg = None then bind_session (at_now ae) (fc_key cfg) (ac_UID a) s' else s')
             | Some r \<Rightarrow> r)"

text \<open>The attempt proper: the body, the sends, the outcome.\<close>

definition run_attempt ::
    "failover_cfg \<Rightarrow> attempt_env \<Rightarrow> nat \<Rightarrow> failover_state \<Rightarrow> attempt_result \<times> failover_state" where
  "run_attempt cfg ae attempt st =
    (let acc = fs_account st; uid = ac_UID acc;
         s = phase_call cfg (at_now ae) True (fs_routing st);
         st = st\<lparr>fs_routing := s, fs_tried := (if uid \<in> set (fs_tried st) then fs_tried st else fs_tried st @ [uid])\<rparr>;
         level = snd (attempt_body cfg st);
         st = st\<lparr>fs_compatUID := [], fs_compatLevel := 0\<rparr>
     in case run_once uid (fc_call cfg) (at_pre ae) (at_send1 ae) (at_send2 ae)
             \<lparr>sn_remaining = fs_remaining st, sn_sent = fs_sent st, sn_routing = fs_routing st\<rparr> of
          ((started, err), sn) \<Rightarrow>
            let st = st\<lparr>fs_remaining := sn_remaining sn, fs_sent := sn_sent sn,
                  fs_routing := record_outcome cfg (re_err (at_env ae)) level uid started err (sn_routing sn)\<rparr>
            in case err of
                 None \<Rightarrow> (Finished (Some acc) None, st)
               | Some e \<Rightarrow> after_failure cfg ae attempt level started e st)"

definition attempt_step ::
    "failover_cfg \<Rightarrow> attempt_env \<Rightarrow> nat \<Rightarrow> failover_state \<Rightarrow> attempt_result \<times> failover_state" where
  "attempt_step cfg ae attempt st =
    (case attempt_account cfg ae st of
       (RoundError a e, s) \<Rightarrow> (Finished a (Some e), st\<lparr>fs_routing := s\<rparr>)
     | (RoundAgain a, s) \<Rightarrow> (Finished (Some a) (Some EPanic), st\<lparr>fs_routing := s\<rparr>)
     | (RoundAccount a, s) \<Rightarrow>
         let live = (case Get (rs_pool s) (ac_UID a) of None \<Rightarrow> a | Some b \<Rightarrow> b);
             st = st\<lparr>fs_routing := s, fs_account := a\<rparr>
         in if \<not> ModelCallable (at_env ae) (fc_model cfg) live
            then (Finished (Some a) (Some (EApi (errBody 503 msg_not_callable ''model_unavailable''))), st)
            else run_attempt cfg ae attempt st)"

subsection \<open>The loop\<close>

text \<open>With fuel; None is a loop that has not ended.\<close>

fun failover_loop ::
    "nat \<Rightarrow> failover_cfg \<Rightarrow> (nat \<Rightarrow> attempt_env) \<Rightarrow> nat \<Rightarrow> failover_state \<Rightarrow>
     (account option \<times> attempt_error option \<times> failover_state) option" where
  "failover_loop 0 cfg envs attempt st = None"
| "failover_loop (Suc n) cfg envs attempt st =
    (case attempt_step cfg (envs attempt) attempt st of
       (Finished a err, st') \<Rightarrow> Some (a, err, st')
     | (Retry, st') \<Rightarrow> failover_loop n cfg envs (Suc attempt) st')"

definition masked_raw :: string where
  "masked_raw =
    ''{'' @ bytes [0x22] @ ''error'' @ bytes [0x22] @ '':{'' @ bytes [0x22] @ ''message'' @
        bytes [0x22] @ '':'' @ bytes [0x22, 0xE5, 0x85, 0xB1, 0xE4, 0xBA, 0xAB, 0xE4,
        0xB8, 0x8A, 0xE6, 0xB8, 0xB8, 0xE6, 0x9A, 0x82, 0xE4, 0xB8, 0x8D, 0xE5, 0x8F,
        0xAF, 0xE7, 0x94, 0xA8, 0xEF, 0xBC, 0x8C, 0xE8, 0xAF, 0xB7, 0xE7, 0xA8, 0x8D,
        0xE5, 0x90, 0x8E, 0xE9, 0x87, 0x8D, 0xE8, 0xAF, 0x95, 0x22] @ '','' @ bytes
        [0x22] @ ''type'' @ bytes [0x22] @ '':'' @ bytes [0x22] @ ''upstream_error'' @
        bytes [0x22] @ ''}}''"

definition masked_denied :: string where
  "masked_denied =
    ''{'' @ bytes [0x22] @ ''code'' @ bytes [0x22] @ '':11128,'' @ bytes [0x22] @ ''error''
        @ bytes [0x22] @ '':{'' @ bytes [0x22] @ ''message'' @ bytes [0x22] @ '':'' @
        bytes [0x22, 0xE4, 0xB8, 0x8A, 0xE6, 0xB8, 0xB8, 0xE6, 0x9C, 0xAA, 0xE6, 0x8E,
        0xA5, 0xE5, 0x8F, 0x97, 0xE6, 0x9C, 0xAC, 0xE6, 0xAC, 0xA1, 0xE8, 0xAF, 0xB7,
        0xE6, 0xB1, 0x82, 0xEF, 0xBC, 0x8C, 0xE5, 0x85, 0xBC, 0xE5, 0xAE, 0xB9, 0xE6,
        0x81, 0xA2, 0xE5, 0xA4, 0x8D, 0xE6, 0x9C, 0xAA, 0xE6, 0x88, 0x90, 0xE5, 0x8A,
        0x9F, 0xEF, 0xBC, 0x8C, 0xE8, 0xAF, 0xB7, 0xE8, 0xB0, 0x83, 0xE6, 0x95, 0xB4,
        0xE8, 0xAF, 0xB7, 0xE6, 0xB1, 0x82, 0xE6, 0x88, 0x96, 0xE7, 0xA8, 0x8D, 0xE5,
        0x90, 0x8E, 0xE9, 0x87, 0x8D, 0xE8, 0xAF, 0x95, 0x22] @ '','' @ bytes [0x22] @
        ''type'' @ bytes [0x22] @ '':'' @ bytes [0x22] @ ''channel_rejected'' @ bytes
        [0x22] @ '','' @ bytes [0x22] @ ''code'' @ bytes [0x22] @ '':11128}}''"

text \<open>Portal callers never see the body of an upstream error.\<close>

definition mask_error :: "err_env \<Rightarrow> (string \<Rightarrow> bool) option \<Rightarrow> attempt_error option \<Rightarrow> attempt_error option" where
  "mask_error env scope err =
    (case (scope, err) of
       (Some _, Some (EUpstream ue)) \<Rightarrow>
         Some (EUpstream (ue\<lparr>ue_Raw :=
           (if IsChannelDenied env (ue_StatusCode ue) (ue_Raw ue) then masked_denied else masked_raw)\<rparr>))
     | _ \<Rightarrow> err)"

definition start_state :: "failover_cfg \<Rightarrow> account \<Rightarrow> routing_state \<Rightarrow> failover_state" where
  "start_state cfg acc s = \<lparr>fs_routing = s, fs_account = acc, fs_body = fc_body cfg,
     fs_remaining = maxFailoverAttempts, fs_sent = [], fs_tried = [], fs_compatTries = 0,
     fs_compatUID = [], fs_compatLevel = 0, fs_requestLevel = 0, fs_imageStage = 0\<rparr>"

definition OpenUpstreamScoped ::
    "nat \<Rightarrow> failover_cfg \<Rightarrow> err_env \<Rightarrow> (nat \<Rightarrow> attempt_env) \<Rightarrow> account \<Rightarrow> routing_state \<Rightarrow>
     (account option \<times> attempt_error option \<times> failover_state) option" where
  "OpenUpstreamScoped fuel cfg env envs acc s =
    (case failover_loop fuel cfg envs 0 (start_state cfg acc s) of
       None \<Rightarrow> None
     | Some (a, err, st) \<Rightarrow> Some (a, mask_error env (fc_scope cfg) err, st))"

end
