(* ===== verification/RoutingProps.thy ===== *)
theory RoutingProps
  imports Routing SessionProps
begin

text \<open>
  What the choice of an account keeps: the scope of the caller, the accounts already tried, the
  authorization and the model cooldowns of the candidates, the price limits of a control, and what
  a failed attempt may cost an account.
\<close>

subsection \<open>The pool's part\<close>

lemma Get_account: "Get p u = Some a \<Longrightarrow> a \<in> set (p_accounts p) \<and> ac_UID a = u"
  unfolding Get_def by (rule find_Some_prop)

lemma soonest_member:
  "soonest ok as = Some a \<Longrightarrow> a \<in> set as \<and> ok a"
proof -
  have "foldl (\<lambda>(best, ex) a. if ok a \<and> flt (ac_CooldownUntil a) ex then (Some a, ac_CooldownUntil a) else (best, ex))
      (best, ex) as = (Some a, e) \<Longrightarrow> best = Some a \<or> a \<in> set as \<and> ok a" for best ex e
  proof (induction as arbitrary: best ex)
    case (Cons b as)
    show ?case
    proof (cases "ok b \<and> flt (ac_CooldownUntil b) ex")
      case True
      with Cons.IH [of "Some b" "ac_CooldownUntil b"] Cons.prems show ?thesis by auto
    next
      case False
      with Cons.IH [of best ex] Cons.prems show ?thesis by auto
    qed
  qed simp
  then show "soonest ok as = Some a \<Longrightarrow> a \<in> set as \<and> ok a"
    by (cases "foldl (\<lambda>(best, ex) a. if ok a \<and> flt (ac_CooldownUntil a) ex then (Some a, ac_CooldownUntil a) else (best, ex))
      (None, PInf) as") (force simp: soonest_def)
qed

lemma PickFor_member:
  assumes "PickFor now draw allowed costs w free p = (p', Picked b)"
  shows "\<exists>a \<in> set (p_accounts p). b = a\<lparr>ac_LastUsed := now\<rparr> \<and> permitted allowed a \<and> CallableFor (free (ac_UID a)) a"
proof -
  define cs where "cs = filter (\<lambda>a. permitted allowed a \<and> HealthyFor now (free (ac_UID a)) a) (p_accounts p)"
  define off where "off = (\<lambda>a. permitted allowed a \<and> CallableFor (free (ac_UID a)) a)"
  note pick = assms [unfolded PickFor_def Let_def, folded cs_def off_def]
  have "\<exists>a \<in> set (p_accounts p). b = a\<lparr>ac_LastUsed := now\<rparr> \<and> off a"
  proof (cases "cs = []")
    case True
    with pick obtain a where "soonest off (p_accounts p) = Some a" "b = a\<lparr>ac_LastUsed := now\<rparr>"
      by (cases "soonest off (p_accounts p)") auto
    with soonest_member show ?thesis by blast
  next
    case False
    with pick obtain uid a where a: "List.find (\<lambda>x. ac_UID x = uid) cs = Some a" "b = a\<lparr>ac_LastUsed := now\<rparr>"
      by (auto split: option.splits)
    from find_Some_prop [OF a(1)] a(2) show ?thesis by (auto simp: cs_def off_def HealthyFor_def)
  qed
  then show ?thesis by (simp add: off_def)
qed

lemma pickModel_member:
  assumes "pickModel env now draw model is_ready costs w s = (Picked b, s')"
  shows "is_ready (ac_UID b) \<and> \<not> re_invalid env (ac_UID b) \<and> rs_cooldowns s' = rs_cooldowns s"
  using assms PickFor_member by (fastforce simp: pickModel_def permitted_def Let_def split: prod.splits)

lemma domestic_pick_member:
  "domestic_pick env now draw model is_ready costs w minimum as s = (Picked b, s') \<Longrightarrow>
   is_ready (ac_UID b) \<and> \<not> re_invalid env (ac_UID b)"
proof (induction as arbitrary: s)
  case (Cons a as)
  show ?case
  proof (cases "pickModel env now draw model is_ready costs w s")
    case (Pair r s2)
    with Cons.prems Cons.IH [of s] Cons.IH [of s2] pickModel_member [of env now draw model is_ready costs w s b s2]
    show ?thesis by (cases r) (auto split: if_splits option.splits)
  qed
qed simp

lemma PreferDomestic_member:
  assumes "PreferDomesticSession env now draw model key a is_ready costs w s = (Picked b, s')"
    "is_ready (ac_UID a)" "\<not> re_invalid env (ac_UID a)"
  shows "is_ready (ac_UID b) \<and> \<not> re_invalid env (ac_UID b)"
proof (cases "domestic_pick env now draw model is_ready costs w
    (minimum_cost env now model is_ready costs (p_accounts (rs_pool s))) (p_accounts (rs_pool s)) s")
  case (Pair r s2)
  with assms domestic_pick_member [of env now draw model is_ready costs w _ "p_accounts (rs_pool s)" s b s2]
  show ?thesis
    by (cases r) (auto simp: PreferDomesticSession_def Let_def split: if_splits option.splits)
qed

subsection \<open>Model cooldowns\<close>

text \<open>No cooldown of the account for the model runs at \<open>now\<close>.\<close>

definition cooled :: "f64 \<Rightarrow> string \<Rightarrow> routing_state \<Rightarrow> string \<Rightarrow> bool" where
  "cooled now model s uid =
    (case map_of (rs_cooldowns s) (cooldown_key uid model) of None \<Rightarrow> True | Some (until, reason) \<Rightarrow> fle until now)"

text \<open>States that differ only in model cooldowns that have passed.\<close>

definition lapses :: "f64 \<Rightarrow> routing_state \<Rightarrow> routing_state \<Rightarrow> bool" where
  "lapses now s s' =
    (rs_pool s' = rs_pool s \<and> rs_sessions s' = rs_sessions s \<and>
     (\<forall>k. map_of (rs_cooldowns s') k = map_of (rs_cooldowns s) k \<or>
        map_of (rs_cooldowns s') k = None \<and>
        (\<exists>until reason. map_of (rs_cooldowns s) k = Some (until, reason) \<and> fle until now)))"

lemma lapses_refl: "lapses now s s"
  by (simp add: lapses_def)

lemma lapses_trans: "lapses now s t \<Longrightarrow> lapses now t u \<Longrightarrow> lapses now s u"
  unfolding lapses_def by metis

lemma cooled_lapses: "lapses now s t \<Longrightarrow> cooled now model t uid \<Longrightarrow> cooled now model s uid"
proof -
  assume l: "lapses now s t" and c: "cooled now model t uid"
  let ?k = "cooldown_key uid model"
  from l have "map_of (rs_cooldowns t) ?k = map_of (rs_cooldowns s) ?k \<or>
      (\<exists>until reason. map_of (rs_cooldowns s) ?k = Some (until, reason) \<and> fle until now)"
    unfolding lapses_def by blast
  with c show "cooled now model s uid" by (auto simp: cooled_def)
qed

lemma ModelCooldown_lapses:
  assumes "ModelCooldownUntil now uid model s = (until, s')"
  shows "lapses now s s'" "fle until now \<Longrightarrow> cooled now model s uid"
  using assms
  by (auto simp: ModelCooldownUntil_def lapses_def cooled_def delete_conv split: option.splits if_splits)

lemma scan_ready_ok:
  assumes "scan_ready now model skip allowed s = (n, ready, s')"
  shows "lapses now s s' \<and> (\<forall>u \<in> set ready. u \<in> set allowed \<and> \<not> skip u \<and> cooled now model s u)"
proof -
  let ?f = "\<lambda>(n, ready, s) uid. if skip uid then (n, ready, s)
      else case ModelCooldownUntil now uid model s of
             (until, s') \<Rightarrow> (n + 1, if fle until now then ready @ [uid] else ready, s')"
  have "foldl ?f (n0, ready0, t) us = (n, ready, s') \<Longrightarrow> lapses now s t \<Longrightarrow>
      (\<forall>u \<in> set ready0. P u \<and> \<not> skip u \<and> cooled now model s u) \<Longrightarrow> (\<forall>u \<in> set us. P u) \<Longrightarrow>
      lapses now s s' \<and> (\<forall>u \<in> set ready. P u \<and> \<not> skip u \<and> cooled now model s u)"
    for n0 :: nat and ready0 t us P
  proof (induction us arbitrary: n0 ready0 t)
    case (Cons u us)
    obtain until t' where c: "ModelCooldownUntil now u model t = (until, t')" by fastforce
    show ?case
    proof (cases "skip u")
      case True
      with Cons.IH [of n0 ready0 t] Cons.prems show ?thesis by simp
    next
      case False
      have l: "lapses now s t'" using ModelCooldown_lapses(1) [OF c] Cons.prems(2) lapses_trans by blast
      have "fle until now \<Longrightarrow> cooled now model s u"
        using ModelCooldown_lapses(2) [OF c] cooled_lapses [OF Cons.prems(2)] by blast
      then have r: "\<forall>v \<in> set (if fle until now then ready0 @ [u] else ready0). P v \<and> \<not> skip v \<and> cooled now model s v"
        using Cons.prems(3,4) False by simp
      have "foldl ?f (n0 + 1, if fle until now then ready0 @ [u] else ready0, t') us = (n, ready, s')"
        using Cons.prems(1) False c by simp
      from Cons.IH [OF this l r] Cons.prems(4) show ?thesis by simp
    qed
  qed simp
  note fold = this
  show ?thesis
    by (rule fold [OF assms [unfolded scan_ready_def] lapses_refl]) simp_all
qed

subsection \<open>Picks\<close>

lemma sticky_member:
  assumes "sticky_account env now draw model key keep ready s = (Some (Picked b), s')"
  shows "ac_UID b \<in> set ready \<and> \<not> re_invalid env (ac_UID b)"
proof -
  obtain uid ses where l: "Lookup now key (rs_sessions s) = (uid, ses)" by fastforce
  define s1 where "s1 = s\<lparr>rs_sessions := ses\<rparr>"
  from assms l obtain a r s2 where a: "Get (rs_pool s1) uid = Some a" "uid \<in> set ready" "ModelCallable env model a"
    "PreferDomesticSession env now draw model key a (\<lambda>u. u \<in> set ready)
       (ModelCostByUID env model (\<lambda>u. u \<in> set ready) s1) (ExpiryWindowDays env) s1 = (Picked b, s2)"
    by (auto simp: sticky_account_def Let_def s1_def split: if_splits option.splits prod.splits)
  from Get_account [OF a(1)] PreferDomestic_member [OF a(4)] a(2,3) show ?thesis
    by (simp add: ModelCallable_def)
qed

lemma pick_ready_member:
  assumes "pick_ready env now draw model key keep ready none cooling s = (Routed b, s')"
  shows "ac_UID b \<in> set ready \<and> \<not> re_invalid env (ac_UID b)"
proof -
  obtain r s1 where st: "sticky_account env now draw model key keep ready s = (r, s1)" by fastforce
  obtain q s2 where pk: "pickModel env now draw model (\<lambda>u. u \<in> set ready)
      (ModelCostByUID env model (\<lambda>u. u \<in> set ready) s1) (ExpiryWindowDays env) s1 = (q, s2)" by fastforce
  show ?thesis
  proof (cases r)
    case None
    with assms st pk have "q = Picked b" by (cases q) (auto simp: pick_ready_def Let_def split: if_splits)
    with pickModel_member pk show ?thesis by blast
  next
    case (Some q')
    with assms st have "q' = Picked b" by (cases q') (auto simp: pick_ready_def)
    with sticky_member st Some show ?thesis by blast
  qed
qed

lemma pick_member:
  assumes "PickAccountExcludingIn env now draw model key tried scope s = (Routed a, s')"
  shows "ac_UID a \<notin> set tried \<and> \<not> re_invalid env (ac_UID a) \<and> cooled now model s (ac_UID a) \<and>
    (\<exists>uids. ModelAccountUIDs env model s = Inr uids \<and> ac_UID a \<in> set uids) \<and>
    (case scope of
       Some sc \<Rightarrow> sc (ac_UID a) \<and> (\<exists>b. Get (rs_pool s) (ac_UID a) = Some b \<and> ac_Enabled b)
     | None \<Rightarrow> \<exists>excluded. re_excluded env = Some excluded \<and> ac_UID a \<notin> set excluded)"
proof (cases "ModelAccountUIDs env model s")
  case (Inl e)
  with assms show ?thesis
    by (auto simp: PickAccountExcludingIn_def PickInScope_def split: option.splits)
next
  case (Inr uids)
  show ?thesis
  proof (cases scope)
    case None
    with assms Inr obtain excluded where ex: "re_excluded env = Some excluded"
      by (auto simp: PickAccountExcludingIn_def split: option.splits)
    let ?allowed = "filter (\<lambda>u. u \<notin> set excluded) uids"
    obtain n ready s1 where sc: "scan_ready now model (private_skip env tried) ?allowed s = (n, ready, s1)"
      by (metis prod_cases3)
    with assms None Inr ex have "pick_ready env now draw model key (\<lambda>uid. uid \<in> set tried) ready
        (errBody 503 (msg_none_left model) ''auth_error'') (errBody 503 msg_upstream_limited ''rate_limit_error'') s1 = (Routed a, s')"
      unfolding PickAccountExcludingIn_def
      by (cases "?allowed = []"; cases "n = 0"; cases "ready = []") (simp_all add: Let_def split: if_splits)
    from pick_ready_member [OF this] scan_ready_ok [OF sc] None Inr ex show ?thesis by (auto simp: private_skip_def)
  next
    case (Some f)
    obtain n ready s1 where sc: "scan_ready now model (scope_skip env tried f s) uids s = (n, ready, s1)" by (metis prod_cases3)
    with assms Some Inr have "pick_ready env now draw model key (\<lambda>_. False) ready
        (ErrPoolExhausted model []) (ErrPoolExhausted model tried) s1 = (Routed a, s')"
      unfolding PickAccountExcludingIn_def PickInScope_def
      by (cases "uids = []"; cases "ready = []") (simp_all add: Let_def split: if_splits)
    from pick_ready_member [OF this] scan_ready_ok [OF sc]
    have "ac_UID a \<in> set uids \<and> \<not> scope_skip env tried f s (ac_UID a) \<and> cooled now model s (ac_UID a)" by blast
    with Some Inr show ?thesis by (auto simp: scope_skip_def split: option.splits)
  qed
qed

text \<open>A request never leaves its pool: whatever account a pick returns, at first or on failover,
  serves the model, is authorized, has not been tried by this request and has no running cooldown for
  the model; in a portal scope it is in the scope, exists and is enabled, and in the private pool it
  is none of the accounts kept out of it.\<close>

theorem pick_stays_in_pool:
  assumes "PickAccountExcludingIn env now draw model key tried scope s = (Routed a, s')"
  shows "ac_UID a \<notin> set tried \<and> \<not> re_invalid env (ac_UID a) \<and> cooled now model s (ac_UID a) \<and>
    (\<exists>uids. ModelAccountUIDs env model s = Inr uids \<and> ac_UID a \<in> set uids) \<and>
    (case scope of
       Some sc \<Rightarrow> sc (ac_UID a) \<and> (\<exists>b. Get (rs_pool s) (ac_UID a) = Some b \<and> ac_Enabled b)
     | None \<Rightarrow> \<exists>excluded. re_excluded env = Some excluded \<and> ac_UID a \<notin> set excluded)"
  by (rule pick_member [OF assms])

definition demo_err :: err_env where
  "demo_err = \<lparr>ee_json = (\<lambda>_. None), ee_float = (\<lambda>_. None), ee_next4 = (\<lambda>_. Fin 0)\<rparr>"

definition demo_env :: route_env where
  "demo_env = \<lparr>re_err = demo_err, re_model = (\<lambda>_. Some (Some \<lparr>ce_uids = Some [''u1''], ce_profiles = None\<rparr>)),
     re_excluded = Some [], re_cost = (\<lambda>_ _ _. None), re_costs = (\<lambda>_ _. []), re_invalid = (\<lambda>_. False),
     re_cost_aware = None, re_expiry_days = None\<rparr>"

definition demo_state :: routing_state where
  "demo_state = \<lparr>rs_pool = \<lparr>p_accounts = [(newAccount ''u1'' None)\<lparr>ac_CooldownUntil := Fin 10\<rparr>],
       p_projectAuths = [], p_creditRevision = 0\<rparr>,
     rs_sessions = NewSessionRouter, rs_cooldowns = []\<rparr>"

lemma demo_pick:
  "PickAccountExcludingIn demo_env (Fin 0) (Fin 0) ''m'' [] [] (Some (\<lambda>u. u = ''u1'')) demo_state =
    (Routed ((newAccount ''u1'' None)\<lparr>ac_CooldownUntil := Fin 10, ac_LastUsed := Fin 0\<rparr>), demo_state)"
proof -
  have scan: "scan_ready (Fin 0) ''m'' (scope_skip demo_env [] (\<lambda>u. u = ''u1'') demo_state) [''u1''] demo_state
      = (1, [''u1''], demo_state)"
    by (simp add: scan_ready_def scope_skip_def ModelCooldownUntil_def demo_state_def demo_env_def Get_def newAccount_def)
  have models: "ModelAccountUIDs demo_env ''m'' demo_state = Inr [''u1'']"
    by (simp add: ModelAccountUIDs_def ModelEntryAccountUIDs_def demo_env_def)
  have pick: "pickModel demo_env (Fin 0) (Fin 0) ''m'' (\<lambda>u. u \<in> set [''u1'']) costs w demo_state =
      (Picked ((newAccount ''u1'' None)\<lparr>ac_CooldownUntil := Fin 10, ac_LastUsed := Fin 0\<rparr>), demo_state)" for costs w
    by (simp add: pickModel_def PickFor_def demo_state_def demo_env_def Let_def permitted_def HealthyFor_def
        CallableFor_def has_credit_def newAccount_def soonest_def touch_def)
  show ?thesis
    using scan models pick
    by (simp add: PickAccountExcludingIn_def PickInScope_def pick_ready_def sticky_account_def bind_session_def
        SessionStickyMaxCooldown_def fsub_def rnd_numeral)
qed

theorem pick_stays_in_pool_witness:
  "\<not> re_invalid demo_env ''u1'' \<and> cooled (Fin 0) ''m'' demo_state ''u1''"
  using pick_stays_in_pool [OF demo_pick] by (simp add: newAccount_def)

subsection \<open>The selector\<close>

definition cooling :: "f64 \<Rightarrow> string \<Rightarrow> routing_state \<Rightarrow> string \<Rightarrow> bool" where
  "cooling now model s uid =
    (case map_of (rs_cooldowns s) (cooldown_key uid model) of None \<Rightarrow> False | Some (until, reason) \<Rightarrow> flt now until)"

lemma cooling_lapses: "lapses now s t \<Longrightarrow> cooling now model s uid \<Longrightarrow> cooling now model t uid"
proof -
  assume l: "lapses now s t" and c: "cooling now model s uid"
  let ?k = "cooldown_key uid model"
  from c obtain until reason where m: "map_of (rs_cooldowns s) ?k = Some (until, reason)" "flt now until"
    by (auto simp: cooling_def split: option.splits)
  then have "\<not> fle until now" by (metis fle_antisym flt_iff)
  with l m(1) have "map_of (rs_cooldowns t) ?k = Some (until, reason)" unfolding lapses_def by (metis option.inject prod.inject)
  with m(2) show "cooling now model t uid" by (simp add: cooling_def)
qed

lemma ModelCooldown_cooling:
  assumes "ModelCooldownUntil now uid model s = (until, s')" "\<not> flt now until"
  shows "\<not> cooling now model s uid"
  using assms by (auto simp: ModelCooldownUntil_def cooling_def flt_iff dest: fle_antisym split: option.splits if_splits)

definition selector_passes :: "route_env \<Rightarrow> f64 \<Rightarrow> selector \<Rightarrow> account \<Rightarrow> bool" where
  "selector_passes env now sl a =
    (ac_UID a \<in> set (sl_allowed sl) \<and>
     (ModelHealthy env now (sl_model sl) a \<or>
      ac_UID a = sl_preferred sl \<and> ModelCallable env (sl_model sl) a \<and>
      fle (fsub (ac_CooldownUntil a) now) SessionStickyMaxCooldown))"

lemma selector_ready_fold:
  "selector_ready env now sl s =
    foldl (\<lambda>(ready, s) a. if \<not> selector_passes env now sl a then (ready, s)
        else case ModelCooldownUntil now (ac_UID a) (sl_model sl) s of
               (until, s') \<Rightarrow> (if flt now until then ready else ready @ [ac_UID a], s'))
      ([], s) (p_accounts (rs_pool s))"
  unfolding selector_ready_def selector_passes_def by (rule arg_cong [where f = "\<lambda>f. foldl f ([], s) (p_accounts (rs_pool s))"]) (auto simp: fun_eq_iff)

lemma passes_valid: "selector_passes env now sl a \<Longrightarrow> ac_UID a \<in> set (sl_allowed sl) \<and> \<not> re_invalid env (ac_UID a)"
  by (auto simp: selector_passes_def ModelHealthy_def ModelCallable_def)

lemma selector_ready_ok:
  assumes "selector_ready env now sl s = (ready, s')"
  shows "lapses now s s' \<and> (\<forall>u \<in> set ready. u \<in> set (sl_allowed sl) \<and> \<not> re_invalid env u \<and>
    \<not> cooling now (sl_model sl) s u)"
proof -
  let ?f = "\<lambda>(ready, s) a. if \<not> selector_passes env now sl a then (ready, s)
        else case ModelCooldownUntil now (ac_UID a) (sl_model sl) s of
               (until, s') \<Rightarrow> (if flt now until then ready else ready @ [ac_UID a], s')"
  let ?P = "\<lambda>u. u \<in> set (sl_allowed sl) \<and> \<not> re_invalid env u \<and> \<not> cooling now (sl_model sl) s u"
  have fold: "foldl ?f (ready0, t) as = (ready, s') \<Longrightarrow> lapses now s t \<Longrightarrow> \<forall>u \<in> set ready0. ?P u \<Longrightarrow>
      lapses now s s' \<and> (\<forall>u \<in> set ready. ?P u)" for ready0 t as
  proof (induction as arbitrary: ready0 t)
    case (Cons a as)
    obtain until t' where c: "ModelCooldownUntil now (ac_UID a) (sl_model sl) t = (until, t')" by fastforce
    show ?case
    proof (cases "selector_passes env now sl a")
      case False
      with Cons.IH [of ready0 t] Cons.prems show ?thesis by simp
    next
      case True
      have l: "lapses now s t'" using ModelCooldown_lapses(1) [OF c] Cons.prems(2) lapses_trans by blast
      have "\<not> flt now until \<Longrightarrow> \<not> cooling now (sl_model sl) s (ac_UID a)"
        using ModelCooldown_cooling [OF c] cooling_lapses [OF Cons.prems(2)] by blast
      then have r: "\<forall>u \<in> set (if flt now until then ready0 else ready0 @ [ac_UID a]). ?P u"
        using Cons.prems(3) passes_valid [OF True] by simp
      have "foldl ?f (if flt now until then ready0 else ready0 @ [ac_UID a], t') as = (ready, s')"
        using Cons.prems(1) True c by simp
      from Cons.IH [OF this l r] show ?thesis .
    qed
  qed simp
  show ?thesis by (rule fold [OF assms [unfolded selector_ready_fold] lapses_refl]) simp
qed

lemma control_route_ok:
  assumes "control_route env now sl sel ready preferred s = (Some (ready', pref), s')"
  shows "set ready' \<subseteq> set ready \<and> s' = s \<and>
    (ss_Action sel = ''reselect'' \<longrightarrow> (\<forall>u \<in> set ready'. u \<noteq> ss_Baseline sel \<and>
       no_dearer (cost_of (sl_cost sl) (ss_Baseline sel)) (cost_of (sl_cost sl) u))) \<and>
    (ss_Action sel = ''switch'' \<longrightarrow> pref = ss_Target sel \<and> pref \<in> set ready' \<and>
       no_dearer (cost_of (sl_cost sl) (ss_Baseline sel)) (cost_of (sl_cost sl) pref))"
  using assms by (auto simp: control_route_def Let_def split: if_splits)

lemma choose_ready_ok:
  assumes "choose_ready env now draw sl sel ready pref s = (Picked b, sl', s')"
    "\<forall>u \<in> set ready. \<not> re_invalid env u"
  shows "ac_UID b \<in> set ready \<and> sl_allowed sl' = sl_allowed sl \<and> sl_cost sl' = sl_cost sl \<and> sl_tried sl' = sl_tried sl \<and>
    sl_model sl' = sl_model sl \<and>
    (pref \<in> set ready \<and> (case sel of None \<Rightarrow> False | Some x \<Rightarrow> ss_Action x \<noteq> []) \<longrightarrow> ac_UID b = pref)"
proof (cases "pref \<in> set ready")
  case False
  obtain r s2 where pk: "pickModel env now draw (sl_model sl) (\<lambda>u. u \<in> set ready) (sl_cost sl) (sl_window sl) s = (r, s2)"
    by fastforce
  have "r = Picked b \<and> sl' = sl\<lparr>sl_preferred := ac_UID b\<rparr>"
    using assms(1) False pk unfolding choose_ready_def by (cases r) simp_all
  with pickModel_member pk False show ?thesis by fastforce
next
  case True
  define automatic where "automatic = (case sel of None \<Rightarrow> True | Some x \<Rightarrow> ss_Action x = [])"
  define key where "key = (case sel of None \<Rightarrow> [] | Some x \<Rightarrow> ss_Key x)"
  note ch = assms(1) [unfolded choose_ready_def Let_def, folded automatic_def key_def]
  show ?thesis
  proof (cases "automatic")
    case False
    with ch True obtain a where "Get (rs_pool s) pref = Some a" "a = b" "sl' = sl" by (auto split: option.splits)
    with Get_account True show ?thesis by fastforce
  next
    case auto: True
    then have na: "\<not> (case sel of None \<Rightarrow> False | Some x \<Rightarrow> ss_Action x \<noteq> [])"
      by (auto simp: automatic_def split: option.splits)
    show ?thesis
    proof (cases "sl_migrationFrom sl = pref \<and> sl_migrationTarget sl \<in> set ready \<and> \<not> ManuallyPinned key pref (rs_sessions s)")
      case mig: True
      with ch True auto have "Get (rs_pool s) (sl_migrationTarget sl) = Some b" "sl' = sl"
        by (auto split: option.splits)
      with Get_account mig na show ?thesis by fastforce
    next
      case False
      show ?thesis
      proof (cases "Get (rs_pool s) pref")
        case None
        with ch True auto False show ?thesis by simp
      next
        case (Some a)
        obtain r s2 where pd: "PreferDomesticSession env now draw (sl_model sl) key a (\<lambda>u. u \<in> set ready) (sl_cost sl)
            (sl_window sl) s = (r, s2)" by fastforce
        with ch True auto False Some have r: "r = Picked b" by (cases r) simp_all
        with ch True auto False Some pd have "sl_allowed sl' = sl_allowed sl \<and> sl_cost sl' = sl_cost sl \<and>
            sl_tried sl' = sl_tried sl \<and> sl_model sl' = sl_model sl" by auto
        moreover have "ac_UID b \<in> set ready"
          using PreferDomestic_member [OF pd [unfolded r]] Get_account [OF Some] True assms(2) by simp
        ultimately show ?thesis using na by simp
      qed
    qed
  qed
qed

lemma AccountSelector_ok:
  assumes "AccountSelector env model preferred tried scope s = Inr sl"
  shows "sl_model sl = model \<and> sl_tried sl = tried \<and> (\<forall>u \<in> set (sl_allowed sl). u \<notin> set tried \<and>
    (case scope of Some sc \<Rightarrow> sc u | None \<Rightarrow> \<exists>excluded. re_excluded env = Some excluded \<and> u \<notin> set excluded))"
  using assms by (auto simp: AccountSelector_def Let_def split: sum.splits option.splits)

lemma finish_choice_ok:
  assumes "finish_choice busy rt chosen = (Chosen a, sl', routing', s')"
  shows "chosen = (Picked a, sl', s') \<and> \<not> busy (ac_UID a) \<and>
    routing' = map_option (\<lambda>sel. if ss_Action sel = ''reselect'' then sel\<lparr>ss_Target := ac_UID a\<rparr> else sel) rt"
  using assms by (auto simp: finish_choice_def split: prod.splits pick_result.splits if_splits)

definition control_kept :: "selector \<Rightarrow> string \<Rightarrow> session_selection option \<Rightarrow> bool" where
  "control_kept sl uid routing =
    (case routing of
       None \<Rightarrow> True
     | Some sel \<Rightarrow>
         if ss_Key sel = [] \<or> ss_Action sel \<notin> {''switch'', ''reselect''} then True
         else ss_Target sel = uid \<and>
              no_dearer (cost_of (sl_cost sl) (ss_Baseline sel)) (cost_of (sl_cost sl) uid) \<and>
              (if ss_Action sel = ''reselect'' then uid \<noteq> ss_Baseline sel else True))"

lemma select_account_ok:
  assumes "select_account env now draw busy sl routing s = (Chosen a, sl', routing', s')"
  shows "\<not> busy (ac_UID a) \<and> ac_UID a \<in> set (sl_allowed sl) \<and> \<not> re_invalid env (ac_UID a) \<and>
    \<not> cooling now (sl_model sl) s (ac_UID a) \<and> sl_allowed sl' = sl_allowed sl \<and> sl_cost sl' = sl_cost sl \<and>
    control_kept sl (ac_UID a) routing'"
proof -
  obtain ready s1 where rd: "selector_ready env now sl s = (ready, s1)" by fastforce
  note rok = selector_ready_ok [OF rd]
  have ne: "ready \<noteq> []" using assms rd unfolding select_account_def by auto
  have val: "\<forall>u \<in> set ready'. \<not> re_invalid env u" if "set ready' \<subseteq> set ready" for ready'
    using rok that by blast
  show ?thesis
  proof (cases "\<exists>sel. routing = Some sel \<and> ss_Key sel \<noteq> []")
    case False
    then have "finish_choice busy routing (choose_ready env now draw sl routing ready (sl_preferred sl) s1) =
        (Chosen a, sl', routing', s')"
      using rd ne assms by (cases routing) (simp_all add: select_account_def)
    note c = finish_choice_ok [OF this]
    have "control_kept sl (ac_UID a) routing'"
      using False c by (cases routing) (auto simp: control_kept_def)
    with choose_ready_ok [OF conjunct1 [OF c] val [OF order_refl]] c rok show ?thesis by blast
  next
    case True
    then obtain sel where sel: "routing = Some sel" "ss_Key sel \<noteq> []" by blast
    obtain uid sel1 where rs: "route_selection sel s1 = (uid, sel1)" by fastforce
    obtain res s2 where cr: "control_route env now sl sel1 ready (if uid \<noteq> [] then uid else sl_preferred sl) s1 = (res, s2)"
      by fastforce
    have "res \<noteq> None" using assms sel rd ne rs cr by (cases res) (auto simp: select_account_def)
    then obtain ready' pref where res: "res = Some (ready', pref)" by fastforce
    note cok = control_route_ok [OF cr [unfolded res]]
    have "finish_choice busy (Some sel1) (choose_ready env now draw sl (Some sel1) ready' pref s2) =
        (Chosen a, sl', routing', s')"
      using sel rd ne rs cr res assms unfolding select_account_def by simp
    note c = finish_choice_ok [OF this]
    have sub: "set ready' \<subseteq> set ready" using cok by blast
    note k = choose_ready_ok [OF conjunct1 [OF c] val [OF sub]]
    have "control_kept sl (ac_UID a) routing'"
      using c k cok by (auto simp: control_kept_def)
    with k sub rok c show ?thesis by blast
  qed
qed

text \<open>C13. The selector of a queued request keeps every limit whenever it chooses: the account is one of
  those captured for the request (in its scope, not kept out of the private pool, not yet tried), is
  authorized, has a free slot and no running cooldown for the model. When a control is pending, the
  account is the target it records, never dearer than the baseline, and for a reselection another one.
  The captured set never changes.\<close>

theorem selector_respects_limits:
  assumes "AccountSelector env model preferred tried scope s0 = Inr sl0" "sl_allowed sl = sl_allowed sl0"
    "select_account env now draw busy sl routing s = (Chosen a, sl', routing', s')"
  shows "\<not> busy (ac_UID a) \<and> ac_UID a \<notin> set tried \<and> \<not> re_invalid env (ac_UID a) \<and>
    (case scope of Some sc \<Rightarrow> sc (ac_UID a)
     | None \<Rightarrow> \<exists>excluded. re_excluded env = Some excluded \<and> ac_UID a \<notin> set excluded) \<and>
    \<not> cooling now (sl_model sl) s (ac_UID a) \<and> sl_allowed sl' = sl_allowed sl0 \<and>
    control_kept sl (ac_UID a) routing'"
  using AccountSelector_ok [OF assms(1)] select_account_ok [OF assms(3)] assms(2) by auto

theorem selector_respects_limits_witness:
  "\<exists>sl a sl' r s'. AccountSelector demo_env ''m'' ''u1'' [] (Some (\<lambda>u. u = ''u1'')) demo_state = Inr sl \<and>
    select_account demo_env (Fin 0) (Fin 0) (\<lambda>_. False) sl None demo_state = (Chosen a, sl', r, s') \<and>
    sl_allowed sl' = sl_allowed sl"
proof -
  obtain sl where sl: "AccountSelector demo_env ''m'' ''u1'' [] (Some (\<lambda>u. u = ''u1'')) demo_state = Inr sl"
    "sl_allowed sl = [''u1'']" "sl_preferred sl = ''u1''" "sl_model sl = ''m''" "sl_migrationFrom sl = []"
    by (simp add: AccountSelector_def ModelAccountUIDs_def ModelEntryAccountUIDs_def demo_env_def)
  have "selector_ready demo_env (Fin 0) sl demo_state = ([''u1''], demo_state)"
    using sl(2-4)
    by (simp add: selector_ready_def ModelCooldownUntil_def ModelCallable_def CallableFor_def has_credit_def
        demo_state_def demo_env_def newAccount_def SessionStickyMaxCooldown_def fsub_def rnd_numeral)
  moreover have "\<exists>a sl'. choose_ready demo_env (Fin 0) (Fin 0) sl None [''u1''] ''u1'' demo_state = (Picked a, sl', demo_state)"
    using sl(5)
    by (simp add: choose_ready_def Get_def demo_state_def newAccount_def safeProfile_def DefaultProfile_def
        PreferDomesticSession_def ProfileSite_def ProfileRegion_def profileEndpoints_def Domestic_def International_def)
  ultimately obtain a sl' where c: "select_account demo_env (Fin 0) (Fin 0) (\<lambda>_. False) sl None demo_state =
      (Chosen a, sl', None, demo_state)"
    using sl(3) by (auto simp: select_account_def finish_choice_def)
  with selector_respects_limits [OF sl(1) refl c] sl(1) show ?thesis by blast
qed

subsection \<open>What a failed attempt costs\<close>

lemma Get_on_account_other:
  "(\<And>a. ac_UID (f a) = ac_UID a) \<Longrightarrow> v \<noteq> u \<Longrightarrow> Get (on_account u f p) v = Get p v"
  unfolding Get_def on_account_def using find_keyed_other [of u v ac_UID f "p_accounts p"] by simp

lemma onFailure_other:
  assumes "v \<noteq> u"
  shows "Get (fst (onFailure now u cd credit p)) v = Get p v"
proof (cases "Get p u")
  case None
  then show ?thesis by (simp add: onFailure_def)
next
  case (Some a)
  have "Get (on_account u (\<lambda>a. markFailure now cd credit (a\<lparr>ac_creditRevision := n\<rparr>)) q) v = Get q v" for n q
    using assms by (intro Get_on_account_other) (simp_all add: markFailure_def Let_def)
  moreover have "Get (p\<lparr>p_creditRevision := n\<rparr>) v = Get p v" for n by (simp add: Get_def)
  ultimately show ?thesis using Some by (simp add: onFailure_def Let_def)
qed

lemma apply_action_local:
  assumes "apply_action env now current uid model ue kind act s = (s', check)"
  shows "rs_sessions s' = rs_sessions s \<and> (v \<noteq> uid \<longrightarrow> Get (rs_pool s') v = Get (rs_pool s) v) \<and>
    (k \<noteq> cooldown_key uid model \<longrightarrow> map_of (rs_cooldowns s') k = map_of (rs_cooldowns s) k) \<and>
    (\<not> ea_Disable act \<and> (ea_FailFast act \<and> \<not> ea_ModelScoped act \<or> \<not> flt (Fin 0) (ea_Cooldown act)) \<longrightarrow> s' = s) \<and>
    (ea_Disable act \<longrightarrow> rs_cooldowns s' = rs_cooldowns s) \<and>
    (\<not> ea_Disable act \<and> ea_ModelScoped act \<longrightarrow> rs_pool s' = rs_pool s \<or> \<not> flt (Fin 0) (ea_Cooldown act))"
proof -
  have "Get (SetEnabled uid False reason (rs_pool s)) v = Get (rs_pool s) v" if "v \<noteq> uid" for reason
    unfolding SetEnabled_def by (rule Get_on_account_other) (simp_all add: that)
  moreover have "Get (fst (onFailure now uid cd credit (rs_pool s))) v = Get (rs_pool s) v" if "v \<noteq> uid" for cd credit
    by (rule onFailure_other [OF that])
  ultimately show ?thesis
    using assms
    by (auto simp: apply_action_def set_cooldown_def update_conv split_beta split: if_splits)
qed

lemma Get_on_account_same:
  "(\<And>a. ac_UID (f a) = ac_UID a) \<Longrightarrow> Get (on_account u f p) u = map_option f (Get p u)"
  unfolding Get_def on_account_def using find_upd_first [of "\<lambda>a. ac_UID a = u" f "p_accounts p"] by simp

lemma onFailure_enabled:
  assumes "Get p u = Some a" "Get (fst (onFailure now u cd credit p)) u = Some b"
  shows "ac_Enabled b = ac_Enabled a"
proof -
  have "Get (on_account u (\<lambda>a. markFailure now cd credit (a\<lparr>ac_creditRevision := n\<rparr>)) q) u =
      map_option (\<lambda>a. markFailure now cd credit (a\<lparr>ac_creditRevision := n\<rparr>)) (Get q u)" for n q
    by (rule Get_on_account_same) (simp add: markFailure_def Let_def)
  moreover have "Get (p\<lparr>p_creditRevision := n\<rparr>) u = Get p u" for n by (simp add: Get_def)
  ultimately show ?thesis
    using assms by (auto simp: onFailure_def Let_def markFailure_def split: if_splits)
qed

lemma apply_action_disables:
  assumes "apply_action env now current uid model ue kind act s = (s', check)"
    "Get (rs_pool s) uid = Some a" "ac_Enabled a" "Get (rs_pool s') uid = Some b" "\<not> ac_Enabled b"
  shows "ea_Disable act"
proof (rule ccontr)
  assume nd: "\<not> ea_Disable act"
  have "rs_pool s' \<in> {rs_pool s, fst (onFailure now uid (ea_Cooldown act) True (rs_pool s)),
      fst (onFailure now uid (ea_Cooldown act) False (rs_pool s))}"
    using assms(1) nd by (auto simp: apply_action_def set_cooldown_def split_beta split: if_splits)
  with onFailure_enabled [OF assms(2)] assms(2-5) show False by auto
qed

text \<open>The classes of errors that say nothing against the account.\<close>

definition blameless :: "ErrKind \<Rightarrow> bool" where
  "blameless kind =
    (kind \<in> {ErrNone, ErrClient, ErrBadParams, ErrChannelDenied, ErrContentBlocked, ErrPromptTooLong, ErrImageInvalid})"

lemma action_disable:
  assumes "ea_Disable (ActionFor env draw (ClassifyUpstream env status raw) raw headers now)"
  shows "status \<ge> 400 \<and> (BusinessCode env raw [''12153''] \<or> BusinessCode env raw [''11140''] \<or>
    HitFold raw (to_lower raw) SessionDeadMarkers)"
proof -
  define kind where "kind = ClassifyUpstream env status raw"
  have "kind = ErrSessionDead \<or> kind = ErrAccountFault \<and> BusinessCode env raw [''11140'']"
    using assms unfolding kind_def [symmetric]
    by (cases kind) (simp_all add: ActionFor_def rotate_for_def no_action_def split: if_splits)
  moreover have "kind = ErrSessionDead \<Longrightarrow> status \<ge> 400 \<and>
      (BusinessCode env raw [''12153''] \<or> HitFold raw (to_lower raw) SessionDeadMarkers)"
    by (simp add: kind_def ClassifyUpstream_def Let_def split: if_splits)
  moreover have "kind = ErrAccountFault \<Longrightarrow> status \<ge> 400"
    by (simp add: kind_def ClassifyUpstream_def Let_def split: if_splits)
  ultimately show ?thesis by blast
qed

lemma action_blameless:
  assumes "blameless kind"
  shows "\<not> ea_Disable (ActionFor env draw kind raw headers now) \<and>
    \<not> flt (Fin 0) (ea_Cooldown (ActionFor env draw kind raw headers now))"
  using assms by (auto simp: blameless_def ActionFor_def rotate_for_def no_action_def)

lemma failfast_plain:
  "ea_FailFast (ActionFor env draw kind raw headers now) \<Longrightarrow>
   \<not> ea_Disable (ActionFor env draw kind raw headers now) \<and> \<not> ea_ModelScoped (ActionFor env draw kind raw headers now)"
  by (cases kind) (simp_all add: ActionFor_def rotate_for_def no_action_def split: if_splits)

text \<open>A failed attempt costs at most the account that made it: other accounts, the cooldowns of
  other pairs of account and model, and every session stay as they were. An error that is the
  request's own (its parameters, its content, its images, its length, a risk control) costs nothing
  at all. An account is disabled only on an explicit business code 12153 or 11140 in the body or the
  marker of a dead login, with a status of at least 400.\<close>

theorem penalty_is_local:
  assumes "penalizeAccount env now draw current uid model ue s = (act, s', check)"
  shows "rs_sessions s' = rs_sessions s \<and> (v \<noteq> uid \<longrightarrow> Get (rs_pool s') v = Get (rs_pool s) v) \<and>
    (k \<noteq> cooldown_key uid model \<longrightarrow> map_of (rs_cooldowns s') k = map_of (rs_cooldowns s) k) \<and>
    (ea_FailFast act \<longrightarrow> s' = s) \<and>
    (DailyModelLimit (re_err env) now (ue_Raw ue) = None \<and>
       blameless (ClassifyUpstream (re_err env) (ue_StatusCode ue) (ue_Raw ue)) \<longrightarrow> s' = s) \<and>
    (Get (rs_pool s) uid = Some a \<and> ac_Enabled a \<and> Get (rs_pool s') uid = Some b \<and> \<not> ac_Enabled b \<longrightarrow>
       ue_StatusCode ue \<ge> 400 \<and> (BusinessCode (re_err env) (ue_Raw ue) [''12153''] \<or>
       BusinessCode (re_err env) (ue_Raw ue) [''11140''] \<or>
       HitFold (ue_Raw ue) (to_lower (ue_Raw ue)) SessionDeadMarkers))"
proof (cases "DailyModelLimit (re_err env) now (ue_Raw ue)")
  case (Some lim)
  obtain reset reason where "lim = (reset, reason)" by fastforce
  with assms Some show ?thesis
    by (auto simp: penalizeAccount_def MarkDailyModelLimit_def set_cooldown_def update_conv no_action_def)
next
  case None
  define kind where "kind = ClassifyUpstream (re_err env) (ue_StatusCode ue) (ue_Raw ue)"
  have act: "act = ActionFor (re_err env) draw kind (ue_Raw ue) (ue_Header ue) now"
    and ap: "apply_action env now current uid model ue kind act s = (s', check)"
    using assms None by (auto simp: penalizeAccount_def MarkDailyModelLimit_def kind_def Let_def)
  have "ea_FailFast act \<longrightarrow> s' = s"
    using apply_action_local [OF ap, of uid "cooldown_key uid model"] failfast_plain unfolding act by blast
  moreover have "blameless kind \<longrightarrow> s' = s"
    using apply_action_local [OF ap, of uid "cooldown_key uid model"] action_blameless unfolding act by blast
  moreover have "ea_Disable act \<Longrightarrow> ue_StatusCode ue \<ge> 400 \<and> (BusinessCode (re_err env) (ue_Raw ue) [''12153''] \<or>
       BusinessCode (re_err env) (ue_Raw ue) [''11140''] \<or>
       HitFold (ue_Raw ue) (to_lower (ue_Raw ue)) SessionDeadMarkers)"
    unfolding act kind_def by (rule action_disable)
  ultimately show ?thesis
    using apply_action_local [OF ap, of v k] apply_action_disables [OF ap] unfolding kind_def by blast
qed

definition plain_404 :: upstream_error where
  "plain_404 = \<lparr>ue_StatusCode = 404, ue_Raw = [], ue_Header = None\<rparr>"

theorem penalty_is_local_witness:
  "rs_sessions (fst (snd (penalizeAccount demo_env (Fin 0) (Fin 0) True ''u1'' ''m'' plain_404 demo_state))) =
   rs_sessions demo_state"
proof -
  obtain act s' check where "penalizeAccount demo_env (Fin 0) (Fin 0) True ''u1'' ''m'' plain_404 demo_state = (act, s', check)"
    by (metis prod_cases3)
  with penalty_is_local [OF this] show ?thesis by simp
qed

end
