(* ===== verification/FailoverProps.thy ===== *)
theory FailoverProps
  imports Failover RoutingProps
begin

text \<open>
  What the failover of a request guarantees: it ends, it sends at most five times, it never sends
  again once output began, and a portal request stays in its scope and never shows an upstream body.
\<close>

subsection \<open>The sends of an attempt\<close>

lemma send_once_ok:
  assumes "send_once uid call second ev st = (r, st')"
  shows "(sn_sent st' = sn_sent st \<and> sn_remaining st' = sn_remaining st \<and> (\<exists>err. r = Stop False err)) \<or>
    (sn_sent st' = sn_sent st @ [(uid, sv_started ev)] \<and> Suc (sn_remaining st') = sn_remaining st \<and>
     (r = SendAgain \<and> \<not> sv_started ev \<and> \<not> second \<or> (\<exists>err. r = Stop (sv_started ev) err)))"
  using assms
  by (cases "sn_remaining st")
     (auto simp: send_once_def Let_def split: option.splits if_splits recovery.splits attempt_error.splits)

text \<open>The new sends of an attempt: none began output but perhaps the last, and that is what it reports.\<close>

definition sends_ok :: "string \<Rightarrow> bool \<Rightarrow> (string \<times> bool) list \<Rightarrow> bool" where
  "sends_ok uid started new =
    ((\<forall>x \<in> set new. fst x = uid) \<and> (\<forall>x \<in> set (butlast new). \<not> snd x) \<and>
     (if started then new \<noteq> [] else \<forall>x \<in> set new. \<not> snd x))"

lemma run_once_ok:
  assumes "run_once uid call pre ev1 ev2 st = ((started, err), st')"
  shows "\<exists>new. sn_sent st' = sn_sent st @ new \<and> sn_remaining st' + length new = sn_remaining st \<and> sends_ok uid started new"
proof (cases pre)
  case (Some e)
  with assms show ?thesis by (auto simp: run_once_def sends_ok_def)
next
  case None
  obtain r1 st1 where s1: "send_once uid call False ev1 st = (r1, st1)" by fastforce
  show ?thesis
  proof (cases r1)
    case (Stop b e)
    with assms None s1 have "b = started" "st' = st1" by (auto simp: run_once_def)
    with send_once_ok [OF s1] Stop show ?thesis by (auto simp: sends_ok_def)
  next
    case SendAgain
    obtain r2 st2 where s2: "send_once uid call True ev2 st1 = (r2, st2)" by fastforce
    from send_once_ok [OF s2] obtain b e where r2: "r2 = Stop b e" by auto
    with assms None s1 s2 SendAgain have "b = started" "st' = st2" by (auto simp: run_once_def)
    with send_once_ok [OF s1] send_once_ok [OF s2] SendAgain r2 show ?thesis
      by (auto simp: sends_ok_def)
  qed
qed

subsection \<open>The account of an attempt\<close>

text \<open>An account of the request's scope, or the one the caller named.\<close>

definition scope_ok :: "failover_cfg \<Rightarrow> string \<Rightarrow> string \<Rightarrow> bool" where
  "scope_ok cfg first uid = (uid = first \<or> (case fc_scope cfg of None \<Rightarrow> True | Some f \<Rightarrow> f uid))"

definition sl_ok :: "failover_cfg \<Rightarrow> string \<Rightarrow> selector \<Rightarrow> bool" where
  "sl_ok cfg first sl = (\<forall>u \<in> set (sl_allowed sl). scope_ok cfg first u)"

lemma choose_ready_allowed:
  assumes "choose_ready env now draw sl sel ready pref s = (r, sl', s')"
  shows "sl_allowed sl' = sl_allowed sl"
  using assms unfolding choose_ready_def Let_def
  by (auto split: if_splits option.splits pick_result.splits prod.splits)

lemma finish_choice_allowed:
  "finish_choice busy rt (r, sl, s) = (c, sl', rt', s') \<Longrightarrow> sl' = sl"
  by (cases r) (auto simp: finish_choice_def split: if_splits)

lemma select_account_allowed:
  assumes "select_account env now draw busy sl sel s = (c, sl', sel', s')"
  shows "sl_allowed sl' = sl_allowed sl"
proof -
  have fin: "sl_allowed sl' = sl_allowed sl"
    if "finish_choice busy rt (choose_ready env now draw sl rt' ready pref t) = (c, sl', sel', s')" for rt rt' ready pref t
  proof -
    obtain r sl1 s1 where ch: "choose_ready env now draw sl rt' ready pref t = (r, sl1, s1)" by (metis prod_cases3)
    with that finish_choice_allowed have "sl' = sl1" by metis
    with choose_ready_allowed [OF ch] show ?thesis by simp
  qed
  obtain ready s1 where rd: "selector_ready env now sl s = (ready, s1)" by fastforce
  show ?thesis
  proof (cases "ready = [] \<or> sel = None \<or> (\<exists>x. sel = Some x \<and> ss_Key x = [])")
    case True
    with assms rd fin show ?thesis unfolding select_account_def by (auto split: if_splits)
  next
    case False
    then obtain x where x: "sel = Some x" "ss_Key x \<noteq> []" by auto
    obtain uid y where y: "route_selection x s1 = (uid, y)" by fastforce
    obtain res s2 where cr: "control_route env now sl y ready (if uid \<noteq> [] then uid else sl_preferred sl) s1 = (res, s2)"
      by fastforce
    show ?thesis
    proof (cases res)
      case None
      with assms rd False x y cr show ?thesis unfolding select_account_def by auto
    next
      case (Some p)
      obtain ready' pref where "p = (ready', pref)" by fastforce
      with Some assms rd False x y cr have
        "finish_choice busy (Some y) (choose_ready env now draw sl (Some y) ready' pref s2) = (c, sl', sel', s')"
        unfolding select_account_def by auto
      then show ?thesis by (rule fin)
    qed
  qed
qed

lemma lease_ok:
  assumes "sl_ok cfg first sl" "lease_account rd sl sel bs s = (Inr (Some a), sel', s')"
  shows "scope_ok cfg first (ac_UID a)"
  using assms
proof (induction bs arbitrary: sl sel s)
  case (Cons busy bs)
  obtain c sl1 sel1 s1 where c: "select_account (rd_env rd) (rd_now rd) (rd_draw rd) busy sl sel s = (c, sl1, sel1, s1)"
    by (metis prod_cases4)
  have al: "sl_ok cfg first sl1" using select_account_allowed [OF c] Cons.prems(1) by (simp add: sl_ok_def)
  show ?case
  proof (cases c)
    case (Chosen b)
    with Cons.prems(2) c have "Get (rs_pool s1) (ac_UID b) = Some a" by auto
    then have "ac_UID a = ac_UID b" using Get_account by blast
    with select_account_ok [OF c [unfolded Chosen]] Cons.prems(1) show ?thesis by (auto simp: sl_ok_def)
  next
    case NoneNow
    with Cons.prems(2) c Cons.IH [OF al, of sel1 s1] show ?thesis by simp
  qed (use Cons.prems(2) c in simp_all)
qed simp

lemma choose_directly_ok:
  assumes "sl_ok cfg first sl" "choose_directly rd sl sel s = (Inr (Some a), sel', s')"
  shows "scope_ok cfg first (ac_UID a)"
proof -
  obtain c sl1 sel1 s1 where c: "select_account (rd_env rd) (rd_now rd) (rd_draw rd) (\<lambda>_. False) sl sel s = (c, sl1, sel1, s1)"
    by (metis prod_cases4)
  with assms(2) have "c = Chosen a" by (cases c) (auto simp: choose_directly_def)
  with select_account_ok c assms(1) show ?thesis by (force simp: sl_ok_def)
qed

lemma selector_scope: "AccountSelector env model preferred tried (fc_scope cfg) s = Inr sl \<Longrightarrow> sl_ok cfg first sl"
  using AccountSelector_ok [of env model preferred tried "fc_scope cfg" s sl]
  by (auto simp: sl_ok_def scope_ok_def split: option.splits)

lemma settle_ok:
  assumes "settle_selection cfg rd retry acc sel s = (r, s')"
  shows "case r of RoundAccount a \<Rightarrow> a = acc | RoundAgain a \<Rightarrow> a = acc \<and> retry < 3 | RoundError a e \<Rightarrow> True"
  using assms
  by (auto simp: settle_selection_def Let_def routing_error_def split: prod.splits option.splits if_splits bool.splits)

lemma selection_round_ok:
  assumes "selection_round cfg rd retry acc tried s = (r, s')" "scope_ok cfg first (ac_UID acc)"
  shows "case r of RoundAccount a \<Rightarrow> scope_ok cfg first (ac_UID a) | RoundAgain a \<Rightarrow> scope_ok cfg first (ac_UID a) \<and> retry < 3
    | RoundError a e \<Rightarrow> True"
proof (cases "AccountSelector (rd_env rd) (fc_model cfg) (ac_UID acc) tried (fc_scope cfg) s")
  case (Inl e)
  with assms(1) show ?thesis by (auto simp: selection_round_def)
next
  case (Inr sl)
  define sel0 where "sel0 = Some \<lparr>ss_Key = fc_key cfg, ss_Version = 0, ss_Action = [], ss_Target = [],
      ss_Baseline = [], ss_Call = fc_call cfg\<rparr>"
  obtain res sel s1 where c: "(if fc_leased cfg then lease_account rd sl sel0 (rd_busy rd) s
      else choose_directly rd sl sel0 s) = (res, sel, s1)" by (metis prod_cases3)
  note rr = assms(1) [unfolded selection_round_def Inr Let_def, simplified, folded sel0_def, unfolded c]
  show ?thesis
  proof (cases "\<exists>a. res = Inr (Some a)")
    case False
    with rr assms(2) show ?thesis by (cases res) (auto split: if_splits option.splits)
  next
    case True
    then obtain a where a: "res = Inr (Some a)" by blast
    have ok: "scope_ok cfg first (ac_UID a)"
      using c a lease_ok [OF selector_scope [OF Inr]] choose_directly_ok [OF selector_scope [OF Inr]]
      by (auto split: if_splits)
    show ?thesis
    proof (cases sel)
      case None
      with rr a show ?thesis by auto
    next
      case (Some x)
      with rr a have "settle_selection cfg rd retry a x s1 = (r, s')" by simp
      from settle_ok [OF this] ok show ?thesis by (auto split: round_result.splits)
    qed
  qed
qed

text \<open>Four rounds are enough: the fourth never asks for another one.\<close>

lemma selection_rounds_ok:
  "4 \<le> n + retry \<Longrightarrow> 0 < n \<Longrightarrow> scope_ok cfg first (ac_UID acc) \<Longrightarrow>
   \<exists>r s'. selection_rounds n cfg rds retry acc tried s = Some (r, s') \<and>
     (case r of RoundAccount a \<Rightarrow> scope_ok cfg first (ac_UID a) | RoundAgain a \<Rightarrow> False | RoundError a e \<Rightarrow> True)"
proof (induction n arbitrary: retry acc s)
  case (Suc n)
  obtain r s1 where r: "selection_round cfg (rds retry) retry acc tried s = (r, s1)" by fastforce
  note ok = selection_round_ok [OF r Suc.prems(3)]
  show ?case
  proof (cases r)
    case (RoundAgain a)
    with ok have "retry < 3" "scope_ok cfg first (ac_UID a)" by simp_all
    with Suc.IH [of "Suc retry" a s1] Suc.prems(1) r RoundAgain show ?thesis by simp
  qed (use r ok in auto)
qed simp

lemma attempt_account_ok:
  assumes "attempt_account cfg ae st = (r, s)" "scope_ok cfg first (ac_UID (fs_account st))"
  shows "case r of RoundAccount a \<Rightarrow> scope_ok cfg first (ac_UID a) | _ \<Rightarrow> True"
proof (cases "\<not> fc_leased cfg \<and> fc_call cfg = None")
  case True
  with assms show ?thesis by (auto simp: attempt_account_def Let_def)
next
  case False
  let ?s = "phase_call cfg (at_now ae) False (fs_routing st)"
  obtain q s1 where q: "selection_rounds 4 cfg (at_rounds ae) 0 (fs_account st) (fs_tried st) ?s = Some (q, s1)"
    "case q of RoundAccount a \<Rightarrow> scope_ok cfg first (ac_UID a) | RoundAgain a \<Rightarrow> False | RoundError a e \<Rightarrow> True"
    using selection_rounds_ok [of 4 0 cfg first "fs_account st"] assms(2) by fastforce
  show ?thesis
  proof (cases q)
    case (RoundAccount a)
    with False q assms(1) show ?thesis unfolding attempt_account_def Let_def by auto
  next
    case (RoundAgain a)
    with q show ?thesis by simp
  next
    case (RoundError a e)
    with False q assms(1) show ?thesis unfolding attempt_account_def Let_def by auto
  qed
qed

subsection \<open>An attempt\<close>

text \<open>At the head of the loop: the budget and the log agree, no output began, and all is in scope.\<close>

definition loop_ok :: "failover_cfg \<Rightarrow> string \<Rightarrow> failover_state \<Rightarrow> bool" where
  "loop_ok cfg first st =
    (fs_remaining st + length (fs_sent st) = maxFailoverAttempts \<and> (\<forall>x \<in> set (fs_sent st). \<not> snd x) \<and>
     (\<forall>x \<in> set (fs_sent st). scope_ok cfg first (fst x)) \<and> scope_ok cfg first (ac_UID (fs_account st)))"

definition end_ok :: "failover_cfg \<Rightarrow> string \<Rightarrow> failover_state \<Rightarrow> bool" where
  "end_ok cfg first st =
    (length (fs_sent st) \<le> maxFailoverAttempts \<and> (\<forall>x \<in> set (butlast (fs_sent st)). \<not> snd x) \<and>
     (\<forall>x \<in> set (fs_sent st). scope_ok cfg first (fst x)))"

text \<open>What the recoveries and the rotation leave alone.\<close>

definition same_sends :: "failover_state \<Rightarrow> failover_state \<Rightarrow> bool" where
  "same_sends st st' = (fs_sent st' = fs_sent st \<and> fs_remaining st' = fs_remaining st)"

lemma image_recovery_sends:
  assumes "image_recovery cfg env attempt level ue st = (st', b)"
  shows "same_sends st st' \<and> fs_account st' = fs_account st \<and> (b \<longrightarrow> attempt + 1 < maxFailoverAttempts)"
  using assms
  by (auto simp: image_recovery_def same_sends_def untry_def Let_def split: if_splits prod.splits)

lemma compat_recovery_sends:
  assumes "compat_recovery cfg attempt level st = (st', b)"
  shows "same_sends st st' \<and> fs_account st' = fs_account st \<and> (b \<longrightarrow> attempt + 1 < maxFailoverAttempts)"
  using assms
  by (auto simp: compat_recovery_def same_sends_def untry_def Let_def split: if_splits option.splits)

lemma rotate_sends:
  assumes "rotate_account cfg ae attempt ue st = (r, st')" "scope_ok cfg first (ac_UID (fs_account st))"
  shows "same_sends st st' \<and> scope_ok cfg first (ac_UID (fs_account st')) \<and> (r = Retry \<longrightarrow> attempt + 1 < maxFailoverAttempts)"
proof -
  obtain act s1 check where p: "penalizeAccount (at_env ae) (at_now ae) (at_draw ae) (at_current ae)
      (ac_UID (fs_account st)) (fc_model cfg) ue (fs_routing st) = (act, s1, check)" by (metis prod_cases3)
  define s2 where "s2 = (if fc_key cfg \<noteq> []
      then s1\<lparr>rs_sessions := UnbindMatching (fc_key cfg) (ac_UID (fs_account st)) (rs_sessions s1)\<rparr> else s1)"
  obtain q s3 where k: "PickAccountExcludingIn (at_env ae) (at_now ae) (at_draw ae) (fc_model cfg) (fc_key cfg)
      (fs_tried st) (fc_scope cfg) s2 = (q, s3)" by fastforce
  have in_scope: "scope_ok cfg first (ac_UID alt)" if "q = Routed alt" for alt
    using pick_member [OF k [unfolded that]] by (auto simp: scope_ok_def split: option.splits)
  note ro = assms(1) [unfolded rotate_account_def Let_def p, simplified, folded s2_def, unfolded k]
  show ?thesis
  proof (cases "ea_FailFast act \<or> \<not> ea_Rotate act \<or> maxFailoverAttempts \<le> attempt + 1 \<or> fs_remaining st < 1")
    case True
    with ro assms(2) show ?thesis by (auto simp: same_sends_def split: if_splits)
  next
    case False
    with ro assms(2) in_scope show ?thesis
      by (cases q) (auto simp: same_sends_def split: if_splits)
  qed
qed

lemma after_failure_sends:
  assumes "after_failure cfg ae attempt level started e st = (r, st')" "scope_ok cfg first (ac_UID (fs_account st))"
  shows "same_sends st st' \<and> scope_ok cfg first (ac_UID (fs_account st')) \<and>
    (r = Retry \<longrightarrow> attempt + 1 < maxFailoverAttempts \<and> \<not> started)"
proof (cases "\<exists>ue. \<not> final_error (at_done ae) e \<and> is_upstream e = Some ue \<and> \<not> started")
  case False
  with assms show ?thesis
    by (auto simp: after_failure_def Let_def same_sends_def split: if_splits option.splits)
next
  case True
  then obtain ue where ue: "\<not> final_error (at_done ae) e" "is_upstream e = Some ue" "\<not> started" by blast
  let ?env = "re_err (at_env ae)"
  obtain st1 b1 where i: "image_recovery cfg ?env attempt level ue st = (st1, b1)" by fastforce
  note im = image_recovery_sends [OF i]
  obtain st2 b2 where c: "compat_recovery cfg attempt level st1 = (st2, b2)" by fastforce
  note co = compat_recovery_sends [OF c]
  have go: "(r, st') = (if b1 then (Retry, st1)
      else if \<not> IsChannelDenied ?env (ue_StatusCode ue) (ue_Raw ue) then rotate_account cfg ae attempt ue st1
      else if b2 then (Retry, st2) else rotate_account cfg ae attempt ue st2)"
    using assms(1) [symmetric] ue i c unfolding after_failure_def Let_def by (cases b1; cases b2) simp_all
  have one: "same_sends st st1" "fs_account st1 = fs_account st"
    and two: "same_sends st st2" "fs_account st2 = fs_account st"
    using im co by (auto simp: same_sends_def)
  consider "(r, st') = (Retry, st1)" "b1" | "(r, st') = (Retry, st2)" "b2"
    | s where "rotate_account cfg ae attempt ue s = (r, st')" "s = st1 \<or> s = st2"
    using go by (metis (full_types))
  then show ?thesis
  proof cases
    case 1
    with im assms(2) ue one show ?thesis by simp
  next
    case 2
    with co assms(2) ue two show ?thesis by simp
  next
    case 3
    with one two assms(2) have s: "same_sends st s" "scope_ok cfg first (ac_UID (fs_account s))" by auto
    from rotate_sends [OF 3(1) s(2)] s(1) ue show ?thesis by (simp add: same_sends_def)
  qed
qed

lemma run_attempt_ok:
  assumes "run_attempt cfg ae attempt st = (r, st')" "loop_ok cfg first st"
  shows "end_ok cfg first st' \<and> (r = Retry \<longrightarrow> loop_ok cfg first st' \<and> attempt + 1 < maxFailoverAttempts)"
proof -
  let ?uid = "ac_UID (fs_account st)"
  define st1 where "st1 = st\<lparr>fs_routing := phase_call cfg (at_now ae) True (fs_routing st),
    fs_tried := (if ?uid \<in> set (fs_tried st) then fs_tried st else fs_tried st @ [?uid])\<rparr>"
  define level where "level = snd (attempt_body cfg st1)"
  define st2 where "st2 = st1\<lparr>fs_compatUID := [], fs_compatLevel := 0\<rparr>"
  have st2: "fs_remaining st2 = fs_remaining st" "fs_sent st2 = fs_sent st" "fs_account st2 = fs_account st"
    by (simp_all add: st1_def st2_def)
  obtain started err sn where ro: "run_once ?uid (fc_call cfg) (at_pre ae) (at_send1 ae) (at_send2 ae)
    \<lparr>sn_remaining = fs_remaining st2, sn_sent = fs_sent st2, sn_routing = fs_routing st2\<rparr> = ((started, err), sn)"
    by (metis surj_pair)
  from run_once_ok [OF ro] st2 obtain new where new:
    "sn_sent sn = fs_sent st @ new" "sn_remaining sn + length new = fs_remaining st" "sends_ok ?uid started new"
    by auto
  define st3 where "st3 = st2\<lparr>fs_remaining := sn_remaining sn, fs_sent := sn_sent sn,
    fs_routing := record_outcome cfg (re_err (at_env ae)) level ?uid started err (sn_routing sn)\<rparr>"
  have st3: "fs_remaining st3 = sn_remaining sn" "fs_sent st3 = fs_sent st @ new" "fs_account st3 = fs_account st"
    by (simp_all add: st3_def st2 new)
  from assms(1) ro have go: "(case err of None \<Rightarrow> (Finished (Some (fs_account st)) None, st3)
      | Some e \<Rightarrow> after_failure cfg ae attempt level started e st3) = (r, st')"
    unfolding run_attempt_def Let_def st1_def [symmetric] level_def [symmetric] st2_def [symmetric] st3_def
    by simp
  have sends: "same_sends st3 st' \<and> scope_ok cfg first (ac_UID (fs_account st')) \<and>
      (r = Retry \<longrightarrow> attempt + 1 < maxFailoverAttempts \<and> \<not> started)"
  proof (cases err)
    case None
    with go assms(2) st3 show ?thesis by (auto simp: same_sends_def loop_ok_def)
  next
    case (Some e)
    with go after_failure_sends [of cfg ae attempt level started e st3 r st'] assms(2) st3 show ?thesis
      by (auto simp: loop_ok_def)
  qed
  have e: "end_ok cfg first st'"
    using sends st3 new assms(2)
    by (auto simp: end_ok_def loop_ok_def same_sends_def sends_ok_def butlast_append dest: in_set_butlastD)
  have l: "loop_ok cfg first st'" if "\<not> started"
    using that sends st3 new assms(2) by (auto simp: loop_ok_def same_sends_def sends_ok_def)
  from e l sends show ?thesis by blast
qed

lemma loop_ok_end: "loop_ok cfg first st \<Longrightarrow> end_ok cfg first st"
  by (auto simp: loop_ok_def end_ok_def dest: in_set_butlastD)

lemma attempt_step_ok:
  assumes "attempt_step cfg ae attempt st = (r, st')" "loop_ok cfg first st"
  shows "end_ok cfg first st' \<and> (r = Retry \<longrightarrow> loop_ok cfg first st' \<and> attempt + 1 < maxFailoverAttempts)"
proof -
  obtain q s where q: "attempt_account cfg ae st = (q, s)" by fastforce
  have routed: "loop_ok cfg first (st\<lparr>fs_routing := s\<rparr>)" using assms(2) by (simp add: loop_ok_def)
  show ?thesis
  proof (cases q)
    case (RoundAccount a)
    define st1 where "st1 = st\<lparr>fs_routing := s, fs_account := a\<rparr>"
    have "scope_ok cfg first (ac_UID a)"
      using attempt_account_ok [OF q] assms(2) RoundAccount by (simp add: loop_ok_def)
    then have ok: "loop_ok cfg first st1" using assms(2) by (simp add: loop_ok_def st1_def)
    from assms(1) q RoundAccount consider "r \<noteq> Retry" "st' = st1" | "run_attempt cfg ae attempt st1 = (r, st')"
      unfolding attempt_step_def Let_def st1_def by (auto split: if_splits)
    then show ?thesis by cases (use run_attempt_ok ok loop_ok_end in blast)+
  qed (use assms(1) q loop_ok_end [OF routed] in \<open>auto simp: attempt_step_def\<close>)
qed

lemma failover_loop_ok:
  "maxFailoverAttempts \<le> n + attempt \<Longrightarrow> 0 < n \<Longrightarrow> loop_ok cfg first st \<Longrightarrow>
   \<exists>a err st'. failover_loop n cfg envs attempt st = Some (a, err, st') \<and> end_ok cfg first st'"
proof (induction n arbitrary: attempt st)
  case (Suc n)
  obtain r st1 where r: "attempt_step cfg (envs attempt) attempt st = (r, st1)" by fastforce
  note ok = attempt_step_ok [OF r Suc.prems(3)]
  show ?case
  proof (cases r)
    case (Finished a err)
    with r ok show ?thesis by simp
  next
    case Retry
    with ok have "loop_ok cfg first st1" "attempt + 1 < maxFailoverAttempts" by simp_all
    with Suc.IH [of "Suc attempt" st1] Suc.prems(1) r Retry show ?thesis by simp
  qed
qed simp

subsection \<open>The request\<close>

lemma failover_ok:
  assumes "maxFailoverAttempts \<le> fuel"
  obtains a err st where "OpenUpstreamScoped fuel cfg env envs acc s = Some (a, mask_error env (fc_scope cfg) err, st)"
    "end_ok cfg (ac_UID acc) st"
proof -
  have "loop_ok cfg (ac_UID acc) (start_state cfg acc s)"
    by (simp add: loop_ok_def start_state_def scope_ok_def)
  moreover have "0 < fuel" using assms by (simp add: maxFailoverAttempts_def)
  ultimately obtain a err st where
    "failover_loop fuel cfg envs 0 (start_state cfg acc s) = Some (a, err, st) \<and> end_ok cfg (ac_UID acc) st"
    using failover_loop_ok [of fuel 0] assms by force
  then show thesis using that by (simp add: OpenUpstreamScoped_def)
qed

text \<open>A portal request: the credential is renewed after a 401, the second send streams and breaks off.\<close>

definition demo_cfg :: failover_cfg where
  "demo_cfg = \<lparr>fc_model = ''m'', fc_key = [], fc_scope = Some (\<lambda>u. u = ''u1''), fc_call = None, fc_leased = False,
     fc_identity = False, fc_metadata = False,
     fc_templates = \<lparr>te_codex = (\<lambda>_. None), te_identity_line = id, te_file_reference = id,
       te_main_branch = id, te_web_gui = id\<rparr>,
     fc_media = \<lparr>me_lower = id, me_base64 = (\<lambda>_ _. None), me_detect = id\<rparr>,
     fc_fingerprint = (\<lambda>_. []), fc_body = []\<rparr>"

definition demo_attempt :: attempt_env where
  "demo_attempt = \<lparr>at_env = demo_env, at_now = Fin 0, at_draw = Fin 0, 
     at_rounds = (\<lambda>_. \<lparr>rd_env = demo_env, rd_now = Fin 0, rd_draw = Fin 0, rd_busy = [], rd_wait = EOther,
       rd_after = demo_env, rd_check = None\<rparr>),
     at_pre = None,
     at_send1 = \<lparr>sv_check = None, sv_started = False,
       sv_error = Some (EUpstream \<lparr>ue_StatusCode = 401, ue_Raw = [], ue_Header = None\<rparr>), sv_done = False,
       sv_recover = Refreshed\<rparr>,
     at_send2 = \<lparr>sv_check = None, sv_started = True,
       sv_error = Some (EUpstream \<lparr>ue_StatusCode = 503, ue_Raw = ''secret'', ue_Header = None\<rparr>), sv_done = True,
       sv_recover = NoManager\<rparr>,
     at_done = True, at_current = True\<rparr>"

definition demo_account :: account where
  "demo_account = newAccount ''u1'' None"

lemma demo_run:
  "\<exists>st. OpenUpstreamScoped maxFailoverAttempts demo_cfg demo_err (\<lambda>_. demo_attempt) demo_account demo_state =
      Some (Some demo_account, Some (EUpstream \<lparr>ue_StatusCode = 503, ue_Raw = masked_raw, ue_Header = None\<rparr>), st) \<and>
    fs_sent st = [(''u1'', False), (''u1'', True)]"
proof -
  have first: "failover_loop maxFailoverAttempts cfg envs k st =
      (case attempt_step cfg (envs k) k st of (Finished a err, st') \<Rightarrow> Some (a, err, st')
       | (Retry, st') \<Rightarrow> failover_loop 4 cfg envs (Suc k) st')" for cfg envs k st
  proof -
    have five: "maxFailoverAttempts = Suc 4" by (simp add: maxFailoverAttempts_def)
    show ?thesis unfolding five by (simp only: failover_loop.simps)
  qed
  have acc: "attempt_account demo_cfg demo_attempt (start_state demo_cfg demo_account demo_state) =
      (RoundAccount demo_account, demo_state)"
    by (simp add: attempt_account_def demo_cfg_def phase_call_def start_state_def)
  have live: "Get (rs_pool demo_state) ''u1'' = Some (demo_account\<lparr>ac_CooldownUntil := Fin 10\<rparr>)"
    by (simp add: Get_def demo_state_def demo_account_def newAccount_def)
  have callable: "ModelCallable demo_env ''m'' (demo_account\<lparr>ac_CooldownUntil := Fin 10\<rparr>)"
    by (simp add: ModelCallable_def demo_env_def demo_account_def CallableFor_def has_credit_def newAccount_def)
  have uid: "ac_UID demo_account = ''u1''" by (simp add: demo_account_def newAccount_def)
  have once: "run_once ''u1'' None None (at_send1 demo_attempt) (at_send2 demo_attempt)
      \<lparr>sn_remaining = 5, sn_sent = [], sn_routing = s\<rparr> =
    ((True, Some (EUpstream \<lparr>ue_StatusCode = 503, ue_Raw = ''secret'', ue_Header = None\<rparr>)),
     \<lparr>sn_remaining = 3, sn_sent = [(''u1'', False), (''u1'', True)], sn_routing = s\<rparr>)" for s
    by (simp add: run_once_def send_once_def demo_attempt_def Attempt_def)
  have env: "at_env demo_attempt = demo_env" "at_pre demo_attempt = None" "at_done demo_attempt = True"
    by (simp_all add: demo_attempt_def)
  have cfg: "fc_model demo_cfg = ''m''" "fc_call demo_cfg = None" "fc_identity demo_cfg = False"
    and scope: "fc_scope demo_cfg = Some (\<lambda>u. u = ''u1'')"
    by (simp_all add: demo_cfg_def)
  let ?st = "(start_state demo_cfg demo_account demo_state)\<lparr>fs_routing := demo_state, fs_account := demo_account\<rparr>"
  have st: "fs_remaining ?st = 5" "fs_sent ?st = []" "fs_account ?st = demo_account" "fs_routing ?st = demo_state"
    by (simp_all add: start_state_def maxFailoverAttempts_def)
  have "attempt_step demo_cfg demo_attempt 0 (start_state demo_cfg demo_account demo_state) =
      run_attempt demo_cfg demo_attempt 0 ?st"
    unfolding attempt_step_def acc using callable live uid by (simp add: env cfg)
  moreover have "\<exists>st. run_attempt demo_cfg demo_attempt 0 ?st =
      (Finished (Some demo_account) (Some (EUpstream \<lparr>ue_StatusCode = 503, ue_Raw = ''secret'', ue_Header = None\<rparr>)), st) \<and>
      fs_sent st = [(''u1'', False), (''u1'', True)]"
    unfolding run_attempt_def Let_def st
    by (simp add: once st env cfg uid phase_call_def after_failure_def final_error_def
        start_state_def maxFailoverAttempts_def)
  ultimately have step: "\<exists>st. attempt_step demo_cfg demo_attempt 0 (start_state demo_cfg demo_account demo_state) =
      (Finished (Some demo_account) (Some (EUpstream \<lparr>ue_StatusCode = 503, ue_Raw = ''secret'', ue_Header = None\<rparr>)), st) \<and>
      fs_sent st = [(''u1'', False), (''u1'', True)]"
    by simp
  show ?thesis
    using step by (auto simp: OpenUpstreamScoped_def first mask_error_def IsChannelDenied_def scope)
qed

text \<open>C1. The failover loop of a request always ends: whatever the upstream, the catalogue, the
  scheduler and the renewal of credentials answer, at most five attempts are begun (the fuel of the
  loop), at most five requests are sent over all of them, and the request ends with an account or an
  error.\<close>

theorem failover_ends:
  "\<exists>a err st. OpenUpstreamScoped maxFailoverAttempts cfg env envs acc s = Some (a, err, st) \<and>
     length (fs_sent st) \<le> 5"
proof -
  obtain a err st where "OpenUpstreamScoped maxFailoverAttempts cfg env envs acc s =
      Some (a, mask_error env (fc_scope cfg) err, st)" "end_ok cfg (ac_UID acc) st"
    using failover_ok [OF order_refl] by metis
  then show ?thesis by (simp add: end_ok_def maxFailoverAttempts_def)
qed

text \<open>C2. No request is sent again once output reached the client: of the sends of a request, in
  their order, none but the last began to stream, so a client never sees the beginning of two answers.\<close>

theorem no_send_after_output:
  assumes "OpenUpstreamScoped maxFailoverAttempts cfg env envs acc s = Some (a, err, st)"
  shows "list_all (\<lambda>(uid, started). \<not> started) (butlast (fs_sent st))"
proof -
  have "end_ok cfg (ac_UID acc) st" using failover_ok [OF order_refl] assms by (metis option.inject prod.inject)
  then show ?thesis by (auto simp: end_ok_def list_all_iff)
qed

theorem no_send_after_output_witness:
  "\<exists>st :: failover_state. list_all (\<lambda>(uid, started). \<not> started) (butlast (fs_sent st)) \<and> fs_sent st = [(''u1'', False), (''u1'', True)]"
proof -
  from demo_run obtain st where run: "OpenUpstreamScoped maxFailoverAttempts demo_cfg demo_err (\<lambda>_. demo_attempt)
      demo_account demo_state = Some (Some demo_account,
        Some (EUpstream \<lparr>ue_StatusCode = 503, ue_Raw = masked_raw, ue_Header = None\<rparr>), st)"
    and sent: "fs_sent st = [(''u1'', False), (''u1'', True)]" by blast
  from no_send_after_output [OF run] sent show ?thesis by blast
qed



end
