(* ===== verification/ErrClassProps.thy ===== *)
theory ErrClassProps
  imports RoutingProps
begin

text \<open>
  The lengths of the cooldowns an upstream error imposes, and the one header value that escapes the
  sanity check.
\<close>

lemma ClampFloat_bounds:
  "lo \<noteq> NaN \<Longrightarrow> hi \<noteq> NaN \<Longrightarrow> fle lo hi \<Longrightarrow> v \<noteq> NaN \<Longrightarrow> fle lo (ClampFloat v lo hi) \<and> fle (ClampFloat v lo hi) hi"
  using not_flt [of v lo] not_flt [of hi v] by (auto simp: ClampFloat_def)

lemma ClampFloat_nan: "ClampFloat NaN lo hi = NaN"
  by (cases hi) (simp_all add: ClampFloat_def)

text \<open>A cooldown between \<open>lo\<close> and \<open>hi\<close> seconds, or not a number.\<close>

definition in_range :: "rat \<Rightarrow> rat \<Rightarrow> f64 \<Rightarrow> bool" where
  "in_range lo hi c = (isNaN c \<or> fle (Fin lo) c \<and> fle c (Fin hi))"

lemma clamp_in_range: "lo \<le> hi \<Longrightarrow> in_range lo hi (ClampFloat v (Fin lo) (Fin hi))"
  using ClampFloat_bounds [of "Fin lo" "Fin hi" v] ClampFloat_nan by (cases "v = NaN") (auto simp: in_range_def isNaN_def)

lemma in_range_mono: "in_range lo hi c \<Longrightarrow> lo' \<le> lo \<Longrightarrow> hi \<le> hi' \<Longrightarrow> in_range lo' hi' c"
  using fle_trans [of "Fin lo'" "Fin lo" c] fle_trans [of c "Fin hi" "Fin hi'"] by (auto simp: in_range_def)

lemma soft_in_range: "in_range 1 7200 (SoftRateCooldown env raw headers now)"
  using in_range_mono [OF clamp_in_range [of 60 7200]] clamp_in_range [of 1 7200]
  by (auto simp: SoftRateCooldown_def SoftRateMax_def SoftCooldownSec_def in_range_def [of _ _ "Fin 60"]
      split: option.split)

text \<open>Every cooldown is bounded: a rate limit cools an account for between 1 second and 2 hours, a
  model that an account does not have for 6 hours and only that pair, an exhausted balance for at
  least a minute, other faults for one or two minutes, and blameless errors not at all (a length that
  is not a number, which is no cooldown, aside).\<close>

theorem cooldown_bounds:
  "let c = ea_Cooldown (ActionFor env draw kind raw headers now)
   in case kind of
        ErrHardCredit \<Rightarrow> isNaN c \<or> fle (Fin 60) c
      | ErrSoftRate \<Rightarrow> in_range 1 7200 c
      | ErrWAFBlock \<Rightarrow> ParseRetryAfter env headers now = None \<or> in_range 1 7200 c
      | ErrNotFound \<Rightarrow> c = Fin 60
      | ErrServer \<Rightarrow> c = Fin 120
      | ErrModelBlocked \<Rightarrow> c = Fin 21600 \<and> ea_ModelScoped (ActionFor env draw kind raw headers now)
      | ErrAccountFault \<Rightarrow> c \<in> {Fin 0, Fin 60}
      | ErrSessionDead \<Rightarrow> c = Fin 0 \<and> ea_Disable (ActionFor env draw kind raw headers now)
      | _ \<Rightarrow> blameless kind \<and> c = Fin 0"
proof -
  have "isNaN (MaxFloat (Fin 60) x) \<or> fle (Fin 60) (MaxFloat (Fin 60) x)" for x
    using not_flt [of x "Fin 60"] by (auto simp: MaxFloat_def isNaN_def)
  moreover have "in_range 1 7200 (ClampFloat ra (Fin 1) (Fin 7200))" for ra
    by (rule clamp_in_range) simp
  ultimately show ?thesis
    using soft_in_range
    by (cases kind) (auto simp: Let_def ActionFor_def rotate_for_def no_action_def blameless_def WafCooldown_def
        NotFoundCooldown_def ServerCooldown_def ModelBlockBaseTTL_def SoftCooldownSec_def SoftRateMax_def split: option.split)
qed

text \<open>\<open>RetryAfterSanity\<close> does not catch a Retry-After that \<open>strconv.ParseFloat\<close> reads as not a number:
  both of its comparisons are false, so is the comparison of the cooldown with zero, and an account
  that was answered 429 with such a header is not cooled at all, while the same answer without the
  header cools it for a minute.\<close>

theorem nan_retry_after_cools_nothing:
  assumes "ee_float (re_err env) ''nan'' = Some NaN" "DailyModelLimit (re_err env) now (ue_Raw ue) = None"
    "ParseRateReset (ue_Raw ue) = None" "ClassifyUpstream (re_err env) (ue_StatusCode ue) (ue_Raw ue) = ErrSoftRate"
    "ue_Header ue = Some (\<lambda>name. if name = ''Retry-After'' then ''nan'' else [])"
  shows "fst (snd (penalizeAccount env now draw current uid model ue s)) = s \<and>
    ea_Cooldown (ActionFor (re_err env) draw ErrSoftRate (ue_Raw ue) None now) = Fin 60"
proof -
  have "trim_space ''nan'' = ''nan''" by (rule trim_space_printable) (simp add: printable_def)
  then have "retry_value (re_err env) now ''Retry-After'' ''nan'' = Some NaN"
    using assms(1) by (simp add: retry_value_def RetryAfterSanity_def Let_def)
  then have "SoftRateCooldown (re_err env) (ue_Raw ue) (ue_Header ue) now = NaN"
    using assms(3,5) by (simp add: SoftRateCooldown_def ParseRetryAfter_def RetryAfterHeaders_def ClampFloat_nan)
  then have "ActionFor (re_err env) draw ErrSoftRate (ue_Raw ue) (ue_Header ue) now = rotate_for NaN reason_rate"
    by (simp add: ActionFor_def)
  moreover have "ea_Cooldown (ActionFor (re_err env) draw ErrSoftRate (ue_Raw ue) None now) = Fin 60"
    using assms(3) by (simp add: ActionFor_def rotate_for_def no_action_def SoftRateCooldown_def ParseRetryAfter_def
        SoftCooldownSec_def)
  ultimately show ?thesis
    using assms(2,4)
    by (simp add: penalizeAccount_def MarkDailyModelLimit_def Let_def apply_action_def rotate_for_def no_action_def)
qed

definition nan_env :: route_env where
  "nan_env = demo_env\<lparr>re_err := demo_err\<lparr>ee_float := (\<lambda>t. if t = ''nan'' then Some NaN else None)\<rparr>\<rparr>"

definition nan_429 :: upstream_error where
  "nan_429 = \<lparr>ue_StatusCode = 429, ue_Raw = [], ue_Header = Some (\<lambda>name. if name = ''Retry-After'' then ''nan'' else [])\<rparr>"

theorem nan_retry_after_cools_nothing_witness:
  "fst (snd (penalizeAccount nan_env (Fin 0) (Fin 0) True ''u1'' ''m'' nan_429 demo_state)) = demo_state"
proof -
  have "ClassifyUpstream (re_err nan_env) (ue_StatusCode nan_429) (ue_Raw nan_429) = ErrSoftRate"
    by (simp add: ClassifyUpstream_def nan_env_def nan_429_def demo_env_def demo_err_def IsChannelDenied_def
        IsModelBlocked_def BusinessCode_def root_or_empty_def JsonRoot_def node_codes_def error_nodes_def code_keys_def
        HitFold_def SessionDeadMarkers_def AccountFaultMarkers_def CodeMarker_def marker_at_def has_prefix_def ToStr_def)
  moreover have "ParseRateReset (ue_Raw nan_429) = None"
    by (simp add: ParseRateReset_def nan_429_def reset_at_def bytes_def)
  ultimately have "fst (snd (penalizeAccount nan_env (Fin 0) (Fin 0) True ''u1'' ''m'' nan_429 demo_state)) = demo_state \<and>
      ea_Cooldown (ActionFor (re_err nan_env) (Fin 0) ErrSoftRate (ue_Raw nan_429) None (Fin 0)) = Fin 60"
    by (intro nan_retry_after_cools_nothing) (simp_all add: nan_env_def nan_429_def demo_env_def demo_err_def DailyModelLimit_def)
  then show ?thesis by blast
qed

end
