(* ===== verification/BodyCompatProps.thy ===== *)
theory BodyCompatProps
  imports BodyCompat
begin

text \<open>
  What the rewriting of a body changes: system texts and nothing else, and images and nothing else.
\<close>

subsection \<open>System texts\<close>

lemma map_changed_eq:
  "(case map_changed f xs of None \<Rightarrow> xs | Some ys \<Rightarrow> ys) = map (\<lambda>x. case f x of None \<Rightarrow> x | Some y \<Rightarrow> y) xs"
proof (cases "\<exists>x \<in> set xs. f x \<noteq> None")
  case True
  then show ?thesis by (simp add: map_changed_def)
next
  case False
  then have "map (\<lambda>x. case f x of None \<Rightarrow> x | Some y \<Rightarrow> y) xs = map (\<lambda>x. x) xs" by (intro map_cong) auto
  with False show ?thesis by (simp add: map_changed_def)
qed

lemma map_changed_some: "map_changed f xs \<noteq> None \<longleftrightarrow> (\<exists>x \<in> set xs. f x \<noteq> None)"
  by (simp add: map_changed_def)

text \<open>A value after a rewriting that may leave it alone.\<close>

definition after :: "('a \<Rightarrow> 'a option) \<Rightarrow> 'a \<Rightarrow> 'a" where
  "after f x = (case f x of None \<Rightarrow> x | Some y \<Rightarrow> y)"

lemma block_texts_after: "block_texts (after (rewrite_block f) item) = map f (block_texts item)"
  by (cases item) (auto simp: after_def rewrite_block_def block_texts_def split: json.splits)

lemma block_changed: "rewrite_block f item \<noteq> None \<longleftrightarrow> (\<exists>t \<in> set (block_texts item). f t \<noteq> t)"
  by (cases item) (auto simp: rewrite_block_def block_texts_def split: json.splits)

lemma list_content: "rewrite_content f (JList items) = (case map_changed (rewrite_block f) items of None \<Rightarrow> None | Some ys \<Rightarrow> Some (JList ys))"
  by (simp add: rewrite_content_def map_option_case)

lemma message_texts_after: "message_texts (after (rewrite_message f) item) = map f (message_texts item)"
proof (cases "\<exists>m. item = JObj m \<and> system_role m")
  case False
  then show ?thesis
    by (cases item) (auto simp: after_def rewrite_message_def message_texts_def)
next
  case True
  then obtain m where m: "item = JObj m" "system_role m" by blast
  have role: "system_role (jset ''content'' c m)" for c using m(2) by (simp add: system_role_def)
  show ?thesis
  proof (cases "jget m ''content''")
    case (JStr v)
    with m role show ?thesis
      by (auto simp: after_def rewrite_message_def message_texts_def rewrite_content_def)
  next
    case (JList items)
    have map: "concat (map block_texts (case map_changed (rewrite_block f) items of None \<Rightarrow> items | Some ys \<Rightarrow> ys)) =
        map f (concat (map block_texts items))"
      unfolding map_changed_eq using block_texts_after [of f] by (simp add: after_def o_def map_concat)
    show ?thesis
    proof (cases "map_changed (rewrite_block f) items")
      case None
      with m JList map show ?thesis by (simp add: after_def rewrite_message_def message_texts_def list_content)
    next
      case (Some ys)
      with m JList map role show ?thesis by (simp add: after_def rewrite_message_def message_texts_def list_content)
    qed
  qed (use m in \<open>simp_all add: after_def rewrite_message_def message_texts_def rewrite_content_def\<close>)
qed

lemma content_changed:
  "rewrite_content f c \<noteq> None \<longleftrightarrow> (\<exists>t \<in> set (case c of JStr v \<Rightarrow> [v] | JList items \<Rightarrow> concat (map block_texts items) | _ \<Rightarrow> []). f t \<noteq> t)"
  using map_changed_some [of "rewrite_block f"] block_changed [of f] by (cases c) (auto simp: rewrite_content_def)

lemma message_changed: "rewrite_message f item \<noteq> None \<longleftrightarrow> (\<exists>t \<in> set (message_texts item). f t \<noteq> t)"
  using content_changed [of f] by (cases item) (auto simp: rewrite_message_def message_texts_def)

text \<open>A message that declares no system text is left as it is, and another one keeps its other members.\<close>

definition kept_message :: "json \<Rightarrow> json \<Rightarrow> bool" where
  "kept_message item item' =
    (case item of
       JObj m \<Rightarrow> (if system_role m then item' = item \<or> (\<exists>c. item' = JObj (jset ''content'' c m)) else item' = item)
     | _ \<Rightarrow> item' = item)"

lemma message_kept: "kept_message item (after (rewrite_message f) item)"
  by (cases item) (auto simp: kept_message_def after_def rewrite_message_def split: option.split)

text \<open>A rewriting of the system texts changes exactly them: afterwards the system and developer texts
  of the body are the images of the texts before, in their order; every other message, and every other
  member of a message and of the body, is as it was; and it reports a change exactly when some text
  differs.\<close>

theorem system_rewrite_exact:
  "let (out, changed) = transformSystemText body f
   in system_texts out = map f (system_texts body) \<and> changed = (\<exists>t \<in> set (system_texts body). f t \<noteq> t) \<and>
     list_all2 kept_message (as_list (jget body ''messages'')) (as_list (jget out ''messages'')) \<and>
     (if changed then \<exists>ms. out = jset ''messages'' (JList ms) body else out = body)"
proof -
  define ms where "ms = as_list (jget body ''messages'')"
  define ms' where "ms' = map (after (rewrite_message f)) ms"
  have texts: "concat (map message_texts ms') = map f (concat (map message_texts ms))"
    using message_texts_after [of f] by (simp add: ms'_def o_def map_concat)
  have kept: "list_all2 kept_message ms ms'"
    using message_kept by (simp add: ms'_def list_all2_map2 list.rel_refl)
  have changed: "map_changed (rewrite_message f) ms \<noteq> None \<longleftrightarrow> (\<exists>t \<in> set (system_texts body). f t \<noteq> t)"
    unfolding map_changed_some message_changed by (auto simp: system_texts_def ms_def)
  have eq: "(case map_changed (rewrite_message f) ms of None \<Rightarrow> ms | Some ys \<Rightarrow> ys) = ms'"
    by (simp add: map_changed_eq ms'_def after_def)
  have as_list [simp]: "as_list (JList xs) = xs" for xs by (simp add: as_list_def)
  show ?thesis
  proof (cases "map_changed (rewrite_message f) ms")
    case None
    then have "transformSystemText body f = (body, False)" "ms' = ms"
      using eq by (simp_all add: transformSystemText_def ms_def [symmetric])
    with texts kept changed None show ?thesis by (simp add: system_texts_def ms_def [symmetric])
  next
    case (Some ys)
    then have "transformSystemText body f = (jset ''messages'' (JList ms') body, True)"
      using eq by (simp add: transformSystemText_def ms_def [symmetric])
    with texts kept changed Some show ?thesis by (auto simp: system_texts_def ms_def [symmetric])
  qed
qed

subsection \<open>Images\<close>

text \<open>The image parts of the messages that may carry them.\<close>

definition part_images :: "json list \<Rightarrow> nat" where
  "part_images parts = length (filter (\<lambda>v. as_str (jget (as_obj v) ''type'') \<in> set image_kinds) parts)"

definition message_images :: "json \<Rightarrow> nat" where
  "message_images item =
    (if image_role (as_obj item) then part_images (as_list (jget (as_obj item) ''content'')) else 0)"

definition image_count :: "json_object \<Rightarrow> nat" where
  "image_count body = sum_list (map message_images (as_list (jget body ''messages'')))"

lemma dropped_no_image: "as_str (jget (as_obj dropped_part) ''type'') \<notin> set image_kinds"
  by (simp add: dropped_part_def as_obj_def jget_def as_str_def image_kinds_def)

lemma image_parts_counts:
  assumes "image_parts act j parts = (parts', repaired, removed)"
  shows "repaired + removed \<le> part_images parts \<and> length parts' = length parts \<and>
    (repaired = 0 \<and> removed = 0 \<longrightarrow> parts' = parts) \<and>
    ((\<forall>i part. act i part = DropImage) \<longrightarrow> repaired = 0 \<and> removed = part_images parts \<and> part_images parts' = 0)"
  using assms
proof (induction parts arbitrary: j parts' repaired removed)
  case (Cons v parts)
  obtain rest p r where rest: "image_parts act (Suc j) parts = (rest, p, r)" by (metis prod_cases3)
  show ?case
  proof (cases "as_str (jget (as_obj v) ''type'') \<notin> set image_kinds")
    case True
    with Cons.prems rest Cons.IH [OF rest] show ?thesis by (auto simp: part_images_def)
  next
    case False
    define all_dropped where "all_dropped = (\<forall>i part. act i part = DropImage)"
    have "act j (as_obj v) \<noteq> DropImage \<Longrightarrow> \<not> all_dropped" by (auto simp: all_dropped_def)
    then show ?thesis
      using False Cons.prems rest Cons.IH [OF rest] dropped_no_image unfolding all_dropped_def [symmetric]
      by (cases "act j (as_obj v)") (auto simp: part_images_def)
  qed
qed (simp add: part_images_def)

lemma image_message_counts:
  assumes "image_message act item = (item', repaired, removed)"
  shows "repaired + removed \<le> message_images item \<and> (repaired = 0 \<and> removed = 0 \<longrightarrow> item' = item) \<and>
    (image_role (as_obj item') \<longleftrightarrow> image_role (as_obj item)) \<and> (\<not> image_role (as_obj item) \<longrightarrow> item' = item) \<and>
    ((\<forall>i part. act i part = DropImage) \<longrightarrow> repaired = 0 \<and> removed = message_images item \<and> message_images item' = 0)"
proof (cases "image_role (as_obj item)")
  case False
  with assms show ?thesis by (simp add: image_message_def message_images_def Let_def)
next
  case True
  obtain ps p r where ps: "image_parts act 0 (as_list (jget (as_obj item) ''content'')) = (ps, p, r)" by (metis prod_cases3)
  have role: "image_role (jset ''content'' c (as_obj item))" for c using True by (simp add: image_role_def)
  from image_parts_counts [OF ps] assms True ps role show ?thesis
    by (auto simp: image_message_def message_images_def Let_def as_obj_def [of "JObj _"] as_list_def [of "JList _"] split: if_splits)
qed

lemma image_messages_counts:
  assumes "image_messages act i items = (items', repaired, removed)"
  shows "repaired + removed \<le> sum_list (map message_images items) \<and>
    list_all2 (\<lambda>m m'. image_role (as_obj m) \<or> m' = m) items items' \<and>
    ((\<forall>i j part. act i j part = DropImage) \<longrightarrow> repaired = 0 \<and> removed = sum_list (map message_images items) \<and>
       sum_list (map message_images items') = 0)"
  using assms
proof (induction items arbitrary: i items' repaired removed)
  case (Cons item items)
  obtain m p1 r1 where m: "image_message (act i) item = (m, p1, r1)" by (metis prod_cases3)
  obtain rest p2 r2 where rest: "image_messages act (Suc i) items = (rest, p2, r2)" by (metis prod_cases3)
  from Cons.prems m rest have eq: "items' = m # rest" "repaired = p1 + p2" "removed = r1 + r2" by simp_all
  from image_message_counts [OF m] Cons.IH [OF rest] show ?case unfolding eq by fastforce
qed simp

text \<open>The repair of images touches images only and counts them: it repairs and removes at most as many
  as the user, assistant and tool messages have, leaves every other message as it is, and changes
  nothing when it counts none. The full fallback removes every image of those messages: it reports
  exactly their number, and none is left.\<close>

theorem image_repair_counts:
  "(let (out, repaired, removed) = transformRequestImages body act
    in repaired + removed \<le> image_count body \<and>
      list_all2 (\<lambda>m m'. image_role (as_obj m) \<or> m' = m) (as_list (jget body ''messages'')) (as_list (jget out ''messages'')) \<and>
      (if repaired = 0 \<and> removed = 0 then out = body else \<exists>ms. out = jset ''messages'' (JList ms) body)) \<and>
   snd (withoutRequestImages body) = image_count body \<and> image_count (fst (withoutRequestImages body)) = 0"
proof -
  have as_list [simp]: "as_list (JList xs) = xs" for xs by (simp add: as_list_def)
  have same: "list_all2 (\<lambda>m m'. image_role (as_obj m) \<or> m' = m) items items" for items
    by (simp add: list_all2_same)
  obtain ms p r where ms: "image_messages act 0 (as_list (jget body ''messages'')) = (ms, p, r)" by (metis prod_cases3)
  obtain ds p' r' where ds: "image_messages (\<lambda>i j part. DropImage) 0 (as_list (jget body ''messages'')) = (ds, p', r')"
    by (metis prod_cases3)
  note c = image_messages_counts [OF ms] and d = image_messages_counts [OF ds]
  have d': "p' = 0" "r' = image_count body" "sum_list (map message_images ds) = 0"
    using d by (simp_all add: image_count_def)
  have "let (out, repaired, removed) = transformRequestImages body act
    in repaired + removed \<le> image_count body \<and>
      list_all2 (\<lambda>m m'. image_role (as_obj m) \<or> m' = m) (as_list (jget body ''messages'')) (as_list (jget out ''messages'')) \<and>
      (if repaired = 0 \<and> removed = 0 then out = body else \<exists>ms. out = jset ''messages'' (JList ms) body)"
    using c ms same by (auto simp: transformRequestImages_def image_count_def)
  moreover have "snd (withoutRequestImages body) = image_count body \<and> image_count (fst (withoutRequestImages body)) = 0"
  proof (cases "r' = 0")
    case True
    with ds d' show ?thesis by (simp add: withoutRequestImages_def transformRequestImages_def)
  next
    case False
    with ds d' show ?thesis
      by (simp add: withoutRequestImages_def transformRequestImages_def image_count_def)
  qed
  ultimately show ?thesis by blast
qed

end
