(* ===== verification/TokenUsage.thy ===== *)
theory TokenUsage
  imports Json
begin

text \<open>
  The reading of upstream token counts: internal/tokenusage/usage.go. A count is an int; None is the
  nil pointer of an observation that was not made.
\<close>

subsection \<open>Counts\<close>

text \<open>\<open>number\<close>: an int, or a float64 that is an integer in the range of int.\<close>

definition number :: "json \<Rightarrow> int option" where
  "number v =
    (case v of
       JInt n \<Rightarrow> Some n
     | JNum (Fin q) \<Rightarrow> if q = of_int (floor q) \<and> go_int (floor q) then Some (floor q) else None
     | _ \<Rightarrow> None)"

fun first_number :: "json_object \<Rightarrow> string list \<Rightarrow> int option" where
  "first_number u [] = None"
| "first_number u (k # ks) =
    (case number (jget u k) of Some n \<Rightarrow> Some n | None \<Rightarrow> first_number u ks)"

text \<open>\<open>cacheCount\<close>: the zero and the invalid count seen so far are the accumulators.\<close>

fun cache_scan :: "json list \<Rightarrow> int option \<Rightarrow> int option \<Rightarrow> int option" where
  "cache_scan [] zero invalid = (if zero \<noteq> None then zero else invalid)"
| "cache_scan (v # vs) zero invalid =
    (case number v of
       None \<Rightarrow> cache_scan vs zero invalid
     | Some n \<Rightarrow>
         if n > 0 then Some n
         else if n = 0 then cache_scan vs (Some n) invalid
         else cache_scan vs zero (Some n))"

definition cacheCount :: "json list \<Rightarrow> int option" where
  "cacheCount vs = cache_scan vs None None"

definition detail :: "json_object \<Rightarrow> string \<Rightarrow> string \<Rightarrow> json" where
  "detail u key field = jget (as_obj (jget u key)) field"

definition Cached :: "json_object \<Rightarrow> int option" where
  "Cached u =
    cacheCount [jget u ''prompt_cache_hit_tokens'', jget u ''cache_read_input_tokens'',
      detail u ''prompt_tokens_details'' ''cached_tokens'', detail u ''input_tokens_details'' ''cached_tokens'']"

definition Created :: "json_object \<Rightarrow> int option" where
  "Created u =
    cacheCount [jget u ''cache_creation_input_tokens'', jget u ''prompt_cache_write_tokens'',
      detail u ''prompt_tokens_details'' ''cache_creation_input_tokens'',
      detail u ''prompt_tokens_details'' ''cache_write_tokens'',
      detail u ''input_tokens_details'' ''cache_creation_input_tokens'']"

definition output_count :: "json_object \<Rightarrow> int option" where
  "output_count u = first_number u [''completion_tokens'', ''output_tokens'']"

definition input_count :: "json_object \<Rightarrow> int option" where
  "input_count u = first_number u [''prompt_tokens'', ''input_tokens'']"

fun reasoning_scan :: "int option \<Rightarrow> json list \<Rightarrow> int option" where
  "reasoning_scan output [] = None"
| "reasoning_scan output (v # vs) =
    (case number v of
       Some n \<Rightarrow>
         if 0 \<le> n \<and> (case output of None \<Rightarrow> True | Some out \<Rightarrow> n \<le> out) then Some n
         else reasoning_scan output vs
     | None \<Rightarrow> reasoning_scan output vs)"

definition Reasoning :: "json_object \<Rightarrow> int option" where
  "Reasoning u =
    reasoning_scan (output_count u)
      [detail u ''completion_tokens_details'' ''reasoning_tokens'',
       detail u ''output_tokens_details'' ''reasoning_tokens'', jget u ''reasoning_tokens'']"

subsection \<open>Totals\<close>

definition nativeAnthropic :: "json_object \<Rightarrow> bool" where
  "nativeAnthropic u =
    (if number (jget u ''prompt_tokens'') \<noteq> None \<or> number (jget u ''input_tokens'') = None then False
     else if map_of u ''input_tokens_details'' \<noteq> None then False
     else map_of u ''cache_read_input_tokens'' \<noteq> None \<or> map_of u ''cache_creation_input_tokens'' \<noteq> None)"

text \<open>One step of the inclusive input: a valid count is added where the sum stays in range.\<close>

definition add_count :: "int \<Rightarrow> int option \<Rightarrow> int" where
  "add_count i c =
    (case c of
       Some n \<Rightarrow> if 0 \<le> n \<and> 0 \<le> i \<and> n \<le> (2 ^ 63 - 1) - i then wrap64 (i + n) else i
     | None \<Rightarrow> i)"

definition Totals :: "json_object \<Rightarrow> int \<times> int" where
  "Totals u =
    (let i = (case input_count u of None \<Rightarrow> 0 | Some n \<Rightarrow> n);
         out = (case output_count u of None \<Rightarrow> 0 | Some n \<Rightarrow> n)
     in (if nativeAnthropic u then add_count (add_count i (Cached u)) (Created u) else i, out))"

definition KnownTotals :: "json_object \<Rightarrow> bool \<times> bool" where
  "KnownTotals u =
    ((case input_count u of None \<Rightarrow> False | Some n \<Rightarrow> 0 \<le> n),
     (case output_count u of None \<Rightarrow> False | Some n \<Rightarrow> 0 \<le> n))"

text \<open>\<open>ValidCache\<close>: the cache read and write counts that are possible beside the input.\<close>

definition possible :: "int \<Rightarrow> int option \<Rightarrow> int option" where
  "possible i c = (case c of Some n \<Rightarrow> if n < 0 \<or> n > i then None else Some n | None \<Rightarrow> None)"

definition ValidCache :: "json_object \<Rightarrow> int option \<times> int option" where
  "ValidCache u =
    (let i = fst (Totals u); r = possible i (Cached u); w = possible i (Created u)
     in case (r, w) of
          (Some rn, Some wn) \<Rightarrow> if wn > i - rn then (None, None) else (r, w)
        | _ \<Rightarrow> (r, w))"

subsection \<open>Merging the usage of several chunks\<close>

text \<open>
  The members of an incoming object, one after the other: a null leaves the current value, an object
  is merged into it, anything else replaces it.
\<close>

fun Merge :: "json_object \<Rightarrow> json_object \<Rightarrow> json_object" where
  "Merge current [] = current"
| "Merge current ((k, v) # ms) =
    (case v of
       JNull \<Rightarrow> Merge current ms
     | JObj sub \<Rightarrow> Merge (jset k (JObj (Merge (as_obj (jget current k)) sub)) current) ms
     | _ \<Rightarrow> Merge (jset k v current) ms)"

subsection \<open>Properties\<close>

text \<open>The ints that a Go map holds are in range.\<close>

fun ints_ok :: "json \<Rightarrow> bool" where
  "ints_ok (JInt n) = go_int n"
| "ints_ok (JList xs) = list_all ints_ok xs"
| "ints_ok (JObj m) = list_all (\<lambda>(k, v). ints_ok v) m"
| "ints_ok _ = True"

lemma ints_ok_get: "ints_ok (JObj m) \<Longrightarrow> ints_ok (jget m k)"
  by (auto simp: jget_def list_all_iff split: option.splits dest: map_of_SomeD)

lemma ints_ok_detail: "ints_ok (JObj m) \<Longrightarrow> ints_ok (detail m k f)"
  using ints_ok_get [of m k] by (cases "jget m k") (auto simp: detail_def as_obj_def intro: ints_ok_get)

lemma number_range: "number v = Some n \<Longrightarrow> ints_ok v \<Longrightarrow> go_int n"
  by (auto simp: number_def split: json.splits f64.splits if_splits)

lemma first_number_range: "first_number u ks = Some n \<Longrightarrow> ints_ok (JObj u) \<Longrightarrow> go_int n"
  by (induction ks) (auto simp del: ints_ok.simps split: option.splits dest: number_range [OF _ ints_ok_get])

lemma add_count_range: "go_int i \<Longrightarrow> go_int (add_count i c)"
  by (auto simp: add_count_def split: option.splits)

lemma add_count_ge: "go_int i \<Longrightarrow> i \<le> add_count i c"
  by (auto simp: add_count_def go_int_def split: option.splits)

text \<open>
  The inclusive totals never overflow: both are ints, the input is at least what the upstream counted
  itself, and it is exactly that plus the valid cache counts when the sum fits.
\<close>

theorem usage_totals_bounded:
  assumes "ints_ok (JObj u)"
  shows "case Totals u of (i, out) \<Rightarrow>
    go_int i \<and> go_int out \<and> (case input_count u of None \<Rightarrow> 0 | Some n \<Rightarrow> n) \<le> i \<and>
    (if nativeAnthropic u then True else i = (case input_count u of None \<Rightarrow> 0 | Some n \<Rightarrow> n))"
proof -
  have zero: "go_int 0" by (simp add: go_int_def)
  let ?i = "case input_count u of None \<Rightarrow> 0 | Some n \<Rightarrow> n"
  have i: "go_int ?i"
    using zero assms
    by (auto simp: input_count_def simp del: first_number.simps ints_ok.simps split: option.splits dest: first_number_range)
  have out: "go_int (case output_count u of None \<Rightarrow> 0 | Some n \<Rightarrow> n)"
    using zero assms
    by (auto simp: output_count_def simp del: first_number.simps ints_ok.simps split: option.splits dest: first_number_range)
  have a: "go_int (add_count ?i (Cached u))" by (rule add_count_range [OF i])
  have "go_int (add_count (add_count ?i (Cached u)) (Created u))"
    "?i \<le> add_count (add_count ?i (Cached u)) (Created u)"
    using add_count_range [OF a] add_count_ge [OF i, of "Cached u"] add_count_ge [OF a, of "Created u"] by auto
  with i out show ?thesis by (simp add: Totals_def Let_def)
qed

theorem usage_totals_bounded_witness:
  "case Totals [(''input_tokens'', JNum (Fin 9)), (''cache_read_input_tokens'', JNum (Fin 4))] of (i, out) \<Rightarrow>
    go_int i \<and> i = 13 \<and> out = 0"
proof -
  let ?u = "[(''input_tokens'', JNum (Fin 9)), (''cache_read_input_tokens'', JNum (Fin 4))]"
  have "ints_ok (JObj ?u)" by simp
  from usage_totals_bounded [OF this] have "go_int (fst (Totals ?u))" by (simp add: case_prod_beta)
  moreover have "Totals ?u = (13, 0)"
  proof -
    have four: "number (JNum (Fin 4)) = Some 4" "number (JNum (Fin 9)) = Some 9"
      by (simp_all add: number_def go_int_def)
    have none: "number JNull = None" by (simp add: number_def)
    have "input_count ?u = Some 9" "output_count ?u = None"
      by (simp_all add: input_count_def output_count_def jget_def four none)
    moreover have "Cached ?u = Some 4" "Created ?u = None"
      by (simp_all add: Cached_def Created_def cacheCount_def detail_def jget_def as_obj_def four none)
    moreover have "nativeAnthropic ?u" by (simp add: nativeAnthropic_def jget_def four none)
    ultimately show ?thesis by (simp add: Totals_def add_count_def go_int_def)
  qed
  ultimately show ?thesis by simp
qed

text \<open>
  The cache counts shown to clients are possible: each is a count between zero and the input, and when
  both are shown, reads and writes together do not exceed the input.
\<close>

theorem valid_cache_possible:
  "case ValidCache u of (r, w) \<Rightarrow>
    (case r of None \<Rightarrow> True | Some n \<Rightarrow> 0 \<le> n \<and> n \<le> fst (Totals u) \<and> Cached u = Some n) \<and>
    (case w of None \<Rightarrow> True | Some n \<Rightarrow> 0 \<le> n \<and> n \<le> fst (Totals u) \<and> Created u = Some n) \<and>
    (case (r, w) of (Some rn, Some wn) \<Rightarrow> rn + wn \<le> fst (Totals u) | _ \<Rightarrow> True)"
  by (auto simp: ValidCache_def possible_def Let_def split: option.splits if_splits)

lemma jget_Merge_other: "k \<notin> fst ` set incoming \<Longrightarrow> jget (Merge current incoming) k = jget current k"
proof (induction current incoming rule: Merge.induct)
  case (2 current l v ms)
  then show ?case by (cases v) auto
qed simp

lemma merge_member:
  "Merge current ((k, v) # ms) =
    Merge (case v of JNull \<Rightarrow> current | JObj sub \<Rightarrow> jset k (JObj (Merge (as_obj (jget current k)) sub)) current
           | _ \<Rightarrow> jset k v current) ms"
  by (cases v) simp_all

lemma jget_Merge:
  "distinct (map fst incoming) \<Longrightarrow> map_of incoming k = Some v \<Longrightarrow>
   jget (Merge current incoming) k =
    (case v of JNull \<Rightarrow> jget current k | JObj sub \<Rightarrow> JObj (Merge (as_obj (jget current k)) sub) | _ \<Rightarrow> v)"
proof (induction incoming arbitrary: current)
  case (Cons m ms)
  obtain l w where m: "m = (l, w)" by fastforce
  show ?case
  proof (cases "l = k")
    case True
    with Cons.prems m have w: "w = v" "k \<notin> fst ` set ms" by auto
    show ?thesis
      unfolding m True w(1) merge_member by (cases v) (simp_all add: jget_Merge_other [OF w(2)])
  next
    case False
    with Cons.prems m have ms: "distinct (map fst ms)" "map_of ms k = Some v" by auto
    have "jget (case w of JNull \<Rightarrow> current | JObj sub \<Rightarrow> jset l (JObj (Merge (as_obj (jget current l)) sub)) current
           | _ \<Rightarrow> jset l w current) k = jget current k"
      using False by (cases w) simp_all
    with Cons.IH [OF ms] show ?thesis unfolding m merge_member by (simp only:)
  qed
qed simp

text \<open>
  Merging the usage of a chunk: what the chunk leaves out or gives as null stays as it was, an object is
  merged in the same way, anything else is taken over.
\<close>

theorem usage_merge_fields:
  assumes "distinct (map fst incoming)"
  shows "jget (Merge current incoming) k =
    (case jget incoming k of
       JNull \<Rightarrow> jget current k
     | JObj sub \<Rightarrow> JObj (Merge (as_obj (jget current k)) sub)
     | v \<Rightarrow> v)"
proof (cases "map_of incoming k")
  case None
  then have "k \<notin> fst ` set incoming" by (simp add: map_of_eq_None_iff)
  moreover have "jget incoming k = JNull" using None by (simp add: jget_def)
  ultimately show ?thesis by (simp add: jget_Merge_other)
next
  case (Some v)
  then have "jget incoming k = v" by (simp add: jget_def)
  with jget_Merge [OF assms Some] show ?thesis by (cases v) simp_all
qed

theorem usage_merge_fields_witness:
  "jget (Merge [(''a'', JInt 1), (''b'', JInt 2)] [(''a'', JNull), (''b'', JInt 3)]) ''b'' = JInt 3"
proof -
  have "distinct (map fst [(''a'', JNull), (''b'', JInt 3)])" by simp
  from usage_merge_fields [OF this, of "[(''a'', JInt 1), (''b'', JInt 2)]" "''b''"] show ?thesis
    by (simp add: jget_def)
qed

end
