(* ===== verification/Bridge.thy ===== *)
theory Bridge
  imports TokenUsage
begin

text \<open>
  The common form that the protocol bridge translates through: internal/core/protocol/protocol.go,
  the types of bridge.go, the content blocks of content.go, and the usage objects and stop reasons of
  response.go.

  A struct's zero value is its record with empty fields. \<open>bridgeBlock.Result\<close> is \<open>any\<close>: a decoded JSON
  value or, after an image-bearing tool result was decoded, a list of blocks, whose own results are
  JSON; the field is therefore a parameter of the block's type. \<open>encoding/json\<close> is the record
  \<open>json_codec\<close>; random identifiers are the texts of successive draws from \<open>crypto/rand\<close>.
\<close>

subsection \<open>Protocols and identifiers\<close>

datatype protocol = Chat | Responses | Anthropic | SystemOne | OtherProtocol string

definition protocol_text :: "protocol \<Rightarrow> string" where
  "protocol_text p =
    (case p of Chat \<Rightarrow> ''chat'' | Responses \<Rightarrow> ''responses'' | Anthropic \<Rightarrow> ''anthropic''
     | SystemOne \<Rightarrow> ''systemone'' | OtherProtocol s \<Rightarrow> s)"

definition Valid :: "protocol \<Rightarrow> bool" where
  "Valid p = (p = Chat \<or> p = Responses \<or> p = Anthropic \<or> p = SystemOne)"

definition Path :: "protocol \<Rightarrow> string" where
  "Path p =
    (case p of
       Responses \<Rightarrow> ''/v1/responses''
     | Anthropic \<Rightarrow> ''/v1/messages''
     | SystemOne \<Rightarrow> ''/v1/systemone''
     | _ \<Rightarrow> ''/v1/chat/completions'')"

definition trim_prefix :: "string \<Rightarrow> string \<Rightarrow> string" where
  "trim_prefix s p = (if has_prefix s p then drop (length p) s else s)"

definition asPrefix :: "string \<Rightarrow> string \<Rightarrow> string" where
  "asPrefix s prefix =
    (if has_prefix s (prefix @ ''_'') then s
     else prefix @ ''_'' @ trim_prefix (trim_prefix (trim_prefix s ''chatcmpl_'') ''resp_'') ''msg_'')"

text \<open>\<open>draws k\<close> is the hexadecimal text of the k-th random identifier.\<close>

type_synonym draws = "nat \<Rightarrow> string"

definition RandomID :: "draws \<Rightarrow> string \<Rightarrow> nat \<Rightarrow> string \<times> nat" where
  "RandomID rnds prefix k = (prefix @ ''_'' @ rnds k, Suc k)"

record json_codec =
  jc_marshal :: "json \<Rightarrow> string option"
  jc_unmarshal :: "string \<Rightarrow> json option"

text \<open>\<open>json.Unmarshal\<close> into a \<open>map[string]any\<close>; null leaves the map nil.\<close>

definition unmarshal_object :: "json_codec \<Rightarrow> string \<Rightarrow> json_object option" where
  "unmarshal_object jc s =
    (case jc_unmarshal jc s of Some (JObj m) \<Rightarrow> Some m | Some JNull \<Rightarrow> Some [] | _ \<Rightarrow> None)"

definition ParseJSONOrString :: "json_codec \<Rightarrow> string \<Rightarrow> json" where
  "ParseJSONOrString jc s =
    (if s = [] then JObj [] else case jc_unmarshal jc s of Some v \<Rightarrow> v | None \<Rightarrow> JStr s)"

subsection \<open>Blocks\<close>

record 'r block =
  bk_Kind :: string
  bk_Text :: string
  bk_Signature :: string
  bk_Encrypted :: string
  bk_URL :: string
  bk_MediaType :: string
  bk_Data :: string
  bk_FileID :: string
  bk_Filename :: string
  bk_ID :: string
  bk_Name :: string
  bk_Arguments :: json
  bk_ArgumentsJSON :: string
  bk_CallID :: string
  bk_Result :: 'r
  bk_IsError :: bool

type_synonym inner_block = "json block"

datatype tool_output = OutJson json | OutBlocks "inner_block list"

type_synonym bridge_block = "tool_output block"

definition block_of :: "(json \<Rightarrow> 'r) \<Rightarrow> string \<Rightarrow> 'r block" where
  "block_of emb kind = \<lparr>bk_Kind = kind, bk_Text = [], bk_Signature = [], bk_Encrypted = [], bk_URL = [],
     bk_MediaType = [], bk_Data = [], bk_FileID = [], bk_Filename = [], bk_ID = [], bk_Name = [],
     bk_Arguments = JNull, bk_ArgumentsJSON = [], bk_CallID = [], bk_Result = emb JNull, bk_IsError = False\<rparr>"

datatype bridge_error =
    BlockNotObject protocol | UnsupportedBlock protocol string | UnsupportedContent
  | NoChoices | ResponseContent protocol string | UnsupportedOutputItem string | UnsupportedProtocol protocol
  | BadToolImages nat | InvalidJson string | UnexpectedDone protocol | UpstreamFailed string
  | RequestError string | RewriteError string

subsection \<open>Content of OpenAI messages\<close>

definition openai_image_url :: "json_object \<Rightarrow> string" where
  "openai_image_url part = FirstString [StringAt part [''image_url'', ''url''], StringAt part [''image_url'']]"

definition openai_file :: "(json \<Rightarrow> 'r) \<Rightarrow> json_object \<Rightarrow> 'r block" where
  "openai_file emb part =
    (let file = MapAt part [''file'']
     in (block_of emb ''file'')\<lparr>
          bk_FileID := FirstString [StringAt part [''file_id''], StringAt file [''file_id'']],
          bk_Filename := FirstString [StringAt part [''filename''], StringAt file [''filename'']],
          bk_MediaType := FirstString [StringAt part [''media_type''], StringAt file [''media_type'']],
          bk_Data := FirstString [StringAt part [''file_data''], StringAt file [''file_data'']]\<rparr>)"

definition openai_block :: "(json \<Rightarrow> 'r) \<Rightarrow> json \<Rightarrow> bridge_error + 'r block" where
  "openai_block emb raw =
    (case raw of
       JObj part \<Rightarrow>
         let kind = StringAt part [''type'']
         in if kind = ''refusal'' then Inr ((block_of emb ''text'')\<lparr>bk_Text := StringAt part [''refusal'']\<rparr>)
            else if kind \<in> {''text'', ''input_text'', ''output_text''}
            then Inr ((block_of emb ''text'')\<lparr>bk_Text := StringAt part [''text'']\<rparr>)
            else if kind = ''image_url'' then Inr ((block_of emb ''image'')\<lparr>bk_URL := openai_image_url part\<rparr>)
            else if kind = ''input_image''
            then Inr ((block_of emb ''image'')\<lparr>bk_URL := StringAt part [''image_url'']\<rparr>)
            else if kind = ''file'' \<or> kind = ''input_file'' then Inr (openai_file emb part)
            else Inl (UnsupportedBlock Chat kind)
     | _ \<Rightarrow> Inl (BlockNotObject Chat))"

text \<open>The first error of a list of decodings, or all results.\<close>

fun collect :: "('e + 'a) list \<Rightarrow> 'e + 'a list" where
  "collect [] = Inr []"
| "collect (x # xs) =
    (case x of
       Inl e \<Rightarrow> Inl e
     | Inr a \<Rightarrow> (case collect xs of Inl e \<Rightarrow> Inl e | Inr as \<Rightarrow> Inr (a # as)))"

definition decodeOpenAIBlocksChecked :: "(json \<Rightarrow> 'r) \<Rightarrow> json \<Rightarrow> bridge_error + 'r block list" where
  "decodeOpenAIBlocksChecked emb v =
    (case v of
       JStr s \<Rightarrow> Inr (if s = [] then [] else [(block_of emb ''text'')\<lparr>bk_Text := s\<rparr>])
     | JObj m \<Rightarrow> collect [openai_block emb (JObj m)]
     | JList xs \<Rightarrow> collect (map (openai_block emb) xs)
     | JNull \<Rightarrow> Inr []
     | _ \<Rightarrow> Inl UnsupportedContent)"

definition blocks_or_nil :: "bridge_error + 'r block list \<Rightarrow> 'r block list" where
  "blocks_or_nil r = (case r of Inl e \<Rightarrow> [] | Inr bs \<Rightarrow> bs)"

definition decodeOpenAIBlocks :: "(json \<Rightarrow> 'r) \<Rightarrow> json \<Rightarrow> 'r block list" where
  "decodeOpenAIBlocks emb v = blocks_or_nil (decodeOpenAIBlocksChecked emb v)"

subsection \<open>Content of Anthropic messages\<close>

definition anthropic_image :: "(json \<Rightarrow> 'r) \<Rightarrow> json_object \<Rightarrow> 'r block" where
  "anthropic_image emb part =
    (let source = MapAt part [''source'']
     in if StringAt source [''type''] = ''url''
        then (block_of emb ''image'')\<lparr>bk_URL := StringAt source [''url'']\<rparr>
        else (block_of emb ''image'')\<lparr>bk_MediaType := StringAt source [''media_type''],
               bk_Data := StringAt source [''data'']\<rparr>)"

definition anthropic_document :: "(json \<Rightarrow> 'r) \<Rightarrow> json_object \<Rightarrow> 'r block" where
  "anthropic_document emb part =
    (let source = MapAt part [''source''];
         data = FirstString [StringAt source [''data''], StringAt source [''text'']]
     in if StringAt source [''type''] = ''text'' then (block_of emb ''text'')\<lparr>bk_Text := data\<rparr>
        else (block_of emb ''file'')\<lparr>bk_URL := StringAt source [''url''],
               bk_MediaType := StringAt source [''media_type''], bk_Data := data,
               bk_Filename := StringAt part [''title'']\<rparr>)"

definition anthropic_block :: "(json \<Rightarrow> 'r) \<Rightarrow> json \<Rightarrow> bridge_error + 'r block" where
  "anthropic_block emb raw =
    (case raw of
       JObj part \<Rightarrow>
         let kind = StringAt part [''type'']
         in if kind = ''thinking''
            then Inr ((block_of emb ''reasoning'')\<lparr>bk_Text := StringAt part [''thinking''],
                   bk_Signature := StringAt part [''signature'']\<rparr>)
            else if kind = ''redacted_thinking''
            then Inr ((block_of emb ''reasoning'')\<lparr>bk_Encrypted := StringAt part [''data'']\<rparr>)
            else if kind = ''text'' then Inr ((block_of emb ''text'')\<lparr>bk_Text := StringAt part [''text'']\<rparr>)
            else if kind = ''image'' then Inr (anthropic_image emb part)
            else if kind = ''document'' then Inr (anthropic_document emb part)
            else if kind = ''tool_use''
            then Inr ((block_of emb ''tool_call'')\<lparr>bk_ID := StringAt part [''id''],
                   bk_Name := StringAt part [''name''], bk_Arguments := jget part ''input''\<rparr>)
            else if kind = ''tool_result''
            then Inr ((block_of emb ''tool_result'')\<lparr>bk_CallID := StringAt part [''tool_use_id''],
                   bk_Result := emb (jget part ''content''), bk_IsError := BoolAt part [''is_error'']\<rparr>)
            else Inl (UnsupportedBlock Anthropic kind)
     | _ \<Rightarrow> Inl (BlockNotObject Anthropic))"

definition decodeAnthropicBlocksChecked :: "(json \<Rightarrow> 'r) \<Rightarrow> json \<Rightarrow> bridge_error + 'r block list" where
  "decodeAnthropicBlocksChecked emb v =
    (case v of
       JStr s \<Rightarrow> Inr (if s = [] then [] else [(block_of emb ''text'')\<lparr>bk_Text := s\<rparr>])
     | _ \<Rightarrow> collect (map (anthropic_block emb) (AsSlice v)))"

definition decodeAnthropicBlocks :: "(json \<Rightarrow> 'r) \<Rightarrow> json \<Rightarrow> 'r block list" where
  "decodeAnthropicBlocks emb v = blocks_or_nil (decodeAnthropicBlocksChecked emb v)"

subsection \<open>Reasoning\<close>

definition redacted_placeholder :: string where
  "redacted_placeholder = ''[redacted thinking]''"

definition decodeChatReasoning :: "json_object \<Rightarrow> bridge_block list" where
  "decodeChatReasoning message =
    (let value = (if map_of message ''reasoning_content'' \<noteq> None then jget message ''reasoning_content''
                  else jget message ''reasoning'')
     in case value of
          JStr text \<Rightarrow>
            [(block_of OutJson ''reasoning'')\<lparr>bk_Text := text,
               bk_Signature := StringAt message [''reasoning_signature'']\<rparr>]
        | _ \<Rightarrow> [])"

definition part_text :: "json \<Rightarrow> string" where
  "part_text raw = StringAt (as_obj raw) [''text'']"

definition decodeResponsesReasoning :: "json_object \<Rightarrow> bridge_block list" where
  "decodeResponsesReasoning item =
    (let text = concat (map part_text (AsSlice (jget item ''summary'') @ AsSlice (jget item ''content'')));
         encrypted = StringAt item [''encrypted_content'']
     in if text = [] \<and> encrypted = [] then []
        else [(block_of OutJson ''reasoning'')\<lparr>bk_ID := StringAt item [''id''], bk_Text := text,
                bk_Encrypted := encrypted\<rparr>])"

definition encodeResponsesReasoning :: "draws \<Rightarrow> 'r block \<Rightarrow> bool \<Rightarrow> nat \<Rightarrow> json_object \<times> nat" where
  "encodeResponsesReasoning rnds b completed k =
    (let (ident, k) = (if bk_ID b = [] then RandomID rnds ''rs'' k else (bk_ID b, k));
         summary = (if bk_Text b \<noteq> [] then [JObj [(''type'', JStr ''summary_text''), (''text'', JStr (bk_Text b))]] else [])
     in ([(''id'', JStr ident), (''type'', JStr ''reasoning''), (''summary'', JList summary)] @
         (if bk_Encrypted b \<noteq> [] then [(''encrypted_content'', JStr (bk_Encrypted b))] else []) @
         (if completed then [(''status'', JStr ''completed'')] else []), k))"

definition encodeResponsesReasoningInput :: "draws \<Rightarrow> 'r block \<Rightarrow> nat \<Rightarrow> json_object option \<times> nat" where
  "encodeResponsesReasoningInput rnds b k =
    (if bk_ID b = [] \<and> bk_Encrypted b = [] then (None, k)
     else case encodeResponsesReasoning rnds b False k of (item, k) \<Rightarrow> (Some item, k))"

definition bridgeReasoningText :: "'r block list \<Rightarrow> string option" where
  "bridgeReasoningText bs =
    (if bs = [] then None
     else Some (concat (map (\<lambda>b. if bk_Text b \<noteq> [] then bk_Text b
                             else if bk_Encrypted b \<noteq> [] then redacted_placeholder else []) bs)))"

definition bridgeReasoningSignature :: "'r block list \<Rightarrow> string" where
  "bridgeReasoningSignature bs =
    (case List.find (\<lambda>b. bk_Signature b \<noteq> []) (rev bs) of None \<Rightarrow> [] | Some b \<Rightarrow> bk_Signature b)"

subsection \<open>Encoding blocks\<close>

definition data_url :: "'r block \<Rightarrow> string" where
  "data_url b = ''data:'' @ bk_MediaType b @ '';base64,'' @ bk_Data b"

definition chat_part :: "'r block \<Rightarrow> json option" where
  "chat_part b =
    (if bk_Kind b = ''text'' then Some (JObj [(''type'', JStr ''text''), (''text'', JStr (bk_Text b))])
     else if bk_Kind b = ''image''
     then Some (JObj [(''type'', JStr ''image_url''),
            (''image_url'', JObj [(''url'', JStr (if bk_URL b = [] \<and> bk_Data b \<noteq> [] then data_url b else bk_URL b))])])
     else if bk_Kind b = ''file''
     then Some (JObj [(''type'', JStr ''file''),
            (''file'', JObj [(''file_id'', JStr (bk_FileID b)), (''file_data'', JStr (bk_Data b)),
               (''filename'', JStr (bk_Filename b))])])
     else None)"

definition encodeChatBlocks :: "'r block list \<Rightarrow> json" where
  "encodeChatBlocks bs =
    (case bs of
       [b] \<Rightarrow> if bk_Kind b = ''text'' then JStr (bk_Text b) else JList (List.map_filter chat_part bs)
     | _ \<Rightarrow> JList (List.map_filter chat_part bs))"

definition anthropic_source :: "'r block \<Rightarrow> json_object option" where
  "anthropic_source b =
    (if bk_URL b \<noteq> [] then Some [(''type'', JStr ''url''), (''url'', JStr (bk_URL b))]
     else if bk_Data b \<noteq> []
     then Some [(''type'', JStr ''base64''),
            (''media_type'', JStr (FirstString [bk_MediaType b, ''application/octet-stream''])),
            (''data'', JStr (bk_Data b))]
     else None)"

definition anthropic_part :: "json_codec \<Rightarrow> ('r \<Rightarrow> json) \<Rightarrow> 'r block \<Rightarrow> json option" where
  "anthropic_part jc out b =
    (if bk_Kind b = ''text'' then Some (JObj [(''type'', JStr ''text''), (''text'', JStr (bk_Text b))])
     else if bk_Kind b = ''image''
     then Some (JObj [(''type'', JStr ''image''),
            (''source'', JObj (if bk_URL b \<noteq> [] then [(''type'', JStr ''url''), (''url'', JStr (bk_URL b))]
              else [(''type'', JStr ''base64''), (''media_type'', JStr (bk_MediaType b)), (''data'', JStr (bk_Data b))]))])
     else if bk_Kind b = ''file''
     then map_option (\<lambda>source. JObj [(''type'', JStr ''document''), (''source'', JObj source),
            (''title'', JStr (bk_Filename b))]) (anthropic_source b)
     else if bk_Kind b = ''tool_call''
     then Some (JObj [(''type'', JStr ''tool_use''), (''id'', JStr (bk_ID b)), (''name'', JStr (bk_Name b)),
            (''input'', if bk_Arguments b = JNull then ParseJSONOrString jc (bk_ArgumentsJSON b) else bk_Arguments b)])
     else if bk_Kind b = ''tool_result''
     then Some (JObj [(''type'', JStr ''tool_result''), (''tool_use_id'', JStr (bk_CallID b)),
            (''content'', out (bk_Result b)), (''is_error'', JBool (bk_IsError b))])
     else if bk_Kind b = ''reasoning''
     then Some (if bk_Encrypted b \<noteq> []
            then JObj [(''type'', JStr ''redacted_thinking''), (''data'', JStr (bk_Encrypted b))]
            else JObj [(''type'', JStr ''thinking''), (''thinking'', JStr (bk_Text b)), (''signature'', JStr (bk_Signature b))])
     else None)"

definition result_json :: "json_codec \<Rightarrow> tool_output \<Rightarrow> json" where
  "result_json jc r =
    (case r of OutJson j \<Rightarrow> j | OutBlocks bs \<Rightarrow> JList (List.map_filter (anthropic_part jc id) bs))"

definition encodeAnthropicBlocks :: "json_codec \<Rightarrow> bridge_block list \<Rightarrow> json list" where
  "encodeAnthropicBlocks jc bs = List.map_filter (anthropic_part jc (result_json jc)) bs"

definition bridgeArgumentsJSON :: "json_codec \<Rightarrow> 'r block \<Rightarrow> string" where
  "bridgeArgumentsJSON jc b =
    (if bk_ArgumentsJSON b \<noteq> [] then bk_ArgumentsJSON b
     else if bk_Arguments b = JNull then ''{}''
     else case jc_marshal jc (bk_Arguments b) of None \<Rightarrow> ''{}'' | Some s \<Rightarrow> s)"

text \<open>The texts of a list that consists of text parts only.\<close>

definition text_part :: "json \<Rightarrow> string option" where
  "text_part raw =
    (case raw of JObj part \<Rightarrow> if StringAt part [''type''] = ''text'' then Some (StringAt part [''text'']) else None
     | _ \<Rightarrow> None)"

definition bridgeToolResultContent :: "json_codec \<Rightarrow> json \<Rightarrow> string" where
  "bridgeToolResultContent jc v =
    (case (case v of
             JStr s \<Rightarrow> Some s
           | JList xs \<Rightarrow> if list_all (\<lambda>x. text_part x \<noteq> None) xs
                         then Some (concat (List.map_filter text_part xs)) else None
           | _ \<Rightarrow> None) of
       Some s \<Rightarrow> s
     | None \<Rightarrow> (case jc_marshal jc v of None \<Rightarrow> [] | Some s \<Rightarrow> s))"

definition bridgeBlocksText :: "'r block list \<Rightarrow> string" where
  "bridgeBlocksText bs = concat (map bk_Text (filter (\<lambda>b. bk_Kind b = ''text'') bs))"

subsection \<open>Tool choice\<close>

record tool_choice =
  tc_Mode :: string
  tc_Name :: string

definition no_choice :: tool_choice where
  "no_choice = \<lparr>tc_Mode = [], tc_Name = []\<rparr>"

definition decodeChatToolChoice :: "json \<Rightarrow> tool_choice" where
  "decodeChatToolChoice v =
    (case v of
       JStr mode \<Rightarrow> \<lparr>tc_Mode = mode, tc_Name = []\<rparr>
     | _ \<Rightarrow> let choice = as_obj v
            in if StringAt choice [''type''] = ''function''
               then \<lparr>tc_Mode = ''named'', tc_Name = StringAt choice [''function'', ''name'']\<rparr> else no_choice)"

definition decodeResponsesToolChoice :: "json \<Rightarrow> tool_choice" where
  "decodeResponsesToolChoice v =
    (case v of
       JStr mode \<Rightarrow> \<lparr>tc_Mode = mode, tc_Name = []\<rparr>
     | _ \<Rightarrow> let choice = as_obj v
            in if StringAt choice [''type''] = ''function''
               then \<lparr>tc_Mode = ''named'', tc_Name = StringAt choice [''name'']\<rparr> else no_choice)"

definition anthropic_choice_of :: "string \<Rightarrow> string \<Rightarrow> tool_choice" where
  "anthropic_choice_of typ name =
    (if typ = ''auto'' then \<lparr>tc_Mode = ''auto'', tc_Name = []\<rparr>
     else if typ = ''none'' then \<lparr>tc_Mode = ''none'', tc_Name = []\<rparr>
     else if typ = ''any'' then \<lparr>tc_Mode = ''required'', tc_Name = []\<rparr>
     else if typ = ''tool'' then \<lparr>tc_Mode = ''named'', tc_Name = name\<rparr>
     else no_choice)"

definition decodeAnthropicToolChoice :: "json \<Rightarrow> tool_choice" where
  "decodeAnthropicToolChoice v =
    (case v of
       JStr mode \<Rightarrow> anthropic_choice_of (if mode = ''required'' then ''any'' else mode) []
     | _ \<Rightarrow> anthropic_choice_of (StringAt (as_obj v) [''type'']) (StringAt (as_obj v) [''name'']))"

definition plain_mode :: "tool_choice \<Rightarrow> json" where
  "plain_mode c = (if tc_Mode c \<in> {''auto'', ''none'', ''required''} then JStr (tc_Mode c) else JNull)"

definition encodeChatToolChoice :: "tool_choice \<Rightarrow> json" where
  "encodeChatToolChoice c =
    (if tc_Mode c = ''named''
     then JObj [(''type'', JStr ''function''), (''function'', JObj [(''name'', JStr (tc_Name c))])]
     else plain_mode c)"

definition encodeResponsesToolChoice :: "tool_choice \<Rightarrow> json" where
  "encodeResponsesToolChoice c =
    (if tc_Mode c = ''named'' then JObj [(''type'', JStr ''function''), (''name'', JStr (tc_Name c))]
     else plain_mode c)"

definition encodeAnthropicToolChoice :: "tool_choice \<Rightarrow> json" where
  "encodeAnthropicToolChoice c =
    (if tc_Mode c = ''named'' then JObj [(''type'', JStr ''tool''), (''name'', JStr (tc_Name c))]
     else if tc_Mode c = ''required'' then JObj [(''type'', JStr ''any'')]
     else if tc_Mode c = ''auto'' then JObj [(''type'', JStr ''auto'')]
     else JNull)"

end
