(* ===== verification/BridgeResponse.thy ===== *)
theory BridgeResponse
  imports Bridge
begin

text \<open>
  Complete responses in the common form: the usage objects, the stop reasons, and the decoding and
  encoding of a response document of internal/core/protocol/response.go. Sums of token counts wrap
  like the ints they are.
\<close>

subsection \<open>Usage\<close>

record token_usage =
  us_FinishReason :: string
  us_Input :: int
  us_Output :: int
  us_Total :: int
  us_Cached :: int
  us_CachedKnown :: bool
  us_CacheCreation :: int
  us_CacheCreationKnown :: bool
  us_Reasoning :: int
  us_ReasoningKnown :: bool

definition no_usage :: token_usage where
  "no_usage = \<lparr>us_FinishReason = [], us_Input = 0, us_Output = 0, us_Total = 0, us_Cached = 0,
     us_CachedKnown = False, us_CacheCreation = 0, us_CacheCreationKnown = False, us_Reasoning = 0,
     us_ReasoningKnown = False\<rparr>"

definition observed :: "int option \<Rightarrow> int \<Rightarrow> int" where
  "observed c n = (case c of None \<Rightarrow> n | Some m \<Rightarrow> m)"

definition decodeOpenAIUsage :: "json_object \<Rightarrow> token_usage" where
  "decodeOpenAIUsage u =
    (let input = FirstNonZero [IntAt u [''prompt_tokens''], IntAt u [''input_tokens'']];
         output = FirstNonZero [IntAt u [''completion_tokens''], IntAt u [''output_tokens'']];
         total = IntAt u [''total_tokens''];
         cached = FirstNonZero [IntAt u [''prompt_tokens_details'', ''cached_tokens''],
                    IntAt u [''input_tokens_details'', ''cached_tokens'']];
         creation = FirstNonZero [IntAt u [''cache_creation_input_tokens''],
                    IntAt u [''prompt_tokens_details'', ''cache_creation_input_tokens''],
                    IntAt u [''prompt_tokens_details'', ''cache_write_tokens''],
                    IntAt u [''input_tokens_details'', ''cache_creation_input_tokens'']];
         reasoning = FirstNonZero [IntAt u [''completion_tokens_details'', ''reasoning_tokens''],
                    IntAt u [''output_tokens_details'', ''reasoning_tokens'']];
         created = (case Created u of Some n \<Rightarrow> if 0 \<le> n \<and> n \<le> input then Some n else None | None \<Rightarrow> None)
     in \<lparr>us_FinishReason = [], us_Input = input, us_Output = output,
          us_Total = (if total = 0 then wrap64 (input + output) else total),
          us_Cached = observed (Cached u) cached, us_CachedKnown = (Cached u \<noteq> None),
          us_CacheCreation = observed created creation, us_CacheCreationKnown = (created \<noteq> None),
          us_Reasoning = observed (Reasoning u) reasoning, us_ReasoningKnown = (Reasoning u \<noteq> None)\<rparr>)"

definition decodeAnthropicUsage :: "json_object \<Rightarrow> token_usage" where
  "decodeAnthropicUsage u =
    (let cached = IntAt u [''cache_read_input_tokens''];
         creation = IntAt u [''cache_creation_input_tokens''];
         output = IntAt u [''output_tokens''];
         input = wrap64 (IntAt u [''input_tokens''] + wrap64 (cached + creation))
     in no_usage\<lparr>us_Input := input, us_Output := output, us_Total := wrap64 (input + output),
          us_Cached := cached, us_CachedKnown := (Cached u \<noteq> None),
          us_CacheCreation := creation, us_CacheCreationKnown := (Created u \<noteq> None)\<rparr>)"

definition cacheDetails :: "token_usage \<Rightarrow> json_object" where
  "cacheDetails u = (if us_CachedKnown u \<or> us_Cached u \<noteq> 0 then [(''cached_tokens'', JInt (us_Cached u))] else [])"

definition reasoning_details :: "string \<Rightarrow> token_usage \<Rightarrow> json_object" where
  "reasoning_details key u =
    (if us_ReasoningKnown u then [(key, JObj [(''reasoning_tokens'', JInt (us_Reasoning u))])] else [])"

definition openAIUsage :: "token_usage \<Rightarrow> json_object" where
  "openAIUsage u =
    [(''prompt_tokens'', JInt (us_Input u)), (''completion_tokens'', JInt (us_Output u)),
     (''total_tokens'', JInt (us_Total u))] @
    (if cacheDetails u \<noteq> [] then [(''prompt_tokens_details'', JObj (cacheDetails u))] else []) @
    reasoning_details ''completion_tokens_details'' u"

definition responsesUsage :: "token_usage \<Rightarrow> json_object" where
  "responsesUsage u =
    [(''input_tokens'', JInt (us_Input u)), (''output_tokens'', JInt (us_Output u)),
     (''total_tokens'', JInt (us_Total u))] @
    (if cacheDetails u \<noteq> [] then [(''input_tokens_details'', JObj (cacheDetails u))] else []) @
    reasoning_details ''output_tokens_details'' u"

definition anthropicUsage :: "token_usage \<Rightarrow> json_object" where
  "anthropicUsage u =
    [(''input_tokens'', JInt (max (wrap64 (wrap64 (us_Input u - us_Cached u) - us_CacheCreation u)) 0)),
     (''output_tokens'', JInt (us_Output u)),
     (''cache_creation_input_tokens'', JInt (us_CacheCreation u))] @
    (if us_CachedKnown u \<or> us_Cached u \<noteq> 0 then [(''cache_read_input_tokens'', JInt (us_Cached u))] else [])"

text \<open>\<open>mergeBridgeUsage\<close>: the destination after a chunk's usage.\<close>

definition mergeBridgeUsage :: "token_usage \<Rightarrow> token_usage \<Rightarrow> token_usage" where
  "mergeBridgeUsage d s =
    (let input = (if us_Input s \<noteq> 0 then us_Input s else us_Input d);
         output = (if us_Output s \<noteq> 0 then us_Output s else us_Output d);
         total = (if us_Total s \<noteq> 0 then max (us_Total d) (us_Total s) else us_Total d)
     in \<lparr>us_FinishReason = (if us_FinishReason s \<noteq> [] then us_FinishReason s else us_FinishReason d),
          us_Input = input, us_Output = output, us_Total = max total (wrap64 (input + output)),
          us_Cached = (if us_CachedKnown s \<or> us_Cached s \<noteq> 0 then us_Cached s else us_Cached d),
          us_CachedKnown = (us_CachedKnown d \<or> us_CachedKnown s),
          us_CacheCreation = (if us_CacheCreationKnown s \<or> us_CacheCreation s \<noteq> 0
             then us_CacheCreation s else us_CacheCreation d),
          us_CacheCreationKnown = (us_CacheCreationKnown d \<or> us_CacheCreationKnown s),
          us_Reasoning = (if us_ReasoningKnown s \<or> us_Reasoning s \<noteq> 0 then us_Reasoning s else us_Reasoning d),
          us_ReasoningKnown = (us_ReasoningKnown d \<or> us_ReasoningKnown s)\<rparr>)"

subsection \<open>Stop reasons\<close>

definition chatStop :: "string \<Rightarrow> string" where
  "chatStop stop =
    (if stop \<in> {''tool_use'', ''tool_calls''} then ''tool_calls''
     else if stop \<in> {''max_tokens'', ''length''} then ''length''
     else if stop \<in> {''content_filter'', ''error''} then stop
     else ''stop'')"

definition anthropicStop :: "string \<Rightarrow> string" where
  "anthropicStop stop =
    (if stop \<in> {''tool_use'', ''tool_calls''} then ''tool_use''
     else if stop \<in> {''max_tokens'', ''length''} then ''max_tokens''
     else if stop \<in> {''stop_sequence'', ''pause_turn'', ''refusal''} then stop
     else ''end_turn'')"

definition error_stops :: "string set" where
  "error_stops = {''error'', ''failed'', ''failure'', ''network_error'', ''server_error''}"

definition canonicalChatStop :: "string \<Rightarrow> string" where
  "canonicalChatStop stop =
    (if stop \<in> {''tool_calls'', ''function_call''} then ''tool_calls''
     else if stop = ''length'' then ''length''
     else if stop = ''content_filter'' then ''content_filter''
     else if stop \<in> error_stops then ''error''
     else ''stop'')"

definition canonicalAnthropicStop :: "string \<Rightarrow> string" where
  "canonicalAnthropicStop stop =
    (if stop = ''tool_use'' then ''tool_calls''
     else if stop = ''max_tokens'' then ''length''
     else if stop \<in> {''stop_sequence'', ''pause_turn'', ''refusal''} then stop
     else if stop \<in> error_stops then ''error''
     else ''stop'')"

definition isToolStop :: "string \<Rightarrow> bool" where
  "isToolStop stop = (stop \<in> {''tool_calls'', ''tool_use'', ''function_call''})"

definition canonicalResponsesIncomplete :: "string \<Rightarrow> string" where
  "canonicalResponsesIncomplete reason = (if reason = ''content_filter'' then ''content_filter'' else ''length'')"

definition responsesIncompleteReason :: "string \<Rightarrow> string" where
  "responsesIncompleteReason stop = (if stop = ''content_filter'' then ''content_filter'' else ''max_output_tokens'')"

definition usableToolBlocks :: "'r block list \<Rightarrow> 'r block list" where
  "usableToolBlocks tools = filter (\<lambda>b. trim_space (bk_Name b) \<noteq> []) tools"

subsection \<open>Decoding a response\<close>

record bridge_response =
  br_ID :: string
  br_Model :: string
  br_Text :: string
  br_Reasoning :: "bridge_block list"
  br_Tools :: "bridge_block list"
  br_Stop :: string
  br_Error :: string
  br_Usage :: token_usage
  br_Created :: int

definition response_base :: "int \<Rightarrow> json_object \<Rightarrow> bridge_response" where
  "response_base now input =
    \<lparr>br_ID = StringAt input [''id''], br_Model = StringAt input [''model''], br_Text = [], br_Reasoning = [],
     br_Tools = [], br_Stop = [], br_Error = [], br_Usage = no_usage,
     br_Created = (let c = IntAt input [''created''] in
        if c \<noteq> 0 then c else let c = IntAt input [''created_at''] in if c \<noteq> 0 then c else now)\<rparr>"

definition responseTextBlocks :: "protocol \<Rightarrow> 'r block list \<Rightarrow> bridge_error + string" where
  "responseTextBlocks p bs =
    (case List.find (\<lambda>b. bk_Kind b \<noteq> ''text'') bs of
       Some b \<Rightarrow> Inl (ResponseContent p (bk_Kind b))
     | None \<Rightarrow> Inr (bridgeBlocksText bs))"

definition content_text :: "protocol \<Rightarrow> json \<Rightarrow> bridge_error + string" where
  "content_text p v =
    (case decodeOpenAIBlocksChecked OutJson v of Inl e \<Rightarrow> Inl e | Inr bs \<Rightarrow> responseTextBlocks p bs)"

definition chat_call :: "json \<Rightarrow> bridge_block" where
  "chat_call raw =
    (let call = as_obj raw; function = MapAt call [''function'']
     in (block_of OutJson ''tool_call'')\<lparr>bk_ID := StringAt call [''id''], bk_Name := StringAt function [''name''],
          bk_ArgumentsJSON := StringAt function [''arguments'']\<rparr>)"

definition decode_chat_response :: "json_object \<Rightarrow> bridge_response \<Rightarrow> bridge_error + bridge_response" where
  "decode_chat_response input r =
    (let r = r\<lparr>br_Error := StringAt input [''error'', ''message'']\<rparr>
     in if br_Error r \<noteq> [] then Inr r
        else case SliceAt input [''choices''] of
               [] \<Rightarrow> Inl NoChoices
             | raw # _ \<Rightarrow>
                 let choice = as_obj raw; message = MapAt choice [''message'']
                 in case content_text Chat (jget message ''content'') of
                      Inl e \<Rightarrow> Inl e
                    | Inr text \<Rightarrow>
                        Inr (r\<lparr>br_Reasoning := decodeChatReasoning message,
                               br_Text := text @ StringAt message [''refusal''],
                               br_Tools := map chat_call (SliceAt message [''tool_calls'']),
                               br_Stop := canonicalChatStop (StringAt choice [''finish_reason'']),
                               br_Usage := decodeOpenAIUsage (MapAt input [''usage''])\<rparr>))"

definition responses_call :: "json_object \<Rightarrow> bridge_block" where
  "responses_call item =
    (block_of OutJson ''tool_call'')\<lparr>bk_ID := FirstString [StringAt item [''call_id''], StringAt item [''id'']],
      bk_Name := StringAt item [''name''], bk_ArgumentsJSON := StringAt item [''arguments'']\<rparr>"

fun responses_items :: "json list \<Rightarrow> bridge_response \<Rightarrow> bridge_error + bridge_response" where
  "responses_items [] r = Inr r"
| "responses_items (raw # raws) r =
    (let item = as_obj raw; kind = StringAt item [''type'']
     in if kind = ''reasoning''
        then responses_items raws (r\<lparr>br_Reasoning := br_Reasoning r @ decodeResponsesReasoning item\<rparr>)
        else if kind = ''message''
        then (case content_text Responses (jget item ''content'') of
                Inl e \<Rightarrow> Inl e
              | Inr text \<Rightarrow> responses_items raws (r\<lparr>br_Text := br_Text r @ text\<rparr>))
        else if kind = ''function_call''
        then responses_items raws (r\<lparr>br_Tools := br_Tools r @ [responses_call item]\<rparr>)
        else Inl (UnsupportedOutputItem kind))"

definition decode_responses_response :: "json_object \<Rightarrow> bridge_response \<Rightarrow> bridge_error + bridge_response" where
  "decode_responses_response input r =
    (case responses_items (SliceAt input [''output'']) r of
       Inl e \<Rightarrow> Inl e
     | Inr r \<Rightarrow>
         let status = StringAt input [''status''];
             r = r\<lparr>br_Stop := (if br_Tools r \<noteq> [] then ''tool_calls'' else ''stop'')\<rparr>;
             r = (if status = ''incomplete''
                  then r\<lparr>br_Stop := canonicalResponsesIncomplete (StringAt input [''incomplete_details'', ''reason''])\<rparr>
                  else if status = ''failed''
                  then r\<lparr>br_Stop := ''error'', br_Error :=
                         FirstString [StringAt input [''error'', ''message''], ''upstream Responses request failed'']\<rparr>
                  else r)
         in Inr (r\<lparr>br_Usage := decodeOpenAIUsage (MapAt input [''usage''])\<rparr>))"

fun anthropic_items :: "bridge_block list \<Rightarrow> bridge_response \<Rightarrow> bridge_error + bridge_response" where
  "anthropic_items [] r = Inr r"
| "anthropic_items (b # bs) r =
    (if bk_Kind b = ''reasoning'' then anthropic_items bs (r\<lparr>br_Reasoning := br_Reasoning r @ [b]\<rparr>)
     else if bk_Kind b = ''text'' then anthropic_items bs (r\<lparr>br_Text := br_Text r @ bk_Text b\<rparr>)
     else if bk_Kind b = ''tool_call'' then anthropic_items bs (r\<lparr>br_Tools := br_Tools r @ [b]\<rparr>)
     else Inl (ResponseContent Anthropic (bk_Kind b)))"

definition decode_anthropic_response :: "json_object \<Rightarrow> bridge_response \<Rightarrow> bridge_error + bridge_response" where
  "decode_anthropic_response input r =
    (let r = (if StringAt input [''type''] = ''error''
              then r\<lparr>br_Error := FirstString [StringAt input [''error'', ''message''], ''upstream Anthropic request failed'']\<rparr>
              else r)
     in case decodeAnthropicBlocksChecked OutJson (jget input ''content'') of
          Inl e \<Rightarrow> Inl e
        | Inr bs \<Rightarrow>
            (case anthropic_items bs r of
               Inl e \<Rightarrow> Inl e
             | Inr r \<Rightarrow>
                 Inr (r\<lparr>br_Stop := canonicalAnthropicStop (StringAt input [''stop_reason'']),
                        br_Usage := decodeAnthropicUsage (MapAt input [''usage''])\<rparr>)))"

definition decodeBridgeResponse :: "int \<Rightarrow> protocol \<Rightarrow> json_object \<Rightarrow> bridge_error + bridge_response" where
  "decodeBridgeResponse now p input =
    (case p of
       Chat \<Rightarrow> decode_chat_response input (response_base now input)
     | Responses \<Rightarrow> decode_responses_response input (response_base now input)
     | Anthropic \<Rightarrow> decode_anthropic_response input (response_base now input)
     | _ \<Rightarrow> Inl (UnsupportedProtocol p))"

subsection \<open>Encoding a response\<close>

text \<open>The tool stop without a usable tool becomes a plain stop.\<close>

definition settle_tools :: "bridge_response \<Rightarrow> bridge_response" where
  "settle_tools r =
    (if isToolStop (br_Stop r)
     then let tools = usableToolBlocks (br_Tools r)
          in if tools = [] then r\<lparr>br_Tools := [], br_Stop := ''stop''\<rparr> else r\<lparr>br_Tools := tools\<rparr>
     else r)"

definition chat_tool_call :: "json_codec \<Rightarrow> 'r block \<Rightarrow> json" where
  "chat_tool_call jc b =
    JObj [(''id'', JStr (bk_ID b)), (''type'', JStr ''function''),
      (''function'', JObj [(''name'', JStr (bk_Name b)), (''arguments'', JStr (bridgeArgumentsJSON jc b))])]"

definition encode_chat_response :: "json_codec \<Rightarrow> bridge_response \<Rightarrow> json_object" where
  "encode_chat_response jc r =
    (let message =
       [(''role'', JStr ''assistant''), (''content'', JStr (br_Text r))] @
       (case bridgeReasoningText (br_Reasoning r) of None \<Rightarrow> [] | Some t \<Rightarrow> [(''reasoning_content'', JStr t)]) @
       (if bridgeReasoningSignature (br_Reasoning r) \<noteq> []
        then [(''reasoning_signature'', JStr (bridgeReasoningSignature (br_Reasoning r)))] else []) @
       (if br_Tools r \<noteq> [] then [(''tool_calls'', JList (map (chat_tool_call jc) (br_Tools r)))] else [])
     in [(''id'', JStr (asPrefix (br_ID r) ''chatcmpl'')), (''object'', JStr ''chat.completion''),
         (''created'', JInt (br_Created r)), (''model'', JStr (br_Model r)),
         (''choices'', JList [JObj [(''index'', JInt 0), (''message'', JObj message),
            (''finish_reason'', JStr (chatStop (br_Stop r)))]]),
         (''usage'', JObj (openAIUsage (br_Usage r)))])"

text \<open>The output items draw their identifiers in order.\<close>

fun reasoning_items :: "draws \<Rightarrow> 'r block list \<Rightarrow> nat \<Rightarrow> json list \<times> nat" where
  "reasoning_items rnds [] k = ([], k)"
| "reasoning_items rnds (b # bs) k =
    (case encodeResponsesReasoning rnds b True k of
       (item, k) \<Rightarrow> (case reasoning_items rnds bs k of (items, k) \<Rightarrow> (JObj item # items, k)))"

definition message_item :: "draws \<Rightarrow> string \<Rightarrow> nat \<Rightarrow> json list \<times> nat" where
  "message_item rnds text k =
    (if text = [] then ([], k)
     else case RandomID rnds ''msg'' k of
       (ident, k) \<Rightarrow>
         ([JObj [(''id'', JStr ident), (''type'', JStr ''message''), (''status'', JStr ''completed''),
             (''role'', JStr ''assistant''),
             (''content'', JList [JObj [(''type'', JStr ''output_text''), (''text'', JStr text),
                (''annotations'', JList [])]])]], k))"

fun call_items :: "json_codec \<Rightarrow> draws \<Rightarrow> 'r block list \<Rightarrow> nat \<Rightarrow> json list \<times> nat" where
  "call_items jc rnds [] k = ([], k)"
| "call_items jc rnds (b # bs) k =
    (case RandomID rnds ''fc'' k of
       (ident, k) \<Rightarrow>
         (case call_items jc rnds bs k of
            (items, k) \<Rightarrow>
              (JObj [(''id'', JStr ident), (''type'', JStr ''function_call''), (''status'', JStr ''completed''),
                 (''call_id'', JStr (bk_ID b)), (''name'', JStr (bk_Name b)),
                 (''arguments'', JStr (bridgeArgumentsJSON jc b))] # items, k)))"

definition responses_status :: "string \<Rightarrow> string" where
  "responses_status stop =
    (if stop = ''length'' \<or> stop = ''content_filter'' then ''incomplete''
     else if stop = ''error'' then ''failed'' else ''completed'')"

definition encode_responses_response ::
    "json_codec \<Rightarrow> draws \<Rightarrow> bridge_response \<Rightarrow> nat \<Rightarrow> json_object \<times> nat" where
  "encode_responses_response jc rnds r k =
    (case reasoning_items rnds (br_Reasoning r) k of
       (reasoning, k) \<Rightarrow>
         (case message_item rnds (br_Text r) k of
            (message, k) \<Rightarrow>
              (case call_items jc rnds (br_Tools r) k of
                 (calls, k) \<Rightarrow>
                   ([(''id'', JStr (asPrefix (br_ID r) ''resp'')), (''object'', JStr ''response''),
                     (''created_at'', JInt (br_Created r)), (''status'', JStr (responses_status (br_Stop r))),
                     (''model'', JStr (br_Model r)), (''output'', JList (reasoning @ message @ calls)),
                     (''error'', JNull),
                     (''incomplete_details'',
                        if responses_status (br_Stop r) = ''incomplete''
                        then JObj [(''reason'', JStr (responsesIncompleteReason (br_Stop r)))] else JNull),
                     (''usage'', JObj (responsesUsage (br_Usage r)))], k))))"

definition encode_anthropic_response :: "json_codec \<Rightarrow> bridge_response \<Rightarrow> json_object" where
  "encode_anthropic_response jc r =
    (let content = encodeAnthropicBlocks jc (br_Reasoning r) @
           (if br_Text r \<noteq> [] then [JObj [(''type'', JStr ''text''), (''text'', JStr (br_Text r))]] else []) @
           map (\<lambda>b. JObj [(''type'', JStr ''tool_use''), (''id'', JStr (bk_ID b)), (''name'', JStr (bk_Name b)),
             (''input'', if bk_Arguments b = JNull then ParseJSONOrString jc (bk_ArgumentsJSON b)
                         else bk_Arguments b)]) (br_Tools r)
     in [(''id'', JStr (asPrefix (br_ID r) ''msg'')), (''type'', JStr ''message''), (''role'', JStr ''assistant''),
         (''model'', JStr (br_Model r)), (''content'', JList content),
         (''stop_reason'', JStr (anthropicStop (br_Stop r))), (''stop_sequence'', JNull),
         (''usage'', JObj (anthropicUsage (br_Usage r)))])"

definition encodeBridgeResponse ::
    "json_codec \<Rightarrow> draws \<Rightarrow> protocol \<Rightarrow> bridge_response \<Rightarrow> nat \<Rightarrow> json_object \<times> nat" where
  "encodeBridgeResponse jc rnds p r k =
    (let (ident, k) = (if br_ID r = [] then RandomID rnds ''resp'' k else (br_ID r, k));
         r = settle_tools (r\<lparr>br_ID := ident\<rparr>)
     in case p of
          Chat \<Rightarrow> (encode_chat_response jc r, k)
        | Responses \<Rightarrow> encode_responses_response jc rnds r k
        | Anthropic \<Rightarrow> (encode_anthropic_response jc r, k)
        | _ \<Rightarrow> ([], k))"

definition ConvertResponse ::
    "json_codec \<Rightarrow> draws \<Rightarrow> int \<Rightarrow> protocol \<Rightarrow> protocol \<Rightarrow> string \<Rightarrow> nat \<Rightarrow> (bridge_error + string) \<times> nat" where
  "ConvertResponse jc rnds now from to body k =
    (if from = to then (Inr body, k)
     else case unmarshal_object jc body of
            None \<Rightarrow> (Inl (InvalidJson body), k)
          | Some input \<Rightarrow>
              (case decodeBridgeResponse now from input of
                 Inl e \<Rightarrow> (Inl e, k)
               | Inr r \<Rightarrow>
                   if br_Error r \<noteq> [] \<or> br_Stop r = ''error''
                   then (Inl (UpstreamFailed (FirstString [br_Error r, ''upstream response failed''])), k)
                   else case encodeBridgeResponse jc rnds to r k of
                          (doc, k) \<Rightarrow>
                            (case jc_marshal jc (JObj doc) of
                               None \<Rightarrow> (Inl (InvalidJson []), k) | Some s \<Rightarrow> (Inr s, k))))"

text \<open>The termination a complete document shows, for the usage log.\<close>

definition responsesFinishReason :: "json_object \<Rightarrow> string" where
  "responsesFinishReason payload =
    (let status = StringAt payload [''status'']
     in if status = ''incomplete''
        then canonicalResponsesIncomplete (StringAt payload [''incomplete_details'', ''reason''])
        else if status \<in> {''failed'', ''cancelled''} then ''error''
        else if status = ''completed''
        then (if list_ex (\<lambda>raw. StringAt (as_obj raw) [''type''] \<in> {''function_call'', ''custom_tool_call''})
                   (SliceAt payload [''output''])
              then ''tool_calls'' else ''stop'')
        else [])"

definition ResponseUsage :: "json_codec \<Rightarrow> protocol \<Rightarrow> string \<Rightarrow> token_usage \<times> bool" where
  "ResponseUsage jc p body =
    (case unmarshal_object jc body of
       None \<Rightarrow> (no_usage, False)
     | Some payload \<Rightarrow>
         let usage = MapAt payload [''usage''];
             u = (if p = Anthropic then decodeAnthropicUsage usage else decodeOpenAIUsage usage);
             reason = (case p of
                 Chat \<Rightarrow>
                   (case SliceAt payload [''choices''] of
                      [] \<Rightarrow> []
                    | c # _ \<Rightarrow> let s = StringAt (as_obj c) [''finish_reason'']
                              in if s \<noteq> [] then canonicalChatStop s else [])
               | Anthropic \<Rightarrow> let s = StringAt payload [''stop_reason'']
                              in if s \<noteq> [] then canonicalAnthropicStop s else []
               | Responses \<Rightarrow> responsesFinishReason payload
               | _ \<Rightarrow> [])
         in (u\<lparr>us_FinishReason := reason\<rparr>, usage \<noteq> []))"

end
