(* ===== verification/StreamEmit.thy ===== *)
theory StreamEmit
  imports BridgeResponse
begin

text \<open>
  The encoder of a streamed answer, internal/core/protocol/stream_emitter.go with the events of
  stream.go. A frame is the name and the object of one server-sent event; the writer takes frames
  until it fails. Steps are run in order and stop at the first error, as the source returns it.
\<close>

subsection \<open>Frames, events and the state\<close>

datatype frame = Frame string json_object | RawDone

datatype stream_error =
    Delivery | UpstreamFailure | UnsupportedTarget | NormalTermination | UnexpectedEOF | EventTooLarge | ReadFailed
  | LineTooLong | BadRecord | ClientGone

record stream_event =
  ev_Kind :: string
  ev_ResponseID :: string
  ev_Model :: string
  ev_Text :: string
  ev_Signature :: string
  ev_ToolKey :: string
  ev_ToolID :: string
  ev_ToolName :: string
  ev_Stop :: string
  ev_Error :: string
  ev_ErrorType :: string
  ev_Encrypted :: string
  ev_Usage :: "token_usage option"

definition event_of :: "string \<Rightarrow> stream_event" where
  "event_of kind = \<lparr>ev_Kind = kind, ev_ResponseID = [], ev_Model = [], ev_Text = [], ev_Signature = [],
     ev_ToolKey = [], ev_ToolID = [], ev_ToolName = [], ev_Stop = [], ev_Error = [], ev_ErrorType = [],
     ev_Encrypted = [], ev_Usage = None\<rparr>"

record stream_tool =
  st_Key :: string
  st_ID :: string
  st_ItemID :: string
  st_Name :: string
  st_Arguments :: string
  st_Index :: nat
  st_AnthropicIndex :: nat
  st_ToolStarted :: bool
  st_EmittedArguments :: nat

text \<open>The emitter; the last three fields are the writer and the source of identifiers.\<close>

record emitter =
  em_target :: protocol
  em_model :: string
  em_id :: string
  em_created :: int
  em_started :: bool
  em_done :: bool
  em_stop :: string
  em_usage :: token_usage
  em_usageReported :: bool
  em_reasoningEncrypted :: string
  em_text :: string
  em_reasoning :: string
  em_tools :: "(string \<times> stream_tool) list"
  em_order :: "string list"
  em_sequence :: nat
  em_nextOutput :: nat
  em_textOpen :: bool
  em_reasoningOpen :: bool
  em_reasoningClosed :: bool
  em_reasoningItemID :: string
  em_reasoningOutput :: nat
  em_reasoningIndex :: nat
  em_textIndex :: nat
  em_nextAnthropic :: nat
  em_textItemID :: string
  em_textOutput :: nat
  em_responseOutput :: "json list"
  em_out :: "frame list"
  em_room :: "nat option"
  em_drawn :: nat

definition newBridgeStreamEmitter :: "protocol \<Rightarrow> string \<Rightarrow> int \<Rightarrow> nat option \<Rightarrow> nat \<Rightarrow> emitter" where
  "newBridgeStreamEmitter target model now room k =
    \<lparr>em_target = target, em_model = model, em_id = [], em_created = now, em_started = False, em_done = False,
     em_stop = [], em_usage = no_usage, em_usageReported = False, em_reasoningEncrypted = [], em_text = [],
     em_reasoning = [], em_tools = [], em_order = [], em_sequence = 0, em_nextOutput = 0, em_textOpen = False,
     em_reasoningOpen = False, em_reasoningClosed = False, em_reasoningItemID = [], em_reasoningOutput = 0,
     em_reasoningIndex = 0, em_textIndex = 0, em_nextAnthropic = 0, em_textItemID = [], em_textOutput = 0,
     em_responseOutput = [], em_out = [], em_room = room, em_drawn = k\<rparr>"

subsection \<open>Steps\<close>

type_synonym step = "emitter \<Rightarrow> stream_error option \<times> emitter"

definition pass :: step where
  "pass e = (None, e)"

definition modify :: "(emitter \<Rightarrow> emitter) \<Rightarrow> step" where
  "modify f e = (None, f e)"

fun run_steps :: "step list \<Rightarrow> step" where
  "run_steps [] e = (None, e)"
| "run_steps (m # ms) e = (case m e of (None, e') \<Rightarrow> run_steps ms e' | (Some err, e') \<Rightarrow> (Some err, e'))"

text \<open>\<open>rawSSE\<close>: the frame reaches the writer, or the delivery failed.\<close>

definition write_frame :: "frame \<Rightarrow> step" where
  "write_frame f e =
    (if em_room e = Some 0 then (Some Delivery, e)
     else (None, e\<lparr>em_out := em_out e @ [f], em_room := map_option (\<lambda>n. n - 1) (em_room e)\<rparr>))"

definition sse :: "string \<Rightarrow> json_object \<Rightarrow> step" where
  "sse name obj = write_frame (Frame name obj)"

text \<open>An event of the Responses stream, which takes the next sequence number.\<close>

definition numbered :: "string \<Rightarrow> json_object \<Rightarrow> step" where
  "numbered name obj e =
    sse name ((''type'', JStr name) # (''sequence_number'', JInt (int (em_sequence e))) # obj)
      (e\<lparr>em_sequence := em_sequence e + 1\<rparr>)"

definition draw :: "draws \<Rightarrow> string \<Rightarrow> emitter \<Rightarrow> string \<times> emitter" where
  "draw rnds prefix e = (case RandomID rnds prefix (em_drawn e) of (ident, k) \<Rightarrow> (ident, e\<lparr>em_drawn := k\<rparr>))"

definition chat_object :: "emitter \<Rightarrow> json list \<Rightarrow> json_object" where
  "chat_object e choices =
    [(''id'', JStr (asPrefix (em_id e) ''chatcmpl'')), (''object'', JStr ''chat.completion.chunk''),
     (''created'', JInt (em_created e)), (''model'', JStr (em_model e)), (''choices'', JList choices)]"

definition chat_choice :: "json_object \<Rightarrow> json \<Rightarrow> json" where
  "chat_choice delta finish =
    JObj [(''index'', JInt 0), (''delta'', JObj delta), (''finish_reason'', finish)]"

definition chatChunk :: "json_object \<Rightarrow> json \<Rightarrow> step" where
  "chatChunk delta finish e = sse [] (chat_object e [chat_choice delta finish]) e"

definition responsesBase :: "emitter \<Rightarrow> string \<Rightarrow> json_object" where
  "responsesBase e status =
    [(''id'', JStr (asPrefix (em_id e) ''resp'')), (''object'', JStr ''response''),
     (''created_at'', JInt (em_created e)), (''status'', JStr status), (''model'', JStr (em_model e)),
     (''output'', JList []), (''error'', JNull)]"

text \<open>\<open>recordResponseItem\<close>: the output list grows with nil up to the index.\<close>

definition recordResponseItem :: "nat \<Rightarrow> json_object \<Rightarrow> emitter \<Rightarrow> emitter" where
  "recordResponseItem i item e =
    (let xs = em_responseOutput e; ys = xs @ replicate (Suc i - length xs) JNull
     in e\<lparr>em_responseOutput := ys[i := JObj item]\<rparr>)"

subsection \<open>Start and error\<close>

definition start_frames :: step where
  "start_frames e =
    (case em_target e of
       Chat \<Rightarrow>
         sse [] (chat_object e [chat_choice [(''role'', JStr ''assistant''), (''content'', JStr [])] JNull]) e
     | Anthropic \<Rightarrow>
         sse ''message_start'' [(''type'', JStr ''message_start''),
           (''message'', JObj [(''id'', JStr (asPrefix (em_id e) ''msg'')), (''type'', JStr ''message''),
              (''role'', JStr ''assistant''), (''model'', JStr (em_model e)), (''content'', JList []),
              (''stop_reason'', JNull), (''stop_sequence'', JNull), (''usage'', JObj (anthropicUsage no_usage))])] e
     | Responses \<Rightarrow>
         run_steps [\<lambda>e. numbered ''response.created'' [(''response'', JObj (responsesBase e ''in_progress''))] e,
           \<lambda>e. numbered ''response.in_progress'' [(''response'', JObj (responsesBase e ''in_progress''))] e] e
     | _ \<Rightarrow> (Some UnsupportedTarget, e))"

definition start_stream :: "draws \<Rightarrow> step" where
  "start_stream rnds e =
    (if em_started e then (None, e)
     else
       let e = e\<lparr>em_started := True\<rparr>;
           e = (if em_id e = [] then (case draw rnds ''resp'' e of (ident, e) \<Rightarrow> e\<lparr>em_id := ident\<rparr>) else e)
       in start_frames e)"

definition emitError :: "string \<Rightarrow> string \<Rightarrow> step" where
  "emitError message typ e =
    (case em_target e of
       Anthropic \<Rightarrow>
         sse ''error'' [(''type'', JStr ''error''),
           (''error'', JObj [(''type'', JStr typ), (''message'', JStr message)])] e
     | Responses \<Rightarrow>
         numbered ''response.failed'' [(''response'', JObj (jset ''error''
           (JObj [(''code'', JStr typ), (''message'', JStr message)]) (responsesBase e ''failed'')))] e
     | _ \<Rightarrow>
         run_steps [sse [] [(''error'', JObj [(''message'', JStr message), (''type'', JStr typ),
             (''param'', JNull), (''code'', JNull)])], write_frame RawDone] e)"

subsection \<open>Reasoning\<close>

definition reopenReasoning :: "emitter \<Rightarrow> emitter" where
  "reopenReasoning e =
    (if em_reasoningClosed e
     then e\<lparr>em_reasoningClosed := False, em_reasoningOpen := False, em_reasoning := [], em_reasoningEncrypted := []\<rparr>
     else e)"

definition block_stop :: "nat \<Rightarrow> step" where
  "block_stop i = sse ''content_block_stop'' [(''type'', JStr ''content_block_stop''), (''index'', JInt (int i))]"

definition block_start :: "nat \<Rightarrow> json_object \<Rightarrow> step" where
  "block_start i blk = sse ''content_block_start''
    [(''type'', JStr ''content_block_start''), (''index'', JInt (int i)), (''content_block'', JObj blk)]"

definition block_delta :: "nat \<Rightarrow> json_object \<Rightarrow> step" where
  "block_delta i delta = sse ''content_block_delta''
    [(''type'', JStr ''content_block_delta''), (''index'', JInt (int i)), (''delta'', JObj delta)]"

text \<open>The text block of an Anthropic stream is closed before another kind of block opens.\<close>

definition close_text :: step where
  "close_text e =
    (if em_textOpen e
     then run_steps [block_stop (em_textIndex e), modify (\<lambda>e. e\<lparr>em_textOpen := False\<rparr>)] e
     else (None, e))"

definition open_thinking :: step where
  "open_thinking e =
    (let i = em_nextAnthropic e
     in block_start i [(''type'', JStr ''thinking''), (''thinking'', JStr []), (''signature'', JStr [])]
          (e\<lparr>em_reasoningIndex := i, em_nextAnthropic := i + 1\<rparr>))"

definition output_item :: "string \<Rightarrow> nat \<Rightarrow> json_object \<Rightarrow> step" where
  "output_item name i item = numbered name [(''output_index'', JInt (int i)), (''item'', JObj item)]"

definition summary_part :: "string \<Rightarrow> json" where
  "summary_part t = JObj [(''type'', JStr ''summary_text''), (''text'', JStr t)]"

definition startReasoning :: "draws \<Rightarrow> step" where
  "startReasoning rnds e =
    (if em_reasoningOpen e \<or> em_reasoningClosed e then (None, e)
     else
       let e = e\<lparr>em_reasoningOpen := True\<rparr>
       in case em_target e of
            Anthropic \<Rightarrow>
              run_steps [close_text, open_thinking] e
          | Responses \<Rightarrow>
              (case draw rnds ''rs'' e of
                 (ident, e) \<Rightarrow>
                   let i = em_nextOutput e;
                       e = e\<lparr>em_reasoningItemID := ident, em_reasoningOutput := i, em_nextOutput := i + 1\<rparr>
                   in run_steps
                        [output_item ''response.output_item.added'' i [(''id'', JStr ident), (''type'', JStr ''reasoning''),
                           (''status'', JStr ''in_progress''), (''summary'', JList [])],
                         numbered ''response.reasoning_summary_part.added'' [(''item_id'', JStr ident),
                           (''output_index'', JInt (int i)), (''summary_index'', JInt 0), (''part'', summary_part [])]] e)
          | _ \<Rightarrow> (None, e))"

definition emitReasoning :: "draws \<Rightarrow> string \<Rightarrow> step" where
  "emitReasoning rnds delta =
    run_steps [startReasoning rnds,
      \<lambda>e. (case em_target e of
         Chat \<Rightarrow> chatChunk [(''reasoning_content'', JStr delta)] JNull e
       | Anthropic \<Rightarrow>
           block_delta (em_reasoningIndex e) [(''type'', JStr ''thinking_delta''), (''thinking'', JStr delta)] e
       | Responses \<Rightarrow>
           numbered ''response.reasoning_summary_text.delta'' [(''delta'', JStr delta),
             (''item_id'', JStr (em_reasoningItemID e)), (''output_index'', JInt (int (em_reasoningOutput e))),
             (''summary_index'', JInt 0)] e
       | _ \<Rightarrow> (None, e))]"

definition emitReasoningSignature :: "draws \<Rightarrow> string \<Rightarrow> step" where
  "emitReasoningSignature rnds signature =
    run_steps [startReasoning rnds,
      \<lambda>e. (case em_target e of
         Chat \<Rightarrow> chatChunk [(''reasoning_signature'', JStr signature)] JNull e
       | Anthropic \<Rightarrow>
           block_delta (em_reasoningIndex e) [(''type'', JStr ''signature_delta''), (''signature'', JStr signature)] e
       | _ \<Rightarrow> (None, e))]"

definition reasoning_item :: "emitter \<Rightarrow> json_object" where
  "reasoning_item e =
    [(''id'', JStr (em_reasoningItemID e)), (''type'', JStr ''reasoning''), (''status'', JStr ''completed''),
     (''summary'', JList [summary_part (em_reasoning e)])] @
    (if em_reasoningEncrypted e \<noteq> [] then [(''encrypted_content'', JStr (em_reasoningEncrypted e))] else [])"

definition finishReasoning :: step where
  "finishReasoning e =
    (if \<not> em_reasoningOpen e \<or> em_reasoningClosed e then (None, e)
     else
       let e = e\<lparr>em_reasoningClosed := True\<rparr>
       in case em_target e of
            Anthropic \<Rightarrow> block_stop (em_reasoningIndex e) e
          | Responses \<Rightarrow>
              run_steps
                [\<lambda>e. numbered ''response.reasoning_summary_text.done'' [(''text'', JStr (em_reasoning e)),
                   (''item_id'', JStr (em_reasoningItemID e)), (''output_index'', JInt (int (em_reasoningOutput e))),
                   (''summary_index'', JInt 0)] e,
                 \<lambda>e. numbered ''response.reasoning_summary_part.done'' [(''item_id'', JStr (em_reasoningItemID e)),
                   (''output_index'', JInt (int (em_reasoningOutput e))), (''summary_index'', JInt 0),
                   (''part'', summary_part (em_reasoning e))] e,
                 modify (\<lambda>e. recordResponseItem (em_reasoningOutput e) (reasoning_item e) e),
                 \<lambda>e. output_item ''response.output_item.done'' (em_reasoningOutput e) (reasoning_item e) e] e
          | _ \<Rightarrow> (None, e))"

subsection \<open>Text\<close>

definition open_text_item :: "draws \<Rightarrow> step" where
  "open_text_item rnds e =
    (case draw rnds ''msg'' (e\<lparr>em_textOpen := True\<rparr>) of
       (ident, e) \<Rightarrow>
         let i = em_nextOutput e;
             e = e\<lparr>em_textItemID := ident, em_textOutput := i, em_nextOutput := i + 1\<rparr>
         in run_steps
              [output_item ''response.output_item.added'' i [(''id'', JStr ident), (''type'', JStr ''message''),
                 (''status'', JStr ''in_progress''), (''role'', JStr ''assistant''), (''content'', JList [])],
               numbered ''response.content_part.added'' [(''item_id'', JStr ident),
                 (''output_index'', JInt (int i)), (''content_index'', JInt 0),
                 (''part'', JObj [(''type'', JStr ''output_text''), (''text'', JStr []), (''annotations'', JList [])])]] e)"

definition open_text_block :: step where
  "open_text_block e =
    (let i = em_nextAnthropic e
     in block_start i [(''type'', JStr ''text''), (''text'', JStr [])]
          (e\<lparr>em_textOpen := True, em_textIndex := i, em_nextAnthropic := i + 1\<rparr>))"

definition emitText :: "draws \<Rightarrow> string \<Rightarrow> step" where
  "emitText rnds delta =
    run_steps [\<lambda>e. if em_target e = Anthropic \<or> em_target e = Responses then finishReasoning e else (None, e),
      \<lambda>e. (case em_target e of
         Chat \<Rightarrow> chatChunk [(''content'', JStr delta)] JNull e
       | Anthropic \<Rightarrow>
           run_steps [\<lambda>e. if em_textOpen e then (None, e) else open_text_block e,
             \<lambda>e. block_delta (em_textIndex e) [(''type'', JStr ''text_delta''), (''text'', JStr delta)] e] e
       | Responses \<Rightarrow>
           run_steps [\<lambda>e. if em_textOpen e then (None, e) else open_text_item rnds e,
             \<lambda>e. numbered ''response.output_text.delta'' [(''delta'', JStr delta), (''item_id'', JStr (em_textItemID e)),
                   (''output_index'', JInt (int (em_textOutput e))), (''content_index'', JInt 0)] e] e
       | _ \<Rightarrow> (None, e))]"

subsection \<open>Tools\<close>

definition tool_at :: "emitter \<Rightarrow> string \<Rightarrow> stream_tool option" where
  "tool_at e key = map_of (em_tools e) key"

definition put_tool :: "stream_tool \<Rightarrow> emitter \<Rightarrow> emitter" where
  "put_tool t e = e\<lparr>em_tools := AList.update (st_Key t) t (em_tools e)\<rparr>"

definition tool_key :: "emitter \<Rightarrow> string \<Rightarrow> string" where
  "tool_key e key = (if key = [] then ''tool-'' @ itoa (int (length (em_order e))) else key)"

text \<open>\<open>tool(key)\<close>: the tool of the key, made when it is new.\<close>

definition find_tool :: "draws \<Rightarrow> string \<Rightarrow> emitter \<Rightarrow> stream_tool \<times> emitter" where
  "find_tool rnds key0 e =
    (let key = tool_key e key0
     in case tool_at e key of
          Some t \<Rightarrow> (t, e)
        | None \<Rightarrow>
            (case draw rnds ''call'' e of
               (ident, e) \<Rightarrow>
                 (case draw rnds ''fc'' e of
                    (item, e) \<Rightarrow>
                      let t = \<lparr>st_Key = key, st_ID = ident, st_ItemID = item, st_Name = [], st_Arguments = [],
                            st_Index = length (em_order e), st_AnthropicIndex = 0, st_ToolStarted = False,
                            st_EmittedArguments = 0\<rparr>
                      in (t, put_tool t e\<lparr>em_order := em_order e @ [key]\<rparr>))))"

definition anyToolStarted :: "emitter \<Rightarrow> bool" where
  "anyToolStarted e =
    list_ex (\<lambda>key. case tool_at e key of None \<Rightarrow> False | Some t \<Rightarrow> st_ToolStarted t) (em_order e)"

definition open_tool :: "stream_tool \<Rightarrow> step" where
  "open_tool t e =
    (let t = t\<lparr>st_ToolStarted := True\<rparr>
     in case em_target e of
          Chat \<Rightarrow>
            chatChunk [(''tool_calls'', JList [JObj [(''index'', JInt (int (st_Index t))), (''id'', JStr (st_ID t)),
              (''type'', JStr ''function''),
              (''function'', JObj [(''name'', JStr (st_Name t)), (''arguments'', JStr [])])]])] JNull (put_tool t e)
        | Responses \<Rightarrow>
            let i = em_nextOutput e; t = t\<lparr>st_Index := i\<rparr>
            in output_item ''response.output_item.added'' i [(''id'', JStr (st_ItemID t)),
                 (''type'', JStr ''function_call''), (''status'', JStr ''in_progress''), (''arguments'', JStr []),
                 (''call_id'', JStr (st_ID t)), (''name'', JStr (st_Name t))]
                 (put_tool t (e\<lparr>em_nextOutput := i + 1\<rparr>))
        | Anthropic \<Rightarrow>
            let i = em_nextAnthropic e; t = t\<lparr>st_AnthropicIndex := i\<rparr>
            in block_start i [(''type'', JStr ''tool_use''), (''id'', JStr (st_ID t)), (''name'', JStr (st_Name t)),
                 (''input'', JObj [])] (put_tool t (e\<lparr>em_nextAnthropic := i + 1\<rparr>))
        | _ \<Rightarrow> (None, put_tool t e))"

text \<open>A tool is named by its key: \<open>with_tool\<close> runs a step on the tool as it is in the state.\<close>

definition with_tool :: "string \<Rightarrow> (stream_tool \<Rightarrow> step) \<Rightarrow> step" where
  "with_tool key f e = (case tool_at e key of None \<Rightarrow> (None, e) | Some t \<Rightarrow> f t e)"

definition startTool :: "string \<Rightarrow> step" where
  "startTool key =
    with_tool key (\<lambda>t e.
      if st_ToolStarted t \<or> st_Name t = [] then (None, e)
      else run_steps
        [\<lambda>e. if em_target e = Responses \<or> em_target e = Anthropic then finishReasoning e else (None, e),
         \<lambda>e. if em_target e = Anthropic then close_text e else (None, e),
         open_tool t] e)"

definition emitToolDelta :: "stream_tool \<Rightarrow> string \<Rightarrow> step" where
  "emitToolDelta t delta e =
    (if delta = [] then (None, e)
     else case em_target e of
       Chat \<Rightarrow>
         chatChunk [(''tool_calls'', JList [JObj [(''index'', JInt (int (st_Index t))),
           (''function'', JObj [(''arguments'', JStr delta)])]])] JNull e
     | Responses \<Rightarrow>
         numbered ''response.function_call_arguments.delta'' [(''delta'', JStr delta), (''item_id'', JStr (st_ItemID t)),
           (''output_index'', JInt (int (st_Index t)))] e
     | Anthropic \<Rightarrow>
         block_delta (st_AnthropicIndex t) [(''type'', JStr ''input_json_delta''), (''partial_json'', JStr delta)] e
     | _ \<Rightarrow> (None, e))"

definition emitPendingToolArguments :: "string \<Rightarrow> step" where
  "emitPendingToolArguments key =
    with_tool key (\<lambda>t e.
      if \<not> st_ToolStarted t \<or> length (st_Arguments t) \<le> st_EmittedArguments t then (None, e)
      else
        let delta = drop (st_EmittedArguments t) (st_Arguments t);
            t = t\<lparr>st_EmittedArguments := length (st_Arguments t)\<rparr>
        in run_steps
             [emitToolDelta t delta,
              \<lambda>e. if em_target e = Responses then (None, e)
                  else (None, put_tool (t\<lparr>st_Arguments := [], st_EmittedArguments := 0\<rparr>) e)]
             (put_tool t e))"

text \<open>The event of a tool: its identity is updated, a delta is appended, and what can be sent is.\<close>

definition tool_event :: "draws \<Rightarrow> stream_event \<Rightarrow> string \<Rightarrow> step" where
  "tool_event rnds ev delta e =
    (case find_tool rnds (ev_ToolKey ev) e of
       (t, e) \<Rightarrow>
         let t = t\<lparr>st_ID := (if ev_ToolID ev \<noteq> [] then ev_ToolID ev else st_ID t),
                   st_Name := (if ev_ToolName ev \<noteq> [] then ev_ToolName ev else st_Name t),
                   st_Arguments := st_Arguments t @ delta\<rparr>
         in run_steps [startTool (st_Key t), emitPendingToolArguments (st_Key t)] (put_tool t e))"

subsection \<open>The end of the stream\<close>

definition final_stop :: "emitter \<Rightarrow> string" where
  "final_stop e =
    (let stop = (if em_stop e = [] then (if em_order e \<noteq> [] then ''tool_calls'' else ''stop'') else em_stop e)
     in if isToolStop stop \<and> \<not> anyToolStarted e then ''stop'' else stop)"

definition finish_anthropic_tool :: "string \<Rightarrow> step" where
  "finish_anthropic_tool key =
    run_steps [startTool key, emitPendingToolArguments key,
      with_tool key (\<lambda>t. if st_ToolStarted t then block_stop (st_AnthropicIndex t) else pass)]"

definition message_delta :: step where
  "message_delta e =
    sse ''message_delta'' [(''type'', JStr ''message_delta''),
      (''delta'', JObj [(''stop_reason'', JStr (anthropicStop (em_stop e))), (''stop_sequence'', JNull)]),
      (''usage'', JObj (anthropicUsage (em_usage e)))] e"

definition finish_anthropic :: step where
  "finish_anthropic =
    run_steps [\<lambda>e. if em_textOpen e then block_stop (em_textIndex e) e else (None, e),
      \<lambda>e. run_steps (map finish_anthropic_tool (em_order e)) e,
      message_delta,
      sse ''message_stop'' [(''type'', JStr ''message_stop'')]]"

definition finish_text_item :: step where
  "finish_text_item e =
    (if \<not> em_textOpen e then (None, e)
     else
       let i = em_textOutput e; ident = JStr (em_textItemID e); text = JStr (em_text e);
           part = JObj [(''type'', JStr ''output_text''), (''text'', text), (''annotations'', JList [])];
           item = [(''id'', ident), (''type'', JStr ''message''), (''status'', JStr ''completed''),
             (''role'', JStr ''assistant''), (''content'', JList [part])]
       in run_steps
            [numbered ''response.output_text.done'' [(''text'', text), (''item_id'', ident),
               (''output_index'', JInt (int i)), (''content_index'', JInt 0)],
             numbered ''response.content_part.done'' [(''item_id'', ident), (''output_index'', JInt (int i)),
               (''content_index'', JInt 0), (''part'', part)],
             modify (recordResponseItem i item),
             output_item ''response.output_item.done'' i item] e)"

definition tool_done :: "string \<Rightarrow> stream_tool \<Rightarrow> step" where
  "tool_done arguments t =
    (let i = st_Index t;
         item = [(''id'', JStr (st_ItemID t)), (''type'', JStr ''function_call''), (''status'', JStr ''completed''),
           (''arguments'', JStr arguments), (''call_id'', JStr (st_ID t)), (''name'', JStr (st_Name t))]
     in run_steps
          [numbered ''response.function_call_arguments.done'' [(''arguments'', JStr arguments),
             (''item_id'', JStr (st_ItemID t)), (''output_index'', JInt (int i))],
           modify (recordResponseItem i item),
           output_item ''response.output_item.done'' i item])"

definition finish_response_tool :: "string \<Rightarrow> step" where
  "finish_response_tool key =
    with_tool key (\<lambda>t.
      let arguments = (if st_Arguments t = [] then ''{}'' else st_Arguments t)
      in run_steps [startTool key, emitPendingToolArguments key, with_tool key (tool_done arguments)])"

definition finishResponsesItems :: step where
  "finishResponsesItems =
    run_steps [finish_text_item, \<lambda>e. run_steps (map finish_response_tool (em_order e)) e]"

definition terminal_response :: "json_codec \<Rightarrow> draws \<Rightarrow> emitter \<Rightarrow> json_object \<times> nat" where
  "terminal_response jc rnds e =
    encodeBridgeResponse jc rnds Responses
      \<lparr>br_ID = em_id e, br_Model = em_model e, br_Text = [], br_Reasoning = [], br_Tools = [],
       br_Stop = em_stop e, br_Error = [], br_Usage = em_usage e, br_Created = em_created e\<rparr> (em_drawn e)"

definition finish_responses :: "json_codec \<Rightarrow> draws \<Rightarrow> step" where
  "finish_responses jc rnds =
    run_steps [finishResponsesItems,
      \<lambda>e. (case terminal_response jc rnds e of
         (doc, k) \<Rightarrow>
           let completed = jset ''output'' (JList (em_responseOutput e)) doc
           in numbered (''response.'' @ as_str (jget completed ''status'')) [(''response'', JObj completed)]
                (e\<lparr>em_drawn := k\<rparr>))]"

definition finish_chat :: step where
  "finish_chat =
    run_steps [\<lambda>e. chatChunk [] (JStr (chatStop (em_stop e))) e,
      \<lambda>e. sse [] (chat_object e [] @ [(''usage'', JObj (openAIUsage (em_usage e)))]) e,
      write_frame RawDone]"

definition Finish :: "json_codec \<Rightarrow> draws \<Rightarrow> step" where
  "Finish jc rnds e =
    (if em_done e then (None, e)
     else
       run_steps [start_stream rnds,
         modify (\<lambda>e. e\<lparr>em_stop := final_stop e\<rparr>),
         finishReasoning,
         \<lambda>e. (case em_target e of
            Chat \<Rightarrow> finish_chat e
          | Anthropic \<Rightarrow> finish_anthropic e
          | Responses \<Rightarrow> finish_responses jc rnds e
          | _ \<Rightarrow> (None, e))] (e\<lparr>em_done := True\<rparr>))"

subsection \<open>An event\<close>

definition starting_kinds :: "string set" where
  "starting_kinds = {''start'', ''reasoning'', ''reasoning_signature'', ''text'', ''tool_start'', ''tool_delta''}"

definition reasoning_event :: "draws \<Rightarrow> stream_event \<Rightarrow> step" where
  "reasoning_event rnds ev e =
    (if ev_Text ev = [] \<and> ev_Encrypted ev = [] then (None, e)
     else
       let e = reopenReasoning e;
           e = (if ev_Encrypted ev \<noteq> [] then e\<lparr>em_reasoningEncrypted := ev_Encrypted ev\<rparr> else e);
           text = (if ev_Encrypted ev \<noteq> [] \<and> em_target e \<noteq> Responses \<and> ev_Text ev = []
                   then redacted_placeholder else ev_Text ev)
       in if ev_Encrypted ev \<noteq> [] \<and> em_target e = Responses \<and> text = [] then startReasoning rnds e
          else if text = [] then (None, e)
          else emitReasoning rnds text
                 (if em_target e = Responses then e\<lparr>em_reasoning := em_reasoning e @ text\<rparr> else e))"

definition text_event :: "draws \<Rightarrow> stream_event \<Rightarrow> step" where
  "text_event rnds ev e =
    (if ev_Text ev = [] then (None, e)
     else emitText rnds (ev_Text ev)
            (if em_target e = Responses then e\<lparr>em_text := em_text e @ ev_Text ev\<rparr> else e))"

definition error_event :: "stream_event \<Rightarrow> step" where
  "error_event ev e =
    run_steps [emitError (FirstString [ev_Error ev, ''upstream stream failed''])
        (FirstString [ev_ErrorType ev, ''upstream_error'']), \<lambda>e. (Some UpstreamFailure, e)] (e\<lparr>em_done := True\<rparr>)"

definition usage_event :: "stream_event \<Rightarrow> emitter \<Rightarrow> emitter" where
  "usage_event ev e =
    (case ev_Usage ev of
       None \<Rightarrow> e
     | Some u \<Rightarrow> e\<lparr>em_usageReported := True, em_usage := mergeBridgeUsage (em_usage e) u\<rparr>)"

definition dispatch_event :: "json_codec \<Rightarrow> draws \<Rightarrow> stream_event \<Rightarrow> step" where
  "dispatch_event jc rnds ev e =
    (let kind = ev_Kind ev
     in if kind = ''reasoning'' then reasoning_event rnds ev e
        else if kind = ''reasoning_signature'' then
          (if ev_Signature ev = [] then (None, e)
           else emitReasoningSignature rnds (ev_Signature ev) (reopenReasoning e))
        else if kind = ''text'' then text_event rnds ev e
        else if kind = ''tool_start'' then tool_event rnds ev [] e
        else if kind = ''tool_delta'' then tool_event rnds ev (ev_Text ev) e
        else if kind = ''usage'' then (None, usage_event ev e)
        else if kind = ''finish'' then
          (None, e\<lparr>em_stop := ev_Stop ev, em_usage := (em_usage e)\<lparr>us_FinishReason := ev_Stop ev\<rparr>\<rparr>)
        else if kind = ''error'' then error_event ev e
        else if kind = ''done'' then Finish jc rnds e
        else (None, e))"

definition identify :: "stream_event \<Rightarrow> emitter \<Rightarrow> emitter" where
  "identify ev e =
    e\<lparr>em_id := (if ev_ResponseID ev \<noteq> [] \<and> em_id e = [] then ev_ResponseID ev else em_id e),
      em_model := (if ev_Model ev \<noteq> [] then ev_Model ev else em_model e)\<rparr>"

definition Emit :: "json_codec \<Rightarrow> draws \<Rightarrow> stream_event \<Rightarrow> step" where
  "Emit jc rnds ev e =
    run_steps [\<lambda>e. if ev_Kind ev \<in> starting_kinds then start_stream rnds e else (None, e),
      dispatch_event jc rnds ev] (identify ev e)"

subsection \<open>A list of events\<close>

text \<open>
  The events of one upstream frame, as \<open>TranscodeStreamWithRewrite\<close> hands them on: after an error the
  usage among the rest is still counted, and nothing follows the end.
\<close>

definition count_usage :: "stream_event list \<Rightarrow> emitter \<Rightarrow> emitter" where
  "count_usage evs e = foldl (\<lambda>e ev. usage_event ev (identify ev e)) e (filter (\<lambda>ev. ev_Kind ev = ''usage'') evs)"

fun emit_events :: "json_codec \<Rightarrow> draws \<Rightarrow> stream_event list \<Rightarrow> step" where
  "emit_events jc rnds [] e = (None, e)"
| "emit_events jc rnds (ev # evs) e =
    (case Emit jc rnds ev e of
       (Some err, e') \<Rightarrow> (Some err, count_usage evs e')
     | (None, e') \<Rightarrow> if ev_Kind ev = ''done'' then (Some NormalTermination, e') else emit_events jc rnds evs e')"

end
