(* ===== verification/StreamParse.thy ===== *)
theory StreamParse
  imports StreamEmit
begin

text \<open>
  The decoder of a streamed answer, internal/core/protocol/stream_parser.go: the object of one
  server-sent event becomes the events of the common form. The generation counter that
  \<open>observeGeneration\<close> moves is that of internal/streamwatch/timing.go. The rewriting of decoded
  objects (\<open>rewrite\<close>) is an argument, a function of the object and of the rewriter's own state;
  nil stands for the end marker of a Chat stream.
\<close>

subsection \<open>The state\<close>

record stream_parser =
  pa_watched :: bool
  pa_protocol :: protocol
  pa_started :: bool
  pa_tools :: "(string \<times> bool) list"
  pa_toolIDs :: "(string \<times> string) list"
  pa_toolNames :: "(string \<times> string) list"
  pa_toolOrder :: "string list"
  pa_responseArgs :: "string list"
  pa_responseReasoning :: "string list"
  pa_capture :: bool
  pa_terminal :: "json_object option"
  pa_generations :: nat

definition new_parser :: "bool \<Rightarrow> protocol \<Rightarrow> bool \<Rightarrow> stream_parser" where
  "new_parser watched p capture =
    \<lparr>pa_watched = watched, pa_protocol = p, pa_started = False, pa_tools = [], pa_toolIDs = [], pa_toolNames = [],
     pa_toolOrder = [], pa_responseArgs = [], pa_responseReasoning = [], pa_capture = capture, pa_terminal = None,
     pa_generations = 0\<rparr>"

text \<open>Reading a map of the parser: a missing key gives the zero value.\<close>

definition tool_started :: "stream_parser \<Rightarrow> string \<Rightarrow> bool" where
  "tool_started p key = (map_of (pa_tools p) key = Some True)"

definition tool_id :: "stream_parser \<Rightarrow> string \<Rightarrow> string" where
  "tool_id p key = (case map_of (pa_toolIDs p) key of None \<Rightarrow> [] | Some s \<Rightarrow> s)"

definition tool_name :: "stream_parser \<Rightarrow> string \<Rightarrow> string" where
  "tool_name p key = (case map_of (pa_toolNames p) key of None \<Rightarrow> [] | Some s \<Rightarrow> s)"

definition mark_started :: "string \<Rightarrow> stream_parser \<Rightarrow> stream_parser" where
  "mark_started key p = p\<lparr>pa_tools := AList.update key True (pa_tools p)\<rparr>"

definition see_tool :: "string \<Rightarrow> stream_parser \<Rightarrow> stream_parser" where
  "see_tool key p =
    (if map_of (pa_tools p) key = None
     then p\<lparr>pa_tools := AList.update key False (pa_tools p), pa_toolOrder := pa_toolOrder p @ [key]\<rparr> else p)"

definition set_id :: "string \<Rightarrow> string \<Rightarrow> stream_parser \<Rightarrow> stream_parser" where
  "set_id key ident p = (if ident \<noteq> [] then p\<lparr>pa_toolIDs := AList.update key ident (pa_toolIDs p)\<rparr> else p)"

definition set_name :: "string \<Rightarrow> string \<Rightarrow> stream_parser \<Rightarrow> stream_parser" where
  "set_name key name p = (if name \<noteq> [] then p\<lparr>pa_toolNames := AList.update key name (pa_toolNames p)\<rparr> else p)"

definition rememberTool :: "string \<Rightarrow> string \<Rightarrow> string \<Rightarrow> stream_parser \<Rightarrow> stream_parser" where
  "rememberTool key ident name p = set_name key name (set_id key ident (see_tool key p))"

definition mergeToolName :: "string \<Rightarrow> string \<Rightarrow> string" where
  "mergeToolName current fragment =
    (if current = [] \<or> fragment = current then fragment
     else if has_prefix fragment current then fragment
     else current @ fragment)"

text \<open>\<open>fmt.Sprint\<close> of a decoded value; of fractional numbers, of those that print with an exponent, and
  of lists and objects it is an argument.\<close>

definition sprint :: "(json \<Rightarrow> string) \<Rightarrow> json \<Rightarrow> string" where
  "sprint other v =
    (case v of
       JNull \<Rightarrow> ''<nil>''
     | JStr s \<Rightarrow> s
     | JBool b \<Rightarrow> if b then ''true'' else ''false''
     | JInt n \<Rightarrow> itoa n
     | JNum (Fin q) \<Rightarrow> if of_int (floor q) = q \<and> - 1000000 < q \<and> q < 1000000 then itoa (floor q) else other v
     | _ \<Rightarrow> other v)"

definition responseToolKey :: "(json \<Rightarrow> string) \<Rightarrow> json_object \<Rightarrow> json_object \<Rightarrow> string" where
  "responseToolKey other ev item =
    (let own = StringAt item [''id''] in
     if own \<noteq> [] then own
     else let ref = StringAt ev [''item_id''] in
       if ref \<noteq> [] then ref else sprint other (jget ev ''output_index''))"

subsection \<open>Errors\<close>

definition streamErrorMessage :: "json_object \<Rightarrow> string \<Rightarrow> string" where
  "streamErrorMessage v fallback =
    (let nested = StringAt v [''error'', ''message'']; own = StringAt v [''message'']; text = as_str (jget v ''error'')
     in if nested \<noteq> [] then nested else if own \<noteq> [] then own else if text \<noteq> [] then text else fallback)"

definition streamErrorType :: "json_object \<Rightarrow> string" where
  "streamErrorType v = FirstString [StringAt v [''error'', ''type''], StringAt v [''error'', ''code''], ''upstream_error'']"

definition isStreamErrorFinish :: "string \<Rightarrow> bool" where
  "isStreamErrorFinish stop = (to_lower (trim_space stop) \<in> error_stops)"

definition error_of :: "string \<Rightarrow> string \<Rightarrow> stream_event" where
  "error_of message kind = (event_of ''error'')\<lparr>ev_Error := message, ev_ErrorType := kind\<rparr>"

subsection \<open>Generation\<close>

definition HasToolArguments :: "json list \<Rightarrow> bool" where
  "HasToolArguments calls =
    list_ex (\<lambda>raw. as_str (jget (as_obj (jget (as_obj raw) ''function'')) ''arguments'') \<noteq> []) calls"

definition ChatGeneration :: "json_object \<Rightarrow> bool" where
  "ChatGeneration chunk =
    list_ex (\<lambda>raw. let delta = as_obj (jget (as_obj raw) ''delta'')
      in list_ex (\<lambda>key. as_str (jget delta key) \<noteq> []) [''content'', ''reasoning_content'', ''refusal''] \<or>
         HasToolArguments (as_list (jget delta ''tool_calls''))) (as_list (jget chunk ''choices''))"

definition generated :: "protocol \<Rightarrow> string \<Rightarrow> json_object \<Rightarrow> bool" where
  "generated p name v =
    (let kind = FirstString [StringAt v [''type''], name]
     in case p of
          Chat \<Rightarrow> ChatGeneration v
        | Anthropic \<Rightarrow>
            kind = ''content_block_delta'' \<and>
            list_ex (\<lambda>key. StringAt (MapAt v [''delta'']) [key] \<noteq> []) [''text'', ''thinking'', ''partial_json'']
        | Responses \<Rightarrow>
            kind \<in> {''response.output_text.delta'', ''response.refusal.delta'', ''response.reasoning_summary_text.delta'',
              ''response.reasoning_text.delta'', ''response.function_call_arguments.delta'',
              ''response.custom_tool_call_input.delta''} \<and>
            StringAt v [''delta''] \<noteq> []
        | _ \<Rightarrow> False)"

definition observeGeneration :: "string \<Rightarrow> json_object \<Rightarrow> stream_parser \<Rightarrow> stream_parser" where
  "observeGeneration name v p =
    (if pa_watched p \<and> generated (pa_protocol p) name v then p\<lparr>pa_generations := pa_generations p + 1\<rparr> else p)"

subsection \<open>Chat\<close>

definition tool_event_of :: "string \<Rightarrow> string \<Rightarrow> stream_parser \<Rightarrow> stream_event" where
  "tool_event_of kind key p =
    (event_of kind)\<lparr>ev_ToolKey := key, ev_ToolID := tool_id p key, ev_ToolName := tool_name p key\<rparr>"

definition start_named :: "string \<Rightarrow> stream_parser \<Rightarrow> stream_event list \<times> stream_parser" where
  "start_named key p =
    (if \<not> tool_started p key \<and> tool_name p key \<noteq> []
     then ([tool_event_of ''tool_start'' key p], mark_started key p) else ([], p))"

definition chat_call_key :: "(json \<Rightarrow> string) \<Rightarrow> json_object \<Rightarrow> string" where
  "chat_call_key other call = sprint other (FirstAny [jget call ''index'', JStr (StringAt call [''id''])])"

definition chat_call_events :: "(json \<Rightarrow> string) \<Rightarrow> json \<Rightarrow> stream_parser \<Rightarrow> stream_event list \<times> stream_parser" where
  "chat_call_events other raw p =
    (let call = as_obj raw; key = chat_call_key other call; function = MapAt call [''function''];
         name = StringAt function [''name'']; arguments = StringAt function [''arguments''];
         p = set_id key (StringAt call [''id'']) (see_tool key p);
         p = (if name \<noteq> [] then set_name key (mergeToolName (tool_name p key) name) p else p)
     in if arguments = [] then ([], p)
        else case start_named key p of
          (started, p) \<Rightarrow> (started @ [(tool_event_of ''tool_delta'' key p)\<lparr>ev_Text := arguments\<rparr>], p))"

text \<open>Steps of the parser in order: the events of all of them.\<close>

fun gather :: "('a \<Rightarrow> stream_parser \<Rightarrow> stream_event list \<times> stream_parser) \<Rightarrow> 'a list \<Rightarrow> stream_parser \<Rightarrow>
    stream_event list \<times> stream_parser" where
  "gather f [] p = ([], p)"
| "gather f (x # xs) p = (case f x p of (evs, p) \<Rightarrow> (case gather f xs p of (evs', p) \<Rightarrow> (evs @ evs', p)))"

definition text_events :: "string \<Rightarrow> string \<Rightarrow> stream_event list" where
  "text_events kind text = (if text \<noteq> [] then [(event_of kind)\<lparr>ev_Text := text\<rparr>] else [])"

definition chat_finish :: "json_object \<Rightarrow> stream_parser \<Rightarrow> stream_event list \<times> stream_parser" where
  "chat_finish choice p =
    (let stop = StringAt choice [''finish_reason'']
     in if stop = [] then ([], p)
        else if isStreamErrorFinish stop
        then ([error_of (FirstString [StringAt choice [''error'', ''message''], ''upstream Chat stream failed''])
                 ''upstream_error''], p)
        else case gather start_named (pa_toolOrder p) p of
               (evs, p) \<Rightarrow> (evs @ [(event_of ''finish'')\<lparr>ev_Stop := stop\<rparr>], p))"

definition chat_choice_events :: "(json \<Rightarrow> string) \<Rightarrow> json \<Rightarrow> stream_parser \<Rightarrow> stream_event list \<times> stream_parser" where
  "chat_choice_events other raw p =
    (let choice = as_obj raw; delta = MapAt choice [''delta''];
         own = StringAt delta [''reasoning_content''];
         reasoning = (if own = [] then StringAt delta [''reasoning''] else own);
         texts = text_events ''reasoning'' reasoning @ text_events ''text'' (StringAt delta [''content'']) @
           text_events ''text'' (StringAt delta [''refusal''])
     in case gather (chat_call_events other) (SliceAt delta [''tool_calls'']) p of
          (calls, p) \<Rightarrow>
            (case chat_finish choice p of (finish, p) \<Rightarrow> (texts @ calls @ finish, p)))"

definition usage_events :: "(json_object \<Rightarrow> token_usage) \<Rightarrow> json_object \<Rightarrow> stream_event list" where
  "usage_events decode u = (if u \<noteq> [] then [(event_of ''usage'')\<lparr>ev_Usage := Some (decode u)\<rparr>] else [])"

definition start_event :: "json_object \<Rightarrow> stream_event" where
  "start_event m = (event_of ''start'')\<lparr>ev_ResponseID := StringAt m [''id''], ev_Model := StringAt m [''model'']\<rparr>"

definition parseChatEvent :: "(json \<Rightarrow> string) \<Rightarrow> string \<Rightarrow> json_object \<Rightarrow> stream_parser \<Rightarrow> stream_event list \<times> stream_parser" where
  "parseChatEvent other name v p =
    (if name = ''error'' \<or> jget v ''error'' \<noteq> JNull
     then ([error_of (streamErrorMessage v ''upstream Chat stream error'') (streamErrorType v)], p)
     else
       let starts = (\<not> pa_started p \<and> StringAt v [''id''] \<noteq> []);
           start = (if starts then [start_event v] else []);
           p = (if starts then p\<lparr>pa_started := True\<rparr> else p)
       in case gather (chat_choice_events other) (SliceAt v [''choices'']) p of
            (evs, p) \<Rightarrow> (start @ usage_events decodeOpenAIUsage (MapAt v [''usage'']) @ evs, p))"

subsection \<open>Anthropic\<close>

definition anthropic_start :: "(json \<Rightarrow> string) \<Rightarrow> json_object \<Rightarrow> stream_parser \<Rightarrow> stream_event list \<times> stream_parser" where
  "anthropic_start other v p =
    (let block = MapAt v [''content_block'']; key = sprint other (jget v ''index''); kind = StringAt block [''type'']
     in if kind = ''thinking'' then
          (text_events ''reasoning'' (StringAt block [''thinking'']) @
           (let signature = StringAt block [''signature'']
            in if signature \<noteq> [] then [(event_of ''reasoning_signature'')\<lparr>ev_Signature := signature\<rparr>] else []), p)
        else if kind = ''redacted_thinking'' then
          ([(event_of ''reasoning'')\<lparr>ev_Encrypted := StringAt block [''data'']\<rparr>], p)
        else if kind = ''tool_use'' then
          ([(event_of ''tool_start'')\<lparr>ev_ToolKey := key, ev_ToolID := StringAt block [''id''],
              ev_ToolName := StringAt block [''name'']\<rparr>], mark_started key p)
        else if kind = ''text'' then (text_events ''text'' (StringAt block [''text'']), p)
        else ([], p))"

definition anthropic_delta :: "(json \<Rightarrow> string) \<Rightarrow> json_object \<Rightarrow> stream_event list" where
  "anthropic_delta other v =
    (let delta = MapAt v [''delta'']; kind = StringAt delta [''type'']
     in if kind = ''thinking_delta'' then [(event_of ''reasoning'')\<lparr>ev_Text := StringAt delta [''thinking'']\<rparr>]
        else if kind = ''signature_delta'' then
          [(event_of ''reasoning_signature'')\<lparr>ev_Signature := StringAt delta [''signature'']\<rparr>]
        else if kind = ''text_delta'' then [(event_of ''text'')\<lparr>ev_Text := StringAt delta [''text'']\<rparr>]
        else if kind = ''input_json_delta'' then
          [(event_of ''tool_delta'')\<lparr>ev_ToolKey := sprint other (jget v ''index''),
             ev_Text := StringAt delta [''partial_json'']\<rparr>]
        else [])"

definition anthropic_end :: "json_object \<Rightarrow> stream_event list" where
  "anthropic_end v =
    (let stop = StringAt v [''delta'', ''stop_reason'']
     in usage_events decodeAnthropicUsage (MapAt v [''usage'']) @
        (if stop = [] then []
         else if isStreamErrorFinish stop then [error_of ''upstream Anthropic stream failed'' ''upstream_error'']
         else [(event_of ''finish'')\<lparr>ev_Stop := stop\<rparr>]))"

definition event_type :: "string \<Rightarrow> json_object \<Rightarrow> string" where
  "event_type name v = (let t = StringAt v [''type''] in if t = [] then name else t)"

definition parseAnthropicEvent ::
    "(json \<Rightarrow> string) \<Rightarrow> string \<Rightarrow> json_object \<Rightarrow> stream_parser \<Rightarrow> stream_event list \<times> stream_parser" where
  "parseAnthropicEvent other name v p =
    (let kind = event_type name v
     in if kind = ''message_start'' then
          (let message = MapAt v [''message'']
           in (start_event message # usage_events decodeAnthropicUsage (MapAt message [''usage'']), p))
        else if kind = ''content_block_start'' then anthropic_start other v p
        else if kind = ''content_block_delta'' then (anthropic_delta other v, p)
        else if kind = ''message_delta'' then (anthropic_end v, p)
        else if kind = ''message_stop'' then ([event_of ''done''], p)
        else if kind = ''error'' then
          ([error_of (FirstString [StringAt v [''error'', ''message''], ''upstream Anthropic stream error''])
              (FirstString [StringAt v [''error'', ''type''], ''upstream_error''])], p)
        else ([], p))"

subsection \<open>Responses\<close>

definition responses_added :: "(json \<Rightarrow> string) \<Rightarrow> json_object \<Rightarrow> stream_parser \<Rightarrow> stream_event list \<times> stream_parser" where
  "responses_added other v p =
    (let item = MapAt v [''item'']; key = responseToolKey other v item
     in if StringAt item [''type''] \<noteq> ''function_call'' then ([], p)
        else
          let p = rememberTool key (StringAt item [''call_id'']) (StringAt item [''name'']) p
          in if tool_name p key \<noteq> [] then ([tool_event_of ''tool_start'' key p], mark_started key p) else ([], p))"

definition note_args :: "string \<Rightarrow> stream_parser \<Rightarrow> stream_parser" where
  "note_args key p = p\<lparr>pa_responseArgs := List.insert key (pa_responseArgs p)\<rparr>"

definition responses_item_done :: "(json \<Rightarrow> string) \<Rightarrow> json_object \<Rightarrow> stream_parser \<Rightarrow> stream_event list \<times> stream_parser" where
  "responses_item_done other v p =
    (let item = MapAt v [''item'']; key = responseToolKey other v item; kind = StringAt item [''type'']
     in if kind = ''reasoning'' then
          ((case decodeResponsesReasoning item of
              [] \<Rightarrow> []
            | b # _ \<Rightarrow> [(event_of ''reasoning'')\<lparr>
                ev_Text := (if key \<in> set (pa_responseReasoning p) then [] else bk_Text (b :: bridge_block)),
                ev_Encrypted := bk_Encrypted b\<rparr>]), p)
        else if kind = ''function_call'' then
          (let p = rememberTool key (StringAt item [''call_id'']) (StringAt item [''name'']) p;
               start = (if tool_started p key then [] else [tool_event_of ''tool_start'' key p]);
               p = (if tool_started p key then p else mark_started key p);
               arguments = StringAt item [''arguments'']
           in (start @ (if key \<notin> set (pa_responseArgs p) \<and> arguments \<noteq> []
                        then [(event_of ''tool_delta'')\<lparr>ev_ToolKey := key, ev_Text := arguments\<rparr>] else []), p))
        else ([], p))"

definition responsesCompletedStop :: "json_object \<Rightarrow> stream_parser \<Rightarrow> string" where
  "responsesCompletedStop response p =
    (if list_ex (\<lambda>raw. let kind = StringAt (as_obj raw) [''type'']
           in kind = ''function_call'' \<or> kind = ''custom_tool_call'' \<and> pa_capture p) (SliceAt response [''output''])
     then ''tool_calls''
     else if pa_toolOrder p \<noteq> [] then ''tool_calls'' else ''stop'')"

definition responses_terminal :: "string \<Rightarrow> json_object \<Rightarrow> stream_parser \<Rightarrow> stream_event list \<times> stream_parser" where
  "responses_terminal kind v p =
    (let response = MapAt v [''response'']; status = StringAt response [''status''];
         usage = usage_events decodeOpenAIUsage (MapAt response [''usage''])
     in if kind = ''response.failed'' \<or> status = ''failed'' then
          (usage @ [error_of
             (FirstString [StringAt response [''error'', ''message''], StringAt v [''error'', ''message''],
                ''upstream Responses request failed''])
             (FirstString [StringAt response [''error'', ''code''], ''upstream_error''])], p)
        else
          let p = (if pa_capture p then p\<lparr>pa_terminal := Some response\<rparr> else p);
              stop = (if kind = ''response.incomplete'' \<or> status = ''incomplete''
                      then canonicalResponsesIncomplete (StringAt response [''incomplete_details'', ''reason''])
                      else responsesCompletedStop response p)
          in (usage @ [(event_of ''finish'')\<lparr>ev_Stop := stop\<rparr>, event_of ''done''], p))"

definition parseResponses ::
    "(json \<Rightarrow> string) \<Rightarrow> string \<Rightarrow> json_object \<Rightarrow> stream_parser \<Rightarrow> stream_event list \<times> stream_parser" where
  "parseResponses other name v p =
    (let kind = event_type name v; delta = StringAt v [''delta'']; key = responseToolKey other v []
     in if kind = ''error'' then
          ([error_of (streamErrorMessage v ''upstream Responses stream error'') (streamErrorType v)], p)
        else if kind = ''response.created'' then ([start_event (MapAt v [''response''])], p)
        else if kind = ''response.output_text.delta'' \<or> kind = ''response.refusal.delta'' then
          ([(event_of ''text'')\<lparr>ev_Text := delta\<rparr>], p)
        else if kind = ''response.reasoning_summary_text.delta'' then
          ([(event_of ''reasoning'')\<lparr>ev_Text := delta\<rparr>],
           p\<lparr>pa_responseReasoning := List.insert key (pa_responseReasoning p)\<rparr>)
        else if kind = ''response.output_item.added'' then responses_added other v p
        else if kind = ''response.function_call_arguments.delta'' then
          ([(tool_event_of ''tool_delta'' key p)\<lparr>ev_Text := delta\<rparr>], note_args key p)
        else if kind = ''response.function_call_arguments.done'' then
          (if key \<in> set (pa_responseArgs p) then ([], p)
           else ([(tool_event_of ''tool_delta'' key p)\<lparr>ev_Text := StringAt v [''arguments'']\<rparr>], note_args key p))
        else if kind = ''response.output_item.done'' then responses_item_done other v p
        else if kind \<in> {''response.completed'', ''response.incomplete'', ''response.failed'', ''response.done''} then
          responses_terminal kind v p
        else ([], p))"

subsection \<open>One frame\<close>

type_synonym 'w rewriter = "json_object option \<Rightarrow> 'w \<Rightarrow> (bridge_error + json_object) \<times> 'w"

definition no_rewrite :: "'w rewriter" where
  "no_rewrite v w = (Inr (case v of None \<Rightarrow> [] | Some m \<Rightarrow> m), w)"

definition parse_object ::
    "(json \<Rightarrow> string) \<Rightarrow> string \<Rightarrow> json_object \<Rightarrow> stream_parser \<Rightarrow> (bridge_error + stream_event list) \<times> stream_parser" where
  "parse_object other name v p =
    (case pa_protocol p of
       Chat \<Rightarrow> (case parseChatEvent other name v p of (evs, p) \<Rightarrow> (Inr evs, p))
     | Anthropic \<Rightarrow> (case parseAnthropicEvent other name v p of (evs, p) \<Rightarrow> (Inr evs, p))
     | Responses \<Rightarrow> (case parseResponses other name v p of (evs, p) \<Rightarrow> (Inr evs, p))
     | q \<Rightarrow> (Inl (UnsupportedProtocol q), p))"

definition Parse ::
    "json_codec \<Rightarrow> (json \<Rightarrow> string) \<Rightarrow> 'w rewriter \<Rightarrow> string \<Rightarrow> string \<Rightarrow> stream_parser \<times> 'w \<Rightarrow>
      (bridge_error + stream_event list) \<times> stream_parser \<times> 'w" where
  "Parse jc other rw name data = (\<lambda>(p, w).
    if data = ''[DONE]'' then
      (if pa_protocol p \<noteq> Chat then (Inl (UnexpectedDone (pa_protocol p)), p, w)
       else case rw None w of
         (Inl e, w) \<Rightarrow> (Inl e, p, w)
       | (Inr _, w) \<Rightarrow> (Inr [event_of ''done''], p, w))
    else case unmarshal_object jc data of
      None \<Rightarrow> (Inl (InvalidJson data), p, w)
    | Some v \<Rightarrow>
        let p = observeGeneration name v p
        in case rw (Some v) w of
             (Inl e, w) \<Rightarrow> (Inl e, p, w)
           | (Inr v, w) \<Rightarrow> (case parse_object other name v p of (r, p) \<Rightarrow> (r, p, w)))"

end
