(* ===== verification/Transcode.thy ===== *)
theory Transcode
  imports StreamParse
begin

text \<open>
  A streamed answer from the upstream's bytes to the client's, internal/core/protocol/stream.go:
  lines and records of server-sent events, the transcoding between dialects, and the forwarding of a
  stream in its own dialect under an observer of its usage and its end. The byte limits are those of
  internal/streamwatch. A body is its bytes and the way the reader ends; whether the client is
  gone when the stream ends is an argument.
\<close>

subsection \<open>Lines\<close>

text \<open>The lines of \<open>bufio.ScanLines\<close>: one carriage return before the newline is dropped, and a last
  line without a newline counts when it is not empty.\<close>

definition drop_cr :: "string \<Rightarrow> string" where
  "drop_cr s = (if has_suffix s [CHR 0x0D] then butlast s else s)"

fun split_lines :: "string \<Rightarrow> string \<Rightarrow> string list" where
  "split_lines [] line = (if line = [] then [] else [rev line])"
| "split_lines (c # s) line = (if c = CHR 0x0A then rev line # split_lines s [] else split_lines s (c # line))"

definition max_event_bytes :: nat where
  "max_event_bytes = 40 * 2 ^ 20"

text \<open>The scanner stops at a line that its buffer cannot hold.\<close>

fun scan_lines :: "string list \<Rightarrow> string list \<times> bool" where
  "scan_lines [] = ([], False)"
| "scan_lines (l # ls) =
    (if max_event_bytes \<le> length l then ([], True)
     else case scan_lines ls of (out, long) \<Rightarrow> (drop_cr l # out, long))"

text \<open>\<open>SSEEventBudget.AddLine\<close>: the bytes of the event so far, None above the limit.\<close>

definition AddLine :: "nat \<Rightarrow> string \<Rightarrow> nat option" where
  "AddLine n line =
    (if line = [] then Some 0
     else if max_event_bytes - n < length line + 2 then None else Some (n + length line + 2))"

fun join_lines :: "string list \<Rightarrow> string" where
  "join_lines [] = []"
| "join_lines [l] = l"
| "join_lines (l # m # ls) = l @ [CHR 0x0A] @ join_lines (m # ls)"

subsection \<open>Records\<close>

type_synonym 's sse_handler = "string \<Rightarrow> string \<Rightarrow> 's \<Rightarrow> stream_error option \<times> 's"

record sse_record =
  sr_event :: string
  sr_data :: "string list"
  sr_bytes :: nat

definition no_record :: sse_record where
  "no_record = \<lparr>sr_event = [], sr_data = [], sr_bytes = 0\<rparr>"

definition sse_field :: "string \<Rightarrow> sse_record \<Rightarrow> sse_record" where
  "sse_field line r =
    (if has_prefix line '':'' then r
     else if has_prefix line ''event:'' then r\<lparr>sr_event := trim_space (trim_prefix line ''event:'')\<rparr>
     else if has_prefix line ''data:'' then r\<lparr>sr_data := sr_data r @ [trim_space (trim_prefix line ''data:'')]\<rparr>
     else r)"

text \<open>A blank line hands the record to the handler.\<close>

fun sse_loop :: "'s sse_handler \<Rightarrow> string list \<Rightarrow> sse_record \<Rightarrow> 's \<Rightarrow> stream_error option \<times> sse_record \<times> 's" where
  "sse_loop h [] r s = (None, r, s)"
| "sse_loop h (l # ls) r s =
    (let line = (if has_suffix l [CHR 0x0D] then butlast l else l)
     in case AddLine (sr_bytes r) line of
          None \<Rightarrow> (Some EventTooLarge, r, s)
        | Some n \<Rightarrow>
            if line \<noteq> [] then sse_loop h ls (sse_field line (r\<lparr>sr_bytes := n\<rparr>)) s
            else if sr_data r = [] then sse_loop h ls no_record s
            else (case h (sr_event r) (join_lines (sr_data r)) s of
                    (Some err, s') \<Rightarrow> (Some err, no_record, s')
                  | (None, s') \<Rightarrow> sse_loop h ls no_record s'))"

datatype body_end = BodyEof | BodyFailed | BodyCanceled

definition readSSE :: "'s sse_handler \<Rightarrow> string \<Rightarrow> body_end \<Rightarrow> 's \<Rightarrow> stream_error option \<times> 's" where
  "readSSE h body failure s =
    (case scan_lines (split_lines body []) of
       (ls, long) \<Rightarrow>
         (case sse_loop h ls no_record s of
            (Some err, _, s') \<Rightarrow> (Some err, s')
          | (None, r, s') \<Rightarrow>
              if long then (Some LineTooLong, s')
              else case failure of
                BodyFailed \<Rightarrow> (Some ReadFailed, s')
              | BodyCanceled \<Rightarrow> (Some ClientGone, s')
              | BodyEof \<Rightarrow> (if sr_data r \<noteq> [] then Some UnexpectedEOF else None, s')))"

subsection \<open>Transcoding\<close>

datatype stream_termination = StreamOpen | StreamNormal | StreamError

definition terminated_by :: "stream_event \<Rightarrow> stream_termination \<Rightarrow> stream_termination" where
  "terminated_by ev t =
    (if ev_Kind ev = ''done'' then StreamNormal else if ev_Kind ev = ''error'' then StreamError else t)"

fun emit_frame :: "json_codec \<Rightarrow> draws \<Rightarrow> stream_event list \<Rightarrow> stream_termination \<Rightarrow> emitter \<Rightarrow>
    stream_error option \<times> stream_termination \<times> emitter" where
  "emit_frame jc rnds [] t e = (None, t, e)"
| "emit_frame jc rnds (ev # evs) t e =
    (case Emit jc rnds ev e of
       (Some err, e') \<Rightarrow> (Some err, terminated_by ev t, count_usage evs e')
     | (None, e') \<Rightarrow>
         if ev_Kind ev = ''done'' then (Some NormalTermination, terminated_by ev t, e')
         else emit_frame jc rnds evs (terminated_by ev t) e')"

record 'w transcoder =
  tc_parser :: stream_parser
  tc_rewriter :: 'w
  tc_emitter :: emitter
  tc_termination :: stream_termination

text \<open>What the code outside src/ and the standard library decide: the JSON codec, the texts of
  identifiers, of printed values and of errors.\<close>

record stream_env =
  se_json :: json_codec
  se_draws :: draws
  se_print :: "json \<Rightarrow> string"
  se_error :: "bridge_error \<Rightarrow> string"
  se_cause :: "stream_error \<Rightarrow> string"

definition failure_event :: "string \<Rightarrow> stream_event" where
  "failure_event message = error_of message ''upstream_error''"

definition transcode_record :: "stream_env \<Rightarrow> 'w rewriter \<Rightarrow> 'w transcoder sse_handler" where
  "transcode_record env rw name data s =
    (case Parse (se_json env) (se_print env) rw name data (tc_parser s, tc_rewriter s) of
       (Inl err, p, w) \<Rightarrow>
         (case Emit (se_json env) (se_draws env) (failure_event (se_error env err)) (tc_emitter s) of
            (r, e) \<Rightarrow> (Some (case r of Some x \<Rightarrow> x | None \<Rightarrow> UpstreamFailure),
              s\<lparr>tc_parser := p, tc_rewriter := w, tc_emitter := e, tc_termination := StreamError\<rparr>))
     | (Inr evs, p, w) \<Rightarrow>
         (case emit_frame (se_json env) (se_draws env) evs (tc_termination s) (tc_emitter s) of
            (r, t, e) \<Rightarrow> (r, s\<lparr>tc_parser := p, tc_rewriter := w, tc_emitter := e, tc_termination := t\<rparr>)))"

text \<open>The error event for a stream that broke off; the failure it delivers counts as none.\<close>

definition unexpected_text :: "stream_env \<Rightarrow> stream_error \<Rightarrow> string" where
  "unexpected_text env cause =
    (if cause = UnexpectedEOF then ''upstream SSE stream ended before a terminal event''
     else ''upstream SSE stream failed: '' @ se_cause env cause)"

definition emitUnexpectedStreamError :: "stream_env \<Rightarrow> stream_error \<Rightarrow> step" where
  "emitUnexpectedStreamError env cause e =
    (case Emit (se_json env) (se_draws env) (failure_event (unexpected_text env cause)) e of
       (Some UpstreamFailure, e') \<Rightarrow> (None, e')
     | r \<Rightarrow> r)"

definition report_unexpected :: "stream_env \<Rightarrow> stream_error \<Rightarrow> emitter \<Rightarrow> stream_error option \<times> emitter" where
  "report_unexpected env cause e =
    (case emitUnexpectedStreamError env cause e of
       (Some err, e') \<Rightarrow> (Some err, e')
     | (None, e') \<Rightarrow> (Some cause, e'))"

definition conclude :: "stream_env \<Rightarrow> bool \<Rightarrow> stream_error option \<Rightarrow> 'w transcoder \<Rightarrow> stream_error option \<times> emitter" where
  "conclude env gone err s =
    (let e = tc_emitter s
     in case err of
          Some x \<Rightarrow>
            (if x = NormalTermination then (None, e)
             else if gone \<or> x = ClientGone \<or> x = Delivery then (Some x, e)
             else if tc_termination s = StreamOpen then report_unexpected env x e
             else (Some x, e))
        | None \<Rightarrow>
            (if tc_termination s = StreamNormal then (None, e)
             else if tc_termination s = StreamError then (Some UpstreamFailure, e)
             else if gone then (Some ClientGone, e)
             else report_unexpected env UnexpectedEOF e))"

definition TranscodeStreamWithRewrite ::
    "stream_env \<Rightarrow> 'w rewriter \<Rightarrow> 'w \<Rightarrow> protocol \<Rightarrow> emitter \<Rightarrow> string \<Rightarrow> body_end \<Rightarrow> bool \<Rightarrow>
      token_usage \<times> bool \<times> stream_error option \<times> emitter" where
  "TranscodeStreamWithRewrite env rw w from e body failure gone =
    (let s = \<lparr>tc_parser = new_parser True from False, tc_rewriter = w, tc_emitter = e, tc_termination = StreamOpen\<rparr>
     in case readSSE (transcode_record env rw) body failure s of
          (err, s) \<Rightarrow>
            (case conclude env gone err s of
               (result, e) \<Rightarrow> (em_usage e, em_usageReported e, result, e)))"

definition TranscodeStream ::
    "stream_env \<Rightarrow> protocol \<Rightarrow> emitter \<Rightarrow> string \<Rightarrow> body_end \<Rightarrow> bool \<Rightarrow>
      token_usage \<times> bool \<times> stream_error option \<times> emitter" where
  "TranscodeStream env = TranscodeStreamWithRewrite env no_rewrite ()"

end
