(* ===== verification/StreamRules.thy ===== *)
theory StreamRules
  imports StreamEmit
begin

text \<open>
  Rules for the steps of the stream emitter: a step started in a state with P ends without error in
  one with Q, or with an error in one with V. An observer reads the frames written so far.
\<close>

subsection \<open>Triples\<close>

type_synonym failed_with = "stream_error \<Rightarrow> emitter \<Rightarrow> bool"

definition triple :: "failed_with \<Rightarrow> (emitter \<Rightarrow> bool) \<Rightarrow> step \<Rightarrow> (emitter \<Rightarrow> bool) \<Rightarrow> bool" where
  "triple V P m Q =
    (\<forall>e. P e \<longrightarrow> (if fst (m e) = None then Q (snd (m e)) else V (the (fst (m e))) (snd (m e))))"

named_theorems step_rules \<open>triples of the steps\<close>

lemma tripleD:
  "triple V P m Q \<Longrightarrow> P e \<Longrightarrow> m e = (None, e') \<Longrightarrow> Q e'"
  "triple V P m Q \<Longrightarrow> P e \<Longrightarrow> m e = (Some err, e') \<Longrightarrow> V err e'"
  unfolding triple_def by force+

lemma triple_conseq:
  "triple V P m Q \<Longrightarrow> (\<And>e. P' e \<Longrightarrow> P e) \<Longrightarrow> (\<And>e. Q e \<Longrightarrow> Q' e) \<Longrightarrow> triple V P' m Q'"
  unfolding triple_def by metis

lemma triple_pre: "triple V P m Q \<Longrightarrow> (\<And>e. P' e \<Longrightarrow> P e) \<Longrightarrow> triple V P' m Q"
  by (rule triple_conseq)

lemma triple_fail: "triple V P m Q \<Longrightarrow> (\<And>err e. V err e \<Longrightarrow> V' err e) \<Longrightarrow> triple V' P m Q"
  unfolding triple_def by metis

lemma triple_nil: "(\<And>e. P e \<Longrightarrow> Q e) \<Longrightarrow> triple V P (run_steps []) Q"
  by (simp add: triple_def)

lemma triple_cons:
  assumes m: "triple V P m R" and ms: "triple V R (run_steps ms) Q"
  shows "triple V P (run_steps (m # ms)) Q"
  unfolding triple_def
proof (intro allI impI)
  fix e assume e: "P e"
  obtain err e' where r: "m e = (err, e')" by fastforce
  show "if fst (run_steps (m # ms) e) = None then Q (snd (run_steps (m # ms) e)) else V (the (fst (run_steps (m # ms) e))) (snd (run_steps (m # ms) e))"
  proof (cases err)
    case None
    with m e r have "R e'" unfolding triple_def by force
    with ms None r show ?thesis unfolding triple_def by simp
  next
    case (Some x)
    with m e r show ?thesis unfolding triple_def by force
  qed
qed

lemma triple_last: "triple V P m Q \<Longrightarrow> triple V P (run_steps [m]) Q"
  by (rule triple_cons [OF _ triple_nil])

lemma triple_if:
  "triple V (\<lambda>e. P e \<and> b e) m Q \<Longrightarrow> triple V (\<lambda>e. P e \<and> \<not> b e) m' Q \<Longrightarrow> triple V P (\<lambda>e. if b e then m e else m' e) Q"
  by (simp add: triple_def)

lemma triple_const_if: "(b \<Longrightarrow> triple V P m Q) \<Longrightarrow> (\<not> b \<Longrightarrow> triple V P m' Q) \<Longrightarrow> triple V P (if b then m else m') Q"
  by simp

lemma triple_pass: "(\<And>e. P e \<Longrightarrow> Q e) \<Longrightarrow> triple V P (\<lambda>e. (None, e)) Q"
  by (simp add: triple_def)

lemma triple_modify: "(\<And>e. P e \<Longrightarrow> Q (f e)) \<Longrightarrow> triple V P (modify f) Q"
  by (simp add: triple_def modify_def)

lemma triple_after: "triple V P m Q \<Longrightarrow> (\<And>e. P' e \<Longrightarrow> P (f e)) \<Longrightarrow> triple V P' (\<lambda>e. m (f e)) Q"
  by (simp add: triple_def)

text \<open>A step whose arguments are read from the state.\<close>

lemma triple_state: "(\<And>x. triple V (\<lambda>e. P e \<and> e = x) (m x) Q) \<Longrightarrow> triple V P (\<lambda>e. m e e) Q"
  by (simp add: triple_def)

lemma triple_target:
  assumes "\<And>e. P e \<Longrightarrow> em_target e = p" "triple V P (m p) Q"
  shows "triple V P (\<lambda>e. m (em_target e) e) Q"
  using assms by (simp add: triple_def)

text \<open>A step that is another one, started in another state, with arguments read from the state.\<close>

lemma triple_by:
  assumes "\<And>e. P e \<Longrightarrow> P' e (f e) \<and> m e = m' e (f e)" "\<And>y. triple V (P' y) (m' y) Q"
  shows "triple V P m Q"
  using assms unfolding triple_def by metis

lemma triple_eq: "(\<And>e. P e \<Longrightarrow> m e = m' e) \<Longrightarrow> triple V P m' Q \<Longrightarrow> triple V P m Q"
  unfolding triple_def by metis

text \<open>A list of steps that each keep an invariant.\<close>

lemma triple_all:
  "(\<And>m. m \<in> set ms \<Longrightarrow> triple V P m P) \<Longrightarrow> triple V P (run_steps ms) P"
  by (induction ms) (auto intro: triple_nil triple_cons)

lemma triple_write:
  assumes "\<And>e r. P e \<Longrightarrow> Q (e\<lparr>em_out := em_out e @ [f], em_room := r\<rparr>)" "\<And>e. P e \<Longrightarrow> V Delivery e"
  shows "triple V P (write_frame f) Q"
  using assms by (auto simp: triple_def write_frame_def)

subsection \<open>Observers of the output\<close>

text \<open>An observer takes the frames one by one; None is a sequence it does not admit.\<close>

locale frame_observer =
  fixes observe :: "'o \<Rightarrow> frame \<Rightarrow> 'o option" and initial :: 'o
  assumes admits_one: "\<exists>f. observe initial f \<noteq> None"
begin

definition seen :: "frame list \<Rightarrow> 'o option" where
  "seen fs = foldl (\<lambda>o' f. Option.bind o' (\<lambda>x. observe x f)) (Some initial) fs"

lemma seen_Nil [simp]: "seen [] = Some initial"
  by (simp add: seen_def)

lemma seen_snoc [simp]: "seen (fs @ [f]) = Option.bind (seen fs) (\<lambda>x. observe x f)"
  by (simp add: seen_def)

text \<open>What is admitted stays admitted when a frame is taken back.\<close>

lemma seen_prefix: "seen (fs @ gs) \<noteq> None \<Longrightarrow> seen fs \<noteq> None"
proof (induction gs rule: rev_induct)
  case (snoc g gs)
  then have "seen ((fs @ gs) @ [g]) \<noteq> None" by simp
  then have "seen (fs @ gs) \<noteq> None" by (auto simp del: append_assoc split: Option.bind_splits)
  with snoc.IH show ?case .
qed simp

text \<open>A step that fails has lost its client after an admitted output.\<close>

definition undelivered :: failed_with where
  "undelivered err e = (err = Delivery \<and> seen (em_out e) \<noteq> None)"

text \<open>A step that writes one admitted frame moves the observer.\<close>

lemma triple_observed:
  assumes "\<And>e. P e \<Longrightarrow> \<exists>x y. seen (em_out e) = Some x \<and> observe x f = Some y \<and>
      (\<forall>out r. seen out = Some y \<longrightarrow> Q (e\<lparr>em_out := out, em_room := r\<rparr>))"
  shows "triple undelivered P (write_frame f) Q"
proof (rule triple_write)
  fix e r assume "P e"
  with assms obtain x y where "seen (em_out e) = Some x" "observe x f = Some y"
    "\<forall>out r. seen out = Some y \<longrightarrow> Q (e\<lparr>em_out := out, em_room := r\<rparr>)"
    by metis
  then show "Q (e\<lparr>em_out := em_out e @ [f], em_room := r\<rparr>)" by simp
next
  fix e assume "P e"
  with assms show "undelivered Delivery e" by (force simp: undelivered_def)
qed

end

end
