(* ===== verification/AnthropicStream.thy ===== *)
theory AnthropicStream
  imports StreamRules
begin

text \<open>
  The Anthropic stream as a client reads it: one message, blocks numbered from zero in the order they
  open, deltas only for an open block of their kind, text and thinking never open together, every
  block closed before the message ends. The emitter writes only such streams.
\<close>

subsection \<open>The reader\<close>

datatype anthropic_reader = Fresh | Live nat "(nat \<times> string) set" | Closing | Ended | Failed

definition delta_kind :: "string \<Rightarrow> string" where
  "delta_kind d =
    (if d = ''text_delta'' then ''text''
     else if d = ''thinking_delta'' \<or> d = ''signature_delta'' then ''thinking''
     else if d = ''input_json_delta'' then ''tool_use'' else [])"

definition frame_index :: "json_object \<Rightarrow> nat" where
  "frame_index obj = nat (IntAt obj [''index''])"

text \<open>A block of any kind may open while tool blocks are open, which stay open to the end.\<close>

definition read_live :: "nat \<Rightarrow> (nat \<times> string) set \<Rightarrow> string \<Rightarrow> json_object \<Rightarrow> anthropic_reader option" where
  "read_live n bs name obj =
    (if name = ''content_block_start'' then
       (if frame_index obj = n \<and> (\<forall>b\<in>bs. snd b = ''tool_use'')
        then Some (Live (n + 1) (insert (n, StringAt obj [''content_block'', ''type'']) bs)) else None)
     else if name = ''content_block_delta'' then
       (if (frame_index obj, delta_kind (StringAt obj [''delta'', ''type''])) \<in> bs then Some (Live n bs) else None)
     else if name = ''content_block_stop'' then
       (if frame_index obj \<in> fst ` bs then Some (Live n {b \<in> bs. fst b \<noteq> frame_index obj}) else None)
     else if name = ''message_delta'' then (if bs = {} then Some Closing else None)
     else if name = ''error'' then Some Failed
     else None)"

fun anthropic_read :: "anthropic_reader \<Rightarrow> frame \<Rightarrow> anthropic_reader option" where
  "anthropic_read Fresh (Frame name obj) =
    (if name = ''message_start'' then Some (Live 0 {}) else if name = ''error'' then Some Failed else None)"
| "anthropic_read (Live n bs) (Frame name obj) = read_live n bs name obj"
| "anthropic_read Closing (Frame name obj) = (if name = ''message_stop'' then Some Ended else None)"
| "anthropic_read _ _ = None"

interpretation anth: frame_observer anthropic_read Fresh
proof unfold_locales
  have "anthropic_read Fresh (Frame ''error'' []) = Some Failed" by simp
  then show "\<exists>f. anthropic_read Fresh f \<noteq> None" by (metis option.distinct(1))
qed

subsection \<open>The blocks a state has open\<close>

datatype owner = OText | OThinking | OTool string

fun kind_of :: "owner \<Rightarrow> string" where
  "kind_of OText = ''text''"
| "kind_of OThinking = ''thinking''"
| "kind_of (OTool k) = ''tool_use''"

definition kinds :: "(nat \<times> owner) set \<Rightarrow> (nat \<times> string) set" where
  "kinds B = (\<lambda>b. (fst b, kind_of (snd b))) ` B"

definition text_blocks :: "emitter \<Rightarrow> (nat \<times> owner) set" where
  "text_blocks e = (if em_textOpen e then {(em_textIndex e, OText)} else {})"

definition thinking :: "emitter \<Rightarrow> bool" where
  "thinking e = (em_reasoningOpen e \<and> \<not> em_reasoningClosed e)"

definition thinking_blocks :: "emitter \<Rightarrow> (nat \<times> owner) set" where
  "thinking_blocks e = (if thinking e then {(em_reasoningIndex e, OThinking)} else {})"

definition tool_blocks :: "emitter \<Rightarrow> (nat \<times> owner) set" where
  "tool_blocks e =
    {(st_AnthropicIndex t, OTool k) | k t. tool_at e k = Some t \<and> st_ToolStarted t}"

definition numbered_below :: "(nat \<times> owner) set \<Rightarrow> nat \<Rightarrow> bool" where
  "numbered_below B n = (inj_on fst B \<and> (\<forall>b\<in>B. fst b < n))"

lemma numbered_below_new: "numbered_below B n \<Longrightarrow> numbered_below (insert (n, w) B) (Suc n)"
  by (auto simp: numbered_below_def inj_on_def)

lemma numbered_below_subset: "numbered_below B n \<Longrightarrow> C \<subseteq> B \<Longrightarrow> numbered_below C n"
  unfolding numbered_below_def by (meson inj_on_subset subsetD)

lemma kinds_insert [simp]: "kinds (insert (i, w) B) = insert (i, kind_of w) (kinds B)"
  by (simp add: kinds_def)

lemma kinds_empty [simp]: "kinds {} = {}"
  by (simp add: kinds_def)

lemma kinds_remove:
  assumes "numbered_below B n" "(i, w) \<in> B"
  shows "{b \<in> kinds B. fst b \<noteq> i} = kinds (B - {(i, w)})"
proof -
  have u: "b = (i, w)" if "b \<in> B" "fst b = i" for b
    using assms that inj_onD [of fst B b "(i, w)"] unfolding numbered_below_def by simp
  have "{b \<in> kinds B. fst b \<noteq> i} = kinds {b \<in> B. fst b \<noteq> i}"
    unfolding kinds_def Compr_image_eq by simp
  also have "{b \<in> B. fst b \<noteq> i} = B - {(i, w)}"
  proof (rule set_eqI)
    show "b \<in> {b \<in> B. fst b \<noteq> i} \<longleftrightarrow> b \<in> B - {(i, w)}" for b
      using u [of b] by (cases "fst b = i") auto
  qed
  finally show ?thesis .
qed

definition only_tools :: "(nat \<times> owner) set \<Rightarrow> bool" where
  "only_tools B = (\<forall>b\<in>B. kind_of (snd b) = ''tool_use'')"

lemma only_tools_kinds [simp]: "(\<forall>b\<in>kinds B. snd b = ''tool_use'') = only_tools B"
  by (auto simp: kinds_def only_tools_def)

lemma only_tools_blocks [simp]: "only_tools (tool_blocks e)" "only_tools {}"
  by (auto simp: only_tools_def tool_blocks_def)

text \<open>A message is being written, with the blocks B open.\<close>

definition alive :: "(nat \<times> owner) set \<Rightarrow> emitter \<Rightarrow> bool" where
  "alive B e = (em_target e = Anthropic \<and> em_started e \<and> numbered_below B (em_nextAnthropic e) \<and>
     anth.seen (em_out e) = Some (Live (em_nextAnthropic e) (kinds B)))"

abbreviation admitted :: failed_with where
  "admitted \<equiv> anth.undelivered"

subsection \<open>The frames\<close>

lemma frame_reads [simp]:
  "frame_index ((''type'', v) # (''index'', JInt (int i)) # obj) = i"
  by (simp add: frame_index_def IntAt_def int_at_def AnyAt_def jget_def)

lemma frame_reads_block [simp]:
  "StringAt ((''type'', v) # (''index'', w) # (''content_block'', JObj ((''type'', JStr k) # blk)) # obj)
     [''content_block'', ''type''] = k"
  "StringAt ((''type'', v) # (''index'', w) # (''delta'', JObj ((''type'', JStr k) # blk)) # obj) [''delta'', ''type''] = k"
  by (simp_all add: StringAt_def AnyAt_def jget_def as_str_def)

lemma triple_start:
  assumes P: "\<And>e. P e \<Longrightarrow> alive (B e) e \<and> only_tools (B e) \<and> em_nextAnthropic e = i"
    and Q: "\<And>e out r. P e \<Longrightarrow> alive (insert (i, w) (B e)) (e\<lparr>em_nextAnthropic := i + 1, em_out := out, em_room := r\<rparr>)
      \<Longrightarrow> Q (e\<lparr>em_nextAnthropic := i + 1, em_out := out, em_room := r\<rparr>)"
    and k: "k = kind_of w"
  shows "triple admitted P (\<lambda>e. block_start i ((''type'', JStr k) # blk) (e\<lparr>em_nextAnthropic := i + 1\<rparr>)) Q"
  unfolding block_start_def sse_def
proof (rule triple_after [OF anth.triple_observed, where P = "\<lambda>e. \<exists>e'. P e' \<and> e = e'\<lparr>em_nextAnthropic := i + 1\<rparr>"])
  fix e assume "\<exists>e'. P e' \<and> e = e'\<lparr>em_nextAnthropic := i + 1\<rparr>"
  then obtain e' where e': "P e'" "e = e'\<lparr>em_nextAnthropic := i + 1\<rparr>" by blast
  note p = P [OF e'(1)]
  have "alive (insert (i, w) (B e')) (e'\<lparr>em_nextAnthropic := i + 1, em_out := out, em_room := r\<rparr>)"
    if "anth.seen out = Some (Live (i + 1) (insert (i, k) (kinds (B e'))))" for out r
    using p that by (auto simp: alive_def k numbered_below_new)
  then show "\<exists>x y. anth.seen (em_out e) = Some x \<and>
      anthropic_read x (Frame ''content_block_start'' [(''type'', JStr ''content_block_start''), (''index'', JInt (int i)),
        (''content_block'', JObj ((''type'', JStr k) # blk))]) = Some y \<and>
      (\<forall>out r. anth.seen out = Some y \<longrightarrow> Q (e\<lparr>em_out := out, em_room := r\<rparr>))"
    using p Q [OF e'(1)] e'(2) by (auto simp: alive_def read_live_def)
qed blast

lemma triple_delta:
  assumes "\<And>e. P e \<Longrightarrow> alive (B e) e \<and> (i, w) \<in> B e"
    and "\<And>e out r. P e \<Longrightarrow> alive (B e) (e\<lparr>em_out := out, em_room := r\<rparr>) \<Longrightarrow> Q (e\<lparr>em_out := out, em_room := r\<rparr>)"
    and k: "delta_kind d = kind_of w"
  shows "triple admitted P (block_delta i ((''type'', JStr d) # delta)) Q"
  unfolding block_delta_def sse_def
proof (rule anth.triple_observed)
  fix e assume e: "P e"
  note p = assms(1) [OF e]
  have "(i, kind_of w) \<in> kinds (B e)" using p unfolding kinds_def by force
  then show "\<exists>x y. anth.seen (em_out e) = Some x \<and>
      anthropic_read x (Frame ''content_block_delta'' [(''type'', JStr ''content_block_delta''), (''index'', JInt (int i)),
        (''delta'', JObj ((''type'', JStr d) # delta))]) = Some y \<and>
      (\<forall>out r. anth.seen out = Some y \<longrightarrow> Q (e\<lparr>em_out := out, em_room := r\<rparr>))"
    using p assms(2) [OF e] by (auto simp: alive_def read_live_def k)
qed

lemma triple_stop:
  assumes "\<And>e. P e \<Longrightarrow> alive (B e) e \<and> (i, w) \<in> B e"
    and "\<And>e out r. P e \<Longrightarrow> alive (B e - {(i, w)}) (e\<lparr>em_out := out, em_room := r\<rparr>) \<Longrightarrow> Q (e\<lparr>em_out := out, em_room := r\<rparr>)"
  shows "triple admitted P (block_stop i) Q"
  unfolding block_stop_def sse_def
proof (rule anth.triple_observed)
  fix e assume e: "P e"
  note p = assms(1) [OF e]
  have "i \<in> fst ` kinds (B e)" using p unfolding kinds_def by force
  moreover have "{b \<in> kinds (B e). fst b \<noteq> i} = kinds (B e - {(i, w)})"
    using p kinds_remove unfolding alive_def by blast
  moreover have "numbered_below (B e - {(i, w)}) (em_nextAnthropic e)"
    using p numbered_below_subset unfolding alive_def by blast
  ultimately show "\<exists>x y. anth.seen (em_out e) = Some x \<and>
      anthropic_read x (Frame ''content_block_stop'' [(''type'', JStr ''content_block_stop''), (''index'', JInt (int i))]) = Some y \<and>
      (\<forall>out r. anth.seen out = Some y \<longrightarrow> Q (e\<lparr>em_out := out, em_room := r\<rparr>))"
    using p assms(2) [OF e] by (auto simp: alive_def read_live_def)
qed

subsection \<open>The states between two steps\<close>

text \<open>A tool between two events: started with nothing left to send, or still without a name.\<close>

definition settled :: "stream_tool \<Rightarrow> bool" where
  "settled t = (if st_ToolStarted t then length (st_Arguments t) \<le> st_EmittedArguments t else st_Name t = [])"

definition tools_ok :: "string option \<Rightarrow> emitter \<Rightarrow> bool" where
  "tools_ok x e = (distinct (em_order e) \<and> (\<forall>k. k \<in> set (em_order e) \<longleftrightarrow> tool_at e k \<noteq> None) \<and>
     (\<forall>k t. tool_at e k = Some t \<longrightarrow> st_Key t = k \<and> (x = Some k \<or> settled t)))"

definition open_blocks :: "emitter \<Rightarrow> (nat \<times> owner) set" where
  "open_blocks e = text_blocks e \<union> thinking_blocks e \<union> tool_blocks e"

type_synonym kept = "(string \<times> stream_tool) list \<times> string list \<times> bool"

definition message :: "string option \<Rightarrow> kept \<Rightarrow> emitter \<Rightarrow> bool" where
  "message x s e = (alive (open_blocks e) e \<and> tools_ok x e \<and> \<not> (em_textOpen e \<and> thinking e) \<and>
     (em_tools e, em_order e, em_done e) = s)"

named_theorems blocks_simps \<open>the blocks of an updated state\<close>

lemma open_blocks_out [simp, blocks_simps]:
  "text_blocks (e\<lparr>em_out := out, em_room := r\<rparr>) = text_blocks e"
  "thinking (e\<lparr>em_out := out, em_room := r\<rparr>) = thinking e"
  "thinking_blocks (e\<lparr>em_out := out, em_room := r\<rparr>) = thinking_blocks e"
  "tool_blocks (e\<lparr>em_out := out, em_room := r\<rparr>) = tool_blocks e"
  "open_blocks (e\<lparr>em_out := out, em_room := r\<rparr>) = open_blocks e"
  "tools_ok x (e\<lparr>em_out := out, em_room := r\<rparr>) = tools_ok x e"
  by (simp_all add: text_blocks_def thinking_def thinking_blocks_def tool_blocks_def tool_at_def open_blocks_def tools_ok_def)

lemma message_out:
  "message x s (e\<lparr>em_out := out, em_room := r\<rparr>) =
   (alive (open_blocks e) (e\<lparr>em_out := out, em_room := r\<rparr>) \<and> tools_ok x e \<and> \<not> (em_textOpen e \<and> thinking e) \<and>
     (em_tools e, em_order e, em_done e) = s)"
  by (simp add: message_def)

lemma message_alive: "message x s e \<Longrightarrow> alive (open_blocks e) e"
  by (simp add: message_def)

lemma message_target: "message x s e \<Longrightarrow> em_target e = Anthropic"
  by (simp add: message_def alive_def)

text \<open>Fields that no block depends on.\<close>

lemma message_other [simp]:
  "message x s (e\<lparr>em_drawn := n\<rparr>) = message x s e"
  "message x s (e\<lparr>em_reasoningEncrypted := str\<rparr>) = message x s e"
  "message x s (e\<lparr>em_stop := str\<rparr>) = message x s e"
  by (simp_all add: message_def alive_def open_blocks_def text_blocks_def thinking_blocks_def thinking_def tool_blocks_def
    tool_at_def tools_ok_def)

lemma text_owned: "em_textOpen e \<Longrightarrow> (em_textIndex e, OText) \<in> open_blocks e"
  by (simp add: open_blocks_def text_blocks_def)

lemma thinking_owned: "thinking e \<Longrightarrow> (em_reasoningIndex e, OThinking) \<in> open_blocks e"
  by (simp add: open_blocks_def thinking_blocks_def)

lemma tool_owned: "tool_at e k = Some t \<Longrightarrow> st_ToolStarted t \<Longrightarrow> (st_AnthropicIndex t, OTool k) \<in> open_blocks e"
  by (auto simp: open_blocks_def tool_blocks_def)

lemma tool_blocks_owner: "(i, w) \<in> tool_blocks e \<Longrightarrow> \<exists>k. w = OTool k"
  by (auto simp: tool_blocks_def)

lemma tool_block_iff:
  "(i, OTool k) \<in> tool_blocks e \<longleftrightarrow> (\<exists>t. tool_at e k = Some t \<and> st_ToolStarted t \<and> st_AnthropicIndex t = i)"
  "(i, OText) \<notin> tool_blocks e" "(i, OThinking) \<notin> tool_blocks e"
  by (auto simp: tool_blocks_def)

lemma text_blocks_cases: "em_textOpen e \<Longrightarrow> text_blocks e = {(em_textIndex e, OText)}" "\<not> em_textOpen e \<Longrightarrow> text_blocks e = {}"
  by (simp_all add: text_blocks_def)

subsection \<open>Reasoning\<close>

lemma triple_close_text:
  assumes "\<And>e. P e \<Longrightarrow> alive (text_blocks e \<union> tool_blocks e) e"
    and "\<And>e. P e \<Longrightarrow> \<not> em_textOpen e \<Longrightarrow> Q e"
    and "\<And>e out r. P e \<Longrightarrow> em_textOpen e \<Longrightarrow> alive (tool_blocks e) (e\<lparr>em_out := out, em_room := r\<rparr>) \<Longrightarrow>
      Q (e\<lparr>em_textOpen := False, em_out := out, em_room := r\<rparr>)"
  shows "triple admitted P close_text Q"
  unfolding close_text_def
proof (rule triple_if)
  show "triple admitted (\<lambda>e. P e \<and> em_textOpen e)
      (\<lambda>e. run_steps [block_stop (em_textIndex e), modify (\<lambda>e. e\<lparr>em_textOpen := False\<rparr>)] e) Q"
  proof (rule triple_state [where m = "\<lambda>x e. run_steps [block_stop (em_textIndex x), modify (\<lambda>e. e\<lparr>em_textOpen := False\<rparr>)] e"],
      rule triple_cons [OF _ triple_last])
    fix x
    show "triple admitted (\<lambda>e. (P e \<and> em_textOpen e) \<and> e = x) (block_stop (em_textIndex x))
        (\<lambda>e. Q (e\<lparr>em_textOpen := False\<rparr>))"
    proof (rule triple_stop [where w = OText and B = "\<lambda>e. text_blocks e \<union> tool_blocks e"])
      fix e out r assume e: "(P e \<and> em_textOpen e) \<and> e = x"
        and a: "alive (text_blocks e \<union> tool_blocks e - {(em_textIndex x, OText)}) (e\<lparr>em_out := out, em_room := r\<rparr>)"
      then have x: "x = e" and p: "P e" "em_textOpen e" by auto
      have "text_blocks e \<union> tool_blocks e - {(em_textIndex e, OText)} = tool_blocks e"
        using p(2) by (auto simp: text_blocks_def dest: tool_blocks_owner)
      with a assms(3) [OF p] have "Q (e\<lparr>em_textOpen := False, em_out := out, em_room := r\<rparr>)" by (simp add: x)
      moreover have "e\<lparr>em_out := out, em_room := r\<rparr>\<lparr>em_textOpen := False\<rparr> =
          e\<lparr>em_textOpen := False, em_out := out, em_room := r\<rparr>" by simp
      ultimately show "Q (e\<lparr>em_out := out, em_room := r\<rparr>\<lparr>em_textOpen := False\<rparr>)" by metis
    next
      fix e assume "(P e \<and> em_textOpen e) \<and> e = x"
      with assms(1) [of x] show "alive (text_blocks e \<union> tool_blocks e) e \<and> (em_textIndex x, OText) \<in> text_blocks e \<union> tool_blocks e"
        by (auto simp: text_blocks_cases)
    qed
    show "triple admitted (\<lambda>e. Q (e\<lparr>em_textOpen := False\<rparr>)) (modify (\<lambda>e. e\<lparr>em_textOpen := False\<rparr>)) Q"
      by (rule triple_modify)
  qed
qed (use assms(2) in \<open>auto intro: triple_pass\<close>)

lemma triple_finishReasoning:
  "triple admitted (message x s) finishReasoning (\<lambda>e. message x s e \<and> \<not> thinking e)"
proof -
  let ?P = "\<lambda>e'. \<exists>e. message x s e \<and> thinking e \<and> e' = e\<lparr>em_reasoningClosed := True\<rparr>"
  have stop: "triple admitted (\<lambda>e. ?P e \<and> e = y) (block_stop (em_reasoningIndex y))
      (\<lambda>e. message x s e \<and> \<not> thinking e)" for y
  proof (rule triple_stop [where w = OThinking and B = "\<lambda>e. open_blocks (e\<lparr>em_reasoningClosed := False\<rparr>)"])
    fix e assume "?P e \<and> e = y"
    then obtain d where d: "message x s d" "thinking d" "e = d\<lparr>em_reasoningClosed := True\<rparr>" "e = y" by blast
    then show "alive (open_blocks (e\<lparr>em_reasoningClosed := False\<rparr>)) e \<and>
        (em_reasoningIndex y, OThinking) \<in> open_blocks (e\<lparr>em_reasoningClosed := False\<rparr>)"
      by (auto simp: message_def alive_def open_blocks_def text_blocks_def thinking_blocks_def thinking_def tool_blocks_def tool_at_def)
  next
    fix e out r assume "?P e \<and> e = y"
      and a: "alive (open_blocks (e\<lparr>em_reasoningClosed := False\<rparr>) - {(em_reasoningIndex y, OThinking)})
        (e\<lparr>em_out := out, em_room := r\<rparr>)"
    then obtain d where d: "message x s d" "thinking d" "e = d\<lparr>em_reasoningClosed := True\<rparr>" "e = y" by blast
    have "open_blocks (e\<lparr>em_reasoningClosed := False\<rparr>) - {(em_reasoningIndex y, OThinking)} = open_blocks e"
      using d(2,3) unfolding d(4) [symmetric]
      by (auto simp: open_blocks_def text_blocks_def thinking_blocks_def thinking_def tool_blocks_def tool_at_def)
    with a d show "message x s (e\<lparr>em_out := out, em_room := r\<rparr>) \<and> \<not> thinking (e\<lparr>em_out := out, em_room := r\<rparr>)"
      by (auto simp: message_def thinking_def tools_ok_def tool_at_def)
  qed
  have "triple admitted (\<lambda>e. message x s e \<and> thinking e) (\<lambda>e. block_stop (em_reasoningIndex (e\<lparr>em_reasoningClosed := True\<rparr>))
      (e\<lparr>em_reasoningClosed := True\<rparr>)) (\<lambda>e. message x s e \<and> \<not> thinking e)"
    by (rule triple_after [where m = "\<lambda>e. block_stop (em_reasoningIndex e) e", OF triple_state [where m = "\<lambda>y. block_stop (em_reasoningIndex y)", OF stop]]) blast
  then show ?thesis
    unfolding triple_def finishReasoning_def thinking_def Let_def by (auto simp: message_target)
qed

lemma reopen_message:
  assumes "message x s e"
  shows "message x s (reopenReasoning e) \<and> \<not> em_reasoningClosed (reopenReasoning e)"
proof (cases "em_reasoningClosed e")
  case True
  have "open_blocks (reopenReasoning e) = open_blocks e" "\<not> thinking (reopenReasoning e)"
    using True
    by (simp_all add: reopenReasoning_def open_blocks_def text_blocks_def thinking_blocks_def thinking_def tool_blocks_def tool_at_def)
  with True assms show ?thesis
    by (simp add: message_def alive_def tools_ok_def tool_at_def reopenReasoning_def)
qed (use assms in \<open>simp add: reopenReasoning_def\<close>)

text \<open>The state while the thinking block is being opened: the flag is set, the block is not there yet.\<close>

definition half_open :: "string option \<Rightarrow> kept \<Rightarrow> emitter \<Rightarrow> bool" where
  "half_open x s e = (alive (text_blocks e \<union> tool_blocks e) e \<and> tools_ok x e \<and> em_reasoningOpen e \<and>
     \<not> em_reasoningClosed e \<and> (em_tools e, em_order e, em_done e) = s)"

lemma half_open_index [simp]: "half_open x s (e\<lparr>em_reasoningIndex := n\<rparr>) = half_open x s e"
  by (simp add: half_open_def alive_def text_blocks_def tool_blocks_def tools_ok_def tool_at_def)

lemma triple_open_thinking:
  "triple admitted (\<lambda>e. half_open x s e \<and> \<not> em_textOpen e) open_thinking (\<lambda>e. message x s e \<and> thinking e)"
proof -
  let ?P = "\<lambda>y e. half_open x s e \<and> \<not> em_textOpen e \<and> em_nextAnthropic e = em_nextAnthropic y \<and> em_reasoningIndex e = em_nextAnthropic y"
  have "triple admitted (?P y)
      (\<lambda>e. block_start (em_nextAnthropic y) [(''type'', JStr ''thinking''), (''thinking'', JStr []), (''signature'', JStr [])]
        (e\<lparr>em_nextAnthropic := em_nextAnthropic y + 1\<rparr>))
      (\<lambda>e. message x s e \<and> thinking e)" for y
  proof (rule triple_start [where w = OThinking and B = tool_blocks])
    fix e assume "?P y e"
    then show "alive (tool_blocks e) e \<and> only_tools (tool_blocks e) \<and> em_nextAnthropic e = em_nextAnthropic y"
      by (auto simp: half_open_def text_blocks_cases)
  next
    fix e out r assume p: "?P y e"
      and a: "alive (insert (em_nextAnthropic y, OThinking) (tool_blocks e)) (e\<lparr>em_nextAnthropic := em_nextAnthropic y + 1, em_out := out, em_room := r\<rparr>)"
    let ?e = "e\<lparr>em_nextAnthropic := em_nextAnthropic y + 1, em_out := out, em_room := r\<rparr>"
    have t: "thinking ?e" using p by (simp add: thinking_def half_open_def)
    have "open_blocks ?e = insert (em_nextAnthropic y, OThinking) (tool_blocks e)"
      using p t by (simp add: open_blocks_def text_blocks_def thinking_blocks_def tool_blocks_def tool_at_def)
    with p a t show "message x s ?e \<and> thinking ?e"
      by (simp add: message_def half_open_def tools_ok_def tool_at_def)
  qed simp
  then have w: "triple admitted (?P y)
      (\<lambda>e. block_start (em_nextAnthropic y) [(''type'', JStr ''thinking''), (''thinking'', JStr []), (''signature'', JStr [])]
        (e\<lparr>em_nextAnthropic := em_nextAnthropic y + 1\<rparr>))
      (\<lambda>e. message x s e \<and> thinking e)" for y .
  show ?thesis
    by (rule triple_by [OF _ w, where f = "\<lambda>e. e\<lparr>em_reasoningIndex := em_nextAnthropic e\<rparr>"])
      (simp add: open_thinking_def Let_def)
qed

lemma half_open_close:
  "triple admitted (half_open x s) close_text (\<lambda>e. half_open x s e \<and> \<not> em_textOpen e)"
proof (rule triple_close_text)
  fix e out r assume h: "half_open x s e" and a: "alive (tool_blocks e) (e\<lparr>em_out := out, em_room := r\<rparr>)"
  let ?e = "e\<lparr>em_textOpen := False, em_out := out, em_room := r\<rparr>"
  have "text_blocks ?e \<union> tool_blocks ?e = tool_blocks e"
    by (simp add: text_blocks_def tool_blocks_def tool_at_def)
  with h a show "half_open x s ?e \<and> \<not> em_textOpen ?e"
    by (simp add: half_open_def alive_def tools_ok_def tool_at_def)
qed (simp_all add: half_open_def)

lemma start_half_open:
  assumes "message x s e" "\<not> em_reasoningOpen e" "\<not> em_reasoningClosed e"
  shows "half_open x s (e\<lparr>em_reasoningOpen := True\<rparr>)"
proof -
  have "open_blocks e = text_blocks (e\<lparr>em_reasoningOpen := True\<rparr>) \<union> tool_blocks (e\<lparr>em_reasoningOpen := True\<rparr>)"
    using assms(2) by (simp add: open_blocks_def thinking_blocks_def thinking_def text_blocks_def tool_blocks_def tool_at_def)
  with assms show ?thesis by (simp add: half_open_def message_def alive_def tools_ok_def tool_at_def)
qed

lemma triple_startReasoning:
  "triple admitted (\<lambda>e. message x s e \<and> \<not> em_reasoningClosed e) (startReasoning rnds) (\<lambda>e. message x s e \<and> thinking e)"
proof -
  have o: "triple admitted (half_open x s) (run_steps [close_text, open_thinking]) (\<lambda>e. message x s e \<and> thinking e)"
    by (rule triple_cons [OF half_open_close triple_last [OF triple_open_thinking]])
  have "triple admitted (\<lambda>e. message x s e \<and> \<not> em_reasoningClosed e \<and> \<not> em_reasoningOpen e) (startReasoning rnds)
      (\<lambda>e. message x s e \<and> thinking e)"
    by (rule triple_by [where m' = "\<lambda>_. run_steps [close_text, open_thinking]" and P' = "\<lambda>_. half_open x s"
          and f = "\<lambda>e. e\<lparr>em_reasoningOpen := True\<rparr>", OF _ o])
      (use start_half_open in \<open>auto simp: startReasoning_def message_target\<close>)
  then show ?thesis
    unfolding triple_def by (auto simp: startReasoning_def thinking_def)
qed

text \<open>A delta leaves everything as it was.\<close>

lemma message_delta_ok:
  assumes "\<And>e. P e \<Longrightarrow> message x s e \<and> (i, w) \<in> open_blocks e" "delta_kind d = kind_of w"
    "\<And>e out r. P e \<Longrightarrow> message x s (e\<lparr>em_out := out, em_room := r\<rparr>) \<Longrightarrow> Q (e\<lparr>em_out := out, em_room := r\<rparr>)"
  shows "triple admitted P (block_delta i ((''type'', JStr d) # delta)) Q"
proof (rule triple_delta [where w = w and B = open_blocks])
  fix e assume "P e"
  with assms(1) message_alive show "alive (open_blocks e) e \<and> (i, w) \<in> open_blocks e" by blast
next
  fix e out r assume "P e" "alive (open_blocks e) (e\<lparr>em_out := out, em_room := r\<rparr>)"
  with assms(1,3) show "Q (e\<lparr>em_out := out, em_room := r\<rparr>)" by (simp add: message_def)
qed (rule assms(2))

lemma triple_thinking_delta:
  assumes "delta_kind d = ''thinking''"
  shows "triple admitted (\<lambda>e. message x s e \<and> thinking e)
      (\<lambda>e. block_delta (em_reasoningIndex e) ((''type'', JStr d) # delta) e) (message x s)"
proof (rule triple_state [where m = "\<lambda>y. block_delta (em_reasoningIndex y) ((''type'', JStr d) # delta)"])
  fix y
  show "triple admitted (\<lambda>e. (message x s e \<and> thinking e) \<and> e = y)
      (block_delta (em_reasoningIndex y) ((''type'', JStr d) # delta)) (message x s)"
    by (rule message_delta_ok [where w = OThinking]) (auto simp: assms thinking_owned)
qed

lemma triple_anthropic:
  assumes "\<And>e. P e \<Longrightarrow> em_target e = Anthropic" "triple V P m Q" "\<And>e. em_target e = Anthropic \<Longrightarrow> m' e = m e"
  shows "triple V P m' Q"
  using assms by (simp add: triple_def)

lemma triple_emitReasoning:
  "triple admitted (\<lambda>e. message x s e \<and> \<not> em_reasoningClosed e) (emitReasoning rnds delta) (message x s)"
  unfolding emitReasoning_def
  by (rule triple_cons [OF triple_startReasoning triple_last],
      rule triple_anthropic [OF _ triple_thinking_delta [of "''thinking_delta''"]])
    (auto simp: message_target delta_kind_def)

lemma triple_emitReasoningSignature:
  "triple admitted (\<lambda>e. message x s e \<and> \<not> em_reasoningClosed e) (emitReasoningSignature rnds sig) (message x s)"
  unfolding emitReasoningSignature_def
  by (rule triple_cons [OF triple_startReasoning triple_last],
      rule triple_anthropic [OF _ triple_thinking_delta [of "''signature_delta''"]])
    (auto simp: message_target delta_kind_def)

lemma triple_reasoning_event: "triple admitted (message x s) (reasoning_event rnds ev) (message x s)"
proof -
  let ?f = "\<lambda>c e. if c = [] then reopenReasoning e else (reopenReasoning e)\<lparr>em_reasoningEncrypted := c\<rparr>"
  have enc: "message x s (?f c e) \<and> \<not> em_reasoningClosed (?f c e)" if "message x s e" for c e
    using reopen_message [OF that] by (cases "c = []") simp_all
  have r: "triple admitted (message x s) (\<lambda>e. emitReasoning rnds str (?f c e)) (message x s)" for str c
    by (rule triple_after [OF triple_emitReasoning enc])
  show ?thesis
    unfolding triple_def
  proof (intro allI impI)
    fix e assume m: "message x s e"
    then have t: "em_target e = Anthropic" by (rule message_target)
    have t': "em_target (reopenReasoning e) = Anthropic" by (simp add: reopenReasoning_def t)
    show "if fst (reasoning_event rnds ev e) = None then message x s (snd (reasoning_event rnds ev e))
        else admitted (the (fst (reasoning_event rnds ev e))) (snd (reasoning_event rnds ev e))"
      using m r [of "if ev_Encrypted ev \<noteq> [] \<and> ev_Text ev = [] then redacted_placeholder else ev_Text ev" "ev_Encrypted ev"]
      unfolding triple_def
      by (auto simp: reasoning_event_def Let_def t t' redacted_placeholder_def)
  qed
qed

subsection \<open>Text\<close>

lemma triple_open_text_block:
  "triple admitted (\<lambda>e. message x s e \<and> \<not> thinking e \<and> \<not> em_textOpen e) open_text_block
    (\<lambda>e. message x s e \<and> em_textOpen e)"
proof -
  let ?P = "\<lambda>y e. alive (tool_blocks e) e \<and> tools_ok x e \<and> \<not> thinking e \<and> em_textOpen e \<and>
    em_nextAnthropic e = em_nextAnthropic y \<and> em_textIndex e = em_nextAnthropic y \<and> (em_tools e, em_order e, em_done e) = s"
  have w: "triple admitted (?P y)
      (\<lambda>e. block_start (em_nextAnthropic y) [(''type'', JStr ''text''), (''text'', JStr [])]
        (e\<lparr>em_nextAnthropic := em_nextAnthropic y + 1\<rparr>)) (\<lambda>e. message x s e \<and> em_textOpen e)" for y
  proof (rule triple_start [where w = OText and B = tool_blocks])
    fix e out r assume p: "?P y e"
      and a: "alive (insert (em_nextAnthropic y, OText) (tool_blocks e)) (e\<lparr>em_nextAnthropic := em_nextAnthropic y + 1, em_out := out, em_room := r\<rparr>)"
    let ?e = "e\<lparr>em_nextAnthropic := em_nextAnthropic y + 1, em_out := out, em_room := r\<rparr>"
    have t: "\<not> thinking ?e" using p by (simp add: thinking_def)
    have "open_blocks ?e = insert (em_nextAnthropic y, OText) (tool_blocks e)"
      using p t by (simp add: open_blocks_def text_blocks_def thinking_blocks_def tool_blocks_def tool_at_def)
    with p a t show "message x s ?e \<and> em_textOpen ?e"
      by (simp add: message_def tools_ok_def tool_at_def)
  qed simp_all
  have "?P e (e\<lparr>em_textOpen := True, em_textIndex := em_nextAnthropic e\<rparr>)"
    if "message x s e \<and> \<not> thinking e \<and> \<not> em_textOpen e" for e
  proof -
    have "open_blocks e = tool_blocks (e\<lparr>em_textOpen := True, em_textIndex := em_nextAnthropic e\<rparr>)"
      using that by (simp add: open_blocks_def thinking_blocks_def text_blocks_def tool_blocks_def tool_at_def)
    with that show ?thesis by (simp add: message_def alive_def tools_ok_def tool_at_def thinking_def)
  qed
  then show ?thesis
    by (intro triple_by [OF _ w, where f = "\<lambda>e. e\<lparr>em_textOpen := True, em_textIndex := em_nextAnthropic e\<rparr>"])
      (auto simp: open_text_block_def Let_def)
qed

lemma triple_text_delta:
  "triple admitted (\<lambda>e. message x s e \<and> em_textOpen e)
      (\<lambda>e. block_delta (em_textIndex e) ((''type'', JStr ''text_delta'') # delta) e) (message x s)"
proof (rule triple_state [where m = "\<lambda>y. block_delta (em_textIndex y) ((''type'', JStr ''text_delta'') # delta)"])
  fix y
  show "triple admitted (\<lambda>e. (message x s e \<and> em_textOpen e) \<and> e = y)
      (block_delta (em_textIndex y) ((''type'', JStr ''text_delta'') # delta)) (message x s)"
    by (rule message_delta_ok [where w = OText]) (auto simp: delta_kind_def text_owned)
qed

lemma triple_emitText: "triple admitted (message x s) (emitText rnds delta) (message x s)"
  unfolding emitText_def
proof (rule triple_cons [OF _ triple_last])
  show "triple admitted (message x s)
      (\<lambda>e. if em_target e = Anthropic \<or> em_target e = Responses then finishReasoning e else (None, e))
      (\<lambda>e. message x s e \<and> \<not> thinking e)"
    by (rule triple_anthropic [OF _ triple_finishReasoning]) (auto simp: message_target)
  have o: "triple admitted (\<lambda>e. message x s e \<and> \<not> thinking e)
      (\<lambda>e. if em_textOpen e then (None, e) else open_text_block e) (\<lambda>e. message x s e \<and> em_textOpen e)"
    by (rule triple_if [OF triple_pass triple_pre [OF triple_open_text_block]]) auto
  have "triple admitted (\<lambda>e. message x s e \<and> \<not> thinking e) (run_steps
      [\<lambda>e. if em_textOpen e then (None, e) else open_text_block e,
       \<lambda>e. block_delta (em_textIndex e) [(''type'', JStr ''text_delta''), (''text'', JStr delta)] e]) (message x s)"
    by (rule triple_cons [OF o triple_last [OF triple_text_delta]])
  then show "triple admitted (\<lambda>e. message x s e \<and> \<not> thinking e)
      (\<lambda>e. case em_target e of
         Chat \<Rightarrow> chatChunk [(''content'', JStr delta)] JNull e
       | Responses \<Rightarrow>
           run_steps [\<lambda>e. if em_textOpen e then (None, e) else open_text_item rnds e,
             \<lambda>e. numbered ''response.output_text.delta'' [(''delta'', JStr delta), (''item_id'', JStr (em_textItemID e)),
                   (''output_index'', JInt (int (em_textOutput e))), (''content_index'', JInt 0)] e] e
       | Anthropic \<Rightarrow>
           run_steps [\<lambda>e. if em_textOpen e then (None, e) else open_text_block e,
             \<lambda>e. block_delta (em_textIndex e) [(''type'', JStr ''text_delta''), (''text'', JStr delta)] e] e
       | _ \<Rightarrow> (None, e)) (message x s)"
    by (rule triple_anthropic [rotated]) (auto simp: message_target)
qed

lemma triple_text_event: "triple admitted (message x s) (text_event rnds ev) (message x s)"
  using triple_emitText [of x s rnds "ev_Text ev"]
  unfolding triple_def text_event_def by (auto simp: message_target)

subsection \<open>Tools\<close>

text \<open>A tool that keeps its key and its block may change in anything else.\<close>

lemma tool_at_put: "tool_at (put_tool t e) k = (if k = st_Key t then Some t else tool_at e k)"
  by (simp add: tool_at_def put_tool_def update_conv')

lemma put_tool_fields [simp]:
  "em_target (put_tool t e) = em_target e" "em_order (put_tool t e) = em_order e" "em_done (put_tool t e) = em_done e"
  "em_out (put_tool t e) = em_out e" "em_started (put_tool t e) = em_started e"
  "em_nextAnthropic (put_tool t e) = em_nextAnthropic e" "em_textOpen (put_tool t e) = em_textOpen e"
  "em_textIndex (put_tool t e) = em_textIndex e" "em_reasoningIndex (put_tool t e) = em_reasoningIndex e"
  "thinking (put_tool t e) = thinking e" "text_blocks (put_tool t e) = text_blocks e"
  "thinking_blocks (put_tool t e) = thinking_blocks e"
  by (simp_all add: put_tool_def thinking_def text_blocks_def thinking_blocks_def)

lemma put_tool_next: "(put_tool t e)\<lparr>em_nextAnthropic := n\<rparr> = put_tool t (e\<lparr>em_nextAnthropic := n\<rparr>)"
  by (simp add: put_tool_def)

lemma tool_blocks_put:
  assumes "tool_at e (st_Key t) = Some t0" "st_ToolStarted t = st_ToolStarted t0" "st_AnthropicIndex t = st_AnthropicIndex t0"
  shows "tool_blocks (put_tool t e) = tool_blocks e"
  unfolding tool_blocks_def tool_at_put using assms
  by (metis (no_types, lifting) option.inject)

lemma message_put:
  assumes "message x s e" "tool_at e k = Some t0" "st_Key t = k" "st_ToolStarted t = st_ToolStarted t0"
    "st_AnthropicIndex t = st_AnthropicIndex t0" "y = Some k \<or> settled t" "x = None \<or> x = Some k"
  shows "message y (em_tools (put_tool t e), em_order e, em_done e) (put_tool t e)"
proof -
  have "open_blocks (put_tool t e) = open_blocks e"
    using assms(2-5) tool_blocks_put [of e t t0] by (simp add: open_blocks_def)
  moreover have "tools_ok y (put_tool t e)"
  proof -
    have ok: "tools_ok x e" using assms(1) by (simp add: message_def)
    have "st_Key u = l \<and> (y = Some l \<or> settled u)" if "tool_at (put_tool t e) l = Some u" for l u
      using that ok assms(3,6,7) unfolding tools_ok_def tool_at_put by (metis option.inject option.distinct(1))
    moreover have "l \<in> set (em_order e) \<longleftrightarrow> tool_at (put_tool t e) l \<noteq> None" for l
      using ok assms(2,3) unfolding tools_ok_def tool_at_put by auto
    ultimately show ?thesis using ok by (simp add: tools_ok_def)
  qed
  ultimately show ?thesis using assms(1) by (simp add: message_def alive_def)
qed

lemma message_settle:
  assumes "message (Some k) s e" "tool_at e k = Some t" "settled t"
  shows "message None s e"
proof -
  have "tools_ok None e"
    using assms unfolding message_def tools_ok_def by (metis option.inject option.distinct(1))
  with assms(1) show ?thesis by (simp add: message_def)
qed

lemma message_order: "message x s e \<Longrightarrow> s = (em_tools e, em_order e, em_done e)"
  by (simp add: message_def)

text \<open>\<open>find_tool\<close> gives a tool that is in the state.\<close>

lemma draw_eq: "draw rnds pre e = (fst (RandomID rnds pre (em_drawn e)), e\<lparr>em_drawn := snd (RandomID rnds pre (em_drawn e))\<rparr>)"
  by (simp add: draw_def split: prod.splits)

lemma message_new_tool:
  assumes m: "message None s e" and new: "tool_at e k = None" and t: "st_Key t = k" "\<not> st_ToolStarted t" "st_Name t = []"
    and e': "e' = put_tool t e\<lparr>em_order := em_order e @ [k]\<rparr>"
  shows "message None (em_tools e', em_order e', em_done e') e'"
proof -
  have at: "tool_at e' l = (if l = k then Some t else tool_at e l)" for l
    using tool_at_put [of t e l] t(1) by (simp add: e' tool_at_def)
  have b: "tool_blocks e' = tool_blocks e"
    unfolding tool_blocks_def at using new t(2) by (metis (no_types, lifting) option.distinct(1) option.inject)
  have o: "open_blocks e' = open_blocks e"
    unfolding open_blocks_def b by (simp add: e' put_tool_def text_blocks_def thinking_blocks_def thinking_def)
  have ok: "tools_ok None e" using m by (simp add: message_def)
  have "k \<notin> set (em_order e)" using ok new by (simp add: tools_ok_def)
  moreover have "em_order e' = em_order e @ [k]" by (simp add: e')
  moreover have "settled t" using t by (simp add: settled_def)
  ultimately have "tools_ok None e'" using ok t(1) unfolding tools_ok_def at by auto
  with m o show ?thesis by (simp add: message_def alive_def e' put_tool_def thinking_def)
qed

lemma find_tool_message:
  assumes m: "message None s e" and f: "find_tool rnds key e = (t, e')"
  shows "message None (em_tools e', em_order e', em_done e) e' \<and> tool_at e' (st_Key t) = Some t \<and> st_Key t \<in> set (em_order e')"
proof (cases "tool_at e (tool_key e key)")
  case (Some u)
  with f have "t = u" "e' = e" by (simp_all add: find_tool_def)
  with m Some show ?thesis unfolding message_def tools_ok_def by auto
next
  case None
  define d where "d = e\<lparr>em_drawn := snd (RandomID rnds ''fc'' (snd (RandomID rnds ''call'' (em_drawn e))))\<rparr>"
  have md: "message None s d" and nd: "tool_at d (tool_key e key) = None" and od: "em_order d = em_order e"
    using m None by (simp_all add: d_def tool_at_def)
  have t: "st_Key t = tool_key e key" "\<not> st_ToolStarted t" "st_Name t = []" "e' = put_tool t d\<lparr>em_order := em_order d @ [tool_key e key]\<rparr>"
    using f None by (auto simp: find_tool_def Let_def draw_eq d_def)
  have at: "tool_at e' l = (if l = tool_key e key then Some t else tool_at d l)" for l
    using tool_at_put [of t d l] t(1) by (simp add: t(4) tool_at_def)
  have "em_done e' = em_done e" "em_order e' = em_order d @ [tool_key e key]" by (simp_all add: t(4) d_def)
  with message_new_tool [OF md nd t] show ?thesis by (simp add: at t(1))
qed

definition ready :: "string \<Rightarrow> emitter \<Rightarrow> bool" where
  "ready k e = (message (Some k) (em_tools e, em_order e, em_done e) e \<and> \<not> em_done e \<and>
     (case tool_at e k of None \<Rightarrow> False | Some t \<Rightarrow> st_ToolStarted t \<or> st_Name t = []))"

definition going :: "emitter \<Rightarrow> bool" where
  "going e = (message None (em_tools e, em_order e, em_done e) e \<and> \<not> em_done e)"

lemma tool_blocks_start:
  assumes "tool_at e k = Some t0" "\<not> st_ToolStarted t0" "st_Key t = k" "st_ToolStarted t" "st_AnthropicIndex t = i"
  shows "tool_blocks (put_tool t e) = insert (i, OTool k) (tool_blocks e)"
proof (rule set_eqI)
  fix b :: "nat \<times> owner"
  obtain j w where b: "b = (j, w)" by fastforce
  show "b \<in> tool_blocks (put_tool t e) \<longleftrightarrow> b \<in> insert (i, OTool k) (tool_blocks e)"
    using assms unfolding b by (cases w) (auto simp: tool_block_iff tool_at_put)
qed

lemma triple_open_tool:
  assumes t: "st_Key t = k" "\<not> st_ToolStarted t" and s: "map_of ts k = Some t"
  shows "triple admitted (\<lambda>e. message (Some k) (ts, ks, False) e \<and> \<not> thinking e \<and> \<not> em_textOpen e) (open_tool t) (ready k)"
proof -
  let ?t = "\<lambda>i. t\<lparr>st_ToolStarted := True, st_AnthropicIndex := i\<rparr>"
  let ?P = "\<lambda>y e. \<exists>e0. message (Some k) (ts, ks, False) e0 \<and> \<not> thinking e0 \<and> \<not> em_textOpen e0 \<and>
    em_nextAnthropic e0 = em_nextAnthropic y \<and> e = put_tool (?t (em_nextAnthropic y)) e0"
  have w: "triple admitted (?P y)
      (\<lambda>e. block_start (em_nextAnthropic y) [(''type'', JStr ''tool_use''), (''id'', JStr (st_ID t)), (''name'', JStr (st_Name t)),
        (''input'', JObj [])] (e\<lparr>em_nextAnthropic := em_nextAnthropic y + 1\<rparr>)) (ready k)" for y
  proof (rule triple_start [where w = "OTool k" and B = "\<lambda>e. tool_blocks e - {(em_nextAnthropic y, OTool k)}"])
    fix e assume "?P y e"
    then obtain e0 where e0: "message (Some k) (ts, ks, False) e0" "\<not> thinking e0" "\<not> em_textOpen e0"
      "em_nextAnthropic e0 = em_nextAnthropic y" "e = put_tool (?t (em_nextAnthropic y)) e0" by blast
    have at: "tool_at e0 k = Some t" using e0(1) s by (simp add: message_def tool_at_def)
    have b0: "open_blocks e0 = tool_blocks e0"
      using e0(2,3) by (simp add: open_blocks_def text_blocks_def thinking_blocks_def)
    have b: "tool_blocks e = insert (em_nextAnthropic y, OTool k) (tool_blocks e0)"
      unfolding e0(5) by (rule tool_blocks_start [OF at t(2)]) (simp_all add: t)
    have "(em_nextAnthropic y, OTool k) \<notin> tool_blocks e0"
      using e0(1,4) b0 by (force simp: message_def alive_def numbered_below_def)
    with b have b1: "tool_blocks e - {(em_nextAnthropic y, OTool k)} = tool_blocks e0" by simp
    show "alive (tool_blocks e - {(em_nextAnthropic y, OTool k)}) e \<and> only_tools (tool_blocks e - {(em_nextAnthropic y, OTool k)}) \<and>
        em_nextAnthropic e = em_nextAnthropic y"
      using e0(1,4) b0 unfolding b1 by (simp add: message_def alive_def e0(5))
    fix out r
    let ?e = "e\<lparr>em_nextAnthropic := em_nextAnthropic y + 1, em_out := out, em_room := r\<rparr>"
    assume a: "alive (insert (em_nextAnthropic y, OTool k) (tool_blocks e - {(em_nextAnthropic y, OTool k)})) ?e"
    have at': "tool_at ?e l = (if l = k then Some (?t (em_nextAnthropic y)) else tool_at e0 l)" for l
      using tool_at_put [of "?t (em_nextAnthropic y)" e0 l] by (simp add: e0(5) tool_at_def t)
    have "tool_blocks ?e = tool_blocks e" by (simp add: tool_blocks_def tool_at_def)
    moreover have "text_blocks ?e = {}" "thinking_blocks ?e = {}" "\<not> thinking ?e" "\<not> em_textOpen ?e"
      using e0(2,3) by (simp_all add: e0(5) text_blocks_def thinking_blocks_def thinking_def put_tool_def)
    ultimately have "alive (open_blocks ?e) ?e" using a b1 b by (simp add: open_blocks_def)
    moreover have "tools_ok (Some k) ?e"
      using e0(1) at t(1) unfolding message_def tools_ok_def at' by (auto simp: e0(5) put_tool_def)
    ultimately show "ready k ?e"
      using e0(1,3) at' [of k] by (simp add: ready_def message_def e0(5) put_tool_def)
  qed simp
  show ?thesis
  proof (rule triple_by [OF _ w, where f = "\<lambda>e. put_tool (?t (em_nextAnthropic e)) e"])
    fix e assume "message (Some k) (ts, ks, False) e \<and> \<not> thinking e \<and> \<not> em_textOpen e"
    then show "?P e (put_tool (?t (em_nextAnthropic e)) e) \<and> open_tool t e =
        block_start (em_nextAnthropic e) [(''type'', JStr ''tool_use''), (''id'', JStr (st_ID t)), (''name'', JStr (st_Name t)),
          (''input'', JObj [])] ((put_tool (?t (em_nextAnthropic e)) e)\<lparr>em_nextAnthropic := em_nextAnthropic e + 1\<rparr>)"
      by (auto simp: open_tool_def Let_def message_target put_tool_next)
  qed
qed

lemma triple_close_idle:
  "triple admitted (\<lambda>e. message x s e \<and> \<not> thinking e) close_text (\<lambda>e. message x s e \<and> \<not> thinking e \<and> \<not> em_textOpen e)"
proof (rule triple_close_text)
  fix e assume m: "message x s e \<and> \<not> thinking e"
  have o: "open_blocks e = text_blocks e \<union> tool_blocks e"
    using m by (simp add: open_blocks_def thinking_blocks_def)
  with m show "alive (text_blocks e \<union> tool_blocks e) e" by (simp add: message_def)
  fix out r assume a: "alive (tool_blocks e) (e\<lparr>em_out := out, em_room := r\<rparr>)"
  let ?e = "e\<lparr>em_textOpen := False, em_out := out, em_room := r\<rparr>"
  have t: "\<not> thinking ?e" using m by (simp add: thinking_def)
  moreover from t have "open_blocks ?e = tool_blocks e"
    by (simp add: open_blocks_def text_blocks_def thinking_blocks_def tool_blocks_def tool_at_def)
  ultimately show "message x s ?e \<and> \<not> thinking ?e \<and> \<not> em_textOpen ?e"
    using m a
    by (simp add: message_def alive_def tools_ok_def tool_at_def)
qed simp

lemma triple_startTool:
  assumes s: "map_of ts k = Some t" "st_Key t = k"
  shows "triple admitted (message (Some k) (ts, ks, False)) (startTool k) (ready k)"
proof -
  have at: "tool_at e k = Some t" "em_order e = ks" "\<not> em_done e" "em_tools e = ts" if "message (Some k) (ts, ks, False) e" for e
    using that s by (auto simp: message_def tool_at_def)
  show ?thesis
  proof (cases "st_ToolStarted t \<or> st_Name t = []")
    case True
    then show ?thesis
      unfolding triple_def startTool_def with_tool_def by (auto simp: at ready_def)
  next
    case False
    have f: "triple admitted (message (Some k) (ts, ks, False))
        (\<lambda>e. if em_target e = Responses \<or> em_target e = Anthropic then finishReasoning e else (None, e))
        (\<lambda>e. message (Some k) (ts, ks, False) e \<and> \<not> thinking e)"
      by (rule triple_anthropic [OF _ triple_finishReasoning]) (auto simp: message_target)
    have c: "triple admitted (\<lambda>e. message (Some k) (ts, ks, False) e \<and> \<not> thinking e)
        (\<lambda>e. if em_target e = Anthropic then close_text e else (None, e))
        (\<lambda>e. message (Some k) (ts, ks, False) e \<and> \<not> thinking e \<and> \<not> em_textOpen e)"
      by (rule triple_anthropic [OF _ triple_close_idle]) (auto simp: message_target)
    have o: "triple admitted (\<lambda>e. message (Some k) (ts, ks, False) e \<and> \<not> thinking e \<and> \<not> em_textOpen e) (open_tool t) (ready k)"
      using False s by (intro triple_open_tool) auto
    note run = triple_cons [OF f triple_cons [OF c triple_last [OF o]]]
    have "startTool k e = run_steps
        [\<lambda>e. if em_target e = Responses \<or> em_target e = Anthropic then finishReasoning e else (None, e),
         \<lambda>e. if em_target e = Anthropic then close_text e else (None, e), open_tool t] e"
      if "message (Some k) (ts, ks, False) e" for e
      using False at(1) [OF that] by (simp add: startTool_def with_tool_def)
    then show ?thesis by (rule triple_eq [OF _ run])
  qed
qed

lemma settled_put:
  assumes "message x s e" "tool_at e k = Some t" "x = None \<or> x = Some k" "settled u" "st_Key u = k"
    "st_ToolStarted u = st_ToolStarted t" "st_AnthropicIndex u = st_AnthropicIndex t"
  shows "message None (em_tools (put_tool u e), em_order e, em_done e) (put_tool u e)"
  using assms by (intro message_put [of x s e k t]) auto

lemma triple_tool_delta:
  assumes "map_of ts k = Some u" "st_ToolStarted u" "delta \<noteq> []"
  shows "triple admitted (message None (ts, ks, d)) (emitToolDelta u delta) (message None (ts, ks, d))"
proof (rule triple_anthropic)
  show "triple admitted (message None (ts, ks, d))
      (block_delta (st_AnthropicIndex u) [(''type'', JStr ''input_json_delta''), (''partial_json'', JStr delta)])
      (message None (ts, ks, d))"
  proof (rule message_delta_ok [where w = "OTool k" and x = None and s = "(ts, ks, d)"])
    fix e assume m: "message None (ts, ks, d) e"
    then have "tool_at e k = Some u" using assms(1) by (simp add: message_def tool_at_def)
    with m assms(2) tool_owned show "message None (ts, ks, d) e \<and> (st_AnthropicIndex u, OTool k) \<in> open_blocks e" by blast
  qed (simp_all add: delta_kind_def)
qed (use assms(3) in \<open>auto simp: emitToolDelta_def message_target\<close>)

lemma triple_pending: "triple admitted (ready k) (emitPendingToolArguments k) going"
proof -
  let ?t = "\<lambda>y. the (tool_at y k)"
  let ?u = "\<lambda>y. (?t y)\<lparr>st_EmittedArguments := length (st_Arguments (?t y))\<rparr>"
  let ?v = "\<lambda>y. (?u y)\<lparr>st_Arguments := [], st_EmittedArguments := 0\<rparr>"
  let ?del = "\<lambda>y. drop (st_EmittedArguments (?t y)) (st_Arguments (?t y))"
  let ?go = "\<lambda>y. ready k y \<and> st_ToolStarted (?t y) \<and> st_EmittedArguments (?t y) < length (st_Arguments (?t y))"
  let ?P = "\<lambda>y e. ?go y \<and> message None (em_tools (put_tool (?u y) y), em_order y, False) e"
  have key: "tool_at y k = Some (?t y)" "st_Key (?t y) = k" "\<not> em_done y"
      "message (Some k) (em_tools y, em_order y, em_done y) y" if "ready k y" for y
    using that unfolding ready_def message_def tools_ok_def by (auto split: option.splits)
  have put: "?P y (put_tool (?u y) y)" if "?go y" for y
    using that key [of y] settled_put [of "Some k" "(em_tools y, em_order y, em_done y)" y k "?t y" "?u y"]
    by (simp add: settled_def)
  have after: "going (put_tool (?v y) e)" if "?P y e" for y e
  proof -
    have u: "tool_at e k = Some (?u y)"
      using that tool_at_put [of "?u y" y k] key(2) [of y] by (simp add: message_def tool_at_def)
    have "\<not> em_done e" using that by (simp add: message_def)
    moreover have "message None (em_tools (put_tool (?v y) e), em_order e, em_done e) (put_tool (?v y) e)"
      using that key(2) [of y] by (intro settled_put [OF _ u, where x = None and s = "(em_tools (put_tool (?u y) y), em_order y, False)"])
        (simp_all add: settled_def)
    ultimately show ?thesis by (simp add: going_def)
  qed
  have w: "triple admitted (?P y) (run_steps [emitToolDelta (?u y) (?del y),
      \<lambda>e. if em_target e = Responses then (None, e) else (None, put_tool (?v y) e)]) going" for y
  proof (cases "?go y")
    case go: True
    have "triple admitted (message None (em_tools (put_tool (?u y) y), em_order y, False)) (emitToolDelta (?u y) (?del y))
        (message None (em_tools (put_tool (?u y) y), em_order y, False))"
      using go key(2) [of y] tool_at_put [of "?u y" y k] by (intro triple_tool_delta [where k = k]) (auto simp: tool_at_def)
    then have "triple admitted (?P y) (emitToolDelta (?u y) (?del y)) (?P y)"
      using go by (simp add: triple_def)
    moreover have "triple admitted (?P y) (\<lambda>e. if em_target e = Responses then (None, e) else (None, put_tool (?v y) e)) going"
      using after unfolding triple_def by (auto simp: message_target)
    ultimately show ?thesis by (rule triple_cons [OF _ triple_last])
  qed (unfold triple_def, blast)
  have go: "triple admitted ?go (emitPendingToolArguments k) going"
  proof (rule triple_by [OF _ w, where f = "\<lambda>y. put_tool (?u y) y"])
    fix y assume g: "?go y"
    then obtain a where a: "tool_at y k = Some a" using key(1) by blast
    have "emitPendingToolArguments k y = run_steps [emitToolDelta (?u y) (?del y),
        \<lambda>e. if em_target e = Responses then (None, e) else (None, put_tool (?v y) e)] (put_tool (?u y) y)"
      unfolding emitPendingToolArguments_def with_tool_def Let_def
      using g by (simp add: a cong: if_cong del: run_steps.simps)
    with put [OF g] show "?P y (put_tool (?u y) y) \<and> emitPendingToolArguments k y = run_steps [emitToolDelta (?u y) (?del y),
        \<lambda>e. if em_target e = Responses then (None, e) else (None, put_tool (?v y) e)] (put_tool (?u y) y)" by blast
  qed
  have stay: "emitPendingToolArguments k e = (None, e) \<and> going e" if "ready k e" "\<not> ?go e" for e
  proof -
    note q = key [OF that(1)]
    have "settled (?t e)" using that q(1) by (auto simp: settled_def ready_def split: option.splits)
    with message_settle [OF q(4,1)] q(3) have "going e" by (simp add: going_def)
    moreover have "emitPendingToolArguments k e = (None, e)"
      using that q(1) unfolding emitPendingToolArguments_def with_tool_def by (cases "tool_at e k") auto
    ultimately show ?thesis by blast
  qed
  show ?thesis
    unfolding triple_def
  proof (intro allI impI)
    fix e assume r: "ready k e"
    show "if fst (emitPendingToolArguments k e) = None then going (snd (emitPendingToolArguments k e))
        else admitted (the (fst (emitPendingToolArguments k e))) (snd (emitPendingToolArguments k e))"
      using go stay [OF r] r unfolding triple_def by (cases "?go e") auto
  qed
qed

lemma triple_tool_event: "triple admitted going (tool_event rnds ev delta) going"
  unfolding triple_def
proof (intro allI impI)
  fix e assume g: "going e"
  obtain t e' where f: "find_tool rnds (ev_ToolKey ev) e = (t, e')" by fastforce
  let ?u = "t\<lparr>st_ID := (if ev_ToolID ev \<noteq> [] then ev_ToolID ev else st_ID t),
    st_Name := (if ev_ToolName ev \<noteq> [] then ev_ToolName ev else st_Name t), st_Arguments := st_Arguments t @ delta\<rparr>"
  let ?k = "st_Key t"
  let ?s = "(em_tools (put_tool ?u e'), em_order e', False)"
  have m: "message None (em_tools e', em_order e', False) e'" "tool_at e' ?k = Some t"
    using find_tool_message [OF _ f] g unfolding going_def by auto
  then have "em_done e' = False" by (simp add: message_def)
  with message_put [OF m(1,2), of ?u "Some ?k"] have u: "message (Some ?k) ?s (put_tool ?u e')" by simp
  have "map_of (em_tools (put_tool ?u e')) ?k = Some ?u"
    using tool_at_put [of ?u e' ?k] by (simp add: tool_at_def)
  then have "triple admitted (message (Some ?k) ?s) (run_steps [startTool ?k, emitPendingToolArguments ?k]) going"
    by (intro triple_cons [OF triple_startTool [where t = ?u] triple_last [OF triple_pending]]) simp_all
  moreover have "tool_event rnds ev delta e = run_steps [startTool ?k, emitPendingToolArguments ?k] (put_tool ?u e')"
    by (simp add: tool_event_def f Let_def del: run_steps.simps)
  ultimately show "if fst (tool_event rnds ev delta e) = None then going (snd (tool_event rnds ev delta e))
      else admitted (the (fst (tool_event rnds ev delta e))) (snd (tool_event rnds ev delta e))"
    using u unfolding triple_def by metis
qed

subsection \<open>Start and end\<close>

definition idle :: "emitter \<Rightarrow> bool" where
  "idle e = (em_target e = Anthropic \<and> anth.seen (em_out e) = Some Fresh \<and> em_nextAnthropic e = 0 \<and> \<not> em_textOpen e \<and>
     \<not> thinking e \<and> em_tools e = [] \<and> em_order e = [])"

definition reading :: "bool \<Rightarrow> emitter \<Rightarrow> bool" where
  "reading d e = (em_done e = d \<and> (if em_started e then message None (em_tools e, em_order e, d) e else idle e))"

lemma idle_blocks: "idle e \<Longrightarrow> open_blocks e = {}" "idle e \<Longrightarrow> tools_ok None e"
  by (simp_all add: idle_def open_blocks_def text_blocks_def thinking_blocks_def tool_blocks_def tool_at_def tools_ok_def)

lemma triple_start_frames:
  "triple admitted (\<lambda>e. idle e \<and> em_started e \<and> em_done e = d) start_frames (message None ([], [], d))"
proof (rule triple_anthropic)
  let ?m = "\<lambda>e. sse ''message_start'' [(''type'', JStr ''message_start''),
           (''message'', JObj [(''id'', JStr (asPrefix (em_id e) ''msg'')), (''type'', JStr ''message''),
              (''role'', JStr ''assistant''), (''model'', JStr (em_model e)), (''content'', JList []),
              (''stop_reason'', JNull), (''stop_sequence'', JNull), (''usage'', JObj (anthropicUsage no_usage))])]"
  show "triple admitted (\<lambda>e. idle e \<and> em_started e \<and> em_done e = d) (\<lambda>e. ?m e e) (message None ([], [], d))"
  proof (rule triple_state, unfold sse_def, rule anth.triple_observed)
    fix y e assume e: "(idle e \<and> em_started e \<and> em_done e = d) \<and> e = y"
    have "message None ([], [], d) (e\<lparr>em_out := out, em_room := r\<rparr>)" if "anth.seen out = Some (Live 0 {})" for out r
    proof -
      have "open_blocks e = {}" "tools_ok None e" using e idle_blocks by auto
      with that e show ?thesis by (auto simp: message_def alive_def idle_def numbered_below_def)
    qed
    then show "\<exists>x ya. anth.seen (em_out e) = Some x \<and> anthropic_read x (Frame ''message_start'' [(''type'', JStr ''message_start''),
           (''message'', JObj [(''id'', JStr (asPrefix (em_id y) ''msg'')), (''type'', JStr ''message''),
              (''role'', JStr ''assistant''), (''model'', JStr (em_model y)), (''content'', JList []),
              (''stop_reason'', JNull), (''stop_sequence'', JNull), (''usage'', JObj (anthropicUsage no_usage))])]) = Some ya \<and>
        (\<forall>out r. anth.seen out = Some ya \<longrightarrow> message None ([], [], d) (e\<lparr>em_out := out, em_room := r\<rparr>))"
      using e by (auto simp: idle_def)
  qed
qed (auto simp: idle_def start_frames_def)

lemma triple_start_stream:
  "triple admitted (reading d) (start_stream rnds) (\<lambda>e. message None (em_tools e, em_order e, d) e \<and> em_done e = d)"
proof -
  let ?f = "\<lambda>e. let e = e\<lparr>em_started := True\<rparr>
    in if em_id e = [] then (case draw rnds ''resp'' e of (ident, e) \<Rightarrow> e\<lparr>em_id := ident\<rparr>) else e"
  have f: "idle (?f e)" "em_started (?f e)" "em_done (?f e) = em_done e" if "idle e" for e
    using that by (simp_all add: draw_eq Let_def idle_def thinking_def)
  have new: "triple admitted (\<lambda>e. reading d e \<and> \<not> em_started e) (start_stream rnds) (message None ([], [], d))"
    by (rule triple_by [where m' = "\<lambda>_. start_frames" and f = ?f, OF _ triple_start_frames])
      (use f in \<open>auto simp: reading_def start_stream_def Let_def\<close>)
  show ?thesis
    unfolding triple_def
  proof (intro allI impI)
    fix e assume r: "reading d e"
    show "if fst (start_stream rnds e) = None
        then message None (em_tools (snd (start_stream rnds e)), em_order (snd (start_stream rnds e)), d) (snd (start_stream rnds e)) \<and>
          em_done (snd (start_stream rnds e)) = d
        else admitted (the (fst (start_stream rnds e))) (snd (start_stream rnds e))"
    proof (cases "em_started e")
      case True
      with r show ?thesis by (simp add: reading_def start_stream_def)
    next
      case False
      with r new have "if fst (start_stream rnds e) = None then message None ([], [], d) (snd (start_stream rnds e))
          else admitted (the (fst (start_stream rnds e))) (snd (start_stream rnds e))" unfolding triple_def by blast
      then show ?thesis using message_order by (auto split: if_splits)
    qed
  qed
qed

text \<open>At the end the text block is closed, then the tools one by one in their order.\<close>

definition tools_left :: "string list \<Rightarrow> emitter \<Rightarrow> (nat \<times> owner) set" where
  "tools_left ks e = {b \<in> tool_blocks e. snd b \<in> OTool ` set ks}"

lemma tools_left_iff:
  "(i, OTool k) \<in> tools_left ks e \<longleftrightarrow> k \<in> set ks \<and> (i, OTool k) \<in> tool_blocks e"
  "(i, OText) \<notin> tools_left ks e" "(i, OThinking) \<notin> tools_left ks e"
  by (auto simp: tools_left_def)

lemma tools_left_out [simp]: "tools_left ks (e\<lparr>em_out := out, em_room := r\<rparr>) = tools_left ks e"
  by (simp add: tools_left_def)

definition closing :: "(string \<times> stream_tool) list \<Rightarrow> string list \<Rightarrow> emitter \<Rightarrow> bool" where
  "closing ts ks e = (em_tools e = ts \<and> alive (tools_left ks e) e \<and>
     (\<forall>k t. map_of ts k = Some t \<longrightarrow> settled t))"

lemma triple_close_tool:
  assumes "k \<notin> set ks"
  shows "triple admitted (closing ts (k # ks)) (finish_anthropic_tool k) (closing ts ks)"
proof (cases "map_of ts k")
  case None
  have b: "tools_left (k # ks) e = tools_left ks e"
    if "em_tools e = ts" for e
    using None that by (auto simp: tools_left_def tool_blocks_def tool_at_def)
  have "finish_anthropic_tool k e = (None, e)" if "em_tools e = ts" for e
    using None that by (simp add: finish_anthropic_tool_def startTool_def emitPendingToolArguments_def with_tool_def tool_at_def)
  moreover have "closing ts ks e" if "closing ts (k # ks) e" for e
    using that b unfolding closing_def by metis
  ultimately show ?thesis by (simp add: triple_def closing_def)
next
  case (Some t)
  have eq: "finish_anthropic_tool k e = (if st_ToolStarted t then block_stop (st_AnthropicIndex t) else pass) e"
    if "closing ts (k # ks) e" for e
  proof -
    have s: "tool_at e k = Some t" "settled t" using that Some by (auto simp: closing_def tool_at_def)
    then have "startTool k e = (None, e)" "emitPendingToolArguments k e = (None, e)"
      by (auto simp: startTool_def emitPendingToolArguments_def with_tool_def settled_def split: if_splits)
    then show ?thesis by (auto simp: finish_anthropic_tool_def with_tool_def s pass_def split: prod.splits option.splits)
  qed
  show ?thesis
  proof (rule triple_eq [OF eq])
    have b: "tools_left ks e =
        tools_left (k # ks) e - {(st_AnthropicIndex t, OTool k)}" if "em_tools e = ts" for e
    proof (rule set_eqI)
      fix b :: "nat \<times> owner"
      obtain i w where "b = (i, w)" by fastforce
      then show "b \<in> tools_left ks e \<longleftrightarrow>
          b \<in> tools_left (k # ks) e - {(st_AnthropicIndex t, OTool k)}"
        using that Some assms by (cases w) (auto simp: tools_left_iff tool_block_iff tool_at_def)
    qed
    show "triple admitted (closing ts (k # ks)) (if st_ToolStarted t then block_stop (st_AnthropicIndex t) else pass) (closing ts ks)"
    proof (rule triple_const_if)
      assume st: "st_ToolStarted t"
      show "triple admitted (closing ts (k # ks)) (block_stop (st_AnthropicIndex t)) (closing ts ks)"
      proof (rule triple_stop [where w = "OTool k" and B = "tools_left (k # ks)"])
        fix e assume c: "closing ts (k # ks) e"
        then show "alive (tools_left (k # ks) e) e \<and>
            (st_AnthropicIndex t, OTool k) \<in> tools_left (k # ks) e"
          using Some st by (simp add: closing_def tools_left_iff tool_block_iff tool_at_def)
        fix out r
        assume "alive (tools_left (k # ks) e - {(st_AnthropicIndex t, OTool k)}) (e\<lparr>em_out := out, em_room := r\<rparr>)"
        with c b [of e] show "closing ts ks (e\<lparr>em_out := out, em_room := r\<rparr>)" by (simp add: closing_def)
      qed
    next
      assume st: "\<not> st_ToolStarted t"
      have "tools_left (k # ks) e = tools_left ks e"
        if "em_tools e = ts" for e
      proof -
        have "(st_AnthropicIndex t, OTool k) \<notin> tool_blocks e"
          using that Some st by (simp add: tool_block_iff tool_at_def)
        with b [OF that] show ?thesis by (auto simp: tools_left_def)
      qed
      then have "closing ts ks e" if "closing ts (k # ks) e" for e
        using that unfolding closing_def by metis
      then show "triple admitted (closing ts (k # ks)) pass (closing ts ks)"
        by (simp add: triple_def pass_def)
    qed
  qed
qed

lemma triple_close_tools:
  "distinct ks \<Longrightarrow> triple admitted (closing ts ks) (run_steps (map finish_anthropic_tool ks)) (closing ts [])"
proof (induction ks)
  case (Cons k ks)
  then show ?case by (simp only: list.map distinct.simps) (rule triple_cons [OF triple_close_tool], auto)
qed (simp add: triple_def)

definition left_blocks :: "emitter \<Rightarrow> bool" where
  "left_blocks e = (em_target e = Anthropic \<and> (\<exists>n. anth.seen (em_out e) = Some (Live n {})))"

definition closed_stream :: "emitter \<Rightarrow> bool" where
  "closed_stream e = (anth.seen (em_out e) = Some Ended)"

lemma triple_message_delta:
  "triple admitted left_blocks message_delta (\<lambda>e. anth.seen (em_out e) = Some Closing)"
  unfolding message_delta_def
proof (rule triple_state [where m = "\<lambda>y. sse ''message_delta'' [(''type'', JStr ''message_delta''),
      (''delta'', JObj [(''stop_reason'', JStr (anthropicStop (em_stop y))), (''stop_sequence'', JNull)]),
      (''usage'', JObj (anthropicUsage (em_usage y)))]"], unfold sse_def, rule anth.triple_observed)
  fix y e assume "left_blocks e \<and> e = y"
  then obtain n where "anth.seen (em_out e) = Some (Live n {})" by (auto simp: left_blocks_def)
  then show "\<exists>u v. anth.seen (em_out e) = Some u \<and> anthropic_read u (Frame ''message_delta'' [(''type'', JStr ''message_delta''),
      (''delta'', JObj [(''stop_reason'', JStr (anthropicStop (em_stop y))), (''stop_sequence'', JNull)]),
      (''usage'', JObj (anthropicUsage (em_usage y)))]) = Some v \<and>
      (\<forall>out r. anth.seen out = Some v \<longrightarrow> anth.seen (em_out (e\<lparr>em_out := out, em_room := r\<rparr>)) = Some Closing)"
    by (auto simp: read_live_def)
qed

lemma triple_message_stop:
  "triple admitted (\<lambda>e. anth.seen (em_out e) = Some Closing) (sse ''message_stop'' [(''type'', JStr ''message_stop'')]) closed_stream"
  unfolding sse_def
  by (rule anth.triple_observed) (auto simp: closed_stream_def)

lemma triple_finish_anthropic:
  "triple admitted (\<lambda>e. message None s e \<and> \<not> thinking e) finish_anthropic closed_stream"
proof -
  obtain ts ks d where s: "s = (ts, ks, d)" by (cases s) auto
  have tools: "tools_left ks e = tool_blocks e" "em_tools e = ts" "em_order e = ks" "distinct ks"
      "\<forall>k t. map_of ts k = Some t \<longrightarrow> settled t"
      "open_blocks e = text_blocks e \<union> tool_blocks e" "alive (open_blocks e) e"
    if "message None s e \<and> \<not> thinking e" for e
    using that unfolding s message_def tools_ok_def
    by (auto simp: tools_left_def tool_blocks_def tool_at_def open_blocks_def thinking_blocks_def)
  have first: "triple admitted (\<lambda>e. message None s e \<and> \<not> thinking e)
      (\<lambda>e. if em_textOpen e then block_stop (em_textIndex e) e else (None, e))
      (\<lambda>e. em_target e = Anthropic \<and> em_order e = ks \<and> distinct ks \<and> closing ts ks e)"
  proof (rule triple_if)
    show "triple admitted (\<lambda>e. (message None s e \<and> \<not> thinking e) \<and> em_textOpen e) (\<lambda>e. block_stop (em_textIndex e) e)
        (\<lambda>e. em_target e = Anthropic \<and> em_order e = ks \<and> distinct ks \<and> closing ts ks e)"
    proof (rule triple_state [where m = "\<lambda>y. block_stop (em_textIndex y)"])
      fix y
      show "triple admitted (\<lambda>e. ((message None s e \<and> \<not> thinking e) \<and> em_textOpen e) \<and> e = y) (block_stop (em_textIndex y))
          (\<lambda>e. em_target e = Anthropic \<and> em_order e = ks \<and> distinct ks \<and> closing ts ks e)"
      proof (rule triple_stop [where w = OText and B = open_blocks])
        fix e assume e: "((message None s e \<and> \<not> thinking e) \<and> em_textOpen e) \<and> e = y"
        then have m: "message None s e \<and> \<not> thinking e" and o: "em_textOpen e" and y: "y = e" by auto
        note t = tools [OF m]
        show "alive (open_blocks e) e \<and> (em_textIndex y, OText) \<in> open_blocks e"
          using t(7) text_owned [OF o] by (simp add: y)
        fix out r assume a: "alive (open_blocks e - {(em_textIndex y, OText)}) (e\<lparr>em_out := out, em_room := r\<rparr>)"
        have "open_blocks e - {(em_textIndex y, OText)} = tool_blocks e"
          using o unfolding t(6) y by (auto simp: text_blocks_cases dest: tool_blocks_owner)
        with a t show "em_target (e\<lparr>em_out := out, em_room := r\<rparr>) = Anthropic \<and> em_order (e\<lparr>em_out := out, em_room := r\<rparr>) = ks \<and>
            distinct ks \<and> closing ts ks (e\<lparr>em_out := out, em_room := r\<rparr>)"
          by (auto simp: closing_def alive_def)
      qed
    qed
  next
    show "triple admitted (\<lambda>e. (message None s e \<and> \<not> thinking e) \<and> \<not> em_textOpen e) (\<lambda>e. (None, e))
        (\<lambda>e. em_target e = Anthropic \<and> em_order e = ks \<and> distinct ks \<and> closing ts ks e)"
    proof (rule triple_pass)
      fix e assume e: "(message None s e \<and> \<not> thinking e) \<and> \<not> em_textOpen e"
      then have m: "message None s e \<and> \<not> thinking e" by blast
      note t = tools [OF m]
      have "open_blocks e = tool_blocks e" using e t(6) by (simp add: text_blocks_cases)
      with t show "em_target e = Anthropic \<and> em_order e = ks \<and> distinct ks \<and> closing ts ks e"
        using message_target [of None s e] m by (simp add: closing_def)
    qed
  qed
  have left: "left_blocks e" if "closing ts [] e" for e
    using that by (auto simp: closing_def tools_left_def alive_def left_blocks_def)
  have "triple admitted (\<lambda>e. em_target e = Anthropic \<and> em_order e = ks \<and> distinct ks \<and> closing ts ks e)
      (\<lambda>e. run_steps (map finish_anthropic_tool (em_order e)) e) left_blocks"
  proof (rule triple_eq [where m' = "\<lambda>e. run_steps (map finish_anthropic_tool ks) e"])
    show "triple admitted (\<lambda>e. em_target e = Anthropic \<and> em_order e = ks \<and> distinct ks \<and> closing ts ks e)
        (\<lambda>e. run_steps (map finish_anthropic_tool ks) e) left_blocks"
    proof (cases "distinct ks")
      case True
      show ?thesis by (rule triple_conseq [OF triple_close_tools [OF True]]) (auto intro: left)
    qed (simp add: triple_def)
  qed simp
  with first show ?thesis
    unfolding finish_anthropic_def
    by (intro triple_cons [OF _ triple_cons [OF _ triple_cons [OF triple_message_delta triple_last [OF triple_message_stop]]]])
qed

lemma reading_done: "reading d e \<Longrightarrow> reading d' (e\<lparr>em_done := d'\<rparr>)"
proof -
  have "open_blocks (e\<lparr>em_done := d'\<rparr>) = open_blocks e" "tools_ok None (e\<lparr>em_done := d'\<rparr>) = tools_ok None e"
    "thinking (e\<lparr>em_done := d'\<rparr>) = thinking e"
    by (simp_all add: open_blocks_def text_blocks_def thinking_blocks_def thinking_def tool_blocks_def tool_at_def tools_ok_def)
  then show "reading d e \<Longrightarrow> reading d' (e\<lparr>em_done := d'\<rparr>)"
    by (cases "em_started e") (simp_all add: reading_def idle_def message_def alive_def)
qed

lemma triple_Finish: "triple admitted (reading False) (Finish jc rnds) closed_stream"
proof -
  let ?steps = "[start_stream rnds, modify (\<lambda>e. e\<lparr>em_stop := final_stop e\<rparr>), finishReasoning,
    \<lambda>e. (case em_target e of
            Chat \<Rightarrow> finish_chat e
          | Anthropic \<Rightarrow> finish_anthropic e
          | Responses \<Rightarrow> finish_responses jc rnds e
          | _ \<Rightarrow> (None, e))]"
  have ex: "triple admitted (\<lambda>e. \<exists>s. message None s e) (run_steps [finishReasoning, \<lambda>e. (case em_target e of
            Chat \<Rightarrow> finish_chat e
          | Anthropic \<Rightarrow> finish_anthropic e
          | Responses \<Rightarrow> finish_responses jc rnds e
          | _ \<Rightarrow> (None, e))]) closed_stream"
  proof -
    have "triple admitted (message None s) (run_steps [finishReasoning, \<lambda>e. (case em_target e of
            Chat \<Rightarrow> finish_chat e
          | Anthropic \<Rightarrow> finish_anthropic e
          | Responses \<Rightarrow> finish_responses jc rnds e
          | _ \<Rightarrow> (None, e))]) closed_stream" for s
      by (rule triple_cons [OF triple_finishReasoning triple_last], rule triple_anthropic [OF _ triple_finish_anthropic])
        (auto simp: message_target)
    then show ?thesis unfolding triple_def by blast
  qed
  have "triple admitted (\<lambda>e. \<exists>s. message None s e) (modify (\<lambda>e. e\<lparr>em_stop := final_stop e\<rparr>)) (\<lambda>e. \<exists>s. message None s e)"
    by (rule triple_modify) simp
  then have "triple admitted (reading True) (run_steps ?steps) closed_stream"
    using ex by (intro triple_cons [OF triple_conseq [OF triple_start_stream]] triple_cons [where ms = "[_, _]"]) auto
  note run = this
  have eq: "Finish jc rnds e = run_steps ?steps (e\<lparr>em_done := True\<rparr>)" if "reading False e" for e
    using that unfolding Finish_def reading_def by (simp del: run_steps.simps)
  show ?thesis
  proof (rule triple_by [OF _ run, where f = "\<lambda>e. e\<lparr>em_done := True\<rparr>"])
    fix e assume "reading False e"
    then show "reading True (e\<lparr>em_done := True\<rparr>) \<and> Finish jc rnds e = run_steps ?steps (e\<lparr>em_done := True\<rparr>)"
      by (intro conjI reading_done eq)
  qed
qed

subsection \<open>An event and a stream\<close>

text \<open>What the reader has seen when a step failed.\<close>

definition failed_well :: failed_with where
  "failed_well err e =
    (anth.undelivered err e \<or> err = UpstreamFailure \<and> anth.seen (em_out e) = Some Failed)"

lemma undelivered_failed: "anth.undelivered err e \<Longrightarrow> failed_well err e"
  by (simp add: failed_well_def)

lemma reading_other [simp]:
  "reading d (e\<lparr>em_usageReported := b, em_usage := u\<rparr>) = reading d e"
  "reading d (e\<lparr>em_stop := str, em_usage := u\<rparr>) = reading d e"
  "reading d (e\<lparr>em_id := str, em_model := str'\<rparr>) = reading d e"
  by (simp_all add: reading_def idle_def message_def alive_def open_blocks_def text_blocks_def thinking_blocks_def thinking_def
    tool_blocks_def tool_at_def tools_ok_def cong: if_cong)

lemma going_reading: "going e \<Longrightarrow> reading False e"
  by (simp add: going_def reading_def message_def alive_def)

lemma going_message: "going e \<longleftrightarrow> (\<exists>ts ks. message None (ts, ks, False) e)"
  by (auto simp: going_def message_def)

lemma triple_going:
  assumes "\<And>s. triple V (message None s) m (message None s)"
  shows "triple V going m going"
  unfolding triple_def
proof (intro allI impI)
  fix e assume "going e"
  then obtain ts ks where "message None (ts, ks, False) e" unfolding going_message by blast
  with assms [of "(ts, ks, False)"] show "if fst (m e) = None then going (snd (m e)) else V (the (fst (m e))) (snd (m e))"
    unfolding triple_def going_message by (metis (full_types))
qed

lemma triple_signature: "triple admitted (message None s)
    (\<lambda>e. if ev_Signature ev = [] then (None, e) else emitReasoningSignature rnds (ev_Signature ev) (reopenReasoning e)) (message None s)"
proof -
  have "triple admitted (message None s) (\<lambda>e. emitReasoningSignature rnds (ev_Signature ev) (reopenReasoning e)) (message None s)"
    by (rule triple_after [OF triple_emitReasoningSignature reopen_message])
  then show ?thesis by (simp add: triple_def)
qed

definition closing_kinds :: "string set" where
  "closing_kinds = {''error'', ''done''}"

lemma triple_dispatch_going:
  assumes "ev_Kind ev \<in> starting_kinds"
  shows "triple admitted going (dispatch_event jc rnds ev) going"
proof -
  have eq: "dispatch_event jc rnds ev =
      (if ev_Kind ev = ''start'' then (\<lambda>e. (None, e))
       else if ev_Kind ev = ''reasoning'' then reasoning_event rnds ev
       else if ev_Kind ev = ''reasoning_signature'' then
         (\<lambda>e. if ev_Signature ev = [] then (None, e) else emitReasoningSignature rnds (ev_Signature ev) (reopenReasoning e))
       else if ev_Kind ev = ''text'' then text_event rnds ev
       else if ev_Kind ev = ''tool_start'' then tool_event rnds ev [] else tool_event rnds ev (ev_Text ev))"
    using assms by (intro ext) (auto simp: starting_kinds_def dispatch_event_def Let_def)
  show ?thesis
    unfolding eq
    by (intro triple_const_if triple_pass triple_tool_event triple_going triple_reasoning_event triple_signature triple_text_event)
qed

lemma dispatch_quiet:
  assumes "ev_Kind ev \<notin> starting_kinds" "ev_Kind ev \<notin> closing_kinds" "reading False e"
  shows "\<exists>e'. dispatch_event jc rnds ev e = (None, e') \<and> reading False e'"
proof -
  have "reading False (usage_event ev e)"
    using assms(3) by (simp add: usage_event_def split: option.splits)
  with assms show ?thesis by (auto simp: starting_kinds_def closing_kinds_def dispatch_event_def Let_def)
qed

lemma triple_error: "triple failed_well (reading d) (error_event ev) Q"
proof -
  have w: "triple failed_well (reading True) (emitError str kind) (\<lambda>e. anth.seen (em_out e) = Some Failed)" for str kind
  proof (rule triple_anthropic)
    show "triple failed_well (reading True) (sse ''error'' [(''type'', JStr ''error''),
        (''error'', JObj [(''type'', JStr kind), (''message'', JStr str)])]) (\<lambda>e. anth.seen (em_out e) = Some Failed)"
      unfolding sse_def
    proof (rule triple_fail [OF anth.triple_observed undelivered_failed])
      fix e assume "reading True e"
      then have "anth.seen (em_out e) = Some Fresh \<or> (\<exists>n B. anth.seen (em_out e) = Some (Live n B))"
        by (auto simp: reading_def message_def alive_def idle_def split: if_splits)
      then show "\<exists>x y. anth.seen (em_out e) = Some x \<and> anthropic_read x (Frame ''error'' [(''type'', JStr ''error''),
        (''error'', JObj [(''type'', JStr kind), (''message'', JStr str)])]) = Some y \<and>
        (\<forall>out r. anth.seen out = Some y \<longrightarrow> anth.seen (em_out (e\<lparr>em_out := out, em_room := r\<rparr>)) = Some Failed)"
        by (auto simp: read_live_def)
    qed
  qed (auto simp: emitError_def reading_def message_def alive_def idle_def split: if_splits)
  have f: "triple failed_well (\<lambda>e. anth.seen (em_out e) = Some Failed) (\<lambda>e. (Some UpstreamFailure, e)) Q"
    by (simp add: triple_def failed_well_def)
  show ?thesis
    unfolding error_event_def
    by (rule triple_after [OF triple_cons [OF w triple_last [OF f]]]) (rule reading_done)
qed

lemma triple_Emit_open:
  assumes "ev_Kind ev \<notin> closing_kinds"
  shows "triple admitted (reading False) (Emit jc rnds ev) (reading False)"
proof -
  have "triple admitted (reading False) (run_steps [\<lambda>e. if ev_Kind ev \<in> starting_kinds then start_stream rnds e else (None, e),
      dispatch_event jc rnds ev]) (reading False)"
  proof (cases "ev_Kind ev \<in> starting_kinds")
    case True
    have s: "triple admitted (reading False) (\<lambda>e. if ev_Kind ev \<in> starting_kinds then start_stream rnds e else (None, e)) going"
      using triple_conseq [OF triple_start_stream [of False rnds], of "reading False" going] True by (simp add: going_def)
    show ?thesis
      by (rule triple_cons [OF s triple_last [OF triple_conseq [OF triple_dispatch_going [OF True]]]])
        (auto intro: going_reading)
  next
    case False
    have d: "triple admitted (reading False) (dispatch_event jc rnds ev) (reading False)"
      unfolding triple_def
    proof (intro allI impI)
      fix e assume "reading False e"
      with dispatch_quiet [OF False assms] obtain e' where "dispatch_event jc rnds ev e = (None, e')" "reading False e'" by metis
      then show "if fst (dispatch_event jc rnds ev e) = None then reading False (snd (dispatch_event jc rnds ev e))
          else admitted (the (fst (dispatch_event jc rnds ev e))) (snd (dispatch_event jc rnds ev e))" by simp
    qed
    show ?thesis
      by (rule triple_cons [where R = "reading False", OF _ triple_last [OF d]]) (use False in \<open>simp add: triple_def\<close>)
  qed
  then show ?thesis
    unfolding Emit_def by (rule triple_after) (simp add: identify_def)
qed

lemma triple_Emit_error:
  assumes "ev_Kind ev = ''error''"
  shows "triple failed_well (reading False) (Emit jc rnds ev) (\<lambda>e. False)"
proof -
  have "dispatch_event jc rnds ev = error_event ev"
    using assms by (intro ext) (simp add: dispatch_event_def)
  then have "triple failed_well (reading False) (run_steps [\<lambda>e. if ev_Kind ev \<in> starting_kinds then start_stream rnds e else (None, e),
      dispatch_event jc rnds ev]) (\<lambda>e. False)"
    using assms by (intro triple_cons [where R = "reading False"] triple_last)
      (simp_all add: triple_error, simp add: triple_def starting_kinds_def)
  then show ?thesis
    unfolding Emit_def by (rule triple_after) (simp add: identify_def)
qed

lemma triple_Emit_done:
  assumes "ev_Kind ev = ''done''"
  shows "triple admitted (reading False) (Emit jc rnds ev) closed_stream"
proof -
  have "dispatch_event jc rnds ev = Finish jc rnds"
    using assms by (intro ext) (simp add: dispatch_event_def)
  then have "triple admitted (reading False) (run_steps [\<lambda>e. if ev_Kind ev \<in> starting_kinds then start_stream rnds e else (None, e),
      dispatch_event jc rnds ev]) closed_stream"
    using assms by (intro triple_cons [where R = "reading False"] triple_last)
      (simp_all add: triple_Finish, simp add: triple_def starting_kinds_def)
  then show ?thesis
    unfolding Emit_def by (rule triple_after) (simp add: identify_def)
qed

text \<open>An event that goes wrong was an error event, or its client is gone.\<close>

lemma Emit_outcome:
  assumes "reading False e" "Emit jc rnds ev e = (r, e')"
  shows "case r of
      None \<Rightarrow> if ev_Kind ev = ''done'' then closed_stream e' else reading False e' \<and> ev_Kind ev \<noteq> ''error''
    | Some x \<Rightarrow> failed_well x e' \<and> (x = Delivery \<or> ev_Kind ev = ''error'')"
proof -
  consider "ev_Kind ev \<notin> closing_kinds" | "ev_Kind ev = ''done''" | "ev_Kind ev = ''error''"
    by (auto simp: closing_kinds_def)
  then show ?thesis
  proof cases
    case 1
    note t = tripleD [OF triple_Emit_open [OF 1] assms(1)]
    show ?thesis
    proof (cases r)
      case None
      with t(1) assms(2) 1 show ?thesis by (auto simp: closing_kinds_def)
    next
      case (Some x)
      with t(2) assms(2) have "anth.undelivered x e'" by blast
      with Some show ?thesis by (auto simp: failed_well_def anth.undelivered_def)
    qed
  next
    case 2
    note t = tripleD [OF triple_Emit_done [OF 2] assms(1)]
    show ?thesis
    proof (cases r)
      case None
      with t(1) assms(2) 2 show ?thesis by auto
    next
      case (Some x)
      with t(2) assms(2) have "anth.undelivered x e'" by blast
      with Some show ?thesis by (auto simp: failed_well_def anth.undelivered_def)
    qed
  next
    case 3
    note t = tripleD [OF triple_Emit_error [OF 3] assms(1)]
    show ?thesis using t assms(2) 3 by (cases r) auto
  qed
qed

lemma count_usage_out [simp]: "em_out (count_usage evs e) = em_out e"
proof -
  have "em_out (foldl (\<lambda>e ev. usage_event ev (identify ev e)) e evs) = em_out e" for e evs
    by (induction evs arbitrary: e) (simp_all add: usage_event_def identify_def split: option.splits)
  then show ?thesis by (simp add: count_usage_def)
qed

lemma emit_events_reads:
  "reading False e \<Longrightarrow> emit_events jc rnds evs e = (err, e') \<Longrightarrow>
    (case err of
       None \<Rightarrow> reading False e'
     | Some x \<Rightarrow> if x = NormalTermination then closed_stream e' else failed_well x e')"
proof (induction evs arbitrary: e)
  case (Cons ev evs)
  obtain r e1 where r: "Emit jc rnds ev e = (r, e1)" by fastforce
  note o = Emit_outcome [OF Cons.prems(1) r]
  show ?case
  proof (cases r)
    case None
    with o r Cons.IH [of e1] Cons.prems(2) show ?thesis by (cases "ev_Kind ev = ''done''") auto
  next
    case (Some x)
    with o have "failed_well x (count_usage evs e1)" "x \<noteq> NormalTermination"
      by (auto simp: failed_well_def anth.undelivered_def)
    with Cons.prems(2) r Some show ?thesis by auto
  qed
qed simp


end
