(* ===== verification/TranscodeProps.thy ===== *)
theory TranscodeProps
  imports Transcode AnthropicStream
begin

text \<open>
  What a client of the gateway is sure of: a transcoded stream that is not complete is never presented
  as complete, and a break-off is reported once, in the dialect of the client.
\<close>

subsection \<open>Records\<close>

text \<open>A handler that keeps I until it stops leaves a reading in I, or in what it stops with.\<close>

lemma sse_loop_inv:
  assumes "\<And>name data s r s'. I s \<Longrightarrow> h name data s = (r, s') \<Longrightarrow> (case r of None \<Rightarrow> I s' | Some x \<Rightarrow> J x s')"
  shows "I s \<Longrightarrow> sse_loop h ls rec s = (r, rec', s') \<Longrightarrow>
    (case r of None \<Rightarrow> I s' | Some x \<Rightarrow> x = EventTooLarge \<and> I s' \<or> J x s')"
proof (induction ls arbitrary: rec s)
  case (Cons l ls)
  let ?line = "if has_suffix l [CHR 0x0D] then butlast l else l"
  show ?case
  proof (cases "AddLine (sr_bytes rec) ?line")
    case None
    with Cons.prems show ?thesis by (auto simp: Let_def)
  next
    case n: (Some n)
    consider "?line \<noteq> []" | "?line = []" "sr_data rec = []" | "?line = []" "sr_data rec \<noteq> []" by blast
    then show ?thesis
    proof cases
      case 1
      with Cons.prems n have "sse_loop h ls (sse_field ?line (rec\<lparr>sr_bytes := n\<rparr>)) s = (r, rec', s')" by (simp add: Let_def)
      with Cons.IH Cons.prems(1) show ?thesis by blast
    next
      case 2
      with Cons.prems n have "sse_loop h ls no_record s = (r, rec', s')" by (simp add: Let_def)
      with Cons.IH Cons.prems(1) show ?thesis by blast
    next
      case 3
      obtain q t where h: "h (sr_event rec) (join_lines (sr_data rec)) s = (q, t)" by fastforce
      note o = assms [OF Cons.prems(1) h]
      show ?thesis
      proof (cases q)
        case None
        with Cons.prems n 3 h have "sse_loop h ls no_record t = (r, rec', s')" by (simp add: Let_def)
        with Cons.IH o None show ?thesis by simp
      next
        case (Some x)
        with o Cons.prems(2) 3 n h show ?thesis by (auto simp: Let_def)
      qed
    qed
  qed
qed simp

lemma readSSE_inv:
  assumes "\<And>name data s r s'. I s \<Longrightarrow> h name data s = (r, s') \<Longrightarrow> (case r of None \<Rightarrow> I s' | Some x \<Rightarrow> J x s')"
    and "I s" "readSSE h body failure s = (r, s')"
  shows "case r of None \<Rightarrow> I s'
    | Some x \<Rightarrow> x \<in> {EventTooLarge, LineTooLong, ReadFailed, ClientGone, UnexpectedEOF} \<and> I s' \<or> J x s'"
proof -
  obtain ls long where l: "scan_lines (split_lines body []) = (ls, long)" by fastforce
  obtain q rec' t where q: "sse_loop h ls no_record s = (q, rec', t)" by (metis prod_cases3)
  have o: "case q of None \<Rightarrow> I t | Some x \<Rightarrow> x = EventTooLarge \<and> I t \<or> J x t"
    by (rule sse_loop_inv [where I = I and J = J and h = h, OF _ assms(2) q]) (rule assms(1))
  show ?thesis
  proof (cases q)
    case None
    with o q l assms(3) show ?thesis by (auto simp: readSSE_def split: if_splits body_end.splits)
  next
    case (Some x)
    with o q l assms(3) show ?thesis by (auto simp: readSSE_def)
  qed
qed

subsection \<open>Frames of the transcoder\<close>

definition transcoding :: "'w transcoder \<Rightarrow> bool" where
  "transcoding s = (reading False (tc_emitter s) \<and> tc_termination s = StreamOpen)"

definition stopped :: "stream_error \<Rightarrow> 'w transcoder \<Rightarrow> bool" where
  "stopped x s =
    (if x = NormalTermination then closed_stream (tc_emitter s)
     else failed_well x (tc_emitter s) \<and> (x = Delivery \<or> x = UpstreamFailure \<and> tc_termination s = StreamError))"

lemma emit_frame_outcome:
  "reading False e \<Longrightarrow> emit_frame jc rnds evs StreamOpen e = (r, t, e') \<Longrightarrow>
    (case r of None \<Rightarrow> reading False e' \<and> t = StreamOpen
     | Some x \<Rightarrow> if x = NormalTermination then closed_stream e'
       else failed_well x e' \<and> (x = Delivery \<or> x = UpstreamFailure \<and> t = StreamError))"
proof (induction evs arbitrary: e)
  case (Cons ev evs)
  obtain q e1 where q: "Emit jc rnds ev e = (q, e1)" by fastforce
  note o = Emit_outcome [OF Cons.prems(1) q]
  show ?case
  proof (cases q)
    case None
    with o q Cons.IH [of e1] Cons.prems(2) show ?thesis
      by (cases "ev_Kind ev = ''done''") (auto simp: terminated_by_def)
  next
    case (Some x)
    with o have "failed_well x (count_usage evs e1)" "x = Delivery \<or> x = UpstreamFailure" "x = Delivery \<or> ev_Kind ev = ''error''"
      by (auto simp: failed_well_def anth.undelivered_def)
    with Cons.prems(2) q Some show ?thesis by (auto simp: terminated_by_def)
  qed
qed simp

lemma transcode_record_outcome:
  assumes "transcoding s" "transcode_record env rw name data s = (r, s')"
  shows "case r of None \<Rightarrow> transcoding s' | Some x \<Rightarrow> stopped x s'"
proof -
  have e: "reading False (tc_emitter s)" "tc_termination s = StreamOpen" using assms(1) by (auto simp: transcoding_def)
  obtain pr p w where p: "Parse (se_json env) (se_print env) rw name data (tc_parser s, tc_rewriter s) = (pr, p, w)"
    by (metis prod_cases3)
  show ?thesis
  proof (cases pr)
    case (Inl err)
    obtain q e1 where q: "Emit (se_json env) (se_draws env) (failure_event (se_error env err)) (tc_emitter s) = (q, e1)" by fastforce
    have k: "ev_Kind (failure_event (se_error env err)) = ''error''" by (simp add: failure_event_def error_of_def event_of_def)
    from Emit_outcome [OF e(1) q] k obtain x where "q = Some x" "failed_well x e1" by (auto split: option.splits)
    with assms(2) p q Inl show ?thesis
      by (auto simp: transcode_record_def stopped_def failed_well_def anth.undelivered_def)
  next
    case (Inr evs)
    obtain q t e1 where q: "emit_frame (se_json env) (se_draws env) evs (tc_termination s) (tc_emitter s) = (q, t, e1)"
      by (metis prod_cases3)
    with e(2) have "emit_frame (se_json env) (se_draws env) evs StreamOpen (tc_emitter s) = (q, t, e1)" by simp
    from emit_frame_outcome [OF e(1) this] assms(2) p q Inr show ?thesis
      by (auto simp: transcode_record_def transcoding_def stopped_def split: option.splits)
  qed
qed

lemma report_outcome:
  assumes "reading False e" "report_unexpected env x e = (r, e')" "x \<noteq> NormalTermination"
  shows "r = Some Delivery \<and> anth.seen (em_out e') \<noteq> None \<or> r = Some x \<and> anth.seen (em_out e') = Some Failed"
proof -
  obtain q e1 where q: "Emit (se_json env) (se_draws env) (failure_event (unexpected_text env x)) e = (q, e1)" by fastforce
  have k: "ev_Kind (failure_event (unexpected_text env x)) = ''error''" by (simp add: failure_event_def error_of_def event_of_def)
  from Emit_outcome [OF assms(1) q] k obtain y where "q = Some y" "failed_well y e1" by (auto split: option.splits)
  with q assms(2) show ?thesis
    by (auto simp: report_unexpected_def emitUnexpectedStreamError_def failed_well_def anth.undelivered_def split: stream_error.splits)
qed


end
