(* ===== verification/Forward.thy ===== *)
theory Forward
  imports Transcode
begin

text \<open>
  A stream that stays in its dialect, internal/core/protocol/stream.go: \<open>ForwardStream\<close> copies the
  upstream's bytes under an observer that cuts them into records, reads usage and termination from
  each, and stops the copy at the end of the terminal record. What the upstream delivers is a list of
  reads; the flag of a read says whether the client is gone when it has been handled.
\<close>

subsection \<open>Boundaries of records\<close>

fun index_of :: "string \<Rightarrow> string \<Rightarrow> nat option" where
  "index_of p [] = (if p = [] then Some 0 else None)"
| "index_of p (c # s) = (if has_prefix (c # s) p then Some 0 else map_option Suc (index_of p s))"

definition LFLF :: string where
  "LFLF = [CHR 0x0A, CHR 0x0A]"

definition CRLFCRLF :: string where
  "CRLFCRLF = [CHR 0x0D, CHR 0x0A, CHR 0x0D, CHR 0x0A]"

text \<open>\<open>nextSSEBoundary\<close>: the start and the width of the first blank line.\<close>

definition nextSSEBoundary :: "string \<Rightarrow> (nat \<times> nat) option" where
  "nextSSEBoundary data =
    (case (index_of LFLF data, index_of CRLFCRLF data) of
       (None, None) \<Rightarrow> None
     | (None, Some c) \<Rightarrow> Some (c, 4)
     | (Some l, None) \<Rightarrow> Some (l, 2)
     | (Some l, Some c) \<Rightarrow> if c < l then Some (c, 4) else Some (l, 2))"

subsection \<open>The observer\<close>

record usage_observer =
  ob_parser :: stream_parser
  ob_buffer :: string
  ob_scan :: nat
  ob_usage :: token_usage
  ob_reported :: bool
  ob_normal :: bool
  ob_error :: bool
  ob_parseErr :: "bridge_error option"
  ob_readErr :: "stream_error option"

definition newStreamUsageObserver :: "bool \<Rightarrow> protocol \<Rightarrow> usage_observer" where
  "newStreamUsageObserver watched p =
    \<lparr>ob_parser = new_parser watched p False, ob_buffer = [], ob_scan = 0, ob_usage = no_usage, ob_reported = False,
     ob_normal = False, ob_error = False, ob_parseErr = None, ob_readErr = None\<rparr>"

text \<open>The first error of parsing is kept; it is one of the parser or one of the reader.\<close>

definition ParseError :: "usage_observer \<Rightarrow> bool" where
  "ParseError ob = (ob_parseErr ob \<noteq> None \<or> ob_readErr ob \<noteq> None)"

definition note_parse :: "bridge_error \<Rightarrow> usage_observer \<Rightarrow> usage_observer" where
  "note_parse err ob = (if ParseError ob then ob else ob\<lparr>ob_parseErr := Some err\<rparr>)"

definition note_read :: "stream_error \<Rightarrow> usage_observer \<Rightarrow> usage_observer" where
  "note_read err ob = (if ParseError ob then ob else ob\<lparr>ob_readErr := Some err\<rparr>)"

definition observe_event :: "stream_event \<Rightarrow> usage_observer \<Rightarrow> usage_observer" where
  "observe_event ev ob =
    (let kind = ev_Kind ev;
         ob = (if kind = ''done'' then ob\<lparr>ob_normal := True\<rparr>
               else if kind = ''finish'' then ob\<lparr>ob_usage := (ob_usage ob)\<lparr>us_FinishReason := ev_Stop ev\<rparr>\<rparr>
               else if kind = ''error'' then ob\<lparr>ob_error := True\<rparr> else ob)
     in case ev_Usage ev of
          None \<Rightarrow> ob
        | Some u \<Rightarrow> ob\<lparr>ob_reported := True, ob_usage := mergeBridgeUsage (ob_usage ob) u\<rparr>)"

definition observe_record :: "stream_env \<Rightarrow> usage_observer sse_handler" where
  "observe_record env name data ob =
    (case Parse (se_json env) (se_print env) no_rewrite name data (ob_parser ob, ()) of
       (Inl err, p, _) \<Rightarrow> (None, note_parse err (ob\<lparr>ob_parser := p\<rparr>))
     | (Inr evs, p, _) \<Rightarrow> (None, fold observe_event evs (ob\<lparr>ob_parser := p\<rparr>)))"

definition consume :: "stream_env \<Rightarrow> string \<Rightarrow> usage_observer \<Rightarrow> usage_observer" where
  "consume env data ob =
    (case readSSE (observe_record env) data BodyEof ob of
       (Some err, ob) \<Rightarrow> note_read err ob
     | (None, ob) \<Rightarrow> ob)"

definition terminated :: "usage_observer \<Rightarrow> bool" where
  "terminated ob = (ob_normal ob \<or> ob_error ob)"

lemma has_prefix_length: "has_prefix s p \<Longrightarrow> length p \<le> length s"
  by (auto simp: has_prefix_iff)

lemma index_of_bound: "index_of p s = Some i \<Longrightarrow> i + length p \<le> length s"
proof (induction s arbitrary: i)
  case (Cons c s)
  then show ?case using has_prefix_length [of "c # s" p] by (auto split: if_splits)
qed (simp split: if_splits)

lemma boundary_bound:
  assumes "nextSSEBoundary s = Some (i, w)"
  shows "i + w \<le> length s" "2 \<le> w"
  using assms index_of_bound [of LFLF s] index_of_bound [of CRLFCRLF s]
  by (auto simp: nextSSEBoundary_def LFLF_def CRLFCRLF_def split: option.splits if_splits)

text \<open>
  The loop of \<open>writeFragment\<close> on the part of the buffer that is not consumed yet: it is searched from
  the part on that has not been searched before. The results are the observer, the bytes consumed, and
  whether an event is too large.
\<close>

definition too_large :: "usage_observer \<Rightarrow> usage_observer" where
  "too_large ob = ob\<lparr>ob_parseErr := None, ob_readErr := Some EventTooLarge, ob_buffer := []\<rparr>"

function fragment_loop :: "stream_env \<Rightarrow> string \<Rightarrow> nat \<Rightarrow> usage_observer \<Rightarrow> usage_observer \<times> nat \<times> bool" where
  "fragment_loop env left consumed ob =
    (case nextSSEBoundary (drop (ob_scan ob) left) of
       None \<Rightarrow>
         if max_event_bytes < length left then (too_large ob, consumed, True)
         else (ob\<lparr>ob_scan := length left - 3, ob_buffer := left\<rparr>, consumed, False)
     | Some (i, w) \<Rightarrow>
         let n = ob_scan ob + i + w
         in if max_event_bytes < n then (too_large ob, consumed, True)
            else
              let ob = (consume env (take n left) ob)\<lparr>ob_scan := 0\<rparr>
              in if terminated ob then (ob\<lparr>ob_buffer := []\<rparr>, consumed + n, False)
                 else fragment_loop env (drop n left) (consumed + n) ob)"
  by pat_completeness auto
termination
proof (relation "measure (\<lambda>(env, left, consumed, ob). length left)")
  fix env left consumed ob and x :: "nat \<times> nat" and i w n ob'
  assume "nextSSEBoundary (drop (ob_scan ob) left) = Some x" "(i, w) = x" "n = ob_scan ob + i + w"
  with boundary_bound [of "drop (ob_scan ob) left" i w] show "((env, drop n left, consumed + n, ob'), env, left, consumed, ob)
      \<in> measure (\<lambda>(env, left, consumed, ob). length left)" by auto
qed simp

declare fragment_loop.simps [simp del]

text \<open>The bytes accepted of the fragment: all, or those up to the end of the terminal record.\<close>

definition writeFragment :: "stream_env \<Rightarrow> string \<Rightarrow> usage_observer \<Rightarrow> nat \<times> bool \<times> usage_observer" where
  "writeFragment env data ob =
    (let previous = length (ob_buffer ob)
     in case fragment_loop env (ob_buffer ob @ data) 0 ob of
          (ob, consumed, large) \<Rightarrow>
            (if large \<or> terminated ob then consumed - previous else length data, large, ob))"

definition fragment_bytes :: nat where
  "fragment_bytes = 64 * 2 ^ 10"

function Write :: "stream_env \<Rightarrow> string \<Rightarrow> usage_observer \<Rightarrow> nat \<times> bool \<times> usage_observer" where
  "Write env data ob =
    (if data = [] then (0, False, ob)
     else
       let n = min (length data) fragment_bytes
       in case writeFragment env (take n data) ob of
            (written, large, ob) \<Rightarrow>
              if large \<or> written < n \<or> terminated ob then (written, large, ob)
              else case Write env (drop n data) ob of (rest, large, ob) \<Rightarrow> (written + rest, large, ob))"
  by pat_completeness auto
termination
  by (relation "measure (\<lambda>(env, data, ob). length data)") (auto simp: fragment_bytes_def)

declare Write.simps [simp del]

definition observer_Finish :: "usage_observer \<Rightarrow> usage_observer" where
  "observer_Finish ob = ob\<lparr>ob_buffer := [], ob_scan := 0\<rparr>"

subsection \<open>The copy\<close>

text \<open>The writer: what it has taken, and how many more bytes it will take (None for all).\<close>

definition client_write :: "string \<Rightarrow> string \<times> nat option \<Rightarrow> bool \<times> string \<times> nat option" where
  "client_write data = (\<lambda>(out, room).
    case room of
      None \<Rightarrow> (True, out @ data, None)
    | Some n \<Rightarrow> (length data \<le> n, out @ take n data, Some (n - length data)))"

definition end_error :: "body_end \<Rightarrow> stream_error option" where
  "end_error failure =
    (case failure of BodyEof \<Rightarrow> None | BodyFailed \<Rightarrow> Some ReadFailed | BodyCanceled \<Rightarrow> Some ClientGone)"

fun forward_loop ::
    "stream_env \<Rightarrow> (string \<times> bool) list \<Rightarrow> body_end \<Rightarrow> usage_observer \<Rightarrow> string \<times> nat option \<Rightarrow>
      stream_error option \<times> usage_observer \<times> string \<times> nat option" where
  "forward_loop env [] failure ob w =
    (end_error failure, ob, w)"
| "forward_loop env ((data, gone) # reads) failure ob w =
    (case Write env data ob of
       (accepted, large, ob) \<Rightarrow>
         (case client_write (take accepted data) w of
            (ok, w) \<Rightarrow>
              if \<not> ok then (Some Delivery, ob, w)
              else if large then (Some EventTooLarge, ob, w)
              else if terminated ob then (None, ob, w)
              else if gone then (Some ClientGone, ob, w)
              else forward_loop env reads failure ob w))"

text \<open>After the copy: a termination seen in the stream stands, a client that is gone hears nothing, and
  any other end is reported by an error event of the dialect.\<close>

definition forward_cause :: "stream_error option \<Rightarrow> usage_observer \<Rightarrow> stream_error" where
  "forward_cause copyErr ob =
    (case copyErr of
       Some x \<Rightarrow> x
     | None \<Rightarrow>
         (case ob_readErr ob of
            Some x \<Rightarrow> x
          | None \<Rightarrow> if ob_parseErr ob \<noteq> None then BadRecord else UnexpectedEOF))"

definition finish_forward ::
    "stream_env \<Rightarrow> emitter \<Rightarrow> bool \<Rightarrow> stream_error option \<Rightarrow> usage_observer \<Rightarrow> string \<Rightarrow>
      token_usage \<times> bool \<times> stream_error option \<times> string \<times> emitter" where
  "finish_forward env e gone copyErr ob out =
    (let u = ob_usage ob; reported = ob_reported ob
     in if ob_error ob then
          (u, reported, Some (case copyErr of Some x \<Rightarrow> x | None \<Rightarrow> UpstreamFailure), out, e)
        else if ob_normal ob \<and> \<not> ParseError ob then (u, reported, copyErr, out, e)
        else if gone \<or> copyErr = Some ClientGone \<or> copyErr = Some Delivery then
          (u, reported, Some (case copyErr of Some x \<Rightarrow> x | None \<Rightarrow> ClientGone), out, e)
        else case report_unexpected env (forward_cause copyErr ob) e of
          (result, e) \<Rightarrow> (u, reported, result, out, e))"

definition ForwardStream ::
    "stream_env \<Rightarrow> protocol \<Rightarrow> emitter \<Rightarrow> (string \<times> bool) list \<Rightarrow> body_end \<Rightarrow> bool \<Rightarrow> string \<times> nat option \<Rightarrow>
      token_usage \<times> bool \<times> stream_error option \<times> string \<times> emitter" where
  "ForwardStream env p e reads failure gone w =
    (case forward_loop env reads failure (newStreamUsageObserver True p) w of
       (copyErr, ob, out, room) \<Rightarrow> finish_forward env e gone copyErr (observer_Finish ob) out)"

end
