(* ===== verification/ForwardProps.thy ===== *)
theory ForwardProps
  imports Forward TranscodeProps
begin

text \<open>
  The observer of a forwarded stream cuts the bytes incrementally, with a mark of what it has searched;
  here it is compared with the plain reading: cut the whole text into records, look at them in order,
  stop after the terminal one.
\<close>

subsection \<open>Searching on\<close>

definition occurs :: "string \<Rightarrow> string \<Rightarrow> nat \<Rightarrow> bool" where
  "occurs p s i = (i + length p \<le> length s \<and> take (length p) (drop i s) = p)"

lemma occurs_0: "occurs p s 0 = has_prefix s p"
  using has_prefix_length [of s p] by (auto simp: occurs_def has_prefix_def)

lemma occurs_Suc: "occurs p (c # s) (Suc i) = occurs p s i"
  by (simp add: occurs_def)

lemma index_of_spec:
  "case index_of p s of None \<Rightarrow> \<forall>i. \<not> occurs p s i | Some i \<Rightarrow> occurs p s i \<and> (\<forall>j<i. \<not> occurs p s j)"
proof (induction s)
  case Nil
  show ?case by (auto simp: occurs_def)
next
  case (Cons c s)
  show ?case
  proof (cases "has_prefix (c # s) p")
    case True
    then show ?thesis by (simp add: occurs_0)
  next
    case False
    have z: "\<not> occurs p (c # s) 0" using False by (simp add: occurs_0)
    show ?thesis
    proof (cases "index_of p s")
      case None
      with Cons have "\<not> occurs p (c # s) i" for i
        using z by (cases i) (simp_all add: occurs_Suc)
      with False None show ?thesis by simp
    next
      case (Some i)
      with Cons have "\<not> occurs p (c # s) j" if "j < Suc i" for j
        using z that by (cases j) (simp_all add: occurs_Suc)
      with False Some Cons show ?thesis by (simp add: occurs_Suc)
    qed
  qed
qed

lemma index_of_eq:
  "index_of p s = Some i \<longleftrightarrow> occurs p s i \<and> (\<forall>j<i. \<not> occurs p s j)"
  "index_of p s = None \<longleftrightarrow> (\<forall>i. \<not> occurs p s i)"
  using index_of_spec [of p s] by (auto split: option.splits) (metis linorder_neqE_nat)+

lemma occurs_append: "occurs p s i \<Longrightarrow> occurs p (s @ d) i"
  by (auto simp: occurs_def)

lemma occurs_inside: "occurs p (s @ d) i \<Longrightarrow> i + length p \<le> length s \<Longrightarrow> occurs p s i"
  by (auto simp: occurs_def)

lemma occurs_drop: "k \<le> length s \<Longrightarrow> occurs p (drop k s) i = occurs p s (k + i)"
  by (auto simp: occurs_def add.commute)

lemma occurs_nth: "occurs p s i \<Longrightarrow> k < length p \<Longrightarrow> s ! (i + k) = p ! k"
  unfolding occurs_def by (metis add_leD1 nth_drop nth_take)

text \<open>A blank line starts at i and is w wide.\<close>

definition blank_at :: "string \<Rightarrow> nat \<Rightarrow> nat \<Rightarrow> bool" where
  "blank_at s i w = (w = 2 \<and> occurs LFLF s i \<or> w = 4 \<and> occurs CRLFCRLF s i)"

lemma blank_unique: "blank_at s i w \<Longrightarrow> blank_at s i v \<Longrightarrow> v = w"
  by (auto simp: blank_at_def occurs_def LFLF_def CRLFCRLF_def take_Suc drop_Suc split: list.splits)

lemma boundary_spec:
  "case nextSSEBoundary s of None \<Rightarrow> \<forall>i w. \<not> blank_at s i w
   | Some (i, w) \<Rightarrow> blank_at s i w \<and> (\<forall>j<i. \<forall>v. \<not> blank_at s j v)"
proof -
  note l = index_of_spec [of LFLF s] and c = index_of_spec [of CRLFCRLF s]
  show ?thesis
  proof (cases "index_of LFLF s")
    case None
    then show ?thesis
      using l c by (cases "index_of CRLFCRLF s") (auto simp: nextSSEBoundary_def blank_at_def)
  next
    case (Some i)
    show ?thesis
    proof (cases "index_of CRLFCRLF s")
      case n: None
      show ?thesis using Some n l c by (auto simp: nextSSEBoundary_def blank_at_def)
    next
      case j: (Some j)
      show ?thesis
      proof (cases "j < i")
        case True
        then have "nextSSEBoundary s = Some (j, 4)" using Some j by (simp add: nextSSEBoundary_def)
        with True Some j l c show ?thesis by (auto simp: blank_at_def)
      next
        case False
        then have "nextSSEBoundary s = Some (i, 2)" using Some j by (simp add: nextSSEBoundary_def)
        with False Some j l c show ?thesis by (auto simp: blank_at_def)
      qed
    qed
  qed
qed

lemma boundary_SomeI:
  assumes "blank_at s i w" "\<And>j v. j < i \<Longrightarrow> \<not> blank_at s j v"
  shows "nextSSEBoundary s = Some (i, w)"
proof (cases "nextSSEBoundary s")
  case None
  with boundary_spec [of s] assms(1) show ?thesis by simp
next
  case (Some r)
  obtain j v where r: "r = (j, v)" by fastforce
  with Some boundary_spec [of s] have b: "blank_at s j v" "\<And>l u. l < j \<Longrightarrow> \<not> blank_at s l u" by auto
  have "j = i" using b assms by (metis linorder_neqE_nat)
  with b(1) assms(1) blank_unique Some r show ?thesis by blast
qed

lemma boundary_NoneI: "(\<And>i w. \<not> blank_at s i w) \<Longrightarrow> nextSSEBoundary s = None"
  using boundary_spec [of s] by (cases "nextSSEBoundary s") auto

lemma boundary_SomeD:
  assumes "nextSSEBoundary s = Some (i, w)"
  shows "blank_at s i w" "j < i \<Longrightarrow> \<not> blank_at s j v"
  using boundary_spec [of s] assms by auto

lemma boundary_NoneD: "nextSSEBoundary s = None \<Longrightarrow> \<not> blank_at s i w"
  using boundary_spec [of s] by auto

lemma blank_width: "blank_at s i w \<Longrightarrow> i + w \<le> length s \<and> 2 \<le> w \<and> w \<le> 4"
  by (auto simp: blank_at_def occurs_def LFLF_def CRLFCRLF_def)

lemma blank_append: "blank_at s i w \<Longrightarrow> blank_at (s @ d) i w"
  by (auto simp: blank_at_def occurs_append)

lemma blank_inside: "blank_at (s @ d) i w \<Longrightarrow> i + w \<le> length s \<Longrightarrow> blank_at s i w"
  by (auto simp: blank_at_def LFLF_def CRLFCRLF_def dest: occurs_inside)

lemma blank_drop: "k \<le> length s \<Longrightarrow> blank_at (drop k s) i w = blank_at s (k + i) w"
  by (simp add: blank_at_def occurs_drop)

text \<open>A record that is complete stays the first when more bytes follow.\<close>

lemma boundary_append:
  assumes "nextSSEBoundary s = Some (i, w)"
  shows "nextSSEBoundary (s @ d) = Some (i, w)"
proof (rule boundary_SomeI)
  note b = boundary_SomeD [OF assms]
  show "blank_at (s @ d) i w" using b(1) by (rule blank_append)
  show "\<not> blank_at (s @ d) j v" if "j < i" for j v
  proof
    assume j: "blank_at (s @ d) j v"
    have "\<not> j + v \<le> length s" using blank_inside [OF j] b(2) that by blast
    with blank_width [OF b(1)] blank_width [OF j] that have "j + 3 = length s" "i = j + 1" "v = 4" "w = 2" by auto
    then have o: "occurs CRLFCRLF (s @ d) j" "occurs LFLF s (j + 1)" using j b(1) by (auto simp: blank_at_def)
    have "(s @ d) ! (j + 2) = CHR 0x0D" using occurs_nth [OF o(1), of 2] by (simp add: CRLFCRLF_def)
    moreover have "s ! (j + 1 + 1) = CHR 0x0A" using occurs_nth [OF o(2), of 1] by (simp add: LFLF_def)
    ultimately show False using \<open>j + 3 = length s\<close> by (simp add: nth_append numeral_2_eq_2)
  qed
qed

text \<open>What has been searched in vain need not be searched again, but for the last three bytes.\<close>

lemma boundary_skip:
  assumes "nextSSEBoundary s = None" "k \<le> length s - 3"
  shows "nextSSEBoundary (drop k (s @ d)) = map_option (\<lambda>(i, w). (i - k, w)) (nextSSEBoundary (s @ d)) \<and>
    (case nextSSEBoundary (s @ d) of None \<Rightarrow> True | Some (i, w) \<Rightarrow> k \<le> i)"
proof -
  have k: "k \<le> length (s @ d)" using assms(2) by simp
  have ge: "k \<le> i" if "blank_at (s @ d) i w" for i w
  proof (rule ccontr)
    assume "\<not> k \<le> i"
    then have "i + w \<le> length s" using blank_width [OF that] assms(2) by linarith
    with blank_inside [OF that] boundary_NoneD [OF assms(1)] show False by blast
  qed
  show ?thesis
  proof (cases "nextSSEBoundary (s @ d)")
    case None
    have "nextSSEBoundary (drop k (s @ d)) = None"
      by (rule boundary_NoneI) (use boundary_NoneD [OF None] blank_drop [OF k] in blast)
    with None show ?thesis by simp
  next
    case (Some r)
    obtain i w where r: "r = (i, w)" by fastforce
    note b = boundary_SomeD [OF Some [unfolded r]]
    note i = ge [OF b(1)]
    have "nextSSEBoundary (drop k (s @ d)) = Some (i - k, w)"
    proof (rule boundary_SomeI)
      show "blank_at (drop k (s @ d)) (i - k) w" using b(1) i blank_drop [OF k] by simp
      show "\<not> blank_at (drop k (s @ d)) j v" if "j < i - k" for j v
        using b(2) [of "k + j" v] that blank_drop [OF k] by auto
    qed
    with Some r i show ?thesis by simp
  qed
qed

subsection \<open>Looking at a record leaves the buffer alone\<close>

definition at_mark :: "string \<Rightarrow> nat \<Rightarrow> usage_observer \<Rightarrow> usage_observer" where
  "at_mark b k ob = ob\<lparr>ob_buffer := b, ob_scan := k\<rparr>"

lemma sse_loop_commute:
  assumes "\<And>n d s. h n d (g s) = (fst (h n d s), g (snd (h n d s)))"
  shows "sse_loop h ls r (g s) = (case sse_loop h ls r s of (q, r', s') \<Rightarrow> (q, r', g s'))"
proof (induction ls arbitrary: r s)
  case (Cons l ls)
  let ?line = "if has_suffix l [CHR 0x0D] then butlast l else l"
  obtain q t where h: "h (sr_event r) (join_lines (sr_data r)) s = (q, t)" by fastforce
  then have "h (sr_event r) (join_lines (sr_data r)) (g s) = (q, g t)" using assms by simp
  with h Cons.IH show ?case by (simp add: Let_def split: option.splits)
qed simp

lemma readSSE_commute:
  assumes "\<And>n d s. h n d (g s) = (fst (h n d s), g (snd (h n d s)))"
  shows "readSSE h body failure (g s) = (case readSSE h body failure s of (q, s') \<Rightarrow> (q, g s'))"
proof -
  have "sse_loop h ls r (g s) = (case sse_loop h ls r s of (q, r', s') \<Rightarrow> (q, r', g s'))" for ls r
    by (rule sse_loop_commute) (rule assms)
  then show ?thesis by (simp add: readSSE_def split: prod.splits option.splits body_end.splits)
qed

lemma observe_event_mark: "observe_event ev (at_mark b k ob) = at_mark b k (observe_event ev ob)"
  by (simp add: observe_event_def at_mark_def Let_def split: option.splits)

lemma observe_events_mark: "fold observe_event evs (at_mark b k ob) = at_mark b k (fold observe_event evs ob)"
  by (induction evs arbitrary: ob) (simp_all add: observe_event_mark)

lemma note_mark: "note_parse err (at_mark b k ob) = at_mark b k (note_parse err ob)"
  "note_read x (at_mark b k ob) = at_mark b k (note_read x ob)"
  by (simp_all add: note_parse_def note_read_def ParseError_def at_mark_def)

lemma mark_parser: "ob_parser (at_mark b k ob) = ob_parser ob" "(at_mark b k ob)\<lparr>ob_parser := p\<rparr> = at_mark b k (ob\<lparr>ob_parser := p\<rparr>)"
  by (simp_all add: at_mark_def)

lemma observe_record_mark:
  "observe_record env n d (at_mark b k ob) = (fst (observe_record env n d ob), at_mark b k (snd (observe_record env n d ob)))"
  by (simp add: observe_record_def mark_parser note_mark observe_events_mark split: prod.splits sum.splits)

lemma consume_mark: "consume env d (at_mark b k ob) = at_mark b k (consume env d ob)"
proof -
  have "readSSE (observe_record env) d BodyEof (at_mark b k ob) =
      (case readSSE (observe_record env) d BodyEof ob of (q, ob') \<Rightarrow> (q, at_mark b k ob'))"
    by (rule readSSE_commute) (rule observe_record_mark)
  then show ?thesis by (simp add: consume_def note_mark split: prod.splits option.splits)
qed

lemma terminated_mark [simp]: "terminated (at_mark b k ob) = terminated ob"
  by (simp add: terminated_def at_mark_def)

lemma at_mark_mark [simp]: "at_mark b k (at_mark c l ob) = at_mark b k ob"
  "ob_scan (at_mark b k ob) = k" "ob_buffer (at_mark b k ob) = b"
  by (simp_all add: at_mark_def)

subsection \<open>The plain reading\<close>

function records :: "string \<Rightarrow> string list" where
  "records s =
    (case nextSSEBoundary s of
       None \<Rightarrow> []
     | Some (i, w) \<Rightarrow> take (i + w) s # records (drop (i + w) s))"
  by pat_completeness auto
termination
proof (relation "measure length")
  fix s and x :: "nat \<times> nat" and i w
  assume "nextSSEBoundary s = Some x" "(i, w) = x"
  with boundary_bound [of s i w] show "(drop (i + w) s, s) \<in> measure length" by auto
qed simp

declare records.simps [simp del]

text \<open>The records one after another to the terminal one, with the bytes they take.\<close>

fun observe_records :: "stream_env \<Rightarrow> string list \<Rightarrow> usage_observer \<Rightarrow> nat \<times> usage_observer" where
  "observe_records env [] ob = (0, ob)"
| "observe_records env (f # fs) ob =
    (let ob = consume env f ob
     in if terminated ob then (length f, ob)
        else case observe_records env fs ob of (n, ob) \<Rightarrow> (length f + n, ob))"

definition observe_text :: "stream_env \<Rightarrow> string \<Rightarrow> usage_observer \<Rightarrow> nat \<times> usage_observer" where
  "observe_text env s ob = observe_records env (records s) ob"

lemma observe_text_step:
  "observe_text env s ob =
    (case nextSSEBoundary s of
       None \<Rightarrow> (0, ob)
     | Some (i, w) \<Rightarrow>
         let ob = consume env (take (i + w) s) ob
         in if terminated ob then (i + w, ob)
            else case observe_text env (drop (i + w) s) ob of (n, ob) \<Rightarrow> (i + w + n, ob))"
proof (cases "nextSSEBoundary s")
  case None
  then show ?thesis by (simp add: observe_text_def records.simps [of s])
next
  case (Some x)
  obtain i w where x: "x = (i, w)" by fastforce
  have "length (take (i + w) s) = i + w" using boundary_bound(1) [of s i w] Some x by simp
  with Some x show ?thesis by (simp add: observe_text_def records.simps [of s] Let_def)
qed

text \<open>What a text leaves: the rest without a complete record, unless it was terminated.\<close>

lemma observe_text_rest:
  "\<not> terminated (snd (observe_text env s ob)) \<Longrightarrow> nextSSEBoundary (drop (fst (observe_text env s ob)) s) = None"
  "fst (observe_text env s ob) \<le> length s"
proof (induction "length s" arbitrary: s ob rule: less_induct)
  case less
  {
    case 1
    show ?case
    proof (cases "nextSSEBoundary s")
      case None
      then show ?thesis by (simp add: observe_text_step [of env s])
    next
      case (Some x)
      obtain i w where x: "x = (i, w)" by fastforce
      note b = boundary_bound [OF Some [unfolded x]]
      let ?ob = "consume env (take (i + w) s) ob"
      have l: "length (drop (i + w) s) < length s" using b by simp
      show ?thesis
        using 1 Some x less(1) [OF l, of ?ob]
        by (auto simp: observe_text_step [of env s] Let_def add.commute split: prod.splits if_splits)
    qed
  next
    case 2
    show ?case
    proof (cases "nextSSEBoundary s")
      case None
      then show ?thesis by (simp add: observe_text_step [of env s])
    next
      case (Some x)
      obtain i w where x: "x = (i, w)" by fastforce
      note b = boundary_bound [OF Some [unfolded x]]
      let ?ob = "consume env (take (i + w) s) ob"
      have l: "length (drop (i + w) s) < length s" using b by simp
      show ?thesis
        using b Some x less(2) [OF l, of ?ob]
        by (auto simp: observe_text_step [of env s] Let_def split: prod.splits)
    qed
  }
qed

text \<open>More text: the reading goes on where it was.\<close>

lemma observe_text_append:
  "observe_text env (s @ d) ob =
    (case observe_text env s ob of
       (n, ob') \<Rightarrow>
         if terminated ob' then (n, ob')
         else case observe_text env (drop n s @ d) ob' of (m, ob'') \<Rightarrow> (n + m, ob''))"
  if "\<not> terminated ob"
  using that
proof (induction "length s" arbitrary: s ob rule: less_induct)
  case less
  show ?case
  proof (cases "nextSSEBoundary s")
    case None
    then have "observe_text env s ob = (0, ob)" by (simp add: observe_text_step [of env s])
    with less.prems show ?thesis by simp
  next
    case (Some x)
    obtain i w where x: "x = (i, w)" by fastforce
    note b = boundary_bound [OF Some [unfolded x]]
    let ?ob = "consume env (take (i + w) s) ob"
    have l: "length (drop (i + w) s) < length s" using b by simp
    have a: "nextSSEBoundary (s @ d) = Some (i, w)" using Some x boundary_append by blast
    have t: "take (i + w) (s @ d) = take (i + w) s" "drop (i + w) (s @ d) = drop (i + w) s @ d"
      "i + w - length s = 0" using b by simp_all
    show ?thesis
    proof (cases "terminated ?ob")
      case True
      then show ?thesis by (simp add: observe_text_step [of env "s @ d"] observe_text_step [of env s] a Some x t Let_def)
    next
      case False
      obtain n1 o1 where p1: "observe_text env (drop (i + w) s) ?ob = (n1, o1)" by fastforce
      obtain n2 o2 where p2: "observe_text env (drop n1 (drop (i + w) s) @ d) o1 = (n2, o2)" by fastforce
      have "drop (i + w + n1) s = drop n1 (drop (i + w) s)" by (simp add: ac_simps)
      with less.hyps [OF l False] False p1 p2 show ?thesis
        by (simp add: observe_text_step [of env "s @ d"] observe_text_step [of env s] a Some x t Let_def ac_simps
          del: drop_drop)
    qed
  qed
qed

subsection \<open>The loop of the observer\<close>

text \<open>The state after a text: what is left of it in the buffer, all searched but the last three bytes.\<close>

definition held :: "string \<Rightarrow> usage_observer \<Rightarrow> usage_observer" where
  "held left ob = (if terminated ob then at_mark [] 0 ob else at_mark left (length left - 3) ob)"

lemma fragment_loop_text:
  assumes "nextSSEBoundary (take m left) = None" "k \<le> m - 3" "m \<le> length left" "length left \<le> max_event_bytes"
    "\<not> terminated ob"
  shows "fragment_loop env left c (at_mark b k ob) =
    (case observe_text env left ob of (n, ob') \<Rightarrow> (held (drop n left) ob', c + n, False))"
  using assms
proof (induction "length left" arbitrary: left c b k m ob rule: less_induct)
  case less
  have skip: "nextSSEBoundary (drop k left) = map_option (\<lambda>(i, w). (i - k, w)) (nextSSEBoundary left) \<and>
      (case nextSSEBoundary left of None \<Rightarrow> True | Some (i, w) \<Rightarrow> k \<le> i)"
    using boundary_skip [OF less.prems(1), of k "drop m left"] less.prems(2,3) by simp
  show ?case
  proof (cases "nextSSEBoundary left")
    case None
    with skip less.prems(4,5) show ?thesis
      by (simp add: fragment_loop.simps [of env left c] observe_text_step [of env left] held_def at_mark_def)
  next
    case (Some x)
    obtain i w where x: "x = (i, w)" by fastforce
    note bd = boundary_bound [OF Some [unfolded x]]
    have d: "nextSSEBoundary (drop k left) = Some (i - k, w)" "k + (i - k) + w = i + w"
      using skip Some x by auto
    let ?ob = "consume env (take (i + w) left) ob"
    have s: "(consume env (take (i + w) left) (at_mark b k ob))\<lparr>ob_scan := 0\<rparr> = at_mark b 0 ?ob"
      unfolding consume_mark by (simp add: at_mark_def)
    have sz: "\<not> max_event_bytes < i + w" using bd(1) less.prems(4) by simp
    have step: "fragment_loop env left c (at_mark b k ob) =
        (if terminated ?ob then ((at_mark b 0 ?ob)\<lparr>ob_buffer := []\<rparr>, c + (i + w), False)
         else fragment_loop env (drop (i + w) left) (c + (i + w)) (at_mark b 0 ?ob))"
      using d sz by (simp add: fragment_loop.simps [of env left c] s Let_def)
    show ?thesis
    proof (cases "terminated ?ob")
      case True
      then show ?thesis
        by (simp add: step observe_text_step [of env left] Some x Let_def held_def) (simp add: at_mark_def)
    next
      case False
      have l: "length (drop (i + w) left) < length left" using bd by simp
      have e: "nextSSEBoundary (take 0 (drop (i + w) left)) = None"
        by (rule boundary_NoneI) (auto dest: blank_width)
      have "fragment_loop env (drop (i + w) left) (c + (i + w)) (at_mark b 0 ?ob) =
          (case observe_text env (drop (i + w) left) ?ob of (n, ob') \<Rightarrow> (held (drop n (drop (i + w) left)) ob', c + (i + w) + n, False))"
        by (rule less.hyps [OF l e]) (use less.prems(4) False in auto)
      with False show ?thesis
        by (simp add: step observe_text_step [of env left] Some x Let_def add.commute add.left_commute split: prod.splits)
    qed
  qed
qed

text \<open>The observer after the text \<open>s\<close>, fed in whatever pieces.\<close>

definition fed :: "stream_env \<Rightarrow> usage_observer \<Rightarrow> string \<Rightarrow> usage_observer \<Rightarrow> bool" where
  "fed env ob0 s ob =
    (\<exists>n ob'. observe_text env s ob0 = (n, ob') \<and> \<not> terminated ob' \<and> ob = at_mark (drop n s) (length (drop n s) - 3) ob')"

lemma writeFragment_fed:
  assumes "fed env ob0 s ob" "length s + length d \<le> max_event_bytes" "\<not> terminated ob0" "d \<noteq> []"
    "observe_text env (s @ d) ob0 = (n, ob')"
  shows "writeFragment env d ob =
      (if terminated ob' then (n - length s, False, at_mark [] 0 ob')
       else (length d, False, at_mark (drop n (s @ d)) (length (drop n (s @ d)) - 3) ob'))"
    and "terminated ob' \<Longrightarrow> length s < n \<and> n \<le> length s + length d"
    and "\<not> terminated ob' \<Longrightarrow> fed env ob0 (s @ d) (at_mark (drop n (s @ d)) (length (drop n (s @ d)) - 3) ob')"
proof -
  obtain m ob1 where o: "observe_text env s ob0 = (m, ob1)" "\<not> terminated ob1" "ob = at_mark (drop m s) (length (drop m s) - 3) ob1"
    using assms(1) by (auto simp: fed_def)
  let ?left = "drop m s"
  have nb: "nextSSEBoundary ?left = None" "m \<le> length s"
    using observe_text_rest [of env s ob0] o(1,2) by auto
  obtain q ob2 where q: "observe_text env (?left @ d) ob1 = (q, ob2)" by fastforce
  have ap: "n = m + q" "ob' = ob2"
    using observe_text_append [OF assms(3), of env s d] assms(5) o(1,2) q by auto
  have "fragment_loop env (?left @ d) 0 (at_mark ?left (length ?left - 3) ob1) =
      (case observe_text env (?left @ d) ob1 of (n, ob') \<Rightarrow> (held (drop n (?left @ d)) ob', 0 + n, False))"
    by (rule fragment_loop_text [where m = "length ?left"]) (use nb o(2) assms(2) in auto)
  then have f: "fragment_loop env (?left @ d) 0 ob = (held (drop q (?left @ d)) ob2, q, False)"
    by (simp add: q o(3))
  have dr: "drop q (?left @ d) = drop n (s @ d)" using ap nb(2) by (simp add: add.commute)
  have tm: "terminated (held (drop q (?left @ d)) ob2) = terminated ob2" by (simp add: held_def)
  have len: "length (ob_buffer ob) = length s - m" "ob_buffer ob = ?left" by (simp_all add: o(3))
  have sub: "q - (length s - m) = n - length s" using ap nb(2) by simp
  show "writeFragment env d ob =
      (if terminated ob' then (n - length s, False, at_mark [] 0 ob')
       else (length d, False, at_mark (drop n (s @ d)) (length (drop n (s @ d)) - 3) ob'))"
  proof -
    obtain R where R: "R = drop n (s @ d)" by blast
    have f': "fragment_loop env (ob_buffer ob @ d) 0 ob = (held R ob2, q, False)" using f dr by (simp only: len(2) R)
    have "terminated (held R ob2) = terminated ob2" by (simp add: held_def)
    then have "writeFragment env d ob =
        (if terminated ob' then (n - length s, False, at_mark [] 0 ob') else (length d, False, at_mark R (length R - 3) ob'))"
      by (simp add: writeFragment_def f' len(1) sub ap(2) held_def)
    then show ?thesis unfolding R .
  qed
  show "length s < n \<and> n \<le> length s + length d" if t: "terminated ob'"
  proof -
    have "n \<le> length (s @ d)" using observe_text_rest(2) [of env "s @ d" ob0] assms(5) by simp
    moreover have "length s < n"
    proof (rule ccontr)
      assume "\<not> length s < n"
      then have le: "q \<le> length ?left" using ap(1) by simp
      show False
      proof (cases "nextSSEBoundary (?left @ d)")
        case None
        with q o(2) t ap(2) show False by (simp add: observe_text_step [of env "?left @ d"])
      next
        case (Some x)
        obtain i w where x: "x = (i, w)" by fastforce
        from q Some x have "i + w \<le> q"
          by (auto simp: observe_text_step [of env "?left @ d"] Let_def split: if_splits prod.splits)
        with le boundary_SomeD(1) [OF Some [unfolded x]] blank_inside boundary_NoneD [OF nb(1)] show False
          by (meson le_trans)
      qed
    qed
    ultimately show ?thesis by simp
  qed
  show "fed env ob0 (s @ d) (at_mark (drop n (s @ d)) (length (drop n (s @ d)) - 3) ob')" if "\<not> terminated ob'"
    using that assms(5) by (auto simp: fed_def)
qed

text \<open>A write does what one look at the whole text so far does.\<close>

lemma Write_fed:
  assumes "fed env ob0 s ob" "length s + length d \<le> max_event_bytes" "\<not> terminated ob0"
    "observe_text env (s @ d) ob0 = (n, ob')"
  shows "Write env d ob =
      (if terminated ob' then (n - length s, False, at_mark [] 0 ob')
       else (length d, False, at_mark (drop n (s @ d)) (length (drop n (s @ d)) - 3) ob'))"
  using assms
proof (induction "length d" arbitrary: s d ob n ob' rule: less_induct)
  case less
  show ?case
  proof (cases "d = []")
    case True
    with less.prems show ?thesis by (auto simp: Write.simps [of env "[]"] fed_def)
  next
    case False
    let ?k = "min (length d) fragment_bytes"
    let ?d = "take ?k d" and ?r = "drop ?k d"
    have k: "0 < ?k" using False by (simp add: fragment_bytes_def)
    have d: "?d \<noteq> []" "d = ?d @ ?r" using k by auto
    obtain m ob1 where o: "observe_text env (s @ ?d) ob0 = (m, ob1)" by fastforce
    have w: "length s + length ?d \<le> max_event_bytes" using less.prems(2) by simp
    note f = writeFragment_fed [OF less.prems(1) w less.prems(3) d(1) o]
    have ap: "observe_text env (s @ d) ob0 =
        (if terminated ob1 then (m, ob1)
         else case observe_text env (drop m (s @ ?d) @ ?r) ob1 of (q, ob2) \<Rightarrow> (m + q, ob2))"
      using observe_text_append [OF less.prems(3), of env "s @ ?d" ?r] o by simp
    show ?thesis
    proof (cases "terminated ob1")
      case True
      with ap less.prems(4) have "n = m" "ob' = ob1" by auto
      with True f(1,2) False show ?thesis by (simp add: Write.simps [of env d] Let_def)
    next
      case nt: False
      have r: "length ?r < length d" using k by simp
      have b: "length (s @ ?d) + length ?r \<le> max_event_bytes" using less.prems(2) by simp
      have rest: "observe_text env ((s @ ?d) @ ?r) ob0 = (n, ob')" using less.prems(4) by simp
      from less.hyps [OF r f(3) [OF nt] b less.prems(3) rest]
      have W: "Write env ?r (at_mark (drop m (s @ ?d)) (length (drop m (s @ ?d)) - 3) ob1) =
        (if terminated ob' then (n - length (s @ ?d), False, at_mark [] 0 ob')
         else (length ?r, False, at_mark (drop n (s @ d)) (length (drop n (s @ d)) - 3) ob'))" by simp
      have le: "length (s @ ?d) \<le> n" if "terminated ob'"
      proof (cases "?r = []")
        case True
        with rest o have "ob' = ob1" by simp
        with that nt show ?thesis by simp
      next
        case False
        show ?thesis using writeFragment_fed(2) [OF f(3) [OF nt] b less.prems(3) False rest that] by simp
      qed
      show ?thesis
      proof -
        obtain k where kk: "k = ?k" by blast
        obtain X where X: "X = at_mark (drop m (s @ ?d)) (length (drop m (s @ ?d)) - 3) ob1" by blast
        have len: "length ?d = k" "length ?r = length d - k" "k \<le> length d" by (simp_all add: kk)
        have l0: "length (take k d) = k" using len(3) by simp
        have lr: "length (drop k d) = length d - k" by simp
        have fr: "writeFragment env (take k d) ob = (k, False, X)"
          using f(1) nt by (simp only: X if_False kk [symmetric] l0)
        have tX: "\<not> terminated X" using nt by (simp add: X)
        have "Write env d ob = (case writeFragment env (take k d) ob of
            (written, large, ob) \<Rightarrow>
              if large \<or> written < k \<or> terminated ob then (written, large, ob)
              else case Write env (drop k d) ob of (rest, large, ob) \<Rightarrow> (written + rest, large, ob))"
          using False by (simp only: Write.simps [of env d] if_False Let_def kk)
        then have "Write env d ob = (case Write env (drop k d) X of (rest, large, ob) \<Rightarrow> (k + rest, large, ob))"
          using tX by (simp add: fr)
        moreover have "Write env (drop k d) X = (if terminated ob' then (n - (length s + k), False, at_mark [] 0 ob')
            else (length d - k, False, at_mark (drop n (s @ d)) (length (drop n (s @ d)) - 3) ob'))"
          using W unfolding X by (simp only: kk [symmetric] length_append l0 lr)
        moreover have "length s + k \<le> n" if "terminated ob'" using le [OF that] by (simp only: length_append l0 kk [symmetric])
        ultimately show ?thesis using len(3) by simp
      qed
    qed
  qed
qed

subsection \<open>The copy\<close>

lemma forward_loop_fed:
  assumes "fed env ob0 s ob" "length s + length (concat ds) \<le> max_event_bytes" "\<not> terminated ob0"
    "observe_text env (s @ concat ds) ob0 = (n, ob')"
  shows "forward_loop env (map (\<lambda>d. (d, False)) ds) failure ob (out, None) =
      (if terminated ob' then (None, at_mark [] 0 ob', out @ take (n - length s) (concat ds), None)
       else (end_error failure, at_mark (drop n (s @ concat ds)) (length (drop n (s @ concat ds)) - 3) ob', out @ concat ds, None))
    \<and> (terminated ob' \<longrightarrow> length s \<le> n)"
  using assms
proof (induction ds arbitrary: s ob out n ob')
  case Nil
  then show ?case by (auto simp: fed_def)
next
  case (Cons d ds)
  obtain m ob1 where o: "observe_text env (s @ d) ob0 = (m, ob1)" by fastforce
  have b: "length s + length d \<le> max_event_bytes" using Cons.prems(2) by simp
  note W = Write_fed [OF Cons.prems(1) b Cons.prems(3) o]
  have le: "m \<le> length s + length d" using observe_text_rest(2) [of env "s @ d" ob0] o by simp
  show ?case
  proof (cases "terminated ob1")
    case True
    have "n = m" "ob' = ob1"
      using observe_text_append [OF Cons.prems(3), of env "s @ d" "concat ds"] o True Cons.prems(4) by auto
    moreover have "length s \<le> m"
    proof (cases "d = []")
      case True
      with o Cons.prems(1) \<open>terminated ob1\<close> show ?thesis by (auto simp: fed_def)
    next
      case False
      from writeFragment_fed(2) [OF Cons.prems(1) b Cons.prems(3) False o True] show ?thesis by simp
    qed
    moreover have "take (m - length s) (d @ concat ds) = take (m - length s) d" using le by simp
    ultimately show ?thesis using True W by (simp add: client_write_def)
  next
    case False
    have f: "fed env ob0 (s @ d) (at_mark (drop m (s @ d)) (length (drop m (s @ d)) - 3) ob1)"
      using o False by (auto simp: fed_def)
    have b': "length (s @ d) + length (concat ds) \<le> max_event_bytes" using Cons.prems(2) by simp
    have r: "observe_text env ((s @ d) @ concat ds) ob0 = (n, ob')" using Cons.prems(4) by simp
    obtain X where X: "X = at_mark (drop m (s @ d)) (length (drop m (s @ d)) - 3) ob1" by blast
    have tX: "\<not> terminated X" using False by (simp add: X)
    have "Write env d ob = (length d, False, X)" using W False by (simp only: X if_False)
    then have step: "forward_loop env (map (\<lambda>d. (d, False)) (d # ds)) failure ob (out, None) =
        forward_loop env (map (\<lambda>d. (d, False)) ds) failure X (out @ d, None)"
      using tX by (simp add: client_write_def)
    note ih = Cons.IH [OF f b' Cons.prems(3) r, of "out @ d", folded X]
    have "out @ d @ take (n - length (s @ d)) (concat ds) = out @ take (n - length s) (d @ concat ds)"
      if "length (s @ d) \<le> n" using that by simp
    with ih show ?thesis unfolding step by auto
  qed
qed

lemma finish_forward_mark: "finish_forward env e gone err (observer_Finish (at_mark b k ob)) out = finish_forward env e gone err ob out"
proof -
  let ?f = "observer_Finish (at_mark b k ob)"
  have "ob_usage ?f = ob_usage ob" "ob_reported ?f = ob_reported ob" "ob_error ?f = ob_error ob"
    "ob_normal ?f = ob_normal ob" "ParseError ?f = ParseError ob" "forward_cause err ?f = forward_cause err ob"
    by (simp_all add: observer_Finish_def at_mark_def ParseError_def forward_cause_def cong: option.case_cong)
  then show ?thesis unfolding finish_forward_def by (simp only:)
qed

lemma finish_forward_end: "finish_forward env e gone err (observer_Finish ob) out = finish_forward env e gone err ob out"
proof -
  have "at_mark (ob_buffer ob) (ob_scan ob) ob = ob" by (simp add: at_mark_def)
  then show ?thesis using finish_forward_mark [of env e gone err "ob_buffer ob" "ob_scan ob" ob out] by simp
qed

lemma fed_start: "fed env (newStreamUsageObserver w p) [] (newStreamUsageObserver w p)"
proof -
  have "nextSSEBoundary [] = None" by (rule boundary_NoneI) (auto dest: blank_width)
  then show ?thesis
    by (simp add: fed_def observe_text_step [of env "[]"] newStreamUsageObserver_def at_mark_def terminated_def)
qed



end
