(* ===== verification/Collapse.thy ===== *)
theory Collapse
  imports Transcode
begin

text \<open>
  A streamed answer read for a client that asked for one document: internal/core/protocol/collapse.go.
  The events of the stream are accumulated and the response they amount to is encoded. The builders of
  texts by index are association lists. \<open>stream_head\<close> is internal/core/protocol/stream_head.go: the
  bytes of a stream up to the first sign of an answer, or the rejection it starts with.
\<close>

subsection \<open>The accumulator\<close>

record collapse_acc =
  ca_response :: bridge_response
  ca_tools :: "(string \<times> nat) list"
  ca_reason :: bool
  ca_text :: string
  ca_arguments :: "(nat \<times> string) list"
  ca_reported :: bool
  ca_reasonText :: "(nat \<times> string) list"
  ca_reasonSignatures :: "(nat \<times> string) list"

text \<open>\<open>ca_reason\<close>: whether the last reasoning block takes further deltas.\<close>

definition new_acc :: "int \<Rightarrow> string \<Rightarrow> collapse_acc" where
  "new_acc now model =
    \<lparr>ca_response = \<lparr>br_ID = [], br_Model = model, br_Text = [], br_Reasoning = [], br_Tools = [], br_Stop = [],
       br_Error = [], br_Usage = no_usage, br_Created = now\<rparr>,
     ca_tools = [], ca_reason = False, ca_text = [], ca_arguments = [], ca_reported = False, ca_reasonText = [],
     ca_reasonSignatures = []\<rparr>"

definition built :: "(nat \<times> string) list \<Rightarrow> nat \<Rightarrow> string" where
  "built bs i = (case map_of bs i of None \<Rightarrow> [] | Some s \<Rightarrow> s)"

definition build :: "nat \<Rightarrow> string \<Rightarrow> (nat \<times> string) list \<Rightarrow> (nat \<times> string) list" where
  "build i s bs = AList.update i (built bs i @ s) bs"

definition appendReasoningDelta :: "nat \<Rightarrow> string \<Rightarrow> (nat \<times> string) list \<Rightarrow> (nat \<times> string) list" where
  "appendReasoningDelta i s bs = (if s = [] then bs else build i s bs)"

definition set_blocks ::
    "(bridge_response \<Rightarrow> bridge_response) \<Rightarrow> collapse_acc \<Rightarrow> collapse_acc" where
  "set_blocks f a = a\<lparr>ca_response := f (ca_response a)\<rparr>"

definition reasoningBlock :: "collapse_acc \<Rightarrow> collapse_acc" where
  "reasoningBlock a =
    (if ca_reason a then a
     else (set_blocks (\<lambda>r. r\<lparr>br_Reasoning := br_Reasoning r @ [block_of OutJson ''reasoning'']\<rparr>) a)\<lparr>ca_reason := True\<rparr>)"

definition last_reason :: "collapse_acc \<Rightarrow> nat" where
  "last_reason a = length (br_Reasoning (ca_response a)) - 1"

definition add_encrypted :: "string \<Rightarrow> collapse_acc \<Rightarrow> collapse_acc" where
  "add_encrypted s a =
    set_blocks (\<lambda>r. r\<lparr>br_Reasoning := (let xs = br_Reasoning r; i = length xs - 1
      in xs[i := (xs ! i)\<lparr>bk_Encrypted := bk_Encrypted (xs ! i) @ s\<rparr>])\<rparr>) a"

definition toolBlock :: "string \<Rightarrow> string \<Rightarrow> string \<Rightarrow> collapse_acc \<Rightarrow> collapse_acc" where
  "toolBlock key ident name a =
    (case map_of (ca_tools a) key of
       Some i \<Rightarrow>
         set_blocks (\<lambda>r. r\<lparr>br_Tools := (let b = br_Tools r ! i
           in (br_Tools r)[i := b\<lparr>bk_ID := (if bk_ID b = [] then ident else bk_ID b),
                bk_Name := (if bk_Name b = [] then name else bk_Name b)\<rparr>])\<rparr>) a
     | None \<Rightarrow>
         (set_blocks (\<lambda>r. r\<lparr>br_Tools := br_Tools r @ [(block_of OutJson ''tool_call'')\<lparr>bk_ID := ident, bk_Name := name\<rparr>]\<rparr>) a)
           \<lparr>ca_tools := AList.update key (length (br_Tools (ca_response a))) (ca_tools a)\<rparr>)"

definition collapse_reasoning :: "stream_event \<Rightarrow> collapse_acc \<Rightarrow> collapse_acc" where
  "collapse_reasoning ev a =
    (if ev_Text ev = [] \<and> ev_Encrypted ev = [] \<and> ev_Signature ev = [] then a
     else
       let a = reasoningBlock a;
           a = a\<lparr>ca_reasonText := appendReasoningDelta (last_reason a) (ev_Text ev) (ca_reasonText a)\<rparr>
       in if ev_Encrypted ev = [] then a
          else (add_encrypted (ev_Encrypted ev) (reasoningBlock (a\<lparr>ca_reason := False\<rparr>)))\<lparr>ca_reason := False\<rparr>)"

definition collapse_tool_delta :: "stream_event \<Rightarrow> collapse_acc \<Rightarrow> collapse_acc" where
  "collapse_tool_delta ev a =
    (let a = toolBlock (ev_ToolKey ev) (ev_ToolID ev) (ev_ToolName ev) a
     in a\<lparr>ca_arguments := build (the (map_of (ca_tools a) (ev_ToolKey ev))) (ev_Text ev) (ca_arguments a)\<rparr>)"

definition apply_event :: "stream_event \<Rightarrow> collapse_acc \<Rightarrow> collapse_acc" where
  "apply_event ev a =
    (let kind = ev_Kind ev
     in if kind = ''start'' then
          set_blocks (\<lambda>r. r\<lparr>br_ID := (if ev_ResponseID ev \<noteq> [] then ev_ResponseID ev else br_ID r),
            br_Model := (if ev_Model ev \<noteq> [] then ev_Model ev else br_Model r)\<rparr>) a
        else if kind = ''text'' then a\<lparr>ca_text := ca_text a @ ev_Text ev\<rparr>
        else if kind = ''reasoning'' then collapse_reasoning ev a
        else if kind = ''reasoning_signature'' then
          (let a = reasoningBlock a
           in a\<lparr>ca_reasonSignatures := appendReasoningDelta (last_reason a) (ev_Signature ev) (ca_reasonSignatures a)\<rparr>)
        else if kind = ''tool_start'' then toolBlock (ev_ToolKey ev) (ev_ToolID ev) (ev_ToolName ev) a
        else if kind = ''tool_delta'' then collapse_tool_delta ev a
        else if kind = ''usage'' then
          (case ev_Usage ev of
             None \<Rightarrow> a
           | Some u \<Rightarrow> (set_blocks (\<lambda>r. r\<lparr>br_Usage := mergeBridgeUsage (br_Usage r) u\<rparr>) a)\<lparr>ca_reported := True\<rparr>)
        else if kind = ''finish'' then
          set_blocks (\<lambda>r. r\<lparr>br_Stop := ev_Stop ev, br_Usage := (br_Usage r)\<lparr>us_FinishReason := ev_Stop ev\<rparr>\<rparr>) a
        else a)"

subsection \<open>The stream\<close>

datatype collapse_failure = CollapseEvent string | CollapseParse bridge_error

record 'w collapsing =
  cs_parser :: stream_parser
  cs_rewriter :: 'w
  cs_acc :: collapse_acc
  cs_terminated :: bool
  cs_failed :: "collapse_failure option"

definition firstNonEmpty :: "string list \<Rightarrow> string" where
  "firstNonEmpty vs = (case filter (\<lambda>v. v \<noteq> []) vs of [] \<Rightarrow> [] | v # _ \<Rightarrow> v)"

fun collapse_events :: "stream_event list \<Rightarrow> 'w collapsing \<Rightarrow> stream_error option \<times> 'w collapsing" where
  "collapse_events [] s = (None, s)"
| "collapse_events (ev # evs) s =
    (if ev_Kind ev = ''done'' then (Some NormalTermination, s\<lparr>cs_terminated := True\<rparr>)
     else if ev_Kind ev = ''error'' then
       (Some UpstreamFailure,
        s\<lparr>cs_failed := Some (CollapseEvent (firstNonEmpty [ev_Error ev, ''upstream stream failed'']))\<rparr>)
     else collapse_events evs (s\<lparr>cs_acc := apply_event ev (cs_acc s)\<rparr>))"

definition collapse_record :: "stream_env \<Rightarrow> 'w rewriter \<Rightarrow> 'w collapsing sse_handler" where
  "collapse_record env rw name data s =
    (case Parse (se_json env) (se_print env) rw name data (cs_parser s, cs_rewriter s) of
       (Inl err, p, w) \<Rightarrow>
         (Some UpstreamFailure, s\<lparr>cs_parser := p, cs_rewriter := w, cs_failed := Some (CollapseParse err)\<rparr>)
     | (Inr evs, p, w) \<Rightarrow> collapse_events evs (s\<lparr>cs_parser := p, cs_rewriter := w\<rparr>))"

text \<open>The builders are written back to their blocks.\<close>

fun write_back :: "(nat \<times> string) list \<Rightarrow> (string \<Rightarrow> 'b \<Rightarrow> 'b) \<Rightarrow> 'b list \<Rightarrow> 'b list" where
  "write_back [] f xs = xs"
| "write_back ((i, s) # bs) f xs = write_back bs f (xs[i := f s (xs ! i)])"

definition finished_response :: "collapse_acc \<Rightarrow> bridge_response" where
  "finished_response a =
    (let r = ca_response a
     in r\<lparr>br_Text := ca_text a,
          br_Tools := write_back (ca_arguments a) (\<lambda>s b. b\<lparr>bk_ArgumentsJSON := s\<rparr>) (br_Tools r),
          br_Reasoning := write_back (ca_reasonSignatures a) (\<lambda>s b. b\<lparr>bk_Signature := s\<rparr>)
            (write_back (ca_reasonText a) (\<lambda>s b. b\<lparr>bk_Text := s\<rparr>) (br_Reasoning r))\<rparr>)"

datatype collapse_error = StreamBroke stream_error | StreamFailed collapse_failure | NotMarshalled | BadTarget protocol

type_synonym collapsed = "(collapse_error + string) \<times> token_usage \<times> bool"

definition marshalCollapsedResponse :: "stream_env \<Rightarrow> json_object \<Rightarrow> token_usage \<Rightarrow> bool \<Rightarrow> collapsed" where
  "marshalCollapsedResponse env doc u reported =
    ((case jc_marshal (se_json env) (JObj (if reported then doc else filter (\<lambda>m. fst m \<noteq> ''usage'') doc)) of
        None \<Rightarrow> Inl NotMarshalled | Some s \<Rightarrow> Inr s), u, reported)"

definition terminal_document :: "stream_env \<Rightarrow> protocol \<Rightarrow> collapse_acc \<Rightarrow> json_object \<Rightarrow> json list \<Rightarrow> nat \<Rightarrow> json_object" where
  "terminal_document env p a terminal output k =
    (let r = (ca_response a)\<lparr>br_Tools := [], br_Reasoning := []\<rparr>;
         doc = jset ''output'' (JList output) (fst (encodeBridgeResponse (se_json env) (se_draws env) p r k));
         ident = StringAt terminal [''id'']
     in if ident \<noteq> [] then jset ''id'' (JStr ident) doc else doc)"

definition projected_id :: "stream_env \<Rightarrow> bridge_response \<Rightarrow> nat \<Rightarrow> bridge_response \<times> nat" where
  "projected_id env r k =
    (let (ident, k) = (if br_ID r = [] then RandomID (se_draws env) ''resp'' k else (br_ID r, k))
     in (r\<lparr>br_ID := asPrefix ident ''chatcmpl''\<rparr>, k))"

definition collapse_result :: "stream_env \<Rightarrow> protocol \<Rightarrow> protocol \<Rightarrow> nat \<Rightarrow> 'w collapsing \<Rightarrow> collapsed" where
  "collapse_result env p target k s =
    (let a = cs_acc s; u = br_Usage (ca_response a); terminal = pa_terminal (cs_parser s)
     in case (terminal, case terminal of None \<Rightarrow> JNull | Some t \<Rightarrow> jget t ''output'') of
          (Some t, JList output) \<Rightarrow>
            marshalCollapsedResponse env (terminal_document env p a t output k) u (ca_reported a)
        | _ \<Rightarrow>
            let r = finished_response a
            in if target \<noteq> p \<and> br_Stop r = ''error'' then (Inl (StreamFailed (CollapseEvent ''upstream response failed'')), u, ca_reported a)
               else
                 let (r, k) = (if target \<noteq> p then projected_id env r k else (r, k));
                     doc = fst (encodeBridgeResponse (se_json env) (se_draws env) target r k)
                 in if target = Anthropic \<and> target \<noteq> p \<and> \<not> ca_reported a
                    then ((case jc_marshal (se_json env) (JObj doc) of None \<Rightarrow> Inl NotMarshalled | Some str \<Rightarrow> Inr str), u, False)
                    else marshalCollapsedResponse env doc u (ca_reported a))"

definition collapseStream ::
    "stream_env \<Rightarrow> 'w rewriter \<Rightarrow> 'w \<Rightarrow> protocol \<Rightarrow> protocol \<Rightarrow> int \<Rightarrow> string \<Rightarrow> nat \<Rightarrow> string \<Rightarrow> body_end \<Rightarrow> collapsed" where
  "collapseStream env rw w p target now model k body failure =
    (let s = \<lparr>cs_parser = new_parser True p (p = Responses), cs_rewriter = w, cs_acc = new_acc now model,
              cs_terminated = False, cs_failed = None\<rparr>
     in case readSSE (collapse_record env rw) body failure s of
          (err, s) \<Rightarrow>
            let a = cs_acc s; u = br_Usage (ca_response a)
            in case err of
                 Some x \<Rightarrow>
                   if x = NormalTermination then collapse_result env p target k s
                   else (Inl (case cs_failed s of Some f \<Rightarrow> StreamFailed f | None \<Rightarrow> StreamBroke x), u, ca_reported a)
               | None \<Rightarrow>
                   (Inl (case cs_failed s of Some f \<Rightarrow> StreamFailed f | None \<Rightarrow> StreamBroke UnexpectedEOF), u, ca_reported a))"

definition CollapseStreamWithUsage ::
    "stream_env \<Rightarrow> protocol \<Rightarrow> int \<Rightarrow> string \<Rightarrow> nat \<Rightarrow> string \<Rightarrow> body_end \<Rightarrow> collapsed" where
  "CollapseStreamWithUsage env p = collapseStream env no_rewrite () p p"

definition CollapseChatStreamAs ::
    "stream_env \<Rightarrow> 'w rewriter \<Rightarrow> 'w \<Rightarrow> protocol \<Rightarrow> int \<Rightarrow> string \<Rightarrow> nat \<Rightarrow> string \<Rightarrow> body_end \<Rightarrow> collapsed" where
  "CollapseChatStreamAs env rw w target now model k body failure =
    (if target = Chat \<or> target = Anthropic \<or> target = Responses
     then collapseStream env rw w Chat target now model k body failure
     else (Inl (BadTarget target), no_usage, False))"

subsection \<open>The head of a stream\<close>

record stream_head_error =
  sh_Status :: int
  sh_Body :: json

datatype head_result = HeadReady string | HeadRejected stream_head_error | HeadFailed bridge_error | HeadTooLong | HeadEnded

definition head_kind :: "json_object \<Rightarrow> string" where
  "head_kind raw =
    FirstString [StringAt raw [''error'', ''type''], StringAt raw [''error'', ''code''], StringAt raw [''response'', ''error'', ''code'']]"

definition kind_status :: "string \<Rightarrow> int" where
  "kind_status kind =
    (if kind = ''rate_limit_error'' \<or> kind = ''rate_limit_exceeded'' then 429
     else if kind = ''authentication_error'' \<or> kind = ''invalid_api_key'' then 401
     else if kind \<in> {''overloaded_error'', ''server_error'', ''upstream_error''} then 502
     else 400)"

text \<open>An explicit status is used when it is an HTTP error status; the later of the two places wins.\<close>

definition explicit_status :: "json \<Rightarrow> int \<Rightarrow> int" where
  "explicit_status v status =
    (case v of
       JNum (Fin q) \<Rightarrow> if 400 \<le> q \<and> q \<le> 599 \<and> of_int (floor q) = q then floor q else status
     | _ \<Rightarrow> status)"

definition head_error :: "json_object \<Rightarrow> stream_event \<Rightarrow> stream_head_error" where
  "head_error raw ev =
    \<lparr>sh_Status = explicit_status (jget raw ''status'')
        (explicit_status (jget (MapAt raw [''error'']) ''status'') (kind_status (head_kind raw))),
     sh_Body = (case jget raw ''error'' of
        JObj _ \<Rightarrow> JObj raw
      | _ \<Rightarrow> JObj [(''error'', JObj [(''message'', JStr (ev_Error ev)), (''type'', JStr (ev_ErrorType ev))])])\<rparr>"

definition ready_event :: "stream_event \<Rightarrow> bool" where
  "ready_event ev =
    (let kind = ev_Kind ev
     in kind = ''done'' \<or> (kind = ''text'' \<or> kind = ''reasoning'') \<and> ev_Text ev \<noteq> [] \<or>
        kind = ''tool_start'' \<and> (ev_ToolName ev \<noteq> [] \<or> ev_ToolID ev \<noteq> []) \<or>
        kind = ''tool_delta'' \<and> ev_Text ev \<noteq> [])"

text \<open>The first error among the events rejects; otherwise the record may be the sign of an answer.\<close>

definition head_record :: "stream_env \<Rightarrow> string \<Rightarrow> string \<Rightarrow> stream_parser \<Rightarrow> (head_result + bool) \<times> stream_parser" where
  "head_record env name data p =
    (case Parse (se_json env) (se_print env) no_rewrite name data (p, ()) of
       (Inl err, p, _) \<Rightarrow> (Inl (HeadFailed err), p)
     | (Inr evs, p, _) \<Rightarrow>
         (case List.find (\<lambda>ev. ev_Kind ev = ''error'') evs of
            Some ev \<Rightarrow>
              (Inl (HeadRejected (head_error
                 (case unmarshal_object (se_json env) data of None \<Rightarrow> [] | Some m \<Rightarrow> m) ev)), p)
          | None \<Rightarrow> (Inr (list_ex ready_event evs), p)))"

text \<open>\<open>ReadStreamHead\<close> over the lines of the body, each with its newline but perhaps the last.\<close>

definition head_field :: "string \<Rightarrow> sse_record \<Rightarrow> sse_record" where
  "head_field line r =
    (let r = (if has_prefix line ''event:'' then r\<lparr>sr_event := trim_space (trim_prefix line ''event:'')\<rparr> else r)
     in if has_prefix line ''data:'' then r\<lparr>sr_data := sr_data r @ [trim_space (trim_prefix line ''data:'')]\<rparr> else r)"

definition head_line :: "string \<Rightarrow> string" where
  "head_line l =
    (let l = (if has_suffix l [CHR 0x0A] then butlast l else l)
     in if has_suffix l [CHR 0x0D] then butlast l else l)"

fun head_loop :: "stream_env \<Rightarrow> string list \<Rightarrow> string \<Rightarrow> sse_record \<Rightarrow> stream_parser \<Rightarrow> head_result" where
  "head_loop env [] prefix r p = HeadEnded"
| "head_loop env (l # ls) prefix r p =
    (if max_event_bytes < length prefix + length l then HeadTooLong
     else if \<not> has_suffix l [CHR 0x0A] then HeadEnded
     else
       let text = head_line l; prefix = prefix @ l
       in if text \<noteq> [] then head_loop env ls prefix (head_field text r) p
          else if sr_data r = [] then head_loop env ls prefix no_record p
          else case head_record env (sr_event r) (join_lines (sr_data r)) p of
            (Inl failed, p) \<Rightarrow> failed
          | (Inr True, p) \<Rightarrow> HeadReady prefix
          | (Inr False, p) \<Rightarrow> head_loop env ls prefix no_record p)"

fun whole_lines :: "string \<Rightarrow> string \<Rightarrow> string list" where
  "whole_lines [] line = (if line = [] then [] else [rev line])"
| "whole_lines (c # s) line =
    (if c = CHR 0x0A then rev (c # line) # whole_lines s [] else whole_lines s (c # line))"

definition ReadStreamHead :: "stream_env \<Rightarrow> protocol \<Rightarrow> string \<Rightarrow> head_result" where
  "ReadStreamHead env from body = head_loop env (whole_lines body []) [] no_record (new_parser False from False)"

end
