(* ===== verification/CollapseProps.thy ===== *)
theory CollapseProps
  imports Collapse
begin

text \<open>
  The collapsed response is the sum of its events: the text of all text deltas, one tool per key in the
  order the keys were seen, each with the arguments of all its deltas.
\<close>

subsection \<open>The sums\<close>

definition text_of :: "stream_event list \<Rightarrow> string" where
  "text_of evs = concat (map ev_Text (filter (\<lambda>ev. ev_Kind ev = ''text'') evs))"

definition is_tool :: "stream_event \<Rightarrow> bool" where
  "is_tool ev = (ev_Kind ev = ''tool_start'' \<or> ev_Kind ev = ''tool_delta'')"

definition args_of :: "stream_event list \<Rightarrow> string \<Rightarrow> string" where
  "args_of evs k = concat (map ev_Text (filter (\<lambda>ev. ev_Kind ev = ''tool_delta'' \<and> ev_ToolKey ev = k) evs))"

definition add_key :: "string \<Rightarrow> string list \<Rightarrow> string list" where
  "add_key k ks = (if k \<in> set ks then ks else ks @ [k])"

definition tool_keys :: "stream_event list \<Rightarrow> string list" where
  "tool_keys evs = fold (\<lambda>ev. add_key (ev_ToolKey ev)) (filter is_tool evs) []"

definition name_of :: "stream_event list \<Rightarrow> string \<Rightarrow> string" where
  "name_of evs k =
    firstNonEmpty (map ev_ToolName (filter (\<lambda>ev. is_tool ev \<and> ev_ToolKey ev = k) evs))"

lemma sums_Nil [simp]: "text_of [] = []" "args_of [] k = []" "tool_keys [] = []" "name_of [] k = []"
  by (simp_all add: text_of_def args_of_def tool_keys_def name_of_def firstNonEmpty_def)

lemma text_of_snoc: "text_of (evs @ [ev]) = text_of evs @ (if ev_Kind ev = ''text'' then ev_Text ev else [])"
  by (simp add: text_of_def)

lemma args_of_snoc: "args_of (evs @ [ev]) k =
    args_of evs k @ (if ev_Kind ev = ''tool_delta'' \<and> ev_ToolKey ev = k then ev_Text ev else [])"
  by (simp add: args_of_def)

lemma tool_keys_snoc: "tool_keys (evs @ [ev]) = (if is_tool ev then add_key (ev_ToolKey ev) (tool_keys evs) else tool_keys evs)"
  by (simp add: tool_keys_def)

lemma firstNonEmpty_append: "firstNonEmpty (xs @ ys) = (if firstNonEmpty xs = [] then firstNonEmpty ys else firstNonEmpty xs)"
proof (induction xs)
  case (Cons x xs)
  then show ?case by (cases x) (simp_all add: firstNonEmpty_def)
qed (simp add: firstNonEmpty_def)

lemma firstNonEmpty_single: "firstNonEmpty [x] = x"
  by (cases x) (simp_all add: firstNonEmpty_def)

lemma name_of_snoc: "name_of (evs @ [ev]) k =
    (if is_tool ev \<and> ev_ToolKey ev = k then (if name_of evs k = [] then ev_ToolName ev else name_of evs k) else name_of evs k)"
  by (simp add: name_of_def firstNonEmpty_append firstNonEmpty_single) (simp add: firstNonEmpty_def)

lemma distinct_keys: "distinct (tool_keys evs)"
  by (induction evs rule: rev_induct) (auto simp: tool_keys_snoc add_key_def)

lemma unknown_key: "k \<notin> set (tool_keys evs) \<Longrightarrow> args_of evs k = [] \<and> name_of evs k = []"
  by (induction evs rule: rev_induct)
    (auto simp: tool_keys_snoc add_key_def args_of_snoc name_of_snoc is_tool_def split: if_splits)

subsection \<open>The accumulator holds the sums\<close>

definition key_at :: "string list \<Rightarrow> (string \<times> nat) list \<Rightarrow> bool" where
  "key_at ks m = (\<forall>k i. map_of m k = Some i \<longleftrightarrow> i < length ks \<and> ks ! i = k)"

definition holds :: "stream_event list \<Rightarrow> collapse_acc \<Rightarrow> bool" where
  "holds evs a = (ca_text a = text_of evs \<and> key_at (tool_keys evs) (ca_tools a) \<and>
     map bk_Name (br_Tools (ca_response a)) = map (name_of evs) (tool_keys evs) \<and>
     (\<forall>b\<in>set (br_Tools (ca_response a)). bk_ArgumentsJSON b = []) \<and>
     distinct (map fst (ca_arguments a)) \<and> (\<forall>i\<in>fst ` set (ca_arguments a). i < length (tool_keys evs)) \<and>
     map (built (ca_arguments a)) [0..<length (tool_keys evs)] = map (args_of evs) (tool_keys evs))"

lemma holds_start: "holds [] (new_acc now model)"
  by (simp add: holds_def new_acc_def key_at_def)

text \<open>A step that leaves text, tools and arguments alone.\<close>

lemma holds_other:
  assumes "holds evs a" "\<not> is_tool ev" "ev_Kind ev \<noteq> ''text''"
    "ca_text b = ca_text a" "ca_tools b = ca_tools a" "ca_arguments b = ca_arguments a"
    "br_Tools (ca_response b) = br_Tools (ca_response a)"
  shows "holds (evs @ [ev]) b"
proof -
  have "text_of (evs @ [ev]) = text_of evs" "tool_keys (evs @ [ev]) = tool_keys evs"
    "args_of (evs @ [ev]) = args_of evs" "name_of (evs @ [ev]) = name_of evs"
    using assms(2,3) by (auto simp: text_of_snoc tool_keys_snoc args_of_snoc name_of_snoc is_tool_def)
  with assms show ?thesis by (simp add: holds_def)
qed

lemma reasoning_steps:
  "ca_text (reasoningBlock a) = ca_text a" "ca_tools (reasoningBlock a) = ca_tools a"
  "ca_arguments (reasoningBlock a) = ca_arguments a" "br_Tools (ca_response (reasoningBlock a)) = br_Tools (ca_response a)"
  "ca_text (add_encrypted s a) = ca_text a" "ca_tools (add_encrypted s a) = ca_tools a"
  "ca_arguments (add_encrypted s a) = ca_arguments a" "br_Tools (ca_response (add_encrypted s a)) = br_Tools (ca_response a)"
  by (simp_all add: reasoningBlock_def add_encrypted_def set_blocks_def Let_def)

lemma built_build [simp]: "built (build i s bs) j = (if j = i then built bs i @ s else built bs j)"
  by (simp add: built_def build_def update_conv')

lemma build_keys [simp]: "fst ` set (build i s bs) = insert i (fst ` set bs)"
  by (simp add: build_def dom_update)

lemma build_distinct [simp]: "distinct (map fst bs) \<Longrightarrow> distinct (map fst (build i s bs))"
  by (simp add: build_def distinct_update)

text \<open>The tool of an event, new or known.\<close>

lemma toolBlock_holds:
  assumes h: "holds evs a" and ev: "is_tool ev" and m: "ev_Kind ev = ''tool_delta'' \<longrightarrow> ev_Text ev = []"
  shows "holds (evs @ [ev]) (toolBlock (ev_ToolKey ev) (ev_ToolID ev) (ev_ToolName ev) a)"
proof -
  let ?k = "ev_ToolKey ev" and ?ks = "tool_keys evs" and ?ts = "br_Tools (ca_response a)"
  have args: "args_of (evs @ [ev]) = args_of evs" and tx: "text_of (evs @ [ev]) = text_of evs"
    using m ev by (auto simp: args_of_snoc text_of_snoc is_tool_def)
  have len: "length ?ts = length ?ks" using h unfolding holds_def by (metis length_map)
  show ?thesis
  proof (cases "map_of (ca_tools a) ?k")
    case None
    have new: "?k \<notin> set ?ks" using h None unfolding holds_def key_at_def by (metis in_set_conv_nth option.distinct(1))
    have ks: "tool_keys (evs @ [ev]) = ?ks @ [?k]" using ev new by (simp add: tool_keys_snoc add_key_def)
    have names: "map (name_of (evs @ [ev])) ?ks = map (name_of evs) ?ks" using new by (auto simp: name_of_snoc)
    have nk: "name_of (evs @ [ev]) ?k = ev_ToolName ev" using unknown_key [OF new] ev by (simp add: name_of_snoc)
    have key: "key_at (?ks @ [?k]) (AList.update ?k (length ?ks) (ca_tools a))"
      using h new unfolding holds_def key_at_def by (auto simp: update_conv' nth_append less_Suc_eq) (metis nth_mem)
    have un: "built (ca_arguments a) (length ?ks) = []"
      using h unfolding holds_def built_def by (force split: option.splits dest: map_of_SomeD)
    show ?thesis
      using h None args tx ks names nk key un unknown_key [OF new] len
      by (simp add: holds_def toolBlock_def set_blocks_def block_of_def less_Suc_eq)
  next
    case (Some i)
    have i: "i < length ?ks" "?ks ! i = ?k" using h Some unfolding holds_def key_at_def by auto
    have ks: "tool_keys (evs @ [ev]) = ?ks" using ev nth_mem [OF i(1)] i(2) by (simp add: tool_keys_snoc add_key_def)
    let ?b = "?ts ! i"
    let ?c = "?b\<lparr>bk_ID := (if bk_ID ?b = [] then ev_ToolID ev else bk_ID ?b),
      bk_Name := (if bk_Name ?b = [] then ev_ToolName ev else bk_Name ?b)\<rparr>"
    have nm: "map bk_Name ?ts = map (name_of evs) ?ks" using h by (simp add: holds_def)
    have bi: "bk_Name ?b = name_of evs ?k" using nm i len by (metis nth_map)
    have "map bk_Name (?ts[i := ?c]) = map (name_of (evs @ [ev])) ?ks"
    proof (rule nth_equalityI)
      show "length (map bk_Name (?ts[i := ?c])) = length (map (name_of (evs @ [ev])) ?ks)" using len by simp
      fix j assume "j < length (map bk_Name (?ts[i := ?c]))"
      then have j: "j < length ?ks" using len by simp
      have old: "bk_Name (?ts ! j) = name_of evs (?ks ! j)" using nm j len by (metis nth_map)
      have "?ks ! j = ?k \<longleftrightarrow> j = i" using distinct_keys [of evs] i j by (metis nth_eq_iff_index_eq)
      then show "map bk_Name (?ts[i := ?c]) ! j = map (name_of (evs @ [ev])) ?ks ! j"
        using j i len old bi ev by (auto simp: nth_list_update name_of_snoc)
    qed
    moreover have "\<forall>b\<in>set (?ts[i := ?c]). bk_ArgumentsJSON b = []"
      using h i len unfolding holds_def by (auto dest!: set_update_subset_insert [THEN subsetD])
    ultimately show ?thesis
      using h Some args tx ks by (simp add: holds_def toolBlock_def set_blocks_def Let_def)
  qed
qed

text \<open>A delta is a start of its tool followed by its text.\<close>

lemma delta_holds:
  assumes h: "holds evs a" and ev: "ev_Kind ev = ''tool_delta''"
  shows "holds (evs @ [ev]) (collapse_tool_delta ev a)"
proof -
  let ?k = "ev_ToolKey ev" and ?st = "ev\<lparr>ev_Text := []\<rparr>"
  let ?a = "toolBlock ?k (ev_ToolID ev) (ev_ToolName ev) a"
  have s: "holds (evs @ [?st]) ?a"
    using toolBlock_holds [OF h, of ?st] ev by (simp add: is_tool_def)
  have same: "tool_keys (evs @ [?st]) = tool_keys (evs @ [ev])" "name_of (evs @ [?st]) = name_of (evs @ [ev])"
    "text_of (evs @ [?st]) = text_of (evs @ [ev])"
    using ev by (auto simp: tool_keys_snoc name_of_snoc text_of_snoc is_tool_def)
  let ?ks = "tool_keys (evs @ [ev])"
  have "?k \<in> set ?ks" using ev by (simp add: tool_keys_snoc is_tool_def add_key_def)
  then obtain i where i: "i < length ?ks" "?ks ! i = ?k" by (metis in_set_conv_nth)
  then have at: "map_of (ca_tools ?a) ?k = Some i" using s same unfolding holds_def key_at_def by auto
  have old: "map (built (ca_arguments ?a)) [0..<length ?ks] = map (args_of (evs @ [?st])) ?ks"
    using s same by (simp add: holds_def)
  have "map (built (build i (ev_Text ev) (ca_arguments ?a))) [0..<length ?ks] = map (args_of (evs @ [ev])) ?ks"
  proof (rule nth_equalityI)
    fix j assume "j < length (map (built (build i (ev_Text ev) (ca_arguments ?a))) [0..<length ?ks])"
    then have j: "j < length ?ks" by simp
    have b: "built (ca_arguments ?a) j = args_of (evs @ [?st]) (?ks ! j)"
      using arg_cong [OF old, of "\<lambda>xs. xs ! j"] j by simp
    have bi: "built (ca_arguments ?a) i = args_of (evs @ [?st]) ?k"
      using arg_cong [OF old, of "\<lambda>xs. xs ! i"] i by simp
    have "?ks ! j = ?k \<longleftrightarrow> j = i" using distinct_keys i j by (metis nth_eq_iff_index_eq)
    with j b bi ev show "map (built (build i (ev_Text ev) (ca_arguments ?a))) [0..<length ?ks] ! j =
        map (args_of (evs @ [ev])) ?ks ! j"
      by (auto simp: args_of_snoc)
  qed simp
  with s same at i(1) show ?thesis
    unfolding collapse_tool_delta_def Let_def holds_def by simp
qed

lemma apply_holds: "holds evs a \<Longrightarrow> holds (evs @ [ev]) (apply_event ev a)"
proof -
  assume h: "holds evs a"
  consider (delta) "ev_Kind ev = ''tool_delta''" | (start) "ev_Kind ev = ''tool_start''" | (str) "ev_Kind ev = ''text''"
    | (none) "\<not> is_tool ev" "ev_Kind ev \<noteq> ''text''" by (auto simp: is_tool_def)
  then show ?thesis
  proof cases
    case delta
    with delta_holds [OF h] show ?thesis by (simp add: apply_event_def)
  next
    case start
    with toolBlock_holds [OF h, of ev] show ?thesis by (simp add: apply_event_def is_tool_def)
  next
    case str
    then have "tool_keys (evs @ [ev]) = tool_keys evs" "args_of (evs @ [ev]) = args_of evs" "name_of (evs @ [ev]) = name_of evs"
      by (auto simp: tool_keys_snoc args_of_snoc name_of_snoc is_tool_def)
    with h str show ?thesis by (simp add: holds_def apply_event_def text_of_snoc)
  next
    case none
    then show ?thesis
      by (intro holds_other [OF h none])
        (auto simp: apply_event_def collapse_reasoning_def Let_def reasoning_steps set_blocks_def is_tool_def
          split: option.splits)
  qed
qed

lemma fold_holds: "holds evs (fold apply_event evs (new_acc now model))"
  by (induction evs rule: rev_induct) (simp_all add: holds_start apply_holds)

subsection \<open>Writing back\<close>

lemma write_back_length [simp]: "length (write_back bs f xs) = length xs"
  by (induction bs f xs rule: write_back.induct) simp_all

lemma write_back_nth:
  "distinct (map fst bs) \<Longrightarrow> i < length xs \<Longrightarrow>
    write_back bs f xs ! i = (case map_of bs i of None \<Rightarrow> xs ! i | Some s \<Rightarrow> f s (xs ! i))"
proof (induction bs f xs rule: write_back.induct)
  case (2 j s bs f xs)
  then have "map_of bs i = None" if "i = j" using that by (auto simp: map_of_eq_None_iff)
  with 2 show ?case by (auto split: option.splits)
qed simp

text \<open>The response a stream collapses into has the text of all text deltas, one tool for every key in the
  order of their first events, with the first name that was given and all its argument deltas in order.\<close>

theorem collapse_sums_events:
  "let r = finished_response (fold apply_event evs (new_acc now model)) in
     br_Text r = text_of evs \<and>
     map bk_Name (br_Tools r) = map (name_of evs) (tool_keys evs) \<and>
     map bk_ArgumentsJSON (br_Tools r) = map (args_of evs) (tool_keys evs)"
proof -
  let ?a = "fold apply_event evs (new_acc now model)"
  let ?ts = "br_Tools (ca_response ?a)" and ?ks = "tool_keys evs"
  let ?f = "\<lambda>s b :: bridge_block. b\<lparr>bk_ArgumentsJSON := s\<rparr>"
  note h = fold_holds [of evs now model]
  have len: "length ?ts = length ?ks" using h unfolding holds_def by (metis length_map)
  have nth: "write_back (ca_arguments ?a) ?f ?ts ! i =
      (case map_of (ca_arguments ?a) i of None \<Rightarrow> ?ts ! i | Some s \<Rightarrow> ?f s (?ts ! i))" if "i < length ?ks" for i
    using h that len by (intro write_back_nth) (simp_all add: holds_def)
  have names: "map bk_Name (write_back (ca_arguments ?a) ?f ?ts) = map bk_Name ?ts"
    by (rule nth_equalityI) (simp_all add: len nth split: option.splits)
  have args: "map bk_ArgumentsJSON (write_back (ca_arguments ?a) ?f ?ts) = map (built (ca_arguments ?a)) [0..<length ?ks]"
  proof (rule nth_equalityI)
    fix i assume "i < length (map bk_ArgumentsJSON (write_back (ca_arguments ?a) ?f ?ts))"
    then have i: "i < length ?ks" by (simp add: len)
    have "bk_ArgumentsJSON (?ts ! i) = []" using h i len unfolding holds_def by simp
    with i show "map bk_ArgumentsJSON (write_back (ca_arguments ?a) ?f ?ts) ! i = map (built (ca_arguments ?a)) [0..<length ?ks] ! i"
      by (simp add: len nth built_def split: option.splits)
  qed (simp add: len)
  from h names args show ?thesis
    by (simp add: finished_response_def Let_def holds_def)
qed

subsection \<open>Redacted reasoning\<close>

text \<open>A redacted thinking block of an upstream collapses into two blocks: the redacted one, and before it
  a thinking block without text or signature, which no upstream event had.\<close>

theorem redacted_thinking_doubled:
  "let r = finished_response (fold apply_event [(event_of ''reasoning'')\<lparr>ev_Encrypted := ''data''\<rparr>] (new_acc now model)) in
     encodeAnthropicBlocks jc (br_Reasoning r) =
       [JObj [(''type'', JStr ''thinking''), (''thinking'', JStr []), (''signature'', JStr [])],
        JObj [(''type'', JStr ''redacted_thinking''), (''data'', JStr ''data'')]]"
  by (simp add: apply_event_def collapse_reasoning_def event_of_def reasoningBlock_def add_encrypted_def set_blocks_def
    new_acc_def finished_response_def appendReasoningDelta_def last_reason_def block_of_def Let_def
    encodeAnthropicBlocks_def anthropic_part_def)

end
