(* ===== verification/Efforts.thy ===== *)
theory Efforts
  imports Bridge
begin

text \<open>
  Reasoning controls: the projection of a request's reasoning value between effort levels and thinking
  budgets (internal/core/protocol/bridge.go), the controls of a native request and the level an operator
  forces on it (request.go). A body is changed in place by the code; here the changed body is returned.
\<close>

subsection \<open>Efforts\<close>

text \<open>The flag of \<open>normalizeEffortValue\<close> is the option; its value nil, for a stated absence, is null.\<close>

definition normalizeEffortValue :: "json \<Rightarrow> json option" where
  "normalizeEffortValue v =
    (case v of
       JStr s \<Rightarrow>
         let level = to_lower (trim_space s)
         in if level = ''none'' \<or> level = ''disabled'' then Some JNull
            else if level = [] then None
            else Some v
     | _ \<Rightarrow> None)"

fun first_effort :: "json_object \<Rightarrow> string list \<Rightarrow> json option" where
  "first_effort m [] = None"
| "first_effort m (k # ks) =
    (case map_of m k of
       None \<Rightarrow> first_effort m ks
     | Some v \<Rightarrow> (case normalizeEffortValue v of Some e \<Rightarrow> Some e | None \<Rightarrow> first_effort m ks))"

definition explicitEffort :: "json_object \<Rightarrow> json option" where
  "explicitEffort m = first_effort m [''effort'', ''reasoning_effort'']"

definition effortForThinkingBudget :: "int \<Rightarrow> string" where
  "effortForThinkingBudget budget =
    (if budget \<le> 0 then ''high''
     else if 32768 \<le> budget then ''max''
     else if 16384 \<le> budget then ''xhigh''
     else if 8192 < budget then ''high''
     else if 8192 \<le> budget then ''high''
     else if 2048 < budget then ''medium''
     else ''low'')"

definition budgetForEffort :: "json \<Rightarrow> int" where
  "budgetForEffort v =
    (let level = to_lower (trim_space (as_str v))
     in if level = ''minimal'' \<or> level = ''low'' then 1024
        else if level = ''medium'' then 4096
        else if level = ''high'' then 8192
        else if level = ''xhigh'' then 16384
        else if level = ''max'' then 32768
        else 4096)"

definition reasoningEffort :: "json \<Rightarrow> json" where
  "reasoningEffort v =
    (case v of
       JObj m \<Rightarrow>
         (case explicitEffort m of
            Some e \<Rightarrow> e
          | None \<Rightarrow>
              let kind = StringAt m [''type'']
              in if kind = ''disabled'' then JNull
                 else if kind = ''enabled'' \<or> kind = ''adaptive''
                 then JStr (effortForThinkingBudget (IntAt m [''budget_tokens'']))
                 else jget m ''type'')
     | _ \<Rightarrow> (case normalizeEffortValue v of Some e \<Rightarrow> e | None \<Rightarrow> v))"

definition thinkingFor :: "json \<Rightarrow> int \<Rightarrow> json" where
  "thinkingFor effort budget =
    JObj [(''type'', JStr ''enabled''),
          (''budget_tokens'', JNum (of_count (if budget \<le> 0 then budgetForEffort effort else budget)))]"

definition numericValue :: "json \<Rightarrow> int option" where
  "numericValue v = (case v of JNum x \<Rightarrow> Some (int_of_float x) | JInt n \<Rightarrow> Some n | _ \<Rightarrow> None)"

definition numericValueOrZero :: "json \<Rightarrow> int" where
  "numericValueOrZero v = (case numericValue v of None \<Rightarrow> 0 | Some n \<Rightarrow> n)"

text \<open>A level and the budget that goes with it: the thinking block and the output configuration.\<close>

definition thinking_level :: "json \<Rightarrow> int \<Rightarrow> json \<times> json" where
  "thinking_level effort budget =
    (if effort = JNull then (JNull, JNull) else (thinkingFor effort budget, JObj [(''effort'', effort)]))"

definition budget_level :: "int \<Rightarrow> json \<times> json" where
  "budget_level budget = thinking_level (JStr (effortForThinkingBudget budget)) budget"

definition value_thinking :: "json \<Rightarrow> int \<Rightarrow> json \<times> json" where
  "value_thinking v budget =
    (case normalizeEffortValue v of
       Some effort \<Rightarrow> thinking_level effort budget
     | None \<Rightarrow>
         (case numericValue v of
            Some n \<Rightarrow> if n \<le> 0 then (JNull, JNull) else budget_level n
          | None \<Rightarrow> (JNull, JNull)))"

definition object_thinking :: "json_object \<Rightarrow> json \<times> json" where
  "object_thinking m =
    (let kind = StringAt m [''type'']; budget = IntAt m [''budget_tokens'']
     in case explicitEffort m of
          Some effort \<Rightarrow> thinking_level effort budget
        | None \<Rightarrow>
            if kind = ''disabled'' then (JNull, JNull)
            else if kind = ''adaptive'' then (JObj [(''type'', JStr ''adaptive'')], JNull)
            else if kind = ''enabled'' then budget_level budget
            else (case normalizeEffortValue (jget m ''type'') of
                    Some effort \<Rightarrow> thinking_level effort budget
                  | None \<Rightarrow>
                      if 0 < budget then budget_level budget else value_thinking (jget m ''type'') budget))"

definition anthropicThinking :: "json \<Rightarrow> json \<times> json" where
  "anthropicThinking v =
    (case v of JNull \<Rightarrow> (JNull, JNull) | JObj m \<Rightarrow> object_thinking m | _ \<Rightarrow> value_thinking v 0)"

definition reasoningBudget :: "json \<Rightarrow> int" where
  "reasoningBudget v =
    (case v of
       JObj m \<Rightarrow>
         let budget = IntAt m [''budget_tokens'']
         in if 0 < budget then budget
            else if explicitEffort m = None then 0
            else numericValueOrZero (jget m ''reasoning_budget_tokens'')
     | _ \<Rightarrow> 0)"

definition withReasoningBudget :: "json \<Rightarrow> int \<Rightarrow> json" where
  "withReasoningBudget v budget =
    (if budget \<le> 0 then v
     else case v of
       JObj m \<Rightarrow> JObj (jset ''budget_tokens'' (JInt budget) m)
     | _ \<Rightarrow> JObj [(''budget_tokens'', JInt budget), (''effort'', v)])"

subsection \<open>Response formats\<close>

definition schemaOrDefault :: "json \<Rightarrow> json" where
  "schemaOrDefault v =
    (if v = JNull then JObj [(''type'', JStr ''object''), (''properties'', JObj [])] else v)"

definition normalizeResponsesRole :: "string \<Rightarrow> string" where
  "normalizeResponsesRole role = (if role = ''assistant'' then ''assistant'' else ''user'')"

definition picked_members :: "json_object \<Rightarrow> string list \<Rightarrow> json_object" where
  "picked_members m ks = List.map_filter (\<lambda>k. map_option (Pair k) (map_of m k)) ks"

definition chatResponseFormat :: "json \<Rightarrow> json" where
  "chatResponseFormat v =
    (case v of
       JObj m \<Rightarrow>
         let kind = StringAt m [''type'']
         in if kind = ''json_object'' then JObj [(''type'', JStr ''json_object'')]
            else if kind = ''json_schema'' then
              (case jget m ''json_schema'' of
                 JObj nested \<Rightarrow> JObj [(''type'', JStr ''json_schema''), (''json_schema'', JObj nested)]
               | _ \<Rightarrow>
                   let nested = picked_members m [''name'', ''description'', ''schema'', ''strict'']
                   in if nested = [] then JNull
                      else JObj [(''type'', JStr ''json_schema''), (''json_schema'', JObj nested)])
            else JNull
     | _ \<Rightarrow> JNull)"

definition responsesTextFormat :: "json \<Rightarrow> json" where
  "responsesTextFormat v =
    (case v of
       JObj m \<Rightarrow>
         let kind = StringAt m [''type'']
         in if kind = ''text'' \<or> kind = ''json_object'' then v
            else if kind = ''json_schema'' then
              (case jget m ''json_schema'' of
                 JObj nested \<Rightarrow> JObj (jset ''type'' (JStr ''json_schema'') nested)
               | _ \<Rightarrow> v)
            else JNull
     | _ \<Rightarrow> JNull)"

subsection \<open>Controls of a native request\<close>

definition anthropicReasoning :: "json_object \<Rightarrow> json" where
  "anthropicReasoning input =
    (case normalizeEffortValue (FirstAny [AnyAt input [''output_config'', ''effort''], jget input ''effort'']) of
       Some effort \<Rightarrow>
         if effort = JNull then JNull
         else (case jget input ''thinking'' of
                 JObj thinking \<Rightarrow> JObj (jset ''effort'' effort thinking)
               | _ \<Rightarrow> effort)
     | None \<Rightarrow> jget input ''thinking'')"

definition responsesReasoning :: "json \<Rightarrow> json" where
  "responsesReasoning v =
    (case v of
       JObj m \<Rightarrow>
         if StringAt m [''type''] = ''disabled'' then JNull
         else (case reasoningEffort v of
                 JNull \<Rightarrow> v
               | JObj typed \<Rightarrow> JObj typed
               | effort \<Rightarrow> JObj [(''effort'', effort)])
     | JStr s \<Rightarrow>
         (case normalizeEffortValue v of
            Some effort \<Rightarrow> if effort = JNull then JNull else JObj [(''effort'', effort)]
          | None \<Rightarrow> JObj [(''effort'', v)])
     | _ \<Rightarrow> v)"

definition effort_levels :: "string list" where
  "effort_levels =
    [''none'', ''off'', ''disabled'', ''minimal'', ''low'', ''medium'', ''high'', ''xhigh'', ''max'']"

definition ExplicitReasoningEffort :: "json_object \<Rightarrow> string" where
  "ExplicitReasoningEffort input =
    (case List.find (\<lambda>e. e \<in> set effort_levels)
        (map (\<lambda>v. to_lower (trim_space (as_str v)))
          [jget input ''reasoning_effort'', AnyAt input [''output_config'', ''effort''], jget input ''effort'',
           AnyAt input [''reasoning'', ''effort'']]) of
       None \<Rightarrow> []
     | Some e \<Rightarrow> e)"

definition effort_enabled :: "json_object \<Rightarrow> bool \<times> bool" where
  "effort_enabled input =
    (let e = ExplicitReasoningEffort input
     in if e \<in> {''none'', ''off'', ''disabled''} then (False, True)
        else if e = [] then (False, False)
        else (True, True))"

definition ReasoningEnabled :: "json_object \<Rightarrow> bool \<times> bool" where
  "ReasoningEnabled input =
    (case jget input ''thinking'' of
       JObj thinking \<Rightarrow>
         let kind = to_lower (StringAt thinking [''type''])
         in if kind = ''enabled'' \<or> kind = ''adaptive'' then (True, True)
            else if kind = ''disabled'' then (False, True)
            else effort_enabled input
     | _ \<Rightarrow> effort_enabled input)"

subsection \<open>A forced level\<close>

definition stated :: "json \<Rightarrow> bool" where
  "stated v = (case v of JStr s \<Rightarrow> trim_space s \<noteq> [] | _ \<Rightarrow> False)"

definition clientEffortExplicit :: "protocol \<Rightarrow> json_object \<Rightarrow> bool" where
  "clientEffortExplicit p body =
    (case p of
       Chat \<Rightarrow> stated (jget body ''reasoning_effort'')
     | Anthropic \<Rightarrow> stated (AnyAt body [''output_config'', ''effort'']) \<or> stated (jget body ''effort'')
     | Responses \<Rightarrow> stated (AnyAt body [''reasoning'', ''effort''])
     | _ \<Rightarrow> False)"

definition validForcedEffort :: "string \<Rightarrow> bool" where
  "validForcedEffort e =
    (e \<in> {''minimal'', ''low'', ''medium'', ''high'', ''xhigh'', ''max'', ''none''})"

definition jdelete :: "string \<Rightarrow> json_object \<Rightarrow> json_object" where
  "jdelete k m = filter (\<lambda>e. fst e \<noteq> k) m"

lemma map_of_jdelete: "map_of (jdelete k m) l = (if l = k then None else map_of m l)"
  by (induction m) (auto simp: jdelete_def)

lemma jget_jdelete [simp]: "jget (jdelete k m) l = (if l = k then JNull else jget m l)"
  by (simp add: jget_def map_of_jdelete)

definition forced_thinking :: "int \<Rightarrow> json_object \<Rightarrow> json_object" where
  "forced_thinking budget body =
    jset ''thinking''
      (JObj (jset ''budget_tokens'' (JNum (of_count budget))
        (jset ''type'' (JStr ''enabled'') (as_obj (jget body ''thinking''))))) body"

definition applyAnthropicForcedEffort :: "json_object \<Rightarrow> string \<Rightarrow> bool \<Rightarrow> json_object" where
  "applyAnthropicForcedEffort body effort disable =
    (if disable then jdelete ''output_config'' (jdelete ''thinking'' body)
     else
       let body = jset ''output_config''
             (JObj (jset ''effort'' (JStr effort) (as_obj (jget body ''output_config'')))) body;
           budget = budgetForEffort (JStr effort);
           body = forced_thinking budget body;
           current = IntAt body [''max_tokens'']
       in if 0 < current \<and> current \<le> budget then jset ''max_tokens'' (JInt (budget + 4096)) body else body)"

definition ForcedEffort :: "protocol \<Rightarrow> json_object \<Rightarrow> string \<Rightarrow> json_object" where
  "ForcedEffort p body effort =
    (let effort = to_lower (trim_space effort); disable = (effort = ''none'')
     in if \<not> validForcedEffort effort \<or> clientEffortExplicit p body then body
        else case p of
          Chat \<Rightarrow> if disable then jdelete ''reasoning_effort'' body else jset ''reasoning_effort'' (JStr effort) body
        | Anthropic \<Rightarrow> applyAnthropicForcedEffort body effort disable
        | Responses \<Rightarrow>
            if disable then jdelete ''reasoning'' body
            else jset ''reasoning'' (JObj (jset ''effort'' (JStr effort) (as_obj (jget body ''reasoning'')))) body
        | _ \<Rightarrow> body)"

end
