(* ===== verification/RequestDecode.thy ===== *)
theory RequestDecode
  imports Efforts
begin

text \<open>
  Decoding a request into the common form: \<open>bridgeRequest\<close> of internal/core/protocol/bridge.go,
  \<open>decodeBridgeRequest\<close> and \<open>FunctionToolSubset\<close> of request.go, and the image-bearing tool
  results of tool_images.go. An error value names the error text and carries what the text shows.
\<close>

record bridge_message =
  bm_Role :: string
  bm_Blocks :: "bridge_block list"

record bridge_tool =
  bt_Name :: string
  bt_Description :: string
  bt_Schema :: json
  bt_Strict :: bool

record bridge_request =
  rq_Model :: string
  rq_System :: "bridge_block list"
  rq_Developer :: "bridge_block list"
  rq_Messages :: "bridge_message list"
  rq_Tools :: "bridge_tool list"
  rq_ToolChoice :: tool_choice
  rq_Stream :: bool
  rq_Temperature :: json
  rq_TopP :: json
  rq_MaxTokens :: json
  rq_Stop :: json
  rq_Reasoning :: json
  rq_Metadata :: json
  rq_ResponseFormat :: json
  rq_ParallelToolCalls :: json
  rq_FrequencyPenalty :: json
  rq_PresencePenalty :: json
  rq_Seed :: json
  rq_PromptCacheKey :: json
  rq_SafetyIdentifier :: json
  rq_ServiceTier :: json
  rq_Store :: json

datatype image_error =
    ImagePartNotObject nat | ImagePartWithoutText nat | BadImageSource nat | BadImageUrl nat | BadImagePart nat
  | BadDataUri nat | ImageBlocks bridge_error

datatype request_error =
    MessageNotObject nat | MessageContent nat bridge_error | CallNotObject nat nat | BadRole nat string
  | NotFunctionTool nat | ToolNotObject nat | InstructionsContent bridge_error | SystemContent bridge_error
  | ItemNotObject nat | ItemContent nat bridge_error | BadItem nat string | BadInput | BadProtocol protocol
  | BadToolResult nat nat image_error | ImagesWithoutCall nat
  | FileInInstructions | FileWithoutData string
  | CallsUnanswered nat "string list" | ResultsOfAssistant nat | CallIncomplete nat | DuplicateCall nat string
  | CallsOfUser nat | DuplicateResult nat string | ResultWithoutCall nat string | ResultsMissing "string list"
  | ToolsNotArray | ToolUntyped nat | ToolUnprepared nat | ChoiceWithoutTools | ChoiceUnavailable
  | ChoiceUnsupported string

text \<open>A loop over a list with an index that stops at the first error.\<close>

fun each :: "(nat \<Rightarrow> 'a \<Rightarrow> 's \<Rightarrow> 'e + 's) \<Rightarrow> nat \<Rightarrow> 'a list \<Rightarrow> 's \<Rightarrow> 'e + 's" where
  "each f i [] s = Inr s"
| "each f i (x # xs) s = (case f i x s of Inl e \<Rightarrow> Inl e | Inr s \<Rightarrow> each f (Suc i) xs s)"

subsection \<open>Tool results with images\<close>

definition image_source_ok :: "json_object \<Rightarrow> bool" where
  "image_source_ok source =
    (if StringAt source [''type''] = ''url''
     then StringAt source [''url''] \<noteq> [] \<and> jget source ''data'' = JNull \<and> jget source ''file_id'' = JNull
     else if StringAt source [''type''] = ''base64''
     then StringAt source [''data''] \<noteq> [] \<and> has_prefix (StringAt source [''media_type'']) ''image/'' \<and>
       jget source ''url'' = JNull \<and> jget source ''file_id'' = JNull
     else False)"

definition check_tool_part :: "protocol \<Rightarrow> nat \<Rightarrow> json \<Rightarrow> unit \<Rightarrow> image_error + unit" where
  "check_tool_part from i raw s =
    (case raw of
       JObj part \<Rightarrow>
         if StringAt part [''type''] = (if from = Anthropic then ''text'' else ''input_text'')
         then (case jget part ''text'' of JStr _ \<Rightarrow> Inr () | _ \<Rightarrow> Inl (ImagePartWithoutText i))
         else if StringAt part [''type''] = (if from = Anthropic then ''image'' else ''input_image'')
         then (if from = Anthropic
               then if image_source_ok (MapAt part [''source'']) then Inr () else Inl (BadImageSource i)
               else if StringAt part [''image_url''] = [] \<or> jget part ''file_id'' \<noteq> JNull then Inl (BadImageUrl i)
               else Inr ())
         else Inl (BadImagePart i)
     | _ \<Rightarrow> Inl (ImagePartNotObject i))"

text \<open>A data URI is split into its media type and its data.\<close>

definition data_uri :: "string \<Rightarrow> (string \<times> string) option" where
  "data_uri url =
    (let rest = trim_prefix url ''data:'';
         header = takeWhile (\<lambda>c. c \<noteq> CHR '','') rest;
         data = drop 1 (dropWhile (\<lambda>c. c \<noteq> CHR '','') rest);
         media = take (length header - length '';base64'') header
     in if CHR '','' \<in> set rest \<and> has_suffix header '';base64'' \<and> has_prefix media ''image/'' \<and> data \<noteq> []
        then Some (media, data) else None)"

definition split_data_uri :: "nat \<Rightarrow> inner_block \<Rightarrow> inner_block list \<Rightarrow> image_error + inner_block list" where
  "split_data_uri i b bs =
    (if bk_Kind b \<noteq> ''image'' \<or> \<not> has_prefix (bk_URL b) ''data:'' then Inr (bs @ [b])
     else case data_uri (bk_URL b) of
       None \<Rightarrow> Inl (BadDataUri i)
     | Some (media, data) \<Rightarrow> Inr (bs @ [b\<lparr>bk_URL := [], bk_MediaType := media, bk_Data := data\<rparr>]))"

definition has_tool_image :: "protocol \<Rightarrow> json list \<Rightarrow> bool" where
  "has_tool_image from parts =
    list_ex (\<lambda>raw. StringAt (as_obj raw) [''type''] = (if from = Anthropic then ''image'' else ''input_image'')) parts"

definition decodeToolImages :: "protocol \<Rightarrow> json \<Rightarrow> image_error + tool_output" where
  "decodeToolImages from v =
    (case v of
       JList parts \<Rightarrow>
         if \<not> has_tool_image from parts then Inr (OutJson v)
         else (case each (check_tool_part from) 0 parts () of
           Inl e \<Rightarrow> Inl e
         | Inr _ \<Rightarrow>
             if from = Anthropic
             then (case decodeAnthropicBlocksChecked id v of
                     Inl e \<Rightarrow> Inl (ImageBlocks e) | Inr bs \<Rightarrow> Inr (OutBlocks bs))
             else (case decodeOpenAIBlocksChecked id v of
                     Inl e \<Rightarrow> Inl (ImageBlocks e)
                   | Inr bs \<Rightarrow> (case each split_data_uri 0 bs [] of
                       Inl e \<Rightarrow> Inl e | Inr bs \<Rightarrow> Inr (OutBlocks bs))))
     | _ \<Rightarrow> Inr (OutJson v))"

subsection \<open>Chat\<close>

definition empty_request :: "json_object \<Rightarrow> bridge_request" where
  "empty_request input =
    \<lparr>rq_Model = StringAt input [''model''], rq_System = [], rq_Developer = [], rq_Messages = [], rq_Tools = [],
     rq_ToolChoice = no_choice, rq_Stream = BoolAt input [''stream''], rq_Temperature = jget input ''temperature'',
     rq_TopP = jget input ''top_p'', rq_MaxTokens = JNull, rq_Stop = JNull, rq_Reasoning = JNull,
     rq_Metadata = jget input ''metadata'', rq_ResponseFormat = JNull, rq_ParallelToolCalls = JNull,
     rq_FrequencyPenalty = JNull, rq_PresencePenalty = JNull, rq_Seed = JNull, rq_PromptCacheKey = JNull,
     rq_SafetyIdentifier = JNull, rq_ServiceTier = JNull, rq_Store = JNull\<rparr>"

definition add_system :: "bridge_block list \<Rightarrow> bridge_request \<Rightarrow> bridge_request" where
  "add_system bs r = r\<lparr>rq_System := rq_System r @ bs\<rparr>"

definition add_developer :: "bridge_block list \<Rightarrow> bridge_request \<Rightarrow> bridge_request" where
  "add_developer bs r = r\<lparr>rq_Developer := rq_Developer r @ bs\<rparr>"

definition add_message :: "string \<Rightarrow> bridge_block list \<Rightarrow> bridge_request \<Rightarrow> bridge_request" where
  "add_message role bs r = r\<lparr>rq_Messages := rq_Messages r @ [\<lparr>bm_Role = role, bm_Blocks = bs\<rparr>]\<rparr>"

definition request_call :: "nat \<Rightarrow> nat \<Rightarrow> json \<Rightarrow> bridge_block list \<Rightarrow> request_error + bridge_block list" where
  "request_call i j raw bs =
    (case raw of
       JObj call \<Rightarrow>
         let fn = MapAt call [''function'']
         in Inr (bs @ [(block_of OutJson ''tool_call'')\<lparr>bk_ID := StringAt call [''id''],
              bk_Name := StringAt fn [''name''], bk_ArgumentsJSON := StringAt fn [''arguments'']\<rparr>])
     | _ \<Rightarrow> Inl (CallNotObject i j))"

definition carried_budget :: "json_object \<Rightarrow> bridge_request \<Rightarrow> bridge_request" where
  "carried_budget m r =
    (let budget = IntAt m [''reasoning_budget_tokens'']
     in if 0 < budget then r\<lparr>rq_Reasoning := withReasoningBudget (rq_Reasoning r) budget\<rparr> else r)"

definition place_chat ::
    "nat \<Rightarrow> json_object \<Rightarrow> string \<Rightarrow> bridge_block list \<Rightarrow> bridge_request \<Rightarrow> request_error + bridge_request" where
  "place_chat i m role bs r =
    (if role = ''system'' then Inr (add_system bs r)
     else if role = ''developer'' then Inr (add_developer bs r)
     else if role = ''tool'' then
       Inr (add_message ''user'' [(block_of OutJson ''tool_result'')\<lparr>bk_CallID := StringAt m [''tool_call_id''],
              bk_Result := OutJson (jget m ''content'')\<rparr>] r)
     else if role = ''user'' \<or> role = ''assistant'' then Inr (add_message role bs r)
     else Inl (BadRole i role))"

definition chat_message :: "nat \<Rightarrow> json \<Rightarrow> bridge_request \<Rightarrow> request_error + bridge_request" where
  "chat_message i raw r =
    (case raw of
       JObj m \<Rightarrow>
         let role = StringAt m [''role'']
         in (case decodeOpenAIBlocksChecked OutJson (jget m ''content'') of
               Inl e \<Rightarrow> Inl (MessageContent i e)
             | Inr bs \<Rightarrow>
                 let bs = (if role = ''assistant'' then decodeChatReasoning m @ bs else bs);
                     r = (if role = ''assistant'' then carried_budget m r else r)
                 in (case each (request_call i) 0 (SliceAt m [''tool_calls'']) bs of
                       Inl e \<Rightarrow> Inl e
                     | Inr bs \<Rightarrow> place_chat i m role bs r))
     | _ \<Rightarrow> Inl (MessageNotObject i))"

definition chat_tool :: "nat \<Rightarrow> json \<Rightarrow> bridge_tool list \<Rightarrow> request_error + bridge_tool list" where
  "chat_tool i raw ts =
    (case raw of
       JObj tool \<Rightarrow>
         if StringAt tool [''type''] \<noteq> ''function'' then Inl (NotFunctionTool i)
         else let fn = MapAt tool [''function'']
              in Inr (ts @ [\<lparr>bt_Name = StringAt fn [''name''], bt_Description = StringAt fn [''description''],
                   bt_Schema = jget fn ''parameters'', bt_Strict = BoolAt fn [''strict'']\<rparr>])
     | _ \<Rightarrow> Inl (NotFunctionTool i))"

definition decode_chat_request :: "json_object \<Rightarrow> request_error + bridge_request" where
  "decode_chat_request input =
    (let r = (empty_request input)\<lparr>
           rq_MaxTokens := FirstAny [jget input ''max_completion_tokens'', jget input ''max_tokens''],
           rq_Stop := jget input ''stop'',
           rq_Reasoning := FirstAny [jget input ''reasoning_effort'', jget input ''reasoning'']\<rparr>
     in case each chat_message 0 (SliceAt input [''messages'']) r of
          Inl e \<Rightarrow> Inl e
        | Inr r \<Rightarrow>
            (case each chat_tool 0 (SliceAt input [''tools'']) [] of
               Inl e \<Rightarrow> Inl e
             | Inr ts \<Rightarrow>
                 Inr (r\<lparr>rq_Tools := ts, rq_ToolChoice := decodeChatToolChoice (jget input ''tool_choice''),
                   rq_ResponseFormat := jget input ''response_format'',
                   rq_ParallelToolCalls := jget input ''parallel_tool_calls'',
                   rq_FrequencyPenalty := jget input ''frequency_penalty'',
                   rq_PresencePenalty := jget input ''presence_penalty'', rq_Seed := jget input ''seed'',
                   rq_PromptCacheKey := jget input ''prompt_cache_key'',
                   rq_SafetyIdentifier := jget input ''safety_identifier'',
                   rq_ServiceTier := jget input ''service_tier'', rq_Store := jget input ''store''\<rparr>)))"

subsection \<open>Responses\<close>

definition bridgeBlocksOnlyTools :: "bridge_block list \<Rightarrow> bool" where
  "bridgeBlocksOnlyTools bs =
    (bs \<noteq> [] \<and> list_all (\<lambda>b. bk_Kind b = ''tool_call'' \<or> bk_Kind b = ''tool_result'') bs)"

definition appendBridgeBlock :: "string \<Rightarrow> bridge_block \<Rightarrow> bridge_message list \<Rightarrow> bridge_message list" where
  "appendBridgeBlock role b ms =
    (if ms \<noteq> [] \<and> bm_Role (last ms) = role \<and> bridgeBlocksOnlyTools (bm_Blocks (last ms))
     then butlast ms @ [(last ms)\<lparr>bm_Blocks := bm_Blocks (last ms) @ [b]\<rparr>]
     else ms @ [\<lparr>bm_Role = role, bm_Blocks = [b]\<rparr>])"

definition append_block :: "string \<Rightarrow> bridge_block \<Rightarrow> bridge_request \<Rightarrow> bridge_request" where
  "append_block role b r = r\<lparr>rq_Messages := appendBridgeBlock role b (rq_Messages r)\<rparr>"

definition place_item :: "string \<Rightarrow> bridge_block list \<Rightarrow> bridge_request \<Rightarrow> bridge_request" where
  "place_item role bs r =
    (if role = ''system'' then add_system bs r
     else if role = ''developer'' then add_developer bs r
     else if role = ''user'' \<or> role = ''assistant'' then add_message role bs r
     else r)"

definition response_item :: "nat \<Rightarrow> json \<Rightarrow> bridge_request \<Rightarrow> request_error + bridge_request" where
  "response_item i raw r =
    (case raw of
       JObj item \<Rightarrow>
         let kind = StringAt item [''type'']
         in if kind = ''reasoning'' then Inr (fold (append_block ''assistant'') (decodeResponsesReasoning item) r)
            else if kind = ''function_call'' then
              Inr (append_block ''assistant'' ((block_of OutJson ''tool_call'')\<lparr>
                bk_ID := FirstString [StringAt item [''call_id''], StringAt item [''id'']],
                bk_Name := StringAt item [''name''], bk_ArgumentsJSON := StringAt item [''arguments'']\<rparr>) r)
            else if kind = ''function_call_output'' then
              Inr (append_block ''user'' ((block_of OutJson ''tool_result'')\<lparr>bk_CallID := StringAt item [''call_id''],
                bk_Result := OutJson (jget item ''output'')\<rparr>) r)
            else if kind = ''message'' \<or> kind = [] then
              (case decodeOpenAIBlocksChecked OutJson (jget item ''content'') of
                 Inl e \<Rightarrow> Inl (ItemContent i e)
               | Inr bs \<Rightarrow> Inr (place_item (StringAt item [''role'']) bs r))
            else Inl (BadItem i kind)
     | _ \<Rightarrow> Inl (ItemNotObject i))"

definition response_tool :: "nat \<Rightarrow> json \<Rightarrow> bridge_tool list \<Rightarrow> request_error + bridge_tool list" where
  "response_tool i raw ts =
    (case raw of
       JObj tool \<Rightarrow>
         if StringAt tool [''type''] \<noteq> ''function'' then Inl (NotFunctionTool i)
         else Inr (ts @ [\<lparr>bt_Name = StringAt tool [''name''], bt_Description = StringAt tool [''description''],
                bt_Schema = jget tool ''parameters'', bt_Strict = BoolAt tool [''strict'']\<rparr>])
     | _ \<Rightarrow> Inl (NotFunctionTool i))"

definition response_input :: "json \<Rightarrow> bridge_request \<Rightarrow> request_error + bridge_request" where
  "response_input v r =
    (case v of
       JStr s \<Rightarrow> Inr (add_message ''user'' [(block_of OutJson ''text'')\<lparr>bk_Text := s\<rparr>] r)
     | JList items \<Rightarrow> each response_item 0 items r
     | _ \<Rightarrow> Inl BadInput)"

definition decode_responses_request :: "json_object \<Rightarrow> request_error + bridge_request" where
  "decode_responses_request input =
    (let r = (empty_request input)\<lparr>rq_MaxTokens := jget input ''max_output_tokens'', rq_Stop := jget input ''stop'',
           rq_Reasoning := FirstAny [jget input ''reasoning'', jget input ''reasoning_effort'']\<rparr>
     in case decodeOpenAIBlocksChecked OutJson (jget input ''instructions'') of
          Inl e \<Rightarrow> Inl (InstructionsContent e)
        | Inr instructions \<Rightarrow>
            (case response_input (jget input ''input'') (add_system instructions r) of
               Inl e \<Rightarrow> Inl e
             | Inr r \<Rightarrow>
                 (case each response_tool 0 (SliceAt input [''tools'']) [] of
                    Inl e \<Rightarrow> Inl e
                  | Inr ts \<Rightarrow>
                      Inr (r\<lparr>rq_Tools := ts, rq_ToolChoice := decodeResponsesToolChoice (jget input ''tool_choice''),
                        rq_ResponseFormat := JObj (MapAt input [''text'', ''format'']),
                        rq_ParallelToolCalls := jget input ''parallel_tool_calls'',
                        rq_PromptCacheKey := jget input ''prompt_cache_key'',
                        rq_SafetyIdentifier := jget input ''safety_identifier'',
                        rq_ServiceTier := jget input ''service_tier'', rq_Store := jget input ''store''\<rparr>))))"

subsection \<open>Anthropic\<close>

definition anthropic_message :: "nat \<Rightarrow> json \<Rightarrow> bridge_request \<Rightarrow> request_error + bridge_request" where
  "anthropic_message i raw r =
    (case raw of
       JObj m \<Rightarrow>
         let role = StringAt m [''role'']; decoded = decodeAnthropicBlocksChecked OutJson (jget m ''content'')
         in if role \<notin> {''system'', ''developer'', ''user'', ''assistant''} then Inl (BadRole i role)
            else (case decoded of
                    Inl e \<Rightarrow> Inl (MessageContent i e)
                  | Inr bs \<Rightarrow>
                      Inr (if role = ''system'' then add_system bs r
                           else if role = ''developer'' then add_developer bs r
                           else add_message role bs r))
     | _ \<Rightarrow> Inl (MessageNotObject i))"

definition anthropic_tool :: "nat \<Rightarrow> json \<Rightarrow> bridge_tool list \<Rightarrow> request_error + bridge_tool list" where
  "anthropic_tool i raw ts =
    (case raw of
       JObj tool \<Rightarrow>
         Inr (ts @ [\<lparr>bt_Name = StringAt tool [''name''], bt_Description = StringAt tool [''description''],
           bt_Schema = jget tool ''input_schema'', bt_Strict = False\<rparr>])
     | _ \<Rightarrow> Inl (ToolNotObject i))"

definition decode_anthropic_request :: "json_object \<Rightarrow> request_error + bridge_request" where
  "decode_anthropic_request input =
    (let r = (empty_request input)\<lparr>rq_MaxTokens := jget input ''max_tokens'', rq_Stop := jget input ''stop_sequences'',
           rq_Reasoning := anthropicReasoning input\<rparr>
     in case decodeAnthropicBlocksChecked OutJson (jget input ''system'') of
          Inl e \<Rightarrow> Inl (SystemContent e)
        | Inr system \<Rightarrow>
            (case each anthropic_message 0 (SliceAt input [''messages'']) (r\<lparr>rq_System := system\<rparr>) of
               Inl e \<Rightarrow> Inl e
             | Inr r \<Rightarrow>
                 (case each anthropic_tool 0 (SliceAt input [''tools'']) [] of
                    Inl e \<Rightarrow> Inl e
                  | Inr ts \<Rightarrow>
                      Inr (r\<lparr>rq_Tools := ts,
                        rq_ToolChoice := decodeAnthropicToolChoice (jget input ''tool_choice'')\<rparr>))))"

subsection \<open>The request\<close>

definition decode_result ::
    "protocol \<Rightarrow> nat \<Rightarrow> nat \<Rightarrow> bridge_block \<Rightarrow> bridge_block list \<Rightarrow> request_error + bridge_block list" where
  "decode_result p i j b bs =
    (case (bk_Kind b = ''tool_result'' \<and> p \<noteq> Chat, bk_Result b) of
       (True, OutJson v) \<Rightarrow>
         (case decodeToolImages p v of
            Inl e \<Rightarrow> Inl (BadToolResult i j e)
          | Inr (OutBlocks images) \<Rightarrow>
              if bk_CallID b = [] then Inl (ImagesWithoutCall i) else Inr (bs @ [b\<lparr>bk_Result := OutBlocks images\<rparr>])
          | Inr out \<Rightarrow> Inr (bs @ [b\<lparr>bk_Result := out\<rparr>]))
     | _ \<Rightarrow> Inr (bs @ [b]))"

definition decode_results ::
    "protocol \<Rightarrow> nat \<Rightarrow> bridge_message \<Rightarrow> bridge_message list \<Rightarrow> request_error + bridge_message list" where
  "decode_results p i m ms =
    (case each (decode_result p i) 0 (bm_Blocks m) [] of
       Inl e \<Rightarrow> Inl e
     | Inr bs \<Rightarrow> Inr (ms @ [m\<lparr>bm_Blocks := bs\<rparr>]))"

definition decodeBridgeRequest :: "protocol \<Rightarrow> json_object \<Rightarrow> request_error + bridge_request" where
  "decodeBridgeRequest p input =
    (case (case p of
             Chat \<Rightarrow> decode_chat_request input
           | Responses \<Rightarrow> decode_responses_request input
           | Anthropic \<Rightarrow> decode_anthropic_request input
           | _ \<Rightarrow> Inl (BadProtocol p)) of
       Inl e \<Rightarrow> Inl e
     | Inr r \<Rightarrow>
         (case each (decode_results p) 0 (rq_Messages r) [] of
            Inl e \<Rightarrow> Inl e
          | Inr ms \<Rightarrow> Inr (r\<lparr>rq_Messages := ms\<rparr>)))"

subsection \<open>The available tools\<close>

text \<open>The tools kept, whether one was dropped, and the number of functions.\<close>

definition subset_tool ::
    "nat \<Rightarrow> json \<Rightarrow> json list \<times> bool \<times> nat \<Rightarrow> request_error + json list \<times> bool \<times> nat" where
  "subset_tool i raw s =
    (case s of (kept, dropped, count) \<Rightarrow>
      let kind = StringAt (as_obj raw) [''type'']
      in if kind = [] then Inl (ToolUntyped i)
         else if kind = ''namespace'' \<or> kind = ''custom'' then Inl (ToolUnprepared i)
         else if kind \<noteq> ''function'' then Inr (kept, True, count)
         else Inr (kept @ [raw], dropped, Suc count))"

definition tool_label :: "protocol \<Rightarrow> json_object \<Rightarrow> string" where
  "tool_label from tool = StringAt tool (if from = Chat then [''function'', ''name''] else [''name''])"

definition check_choice :: "protocol \<Rightarrow> json \<Rightarrow> json list \<Rightarrow> nat \<Rightarrow> request_error option" where
  "check_choice from choice tools count =
    (case choice of
       JStr s \<Rightarrow> if s = ''required'' \<and> count = 0 then Some ChoiceWithoutTools else None
     | JObj c \<Rightarrow>
         let kind = StringAt c [''type'']; name = tool_label from c
         in if kind = ''function'' then
              (if list_ex (\<lambda>raw. jget (as_obj raw) ''type'' = JStr ''function'' \<and> name \<noteq> [] \<and>
                    name = tool_label from (as_obj raw)) tools
               then None else Some ChoiceUnavailable)
            else if kind \<noteq> ''auto'' \<and> kind \<noteq> ''none'' \<and> kind \<noteq> [] then Some (ChoiceUnsupported kind)
            else None
     | _ \<Rightarrow> None)"

definition array_or_nil :: "json \<Rightarrow> bool" where
  "array_or_nil v = (case v of JNull \<Rightarrow> True | JList _ \<Rightarrow> True | _ \<Rightarrow> False)"

definition FunctionToolSubset :: "json_object \<Rightarrow> protocol \<Rightarrow> request_error + json_object" where
  "FunctionToolSubset input from =
    (if from \<noteq> Chat \<and> from \<noteq> Responses then Inr input
     else
       let raw = jget input ''tools''
       in if \<not> array_or_nil raw then Inl ToolsNotArray
          else (case each subset_tool 0 (as_list raw) ([], False, 0) of
            Inl e \<Rightarrow> Inl e
          | Inr (kept, dropped, count) \<Rightarrow>
              (case check_choice from (jget input ''tool_choice'') (as_list raw) count of
                 Some e \<Rightarrow> Inl e
               | None \<Rightarrow>
                   Inr (if \<not> dropped then input
                        else if kept = [] then jdelete ''tools'' input
                        else jset ''tools'' (JList kept) input))))"

end
