(* ===== verification/RequestEncode.thy ===== *)
theory RequestEncode
  imports RequestDecode "HOL-Library.List_Lexorder" "HOL-Library.Char_ord"
begin

text \<open>
  Encoding a request from the common form: \<open>encodeBridgeRequest\<close> of internal/core/protocol/request.go,
  the texts of tool results of tool_images.go, and \<open>ConvertRequest\<close> of bridge.go. The maps
  \<open>pending\<close> and \<open>pendingResults\<close> of the Chat encoder are a list of keys and an association list; the
  random draws of the Responses encoder are counted.
\<close>

subsection \<open>Validation\<close>

definition file_without_data :: "bridge_block \<Rightarrow> bool" where
  "file_without_data b = (bk_Kind b = ''file'' \<and> bk_FileID b \<noteq> [] \<and> bk_Data b = [] \<and> bk_URL b = [])"

definition validateBridgeRequest :: "protocol \<Rightarrow> bridge_request \<Rightarrow> request_error option" where
  "validateBridgeRequest p r =
    (if p = Responses \<and> list_ex (\<lambda>b. bk_Kind b = ''file'') (rq_System r) then Some FileInInstructions
     else case List.find (\<lambda>b. p = Anthropic \<and> file_without_data b)
         (rq_System r @ rq_Developer r @ concat (map bm_Blocks (rq_Messages r))) of
       Some b \<Rightarrow> Some (FileWithoutData (bk_FileID b))
     | None \<Rightarrow> None)"

subsection \<open>Texts of tool results\<close>

definition image_marker :: "json_codec \<Rightarrow> string \<Rightarrow> nat \<Rightarrow> string" where
  "image_marker jc call n =
    ''[tool_image call_id='' @ bridgeArgumentsJSON jc ((block_of OutJson [])\<lparr>bk_Arguments := JStr call\<rparr>) @
    '' index='' @ utoa n @ '']''"

fun tool_image_parts :: "json_codec \<Rightarrow> string \<Rightarrow> nat \<Rightarrow> inner_block list \<Rightarrow> string \<times> inner_block list" where
  "tool_image_parts jc call n [] = ([], [])"
| "tool_image_parts jc call n (b # bs) =
    (if bk_Kind b = ''text''
     then (case tool_image_parts jc call n bs of (str, images) \<Rightarrow> (bk_Text b @ str, images))
     else
       let marker = image_marker jc call (Suc n)
       in case tool_image_parts jc call (Suc n) bs of
            (str, images) \<Rightarrow>
              (CHR 0x0A # marker @ CHR 0x0A # str, (block_of id ''text'')\<lparr>bk_Text := marker\<rparr> # b # images))"

definition chatToolImages :: "json_codec \<Rightarrow> bridge_block \<Rightarrow> string \<times> inner_block list" where
  "chatToolImages jc b =
    (case bk_Result b of
       OutJson v \<Rightarrow> (bridgeToolResultContent jc v, [])
     | OutBlocks bs \<Rightarrow> tool_image_parts jc (bk_CallID b) 0 bs)"

definition response_image_part :: "inner_block \<Rightarrow> json" where
  "response_image_part b =
    (if bk_Kind b = ''text'' then JObj [(''type'', JStr ''input_text''), (''text'', JStr (bk_Text b))]
     else JObj [(''type'', JStr ''input_image''),
            (''image_url'', JStr (if bk_URL b = [] then data_url b else bk_URL b))])"

definition responsesToolContent :: "json_codec \<Rightarrow> tool_output \<Rightarrow> json" where
  "responsesToolContent jc out =
    (case out of
       OutJson v \<Rightarrow> JStr (bridgeToolResultContent jc v)
     | OutBlocks bs \<Rightarrow> JList (map response_image_part bs))"

subsection \<open>Chat\<close>

record chat_encoding =
  ce_messages :: "json list"
  ce_pending :: "string list"
  ce_results :: "(string \<times> bridge_block) list"
  ce_order :: "string list"
  ce_deferred :: "bridge_block list list"
  ce_carried :: bool

definition chat_entry :: "string \<Rightarrow> json \<Rightarrow> json" where
  "chat_entry role content = JObj [(''role'', JStr role), (''content'', content)]"

definition missingToolIDs :: "string list \<Rightarrow> string list \<Rightarrow> string list" where
  "missingToolIDs order pending =
    (let missing = filter (\<lambda>k. k \<in> set pending) order
     in if length missing = length pending then missing
        else sort (missing @ filter (\<lambda>k. k \<notin> set missing) pending))"

definition emit_entry :: "json \<Rightarrow> chat_encoding \<Rightarrow> chat_encoding" where
  "emit_entry v s = s\<lparr>ce_messages := ce_messages s @ [v]\<rparr>"

definition flush_deferred :: "chat_encoding \<Rightarrow> chat_encoding" where
  "flush_deferred s =
    s\<lparr>ce_messages := ce_messages s @
        map (\<lambda>bs. chat_entry ''user'' (encodeChatBlocks bs)) (filter (\<lambda>bs. bs \<noteq> []) (ce_deferred s)),
      ce_deferred := []\<rparr>"

definition carry_budget :: "bridge_request \<Rightarrow> json_object \<times> chat_encoding \<Rightarrow> json_object \<times> chat_encoding" where
  "carry_budget r x =
    (case x of (encoded, s) \<Rightarrow>
      if ce_carried s \<or> reasoningBudget (rq_Reasoning r) \<le> 0 then (encoded, s)
      else (jset ''reasoning_budget_tokens'' (JInt (reasoningBudget (rq_Reasoning r))) encoded, s\<lparr>ce_carried := True\<rparr>))"

definition empty_assistant :: json_object where
  "empty_assistant = [(''role'', JStr ''assistant''), (''content'', JNull)]"

definition carry_budget_only :: "bridge_request \<Rightarrow> chat_encoding \<Rightarrow> chat_encoding" where
  "carry_budget_only r s =
    (if ce_carried s \<or> reasoningBudget (rq_Reasoning r) \<le> 0 then s
     else case carry_budget r (empty_assistant, s) of (encoded, s) \<Rightarrow> emit_entry (JObj encoded) s)"

definition request_call_json :: "json_codec \<Rightarrow> bridge_block \<Rightarrow> json" where
  "request_call_json jc b =
    JObj [(''id'', JStr (bk_ID b)), (''type'', JStr ''function''),
          (''function'', JObj [(''name'', JStr (bk_Name b)), (''arguments'', JStr (bridgeArgumentsJSON jc b))])]"

definition note_call :: "nat \<Rightarrow> nat \<Rightarrow> bridge_block \<Rightarrow> chat_encoding \<Rightarrow> request_error + chat_encoding" where
  "note_call i j b s =
    (if bk_ID b = [] \<or> bk_Name b = [] then Inl (CallIncomplete i)
     else if bk_ID b \<in> set (ce_pending s) then Inl (DuplicateCall i (bk_ID b))
     else Inr (s\<lparr>ce_pending := ce_pending s @ [bk_ID b], ce_order := ce_order s @ [bk_ID b]\<rparr>))"

definition of_kind :: "string \<Rightarrow> bridge_block list \<Rightarrow> bridge_block list" where
  "of_kind k bs = filter (\<lambda>b. bk_Kind b = k) bs"

definition content_blocks :: "bridge_block list \<Rightarrow> bridge_block list" where
  "content_blocks bs = filter (\<lambda>b. bk_Kind b \<notin> {''reasoning'', ''tool_call'', ''tool_result''}) bs"

definition assistant_fields ::
    "json_codec \<Rightarrow> bridge_block list \<Rightarrow> bridge_block list \<Rightarrow> bridge_block list \<Rightarrow> json_object \<Rightarrow> json_object" where
  "assistant_fields jc content reasoning calls encoded =
    (let encoded = (case bridgeReasoningText reasoning of
           None \<Rightarrow> encoded | Some str \<Rightarrow> jset ''reasoning_content'' (JStr str) encoded);
         encoded = (if content \<noteq> [] then jset ''content'' (encodeChatBlocks content) encoded else encoded)
     in if calls \<noteq> [] then jset ''tool_calls'' (JList (map (request_call_json jc) calls)) encoded else encoded)"

definition chat_assistant ::
    "json_codec \<Rightarrow> bridge_request \<Rightarrow> nat \<Rightarrow> bridge_block list \<Rightarrow> chat_encoding \<Rightarrow> request_error + chat_encoding" where
  "chat_assistant jc r i bs s =
    (let content = content_blocks bs; reasoning = of_kind ''reasoning'' bs; calls = of_kind ''tool_call'' bs
     in if ce_pending s \<noteq> [] then Inl (CallsUnanswered i (missingToolIDs (ce_order s) (ce_pending s)))
        else if of_kind ''tool_result'' bs \<noteq> [] then Inl (ResultsOfAssistant i)
        else case carry_budget r (empty_assistant, s) of
          (encoded, s) \<Rightarrow>
            (case each (note_call i) 0 calls s of
               Inl e \<Rightarrow> Inl e
             | Inr s \<Rightarrow>
                 Inr (if content \<noteq> [] \<or> reasoning \<noteq> [] \<or> calls \<noteq> []
                      then (emit_entry (JObj (assistant_fields jc content reasoning calls encoded)) s)\<lparr>ce_carried := True\<rparr>
                      else s)))"

definition note_result :: "nat \<Rightarrow> nat \<Rightarrow> bridge_block \<Rightarrow> chat_encoding \<Rightarrow> request_error + chat_encoding" where
  "note_result i j b s =
    (if map_of (ce_results s) (bk_CallID b) \<noteq> None then Inl (DuplicateResult i (bk_CallID b))
     else if bk_CallID b \<notin> set (ce_pending s) then Inl (ResultWithoutCall i (bk_CallID b))
     else Inr (s\<lparr>ce_results := AList.update (bk_CallID b) b (ce_results s),
            ce_pending := removeAll (bk_CallID b) (ce_pending s)\<rparr>))"

definition result_of :: "chat_encoding \<Rightarrow> string \<Rightarrow> bridge_block" where
  "result_of s k = (case map_of (ce_results s) k of None \<Rightarrow> block_of OutJson [] | Some b \<Rightarrow> b)"

definition result_entry :: "json_codec \<Rightarrow> chat_encoding \<Rightarrow> string \<Rightarrow> json" where
  "result_entry jc s k =
    JObj [(''role'', JStr ''tool''), (''tool_call_id'', JStr k),
          (''content'', JStr (fst (chatToolImages jc (result_of s k))))]"

definition attachments :: "json_codec \<Rightarrow> chat_encoding \<Rightarrow> json list" where
  "attachments jc s =
    map (\<lambda>images. chat_entry ''user'' (encodeChatBlocks images))
      (filter (\<lambda>images. images \<noteq> []) (map (\<lambda>k. snd (chatToolImages jc (result_of s k))) (ce_order s)))"

definition deliver_results :: "json_codec \<Rightarrow> chat_encoding \<Rightarrow> chat_encoding" where
  "deliver_results jc s =
    (if ce_pending s \<noteq> [] \<or> ce_order s = [] then s
     else
       (flush_deferred (s\<lparr>ce_messages := ce_messages s @ map (result_entry jc s) (ce_order s) @ attachments jc s\<rparr>))
         \<lparr>ce_order := [], ce_results := []\<rparr>)"

definition place_content :: "bridge_block list \<Rightarrow> chat_encoding \<Rightarrow> chat_encoding" where
  "place_content content s =
    (if content = [] then s
     else if ce_order s \<noteq> [] \<or> ce_deferred s \<noteq> [] then s\<lparr>ce_deferred := ce_deferred s @ [content]\<rparr>
     else emit_entry (chat_entry ''user'' (encodeChatBlocks content)) s)"

definition chat_user ::
    "json_codec \<Rightarrow> nat \<Rightarrow> bridge_block list \<Rightarrow> chat_encoding \<Rightarrow> request_error + chat_encoding" where
  "chat_user jc i bs s =
    (if of_kind ''tool_call'' bs \<noteq> [] then Inl (CallsOfUser i)
     else case each (note_result i) 0 (of_kind ''tool_result'' bs) s of
       Inl e \<Rightarrow> Inl e
     | Inr s \<Rightarrow> Inr (deliver_results jc (place_content (content_blocks bs) s)))"

definition chat_turn ::
    "json_codec \<Rightarrow> bridge_request \<Rightarrow> nat \<Rightarrow> bridge_message \<Rightarrow> chat_encoding \<Rightarrow> request_error + chat_encoding" where
  "chat_turn jc r i m s =
    (if bm_Role m = ''assistant'' then chat_assistant jc r i (bm_Blocks m) s else chat_user jc i (bm_Blocks m) s)"

definition chat_start :: "bridge_request \<Rightarrow> chat_encoding" where
  "chat_start r =
    \<lparr>ce_messages =
       (if rq_System r \<noteq> [] then [chat_entry ''system'' (encodeChatBlocks (rq_System r))] else []) @
       (if rq_Developer r \<noteq> [] then [chat_entry ''developer'' (encodeChatBlocks (rq_Developer r))] else []),
     ce_pending = [], ce_results = [], ce_order = [], ce_deferred = [], ce_carried = False\<rparr>"

definition chat_messages :: "json_codec \<Rightarrow> bridge_request \<Rightarrow> request_error + json list" where
  "chat_messages jc r =
    (case each (chat_turn jc r) 0 (rq_Messages r) (chat_start r) of
       Inl e \<Rightarrow> Inl e
     | Inr s \<Rightarrow>
         if ce_pending s \<noteq> [] then Inl (ResultsMissing (missingToolIDs (ce_order s) (ce_pending s)))
         else Inr (ce_messages (carry_budget_only r (flush_deferred s))))"

definition chat_tool_json :: "bridge_tool \<Rightarrow> json" where
  "chat_tool_json t =
    (let fn = [(''name'', JStr (bt_Name t)), (''description'', JStr (bt_Description t)),
               (''parameters'', schemaOrDefault (bt_Schema t))]
     in JObj [(''type'', JStr ''function''),
              (''function'', JObj (if bt_Strict t then fn @ [(''strict'', JBool True)] else fn))])"

definition put_tools :: "json list \<Rightarrow> json \<Rightarrow> json_object \<Rightarrow> json_object" where
  "put_tools tools choice out =
    (if tools = [] then out else Put (jset ''tools'' (JList tools) out) ''tool_choice'' choice)"

fun put_all :: "(string \<times> json) list \<Rightarrow> json_object \<Rightarrow> json_object" where
  "put_all [] m = m"
| "put_all ((k, v) # kvs) m = put_all kvs (Put m k v)"

definition request_head :: "bridge_request \<Rightarrow> json_object" where
  "request_head r =
    put_all [(''temperature'', rq_Temperature r), (''top_p'', rq_TopP r)]
      [(''model'', JStr (rq_Model r)), (''stream'', JBool (rq_Stream r))]"

definition native_knobs :: "bridge_request \<Rightarrow> (string \<times> json) list" where
  "native_knobs r =
    [(''prompt_cache_key'', rq_PromptCacheKey r), (''safety_identifier'', rq_SafetyIdentifier r),
     (''service_tier'', rq_ServiceTier r), (''store'', rq_Store r)]"

definition encodeChatRequest :: "json_codec \<Rightarrow> bridge_request \<Rightarrow> request_error + json_object" where
  "encodeChatRequest jc r =
    (let out = put_all
           ([(''max_tokens'', rq_MaxTokens r), (''stop'', rq_Stop r),
             (''reasoning_effort'', reasoningEffort (rq_Reasoning r)),
             (''response_format'', chatResponseFormat (rq_ResponseFormat r)),
             (''parallel_tool_calls'', rq_ParallelToolCalls r), (''frequency_penalty'', rq_FrequencyPenalty r),
             (''presence_penalty'', rq_PresencePenalty r), (''seed'', rq_Seed r)] @ native_knobs r)
           (request_head r);
         out = (if rq_Stream r then jset ''stream_options'' (JObj [(''include_usage'', JBool True)]) out else out)
     in case chat_messages jc r of
          Inl e \<Rightarrow> Inl e
        | Inr ms \<Rightarrow>
            Inr (put_tools (map chat_tool_json (rq_Tools r)) (encodeChatToolChoice (rq_ToolChoice r))
              (jset ''messages'' (JList ms) out)))"

subsection \<open>Responses\<close>

definition flush_content :: "string \<Rightarrow> json list \<times> json list \<Rightarrow> json list \<times> json list" where
  "flush_content role x =
    (case x of (items, content) \<Rightarrow>
      if content = [] then (items, content)
      else (items @ [JObj [(''type'', JStr ''message''), (''role'', JStr (normalizeResponsesRole role)),
              (''content'', JList content)]], []))"

definition input_file :: "bridge_block \<Rightarrow> json" where
  "input_file b =
    JObj (jset ''filename'' (JStr (bk_Filename b)) (jset ''file_data'' (JStr (bk_Data b))
      (jset ''file_id'' (JStr (bk_FileID b)) [(''type'', JStr ''input_file'')])))"

definition response_block ::
    "json_codec \<Rightarrow> draws \<Rightarrow> string \<Rightarrow> bridge_block \<Rightarrow> (json list \<times> json list) \<times> nat \<Rightarrow> (json list \<times> json list) \<times> nat" where
  "response_block jc rnds role b x =
    (case x of ((items, content), k) \<Rightarrow>
      let flushed = flush_content role (items, content); kind = bk_Kind b
      in if kind = ''reasoning'' then
           (case encodeResponsesReasoningInput rnds b k of
              (None, k) \<Rightarrow> (flushed, k)
            | (Some item, k) \<Rightarrow> ((fst flushed @ [JObj item], snd flushed), k))
         else if kind = ''text'' then
           ((items, content @ [JObj [(''type'', JStr (if role = ''assistant'' then ''output_text'' else ''input_text'')),
               (''text'', JStr (bk_Text b))]]), k)
         else if kind = ''image'' then
           ((items, content @ [JObj [(''type'', JStr ''input_image''),
               (''image_url'', JStr (if bk_URL b = [] \<and> bk_Data b \<noteq> [] then data_url b else bk_URL b))]]), k)
         else if kind = ''file'' then ((items, content @ [input_file b]), k)
         else if kind = ''tool_call'' then
           ((fst flushed @ [JObj [(''type'', JStr ''function_call''), (''call_id'', JStr (bk_ID b)),
               (''name'', JStr (bk_Name b)), (''arguments'', JStr (bridgeArgumentsJSON jc b))]], snd flushed), k)
         else if kind = ''tool_result'' then
           ((fst flushed @ [JObj [(''type'', JStr ''function_call_output''), (''call_id'', JStr (bk_CallID b)),
               (''output'', responsesToolContent jc (bk_Result b))]], snd flushed), k)
         else ((items, content), k))"

definition response_message ::
    "json_codec \<Rightarrow> draws \<Rightarrow> bridge_message \<Rightarrow> json list \<times> nat \<Rightarrow> json list \<times> nat" where
  "response_message jc rnds m x =
    (case x of (items, k) \<Rightarrow>
      case fold (response_block jc rnds (bm_Role m)) (bm_Blocks m) ((items, []), k) of
        (s, k) \<Rightarrow> (fst (flush_content (bm_Role m) s), k))"

definition developer_item :: "bridge_request \<Rightarrow> json list" where
  "developer_item r =
    (if rq_Developer r = [] then []
     else [JObj [(''type'', JStr ''message''), (''role'', JStr ''developer''),
             (''content'', JList [JObj [(''type'', JStr ''input_text''), (''text'', JStr (bridgeBlocksText (rq_Developer r)))]])]])"

definition response_tool_json :: "bridge_tool \<Rightarrow> json" where
  "response_tool_json t =
    JObj [(''type'', JStr ''function''), (''name'', JStr (bt_Name t)), (''description'', JStr (bt_Description t)),
          (''parameters'', schemaOrDefault (bt_Schema t)), (''strict'', JBool (bt_Strict t))]"

definition encodeResponsesRequest :: "json_codec \<Rightarrow> draws \<Rightarrow> bridge_request \<Rightarrow> nat \<Rightarrow> json_object \<times> nat" where
  "encodeResponsesRequest jc rnds r k =
    (let out = put_all [(''max_output_tokens'', rq_MaxTokens r), (''stop'', rq_Stop r), (''metadata'', rq_Metadata r)]
           (request_head r);
         out = (if rq_System r \<noteq> [] then jset ''instructions'' (JStr (bridgeBlocksText (rq_System r))) out else out);
         out = (if rq_Reasoning r \<noteq> JNull then Put out ''reasoning'' (responsesReasoning (rq_Reasoning r)) else out);
         format = responsesTextFormat (rq_ResponseFormat r);
         out = (if format \<noteq> JNull then jset ''text'' (JObj [(''format'', format)]) out else out);
         out = put_all ((''parallel_tool_calls'', rq_ParallelToolCalls r) # native_knobs r) out
     in case fold (response_message jc rnds) (rq_Messages r) (developer_item r, k) of
          (items, k) \<Rightarrow>
            (put_tools (map response_tool_json (rq_Tools r)) (encodeResponsesToolChoice (rq_ToolChoice r))
              (jset ''input'' (JList items) out), k))"

subsection \<open>Anthropic\<close>

definition anthropic_role :: "bridge_message \<Rightarrow> string" where
  "anthropic_role m = (if bm_Role m = ''assistant'' then ''assistant'' else ''user'')"

text \<open>A message of the role of the last one is joined to it.\<close>

definition join_turn :: "string \<Rightarrow> json list \<Rightarrow> json list \<Rightarrow> json list" where
  "join_turn role content ms =
    (if ms \<noteq> [] \<and> StringAt (as_obj (last ms)) [''role''] = role
     then butlast ms @ [JObj (jset ''content''
            (JList (AsSlice (jget (as_obj (last ms)) ''content'') @ content)) (as_obj (last ms)))]
     else ms @ [JObj [(''role'', JStr role), (''content'', JList content)]])"

definition anthropic_turn :: "json_codec \<Rightarrow> bridge_message \<Rightarrow> json list \<Rightarrow> json list" where
  "anthropic_turn jc m ms =
    (let content = encodeAnthropicBlocks jc (bm_Blocks m)
     in if content = [] then ms else join_turn (anthropic_role m) content ms)"

definition anthropic_messages :: "json_codec \<Rightarrow> bridge_message list \<Rightarrow> json list" where
  "anthropic_messages jc ms = fold (anthropic_turn jc) ms []"

definition anthropic_tool_json :: "bridge_tool \<Rightarrow> json" where
  "anthropic_tool_json t =
    JObj [(''name'', JStr (bt_Name t)), (''description'', JStr (bt_Description t)),
          (''input_schema'', schemaOrDefault (bt_Schema t))]"

definition encodeAnthropicRequest :: "json_codec \<Rightarrow> bridge_request \<Rightarrow> json_object" where
  "encodeAnthropicRequest jc r =
    (let out = put_all [(''stop_sequences'', rq_Stop r)] (request_head r);
         out = jset ''max_tokens'' (if rq_MaxTokens r = JNull then JInt 4096 else rq_MaxTokens r) out;
         out = (case anthropicThinking (rq_Reasoning r) of
                  (thinking, config) \<Rightarrow>
                    if thinking \<noteq> JNull then Put (jset ''thinking'' thinking out) ''output_config'' config else out);
         out = (if rq_System r \<noteq> [] \<or> rq_Developer r \<noteq> []
                then jset ''system'' (JList (encodeAnthropicBlocks jc (rq_System r @ rq_Developer r))) out else out);
         out = jset ''messages'' (JList (anthropic_messages jc (rq_Messages r))) out
     in if tc_Mode (rq_ToolChoice r) \<noteq> ''none''
        then put_tools (map anthropic_tool_json (rq_Tools r)) (encodeAnthropicToolChoice (rq_ToolChoice r)) out
        else out)"

subsection \<open>Conversion\<close>

definition encodeBridgeRequest ::
    "json_codec \<Rightarrow> draws \<Rightarrow> protocol \<Rightarrow> bridge_request \<Rightarrow> nat \<Rightarrow> request_error + json_object" where
  "encodeBridgeRequest jc rnds p r k =
    (case validateBridgeRequest p r of
       Some e \<Rightarrow> Inl e
     | None \<Rightarrow>
         (case p of
            Chat \<Rightarrow> encodeChatRequest jc r
          | Responses \<Rightarrow> Inr (fst (encodeResponsesRequest jc rnds r k))
          | Anthropic \<Rightarrow> Inr (encodeAnthropicRequest jc r)
          | _ \<Rightarrow> Inl (BadProtocol p)))"

definition CloneMap :: "json_codec \<Rightarrow> json_object \<Rightarrow> json_object" where
  "CloneMap jc m =
    (case cloneJSONTree (JObj m) of
       Some v \<Rightarrow> as_obj v
     | None \<Rightarrow>
         (case jc_marshal jc (JObj m) of
            None \<Rightarrow> []
          | Some s \<Rightarrow> (case unmarshal_object jc s of None \<Rightarrow> [] | Some out \<Rightarrow> out)))"

definition ConvertRequest ::
    "json_codec \<Rightarrow> draws \<Rightarrow> nat \<Rightarrow> protocol \<Rightarrow> protocol \<Rightarrow> json_object \<Rightarrow> request_error + json_object" where
  "ConvertRequest jc rnds k from target input =
    (if from = target then Inr (CloneMap jc input)
     else case FunctionToolSubset input from of
       Inl e \<Rightarrow> Inl e
     | Inr filtered \<Rightarrow>
         (case decodeBridgeRequest from filtered of
            Inl e \<Rightarrow> Inl e
          | Inr r \<Rightarrow> encodeBridgeRequest jc rnds target r k))"

end
