(* ===== verification/RequestProps.thy ===== *)
theory RequestProps
  imports RequestEncode
begin

text \<open>
  What a converted request satisfies: the tool calls of a Chat request are answered one by one, the turns
  of an Anthropic request alternate, the common form is well typed, and the tools kept are functions.
\<close>

subsection \<open>Loops\<close>

lemma each_inv:
  assumes "\<And>i x s s'. x \<in> set xs \<Longrightarrow> P s \<Longrightarrow> f i x s = Inr s' \<Longrightarrow> P s'"
  shows "P s \<Longrightarrow> each f i xs s = Inr s' \<Longrightarrow> P s'"
  using assms
proof (induction f i xs s rule: each.induct)
  case (2 f i x xs s)
  then show ?case by (auto split: sum.splits)
qed simp

subsection \<open>Answered calls\<close>

definition entry_role :: "json \<Rightarrow> string" where
  "entry_role m = StringAt (as_obj m) [''role'']"

definition call_ids :: "json \<Rightarrow> string list" where
  "call_ids m = map (\<lambda>c. StringAt (as_obj c) [''id'']) (SliceAt (as_obj m) [''tool_calls''])"

text \<open>The calls that wait for their results after a message; None when the message is out of place.\<close>

definition expect :: "json \<Rightarrow> string list option \<Rightarrow> string list option" where
  "expect m waiting =
    (case waiting of
       None \<Rightarrow> None
     | Some [] \<Rightarrow>
         if entry_role m = ''tool'' \<or> \<not> distinct (call_ids m) \<or> [] \<in> set (call_ids m) then None
         else Some (call_ids m)
     | Some (k # ks) \<Rightarrow>
         if entry_role m = ''tool'' \<and> StringAt (as_obj m) [''tool_call_id''] = k then Some ks else None)"

definition calls_answered :: "json list \<Rightarrow> bool" where
  "calls_answered ms = (fold expect ms (Some []) = Some [])"

lemma expect_plain: "entry_role m \<noteq> ''tool'' \<Longrightarrow> call_ids m = [] \<Longrightarrow> expect m (Some []) = Some []"
  by (simp add: expect_def)

lemma fold_expect_plain:
  "(\<And>m. m \<in> set ms \<Longrightarrow> entry_role m \<noteq> ''tool'' \<and> call_ids m = []) \<Longrightarrow> fold expect ms (Some []) = Some []"
  by (induction ms) (simp_all add: expect_plain)

lemma chat_entry_plain: "role \<noteq> ''tool'' \<Longrightarrow> entry_role (chat_entry role c) \<noteq> ''tool'' \<and> call_ids (chat_entry role c) = []"
  by (simp add: entry_role_def call_ids_def chat_entry_def SliceAt_def StringAt_def AnyAt_def as_obj_def jget_def as_str_def)

lemma result_entries: "fold expect (map (result_entry jc s) ks) (Some (ks @ ls)) = Some ls"
proof (induction ks)
  case (Cons k ks)
  have "expect (result_entry jc s k) (Some (k # ks @ ls)) = Some (ks @ ls)"
    by (simp add: expect_def result_entry_def entry_role_def StringAt_def AnyAt_def as_obj_def jget_def as_str_def)
  with Cons show ?case by simp
qed simp

lemma attachments_plain: "m \<in> set (attachments jc s) \<Longrightarrow> entry_role m \<noteq> ''tool'' \<and> call_ids m = []"
  by (auto simp: attachments_def chat_entry_plain)

text \<open>The encoder: what is emitted so far waits exactly for the ordered calls.\<close>

definition encoding_ok :: "chat_encoding \<Rightarrow> bool" where
  "encoding_ok s =
    (fold expect (ce_messages s) (Some []) = Some (ce_order s) \<and> (ce_pending s = [] \<longleftrightarrow> ce_order s = []) \<and>
     (ce_order s = [] \<longrightarrow> ce_deferred s = []))"

lemma note_calls:
  "each (note_call i) j bs s = Inr s' \<Longrightarrow>
    s' = s\<lparr>ce_pending := ce_pending s @ map bk_ID bs, ce_order := ce_order s @ map bk_ID bs\<rparr> \<and>
    [] \<notin> set (map bk_ID bs) \<and> (distinct (ce_pending s) \<longrightarrow> distinct (ce_pending s @ map bk_ID bs))"
proof (induction bs arbitrary: j s)
  case (Cons b bs)
  from Cons.prems obtain t where t: "note_call i j b s = Inr t" "each (note_call i) (Suc j) bs t = Inr s'"
    by (auto split: sum.splits)
  from t(1) have b: "bk_ID b \<noteq> []" "bk_ID b \<notin> set (ce_pending s)"
    "t = s\<lparr>ce_pending := ce_pending s @ [bk_ID b], ce_order := ce_order s @ [bk_ID b]\<rparr>"
    by (auto simp: note_call_def split: if_splits)
  from Cons.IH [OF t(2)] b show ?case by auto
qed simp

lemma carry_budget_shape:
  assumes "carry_budget r (empty_assistant, s) = (encoded, s')"
  shows "s' = s\<lparr>ce_carried := ce_carried s'\<rparr> \<and> jget encoded ''role'' = JStr ''assistant'' \<and> jget encoded ''tool_calls'' = JNull"
proof (cases "ce_carried s \<or> reasoningBudget (rq_Reasoning r) \<le> 0")
  case True
  then show ?thesis using assms by (auto simp: carry_budget_def empty_assistant_def jget_def)
next
  case False
  then have "encoded = jset ''reasoning_budget_tokens'' (JInt (reasoningBudget (rq_Reasoning r))) empty_assistant"
    "s' = s\<lparr>ce_carried := True\<rparr>" using assms by (simp_all add: carry_budget_def)
  then show ?thesis by simp (simp add: empty_assistant_def jget_def)
qed

lemma assistant_entry:
  assumes "jget encoded ''role'' = JStr ''assistant''" "jget encoded ''tool_calls'' = JNull"
  shows "entry_role (JObj (assistant_fields jc content reasoning calls encoded)) = ''assistant''"
    "call_ids (JObj (assistant_fields jc content reasoning calls encoded)) = map bk_ID calls"
proof -
  let ?e = "assistant_fields jc content reasoning calls encoded"
  have r: "jget ?e ''role'' = JStr ''assistant''"
    using assms(1) by (simp add: assistant_fields_def Let_def split: option.splits)
  have c: "jget ?e ''tool_calls'' = (if calls = [] then JNull else JList (map (request_call_json jc) calls))"
    using assms(2) by (simp add: assistant_fields_def Let_def split: option.splits)
  from r show "entry_role (JObj ?e) = ''assistant''"
    by (simp add: entry_role_def StringAt_def AnyAt_def as_obj_def as_str_def)
  have o: "as_obj (JObj ?e) = ?e" by (simp add: as_obj_def)
  have i: "StringAt (as_obj (request_call_json jc b)) [''id''] = bk_ID b" for b
    by (simp add: request_call_json_def StringAt_def AnyAt_def as_obj_def jget_def as_str_def)
  have "SliceAt ?e [''tool_calls''] = map (request_call_json jc) calls"
    by (simp add: SliceAt_def AnyAt_def c as_list_def)
  then show "call_ids (JObj ?e) = map bk_ID calls"
    by (simp add: call_ids_def o i comp_def)
qed

lemma assistant_ok:
  assumes "chat_assistant jc r i bs s = Inr s'" "encoding_ok s"
  shows "encoding_ok s'"
proof -
  let ?calls = "of_kind ''tool_call'' bs"
  have p: "ce_pending s = []" using assms(1) by (auto simp: chat_assistant_def Let_def split: if_splits)
  with assms(2) have o: "ce_order s = []" "ce_deferred s = []" "fold expect (ce_messages s) (Some []) = Some []"
    by (auto simp: encoding_ok_def)
  obtain encoded t where t: "carry_budget r (empty_assistant, s) = (encoded, t)" by fastforce
  from carry_budget_shape [OF t]
  have same: "ce_pending t = []" "ce_order t = []" "ce_deferred t = []" "ce_messages t = ce_messages s"
    and e: "jget encoded ''role'' = JStr ''assistant''" "jget encoded ''tool_calls'' = JNull"
    using p o by (metis chat_encoding.ext_inject chat_encoding.surjective chat_encoding.update_convs(6))+
  from assms(1) t obtain u where u: "each (note_call i) 0 ?calls t = Inr u"
    and s': "s' = (if content_blocks bs \<noteq> [] \<or> of_kind ''reasoning'' bs \<noteq> [] \<or> ?calls \<noteq> []
       then (emit_entry (JObj (assistant_fields jc (content_blocks bs) (of_kind ''reasoning'' bs) ?calls encoded)) u)\<lparr>ce_carried := True\<rparr>
       else u)"
    by (auto simp: chat_assistant_def Let_def split: if_splits sum.splits)
  from note_calls [OF u] same have d: "distinct (map bk_ID ?calls)" "[] \<notin> set (map bk_ID ?calls)"
    "u = t\<lparr>ce_pending := map bk_ID ?calls, ce_order := map bk_ID ?calls\<rparr>" by auto
  note a = assistant_entry [OF e, of jc "content_blocks bs" "of_kind ''reasoning'' bs" ?calls]
  have x: "expect (JObj (assistant_fields jc (content_blocks bs) (of_kind ''reasoning'' bs) ?calls encoded)) (Some []) =
      Some (map bk_ID ?calls)"
    using d a by (simp add: expect_def)
  show ?thesis
    unfolding s' using d(3) same o x by (auto simp: encoding_ok_def emit_entry_def)
qed

lemma note_results:
  "each (note_result i) j bs s = Inr s' \<Longrightarrow>
    ce_messages s' = ce_messages s \<and> ce_order s' = ce_order s \<and> ce_deferred s' = ce_deferred s \<and>
    (ce_pending s = [] \<longrightarrow> ce_pending s' = [])"
proof (induction bs arbitrary: j s)
  case (Cons b bs)
  from Cons.prems obtain t where t: "note_result i j b s = Inr t" "each (note_result i) (Suc j) bs t = Inr s'"
    by (auto split: sum.splits)
  from t(1) have "t = s\<lparr>ce_results := AList.update (bk_CallID b) b (ce_results s),
      ce_pending := removeAll (bk_CallID b) (ce_pending s)\<rparr>"
    by (auto simp: note_result_def split: if_splits)
  with Cons.IH [OF t(2)] show ?case by auto
qed simp

lemma flushed_plain:
  "m \<in> set (map (\<lambda>bs. chat_entry ''user'' (encodeChatBlocks bs)) (filter (\<lambda>bs. bs \<noteq> []) dss)) \<Longrightarrow>
    entry_role m \<noteq> ''tool'' \<and> call_ids m = []"
  by (auto simp: chat_entry_plain)

lemma flush_ok: "encoding_ok s \<Longrightarrow> ce_order s = [] \<Longrightarrow> encoding_ok (flush_deferred s)"
  by (auto simp: encoding_ok_def flush_deferred_def)

lemma deliver_ok:
  assumes "fold expect (ce_messages s) (Some []) = Some (ce_order s)" "ce_order s = [] \<longrightarrow> ce_pending s = []"
    "ce_order s = [] \<longrightarrow> ce_deferred s = []"
  shows "encoding_ok (deliver_results jc s)"
proof (cases "ce_pending s \<noteq> [] \<or> ce_order s = []")
  case True
  then show ?thesis using assms by (auto simp: deliver_results_def encoding_ok_def)
next
  case False
  let ?flushed = "map (\<lambda>bs. chat_entry ''user'' (encodeChatBlocks bs)) (filter (\<lambda>bs. bs \<noteq> []) (ce_deferred s))"
  have r: "fold expect (map (result_entry jc s) (ce_order s)) (Some (ce_order s)) = Some []"
    using result_entries [of jc s "ce_order s" "[]"] by simp
  have a: "fold expect (attachments jc s) (Some []) = Some []" by (rule fold_expect_plain) (rule attachments_plain)
  have f: "fold expect ?flushed (Some []) = Some []" by (rule fold_expect_plain) (rule flushed_plain)
  from False have d: "deliver_results jc s =
     s\<lparr>ce_messages := (ce_messages s @ map (result_entry jc s) (ce_order s) @ attachments jc s) @ ?flushed,
       ce_deferred := [], ce_order := [], ce_results := []\<rparr>"
    by (simp add: deliver_results_def flush_deferred_def)
  have "fold expect ((ce_messages s @ map (result_entry jc s) (ce_order s) @ attachments jc s) @ ?flushed) (Some []) = Some []"
    by (simp only: fold_append comp_apply assms(1) r a f)
  with False show ?thesis unfolding d encoding_ok_def by simp
qed

lemma user_ok:
  assumes "chat_user jc i bs s = Inr s'" "encoding_ok s"
  shows "encoding_ok s'"
proof -
  from assms(1) obtain t where t: "each (note_result i) 0 (of_kind ''tool_result'' bs) s = Inr t"
    and s': "s' = deliver_results jc (place_content (content_blocks bs) t)"
    by (auto simp: chat_user_def split: if_splits sum.splits)
  note same = note_results [OF t]
  have c: "expect (chat_entry ''user'' c) (Some []) = Some []" for c
    by (rule expect_plain) (simp_all add: chat_entry_plain)
  show ?thesis
    unfolding s'
  proof (rule deliver_ok)
    show "fold expect (ce_messages (place_content (content_blocks bs) t)) (Some []) =
        Some (ce_order (place_content (content_blocks bs) t))"
      using same assms(2) c by (auto simp: place_content_def encoding_ok_def emit_entry_def)
    show "ce_order (place_content (content_blocks bs) t) = [] \<longrightarrow> ce_pending (place_content (content_blocks bs) t) = []"
      using same assms(2) by (auto simp: place_content_def encoding_ok_def emit_entry_def)
    show "ce_order (place_content (content_blocks bs) t) = [] \<longrightarrow> ce_deferred (place_content (content_blocks bs) t) = []"
      using same assms(2) by (auto simp: place_content_def encoding_ok_def emit_entry_def)
  qed
qed

lemma start_ok: "encoding_ok (chat_start r)"
  by (simp add: encoding_ok_def chat_start_def expect_plain chat_entry_plain)

lemma chat_messages_answered: "chat_messages jc r = Inr ms \<Longrightarrow> calls_answered ms"
proof -
  assume "chat_messages jc r = Inr ms"
  then obtain s where s: "each (chat_turn jc r) 0 (rq_Messages r) (chat_start r) = Inr s" "ce_pending s = []"
    and ms: "ms = ce_messages (carry_budget_only r (flush_deferred s))"
    by (auto simp: chat_messages_def split: sum.splits if_splits)
  have "encoding_ok s"
    by (rule each_inv [where P = encoding_ok, OF _ start_ok s(1)]) (auto simp: chat_turn_def split: if_splits intro: assistant_ok user_ok)
  with s(2) have f: "encoding_ok (flush_deferred s)" "ce_order (flush_deferred s) = []"
    by (auto intro: flush_ok simp: encoding_ok_def flush_deferred_def)
  have x: "expect (JObj (jset k (JInt n) empty_assistant)) (Some []) = Some []" if "k = ''reasoning_budget_tokens''" for k n
    using that by (intro expect_plain) (simp_all add: entry_role_def call_ids_def StringAt_def SliceAt_def AnyAt_def as_obj_def
      empty_assistant_def jget_def jset_def as_str_def)
  with f show ?thesis
    unfolding ms by (auto simp: calls_answered_def encoding_ok_def carry_budget_only_def carry_budget_def emit_entry_def)
qed

lemma jget_put_all: "k \<notin> fst ` set kvs \<Longrightarrow> jget (put_all kvs m) k = jget m k"
  by (induction kvs m rule: put_all.induct) (auto simp: Put_def)

lemma jget_put_tools: "k \<noteq> ''tools'' \<Longrightarrow> k \<noteq> ''tool_choice'' \<Longrightarrow> jget (put_tools ts c m) k = jget m k"
  by (simp add: put_tools_def Put_def)

lemma SliceAt_get: "SliceAt m [k] = as_list (jget m k)"
  by (simp add: SliceAt_def AnyAt_def)

text \<open>C19. 
  The Chat request that a Responses or Anthropic request is converted to answers every tool call: right
  after a message with calls come the results of these calls, one for each and in their order, and no
  result stands anywhere else; the calls of a message have distinct non-empty identifiers.
\<close>

theorem chat_request_calls_answered:
  "case ConvertRequest jc rnds k from Chat input of
     Inl e \<Rightarrow> True
   | Inr out \<Rightarrow> if from = Chat then out = CloneMap jc input else calls_answered (SliceAt out [''messages''])"
proof (cases "ConvertRequest jc rnds k from Chat input")
  case (Inr out)
  show ?thesis
  proof (cases "from = Chat")
    case False
    with Inr obtain r where r: "encodeChatRequest jc r = Inr out"
      by (auto simp: ConvertRequest_def encodeBridgeRequest_def split: sum.splits option.splits)
    then obtain ms where ms: "chat_messages jc r = Inr ms" "jget out ''messages'' = JList ms"
      by (auto simp: encodeChatRequest_def Let_def jget_put_tools split: sum.splits)
    with chat_messages_answered [OF ms(1)] Inr False show ?thesis by (simp add: SliceAt_get as_list_def)
  qed (use Inr in \<open>simp add: ConvertRequest_def\<close>)
qed simp

subsection \<open>Alternating turns\<close>

text \<open>Turns with content, no two of a role next to each other.\<close>

fun alternating :: "json list \<Rightarrow> bool" where
  "alternating [] = True"
| "alternating [m] = (SliceAt (as_obj m) [''content''] \<noteq> [])"
| "alternating (m # n # ms) =
    (SliceAt (as_obj m) [''content''] \<noteq> [] \<and> entry_role m \<noteq> entry_role n \<and> alternating (n # ms))"

lemma alternating_snoc:
  "alternating (ms @ [m]) \<longleftrightarrow>
    alternating ms \<and> SliceAt (as_obj m) [''content''] \<noteq> [] \<and> (ms \<noteq> [] \<longrightarrow> entry_role (last ms) \<noteq> entry_role m)"
  by (induction ms rule: alternating.induct) auto

lemma alternating_last:
  assumes "ms \<noteq> []" "alternating ms" "entry_role m = entry_role (last ms)" "SliceAt (as_obj m) [''content''] \<noteq> []"
  shows "alternating (butlast ms @ [m])"
proof -
  have "alternating (butlast ms @ [last ms])" using assms(1,2) by simp
  with assms(3,4) show ?thesis by (simp add: alternating_snoc)
qed

lemma turn_fields:
  "entry_role (JObj m) = as_str (jget m ''role'')" "SliceAt (as_obj (JObj m)) [''content''] = as_list (jget m ''content'')"
  by (simp_all add: entry_role_def StringAt_def SliceAt_def AnyAt_def as_obj_def)

lemma join_turn_ok:
  assumes ms: "alternating ms" and c: "content \<noteq> []"
  shows "alternating (join_turn role content ms)"
proof (cases "ms \<noteq> [] \<and> StringAt (as_obj (last ms)) [''role''] = role")
  case True
  let ?o = "as_obj (last ms)"
  let ?n = "JObj (jset ''content'' (JList (AsSlice (jget ?o ''content'') @ content)) ?o)"
  have "entry_role ?n = entry_role (last ms)"
    unfolding turn_fields by (simp add: entry_role_def StringAt_def AnyAt_def)
  moreover have "SliceAt (as_obj ?n) [''content''] \<noteq> []" unfolding turn_fields using c by (simp add: as_list_def)
  ultimately show ?thesis
    using True ms alternating_last [of ms ?n] by (simp add: join_turn_def)
next
  case False
  let ?n = "JObj [(''role'', JStr role), (''content'', JList content)]"
  have "entry_role ?n = role" "SliceAt (as_obj ?n) [''content''] \<noteq> []"
    unfolding turn_fields using c by (simp_all add: jget_def as_str_def as_list_def)
  with False ms show ?thesis by (auto simp: join_turn_def alternating_snoc entry_role_def)
qed

lemma anthropic_messages_alternate: "alternating (anthropic_messages jc ms)"
proof -
  have "alternating out \<Longrightarrow> alternating (fold (anthropic_turn jc) ms out)" for out
    by (induction ms arbitrary: out) (simp_all add: anthropic_turn_def Let_def join_turn_ok)
  then show ?thesis by (simp add: anthropic_messages_def)
qed


subsection \<open>The tools kept\<close>

definition is_function :: "json \<Rightarrow> bool" where
  "is_function raw = (StringAt (as_obj raw) [''type''] = ''function'')"

lemma subset_tools:
  "each subset_tool i raws (kept, dropped, n) = Inr (kept', dropped', n') \<Longrightarrow>
    kept' = kept @ filter is_function raws \<and> n' = n + length (filter is_function raws) \<and>
    (dropped' \<longleftrightarrow> dropped \<or> filter is_function raws \<noteq> raws)"
proof (induction raws arbitrary: i kept dropped n)
  case (Cons raw raws)
  from Cons.prems obtain s where s: "subset_tool i raw (kept, dropped, n) = Inr s"
    "each subset_tool (Suc i) raws s = Inr (kept', dropped', n')"
    by (auto split: sum.splits)
  have le: "length (filter is_function raws) \<le> length raws" by simp
  show ?case
  proof (cases "is_function raw")
    case True
    with s(1) have "s = (kept @ [raw], dropped, Suc n)" by (auto simp: subset_tool_def is_function_def Let_def split: if_splits)
    with Cons.IH [of "Suc i" "kept @ [raw]" dropped "Suc n"] s(2) True show ?thesis by simp
  next
    case False
    with s(1) have "s = (kept, True, n)" by (auto simp: subset_tool_def is_function_def Let_def split: if_splits)
    moreover have "filter is_function raws \<noteq> raw # raws" using le by (metis Suc_n_not_le_n length_Cons)
    ultimately show ?thesis using Cons.IH [of "Suc i" kept True n] s(2) False by simp
  qed
qed simp

definition chosen_function :: "protocol \<Rightarrow> json \<Rightarrow> string option" where
  "chosen_function from choice =
    (case choice of
       JObj c \<Rightarrow> if StringAt c [''type''] = ''function'' then Some (tool_label from c) else None
     | _ \<Rightarrow> None)"

text \<open>
  A request that passes the selection of its tools keeps exactly its functions, in their order, and all
  its other members; a choice that forces a function names one that is kept, and one that requires a tool
  has a function to choose from.
\<close>

theorem tool_subset_exact:
  "case FunctionToolSubset input from of
     Inl e \<Rightarrow> from = Chat \<or> from = Responses
   | Inr out \<Rightarrow>
       if from = Chat \<or> from = Responses then
         SliceAt out [''tools''] = filter is_function (SliceAt input [''tools'']) \<and>
         (\<forall>k. if k = ''tools'' then True else jget out k = jget input k) \<and>
         (case chosen_function from (jget input ''tool_choice'') of
            None \<Rightarrow> True
          | Some name \<Rightarrow> name \<noteq> [] \<and> name \<in> set (map (tool_label from \<circ> as_obj) (SliceAt out [''tools'']))) \<and>
         (if jget input ''tool_choice'' = JStr ''required'' then SliceAt out [''tools''] \<noteq> [] else True)
       else out = input"
proof (cases "FunctionToolSubset input from")
  case (Inl e)
  then show ?thesis by (auto simp: FunctionToolSubset_def split: if_splits)
next
  case (Inr out)
  show ?thesis
  proof (cases "from = Chat \<or> from = Responses")
    case True
    let ?raw = "jget input ''tools''" and ?tc = "jget input ''tool_choice''"
    from Inr True obtain kept dropped n where e: "each subset_tool 0 (as_list ?raw) ([], False, 0) = Inr (kept, dropped, n)"
      and c: "check_choice from ?tc (as_list ?raw) n = None"
      and out: "out = (if \<not> dropped then input else if kept = [] then jdelete ''tools'' input else jset ''tools'' (JList kept) input)"
      by (auto simp: FunctionToolSubset_def Let_def split: if_splits sum.splits option.splits)
    from subset_tools [OF e] have k: "kept = filter is_function (as_list ?raw)" "n = length kept"
      "\<not> dropped \<Longrightarrow> filter is_function (as_list ?raw) = as_list ?raw" by auto
    have tools: "SliceAt out [''tools''] = kept"
      using k out by (auto simp: SliceAt_get as_list_def)
    have forced: "case chosen_function from ?tc of None \<Rightarrow> True
        | Some name \<Rightarrow> name \<noteq> [] \<and> name \<in> set (map (tool_label from \<circ> as_obj) kept)"
    proof (cases "chosen_function from ?tc")
      case (Some name)
      then obtain m where m: "?tc = JObj m" "StringAt m [''type''] = ''function''" "name = tool_label from m"
        by (auto simp: chosen_function_def split: json.splits if_splits)
      with c obtain raw where "raw \<in> set (as_list ?raw)" "jget (as_obj raw) ''type'' = JStr ''function''"
        "name \<noteq> []" "name = tool_label from (as_obj raw)"
        by (auto simp: check_choice_def Let_def list_ex_iff split: if_splits)
      moreover from this(2) have "is_function raw" by (simp add: is_function_def StringAt_def AnyAt_def as_str_def)
      ultimately show ?thesis using Some k by auto
    qed simp
    have required: "if ?tc = JStr ''required'' then kept \<noteq> [] else True"
      using c k(2) by (auto simp: check_choice_def split: if_splits)
    have others: "\<forall>l. if l = ''tools'' then True else jget out l = jget input l" using out by auto
    have tk: "SliceAt out [''tools''] = filter is_function (SliceAt input [''tools''])"
      using tools k(1) by (simp add: SliceAt_get)
    show ?thesis
      unfolding Inr sum.case if_P [OF True]
      by (intro conjI) (rule tk others forced [folded tools] required [folded tools])+
  next
    case False
    with Inr show ?thesis by (auto simp: FunctionToolSubset_def)
  qed
qed

end
