(* ===== verification/RequestTypes.thy ===== *)
theory RequestTypes
  imports RequestProps
begin

text \<open>
  The typing of the common form: whatever a client sends, a request that is decoded consists of blocks
  of the known kinds in turns of the two known roles, and the image-bearing results have their call and
  images that can be encoded.
\<close>

definition image_block_ok :: "inner_block \<Rightarrow> bool" where
  "image_block_ok b = (bk_Kind b = ''text'' \<or> bk_Kind b = ''image'' \<and> (bk_URL b \<noteq> [] \<or> bk_Data b \<noteq> []))"

definition result_ok :: "bridge_block \<Rightarrow> bool" where
  "result_ok b =
    (case bk_Result b of
       OutJson v \<Rightarrow> True
     | OutBlocks bs \<Rightarrow> bk_Kind b = ''tool_result'' \<and> bk_CallID b \<noteq> [] \<and> list_all image_block_ok bs \<and>
         list_ex (\<lambda>c. bk_Kind c = ''image'') bs)"

definition content_kinds :: "string set" where
  "content_kinds = {''text'', ''image'', ''file''}"

definition turn_kinds :: "string set" where
  "turn_kinds = content_kinds \<union> {''reasoning'', ''tool_call'', ''tool_result''}"

definition block_ok :: "bridge_block \<Rightarrow> bool" where
  "block_ok b = (bk_Kind b \<in> turn_kinds \<and> result_ok b)"

definition message_ok :: "bridge_message \<Rightarrow> bool" where
  "message_ok m = ((bm_Role m = ''user'' \<or> bm_Role m = ''assistant'') \<and> list_all block_ok (bm_Blocks m))"

definition request_ok :: "bridge_request \<Rightarrow> bool" where
  "request_ok r = (list_all block_ok (rq_System r) \<and> list_all block_ok (rq_Developer r) \<and> list_all message_ok (rq_Messages r))"

text \<open>Before the results are decoded, every result is a JSON value.\<close>

definition plain_block :: "bridge_block \<Rightarrow> bool" where
  "plain_block b = (bk_Kind b \<in> turn_kinds \<and> (case bk_Result b of OutJson _ \<Rightarrow> True | OutBlocks _ \<Rightarrow> False))"

definition plain_message :: "bridge_message \<Rightarrow> bool" where
  "plain_message m = ((bm_Role m = ''user'' \<or> bm_Role m = ''assistant'') \<and> list_all plain_block (bm_Blocks m))"

definition plain_request :: "bridge_request \<Rightarrow> bool" where
  "plain_request r =
    (list_all plain_block (rq_System r) \<and> list_all plain_block (rq_Developer r) \<and> list_all plain_message (rq_Messages r))"

lemma plain_block_ok: "plain_block b \<Longrightarrow> block_ok b"
  by (simp add: plain_block_def block_ok_def result_ok_def split: tool_output.splits)

lemma plain_blocks_ok: "list_all plain_block bs \<Longrightarrow> list_all block_ok bs"
  by (auto simp: list_all_iff plain_block_ok)

text \<open>A property of the result of a decoding that succeeds.\<close>

definition inr_all :: "('a \<Rightarrow> bool) \<Rightarrow> 'e + 'a \<Rightarrow> bool" where
  "inr_all P x = (case x of Inl e \<Rightarrow> True | Inr a \<Rightarrow> P a)"

lemma inr_all_simps [simp]: "inr_all P (Inl e)" "inr_all P (Inr a) = P a"
  "inr_all P (if c then x else y) = (if c then inr_all P x else inr_all P y)"
  by (simp_all add: inr_all_def)

lemma inr_allD: "inr_all P x \<Longrightarrow> x = Inr a \<Longrightarrow> P a"
  by simp

lemma plain_kinds: "plain_block (block_of OutJson k) \<longleftrightarrow> k \<in> turn_kinds"
  by (simp add: plain_block_def block_of_def)

lemma plain_upd [simp]:
  "plain_block (b\<lparr>bk_Text := s\<rparr>) = plain_block b" "plain_block (b\<lparr>bk_Signature := s\<rparr>) = plain_block b"
  "plain_block (b\<lparr>bk_Encrypted := s\<rparr>) = plain_block b" "plain_block (b\<lparr>bk_URL := s\<rparr>) = plain_block b"
  "plain_block (b\<lparr>bk_MediaType := s\<rparr>) = plain_block b" "plain_block (b\<lparr>bk_Data := s\<rparr>) = plain_block b"
  "plain_block (b\<lparr>bk_FileID := s\<rparr>) = plain_block b" "plain_block (b\<lparr>bk_Filename := s\<rparr>) = plain_block b"
  "plain_block (b\<lparr>bk_ID := s\<rparr>) = plain_block b" "plain_block (b\<lparr>bk_Name := s\<rparr>) = plain_block b"
  "plain_block (b\<lparr>bk_Arguments := v\<rparr>) = plain_block b" "plain_block (b\<lparr>bk_ArgumentsJSON := s\<rparr>) = plain_block b"
  "plain_block (b\<lparr>bk_CallID := s\<rparr>) = plain_block b" "plain_block (b\<lparr>bk_IsError := f\<rparr>) = plain_block b"
  by (simp_all add: plain_block_def)

lemma plain_result [simp]: "plain_block (b\<lparr>bk_Result := OutJson v\<rparr>) = (bk_Kind b \<in> turn_kinds)"
  by (simp add: plain_block_def)

lemma kind_of [simp]: "bk_Kind (block_of emb k) = k"
  by (simp add: block_of_def)

lemma known_kinds [simp]:
  "''text'' \<in> turn_kinds" "''image'' \<in> turn_kinds" "''file'' \<in> turn_kinds" "''reasoning'' \<in> turn_kinds"
  "''tool_call'' \<in> turn_kinds" "''tool_result'' \<in> turn_kinds"
  by (simp_all add: turn_kinds_def content_kinds_def)

lemma openai_plain: "inr_all plain_block (openai_block OutJson raw)"
  by (cases raw) (simp_all add: openai_block_def openai_file_def Let_def plain_kinds)

lemma anthropic_plain: "inr_all plain_block (anthropic_block OutJson raw)"
  by (cases raw) (simp_all add: anthropic_block_def anthropic_image_def anthropic_document_def Let_def plain_kinds)

lemma collect_plain: "(\<And>x. inr_all P (f x)) \<Longrightarrow> collect (map f xs) = Inr ys \<Longrightarrow> list_all P ys"
proof (induction xs arbitrary: ys)
  case (Cons x xs)
  from Cons.prems(1) [of x] Cons.prems(2) Cons.IH [OF Cons.prems(1)] show ?case
    by (cases "f x") (auto split: sum.splits)
qed simp

lemma openai_blocks_plain: "inr_all (list_all plain_block) (decodeOpenAIBlocksChecked OutJson v)"
proof (cases v)
  case (JList xs)
  have "inr_all (list_all plain_block) (collect (map (openai_block OutJson) xs))"
    by (cases "collect (map (openai_block OutJson) xs)") (auto intro: collect_plain [OF openai_plain])
  with JList show ?thesis by (simp add: decodeOpenAIBlocksChecked_def)
next
  case (JObj m)
  with openai_plain [of v] show ?thesis
    by (cases "openai_block OutJson v") (simp_all add: decodeOpenAIBlocksChecked_def)
qed (simp_all add: decodeOpenAIBlocksChecked_def plain_kinds)

lemma anthropic_blocks_plain: "inr_all (list_all plain_block) (decodeAnthropicBlocksChecked OutJson v)"
proof -
  have "inr_all (list_all plain_block) (collect (map (anthropic_block OutJson) xs))" for xs
    by (cases "collect (map (anthropic_block OutJson) xs)") (auto intro: collect_plain [OF anthropic_plain])
  then show ?thesis by (cases v) (simp_all add: decodeAnthropicBlocksChecked_def plain_kinds)
qed

lemma reasoning_plain: "list_all plain_block (decodeChatReasoning m)" "list_all plain_block (decodeResponsesReasoning m)"
  by (simp_all add: decodeChatReasoning_def decodeResponsesReasoning_def Let_def plain_kinds split: json.splits)

lemma add_plain:
  "plain_request r \<Longrightarrow> list_all plain_block bs \<Longrightarrow> plain_request (add_system bs r)"
  "plain_request r \<Longrightarrow> list_all plain_block bs \<Longrightarrow> plain_request (add_developer bs r)"
  "plain_request r \<Longrightarrow> list_all plain_block bs \<Longrightarrow> role = ''user'' \<or> role = ''assistant'' \<Longrightarrow> plain_request (add_message role bs r)"
  by (auto simp: plain_request_def add_system_def add_developer_def add_message_def plain_message_def)

lemma append_block_plain:
  assumes "plain_request r" "plain_block b" "role = ''user'' \<or> role = ''assistant''"
  shows "plain_request (append_block role b r)"
proof -
  let ?ms = "rq_Messages r"
  have l: "list_all plain_message (butlast ?ms)" "?ms \<noteq> [] \<Longrightarrow> plain_message (last ?ms)"
    using assms(1) by (auto simp: plain_request_def list_all_iff dest: in_set_butlastD)
  then have "list_all plain_message (appendBridgeBlock role b ?ms)"
    using assms by (auto simp: appendBridgeBlock_def plain_message_def plain_request_def)
  with assms(1) show ?thesis by (simp add: plain_request_def append_block_def)
qed

lemma each_all: "(\<And>i x s. P s \<Longrightarrow> inr_all P (f i x s)) \<Longrightarrow> P s \<Longrightarrow> inr_all P (each f i xs s)"
proof (induction f i xs s rule: each.induct)
  case (2 f i x xs s)
  from 2(2) [OF 2(3), of i x] 2(1) [OF _ 2(2)] show ?case by (auto split: sum.splits)
qed simp

lemma request_calls_plain: "list_all plain_block bs \<Longrightarrow> inr_all (list_all plain_block) (each (request_call i) j raws bs)"
  by (rule each_all) (simp_all add: request_call_def Let_def plain_kinds split: json.splits)

lemma place_chat_plain:
  "plain_request r \<Longrightarrow> list_all plain_block bs \<Longrightarrow> inr_all plain_request (place_chat i m role bs r)"
  by (auto simp: place_chat_def add_plain)

lemma budget_plain: "plain_request r \<Longrightarrow> plain_request (carried_budget m r)"
  by (simp add: carried_budget_def plain_request_def Let_def)

lemma chat_message_plain: "plain_request r \<Longrightarrow> inr_all plain_request (chat_message i raw r)"
proof (cases raw)
  case (JObj m)
  assume r: "plain_request r"
  show ?thesis
  proof (cases "decodeOpenAIBlocksChecked OutJson (jget m ''content'')")
    case (Inr bs)
    let ?role = "StringAt m [''role'']"
    let ?bs = "if ?role = ''assistant'' then decodeChatReasoning m @ bs else bs"
    let ?r = "if ?role = ''assistant'' then carried_budget m r else r"
    have b: "list_all plain_block ?bs"
      using inr_allD [OF openai_blocks_plain Inr] by (simp add: reasoning_plain)
    have "plain_request ?r" using r by (simp add: budget_plain)
    with inr_allD [OF request_calls_plain [OF b]] show ?thesis
      unfolding JObj chat_message_def Let_def
      by (cases "each (request_call i) 0 (SliceAt m [''tool_calls'']) ?bs") (simp_all add: Inr place_chat_plain del: inr_all_simps(3))
  qed (simp add: JObj chat_message_def Let_def)
qed (simp_all add: chat_message_def)

lemma place_item_plain: "plain_request r \<Longrightarrow> list_all plain_block bs \<Longrightarrow> plain_request (place_item role bs r)"
  by (auto simp: place_item_def add_plain)

lemma append_blocks_plain:
  "plain_request s \<Longrightarrow> list_all plain_block bs \<Longrightarrow> plain_request (fold (append_block ''assistant'') bs s)"
  by (induction bs arbitrary: s) (simp_all add: append_block_plain)

lemma response_item_plain: "plain_request r \<Longrightarrow> inr_all plain_request (response_item i raw r)"
proof (cases raw)
  case (JObj m)
  assume r: "plain_request r"
  show ?thesis
  proof (cases "decodeOpenAIBlocksChecked OutJson (jget m ''content'')")
    case (Inr bs)
    with inr_allD [OF openai_blocks_plain Inr] r show ?thesis
      by (simp add: JObj response_item_def Let_def append_block_plain append_blocks_plain place_item_plain
        reasoning_plain plain_kinds)
  qed (use r in \<open>simp add: JObj response_item_def Let_def append_block_plain append_blocks_plain reasoning_plain plain_kinds\<close>)
qed (simp_all add: response_item_def)

lemma anthropic_message_plain: "plain_request r \<Longrightarrow> inr_all plain_request (anthropic_message i raw r)"
proof (cases raw)
  case (JObj m)
  assume r: "plain_request r"
  show ?thesis
  proof (cases "decodeAnthropicBlocksChecked OutJson (jget m ''content'')")
    case (Inr bs)
    with inr_allD [OF anthropic_blocks_plain Inr] r show ?thesis
      by (auto simp: JObj anthropic_message_def Let_def add_plain)
  qed (simp add: JObj anthropic_message_def Let_def)
qed (simp_all add: anthropic_message_def)


subsection \<open>Results\<close>

lemma collect_member: "collect (map f xs) = Inr ys \<Longrightarrow> y \<in> set ys \<Longrightarrow> \<exists>x\<in>set xs. f x = Inr y"
  by (induction xs arbitrary: ys) (auto split: sum.splits)

lemma collect_covers: "collect (map f xs) = Inr ys \<Longrightarrow> x \<in> set xs \<Longrightarrow> \<exists>y\<in>set ys. f x = Inr y"
  by (induction xs arbitrary: ys) (auto split: sum.splits)

lemma checked_parts:
  "each (check_tool_part p) i parts () = Inr u \<Longrightarrow> raw \<in> set parts \<Longrightarrow> \<exists>j. check_tool_part p j raw () = Inr ()"
proof (induction "check_tool_part p" i parts "()" rule: each.induct)
  case (2 i x xs)
  then show ?case by (auto split: sum.splits)
qed simp

text \<open>A checked part becomes a text or an image that says where its data is.\<close>

lemma anthropic_image_part:
  assumes "check_tool_part Anthropic i raw () = Inr ()" "anthropic_block id raw = Inr b"
  shows "image_block_ok b" "StringAt (as_obj raw) [''type''] = ''image'' \<Longrightarrow> bk_Kind b = ''image''"
proof -
  obtain m where m: "raw = JObj m" using assms(1) by (cases raw) (simp_all add: check_tool_part_def)
  consider "StringAt m [''type''] = ''text''" | "StringAt m [''type''] = ''image''" "image_source_ok (MapAt m [''source''])"
    using assms(1) by (auto simp: m check_tool_part_def split: if_splits)
  then have "image_block_ok b \<and> (StringAt (as_obj raw) [''type''] = ''image'' \<longrightarrow> bk_Kind b = ''image'')"
  proof cases
    case 1
    with assms(2) show ?thesis by (auto simp: m anthropic_block_def as_obj_def image_block_ok_def Let_def)
  next
    case 2
    with assms(2) show ?thesis
      by (auto simp: m anthropic_block_def anthropic_image_def image_source_ok_def image_block_ok_def Let_def split: if_splits)
  qed
  then show "image_block_ok b" "StringAt (as_obj raw) [''type''] = ''image'' \<Longrightarrow> bk_Kind b = ''image''" by auto
qed

lemma openai_image_part:
  assumes "check_tool_part p i raw () = Inr ()" "p \<noteq> Anthropic" "openai_block id raw = Inr b"
  shows "bk_Kind b = ''text'' \<or> bk_Kind b = ''image'' \<and> bk_URL b \<noteq> []"
    "StringAt (as_obj raw) [''type''] = ''input_image'' \<Longrightarrow> bk_Kind b = ''image''"
proof -
  obtain m where m: "raw = JObj m" using assms(1) by (cases raw) (simp_all add: check_tool_part_def)
  consider "StringAt m [''type''] = ''input_text''" | "StringAt m [''type''] = ''input_image''" "StringAt m [''image_url''] \<noteq> []"
    using assms(1,2) by (auto simp: m check_tool_part_def split: if_splits)
  then have "(bk_Kind b = ''text'' \<or> bk_Kind b = ''image'' \<and> bk_URL b \<noteq> []) \<and>
      (StringAt (as_obj raw) [''type''] = ''input_image'' \<longrightarrow> bk_Kind b = ''image'')"
    using assms(3) by cases (auto simp: m openai_block_def as_obj_def Let_def)
  then show "bk_Kind b = ''text'' \<or> bk_Kind b = ''image'' \<and> bk_URL b \<noteq> []"
    "StringAt (as_obj raw) [''type''] = ''input_image'' \<Longrightarrow> bk_Kind b = ''image''" by auto
qed

lemma data_uri_data: "data_uri url = Some (media, data) \<Longrightarrow> data \<noteq> []"
  by (auto simp: data_uri_def Let_def split: if_splits)

lemma split_uris:
  "each split_data_uri i bs acc = Inr out \<Longrightarrow>
    list_all (\<lambda>b. bk_Kind b = ''text'' \<or> bk_Kind b = ''image'' \<and> bk_URL b \<noteq> []) bs \<Longrightarrow> list_all image_block_ok acc \<Longrightarrow>
    list_all image_block_ok out \<and> map bk_Kind out = map bk_Kind acc @ map bk_Kind bs"
proof (induction bs arbitrary: i acc)
  case (Cons b bs)
  from Cons.prems(1) obtain d where d: "split_data_uri i b acc = Inr d" "each split_data_uri (Suc i) bs d = Inr out"
    by (auto split: sum.splits)
  have "list_all image_block_ok d \<and> map bk_Kind d = map bk_Kind acc @ [bk_Kind b]"
  proof (cases "bk_Kind b \<noteq> ''image'' \<or> \<not> has_prefix (bk_URL b) ''data:''")
    case True
    then have "d = acc @ [b]" using d(1) by (auto simp: split_data_uri_def)
    moreover have "image_block_ok b" using Cons.prems(2) by (auto simp: image_block_ok_def)
    ultimately show ?thesis using Cons.prems(3) by simp
  next
    case False
    with d(1) obtain media data where m: "data_uri (bk_URL b) = Some (media, data)"
      "d = acc @ [b\<lparr>bk_URL := [], bk_MediaType := media, bk_Data := data\<rparr>]"
      by (auto simp: split_data_uri_def split: option.splits)
    have "image_block_ok (b\<lparr>bk_URL := [], bk_MediaType := media, bk_Data := data\<rparr>)"
      using False data_uri_data [OF m(1)] by (simp add: image_block_ok_def)
    with m(2) Cons.prems(3) show ?thesis by simp
  qed
  with Cons.IH [OF d(2)] Cons.prems(2) show ?case by simp
qed simp

lemma tool_images_ok:
  assumes "decodeToolImages p v = Inr (OutBlocks bs)"
  shows "list_all image_block_ok bs \<and> list_ex (\<lambda>b. bk_Kind b = ''image'') bs"
proof -
  obtain parts where v: "v = JList parts" using assms by (cases v) (simp_all add: decodeToolImages_def)
  from assms v have im: "has_tool_image p parts" by (auto simp: decodeToolImages_def split: if_splits)
  with assms v obtain u where c: "each (check_tool_part p) 0 parts () = Inr u"
    by (auto simp: decodeToolImages_def split: sum.splits)
  from im obtain raw where raw: "raw \<in> set parts"
    "StringAt (as_obj raw) [''type''] = (if p = Anthropic then ''image'' else ''input_image'')"
    by (auto simp: has_tool_image_def list_ex_iff)
  show ?thesis
  proof (cases "p = Anthropic")
    case True
    with assms v im c have b: "collect (map (anthropic_block id) parts) = Inr bs"
      by (auto simp: decodeToolImages_def decodeAnthropicBlocksChecked_def AsSlice_def split: sum.splits)
    have "image_block_ok x" if "x \<in> set bs" for x
      using collect_member [OF b that] checked_parts [OF c] anthropic_image_part(1) True by blast
    moreover obtain y where "y \<in> set bs" "anthropic_block id raw = Inr y"
      using collect_covers [OF b raw(1)] by blast
    moreover from this(2) have "bk_Kind y = ''image''"
      using anthropic_image_part(2) checked_parts [OF c raw(1)] raw(2) True by auto
    ultimately show ?thesis by (auto simp: list_all_iff list_ex_iff)
  next
    case False
    with assms v im c obtain bs0 where b: "collect (map (openai_block id) parts) = Inr bs0"
      and o: "each split_data_uri 0 bs0 [] = Inr bs"
      by (auto simp: decodeToolImages_def decodeOpenAIBlocksChecked_def split: sum.splits)
    have "list_all (\<lambda>b. bk_Kind b = ''text'' \<or> bk_Kind b = ''image'' \<and> bk_URL b \<noteq> []) bs0"
      using collect_member [OF b] checked_parts [OF c] openai_image_part(1) False by (fastforce simp: list_all_iff)
    from split_uris [OF o this] have bs: "list_all image_block_ok bs" "map bk_Kind bs = map bk_Kind bs0" by simp_all
    obtain y where "y \<in> set bs0" "openai_block id raw = Inr y"
      using collect_covers [OF b raw(1)] by blast
    moreover from this(2) have "bk_Kind y = ''image''"
      using openai_image_part(2) checked_parts [OF c raw(1)] raw(2) False by auto
    ultimately have "''image'' \<in> set (map bk_Kind bs)" unfolding bs(2) by (auto intro: rev_image_eqI)
    with bs(1) show ?thesis by (auto simp: list_ex_iff)
  qed
qed

lemma decode_result_ok:
  assumes "plain_block b" "list_all block_ok bs"
  shows "inr_all (list_all block_ok) (decode_result p i j b bs)"
proof (cases "bk_Kind b = ''tool_result'' \<and> p \<noteq> Chat")
  case True
  obtain v where v: "bk_Result b = OutJson v" using assms(1) by (auto simp: plain_block_def split: tool_output.splits)
  have k: "bk_Kind b \<in> turn_kinds" using assms(1) by (simp add: plain_block_def)
  show ?thesis
  proof (cases "decodeToolImages p v")
    case (Inr out)
    show ?thesis
    proof (cases out)
      case (OutBlocks images)
      with Inr tool_images_ok have "list_all image_block_ok images \<and> list_ex (\<lambda>b. bk_Kind b = ''image'') images" by simp
      with True OutBlocks assms(2) k Inr v show ?thesis
        by (simp add: decode_result_def block_ok_def result_ok_def)
    next
      case (OutJson w)
      with True assms(2) k Inr v show ?thesis by (simp add: decode_result_def block_ok_def result_ok_def)
    qed
  qed (use True v in \<open>simp add: decode_result_def\<close>)
next
  case False
  with assms show ?thesis by (auto simp: decode_result_def plain_block_ok split: tool_output.splits)
qed

text \<open>A loop over elements that each satisfy \<open>Q\<close>.\<close>

lemma each_all_on:
  "(\<And>i x s. Q x \<Longrightarrow> P s \<Longrightarrow> inr_all P (f i x s)) \<Longrightarrow> list_all Q xs \<Longrightarrow> P s \<Longrightarrow> inr_all P (each f i xs s)"
proof (induction f i xs s rule: each.induct)
  case (2 f i x xs s)
  have "inr_all P (f i x s)" using 2 by simp
  with 2 show ?case by (cases "f i x s") auto
qed simp

lemma decode_results_ok:
  assumes "plain_message m" "list_all message_ok ms"
  shows "inr_all (list_all message_ok) (decode_results p i m ms)"
proof -
  have b: "list_all plain_block (bm_Blocks m)" using assms(1) by (simp add: plain_message_def)
  have "inr_all (list_all block_ok) (each (decode_result p i) 0 (bm_Blocks m) [])"
    by (rule each_all_on [OF decode_result_ok b]) simp_all
  with assms show ?thesis
    by (auto simp: decode_results_def message_ok_def plain_message_def inr_all_def split: sum.splits)
qed

lemma plain_start: "plain_request (empty_request input)"
  by (simp add: plain_request_def empty_request_def)

lemma plain_fields [simp]:
  "plain_request (r\<lparr>rq_Tools := a\<rparr>) = plain_request r" "plain_request (r\<lparr>rq_ToolChoice := c\<rparr>) = plain_request r"
  "plain_request (r\<lparr>rq_MaxTokens := v\<rparr>) = plain_request r" "plain_request (r\<lparr>rq_Stop := v\<rparr>) = plain_request r"
  "plain_request (r\<lparr>rq_Reasoning := v\<rparr>) = plain_request r" "plain_request (r\<lparr>rq_ResponseFormat := v\<rparr>) = plain_request r"
  "plain_request (r\<lparr>rq_ParallelToolCalls := v\<rparr>) = plain_request r"
  "plain_request (r\<lparr>rq_FrequencyPenalty := v\<rparr>) = plain_request r"
  "plain_request (r\<lparr>rq_PresencePenalty := v\<rparr>) = plain_request r" "plain_request (r\<lparr>rq_Seed := v\<rparr>) = plain_request r"
  "plain_request (r\<lparr>rq_PromptCacheKey := v\<rparr>) = plain_request r"
  "plain_request (r\<lparr>rq_SafetyIdentifier := v\<rparr>) = plain_request r"
  "plain_request (r\<lparr>rq_ServiceTier := v\<rparr>) = plain_request r" "plain_request (r\<lparr>rq_Store := v\<rparr>) = plain_request r"
  by (simp_all add: plain_request_def)

lemma inr_all_then: "inr_all P x \<Longrightarrow> (\<And>a. P a \<Longrightarrow> inr_all Q (f a)) \<Longrightarrow> inr_all Q (case x of Inl e \<Rightarrow> Inl e | Inr a \<Rightarrow> f a)"
  by (cases x) simp_all

lemma inr_all_any: "(\<And>a. inr_all Q (f a)) \<Longrightarrow> inr_all Q (case x of Inl e \<Rightarrow> Inl (h e) | Inr a \<Rightarrow> f a)"
  by (cases x) simp_all

lemma inr_all_with: "inr_all P x \<Longrightarrow> (\<And>a. P a \<Longrightarrow> inr_all Q (f a)) \<Longrightarrow> inr_all Q (case x of Inl e \<Rightarrow> Inl (h e) | Inr a \<Rightarrow> f a)"
  by (cases x) simp_all

lemma chat_request_plain: "inr_all plain_request (decode_chat_request input)"
  unfolding decode_chat_request_def Let_def
  by (intro inr_all_then [OF each_all [OF chat_message_plain]] inr_all_any) (simp_all add: plain_start)

lemma response_input_plain: "plain_request r \<Longrightarrow> inr_all plain_request (response_input v r)"
  by (cases v) (simp_all add: response_input_def add_plain plain_kinds each_all [OF response_item_plain])

lemma responses_request_plain: "inr_all plain_request (decode_responses_request input)"
  unfolding decode_responses_request_def Let_def
  by (intro inr_all_with [OF openai_blocks_plain] inr_all_then [OF response_input_plain] inr_all_any)
    (simp_all add: plain_start add_plain)

lemma anthropic_request_plain: "inr_all plain_request (decode_anthropic_request input)"
  unfolding decode_anthropic_request_def Let_def
  by (intro inr_all_with [OF anthropic_blocks_plain] inr_all_then [OF each_all [OF anthropic_message_plain]] inr_all_any)
    (simp_all add: plain_request_def empty_request_def)

text \<open>C20. 
  Whatever JSON object a client sends, a request that decodes is well typed: turns of users and assistants,
  blocks of the known kinds, and decoded results only in tool results with a call, with at least one image,
  each image with its place or its data.
\<close>

theorem decoded_request_typed:
  "case decodeBridgeRequest p input of Inl e \<Rightarrow> True | Inr r \<Rightarrow> request_ok r"
proof -
  have pl: "inr_all plain_request (case p of
             Chat \<Rightarrow> decode_chat_request input
           | Responses \<Rightarrow> decode_responses_request input
           | Anthropic \<Rightarrow> decode_anthropic_request input
           | _ \<Rightarrow> Inl (BadProtocol p))"
    by (cases p) (simp_all add: chat_request_plain responses_request_plain anthropic_request_plain)
  have "inr_all request_ok (decodeBridgeRequest p input)"
    unfolding decodeBridgeRequest_def
  proof (rule inr_all_then [OF pl])
    fix r assume r: "plain_request r"
    have ms: "list_all plain_message (rq_Messages r)" using r by (simp add: plain_request_def)
    have "inr_all (list_all message_ok) (each (decode_results p) 0 (rq_Messages r) [])"
      by (rule each_all_on [OF decode_results_ok ms]) simp_all
    then show "inr_all request_ok (case each (decode_results p) 0 (rq_Messages r) [] of
        Inl e \<Rightarrow> Inl e | Inr ms \<Rightarrow> Inr (r\<lparr>rq_Messages := ms\<rparr>))"
      by (rule inr_all_then) (use r in \<open>simp add: plain_request_def request_ok_def plain_blocks_ok\<close>)
  qed
  then show ?thesis by (simp add: inr_all_def)
qed

end
