(* ===== verification/EffortProps.thy ===== *)
theory EffortProps
  imports RequestTypes
begin

text \<open>
  Levels and budgets: what the way through Chat keeps of a thinking budget, what a forced level leaves
  consistent, and where the ladder, the maximum of tokens and the carried budget do not fit together.
\<close>

subsection \<open>Round trips\<close>

text \<open>A word of lower-case letters is its own lower case and has nothing to trim.\<close>

definition lower_word :: "string \<Rightarrow> bool" where
  "lower_word s = list_all (\<lambda>c. 97 \<le> (of_char c :: nat) \<and> (of_char c :: nat) \<le> 122) s"

lemma lower_word_lower: "lower_word s \<Longrightarrow> to_lower s = s"
proof (induction s rule: to_lower.induct)
  case (2 c s)
  then have c: "97 \<le> (of_char c :: nat)" "(of_char c :: nat) \<le> 122" by (simp_all add: lower_word_def)
  have "c \<noteq> char_of (0xC4 :: nat)" "c \<noteq> char_of (0xE2 :: nat)" using c by auto
  then have "\<not> has_prefix (c # s) (bytes [0xC4, 0xB0])" "\<not> has_prefix (c # s) (bytes [0xE2, 0x84, 0xAA])"
    by (simp_all add: has_prefix_def bytes_def)
  moreover have "ascii_lower c = c" using c by (simp add: ascii_lower_def Let_def)
  moreover have "lower_word s" using 2 by (simp add: lower_word_def)
  ultimately show ?case using 2 by simp
qed simp

lemma lower_word_trim: "lower_word s \<Longrightarrow> trim_space s = s"
  by (rule trim_space_printable) (force simp: lower_word_def printable_def list_all_iff)

lemma levels_lower [simp]:
  "lower_word ''low''" "lower_word ''medium''" "lower_word ''high''" "lower_word ''xhigh''" "lower_word ''max''"
  "lower_word ''minimal''" "lower_word ''none''"
  by (simp_all add: lower_word_def)

declare to_lower.simps [simp del]

lemma level_word [simp]: "lower_word (effortForThinkingBudget b)"
  by (simp add: effortForThinkingBudget_def)

lemma level_neq [simp]: "effortForThinkingBudget b \<notin> {''none'', ''disabled'', []}"
  by (simp add: effortForThinkingBudget_def)

lemma level_normal: "normalizeEffortValue (JStr (effortForThinkingBudget b)) = Some (JStr (effortForThinkingBudget b))"
  using level_neq [of b] by (simp add: normalizeEffortValue_def lower_word_lower lower_word_trim Let_def)

lemma normal_fixed: "normalizeEffortValue v = Some e \<Longrightarrow> e \<noteq> JNull \<Longrightarrow> e = v"
  by (auto simp: normalizeEffortValue_def Let_def split: json.splits if_splits)

lemma first_effort_normal: "first_effort m ks = Some e \<Longrightarrow> e \<noteq> JNull \<Longrightarrow> normalizeEffortValue e = Some e"
  by (induction ks) (auto split: option.splits dest: normal_fixed)

text \<open>
  The way of a thinking block through Chat: the level and the budget that the Chat request carries give
  the thinking block and the output configuration that the direct encoding gives.
\<close>

lemma carried_value:
  assumes "0 < b" "normalizeEffortValue e = Some e"
  shows "anthropicThinking (withReasoningBudget e b) = thinking_level e b"
proof -
  have e: "\<exists>s. e = JStr s" using assms(2) by (auto simp: normalizeEffortValue_def split: json.splits)
  then have w: "withReasoningBudget e b = JObj [(''budget_tokens'', JInt b), (''effort'', e)]"
    using assms(1) by (auto simp: withReasoningBudget_def)
  show ?thesis
    unfolding w using assms
    by (simp add: anthropicThinking_def object_thinking_def explicitEffort_def Let_def IntAt_def AnyAt_def jget_def int_at_def)
qed

lemma direct_value:
  assumes "0 < IntAt m [''budget_tokens'']" "StringAt m [''type''] \<noteq> ''adaptive''"
    "normalizeEffortValue (reasoningEffort (JObj m)) = Some (reasoningEffort (JObj m))"
  shows "anthropicThinking (JObj m) = thinking_level (reasoningEffort (JObj m)) (IntAt m [''budget_tokens''])"
proof (cases "explicitEffort m")
  case (Some e)
  then show ?thesis by (simp add: anthropicThinking_def object_thinking_def reasoningEffort_def Let_def)
next
  case None
  have "StringAt m [''type''] \<noteq> ''disabled''"
    using assms(3) None by (auto simp: reasoningEffort_def normalizeEffortValue_def)
  with None assms show ?thesis
    by (auto simp: anthropicThinking_def object_thinking_def reasoningEffort_def budget_level_def Let_def)
qed

subsection \<open>The budget on the way\<close>

definition entry_budget :: "json \<Rightarrow> int" where
  "entry_budget v = IntAt (as_obj v) [''reasoning_budget_tokens'']"

lemma entry_budget_at: "entry_budget (JObj m) = int_at (jget m ''reasoning_budget_tokens'')"
  by (simp add: entry_budget_def as_obj_def IntAt_def AnyAt_def)

text \<open>The positive budgets of the entries, and that they stand on assistant entries.\<close>

definition budgets :: "json list \<Rightarrow> int list" where
  "budgets ms = filter (\<lambda>n. 0 < n) (map entry_budget ms)"

definition carries :: "int \<Rightarrow> chat_encoding \<Rightarrow> bool" where
  "carries b s =
    (budgets (ce_messages s) = (if ce_carried s then [b] else []) \<and>
     list_all (\<lambda>v. 0 < entry_budget v \<longrightarrow> entry_role v = ''assistant'') (ce_messages s))"

lemma no_budget: "jget m ''reasoning_budget_tokens'' = JNull \<Longrightarrow> entry_budget (JObj m) = 0"
  by (simp add: entry_budget_def as_obj_def IntAt_def AnyAt_def int_at_def)

lemma plain_entries: "entry_budget (chat_entry role c) = 0" "entry_budget (result_entry jc s k) = 0"
  by (simp_all add: chat_entry_def result_entry_def no_budget jget_def)

lemma budgets_append [simp]: "budgets (xs @ ys) = budgets xs @ budgets ys" "budgets [] = []"
  by (simp_all add: budgets_def)

lemma budgets_plain: "(\<And>v. v \<in> set vs \<Longrightarrow> entry_budget v = 0) \<Longrightarrow> budgets vs = []"
  by (auto simp: budgets_def filter_empty_conv)

lemma carries_append:
  "carries b s \<Longrightarrow> (\<And>v. v \<in> set vs \<Longrightarrow> entry_budget v = 0) \<Longrightarrow> ce_messages t = ce_messages s @ vs \<Longrightarrow>
    ce_carried t = ce_carried s \<Longrightarrow> carries b t"
  by (auto simp: carries_def budgets_plain list_all_iff)

lemma note_calls_carries:
  "each (note_call i) j bs s = Inr s' \<Longrightarrow> ce_messages s' = ce_messages s \<and> ce_carried s' = ce_carried s"
  using note_calls [of i j bs s s'] by auto

lemma assistant_fields_budget:
  "jget (assistant_fields jc c r cs m) ''reasoning_budget_tokens'' = jget m ''reasoning_budget_tokens''"
  by (simp add: assistant_fields_def Let_def split: option.splits)

lemma assistant_carries:
  assumes run: "chat_assistant jc r i bs s = Inr s'" and s: "carries b s" and b: "0 < b" "reasoningBudget (rq_Reasoning r) = b"
    and ne: "bs \<noteq> []"
  shows "carries b s'"
proof -
  let ?calls = "of_kind ''tool_call'' bs"
  obtain encoded t where t: "carry_budget r (empty_assistant, s) = (encoded, t)" by fastforce
  have nores: "of_kind ''tool_result'' bs = []" using run by (auto simp: chat_assistant_def Let_def split: if_splits)
  have filled: "content_blocks bs \<noteq> [] \<or> of_kind ''reasoning'' bs \<noteq> [] \<or> ?calls \<noteq> []"
  proof -
    obtain x where "x \<in> set bs" using ne by (cases bs) auto
    with nores show ?thesis by (auto simp: content_blocks_def of_kind_def filter_empty_conv)
  qed
  from run t filled obtain u where u: "each (note_call i) 0 ?calls t = Inr u"
    and s': "s' = (emit_entry (JObj (assistant_fields jc (content_blocks bs) (of_kind ''reasoning'' bs) ?calls encoded)) u)\<lparr>ce_carried := True\<rparr>"
    by (auto simp: chat_assistant_def Let_def split: if_splits sum.splits)
  let ?e = "JObj (assistant_fields jc (content_blocks bs) (of_kind ''reasoning'' bs) ?calls encoded)"
  note um = note_calls_carries [OF u]
  note shape = carry_budget_shape [OF t]
  then have tm: "ce_messages t = ce_messages s" by (metis chat_encoding.select_convs(1) chat_encoding.surjective chat_encoding.update_convs(6))
  have role: "entry_role ?e = ''assistant''" using shape by (intro assistant_entry(1)) auto
  have bud: "entry_budget ?e = (if ce_carried s then 0 else b)"
  proof -
    have "entry_budget ?e = int_at (jget encoded ''reasoning_budget_tokens'')"
      by (simp add: entry_budget_at assistant_fields_budget)
    moreover have "encoded = (if ce_carried s then empty_assistant else jset ''reasoning_budget_tokens'' (JInt b) empty_assistant)"
      using t b by (auto simp: carry_budget_def split: if_splits)
    moreover have "jget empty_assistant ''reasoning_budget_tokens'' = JNull" by (simp add: empty_assistant_def jget_def)
    ultimately show ?thesis by (simp add: int_at_def)
  qed
  show ?thesis
    using s b um tm role bud unfolding s' by (auto simp: carries_def emit_entry_def budgets_def)
qed

lemma flush_carries: "carries b s \<Longrightarrow> carries b (flush_deferred s)"
  by (erule carries_append) (auto simp: flush_deferred_def plain_entries)

lemma user_carries:
  assumes "chat_user jc i bs s = Inr s'" "carries b s"
  shows "carries b s'"
proof -
  from assms(1) obtain t where t: "each (note_result i) 0 (of_kind ''tool_result'' bs) s = Inr t"
    and s': "s' = deliver_results jc (place_content (content_blocks bs) t)"
    by (auto simp: chat_user_def split: if_splits sum.splits)
  have "ce_carried x' = ce_carried x" if "each (note_result i) j cs x = Inr x'" for j cs x x'
    using that
  proof (induction cs arbitrary: j x)
    case (Cons c cs)
    from Cons.prems obtain y where y: "note_result i j c x = Inr y" "each (note_result i) (Suc j) cs y = Inr x'"
      by (auto split: sum.splits)
    from y(1) have "ce_carried y = ce_carried x" by (auto simp: note_result_def split: if_splits)
    with Cons.IH [OF y(2)] show ?case by simp
  qed simp
  with note_results [OF t] t assms(2) have c: "carries b t" by (auto simp: carries_def)
  have p: "carries b (place_content (content_blocks bs) t)"
    by (rule carries_append [OF c, of "if content_blocks bs = [] \<or> ce_order t \<noteq> [] \<or> ce_deferred t \<noteq> [] then []
          else [chat_entry ''user'' (encodeChatBlocks (content_blocks bs))]"])
      (auto simp: place_content_def emit_entry_def plain_entries split: if_splits)
  have d: "carries b (s\<lparr>ce_messages := ce_messages s @ map (result_entry jc s) (ce_order s) @ attachments jc s\<rparr>)" if "carries b s" for s
    by (rule carries_append [OF that, of "map (result_entry jc s) (ce_order s) @ attachments jc s"])
      (auto simp: attachments_def plain_entries)
  show ?thesis
    unfolding s' deliver_results_def using p flush_carries [OF d [OF p]] by (auto simp: carries_def)
qed

lemma start_carries: "carries b (chat_start r)"
  by (simp add: carries_def chat_start_def budgets_def plain_entries)

lemma chat_messages_budget:
  assumes "chat_messages jc r = Inr ms" "0 < b" "reasoningBudget (rq_Reasoning r) = b"
    "\<forall>m\<in>set (rq_Messages r). bm_Role m = ''assistant'' \<longrightarrow> bm_Blocks m \<noteq> []"
  shows "budgets ms = [b]" "list_all (\<lambda>v. 0 < entry_budget v \<longrightarrow> entry_role v = ''assistant'') ms"
proof -
  from assms(1) obtain s where s: "each (chat_turn jc r) 0 (rq_Messages r) (chat_start r) = Inr s"
    and ms: "ms = ce_messages (carry_budget_only r (flush_deferred s))"
    by (auto simp: chat_messages_def split: sum.splits if_splits)
  have "carries b s"
    by (rule each_inv [where P = "carries b", OF _ start_carries s])
      (use assms(2-4) in \<open>auto simp: chat_turn_def split: if_splits intro: assistant_carries user_carries\<close>)
  then have f: "carries b (flush_deferred s)" by (rule flush_carries)
  define e where "e = JObj (jset ''reasoning_budget_tokens'' (JInt b) empty_assistant)"
  have e: "entry_budget e = b" "entry_role e = ''assistant''"
    unfolding e_def by (simp_all add: entry_budget_at turn_fields int_at_def) (simp add: empty_assistant_def jget_def as_str_def)
  define t where "t = flush_deferred s"
  have m: "ms = (if ce_carried t then ce_messages t else ce_messages t @ [e])"
    using assms(2,3) unfolding ms t_def e_def by (simp add: carry_budget_only_def carry_budget_def emit_entry_def)
  have one: "budgets [e] = [b]" using assms(2) e(1) by (simp add: budgets_def)
  have t: "budgets (ce_messages t) = (if ce_carried t then [b] else [])"
    "list_all (\<lambda>v. 0 < entry_budget v \<longrightarrow> entry_role v = ''assistant'') (ce_messages t)"
    using f unfolding carries_def t_def by simp_all
  show "budgets ms = [b]" unfolding m using t(1) one by simp
  show "list_all (\<lambda>v. 0 < entry_budget v \<longrightarrow> entry_role v = ''assistant'') ms" unfolding m using t(2) e(2) by simp
qed

text \<open>Reading it back.\<close>

definition read_budget :: "json \<Rightarrow> json \<Rightarrow> json" where
  "read_budget m v = (if entry_role m = ''assistant'' then withReasoningBudget v (entry_budget m) else v)"

lemma carried_reasoning: "rq_Reasoning (carried_budget m r) = withReasoningBudget (rq_Reasoning r) (entry_budget (JObj m))"
  by (simp add: carried_budget_def entry_budget_def as_obj_def withReasoningBudget_def Let_def)

lemma place_chat_reasoning: "inr_all (\<lambda>r'. rq_Reasoning r' = rq_Reasoning r) (place_chat i m role bs r)"
  by (simp add: place_chat_def add_system_def add_developer_def add_message_def)

lemma chat_message_reasoning:
  assumes "chat_message i raw r = Inr r'"
  shows "rq_Reasoning r' = read_budget raw (rq_Reasoning r)"
proof -
  obtain m where m: "raw = JObj m" using assms by (cases raw) (simp_all add: chat_message_def)
  let ?a = "StringAt m [''role''] = ''assistant''"
  from assms obtain bs where "place_chat i m (StringAt m [''role'']) bs (if ?a then carried_budget m r else r) = Inr r'"
    by (auto simp: m chat_message_def Let_def split: sum.splits)
  from inr_allD [OF place_chat_reasoning this] show ?thesis
    by (simp add: read_budget_def m entry_role_def as_obj_def carried_reasoning)
qed

lemma chat_messages_reasoning:
  "each chat_message i ms r = Inr r' \<Longrightarrow> rq_Reasoning r' = fold read_budget ms (rq_Reasoning r)"
proof (induction ms arbitrary: i r)
  case (Cons m ms)
  then show ?case by (auto dest: chat_message_reasoning split: sum.splits)
qed simp

lemma read_budgets:
  assumes "list_all (\<lambda>v. 0 < entry_budget v \<longrightarrow> entry_role v = ''assistant'') ms"
  shows "fold read_budget ms v = fold (\<lambda>n v. withReasoningBudget v n) (budgets ms) v"
  using assms
proof (induction ms arbitrary: v)
  case (Cons m ms)
  then show ?case by (auto simp: read_budget_def budgets_def withReasoningBudget_def)
qed simp

lemma jget_Put: "jget (Put m k v) l = (if l = k \<and> v \<noteq> JNull then v else jget m l)"
  by (simp add: Put_def)


definition demo_thinking :: json_object where
  "demo_thinking = [(''type'', JStr ''enabled''), (''budget_tokens'', JInt 32000)]"

definition demo_request :: bridge_request where
  "demo_request = (empty_request [])\<lparr>rq_Reasoning := JObj demo_thinking,
     rq_Messages := [\<lparr>bm_Role = ''assistant'', bm_Blocks = [(block_of OutJson ''text'')\<lparr>bk_Text := ''a''\<rparr>]\<rparr>]\<rparr>"

definition demo_out :: json_object where
  "demo_out = [(''model'', JStr []), (''stream'', JBool False), (''reasoning_effort'', JStr ''xhigh''),
     (''messages'', JList [JObj [(''role'', JStr ''assistant''), (''content'', JStr ''a''),
       (''reasoning_budget_tokens'', JInt 32000)]])]"

lemma demo_thinking_facts:
  "IntAt demo_thinking [''budget_tokens''] = 32000" "StringAt demo_thinking [''type''] = ''enabled''"
  "reasoningEffort (JObj demo_thinking) = JStr ''xhigh''"
  by (simp_all add: demo_thinking_def IntAt_def StringAt_def AnyAt_def jget_def int_at_def as_str_def reasoningEffort_def
    explicitEffort_def effortForThinkingBudget_def)

lemma demo_encoded: "encodeChatRequest jc demo_request = Inr demo_out"
proof -
  have b: "reasoningBudget (JObj demo_thinking) = 32000" by (simp add: reasoningBudget_def demo_thinking_facts Let_def)
  have "chat_messages jc demo_request = Inr [JObj [(''role'', JStr ''assistant''), (''content'', JStr ''a''),
       (''reasoning_budget_tokens'', JInt 32000)]]"
    by (simp add: demo_request_def empty_request_def b chat_messages_def chat_start_def chat_turn_def chat_assistant_def
      of_kind_def content_blocks_def carry_budget_def flush_deferred_def carry_budget_only_def assistant_fields_def
      bridgeReasoningText_def emit_entry_def empty_assistant_def encodeChatBlocks_def block_of_def jset_def Let_def)
  moreover have "rq_Reasoning demo_request = JObj demo_thinking" by (simp add: demo_request_def)
  ultimately show ?thesis
    by (simp add: encodeChatRequest_def demo_thinking_facts demo_out_def)
      (simp add: demo_request_def empty_request_def request_head_def native_knobs_def chatResponseFormat_def Put_def
        put_tools_def jset_def StringAt_def BoolAt_def AnyAt_def as_bool_def)
qed

lemma demo_decoded: "\<exists>r. decodeBridgeRequest Chat demo_out = Inr r"
  by (simp add: demo_out_def decodeBridgeRequest_def decode_chat_request_def empty_request_def jget_def SliceAt_get as_list_def
    chat_message_def StringAt_def AnyAt_def as_str_def decodeOpenAIBlocksChecked_def place_chat_def add_message_def
    decodeChatReasoning_def carried_budget_def IntAt_def int_at_def withReasoningBudget_def FirstAny.simps
    decode_results_def decode_result_def block_of_def Let_def)


subsection \<open>A forced level\<close>

lemma budget_range: "1024 \<le> budgetForEffort e" "budgetForEffort e \<le> 32768"
  by (simp_all add: budgetForEffort_def Let_def)

text \<open>
  A forced level never overrides what the client stated and touches nothing but the reasoning controls and
  the maximum of tokens; in an Anthropic body the thinking budget is that of the level, and a positive
  maximum of tokens exceeds it.
\<close>

theorem forced_effort_consistent:
  "let out = ForcedEffort p body effort; level = to_lower (trim_space effort)
   in if clientEffortExplicit p body then out = body
      else if validForcedEffort level then (\<forall>k. if k \<in> {''reasoning_effort'', ''reasoning'', ''thinking'', ''output_config'', ''max_tokens''} then True
              else jget out k = jget body k) \<and>
           (if p = Anthropic \<and> level \<noteq> ''none'' then
              AnyAt out [''output_config'', ''effort''] = JStr level \<and>
              AnyAt out [''thinking'', ''budget_tokens''] = JNum (of_count (budgetForEffort (JStr level))) \<and>
              (IntAt out [''max_tokens''] \<le> 0 \<or> budgetForEffort (JStr level) < IntAt out [''max_tokens''])
            else True)
      else out = body"
proof (cases "clientEffortExplicit p body \<or> \<not> validForcedEffort (to_lower (trim_space effort))")
  case True
  then have "ForcedEffort p body effort = body" by (auto simp: ForcedEffort_def Let_def)
  with True show ?thesis by (simp only: Let_def if_True if_False simp_thms split: if_split) blast
next
  case False
  define e where "e = to_lower (trim_space effort)"
  have explicit: "\<not> clientEffortExplicit p body" and valid: "validForcedEffort e"
    using False unfolding e_def by blast+
  have f: "ForcedEffort p body effort =
    (case p of
          Chat \<Rightarrow> if e = ''none'' then jdelete ''reasoning_effort'' body else jset ''reasoning_effort'' (JStr e) body
        | Anthropic \<Rightarrow> applyAnthropicForcedEffort body e (e = ''none'')
        | Responses \<Rightarrow>
            if e = ''none'' then jdelete ''reasoning'' body
            else jset ''reasoning'' (JObj (jset ''effort'' (JStr e) (as_obj (jget body ''reasoning'')))) body
        | _ \<Rightarrow> body)"
  proof -
    have "\<not> (\<not> validForcedEffort (to_lower (trim_space effort)) \<or> clientEffortExplicit p body)" using False by blast
    then show ?thesis unfolding e_def ForcedEffort_def Let_def by (rule if_not_P)
  qed
  have keep: "jget (ForcedEffort p body effort) k = jget body k"
    if "k \<notin> {''reasoning_effort'', ''reasoning'', ''thinking'', ''output_config'', ''max_tokens''}" for k
    using that unfolding f by (simp add: applyAnthropicForcedEffort_def forced_thinking_def Let_def split: protocol.split)
  have set: "AnyAt out [''output_config'', ''effort''] = JStr e \<and>
      AnyAt out [''thinking'', ''budget_tokens''] = JNum (of_count (budgetForEffort (JStr e))) \<and>
      (IntAt out [''max_tokens''] \<le> 0 \<or> budgetForEffort (JStr e) < IntAt out [''max_tokens''])"
    if "out = applyAnthropicForcedEffort body e False" for out
    unfolding that applyAnthropicForcedEffort_def forced_thinking_def Let_def
    by (auto simp: AnyAt_def IntAt_def int_at_def)
  show ?thesis
    unfolding Let_def e_def [symmetric] if_not_P [OF explicit] if_P [OF valid]
  proof (intro conjI)
    show "\<forall>k. if k \<in> {''reasoning_effort'', ''reasoning'', ''thinking'', ''output_config'', ''max_tokens''} then True
        else jget (ForcedEffort p body effort) k = jget body k"
      using keep by presburger
    show "if p = Anthropic \<and> e \<noteq> ''none'' then
        AnyAt (ForcedEffort p body effort) [''output_config'', ''effort''] = JStr e \<and>
        AnyAt (ForcedEffort p body effort) [''thinking'', ''budget_tokens''] = JNum (of_count (budgetForEffort (JStr e))) \<and>
        (IntAt (ForcedEffort p body effort) [''max_tokens''] \<le> 0 \<or>
          budgetForEffort (JStr e) < IntAt (ForcedEffort p body effort) [''max_tokens'']) else True"
    proof (cases "p = Anthropic \<and> e \<noteq> ''none''")
      case True
      then have "ForcedEffort p body effort = applyAnthropicForcedEffort body e False" unfolding f by simp
      from set [OF this] True show ?thesis by (simp only: simp_thms if_True)
    next
      case False
      then show ?thesis by (simp only: if_False)
    qed
  qed
qed

subsection \<open>What does not fit together\<close>

text \<open>
  The comment of \<open>anthropicThinking\<close> calls budgets and levels inverse on every rung; the lowest level
  comes back as another one.
\<close>

theorem minimal_effort_not_inverse:
  "map (\<lambda>e. effortForThinkingBudget (budgetForEffort (JStr e))) [''minimal'', ''low'', ''medium'', ''high'', ''xhigh'', ''max''] =
    [''low'', ''low'', ''medium'', ''high'', ''xhigh'', ''max'']"
  by (simp add: budgetForEffort_def effortForThinkingBudget_def lower_word_lower lower_word_trim as_str_def Let_def)

text \<open>
  A Chat request for a high effort that leaves its maximum of tokens open becomes an Anthropic request
  whose thinking budget is twice its maximum of tokens, which Anthropic refuses.
\<close>

theorem converted_budget_exceeds_maximum:
  "case ConvertRequest jc rnds k Chat Anthropic
      [(''model'', JStr ''m''), (''reasoning_effort'', JStr ''high''),
       (''messages'', JList [JObj [(''role'', JStr ''user''), (''content'', JStr ''a'')]])] of
     Inl e \<Rightarrow> False
   | Inr out \<Rightarrow> IntAt out [''max_tokens''] = 4096 \<and> AnyAt out [''thinking'', ''budget_tokens''] = JNum (of_count 8192)"
proof -
  let ?in = "[(''model'', JStr ''m''), (''reasoning_effort'', JStr ''high''),
       (''messages'', JList [JObj [(''role'', JStr ''user''), (''content'', JStr ''a'')]])]"
  have f: "FunctionToolSubset ?in Chat = Inr ?in"
    by (simp add: FunctionToolSubset_def jget_def array_or_nil_def check_choice_def as_list_def)
  obtain r where r: "decodeBridgeRequest Chat ?in = Inr r" "rq_Reasoning r = JStr ''high''" "rq_MaxTokens r = JNull"
      "rq_Messages r = [\<lparr>bm_Role = ''user'', bm_Blocks = [(block_of OutJson ''text'')\<lparr>bk_Text := ''a''\<rparr>]\<rparr>]"
      "rq_System r = []" "rq_Developer r = []"
    by (auto simp: decodeBridgeRequest_def decode_chat_request_def empty_request_def jget_def SliceAt_get as_list_def
      chat_message_def StringAt_def AnyAt_def as_str_def decodeOpenAIBlocksChecked_def place_chat_def add_message_def
      decode_results_def decode_result_def block_of_def Let_def)
  have v: "validateBridgeRequest Anthropic r = None"
    by (simp add: validateBridgeRequest_def r file_without_data_def block_of_def)
  have t: "anthropicThinking (JStr ''high'') = thinking_level (JStr ''high'') 0"
    by (simp add: anthropicThinking_def value_thinking_def normalizeEffortValue_def lower_word_lower lower_word_trim Let_def)
  have bud: "budgetForEffort (JStr ''high'') = 8192"
    by (simp add: budgetForEffort_def lower_word_lower lower_word_trim as_str_def Let_def)
  let ?out = "encodeAnthropicRequest jc r"
  have "jget ?out ''max_tokens'' = JInt 4096" "jget ?out ''thinking'' = thinkingFor (JStr ''high'') 0"
    by (simp_all add: encodeAnthropicRequest_def Let_def r t thinking_level_def jget_put_tools Put_def thinkingFor_def)
  then have "IntAt ?out [''max_tokens''] = 4096 \<and> AnyAt ?out [''thinking'', ''budget_tokens''] = JNum (of_count 8192)"
    by (simp add: IntAt_def AnyAt_def int_at_def thinkingFor_def jget_def bud)
  then show ?thesis by (simp add: ConvertRequest_def f r(1) encodeBridgeRequest_def v)
qed

text \<open>
  A thinking budget is lost when the first assistant turn is empty: the turn takes the budget and is
  then left out, and the note that it was carried keeps it off the later turns and off the closing one.
\<close>

theorem empty_turn_loses_budget:
  assumes "rq_Reasoning r = JObj m" "0 < IntAt m [''budget_tokens'']" "rq_System r = []" "rq_Developer r = []"
    "rq_Messages r = [\<lparr>bm_Role = ''assistant'', bm_Blocks = []\<rparr>,
       \<lparr>bm_Role = ''assistant'', bm_Blocks = [(block_of OutJson ''text'')\<lparr>bk_Text := ''a''\<rparr>]\<rparr>]"
  shows "chat_messages jc r = Inr [JObj [(''role'', JStr ''assistant''), (''content'', JStr ''a'')]]"
proof -
  have b: "reasoningBudget (rq_Reasoning r) = IntAt m [''budget_tokens'']"
    using assms(1,2) by (simp add: reasoningBudget_def Let_def)
  show ?thesis
    using assms b
    by (simp add: chat_messages_def chat_start_def chat_turn_def chat_assistant_def of_kind_def content_blocks_def
      carry_budget_def flush_deferred_def carry_budget_only_def assistant_fields_def bridgeReasoningText_def emit_entry_def
      empty_assistant_def encodeChatBlocks_def block_of_def jset_def Let_def)
qed

end
