(* ===== verification/ToolHistory.thy ===== *)
theory ToolHistory
  imports RequestProps
begin

text \<open>
  \<open>PrepareRequest\<close> of internal/core/protocol/request.go: the conversion of a request followed by the
  repair of the reasoning history for endpoints that replay it. The code changes the messages in place
  and reports whether it changed one; here a repair gives the new value and that flag.
\<close>

subsection \<open>Who needs the repair\<close>

definition reasoningVendorHints :: "string list" where
  "reasoningVendorHints = [''moonshot'', ''kimi'', ''deepseek'', ''mimo'', ''xiaomimimo'']"

definition isReasoningVendorIdentifier :: "string \<Rightarrow> bool" where
  "isReasoningVendorIdentifier s = list_ex (contains (to_lower s)) reasoningVendorHints"

definition control_enables :: "json \<Rightarrow> bool" where
  "control_enables v =
    (case v of
       JNull \<Rightarrow> False
     | JStr s \<Rightarrow> to_lower (trim_space s) \<notin> {[], ''none'', ''disabled''}
     | JBool b \<Rightarrow> b
     | JObj m \<Rightarrow>
         to_lower (trim_space (FirstString [StringAt m [''type''], StringAt m [''effort'']])) \<notin> {''none'', ''disabled''}
     | _ \<Rightarrow> True)"

definition requestEnablesReasoning :: "json_object \<Rightarrow> bool" where
  "requestEnablesReasoning input =
    list_ex (\<lambda>k. control_enables (jget input k)) [''reasoning_effort'', ''reasoning'', ''thinking'', ''effort'']"

subsection \<open>Repairs\<close>

definition toolReasoningPlaceholder :: string where
  "toolReasoningPlaceholder = ''tool call''"

text \<open>Each element of a list is repaired or kept.\<close>

definition repair_all :: "(json \<Rightarrow> json option) \<Rightarrow> json list \<Rightarrow> json list \<times> bool" where
  "repair_all f xs = (map (\<lambda>x. case f x of None \<Rightarrow> x | Some y \<Rightarrow> y) xs, list_ex (\<lambda>x. f x \<noteq> None) xs)"

definition blank_text :: "json \<Rightarrow> bool" where
  "blank_text v = (trim_space (as_str v) = [])"

definition chat_history_message :: "json \<Rightarrow> json option" where
  "chat_history_message raw =
    (case raw of
       JObj m \<Rightarrow>
         if StringAt m [''role''] \<noteq> ''assistant'' \<or> SliceAt m [''tool_calls''] = [] \<or>
            \<not> blank_text (jget m ''reasoning_content'') then None
         else Some (JObj (jset ''reasoning_content''
           (JStr (if blank_text (jget m ''reasoning'') then toolReasoningPlaceholder else as_str (jget m ''reasoning''))) m))
     | _ \<Rightarrow> None)"

definition repair_messages :: "(json \<Rightarrow> json option) \<Rightarrow> json_object \<Rightarrow> json_object \<times> bool" where
  "repair_messages f input =
    (case jget input ''messages'' of
       JList ms \<Rightarrow> (case repair_all f ms of (ms, changed) \<Rightarrow> (jset ''messages'' (JList ms) input, changed))
     | _ \<Rightarrow> (input, False))"

definition normalizeChatToolReasoningHistory :: "json_object \<Rightarrow> json_object \<times> bool" where
  "normalizeChatToolReasoningHistory = repair_messages chat_history_message"

definition anthropicContentHasType :: "json list \<Rightarrow> string \<Rightarrow> bool" where
  "anthropicContentHasType content kind = list_ex (\<lambda>raw. StringAt (as_obj raw) [''type''] = kind) content"

definition thinking_block :: "string \<Rightarrow> json" where
  "thinking_block s = JObj [(''type'', JStr ''thinking''), (''thinking'', JStr s)]"

definition repair_thinking :: "json_object \<Rightarrow> json_object" where
  "repair_thinking b =
    (let b = jdelete ''signature'' b
     in if blank_text (jget b ''thinking'') then jset ''thinking'' (JStr toolReasoningPlaceholder) b else b)"

definition history_block :: "json \<Rightarrow> json option" where
  "history_block raw =
    (case raw of
       JObj b \<Rightarrow>
         if StringAt b [''type''] = ''thinking'' then
           (if map_of b ''signature'' \<noteq> None \<or> blank_text (jget b ''thinking'') then Some (JObj (repair_thinking b)) else None)
         else if StringAt b [''type''] = ''redacted_thinking'' then Some (thinking_block redacted_placeholder)
         else None
     | _ \<Rightarrow> None)"

definition has_thinking :: "json list \<Rightarrow> bool" where
  "has_thinking content = (anthropicContentHasType content ''thinking'' \<or> anthropicContentHasType content ''redacted_thinking'')"

definition anthropic_history_message :: "json \<Rightarrow> json option" where
  "anthropic_history_message raw =
    (case raw of
       JObj m \<Rightarrow>
         if StringAt m [''role''] \<noteq> ''assistant'' then None
         else (case jget m ''content'' of
           JList content \<Rightarrow>
             if \<not> anthropicContentHasType content ''tool_use'' then None
             else if \<not> has_thinking content
             then Some (JObj (jset ''content'' (JList (thinking_block toolReasoningPlaceholder # content)) m))
             else (case repair_all history_block content of
               (content, changed) \<Rightarrow> if changed then Some (JObj (jset ''content'' (JList content) m)) else None)
         | _ \<Rightarrow> None)
     | _ \<Rightarrow> None)"

definition normalizeAnthropicToolThinkingHistory :: "json_object \<Rightarrow> json_object \<times> bool" where
  "normalizeAnthropicToolThinkingHistory = repair_messages anthropic_history_message"

definition normalizeToolReasoningHistory ::
    "protocol \<Rightarrow> string \<Rightarrow> string \<Rightarrow> json_object \<Rightarrow> json_object \<times> bool" where
  "normalizeToolReasoningHistory p model url input =
    (let vendor = isReasoningVendorIdentifier model \<or> isReasoningVendorIdentifier url
     in case p of
          Chat \<Rightarrow> if vendor \<or> requestEnablesReasoning input then normalizeChatToolReasoningHistory input else (input, False)
        | Anthropic \<Rightarrow> if vendor then normalizeAnthropicToolThinkingHistory input else (input, False)
        | _ \<Rightarrow> (input, False))"

definition PrepareRequest ::
    "json_codec \<Rightarrow> draws \<Rightarrow> nat \<Rightarrow> protocol \<Rightarrow> protocol \<Rightarrow> json_object \<Rightarrow> string \<Rightarrow> request_error + json_object" where
  "PrepareRequest jc rnds k from target input url =
    (case ConvertRequest jc rnds k from target input of
       Inl e \<Rightarrow> Inl e
     | Inr out \<Rightarrow> Inr (fst (normalizeToolReasoningHistory target (StringAt out [''model'']) url out)))"

subsection \<open>What the repair achieves\<close>

text \<open>The shapes that the vendors reject on turns with tool calls.\<close>

definition chat_turn_ok :: "json \<Rightarrow> bool" where
  "chat_turn_ok raw =
    (let m = as_obj raw
     in StringAt m [''role''] \<noteq> ''assistant'' \<or> SliceAt m [''tool_calls''] = [] \<or> \<not> blank_text (jget m ''reasoning_content''))"

definition thinking_ok :: "json \<Rightarrow> bool" where
  "thinking_ok raw =
    (let b = as_obj raw
     in if StringAt b [''type''] = ''thinking'' then jget b ''signature'' = JNull \<and> \<not> blank_text (jget b ''thinking'')
        else StringAt b [''type''] \<noteq> ''redacted_thinking'')"

definition anthropic_turn_ok :: "json \<Rightarrow> bool" where
  "anthropic_turn_ok raw =
    (let m = as_obj raw; content = SliceAt m [''content'']
     in StringAt m [''role''] \<noteq> ''assistant'' \<or> \<not> anthropicContentHasType content ''tool_use'' \<or>
        anthropicContentHasType content ''thinking'' \<and> list_all thinking_ok content)"

lemma trim_space_ends:
  assumes "s \<noteq> []" "printable (hd s)" "printable (last s)"
  shows "trim_space s = s"
proof -
  have np: "\<not> has_prefix t w" if "w \<noteq> []" "\<not> printable (hd w)" "t \<noteq> []" "printable (hd t)" for t w
    using that by (cases w; cases t) (auto simp: has_prefix_iff)
  have "strip_all go_spaces s = s"
    using np go_spaces_ends assms by (intro strip_all_None) (auto simp: find_None_prop)
  moreover have "\<not> has_prefix (rev s) (rev w)" if "w \<in> set go_spaces" for w
    using go_spaces_ends that assms by (intro np) (auto simp: hd_rev)
  then have "strip_all (map rev go_spaces) (rev s) = rev s"
    by (intro strip_all_None) (auto simp: find_None_prop)
  ultimately show ?thesis by (simp add: trim_space_def)
qed

lemma placeholders_not_blank [simp]:
  "\<not> blank_text (JStr toolReasoningPlaceholder)" "\<not> blank_text (JStr redacted_placeholder)"
  by (simp_all add: blank_text_def as_str_def trim_space_ends toolReasoningPlaceholder_def redacted_placeholder_def printable_def)

lemma at_get: "StringAt m [k] = as_str (jget m k)" "SliceAt m [k] = as_list (jget m k)"
  by (simp_all add: StringAt_def SliceAt_def AnyAt_def)

lemma obj_simps [simp]: "as_obj (JObj m) = m" "as_str (JStr s) = s" "as_list (JList xs) = xs"
  by (simp_all add: as_obj_def as_str_def as_list_def)

lemma chat_none: "chat_history_message raw = None \<longleftrightarrow> chat_turn_ok raw"
  by (cases raw) (auto simp: chat_history_message_def chat_turn_ok_def Let_def as_obj_def StringAt_def AnyAt_def)

lemma not_blank_str: "\<not> blank_text v \<Longrightarrow> \<not> blank_text (JStr (as_str v))"
  by (simp add: blank_text_def)

lemma chat_repaired: "chat_history_message raw = Some y \<Longrightarrow> chat_turn_ok y"
  by (auto simp: chat_history_message_def chat_turn_ok_def Let_def at_get not_blank_str split: json.splits if_splits)

lemma block_none: "history_block raw = None \<longleftrightarrow>
    (case raw of JObj b \<Rightarrow> thinking_ok raw \<and> (StringAt b [''type''] = ''thinking'' \<longrightarrow> map_of b ''signature'' = None) | _ \<Rightarrow> True)"
  by (cases raw) (auto simp: history_block_def thinking_ok_def Let_def jget_def)

lemma thinking_block_ok: "\<not> blank_text (JStr s) \<Longrightarrow> thinking_ok (thinking_block s)"
  by (simp add: thinking_ok_def thinking_block_def at_get jget_def Let_def)

lemma repair_thinking_get:
  "jget (repair_thinking b) k =
    (if k = ''signature'' then JNull
     else if k = ''thinking'' \<and> blank_text (jget b ''thinking'') then JStr toolReasoningPlaceholder else jget b k)"
  by (simp add: repair_thinking_def Let_def)

lemma block_repaired: "history_block raw = Some y \<Longrightarrow> thinking_ok y \<and> StringAt (as_obj y) [''type''] = ''thinking''"
proof -
  assume h: "history_block raw = Some y"
  then obtain b where b: "raw = JObj b" by (cases raw) (simp_all add: history_block_def)
  consider "y = JObj (repair_thinking b)" "StringAt b [''type''] = ''thinking''" | "y = thinking_block redacted_placeholder"
    using h by (auto simp: b history_block_def split: if_splits)
  then show ?thesis
  proof cases
    case 1
    then show ?thesis by (auto simp: thinking_ok_def at_get repair_thinking_get Let_def)
  next
    case 2
    then show ?thesis
      by (simp add: thinking_block_ok) (simp add: thinking_block_def at_get jget_def)
  qed
qed

subsection \<open>Whole bodies\<close>

lemma repair_all_ok:
  assumes "\<And>x. f x = None \<Longrightarrow> P x" "\<And>x y. f x = Some y \<Longrightarrow> P y"
  shows "list_all P (fst (repair_all f xs))"
  using assms by (auto simp: repair_all_def list_all_iff split: option.splits)

lemma repair_messages_ok:
  assumes "\<And>x. f x = None \<Longrightarrow> P x" "\<And>x y. f x = Some y \<Longrightarrow> P y"
  shows "list_all P (SliceAt (fst (repair_messages f input)) [''messages''])"
proof (cases "jget input ''messages''")
  case (JList ms)
  have "list_all P (fst (repair_all f ms))" using assms by (rule repair_all_ok)
  with JList show ?thesis by (simp add: repair_messages_def at_get case_prod_beta)
qed (simp_all add: repair_messages_def at_get as_list_def)

lemma has_type_repaired: "anthropicContentHasType (fst (repair_all history_block content)) ''thinking'' \<longleftrightarrow> has_thinking content"
  (is "?l \<longleftrightarrow> ?r")
proof
  assume ?r
  then obtain raw where raw: "raw \<in> set content" "StringAt (as_obj raw) [''type''] = ''thinking'' \<or> StringAt (as_obj raw) [''type''] = ''redacted_thinking''"
    by (auto simp: has_thinking_def anthropicContentHasType_def list_ex_iff)
  let ?y = "case history_block raw of None \<Rightarrow> raw | Some y \<Rightarrow> y"
  have "StringAt (as_obj ?y) [''type''] = ''thinking''"
  proof (cases "history_block raw")
    case None
    with raw(2) show ?thesis
      by (cases raw) (auto simp: history_block_def split: if_splits, simp_all add: as_obj_def StringAt_def AnyAt_def)
  qed (simp add: block_repaired)
  with raw(1) show ?l by (auto simp: repair_all_def anthropicContentHasType_def list_ex_iff)
next
  assume ?l
  then obtain raw where raw: "raw \<in> set content" "StringAt (as_obj (case history_block raw of None \<Rightarrow> raw | Some y \<Rightarrow> y)) [''type''] = ''thinking''"
    by (auto simp: repair_all_def anthropicContentHasType_def list_ex_iff)
  show ?r
  proof (cases "history_block raw")
    case None
    with raw show ?thesis by (auto simp: has_thinking_def anthropicContentHasType_def list_ex_iff)
  next
    case (Some y)
    then have "StringAt (as_obj raw) [''type''] = ''thinking'' \<or> StringAt (as_obj raw) [''type''] = ''redacted_thinking''"
      by (auto simp: history_block_def split: json.splits if_splits)
    with raw(1) show ?thesis by (auto simp: has_thinking_def anthropicContentHasType_def list_ex_iff)
  qed
qed

lemma kept_blocks_ok: "list_all thinking_ok (fst (repair_all history_block content))"
proof (rule repair_all_ok)
  fix raw assume "history_block raw = None"
  then show "thinking_ok raw"
    by (cases raw) (auto simp: block_none, simp_all add: thinking_ok_def as_obj_def StringAt_def AnyAt_def)
qed (simp add: block_repaired)

lemma no_thinking_ok: "\<not> has_thinking content \<Longrightarrow> list_all thinking_ok content"
  by (auto simp: has_thinking_def anthropicContentHasType_def list_ex_iff list_all_iff thinking_ok_def Let_def)

lemma anthropic_repaired: "anthropic_history_message raw = Some y \<Longrightarrow> anthropic_turn_ok y"
proof -
  assume h: "anthropic_history_message raw = Some y"
  then obtain m content where m: "raw = JObj m" "jget m ''content'' = JList content"
    by (auto simp: anthropic_history_message_def split: json.splits if_splits)
  consider (none) "\<not> has_thinking content" "y = JObj (jset ''content'' (JList (thinking_block toolReasoningPlaceholder # content)) m)"
    | (some) "has_thinking content" "y = JObj (jset ''content'' (JList (fst (repair_all history_block content))) m)"
    using h by (auto simp: anthropic_history_message_def m split: if_splits prod.splits)
  then show ?thesis
  proof cases
    case none
    have "StringAt (as_obj (thinking_block toolReasoningPlaceholder)) [''type''] = ''thinking''"
      by (simp add: thinking_block_def at_get jget_def)
    with none no_thinking_ok [OF none(1)] show ?thesis
      by (simp add: anthropic_turn_ok_def at_get Let_def thinking_block_ok anthropicContentHasType_def)
  next
    case some
    with kept_blocks_ok [of content] has_type_repaired [of content] show ?thesis
      by (simp add: anthropic_turn_ok_def at_get Let_def)
  qed
qed

lemma anthropic_none: "anthropic_history_message raw = None \<Longrightarrow> anthropic_turn_ok raw"
proof (cases raw)
  case (JObj m)
  assume h: "anthropic_history_message raw = None"
  show ?thesis
  proof (cases "jget m ''content''")
    case (JList content)
    let ?x = "StringAt m [''role''] \<noteq> ''assistant'' \<or> \<not> anthropicContentHasType content ''tool_use''"
    show ?thesis
    proof (cases ?x)
      case True
      with JObj JList show ?thesis by (auto simp: anthropic_turn_ok_def at_get)
    next
      case False
      with h JObj JList have t: "has_thinking content" "\<not> snd (repair_all history_block content)"
        by (auto simp: anthropic_history_message_def split: if_splits prod.splits)
      then have same: "fst (repair_all history_block content) = content"
        by (auto simp: repair_all_def list_ex_iff intro!: map_idI)
      with t(1) kept_blocks_ok [of content] has_type_repaired [of content] JObj JList show ?thesis
        by (simp add: anthropic_turn_ok_def at_get Let_def)
    qed
  qed (auto simp: JObj anthropic_turn_ok_def at_get Let_def anthropicContentHasType_def as_list_def)
qed (simp_all add: anthropic_turn_ok_def as_obj_def StringAt_def AnyAt_def)


end
