(* ===== verification/CustomTools.thy ===== *)
theory CustomTools
  imports Efforts
begin

text \<open>
  Free-text tools over providers that only have functions: internal/core/protocol/custom_tools.go. A
  request is lowered to functions with one text argument, and the writer of the answer restores the calls
  of these tools. Maps with boolean values are lists of their keys. What a downstream writer is given is
  a list of frames, the JSON of an event or the bytes of a comment or document; it takes as many as
  \<open>cw_room\<close> says (None: all). The content type of the answer is the flag \<open>cw_stream\<close>.
\<close>

datatype tool_error =
    BadCustomName | NameConflict string | UnnamedCall | CallInputNotText
  | WrapperNotText | BadWrapper | WrapperInputNotText
  | BufferLimit | BadFrameJson | FrameNotMarshalled | IncompleteStream | DownstreamFailed
  | UnnamedNamespace | NamespaceUsedName | NamespaceClash | AmbiguousPath | EmptyNamespace | ChildNotObject
  | BadChildKind | RepeatedChild | AmbiguousReference | ToolNotAnObject | UnknownNamespace | UnknownNamespaceTool

definition add_new :: "string \<Rightarrow> string list \<Rightarrow> string list" where
  "add_new k ks = (if k \<in> set ks then ks else ks @ [k])"

subsection \<open>Lowering a request\<close>

definition tool_kind :: "json \<Rightarrow> string" where
  "tool_kind raw = StringAt (as_obj raw) [''type'']"

definition function_name :: "json \<Rightarrow> string" where
  "function_name raw = FirstString [StringAt (as_obj raw) [''name''], StringAt (as_obj raw) [''function'', ''name'']]"

text \<open>The names of the custom tools and of the functions among the tools.\<close>

fun scan_tools :: "json list \<Rightarrow> string list \<times> string list \<Rightarrow> tool_error + string list \<times> string list" where
  "scan_tools [] s = Inr s"
| "scan_tools (raw # raws) (names, functions) =
    (let functions = (if tool_kind raw = ''function'' then add_new (function_name raw) functions else functions);
         name = StringAt (as_obj raw) [''name'']
     in if tool_kind raw \<noteq> ''custom'' then scan_tools raws (names, functions)
        else if trim_space name = [] \<or> name \<in> set names then Inl BadCustomName
        else scan_tools raws (add_new name names, functions))"

text \<open>The names called in the history, and whether it has anything to rewrite.\<close>

fun scan_input :: "json list \<Rightarrow> string list \<Rightarrow> string list \<times> bool \<Rightarrow> tool_error + string list \<times> bool" where
  "scan_input [] functions s = Inr s"
| "scan_input (raw # raws) functions (names, needs) =
    (if tool_kind raw = ''custom_tool_call'' then
       (let name = StringAt (as_obj raw) [''name'']
        in if name = [] then Inl UnnamedCall
           else scan_input raws functions (if name \<in> set functions then names else add_new name names, True))
     else scan_input raws functions (names, needs \<or> tool_kind raw = ''custom_tool_call_output''))"

definition custom_description :: "json_object \<Rightarrow> string" where
  "custom_description tool =
    StringAt tool [''description''] @
    (CHR 0x0A # ''Pass the complete raw tool input as the input string, unchanged.'') @
    (let format = MapAt tool [''format'']
     in if StringAt format [''type''] = ''grammar''
        then (CHR 0x0A # ''The input must follow this '') @ StringAt format [''syntax''] @ '' grammar:'' @
          (CHR 0x0A # StringAt format [''definition''])
        else [])"

definition wrapper_schema :: json where
  "wrapper_schema =
    JObj [(''type'', JStr ''object''),
      (''properties'', JObj [(''input'', JObj [(''type'', JStr ''string'')])]),
      (''required'', JList [JStr ''input'']), (''additionalProperties'', JBool False)]"

definition lower_tool :: "json_object \<Rightarrow> json_object" where
  "lower_tool tool =
    jset ''parameters'' wrapper_schema (jset ''strict'' (JBool True)
      (jset ''description'' (JStr (custom_description tool)) (jset ''type'' (JStr ''function'') (jdelete ''format'' tool))))"

fun lower_tools :: "string list \<Rightarrow> json list \<Rightarrow> tool_error + json list" where
  "lower_tools names [] = Inr []"
| "lower_tools names (raw # raws) =
    (let name = StringAt (as_obj raw) [''name'']
     in if tool_kind raw \<noteq> ''custom'' \<and> name \<in> set names then Inl (NameConflict name)
        else case lower_tools names raws of
          Inl e \<Rightarrow> Inl e
        | Inr out \<Rightarrow> Inr ((if tool_kind raw = ''custom'' then JObj (lower_tool (as_obj raw)) else raw) # out))"

definition wrapper_text :: "json_codec \<Rightarrow> string \<Rightarrow> string" where
  "wrapper_text jc input = (case jc_marshal jc (JObj [(''input'', JStr input)]) of None \<Rightarrow> [] | Some s \<Rightarrow> s)"

definition lower_call :: "json_codec \<Rightarrow> json_object \<Rightarrow> tool_error + json_object" where
  "lower_call jc item =
    (case jget item ''input'' of
       JStr input \<Rightarrow>
         Inr (jdelete ''input'' (jset ''arguments'' (JStr (wrapper_text jc input))
           (jset ''type'' (JStr ''function_call'') item)))
     | _ \<Rightarrow> Inl CallInputNotText)"

fun lower_items :: "json_codec \<Rightarrow> json list \<Rightarrow> tool_error + json list" where
  "lower_items jc [] = Inr []"
| "lower_items jc (raw # raws) =
    (case (if tool_kind raw = ''custom_tool_call'' then map_sum id JObj (lower_call jc (as_obj raw))
           else if tool_kind raw = ''custom_tool_call_output''
           then Inr (JObj (jset ''type'' (JStr ''function_call_output'') (as_obj raw)))
           else Inr raw) of
       Inl e \<Rightarrow> Inl e
     | Inr v \<Rightarrow> (case lower_items jc raws of Inl e \<Rightarrow> Inl e | Inr out \<Rightarrow> Inr (v # out)))"

definition set_list :: "string \<Rightarrow> json list \<Rightarrow> json_object \<Rightarrow> json_object" where
  "set_list k xs m = (case jget m k of JList _ \<Rightarrow> jset k (JList xs) m | _ \<Rightarrow> m)"

definition lower_choice :: "json_object \<Rightarrow> json_object" where
  "lower_choice body =
    (let choice = MapAt body [''tool_choice'']
     in if StringAt choice [''type''] = ''custom''
        then jset ''tool_choice'' (JObj (jset ''type'' (JStr ''function'') choice)) body else body)"

definition PrepareCustomTools :: "json_codec \<Rightarrow> json_object \<Rightarrow> tool_error + json_object \<times> string list" where
  "PrepareCustomTools jc body =
    (let tools = SliceAt body [''tools'']; input = SliceAt body [''input'']
     in case scan_tools tools ([], []) of
          Inl e \<Rightarrow> Inl e
        | Inr (names, functions) \<Rightarrow>
            (case List.find (\<lambda>name. name \<in> set functions) names of
               Some name \<Rightarrow> Inl (NameConflict name)
             | None \<Rightarrow>
                 (case scan_input input functions (names, False) of
                    Inl e \<Rightarrow> Inl e
                  | Inr (names, needs) \<Rightarrow>
                      if names = [] \<and> \<not> needs then Inr (body, [])
                      else case lower_tools names tools of
                        Inl e \<Rightarrow> Inl e
                      | Inr tools \<Rightarrow>
                          (case lower_items jc input of
                             Inl e \<Rightarrow> Inl e
                           | Inr input \<Rightarrow>
                               Inr (lower_choice (set_list ''input'' input (set_list ''tools'' tools body)), names)))))"

subsection \<open>Restoring the answer\<close>

datatype tool_frame = ToolEvent json_object | ToolComment string | ToolDocument json

record tool_writer =
  cw_names :: "string list"
  cw_namespaces :: "(string \<times> string \<times> string) list"
  cw_items :: "string list"
  cw_delivered :: "string list"
  cw_buffer :: string
  cw_limit :: nat
  cw_status :: int
  cw_committed :: "int option"
  cw_sequence :: nat
  cw_failure :: "tool_error option"
  cw_responseID :: string
  cw_responseLength :: nat
  cw_stream :: bool
  cw_out :: "tool_frame list"
  cw_room :: "nat option"

text \<open>\<open>cw_namespaces\<close>: the lowered name with the name and the namespace it stands for; \<open>cw_committed\<close>:
  the status sent.\<close>

definition NewClientToolWriter ::
    "bool \<Rightarrow> nat option \<Rightarrow> string list \<Rightarrow> (string \<times> string \<times> string) list \<Rightarrow> int \<Rightarrow> tool_writer" where
  "NewClientToolWriter stream room names namespaces limit =
    \<lparr>cw_names = names, cw_namespaces = namespaces, cw_items = [], cw_delivered = [], cw_buffer = [],
     cw_limit = (if limit \<le> 0 then 2 ^ 25 else nat limit), cw_status = 0, cw_committed = None, cw_sequence = 0,
     cw_failure = None, cw_responseID = [], cw_responseLength = 0, cw_stream = stream, cw_out = [], cw_room = room\<rparr>"

definition WriteHeader :: "int \<Rightarrow> tool_writer \<Rightarrow> tool_writer" where
  "WriteHeader status w = (if cw_status w = 0 \<and> 200 \<le> status then w\<lparr>cw_status := status\<rparr> else w)"

definition commit :: "tool_writer \<Rightarrow> tool_writer" where
  "commit w =
    (if cw_committed w = None then w\<lparr>cw_committed := Some (if cw_status w = 0 then 200 else cw_status w)\<rparr> else w)"

definition deliver :: "tool_frame \<Rightarrow> tool_writer \<Rightarrow> bool \<times> tool_writer" where
  "deliver f w =
    (if cw_room w = Some 0 then (False, w)
     else (True, w\<lparr>cw_out := cw_out w @ [f], cw_room := map_option (\<lambda>n. n - 1) (cw_room w)\<rparr>))"

definition failed_event :: "tool_writer \<Rightarrow> string \<Rightarrow> json_object" where
  "failed_event w message =
    [(''type'', JStr ''response.failed''), (''sequence_number'', JInt (int (cw_sequence w))),
     (''response'', JObj [(''id'', JStr (cw_responseID w)), (''object'', JStr ''response''), (''status'', JStr ''failed''),
        (''output'', JList []),
        (''error'', JObj [(''code'', JStr ''invalid_tool_arguments''), (''message'', JStr message)])])]"

text \<open>\<open>say\<close> is the text of an error. The failure of the delivery is ignored.\<close>

definition fail :: "(tool_error \<Rightarrow> string) \<Rightarrow> tool_error \<Rightarrow> tool_writer \<Rightarrow> tool_writer" where
  "fail say err w =
    (let w = w\<lparr>cw_failure := Some err, cw_buffer := []\<rparr>
     in if cw_stream w then snd (deliver (ToolEvent (failed_event w (say err))) (commit w)) else w)"

definition customInput :: "json_codec \<Rightarrow> json \<Rightarrow> tool_error + string" where
  "customInput jc arguments =
    (case arguments of
       JStr str \<Rightarrow>
         (case unmarshal_object jc str of
            Some [(k, v)] \<Rightarrow>
              (case (k = ''input'', v) of (True, JStr input) \<Rightarrow> Inr input | _ \<Rightarrow> Inl WrapperInputNotText)
          | _ \<Rightarrow> Inl BadWrapper)
     | _ \<Rightarrow> Inl WrapperNotText)"

definition restore_name :: "tool_writer \<Rightarrow> string \<Rightarrow> json_object \<Rightarrow> json_object" where
  "restore_name w name item =
    (case map_of (cw_namespaces w) name of
       None \<Rightarrow> item
     | Some (original, namespace) \<Rightarrow> jset ''namespace'' (JStr namespace) (jset ''name'' (JStr original) item))"

definition restoreItem :: "json_codec \<Rightarrow> tool_writer \<Rightarrow> bool \<Rightarrow> json_object \<Rightarrow> tool_error + json_object" where
  "restoreItem jc w added item =
    (if StringAt item [''type''] \<noteq> ''function_call'' then Inr item
     else
       let name = StringAt item [''name'']
       in if name \<notin> set (cw_names w) then Inr (restore_name w name item)
          else case (if added then Inr [] else customInput jc (jget item ''arguments'')) of
            Inl e \<Rightarrow> Inl e
          | Inr input \<Rightarrow>
              Inr (restore_name w name (jdelete ''status'' (jdelete ''arguments''
                (jset ''input'' (JStr input) (jset ''type'' (JStr ''custom_tool_call'') item))))))"

fun restore_items :: "json_codec \<Rightarrow> tool_writer \<Rightarrow> json list \<Rightarrow> tool_error + json list" where
  "restore_items jc w [] = Inr []"
| "restore_items jc w (raw # raws) =
    (case (case raw of JObj item \<Rightarrow> map_sum id JObj (restoreItem jc w False item) | _ \<Rightarrow> Inr raw) of
       Inl e \<Rightarrow> Inl e
     | Inr v \<Rightarrow> (case restore_items jc w raws of Inl e \<Rightarrow> Inl e | Inr out \<Rightarrow> Inr (v # out)))"

definition restoreOutput :: "json_codec \<Rightarrow> tool_writer \<Rightarrow> json_object \<Rightarrow> tool_error + json_object" where
  "restoreOutput jc w response =
    (case restore_items jc w (SliceAt response [''output'']) of
       Inl e \<Rightarrow> Inl e | Inr out \<Rightarrow> Inr (set_list ''output'' out response))"

definition inputEvents :: "string \<Rightarrow> json \<Rightarrow> string \<Rightarrow> json_object list" where
  "inputEvents ident index input =
    [[(''type'', JStr ''response.custom_tool_call_input.delta''), (''item_id'', JStr ident), (''output_index'', index),
      (''delta'', JStr input)],
     [(''type'', JStr ''response.custom_tool_call_input.done''), (''item_id'', JStr ident), (''output_index'', index),
      (''input'', JStr input)]]"

definition mark_delivered :: "string \<Rightarrow> tool_writer \<Rightarrow> tool_writer" where
  "mark_delivered ident w = w\<lparr>cw_delivered := add_new ident (cw_delivered w)\<rparr>"

definition is_custom :: "tool_writer \<Rightarrow> json_object \<Rightarrow> bool" where
  "is_custom w item =
    (StringAt item [''type''] = ''function_call'' \<and> StringAt item [''name''] \<in> set (cw_names w))"

definition restore_item_event ::
    "json_codec \<Rightarrow> json_object \<Rightarrow> bool \<Rightarrow> tool_writer \<Rightarrow> (tool_error + json_object list) \<times> tool_writer" where
  "restore_item_event jc event added w =
    (let item = MapAt event [''item'']; custom = is_custom w item; ident = StringAt item [''id''];
         w = (if custom then w\<lparr>cw_items := add_new ident (cw_items w)\<rparr> else w)
     in case restoreItem jc w added item of
          Inl e \<Rightarrow> (Inl e, w)
        | Inr item' \<Rightarrow>
            let event' = (case jget event ''item'' of JObj _ \<Rightarrow> jset ''item'' (JObj item') event | _ \<Rightarrow> event)
            in if custom \<and> \<not> added \<and> ident \<notin> set (cw_delivered w)
               then (Inr (inputEvents ident (jget event ''output_index'') (StringAt item' [''input'']) @ [event']),
                     mark_delivered ident w)
               else (Inr [event'], w))"

definition restoreEvent ::
    "json_codec \<Rightarrow> json_object \<Rightarrow> tool_writer \<Rightarrow> (tool_error + json_object list) \<times> tool_writer" where
  "restoreEvent jc event w =
    (let kind = StringAt event [''type'']; ident = StringAt event [''item_id'']
     in if kind = ''response.created''
        then (Inr [event], w\<lparr>cw_responseID := StringAt event [''response'', ''id'']\<rparr>)
        else if kind = ''response.output_item.added'' then restore_item_event jc event True w
        else if kind = ''response.output_item.done'' then restore_item_event jc event False w
        else if kind = ''response.function_call_arguments.delta'' \<and> ident \<in> set (cw_items w) then (Inr [], w)
        else if kind = ''response.function_call_arguments.done'' \<and> ident \<in> set (cw_items w) then
          (case customInput jc (jget event ''arguments'') of
             Inl e \<Rightarrow> (Inl e, w)
           | Inr input \<Rightarrow>
               if ident \<in> set (cw_delivered w) then (Inr [], w)
               else (Inr (inputEvents ident (jget event ''output_index'') input), mark_delivered ident w))
        else if kind = ''response.completed'' \<or> kind = ''response.incomplete'' then
          (case restoreOutput jc w (MapAt event [''response'']) of
             Inl e \<Rightarrow> (Inl e, w)
           | Inr response \<Rightarrow>
               (Inr [case jget event ''response'' of JObj _ \<Rightarrow> jset ''response'' (JObj response) event | _ \<Rightarrow> event], w))
        else (Inr [event], w))"

end
