(* ===== verification/ToolWriter.thy ===== *)
theory ToolWriter
  imports CustomTools Forward
begin

text \<open>
  The writer of internal/core/protocol/custom_tools.go over the bytes it is given: a stream is cut into
  records whose events are restored and renumbered, a document is kept until \<open>Finish\<close>.
\<close>

subsection \<open>Writing\<close>

fun newline_parts :: "string \<Rightarrow> string \<Rightarrow> string list" where
  "newline_parts [] line = [rev line]"
| "newline_parts (c # s) line =
    (if c = CHR 0x0A then rev line # newline_parts s [] else newline_parts s (c # line))"

definition frame_payload :: "string \<Rightarrow> string" where
  "frame_payload frame =
    trim_space (concat (map (\<lambda>line. trim_space (drop 5 line) @ [CHR 0x0A])
      (filter (\<lambda>line. has_prefix line ''data:'') (newline_parts frame []))))"

definition frame_event :: "json_codec \<Rightarrow> string \<Rightarrow> tool_error + json_object option" where
  "frame_event jc frame =
    (let payload = frame_payload frame
     in if payload = [] \<or> payload = ''[DONE]'' then Inr None
        else case jc_unmarshal jc payload of
          Some (JObj m) \<Rightarrow> Inr (Some m)
        | Some JNull \<Rightarrow> Inr None
        | _ \<Rightarrow> Inl BadFrameJson)"

fun emit_restored :: "json_codec \<Rightarrow> json_object list \<Rightarrow> tool_writer \<Rightarrow> tool_error option \<times> tool_writer" where
  "emit_restored jc [] w = (None, w)"
| "emit_restored jc (e # es) w =
    (let e = jset ''sequence_number'' (JInt (int (cw_sequence w))) e;
         w = w\<lparr>cw_sequence := cw_sequence w + 1\<rparr>
     in if jc_marshal jc (JObj e) = None then (Some FrameNotMarshalled, w)
        else case deliver (ToolEvent e) (commit w) of
          (False, w) \<Rightarrow> (Some DownstreamFailed, w)
        | (True, w) \<Rightarrow> emit_restored jc es w)"

text \<open>One record: an event is restored and written, a comment is passed on.\<close>

definition write_record ::
    "json_codec \<Rightarrow> (tool_error \<Rightarrow> string) \<Rightarrow> string \<Rightarrow> string \<Rightarrow> tool_writer \<Rightarrow> tool_error option \<times> tool_writer" where
  "write_record jc say frame whole w =
    (case frame_event jc frame of
       Inl e \<Rightarrow> (Some e, fail say e w)
     | Inr (Some event) \<Rightarrow>
         (case restoreEvent jc event w of
            (Inl e, w) \<Rightarrow> (Some e, fail say e w)
          | (Inr evs, w) \<Rightarrow> emit_restored jc evs w)
     | Inr None \<Rightarrow>
         if has_prefix frame '':'' then
           (case deliver (ToolComment whole) (commit w) of
              (ok, w) \<Rightarrow> (if ok then None else Some DownstreamFailed, w))
         else (None, w))"

function write_records ::
    "json_codec \<Rightarrow> (tool_error \<Rightarrow> string) \<Rightarrow> string \<Rightarrow> tool_writer \<Rightarrow> tool_error option \<times> tool_writer" where
  "write_records jc say data w =
    (case nextSSEBoundary data of
       None \<Rightarrow> (None, w\<lparr>cw_buffer := data\<rparr>)
     | Some (i, width) \<Rightarrow>
         (case write_record jc say (take i data) (take (i + width) data) (w\<lparr>cw_buffer := data\<rparr>) of
            (Some e, w) \<Rightarrow> (Some e, w)
          | (None, w) \<Rightarrow> write_records jc say (drop (i + width) data) w))"
  by pat_completeness auto
termination
proof (relation "measure (\<lambda>(jc, say, data, w). length data)")
  fix jc say data w and x2 :: "nat \<times> nat" and i n ok w'
  assume "nextSSEBoundary data = Some x2" "(i, n) = x2"
  with boundary_bound [of data i n] show "((jc, say, drop (i + n) data, w'), jc, say, data, w)
      \<in> measure (\<lambda>(jc, say, data, w). length data)" by auto
qed simp

declare write_records.simps [simp del]

text \<open>The bytes taken, the error, and the writer.\<close>

definition tool_Write ::
    "json_codec \<Rightarrow> (tool_error \<Rightarrow> string) \<Rightarrow> string \<Rightarrow> tool_writer \<Rightarrow> nat \<times> tool_error option \<times> tool_writer" where
  "tool_Write jc say p w =
    (if cw_failure w \<noteq> None then (length p, None, w)
     else if cw_limit w < length (cw_buffer w) + length p then (0, Some BufferLimit, fail say BufferLimit w)
     else
       let w = w\<lparr>cw_buffer := cw_buffer w @ p\<rparr>
       in if \<not> cw_stream w then (length p, None, w)
          else case write_records jc say (cw_buffer w) w of
            (Some e, w) \<Rightarrow> (0, Some e, w)
          | (None, w) \<Rightarrow> (length p, None, w))"

definition finish_document :: "json_codec \<Rightarrow> tool_writer \<Rightarrow> tool_error option \<times> tool_writer" where
  "finish_document jc w =
    (case (case jc_unmarshal jc (cw_buffer w) of
             Some (JObj m) \<Rightarrow> map_sum id JObj (restoreOutput jc w m)
           | Some JNull \<Rightarrow> Inr JNull
           | _ \<Rightarrow> Inl BadFrameJson) of
       Inl e \<Rightarrow> (Some e, w)
     | Inr v \<Rightarrow>
         (case jc_marshal jc v of
            None \<Rightarrow> (Some FrameNotMarshalled, w)
          | Some text \<Rightarrow>
              (case deliver (ToolDocument v) (commit (w\<lparr>cw_responseLength := length text\<rparr>)) of
                 (ok, w) \<Rightarrow> (if ok then None else Some DownstreamFailed, w))))"

definition tool_Finish :: "json_codec \<Rightarrow> (tool_error \<Rightarrow> string) \<Rightarrow> tool_writer \<Rightarrow> tool_error option \<times> tool_writer" where
  "tool_Finish jc say w =
    (case cw_failure w of
       Some e \<Rightarrow> (Some e, w)
     | None \<Rightarrow>
         if cw_stream w then
           (if trim_space (cw_buffer w) \<noteq> [] then (Some IncompleteStream, fail say IncompleteStream w) else (None, w))
         else if cw_buffer w = [] then (None, w)
         else finish_document jc w)"

text \<open>An answer: the writes of the handler, continued after errors, and the end.\<close>

definition tool_answer ::
    "json_codec \<Rightarrow> (tool_error \<Rightarrow> string) \<Rightarrow> string list \<Rightarrow> tool_writer \<Rightarrow> tool_writer" where
  "tool_answer jc say ps w = snd (tool_Finish jc say (fold (\<lambda>p w. snd (snd (tool_Write jc say p w))) ps w))"

end
