(* ===== verification/ToolWriterProps.thy ===== *)
theory ToolWriterProps
  imports ToolWriter
begin

text \<open>
  What the client of free-text tools sees: events numbered in order, no call of a custom tool in the shape
  of a function call, and the text of a call as it was in the history.
\<close>

subsection \<open>What a restored event changes\<close>

definition same_output :: "tool_writer \<Rightarrow> tool_writer \<Rightarrow> bool" where
  "same_output w w' =
    (cw_names w' = cw_names w \<and> cw_namespaces w' = cw_namespaces w \<and> cw_out w' = cw_out w \<and> cw_room w' = cw_room w \<and>
     cw_sequence w' = cw_sequence w \<and> cw_failure w' = cw_failure w \<and> cw_stream w' = cw_stream w)"

lemma same_output_upd [simp]:
  "same_output w (w\<lparr>cw_items := a\<rparr>)" "same_output w (w\<lparr>cw_delivered := a\<rparr>)" "same_output w (w\<lparr>cw_responseID := b\<rparr>)"
  "same_output w (w\<lparr>cw_buffer := b\<rparr>)" "same_output w (w\<lparr>cw_responseLength := n\<rparr>)" "same_output w w"
  "same_output w (commit w)" "same_output w (mark_delivered b w)"
  by (simp_all add: same_output_def commit_def mark_delivered_def)

lemma same_output_trans: "same_output u v \<Longrightarrow> same_output v w \<Longrightarrow> same_output u w"
  by (simp add: same_output_def)

lemma restore_item_event_same: "same_output w (snd (restore_item_event jc event added w))"
proof -
  let ?w = "if is_custom w (MapAt event [''item'']) then w\<lparr>cw_items := add_new (StringAt (MapAt event [''item'']) [''id'']) (cw_items w)\<rparr> else w"
  have s: "same_output w ?w" by simp
  then have "same_output w (mark_delivered b ?w)" for b by (rule same_output_trans) simp
  with s show ?thesis
    unfolding restore_item_event_def Let_def by (cases "restoreItem jc ?w added (MapAt event [''item''])") auto
qed

lemma restoreEvent_same: "same_output w (snd (restoreEvent jc event w))"
  using restore_item_event_same
  by (auto simp: restoreEvent_def Let_def split: sum.splits)

subsection \<open>No custom call as a function\<close>

definition exposes :: "string list \<Rightarrow> json_object \<Rightarrow> bool" where
  "exposes names item =
    (StringAt item [''type''] = ''function_call'' \<and> StringAt item [''name''] \<in> set names \<and> jget item ''namespace'' = JNull)"

definition event_items :: "json_object \<Rightarrow> json_object list" where
  "event_items e =
    (let kind = StringAt e [''type'']
     in if kind = ''response.output_item.added'' \<or> kind = ''response.output_item.done'' then [MapAt e [''item'']]
        else if kind = ''response.completed'' \<or> kind = ''response.incomplete''
        then map as_obj (SliceAt e [''response'', ''output''])
        else [])"

definition hides :: "string list \<Rightarrow> tool_frame \<Rightarrow> bool" where
  "hides names f =
    (case f of
       ToolEvent e \<Rightarrow> list_all (\<lambda>item. \<not> exposes names item) (event_items e)
     | ToolDocument v \<Rightarrow> list_all (\<lambda>item. \<not> exposes names (as_obj item)) (SliceAt (as_obj v) [''output''])
     | ToolComment s \<Rightarrow> True)"

lemma get_at: "StringAt m [k] = as_str (jget m k)" "SliceAt m [k] = as_list (jget m k)" "MapAt m [k] = as_obj (jget m k)"
  by (simp_all add: StringAt_def SliceAt_def MapAt_def AnyAt_def)

lemma restored_item_hidden:
  assumes "restoreItem jc w added item = Inr item'"
  shows "\<not> exposes (cw_names w) item'"
proof (cases "StringAt item [''type''] = ''function_call''")
  case False
  with assms show ?thesis by (simp add: restoreItem_def exposes_def)
next
  case True
  let ?name = "StringAt item [''name'']"
  show ?thesis
  proof (cases "?name \<in> set (cw_names w)")
    case False
    with True assms have "item' = restore_name w ?name item" by (simp add: restoreItem_def Let_def)
    with False show ?thesis by (auto simp: exposes_def restore_name_def split: option.splits)
  next
    case named: True
    with True assms obtain input where "item' = restore_name w ?name (jdelete ''status'' (jdelete ''arguments''
                (jset ''input'' (JStr input) (jset ''type'' (JStr ''custom_tool_call'') item))))"
      by (auto simp: restoreItem_def Let_def split: sum.splits if_splits)
    then have "StringAt item' [''type''] = ''custom_tool_call''"
      by (auto simp: get_at restore_name_def as_str_def split: option.split)
    then show ?thesis by (simp add: exposes_def)
  qed
qed

lemma empty_hidden [simp]: "\<not> exposes names []"
  by (simp add: exposes_def get_at)

lemma restored_items_hidden:
  "restore_items jc w raws = Inr out \<Longrightarrow> list_all (\<lambda>item. \<not> exposes (cw_names w) (as_obj item)) out"
proof (induction raws arbitrary: out)
  case (Cons raw raws)
  from Cons.prems obtain v rest where v: "out = v # rest" "restore_items jc w raws = Inr rest"
    "(case raw of JObj item \<Rightarrow> map_sum id JObj (restoreItem jc w False item) | _ \<Rightarrow> Inr raw) = Inr v"
    by (auto split: sum.splits)
  have "\<not> exposes (cw_names w) (as_obj v)"
  proof (cases raw)
    case (JObj item)
    with v(3) obtain item' where "restoreItem jc w False item = Inr item'" "v = JObj item'"
      by (cases "restoreItem jc w False item") auto
    then show ?thesis using restored_item_hidden by (simp add: as_obj_def)
  qed (use v(3) in \<open>auto simp: as_obj_def\<close>)
  with v Cons.IH show ?case by simp
qed simp

lemma restored_output_hidden:
  assumes "restoreOutput jc w m = Inr m'"
  shows "list_all (\<lambda>item. \<not> exposes (cw_names w) (as_obj item)) (SliceAt m' [''output''])"
proof -
  from assms obtain out where "restore_items jc w (SliceAt m [''output'']) = Inr out" "m' = set_list ''output'' out m"
    by (auto simp: restoreOutput_def split: sum.splits)
  with restored_items_hidden show ?thesis
    by (cases "jget m ''output''") (auto simp: get_at set_list_def as_list_def)
qed

lemma item_event_hidden:
  assumes "restore_item_event jc event added w = (Inr evs, w')"
    and kind: "StringAt event [''type''] = ''response.output_item.added'' \<or> StringAt event [''type''] = ''response.output_item.done''"
  shows "list_all (\<lambda>e. hides (cw_names w) (ToolEvent e)) evs"
proof -
  let ?w = "if is_custom w (MapAt event [''item'']) then w\<lparr>cw_items := add_new (StringAt (MapAt event [''item'']) [''id'']) (cw_items w)\<rparr> else w"
  from assms(1) obtain item' where item: "restoreItem jc ?w added (MapAt event [''item'']) = Inr item'"
    and evs: "set evs \<subseteq> set (inputEvents (StringAt (MapAt event [''item'']) [''id'']) (jget event ''output_index'') (StringAt item' [''input''])) \<union>
        {case jget event ''item'' of JObj _ \<Rightarrow> jset ''item'' (JObj item') event | _ \<Rightarrow> event}"
    by (auto simp: restore_item_event_def Let_def split: sum.splits if_splits)
  have names: "cw_names ?w = cw_names w" by simp
  have "hides (cw_names w) (ToolEvent (case jget event ''item'' of JObj _ \<Rightarrow> jset ''item'' (JObj item') event | _ \<Rightarrow> event))"
  proof (cases "jget event ''item''")
    case (JObj m)
    with kind restored_item_hidden [OF item] names show ?thesis
      by (auto simp: hides_def event_items_def get_at as_obj_def)
  qed (use kind in \<open>auto simp: hides_def event_items_def get_at as_obj_def\<close>)
  moreover have "hides (cw_names w) (ToolEvent e)" if "e \<in> set (inputEvents b v s)" for e b v s
    using that by (auto simp: inputEvents_def hides_def event_items_def get_at jget_def as_str_def)
  ultimately show ?thesis using evs by (auto simp: list_all_iff)
qed

lemma restored_event_hidden:
  assumes "restoreEvent jc event w = (Inr evs, w')"
  shows "list_all (\<lambda>e. hides (cw_names w) (ToolEvent e)) evs"
proof -
  let ?kind = "StringAt event [''type'']"
  have input: "hides (cw_names w) (ToolEvent e)" if "e \<in> set (inputEvents b v s)" for e b v s
    using that by (auto simp: inputEvents_def hides_def event_items_def get_at jget_def as_str_def)
  consider (item) "?kind = ''response.output_item.added'' \<or> ?kind = ''response.output_item.done''"
    | (resp) "?kind = ''response.completed'' \<or> ?kind = ''response.incomplete''"
    | (other) "?kind \<notin> {''response.output_item.added'', ''response.output_item.done'', ''response.completed'', ''response.incomplete''}"
    by blast
  then show ?thesis
  proof cases
    case item
    with assms have "\<exists>added. restore_item_event jc event added w = (Inr evs, w')" by (auto simp: restoreEvent_def)
    with item_event_hidden item show ?thesis by blast
  next
    case resp
    with assms obtain m where m: "restoreOutput jc w (MapAt event [''response'']) = Inr m"
      "evs = [case jget event ''response'' of JObj _ \<Rightarrow> jset ''response'' (JObj m) event | _ \<Rightarrow> event]"
      by (auto simp: restoreEvent_def split: sum.splits)
    show ?thesis
    proof (cases "jget event ''response''")
      case (JObj x)
      with resp m restored_output_hidden [OF m(1)] show ?thesis
        by (auto simp: hides_def event_items_def get_at list_all_iff SliceAt_def AnyAt_def)
    qed (use resp m(2) in \<open>auto simp: hides_def event_items_def get_at SliceAt_def AnyAt_def\<close>)
  next
    case other
    then have "hides (cw_names w) (ToolEvent event)" by (simp add: hides_def event_items_def)
    with assms other input show ?thesis
      by (auto simp: restoreEvent_def Let_def list_all_iff split: sum.splits if_splits)
  qed
qed

subsection \<open>The writer\<close>

definition event_number :: "tool_frame \<Rightarrow> int option" where
  "event_number f = (case f of ToolEvent e \<Rightarrow> Some (int_at (jget e ''sequence_number'')) | _ \<Rightarrow> None)"

definition numbers :: "tool_frame list \<Rightarrow> int list" where
  "numbers = List.map_filter event_number"

lemma numbers_snoc [simp]: "numbers (fs @ [ToolEvent e]) = numbers fs @ [int_at (jget e ''sequence_number'')]"
  "numbers (fs @ [ToolComment s]) = numbers fs" "numbers (fs @ [ToolDocument v]) = numbers fs" "numbers [] = []"
  by (simp_all add: numbers_def event_number_def map_filter_def)

text \<open>Numbers grow and stay below the next one; a failure event has the next one itself. Without losses
  they are all the numbers from zero.\<close>

definition lossless :: "json_codec \<Rightarrow> tool_writer \<Rightarrow> bool" where
  "lossless jc w = (cw_stream w \<and> cw_room w = None \<and> (\<forall>v. jc_marshal jc v \<noteq> None))"

definition next_number :: "tool_writer \<Rightarrow> nat" where
  "next_number w = cw_sequence w + (if cw_failure w = None then 0 else 1)"

definition answer_ok :: "json_codec \<Rightarrow> string list \<Rightarrow> tool_writer \<Rightarrow> bool" where
  "answer_ok jc names w =
    (cw_names w = names \<and> list_all (hides names) (cw_out w) \<and> sorted_wrt (<) (numbers (cw_out w)) \<and>
     (\<forall>n\<in>set (numbers (cw_out w)). n < int (next_number w)) \<and>
     (lossless jc w \<longrightarrow> numbers (cw_out w) = map int [0..<next_number w]))"

lemma answer_same: "same_output w w' \<Longrightarrow> answer_ok jc names w \<Longrightarrow> answer_ok jc names w' \<and> cw_failure w' = cw_failure w"
  by (auto simp: answer_ok_def same_output_def lossless_def next_number_def)

lemma deliver_cases:
  "deliver f w = (ok, w') \<Longrightarrow> (if ok then w' = w\<lparr>cw_out := cw_out w @ [f], cw_room := map_option (\<lambda>n. n - 1) (cw_room w)\<rparr>
    else w' = w \<and> cw_room w \<noteq> None)"
  by (auto simp: deliver_def split: if_splits)

lemma fail_ok:
  assumes "answer_ok jc names w" "cw_failure w = None"
  shows "answer_ok jc names (fail say e w)"
proof -
  let ?w = "w\<lparr>cw_failure := Some e, cw_buffer := []\<rparr>"
  let ?f = "ToolEvent (failed_event ?w (say e))"
  have n: "int_at (jget (failed_event ?w (say e)) ''sequence_number'') = int (cw_sequence w)"
    by (simp add: failed_event_def jget_def int_at_def)
  have h: "hides names ?f" by (simp add: hides_def event_items_def failed_event_def get_at jget_def as_str_def)
  obtain ok w' where d: "deliver ?f (commit ?w) = (ok, w')" by fastforce
  have c: "same_output ?w (commit ?w)" by simp
  show ?thesis
  proof (cases "cw_stream w")
    case True
    then have "fail say e w = w'" using d by (simp add: fail_def Let_def)
    with True assms deliver_cases [OF d] c h show ?thesis
      by (cases ok) (auto simp: answer_ok_def same_output_def lossless_def next_number_def n sorted_wrt_append less_Suc_eq)
  next
    case False
    then have "fail say e w = ?w" by (simp add: fail_def Let_def)
    with False assms show ?thesis by (auto simp: answer_ok_def lossless_def next_number_def)
  qed
qed

lemma hides_numbered: "hides names (ToolEvent (jset ''sequence_number'' v e)) = hides names (ToolEvent e)"
proof -
  have "event_items (jset ''sequence_number'' v e) = event_items e"
    by (simp add: event_items_def get_at SliceAt_def AnyAt_def MapAt_def Let_def)
  then show ?thesis by (simp add: hides_def)
qed

lemma emit_ok:
  "answer_ok jc names w \<Longrightarrow> cw_failure w = None \<Longrightarrow> list_all (\<lambda>e. hides names (ToolEvent e)) evs \<Longrightarrow>
    emit_restored jc evs w = (r, w') \<Longrightarrow> answer_ok jc names w' \<and> cw_failure w' = None"
proof (induction evs arbitrary: w)
  case (Cons e es)
  let ?e = "jset ''sequence_number'' (JInt (int (cw_sequence w))) e"
  let ?w = "w\<lparr>cw_sequence := cw_sequence w + 1\<rparr>"
  have n: "int_at (jget ?e ''sequence_number'') = int (cw_sequence w)" by (simp add: int_at_def)
  have h: "hides names (ToolEvent ?e)" using Cons.prems(3) by (simp add: hides_numbered)
  show ?case
  proof (cases "jc_marshal jc (JObj ?e) = None")
    case True
    then have "w' = ?w" using Cons.prems(4) by (simp add: Let_def)
    with True Cons.prems(1,2) show ?thesis by (auto simp: answer_ok_def lossless_def next_number_def)
  next
    case False
    obtain ok u where d: "deliver (ToolEvent ?e) (commit ?w) = (ok, u)" by fastforce
    have c: "same_output ?w (commit ?w)" by simp
    have u: "answer_ok jc names u \<and> cw_failure u = None"
      using Cons.prems(1,2) deliver_cases [OF d] c h
      by (cases ok) (auto simp: answer_ok_def same_output_def lossless_def next_number_def int_at_def sorted_wrt_append less_Suc_eq)
    show ?thesis
    proof (cases ok)
      case True
      with d False Cons.prems(4) have "emit_restored jc es u = (r, w')" by (auto simp: Let_def)
      with u Cons.IH [of u] Cons.prems(3) show ?thesis by simp
    next
      case False
      with d \<open>jc_marshal jc (JObj ?e) \<noteq> None\<close> Cons.prems(4) have "w' = u" by (auto simp: Let_def)
      with u show ?thesis by simp
    qed
  qed
qed simp

lemma record_ok:
  assumes "write_record jc say frame whole w = (r, w')" "answer_ok jc names w" "cw_failure w = None"
  shows "answer_ok jc names w' \<and> (r = None \<longrightarrow> cw_failure w' = None)"
proof (cases "frame_event jc frame")
  case (Inl e)
  with assms fail_ok [OF assms(2,3)] show ?thesis by (auto simp: write_record_def)
next
  case (Inr ev)
  show ?thesis
  proof (cases ev)
    case None
    show ?thesis
    proof (cases "has_prefix frame '':''")
      case True
      obtain ok u where d: "deliver (ToolComment whole) (commit w) = (ok, u)" by fastforce
      have c: "same_output w (commit w)" by simp
      have "answer_ok jc names u \<and> cw_failure u = None"
        using assms(2,3) deliver_cases [OF d] c
        by (cases ok) (auto simp: answer_ok_def same_output_def lossless_def next_number_def hides_def)
      with True Inr None assms(1) d show ?thesis by (auto simp: write_record_def)
    qed (use Inr None assms in \<open>auto simp: write_record_def\<close>)
  next
    case (Some event)
    obtain x u where x: "restoreEvent jc event w = (x, u)" by fastforce
    from answer_same [OF restoreEvent_same assms(2), of jc event] x assms(3)
    have u: "answer_ok jc names u" "cw_failure u = None" by simp_all
    show ?thesis
    proof (cases x)
      case (Inl e)
      with Inr Some x assms(1) fail_ok [OF u] show ?thesis by (auto simp: write_record_def)
    next
      case evs: (Inr evs)
      have "list_all (\<lambda>e. hides names (ToolEvent e)) evs"
        using restored_event_hidden [of jc event w evs u] x evs assms(2) by (simp add: answer_ok_def)
      with Inr Some x evs assms(1) emit_ok [OF u] show ?thesis by (auto simp: write_record_def)
    qed
  qed
qed

lemma buffer_ok: "answer_ok jc names (w\<lparr>cw_buffer := b\<rparr>) = answer_ok jc names w"
  by (simp add: answer_ok_def lossless_def next_number_def)

lemma records_ok:
  "write_records jc say data w = (r, w') \<Longrightarrow> answer_ok jc names w \<Longrightarrow> cw_failure w = None \<Longrightarrow> answer_ok jc names w'"
proof (induction jc say data w arbitrary: r w' rule: write_records.induct)
  case (1 jc say data w)
  show ?case
  proof (cases "nextSSEBoundary data")
    case None
    with 1(2) have "w' = w\<lparr>cw_buffer := data\<rparr>" by (simp add: write_records.simps [of jc say data w])
    with 1(3) show ?thesis by (simp add: buffer_ok)
  next
    case (Some b)
    obtain i n where b: "b = (i, n)" by fastforce
    obtain x u where x: "write_record jc say (take i data) (take (i + n) data) (w\<lparr>cw_buffer := data\<rparr>) = (x, u)" by fastforce
    have u: "answer_ok jc names u" "x = None \<Longrightarrow> cw_failure u = None"
      using record_ok [OF x] 1(3,4) by (auto simp: buffer_ok)
    show ?thesis
    proof (cases x)
      case None
      with 1(2) Some b x have "write_records jc say (drop (i + n) data) u = (r, w')"
        by (simp add: write_records.simps [of jc say data w])
      then show ?thesis
        by (rule 1(1) [OF Some b [symmetric] x [symmetric] None]) (use u None in auto)
    next
      case (Some e)
      with 1(2) \<open>nextSSEBoundary data = Some b\<close> b x have "w' = u"
        by (simp add: write_records.simps [of jc say data w])
      with u show ?thesis by simp
    qed
  qed
qed

lemma Write_ok: "answer_ok jc names w \<Longrightarrow> answer_ok jc names (snd (snd (tool_Write jc say p w)))"
proof (cases "cw_failure w = None")
  case True
  assume a: "answer_ok jc names w"
  show ?thesis
  proof (cases "cw_limit w < length (cw_buffer w) + length p \<or> \<not> cw_stream w")
    case True
    with a \<open>cw_failure w = None\<close> fail_ok [OF a] show ?thesis by (auto simp: tool_Write_def Let_def buffer_ok)
  next
    case False
    obtain r u where r: "write_records jc say (cw_buffer w @ p) (w\<lparr>cw_buffer := cw_buffer w @ p\<rparr>) = (r, u)" by fastforce
    have "answer_ok jc names u" using records_ok [OF r] a True by (simp add: buffer_ok)
    with False True r show ?thesis by (cases r) (simp_all add: tool_Write_def Let_def)
  qed
qed (simp add: tool_Write_def)

lemma document_ok:
  assumes "finish_document jc w = (r, w')" "answer_ok jc names w" "cw_failure w = None" "\<not> cw_stream w"
  shows "answer_ok jc names w'"
proof -
  let ?v = "case jc_unmarshal jc (cw_buffer w) of
             Some (JObj m) \<Rightarrow> map_sum id JObj (restoreOutput jc w m)
           | Some JNull \<Rightarrow> Inr JNull
           | _ \<Rightarrow> Inl BadFrameJson"
  show ?thesis
  proof (cases ?v)
    case (Inl e)
    with assms show ?thesis by (simp add: finish_document_def)
  next
    case (Inr v)
    have h: "hides names (ToolDocument v)"
    proof (cases "jc_unmarshal jc (cw_buffer w)")
      case (Some x)
      show ?thesis
      proof (cases x)
        case (JObj m)
        with Some Inr obtain m' where "restoreOutput jc w m = Inr m'" "v = JObj m'"
          by (cases "restoreOutput jc w m") auto
        with restored_output_hidden assms(2) show ?thesis by (auto simp: hides_def as_obj_def answer_ok_def)
      qed (use Some Inr in \<open>auto simp: hides_def as_obj_def get_at\<close>)
    qed (use Inr in simp)
    show ?thesis
    proof (cases "jc_marshal jc v")
      case None
      with Inr assms(1,2) show ?thesis by (simp add: finish_document_def)
    next
      case (Some s)
      let ?w = "w\<lparr>cw_responseLength := length s\<rparr>"
      obtain ok u where d: "deliver (ToolDocument v) (commit ?w) = (ok, u)" by fastforce
      have c: "same_output ?w (commit ?w)" by simp
      have "answer_ok jc names u"
        using assms(2-4) deliver_cases [OF d] c h
        by (cases ok) (auto simp: answer_ok_def same_output_def lossless_def next_number_def)
      with Inr Some d assms(1) show ?thesis by (auto simp: finish_document_def)
    qed
  qed
qed

lemma Finish_ok:
  assumes "answer_ok jc names w"
  shows "answer_ok jc names (snd (tool_Finish jc say w))"
proof (cases "cw_failure w")
  case None
  obtain r u where r: "finish_document jc w = (r, u)" by fastforce
  show ?thesis
    using assms None fail_ok [OF assms None] document_ok [OF r assms None] r
    by (auto simp: tool_Finish_def)
qed (use assms in \<open>simp add: tool_Finish_def\<close>)


subsection \<open>Round trip\<close>

text \<open>C28. 
  A call of a custom tool that the history lowers to a function call comes back as it was, when the codec
  reads the wrapper it wrote: nothing changes but the arguments and the status of the wire shape.
\<close>

theorem custom_call_round_trip:
  assumes codec: "jc_marshal jc (JObj [(''input'', JStr s)]) = Some str"
      "jc_unmarshal jc str = Some (JObj [(''input'', JStr s)])"
    and item: "StringAt item [''type''] = ''custom_tool_call''" "jget item ''input'' = JStr s"
      "StringAt item [''name''] \<in> set (cw_names w)" "map_of (cw_namespaces w) (StringAt item [''name'']) = None"
  shows "case lower_call jc item of
     Inl e \<Rightarrow> False
   | Inr low \<Rightarrow>
       (case restoreItem jc w False low of
          Inl e \<Rightarrow> False
        | Inr it \<Rightarrow> \<forall>k. jget it k = (if k = ''arguments'' \<or> k = ''status'' then JNull else jget item k))"
proof -
  let ?low = "jdelete ''input'' (jset ''arguments'' (JStr str) (jset ''type'' (JStr ''function_call'') item))"
  have low: "lower_call jc item = Inr ?low"
    using codec(1) item(2) by (simp add: lower_call_def wrapper_text_def)
  have c: "customInput jc (JStr str) = Inr s"
    using codec(2) by (simp add: customInput_def unmarshal_object_def)
  have n: "StringAt ?low [''name''] = StringAt item [''name'']" "StringAt ?low [''type''] = ''function_call''"
    by (simp_all add: get_at as_str_def)
  let ?it = "jdelete ''status'' (jdelete ''arguments'' (jset ''input'' (JStr s) (jset ''type'' (JStr ''custom_tool_call'') ?low)))"
  have r: "restoreItem jc w False ?low = Inr ?it"
    unfolding restoreItem_def Let_def n using item(3,4) by (simp add: c restore_name_def get_at)
  have "jget item ''type'' = JStr ''custom_tool_call''"
    using item(1) by (auto simp: get_at as_str_def split: json.splits)
  with item(2) have "\<forall>k. jget ?it k = (if k = ''arguments'' \<or> k = ''status'' then JNull else jget item k)" by simp
  with low r show ?thesis by simp
qed

definition demo_codec :: json_codec where
  "demo_codec = \<lparr>jc_marshal = (\<lambda>v. case v of JObj [(k, JStr s)] \<Rightarrow> Some s | _ \<Rightarrow> None),
     jc_unmarshal = (\<lambda>s. Some (JObj [(''input'', JStr s)]))\<rparr>"

theorem custom_call_round_trip_witness:
  "let item = [(''type'', JStr ''custom_tool_call''), (''name'', JStr ''sh''), (''input'', JStr ''ls'')];
       w = NewClientToolWriter True None [''sh''] [] 0
   in case lower_call demo_codec item of
        Inl e \<Rightarrow> False
      | Inr low \<Rightarrow> (case restoreItem demo_codec w False low of Inl e \<Rightarrow> False | Inr it \<Rightarrow> jget it ''input'' = JStr ''ls'')"
proof -
  let ?item = "[(''type'', JStr ''custom_tool_call''), (''name'', JStr ''sh''), (''input'', JStr ''ls'')]"
  let ?w = "NewClientToolWriter True None [''sh''] [] 0"
  have i: "StringAt ?item [''type''] = ''custom_tool_call''" "jget ?item ''input'' = JStr ''ls''"
    "StringAt ?item [''name''] \<in> set (cw_names ?w)" "map_of (cw_namespaces ?w) (StringAt ?item [''name'']) = None"
    by (simp_all add: get_at jget_def as_str_def NewClientToolWriter_def)
  have c: "jc_marshal demo_codec (JObj [(''input'', JStr ''ls'')]) = Some ''ls''"
    "jc_unmarshal demo_codec ''ls'' = Some (JObj [(''input'', JStr ''ls'')])"
    by (simp_all add: demo_codec_def)
  from custom_call_round_trip [OF c i] show ?thesis
    by (auto simp: Let_def i(2) split: sum.splits)
qed

end
