(* ===== verification/UpstreamBody.thy ===== *)
theory UpstreamBody
  imports Efforts GoText
begin

text \<open>
  The body that goes to the WorkBuddy upstream: internal/workbuddy/reasoning/reasoning.go. A body is
  changed in place by the code; here the changed body is returned. The table of levels is a list of
  models with their levels; None is the nil table, for which the built-in one is taken.
\<close>

subsection \<open>Levels\<close>

definition effortRank :: "string \<Rightarrow> nat option" where
  "effortRank e = map_of [(''off'', 0), (''none'', 0), (''minimal'', 1), (''low'', 2), (''medium'', 3), (''high'', 4),
    (''xhigh'', 5), (''max'', 6)] e"

definition KnownEfforts :: "(string \<times> string list) list" where
  "KnownEfforts =
    (let common = [''low'', ''medium'', ''high'']
     in [(''glm-5.2'', common), (''glm-5.1'', common), (''glm-5v-turbo'', common), (''kimi-k2.7'', common),
         (''kimi-k2.6'', common), (''kimi-k2.5'', common), (''deepseek-v4-pro'', ''off'' # common),
         (''deepseek-v4-flash'', ''off'' # common), (''deepseek-v4.1-flash'', common), (''minimax-m3-pay'', common),
         (''hy3-preview-agent'', common), (''space-bunny'', common @ [''xhigh'', ''max''])])"

definition toStr :: "json \<Rightarrow> string" where
  "toStr v =
    (case v of
       JStr s \<Rightarrow> s | JNum x \<Rightarrow> format_float x | JInt n \<Rightarrow> itoa n
     | JBool b \<Rightarrow> if b then ''true'' else ''false''
     | _ \<Rightarrow> [])"

definition toInt :: "json \<Rightarrow> int option" where
  "toInt v =
    (case v of
       JNum x \<Rightarrow> Some (int_of_float x) | JInt n \<Rightarrow> Some n | JStr s \<Rightarrow> atoi (trim_space s) | _ \<Rightarrow> None)"

definition rank :: "string \<Rightarrow> nat option" where
  "rank s = effortRank (to_lower (trim_space s))"

definition level_rank :: "string \<Rightarrow> nat" where
  "level_rank s = (case rank s of None \<Rightarrow> 0 | Some i \<Rightarrow> i)"

fun lowest_from :: "string list \<Rightarrow> string \<times> nat \<Rightarrow> string" where
  "lowest_from [] best = fst best"
| "lowest_from (s # levels) best =
    lowest_from levels (if level_rank s < snd best then (s, level_rank s) else best)"

definition lowest :: "string list \<Rightarrow> string" where
  "lowest levels = lowest_from levels ([], 2 ^ 30)"

text \<open>The highest level up to the one asked for; empty when every level is above it.\<close>

fun highest_from :: "nat \<Rightarrow> string list \<Rightarrow> string \<times> int \<Rightarrow> string" where
  "highest_from asked [] best = fst best"
| "highest_from asked (s # levels) best =
    highest_from asked levels
      (if level_rank s \<le> asked \<and> snd best < int (level_rank s) then (s, int (level_rank s)) else best)"

definition thinking_levels :: "string list \<Rightarrow> string list" where
  "thinking_levels supported = filter (\<lambda>s. case rank s of None \<Rightarrow> False | Some i \<Rightarrow> i \<noteq> 0) supported"

definition off_levels :: "string list \<Rightarrow> string list" where
  "off_levels supported = filter (\<lambda>s. rank s = Some 0) supported"

text \<open>The level chosen, empty when there is none.\<close>

definition chosen_level :: "nat \<Rightarrow> string list \<Rightarrow> string" where
  "chosen_level asked supported =
    (let thinking = thinking_levels supported; off = off_levels supported
     in if asked = 0 then
          (if off \<noteq> [] then hd off else if thinking \<noteq> [] then lowest thinking else [])
        else if thinking \<noteq> [] then
          (let best = highest_from asked thinking ([], -1) in if best = [] then lowest thinking else best)
        else if off \<noteq> [] then hd off
        else [])"

definition effort_key :: "json_object \<Rightarrow> string" where
  "effort_key body =
    (case List.find (\<lambda>k. map_of body k \<noteq> None) [''reasoning_effort'', ''reasoningEffort''] of
       None \<Rightarrow> [] | Some k \<Rightarrow> k)"

definition supported_levels :: "(string \<times> string list) list option \<Rightarrow> string \<Rightarrow> string list" where
  "supported_levels efforts model =
    (let table = (case efforts of None \<Rightarrow> KnownEfforts | Some t \<Rightarrow> t)
     in case map_of table model of None \<Rightarrow> [] | Some ls \<Rightarrow> ls)"

definition NormalizeReasoningEffort ::
    "(string \<times> string list) list option \<Rightarrow> json_object \<Rightarrow> json_object" where
  "NormalizeReasoningEffort efforts body =
    (let model = as_str (jget body ''model''); supported = supported_levels efforts model; key = effort_key body
     in if model = [] \<or> supported = [] \<or> key = [] then body
        else case effortRank (to_lower (trim_space (toStr (jget body key)))) of
          None \<Rightarrow> body
        | Some asked \<Rightarrow>
            let body = (if asked = 0 \<and> off_levels supported = [] \<and> thinking_levels supported \<noteq> [] \<and>
                            map_of body ''thinking'' = None
                        then jset ''thinking'' (JObj [(''type'', JStr ''disabled'')]) body else body);
                chosen = chosen_level asked supported
            in if chosen = [] then body else jset key (JStr chosen) body)"

subsection \<open>Tool choice and roles\<close>

definition without_tools :: "json_object \<Rightarrow> json_object" where
  "without_tools body = jdelete ''tool_choice'' (jdelete ''functions'' (jdelete ''tools'' body))"

definition NormalizeToolChoice :: "json_object \<Rightarrow> json_object" where
  "NormalizeToolChoice body =
    (case jget body ''tool_choice'' of
       JNull \<Rightarrow> body
     | JStr s \<Rightarrow> if s = ''none'' then without_tools body else body
     | JObj m \<Rightarrow>
         (let t = as_str (jget m ''type'')
          in if t = ''none'' then without_tools body
             else if t = ''function'' then
               (let name = as_str (jget (as_obj (jget m ''function'')) ''name'')
                in jset ''tool_choice'' (JStr (if name = [] then ''auto'' else name)) body)
             else if t = ''auto'' \<or> t = ''required'' then jset ''tool_choice'' (JStr t) body
             else jdelete ''tool_choice'' body)
     | _ \<Rightarrow> jdelete ''tool_choice'' body)"

definition on_messages :: "(json list \<Rightarrow> json list) \<Rightarrow> json_object \<Rightarrow> json_object" where
  "on_messages f body =
    (case jget body ''messages'' of JList msgs \<Rightarrow> jset ''messages'' (JList (f msgs)) body | _ \<Rightarrow> body)"

definition plain_role :: "json \<Rightarrow> json" where
  "plain_role v =
    (case v of
       JObj m \<Rightarrow> if jget m ''role'' = JStr ''developer'' then JObj (jset ''role'' (JStr ''system'') m) else v
     | _ \<Rightarrow> v)"

definition NormalizeRoles :: "json_object \<Rightarrow> json_object" where
  "NormalizeRoles body = on_messages (map plain_role) body"

definition empty_system :: json where
  "empty_system = JObj [(''role'', JStr ''system''), (''content'', JStr [])]"

definition lead_system :: "json list \<Rightarrow> json list" where
  "lead_system msgs =
    (case msgs of
       [] \<Rightarrow> []
     | v # _ \<Rightarrow> if jget (as_obj v) ''role'' = JStr ''system'' then msgs else empty_system # msgs)"

definition EnsureLeadingSystem :: "json_object \<Rightarrow> json_object" where
  "EnsureLeadingSystem body = on_messages lead_system body"

subsection \<open>The sequence of tool calls\<close>

text \<open>
  The state of the repair: the messages written, the identifiers of the calls of the last assistant
  message with the marks of those answered, their positions by identifier, how many are open, and the
  messages held back until they are answered.
\<close>

record repair =
  rp_out :: "json list"
  rp_ids :: "string list"
  rp_consumed :: "bool list"
  rp_byID :: "string \<Rightarrow> nat list"
  rp_count :: int
  rp_users :: "json list"

definition resetPending :: "repair \<Rightarrow> repair" where
  "resetPending s = s\<lparr>rp_ids := [], rp_consumed := [], rp_byID := (\<lambda>_. []), rp_count := 0\<rparr>"

definition consume :: "nat \<Rightarrow> repair \<Rightarrow> repair" where
  "consume i s =
    (let ident = rp_ids s ! i; positions = rp_byID s ident
     in s\<lparr>rp_consumed := (rp_consumed s)[i := True], rp_count := rp_count s - 1,
          rp_byID := (rp_byID s)(ident := (if length positions \<le> 1 then [] else tl positions))\<rparr>)"

definition lost_result :: string where
  "lost_result = bytes [0xE5, 0xB7, 0xA5, 0xE5, 0x85, 0xB7, 0xE8, 0xB0, 0x83, 0xE7, 0x94, 0xA8, 0xE7, 0xBB, 0x93, 0xE6, 0x9E, 0x9C,
    0xE5, 0x9C, 0xA8, 0xE5, 0xAE, 0xA2, 0xE6, 0x88, 0xB7, 0xE7, 0xAB, 0xAF, 0xE4, 0xB8, 0x8A, 0xE4, 0xB8, 0x8B, 0xE6, 0x96, 0x87,
    0xE5, 0x8E, 0x8B, 0xE7, 0xBC, 0xA9, 0xE4, 0xB8, 0xAD, 0xE4, 0xB8, 0xA2, 0xE5, 0xA4, 0xB1, 0xEF, 0xBC, 0x9B,
    0xE7, 0xBD, 0x91, 0xE5, 0x85, 0xB3, 0xE5, 0xB7, 0xB2, 0xE8, 0xA1, 0xA5, 0xE5, 0x8D, 0xA0, 0xE4, 0xBD, 0x8D, 0xE7, 0xBB, 0x93, 0xE6, 0x9E, 0x9C,
    0xEF, 0xBC, 0x8C, 0xE8, 0xAF, 0xB7, 0xE7, 0xBB, 0xA7, 0xE7, 0xBB, 0xAD, 0xE3, 0x80, 0x82]"

definition placeholder :: "string \<Rightarrow> json" where
  "placeholder ident =
    JObj [(''role'', JStr ''tool''), (''tool_call_id'', JStr ident), (''content'', JStr lost_result)]"

definition missingResults :: "repair \<Rightarrow> json list" where
  "missingResults s =
    map (\<lambda>p. placeholder (fst p)) (filter (\<lambda>p. \<not> snd p) (zip (rp_ids s) (rp_consumed s)))"

definition add_missing :: "repair \<Rightarrow> repair" where
  "add_missing s = (if 0 < rp_count s then s\<lparr>rp_out := rp_out s @ missingResults s\<rparr> else s)"

definition flushUser :: "repair \<Rightarrow> repair" where
  "flushUser s = s\<lparr>rp_out := rp_out s @ rp_users s, rp_users := []\<rparr>"

definition valid_call :: "json \<Rightarrow> bool" where
  "valid_call v =
    (case v of
       JObj call \<Rightarrow>
         trim_space (as_str (jget call ''id'')) \<noteq> [] \<and>
         trim_space (as_str (jget (as_obj (jget call ''function'')) ''name'')) \<noteq> [] \<and>
         (as_str (jget call ''type'') = [] \<or> as_str (jget call ''type'') = ''function'')
     | _ \<Rightarrow> False)"

text \<open>An assistant message with its valid calls; None when nothing of it remains.\<close>

definition kept_calls :: "json_object \<Rightarrow> json_object option" where
  "kept_calls msg =
    (case jget msg ''tool_calls'' of
       JList calls \<Rightarrow>
         let kept = filter valid_call calls
         in if length kept = length calls then Some msg
            else if kept \<noteq> [] then Some (jset ''tool_calls'' (JList kept) msg)
            else if jget msg ''content'' = JNull \<or> jget msg ''content'' = JStr [] then None
            else Some (jdelete ''tool_calls'' msg)
     | _ \<Rightarrow> Some msg)"

definition open_call :: "repair \<Rightarrow> json \<Rightarrow> repair" where
  "open_call s v =
    (case v of
       JObj call \<Rightarrow>
         let ident = toStr (jget call ''id'')
         in s\<lparr>rp_byID := (rp_byID s)(ident := rp_byID s ident @ [length (rp_ids s)]),
              rp_ids := rp_ids s @ [ident], rp_consumed := rp_consumed s @ [False], rp_count := rp_count s + 1\<rparr>
     | _ \<Rightarrow> s)"

definition assistant_turn :: "json_object \<Rightarrow> repair \<Rightarrow> repair" where
  "assistant_turn msg s =
    (let s = flushUser (resetPending (add_missing s));
         s = s\<lparr>rp_out := rp_out s @ [JObj msg]\<rparr>
     in foldl open_call s (as_list (jget msg ''tool_calls'')))"

definition tool_turn :: "json_object \<Rightarrow> repair \<Rightarrow> repair" where
  "tool_turn msg s =
    (case rp_byID s (toStr (jget msg ''tool_call_id'')) of
       [] \<Rightarrow> s
     | i # _ \<Rightarrow> consume i (s\<lparr>rp_out := rp_out s @ [JObj msg]\<rparr>))"

definition other_turn :: "json_object \<Rightarrow> repair \<Rightarrow> repair" where
  "other_turn msg s =
    (if 0 < rp_count s then s\<lparr>rp_users := rp_users s @ [JObj msg]\<rparr>
     else let s = flushUser s in s\<lparr>rp_out := rp_out s @ [JObj msg]\<rparr>)"

definition repair_turn :: "repair \<Rightarrow> json \<Rightarrow> repair" where
  "repair_turn s v =
    (case v of
       JObj msg \<Rightarrow>
         (let role = as_str (jget msg ''role'')
          in if role = ''assistant'' then
               (case kept_calls msg of None \<Rightarrow> s | Some msg \<Rightarrow> assistant_turn msg s)
             else if role = ''tool'' then tool_turn msg s
             else other_turn msg s)
     | _ \<Rightarrow> s)"

definition repair_start :: repair where
  "repair_start =
    \<lparr>rp_out = [], rp_ids = [], rp_consumed = [], rp_byID = (\<lambda>_. []), rp_count = 0, rp_users = []\<rparr>"

definition repair_messages :: "json list \<Rightarrow> json list" where
  "repair_messages msgs = rp_out (flushUser (add_missing (foldl repair_turn repair_start msgs)))"

definition RepairToolSequence :: "json_object \<Rightarrow> json_object" where
  "RepairToolSequence body = on_messages repair_messages body"

subsection \<open>DeepSeek thinking\<close>

definition isDeepseek :: "json \<Rightarrow> bool" where
  "isDeepseek model = has_prefix (to_lower (trim_space (toStr model))) ''deepseek''"

definition stated_off :: "json_object \<Rightarrow> json_object" where
  "stated_off body =
    (if map_of body ''thinking'' \<noteq> None then body
     else
       let effort = to_lower (trim_space (toStr (jget body ''reasoning_effort'')));
           effort = (if effort = [] then to_lower (trim_space (toStr (jget body ''reasoningEffort''))) else effort)
       in if effort = ''off'' \<or> effort = ''none''
          then jset ''thinking'' (JObj [(''type'', JStr ''disabled'')]) body else body)"

definition small_budget :: "json_object \<Rightarrow> bool" where
  "small_budget body =
    (let mt = (if jget body ''max_completion_tokens'' = JNull then jget body ''max_tokens''
               else jget body ''max_completion_tokens'')
     in case toInt mt of None \<Rightarrow> False | Some n \<Rightarrow> n < 1024)"

definition InjectThinking :: "json_object \<Rightarrow> json_object" where
  "InjectThinking body =
    (if \<not> isDeepseek (jget body ''model'') then body
     else
       let body = stated_off body
       in if map_of body ''thinking'' = None \<and> small_budget body then body
          else case jget body ''thinking'' of
            JObj th \<Rightarrow>
              let kind = trim_space (toStr (jget th ''type''))
              in if kind = [] then jset ''thinking'' (JObj (jset ''type'' (JStr ''enabled'') th)) body
                 else if to_lower kind = ''disabled''
                 then jdelete ''reasoningEffort'' (jdelete ''reasoning_effort'' body)
                 else body
          | _ \<Rightarrow> jset ''thinking'' (JObj [(''type'', JStr ''enabled'')]) body)"

definition hasTrace :: "json_object \<Rightarrow> bool" where
  "hasTrace m = (as_str (jget m ''reasoning_content'') \<noteq> [] \<or> as_str (jget m ''reasoning'') \<noteq> [])"

definition is_assistant :: "json \<Rightarrow> bool" where
  "is_assistant v = (jget (as_obj v) ''role'' = JStr ''assistant'')"

definition backfill :: "json \<Rightarrow> json" where
  "backfill v =
    (case v of
       JObj m \<Rightarrow>
         if \<not> is_assistant v then v
         else (case jget m ''reasoning_content'' of
                 JStr _ \<Rightarrow> v
               | _ \<Rightarrow> JObj (jset ''reasoning_content'' (JStr (as_str (jget m ''reasoning''))) m))
     | _ \<Rightarrow> v)"

definition BackfillReasoningContent :: "json_object \<Rightarrow> json_object" where
  "BackfillReasoningContent body =
    (if \<not> isDeepseek (jget body ''model'') then body
     else on_messages (\<lambda>msgs.
       if list_ex (\<lambda>v. is_assistant v \<and> hasTrace (as_obj v)) msgs then map backfill msgs else msgs) body)"

definition Sanitize :: "(string \<times> string list) list option \<Rightarrow> json_object \<Rightarrow> json_object" where
  "Sanitize efforts body =
    BackfillReasoningContent (InjectThinking (RepairToolSequence (EnsureLeadingSystem (NormalizeRoles
      (NormalizeReasoningEffort efforts (NormalizeToolChoice body))))))"

end
