(* ===== verification/UpstreamBodyProps.thy ===== *)
theory UpstreamBodyProps
  imports UpstreamBody
begin

text \<open>
  What the upstream is sent: every tool call answered once and at once, the system message in front, no
  message of the client lost but unanswerable tool results, and a level that the model supports.
\<close>

subsection \<open>Sequences of calls and results\<close>

definition role_of :: "json \<Rightarrow> string" where
  "role_of v = as_str (jget (as_obj v) ''role'')"

definition call_ids :: "json \<Rightarrow> string list" where
  "call_ids v = map (\<lambda>c. toStr (jget (as_obj c) ''id'')) (as_list (jget (as_obj v) ''tool_calls''))"

definition is_object :: "json \<Rightarrow> bool" where
  "is_object v = (case v of JObj _ \<Rightarrow> True | _ \<Rightarrow> False)"

text \<open>The calls left open after some messages: None when a result has no call or a message comes early.\<close>

fun after :: "string list \<Rightarrow> json list \<Rightarrow> string list option" where
  "after opn [] = Some opn"
| "after opn (v # vs) =
    (if \<not> is_object v then None
     else if role_of v = ''tool'' then
       (let ident = toStr (jget (as_obj v) ''tool_call_id'')
        in if ident \<in> set opn then after (remove1 ident opn) vs else None)
     else if opn \<noteq> [] then None
     else if role_of v = ''assistant'' then
       (if list_all valid_call (as_list (jget (as_obj v) ''tool_calls'')) then after (call_ids v) vs else None)
     else after [] vs)"

definition paired :: "json list \<Rightarrow> bool" where
  "paired msgs = (after [] msgs = Some [])"

definition is_other :: "json \<Rightarrow> bool" where
  "is_other v = (is_object v \<and> role_of v \<noteq> ''tool'' \<and> role_of v \<noteq> ''assistant'')"

lemma after_append: "after opn (xs @ ys) = (case after opn xs of None \<Rightarrow> None | Some o' \<Rightarrow> after o' ys)"
  by (induction opn xs rule: after.induct) (auto simp: Let_def)

lemma after_others: "list_all is_other us \<Longrightarrow> after [] us = Some []"
  by (induction us) (auto simp: is_other_def)

lemma after_placeholders: "after ids (map placeholder ids) = Some []"
  by (induction ids) (auto simp: is_object_def role_of_def placeholder_def as_obj_def as_str_def jget_def toStr_def)

definition opens :: "repair \<Rightarrow> string list" where
  "opens s = map fst (filter (\<lambda>p. \<not> snd p) (zip (rp_ids s) (rp_consumed s)))"

lemma missing_opens: "missingResults s = map placeholder (opens s)"
  by (simp add: missingResults_def opens_def)

definition spots :: "string \<Rightarrow> string list \<Rightarrow> bool list \<Rightarrow> nat list" where
  "spots ident ids cs = filter (\<lambda>i. ids ! i = ident \<and> \<not> cs ! i) [0..<length ids]"

lemma spots_Cons:
  "spots ident (x # xs) (c # cs) = (if x = ident \<and> \<not> c then [0] else []) @ map Suc (spots ident xs cs)"
proof -
  have "[0..<Suc (length xs)] = 0 # map Suc [0..<length xs]" by (metis upt_conv_Cons map_Suc_upt zero_less_Suc)
  then show ?thesis by (simp add: spots_def filter_map o_def)
qed

lemma spots_Nil [simp]: "spots ident [] cs = []"
  by (simp add: spots_def)

lemma spots_empty:
  "length cs = length ids \<Longrightarrow> spots ident ids cs = [] \<longleftrightarrow> ident \<notin> fst ` set (filter (\<lambda>p. \<not> snd p) (zip ids cs))"
proof (induction ids arbitrary: cs)
  case (Cons x xs)
  then obtain c cs' where "cs = c # cs'" by (cases cs) auto
  with Cons show ?case by (auto simp: spots_Cons)
qed simp

lemma spots_snoc:
  assumes "length cs = length ids"
  shows "spots ident (ids @ [k]) (cs @ [False]) = spots ident ids cs @ (if k = ident then [length ids] else [])"
proof -
  have "filter (\<lambda>i. (ids @ [k]) ! i = ident \<and> \<not> (cs @ [False]) ! i) [0..<length ids] = spots ident ids cs"
    unfolding spots_def by (rule filter_cong) (use assms in \<open>auto simp: nth_append\<close>)
  with assms show ?thesis by (simp add: spots_def nth_append)
qed

lemma consume_first:
  "length cs = length ids \<Longrightarrow> spots ident ids cs = i # rest \<Longrightarrow>
    map fst (filter (\<lambda>p. \<not> snd p) (zip ids (cs[i := True]))) =
      remove1 ident (map fst (filter (\<lambda>p. \<not> snd p) (zip ids cs))) \<and>
    i < length ids \<and> ids ! i = ident \<and>
    (\<forall>k. spots k ids (cs[i := True]) = (if k = ident then rest else spots k ids cs))"
proof (induction ids arbitrary: cs i rest)
  case (Cons x xs)
  then obtain c cs' where c: "cs = c # cs'" "length cs' = length xs" by (cases cs) auto
  show ?case
  proof (cases "x = ident \<and> \<not> c")
    case True
    with Cons.prems c show ?thesis by (auto simp: spots_Cons)
  next
    case False
    with Cons.prems(2) c obtain j r where s: "spots ident xs cs' = j # r" "i = Suc j" "rest = map Suc r"
      by (auto simp: spots_Cons Cons_eq_map_conv)
    from Cons.IH [OF c(2) s(1)] False c s show ?thesis by (auto simp: spots_Cons)
  qed
qed simp

subsection \<open>The invariant of the repair\<close>

definition repair_ok :: "repair \<Rightarrow> bool" where
  "repair_ok s =
    (length (rp_consumed s) = length (rp_ids s) \<and>
     (\<forall>k. rp_byID s k = spots k (rp_ids s) (rp_consumed s)) \<and>
     rp_count s = int (length (opens s)) \<and> list_all is_other (rp_users s) \<and>
     after [] (rp_out s) = Some (opens s))"

lemma opens_users [simp]: "opens (s\<lparr>rp_users := us\<rparr>) = opens s" "opens (s\<lparr>rp_out := vs\<rparr>) = opens s"
  by (simp_all add: opens_def)

lemma reset_eq:
  "repair_ok s \<Longrightarrow>
    flushUser (resetPending (add_missing s)) =
      \<lparr>rp_out = rp_out s @ map placeholder (opens s) @ rp_users s, rp_ids = [], rp_consumed = [],
        rp_byID = (\<lambda>_. []), rp_count = 0, rp_users = []\<rparr>"
  by (cases s) (auto simp: repair_ok_def add_missing_def missing_opens resetPending_def flushUser_def opens_def)

lemma closing_out: "repair_ok s \<Longrightarrow> after [] (rp_out s @ map placeholder (opens s) @ rp_users s) = Some []"
  by (simp add: repair_ok_def after_append after_placeholders after_others)

lemma open_call_opens: "length (rp_consumed s) = length (rp_ids s) \<Longrightarrow> valid_call v \<Longrightarrow>
    opens (open_call s v) = opens s @ [toStr (jget (as_obj v) ''id'')]"
  by (auto simp: open_call_def opens_def valid_call_def as_obj_def Let_def split: json.splits)

lemma open_calls_ok:
  assumes "list_all valid_call calls" "length (rp_consumed s) = length (rp_ids s)"
    "\<forall>k. rp_byID s k = spots k (rp_ids s) (rp_consumed s)" "rp_count s = int (length (opens s))"
  shows "let s' = foldl open_call s calls
    in length (rp_consumed s') = length (rp_ids s') \<and> (\<forall>k. rp_byID s' k = spots k (rp_ids s') (rp_consumed s')) \<and>
       rp_count s' = int (length (opens s')) \<and> opens s' = opens s @ map (\<lambda>c. toStr (jget (as_obj c) ''id'')) calls \<and>
       rp_out s' = rp_out s \<and> rp_users s' = rp_users s"
  using assms
proof (induction calls arbitrary: s)
  case (Cons v calls)
  from Cons.prems(1) obtain c where c: "v = JObj c" by (auto simp: valid_call_def split: json.splits)
  have o: "opens (open_call s v) = opens s @ [toStr (jget (as_obj v) ''id'')]"
    using Cons.prems by (intro open_call_opens) auto
  with Cons.IH [of "open_call s v"] Cons.prems show ?case
    by (auto simp: c open_call_def Let_def spots_snoc)
qed simp

lemma filter_keeps_all: "length (filter P xs) = length xs \<longleftrightarrow> list_all P xs"
  by (metis filter_True length_filter_less less_irrefl list_all_iff)

lemma kept_calls_shape:
  assumes "kept_calls msg = Some m" "as_str (jget msg ''role'') = ''assistant''"
  shows "list_all valid_call (as_list (jget m ''tool_calls''))" "jget m ''role'' = JStr ''assistant''"
proof -
  have r: "jget msg ''role'' = JStr ''assistant''" using assms(2) by (auto simp: as_str_def split: json.splits)
  show "list_all valid_call (as_list (jget m ''tool_calls''))" "jget m ''role'' = JStr ''assistant''"
    using assms(1) r by (auto simp: kept_calls_def as_list_def Let_def filter_keeps_all
        split: json.splits if_splits) (auto simp: list_all_iff)
qed

lemma placeholders_not_other: "filter is_other (map placeholder ids) = []"
  by (induction ids) (auto simp: is_other_def placeholder_def role_of_def as_obj_def as_str_def jget_def)

lemma others_all: "list_all is_other us \<Longrightarrow> filter is_other us = us"
  by (simp add: list_all_iff)

definition turn_kept :: "repair \<Rightarrow> json list \<Rightarrow> repair \<Rightarrow> bool" where
  "turn_kept s vs s' =
    (repair_ok s' \<and>
     filter is_other (rp_out s' @ rp_users s') = filter is_other (rp_out s @ rp_users s) @ filter is_other vs)"

lemma assistant_turn_ok:
  assumes "repair_ok s" "list_all valid_call (as_list (jget m ''tool_calls''))" "jget m ''role'' = JStr ''assistant''"
  shows "turn_kept s [JObj m] (assistant_turn m s)"
proof -
  let ?s = "\<lparr>rp_out = rp_out s @ map placeholder (opens s) @ rp_users s @ [JObj m], rp_ids = [], rp_consumed = [],
        rp_byID = (\<lambda>_. []), rp_count = 0, rp_users = []\<rparr>"
  have s: "assistant_turn m s = foldl open_call ?s (as_list (jget m ''tool_calls''))"
    using reset_eq [OF assms(1)] by (simp add: assistant_turn_def)
  have r: "role_of (JObj m) = ''assistant''" "is_object (JObj m)"
    using assms(3) by (simp_all add: role_of_def as_obj_def as_str_def is_object_def)
  have a: "after [] (rp_out ?s) = Some (call_ids (JObj m))"
  proof -
    have "after [] ((rp_out s @ map placeholder (opens s) @ rp_users s) @ [JObj m]) = Some (call_ids (JObj m))"
      by (subst after_append) (use r assms(2) in \<open>simp add: closing_out [OF assms(1)] as_obj_def\<close>)
    then show ?thesis by simp
  qed
  from assms(1) have "filter is_other (rp_out ?s) = filter is_other (rp_out s @ rp_users s)"
    by (simp add: placeholders_not_other r is_other_def)
  moreover have "opens ?s = []" by (simp add: opens_def)
  ultimately show ?thesis
    using open_calls_ok [OF assms(2), of ?s] a r
    by (auto simp: turn_kept_def s Let_def repair_ok_def call_ids_def as_obj_def is_other_def)
qed

lemma tool_turn_ok:
  assumes "repair_ok s" "jget m ''role'' = JStr ''tool''"
  shows "turn_kept s [JObj m] (tool_turn m s)"
proof -
  let ?k = "toStr (jget m ''tool_call_id'')"
  have r: "role_of (JObj m) = ''tool''" "is_object (JObj m)"
    using assms(2) by (simp_all add: role_of_def as_obj_def as_str_def is_object_def)
  show ?thesis
  proof (cases "rp_byID s ?k")
    case Nil
    with assms(1) r show ?thesis by (simp add: turn_kept_def tool_turn_def is_other_def)
  next
    case (Cons i rest)
    with assms(1) have sp: "spots ?k (rp_ids s) (rp_consumed s) = i # rest" and l: "length (rp_consumed s) = length (rp_ids s)"
      by (simp_all add: repair_ok_def)
    note c = consume_first [OF l sp]
    have "?k \<in> set (opens s)" using spots_empty [OF l, of ?k] sp by (auto simp: opens_def)
    then have a: "after [] (rp_out s @ [JObj m]) = Some (remove1 ?k (opens s))"
      using assms(1) r by (simp add: after_append repair_ok_def as_obj_def)
    let ?u = "consume i (s\<lparr>rp_out := rp_out s @ [JObj m]\<rparr>)"
    have t: "tool_turn m s = ?u" using Cons by (simp add: tool_turn_def)
    have o: "opens ?u = remove1 ?k (opens s)" using c by (simp add: consume_def Let_def opens_def)
    have "0 < length (opens s)" using \<open>?k \<in> set (opens s)\<close> by (cases "opens s") auto
    then have n: "rp_count ?u = int (length (opens ?u))"
      using assms(1) \<open>?k \<in> set (opens s)\<close> unfolding o
      by (simp add: consume_def Let_def repair_ok_def length_remove1 of_nat_diff Suc_le_eq)
    have "(if length (i # rest) \<le> 1 then [] else rest) = rest" by (cases rest) auto
    then have b: "\<forall>k. rp_byID ?u k = spots k (rp_ids ?u) (rp_consumed ?u)"
      using assms(1) c Cons by (auto simp: consume_def Let_def repair_ok_def)
    show ?thesis
      using assms(1) l a r o n b unfolding t
      by (auto simp: turn_kept_def repair_ok_def is_other_def consume_def Let_def)
  qed
qed

lemma other_turn_ok:
  assumes "repair_ok s" "is_other (JObj m)"
  shows "turn_kept s [JObj m] (other_turn m s)"
proof (cases "0 < rp_count s")
  case True
  with assms show ?thesis by (simp add: other_turn_def turn_kept_def repair_ok_def opens_def)
next
  case False
  then have o: "opens s = []" using assms(1) by (simp add: repair_ok_def)
  have "after [] (rp_out s @ rp_users s @ [JObj m]) = Some []"
    using assms o by (simp add: repair_ok_def after_append after_others is_other_def)
  with False assms o show ?thesis
    by (auto simp: other_turn_def turn_kept_def repair_ok_def flushUser_def opens_def Let_def)
qed

lemma repair_turn_ok: "repair_ok s \<Longrightarrow> turn_kept s [v] (repair_turn s v)"
proof (cases v)
  case (JObj m)
  assume s: "repair_ok s"
  have unchanged: "turn_kept s [v] s" if "\<not> is_other v" using that s by (simp add: turn_kept_def)
  consider (asst) "as_str (jget m ''role'') = ''assistant''" | (tool) "as_str (jget m ''role'') = ''tool''"
    | (oth) "is_other v"
    by (auto simp: is_other_def role_of_def JObj as_obj_def is_object_def)
  then show ?thesis
  proof cases
    case asst
    show ?thesis
    proof (cases "kept_calls m")
      case None
      with asst show ?thesis using unchanged by (simp add: repair_turn_def JObj is_other_def role_of_def as_obj_def)
    next
      case (Some m')
      from assistant_turn_ok [OF s kept_calls_shape [OF Some asst]] kept_calls_shape(2) [OF Some asst] asst
      show ?thesis by (simp add: repair_turn_def JObj Some turn_kept_def is_other_def role_of_def as_obj_def as_str_def)
    qed
  next
    case tool
    then have "jget m ''role'' = JStr ''tool''" by (auto simp: as_str_def split: json.splits)
    from tool_turn_ok [OF s this] tool show ?thesis by (simp add: repair_turn_def JObj)
  next
    case oth
    with other_turn_ok [OF s, of m] show ?thesis
      by (auto simp: repair_turn_def JObj is_other_def role_of_def as_obj_def)
  qed
qed (simp_all add: turn_kept_def repair_turn_def is_other_def is_object_def)

lemma repair_turns_ok: "repair_ok s \<Longrightarrow> turn_kept s vs (foldl repair_turn s vs)"
proof (induction vs arbitrary: s)
  case (Cons v vs)
  have t: "turn_kept s [v] (repair_turn s v)" using Cons.prems by (rule repair_turn_ok)
  then have "turn_kept (repair_turn s v) vs (foldl repair_turn (repair_turn s v) vs)"
    by (intro Cons.IH) (simp add: turn_kept_def)
  with t show ?case by (simp add: turn_kept_def)
qed (simp add: turn_kept_def)

lemma repair_start_ok: "repair_ok repair_start"
  by (simp add: repair_ok_def repair_start_def opens_def)

lemma repair_closes:
  "paired (repair_messages msgs) \<and> filter is_other (repair_messages msgs) = filter is_other msgs"
proof -
  let ?s = "foldl repair_turn repair_start msgs"
  have k: "turn_kept repair_start msgs ?s" by (rule repair_turns_ok [OF repair_start_ok])
  then have s: "repair_ok ?s" by (simp add: turn_kept_def)
  have "rp_out (flushUser (add_missing ?s)) = rp_out ?s @ map placeholder (opens ?s) @ rp_users ?s"
    using arg_cong [OF reset_eq [OF s], of rp_out] by (simp add: resetPending_def flushUser_def)
  with k closing_out [OF s] show ?thesis
    by (simp add: repair_messages_def paired_def turn_kept_def placeholders_not_other repair_start_def)
qed

subsection \<open>A sequence in order stays as it is\<close>

lemma repair_id:
  "repair_ok s \<Longrightarrow> rp_users s = [] \<Longrightarrow> after (opens s) msgs = Some rest \<Longrightarrow>
    let s' = foldl repair_turn s msgs in rp_out s' = rp_out s @ msgs \<and> rp_users s' = [] \<and> opens s' = rest"
proof (induction msgs arbitrary: s)
  case (Cons v vs)
  from Cons.prems(3) obtain m where v: "v = JObj m" by (auto simp: is_object_def split: if_splits json.splits)
  have t: "repair_ok (repair_turn s v)" using repair_turn_ok [OF Cons.prems(1), of v] by (simp add: turn_kept_def)
  have "rp_out (repair_turn s v) = rp_out s @ [v] \<and> rp_users (repair_turn s v) = [] \<and>
      after (opens (repair_turn s v)) vs = Some rest"
  proof -
    consider (tool) "role_of v = ''tool''" | (asst) "role_of v = ''assistant''" | (oth) "role_of v \<noteq> ''tool''" "role_of v \<noteq> ''assistant''"
      by blast
    then show ?thesis
    proof cases
      case tool
      let ?k = "toStr (jget m ''tool_call_id'')"
      have "?k \<in> set (opens s)" and a: "after (remove1 ?k (opens s)) vs = Some rest"
        using Cons.prems(3) tool by (simp_all add: v as_obj_def Let_def split: if_splits)
      moreover have "spots ?k (rp_ids s) (rp_consumed s) \<noteq> []" "length (rp_consumed s) = length (rp_ids s)"
        using Cons.prems(1) calculation(1) by (auto simp: repair_ok_def spots_empty opens_def)
      ultimately obtain i r where i: "spots ?k (rp_ids s) (rp_consumed s) = i # r" and l: "length (rp_consumed s) = length (rp_ids s)"
        by (cases "spots ?k (rp_ids s) (rp_consumed s)") auto
      with Cons.prems(1) have "rp_byID s ?k = i # r" by (simp add: repair_ok_def)
      with tool consume_first [OF l i] a Cons.prems(2) show ?thesis
        by (simp add: v repair_turn_def role_of_def as_obj_def tool_turn_def consume_def Let_def opens_def)
    next
      case asst
      have o: "opens s = []" and c: "list_all valid_call (as_list (jget m ''tool_calls''))" and a: "after (call_ids v) vs = Some rest"
        using Cons.prems(3) asst by (simp_all add: v as_obj_def split: if_splits)
      let ?s = "\<lparr>rp_out = rp_out s @ [v], rp_ids = [], rp_consumed = [],
        rp_byID = (\<lambda>_. []), rp_count = 0, rp_users = []\<rparr>"
      have "kept_calls m = Some m" using c by (cases "jget m ''tool_calls''") (simp_all add: kept_calls_def Let_def filter_keeps_all as_list_def)
      then have t: "repair_turn s v = foldl open_call ?s (as_list (jget m ''tool_calls''))"
        using asst reset_eq [OF Cons.prems(1)] o Cons.prems(2)
        by (simp add: v repair_turn_def role_of_def as_obj_def assistant_turn_def)
      have "opens ?s = []" by (simp add: opens_def)
      moreover have "call_ids v = map (\<lambda>c. toStr (jget (as_obj c) ''id'')) (as_list (jget m ''tool_calls''))"
        by (simp add: call_ids_def v as_obj_def)
      ultimately show ?thesis
        using open_calls_ok [OF c, of ?s] a by (simp add: t Let_def)
    next
      case oth
      have o: "opens s = []" and a: "after [] vs = Some rest"
        using Cons.prems(3) oth by (simp_all add: split: if_splits)
      then have "rp_count s = 0" using Cons.prems(1) by (simp add: repair_ok_def)
      with oth o a Cons.prems(2) show ?thesis
        by (simp add: v repair_turn_def role_of_def as_obj_def other_turn_def flushUser_def Let_def opens_def)
    qed
  qed
  with Cons.IH [OF t] show ?case by (simp add: Let_def)
qed simp

lemma paired_unchanged:
  assumes "paired msgs"
  shows "repair_messages msgs = msgs"
proof -
  have "after (opens repair_start) msgs = Some []" using assms by (simp add: paired_def opens_def repair_start_def)
  moreover have "rp_users repair_start = []" by (simp add: repair_start_def)
  ultimately have r: "rp_out (foldl repair_turn repair_start msgs) = msgs \<and> rp_users (foldl repair_turn repair_start msgs) = [] \<and>
      opens (foldl repair_turn repair_start msgs) = []"
    using repair_id [OF repair_start_ok, of msgs "[]"] by (simp add: Let_def repair_start_def)
  have "repair_ok (foldl repair_turn repair_start msgs)"
    using repair_turns_ok [OF repair_start_ok] by (simp add: turn_kept_def)
  then have "rp_count (foldl repair_turn repair_start msgs) = 0" using r by (simp add: repair_ok_def)
  with r show ?thesis by (simp add: repair_messages_def add_missing_def flushUser_def)
qed

subsection \<open>The whole body\<close>

lemma jget_on_messages:
  "jget (on_messages f b) k =
    (case jget b ''messages'' of JList msgs \<Rightarrow> if k = ''messages'' then JList (f msgs) else jget b k | _ \<Rightarrow> jget b k)"
  by (simp add: on_messages_def split: json.split)

lemma choice_messages: "jget (NormalizeToolChoice b) ''messages'' = jget b ''messages''"
  by (simp add: NormalizeToolChoice_def without_tools_def Let_def split: json.split)

lemma effort_key_cases: "effort_key b = [] \<or> effort_key b = ''reasoning_effort'' \<or> effort_key b = ''reasoningEffort''"
  by (simp add: effort_key_def)

lemma effort_messages: "jget (NormalizeReasoningEffort e b) ''messages'' = jget b ''messages''"
  using effort_key_cases [of b] by (auto simp: NormalizeReasoningEffort_def Let_def split: option.split)

lemma stated_messages: "jget (stated_off b) ''messages'' = jget b ''messages''"
  by (simp add: stated_off_def Let_def)

lemma inject_messages: "jget (InjectThinking b) ''messages'' = jget b ''messages''"
  by (simp add: InjectThinking_def Let_def stated_messages split: json.split)

lemma backfill_same:
  "role_of (backfill v) = role_of v" "call_ids (backfill v) = call_ids v" "is_object (backfill v) = is_object v"
  "jget (as_obj (backfill v)) ''tool_calls'' = jget (as_obj v) ''tool_calls''"
  "jget (as_obj (backfill v)) ''tool_call_id'' = jget (as_obj v) ''tool_call_id''"
  by (cases v; simp add: backfill_def role_of_def call_ids_def is_object_def as_obj_def split: json.split)+

lemma after_backfill: "after opn (map backfill vs) = after opn vs"
  by (induction opn vs rule: after.induct) (simp_all add: backfill_same Let_def)

lemma backfill_other: "filter is_other (map backfill vs) = filter is_other vs"
proof (induction vs)
  case (Cons v vs)
  have "is_other (backfill v) = is_other v" by (simp add: is_other_def backfill_same)
  moreover have "backfill v = v" if "is_other v"
    using that by (cases v) (auto simp: backfill_def is_other_def role_of_def is_assistant_def as_str_def as_obj_def)
  ultimately show ?case using Cons by simp
qed simp

lemma backfilled:
  "\<exists>f. jget (BackfillReasoningContent b) ''messages'' =
      (case jget b ''messages'' of JList msgs \<Rightarrow> JList (if f then map backfill msgs else msgs) | v \<Rightarrow> v)"
  by (auto simp: BackfillReasoningContent_def jget_on_messages split: json.split)

lemma repair_extends: "\<exists>zs. rp_out (repair_turn s v) = rp_out s @ zs"
proof -
  have f: "rp_out (foldl open_call s cs) = rp_out s" for s cs
    by (induction cs arbitrary: s) (auto simp: open_call_def Let_def split: json.split)
  show ?thesis
    by (auto simp: repair_turn_def assistant_turn_def tool_turn_def other_turn_def consume_def Let_def f flushUser_def
        resetPending_def add_missing_def split: json.split option.split list.split)
qed

lemma repair_leader:
  assumes "is_other v"
  shows "\<exists>zs. repair_messages (v # vs) = v # zs"
proof -
  obtain m where v: "v = JObj m" using assms by (auto simp: is_other_def is_object_def split: json.splits)
  have s: "rp_out (repair_turn repair_start v) = [v]"
    using assms by (simp add: v repair_turn_def is_other_def role_of_def as_obj_def other_turn_def repair_start_def flushUser_def Let_def)
  have "\<exists>zs. rp_out (foldl repair_turn s vs) = rp_out s @ zs" for s
  proof (induction vs arbitrary: s)
    case (Cons w ws)
    with repair_extends [of s w] show ?case by (metis append.assoc foldl_Cons)
  qed simp
  from this [of "repair_turn repair_start v"] s
  obtain zs where "rp_out (foldl repair_turn repair_start (v # vs)) = v # zs" by auto
  then show ?thesis by (auto simp: repair_messages_def flushUser_def add_missing_def)
qed

lemma plain_role_plain: "role_of (plain_role v) \<noteq> ''developer''"
  by (cases v) (auto simp: plain_role_def role_of_def as_obj_def as_str_def split: json.splits)

lemma empty_system_role: "role_of empty_system = ''system''" "is_other empty_system"
  by (simp_all add: role_of_def empty_system_def as_obj_def as_str_def jget_def is_other_def is_object_def)

lemma system_leads: "jget (as_obj v) ''role'' = JStr ''system'' \<Longrightarrow> is_other v \<and> role_of v = ''system''"
  by (cases v) (auto simp: role_of_def as_obj_def as_str_def is_other_def is_object_def)

lemma no_developers:
  assumes "list_all (\<lambda>v. role_of v \<noteq> ''developer'') (filter is_other vs)" "list_all is_object vs"
  shows "list_all (\<lambda>v. role_of v \<noteq> ''developer'') vs"
  using assms by (auto simp: list_all_iff is_other_def)

lemma after_objects: "after opn vs = Some r \<Longrightarrow> list_all is_object vs"
  by (induction opn vs rule: after.induct) (auto simp: Let_def split: if_splits)

text \<open>C29. A sanitized request can be sent: every call of a tool is answered right after its
  message, with a placeholder where the client lost the result, and no other result is left; no message
  has the role developer; the first message is a system message; and no message of another role is
  dropped, changed or moved past another one.\<close>

theorem sanitized_messages:
  "case jget body ''messages'' of
     JList msgs \<Rightarrow>
       (let out = as_list (jget (Sanitize efforts body) ''messages'')
        in paired out \<and> list_all (\<lambda>v. role_of v \<noteq> ''developer'') out \<and>
           filter is_other out = filter is_other (lead_system (map plain_role msgs)) \<and>
           (if msgs = [] then out = [] else role_of (hd out) = ''system''))
   | _ \<Rightarrow> True"
proof (cases "jget body ''messages''")
  case (JList msgs)
  let ?in = "lead_system (map plain_role msgs)" let ?r = "repair_messages ?in"
  obtain f where f: "as_list (jget (Sanitize efforts body) ''messages'') = (if f then map backfill ?r else ?r)"
    using backfilled [of "InjectThinking (RepairToolSequence (EnsureLeadingSystem (NormalizeRoles
      (NormalizeReasoningEffort efforts (NormalizeToolChoice body)))))"]
    by (auto simp: Sanitize_def inject_messages RepairToolSequence_def EnsureLeadingSystem_def NormalizeRoles_def
        jget_on_messages effort_messages choice_messages JList as_list_def)
  have p: "paired ?r" and o: "filter is_other ?r = filter is_other ?in" using repair_closes by auto
  have dev: "list_all (\<lambda>v. role_of v \<noteq> ''developer'') ?in"
    using plain_role_plain empty_system_role by (auto simp: lead_system_def list_all_iff split: list.splits if_splits)
  then have "list_all (\<lambda>v. role_of v \<noteq> ''developer'') (filter is_other ?r)" unfolding o by (auto simp: list_all_iff)
  then have d: "list_all (\<lambda>v. role_of v \<noteq> ''developer'') ?r"
    by (rule no_developers) (use p after_objects in \<open>auto simp: paired_def\<close>)
  have l: "if msgs = [] then ?r = [] else ?r \<noteq> [] \<and> role_of (hd ?r) = ''system''"
  proof (cases msgs)
    case Nil
    then show ?thesis by (simp add: lead_system_def repair_messages_def repair_start_def add_missing_def flushUser_def)
  next
    case (Cons m ms)
    then obtain v vs where v: "?in = v # vs" "is_other v" "role_of v = ''system''"
      using empty_system_role system_leads [of "plain_role m"]
      by (cases "jget (as_obj (plain_role m)) ''role'' = JStr ''system''") (auto simp: lead_system_def)
    with repair_leader [of v vs] Cons show ?thesis by auto
  qed
  show ?thesis
  proof (cases f)
    case True
    have "?r \<noteq> [] \<Longrightarrow> role_of (hd (map backfill ?r)) = role_of (hd ?r)" by (simp add: hd_map backfill_same)
    with True f p o d l show ?thesis
      by (auto simp: JList Let_def paired_def after_backfill backfill_other list_all_iff backfill_same)
  next
    case False
    with f p o d l show ?thesis by (cases "msgs = []") (simp_all add: JList)
  qed
qed simp_all

text \<open>C30. The repair of the tool sequence is idempotent, and a history in which every call is
  answered right away is not touched.\<close>

theorem repair_stable:
  "repair_messages (repair_messages msgs) = repair_messages msgs \<and>
   (if paired msgs then repair_messages msgs = msgs else True)"
  using repair_closes [of msgs] paired_unchanged by auto

subsection \<open>The level\<close>

lemma highest_spec:
  "if list_ex (\<lambda>s. level_rank s \<le> asked \<and> snd best < int (level_rank s)) levels
   then let c = highest_from asked levels best
        in c \<in> set levels \<and> level_rank c \<le> asked \<and> snd best < int (level_rank c) \<and>
           list_all (\<lambda>s. if level_rank s \<le> asked then level_rank s \<le> level_rank c else True) levels
   else highest_from asked levels best = fst best"
proof (induction asked levels best rule: highest_from.induct)
  case (2 asked s levels best)
  show ?case
  proof (cases "level_rank s \<le> asked \<and> snd best < int (level_rank s)")
    case True
    show ?thesis
    proof (cases "list_ex (\<lambda>t. level_rank t \<le> asked \<and> int (level_rank s) < int (level_rank t)) levels")
      case True
      with 2 \<open>level_rank s \<le> asked \<and> _\<close> show ?thesis by (auto simp: Let_def)
    next
      case False
      then have "list_all (\<lambda>t. if level_rank t \<le> asked then level_rank t \<le> level_rank s else True) levels"
        by (auto simp: list_ex_iff list_all_iff not_less)
      with 2 False \<open>level_rank s \<le> asked \<and> _\<close> show ?thesis by (auto simp: Let_def)
    qed
  next
    case False
    let ?h = "highest_from asked levels best"
    have h: "highest_from asked (s # levels) best = ?h" by (simp only: highest_from.simps if_not_P [OF False])
    have e: "list_ex (\<lambda>s. level_rank s \<le> asked \<and> snd best < int (level_rank s)) (s # levels) =
        list_ex (\<lambda>s. level_rank s \<le> asked \<and> snd best < int (level_rank s)) levels" using False by (simp only: list.pred_inject list_ex_iff list.set) blast
    have "level_rank s \<le> asked \<Longrightarrow> snd best < int (level_rank ?h) \<Longrightarrow> level_rank s \<le> level_rank ?h" using False by linarith
    with 2 [unfolded if_not_P [OF False]] show ?thesis unfolding h e Let_def by (simp split: if_split_asm)
  qed
qed simp

lemma lowest_spec:
  "(lowest_from levels best = fst best \<and> list_all (\<lambda>s. snd best \<le> level_rank s) levels) \<or>
   (lowest_from levels best \<in> set levels \<and> level_rank (lowest_from levels best) < snd best \<and>
    list_all (\<lambda>s. level_rank (lowest_from levels best) \<le> level_rank s) levels)"
proof (induction levels best rule: lowest_from.induct)
  case (2 s levels best)
  then show ?case by (cases "level_rank s < snd best") (auto simp: list_all_iff)
qed simp

lemma rank_bound: "level_rank s \<le> 6"
proof -
  have "effortRank e = Some i \<Longrightarrow> i \<le> 6" for e i by (auto simp: effortRank_def split: if_splits)
  then show ?thesis by (auto simp: level_rank_def rank_def split: option.split)
qed

lemma lowest_least:
  assumes "levels \<noteq> []"
  shows "lowest levels \<in> set levels \<and> list_all (\<lambda>s. level_rank (lowest levels) \<le> level_rank s) levels"
proof -
  have "\<not> list_all (\<lambda>s. 2 ^ 30 \<le> level_rank s) levels"
    using assms rank_bound [of "hd levels"] by (cases levels) auto
  with lowest_spec [of levels "([], 2 ^ 30)"] show ?thesis by (auto simp: lowest_def)
qed

text \<open>The level chosen for a model is one it supports: off only when off was asked for or
  nothing else is offered, and otherwise the highest thinking level not above the asked one, or the lowest
  when all are above it.\<close>

theorem chosen_level_policy:
  "let c = chosen_level asked supported; thinking = thinking_levels supported; off = off_levels supported
   in if thinking = [] \<and> off = [] then c = []
      else c \<in> set supported \<and>
        (if asked = 0 \<or> thinking = [] then (if off \<noteq> [] then rank c = Some 0 else c \<in> set thinking)
         else c \<in> set thinking \<and>
           (if list_ex (\<lambda>s. level_rank s \<le> asked) thinking
            then level_rank c \<le> asked \<and> list_all (\<lambda>s. if level_rank s \<le> asked then level_rank s \<le> level_rank c else True) thinking
            else list_all (\<lambda>s. level_rank c \<le> level_rank s) thinking))"
proof -
  let ?t = "thinking_levels supported" and ?o = "off_levels supported"
  have sub: "set ?t \<subseteq> set supported" "set ?o \<subseteq> set supported" and off: "s \<in> set ?o \<Longrightarrow> rank s = Some 0" for s
    by (auto simp: thinking_levels_def off_levels_def)
  have ho: "?o \<noteq> [] \<Longrightarrow> hd ?o \<in> set ?o" by simp
  have ne: "[] \<notin> set ?t" by (simp add: thinking_levels_def rank_def effortRank_def)
  show ?thesis
  proof (cases "asked = 0 \<or> ?t = []")
    case True
    with sub off ho lowest_least [of ?t] show ?thesis
      by (auto simp: chosen_level_def Let_def)
  next
    case False
    let ?h = "highest_from asked ?t ([], -1)"
    show ?thesis
    proof (cases "list_ex (\<lambda>s. level_rank s \<le> asked) ?t")
      case True
      then have h: "?h \<in> set ?t \<and> level_rank ?h \<le> asked \<and>
          list_all (\<lambda>s. if level_rank s \<le> asked then level_rank s \<le> level_rank ?h else True) ?t"
        using highest_spec [where asked = asked and levels = ?t and best = "([], -1)"] by (simp add: Let_def)
      with ne have "?h \<noteq> []" by auto
      with h False True sub show ?thesis by (auto simp: chosen_level_def Let_def)
    next
      case none: False
      then have "?h = []"
        using highest_spec [where asked = asked and levels = ?t and best = "([], -1)"] by simp
      with none False lowest_least [of ?t] sub show ?thesis by (auto simp: chosen_level_def Let_def)
    qed
  qed
qed

end
