(* ===== verification/Namespaces.thy ===== *)
theory Namespaces
  imports CustomTools GoText
begin

text \<open>
  Tools in namespaces over providers that only have flat names: internal/core/protocol/namespaces.go.
  \<open>sha\<close> is SHA-256 as a byte function. Maps are association lists, maps with boolean values lists of
  their keys; an entry of \<open>ns_mapping\<close> is the flat name with the name and the namespace it stands for.
\<close>

record names_state =
  ns_used :: "string list"
  ns_mapping :: "(string \<times> string \<times> string) list"
  ns_tools :: "json_object list"
  ns_declared :: "string list"
  ns_groups :: "(string \<times> string list) list"
  ns_paths :: "(string \<times> string) list"
  ns_aliases :: "(string \<times> string) list"
  ns_ambiguous :: "string list"

subsection \<open>Binding a name\<close>

definition flat_name :: "(string \<Rightarrow> nat list) \<Rightarrow> string \<Rightarrow> string \<Rightarrow> string" where
  "flat_name sha namespace name = ''ns_'' @ hex_encode (take 16 (sha (namespace @ [CHR 0x00] @ name)))"

definition bind_name ::
    "(string \<Rightarrow> nat list) \<Rightarrow> string \<Rightarrow> string \<Rightarrow> names_state \<Rightarrow> tool_error + string \<times> names_state" where
  "bind_name sha namespace name s =
    (if trim_space namespace = [] \<or> trim_space name = [] then Inl UnnamedNamespace
     else
       let flat = flat_name sha namespace name
       in if flat \<in> set (ns_used s) then Inl NamespaceUsedName
          else case map_of (ns_mapping s) flat of
            Some old \<Rightarrow>
              if old \<noteq> (name, namespace) then Inl NamespaceClash
              else Inr (flat, s\<lparr>ns_mapping := AList.update flat (name, namespace) (ns_mapping s)\<rparr>)
          | None \<Rightarrow> Inr (flat, s\<lparr>ns_mapping := AList.update flat (name, namespace) (ns_mapping s)\<rparr>))"

subsection \<open>Collecting the tools\<close>

definition children :: "json_object \<Rightarrow> json list" where
  "children tool =
    (let tools = SliceAt tool [''tools'']; nested = SliceAt tool [''children'']
     in if tools \<noteq> [] then tools else if nested \<noteq> [] then nested else SliceAt tool [''functions''])"

definition enter_namespace :: "json_codec \<Rightarrow> string list \<Rightarrow> names_state \<Rightarrow> tool_error + names_state" where
  "enter_namespace jc parts s =
    (let namespace = join_with ''__'' parts;
         encoded = (case jc_marshal jc (JList (map JStr parts)) of None \<Rightarrow> [] | Some t \<Rightarrow> t)
     in if (case map_of (ns_paths s) namespace of None \<Rightarrow> False | Some old \<Rightarrow> old \<noteq> encoded) then Inl AmbiguousPath
        else Inr (s\<lparr>ns_paths := AList.update namespace encoded (ns_paths s),
                    ns_groups := (if map_of (ns_groups s) namespace = None
                                  then AList.update namespace [] (ns_groups s) else ns_groups s)\<rparr>))"

definition join_group :: "string \<Rightarrow> string \<Rightarrow> names_state \<Rightarrow> names_state" where
  "join_group flat namespace s =
    s\<lparr>ns_groups := AList.update namespace
        (add_new flat (case map_of (ns_groups s) namespace of None \<Rightarrow> [] | Some fs \<Rightarrow> fs)) (ns_groups s)\<rparr>"

definition add_alias :: "string \<Rightarrow> string \<Rightarrow> names_state \<Rightarrow> names_state" where
  "add_alias flat alias s =
    s\<lparr>ns_ambiguous := (if (case map_of (ns_aliases s) alias of None \<Rightarrow> False | Some previous \<Rightarrow> previous \<noteq> flat)
                       then add_new alias (ns_ambiguous s) else ns_ambiguous s),
      ns_aliases := AList.update alias flat (ns_aliases s)\<rparr>"

definition lowered_tool :: "string \<Rightarrow> string \<Rightarrow> string \<Rightarrow> json_object \<Rightarrow> json_object" where
  "lowered_tool flat namespace description tool =
    jset ''description'' (JStr (trim_space (''Tool identity: '' @ namespace @ ''.'' @ StringAt tool [''name''] @
        (''.'' @ [CHR 0x0A]) @ description @ StringAt tool [''description''])))
      (jset ''name'' (JStr flat) tool)"

definition collect_leaf ::
    "(string \<Rightarrow> nat list) \<Rightarrow> string list \<Rightarrow> string \<Rightarrow> json_object \<Rightarrow> names_state \<Rightarrow> tool_error + names_state" where
  "collect_leaf sha parents description tool s =
    (let kind = StringAt tool [''type'']; name = StringAt tool [''name'']; namespace = join_with ''__'' parents
     in if parents = [] then Inr (s\<lparr>ns_tools := ns_tools s @ [tool]\<rparr>)
        else if kind \<noteq> ''function'' \<and> kind \<noteq> ''custom'' then Inl BadChildKind
        else case bind_name sha namespace name s of
          Inl e \<Rightarrow> Inl e
        | Inr (flat, s) \<Rightarrow>
            if flat \<in> set (ns_declared s) then Inl RepeatedChild
            else
              let s = s\<lparr>ns_declared := ns_declared s @ [flat]\<rparr>;
                  s = fold (\<lambda>i. join_group flat (join_with ''__'' (take (Suc i) parents))) [0..<length parents] s;
                  s = fold (add_alias flat)
                    [namespace @ ''__'' @ name, join_with ''::'' parents @ ''::'' @ name] s
              in Inr (s\<lparr>ns_tools := ns_tools s @ [lowered_tool flat namespace description tool]\<rparr>))"

function collect ::
    "(string \<Rightarrow> nat list) \<Rightarrow> json_codec \<Rightarrow> json_object \<Rightarrow> string list \<Rightarrow> string \<Rightarrow> names_state \<Rightarrow> tool_error + names_state"
  and collect_all ::
    "(string \<Rightarrow> nat list) \<Rightarrow> json_codec \<Rightarrow> json list \<Rightarrow> string list \<Rightarrow> string \<Rightarrow> names_state \<Rightarrow> tool_error + names_state" where
  "collect sha jc tool parents description s =
    (if StringAt tool [''type''] = ''namespace'' then
       (let name = StringAt tool [''name''];
            parts = parents @ [name]
        in if trim_space name = [] then Inl UnnamedNamespace
           else case enter_namespace jc parts s of
             Inl e \<Rightarrow> Inl e
           | Inr s \<Rightarrow>
               if children tool = [] then Inl EmptyNamespace
               else collect_all sha jc (children tool) parts
                 (description @ StringAt tool [''description''] @ [CHR 0x0A]) s)
     else collect_leaf sha parents description tool s)"
| "collect_all sha jc [] parents description s = Inr s"
| "collect_all sha jc (v # vs) parents description s =
    (case v of
       JObj child \<Rightarrow>
         (case collect sha jc child parents description s of
            Inl e \<Rightarrow> Inl e
          | Inr s \<Rightarrow> collect_all sha jc vs parents description s)
     | _ \<Rightarrow> Inl ChildNotObject)"
  by pat_completeness auto
termination
proof (relation "measure (\<lambda>a. case a of
      Inl (sha, jc, tool, parents, description, s) \<Rightarrow> 2 * size (JObj tool)
    | Inr (sha, jc, vs, parents, description, s) \<Rightarrow> 2 * size_list size vs + 1)", goal_cases)
  case (2 sha jc tool parents description s x xa xb)
  have "size_list size (children tool) < size (JObj tool)"
  proof -
    have l: "size_list size (SliceAt tool [k]) < size (JObj tool)" for k
      using size_list_member [of tool k] by (cases "jget tool k") (simp_all add: SliceAt_def AnyAt_def as_list_def)
    then show ?thesis by (simp add: children_def Let_def)
  qed
  then show ?case by simp
qed auto

declare collect.simps [simp del]

text \<open>The tools of the request: an element that is no object is an error of its own.\<close>

fun collect_tools ::
    "(string \<Rightarrow> nat list) \<Rightarrow> json_codec \<Rightarrow> json list \<Rightarrow> names_state \<Rightarrow> tool_error + names_state" where
  "collect_tools sha jc [] s = Inr s"
| "collect_tools sha jc (v # vs) s =
    (case v of
       JObj tool \<Rightarrow>
         (case collect sha jc tool [] [] s of Inl e \<Rightarrow> Inl e | Inr s \<Rightarrow> collect_tools sha jc vs s)
     | _ \<Rightarrow> Inl ToolNotAnObject)"

subsection \<open>References\<close>

definition group_name :: "names_state \<Rightarrow> string \<Rightarrow> string" where
  "group_name s namespace =
    (let flat = replace_all ''::'' ''__'' namespace
     in if map_of (ns_groups s) namespace = None \<and> map_of (ns_groups s) flat \<noteq> None then flat else namespace)"

definition resolve ::
    "(string \<Rightarrow> nat list) \<Rightarrow> string \<Rightarrow> string \<Rightarrow> names_state \<Rightarrow> tool_error + string \<times> names_state" where
  "resolve sha namespace name s =
    (if namespace \<noteq> [] then bind_name sha (group_name s namespace) name s
     else if name \<in> set (ns_used s) then Inr (name, s)
     else if name \<in> set (ns_ambiguous s) then Inl AmbiguousReference
     else case map_of (ns_aliases s) name of
       None \<Rightarrow> Inr (name, s)
     | Some flat \<Rightarrow> Inr (if flat \<noteq> [] then flat else name, s))"

definition is_call :: "json \<Rightarrow> bool" where
  "is_call v = (tool_kind v = ''function_call'' \<or> tool_kind v = ''custom_tool_call'')"

definition lower_reference :: "string \<Rightarrow> json_object \<Rightarrow> json_object" where
  "lower_reference flat item =
    (if flat = StringAt item [''name''] \<and> StringAt item [''namespace''] = [] then item
     else jdelete ''namespace'' (jset ''name'' (JStr flat) item))"

fun lower_history ::
    "(string \<Rightarrow> nat list) \<Rightarrow> json list \<Rightarrow> names_state \<Rightarrow> tool_error + json list \<times> names_state" where
  "lower_history sha [] s = Inr ([], s)"
| "lower_history sha (v # vs) s =
    (if is_call v then
       (case resolve sha (StringAt (as_obj v) [''namespace'']) (StringAt (as_obj v) [''name'']) s of
          Inl e \<Rightarrow> Inl e
        | Inr (flat, s) \<Rightarrow>
            (case lower_history sha vs s of
               Inl e \<Rightarrow> Inl e
             | Inr (vs, s) \<Rightarrow> Inr (JObj (lower_reference flat (as_obj v)) # vs, s)))
     else (case lower_history sha vs s of Inl e \<Rightarrow> Inl e | Inr (vs, s) \<Rightarrow> Inr (v # vs, s)))"

definition choose_namespace :: "names_state \<Rightarrow> json_object \<Rightarrow> json_object \<Rightarrow> tool_error + json_object" where
  "choose_namespace s choice out =
    (let namespace = StringAt choice [''name''];
         members = (case map_of (ns_groups s) namespace of
             Some fs \<Rightarrow> fs
           | None \<Rightarrow> (case map_of (ns_groups s) (replace_all ''::'' ''__'' namespace) of None \<Rightarrow> [] | Some fs \<Rightarrow> fs))
     in if members = [] then Inl UnknownNamespace
        else Inr (jset ''tool_choice'' (JStr ''auto'')
          (jset ''tools'' (JList (map JObj (filter (\<lambda>t. StringAt t [''name''] \<in> set members) (ns_tools s)))) out)))"

definition choose_tool ::
    "(string \<Rightarrow> nat list) \<Rightarrow> json_object \<Rightarrow> json_object \<Rightarrow> names_state \<Rightarrow> tool_error + json_object \<times> names_state" where
  "choose_tool sha choice out s =
    (let name = FirstString [StringAt choice [''name''], StringAt choice [''function'', ''name'']];
         namespace = StringAt choice [''namespace'']
     in case resolve sha namespace name s of
          Inl e \<Rightarrow> Inl e
        | Inr (flat, s) \<Rightarrow>
            if namespace \<noteq> [] \<and> flat \<notin> set (ns_declared s) then Inl UnknownNamespaceTool
            else if flat \<noteq> name \<or> namespace \<noteq> [] \<or> (case jget choice ''function'' of JObj _ \<Rightarrow> True | _ \<Rightarrow> False)
            then Inr (jset ''tool_choice''
              (JObj (jdelete ''namespace'' (jdelete ''function'' (jset ''name'' (JStr flat) choice)))) out, s)
            else Inr (out, s))"

definition lower_tool_choice ::
    "(string \<Rightarrow> nat list) \<Rightarrow> json_object \<Rightarrow> json_object \<Rightarrow> names_state \<Rightarrow> tool_error + json_object \<times> names_state" where
  "lower_tool_choice sha body out s =
    (case jget body ''tool_choice'' of
       JObj choice \<Rightarrow>
         if StringAt choice [''type''] = ''namespace'' then map_sum id (\<lambda>out. (out, s)) (choose_namespace s choice out)
         else choose_tool sha choice out s
     | _ \<Rightarrow> Inr (out, s))"

subsection \<open>The request\<close>

definition needs_namespace :: "json_object \<Rightarrow> bool" where
  "needs_namespace body =
    (list_ex (\<lambda>v. tool_kind v = ''namespace'') (SliceAt body [''tools'']) \<or>
     list_ex (\<lambda>v. is_call v \<and> StringAt (as_obj v) [''namespace''] \<noteq> []) (SliceAt body [''input'']) \<or>
     StringAt (MapAt body [''tool_choice'']) [''namespace''] \<noteq> [] \<or>
     StringAt (MapAt body [''tool_choice'']) [''type''] = ''namespace'')"

definition names_start :: "json_object \<Rightarrow> names_state" where
  "names_start body =
    \<lparr>ns_used = map function_name (filter (\<lambda>v. tool_kind v \<noteq> ''namespace'') (SliceAt body [''tools''])),
     ns_mapping = [], ns_tools = [], ns_declared = [], ns_groups = [], ns_paths = [], ns_aliases = [], ns_ambiguous = []\<rparr>"

definition lower_namespaces ::
    "(string \<Rightarrow> nat list) \<Rightarrow> json_codec \<Rightarrow> json_object \<Rightarrow> tool_error + json_object \<times> names_state" where
  "lower_namespaces sha jc body =
    (case collect_tools sha jc (SliceAt body [''tools'']) (names_start body) of
       Inl e \<Rightarrow> Inl e
     | Inr s \<Rightarrow>
         let out = (if map_of body ''tools'' \<noteq> None then jset ''tools'' (JList (map JObj (ns_tools s))) body else body)
         in case (case jget body ''input'' of
                    JList history \<Rightarrow>
                      (case lower_history sha history s of
                         Inl e \<Rightarrow> Inl e
                       | Inr (items, s) \<Rightarrow> Inr (jset ''input'' (JList items) out, s))
                  | _ \<Rightarrow> Inr (out, s)) of
              Inl e \<Rightarrow> Inl e
            | Inr (out, s) \<Rightarrow> lower_tool_choice sha body out s)"

text \<open>The request, the names of the custom tools, and the flat names with what they stand for.\<close>

definition PrepareClientTools ::
    "(string \<Rightarrow> nat list) \<Rightarrow> json_codec \<Rightarrow> json_object \<Rightarrow>
      tool_error + json_object \<times> string list \<times> (string \<times> string \<times> string) list" where
  "PrepareClientTools sha jc body =
    (if \<not> needs_namespace body
     then map_sum id (\<lambda>(out, custom). (out, custom, [])) (PrepareCustomTools jc body)
     else case lower_namespaces sha jc body of
       Inl e \<Rightarrow> Inl e
     | Inr (out, s) \<Rightarrow> map_sum id (\<lambda>(out, custom). (out, custom, ns_mapping s)) (PrepareCustomTools jc out))"

end
