(* ===== verification/NamespaceProps.thy ===== *)
theory NamespaceProps
  imports Namespaces
begin

text \<open>
  What the lowering of namespaces keeps: a flat name stands for one tool, is no name of another tool, and
  a lowered call is restored to the name and the namespace it had.
\<close>

definition names_ok :: "(string \<Rightarrow> nat list) \<Rightarrow> names_state \<Rightarrow> bool" where
  "names_ok sha s =
    (list_all (\<lambda>(flat, name, namespace). flat = flat_name sha namespace name \<and> flat \<notin> set (ns_used s)) (ns_mapping s) \<and>
     distinct (ns_declared s) \<and> set (ns_declared s) \<subseteq> fst ` set (ns_mapping s))"

text \<open>What later operations keep of a state: its used names, its groups, and the names it bound.\<close>

definition extends :: "names_state \<Rightarrow> names_state \<Rightarrow> bool" where
  "extends s s' = (ns_used s' = ns_used s \<and> map_of (ns_mapping s) \<subseteq>\<^sub>m map_of (ns_mapping s'))"

lemma extends_refl [simp]: "extends s s"
  by (simp add: extends_def)

lemma extends_trans [trans]: "extends s t \<Longrightarrow> extends t u \<Longrightarrow> extends s u"
  by (auto simp: extends_def intro: map_le_trans)

lemma set_update_subset: "set (AList.update k v m) \<subseteq> insert (k, v) (set m)"
  by (induction m) auto

lemma keys_update: "fst ` set (AList.update k v m) = insert k (fst ` set m)"
  by (simp add: dom_update)

lemma bind_name_ok:
  assumes "bind_name sha namespace name s = Inr (flat, s')" "names_ok sha s"
  shows "names_ok sha s' \<and> extends s s' \<and> map_of (ns_mapping s') flat = Some (name, namespace) \<and>
    ns_groups s' = ns_groups s \<and> ns_declared s' = ns_declared s"
proof -
  have f: "flat = flat_name sha namespace name" "flat \<notin> set (ns_used s)"
      "s' = s\<lparr>ns_mapping := AList.update flat (name, namespace) (ns_mapping s)\<rparr>"
      "map_of (ns_mapping s) flat = None \<or> map_of (ns_mapping s) flat = Some (name, namespace)"
    using assms(1) by (auto simp: bind_name_def Let_def split: if_splits option.splits)
  have "list_all (\<lambda>(flat, name, namespace). flat = flat_name sha namespace name \<and> flat \<notin> set (ns_used s)) (ns_mapping s')"
    using assms(2) f set_update_subset [of flat "(name, namespace)" "ns_mapping s"]
    by (fastforce simp: names_ok_def list_all_iff)
  moreover have "map_of (ns_mapping s) \<subseteq>\<^sub>m map_of (ns_mapping s')"
    using f(3,4) by (auto simp: map_le_def update_conv)
  ultimately show ?thesis
    using assms(2) f by (auto simp: names_ok_def extends_def update_conv keys_update)
qed

lemma names_ok_irrelevant:
  "names_ok sha (s\<lparr>ns_tools := x\<rparr>) = names_ok sha s" "names_ok sha (s\<lparr>ns_groups := g\<rparr>) = names_ok sha s"
  "names_ok sha (s\<lparr>ns_paths := p\<rparr>) = names_ok sha s" "names_ok sha (s\<lparr>ns_aliases := a\<rparr>) = names_ok sha s"
  "names_ok sha (s\<lparr>ns_ambiguous := b\<rparr>) = names_ok sha s"
  by (simp_all add: names_ok_def)

lemma fold_state: "(\<And>x s. f (g x s) = f s) \<Longrightarrow> f (fold g xs s) = f s"
  by (induction xs arbitrary: s) auto

lemma collect_leaf_ok:
  assumes "collect_leaf sha parents description tool s = Inr s'" "names_ok sha s"
  shows "names_ok sha s' \<and> extends s s'"
proof (cases "parents = []")
  case True
  with assms show ?thesis by (auto simp: collect_leaf_def names_ok_irrelevant extends_def)
next
  case False
  let ?ns = "join_with ''__'' parents" and ?name = "StringAt tool [''name'']"
  obtain flat t where b: "bind_name sha ?ns ?name s = Inr (flat, t)" and d: "flat \<notin> set (ns_declared t)"
    and s': "ns_mapping s' = ns_mapping t" "ns_used s' = ns_used t" "ns_declared s' = ns_declared t @ [flat]"
    using assms(1) False
    by (auto simp: collect_leaf_def Let_def fold_state join_group_def add_alias_def split: if_splits sum.splits)
  note t = bind_name_ok [OF b assms(2)]
  then have "flat \<in> fst ` set (ns_mapping t)" by (auto dest!: map_of_SomeD intro: rev_image_eqI)
  with t d s' show ?thesis by (auto simp: names_ok_def extends_def)
qed

lemma enter_namespace_ok: "enter_namespace jc parts s = Inr s' \<Longrightarrow> names_ok sha s \<Longrightarrow> names_ok sha s' \<and> extends s s'"
  by (auto simp: enter_namespace_def Let_def names_ok_def extends_def split: if_splits)

lemma collect_ok:
  "collect sha jc tool parents description s = Inr s' \<Longrightarrow> names_ok sha s \<Longrightarrow> names_ok sha s' \<and> extends s s'"
  "collect_all sha jc vs parents description s = Inr s' \<Longrightarrow> names_ok sha s \<Longrightarrow> names_ok sha s' \<and> extends s s'"
proof (induction sha jc tool parents description s and sha jc vs parents description s
    arbitrary: s' and s' rule: collect_collect_all.induct)
  case (1 sha jc tool parents description s)
  show ?case
  proof (cases "StringAt tool [''type''] = ''namespace''")
    case False
    with 1 collect_leaf_ok show ?thesis by (simp add: collect.simps)
  next
    case True
    let ?parts = "parents @ [StringAt tool [''name'']]"
    from 1(2) True obtain t where t: "enter_namespace jc ?parts s = Inr t"
      and r: "collect_all sha jc (children tool) ?parts (description @ StringAt tool [''description''] @ [CHR 0x0A]) t = Inr s'"
      and n: "trim_space (StringAt tool [''name'']) \<noteq> []" "children tool \<noteq> []"
      by (auto simp: collect.simps [of sha jc tool] Let_def split: if_splits sum.splits)
    have "names_ok sha t \<and> extends s t" by (rule enter_namespace_ok [OF t 1(3)])
    moreover have "names_ok sha t \<Longrightarrow> names_ok sha s' \<and> extends t s'"
      by (rule 1(1) [OF True refl refl n(1) t n(2) r])
    ultimately show ?thesis using extends_trans by blast
  qed
next
  case (3 sha jc v vs parents description s)
  from 3(3) obtain c t where c: "v = JObj c" and t: "collect sha jc c parents description s = Inr t"
    and r: "collect_all sha jc vs parents description t = Inr s'"
    by (auto split: json.splits sum.splits)
  have "names_ok sha t \<and> extends s t" by (rule 3(1) [OF c t 3(4)])
  moreover have "names_ok sha t \<Longrightarrow> names_ok sha s' \<and> extends t s'" by (rule 3(2) [OF c t r])
  ultimately show ?case using extends_trans by blast
qed simp

lemma collect_tools_ok:
  "collect_tools sha jc vs s = Inr s' \<Longrightarrow> names_ok sha s \<Longrightarrow> names_ok sha s' \<and> extends s s'"
proof (induction vs arbitrary: s)
  case (Cons v vs)
  then obtain c t where t: "collect sha jc c [] [] s = Inr t" and r: "collect_tools sha jc vs t = Inr s'"
    by (auto split: json.splits sum.splits)
  from collect_ok(1) [OF t Cons.prems(2)] Cons.IH [OF r] show ?case using extends_trans by blast
qed simp

text \<open>A reference with a namespace is bound to the name and the namespace; the groups stay.\<close>

lemma resolve_ok:
  assumes "resolve sha namespace name s = Inr (flat, s')" "names_ok sha s"
  shows "names_ok sha s' \<and> extends s s' \<and> ns_groups s' = ns_groups s \<and> ns_declared s' = ns_declared s \<and>
    (namespace \<noteq> [] \<longrightarrow> map_of (ns_mapping s') flat = Some (name, group_name s namespace))"
proof (cases "namespace = []")
  case True
  then have "s' = s" using assms(1) by (simp add: resolve_def split: if_split_asm option.split_asm)
  with True assms(2) show ?thesis by simp
next
  case False
  with assms(1) have "bind_name sha (group_name s namespace) name s = Inr (flat, s')" by (simp add: resolve_def)
  from bind_name_ok [OF this assms(2)] show ?thesis by simp
qed

lemma group_name_same: "ns_groups s' = ns_groups s \<Longrightarrow> group_name s' = group_name s"
  by (rule ext) (simp add: group_name_def)

text \<open>What a lowered call reads back as.\<close>

definition restored_call :: "names_state \<Rightarrow> json \<Rightarrow> json \<Rightarrow> bool" where
  "restored_call s v v' =
    (if is_call v \<and> StringAt (as_obj v) [''namespace''] \<noteq> [] then
       map_of (ns_mapping s) (StringAt (as_obj v') [''name'']) =
         Some (StringAt (as_obj v) [''name''], group_name s (StringAt (as_obj v) [''namespace'']))
     else True)"

lemma restored_call_mono:
  "restored_call s v v' \<Longrightarrow> extends s t \<Longrightarrow> ns_groups t = ns_groups s \<Longrightarrow> restored_call t v v'"
proof -
  assume r: "restored_call s v v'" and e: "extends s t" and g: "ns_groups t = ns_groups s"
  have "map_of (ns_mapping s) k = Some x \<Longrightarrow> map_of (ns_mapping t) k = Some x" for k x
    using e by (force simp: extends_def map_le_def)
  with r show ?thesis by (simp add: restored_call_def group_name_same [OF g] split: if_split_asm)
qed

lemma lower_history_ok:
  "lower_history sha vs s = Inr (out, s') \<Longrightarrow> names_ok sha s \<Longrightarrow>
    names_ok sha s' \<and> extends s s' \<and> ns_groups s' = ns_groups s \<and> ns_declared s' = ns_declared s \<and>
    list_all2 (restored_call s') vs out"
proof (induction vs arbitrary: s out)
  case (Cons v vs)
  show ?case
  proof (cases "is_call v")
    case False
    then obtain o' where "lower_history sha vs s = Inr (o', s')" "out = v # o'"
      using Cons.prems(1) by (auto split: sum.splits)
    moreover have "restored_call s' v v" using False by (simp add: restored_call_def)
    ultimately show ?thesis using Cons.IH [of s o'] Cons.prems(2) by simp
  next
    case True
    let ?ns = "StringAt (as_obj v) [''namespace'']" and ?n = "StringAt (as_obj v) [''name'']"
    from True Cons.prems(1) obtain flat t o' where t: "resolve sha ?ns ?n s = Inr (flat, t)"
      and r: "lower_history sha vs t = Inr (o', s')" and o: "out = JObj (lower_reference flat (as_obj v)) # o'"
      by (auto split: sum.splits)
    note st = resolve_ok [OF t Cons.prems(2)]
    then have ts: "names_ok sha s' \<and> extends t s' \<and> ns_groups s' = ns_groups t \<and> ns_declared s' = ns_declared t \<and>
        list_all2 (restored_call s') vs o'"
      by (intro Cons.IH [OF r]) simp
    have "StringAt (lower_reference flat (as_obj v)) [''name''] = flat"
      by (simp add: lower_reference_def StringAt_def AnyAt_def as_str_def)
    then have "restored_call t v (JObj (lower_reference flat (as_obj v)))"
      using st group_name_same [of t s] by (simp add: restored_call_def as_obj_def)
    then have "restored_call s' v (JObj (lower_reference flat (as_obj v)))"
      by (rule restored_call_mono) (use ts in auto)
    moreover have "extends s s'" using st ts extends_trans [of s t s'] by simp
    ultimately show ?thesis using st ts unfolding o by (simp only: list_all2_Cons simp_thms)
  qed
qed simp

lemma lower_tool_choice_ok:
  assumes "lower_tool_choice sha body out s = Inr (out', s')" "names_ok sha s"
  shows "names_ok sha s' \<and> extends s s' \<and> ns_groups s' = ns_groups s \<and> ns_declared s' = ns_declared s \<and>
    jget out' ''input'' = jget out ''input''"
proof (cases "jget body ''tool_choice''")
  case (JObj choice)
  show ?thesis
  proof (cases "StringAt choice [''type''] = ''namespace''")
    case True
    with assms(1) JObj have "s' = s" "choose_namespace s choice out = Inr out'"
      by (cases "choose_namespace s choice out"; simp add: lower_tool_choice_def)+
    with assms(2) show ?thesis by (auto simp: choose_namespace_def Let_def split: if_split_asm)
  next
    case False
    with assms(1) JObj have c: "choose_tool sha choice out s = Inr (out', s')" by (simp add: lower_tool_choice_def)
    then obtain flat where r: "resolve sha (StringAt choice [''namespace''])
          (FirstString [StringAt choice [''name''], StringAt choice [''function'', ''name'']]) s = Inr (flat, s')"
      and o: "jget out' ''input'' = jget out ''input''"
      by (auto simp: choose_tool_def Let_def split: sum.splits if_split_asm)
    from resolve_ok [OF r assms(2)] o show ?thesis by simp
  qed
qed (use assms in \<open>simp_all add: lower_tool_choice_def\<close>)

text \<open>A lowered call as the writer of the answer restores it.\<close>

definition call_comes_back :: "tool_writer \<Rightarrow> names_state \<Rightarrow> json \<Rightarrow> json \<Rightarrow> bool" where
  "call_comes_back w s v v' =
    (if is_call v \<and> StringAt (as_obj v) [''namespace''] \<noteq> [] then
       let item = restore_name (w\<lparr>cw_namespaces := ns_mapping s\<rparr>) (StringAt (as_obj v') [''name'']) (as_obj v')
       in StringAt item [''name''] = StringAt (as_obj v) [''name''] \<and>
          StringAt item [''namespace''] = group_name s (StringAt (as_obj v) [''namespace''])
     else True)"

lemma restored_comes_back: "restored_call s v v' \<Longrightarrow> call_comes_back w s v v'"
proof -
  assume r: "restored_call s v v'"
  have at: "StringAt (jset ''namespace'' (JStr ns) (jset ''name'' (JStr n) m)) [''name''] = n"
      "StringAt (jset ''namespace'' (JStr ns) (jset ''name'' (JStr n) m)) [''namespace''] = ns" for ns n m
    by (simp_all add: StringAt_def AnyAt_def as_str_def)
  from r show ?thesis
    by (simp add: restored_call_def call_comes_back_def restore_name_def Let_def at split: if_split_asm)
qed

lemma lower_namespaces_ok:
  assumes "lower_namespaces sha jc body = Inr (out, s)"
  shows "names_ok sha s \<and> list_all2 (restored_call s) (SliceAt body [''input'']) (SliceAt out [''input''])"
proof -
  obtain t where t: "collect_tools sha jc (SliceAt body [''tools'']) (names_start body) = Inr t"
    using assms by (auto simp: lower_namespaces_def split: sum.splits)
  let ?out = "if map_of body ''tools'' \<noteq> None then jset ''tools'' (JList (map JObj (ns_tools t))) body else body"
  have ok: "names_ok sha t" using collect_tools_ok [OF t] by (simp add: names_start_def names_ok_def)
  show ?thesis
  proof (cases "jget body ''input''")
    case (JList history)
    obtain items u where h: "lower_history sha history t = Inr (items, u)"
      and c: "lower_tool_choice sha body (jset ''input'' (JList items) ?out) u = Inr (out, s)"
      using assms t JList by (auto simp: lower_namespaces_def Let_def split: sum.splits)
    note u = lower_history_ok [OF h ok]
    then have v: "names_ok sha s \<and> extends u s \<and> ns_groups s = ns_groups u \<and> jget out ''input'' = JList items"
      using lower_tool_choice_ok [OF c] by simp
    have "list_all2 (restored_call s) history items"
      by (rule list_all2_mono [OF conjunct2 [OF conjunct2 [OF conjunct2 [OF conjunct2 [OF u]]]]])
        (use v restored_call_mono in blast)
    with v JList show ?thesis by (simp add: SliceAt_def AnyAt_def as_list_def)
  next
    case JNull
    have "jget ?out ''input'' = JNull" using JNull by simp
    with assms t JNull lower_tool_choice_ok [of sha body ?out t out s] ok show ?thesis
      by (simp add: lower_namespaces_def Let_def SliceAt_def AnyAt_def)
  qed (use assms t lower_tool_choice_ok [of sha body ?out t out s] ok in
      \<open>auto simp: lower_namespaces_def Let_def SliceAt_def AnyAt_def as_list_def\<close>)
qed


end
