(* ===== verification/QoderErrors.thy ===== *)
theory QoderErrors
  imports GoText Bridge
begin

text \<open>
  The classification of Qoder's errors: internal/qoder/bridge/errors.go. What \<open>errors.As\<close> and
  \<open>errors.Is\<close> find in a transport error is a record of flags beside its text. Members of a \<open>json.RawMessage\<close> map are texts that \<open>raw_codec\<close> reads:
  \<open>rc_flag\<close> and \<open>rc_number\<close> are what the pointer and the float are left at.
\<close>

subsection \<open>Errors\<close>

record qoder_error =
  qe_Status :: int
  qe_Detail :: string
  qe_ErrType :: string
  qe_Message :: string
  qe_RetryAfter :: int

record transport_error =
  te_text :: string
  te_delivery :: bool
  te_canceled :: bool
  te_deadline :: bool
  te_timeout :: bool

datatype call_error =
    UpstreamFault qoder_error
  | TransportFault transport_error
  | WrappedFault qoder_error transport_error
  | OpenFault call_error
  | EmptyStream
  | Cancelled

definition TransientMaxRetries :: nat where
  "TransientMaxRetries = 2"

subsection \<open>Markers\<close>

definition containsAny :: "string \<Rightarrow> string list \<Rightarrow> bool" where
  "containsAny info markers = list_ex (contains info) markers"

definition contentPolicyMarkers :: "string list" where
  "contentPolicyMarkers =
    [''DataInspectionFailed'', ''inappropriate content'', ''input text data may contain'', ''ContentFilter'', ''SensitiveContent'']"

definition clientFaultMarkers :: "string list" where
  "clientFaultMarkers =
    [''invalid_parameter_error'', ''invalid_request_error'', ''authentication_error'', ''permission_error'', ''\"Range of ''] @
    contentPolicyMarkers"

definition nonTransientTransportMarkers :: "string list" where
  "nonTransientTransportMarkers = [''unsupported protocol scheme'', ''invalid url'', ''unknown scheme'', ''x509:'']"

definition transientTransportMarkers :: "string list" where
  "transientTransportMarkers =
    [''ssl'', ''eof'', ''reset'', ''timed out'', ''timeout'', ''deadline exceeded'', ''broken pipe'', ''connection'']"

definition IsContentPolicy :: "string \<Rightarrow> bool" where
  "IsContentPolicy info = containsAny info contentPolicyMarkers"

subsection \<open>Resource limits\<close>

record raw_codec =
  rc_members :: "string \<Rightarrow> (string \<times> string) list option"
  rc_string :: "string \<Rightarrow> string option"
  rc_flag :: "string \<Rightarrow> bool option"
  rc_number :: "string \<Rightarrow> f64"

text \<open>\<open>strings.EqualFold\<close> with a text of ASCII letters, underscores and spaces: U+017F folds to s and
  U+212A to k.\<close>

fun fold_case :: "string \<Rightarrow> string" where
  "fold_case [] = []"
| "fold_case (c # s) =
    (if has_prefix (c # s) (bytes [0xC5, 0xBF]) then CHR ''s'' # fold_case (drop 1 s)
     else if has_prefix (c # s) (bytes [0xE2, 0x84, 0xAA]) then CHR ''k'' # fold_case (drop 2 s)
     else ascii_lower c # fold_case s)"

definition equal_fold :: "string \<Rightarrow> string \<Rightarrow> bool" where
  "equal_fold s t = (fold_case s = map ascii_lower t)"

record limit_scan =
  ls_resource :: bool
  ls_count :: bool
  ls_queued :: bool
  ls_workspace :: bool
  ls_nodes :: int

definition member_text :: "(string \<times> string) list \<Rightarrow> string \<Rightarrow> string" where
  "member_text m k = (case map_of m k of None \<Rightarrow> [] | Some raw \<Rightarrow> raw)"

definition raw_text :: "raw_codec \<Rightarrow> string \<Rightarrow> string" where
  "raw_text rc raw = (case rc_string rc raw of None \<Rightarrow> [] | Some s \<Rightarrow> s)"

text \<open>One node: its own subcode and its queue flags; the second component is whether it is under a limit.\<close>

definition scan_node :: "raw_codec \<Rightarrow> (string \<times> string) list \<Rightarrow> bool \<Rightarrow> limit_scan \<Rightarrow> limit_scan \<times> bool" where
  "scan_node rc m inLimit st =
    (let sub = trim_space (raw_text rc (member_text m ''subCode''));
         isResource = equal_fold sub ''RESOURCE_LIMIT''; isCount = equal_fold sub ''CALL_COUNT_LIMIT'';
         inLimit = (inLimit \<or> isResource \<or> isCount);
         q = rc_flag rc (member_text m ''isQueued''); wait = rc_number rc (member_text m ''retryAfterSeconds'')
     in (st\<lparr>ls_resource := ls_resource st \<or> isResource, ls_count := ls_count st \<or> isCount,
           ls_queued := ls_queued st \<or> (inLimit \<and> (case q of Some b \<Rightarrow> b | None \<Rightarrow> flt (Fin 0) wait))\<rparr>, inLimit))"

definition workspace_exceeded :: "string \<Rightarrow> string \<Rightarrow> bool" where
  "workspace_exceeded key child =
    (key = ''message'' \<and> equal_fold (trim_space child) ''Workspace allocated quota exceeded'')"

text \<open>The first argument is the number of levels left: the source stops below level 4.\<close>

fun walk_limits :: "raw_codec \<Rightarrow> nat \<Rightarrow> string \<Rightarrow> bool \<Rightarrow> limit_scan \<Rightarrow> limit_scan" where
  "walk_limits rc 0 str inLimit st = st"
| "walk_limits rc (Suc levels) str inLimit st =
    (if ls_nodes st \<le> 0 \<or> 65536 < length str then st
     else if \<not> has_prefix (trim_space str) ''{'' then st
     else
       let st = st\<lparr>ls_nodes := ls_nodes st - 1\<rparr>
       in case rc_members rc (trim_space str) of
            None \<Rightarrow> st
          | Some m \<Rightarrow>
              let (st, inLimit) = scan_node rc m inLimit st
              in fold (\<lambda>key st.
                   let raw = member_text m key
                   in if raw = [] then st
                      else
                        let child = (case rc_string rc raw of None \<Rightarrow> raw | Some s \<Rightarrow> s);
                            st = (if workspace_exceeded key child then st\<lparr>ls_workspace := True\<rparr> else st)
                        in walk_limits rc levels child inLimit st)
                 [''error'', ''message'', ''body'', ''data'', ''details''] st)"

definition resourceFailure :: "raw_codec \<Rightarrow> string \<Rightarrow> string" where
  "resourceFailure rc info =
    (if 65536 < length info then []
     else
       let st = walk_limits rc 5 info False
             \<lparr>ls_resource = False, ls_count = False, ls_queued = False, ls_workspace = False, ls_nodes = 64\<rparr>
       in if (ls_resource st \<or> ls_count st) \<and> ls_queued st then ''upstream_queued''
          else if ls_workspace st then ''workspace_quota''
          else if ls_count st then ''call_count_limit''
          else if ls_resource st then ''resource_limit''
          else [])"

definition resourceFailureForStatus :: "raw_codec \<Rightarrow> int \<Rightarrow> string \<Rightarrow> string" where
  "resourceFailureForStatus rc status info =
    (if status = 401 \<or> status = 402 then [] else resourceFailure rc info)"

subsection \<open>Transient faults\<close>

definition IsTransientUpstream :: "raw_codec \<Rightarrow> int \<Rightarrow> string \<Rightarrow> bool" where
  "IsTransientUpstream rc code info =
    (if resourceFailureForStatus rc code info \<noteq> [] then False
     else if code = 401 \<or> code = 403 \<or> code = 429 then False
     else if containsAny info clientFaultMarkers then False
     else if code \<in> {418, 500, 502, 503, 504} \<or> 500 \<le> code then True
     else 400 \<le> code \<and> code < 500 \<and> contains info ''provider_error'')"

definition IsTransientTransport :: "transport_error \<Rightarrow> bool" where
  "IsTransientTransport err =
    (if te_delivery err then False
     else if te_canceled err then False
     else if te_deadline err then True
     else if te_timeout err then True
     else
       let msg = to_lower (te_text err)
       in if containsAny msg nonTransientTransportMarkers then False else containsAny msg transientTransportMarkers)"

subsection \<open>Texts for the client\<close>

text \<open>Truncation by runes: a rune starts at every byte that is no continuation byte.\<close>

fun take_runes :: "nat \<Rightarrow> string \<Rightarrow> string" where
  "take_runes n [] = []"
| "take_runes n (c # s) =
    (if 128 \<le> (of_char c :: nat) \<and> (of_char c :: nat) < 192 then c # take_runes n s
     else if n = 0 then [] else c # take_runes (n - 1) s)"

definition truncateRunes :: "string \<Rightarrow> nat \<Rightarrow> string" where
  "truncateRunes s m = (if take_runes m s = s then s else take_runes m s @ ''...'')"

definition content_policy_text :: "string \<Rightarrow> string" where
  "content_policy_text info =
    (bytes [0xE4, 0xB8, 0x8A, 0xE6, 0xB8, 0xB8, 0xE5, 0x86, 0x85, 0xE5, 0xAE, 0xB9, 0xE5, 0xAE, 0x89, 0xE5, 0x85,
      0xA8, 0xE5, 0xAE, 0xA1, 0xE6, 0xA0, 0xB8, 0xE6, 0x9C, 0xAA, 0xE9, 0x80, 0x9A, 0xE8, 0xBF,
      0x87] @ '' (DataInspectionFailed)'' @ bytes [0xEF, 0xBC, 0x9A, 0xE8, 0xBE, 0x93, 0xE5, 0x85, 0xA5, 0xE5,
      0x8F, 0xAF, 0xE8, 0x83, 0xBD, 0xE5, 0x90, 0xAB, 0xE4, 0xB8, 0x8D, 0xE5, 0xBD, 0x93, 0xE5, 0x86, 0x85, 0xE5,
      0xAE, 0xB9, 0xEF, 0xBC, 0x8C, 0xE5, 0xB1, 0x9E, 0xE7, 0xA1, 0xAE, 0xE5, 0xAE, 0x9A, 0xE6, 0x80, 0xA7, 0xE6,
      0x8B, 0x92, 0xE7, 0xBB, 0x9D, 0xE3, 0x80, 0x81, 0xE9, 0x87, 0x8D, 0xE8, 0xAF, 0x95, 0xE6, 0x97, 0xA0, 0xE6,
      0x95, 0x88, 0xE3, 0x80, 0x82, 0xE8, 0xAF, 0xB7, 0xE6, 0xA3, 0x80, 0xE6, 0x9F, 0xA5] @ ''/'' @ bytes [0xE7,
      0xBC, 0xA9, 0xE7, 0x9F, 0xAD, 0xE8, 0xBE, 0x93, 0xE5, 0x85, 0xA5, 0xEF, 0xBC, 0x88, 0xE7, 0xB3, 0xBB, 0xE7,
      0xBB, 0x9F, 0xE6, 0x8F, 0x90, 0xE7, 0xA4, 0xBA, 0xE8, 0xAF, 0x8D, 0xE3, 0x80, 0x81, 0xE8, 0xB6, 0x85, 0xE9,
      0x95, 0xBF, 0xE5, 0x8E, 0x86, 0xE5, 0x8F, 0xB2, 0xE3, 0x80, 0x81, 0xE5, 0xB7, 0xA5, 0xE5, 0x85, 0xB7, 0xE5,
      0xAE, 0x9A, 0xE4, 0xB9, 0x89, 0xE6, 0x88, 0x96, 0xE7, 0xB2, 0x98, 0xE8, 0xB4, 0xB4, 0xE7, 0x9A, 0x84, 0xE4,
      0xBB, 0xA3, 0xE7, 0xA0, 0x81] @ ''/'' @ bytes [0xE6, 0x96, 0x87, 0xE6, 0x9C, 0xAC, 0xEF, 0xBC, 0x89, 0xE5,
      0x90, 0x8E, 0xE9, 0x87, 0x8D, 0xE8, 0xAF, 0x95, 0xE3, 0x80, 0x82, 0xE4, 0xB8, 0x8A, 0xE6, 0xB8, 0xB8, 0xE8,
      0xAF, 0xA6, 0xE6, 0x83, 0x85, 0xEF, 0xBC, 0x9A]) @
    truncateRunes info 300"

definition transient_text :: "int \<Rightarrow> string \<Rightarrow> string" where
  "transient_text code info =
    (bytes [0xE4, 0xB8, 0x8A, 0xE6, 0xB8, 0xB8, 0xE7, 0x9E, 0xAC, 0xE6, 0x97, 0xB6, 0xE6, 0x95, 0x85, 0xE9, 0x9A,
      0x9C] @ '' (HTTP '') @ itoa code @ ('')'' @ bytes [0xEF, 0xBC, 0x9A, 0xE7, 0xBD, 0x91, 0xE5, 0x85, 0xB3,
      0xE5, 0xB7, 0xB2, 0xE5, 0xAF, 0xB9, 0xE5, 0x90, 0x8C, 0xE8, 0xB4, 0xA6, 0xE5, 0x8F, 0xB7, 0xE8, 0x87, 0xAA,
      0xE5, 0x8A, 0xA8, 0xE9, 0x87, 0x8D, 0xE8, 0xAF, 0x95, 0xE4, 0xBB, 0x8D, 0xE5, 0xA4, 0xB1, 0xE8, 0xB4, 0xA5,
      0xEF, 0xBC, 0x8C, 0xE8, 0xAF, 0xB7, 0xE7, 0xA8, 0x8D, 0xE5, 0x90, 0x8E, 0xE9, 0x87, 0x8D, 0xE8, 0xAF, 0x95,
      0xE3, 0x80, 0x82, 0xE4, 0xB8, 0x8A, 0xE6, 0xB8, 0xB8, 0xE8, 0xAF, 0xA6, 0xE6, 0x83, 0x85, 0xEF, 0xBC, 0x9A]) @
    (let d = truncateRunes info 300 in if d = [] then (''('' @ bytes [0xE6, 0x97, 0xA0, 0xE8, 0xAF, 0xA6, 0xE6,
      0x83, 0x85] @ '')'') else d)"

definition resource_text :: "string \<Rightarrow> string" where
  "resource_text kind =
    (if kind = ''upstream_queued'' then (bytes [0xE4, 0xB8, 0x8A, 0xE6, 0xB8, 0xB8, 0xE6, 0xA8, 0xA1, 0xE5, 0x9E,
      0x8B, 0xE6, 0xAD, 0xA3, 0xE5, 0x9C, 0xA8, 0xE6, 0x8E, 0x92, 0xE9, 0x98, 0x9F, 0xEF, 0xBC, 0x8C, 0xE8, 0xAF,
      0xB7, 0xE7, 0xA8, 0x8D, 0xE5, 0x90, 0x8E, 0xE9, 0x87, 0x8D, 0xE8, 0xAF, 0x95, 0xE6, 0x88, 0x96, 0xE9, 0x80,
      0x89, 0xE6, 0x8B, 0xA9, 0xE5, 0x85, 0xB6, 0xE4, 0xBB, 0x96, 0xE6, 0xA8, 0xA1, 0xE5, 0x9E, 0x8B])
     else if kind = ''call_count_limit'' then (bytes [0xE4, 0xB8, 0x8A, 0xE6, 0xB8, 0xB8, 0xE8, 0xB0, 0x83, 0xE7,
       0x94, 0xA8, 0xE6, 0xAC, 0xA1, 0xE6, 0x95, 0xB0, 0xE5, 0x8F, 0x97, 0xE9, 0x99, 0x90, 0xEF, 0xBC, 0x8C, 0xE8,
       0xAF, 0xB7, 0xE7, 0xA8, 0x8D, 0xE5, 0x90, 0x8E, 0xE9, 0x87, 0x8D, 0xE8, 0xAF, 0x95])
     else if kind = ''workspace_quota'' then (bytes [0xE4, 0xB8, 0x8A, 0xE6, 0xB8, 0xB8, 0xE5, 0xB7, 0xA5, 0xE4,
       0xBD, 0x9C, 0xE5, 0x8C, 0xBA, 0xE5, 0x88, 0x86, 0xE9, 0x85, 0x8D, 0xE9, 0xA2, 0x9D, 0xE5, 0xBA, 0xA6, 0xE5,
       0xB7, 0xB2, 0xE7, 0x94, 0xA8, 0xE5, 0xB0, 0xBD, 0xEF, 0xBC, 0x8C, 0xE8, 0xAF, 0xB7, 0xE6, 0xA3, 0x80, 0xE6,
       0x9F, 0xA5, 0xE5, 0xB7, 0xA5, 0xE4, 0xBD, 0x9C, 0xE5, 0x8C, 0xBA, 0xE9, 0x85, 0x8D, 0xE9, 0xA2, 0x9D, 0xE6,
       0x88, 0x96, 0xE7, 0xA8, 0x8D, 0xE5, 0x90, 0x8E, 0xE9, 0x87, 0x8D, 0xE8, 0xAF, 0x95])
     else (bytes [0xE4, 0xB8, 0x8A, 0xE6, 0xB8, 0xB8, 0xE6, 0xA8, 0xA1, 0xE5, 0x9E, 0x8B, 0xE8, 0xB5, 0x84, 0xE6,
       0xBA, 0x90, 0xE6, 0x88, 0x96, 0xE6, 0x9D, 0x83, 0xE7, 0x9B, 0x8A, 0xE5, 0x8F, 0x97, 0xE9, 0x99, 0x90, 0xEF,
       0xBC, 0x8C, 0xE8, 0xAF, 0xB7, 0xE6, 0xA0, 0xB8, 0xE5, 0xAE, 0x9E, 0xE8, 0xB4, 0xA6, 0xE5, 0x8F, 0xB7, 0xE5,
       0xA5, 0x97, 0xE9, 0xA4, 0x90, 0xE5, 0x8F, 0x8A, 0xE6, 0xA8, 0xA1, 0xE5, 0x9E, 0x8B, 0xE5, 0x8F, 0xAF, 0xE7,
       0x94, 0xA8, 0xE6, 0x80, 0xA7]))"

definition FriendlyUpstreamError :: "raw_codec \<Rightarrow> int \<Rightarrow> string \<Rightarrow> string \<times> string" where
  "FriendlyUpstreamError rc code info =
    (let info = trim_space info; kind = resourceFailureForStatus rc code info
     in if kind \<noteq> [] then (resource_text kind, kind)
        else if IsContentPolicy info then (content_policy_text info, ''content_policy_rejected'')
        else if IsTransientUpstream rc code info \<or>
          (contains info ''provider_error'' \<and> \<not> contains info ''invalid_'')
        then (transient_text code info, ''upstream_transient_error'')
        else (''upstream '' @ itoa code @ '': '' @ info, ''upstream_error''))"

definition NewUpstreamError :: "raw_codec \<Rightarrow> int \<Rightarrow> string \<Rightarrow> qoder_error" where
  "NewUpstreamError rc code info =
    (let (msg, et) = FriendlyUpstreamError rc code info
     in \<lparr>qe_Status = code, qe_Detail = info, qe_ErrType = et, qe_Message = msg, qe_RetryAfter = 0\<rparr>)"

definition NewStreamBusinessError :: "raw_codec \<Rightarrow> string \<Rightarrow> qoder_error" where
  "NewStreamBusinessError rc info =
    (let kind = resourceFailure rc info
     in if kind \<noteq> [] then
          \<lparr>qe_Status = (if kind \<in> {''upstream_queued'', ''workspace_quota'', ''call_count_limit''} then 429 else 403),
           qe_Detail = info, qe_ErrType = kind, qe_Message = fst (FriendlyUpstreamError rc 0 info), qe_RetryAfter = 0\<rparr>
        else if IsContentPolicy info then
          (let (msg, et) = FriendlyUpstreamError rc 502 info
           in \<lparr>qe_Status = 502, qe_Detail = info, qe_ErrType = et, qe_Message = msg, qe_RetryAfter = 0\<rparr>)
        else \<lparr>qe_Status = 0, qe_Detail = info, qe_ErrType = ''upstream_error'', qe_Message = info, qe_RetryAfter = 0\<rparr>)"

definition WrapTransportError :: "raw_codec \<Rightarrow> transport_error \<Rightarrow> call_error" where
  "WrapTransportError rc err =
    (if IsTransientTransport err then WrappedFault (NewUpstreamError rc 502 (te_text err)) err else TransportFault err)"

text \<open>The structured error that \<open>errors.As\<close> finds.\<close>

fun structured :: "call_error \<Rightarrow> qoder_error option" where
  "structured (UpstreamFault e) = Some e"
| "structured (WrappedFault e t) = Some e"
| "structured (OpenFault e) = structured e"
| "structured _ = None"

text \<open>The text of an error without structure.\<close>

fun error_text :: "call_error \<Rightarrow> string" where
  "error_text (UpstreamFault e) = qe_Message e"
| "error_text (WrappedFault e t) = qe_Message e"
| "error_text (TransportFault t) = te_text t"
| "error_text (OpenFault e) = error_text e"
| "error_text EmptyStream = ''empty upstream stream''"
| "error_text Cancelled = ''context canceled''"

definition FriendlyError :: "call_error \<Rightarrow> string \<times> string" where
  "FriendlyError err =
    (case structured err of Some e \<Rightarrow> (qe_Message e, qe_ErrType e) | None \<Rightarrow> (error_text err, ''qoder_error''))"

definition ErrorStatus :: "call_error \<Rightarrow> int" where
  "ErrorStatus err =
    (case structured err of
       None \<Rightarrow> 500
     | Some e \<Rightarrow>
         let t = qe_ErrType e
         in if t = ''content_policy_rejected'' then 400
            else if t = ''upstream_transient_error'' then 502
            else if t \<in> {''upstream_queued'', ''workspace_quota'', ''call_count_limit''} then 429
            else if t = ''resource_limit'' then 403
            else if 400 \<le> qe_Status e \<and> qe_Status e \<le> 599 then qe_Status e
            else 500)"

text \<open>Whether the stream is opened again: internal/qoder/bridge/bridge.go.\<close>

fun transport_of :: "call_error \<Rightarrow> transport_error option" where
  "transport_of (TransportFault t) = Some t"
| "transport_of (WrappedFault e t) = Some t"
| "transport_of (OpenFault e) = transport_of e"
| "transport_of _ = None"

definition isRetryableStreamError :: "raw_codec \<Rightarrow> call_error \<Rightarrow> bool" where
  "isRetryableStreamError rc err =
    (case structured err of
       Some e \<Rightarrow> IsTransientUpstream rc (qe_Status e) (qe_Detail e)
     | None \<Rightarrow> (case transport_of err of Some t \<Rightarrow> IsTransientTransport t | None \<Rightarrow> False))"

text \<open>
  Whether another account is tried: internal/qoder/failover.go. \<open>dns\<close>: a local name resolution failed.
\<close>

definition is_canceled :: "call_error \<Rightarrow> bool" where
  "is_canceled err =
    (err = Cancelled \<or> (case transport_of err of Some t \<Rightarrow> te_canceled t | None \<Rightarrow> False))"

definition canFailover :: "raw_codec \<Rightarrow> bool \<Rightarrow> call_error \<Rightarrow> bool" where
  "canFailover rc dns err =
    (if is_canceled err then False
     else if dns then False
     else case structured err of
       Some e \<Rightarrow>
         if qe_ErrType e \<in> {''upstream_queued'', ''resource_limit'', ''workspace_quota''} then False
         else if IsContentPolicy (qe_Detail e) then False
         else qe_Status e = 429 \<or> IsTransientUpstream rc (qe_Status e) (qe_Detail e)
     | None \<Rightarrow> (case transport_of err of Some t \<Rightarrow> IsTransientTransport t | None \<Rightarrow> False))"

end
