(* ===== verification/QoderCall.thy ===== *)
theory QoderCall
  imports QoderErrors StreamParse
begin

text \<open>
  A call of Qoder: the frames of internal/qoder/bridge/delta.go, the opening and reading of a stream of
  client.go, the gate that opens it again and the change of account of bridge.go, and the result of
  chat.go. The body of the request and its signature are not modelled; a send is an event.
\<close>

record qoder_env =
  qv_json :: json_codec
  qv_raw :: raw_codec

subsection \<open>Frames\<close>

text \<open>A nil list of calls is empty; \<open>d_Usage\<close> is None for a nil map.\<close>

record delta =
  d_Role :: string
  d_Content :: string
  d_Reasoning :: string
  d_ToolCalls :: "json list"
  d_InputTokens :: int
  d_OutputTokens :: int
  d_HasInputTokens :: bool
  d_HasOutputTokens :: bool
  d_Usage :: "json_object option"
  d_FinishReason :: string
  d_Err :: "qoder_error option"

definition no_delta :: delta where
  "no_delta =
    \<lparr>d_Role = [], d_Content = [], d_Reasoning = [], d_ToolCalls = [], d_InputTokens = 0, d_OutputTokens = 0,
     d_HasInputTokens = False, d_HasOutputTokens = False, d_Usage = None, d_FinishReason = [], d_Err = None\<rparr>"

definition isEmpty :: "delta \<Rightarrow> bool" where
  "isEmpty d = (d = no_delta)"

definition UpdateUsage :: "delta \<Rightarrow> int \<times> int \<Rightarrow> int \<times> int" where
  "UpdateUsage d counts =
    ((if d_HasInputTokens d \<or> 0 < d_InputTokens d then d_InputTokens d else fst counts),
     (if d_HasOutputTokens d \<or> 0 < d_OutputTokens d then d_OutputTokens d else snd counts))"

definition toEnvelopeStatus :: "json \<Rightarrow> int" where
  "toEnvelopeStatus v =
    (case v of
       JNum x \<Rightarrow> int_of_float x
     | JInt n \<Rightarrow> n
     | JStr s \<Rightarrow> (case atoi s of Some n \<Rightarrow> n | None \<Rightarrow> 502)
     | _ \<Rightarrow> 502)"

definition truncate_bytes :: "string \<Rightarrow> nat \<Rightarrow> string" where
  "truncate_bytes s m = (if length s \<le> m then s else take m s @ ''...'')"

definition envelopeDetail :: "qoder_env \<Rightarrow> json_object \<Rightarrow> string" where
  "envelopeDetail env wrapper =
    (let body = as_str (jget wrapper ''body'')
     in if body \<noteq> [] then body
        else truncate_bytes (case jc_marshal (qv_json env) (JObj wrapper) of None \<Rightarrow> [] | Some s \<Rightarrow> s) 400)"

definition businessCode :: "json \<Rightarrow> string" where
  "businessCode v = (case v of JStr s \<Rightarrow> trim_space s | JNum x \<Rightarrow> format_float x | _ \<Rightarrow> [])"

definition detail_message :: "qoder_env \<Rightarrow> json \<Rightarrow> string" where
  "detail_message env v =
    (case v of
       JStr d \<Rightarrow>
         (let s = trim_space d
          in if s = [] then []
             else case unmarshal_object (qv_json env) s of
               None \<Rightarrow> s
             | Some parsed \<Rightarrow>
                 (case jget parsed ''error'' of
                    JObj errObj \<Rightarrow> as_str (jget errObj ''message'')
                  | _ \<Rightarrow> as_str (jget parsed ''message'')))
     | JObj m \<Rightarrow> (case jget m ''error'' of JObj errObj \<Rightarrow> as_str (jget errObj ''message'') | _ \<Rightarrow> [])
     | _ \<Rightarrow> [])"

definition describeUpstreamError :: "qoder_env \<Rightarrow> json_object \<Rightarrow> string" where
  "describeUpstreamError env frame =
    (let m = as_str (jget frame ''message''); info = detail_message env (jget frame ''details'');
         parts = filter (\<lambda>p. p \<noteq> []) [m, info]
     in if parts = [] then (bytes [0xE4, 0xB8, 0x8A, 0xE6, 0xB8, 0xB8, 0xE8, 0xBF, 0x94, 0xE5, 0x9B, 0x9E, 0xE6,
       0x9C, 0xAA, 0xE7, 0x9F, 0xA5, 0xE9, 0x94, 0x99, 0xE8, 0xAF,
       0xAF]) else truncate_bytes (join_with '' | '' parts) 500)"

definition error_delta :: "qoder_error \<Rightarrow> delta" where
  "error_delta e = no_delta\<lparr>d_Err := Some e\<rparr>"

text \<open>The usage of a frame with what is known of it.\<close>

definition usage_delta :: "json_object option \<Rightarrow> delta" where
  "usage_delta usage =
    (case usage of
       None \<Rightarrow> no_delta
     | Some u \<Rightarrow>
         no_delta\<lparr>d_Usage := Some u, d_InputTokens := fst (Totals u), d_OutputTokens := snd (Totals u),
           d_HasInputTokens := fst (KnownTotals u), d_HasOutputTokens := snd (KnownTotals u)\<rparr>)"

fun first_choice :: "json_object option \<Rightarrow> json list \<Rightarrow> delta option" where
  "first_choice usage [] = None"
| "first_choice usage (v # vs) =
    (let ch = as_obj v; finish = as_str (jget ch ''finish_reason'')
     in case jget ch ''delta'' of
          JObj m \<Rightarrow>
            let role = as_str (jget m ''role''); content = as_str (jget m ''content'');
                reasoning = as_str (jget m ''reasoning_content''); calls = as_list (jget m ''tool_calls'')
            in if role \<noteq> [] \<or> content \<noteq> [] \<or> reasoning \<noteq> [] \<or> calls \<noteq> [] \<or> finish \<noteq> []
               then Some (usage_delta usage\<lparr>d_Role := role, d_Content := content, d_Reasoning := reasoning,
                 d_ToolCalls := calls, d_FinishReason := finish\<rparr>)
               else first_choice usage vs
        | _ \<Rightarrow>
            if finish \<noteq> [] then Some (usage_delta usage\<lparr>d_FinishReason := finish\<rparr>) else first_choice usage vs)"

definition inner_delta :: "qoder_env \<Rightarrow> string \<Rightarrow> json_object \<Rightarrow> delta" where
  "inner_delta env inner m =
    (let code = businessCode (jget m ''code'')
     in if code \<noteq> [] \<and> code \<noteq> ''0'' then
          (let err = NewStreamBusinessError (qv_raw env) inner
           in error_delta (if qe_ErrType err = ''upstream_error''
             then err\<lparr>qe_Message := ''upstream error code='' @ code @ '': '' @ describeUpstreamError env m\<rparr> else err))
        else
          let usage = (case jget m ''usage'' of JObj u \<Rightarrow> Some u | _ \<Rightarrow> None)
          in case first_choice usage (as_list (jget m ''choices'')) of
               Some d \<Rightarrow> d
             | None \<Rightarrow> usage_delta usage)"

definition ExtractDelta :: "qoder_env \<Rightarrow> string \<Rightarrow> delta" where
  "ExtractDelta env dataLine =
    (case unmarshal_object (qv_json env) dataLine of
       None \<Rightarrow> no_delta
     | Some wrapper \<Rightarrow>
         (case map_of wrapper ''statusCodeValue'' of
            Some raw \<Rightarrow>
              if toEnvelopeStatus raw \<noteq> 200
              then error_delta (NewUpstreamError (qv_raw env) (toEnvelopeStatus raw) (envelopeDetail env wrapper))
              else (let inner = as_str (jget wrapper ''body'')
                    in if inner = [] then no_delta
                       else case unmarshal_object (qv_json env) inner of
                         None \<Rightarrow> no_delta | Some m \<Rightarrow> inner_delta env inner m)
          | None \<Rightarrow>
              (let inner = as_str (jget wrapper ''body'')
               in if inner = [] then no_delta
                  else case unmarshal_object (qv_json env) inner of
                    None \<Rightarrow> no_delta | Some m \<Rightarrow> inner_delta env inner m)))"

text \<open>The lines of a stream up to the first error frame: the deltas given out and that error.\<close>

fun deltaDispatcher :: "qoder_env \<Rightarrow> string list \<Rightarrow> delta list \<times> qoder_error option" where
  "deltaDispatcher env [] = ([], None)"
| "deltaDispatcher env (line # rest) =
    (if \<not> has_prefix line ''data:'' then deltaDispatcher env rest
     else
       let payload = trim_space (drop 5 line)
       in if payload = ''[DONE]'' then deltaDispatcher env rest
          else
            let d = ExtractDelta env payload
            in case d_Err d of
                 Some e \<Rightarrow> ([], Some e)
               | None \<Rightarrow>
                   let (ds, err) = deltaDispatcher env rest in (if isEmpty d then ds else d # ds, err))"

subsection \<open>Opening a stream\<close>

text \<open>
  What a send comes to: the request could not be built, the send failed (and whether the client is
  gone), the error body could not be read, another status than 200 with its body and the Retry-After
  in nanoseconds, or a stream of lines with its end. \<open>oe_cancelled\<close> and \<open>oe_gate\<close>: the client left
  during the wait before this send, in the inner and in the outer loop; \<open>oe_gone\<close>: after it.
\<close>

datatype open_result =
    Unbuilt call_error
  | SendFailed transport_error bool
  | Unread call_error
  | Refused int string int
  | Streamed "string list" "call_error option"

record open_event =
  oe_cancelled :: bool
  oe_gate :: bool
  oe_gone :: bool
  oe_result :: open_result

text \<open>The lines and the end of the stream, or the error; the number of events used.\<close>

fun openStreamLines ::
    "qoder_env \<Rightarrow> (nat \<Rightarrow> open_event) \<Rightarrow> nat \<Rightarrow> nat \<Rightarrow> (call_error + string list \<times> call_error option) \<times> nat" where
  "openStreamLines env ev left n =
    (if left < TransientMaxRetries \<and> oe_cancelled (ev n) then (Inl Cancelled, Suc n)
     else case oe_result (ev n) of
       Unbuilt e \<Rightarrow> (Inl e, Suc n)
     | SendFailed t gone \<Rightarrow>
         if gone then (Inl Cancelled, Suc n)
         else if IsTransientTransport t \<and> 0 < left then openStreamLines env ev (left - 1) (Suc n)
         else (Inl (OpenFault (WrapTransportError (qv_raw env) t)), Suc n)
     | Unread e \<Rightarrow> (Inl e, Suc n)
     | Refused status body retry \<Rightarrow>
         if IsTransientUpstream (qv_raw env) status body \<and> 0 < left then openStreamLines env ev (left - 1) (Suc n)
         else (Inl (OpenFault (UpstreamFault
           ((NewUpstreamError (qv_raw env) status body)\<lparr>qe_RetryAfter := retry\<rparr>))), Suc n)
     | Streamed ls e \<Rightarrow> (Inr (filter (\<lambda>l. l \<noteq> []) ls, e), Suc n))"

declare openStreamLines.simps [simp del]

subsection \<open>Opening it again\<close>

fun is_open_fault :: "call_error \<Rightarrow> bool" where
  "is_open_fault (OpenFault e) = True"
| "is_open_fault _ = False"

text \<open>One round: the deltas given out, each with the event it came from, the error, and the events used.\<close>

definition stream_round ::
    "qoder_env \<Rightarrow> (nat \<Rightarrow> open_event) \<Rightarrow> nat \<Rightarrow> (nat \<times> delta) list \<times> call_error option \<times> nat" where
  "stream_round env ev n =
    (case openStreamLines env ev TransientMaxRetries n of
       (Inl e, n) \<Rightarrow> ([], Some e, n)
     | (Inr (ls, end), n) \<Rightarrow>
         (case deltaDispatcher env ls of
            (ds, Some e) \<Rightarrow> (map (Pair (n - 1)) ds, Some (UpstreamFault e), n)
          | (ds, None) \<Rightarrow> (map (Pair (n - 1)) ds, if end = None \<and> ds = [] then Some EmptyStream else end, n)))"

text \<open>\<open>last\<close> is the error of the round before, None in the first.\<close>

fun reopen ::
    "qoder_env \<Rightarrow> (nat \<Rightarrow> open_event) \<Rightarrow> nat \<Rightarrow> call_error option \<Rightarrow> nat \<Rightarrow>
      (nat \<times> delta) list \<times> call_error option \<times> nat" where
  "reopen env ev left prev n =
    (if prev \<noteq> None \<and> oe_gate (ev n) then ([], prev, n)
     else
       let (given, err, n) = stream_round env ev n
       in case err of
            None \<Rightarrow> (given, None, n)
          | Some e \<Rightarrow>
              if e = EmptyStream \<or> given \<noteq> [] \<or> is_open_fault e \<or> left = 0 \<or> \<not> isRetryableStreamError (qv_raw env) e
              then (given, err, n)
              else reopen env ev (left - 1) err n)"

declare reopen.simps [simp del]

definition call_once ::
    "qoder_env \<Rightarrow> (nat \<Rightarrow> open_event) \<Rightarrow> nat \<Rightarrow> (nat \<times> delta) list \<times> call_error option \<times> nat" where
  "call_once env ev n = reopen env ev TransientMaxRetries None n"

subsection \<open>Other accounts\<close>

text \<open>
  \<open>answers\<close>: what the fallback of the request returns, call by call: an error, another account, or
  nil; after the last answer, and when there is no fallback, nil.
\<close>

fun CallQoderWithOpts ::
    "qoder_env \<Rightarrow> (nat \<Rightarrow> open_event) \<Rightarrow> (call_error + bool) list \<Rightarrow> nat \<Rightarrow>
      (nat \<times> delta) list \<times> call_error option \<times> nat" where
  "CallQoderWithOpts env ev answers n =
    (let (given, err, n) = call_once env ev n
     in if err = None \<or> given \<noteq> [] \<or> oe_gone (ev (n - 1)) then (given, err, n)
        else case answers of
          [] \<Rightarrow> (given, err, n)
        | Inl e # _ \<Rightarrow> (given, Some e, n)
        | Inr False # _ \<Rightarrow> (given, err, n)
        | Inr True # answers \<Rightarrow> CallQoderWithOpts env ev answers n)"

declare CallQoderWithOpts.simps [simp del]

subsection \<open>The result of a call\<close>

record serve_result =
  sr_UsageKnown :: bool
  sr_inputTokensKnown :: bool
  sr_outputTokensKnown :: bool
  sr_InputTokens :: int
  sr_OutputTokens :: int
  sr_Usage :: json_object
  sr_FinishReason :: string

definition serve_update :: "delta \<Rightarrow> serve_result \<times> int \<times> int \<Rightarrow> serve_result \<times> int \<times> int" where
  "serve_update d s =
    (let r = fst s; i = (sr_inputTokensKnown r \<or> d_HasInputTokens d \<or> 0 < d_InputTokens d);
         out = (sr_outputTokensKnown r \<or> d_HasOutputTokens d \<or> 0 < d_OutputTokens d)
     in (r\<lparr>sr_Usage := Merge (sr_Usage r) (case d_Usage d of None \<Rightarrow> [] | Some u \<Rightarrow> u),
           sr_FinishReason := (if d_FinishReason d \<noteq> [] then d_FinishReason d else sr_FinishReason r),
           sr_inputTokensKnown := i, sr_outputTokensKnown := out, sr_UsageKnown := i \<and> out\<rparr>, UpdateUsage d (snd s)))"

definition completionReason :: "serve_result \<Rightarrow> string \<Rightarrow> string" where
  "completionReason r fallback = (if sr_FinishReason r \<noteq> [] then sr_FinishReason r else fallback)"

definition anthropicStop :: "serve_result \<Rightarrow> string \<Rightarrow> string" where
  "anthropicStop r fallback =
    (let f = sr_FinishReason r
     in if f = ''length'' then ''max_tokens'' else if f = ''content_filter'' then ''refusal''
        else if f = ''tool_calls'' \<or> f = ''function_call'' then ''tool_use'' else if f = ''stop'' then ''end_turn''
        else fallback)"

definition anthropicUsage :: "serve_result \<Rightarrow> json_object" where
  "anthropicUsage r =
    (let (rd, wr) = ValidCache (sr_Usage r);
         fresh = wrap64 (wrap64 (sr_InputTokens r - (case rd of None \<Rightarrow> 0 | Some n \<Rightarrow> n)) - (case wr of None \<Rightarrow> 0 | Some n \<Rightarrow> n))
     in (if sr_outputTokensKnown r then [(''output_tokens'', JInt (sr_OutputTokens r))] else []) @
        (case rd of None \<Rightarrow> [] | Some n \<Rightarrow> [(''cache_read_input_tokens'', JInt n)]) @
        (case wr of None \<Rightarrow> [] | Some n \<Rightarrow> [(''cache_creation_input_tokens'', JInt n)]) @
        (if sr_inputTokensKnown r then [(''input_tokens'', JInt fresh)] else []))"

end
