(* ===== verification/QoderProps.thy ===== *)
theory QoderProps
  imports QoderCall
begin

text \<open>
  What a call of Qoder keeps: nothing is sent again after the client got a part of an answer, the sends
  are bounded, an empty stream is an error, and a refusal of the content is final.
\<close>

subsection \<open>Sends\<close>

lemma open_events:
  "openStreamLines env ev left n = (r, n') \<Longrightarrow> n < n' \<and> n' \<le> n + left + 1"
proof (induction env ev left n arbitrary: r n' rule: openStreamLines.induct)
  case (1 env ev left n)
  show ?case
  proof (cases "left < TransientMaxRetries \<and> oe_cancelled (ev n)")
    case True
    with 1(3) show ?thesis by (simp add: openStreamLines.simps [of env ev left n])
  next
    case open_now: False
    show ?thesis
    proof (cases "oe_result (ev n)")
      case (SendFailed t gone)
      show ?thesis
      proof (cases "\<not> gone \<and> IsTransientTransport t \<and> 0 < left")
        case True
        with 1(3) open_now SendFailed have "openStreamLines env ev (left - 1) (Suc n) = (r, n')"
          by (simp add: openStreamLines.simps [of env ev left n])
        from 1(1) [OF open_now SendFailed _ _ this] True show ?thesis by simp
      next
        case False
        with 1(3) open_now SendFailed show ?thesis
          by (auto simp: openStreamLines.simps [of env ev left n] split: if_split_asm)
      qed
    next
      case (Refused status body retry)
      show ?thesis
      proof (cases "IsTransientUpstream (qv_raw env) status body \<and> 0 < left")
        case True
        with 1(3) open_now Refused have "openStreamLines env ev (left - 1) (Suc n) = (r, n')"
          by (simp add: openStreamLines.simps [of env ev left n])
        from 1(2) [OF open_now Refused True this] True show ?thesis by simp
      next
        case False
        with 1(3) open_now Refused show ?thesis by (auto simp: openStreamLines.simps [of env ev left n])
      qed
    qed (use 1(3) open_now in \<open>auto simp: openStreamLines.simps [of env ev left n]\<close>)
  qed
qed

lemma dispatched_deltas: "list_all (\<lambda>d. \<not> isEmpty d \<and> d_Err d = None) (fst (deltaDispatcher env ls))"
proof (induction ls)
  case (Cons l ls)
  then show ?case by (auto simp: Let_def case_prod_beta split: option.split)
qed simp

definition log_ok :: "(nat \<times> delta) list \<times> call_error option \<times> nat \<Rightarrow> bool" where
  "log_ok r = (case r of (given, err, n) \<Rightarrow>
    list_all (\<lambda>(i, d). Suc i = n \<and> \<not> isEmpty d \<and> d_Err d = None) given \<and> (err = None \<longrightarrow> given \<noteq> []))"

lemma round_ok:
  assumes "stream_round env ev n = (given, err, n')"
  shows "log_ok (given, err, n') \<and> n < n' \<and> n' \<le> n + 3"
proof -
  obtain r m where r: "openStreamLines env ev TransientMaxRetries n = (r, m)" by fastforce
  then have m: "n < m" "m \<le> n + 3" using open_events [OF r] by (simp_all add: TransientMaxRetries_def)
  show ?thesis
  proof (cases r)
    case (Inl e)
    with r m assms show ?thesis by (auto simp: stream_round_def log_ok_def)
  next
    case (Inr b)
    obtain ls e where b: "b = (ls, e)" by fastforce
    obtain ds x where d: "deltaDispatcher env ls = (ds, x)" by fastforce
    have "list_all (\<lambda>d. \<not> isEmpty d \<and> d_Err d = None) ds" using dispatched_deltas [of env ls] d by simp
    with r Inr b d m assms show ?thesis
      by (auto simp: stream_round_def log_ok_def list.pred_map o_def list_all_iff split: option.splits if_splits)
  qed
qed

lemma reopen_ok:
  "reopen env ev left prev n = (given, err, n') \<Longrightarrow>
    log_ok (given, err, n') \<and> n \<le> n' \<and> n' \<le> n + 3 * (left + 1)"
proof (induction env ev left prev n arbitrary: given err n' rule: reopen.induct)
  case (1 env ev left prev n)
  show ?case
  proof (cases "prev \<noteq> None \<and> oe_gate (ev n)")
    case True
    with 1(2) show ?thesis by (auto simp: reopen.simps [of env ev left prev n] log_ok_def)
  next
    case go: False
    obtain l e m where r: "stream_round env ev n = (l, e, m)" by (cases "stream_round env ev n") auto
    note k = round_ok [OF r]
    show ?thesis
    proof (cases "e = None \<or> e = Some EmptyStream \<or> l \<noteq> [] \<or> is_open_fault (the e) \<or> left = 0 \<or>
        \<not> isRetryableStreamError (qv_raw env) (the e)")
      case True
      with 1(2) go r have "(given, err, n') = (l, e, m)"
        by (cases e) (auto simp: reopen.simps [of env ev left prev n] split: if_split_asm)
      with k show ?thesis by auto
    next
      case False
      then obtain x where x: "e = Some x" by auto
      with False 1(2) go r have a: "reopen env ev (left - 1) e m = (given, err, n')"
        by (auto simp: reopen.simps [of env ev left prev n] split: if_split_asm)
      have c: "\<not> (x = EmptyStream \<or> l \<noteq> [] \<or> is_open_fault x \<or> left = 0 \<or> \<not> isRetryableStreamError (qv_raw env) x)"
        using False x by simp
      from 1(1) [OF go refl r [symmetric] refl x c a] k c show ?thesis by auto
    qed
  qed
qed

lemma call_ok:
  "CallQoderWithOpts env ev answers n = (given, err, n') \<Longrightarrow>
    log_ok (given, err, n') \<and> n' \<le> n + 9 * Suc (length answers)"
proof (induction env ev answers n arbitrary: given err n' rule: CallQoderWithOpts.induct)
  case (1 env ev answers n)
  obtain l e m where r: "call_once env ev n = (l, e, m)" by (cases "call_once env ev n") auto
  then have k: "log_ok (l, e, m)" "m \<le> n + 9"
    using reopen_ok [of env ev TransientMaxRetries None n l e m] by (simp_all add: call_once_def TransientMaxRetries_def)
  show ?case
  proof (cases "e = None \<or> l \<noteq> [] \<or> oe_gone (ev (m - 1))")
    case True
    with 1(2) r k show ?thesis by (auto simp: CallQoderWithOpts.simps [of env ev answers n])
  next
    case go: False
    show ?thesis
    proof (cases answers)
      case Nil
      have "(given, err, n') = (l, e, m)"
        using 1(2) r go unfolding Nil by (auto simp: CallQoderWithOpts.simps [of env ev "[]" n])
      with k Nil show ?thesis by simp
    next
      case (Cons a rest)
      show ?thesis
      proof (cases "a = Inr True")
        case True
        have c: "CallQoderWithOpts env ev rest m = (given, err, n')"
          using 1(2) r go unfolding Cons True by (auto simp: CallQoderWithOpts.simps [of env ev "Inr True # rest" n])
        from Cons True have a: "answers = Inr True # rest" by simp
        from 1(1) [OF refl r [symmetric] refl go a refl refl c] k(2) Cons show ?thesis by simp
      next
        case False
        have "n' = m \<and> given = l \<and> err \<noteq> None"
          using 1(2) r go False unfolding Cons
          by (cases a) (auto simp: CallQoderWithOpts.simps [of env ev "Inl x # rest" n for x]
              CallQoderWithOpts.simps [of env ev "Inr False # rest" n])
        with k go Cons show ?thesis by (auto simp: log_ok_def)
      qed
    qed
  qed
qed

text \<open>C32. Whatever the upstream, the streams and the accounts that stand in answer, all deltas a
  caller is given come from the one last send of the call, none is empty or an error, every account is sent
  to at most nine times, and a call that succeeds has given out something.\<close>

theorem qoder_sends_once:
  "let (given, err, n) = CallQoderWithOpts env ev answers 0
   in list_all (\<lambda>(i, d). Suc i = n \<and> \<not> isEmpty d \<and> d_Err d = None) given \<and>
      n \<le> 9 * Suc (length answers) \<and> (if err = None then given \<noteq> [] else True)"
proof -
  obtain given err n where c: "CallQoderWithOpts env ev answers 0 = (given, err, n)"
    by (cases "CallQoderWithOpts env ev answers 0") auto
  from call_ok [OF c] c show ?thesis by (simp add: log_ok_def)
qed

subsection \<open>Final refusals\<close>

lemma contains_trim: "contains (trim_space s) p \<Longrightarrow> contains s p"
proof -
  assume c: "contains (trim_space s) p"
  obtain a where a: "s = a @ strip_all go_spaces s" using strip_all_suffix by metis
  obtain b where b: "rev (strip_all go_spaces s) = b @ rev (trim_space s)"
    using strip_all_suffix [of "rev (strip_all go_spaces s)" "map rev go_spaces"] by (auto simp: trim_space_def)
  then have "strip_all go_spaces s = trim_space s @ rev b" by (metis rev_append rev_rev_ident)
  with a have "s = a @ trim_space s @ rev b" by metis
  moreover obtain x y where "trim_space s = x @ p @ y" using c by (auto simp: contains_iff)
  ultimately have "s = (a @ x) @ p @ (y @ rev b)" by simp
  then show ?thesis unfolding contains_iff by blast
qed

lemma policy_trim: "IsContentPolicy (trim_space s) \<Longrightarrow> IsContentPolicy s"
  by (auto simp: IsContentPolicy_def containsAny_def list_ex_iff intro: contains_trim)

lemma policy_not_transient: "IsContentPolicy s \<Longrightarrow> \<not> IsTransientUpstream rc code s"
  by (auto simp: IsTransientUpstream_def IsContentPolicy_def containsAny_def clientFaultMarkers_def)

lemma resource_kinds:
  "resourceFailureForStatus rc code s \<in> {[], ''upstream_queued'', ''workspace_quota'', ''call_count_limit'', ''resource_limit''}"
  by (simp add: resourceFailureForStatus_def resourceFailure_def Let_def)

text \<open>C33. The status of an upstream error is a client or server error, and a refusal by content
  policy is neither retried nor tried with another account and is a 400, unless a limit of resources explains
  it.\<close>

theorem content_refusal_final:
  "let e = UpstreamFault (NewUpstreamError rc code info); kind = resourceFailureForStatus rc code (trim_space info)
   in 400 \<le> ErrorStatus e \<and> ErrorStatus e \<le> 599 \<and>
      (if IsContentPolicy (trim_space info)
       then \<not> isRetryableStreamError rc e \<and> \<not> canFailover rc dns e \<and>
         (if kind = [] then ErrorStatus e = 400
          else if kind = ''resource_limit'' then ErrorStatus e = 403 else ErrorStatus e = 429)
       else True)"
proof -
  let ?e = "NewUpstreamError rc code info" and ?kind = "resourceFailureForStatus rc code (trim_space info)"
  have d: "qe_Detail ?e = info" "qe_Status ?e = code" by (simp_all add: NewUpstreamError_def case_prod_beta)
  have t: "qe_ErrType ?e = (if ?kind \<noteq> [] then ?kind
      else if IsContentPolicy (trim_space info) then ''content_policy_rejected''
      else if IsTransientUpstream rc code (trim_space info) \<or>
          (contains (trim_space info) ''provider_error'' \<and> \<not> contains (trim_space info) ''invalid_'')
      then ''upstream_transient_error'' else ''upstream_error'')"
    by (simp add: NewUpstreamError_def FriendlyUpstreamError_def Let_def)
  have b: "400 \<le> ErrorStatus (UpstreamFault ?e) \<and> ErrorStatus (UpstreamFault ?e) \<le> 599"
    by (simp add: ErrorStatus_def Let_def)
  show ?thesis
  proof (cases "IsContentPolicy (trim_space info)")
    case True
    then have p: "IsContentPolicy info" by (rule policy_trim)
    have r: "\<not> isRetryableStreamError rc (UpstreamFault ?e)" "\<not> canFailover rc dns (UpstreamFault ?e)"
      using p policy_not_transient [OF p] by (simp_all add: isRetryableStreamError_def canFailover_def Let_def d)
    have "if ?kind = [] then ErrorStatus (UpstreamFault ?e) = 400
        else if ?kind = ''resource_limit'' then ErrorStatus (UpstreamFault ?e) = 403 else ErrorStatus (UpstreamFault ?e) = 429"
      using resource_kinds [of rc code "trim_space info"] True by (auto simp: ErrorStatus_def Let_def t)
    with b r show ?thesis by (simp add: Let_def)
  next
    case False
    with b show ?thesis by (simp add: Let_def)
  qed
qed

text \<open>
  A rejected credential or a rate limit whose body names a provider error is not sent again, and
  yet it is reported as a transient fault for which the gateway had tried again.
\<close>

lemma provider_error_misreported:
  "map (\<lambda>code. let e = UpstreamFault (NewUpstreamError rc code ''provider_error'')
      in (isRetryableStreamError rc e, snd (FriendlyError e), ErrorStatus e)) [401, 403, 429] =
    replicate 3 (False, ''upstream_transient_error'', 502)"
proof -
  have t: "trim_space ''provider_error'' = ''provider_error''" by (rule trim_space_printable) (simp add: printable_def)
  have w: "resourceFailure rc ''provider_error'' = []"
  proof -
    have "walk_limits rc (Suc 4) ''provider_error'' b st = st" for b st
      unfolding walk_limits.simps by (simp add: t has_prefix_def)
    then have "walk_limits rc 5 ''provider_error'' b st = st" for b st by simp
    then show ?thesis by (simp add: resourceFailure_def Let_def)
  qed
  moreover have "\<not> containsAny ''provider_error'' clientFaultMarkers" "\<not> IsContentPolicy ''provider_error''"
      "contains ''provider_error'' ''provider_error''" "\<not> contains ''provider_error'' ''invalid_''"
    by code_simp+
  ultimately show ?thesis
    by (simp add: resourceFailureForStatus_def isRetryableStreamError_def FriendlyError_def ErrorStatus_def Let_def
        NewUpstreamError_def FriendlyUpstreamError_def t IsTransientUpstream_def numeral_3_eq_3)
qed

end
