(* ===== verification/QoderMessages.thy ===== *)
theory QoderMessages
  imports Efforts GoText "HOL-Library.List_Lexorder"
begin

text \<open>
  The messages of a Qoder request: internal/qoder/bridge/messages.go, and the redaction of logged bodies,
  the options and the mapping of models of bridge.go. A message that the code changes in place is
  returned changed; nil messages are None.
\<close>

subsection \<open>Blocks\<close>

definition StrVal :: "json_object \<Rightarrow> string \<Rightarrow> string" where
  "StrVal m k = as_str (jget m k)"

definition StrValDefault :: "json_object \<Rightarrow> string \<Rightarrow> string \<Rightarrow> string" where
  "StrValDefault m k d = (if StrVal m k \<noteq> [] then StrVal m k else d)"

fun text_blocks :: "string \<Rightarrow> json list \<Rightarrow> string \<Rightarrow> string" where
  "text_blocks sep [] str = str"
| "text_blocks sep (v # vs) str =
    (case jget (as_obj v) ''text'' of
       JStr t \<Rightarrow> text_blocks sep vs ((if str \<noteq> [] then str @ sep else str) @ t)
     | _ \<Rightarrow> text_blocks sep vs str)"

definition textBlocks :: "json list \<Rightarrow> string \<Rightarrow> string" where
  "textBlocks vs sep = text_blocks sep vs []"

definition HasBlockType :: "json list \<Rightarrow> string \<Rightarrow> bool" where
  "HasBlockType vs kind = list_ex (\<lambda>v. jget (as_obj v) ''type'' = JStr kind) vs"

definition image_part :: "string \<Rightarrow> json list" where
  "image_part url =
    (if url = [] then []
     else [JObj [(''type'', JStr ''image_url''), (''image_url'', JObj [(''url'', JStr url)])]])"

definition text_part :: "string \<Rightarrow> json" where
  "text_part t = JObj [(''type'', JStr ''text''), (''text'', JStr t)]"

definition image_reference :: "json \<Rightarrow> json list" where
  "image_reference v = (case v of JObj m \<Rightarrow> image_part (StrVal m ''url'') | JStr s \<Rightarrow> image_part s | _ \<Rightarrow> [])"

definition image_source :: "json_object \<Rightarrow> json list" where
  "image_source src =
    (if StrVal src ''type'' = ''url'' then image_part (StrVal src ''url'')
     else let data = StrVal src ''data''
          in if data = [] then []
             else image_part (''data:'' @ StrValDefault src ''media_type'' ''image/png'' @ '';base64,'' @ data))"

text \<open>The parts one block becomes.\<close>

definition content_parts :: "json \<Rightarrow> json list" where
  "content_parts v =
    (let b = as_obj v; kind = jget b ''type''
     in if kind = JStr ''text'' \<or> kind = JStr ''input_text'' \<or> kind = JStr ''output_text'' then
          (case jget b ''text'' of JStr t \<Rightarrow> [text_part t] | _ \<Rightarrow> [])
        else if kind = JStr ''image_url'' \<or> kind = JStr ''input_image'' then image_reference (jget b ''image_url'')
        else if kind = JStr ''image'' then image_source (as_obj (jget b ''source''))
        else [])"

definition is_image_part :: "json \<Rightarrow> bool" where
  "is_image_part v = (jget (as_obj v) ''type'' = JStr ''image_url'')"

definition imageContentParts :: "json list \<Rightarrow> json list \<times> bool" where
  "imageContentParts vs = (let parts = concat (map content_parts vs) in (parts, list_ex is_image_part parts))"

subsection \<open>Messages\<close>

definition zeros :: "string list \<Rightarrow> json_object" where
  "zeros ks = map (\<lambda>k. (k, JInt 0)) ks"

definition BlankResponseMeta :: json where
  "BlankResponseMeta =
    JObj [(''id'', JStr []),
      (''usage'', JObj (zeros [''prompt_tokens'', ''completion_tokens'', ''total_tokens''] @
        [(''completion_tokens_details'', JObj (zeros [''reasoning_tokens''])),
         (''prompt_tokens_details'', JObj (zeros [''cached_tokens'']))]))]"

definition message_tail :: json_object where
  "message_tail = [(''response_meta'', BlankResponseMeta), (''reasoning_content_signature'', JStr [])]"

definition BuildUserMessage :: "string \<Rightarrow> json_object" where
  "BuildUserMessage str =
    [(''role'', JStr ''user''), (''content'', JStr []), (''contents'', JList [text_part str])] @ message_tail"

definition BuildStructuredMessage :: "string \<Rightarrow> string \<Rightarrow> json_object" where
  "BuildStructuredMessage role str = [(''role'', JStr role), (''content'', JStr str)] @ message_tail"

definition NormalizeMessageContent :: "json_codec \<Rightarrow> json_object \<Rightarrow> string" where
  "NormalizeMessageContent jc msg =
    (case jget msg ''content'' of
       JStr s \<Rightarrow> s
     | JNull \<Rightarrow> []
     | JList vs \<Rightarrow> textBlocks vs (replicate 2 (CHR 0x0A))
     | v \<Rightarrow> (case jc_marshal jc v of None \<Rightarrow> [] | Some s \<Rightarrow> s))"

definition text_of_blocks :: "json list \<Rightarrow> string" where
  "text_of_blocks vs =
    concat (map (\<lambda>v. if jget (as_obj v) ''type'' = JStr ''text'' then as_str (jget (as_obj v) ''text'') else []) vs)"

definition tool_use_call :: "json_codec \<Rightarrow> json_object \<Rightarrow> json" where
  "tool_use_call jc b =
    JObj [(''id'', jget b ''id''), (''type'', JStr ''function''),
      (''function'', JObj [(''name'', jget b ''name''),
        (''arguments'', JStr (case jc_marshal jc (jget b ''input'') of None \<Rightarrow> [] | Some s \<Rightarrow> s))])]"

definition tool_use_message :: "json_codec \<Rightarrow> json list \<Rightarrow> json_object" where
  "tool_use_message jc vs =
    (let calls = map (\<lambda>v. tool_use_call jc (as_obj v)) (filter (\<lambda>v. jget (as_obj v) ''type'' = JStr ''tool_use'') vs)
     in [(''role'', JStr ''assistant''), (''content'', JStr (text_of_blocks vs))] @
        (if calls \<noteq> [] then [(''tool_calls'', JList calls)] else []))"

definition thinking_first :: "json list \<Rightarrow> bool" where
  "thinking_first vs =
    (case vs of
       [] \<Rightarrow> False
     | v # _ \<Rightarrow> as_str (jget (as_obj v) ''type'') \<in> {''thinking'', ''redacted_thinking''})"

text \<open>
  \<open>ConvertIncomingMessage\<close> without its branch for results of tools, which calls the function that makes
  replies, which in turn converts a message that has no such blocks.
\<close>

definition convert_plain :: "json_codec \<Rightarrow> json_object \<Rightarrow> bool \<Rightarrow> json_object option" where
  "convert_plain jc msg toolsEnabled =
    (let role = StrVal msg ''role''; str = NormalizeMessageContent jc msg;
         (parts, hasImage) = imageContentParts (as_list (jget msg ''content''))
     in if role = ''user'' \<and> hasImage
        then Some ([(''role'', JStr ''user''), (''content'', JList parts)] @ message_tail)
        else if role = ''assistant'' \<and> toolsEnabled \<and> map_of msg ''tool_calls'' \<noteq> None
        then Some (jset ''tool_calls'' (jget msg ''tool_calls'') (BuildStructuredMessage ''assistant'' str))
        else if role = ''tool'' then
          (let reply = BuildStructuredMessage ''tool'' str;
               reply = (case jget msg ''name'' of JStr n \<Rightarrow> jset ''name'' (JStr n) reply | _ \<Rightarrow> reply)
           in Some (case jget msg ''tool_call_id'' of JStr n \<Rightarrow> jset ''tool_call_id'' (JStr n) reply | _ \<Rightarrow> reply))
        else if str = [] then None
        else Some (if role = ''user'' then BuildUserMessage str else BuildStructuredMessage role str))"

definition convert_blocks :: "json_codec \<Rightarrow> json_object \<Rightarrow> bool \<Rightarrow> json_object option" where
  "convert_blocks jc msg toolsEnabled =
    (let role = StrVal msg ''role''; vs = as_list (jget msg ''content'')
     in if role = ''assistant'' \<and> HasBlockType vs ''tool_use'' then Some (tool_use_message jc vs)
        else if thinking_first vs
        then (if text_of_blocks vs = [] then None else Some (BuildStructuredMessage role (text_of_blocks vs)))
        else convert_plain jc msg toolsEnabled)"

definition copy_key :: "json_object \<Rightarrow> string \<Rightarrow> json_object \<Rightarrow> json_object" where
  "copy_key src k m = (case map_of src k of None \<Rightarrow> m | Some v \<Rightarrow> jset k v m)"

definition marker :: string where
  "marker = ''_tool_image_attachment''"

definition attachment_parts :: "json_object \<Rightarrow> json list \<Rightarrow> json list" where
  "attachment_parts tool parts =
    text_part (''Images returned by tool call '' @ StrVal tool ''tool_call_id'' @ '':'') # filter is_image_part parts"

definition toolReplyWithImages :: "json_codec \<Rightarrow> json_object \<Rightarrow> json_object \<times> json_object option" where
  "toolReplyWithImages jc tool =
    (let reply = copy_key tool ''name'' (copy_key tool ''tool_call_id''
           (BuildStructuredMessage ''tool'' (NormalizeMessageContent jc tool)))
     in case jget tool ''content'' of
          JList vs \<Rightarrow>
            let reply = jset ''content'' (JStr (textBlocks vs [CHR 0x0A])) reply;
                (parts, images) = imageContentParts vs
            in if \<not> images then (reply, None)
               else (reply, map_option (jset marker (JBool True)) (convert_blocks jc
                 [(''role'', JStr ''user''), (''content'', JList (attachment_parts tool parts))] False))
        | JNull \<Rightarrow> (jset ''content'' (JStr []) reply, None)
        | _ \<Rightarrow> (reply, None))"

definition result_message :: "json_object \<Rightarrow> json_object" where
  "result_message b =
    [(''role'', JStr ''tool''), (''tool_call_id'', jget b ''tool_use_id''), (''content'', jget b ''content'')]"

definition is_result :: "json \<Rightarrow> bool" where
  "is_result v = (jget (as_obj v) ''type'' = JStr ''tool_result'')"

definition ConvertIncomingMessage :: "json_codec \<Rightarrow> json_object \<Rightarrow> bool \<Rightarrow> json_object option" where
  "ConvertIncomingMessage jc msg toolsEnabled =
    (if StrVal msg ''role'' = ''user'' then
       (case filter is_result (as_list (jget msg ''content'')) of
          v # _ \<Rightarrow> Some (fst (toolReplyWithImages jc (result_message (as_obj v))))
        | [] \<Rightarrow> convert_blocks jc msg toolsEnabled)
     else convert_blocks jc msg toolsEnabled)"

subsection \<open>The sequence of messages\<close>

definition is_attachment :: "json_object \<Rightarrow> bool" where
  "is_attachment m = (jget m marker = JBool True)"

fun order_attachments :: "json_object list \<Rightarrow> json_object list \<Rightarrow> json_object list" where
  "order_attachments [] pending = pending"
| "order_attachments (m # ms) pending =
    (if is_attachment m then order_attachments ms (pending @ [jdelete marker m])
     else if jget m ''role'' \<noteq> JStr ''tool'' then pending @ m # order_attachments ms []
     else m # order_attachments ms pending)"

definition orderToolAttachments :: "json_object list \<Rightarrow> json_object list" where
  "orderToolAttachments ms = order_attachments ms []"

definition normalize_outbound :: "json_object \<Rightarrow> json_object" where
  "normalize_outbound m =
    (let m = (if jget m ''tool_calls'' \<noteq> JNull \<and> jget m ''content'' = JNull then jset ''content'' (JStr []) m else m)
     in if jget m ''role'' = JStr ''developer'' then jset ''role'' (JStr ''system'') (jdelete ''tool_calls'' m) else m)"

definition deep_copy :: "json_codec \<Rightarrow> json_object \<Rightarrow> json_object" where
  "deep_copy jc m =
    (case jc_marshal jc (JObj m) of
       None \<Rightarrow> []
     | Some s \<Rightarrow> (case unmarshal_object jc s of None \<Rightarrow> [] | Some m' \<Rightarrow> m'))"

definition objects :: "json list \<Rightarrow> json_object list" where
  "objects vs = List.map_filter (\<lambda>v. case v of JObj m \<Rightarrow> Some m | _ \<Rightarrow> None) vs"

definition user_results :: "json_codec \<Rightarrow> json list \<Rightarrow> bool \<Rightarrow> json_object list" where
  "user_results jc vs toolsEnabled =
    (let rs = map (\<lambda>v. toolReplyWithImages jc (result_message (as_obj v))) (filter is_result vs);
         siblings = filter (\<lambda>v. \<not> is_result v) vs
     in map fst rs @ List.map_filter snd rs @
        (case ConvertIncomingMessage jc [(''role'', JStr ''user''), (''content'', JList siblings)] toolsEnabled of
           None \<Rightarrow> [] | Some m \<Rightarrow> [m]))"

definition incoming_messages :: "json_codec \<Rightarrow> bool \<Rightarrow> json_object \<Rightarrow> json_object list" where
  "incoming_messages jc toolsEnabled m =
    (let vs = as_list (jget m ''content'')
     in if jget m ''role'' = JStr ''user'' \<and> list_ex is_result vs then user_results jc vs toolsEnabled
        else if jget m ''role'' = JStr ''tool'' \<and> snd (imageContentParts vs) then
          (case toolReplyWithImages jc m of (reply, img) \<Rightarrow> reply # (case img of None \<Rightarrow> [] | Some i \<Rightarrow> [i]))
        else (case ConvertIncomingMessage jc m toolsEnabled of None \<Rightarrow> [] | Some c \<Rightarrow> [c]))"

definition BuildQoderMessages ::
    "json_codec \<Rightarrow> json list \<Rightarrow> json list \<Rightarrow> string \<Rightarrow> bool \<Rightarrow> json_object list" where
  "BuildQoderMessages jc templates incoming prompt toolsEnabled =
    (let is_system = (\<lambda>m. jget m ''role'' = JStr ''system'');
         lead = (if list_ex is_system (objects incoming) then []
                 else map (deep_copy jc) (filter is_system (objects templates)));
         rebuilt = lead @ concat (map (incoming_messages jc toolsEnabled) (objects incoming));
         rebuilt = (if rebuilt = [] \<and> prompt \<noteq> [] then [BuildUserMessage prompt] else rebuilt)
     in map normalize_outbound (orderToolAttachments rebuilt))"

definition ExtractLatestUserPrompt :: "json_codec \<Rightarrow> json list \<Rightarrow> string" where
  "ExtractLatestUserPrompt jc msgs =
    (case List.find (\<lambda>v. jget (as_obj v) ''role'' = JStr ''user'') (rev msgs) of
       None \<Rightarrow> [] | Some v \<Rightarrow> NormalizeMessageContent jc (as_obj v))"

subsection \<open>Options and models\<close>

record call_opts =
  co_ReasoningSet :: bool
  co_ReasoningEffort :: string
  co_IsReasoning :: bool
  co_MaxTokens :: int

definition requestCallOpts :: "json_object \<Rightarrow> call_opts" where
  "requestCallOpts req =
    (let (enabled, specified) = ReasoningEnabled req
     in \<lparr>co_ReasoningSet = specified, co_ReasoningEffort = ExplicitReasoningEffort req, co_IsReasoning = enabled,
         co_MaxTokens =
           (case List.map_filter (\<lambda>k. numericValue (jget req k)) [''max_output_tokens'', ''max_completion_tokens'', ''max_tokens''] of
              [] \<Rightarrow> 0 | n # _ \<Rightarrow> n)\<rparr>)"

text \<open>A table is the list of its entries in the order that the sort leaves to entries of one length.\<close>

definition lookupMapping :: "string \<Rightarrow> (string \<times> string) list \<Rightarrow> string" where
  "lookupMapping model table =
    (case map_of table model of
       Some (c # cs) \<Rightarrow> c # cs
     | _ \<Rightarrow>
         let pairs = sort_key (\<lambda>p. - int (length (fst p))) (filter (\<lambda>p. fst p \<noteq> [] \<and> snd p \<noteq> []) table);
             mLow = to_lower model
         in case List.find (\<lambda>p. contains mLow (to_lower (fst p)) \<or> contains (to_lower (fst p)) mLow) pairs of
              Some p \<Rightarrow> snd p
            | None \<Rightarrow> [])"

definition defaultModelMapping :: "(string \<times> string) list" where
  "defaultModelMapping =
    [(''opus'', ''qmodel_38max''), (''sonnet'', ''gmodel''), (''haiku'', ''qfmodel''), (''gpt'', ''dmodel''), (''gemini'', ''gmodel'')]"

text \<open>\<open>settings\<close>: the tables by agent and the flat table, None when they could not be loaded.\<close>

definition MapModel ::
    "((string \<times> (string \<times> string) list) list \<times> (string \<times> string) list) option \<Rightarrow> string \<Rightarrow> string \<Rightarrow> string" where
  "MapModel settings agent model =
    (if model = [] then model
     else
       let of_agent = (case settings of
               Some (tables, _) \<Rightarrow>
                 if agent = [] then []
                 else (case map_of tables agent of None \<Rightarrow> [] | Some t \<Rightarrow> lookupMapping model t)
             | None \<Rightarrow> []);
           flat = (case settings of Some (_, t) \<Rightarrow> lookupMapping model t | None \<Rightarrow> []);
           default = lookupMapping model defaultModelMapping
       in if of_agent \<noteq> [] then of_agent else if flat \<noteq> [] then flat else if default \<noteq> [] then default
          else to_lower model)"

definition InferAgent :: "string \<Rightarrow> string" where
  "InferAgent model =
    (let low = to_lower model
     in if contains low ''gemini'' then ''gemini''
        else if contains low ''claude'' \<or> contains low ''sonnet'' \<or> contains low ''opus'' \<or> contains low ''haiku''
        then ''claude'' else ''codex'')"

subsection \<open>The redaction of logged bodies\<close>

definition sensitiveFieldNames :: "string list" where
  "sensitiveFieldNames = [''content'', ''text'', ''system'', ''input'', ''instructions'', ''prompt'', ''description'']"

definition redacted :: "bool \<Rightarrow> string \<Rightarrow> json" where
  "redacted sensitive s =
    (if sensitive \<and> 32 < length s then JStr (''<redacted len='' @ itoa (int (length s)) @ ''>'') else JStr s)"

fun redactValue :: "string \<Rightarrow> json \<Rightarrow> json"
  and redact_members :: "string \<Rightarrow> (string \<times> json) list \<Rightarrow> (string \<times> json) list"
  and redact_items :: "string \<Rightarrow> json list \<Rightarrow> json list" where
  "redactValue parent (JObj m) = JObj (redact_members parent m)"
| "redactValue parent (JList vs) = JList (redact_items parent vs)"
| "redactValue parent v = v"
| "redact_members parent [] = []"
| "redact_members parent ((k, v) # ms) =
    (k, case v of
          JStr s \<Rightarrow> redacted (k \<in> set sensitiveFieldNames \<or> parent \<in> set sensitiveFieldNames) s
        | _ \<Rightarrow> redactValue k v) # redact_members parent ms"
| "redact_items parent [] = []"
| "redact_items parent (v # vs) =
    (case v of
       JStr s \<Rightarrow> redacted (parent \<in> set sensitiveFieldNames) s
     | _ \<Rightarrow> redactValue parent v) # redact_items parent vs"

definition RedactRequestBodyJSON :: "json_codec \<Rightarrow> string \<Rightarrow> string" where
  "RedactRequestBodyJSON jc raw =
    (case jc_unmarshal jc raw of
       None \<Rightarrow> raw
     | Some v \<Rightarrow> (case jc_marshal jc (redactValue [] v) of None \<Rightarrow> raw | Some out \<Rightarrow> out))"

subsection \<open>The model catalogue\<close>

record qoder_model =
  qm_efforts :: "string list"
  qm_canDisable :: bool
  qm_tiers :: "(string \<times> int \<times> bool) list"
  qm_Key :: string
  qm_DisplayName :: string
  qm_IsDefault :: bool
  qm_IsReasoning :: bool
  qm_IsVL :: bool
  qm_ContextWindow :: int
  qm_MaxOutputTokens :: int
  qm_MaxInputTokens :: int
  qm_PriceFactor :: "f64 option"

definition effort_names :: "json \<Rightarrow> string list" where
  "effort_names v =
    (case v of
       JObj m \<Rightarrow> map fst m
     | JList vs \<Rightarrow> List.map_filter (\<lambda>v. case v of JStr s \<Rightarrow> Some s | _ \<Rightarrow> None) vs
     | _ \<Rightarrow> [])"

definition readThinkingConfig :: "json_object \<Rightarrow> string list \<times> bool" where
  "readThinkingConfig model =
    (let (source, canDisable) =
       (case jget model ''thinking_config'' of
          JObj config \<Rightarrow>
            (jget (as_obj (jget config ''enabled'')) ''efforts'',
             case jget config ''disabled'' of JBool b \<Rightarrow> b | JObj _ \<Rightarrow> True | _ \<Rightarrow> False)
        | _ \<Rightarrow> (jget model ''reasoning_efforts'', False))
     in (filter (\<lambda>e. e \<in> set (effort_names source)) [''minimal'', ''low'', ''medium'', ''high'', ''xhigh'', ''max''], canDisable))"

definition float_val :: "json_object \<Rightarrow> string \<Rightarrow> f64" where
  "float_val m k = (case jget m k of JNum x \<Rightarrow> x | _ \<Rightarrow> Fin 0)"

definition context_tier :: "string \<times> json \<Rightarrow> (string \<times> int \<times> bool) option" where
  "context_tier e =
    (case snd e of
       JObj cfg \<Rightarrow>
         let n = float_val cfg ''token_count''
         in if fle n (Fin 0) \<or> flt (Fin (2 ^ 30)) n \<or> isNaN n \<or> isInf n then None
            else Some (fst e, int_of_float n, as_bool (jget cfg ''is_default''))
     | _ \<Rightarrow> None)"

definition tier_less :: "string \<times> int \<times> bool \<Rightarrow> string \<times> int \<times> bool \<Rightarrow> bool" where
  "tier_less a b = (fst (snd a) < fst (snd b) \<or> (fst (snd a) = fst (snd b) \<and> map of_char (fst a) \<le> (map of_char (fst b) :: nat list)))"

fun insert_tier :: "string \<times> int \<times> bool \<Rightarrow> (string \<times> int \<times> bool) list \<Rightarrow> (string \<times> int \<times> bool) list" where
  "insert_tier t [] = [t]"
| "insert_tier t (u # us) = (if tier_less t u then t # u # us else u # insert_tier t us)"

definition context_tiers :: "json_object \<Rightarrow> (string \<times> int \<times> bool) list" where
  "context_tiers m = foldr insert_tier (List.map_filter context_tier (as_obj (jget m ''context_config''))) []"

definition context_window :: "json_object \<Rightarrow> int" where
  "context_window m =
    (let tiers = context_tiers m;
         marked = (case List.find (\<lambda>t. snd (snd t)) tiers of None \<Rightarrow> 0 | Some t \<Rightarrow> fst (snd t));
         w = (if marked = 0 \<and> tiers \<noteq> [] then fst (snd (last tiers)) else marked)
     in if w = 0 then int_of_float (float_val m ''max_input_tokens'') else w)"

definition extract_model :: "json_object \<Rightarrow> qoder_model option" where
  "extract_model m =
    (if (case map_of m ''enable'' of None \<Rightarrow> True | Some v \<Rightarrow> as_bool v)
     then Some \<lparr>qm_efforts = fst (readThinkingConfig m), qm_canDisable = snd (readThinkingConfig m),
       qm_tiers = context_tiers m, qm_Key = StrVal m ''key'', qm_DisplayName = StrVal m ''display_name'',
       qm_IsDefault = as_bool (jget m ''is_default''), qm_IsReasoning = as_bool (jget m ''is_reasoning''),
       qm_IsVL = as_bool (jget m ''is_vl''), qm_ContextWindow = context_window m,
       qm_MaxOutputTokens = (if as_bool (jget m ''is_reasoning'') then 32768 else 16384),
       qm_MaxInputTokens = int_of_float (float_val m ''max_input_tokens''),
       qm_PriceFactor = (case jget m ''price_factor'' of
           JNum x \<Rightarrow> if fle (Fin 0) x \<and> \<not> isNaN x \<and> \<not> isInf x then Some x else None
         | _ \<Rightarrow> None)\<rparr>
     else None)"

definition extractModels :: "json list \<Rightarrow> qoder_model list" where
  "extractModels vs = List.map_filter extract_model (objects vs)"

definition parseQoderModels :: "json_object \<Rightarrow> qoder_model list" where
  "parseQoderModels resp =
    (case List.find (\<lambda>vs. vs \<noteq> []) (map (\<lambda>cat. as_list (jget resp cat)) [''assistant'', ''developer'', ''chat'']) of
       None \<Rightarrow> [] | Some vs \<Rightarrow> extractModels vs)"

definition ReasoningMetadata :: "qoder_model \<Rightarrow> json" where
  "ReasoningMetadata m =
    (if \<not> qm_IsReasoning m \<and> qm_efforts m = [] \<and> \<not> qm_canDisable m then JNull
     else JObj [(''supportsReasoning'', JBool True), (''supportedEfforts'', JList (map JStr (qm_efforts m))),
       (''canDisableThinking'', JBool (qm_canDisable m))])"

text \<open>What \<open>ListAvailableModelsContext\<close> makes of the answer: an answer without any list is an error (None).\<close>

definition retiredModelKeys :: "string list" where
  "retiredModelKeys = [''gm51model'', ''kmodel'', ''mmodel'']"

definition dropRetiredModels :: "qoder_model list \<Rightarrow> qoder_model list" where
  "dropRetiredModels models = filter (\<lambda>m. qm_Key m \<notin> set retiredModelKeys) models"

definition decodeModelCatalog :: "json_object \<Rightarrow> qoder_model list option" where
  "decodeModelCatalog resp =
    (if list_ex (\<lambda>cat. case jget resp cat of JList _ \<Rightarrow> True | _ \<Rightarrow> False) [''assistant'', ''developer'', ''chat'']
     then Some (parseQoderModels resp) else None)"

definition thinking_catalog :: "qoder_model list \<Rightarrow> (string \<times> string list \<times> bool) list" where
  "thinking_catalog models =
    fold (\<lambda>m t. if qm_efforts m \<noteq> [] \<or> qm_canDisable m then AList.update (qm_Key m) (qm_efforts m, qm_canDisable m) t else t)
      models []"

definition ListAvailableModels ::
    "json_object \<Rightarrow> (qoder_model list \<times> (string \<times> string list \<times> bool) list) option" where
  "ListAvailableModels resp =
    map_option (\<lambda>models. (dropRetiredModels models, thinking_catalog (dropRetiredModels models))) (decodeModelCatalog resp)"

end
