(* ===== verification/QoderMessageProps.thy ===== *)
theory QoderMessageProps
  imports QoderMessages
begin

text \<open>
  What Qoder is sent: the images of tool results behind their whole run of results, in order, and no
  message of a shape that the upstream refuses; and what the redaction of logged bodies leaves readable.
\<close>

subsection \<open>Attachments\<close>

definition in_run :: "json_object \<Rightarrow> bool" where
  "in_run m = (is_attachment m \<or> jget m ''role'' = JStr ''tool'')"

text \<open>The reference: run by run, the results first, then the images, then the message that ends the run.\<close>

function by_runs :: "json_object list \<Rightarrow> json_object list" where
  "by_runs ms =
    (let seg = takeWhile in_run ms
     in filter (\<lambda>m. \<not> is_attachment m) seg @ map (jdelete marker) (filter is_attachment seg) @
        (case dropWhile in_run ms of [] \<Rightarrow> [] | m # rest \<Rightarrow> m # by_runs rest))"
  by pat_completeness auto
termination
proof (relation "measure length", goal_cases)
  case (2 ms x m rest)
  then have "length (m # rest) \<le> length ms" by (metis length_dropWhile_le)
  then show ?case by simp
qed simp

declare by_runs.simps [simp del]

lemma order_run:
  "list_all in_run seg \<Longrightarrow>
    order_attachments (seg @ ms) pending =
      filter (\<lambda>m. \<not> is_attachment m) seg @ order_attachments ms (pending @ map (jdelete marker) (filter is_attachment seg))"
  by (induction seg arbitrary: pending) (auto simp: in_run_def)

text \<open>The one pass that orders images of tools is the segmentation into runs: the results of
  a run of tool messages stay together, and the images they returned follow right after the run.\<close>

theorem attachments_follow_runs: "orderToolAttachments ms = by_runs ms"
  unfolding orderToolAttachments_def
proof (induction ms rule: by_runs.induct)
  case (1 ms)
  let ?seg = "takeWhile in_run ms"
  have r: "order_attachments ms [] =
      filter (\<lambda>m. \<not> is_attachment m) ?seg @ order_attachments (dropWhile in_run ms) (map (jdelete marker) (filter is_attachment ?seg))"
  proof -
    have "list_all in_run ?seg" by (auto simp: list_all_iff dest: set_takeWhileD)
    from order_run [OF this, of "dropWhile in_run ms" "[]"] show ?thesis
      by (simp only: takeWhile_dropWhile_id append_Nil)
  qed
  show ?case
  proof (cases "dropWhile in_run ms")
    case Nil
    show ?thesis unfolding r unfolding Nil by_runs.simps [of ms] Let_def by simp
  next
    case (Cons m rest)
    then have "\<not> in_run m" by (simp add: dropWhile_eq_Cons_conv)
    then have m: "\<not> is_attachment m" "jget m ''role'' \<noteq> JStr ''tool''" by (simp_all add: in_run_def)
    from 1 [OF refl Cons] have "order_attachments rest [] = by_runs rest" .
    with m show ?thesis unfolding r unfolding Cons by_runs.simps [of ms] Let_def by simp
  qed
qed

subsection \<open>Shapes\<close>

definition sendable :: "json_object \<Rightarrow> bool" where
  "sendable m =
    (jget m ''role'' \<noteq> JStr ''developer'' \<and> \<not> is_attachment m \<and>
     (jget m ''content'' = JNull \<longrightarrow> jget m ''tool_calls'' = JNull))"

lemma ordered_unmarked: "list_all (\<lambda>m. \<not> is_attachment m) pending \<Longrightarrow> list_all (\<lambda>m. \<not> is_attachment m) (order_attachments ms pending)"
  by (induction ms pending rule: order_attachments.induct) (auto simp: is_attachment_def)

lemma normalized_sendable: "\<not> is_attachment m \<Longrightarrow> sendable (normalize_outbound m)"
  by (simp add: sendable_def normalize_outbound_def Let_def is_attachment_def marker_def)

text \<open>No message that is sent has the role developer, the marker of an attachment, or calls
  without content, and a prompt is never sent as an empty conversation.\<close>

theorem qoder_messages_sendable:
  "list_all (\<lambda>m. jget m ''role'' \<noteq> JStr ''developer'' \<and> \<not> is_attachment m \<and>
      (if jget m ''content'' = JNull then jget m ''tool_calls'' = JNull else True))
    (BuildQoderMessages jc templates incoming prompt toolsEnabled) \<and>
   (if prompt = [] then True else BuildQoderMessages jc templates incoming prompt toolsEnabled \<noteq> [])"
proof -
  have s: "list_all sendable (map normalize_outbound (orderToolAttachments ms))" for ms
    using ordered_unmarked [of "[]" ms] by (auto simp: orderToolAttachments_def list_all_iff normalized_sendable)
  have n: "order_attachments ms pending = [] \<longleftrightarrow> ms = [] \<and> pending = []" for ms pending
    by (induction ms pending rule: order_attachments.induct) auto
  have "list_all sendable (BuildQoderMessages jc templates incoming prompt toolsEnabled)"
    unfolding BuildQoderMessages_def Let_def by (rule s)
  moreover have "prompt \<noteq> [] \<Longrightarrow> BuildQoderMessages jc templates incoming prompt toolsEnabled \<noteq> []"
    by (auto simp: BuildQoderMessages_def Let_def orderToolAttachments_def n BuildUserMessage_def)
  ultimately show ?thesis by (auto simp: sendable_def list_all_iff)
qed

subsection \<open>Redaction\<close>

text \<open>
  The field name that makes a text sensitive is that of its own member or of the one around it: a
  text two levels below \<open>input\<close> is logged as it is, although the redaction is to keep the
  conversation out of the log.
\<close>

lemma nested_text_not_redacted:
  "let secret = JStr (replicate 40 (CHR ''x''));
       body = JObj [(''messages'', JList [JObj [(''content'', JList [JObj [(''type'', JStr ''tool_use''),
         (''input'', JObj [(''edit'', JObj [(''new_string'', secret)])])]])]])]
   in redactValue [] body = body \<and>
      redactValue [] (JObj [(''input'', secret)]) = JObj [(''input'', JStr ''<redacted len=40>'')]"
proof -
  have "itoa 40 = ''40''" by code_simp
  then show ?thesis by (simp add: Let_def sensitiveFieldNames_def redacted_def)
qed

end
