(* ===== verification/ToolSchema.thy ===== *)
theory ToolSchema
  imports Efforts GoText
begin

text \<open>
  The repair of tool schemas of internal/toolschema/objects.go. The source copies a map only when
  something under it changes; the result is the changed tree. The members of a map are walked in the
  order of the list: the order of the source is random and matters only to a schema of more than
  100000 nodes, whose budget it spends.
\<close>

subsection \<open>Branches\<close>

fun local_path :: "json \<Rightarrow> bool \<Rightarrow> string list \<Rightarrow> json" where
  "local_path v inner [] = v"
| "local_path v inner (key # keys) =
    (case v of
       JObj m \<Rightarrow>
         if inner \<and> (jget m ''$id'' \<noteq> JNull \<or> jget m ''id'' \<noteq> JNull) then JNull
         else local_path (jget m (replace_all ''~0'' ''~'' (replace_all ''~1'' ''/'' key))) True keys
     | _ \<Rightarrow> JNull)"

definition localRef :: "json_object \<Rightarrow> string \<Rightarrow> json" where
  "localRef doc ref =
    (if \<not> has_prefix ref ''#/'' then JNull else local_path (JObj doc) False (split_on (CHR ''/'') (drop 2 ref)))"

text \<open>The first argument is how many references may still be followed: the source stops after 16.\<close>

fun objectBranch :: "nat \<Rightarrow> json_object \<Rightarrow> json \<Rightarrow> string list \<Rightarrow> bool" where
  "objectBranch 0 doc v seen = False"
| "objectBranch (Suc n) doc v seen =
    (case v of
       JObj b \<Rightarrow>
         if jget b ''$id'' \<noteq> JNull \<or> jget b ''id'' \<noteq> JNull then False
         else (case jget b ''$ref'' of
                 JStr ref \<Rightarrow> ref \<notin> set seen \<and> objectBranch n doc (localRef doc ref) (seen @ [ref])
               | _ \<Rightarrow> jget b ''type'' = JStr ''object'')
     | _ \<Rightarrow> False)"

definition is_object_branch :: "json_object \<Rightarrow> json \<Rightarrow> bool" where
  "is_object_branch doc v = objectBranch 17 doc v []"

definition object_union :: "json_object \<Rightarrow> json_object \<Rightarrow> bool" where
  "object_union doc s =
    (map_of s ''type'' = None \<and> as_list (jget s ''oneOf'') \<noteq> [] \<and> list_all (is_object_branch doc) (as_list (jget s ''oneOf'')))"

subsection \<open>The walk\<close>

definition child_keys :: "string list" where
  "child_keys =
    [''items'', ''additionalItems'', ''unevaluatedItems'', ''contains'', ''not'', ''if'', ''then'', ''else'', ''propertyNames'',
     ''additionalProperties'', ''unevaluatedProperties'']"

definition list_keys :: "string list" where
  "list_keys = [''anyOf'', ''oneOf'', ''allOf'', ''prefixItems'']"

definition entry_keys :: "string list" where
  "entry_keys = [''properties'', ''patternProperties'', ''$defs'', ''definitions'', ''dependentSchemas'']"

text \<open>Walks over one value, over a list and over the members of a map, given the walk of an object.\<close>

definition walk_value :: "(json_object \<Rightarrow> int \<Rightarrow> json_object \<times> int) \<Rightarrow> json \<Rightarrow> int \<Rightarrow> json \<times> int" where
  "walk_value f v b = (case v of JObj c \<Rightarrow> (case f c b of (c, b) \<Rightarrow> (JObj c, b)) | _ \<Rightarrow> (v, b))"

fun walk_items :: "(json_object \<Rightarrow> int \<Rightarrow> json_object \<times> int) \<Rightarrow> json list \<Rightarrow> int \<Rightarrow> json list \<times> int" where
  "walk_items f [] b = ([], b)"
| "walk_items f (v # vs) b =
    (case walk_value f v b of (v, b) \<Rightarrow> (case walk_items f vs b of (vs, b) \<Rightarrow> (v # vs, b)))"

fun walk_entries ::
    "(json_object \<Rightarrow> int \<Rightarrow> json_object \<times> int) \<Rightarrow> json_object \<Rightarrow> int \<Rightarrow> json_object \<times> int" where
  "walk_entries f [] b = ([], b)"
| "walk_entries f ((k, v) # ms) b =
    (case walk_value f v b of (v, b) \<Rightarrow> (case walk_entries f ms b of (ms, b) \<Rightarrow> ((k, v) # ms, b)))"

definition walk_key ::
    "(json_object \<Rightarrow> int \<Rightarrow> json_object \<times> int) \<Rightarrow> json_object \<Rightarrow> string \<Rightarrow> json_object \<times> int \<Rightarrow> json_object \<times> int" where
  "walk_key f s k st =
    (case jget s k of
       JObj m \<Rightarrow>
         if k \<in> set child_keys then (case f m (snd st) of (m, b) \<Rightarrow> (jset k (JObj m) (fst st), b))
         else if k \<in> set entry_keys then (case walk_entries f m (snd st) of (m, b) \<Rightarrow> (jset k (JObj m) (fst st), b))
         else st
     | JList vs \<Rightarrow>
         if k \<in> set list_keys then (case walk_items f vs (snd st) of (vs, b) \<Rightarrow> (jset k (JList vs) (fst st), b))
         else st
     | _ \<Rightarrow> st)"

text \<open>The first argument is the number of levels left: the source stops below level 64.\<close>

fun walk_schema :: "nat \<Rightarrow> json_object \<Rightarrow> json_object \<Rightarrow> int \<Rightarrow> json_object \<times> int" where
  "walk_schema 0 doc s b = (s, b)"
| "walk_schema (Suc n) doc s b =
    (if b \<le> 0 then (s, b)
     else if n < 64 \<and> (jget s ''$id'' \<noteq> JNull \<or> jget s ''id'' \<noteq> JNull) then (s, b - 1)
     else
       let out = (if object_union doc s then jset ''type'' (JStr ''object'') s else s)
       in fold (walk_key (walk_schema n doc) s) (child_keys @ list_keys @ entry_keys) (out, b - 1))"

definition ObjectUnions :: "json \<Rightarrow> json" where
  "ObjectUnions schema = (case schema of JObj doc \<Rightarrow> JObj (fst (walk_schema 65 doc doc 100000)) | _ \<Rightarrow> schema)"

subsection \<open>Tools\<close>

definition repair_function :: "json_object \<Rightarrow> json_object" where
  "repair_function tool =
    (case jget tool ''function'' of
       JObj fn \<Rightarrow>
         (case jget fn ''parameters'' of
            JObj p \<Rightarrow> jset ''function'' (JObj (jset ''parameters'' (ObjectUnions (JObj p)) fn)) tool
          | _ \<Rightarrow> tool)
     | _ \<Rightarrow>
         (case jget tool ''parameters'' of
            JObj p \<Rightarrow> jset ''parameters'' (ObjectUnions (JObj p)) tool
          | _ \<Rightarrow> tool))"

function Tools :: "json \<Rightarrow> json"
  and repair_tools :: "json list \<Rightarrow> json list" where
  "Tools v = (case v of JList vs \<Rightarrow> JList (repair_tools vs) | _ \<Rightarrow> v)"
| "repair_tools [] = []"
| "repair_tools (v # vs) =
    (case v of
       JObj tool \<Rightarrow>
         if jget tool ''type'' = JStr ''namespace'' then
           (case jget tool ''tools'' of
              JList ts \<Rightarrow> JObj (jset ''tools'' (JList (repair_tools ts)) tool) | _ \<Rightarrow> v)
         else if jget tool ''type'' = JStr ''function'' then JObj (repair_function tool)
         else v
     | _ \<Rightarrow> v) # repair_tools vs"
  by pat_completeness auto
termination
proof (relation "measure (\<lambda>a. case a of Inl v \<Rightarrow> size v + 1 | Inr vs \<Rightarrow> size_list size vs)", goal_cases)
  case (3 v vs tool ts)
  from size_list_member [OF this(3)] this(1) show ?case by simp
qed auto

declare Tools.simps [simp del] repair_tools.simps [simp del]

end
