(* ===== verification/ToolSchemaProps.thy ===== *)
theory ToolSchemaProps
  imports ToolSchema
begin

text \<open>
  The repair of a schema changes nothing but that it adds the type object to unions of objects.
\<close>

text \<open>
  The second tree is the first with the type object at places that have no type and whose union has
  only object branches in the document.
\<close>

inductive typed_more :: "json_object \<Rightarrow> json \<Rightarrow> json \<Rightarrow> bool" for doc where
  same: "typed_more doc v v"
| union: "object_union doc m \<Longrightarrow> typed_more doc (JObj m) (JObj (jset ''type'' (JStr ''object'') m))"
| member: "typed_more doc (jget m k) v \<Longrightarrow> typed_more doc (JObj m) (JObj (jset k v m))"
| items: "list_all2 (typed_more doc) vs ws \<Longrightarrow> typed_more doc (JList vs) (JList ws)"
| entries: "list_all2 (\<lambda>e f. fst e = fst f \<and> typed_more doc (snd e) (snd f)) ms ns \<Longrightarrow> typed_more doc (JObj ms) (JObj ns)"
| trans: "typed_more doc u v \<Longrightarrow> typed_more doc v w \<Longrightarrow> typed_more doc u w"

inductive_cases typed_more_str: "typed_more doc (JStr s) v"

definition walker_ok :: "json_object \<Rightarrow> (json_object \<Rightarrow> int \<Rightarrow> json_object \<times> int) \<Rightarrow> bool" where
  "walker_ok doc f = (\<forall>m b. typed_more doc (JObj m) (JObj (fst (f m b))))"

lemma walk_value_ok: "walker_ok doc f \<Longrightarrow> typed_more doc v (fst (walk_value f v b))"
  by (auto simp: walk_value_def walker_ok_def case_prod_beta intro: typed_more.same split: json.split)

lemma walk_items_ok: "walker_ok doc f \<Longrightarrow> list_all2 (typed_more doc) vs (fst (walk_items f vs b))"
proof (induction f vs b rule: walk_items.induct)
  case (2 f v vs b)
  then show ?case using walk_value_ok [of doc f v b] by (cases "walk_value f v b") (simp add: case_prod_beta)
qed simp

lemma walk_entries_ok:
  "walker_ok doc f \<Longrightarrow> list_all2 (\<lambda>e e'. fst e = fst e' \<and> typed_more doc (snd e) (snd e')) ms (fst (walk_entries f ms b))"
proof (induction f ms b rule: walk_entries.induct)
  case (2 f k v ms b)
  then show ?case using walk_value_ok [of doc f v b] by (cases "walk_value f v b") (simp add: case_prod_beta)
qed simp

lemma walk_key_ok:
  assumes "walker_ok doc f" "typed_more doc (JObj s) (JObj (fst st))" "jget (fst st) k = jget s k"
  shows "typed_more doc (JObj s) (JObj (fst (walk_key f s k st))) \<and>
    (\<forall>l. l \<noteq> k \<longrightarrow> jget (fst (walk_key f s k st)) l = jget (fst st) l)"
proof -
  have step: "typed_more doc (JObj s) (JObj (jset k v (fst st)))" if "typed_more doc (jget s k) v" for v
    using that assms(2,3) typed_more.member [of doc "fst st" k v] by (metis typed_more.trans)
  show ?thesis
  proof (cases "jget s k")
    case (JObj m)
    have "typed_more doc (JObj m) (JObj (fst (f m (snd st))))" using assms(1) by (simp add: walker_ok_def)
    moreover have "typed_more doc (JObj m) (JObj (fst (walk_entries f m (snd st))))"
      using walk_entries_ok [OF assms(1)] by (rule typed_more.entries)
    ultimately show ?thesis using step assms(2) JObj by (simp add: walk_key_def case_prod_beta)
  next
    case (JList vs)
    have "typed_more doc (JList vs) (JList (fst (walk_items f vs (snd st))))"
      using walk_items_ok [OF assms(1)] by (rule typed_more.items)
    then show ?thesis using step assms(2) JList by (simp add: walk_key_def case_prod_beta)
  qed (use assms(2) in \<open>simp_all add: walk_key_def\<close>)
qed

lemma walk_keys_ok:
  "walker_ok doc f \<Longrightarrow> distinct ks \<Longrightarrow> typed_more doc (JObj s) (JObj (fst st)) \<Longrightarrow>
    list_all (\<lambda>k. jget (fst st) k = jget s k) ks \<Longrightarrow>
    typed_more doc (JObj s) (JObj (fst (fold (walk_key f s) ks st)))"
proof (induction ks arbitrary: st)
  case (Cons k ks)
  then have k: "typed_more doc (JObj s) (JObj (fst (walk_key f s k st)))"
      "\<And>l. l \<noteq> k \<Longrightarrow> jget (fst (walk_key f s k st)) l = jget (fst st) l"
    using walk_key_ok [of doc f s st k] by simp_all
  moreover have "l \<noteq> k" if "l \<in> set ks" for l using Cons.prems(2) that by auto
  ultimately have "list_all (\<lambda>l. jget (fst (walk_key f s k st)) l = jget s l) ks"
    using Cons.prems(4) by (simp add: list_all_iff)
  with Cons k show ?case by simp
qed simp

lemma walk_schema_ok: "walker_ok doc (walk_schema n doc)"
proof (induction n)
  case 0
  then show ?case by (simp add: walker_ok_def typed_more.same)
next
  case (Suc n)
  let ?ks = "child_keys @ list_keys @ entry_keys"
  have ks: "distinct ?ks" "''type'' \<notin> set ?ks" by (simp_all add: child_keys_def list_keys_def entry_keys_def)
  have "typed_more doc (JObj m) (JObj (fst (walk_schema (Suc n) doc m b)))" for m b
  proof -
    let ?out = "if object_union doc m then jset ''type'' (JStr ''object'') m else m"
    have "typed_more doc (JObj m) (JObj (fst (?out, b - 1)))" by (simp add: typed_more.same typed_more.union)
    moreover have "list_all (\<lambda>k. jget (fst (?out, b - 1)) k = jget m k) ?ks" using ks(2) by (auto simp: list_all_iff)
    ultimately have "typed_more doc (JObj m) (JObj (fst (fold (walk_key (walk_schema n doc) m) ?ks (?out, b - 1))))"
      by (rule walk_keys_ok [OF Suc ks(1)])
    then show ?thesis by (simp only: walk_schema.simps Let_def fst_conv typed_more.same split: if_split) simp
  qed
  then show ?case by (simp add: walker_ok_def)
qed

text \<open>The repair of a tool schema adds nothing but the type object, and only to untyped
  unions whose branches are all objects; every other member of the schema stays as it is, however deep.\<close>

theorem schema_only_typed: "typed_more (as_obj schema) schema (ObjectUnions schema)"
proof (cases schema)
  case (JObj m)
  with walk_schema_ok [of m 65] show ?thesis by (simp add: ObjectUnions_def as_obj_def walker_ok_def)
qed (simp_all add: ObjectUnions_def typed_more.same)

end
