(* ===== verification/QoderBody.thy ===== *)
theory QoderBody
  imports QoderMessages ToolSchema
begin

text \<open>
  The body of a Qoder request: the template filled in by \<open>callQoderWithOpts\<close> of
  internal/qoder/bridge/bridge.go. Fresh identifiers and the clock are arguments; the tokens after the
  mapping of the model are the model here.
\<close>

record call_stamp =
  cs_request :: string
  cs_set :: string
  cs_session :: string
  cs_business :: string
  cs_now :: int

definition on_object :: "string \<Rightarrow> (json_object \<Rightarrow> json_object) \<Rightarrow> json_object \<Rightarrow> json_object" where
  "on_object k f m = (case jget m k of JObj c \<Rightarrow> jset k (JObj (f c)) m | _ \<Rightarrow> m)"

definition stamp_body :: "call_stamp \<Rightarrow> json \<Rightarrow> json_object \<Rightarrow> json_object" where
  "stamp_body stamp userType body =
    jset ''aliyun_user_type'' userType (jset ''stream'' (JBool True) (jset ''session_id'' (JStr (cs_session stamp))
      (jset ''request_set_id'' (JStr (cs_set stamp)) (jset ''chat_record_id'' (JStr (cs_request stamp))
        (jset ''request_id'' (JStr (cs_request stamp)) body)))))"

definition model_config :: "string \<Rightarrow> call_opts \<Rightarrow> json_object \<Rightarrow> json_object" where
  "model_config model opts body =
    (let mc = jset ''key'' (JStr model) (as_obj (jget body ''model_config''));
         mc = (if co_ReasoningSet opts \<or> co_IsReasoning opts
               then jset ''is_reasoning'' (JBool (co_IsReasoning opts)) mc else mc)
     in jset ''model_config'' (JObj mc) body)"

text \<open>\<open>catalog\<close>: the efforts of each model and whether it can do without thinking; None before it is loaded.\<close>

definition native_thinking ::
    "(string \<times> string list \<times> bool) list option \<Rightarrow> string \<Rightarrow> call_opts \<Rightarrow> json_object \<Rightarrow> json_object" where
  "native_thinking catalog model opts body =
    (case catalog of
       None \<Rightarrow> body
     | Some table \<Rightarrow>
         if \<not> co_ReasoningSet opts then body
         else
           let (efforts, canDisable) = (case map_of table model of None \<Rightarrow> ([], False) | Some t \<Rightarrow> t);
               enable = (co_IsReasoning opts \<and> co_ReasoningEffort opts \<in> set efforts);
               disable = (\<not> co_IsReasoning opts \<and> canDisable)
           in if \<not> enable \<and> \<not> disable then body
              else
                let params = jset ''enable_thinking'' (JBool enable) (as_obj (jget body ''parameters''));
                    params = (if enable then jset ''reasoning_effort'' (JStr (co_ReasoningEffort opts)) params
                              else jdelete ''reasoning_effort'' params)
                in jset ''parameters'' (JObj params) body)"

definition limit_tokens :: "call_opts \<Rightarrow> json_object \<Rightarrow> json_object" where
  "limit_tokens opts body =
    (if 0 < co_MaxTokens opts
     then on_object ''parameters'' (jset ''max_tokens'' (JInt (co_MaxTokens opts))) body else body)"

definition first_text_block :: "json list \<Rightarrow> string" where
  "first_text_block vs =
    (case List.map_filter (\<lambda>v. case jget (as_obj v) ''text'' of JStr t \<Rightarrow> Some t | _ \<Rightarrow> None) vs of
       [] \<Rightarrow> [] | t # _ \<Rightarrow> t)"

definition summary_prompt :: "json_codec \<Rightarrow> json_object list \<Rightarrow> string" where
  "summary_prompt jc messages =
    (case List.find (\<lambda>m. jget m ''role'' = JStr ''user'') (rev messages) of
       None \<Rightarrow> []
     | Some m \<Rightarrow>
         let prompt = NormalizeMessageContent jc m
         in if prompt \<noteq> [] then prompt else first_text_block (as_list (jget m ''contents'')))"

definition describe_call :: "call_stamp \<Rightarrow> string \<Rightarrow> json_object \<Rightarrow> json_object" where
  "describe_call stamp prompt body =
    on_object ''chat_context''
      (\<lambda>cc. on_object ''extra'' (on_object ''originalContent'' (jset ''text'' (JStr prompt)))
        (on_object ''text'' (jset ''text'' (JStr prompt)) cc))
      (on_object ''business''
        (\<lambda>biz. jset ''name'' (JStr (take 30 prompt))
          (jset ''begin_at'' (JInt (cs_now stamp)) (jset ''id'' (JStr (cs_business stamp)) biz))) body)"

text \<open>The body and the model's source, which goes into a header.\<close>

definition call_body ::
    "json_codec \<Rightarrow> call_stamp \<Rightarrow> json \<Rightarrow> (string \<times> string list \<times> bool) list option \<Rightarrow> json_object \<Rightarrow> string \<Rightarrow>
      call_opts \<Rightarrow> json_object list \<Rightarrow> json \<Rightarrow> json_object \<times> string" where
  "call_body jc stamp userType catalog template model opts messages tools =
    (let body = stamp_body stamp userType (deep_copy jc template);
         body = limit_tokens opts (native_thinking catalog model opts (model_config model opts body));
         body = describe_call stamp (summary_prompt jc messages) body;
         body = jset ''messages'' (JList (map JObj messages)) body;
         body = (if tools \<noteq> JNull then jset ''tools'' (Tools tools) body else body);
         source = (case jget (as_obj (jget body ''model_config'')) ''source'' of JStr s \<Rightarrow> s | _ \<Rightarrow> ''system'')
     in (body, source))"

end
