(* ===== verification/Projection.thy ===== *)
theory Projection
  imports Efforts GoText "HOL-Library.List_Lexorder" "HOL-Library.Char_ord"
begin

text \<open>
  The condensed context of internal/workbuddy/projection (projection.go, project.go, helpers.go): a long
  chat request is cut to recent turns, a summary of what came before them, and smaller tool schemas.
  Lengths are bytes, as in the source. The tools of the result are a \<open>[]map[string]any\<close> in the code,
  which code that asserts \<open>[]any\<close> does not read; here they are a list like any other.
\<close>

subsection \<open>Constants\<close>

definition historyPrefix :: string where
  "historyPrefix = ''Earlier conversation summary (condensed):''"

definition baseSystemPrompt :: string where
  "baseSystemPrompt =
    ''You are a coding assistant serving an OpenAI-compatible CLI. Be precise, concise, safe, and action-oriented. '' @
    ''Use available tools when needed, follow repository instructions and durable user context, and continue from the '' @
    ''preserved recent context. If earlier history was condensed, rely on the preserved recent messages and rerun tools '' @
    ''when exact old details are required.''"

definition agenticToolNames :: "string list" where
  "agenticToolNames =
    [''exec_command'', ''write_stdin'', ''update_plan'', ''request_user_input'', ''view_image'', ''get_goal'',
     ''create_goal'', ''update_goal'', ''apply_patch'', ''tool_search_tool'']"

definition harnessUserMarkers :: "string list" where
  "harnessUserMarkers =
    [''# AGENTS.md instructions'', ''<environment_context>'', ''<permissions instructions>'', ''<collaboration_mode>'',
     ''<skills_instructions>'', ''<system-reminder>'', ''# claudeMd'']"

definition harnessSystemMarkers :: "string list" where
  "harnessSystemMarkers =
    [''You are a coding agent running in the Codex CLI'', ''Within this context, Codex refers to'', ''# AGENTS.md spec'',
     ''<permissions instructions>'', ''<collaboration_mode>'', ''<skills_instructions>'',
     ''The following deferred tools are now available via ToolSearch.'', ''### Available skills'',
     ''## request_user_input availability'', ''You are Claude Code'']"

definition schemaKeepKeys :: "string list" where
  "schemaKeepKeys =
    [''type'', ''properties'', ''required'', ''items'', ''enum'', ''oneOf'', ''anyOf'', ''allOf'', ''additionalProperties'',
     ''format'', ''minimum'', ''maximum'', ''minItems'', ''maxItems'', ''minLength'', ''maxLength'', ''nullable'']"

definition maxSystemGuidanceChars :: int where "maxSystemGuidanceChars = 1200"
definition maxUserChars :: int where "maxUserChars = 3200"
definition maxAssistantChars :: nat where "maxAssistantChars = 1800"
definition maxToolOutputChars :: nat where "maxToolOutputChars = 1600"
definition maxToolArgsChars :: nat where "maxToolArgsChars = 900"
definition maxHistorySummaryChars :: nat where "maxHistorySummaryChars = 2200"
definition maxHistoryItems :: nat where "maxHistoryItems = 10"
definition maxTailMessages :: nat where "maxTailMessages = 8"
definition maxTailChars :: nat where "maxTailChars = 7000"
definition inlineSummaryChars :: int where "inlineSummaryChars = 220"

subsection \<open>Texts\<close>

definition trim_right :: "string \<Rightarrow> string \<Rightarrow> string" where
  "trim_right cutset s = rev (dropWhile (\<lambda>c. c \<in> set cutset) (rev s))"

definition trim_left :: "string \<Rightarrow> string \<Rightarrow> string" where
  "trim_left cutset s = dropWhile (\<lambda>c. c \<in> set cutset) s"

definition blanks :: string where
  "blanks = [CHR '' '', CHR 0x09, CHR 0x0D]"

definition continuation :: "char \<Rightarrow> bool" where
  "continuation c = (0x80 \<le> (of_char c :: nat) \<and> (of_char c :: nat) < 0xC0)"

text \<open>The last position not after the given one where a rune starts.\<close>

fun rune_cut :: "string \<Rightarrow> nat \<Rightarrow> nat" where
  "rune_cut s 0 = 0"
| "rune_cut s (Suc n) = (if continuation (s ! Suc n) then rune_cut s n else Suc n)"

definition truncateText :: "string \<Rightarrow> int \<Rightarrow> string" where
  "truncateText s limit =
    (if s = [] \<or> int (length s) \<le> limit then s
     else
       let cut = rune_cut s (nat (limit - 24))
       in trim_right (blanks @ [CHR 0x0A]) (take cut s) @ '' ... [truncated '' @ itoa (int (length s - cut)) @ '' chars]'')"

definition summarizeFreeText :: "string \<Rightarrow> nat \<Rightarrow> string" where
  "summarizeFreeText s limit =
    (if s = [] \<or> length s \<le> limit then s
     else
       let front = trim_right (blanks @ [CHR 0x0A]) (take (limit div 2) s);
           rear = trim_left (blanks @ [CHR 0x0A]) (drop (length s - limit div 3) s);
           omitted = int (length s) - int (length front) - int (length rear)
       in front @ [CHR 0x0A] @ ''... ['' @ itoa omitted @ '' chars omitted] ...'' @ [CHR 0x0A] @ rear)"

definition wrapper_line :: "string \<Rightarrow> bool" where
  "wrapper_line s =
    (s = ''Output:'' \<or> has_prefix s ''Chunk ID:'' \<or> has_prefix s ''Wall time:'' \<or>
     has_prefix s ''Original token count:'' \<or> has_prefix s ''Process exited with code'')"

definition exit_line :: "string list \<Rightarrow> string" where
  "exit_line ls =
    (case List.find (\<lambda>l. contains (trim_space l) ''Process exited with code'') ls of None \<Rightarrow> [] | Some l \<Rightarrow> trim_space l)"

definition summarizeToolOutput :: "string \<Rightarrow> string" where
  "summarizeToolOutput s =
    (if s = [] then []
     else if length s \<le> maxToolOutputChars \<and> count_list s (CHR 0x0A) \<le> 24 then s
     else
       let ls = split_on (CHR 0x0A) s;
           useful = filter (\<lambda>l. \<not> wrapper_line l) (map (trim_right blanks) ls);
           front = take 10 useful;
           rear = (if 16 < length useful then drop (length useful - 6) useful else []);
           omitted = length useful - length front - length rear;
           parts =
             (if exit_line ls \<noteq> [] then [exit_line ls] else []) @
             (if front \<noteq> [] then ''Key output:'' # front else []) @
             (if 0 < omitted then [''... [omitted '' @ itoa (int omitted) @ '' lines] ...''] else []) @
             (if rear \<noteq> [] then ''Recent tail:'' # rear else []);
           summary = trim_space (join_with [CHR 0x0A] parts)
       in truncateText (if summary = [] then s else summary) (int maxToolOutputChars))"

definition toolOutputInlineSummary :: "string \<Rightarrow> string" where
  "toolOutputInlineSummary s = truncateText (replace_all [CHR 0x0A] '' | '' (summarizeToolOutput s)) inlineSummaryChars"

subsection \<open>Reading messages and tools\<close>

definition anyToString :: "json_codec \<Rightarrow> json \<Rightarrow> string" where
  "anyToString jc v =
    (case v of JStr s \<Rightarrow> s | JNull \<Rightarrow> [] | _ \<Rightarrow> (case jc_marshal jc v of None \<Rightarrow> [] | Some s \<Rightarrow> s))"

definition block_text :: "json \<Rightarrow> string" where
  "block_text v =
    (case v of
       JObj b \<Rightarrow> (case jget b ''text'' of JStr t \<Rightarrow> t | _ \<Rightarrow> as_str (jget b ''output''))
     | JStr s \<Rightarrow> s
     | _ \<Rightarrow> [])"

definition contentToText :: "json_codec \<Rightarrow> json \<Rightarrow> string" where
  "contentToText jc v =
    (case v of JNull \<Rightarrow> [] | JStr s \<Rightarrow> s | JList vs \<Rightarrow> concat (map block_text vs) | _ \<Rightarrow> anyToString jc v)"

definition objects_of :: "json \<Rightarrow> json_object list" where
  "objects_of v = List.map_filter (\<lambda>v. case v of JObj m \<Rightarrow> Some m | _ \<Rightarrow> None) (as_list v)"

definition call_function :: "json_object \<Rightarrow> json_object" where
  "call_function call = as_obj (jget call ''function'')"

definition messageCost :: "json_codec \<Rightarrow> json_object \<Rightarrow> nat" where
  "messageCost jc msg =
    length (contentToText jc (jget msg ''content'')) +
    sum_list (map (\<lambda>call. length (as_str (jget (call_function call) ''name'')) + length (as_str (jget (call_function call) ''arguments'')))
      (objects_of (jget msg ''tool_calls'')))"

definition messagesSize :: "json_codec \<Rightarrow> json_object list \<Rightarrow> nat" where
  "messagesSize jc ms = sum_list (map (\<lambda>m. messageCost jc m + length (as_str (jget m ''role''))) ms)"

text \<open>A nil map of functions falls back to the tool itself.\<close>

definition tool_function :: "json_object \<Rightarrow> json_object" where
  "tool_function tool = (case jget tool ''function'' of JObj fn \<Rightarrow> fn | _ \<Rightarrow> tool)"

definition toolName :: "json_object \<Rightarrow> string" where
  "toolName tool = as_str (jget (tool_function tool) ''name'')"

definition toolsSize :: "json_codec \<Rightarrow> json_object list \<Rightarrow> nat" where
  "toolsSize jc tools = (case jc_marshal jc (JList (map JObj tools)) of None \<Rightarrow> 0 | Some s \<Rightarrow> length s)"

definition anyContains :: "string \<Rightarrow> string list \<Rightarrow> bool" where
  "anyContains s markers = list_ex (contains s) markers"

definition looksLikeHarnessUser :: "string \<Rightarrow> bool" where
  "looksLikeHarnessUser s = anyContains s harnessUserMarkers"

definition looksLikeHarnessSystem :: "string \<Rightarrow> bool" where
  "looksLikeHarnessSystem s = anyContains s harnessSystemMarkers"

definition looksLikeAgenticCLI :: "json_codec \<Rightarrow> json_object list \<Rightarrow> json_object list \<Rightarrow> bool" where
  "looksLikeAgenticCLI jc messages tools =
    (list_ex (\<lambda>t. toolName t \<in> set agenticToolNames) tools \<or>
     list_ex (\<lambda>m. let s = contentToText jc (jget m ''content'') in looksLikeHarnessUser s \<or> looksLikeHarnessSystem s) messages)"

subsection \<open>Arguments and schemas\<close>

text \<open>The first argument is the number of levels left, 4 at the top.\<close>

fun shrinkJSONValue :: "nat \<Rightarrow> string \<Rightarrow> json \<Rightarrow> json" where
  "shrinkJSONValue 0 key v = JStr ''<omitted>''"
| "shrinkJSONValue (Suc n) key v =
    (case v of
       JObj m \<Rightarrow>
         (let sorted = sort_key fst m; out = map (\<lambda>(k, v). (k, shrinkJSONValue n k v)) (take 12 sorted)
          in JObj (if 12 < length m then jset ''_omitted_keys'' (JInt (int (length m) - 12)) out else out))
     | JList vs \<Rightarrow> JList (map (shrinkJSONValue n key) (take 6 vs))
     | JStr s \<Rightarrow>
         JStr (truncateText s
           (if key \<in> {''cmd'', ''chars'', ''patch'', ''content'', ''text'', ''question''} then 240 else 120))
     | _ \<Rightarrow> v)"

definition argument_summary :: "json_codec \<Rightarrow> string \<Rightarrow> string" where
  "argument_summary jc arguments =
    (case jc_marshal jc (JObj [(''summary'', JStr (truncateText arguments 320))]) of None \<Rightarrow> [] | Some s \<Rightarrow> s)"

definition summarizeToolArguments :: "json_codec \<Rightarrow> string \<Rightarrow> string \<Rightarrow> string" where
  "summarizeToolArguments jc name arguments =
    (if length arguments \<le> maxToolArgsChars then arguments
     else if name = ''apply_patch'' then
       ''{\"summary\": \"Large apply_patch payload omitted; a patch was prepared or applied in a previous step.\"}''
     else case jc_unmarshal jc arguments of
       None \<Rightarrow> argument_summary jc arguments
     | Some v \<Rightarrow>
         (case jc_marshal jc (shrinkJSONValue 4 [] v) of None \<Rightarrow> argument_summary jc arguments | Some s \<Rightarrow> s))"

definition object_schema :: json where
  "object_schema = JObj [(''type'', JStr ''object'')]"

definition schema_member :: "(json \<Rightarrow> json) \<Rightarrow> string \<times> json \<Rightarrow> (string \<times> json) option" where
  "schema_member f e =
    (let (k, v) = e
     in if k \<notin> set schemaKeepKeys then None
        else if k = ''properties'' then
          (case v of JObj ps \<Rightarrow> Some (k, JObj (map (\<lambda>(p, s). (p, f s)) ps)) | _ \<Rightarrow> None)
        else if k = ''items'' then Some (k, f v)
        else if k \<in> {''oneOf'', ''anyOf'', ''allOf''} then
          (case v of JList vs \<Rightarrow> Some (k, JList (map f (take 6 vs))) | _ \<Rightarrow> None)
        else if k = ''additionalProperties'' then Some (k, (case v of JObj _ \<Rightarrow> f v | _ \<Rightarrow> v))
        else Some (k, v))"

text \<open>The first argument is the number of levels left, 6 at the top.\<close>

fun projectSchema :: "nat \<Rightarrow> json \<Rightarrow> json" where
  "projectSchema 0 v = object_schema"
| "projectSchema (Suc n) v =
    (case v of
       JObj m \<Rightarrow>
         (let out = List.map_filter (schema_member (projectSchema n)) m in if out = [] then object_schema else JObj out)
     | JList vs \<Rightarrow> JList (map (projectSchema n) (take 6 vs))
     | _ \<Rightarrow> v)"

definition project_tool :: "json_object \<Rightarrow> json_object option" where
  "project_tool tool =
    (let fn = tool_function tool
     in if jget tool ''type'' \<noteq> JStr ''function'' \<or> toolName tool = [] then None
        else Some [(''type'', JStr ''function''),
          (''function'', JObj ((''name'', JStr (toolName tool)) #
            (case map_of fn ''parameters'' of None \<Rightarrow> [] | Some p \<Rightarrow> [(''parameters'', projectSchema 6 p)]) @
            (case map_of fn ''strict'' of None \<Rightarrow> [] | Some s \<Rightarrow> [(''strict'', s)])))])"

definition projectTools :: "json_object list \<Rightarrow> json_object list" where
  "projectTools tools = List.map_filter project_tool tools"

subsection \<open>Messages\<close>

definition projectToolCall :: "json_codec \<Rightarrow> json_object \<Rightarrow> json" where
  "projectToolCall jc call =
    (let fn = call_function call; name = as_str (jget fn ''name'')
     in JObj [(''id'', jget call ''id''),
          (''type'', JStr (if as_str (jget call ''type'') \<noteq> [] then as_str (jget call ''type'') else ''function'')),
          (''function'', JObj [(''name'', JStr name),
            (''arguments'', JStr (summarizeToolArguments jc name (anyToString jc (jget fn ''arguments''))))])])"

definition with_calls :: "json list \<Rightarrow> json_object \<Rightarrow> json_object" where
  "with_calls calls msg = (if calls \<noteq> [] then jset ''tool_calls'' (JList calls) msg else jdelete ''tool_calls'' msg)"

definition projectConversationMessage :: "json_codec \<Rightarrow> bool \<Rightarrow> json_object \<Rightarrow> json_object option" where
  "projectConversationMessage jc conservative msg =
    (let role = as_str (jget msg ''role''); str = contentToText jc (jget msg ''content'');
         put = (\<lambda>s. jset ''content'' (JStr s) msg)
     in if role = ''system'' then Some (put (truncateText str maxSystemGuidanceChars))
        else if role = ''user'' then Some (put (truncateText str maxUserChars))
        else if role = ''assistant'' then
          Some (with_calls (map (projectToolCall jc) (objects_of (jget msg ''tool_calls''))) (put (summarizeFreeText str maxAssistantChars)))
        else if role = ''tool'' then Some (put (summarizeToolOutput str))
        else if conservative then Some (put (truncateText str (int maxAssistantChars)))
        else None)"

definition projectMessagesConservative :: "json_codec \<Rightarrow> json_object list \<Rightarrow> json_object list" where
  "projectMessagesConservative jc ms = List.map_filter (projectConversationMessage jc True) ms"

subsection \<open>The tail\<close>

text \<open>The messages are walked from the last one; the position of one is the number of those before it.\<close>

fun tail_scan :: "json_codec \<Rightarrow> json_object list \<Rightarrow> nat \<Rightarrow> nat \<Rightarrow> nat \<Rightarrow> nat" where
  "tail_scan jc [] chars kept start = start"
| "tail_scan jc (m # earlier) chars kept start =
    (if 0 < kept \<and> (maxTailMessages \<le> kept \<or> maxTailChars < chars + messageCost jc m) then start
     else tail_scan jc earlier (chars + messageCost jc m) (Suc kept) (length earlier))"

definition chooseTailStart :: "json_codec \<Rightarrow> json_object list \<Rightarrow> nat" where
  "chooseTailStart jc ms = (if ms = [] then 0 else tail_scan jc (rev ms) 0 0 (length ms - 1))"

definition message_call_ids :: "json_object \<Rightarrow> string list" where
  "message_call_ids m = filter (\<lambda>i. i \<noteq> []) (map (\<lambda>c. as_str (jget c ''id'')) (objects_of (jget m ''tool_calls'')))"

definition answered_ids :: "json_object list \<Rightarrow> string list" where
  "answered_ids ms =
    filter (\<lambda>i. i \<noteq> []) (map (\<lambda>m. as_str (jget m ''tool_call_id'')) (filter (\<lambda>m. jget m ''role'' = JStr ''tool'') ms))"

fun expand_scan :: "json_object list \<Rightarrow> string list \<Rightarrow> nat \<Rightarrow> nat" where
  "expand_scan [] needed expanded = expanded"
| "expand_scan (m # earlier) needed expanded =
    (if jget m ''role'' \<noteq> JStr ''assistant'' then expand_scan earlier needed expanded
     else
       let rest = filter (\<lambda>i. i \<notin> set (message_call_ids m)) needed
       in if length rest = length needed then expand_scan earlier needed expanded
          else if rest = [] then length earlier
          else expand_scan earlier rest (length earlier))"

definition expandTailForToolContext :: "json_object list \<Rightarrow> nat \<Rightarrow> nat" where
  "expandTailForToolContext ms start =
    (if start = 0 \<or> answered_ids (drop start ms) = [] then start
     else expand_scan (rev (take start ms)) (answered_ids (drop start ms)) start)"

definition latestUserIndex :: "json_object list \<Rightarrow> nat option" where
  "latestUserIndex ms = List.find (\<lambda>i. jget (ms ! i) ''role'' = JStr ''user'') (rev [0..<length ms])"

subsection \<open>The summary of what came before\<close>

definition history_tools :: "json_object \<Rightarrow> string list" where
  "history_tools msg =
    take 4 (filter (\<lambda>n. n \<noteq> []) (map (\<lambda>c. as_str (jget (call_function c) ''name'')) (objects_of (jget msg ''tool_calls''))))"

definition historyLine :: "json_codec \<Rightarrow> (string \<times> string) list \<Rightarrow> json_object \<Rightarrow> string" where
  "historyLine jc names msg =
    (let role = as_str (jget msg ''role''); str = contentToText jc (jget msg ''content''); tools = history_tools msg
     in if role = ''user'' then ''User asked: '' @ truncateText str 220
        else if role = ''assistant'' then
          (if str \<noteq> [] \<and> tools \<noteq> [] then
             ''Assistant replied: '' @ truncateText str 160 @ '' Then called tools: '' @ join_with '', '' tools @ ''.''
           else if tools \<noteq> [] then ''Assistant called tools: '' @ join_with '', '' tools @ ''.''
           else if str \<noteq> [] then ''Assistant replied: '' @ truncateText str 180
           else [])
        else if role = ''tool'' then
          (let name = (case map_of names (anyToString jc (jget msg ''tool_call_id'')) of None \<Rightarrow> [] | Some n \<Rightarrow> n)
           in ''Tool '' @ (if name = [] then ''tool'' else name) @ '' returned: '' @ toolOutputInlineSummary str)
        else if role = ''system'' then ''System guidance: '' @ truncateText str 180
        else [])"

fun history_lines :: "string list \<Rightarrow> nat \<Rightarrow> nat \<Rightarrow> string list" where
  "history_lines [] chars n = []"
| "history_lines (l # ls) chars n =
    (if l = [] then history_lines ls chars n
     else if maxHistoryItems \<le> n \<or> maxHistorySummaryChars < chars + length l then []
     else l # history_lines ls (chars + length l) (Suc n))"

definition buildHistorySummary :: "json_codec \<Rightarrow> (string \<times> string) list \<Rightarrow> json_object list \<Rightarrow> string" where
  "buildHistorySummary jc names ms =
    (let kept = history_lines (map (historyLine jc names) ms) 0 0;
         remaining = length ms - length kept;
         ls = map ((@) ''- '') kept @
           (if 0 < remaining
            then [''- '' @ itoa (int remaining) @ '' earlier messages or tool results were further condensed.''] else [])
     in if ls = [] then [] else historyPrefix @ [CHR 0x0A] @ join_with [CHR 0x0A] ls)"

definition note_call_names :: "json_object \<Rightarrow> (string \<times> string) list \<Rightarrow> (string \<times> string) list" where
  "note_call_names msg names =
    (if jget msg ''role'' \<noteq> JStr ''assistant'' then names
     else fold (\<lambda>call names.
         let i = as_str (jget call ''id''); name = as_str (jget (call_function call) ''name'')
         in if i \<noteq> [] \<and> name \<noteq> [] then AList.update i name names else names)
       (objects_of (jget msg ''tool_calls'')) names)"

definition buildToolCallNameMap :: "json_object list \<Rightarrow> (string \<times> string) list" where
  "buildToolCallNameMap ms = fold note_call_names ms []"

fun guidance_scan :: "string list \<Rightarrow> string list \<Rightarrow> nat \<Rightarrow> string list" where
  "guidance_scan [] merged used = merged"
| "guidance_scan (message # messages) merged used =
    (if 2 \<le> length merged then merged
     else
       let str = trim_space message
       in if str = [] then guidance_scan messages merged used
          else
            let str = (if maxSystemGuidanceChars < int used + int (length str)
                       then truncateText str (maxSystemGuidanceChars - int used) else str)
            in if maxSystemGuidanceChars \<le> int (used + length str) then merged @ [str]
               else guidance_scan messages (merged @ [str]) (used + length str))"

definition mergeGuidanceMessages :: "string list \<Rightarrow> string" where
  "mergeGuidanceMessages messages =
    (case guidance_scan messages [] 0 of
       [] \<Rightarrow> []
     | [s] \<Rightarrow> s
     | ss \<Rightarrow> ''Additional instructions:'' @ [CHR 0x0A] @ join_with (replicate 2 (CHR 0x0A)) ss)"

subsection \<open>The body\<close>

record projection_stats =
  ps_Mode :: string
  ps_Aggressive :: bool
  ps_DroppedHarness :: nat
  ps_PreservedGuidance :: nat
  ps_SummarizedHistory :: nat
  ps_AnchorPreserved :: bool
  ps_TailMessages :: nat
  ps_OriginalMessages :: nat
  ps_ProjectedMessages :: nat
  ps_OriginalMessageChars :: nat
  ps_ProjectedMessageChars :: nat
  ps_OriginalTools :: nat
  ps_ProjectedTools :: nat
  ps_OriginalToolChars :: nat
  ps_ProjectedToolChars :: nat

definition mode_stats :: "string \<Rightarrow> nat \<Rightarrow> nat \<Rightarrow> nat \<Rightarrow> nat \<Rightarrow> projection_stats" where
  "mode_stats mode messages projected tools projectedTools =
    \<lparr>ps_Mode = mode, ps_Aggressive = False, ps_DroppedHarness = 0, ps_PreservedGuidance = 0, ps_SummarizedHistory = 0,
     ps_AnchorPreserved = False, ps_TailMessages = 0, ps_OriginalMessages = messages, ps_ProjectedMessages = projected,
     ps_OriginalMessageChars = 0, ps_ProjectedMessageChars = 0, ps_OriginalTools = tools,
     ps_ProjectedTools = projectedTools, ps_OriginalToolChars = 0, ps_ProjectedToolChars = 0\<rparr>"

definition unplain_block :: "json \<Rightarrow> bool" where
  "unplain_block v =
    (case v of JObj b \<Rightarrow> as_str (jget b ''type'') \<notin> {''text'', ''input_text'', ''output_text''} | _ \<Rightarrow> False)"

definition multimodal :: "json_object list \<Rightarrow> bool" where
  "multimodal ms = list_ex (\<lambda>m. list_ex unplain_block (as_list (jget m ''content''))) ms"

text \<open>The scan of the messages of an agent: the texts of guidance, the turns, and how many were dropped.\<close>

definition sort_message ::
    "json_codec \<Rightarrow> json_object \<Rightarrow> string list \<times> json_object list \<times> nat \<Rightarrow> string list \<times> json_object list \<times> nat" where
  "sort_message jc msg st =
    (let (guidance, conversation, dropped) = st; role = as_str (jget msg ''role''); str = contentToText jc (jget msg ''content'')
     in if role = ''system'' then
          (if looksLikeHarnessSystem str then (guidance, conversation, Suc dropped)
           else
             let g = truncateText str maxSystemGuidanceChars
             in (if g \<noteq> [] then guidance @ [g] else guidance, conversation, dropped))
        else if role = ''user'' \<and> looksLikeHarnessUser str then (guidance, conversation, Suc dropped)
        else (guidance,
              conversation @ (case projectConversationMessage jc False msg of None \<Rightarrow> [] | Some pm \<Rightarrow> [pm]), dropped))"

definition sort_messages :: "json_codec \<Rightarrow> json_object list \<Rightarrow> string list \<times> json_object list \<times> nat" where
  "sort_messages jc ms = fold (sort_message jc) ms ([], [], 0)"

definition system_message :: "string \<Rightarrow> json_object" where
  "system_message s = [(''role'', JStr ''system''), (''content'', JStr s)]"

definition tail_start :: "json_codec \<Rightarrow> json_object list \<Rightarrow> nat" where
  "tail_start jc conversation = expandTailForToolContext conversation (chooseTailStart jc conversation)"

definition anchor_user :: "json_object list \<Rightarrow> nat \<Rightarrow> json_object option" where
  "anchor_user conversation start =
    (case latestUserIndex conversation of
       Some i \<Rightarrow> if i < start then Some (conversation ! i) else None
     | None \<Rightarrow> None)"

text \<open>The turns before the tail, without the last turn of the user.\<close>

definition omitted_turns :: "json_object list \<Rightarrow> nat \<Rightarrow> json_object list" where
  "omitted_turns conversation start =
    map ((!) conversation) (filter (\<lambda>i. latestUserIndex conversation \<noteq> Some i) [0..<start])"

definition condensed ::
    "json_codec \<Rightarrow> string list \<Rightarrow> (string \<times> string) list \<Rightarrow> json_object list \<Rightarrow> json_object list" where
  "condensed jc guidance names conversation =
    (let start = tail_start jc conversation;
         gm = mergeGuidanceMessages guidance;
         hs = buildHistorySummary jc names (omitted_turns conversation start)
     in system_message baseSystemPrompt #
        (if gm \<noteq> [] then [system_message gm] else []) @
        (if hs \<noteq> [] then [system_message hs] else []) @
        (case anchor_user conversation start of None \<Rightarrow> [] | Some u \<Rightarrow> [u]) @
        drop start conversation)"

definition Body :: "json_codec \<Rightarrow> json_object \<Rightarrow> json_object \<times> projection_stats" where
  "Body jc body =
    (let messages = objects_of (jget body ''messages''); tools = objects_of (jget body ''tools'')
     in if multimodal messages
        then (body, mode_stats ''multimodal-preserved'' (length messages) (length messages) (length tools) (length tools))
        else
          let ptools = projectTools tools;
              projected = jset ''tools'' (JList (map JObj ptools)) body;
              sized = (\<lambda>out stats. stats\<lparr>
                ps_OriginalMessageChars := messagesSize jc messages, ps_ProjectedMessageChars := messagesSize jc out,
                ps_OriginalToolChars := toolsSize jc tools, ps_ProjectedToolChars := toolsSize jc ptools\<rparr>)
          in if \<not> looksLikeAgenticCLI jc messages tools then
               (let out = projectMessagesConservative jc messages
                in (jset ''messages'' (JList (map JObj out)) projected,
                    sized out (mode_stats ''conservative'' (length messages) (length out) (length tools) (length ptools))))
             else
               let names = buildToolCallNameMap messages;
                   (guidance, conversation, dropped) = sort_messages jc messages;
                   conversation = (if conversation = [] then projectMessagesConservative jc messages else conversation);
                   start = tail_start jc conversation;
                   out = condensed jc guidance names conversation
               in (jset ''messages'' (JList (map JObj out)) projected,
                   (sized out (mode_stats ''aggressive'' (length messages) (length out) (length tools) (length ptools)))\<lparr>
                     ps_Aggressive := True, ps_DroppedHarness := dropped, ps_PreservedGuidance := length guidance,
                     ps_SummarizedHistory := length (omitted_turns conversation start),
                     ps_AnchorPreserved := (anchor_user conversation start \<noteq> None),
                     ps_TailMessages := length conversation - start\<rparr>))"

end
