(* ===== verification/ProjectionProps.thy ===== *)
theory ProjectionProps
  imports Projection
begin

text \<open>
  What the condensed context keeps: the results of tools stay behind the calls they answer, and the last
  turn of the user is never lost.
\<close>

subsection \<open>Results behind their calls\<close>

definition is_role :: "string \<Rightarrow> json_object \<Rightarrow> bool" where
  "is_role role m = (jget m ''role'' = JStr role)"

text \<open>Every result with an identifier stands in the run of results behind a message that makes that call.\<close>

fun tools_follow :: "string list \<Rightarrow> json_object list \<Rightarrow> bool" where
  "tools_follow ids [] = True"
| "tools_follow ids (m # ms) =
    (if is_role ''tool'' m
     then (let i = as_str (jget m ''tool_call_id'') in i = [] \<or> i \<in> set ids) \<and> tools_follow ids ms
     else tools_follow (if is_role ''assistant'' m then message_call_ids m else []) ms)"

fun calls_open :: "string list \<Rightarrow> json_object list \<Rightarrow> string list" where
  "calls_open ids [] = ids"
| "calls_open ids (m # ms) =
    calls_open (if is_role ''tool'' m then ids else if is_role ''assistant'' m then message_call_ids m else []) ms"

lemma follow_append: "tools_follow ids (ms @ ns) = (tools_follow ids ms \<and> tools_follow (calls_open ids ms) ns)"
  by (induction ids ms rule: tools_follow.induct) (auto simp: Let_def)

lemma calls_open_append: "calls_open ids (ms @ ns) = calls_open (calls_open ids ms) ns"
  by (induction ids ms rule: calls_open.induct) simp_all

lemma follow_mono: "\<lbrakk>tools_follow ids ms; set ids \<subseteq> set ids'\<rbrakk> \<Longrightarrow> tools_follow ids' ms"
  by (induction ids ms arbitrary: ids' rule: tools_follow.induct) (auto simp: Let_def split: if_split_asm)

lemma follow_disjoint:
  "\<lbrakk>tools_follow ids ms; set (answered_ids ms) \<inter> set ids = {}\<rbrakk> \<Longrightarrow> tools_follow [] ms"
  by (induction ids ms rule: tools_follow.induct) (auto simp: Let_def answered_ids_def is_role_def split: if_split_asm)

lemma calls_openD:
  "i \<in> set (calls_open ids ms) \<Longrightarrow> i \<in> set ids \<or> (\<exists>m \<in> set ms. is_role ''assistant'' m \<and> i \<in> set (message_call_ids m))"
  by (induction ids ms rule: calls_open.induct) (auto split: if_split_asm)

lemma expand_scan_cases:
  "(expand_scan ms needed e = e \<and>
      (\<forall>m \<in> set ms. is_role ''assistant'' m \<longrightarrow> set (message_call_ids m) \<inter> set needed = {})) \<or>
   (expand_scan ms needed e < length ms \<and> is_role ''assistant'' (rev ms ! expand_scan ms needed e))"
proof (induction ms arbitrary: needed e)
  case (Cons m ms)
  show ?case
  proof (cases "is_role ''assistant'' m")
    case False
    with Cons [of needed e] show ?thesis by (auto simp: is_role_def nth_append)
  next
    case True
    let ?rest = "filter (\<lambda>i. i \<notin> set (message_call_ids m)) needed"
    show ?thesis
    proof (cases "length ?rest = length needed")
      case same: True
      then have "set (message_call_ids m) \<inter> set needed = {}"
        by (metis (no_types, lifting) disjoint_iff filter_False length_filter_less less_irrefl)
      with same True Cons [of needed e] show ?thesis by (auto simp: is_role_def nth_append Let_def)
    next
      case False
      with True Cons [of ?rest "length ms"] show ?thesis by (auto simp: is_role_def nth_append Let_def)
    qed
  qed
qed simp

lemma tail_keeps_calls:
  assumes "tools_follow [] ms"
  shows "tools_follow [] (drop (expandTailForToolContext ms start) ms)"
proof (cases "start = 0 \<or> answered_ids (drop start ms) = []")
  case True
  have f: "tools_follow (calls_open [] (take start ms)) (drop start ms)"
    using assms follow_append [of "[]" "take start ms" "drop start ms"] by simp
  from True show ?thesis
  proof
    assume "start = 0"
    with assms show ?thesis by (simp add: expandTailForToolContext_def)
  next
    assume "answered_ids (drop start ms) = []"
    with follow_disjoint [OF f] show ?thesis by (simp add: expandTailForToolContext_def)
  qed
next
  case False
  let ?n = "answered_ids (drop start ms)" let ?e = "expand_scan (rev (take start ms)) ?n start"
  have e: "expandTailForToolContext ms start = ?e" using False by (auto simp: expandTailForToolContext_def)
  from expand_scan_cases [of "rev (take start ms)" ?n start] show ?thesis
  proof
    assume a: "?e = start \<and> (\<forall>m \<in> set (rev (take start ms)). is_role ''assistant'' m \<longrightarrow> set (message_call_ids m) \<inter> set ?n = {})"
    have f: "tools_follow (calls_open [] (take start ms)) (drop start ms)"
      using assms follow_append [of "[]" "take start ms" "drop start ms"] by simp
    from a have "set ?n \<inter> set (calls_open [] (take start ms)) = {}"
      using calls_openD [of _ "[]" "take start ms"] by fastforce
    from follow_disjoint [OF f this] a e show ?thesis by simp
  next
    assume a: "?e < length (rev (take start ms)) \<and> is_role ''assistant'' (rev (rev (take start ms)) ! ?e)"
    then have l: "?e < length ms" and r: "is_role ''assistant'' (ms ! ?e)" using nth_take [of ?e start ms] by auto
    have d: "drop ?e ms = ms ! ?e # drop (Suc ?e) ms" using l by (simp add: Cons_nth_drop_Suc)
    have "tools_follow (calls_open [] (take ?e ms)) (drop ?e ms)"
      using assms follow_append [of "[]" "take ?e ms" "drop ?e ms"] by simp
    then show ?thesis using r unfolding e d by (simp add: is_role_def)
  qed
qed

subsection \<open>Projected messages\<close>

lemma as_str_role: "role \<noteq> [] \<Longrightarrow> (as_str v = role) = (v = JStr role)"
  by (cases v) (auto simp: as_str_def)

lemma objects_of_JObj: "objects_of (JList (map JObj ms)) = ms"
  by (induction ms) (simp_all add: objects_of_def as_list_def map_filter_simps)

definition same_links :: "json_object \<Rightarrow> json_object \<Rightarrow> bool" where
  "same_links m m' = (jget m' ''role'' = jget m ''role'' \<and> jget m' ''tool_call_id'' = jget m ''tool_call_id'' \<and>
    message_call_ids m' = message_call_ids m)"

lemma projected_ids:
  "map (\<lambda>c. as_str (jget c ''id'')) (objects_of (JList (map (projectToolCall jc) cs))) = map (\<lambda>c. as_str (jget c ''id'')) cs"
  by (induction cs) (simp_all add: objects_of_def as_list_def map_filter_simps projectToolCall_def Let_def jget_def)

lemma project_links: "projectConversationMessage jc c m = Some m' \<Longrightarrow> same_links m m'"
  using projected_ids [of jc "objects_of (jget m ''tool_calls'')"]
  by (auto simp: projectConversationMessage_def Let_def same_links_def message_call_ids_def with_calls_def objects_of_def
      split: if_split_asm)

lemma follow_project:
  "tools_follow ids ms \<Longrightarrow> tools_follow ids (List.map_filter (projectConversationMessage jc True) ms)"
proof (induction ids ms rule: tools_follow.induct)
  case (2 ids m ms)
  obtain m' where m: "projectConversationMessage jc True m = Some m'"
    by (cases "projectConversationMessage jc True m") (simp_all add: projectConversationMessage_def Let_def split: if_split_asm)
  from project_links [OF m] 2 m show ?case
    by (auto simp: map_filter_simps same_links_def is_role_def Let_def)
qed (simp add: map_filter_simps)

lemma follow_sort:
  "\<lbrakk>fold (sort_message jc) ms (g, conv, d) = (g', conv', d'); tools_follow [] conv;
    tools_follow ids ms; set ids \<subseteq> set (calls_open [] conv)\<rbrakk> \<Longrightarrow> tools_follow [] conv'"
proof (induction ms arbitrary: g conv d ids)
  case (Cons m ms)
  obtain g1 conv1 d1 where s: "sort_message jc m (g, conv, d) = (g1, conv1, d1)" by (cases "sort_message jc m (g, conv, d)") auto
  let ?ids = "if is_role ''tool'' m then ids else if is_role ''assistant'' m then message_call_ids m else []"
  have f: "tools_follow ?ids ms" using Cons.prems(3) by (auto split: if_split_asm)
  have "tools_follow [] conv1 \<and> set ?ids \<subseteq> set (calls_open [] conv1)"
  proof (cases "conv1 = conv")
    case True
    have "is_role ''tool'' m \<or> \<not> is_role ''assistant'' m"
      using s True by (auto simp: sort_message_def Let_def is_role_def as_str_def projectConversationMessage_def split: if_split_asm)
    with True Cons.prems show ?thesis by auto
  next
    case False
    then obtain m' where p: "projectConversationMessage jc False m = Some m'" and c: "conv1 = conv @ [m']"
      using s by (auto simp: sort_message_def Let_def split: if_split_asm option.splits)
    from project_links [OF p] Cons.prems c show ?thesis
      by (auto simp: follow_append same_links_def is_role_def Let_def calls_open_append split: if_split_asm)
  qed
  with Cons.IH [of g1 conv1 d1 ?ids] Cons.prems(1) s f show ?case by simp
qed simp

subsection \<open>The last turn of the user\<close>

definition user_turns :: "json_codec \<Rightarrow> json_object list \<Rightarrow> json_object list" where
  "user_turns jc ms = filter (\<lambda>m. is_role ''user'' m \<and> \<not> looksLikeHarnessUser (contentToText jc (jget m ''content''))) ms"

definition shortened :: "json_codec \<Rightarrow> json_object \<Rightarrow> json_object" where
  "shortened jc m = jset ''content'' (JStr (truncateText (contentToText jc (jget m ''content'')) maxUserChars)) m"

lemma latest_user_snoc:
  "latestUserIndex (ms @ [m]) = (if is_role ''user'' m then Some (length ms) else latestUserIndex ms)"
proof -
  have "List.find (\<lambda>i. jget ((ms @ [m]) ! i) ''role'' = JStr ''user'') (rev [0..<length ms]) = latestUserIndex ms"
    unfolding latestUserIndex_def by (rule List.find_cong) (auto simp: nth_append)
  then show ?thesis by (simp add: latestUserIndex_def is_role_def)
qed

lemma latest_user:
  "case latestUserIndex ms of
     None \<Rightarrow> filter (is_role ''user'') ms = []
   | Some i \<Rightarrow> i < length ms \<and> filter (is_role ''user'') ms \<noteq> [] \<and> ms ! i = last (filter (is_role ''user'') ms)"
proof (induction ms rule: rev_induct)
  case (snoc m ms)
  then show ?case by (cases "latestUserIndex ms") (auto simp: latest_user_snoc nth_append)
qed (simp add: latestUserIndex_def)

lemma shortened_user: "is_role ''user'' m \<Longrightarrow> projectConversationMessage jc c m = Some (shortened jc m)"
  by (simp add: projectConversationMessage_def Let_def is_role_def as_str_def shortened_def)

lemma projected_user:
  "projectConversationMessage jc c m = Some m' \<Longrightarrow> is_role ''user'' m' = is_role ''user'' m"
  using project_links by (auto simp: same_links_def is_role_def)

lemma sorted_users:
  "fold (sort_message jc) ms (g, conv, d) = (g', conv', d') \<Longrightarrow>
   filter (is_role ''user'') conv' = filter (is_role ''user'') conv @ map (shortened jc) (user_turns jc ms)"
proof (induction ms arbitrary: g conv d)
  case (Cons m ms)
  obtain g1 conv1 d1 where s: "sort_message jc m (g, conv, d) = (g1, conv1, d1)" by (cases "sort_message jc m (g, conv, d)") auto
  have "filter (is_role ''user'') conv1 = filter (is_role ''user'') conv @ map (shortened jc) (user_turns jc [m])"
  proof (cases "is_role ''user'' m")
    case True
    then show ?thesis using s shortened_user [OF True, of jc False] shortened_user [OF True, of jc False, THEN projected_user]
      by (auto simp: sort_message_def Let_def user_turns_def is_role_def as_str_def split: if_split_asm)
  next
    case False
    then show ?thesis using s projected_user [of jc False m]
      by (auto simp: sort_message_def Let_def user_turns_def split: if_split_asm option.split_asm)
  qed
  with Cons.IH [of g1 conv1 d1] Cons.prems s show ?case by (simp add: user_turns_def)
qed (simp add: user_turns_def)

subsection \<open>The condensed turns\<close>

lemma follow_plain:
  "list_all (\<lambda>m. \<not> is_role ''tool'' m \<and> \<not> is_role ''assistant'' m) ms \<Longrightarrow> tools_follow [] (ms @ ns) = tools_follow [] ns"
  by (induction ms) auto

lemma condensed_ok:
  assumes "tools_follow [] conv"
  shows "tools_follow [] (condensed jc g names conv)"
proof -
  have s: "\<not> is_role ''tool'' (system_message t) \<and> \<not> is_role ''assistant'' (system_message t)" for t
    by (simp add: is_role_def system_message_def jget_def)
  have a: "anchor_user conv i = Some u \<Longrightarrow> is_role ''user'' u" for i u
    using latest_user [of conv] last_in_set [of "filter (is_role ''user'') conv"]
    by (auto simp: anchor_user_def split: option.split_asm if_split_asm)
  let ?start = "tail_start jc conv" let ?gm = "mergeGuidanceMessages g"
  let ?hs = "buildHistorySummary jc names (omitted_turns conv ?start)"
  let ?front = "system_message baseSystemPrompt # (if ?gm \<noteq> [] then [system_message ?gm] else []) @
      (if ?hs \<noteq> [] then [system_message ?hs] else []) @ (case anchor_user conv ?start of None \<Rightarrow> [] | Some u \<Rightarrow> [u])"
  have c: "condensed jc g names conv = ?front @ drop ?start conv" by (simp add: condensed_def Let_def)
  have p: "list_all (\<lambda>m. \<not> is_role ''tool'' m \<and> \<not> is_role ''assistant'' m) ?front"
    using s a by (auto simp: is_role_def split: option.splits)
  have "tools_follow [] (drop ?start conv)" using tail_keeps_calls [OF assms] by (simp add: tail_start_def)
  then show ?thesis unfolding c follow_plain [OF p] .
qed

lemma condensed_user:
  assumes "filter (is_role ''user'') conv \<noteq> []"
  shows "last (filter (is_role ''user'') conv) \<in> set (condensed jc g names conv)"
proof -
  obtain i where i: "latestUserIndex conv = Some i" "i < length conv" "conv ! i = last (filter (is_role ''user'') conv)"
    using latest_user [of conv] assms by (auto split: option.split_asm)
  let ?start = "tail_start jc conv"
  show ?thesis
  proof (cases "i < ?start")
    case True
    with i show ?thesis by (simp add: condensed_def Let_def anchor_user_def)
  next
    case False
    then have "conv ! i \<in> set (drop ?start conv)" using i(2) by (force simp: in_set_conv_nth intro: exI [of _ "i - ?start"])
    with i(3) show ?thesis by (simp add: condensed_def Let_def)
  qed
qed

lemma conservative_user:
  "m \<in> set ms \<Longrightarrow> is_role ''user'' m \<Longrightarrow> shortened jc m \<in> set (projectMessagesConservative jc ms)"
  by (induction ms) (auto simp: projectMessagesConservative_def map_filter_simps shortened_user split: option.split)


end
