(* ===== verification/ChatAdapters.thy ===== *)
theory ChatAdapters
  imports Projection QoderErrors
begin

text \<open>
  Anthropic and Responses requests for an upstream that only speaks Chat:
  internal/workbuddy/adapters/anthropic_request.go and responses_request.go. \<open>fresh i j\<close> is the random
  identifier made for call j of message i. A map of tools is the list of its names where only
  membership is read; an error is a constructor that carries what its text shows.
\<close>

datatype adapter_error =
    BadParallelFlag
  | UnnamedChoice
  | BadChoiceType string
  | BadReference
  | BadImageSource
  | MissingImageData
  | BadBlockType json
  | BadErrorFlag
  | ToolNotObject
  | BadToolType string
  | UnnamedTool
  | RepeatedTool
  | BadDeferFlag
  | NoLoadedTool
  | MissingImageURL

text \<open>Runs a function over a list until it fails.\<close>

fun map_until :: "('a \<Rightarrow> 'e + 'b) \<Rightarrow> 'a list \<Rightarrow> 'e + 'b list" where
  "map_until f [] = Inr []"
| "map_until f (x # xs) =
    (case f x of
       Inl e \<Rightarrow> Inl e
     | Inr y \<Rightarrow> (case map_until f xs of Inl e \<Rightarrow> Inl e | Inr ys \<Rightarrow> Inr (y # ys)))"

definition copy_keys :: "string list \<Rightarrow> json_object \<Rightarrow> json_object \<Rightarrow> json_object" where
  "copy_keys ks src m = fold (\<lambda>k m. case map_of src k of None \<Rightarrow> m | Some v \<Rightarrow> jset k v m) ks m"

definition copy_as :: "string \<Rightarrow> string \<Rightarrow> json_object \<Rightarrow> json_object \<Rightarrow> json_object" where
  "copy_as k l src m = (case map_of src k of None \<Rightarrow> m | Some v \<Rightarrow> jset l v m)"

definition chat_start :: "json_object list \<Rightarrow> json_object" where
  "chat_start messages =
    [(''messages'', JList (map JObj messages)), (''stream'', JBool True),
     (''stream_options'', JObj [(''include_usage'', JBool True)])]"

definition chat_message :: "string \<Rightarrow> json \<Rightarrow> json_object" where
  "chat_message role content = [(''role'', JStr role), (''content'', content)]"

definition tool_message :: "string \<Rightarrow> json \<Rightarrow> json_object" where
  "tool_message i content = [(''role'', JStr ''tool''), (''tool_call_id'', JStr i), (''content'', content)]"

definition assistant_message :: "json \<Rightarrow> json list \<Rightarrow> json_object" where
  "assistant_message content calls =
    chat_message ''assistant'' content @ (if calls \<noteq> [] then [(''tool_calls'', JList calls)] else [])"

definition function_call :: "string \<Rightarrow> string \<Rightarrow> string \<Rightarrow> json" where
  "function_call i name args =
    JObj [(''id'', JStr i), (''type'', JStr ''function''),
      (''function'', JObj [(''name'', JStr name), (''arguments'', JStr args)])]"

definition named_choice :: "string \<Rightarrow> json" where
  "named_choice name = JObj [(''type'', JStr ''function''), (''function'', JObj [(''name'', JStr name)])]"

definition text_part :: "string \<Rightarrow> json" where
  "text_part t = JObj [(''type'', JStr ''text''), (''text'', JStr t)]"

subsection \<open>Content of Anthropic messages\<close>

definition block_is :: "string \<Rightarrow> json_object \<Rightarrow> bool" where
  "block_is kind b = (jget b ''type'' = JStr kind)"

definition budgetToEffort :: "int \<Rightarrow> string" where
  "budgetToEffort budget =
    (if budget \<le> 0 then ''high'' else if 32768 \<le> budget then ''max'' else if 16384 \<le> budget then ''xhigh''
     else if 8192 \<le> budget then ''high'' else if 2048 < budget then ''medium'' else ''low'')"

definition block_texts :: "json list \<Rightarrow> string list" where
  "block_texts vs = map (\<lambda>b. as_str (jget b ''text'')) (filter (block_is ''text'') (objects_of (JList vs)))"

definition extractSystemText :: "json \<Rightarrow> string" where
  "extractSystemText v =
    (case v of JStr s \<Rightarrow> s | JList vs \<Rightarrow> join_with [CHR 0x0A] (block_texts vs) | _ \<Rightarrow> [])"

definition extractBlocksText :: "json list \<Rightarrow> string" where
  "extractBlocksText vs = concat (block_texts vs)"

definition reference_text :: "json_codec \<Rightarrow> string \<Rightarrow> string" where
  "reference_text jc name =
    (case jc_marshal jc (JObj [(''type'', JStr ''tool_reference''), (''tool_name'', JStr name)]) of
       None \<Rightarrow> [CHR 0x0A, CHR 0x0A] | Some s \<Rightarrow> [CHR 0x0A] @ s @ [CHR 0x0A])"

definition anthropic_image :: "json_object \<Rightarrow> adapter_error + json" where
  "anthropic_image block =
    (case jget block ''source'' of
       JObj source \<Rightarrow>
         (let url =
             (if jget source ''type'' = JStr ''url'' then as_str (jget source ''url'')
              else
                let data = as_str (jget source ''data''); kind = as_str (jget source ''media_type'')
                in if data = [] then []
                   else ''data:'' @ (if kind = [] then ''image/png'' else kind) @ '';base64,'' @ data)
          in if url = [] then Inl MissingImageData
             else Inr (JObj [(''type'', JStr ''image_url''), (''image_url'', JObj [(''url'', JStr url)])]))
     | _ \<Rightarrow> Inl BadImageSource)"

text \<open>A block becomes a part and its share of the plain text; an image has none.\<close>

definition anthropic_part :: "json_codec \<Rightarrow> string list \<Rightarrow> json_object \<Rightarrow> adapter_error + json \<times> string option" where
  "anthropic_part jc catalog block =
    (if block_is ''tool_reference'' block then
       (let name = as_str (jget block ''tool_name'')
        in if name \<notin> set catalog \<or> name = [] then Inl BadReference
           else Inr (text_part (reference_text jc name), Some (reference_text jc name)))
     else if block_is ''text'' block then
       Inr (text_part (as_str (jget block ''text'')), Some (as_str (jget block ''text'')))
     else if block_is ''image'' block then map_sum id (\<lambda>p. (p, None)) (anthropic_image block)
     else Inl (BadBlockType (jget block ''type'')))"

definition joined_parts :: "(json \<times> string option) list \<Rightarrow> json" where
  "joined_parts ps =
    (if list_ex (\<lambda>p. snd p = None) ps then JList (map fst ps)
     else JStr (concat (map (\<lambda>p. case snd p of None \<Rightarrow> [] | Some t \<Rightarrow> t) ps)))"

definition contentWithImages :: "json_codec \<Rightarrow> string list \<Rightarrow> json \<Rightarrow> adapter_error + json" where
  "contentWithImages jc catalog v =
    (case v of
       JStr s \<Rightarrow> Inr (JStr s)
     | JList vs \<Rightarrow> map_sum id joined_parts (map_until (anthropic_part jc catalog) (objects_of (JList vs)))
     | _ \<Rightarrow> Inr (JStr []))"

subsection \<open>Anthropic messages\<close>

definition error_prefix :: string where
  "error_prefix = ''[tool_result is_error=true]'' @ [CHR 0x0A]"

definition mark_error :: "json \<Rightarrow> json" where
  "mark_error v =
    (case v of JStr s \<Rightarrow> JStr (error_prefix @ s) | JList ps \<Rightarrow> JList (text_part error_prefix # ps) | _ \<Rightarrow> v)"

definition tool_result :: "json_codec \<Rightarrow> string list \<Rightarrow> json_object \<Rightarrow> adapter_error + json_object" where
  "tool_result jc catalog block =
    (case contentWithImages jc catalog (jget block ''content'') of
       Inl e \<Rightarrow> Inl e
     | Inr out \<Rightarrow>
         (let reply = tool_message (as_str (jget block ''tool_use_id''))
          in case map_of block ''is_error'' of
               None \<Rightarrow> Inr (reply out)
             | Some (JBool b) \<Rightarrow> Inr (reply (if b then mark_error out else out))
             | Some _ \<Rightarrow> Inl BadErrorFlag))"

definition user_messages :: "json_codec \<Rightarrow> string list \<Rightarrow> json_object list \<Rightarrow> adapter_error + json_object list" where
  "user_messages jc catalog blocks =
    (let others = filter (\<lambda>b. \<not> block_is ''tool_result'' b) blocks
     in case map_until (tool_result jc catalog) (filter (block_is ''tool_result'') blocks) of
          Inl e \<Rightarrow> Inl e
        | Inr results \<Rightarrow>
            if others = [] then Inr results
            else map_sum id (\<lambda>c. results @ [chat_message ''user'' c]) (contentWithImages jc catalog (JList (map JObj others))))"

definition tool_use_call :: "json_codec \<Rightarrow> string \<Rightarrow> json_object \<Rightarrow> json" where
  "tool_use_call jc spare block =
    (let i = as_str (jget block ''id''); input = jget block ''input''
     in function_call (if i = [] then spare else i) (as_str (jget block ''name''))
          (case jc_marshal jc (if input = JNull then JObj [] else input) of None \<Rightarrow> [] | Some s \<Rightarrow> s))"

definition assistant_turn :: "json_codec \<Rightarrow> (nat \<Rightarrow> string) \<Rightarrow> json_object list \<Rightarrow> json_object" where
  "assistant_turn jc fresh blocks =
    (let uses = filter (block_is ''tool_use'') blocks
     in assistant_message (JStr (extractBlocksText (map JObj blocks)))
          (map (\<lambda>(j, b). tool_use_call jc (fresh j) b) (enumerate 0 uses)))"

definition convertAnthropicMessage ::
    "json_codec \<Rightarrow> string list \<Rightarrow> (nat \<Rightarrow> string) \<Rightarrow> json_object \<Rightarrow> adapter_error + json_object list" where
  "convertAnthropicMessage jc catalog fresh msg =
    (let role = as_str (jget msg ''role'')
     in case jget msg ''content'' of
          JStr s \<Rightarrow> Inr [chat_message role (JStr s)]
        | JList vs \<Rightarrow>
            if vs = [] then Inr []
            else if role = ''user'' then user_messages jc catalog (objects_of (JList vs))
            else if role = ''assistant'' then Inr [assistant_turn jc fresh (objects_of (JList vs))]
            else Inr (if extractBlocksText vs = [] then [] else [chat_message role (JStr (extractBlocksText vs))])
        | _ \<Rightarrow> Inr [])"

subsection \<open>Tools that are discovered\<close>

definition definition_name :: "json_object \<Rightarrow> string" where
  "definition_name tool = as_str (jget (tool_function tool) ''name'')"

text \<open>The names declared so far and those of them that are loaded.\<close>

fun catalog_tools :: "json list \<Rightarrow> string list \<times> string list \<Rightarrow> adapter_error + string list \<times> string list" where
  "catalog_tools [] st = Inr st"
| "catalog_tools (v # vs) st =
    (case v of
       JObj tool \<Rightarrow>
         (let kind = as_str (jget tool ''type''); name = definition_name tool
          in if kind \<noteq> [] \<and> kind \<noteq> ''custom'' \<and> kind \<noteq> ''function'' then Inl (BadToolType kind)
             else if trim_space name = [] then Inl UnnamedTool
             else if name \<in> set (fst st) then Inl RepeatedTool
             else case map_of tool ''defer_loading'' of
               None \<Rightarrow> catalog_tools vs (fst st @ [name], snd st @ [name])
             | Some (JBool deferred) \<Rightarrow> catalog_tools vs (fst st @ [name], if deferred then snd st else snd st @ [name])
             | Some _ \<Rightarrow> Inl BadDeferFlag)
     | _ \<Rightarrow> Inl ToolNotObject)"

function discover :: "string list \<Rightarrow> json list \<Rightarrow> string list \<Rightarrow> adapter_error + string list" where
  "discover catalog [] loaded = Inr loaded"
| "discover catalog (v # vs) loaded =
    (let b = as_obj v
     in if block_is ''tool_reference'' b then
          (let name = as_str (jget b ''tool_name'')
           in if name \<notin> set catalog \<or> name = [] then Inl BadReference else discover catalog vs (loaded @ [name]))
        else if block_is ''tool_use'' b then
          (let name = as_str (jget b ''name'')
           in discover catalog vs (if name \<in> set catalog then loaded @ [name] else loaded))
        else if block_is ''tool_result'' b then
          (case discover catalog (as_list (jget b ''content'')) loaded of
             Inl e \<Rightarrow> Inl e
           | Inr loaded \<Rightarrow> discover catalog vs loaded)
        else discover catalog vs loaded)"
  by pat_completeness auto
termination
proof (relation "measure (\<lambda>(catalog, vs, loaded). size_list size vs)", goal_cases)
  case (4 catalog v vs loaded x)
  have "size_list size (as_list (jget (as_obj v) ''content'')) < Suc (size v + size_list size vs)"
  proof (cases "\<exists>xs. jget (as_obj v) ''content'' = JList xs")
    case True
    then obtain xs where x: "jget (as_obj v) ''content'' = JList xs" ..
    have "size (JObj (as_obj v)) \<le> size v \<or> as_obj v = []" by (cases v) (auto simp: as_obj_def)
    with size_list_member [OF x] x show ?thesis by (auto simp: as_list_def)
  next
    case False
    then show ?thesis by (cases "jget (as_obj v) ''content''") (auto simp: as_list_def)
  qed
  with 4 show ?case by simp
qed auto

declare discover.simps [simp del]

fun discover_messages :: "string list \<Rightarrow> json list \<Rightarrow> string list \<Rightarrow> adapter_error + string list" where
  "discover_messages catalog [] loaded = Inr loaded"
| "discover_messages catalog (v # vs) loaded =
    (case discover catalog (as_list (jget (as_obj v) ''content'')) loaded of
       Inl e \<Rightarrow> Inl e
     | Inr loaded \<Rightarrow> discover_messages catalog vs loaded)"

definition chosen_name :: "json \<Rightarrow> string" where
  "chosen_name v =
    (case v of
       JObj choice \<Rightarrow> if jget choice ''type'' = JStr ''tool'' then as_str (jget choice ''name'') else []
     | JStr choice \<Rightarrow> if choice \<in> {''auto'', ''none'', ''required''} then [] else choice
     | _ \<Rightarrow> [])"

text \<open>The tools to send and the names of all that are defined.\<close>

definition anthropicClientTools :: "json_object \<Rightarrow> adapter_error + json_object list \<times> string list" where
  "anthropicClientTools body =
    (let tools = as_list (jget body ''tools'')
     in case catalog_tools tools ([], []) of
          Inl e \<Rightarrow> Inl e
        | Inr (catalog, loaded) \<Rightarrow>
            (case discover_messages catalog (as_list (jget body ''messages'')) loaded of
               Inl e \<Rightarrow> Inl e
             | Inr loaded \<Rightarrow>
                 let chosen = chosen_name (jget body ''tool_choice'');
                     loaded = (if chosen \<in> set catalog then loaded @ [chosen] else loaded);
                     sent = filter (\<lambda>t. definition_name t \<in> set loaded) (objects_of (JList tools))
                 in if tools \<noteq> [] \<and> sent = [] then Inl NoLoadedTool else Inr (sent, catalog)))"

definition convert_tool :: "string \<Rightarrow> json_object \<Rightarrow> json_object" where
  "convert_tool params tool =
    (if map_of tool ''function'' \<noteq> None then tool
     else [(''type'', JStr ''function''),
       (''function'', JObj (copy_as params ''parameters'' tool (copy_keys [''description''] tool
         [(''name'', JStr (as_str (jget tool ''name'')))])))])"

definition convertAnthropicTools :: "json_object list \<Rightarrow> json list" where
  "convertAnthropicTools tools = map (\<lambda>t. JObj (convert_tool ''input_schema'' t)) tools"

subsection \<open>The Anthropic request\<close>

definition stated_effort :: "json_object \<Rightarrow> string" where
  "stated_effort body =
    (let effort = to_lower (as_str (jget (as_obj (jget body ''output_config'')) ''effort''))
     in if effort \<in> {''low'', ''medium'', ''high'', ''xhigh'', ''max''} then effort else [])"

definition request_effort :: "json_object \<Rightarrow> string" where
  "request_effort body =
    (if stated_effort body \<noteq> [] then stated_effort body
     else case jget body ''thinking'' of
       JObj th \<Rightarrow>
         if equal_fold (as_str (jget th ''type'')) ''disabled'' then [] else budgetToEffort (int_at (jget th ''budget_tokens''))
     | _ \<Rightarrow> [])"

definition choose_parallel :: "json_object \<Rightarrow> json_object \<Rightarrow> adapter_error + json_object" where
  "choose_parallel choice chat =
    (case map_of choice ''disable_parallel_tool_use'' of
       None \<Rightarrow> Inr chat
     | Some (JBool disabled) \<Rightarrow> Inr (jset ''parallel_tool_calls'' (JBool (\<not> disabled)) chat)
     | Some _ \<Rightarrow> Inl BadParallelFlag)"

definition convert_choice :: "json_object \<Rightarrow> adapter_error + json" where
  "convert_choice choice =
    (let kind = as_str (jget choice ''type''); name = as_str (jget choice ''name'')
     in if kind = [] \<or> kind = ''any'' then Inr (JStr ''required'')
        else if kind = ''auto'' \<or> kind = ''none'' then Inr (JStr kind)
        else if kind = ''tool'' then (if trim_space name = [] then Inl UnnamedChoice else Inr (named_choice name))
        else Inl (BadChoiceType kind))"

definition with_choice :: "json_object \<Rightarrow> json_object \<Rightarrow> adapter_error + json_object" where
  "with_choice body chat =
    (case map_of body ''tool_choice'' of
       Some (JObj choice) \<Rightarrow>
         (case choose_parallel choice chat of
            Inl e \<Rightarrow> Inl e
          | Inr chat \<Rightarrow> map_sum id (\<lambda>v. jset ''tool_choice'' v chat) (convert_choice choice))
     | Some (JStr s) \<Rightarrow>
         Inr (jset ''tool_choice'' (if s \<in> {''none'', ''auto'', ''required''} then JStr s else named_choice s) chat)
     | _ \<Rightarrow> Inr chat)"

definition anthropic_chat_messages ::
    "json_codec \<Rightarrow> (nat \<Rightarrow> nat \<Rightarrow> string) \<Rightarrow> string list \<Rightarrow> json_object \<Rightarrow> adapter_error + json_object list" where
  "anthropic_chat_messages jc fresh catalog body =
    (let system = extractSystemText (jget body ''system'');
         lead = (if system \<noteq> [] then [chat_message ''system'' (JStr system)] else [])
     in map_sum id (\<lambda>mss. lead @ concat mss)
          (map_until (\<lambda>(i, m). convertAnthropicMessage jc catalog (fresh i) m)
            (enumerate 0 (objects_of (jget body ''messages'')))))"

definition AnthropicRequestToChat ::
    "json_codec \<Rightarrow> (nat \<Rightarrow> nat \<Rightarrow> string) \<Rightarrow> json_object \<Rightarrow> adapter_error + json_object" where
  "AnthropicRequestToChat jc fresh body =
    (case anthropicClientTools body of
       Inl e \<Rightarrow> Inl e
     | Inr (tools, catalog) \<Rightarrow>
         (case anthropic_chat_messages jc fresh catalog body of
            Inl e \<Rightarrow> Inl e
          | Inr messages \<Rightarrow>
              let chat = copy_keys [''model'', ''max_tokens''] body (chat_start messages);
                  effort = request_effort body;
                  chat = (if effort \<noteq> [] then jset ''reasoning_effort'' (JStr effort) chat else chat);
                  chat = (if tools \<noteq> [] then jset ''tools'' (JList (convertAnthropicTools tools)) chat else chat)
              in map_sum id
                   (\<lambda>chat. copy_as ''stop_sequences'' ''stop'' body (copy_keys [''temperature'', ''top_p'', ''stop''] body chat))
                   (with_choice body chat)))"

subsection \<open>Content of Responses items\<close>

definition firstStr :: "json list \<Rightarrow> string" where
  "firstStr vs = (case filter (\<lambda>s. s \<noteq> []) (map as_str vs) of [] \<Rightarrow> [] | s # _ \<Rightarrow> s)"

definition imageDataURL :: "json_object \<Rightarrow> string" where
  "imageDataURL block =
    (let url = (case jget block ''image_url'' of JStr s \<Rightarrow> s | JObj m \<Rightarrow> as_str (jget m ''url'') | _ \<Rightarrow> []);
         img = as_obj (jget block ''image''); data = as_str (jget img ''data''); kind = as_str (jget img ''media_type'')
     in if url \<noteq> [] then url
        else if data = [] then []
        else ''data:'' @ (if kind = [] then ''image/png'' else kind) @ '';base64,'' @ data)"

definition responses_part :: "json \<Rightarrow> adapter_error + (json \<times> string option) list" where
  "responses_part v =
    (let plain = (\<lambda>t. Inr [(text_part t, Some t)])
     in case v of
          JStr s \<Rightarrow> plain s
        | JObj b \<Rightarrow>
            (if block_is ''refusal'' b then plain (as_str (jget b ''refusal''))
             else if block_is ''input_text'' b \<or> block_is ''text'' b \<or> block_is ''output_text'' b
             then plain (as_str (jget b ''text''))
             else if block_is ''input_image'' b \<or> block_is ''image_url'' b \<or> block_is ''output_image'' b then
               (if imageDataURL b = [] then Inl MissingImageURL
                else Inr [(JObj [(''type'', JStr ''image_url''),
                  (''image_url'', JObj ((''url'', JStr (imageDataURL b)) #
                    (if jget b ''detail'' \<noteq> JNull then [(''detail'', jget b ''detail'')] else [])))], None)])
             else Inr [])
        | _ \<Rightarrow> Inr [])"

definition responsesContentWithImages :: "json_codec \<Rightarrow> json \<Rightarrow> adapter_error + json" where
  "responsesContentWithImages jc v =
    (case v of
       JStr s \<Rightarrow> Inr (JStr s)
     | JList vs \<Rightarrow> map_sum id (\<lambda>pss. joined_parts (concat pss)) (map_until responses_part vs)
     | JNull \<Rightarrow> Inr (JStr [])
     | _ \<Rightarrow> Inr (JStr (case jc_marshal jc v of None \<Rightarrow> [] | Some s \<Rightarrow> s)))"

subsection \<open>Responses items\<close>

record input_state =
  is_messages :: "json_object list"
  is_content :: "json option"
  is_calls :: "json list"

text \<open>\<open>is_content\<close> is None while \<open>pendingSet\<close> is false.\<close>

definition flushAssistant :: "input_state \<Rightarrow> input_state" where
  "flushAssistant s =
    (if is_content s = None \<and> is_calls s = [] then s
     else \<lparr>is_messages = is_messages s @ [assistant_message (case is_content s of None \<Rightarrow> JStr [] | Some c \<Rightarrow> c) (is_calls s)],
           is_content = None, is_calls = []\<rparr>)"

definition item_kind :: "json_object \<Rightarrow> string option" where
  "item_kind item = (case jget item ''type'' of JStr k \<Rightarrow> Some k | _ \<Rightarrow> None)"

definition call_item :: "string \<Rightarrow> json_object \<Rightarrow> json" where
  "call_item spare item =
    (let i = firstStr [jget item ''call_id'', jget item ''id'']; args = as_str (jget item ''arguments'')
     in function_call (if i = [] then spare else i) (as_str (jget item ''name'')) (if args = [] then ''{}'' else args))"

definition emit_message :: "json_object \<Rightarrow> input_state \<Rightarrow> input_state" where
  "emit_message m s = s\<lparr>is_messages := is_messages s @ [m]\<rparr>"

definition convert_item :: "json_codec \<Rightarrow> string \<Rightarrow> json_object \<Rightarrow> input_state \<Rightarrow> adapter_error + input_state" where
  "convert_item jc spare item s =
    (let kind = item_kind item; role = as_str (jget item ''role'');
         plain = (kind = None \<or> kind = Some ''message'');
         content = responsesContentWithImages jc (jget item ''content'')
     in if plain \<and> role \<in> {''user'', ''system'', ''developer''} then
          map_sum id (\<lambda>c. emit_message (chat_message (if role = ''developer'' then ''system'' else role) c) (flushAssistant s)) content
        else if plain \<and> role = ''assistant'' then
          map_sum id (\<lambda>c. (flushAssistant s)\<lparr>is_content := Some c\<rparr>) content
        else if kind = Some ''function_call'' then
          Inr (s\<lparr>is_content := (case is_content s of None \<Rightarrow> Some (JStr []) | c \<Rightarrow> c), is_calls := is_calls s @ [call_item spare item]\<rparr>)
        else if kind = Some ''function_call_output'' then
          map_sum id (\<lambda>c. emit_message (tool_message (as_str (jget item ''call_id'')) c) (flushAssistant s))
            (responsesContentWithImages jc (jget item ''output''))
        else if role \<noteq> [] then map_sum id (\<lambda>c. emit_message (chat_message role c) (flushAssistant s)) content
        else Inr s)"

fun convert_items :: "json_codec \<Rightarrow> (nat \<Rightarrow> string) \<Rightarrow> nat \<Rightarrow> json_object list \<Rightarrow> input_state \<Rightarrow> adapter_error + input_state" where
  "convert_items jc fresh n [] s = Inr s"
| "convert_items jc fresh n (item # rest) s =
    (case convert_item jc (fresh n) item s of Inl e \<Rightarrow> Inl e | Inr s \<Rightarrow> convert_items jc fresh (Suc n) rest s)"

definition convertInputItems :: "json_codec \<Rightarrow> (nat \<Rightarrow> string) \<Rightarrow> json list \<Rightarrow> adapter_error + json_object list" where
  "convertInputItems jc fresh vs =
    map_sum id (\<lambda>s. is_messages (flushAssistant s))
      (convert_items jc fresh 0 (objects_of (JList vs)) \<lparr>is_messages = [], is_content = None, is_calls = []\<rparr>)"

subsection \<open>The Responses request\<close>

definition convertToolsForChat :: "json list \<Rightarrow> json list" where
  "convertToolsForChat vs =
    map (\<lambda>t. JObj (if map_of t ''function'' \<noteq> None then t
        else [(''type'', JStr ''function''),
          (''function'', JObj (copy_keys [''description'', ''parameters'', ''strict''] t [(''name'', JStr (as_str (jget t ''name'')))]))]))
      (filter (block_is ''function'') (objects_of (JList vs)))"

definition responses_choice :: "json \<Rightarrow> json" where
  "responses_choice v =
    (case v of
       JObj choice \<Rightarrow>
         if jget choice ''type'' = JStr ''function'' \<and> as_str (jget choice ''name'') \<noteq> []
         then named_choice (as_str (jget choice ''name'')) else v
     | _ \<Rightarrow> v)"

definition with_reasoning :: "json_object \<Rightarrow> json_object \<Rightarrow> json_object" where
  "with_reasoning body chat =
    (let r = as_obj (jget body ''reasoning'')
     in copy_as ''summary'' ''reasoning_summary'' r (copy_as ''effort'' ''reasoning_effort'' r chat))"

definition with_format :: "json_object \<Rightarrow> json_object \<Rightarrow> json_object" where
  "with_format body chat =
    (let t = as_obj (jget body ''text'');
         chat = (case jget t ''format'' of
             JObj f \<Rightarrow> jset ''response_format''
               (if jget f ''type'' = JStr ''json_schema''
                then JObj [(''type'', JStr ''json_schema''),
                  (''json_schema'', JObj (copy_keys [''name'', ''description'', ''schema'', ''strict''] f []))]
                else JObj f) chat
           | _ \<Rightarrow> chat)
     in copy_keys [''verbosity''] t chat)"

definition with_limit :: "json_object \<Rightarrow> json_object \<Rightarrow> json_object" where
  "with_limit body chat =
    (if map_of body ''max_output_tokens'' \<noteq> None then copy_as ''max_output_tokens'' ''max_tokens'' body chat
     else copy_keys [''max_tokens''] body chat)"

definition ResponsesRequestToChat ::
    "json_codec \<Rightarrow> (nat \<Rightarrow> string) \<Rightarrow> json_object \<Rightarrow> adapter_error + json_object" where
  "ResponsesRequestToChat jc fresh body =
    (let instructions = jget body ''instructions'';
         lead = (if instructions \<noteq> JNull \<and> instructions \<noteq> JStr [] then [chat_message ''system'' instructions] else []);
         converted =
           (case jget body ''input'' of
              JStr s \<Rightarrow> Inr [chat_message ''user'' (JStr s)]
            | JList vs \<Rightarrow> convertInputItems jc fresh vs
            | _ \<Rightarrow> Inr []);
         finish = (\<lambda>ms.
           let chat = copy_keys [''model''] body (chat_start (lead @ ms));
               tools = as_list (jget body ''tools'');
               chat = (if tools \<noteq> [] then jset ''tools'' (JList (convertToolsForChat tools)) chat else chat);
               chat = (case map_of body ''tool_choice'' of None \<Rightarrow> chat | Some v \<Rightarrow> jset ''tool_choice'' (responses_choice v) chat);
               chat = copy_keys [''temperature'', ''top_p'', ''stop'', ''seed'', ''presence_penalty'', ''frequency_penalty'',
                 ''response_format'', ''reasoning_effort''] body chat
           in with_limit body (copy_keys [''parallel_tool_calls''] body (with_format body (with_reasoning body chat))))
     in map_sum id finish converted)"

end
