(* ===== verification/ChatAdapterProps.thy ===== *)
theory ChatAdapterProps
  imports ChatAdapters ProjectionProps
begin

text \<open>
  What the conversions to Chat keep: results of tools stay behind the messages that call them, and no call
  or result of a Responses history is lost or moved past another one.
\<close>

lemma objects_of_Cons: "objects_of (JList (v # vs)) = (case v of JObj m \<Rightarrow> [m] | _ \<Rightarrow> []) @ objects_of (JList vs)"
  by (auto simp: objects_of_def as_list_def map_filter_simps split: json.split)

lemma map_sum_Inr: "(map_sum id f x = Inr y) = (\<exists>z. x = Inr z \<and> y = f z)"
  by (cases x) auto

lemma map_until_list_all2: "map_until f xs = Inr ys \<Longrightarrow> list_all2 (\<lambda>x y. f x = Inr y) xs ys"
  by (induction xs arbitrary: ys) (auto split: sum.splits)

lemma chat_message_at [simp]:
  "jget (chat_message role c) ''role'' = JStr role" "jget (chat_message role c) ''content'' = c"
  "jget (chat_message role c) ''tool_call_id'' = JNull" "jget (chat_message role c) ''tool_calls'' = JNull"
  by (simp_all add: chat_message_def jget_def)

lemma tool_message_at [simp]:
  "jget (tool_message i c) ''role'' = JStr ''tool''" "jget (tool_message i c) ''tool_call_id'' = JStr i"
  "jget (tool_message i c) ''tool_calls'' = JNull"
  by (simp_all add: tool_message_def jget_def)

lemma assistant_message_at [simp]:
  "jget (assistant_message c calls) ''role'' = JStr ''assistant''"
  "objects_of (jget (assistant_message c calls) ''tool_calls'') = objects_of (JList calls)"
  by (simp_all add: assistant_message_def chat_message_def jget_def as_list_def objects_of_def)

subsection \<open>Anthropic messages\<close>

definition use_ids :: "json_object \<Rightarrow> string list" where
  "use_ids m =
    (if is_role ''assistant'' m
     then map (\<lambda>b. as_str (jget b ''id'')) (filter (block_is ''tool_use'') (objects_of (jget m ''content''))) else [])"

definition result_ids :: "json_object \<Rightarrow> string list" where
  "result_ids m =
    (if is_role ''user'' m
     then map (\<lambda>b. as_str (jget b ''tool_use_id'')) (filter (block_is ''tool_result'') (objects_of (jget m ''content''))) else [])"

text \<open>Every result with an identifier answers a call of the message before it.\<close>

fun results_follow :: "string list \<Rightarrow> json_object list \<Rightarrow> bool" where
  "results_follow ids [] = True"
| "results_follow ids (m # ms) = (list_all (\<lambda>i. i = [] \<or> i \<in> set ids) (result_ids m) \<and> results_follow (use_ids m) ms)"

lemma follow_tools:
  "list_all2 (\<lambda>b m. tool_result jc catalog b = Inr m) bs ms \<Longrightarrow>
   list_all (\<lambda>i. i = [] \<or> i \<in> set ids) (map (\<lambda>b. as_str (jget b ''tool_use_id'')) bs) \<Longrightarrow>
   tools_follow ids ms \<and> calls_open ids ms = ids"
proof (induction bs ms rule: list_all2_induct)
  case (Cons b bs m ms)
  from Cons.hyps obtain c where "m = tool_message (as_str (jget b ''tool_use_id'')) c"
    by (auto simp: tool_result_def Let_def split: sum.splits option.splits json.splits if_split_asm)
  with Cons show ?case by (simp add: is_role_def as_str_def)
qed simp

lemma turn_ids: "set (filter (\<lambda>i. i \<noteq> []) (map (\<lambda>b. as_str (jget b ''id'')) (filter (block_is ''tool_use'') bs)))
  \<subseteq> set (message_call_ids (assistant_turn jc fresh bs))"
proof -
  have *: "set (filter (\<lambda>i. i \<noteq> []) (map (\<lambda>b. as_str (jget b ''id'')) us)) \<subseteq>
      set (map (\<lambda>c. as_str (jget c ''id'')) (objects_of (JList (map (\<lambda>(j, b). tool_use_call jc (fresh j) b) (enumerate n us)))))"
    for us n
    by (induction us arbitrary: n)
      (auto simp: objects_of_Cons tool_use_call_def function_call_def Let_def jget_def as_str_def)
  from *[of "filter (block_is ''tool_use'') bs" 0] show ?thesis
    by (auto simp: message_call_ids_def assistant_turn_def Let_def)
qed

lemma convert_follow:
  assumes c: "convertAnthropicMessage jc catalog fresh m = Inr out"
    and ok: "list_all (\<lambda>i. i = [] \<or> i \<in> set ids) (result_ids m)"
  shows "tools_follow ids out \<and> set (filter (\<lambda>i. i \<noteq> []) (use_ids m)) \<subseteq> set (calls_open ids out)"
proof (cases "\<exists>vs. jget m ''content'' = JList vs \<and> vs \<noteq> []")
  case False
  then have u: "use_ids m = []"
    by (cases "jget m ''content''") (auto simp: use_ids_def objects_of_def as_list_def map_filter_simps)
  from False c have "out = [] \<or> (\<exists>s. out = [chat_message (as_str (jget m ''role'')) (JStr s)])"
    by (auto simp: convertAnthropicMessage_def Let_def split: json.splits if_split_asm)
  with u show ?thesis by (auto simp: is_role_def as_str_def Let_def)
next
  case True
  then obtain vs where v: "jget m ''content'' = JList vs" "vs \<noteq> []" by blast
  consider (user) "is_role ''user'' m" | (assistant) "is_role ''assistant'' m"
    | (other) "\<not> is_role ''user'' m" "\<not> is_role ''assistant'' m" by blast
  then show ?thesis
  proof cases
    case user
    let ?bs = "objects_of (JList vs)"
    from c v user have "user_messages jc catalog ?bs = Inr out"
      by (simp add: convertAnthropicMessage_def Let_def is_role_def as_str_def)
    then obtain rs rest where r: "map_until (tool_result jc catalog) (filter (block_is ''tool_result'') ?bs) = Inr rs"
      and o: "out = rs @ rest" "rest = [] \<or> (\<exists>c. rest = [chat_message ''user'' c])"
      by (auto simp: user_messages_def Let_def map_sum_Inr split: sum.splits if_split_asm)
    from follow_tools [OF map_until_list_all2 [OF r], of ids] ok user v
    have f: "tools_follow ids rs" by (simp add: result_ids_def)
    have "use_ids m = []" using user by (auto simp: use_ids_def is_role_def)
    with f o show ?thesis by (auto simp: follow_append is_role_def)
  next
    case assistant
    with c v have "out = [assistant_turn jc fresh (objects_of (JList vs))]"
      by (simp add: convertAnthropicMessage_def Let_def is_role_def as_str_def)
    with turn_ids [of "objects_of (JList vs)" jc fresh] assistant v show ?thesis
      by (simp add: use_ids_def is_role_def assistant_turn_def Let_def)
  next
    case other
    with c v have "out = [] \<or> (\<exists>s. out = [chat_message (as_str (jget m ''role'')) (JStr s)])"
      by (auto simp: convertAnthropicMessage_def Let_def is_role_def as_str_role split: if_split_asm)
    with other show ?thesis by (auto simp: use_ids_def is_role_def as_str_def Let_def)
  qed
qed

lemma converted_follow:
  "\<lbrakk>list_all2 (\<lambda>p out. convertAnthropicMessage jc catalog (fresh (fst p)) (snd p) = Inr out) ps outs;
    results_follow ids (map snd ps); set (filter (\<lambda>i. i \<noteq> []) ids) \<subseteq> set ids'\<rbrakk> \<Longrightarrow> tools_follow ids' (concat outs)"
proof (induction ps outs arbitrary: ids ids' rule: list_all2_induct)
  case (Cons p ps out outs)
  have "list_all (\<lambda>i. i = [] \<or> i \<in> set ids') (result_ids (snd p))"
    using Cons.prems by (auto simp: list_all_iff)
  from convert_follow [OF Cons.hyps(1) this] Cons.IH [of "use_ids (snd p)" "calls_open ids' out"] Cons.prems(1)
  show ?case by (simp add: follow_append)
qed simp

lemma copied_messages:
  "jget (copy_keys ks src m) ''messages'' = jget m ''messages''" if "''messages'' \<notin> set ks" for ks
proof -
  have "jget (fold (\<lambda>k m. case map_of src k of None \<Rightarrow> m | Some v \<Rightarrow> jset k v m) ks m) ''messages'' = jget m ''messages''"
    using that by (induction ks arbitrary: m) (auto split: option.split)
  then show ?thesis by (simp add: copy_keys_def)
qed

lemma copied_as: "l \<noteq> ''messages'' \<Longrightarrow> jget (copy_as k l src m) ''messages'' = jget m ''messages''"
  by (simp add: copy_as_def split: option.split)

lemma chosen_messages: "with_choice body chat = Inr out \<Longrightarrow> jget out ''messages'' = jget chat ''messages''"
  by (auto simp: with_choice_def choose_parallel_def map_sum_Inr split: option.splits json.splits sum.splits)

lemma started_messages: "jget (chat_start ms) ''messages'' = JList (map JObj ms)"
  by (simp add: chat_start_def jget_def)


text \<open>The comment of the ladder calls 2048 medium.\<close>

lemma budget_2048_is_low: "budgetToEffort 2048 = ''low''"
  by (simp add: budgetToEffort_def)

subsection \<open>Responses items\<close>

definition item_id :: "json_object \<Rightarrow> string" where
  "item_id item = firstStr [jget item ''call_id'', jget item ''id'']"

text \<open>
  Every output with an identifier answers one of the calls before it, with nothing but outputs and items
  that are not converted in between. \<open>answering\<close>: an output came after those calls.
\<close>

fun items_follow :: "string list \<Rightarrow> bool \<Rightarrow> json_object list \<Rightarrow> bool" where
  "items_follow ids answering [] = True"
| "items_follow ids answering (item # rest) =
    (if item_kind item = Some ''function_call'' then items_follow ((if answering then [] else ids) @ [item_id item]) False rest
     else if item_kind item = Some ''function_call_output'' then
       (let i = as_str (jget item ''call_id'') in i = [] \<or> i \<in> set ids) \<and> items_follow ids True rest
     else if as_str (jget item ''role'') = [] then items_follow ids answering rest
     else items_follow [] False rest)"

fun item_calls :: "(nat \<Rightarrow> string) \<Rightarrow> nat \<Rightarrow> json_object list \<Rightarrow> json list" where
  "item_calls fresh n [] = []"
| "item_calls fresh n (item # rest) =
    (if item_kind item = Some ''function_call'' then [call_item (fresh n) item] else []) @ item_calls fresh (Suc n) rest"

definition message_calls :: "json_object list \<Rightarrow> json list" where
  "message_calls ms = concat (map (\<lambda>m. as_list (jget m ''tool_calls'')) ms)"

definition answered :: "json_object list \<Rightarrow> string list" where
  "answered ms = map (\<lambda>m. as_str (jget m ''tool_call_id'')) (filter (\<lambda>m. map_of m ''tool_call_id'' \<noteq> None) ms)"

definition item_answers :: "json_object list \<Rightarrow> string list" where
  "item_answers items = map (\<lambda>m. as_str (jget m ''call_id'')) (filter (\<lambda>m. item_kind m = Some ''function_call_output'') items)"

definition ids_of :: "json list \<Rightarrow> string list" where
  "ids_of calls = filter (\<lambda>i. i \<noteq> []) (map (\<lambda>c. as_str (jget c ''id'')) (objects_of (JList calls)))"

definition input_ok :: "string list \<Rightarrow> bool \<Rightarrow> input_state \<Rightarrow> bool" where
  "input_ok ids answering s =
    (tools_follow [] (is_messages s) \<and> (is_content s = None \<longrightarrow> is_calls s = []) \<and>
     (if answering then is_content s = None \<and> set (filter (\<lambda>i. i \<noteq> []) ids) \<subseteq> set (calls_open [] (is_messages s))
      else if is_content s = None then ids = []
      else set (filter (\<lambda>i. i \<noteq> []) ids) \<subseteq> set (ids_of (is_calls s))))"

lemma assistant_ids: "message_call_ids (assistant_message c calls) = ids_of calls"
  by (simp add: message_call_ids_def ids_of_def)

lemma chat_message_facts:
  "message_calls [chat_message role c] = []" "answered [chat_message role c] = []"
  "message_calls [tool_message i c] = []" "answered [tool_message i c] = [i]"
  "message_calls [assistant_message c calls] = calls" "answered [assistant_message c calls] = []"
  by (simp_all add: message_calls_def answered_def chat_message_def tool_message_def assistant_message_def jget_def as_list_def as_str_def)

lemma kept_append:
  "message_calls (ms @ ns) = message_calls ms @ message_calls ns" "answered (ms @ ns) = answered ms @ answered ns"
  by (simp_all add: message_calls_def answered_def)

definition pending_calls :: "input_state \<Rightarrow> json list" where
  "pending_calls s = message_calls (is_messages s) @ is_calls s"

lemma flush_facts:
  "is_content (flushAssistant s) = None" "pending_calls (flushAssistant s) = pending_calls s"
  "answered (is_messages (flushAssistant s)) = answered (is_messages s)"
  "(is_content s = None \<longrightarrow> is_calls s = []) \<Longrightarrow> is_calls (flushAssistant s) = []"
  "tools_follow [] (is_messages (flushAssistant s)) = tools_follow [] (is_messages s)"
  by (auto simp: flushAssistant_def pending_calls_def kept_append chat_message_facts follow_append is_role_def)

lemma flush_open:
  "input_ok ids answering s \<Longrightarrow> set (filter (\<lambda>i. i \<noteq> []) ids) \<subseteq> set (calls_open [] (is_messages (flushAssistant s)))"
  by (auto simp: flushAssistant_def input_ok_def calls_open_append is_role_def assistant_ids split: if_split_asm)

lemma call_id: "item_id item \<noteq> [] \<Longrightarrow> ids_of [call_item spare item] = [item_id item]"
  by (simp add: ids_of_def objects_of_Cons objects_of_def as_list_def map_filter_simps call_item_def function_call_def
      Let_def item_id_def jget_def as_str_def)

lemma ids_of_append: "ids_of (cs @ ds) = ids_of cs @ ids_of ds"
  by (simp add: ids_of_def objects_of_def as_list_def map_filter_def)

text \<open>The state after a message: nothing is pending but the content of an assistant.\<close>

lemma item_step:
  assumes c: "convert_item jc spare item s = Inr t" and ok: "is_content s = None \<longrightarrow> is_calls s = []"
  shows "pending_calls t = pending_calls s @ item_calls (\<lambda>_. spare) 0 [item]"
    and "answered (is_messages t) = answered (is_messages s) @ item_answers [item]"
    and "is_content t = None \<longrightarrow> is_calls t = []"
proof -
  have m: "pending_calls (emit_message m u) = message_calls (is_messages u @ [m]) @ is_calls u" for m u
    by (simp add: pending_calls_def emit_message_def)
  from c flush_facts(4) [OF ok] flush_facts(2) [of s]
  show "pending_calls t = pending_calls s @ item_calls (\<lambda>_. spare) 0 [item]"
    by (auto simp: convert_item_def Let_def map_sum_Inr pending_calls_def emit_message_def kept_append chat_message_facts
        split: if_split_asm)
  from c flush_facts(3) [of s]
  show "answered (is_messages t) = answered (is_messages s) @ item_answers [item]"
    by (auto simp: convert_item_def Let_def map_sum_Inr emit_message_def kept_append chat_message_facts item_answers_def
        split: if_split_asm)
  from c ok flush_facts(4) [OF ok]
  show "is_content t = None \<longrightarrow> is_calls t = []"
    by (auto simp: convert_item_def Let_def map_sum_Inr emit_message_def split: if_split_asm option.split_asm)
qed

lemma emit_follow:
  assumes "tools_follow [] (is_messages s)"
  shows "tools_follow [] (is_messages (emit_message (chat_message role c) (flushAssistant s)))"
  using assms by (simp add: emit_message_def follow_append flush_facts is_role_def as_str_def)

lemma item_follow:
  assumes c: "convert_item jc spare item s = Inr t" and ok: "input_ok ids answering s"
    and f: "items_follow ids answering (item # rest)"
  shows "\<exists>ids' answering'. input_ok ids' answering' t \<and> items_follow ids' answering' rest"
proof -
  let ?role = "as_str (jget item ''role'')"
  consider (call) "item_kind item = Some ''function_call''" | (out) "item_kind item = Some ''function_call_output''"
    | (skip) "item_kind item \<noteq> Some ''function_call''" "item_kind item \<noteq> Some ''function_call_output''" "?role = []"
    | (message) "item_kind item \<noteq> Some ''function_call''" "item_kind item \<noteq> Some ''function_call_output''" "?role \<noteq> []" by blast
  then show ?thesis
  proof cases
    case call
    then have t: "t = s\<lparr>is_content := (case is_content s of None \<Rightarrow> Some (JStr []) | c \<Rightarrow> c), is_calls := is_calls s @ [call_item spare item]\<rparr>"
      using c by (simp add: convert_item_def Let_def)
    have i: "set (filter (\<lambda>i. i \<noteq> []) [item_id item]) \<subseteq> set (ids_of [call_item spare item])"
      by (simp add: call_id)
    have "input_ok ((if answering then [] else ids) @ [item_id item]) False t"
      using ok i unfolding t input_ok_def by (auto simp: ids_of_append split: option.splits)
    with f call show ?thesis by auto
  next
    case out
    let ?i = "as_str (jget item ''call_id'')"
    from out c obtain v where t: "t = emit_message (tool_message ?i v) (flushAssistant s)"
      by (auto simp: convert_item_def Let_def map_sum_Inr)
    have "tools_follow [] (is_messages t)" "calls_open [] (is_messages t) = calls_open [] (is_messages (flushAssistant s))"
      using f out ok flush_open [OF ok] flush_facts(5) [of s]
      by (auto simp: t emit_message_def follow_append calls_open_append is_role_def as_str_def input_ok_def Let_def)
    then have "input_ok ids True t"
      using flush_open [OF ok] flush_facts(1,4) [of s] ok by (auto simp: input_ok_def t emit_message_def)
    with f out show ?thesis by auto
  next
    case skip
    then have "t = s" using c by (simp add: convert_item_def Let_def)
    with ok f skip show ?thesis by auto
  next
    case message
    have fl: "tools_follow [] (is_messages s)" "is_content s = None \<longrightarrow> is_calls s = []" using ok by (simp_all add: input_ok_def)
    from message c have "(\<exists>role v. t = emit_message (chat_message role v) (flushAssistant s)) \<or>
        (\<exists>v. t = (flushAssistant s)\<lparr>is_content := Some v\<rparr>)"
      by (auto simp: convert_item_def Let_def map_sum_Inr split: if_split_asm)
    then have "input_ok [] False t"
    proof
      assume "\<exists>role v. t = emit_message (chat_message role v) (flushAssistant s)"
      then obtain role v where t: "t = emit_message (chat_message role v) (flushAssistant s)" by blast
      with emit_follow [OF fl(1), of role v] flush_facts(1) [of s] flush_facts(4) [OF fl(2)] show ?thesis
        by (simp add: input_ok_def emit_message_def)
    next
      assume "\<exists>v. t = (flushAssistant s)\<lparr>is_content := Some v\<rparr>"
      with fl flush_facts(5) [of s] show ?thesis by (auto simp: input_ok_def)
    qed
    with f message show ?thesis by auto
  qed
qed

lemma items_calls_shift: "item_calls fresh n [item] = item_calls (\<lambda>_. fresh n) 0 [item]"
  by simp

lemma items_ok:
  "\<lbrakk>convert_items jc fresh n items s = Inr t; is_content s = None \<longrightarrow> is_calls s = []\<rbrakk> \<Longrightarrow>
   pending_calls t = pending_calls s @ item_calls fresh n items \<and>
   answered (is_messages t) = answered (is_messages s) @ item_answers items \<and> (is_content t = None \<longrightarrow> is_calls t = [])"
proof (induction items arbitrary: n s)
  case (Cons item items)
  then obtain u where u: "convert_item jc (fresh n) item s = Inr u" and r: "convert_items jc fresh (Suc n) items u = Inr t"
    by (auto split: sum.splits)
  have a: "item_answers (item # items) = item_answers [item] @ item_answers items" by (simp add: item_answers_def)
  from item_step [OF u Cons.prems(2)] Cons.IH [OF r] show ?case unfolding a by simp
qed (simp_all add: item_answers_def)

lemma items_follow_ok:
  "\<lbrakk>convert_items jc fresh n items s = Inr t; input_ok ids answering s; items_follow ids answering items\<rbrakk> \<Longrightarrow>
   tools_follow [] (is_messages (flushAssistant t))"
proof (induction items arbitrary: n s ids answering)
  case Nil
  then show ?case by (simp add: flush_facts input_ok_def)
next
  case (Cons item items)
  then obtain u where u: "convert_item jc (fresh n) item s = Inr u" and r: "convert_items jc fresh (Suc n) items u = Inr t"
    by (auto split: sum.splits)
  from item_follow [OF u Cons.prems(2,3)] Cons.IH [OF r] show ?case by blast
qed

text \<open>C36. The conversion of a Responses history makes exactly its calls, in order, and exactly one result for
  each output, in order; and when every output answers one of the calls before it, the results stand right
  behind the message with those calls.\<close>

theorem responses_items_kept:
  "case convertInputItems jc fresh vs of
     Inl e \<Rightarrow> True
   | Inr ms \<Rightarrow>
       message_calls ms = item_calls fresh 0 (objects_of (JList vs)) \<and>
       answered ms = item_answers (objects_of (JList vs)) \<and>
       (if items_follow [] False (objects_of (JList vs)) then tools_follow [] ms else True)"
proof (cases "convertInputItems jc fresh vs")
  case (Inr ms)
  let ?s = "\<lparr>is_messages = [], is_content = None, is_calls = []\<rparr>"
  from Inr obtain t where t: "convert_items jc fresh 0 (objects_of (JList vs)) ?s = Inr t" and m: "ms = is_messages (flushAssistant t)"
    by (auto simp: convertInputItems_def map_sum_Inr)
  note k = items_ok [OF t]
  have "message_calls ms = pending_calls t"
    using k flush_facts(2,4) [of t] unfolding m by (simp add: pending_calls_def)
  then have "message_calls ms = item_calls fresh 0 (objects_of (JList vs))" using k by (simp add: pending_calls_def message_calls_def)
  moreover have "answered ms = item_answers (objects_of (JList vs))"
    using k flush_facts(3) [of t] unfolding m by (simp add: answered_def)
  moreover have "items_follow [] False (objects_of (JList vs)) \<Longrightarrow> tools_follow [] ms"
    unfolding m by (rule items_follow_ok [OF t, of "[]" False]) (simp_all add: input_ok_def)
  ultimately show ?thesis using Inr by simp
qed simp

end
