(* ===== verification/AnthropicConverter.thy ===== *)
theory AnthropicConverter
  imports TokenUsage Bridge GoText Projection
begin

text \<open>
  The converter of a Chat stream into the events of an Anthropic stream, or into one message:
  internal/core/protocol/chatstream/anthropic_stream.go, with the bounded log copies of
  internal/core/provider/log_capture.go. An event is its kind with its data; \<open>event_text\<close> is its frame.
  The slots of tools are kept in the order in which they appeared. The clock, which the
  converter stores and never reads, is left out.
\<close>

subsection \<open>Copies for the log\<close>

record log_policy =
  lp_Enabled :: bool
  lp_Limit :: int

record log_capture =
  lc_text :: string
  lc_full :: bool

definition clip_runes :: "string \<Rightarrow> int \<Rightarrow> string" where
  "clip_runes s room = take (rune_cut s (nat room)) s"

definition capture :: "log_policy \<Rightarrow> string \<Rightarrow> log_capture \<Rightarrow> log_capture" where
  "capture p s b =
    (if \<not> lp_Enabled p \<or> lc_full b then b
     else
       let room = lp_Limit p - int (length (lc_text b))
       in if 0 < lp_Limit p \<and> room < int (length s)
          then \<lparr>lc_text = lc_text b @ clip_runes s room, lc_full = True\<rparr>
          else b\<lparr>lc_text := lc_text b @ s\<rparr>)"

definition Full :: "log_policy \<Rightarrow> log_capture \<Rightarrow> bool" where
  "Full p b = (lc_full b \<or> \<not> lp_Enabled p)"

subsection \<open>The converter\<close>

type_synonym event = "string \<times> json_object"

record tool_slot =
  ts_id :: string
  ts_name :: string
  ts_args :: string
  ts_blockIdx :: nat
  ts_open :: bool

record converter =
  ac_msgID :: string
  ac_model :: string
  ac_nonstream :: bool
  ac_emittedStart :: bool
  ac_policy :: "log_policy option"
  ac_textLog :: log_capture
  ac_thinkingLog :: log_capture
  ac_toolLogBytes :: nat
  ac_toolLogFull :: bool
  ac_text :: string
  ac_textOpen :: bool
  ac_textIdx :: nat
  ac_thinking :: string
  ac_thinkingOpen :: bool
  ac_thinkingIdx :: nat
  ac_tools :: "(int \<times> tool_slot) list"
  ac_next :: nat
  ac_finish :: string
  ac_usage :: "json_object option"

definition empty_capture :: log_capture where
  "empty_capture = \<lparr>lc_text = [], lc_full = False\<rparr>"

definition NewAnthropicStreamConverter :: "string \<Rightarrow> string \<Rightarrow> converter" where
  "NewAnthropicStreamConverter fresh model =
    \<lparr>ac_msgID = fresh, ac_model = (if model = [] then ''unknown'' else model), ac_nonstream = False,
     ac_emittedStart = False, ac_policy = None, ac_textLog = empty_capture, ac_thinkingLog = empty_capture,
     ac_toolLogBytes = 0, ac_toolLogFull = False, ac_text = [], ac_textOpen = False, ac_textIdx = 0, ac_thinking = [],
     ac_thinkingOpen = False, ac_thinkingIdx = 0, ac_tools = [], ac_next = 0, ac_finish = [], ac_usage = None\<rparr>"

definition SetNonstream :: "converter \<Rightarrow> converter" where
  "SetNonstream c = c\<lparr>ac_nonstream := True\<rparr>"

definition SetStreamingLogPolicy :: "log_policy \<Rightarrow> converter \<Rightarrow> converter" where
  "SetStreamingLogPolicy p c = c\<lparr>ac_policy := Some p, ac_textLog := empty_capture, ac_thinkingLog := empty_capture\<rparr>"

definition evt :: "converter \<Rightarrow> string \<Rightarrow> json_object \<Rightarrow> event list" where
  "evt c kind data = (if ac_nonstream c then [] else [(kind, data)])"

definition event_text :: "json_codec \<Rightarrow> event \<Rightarrow> string" where
  "event_text jc e =
    ''event: '' @ fst e @ [CHR 0x0A] @ ''data: '' @
    (case jc_marshal jc (JObj ((''type'', JStr (fst e)) # snd e)) of None \<Rightarrow> [] | Some s \<Rightarrow> s) @ [CHR 0x0A, CHR 0x0A]"

definition mapStopReason :: "string \<Rightarrow> string" where
  "mapStopReason sr =
    (if sr = ''tool_calls'' then ''tool_use'' else if sr = ''length'' then ''max_tokens''
     else if sr = ''content_filter'' then ''refusal'' else ''end_turn'')"

definition completionStatus :: "string \<Rightarrow> string" where
  "completionStatus reason = (if reason = ''length'' \<or> reason = ''content_filter'' then ''incomplete'' else ''completed'')"

definition anthropic_usage :: "json_object \<Rightarrow> json_object" where
  "anthropic_usage u =
    (let (input, output) = Totals u; (rd, wr) = ValidCache u;
         fresh = wrap64 (wrap64 (input - (case rd of None \<Rightarrow> 0 | Some n \<Rightarrow> n)) - (case wr of None \<Rightarrow> 0 | Some n \<Rightarrow> n))
     in [(''output_tokens'', JInt output)] @
        (case rd of None \<Rightarrow> [] | Some n \<Rightarrow> [(''cache_read_input_tokens'', JInt n)]) @
        (case wr of
           None \<Rightarrow> if rd \<noteq> None then [(''cache_creation_input_tokens'', JInt 0)] else []
         | Some n \<Rightarrow> [(''cache_creation_input_tokens'', JInt n)]) @
        [(''input_tokens'', JInt fresh)])"

subsection \<open>Blocks\<close>

definition block_event :: "converter \<Rightarrow> string \<Rightarrow> nat \<Rightarrow> json_object \<Rightarrow> event list" where
  "block_event c kind i data = evt c kind ((''index'', JInt (int i)) # data)"

definition close_thinking :: "converter \<Rightarrow> converter \<times> event list" where
  "close_thinking c =
    (if ac_thinkingOpen c then (c\<lparr>ac_thinkingOpen := False\<rparr>, block_event c ''content_block_stop'' (ac_thinkingIdx c) []) else (c, []))"

definition close_text :: "converter \<Rightarrow> converter \<times> event list" where
  "close_text c =
    (if ac_textOpen c then (c\<lparr>ac_textOpen := False\<rparr>, block_event c ''content_block_stop'' (ac_textIdx c) []) else (c, []))"

definition close_tools :: "converter \<Rightarrow> converter \<times> event list" where
  "close_tools c =
    (c\<lparr>ac_tools := map (\<lambda>(k, t). (k, t\<lparr>ts_open := False\<rparr>)) (ac_tools c)\<rparr>,
     concat (map (\<lambda>(k, t). if ts_open t then block_event c ''content_block_stop'' (ts_blockIdx t) [] else []) (ac_tools c)))"

text \<open>Runs two steps one after the other.\<close>

definition then_do :: "'s \<times> 'e list \<Rightarrow> ('s \<Rightarrow> 's \<times> 'e list) \<Rightarrow> 's \<times> 'e list" where
  "then_do r f = (case r of (s, es) \<Rightarrow> (case f s of (s, fs) \<Rightarrow> (s, es @ fs)))"

definition close_all :: "converter \<Rightarrow> converter \<times> event list" where
  "close_all c = then_do (then_do (close_thinking c) close_text) close_tools"

definition open_thinking :: "converter \<Rightarrow> converter \<times> event list" where
  "open_thinking c =
    (if ac_thinkingOpen c then (c, [])
     else then_do (close_text c) (\<lambda>c.
       (c\<lparr>ac_thinkingIdx := ac_next c, ac_next := Suc (ac_next c), ac_thinkingOpen := True\<rparr>,
        block_event c ''content_block_start'' (ac_next c)
          [(''content_block'', JObj [(''type'', JStr ''thinking''), (''thinking'', JStr [])])])))"

definition open_text :: "converter \<Rightarrow> converter \<times> event list" where
  "open_text c =
    (if ac_textOpen c then (c, [])
     else then_do (close_thinking c) (\<lambda>c.
       (c\<lparr>ac_textIdx := ac_next c, ac_next := Suc (ac_next c), ac_textOpen := True\<rparr>,
        block_event c ''content_block_start'' (ac_next c)
          [(''content_block'', JObj [(''type'', JStr ''text''), (''text'', JStr [])])])))"

definition note_thinking :: "string \<Rightarrow> converter \<Rightarrow> converter" where
  "note_thinking s c =
    (case ac_policy c of
       Some p \<Rightarrow> if ac_nonstream c then c\<lparr>ac_thinking := ac_thinking c @ s\<rparr> else c\<lparr>ac_thinkingLog := capture p s (ac_thinkingLog c)\<rparr>
     | None \<Rightarrow> c\<lparr>ac_thinking := ac_thinking c @ s\<rparr>)"

definition note_text :: "string \<Rightarrow> converter \<Rightarrow> converter" where
  "note_text s c =
    (case ac_policy c of
       Some p \<Rightarrow> if ac_nonstream c then c\<lparr>ac_text := ac_text c @ s\<rparr> else c\<lparr>ac_textLog := capture p s (ac_textLog c)\<rparr>
     | None \<Rightarrow> c\<lparr>ac_text := ac_text c @ s\<rparr>)"

definition feed_thinking :: "string \<Rightarrow> converter \<Rightarrow> converter \<times> event list" where
  "feed_thinking s c =
    (if s = [] then (c, [])
     else then_do (open_thinking (note_thinking s c)) (\<lambda>c.
       (c, block_event c ''content_block_delta'' (ac_thinkingIdx c)
         [(''delta'', JObj [(''type'', JStr ''thinking_delta''), (''thinking'', JStr s)])])))"

definition feed_text :: "string \<Rightarrow> converter \<Rightarrow> converter \<times> event list" where
  "feed_text s c =
    (if s = [] then (c, [])
     else then_do (open_text (note_text s c)) (\<lambda>c.
       (c, block_event c ''content_block_delta'' (ac_textIdx c)
         [(''delta'', JObj [(''type'', JStr ''text_delta''), (''text'', JStr s)])])))"

subsection \<open>Tool calls\<close>

text \<open>The share of the arguments that the log keeps, and the state of the log.\<close>

definition appendToolLog :: "log_policy \<Rightarrow> string \<Rightarrow> converter \<Rightarrow> string \<times> converter" where
  "appendToolLog p args c =
    (if \<not> lp_Enabled p \<or> ac_toolLogFull c then ([], c)
     else
       let room = lp_Limit p - int (ac_toolLogBytes c); cut = (0 < lp_Limit p \<and> room < int (length args));
           args = (if cut then clip_runes args room else args)
       in (args, c\<lparr>ac_toolLogFull := cut, ac_toolLogBytes := ac_toolLogBytes c + length args\<rparr>))"

definition set_slot :: "int \<Rightarrow> tool_slot \<Rightarrow> converter \<Rightarrow> converter" where
  "set_slot k t c = c\<lparr>ac_tools := AList.update k t (ac_tools c)\<rparr>"

text \<open>The slot of a call, made when it is new, with the identifier and the name the call states.\<close>

definition call_slot :: "int \<Rightarrow> json_object \<Rightarrow> converter \<Rightarrow> tool_slot \<times> converter" where
  "call_slot k tc c =
    (let (t, c) =
        (case map_of (ac_tools c) k of
           Some t \<Rightarrow> (t, c)
         | None \<Rightarrow>
             (\<lparr>ts_id = [], ts_name = [], ts_args = [], ts_blockIdx = ac_next c, ts_open = False\<rparr>,
              c\<lparr>ac_next := Suc (ac_next c)\<rparr>));
         i = as_str (jget tc ''id''); name = as_str (jget (as_obj (jget tc ''function'')) ''name'');
         t = t\<lparr>ts_id := (if i \<noteq> [] then i else ts_id t), ts_name := (if name \<noteq> [] then name else ts_name t)\<rparr>
     in (t, set_slot k t c))"

definition open_slot :: "int \<Rightarrow> tool_slot \<Rightarrow> converter \<Rightarrow> converter \<times> event list" where
  "open_slot k t c =
    (if ts_open t then (c, [])
     else (set_slot k (t\<lparr>ts_open := True\<rparr>) c,
       block_event c ''content_block_start'' (ts_blockIdx t)
         [(''content_block'', JObj [(''type'', JStr ''tool_use''), (''id'', JStr (ts_id t)), (''name'', JStr (ts_name t)),
           (''input'', JObj [])])]))"

definition feed_arguments :: "int \<Rightarrow> tool_slot \<Rightarrow> string \<Rightarrow> converter \<Rightarrow> converter \<times> event list" where
  "feed_arguments k t args c =
    (if args = [] then (c, [])
     else
       let (kept, c) =
           (case ac_policy c of
              Some p \<Rightarrow> if ac_nonstream c then (args, c) else appendToolLog p args c
            | None \<Rightarrow> (args, c))
       in (set_slot k (t\<lparr>ts_open := True, ts_args := ts_args t @ kept\<rparr>) c,
           block_event c ''content_block_delta'' (ts_blockIdx t)
             [(''delta'', JObj [(''type'', JStr ''input_json_delta''), (''partial_json'', JStr args)])]))"

definition call_index :: "json \<Rightarrow> int" where
  "call_index v = (case v of JNum x \<Rightarrow> int_of_float x | JInt n \<Rightarrow> n | _ \<Rightarrow> 0)"

definition feed_call :: "json_object \<Rightarrow> converter \<Rightarrow> converter \<times> event list" where
  "feed_call tc c =
    (let k = call_index (jget tc ''index''); (t, c) = call_slot k tc c
     in then_do (open_slot k t c)
          (feed_arguments k t (as_str (jget (as_obj (jget tc ''function'')) ''arguments''))))"

fun feed_calls :: "json_object list \<Rightarrow> converter \<Rightarrow> converter \<times> event list" where
  "feed_calls [] c = (c, [])"
| "feed_calls (tc # tcs) c = then_do (feed_call tc c) (feed_calls tcs)"

subsection \<open>Chunks\<close>

definition feed_delta :: "json_object \<Rightarrow> converter \<Rightarrow> converter \<times> event list" where
  "feed_delta delta c =
    then_do (then_do (feed_thinking (as_str (jget delta ''reasoning_content'')) c)
        (feed_text (as_str (jget delta ''content'') @ as_str (jget delta ''refusal''))))
      (feed_calls (objects_of (jget delta ''tool_calls'')))"

definition feed_choice :: "json_object \<Rightarrow> converter \<Rightarrow> converter \<times> event list" where
  "feed_choice choice c =
    (let finish = as_str (jget choice ''finish_reason'')
     in then_do (case jget choice ''delta'' of JObj delta \<Rightarrow> feed_delta delta c | _ \<Rightarrow> (c, []))
          (\<lambda>c. if finish = [] then (c, []) else close_all (c\<lparr>ac_finish := finish\<rparr>)))"

fun feed_choices :: "json_object list \<Rightarrow> converter \<Rightarrow> converter \<times> event list" where
  "feed_choices [] c = (c, [])"
| "feed_choices (ch # chs) c = then_do (feed_choice ch c) (feed_choices chs)"

definition start_message :: "converter \<Rightarrow> converter \<times> event list" where
  "start_message c =
    (if ac_emittedStart c then (c, [])
     else (c\<lparr>ac_emittedStart := True\<rparr>,
       evt c ''message_start'' [(''message'', JObj
         [(''id'', JStr (ac_msgID c)), (''type'', JStr ''message''), (''role'', JStr ''assistant''), (''content'', JList []),
          (''model'', JStr (ac_model c)), (''usage'', JObj [(''input_tokens'', JInt 0), (''output_tokens'', JInt 0)])])]))"

definition merge_usage :: "json_object option \<Rightarrow> json \<Rightarrow> json_object option" where
  "merge_usage old v = (case v of JObj u \<Rightarrow> Some (Merge (case old of None \<Rightarrow> [] | Some m \<Rightarrow> m) u) | _ \<Rightarrow> old)"

definition processChunk :: "json_object \<Rightarrow> converter \<Rightarrow> converter \<times> event list" where
  "processChunk chunk c =
    (let m = as_str (jget chunk ''model''); c = (if m \<noteq> [] then c\<lparr>ac_model := m\<rparr> else c)
     in then_do (start_message c) (\<lambda>c.
          feed_choices (objects_of (jget chunk ''choices'')) (c\<lparr>ac_usage := merge_usage (ac_usage c) (jget chunk ''usage'')\<rparr>)))"

text \<open>One line of the stream; the chunk null is a nil map, which is ignored.\<close>

definition line_chunk :: "json_codec \<Rightarrow> string \<Rightarrow> json_object option" where
  "line_chunk jc line =
    (let l = trim_space line
     in if l = [] \<or> \<not> has_prefix l ''data:'' then None
        else
          let data = trim_space (drop 5 l)
          in if data = ''[DONE]'' then None
             else case jc_unmarshal jc data of Some (JObj m) \<Rightarrow> Some m | _ \<Rightarrow> None)"

definition FeedLine :: "json_codec \<Rightarrow> string \<Rightarrow> converter \<Rightarrow> converter \<times> event list" where
  "FeedLine jc line c = (case line_chunk jc line of None \<Rightarrow> (c, []) | Some chunk \<Rightarrow> processChunk chunk c)"

definition Finish :: "converter \<Rightarrow> converter \<times> event list" where
  "Finish c =
    then_do (close_all c) (\<lambda>c.
      (c, evt c ''message_delta''
          [(''delta'', JObj [(''stop_reason'', JStr (mapStopReason (ac_finish c))), (''stop_sequence'', JNull)]),
           (''usage'', (case ac_usage c of None \<Rightarrow> JNull | Some u \<Rightarrow> JObj (anthropic_usage u)))] @
        evt c ''message_stop'' []))"

subsection \<open>The complete message and the log\<close>

definition tool_block :: "json_codec \<Rightarrow> tool_slot \<Rightarrow> json" where
  "tool_block jc t =
    JObj [(''type'', JStr ''tool_use''), (''id'', JStr (ts_id t)), (''name'', JStr (ts_name t)),
      (''input'', (case jc_unmarshal jc (ts_args t) of Some v \<Rightarrow> v | None \<Rightarrow> JStr (ts_args t)))]"

definition sorted_slots :: "converter \<Rightarrow> tool_slot list" where
  "sorted_slots c = map snd (sort_key fst (ac_tools c))"

definition buildContentBlocks :: "json_codec \<Rightarrow> converter \<Rightarrow> json list" where
  "buildContentBlocks jc c =
    (if ac_thinking c \<noteq> [] \<or> ac_thinkingOpen c
     then [JObj [(''type'', JStr ''thinking''), (''thinking'', JStr (ac_thinking c))]] else []) @
    (if ac_text c \<noteq> [] \<or> ac_textOpen c then [JObj [(''type'', JStr ''text''), (''text'', JStr (ac_text c))]] else []) @
    map (tool_block jc) (sorted_slots c)"

definition GetNonstreamResponse :: "json_codec \<Rightarrow> converter \<Rightarrow> json_object" where
  "GetNonstreamResponse jc c =
    [(''id'', JStr (ac_msgID c)), (''type'', JStr ''message''), (''role'', JStr ''assistant''),
     (''content'', JList (buildContentBlocks jc c)), (''model'', JStr (ac_model c)),
     (''stop_reason'', JStr (mapStopReason (ac_finish c))), (''stop_sequence'', JNull)] @
    (case ac_usage c of None \<Rightarrow> [] | Some u \<Rightarrow> [(''usage'', JObj (anthropic_usage u))])"

text \<open>The texts of a summary one after the other, as far as the limit allows; 0 is no limit.\<close>

definition summary_parts :: "string \<Rightarrow> string \<Rightarrow> string list" where
  "summary_parts name args = [''<tool_call:'', if name = [] then ''?'' else name, '' '', args, ''>'']"

fun limited_parts :: "int \<Rightarrow> string list \<Rightarrow> string \<Rightarrow> string" where
  "limited_parts limit [] out = out"
| "limited_parts limit (p # ps) out =
    (if 0 < limit then
       (let remaining = limit - int (length out)
        in if remaining \<le> 0 then out else limited_parts limit ps (out @ take (nat remaining) p))
     else limited_parts limit ps (out @ p))"

definition ToolsSummaryLimited :: "int \<Rightarrow> converter \<Rightarrow> string" where
  "ToolsSummaryLimited limit c =
    limited_parts limit (concat (map (\<lambda>t. summary_parts (ts_name t) (ts_args t)) (sorted_slots c))) []"

definition TextContent :: "converter \<Rightarrow> string" where
  "TextContent c = (if ac_policy c \<noteq> None \<and> \<not> ac_nonstream c then lc_text (ac_textLog c) else ac_text c)"

definition Reasoning_text :: "converter \<Rightarrow> string" where
  "Reasoning_text c = (if ac_policy c \<noteq> None \<and> \<not> ac_nonstream c then lc_text (ac_thinkingLog c) else ac_thinking c)"

end
