(* ===== verification/EventReader.thy ===== *)
theory EventReader
  imports AnthropicConverter
begin

text \<open>
  Readers of event streams, shared by the proofs on the stream converters: a reader takes events one by one
  until it refuses one, and a converter that keeps to the reader is seen by it, after every step, in a state
  that is a function of its own.
\<close>

subsection \<open>Reading events\<close>

fun read_all :: "('c \<Rightarrow> 'e \<Rightarrow> 'c option) \<Rightarrow> 'c \<Rightarrow> 'e list \<Rightarrow> 'c option" where
  "read_all step b [] = Some b"
| "read_all step b (e # es) = (case step b e of None \<Rightarrow> None | Some b \<Rightarrow> read_all step b es)"

lemma read_all_append:
  "read_all step b (es @ fs) = (case read_all step b es of None \<Rightarrow> None | Some b \<Rightarrow> read_all step b fs)"
  by (induction es arbitrary: b) (auto split: option.split)

text \<open>The outcome of a converter step keeps the invariant, and its events take the reader along.\<close>

definition tracks :: "('s \<Rightarrow> bool) \<Rightarrow> ('s \<Rightarrow> 'c) \<Rightarrow> ('c \<Rightarrow> 'e \<Rightarrow> 'c option) \<Rightarrow> 's \<Rightarrow> 's \<times> 'e list \<Rightarrow> bool" where
  "tracks ok view step c r = (ok (fst r) \<and> read_all step (view c) (snd r) = Some (view (fst r)))"

lemma tracks_nil: "ok c \<Longrightarrow> tracks ok view step c (c, [])"
  by (simp add: tracks_def)

lemma tracks_then:
  assumes "tracks ok view step c r" and "ok (fst r) \<Longrightarrow> tracks ok view step (fst r) (f (fst r))"
  shows "tracks ok view step c (then_do r f)"
  using assms by (cases r; cases "f (fst r)") (auto simp: tracks_def then_do_def read_all_append)

subsection \<open>Updates of an association list\<close>

lemma update_present:
  "\<lbrakk>map_of ts k = Some u; distinct (map fst ts)\<rbrakk> \<Longrightarrow>
   \<exists>xs ys. ts = xs @ (k, u) # ys \<and> AList.update k t ts = xs @ (k, t) # ys"
proof (induction ts)
  case (Cons p ts)
  show ?case
  proof (cases "fst p = k")
    case True
    with Cons.prems show ?thesis by (intro exI [of _ "[]"] exI [of _ ts]) (cases p, simp)
  next
    case False
    with Cons.prems have "map_of ts k = Some u" "distinct (map fst ts)" by simp_all
    with Cons.IH obtain xs ys where "ts = xs @ (k, u) # ys" "AList.update k t ts = xs @ (k, t) # ys" by blast
    with False show ?thesis by (intro exI [of _ "p # xs"] exI [of _ ys]) (cases p, simp)
  qed
qed simp

lemma update_absent: "map_of ts k = None \<Longrightarrow> AList.update k t ts = ts @ [(k, t)]"
  by (induction ts) (auto split: if_split_asm)

end
