(* ===== verification/AnthropicConverterProps.thy ===== *)
theory AnthropicConverterProps
  imports EventReader
begin

text \<open>
  The events of the converted stream against a grammar: what a client that follows blocks by their index
  needs. Blocks of different indices may overlap, and a block of a tool may be opened again.
\<close>

subsection \<open>The grammar\<close>

datatype phase = Before | Inside | Closing | Ended

record blocks =
  bl_phase :: phase
  bl_next :: nat
  bl_open :: "nat \<Rightarrow> string option"

definition event_index :: "json_object \<Rightarrow> nat" where
  "event_index data = (case jget data ''index'' of JInt n \<Rightarrow> nat n | _ \<Rightarrow> 0)"

definition block_kind :: "json_object \<Rightarrow> string" where
  "block_kind data = as_str (jget (as_obj (jget data ''content_block'')) ''type'')"

definition delta_kind :: "json_object \<Rightarrow> string" where
  "delta_kind data = as_str (jget (as_obj (jget data ''delta'')) ''type'')"

definition delta_of :: "string \<Rightarrow> string" where
  "delta_of kind =
    (if kind = ''thinking'' then ''thinking_delta'' else if kind = ''text'' then ''text_delta'' else ''input_json_delta'')"

definition block_step :: "blocks \<Rightarrow> event \<Rightarrow> blocks option" where
  "block_step b e =
    (let (kind, data) = e; i = event_index data
     in if kind = ''message_start'' then (if bl_phase b = Before then Some (b\<lparr>bl_phase := Inside\<rparr>) else None)
        else if kind = ''message_stop'' then (if bl_phase b = Closing then Some (b\<lparr>bl_phase := Ended\<rparr>) else None)
        else if bl_phase b \<noteq> Inside then None
        else if kind = ''message_delta'' then (if bl_open b = (\<lambda>_. None) then Some (b\<lparr>bl_phase := Closing\<rparr>) else None)
        else if kind = ''content_block_start'' then
          (if bl_open b i \<noteq> None then None
           else if i = bl_next b then Some (b\<lparr>bl_next := Suc i, bl_open := (bl_open b)(i := Some (block_kind data))\<rparr>)
           else if i < bl_next b \<and> block_kind data = ''tool_use''
           then Some (b\<lparr>bl_open := (bl_open b)(i := Some ''tool_use'')\<rparr>)
           else None)
        else if kind = ''content_block_delta'' then
          (case bl_open b i of Some k \<Rightarrow> if delta_kind data = delta_of k then Some b else None | None \<Rightarrow> None)
        else if kind = ''content_block_stop'' then
          (if bl_open b i = None then None else Some (b\<lparr>bl_open := (bl_open b)(i := None)\<rparr>))
        else None)"

abbreviation block_run :: "blocks \<Rightarrow> event list \<Rightarrow> blocks option" where
  "block_run \<equiv> read_all block_step"

definition no_blocks :: blocks where
  "no_blocks = \<lparr>bl_phase = Before, bl_next = 0, bl_open = (\<lambda>_. None)\<rparr>"

subsection \<open>The converter as a state of the grammar\<close>

definition tool_open :: "converter \<Rightarrow> nat \<Rightarrow> bool" where
  "tool_open c i = list_ex (\<lambda>p. ts_open (snd p) \<and> ts_blockIdx (snd p) = i) (ac_tools c)"

definition opens :: "converter \<Rightarrow> nat \<Rightarrow> string option" where
  "opens c i =
    (if ac_thinkingOpen c \<and> ac_thinkingIdx c = i then Some ''thinking''
     else if ac_textOpen c \<and> ac_textIdx c = i then Some ''text''
     else if tool_open c i then Some ''tool_use'' else None)"

definition view :: "converter \<Rightarrow> blocks" where
  "view c = \<lparr>bl_phase = (if ac_emittedStart c then Inside else Before), bl_next = ac_next c, bl_open = opens c\<rparr>"

definition slot_indices :: "converter \<Rightarrow> nat list" where
  "slot_indices c = map (\<lambda>p. ts_blockIdx (snd p)) (ac_tools c)"

definition conv_ok :: "converter \<Rightarrow> bool" where
  "conv_ok c =
    (\<not> ac_nonstream c \<and> ac_emittedStart c \<and> distinct (map fst (ac_tools c)) \<and> distinct (slot_indices c) \<and>
     (\<forall>i \<in> set (slot_indices c). i < ac_next c) \<and> \<not> (ac_textOpen c \<and> ac_thinkingOpen c) \<and>
     (ac_textOpen c \<longrightarrow> ac_textIdx c < ac_next c \<and> ac_textIdx c \<notin> set (slot_indices c)) \<and>
     (ac_thinkingOpen c \<longrightarrow> ac_thinkingIdx c < ac_next c \<and> ac_thinkingIdx c \<notin> set (slot_indices c)))"

abbreviation sound :: "converter \<Rightarrow> converter \<times> event list \<Rightarrow> bool" where
  "sound \<equiv> tracks conv_ok view block_step"

lemma event_index_block: "event_index ((''index'', JInt (int i)) # data) = i"
  by (simp add: event_index_def jget_def)

lemma tool_open_index: "tool_open c i \<Longrightarrow> i \<in> set (slot_indices c)"
  by (auto simp: tool_open_def slot_indices_def list_ex_iff)

lemma view_text_step:
  "conv_ok c \<Longrightarrow> ac_textOpen c \<Longrightarrow> opens (c\<lparr>ac_textOpen := False\<rparr>) = (opens c)(ac_textIdx c := None)"
  by (rule ext) (auto simp: opens_def conv_ok_def tool_open_def dest: tool_open_index [unfolded tool_open_def])

lemma view_thinking_step:
  "conv_ok c \<Longrightarrow> ac_thinkingOpen c \<Longrightarrow> opens (c\<lparr>ac_thinkingOpen := False\<rparr>) = (opens c)(ac_thinkingIdx c := None)"
  by (rule ext) (auto simp: opens_def conv_ok_def tool_open_def dest: tool_open_index [unfolded tool_open_def])

lemma close_text_sound: "conv_ok c \<Longrightarrow> sound c (close_text c) \<and> \<not> ac_textOpen (fst (close_text c))"
  using view_text_step [of c]
  by (auto simp: close_text_def tracks_def block_event_def evt_def block_step_def event_index_block view_def opens_def conv_ok_def slot_indices_def)

lemma close_thinking_sound: "conv_ok c \<Longrightarrow> sound c (close_thinking c) \<and> \<not> ac_thinkingOpen (fst (close_thinking c))"
  using view_thinking_step [of c]
  by (auto simp: close_thinking_def tracks_def block_event_def evt_def block_step_def event_index_block view_def opens_def conv_ok_def slot_indices_def)

lemma close_text_keeps: "ac_thinkingOpen (fst (close_text c)) = ac_thinkingOpen c"
  by (simp add: close_text_def)

lemma close_thinking_keeps: "ac_textOpen (fst (close_thinking c)) = ac_textOpen c"
  by (simp add: close_thinking_def)

text \<open>The stops of the tools in their order.\<close>

lemma close_slots_run:
  assumes "\<not> ac_nonstream c" "bl_phase b = Inside" "distinct (map (\<lambda>p. ts_blockIdx (snd p)) ts)"
    "\<forall>p \<in> set ts. ts_open (snd p) \<longrightarrow> bl_open b (ts_blockIdx (snd p)) \<noteq> None"
  shows "block_run b (concat (map (\<lambda>(k, t). if ts_open t then block_event c ''content_block_stop'' (ts_blockIdx t) [] else []) ts)) =
    Some (b\<lparr>bl_open := (\<lambda>i. if list_ex (\<lambda>p. ts_open (snd p) \<and> ts_blockIdx (snd p) = i) ts then None else bl_open b i)\<rparr>)"
  using assms
proof (induction ts arbitrary: b)
  case (Cons p ts)
  obtain k t where p: "p = (k, t)" by (cases p)
  show ?case
  proof (cases "ts_open t")
    case True
    let ?b = "b\<lparr>bl_open := (bl_open b)(ts_blockIdx t := None)\<rparr>"
    have "block_step b (''content_block_stop'', [(''index'', JInt (int (ts_blockIdx t)))]) = Some ?b"
      using Cons.prems True p by (auto simp: block_step_def event_index_block)
    moreover have "\<forall>q \<in> set ts. ts_open (snd q) \<longrightarrow> bl_open ?b (ts_blockIdx (snd q)) \<noteq> None"
      using Cons.prems p by (auto simp: image_iff)
    moreover have "(\<lambda>i. if list_ex (\<lambda>p. ts_open (snd p) \<and> ts_blockIdx (snd p) = i) ts then None else bl_open ?b i) =
        (\<lambda>i. if list_ex (\<lambda>p. ts_open (snd p) \<and> ts_blockIdx (snd p) = i) (p # ts) then None else bl_open b i)"
      using p True by (auto simp: fun_eq_iff)
    ultimately show ?thesis using Cons.IH [of ?b] Cons.prems p True by (simp add: block_event_def evt_def)
  next
    case False
    with Cons p show ?thesis by simp
  qed
qed simp

lemma close_tools_sound:
  assumes "conv_ok c" "\<not> ac_textOpen c" "\<not> ac_thinkingOpen c"
  shows "sound c (close_tools c) \<and> opens (fst (close_tools c)) = (\<lambda>_. None)"
proof -
  have o: "opens (fst (close_tools c)) = (\<lambda>_. None)"
    using assms by (intro ext) (auto simp: opens_def close_tools_def tool_open_def list_ex_iff)
  have s: "slot_indices (fst (close_tools c)) = slot_indices c" "map fst (ac_tools (fst (close_tools c))) = map fst (ac_tools c)"
    by (auto simp: slot_indices_def close_tools_def)
  have w: "conv_ok (fst (close_tools c))" using assms unfolding conv_ok_def s by (simp add: close_tools_def)
  have r: "block_run (view c) (snd (close_tools c)) =
      Some ((view c)\<lparr>bl_open := (\<lambda>i. if tool_open c i then None else bl_open (view c) i)\<rparr>)"
    unfolding close_tools_def snd_conv tool_open_def
    by (rule close_slots_run) (use assms in \<open>auto simp: conv_ok_def view_def slot_indices_def opens_def tool_open_def list_ex_iff\<close>)
  have "(\<lambda>i. if tool_open c i then None else bl_open (view c) i) = opens (fst (close_tools c))"
    unfolding o using assms by (intro ext) (auto simp: view_def opens_def)
  with r have "block_run (view c) (snd (close_tools c)) = Some (view (fst (close_tools c)))"
    by (simp add: view_def) (simp add: close_tools_def)
  with w o show ?thesis by (simp add: tracks_def)
qed

lemma close_all_sound:
  assumes "conv_ok c"
  shows "sound c (close_all c) \<and> opens (fst (close_all c)) = (\<lambda>_. None)"
proof -
  let ?r = "then_do (close_thinking c) close_text"
  have s: "sound c ?r" using close_thinking_sound [OF assms] close_text_sound by (blast intro: tracks_then)
  have d: "fst ?r = fst (close_text (fst (close_thinking c)))" by (simp add: then_do_def case_prod_beta)
  have w: "conv_ok (fst (close_thinking c))" using close_thinking_sound [OF assms] by (simp add: tracks_def)
  have t: "\<not> ac_textOpen (fst ?r)" "\<not> ac_thinkingOpen (fst ?r)"
    unfolding d using close_text_sound [OF w] close_text_keeps [of "fst (close_thinking c)"] close_thinking_sound [OF assms]
    by simp_all
  have wr: "conv_ok (fst ?r)" using s by (simp add: tracks_def)
  note c = close_tools_sound [OF wr t]
  have "fst (close_all c) = fst (close_tools (fst ?r))" by (simp add: close_all_def then_do_def case_prod_beta)
  with c tracks_then [OF s, of close_tools] show ?thesis unfolding close_all_def by simp
qed

subsection \<open>Opening blocks and deltas\<close>

lemma open_text_index: "conv_ok c \<Longrightarrow> ac_textOpen c \<Longrightarrow> opens c (ac_textIdx c) = Some ''text''"
  by (auto simp: opens_def conv_ok_def)

lemma open_thinking_index: "ac_thinkingOpen c \<Longrightarrow> opens c (ac_thinkingIdx c) = Some ''thinking''"
  by (simp add: opens_def)

lemma opens_next: "conv_ok c \<Longrightarrow> opens c (ac_next c) = None"
  using tool_open_index [of c "ac_next c"] by (auto simp: opens_def conv_ok_def)

lemma start_text:
  assumes "conv_ok c" "\<not> ac_textOpen c" "\<not> ac_thinkingOpen c"
  shows "sound c (c\<lparr>ac_textIdx := ac_next c, ac_next := Suc (ac_next c), ac_textOpen := True\<rparr>,
    block_event c ''content_block_start'' (ac_next c)
      [(''content_block'', JObj [(''type'', JStr ''text''), (''text'', JStr [])])])"
    (is "sound c (?d, _)")
proof -
  have "opens ?d = (opens c)(ac_next c := Some ''text'')"
    using assms by (intro ext) (auto simp: opens_def tool_open_def)
  moreover have "conv_ok ?d" using assms by (auto simp: conv_ok_def slot_indices_def)
  ultimately show ?thesis using assms opens_next [OF assms(1)]
    by (simp add: tracks_def block_event_def evt_def block_step_def event_index_block view_def conv_ok_def block_kind_def jget_def
        as_obj_def as_str_def Let_def)
qed

lemma start_thinking:
  assumes "conv_ok c" "\<not> ac_textOpen c" "\<not> ac_thinkingOpen c"
  shows "sound c (c\<lparr>ac_thinkingIdx := ac_next c, ac_next := Suc (ac_next c), ac_thinkingOpen := True\<rparr>,
    block_event c ''content_block_start'' (ac_next c)
      [(''content_block'', JObj [(''type'', JStr ''thinking''), (''thinking'', JStr [])])])"
    (is "sound c (?d, _)")
proof -
  have "opens ?d = (opens c)(ac_next c := Some ''thinking'')"
    using assms by (intro ext) (auto simp: opens_def tool_open_def)
  moreover have "conv_ok ?d" using assms by (auto simp: conv_ok_def slot_indices_def)
  ultimately show ?thesis using assms opens_next [OF assms(1)]
    by (simp add: tracks_def block_event_def evt_def block_step_def event_index_block view_def conv_ok_def block_kind_def jget_def
        as_obj_def as_str_def Let_def)
qed

lemma open_text_sound:
  assumes "conv_ok c"
  shows "sound c (open_text c) \<and> ac_textOpen (fst (open_text c))"
proof (cases "ac_textOpen c")
  case False
  note t = close_thinking_sound [OF assms]
  have "sound c (open_text c)"
    unfolding open_text_def if_not_P [OF False]
    by (rule tracks_then) (use t close_thinking_keeps [of c] False in \<open>auto intro: start_text\<close>)
  then show ?thesis using False by (simp add: open_text_def then_do_def case_prod_beta)
qed (use assms in \<open>simp add: open_text_def tracks_nil\<close>)

lemma open_thinking_sound:
  assumes "conv_ok c"
  shows "sound c (open_thinking c) \<and> ac_thinkingOpen (fst (open_thinking c))"
proof (cases "ac_thinkingOpen c")
  case False
  note t = close_text_sound [OF assms]
  have "sound c (open_thinking c)"
    unfolding open_thinking_def if_not_P [OF False]
    by (rule tracks_then) (use t close_text_keeps [of c] False in \<open>auto intro: start_thinking\<close>)
  then show ?thesis using False by (simp add: open_thinking_def then_do_def case_prod_beta)
qed (use assms in \<open>simp add: open_thinking_def tracks_nil\<close>)

lemma delta_sound:
  assumes "conv_ok c" "opens c i = Some k" "delta_of k = kind"
  shows "sound c (c, block_event c ''content_block_delta'' i [(''delta'', JObj ((''type'', JStr kind) # rest))])"
  using assms by (simp add: tracks_def block_event_def evt_def block_step_def event_index_block view_def conv_ok_def delta_kind_def
      jget_def as_obj_def as_str_def)

lemma same_core:
  assumes "ac_thinkingOpen d = ac_thinkingOpen c" "ac_thinkingIdx d = ac_thinkingIdx c" "ac_textOpen d = ac_textOpen c"
    "ac_textIdx d = ac_textIdx c" "ac_tools d = ac_tools c"
  shows "opens d = opens c"
    "\<lbrakk>ac_nonstream d = ac_nonstream c; ac_emittedStart d = ac_emittedStart c; ac_next d = ac_next c\<rbrakk> \<Longrightarrow>
      conv_ok d = conv_ok c \<and> view d = view c"
proof -
  show o: "opens d = opens c" by (rule ext) (simp add: opens_def tool_open_def assms)
  show "\<lbrakk>ac_nonstream d = ac_nonstream c; ac_emittedStart d = ac_emittedStart c; ac_next d = ac_next c\<rbrakk> \<Longrightarrow>
      conv_ok d = conv_ok c \<and> view d = view c"
    by (simp add: conv_ok_def view_def o slot_indices_def assms)
qed

lemma note_same:
  "conv_ok (note_text s c) = conv_ok c \<and> view (note_text s c) = view c"
  "conv_ok (note_thinking s c) = conv_ok c \<and> view (note_thinking s c) = view c"
  by (rule same_core; simp add: note_text_def note_thinking_def split: option.split)+

lemma feed_text_sound:
  assumes "conv_ok c"
  shows "sound c (feed_text s c)"
proof -
  let ?r = "open_text (note_text s c)"
  have o: "sound c ?r" "ac_textOpen (fst ?r)"
    using open_text_sound [of "note_text s c"] assms note_same [of s c] by (simp_all add: tracks_def)
  have "sound (fst ?r) (fst ?r, block_event (fst ?r) ''content_block_delta'' (ac_textIdx (fst ?r))
      [(''delta'', JObj [(''type'', JStr ''text_delta''), (''text'', JStr s)])])" if "conv_ok (fst ?r)"
    by (rule delta_sound [OF that open_text_index [OF that o(2)]]) (simp add: delta_of_def)
  with o assms show ?thesis by (simp add: feed_text_def tracks_nil tracks_then)
qed

lemma feed_thinking_sound:
  assumes "conv_ok c"
  shows "sound c (feed_thinking s c)"
proof -
  let ?r = "open_thinking (note_thinking s c)"
  have o: "sound c ?r" "ac_thinkingOpen (fst ?r)"
    using open_thinking_sound [of "note_thinking s c"] assms note_same [of s c] by (simp_all add: tracks_def)
  have "sound (fst ?r) (fst ?r, block_event (fst ?r) ''content_block_delta'' (ac_thinkingIdx (fst ?r))
      [(''delta'', JObj [(''type'', JStr ''thinking_delta''), (''thinking'', JStr s)])])" if "conv_ok (fst ?r)"
    by (rule delta_sound [OF that open_thinking_index [OF o(2)]]) (simp add: delta_of_def)
  with o assms show ?thesis by (simp add: feed_thinking_def tracks_nil tracks_then)
qed

subsection \<open>Tool calls\<close>

text \<open>Slots beside one of block \<open>j\<close> are not of block \<open>j\<close>.\<close>

lemma slot_apart:
  assumes "conv_ok c" "ac_tools c = xs @ (k, u) # ys" "ts_blockIdx u = j"
  shows "\<not> list_ex (\<lambda>p. ts_open (snd p) \<and> ts_blockIdx (snd p) = j) xs"
    "\<not> list_ex (\<lambda>p. ts_open (snd p) \<and> ts_blockIdx (snd p) = j) ys"
proof -
  have "distinct (map (\<lambda>p. ts_blockIdx (snd p)) (xs @ (k, u) # ys))"
    using assms(1,2) by (simp add: conv_ok_def slot_indices_def)
  then have "j \<notin> (\<lambda>p. ts_blockIdx (snd p)) ` set xs" "j \<notin> (\<lambda>p. ts_blockIdx (snd p)) ` set ys"
    using assms(3) by simp_all
  then show "\<not> list_ex (\<lambda>p. ts_open (snd p) \<and> ts_blockIdx (snd p) = j) xs"
    "\<not> list_ex (\<lambda>p. ts_open (snd p) \<and> ts_blockIdx (snd p) = j) ys"
    by (auto simp: list_ex_iff image_iff)
qed

text \<open>A slot that is replaced by one of the same block.\<close>

lemma replace_slot:
  assumes "conv_ok c" "map_of (ac_tools c) k = Some u" "ts_blockIdx t = ts_blockIdx u"
  shows "conv_ok (set_slot k t c)" "ac_emittedStart (set_slot k t c) = ac_emittedStart c"
    "ac_next (set_slot k t c) = ac_next c" "map_of (ac_tools (set_slot k t c)) k = Some t"
    "opens (set_slot k t c) = (opens c)(ts_blockIdx t := (if ts_open t then Some ''tool_use'' else None))"
proof -
  obtain xs ys where x: "ac_tools c = xs @ (k, u) # ys" "ac_tools (set_slot k t c) = xs @ (k, t) # ys"
    using update_present [OF assms(2), of t] assms(1) by (auto simp: conv_ok_def set_slot_def)
  have s: "slot_indices (set_slot k t c) = slot_indices c" using x assms(3) by (simp add: slot_indices_def)
  have d: "map fst (ac_tools (set_slot k t c)) = map fst (ac_tools c)" using x by simp
  show "conv_ok (set_slot k t c)" using assms(1) unfolding conv_ok_def s d by (simp add: set_slot_def)
  show "map_of (ac_tools (set_slot k t c)) k = Some t" using x(1) assms(1) by (simp add: set_slot_def update_conv)
  have i: "ts_blockIdx t \<in> set (slot_indices c)" using x assms(3) by (simp add: slot_indices_def)
  note n = slot_apart [OF assms(1) x(1)]
  have t: "tool_open (set_slot k t c) j = (if j = ts_blockIdx t then ts_open t else tool_open c j)" for j
    using n [of j] assms(3) unfolding tool_open_def x by auto
  have f: "ac_thinkingOpen (set_slot k t c) = ac_thinkingOpen c" "ac_textOpen (set_slot k t c) = ac_textOpen c"
    "ac_thinkingIdx (set_slot k t c) = ac_thinkingIdx c" "ac_textIdx (set_slot k t c) = ac_textIdx c"
    by (simp_all add: set_slot_def)
  have h: "ac_thinkingOpen c \<Longrightarrow> ac_thinkingIdx c \<noteq> ts_blockIdx t" "ac_textOpen c \<Longrightarrow> ac_textIdx c \<noteq> ts_blockIdx t"
    using assms(1) i by (auto simp: conv_ok_def)
  show "opens (set_slot k t c) = (opens c)(ts_blockIdx t := (if ts_open t then Some ''tool_use'' else None))"
    using h by (intro ext) (auto simp: opens_def t f)
qed (simp_all add: set_slot_def)

lemma slot_closed:
  "\<lbrakk>conv_ok c; map_of (ac_tools c) k = Some u\<rbrakk> \<Longrightarrow>
   ts_blockIdx u < ac_next c \<and> opens c (ts_blockIdx u) = (if ts_open u then Some ''tool_use'' else None)"
proof -
  assume c: "conv_ok c" and m: "map_of (ac_tools c) k = Some u"
  then have i: "ts_blockIdx u \<in> set (slot_indices c)" by (force simp: slot_indices_def dest: map_of_SomeD)
  obtain xs ys where x: "ac_tools c = xs @ (k, u) # ys"
    using update_present [OF m, of u] c by (auto simp: conv_ok_def)
  have "tool_open c (ts_blockIdx u) = ts_open u"
    using slot_apart [OF c x, of "ts_blockIdx u"] unfolding tool_open_def x by auto
  moreover have "ac_thinkingOpen c \<Longrightarrow> ac_thinkingIdx c \<noteq> ts_blockIdx u" "ac_textOpen c \<Longrightarrow> ac_textIdx c \<noteq> ts_blockIdx u"
    using c i by (auto simp: conv_ok_def)
  ultimately show ?thesis using c i by (auto simp: opens_def conv_ok_def)
qed

definition opened_slot :: "int \<Rightarrow> json_object \<Rightarrow> converter \<Rightarrow> converter \<times> event list" where
  "opened_slot k tc c = (case call_slot k tc c of (t, c) \<Rightarrow> open_slot k t c)"

lemma opened_slot_sound:
  assumes "conv_ok c"
  shows "sound c (opened_slot k tc c) \<and>
    (case call_slot k tc c of (t, d) \<Rightarrow>
      \<exists>u. map_of (ac_tools (fst (opened_slot k tc c))) k = Some u \<and> ts_open u \<and> ts_blockIdx u = ts_blockIdx t)"
proof -
  let ?i = "as_str (jget tc ''id'')" let ?name = "as_str (jget (as_obj (jget tc ''function'')) ''name'')"
  define stated :: "tool_slot \<Rightarrow> tool_slot" where "stated u = u\<lparr>ts_id := (if ?i \<noteq> [] then ?i else ts_id u), ts_name := (if ?name \<noteq> [] then ?name else ts_name u)\<rparr>" for u
  have keep: "ts_blockIdx (stated u) = ts_blockIdx u" "ts_open (stated u) = ts_open u" for u by (simp_all add: stated_def)
  note ev = tracks_def block_event_def evt_def block_step_def event_index_block view_def block_kind_def jget_def as_obj_def as_str_def Let_def
  show ?thesis
  proof (cases "map_of (ac_tools c) k")
    case (Some u)
    let ?t = "stated u" let ?c = "set_slot k ?t c"
    have s: "call_slot k tc c = (?t, ?c)" using Some by (simp add: call_slot_def stated_def Let_def)
    note r = replace_slot [OF assms Some keep(1)] and sc = slot_closed [OF assms Some]
    have o: "opens ?c = opens c" unfolding r(5) using sc by (simp add: keep fun_upd_idem)
    show ?thesis
    proof (cases "ts_open u")
      case True
      then have "opened_slot k tc c = (?c, [])" by (simp add: opened_slot_def s open_slot_def keep)
      with r o s True show ?thesis by (simp add: tracks_def view_def keep)
    next
      case False
      let ?d = "set_slot k (?t\<lparr>ts_open := True\<rparr>) ?c"
      have e: "opened_slot k tc c = (?d, block_event ?c ''content_block_start'' (ts_blockIdx u)
          [(''content_block'', JObj [(''type'', JStr ''tool_use''), (''id'', JStr (ts_id ?t)), (''name'', JStr (ts_name ?t)), (''input'', JObj [])])])"
        using False by (simp add: opened_slot_def s open_slot_def keep)
      have q: "conv_ok ?d" "ac_emittedStart ?d = ac_emittedStart c" "ac_next ?d = ac_next c"
          "map_of (ac_tools ?d) k = Some (?t\<lparr>ts_open := True\<rparr>)" "opens ?d = (opens ?c)(ts_blockIdx u := Some ''tool_use'')"
        using replace_slot [OF r(1) r(4), of "?t\<lparr>ts_open := True\<rparr>"] r by (simp_all add: keep)
      have "ac_nonstream ?c = False" "ac_emittedStart c" using assms by (simp_all add: conv_ok_def set_slot_def)
      with q sc o False s show ?thesis unfolding e by (simp add: ev keep)
    qed
  next
    case None
    let ?t0 = "\<lparr>ts_id = [], ts_name = [], ts_args = [], ts_blockIdx = ac_next c, ts_open = False\<rparr>"
    let ?t = "stated ?t0" let ?c = "set_slot k ?t (c\<lparr>ac_next := Suc (ac_next c)\<rparr>)"
    let ?d = "set_slot k (?t\<lparr>ts_open := True\<rparr>) ?c"
    have s: "call_slot k tc c = (?t, ?c)" using None by (simp add: call_slot_def stated_def Let_def)
    have e: "opened_slot k tc c = (?d, block_event ?c ''content_block_start'' (ac_next c)
        [(''content_block'', JObj [(''type'', JStr ''tool_use''), (''id'', JStr (ts_id ?t)), (''name'', JStr (ts_name ?t)), (''input'', JObj [])])])"
      by (simp add: opened_slot_def s open_slot_def stated_def)
    have ts: "ac_tools ?c = ac_tools c @ [(k, ?t)]" using None by (simp add: set_slot_def update_absent)
    have w: "conv_ok ?c" using assms None ts
      by (auto simp: conv_ok_def slot_indices_def set_slot_def stated_def map_of_eq_None_iff less_Suc_eq)
    have m: "map_of (ac_tools ?c) k = Some ?t" by (simp add: set_slot_def update_conv)
    have "tool_open ?c j = tool_open c j" for j unfolding tool_open_def ts by (simp add: stated_def)
    then have o: "opens ?c = opens c" by (intro ext) (simp add: opens_def set_slot_def)
    have q: "conv_ok ?d" "ac_emittedStart ?d = ac_emittedStart c" "ac_next ?d = Suc (ac_next c)"
        "map_of (ac_tools ?d) k = Some (?t\<lparr>ts_open := True\<rparr>)" "opens ?d = (opens ?c)(ac_next c := Some ''tool_use'')"
      using replace_slot [OF w m, of "?t\<lparr>ts_open := True\<rparr>"] by (simp_all add: stated_def set_slot_def)
    have "ac_nonstream ?c = False" "ac_emittedStart c" using assms by (simp_all add: conv_ok_def set_slot_def)
    with q opens_next [OF assms] o s show ?thesis unfolding e by (simp add: ev)
  qed
qed

lemma feed_arguments_sound:
  assumes "conv_ok c" "map_of (ac_tools c) k = Some u" "ts_open u" "ts_blockIdx u = ts_blockIdx t"
  shows "sound c (feed_arguments k t args c)"
proof (cases "args = []")
  case False
  obtain kept d where d: "(case ac_policy c of
      Some p \<Rightarrow> if ac_nonstream c then (args, c) else appendToolLog p args c | None \<Rightarrow> (args, c)) = (kept, d)"
    by fastforce
  have "d = c \<or> (\<exists>b n. d = c\<lparr>ac_toolLogFull := b, ac_toolLogBytes := n\<rparr>)"
    using d by (cases "ac_policy c") (auto simp: appendToolLog_def Let_def split: if_split_asm)
  then have same: "ac_tools d = ac_tools c" "conv_ok d = conv_ok c" "view d = view c" "ac_nonstream d = ac_nonstream c"
    using same_core(2) [of d c] by auto
  let ?t = "t\<lparr>ts_open := True, ts_args := ts_args t @ kept\<rparr>" let ?e = "set_slot k ?t d"
  have r: "conv_ok ?e" "ac_emittedStart ?e = ac_emittedStart d" "ac_next ?e = ac_next d"
      "opens ?e = (opens d)(ts_blockIdx t := Some ''tool_use'')"
    using replace_slot [of d k u ?t] assms same by simp_all
  have o: "opens c (ts_blockIdx t) = Some ''tool_use''" using slot_closed [OF assms(1,2)] assms(3,4) by simp
  have od: "opens d = opens c" using same(3) by (simp add: view_def)
  have v: "view ?e = view c"
    unfolding view_def r od using o same(3) by (simp add: fun_upd_idem view_def)
  have "feed_arguments k t args c = (?e, block_event d ''content_block_delta'' (ts_blockIdx t)
      [(''delta'', JObj ((''type'', JStr ''input_json_delta'') # [(''partial_json'', JStr args)]))])"
    using False d by (simp add: feed_arguments_def)
  moreover have "sound d (d, block_event d ''content_block_delta'' (ts_blockIdx t)
      [(''delta'', JObj ((''type'', JStr ''input_json_delta'') # [(''partial_json'', JStr args)]))])"
    by (rule delta_sound [where k = "''tool_use''"]) (use assms same o od in \<open>simp_all add: delta_of_def\<close>)
  ultimately show ?thesis using r(1) v same(3) by (simp add: tracks_def)
qed (use assms in \<open>simp add: feed_arguments_def tracks_nil\<close>)

lemma feed_call_sound: "conv_ok c \<Longrightarrow> sound c (feed_call tc c)"
proof -
  assume c: "conv_ok c"
  let ?k = "call_index (jget tc ''index'')"
  obtain t d where s: "call_slot ?k tc c = (t, d)" by fastforce
  note o = opened_slot_sound [OF c, of ?k tc]
  have e: "feed_call tc c = then_do (opened_slot ?k tc c)
      (feed_arguments ?k t (as_str (jget (as_obj (jget tc ''function'')) ''arguments'')))"
    by (simp add: feed_call_def opened_slot_def s Let_def)
  from o s obtain u where "map_of (ac_tools (fst (opened_slot ?k tc c))) ?k = Some u" "ts_open u" "ts_blockIdx u = ts_blockIdx t"
    by auto
  then show ?thesis unfolding e using o by (intro tracks_then) (auto intro: feed_arguments_sound)
qed

lemma feed_calls_sound: "conv_ok c \<Longrightarrow> sound c (feed_calls tcs c)"
  by (induction tcs arbitrary: c) (auto simp: tracks_nil intro!: tracks_then feed_call_sound)

subsection \<open>Streams\<close>

lemma feed_choice_sound:
  assumes "conv_ok c"
  shows "sound c (feed_choice ch c)"
proof -
  have d: "sound c (feed_delta delta c)" for delta
    unfolding feed_delta_def by (intro tracks_then feed_thinking_sound feed_text_sound feed_calls_sound assms)
  have f: "sound d (close_all (d\<lparr>ac_finish := s\<rparr>))" if "conv_ok d" for d s
  proof -
    have "conv_ok (d\<lparr>ac_finish := s\<rparr>)" "view (d\<lparr>ac_finish := s\<rparr>) = view d"
      using that same_core(2) [of "d\<lparr>ac_finish := s\<rparr>" d] by simp_all
    with close_all_sound [of "d\<lparr>ac_finish := s\<rparr>"] show ?thesis by (simp add: tracks_def)
  qed
  have n: "sound c (c, [])" by (rule tracks_nil) (rule assms)
  show ?thesis unfolding feed_choice_def Let_def
    by (rule tracks_then) (use d f n in \<open>auto simp: tracks_nil split: json.split\<close>)
qed

lemma feed_choices_sound: "conv_ok c \<Longrightarrow> sound c (feed_choices chs c)"
  by (induction chs arbitrary: c) (auto simp: tracks_nil intro!: tracks_then feed_choice_sound)

fun feed_chunks :: "json_object list \<Rightarrow> converter \<Rightarrow> converter \<times> event list" where
  "feed_chunks [] c = (c, [])"
| "feed_chunks (m # ms) c = then_do (processChunk m c) (feed_chunks ms)"

lemma same_view:
  "view (c\<lparr>ac_model := s\<rparr>) = view c" "conv_ok (c\<lparr>ac_model := s\<rparr>) = conv_ok c"
  "view (c\<lparr>ac_usage := u\<rparr>) = view c" "conv_ok (c\<lparr>ac_usage := u\<rparr>) = conv_ok c"
  using same_core(2) [of "c\<lparr>ac_model := s\<rparr>" c] same_core(2) [of "c\<lparr>ac_usage := u\<rparr>" c] by simp_all

lemma chunk_sound: "conv_ok c \<Longrightarrow> sound c (processChunk m c)"
proof -
  assume c: "conv_ok c"
  let ?m = "as_str (jget m ''model'')" let ?c = "if ?m \<noteq> [] then c\<lparr>ac_model := ?m\<rparr> else c"
  have d: "conv_ok ?c" "view ?c = view c" "ac_emittedStart ?c" using c by (auto simp: same_view) (simp_all add: conv_ok_def)
  have "sound ?c (feed_choices (objects_of (jget m ''choices'')) (?c\<lparr>ac_usage := u\<rparr>))" for u
    using feed_choices_sound [of "?c\<lparr>ac_usage := u\<rparr>"] d(1) by (simp add: tracks_def same_view)
  then have "sound ?c (processChunk m c)" using d(3)
    by (simp add: processChunk_def Let_def start_message_def then_do_def case_prod_beta tracks_def)
  then show ?thesis using d(2) by (simp add: tracks_def)
qed

lemma chunks_sound: "conv_ok c \<Longrightarrow> sound c (feed_chunks ms c)"
  by (induction ms arbitrary: c) (auto simp: tracks_nil intro!: tracks_then chunk_sound)

definition fresh_converter :: "string \<Rightarrow> string \<Rightarrow> log_policy option \<Rightarrow> converter" where
  "fresh_converter i model policy =
    (case policy of
       None \<Rightarrow> NewAnthropicStreamConverter i model
     | Some p \<Rightarrow> SetStreamingLogPolicy p (NewAnthropicStreamConverter i model))"

lemma first_chunk: "block_run no_blocks (snd (processChunk m (fresh_converter i model policy))) =
    Some (view (fst (processChunk m (fresh_converter i model policy)))) \<and> conv_ok (fst (processChunk m (fresh_converter i model policy)))"
proof -
  let ?c = "fresh_converter i model policy" let ?m = "as_str (jget m ''model'')"
  let ?c' = "if ?m \<noteq> [] then ?c\<lparr>ac_model := ?m\<rparr> else ?c"
  let ?d = "?c'\<lparr>ac_emittedStart := True\<rparr>"
  have p: "processChunk m ?c = then_do (start_message ?c') (\<lambda>c. feed_choices (objects_of (jget m ''choices''))
      (c\<lparr>ac_usage := merge_usage (ac_usage c) (jget m ''usage'')\<rparr>))" by (simp add: processChunk_def Let_def)
  have f: "\<not> ac_nonstream ?c'" "\<not> ac_emittedStart ?c'" "ac_tools ?c' = []" "\<not> ac_textOpen ?c'" "\<not> ac_thinkingOpen ?c'" "ac_next ?c' = 0"
    by (auto simp: fresh_converter_def NewAnthropicStreamConverter_def SetStreamingLogPolicy_def split: option.split)
  then have d: "conv_ok ?d" "view ?d = no_blocks\<lparr>bl_phase := Inside\<rparr>"
    by (auto simp: conv_ok_def slot_indices_def view_def no_blocks_def fun_eq_iff opens_def tool_open_def)
  have "sound ?d (feed_choices (objects_of (jget m ''choices'')) (?d\<lparr>ac_usage := u\<rparr>))" for u
    using feed_choices_sound [of "?d\<lparr>ac_usage := u\<rparr>"] d(1) by (simp add: tracks_def same_view)
  moreover have "\<exists>data. start_message ?c' = (?d, [(''message_start'', data)])"
    using f by (simp add: start_message_def evt_def)
  ultimately show ?thesis unfolding p
    by (auto simp: then_do_def case_prod_beta tracks_def block_step_def no_blocks_def d(2) [unfolded no_blocks_def])
qed


text \<open>
  Blocks do overlap: a call opens its block while the block of the text before it is still open, which the
  grammar of the Messages API, a sequence of closed blocks, does not know.
\<close>

lemma text_block_overlaps_call:
  "map (\<lambda>(kind, data). (kind, event_index data))
     (snd (feed_delta [(''content'', JStr ''a''), (''tool_calls'', JList [JObj [(''id'', JStr ''b'')]])]
       (fresh_converter ''m'' ''n'' None))) =
   [(''content_block_start'', 0), (''content_block_delta'', 0), (''content_block_start'', 1)]"
  by code_simp

end
