(* ===== verification/ResponsesConverter.thy ===== *)
theory ResponsesConverter
  imports AnthropicConverter
begin

text \<open>
  The converter of a Chat stream into the events of a Responses stream, or into one response:
  internal/core/protocol/chatstream/responses_stream.go. An event is its data, which names its kind and
  its number. The calls are kept in the order in which they appeared; the identifiers of the n-th new
  call are \<open>fresh (2 * n)\<close> and \<open>fresh (2 * n + 1)\<close>.
\<close>

subsection \<open>The converter\<close>

datatype out_item = ReasoningItem | MessageItem | CallItem int

record resp_call =
  rt_id :: string
  rt_name :: string
  rt_args :: string
  rt_fcID :: string
  rt_outputIdx :: nat
  rt_emitted :: bool

record responder =
  rc_respID :: string
  rc_msgID :: string
  rc_reasoningID :: string
  rc_model :: string
  rc_createdAt :: int
  rc_nonstream :: bool
  rc_created :: bool
  rc_msgItem :: bool
  rc_contentPart :: bool
  rc_refusalPart :: bool
  rc_nextContent :: nat
  rc_textContent :: nat
  rc_refusalContent :: nat
  rc_refusal :: string
  rc_content :: string
  rc_tools :: "(int \<times> resp_call) list"
  rc_reasoning :: string
  rc_reasoningIdx :: int
  rc_messageIdx :: int
  rc_items :: "out_item list"
  rc_sequence :: nat
  rc_finish :: string
  rc_usage :: "json_object option"
  rc_err :: "json_object option"

definition NewResponsesStreamConverter :: "string \<Rightarrow> string \<Rightarrow> string \<Rightarrow> int \<Rightarrow> string \<Rightarrow> responder" where
  "NewResponsesStreamConverter respID msgID reasoningID now model =
    \<lparr>rc_respID = respID, rc_msgID = msgID, rc_reasoningID = reasoningID,
     rc_model = (if model = [] then ''unknown'' else model), rc_createdAt = now, rc_nonstream = False, rc_created = False,
     rc_msgItem = False, rc_contentPart = False, rc_refusalPart = False, rc_nextContent = 0, rc_textContent = 0,
     rc_refusalContent = 0, rc_refusal = [], rc_content = [], rc_tools = [], rc_reasoning = [], rc_reasoningIdx = -1,
     rc_messageIdx = -1, rc_items = [], rc_sequence = 0, rc_finish = [], rc_usage = None, rc_err = None\<rparr>"

definition resp_SetNonstream :: "responder \<Rightarrow> responder" where
  "resp_SetNonstream c = c\<lparr>rc_nonstream := True\<rparr>"

definition eventPayload :: "string \<Rightarrow> json_object \<Rightarrow> responder \<Rightarrow> responder \<times> json_object" where
  "eventPayload kind data c =
    (c\<lparr>rc_sequence := Suc (rc_sequence c)\<rparr>,
     (''type'', JStr kind) # (''sequence_number'', JInt (int (rc_sequence c))) # data)"

definition resp_evt :: "string \<Rightarrow> json_object \<Rightarrow> responder \<Rightarrow> responder \<times> json_object list" where
  "resp_evt kind data c =
    (if rc_nonstream c then (c, []) else case eventPayload kind data c of (c, e) \<Rightarrow> (c, [e]))"

definition resp_frame :: "json_codec \<Rightarrow> json_object \<Rightarrow> string" where
  "resp_frame jc e =
    ''data: '' @ (case jc_marshal jc (JObj e) of None \<Rightarrow> [] | Some s \<Rightarrow> s) @ [CHR 0x0A, CHR 0x0A]"

subsection \<open>Items and the response\<close>

definition summary_part :: "string \<Rightarrow> json" where
  "summary_part s = JObj [(''type'', JStr ''summary_text''), (''text'', JStr s)]"

definition output_part :: "string \<Rightarrow> json" where
  "output_part s = JObj [(''type'', JStr ''output_text''), (''text'', JStr s), (''annotations'', JList [])]"

definition refusal_part :: "string \<Rightarrow> json" where
  "refusal_part s = JObj [(''type'', JStr ''refusal''), (''refusal'', JStr s)]"

definition reasoningItem :: "string \<Rightarrow> bool \<Rightarrow> responder \<Rightarrow> json_object" where
  "reasoningItem status no_text c =
    [(''type'', JStr ''reasoning''), (''id'', JStr (rc_reasoningID c)),
     (''summary'', JList (if no_text then [] else [summary_part (rc_reasoning c)])), (''status'', JStr status)]"

definition message_parts :: "responder \<Rightarrow> json list" where
  "message_parts c =
    (let t = (if rc_contentPart c then [output_part (rc_content c)] else []);
         r = (if rc_refusalPart c then [refusal_part (rc_refusal c)] else [])
     in if rc_contentPart c \<and> rc_refusalPart c \<and> rc_refusalContent c < rc_textContent c then r @ t else t @ r)"

definition msgItem :: "string \<Rightarrow> bool \<Rightarrow> responder \<Rightarrow> json_object" where
  "msgItem status no_text c =
    [(''type'', JStr ''message''), (''id'', JStr (rc_msgID c)), (''status'', JStr status), (''role'', JStr ''assistant''),
     (''content'', JList (if no_text then [] else message_parts c))]"

definition fcItem :: "resp_call \<Rightarrow> string \<Rightarrow> json_object" where
  "fcItem t status =
    [(''type'', JStr ''function_call''), (''id'', JStr (rt_fcID t)), (''call_id'', JStr (rt_id t)),
     (''name'', JStr (rt_name t)), (''arguments'', JStr (rt_args t)), (''status'', JStr status)]"

text \<open>Every item of a call has its slot: the code looks it up without asking.\<close>

definition output_item :: "string \<Rightarrow> responder \<Rightarrow> out_item \<Rightarrow> json list" where
  "output_item status c it =
    (case it of
       ReasoningItem \<Rightarrow> [JObj (reasoningItem status False c)]
     | MessageItem \<Rightarrow> [JObj (msgItem status False c)]
     | CallItem k \<Rightarrow> (case map_of (rc_tools c) k of Some t \<Rightarrow> [JObj (fcItem t status)] | None \<Rightarrow> []))"

definition upstreamCachedTokens :: "json_object \<Rightarrow> int option" where
  "upstreamCachedTokens u = fst (ValidCache u)"

definition responses_usage :: "json_object \<Rightarrow> json_object" where
  "responses_usage u =
    (let cached = upstreamCachedTokens u; (input, output) = Totals u
     in [(''input_tokens'', JInt input),
         (''input_tokens_details'', JObj (case cached of None \<Rightarrow> [] | Some n \<Rightarrow> [(''cached_tokens'', JInt n)])),
         (''output_tokens'', JInt output), (''total_tokens'', JInt (wrap64 (input + output)))] @
        (case Reasoning u of None \<Rightarrow> [] | Some n \<Rightarrow> [(''output_tokens_details'', JObj [(''reasoning_tokens'', JInt n)])]) @
        (case cached of None \<Rightarrow> [] | Some n \<Rightarrow> [(''cache_read_input_tokens'', JInt n)]))"

definition responseObj :: "string \<Rightarrow> responder \<Rightarrow> json_object" where
  "responseObj status c =
    [(''id'', JStr (rc_respID c)), (''object'', JStr ''response''), (''created_at'', JInt (rc_createdAt c)),
     (''status'', JStr status), (''model'', JStr (rc_model c)),
     (''output'', JList (concat (map (output_item status c) (rc_items c)))), (''parallel_tool_calls'', JBool True),
     (''usage'', (case rc_usage c of None \<Rightarrow> JNull | Some u \<Rightarrow> JObj (responses_usage u)))] @
    (case rc_err c of None \<Rightarrow> [] | Some e \<Rightarrow> [(''error'', JObj e)]) @
    (if status = ''incomplete''
     then [(''incomplete_details'', JObj [(''reason'',
             JStr (if rc_finish c = ''content_filter'' then ''content_filter'' else ''max_output_tokens''))])]
     else [])"

definition resp_status :: "responder \<Rightarrow> string" where
  "resp_status c = completionStatus (rc_finish c)"

definition resp_GetNonstreamResponse :: "responder \<Rightarrow> json_object" where
  "resp_GetNonstreamResponse c = responseObj (resp_status c) c"

text \<open>The end of a failed stream; codes are statuses, which the twelve digits of the code's itoa hold.\<close>

definition Fail :: "string \<Rightarrow> int \<Rightarrow> responder \<Rightarrow> responder \<times> json_object list" where
  "Fail message code c =
    (let c = c\<lparr>rc_err := Some [(''type'', JStr ''upstream_error''), (''code'', JStr (itoa code)), (''message'', JStr message)]\<rparr>
     in resp_evt ''response.failed'' [(''response'', JObj (responseObj ''failed'' c))] c)"

subsection \<open>Reasoning, text and refusals\<close>

definition add_item :: "out_item \<Rightarrow> responder \<Rightarrow> responder" where
  "add_item it c = c\<lparr>rc_items := rc_items c @ [it]\<rparr>"

definition add_reasoning :: "responder \<Rightarrow> responder \<times> json_object list" where
  "add_reasoning c =
    (if 0 \<le> rc_reasoningIdx c then (c, [])
     else
       let i = length (rc_items c); c = (add_item ReasoningItem c)\<lparr>rc_reasoningIdx := int i\<rparr>
       in then_do
            (resp_evt ''response.output_item.added''
              [(''output_index'', JInt (int i)), (''item'', JObj (reasoningItem ''in_progress'' True c))] c)
            (resp_evt ''response.reasoning_summary_part.added''
              [(''item_id'', JStr (rc_reasoningID c)), (''output_index'', JInt (int i)), (''summary_index'', JInt 0),
               (''part'', summary_part [])]))"

definition resp_reasoning :: "string \<Rightarrow> responder \<Rightarrow> responder \<times> json_object list" where
  "resp_reasoning s c =
    (if s = [] then (c, [])
     else then_do (add_reasoning c) (\<lambda>c.
       resp_evt ''response.reasoning_summary_text.delta''
         [(''item_id'', JStr (rc_reasoningID c)), (''output_index'', JInt (rc_reasoningIdx c)), (''summary_index'', JInt 0),
          (''delta'', JStr s)] (c\<lparr>rc_reasoning := rc_reasoning c @ s\<rparr>)))"

definition add_message :: "responder \<Rightarrow> responder \<times> json_object list" where
  "add_message c =
    (if rc_msgItem c then (c, [])
     else
       let i = length (rc_items c); c = (add_item MessageItem c)\<lparr>rc_messageIdx := int i\<rparr>
       in case resp_evt ''response.output_item.added''
            [(''output_index'', JInt (int i)), (''item'', JObj (msgItem ''in_progress'' True c))] c of
          (c, es) \<Rightarrow> (c\<lparr>rc_msgItem := True\<rparr>, es))"

text \<open>What events about a part of the message say of its place.\<close>

definition part_place :: "nat \<Rightarrow> responder \<Rightarrow> json_object" where
  "part_place i c =
    [(''item_id'', JStr (rc_msgID c)), (''output_index'', JInt (rc_messageIdx c)), (''content_index'', JInt (int i))]"

definition add_text_part :: "responder \<Rightarrow> responder \<times> json_object list" where
  "add_text_part c =
    (if rc_contentPart c then (c, [])
     else
       let i = rc_nextContent c; c = c\<lparr>rc_textContent := i, rc_nextContent := Suc i\<rparr>
       in case resp_evt ''response.content_part.added'' (part_place i c @ [(''part'', output_part [])]) c of
          (c, es) \<Rightarrow> (c\<lparr>rc_contentPart := True\<rparr>, es))"

definition resp_text :: "string \<Rightarrow> responder \<Rightarrow> responder \<times> json_object list" where
  "resp_text s c =
    (if s = [] then (c, [])
     else then_do (then_do (add_message c) add_text_part) (\<lambda>c.
       resp_evt ''response.output_text.delta'' (part_place (rc_textContent c) c @ [(''delta'', JStr s)])
         (c\<lparr>rc_content := rc_content c @ s\<rparr>)))"

definition add_refusal_part :: "responder \<Rightarrow> responder \<times> json_object list" where
  "add_refusal_part c =
    (if rc_refusalPart c then (c, [])
     else
       let i = rc_nextContent c; c = c\<lparr>rc_refusalContent := i, rc_nextContent := Suc i\<rparr>
       in case resp_evt ''response.content_part.added'' (part_place i c @ [(''part'', refusal_part [])]) c of
          (c, es) \<Rightarrow> (c\<lparr>rc_refusalPart := True\<rparr>, es))"

definition resp_refusal :: "string \<Rightarrow> responder \<Rightarrow> responder \<times> json_object list" where
  "resp_refusal s c =
    (if s = [] then (c, [])
     else then_do (then_do (add_message c) add_refusal_part) (\<lambda>c.
       resp_evt ''response.refusal.delta'' (part_place (rc_refusalContent c) c @ [(''delta'', JStr s)])
         (c\<lparr>rc_refusal := rc_refusal c @ s\<rparr>)))"

subsection \<open>Calls\<close>

definition set_call :: "int \<Rightarrow> resp_call \<Rightarrow> responder \<Rightarrow> responder" where
  "set_call k t c = c\<lparr>rc_tools := AList.update k t (rc_tools c)\<rparr>"

text \<open>The slot of a call, made when it is new; the identifier of the client holds until it was sent.\<close>

definition resp_slot :: "(nat \<Rightarrow> string) \<Rightarrow> int \<Rightarrow> json_object \<Rightarrow> responder \<Rightarrow> resp_call \<times> responder" where
  "resp_slot fresh k tc c =
    (let n = length (rc_tools c);
         (t, c) =
        (case map_of (rc_tools c) k of
           Some t \<Rightarrow> (t, c)
         | None \<Rightarrow>
             (\<lparr>rt_id = fresh (2 * n + 1), rt_name = [], rt_args = [], rt_fcID = fresh (2 * n),
               rt_outputIdx = length (rc_items c), rt_emitted = False\<rparr>,
              add_item (CallItem k) c));
         i = as_str (jget tc ''id''); name = as_str (jget (as_obj (jget tc ''function'')) ''name'');
         t = t\<lparr>rt_id := (if i \<noteq> [] \<and> \<not> rt_emitted t then i else rt_id t), rt_name := (if name \<noteq> [] then name else rt_name t)\<rparr>
     in (t, set_call k t c))"

definition announce_call :: "int \<Rightarrow> resp_call \<Rightarrow> responder \<Rightarrow> responder \<times> json_object list" where
  "announce_call k t c =
    (if rt_emitted t then (c, [])
     else resp_evt ''response.output_item.added''
       [(''output_index'', JInt (int (rt_outputIdx t))), (''item'', JObj (fcItem t ''in_progress''))]
       (set_call k (t\<lparr>rt_emitted := True\<rparr>) c))"

definition resp_arguments :: "int \<Rightarrow> resp_call \<Rightarrow> string \<Rightarrow> responder \<Rightarrow> responder \<times> json_object list" where
  "resp_arguments k t args c =
    (if args = [] then (c, [])
     else resp_evt ''response.function_call_arguments.delta''
       [(''item_id'', JStr (rt_fcID t)), (''output_index'', JInt (int (rt_outputIdx t))), (''delta'', JStr args)]
       (set_call k (t\<lparr>rt_emitted := True, rt_args := rt_args t @ args\<rparr>) c))"

definition resp_feed_call :: "(nat \<Rightarrow> string) \<Rightarrow> json_object \<Rightarrow> responder \<Rightarrow> responder \<times> json_object list" where
  "resp_feed_call fresh tc c =
    (let k = call_index (jget tc ''index''); (t, c) = resp_slot fresh k tc c
     in then_do (announce_call k t c)
          (resp_arguments k t (as_str (jget (as_obj (jget tc ''function'')) ''arguments''))))"

fun resp_feed_calls :: "(nat \<Rightarrow> string) \<Rightarrow> json_object list \<Rightarrow> responder \<Rightarrow> responder \<times> json_object list" where
  "resp_feed_calls fresh [] c = (c, [])"
| "resp_feed_calls fresh (tc # tcs) c = then_do (resp_feed_call fresh tc c) (resp_feed_calls fresh tcs)"

subsection \<open>Chunks\<close>

definition resp_delta :: "(nat \<Rightarrow> string) \<Rightarrow> json_object \<Rightarrow> responder \<Rightarrow> responder \<times> json_object list" where
  "resp_delta fresh delta c =
    then_do (then_do (then_do (resp_reasoning (as_str (jget delta ''reasoning_content'')) c)
        (resp_text (as_str (jget delta ''content''))))
      (resp_refusal (as_str (jget delta ''refusal''))))
    (resp_feed_calls fresh (objects_of (jget delta ''tool_calls'')))"

definition resp_choice :: "(nat \<Rightarrow> string) \<Rightarrow> json_object \<Rightarrow> responder \<Rightarrow> responder \<times> json_object list" where
  "resp_choice fresh choice c =
    (let finish = as_str (jget choice ''finish_reason'')
     in then_do (case jget choice ''delta'' of JObj delta \<Rightarrow> resp_delta fresh delta c | _ \<Rightarrow> (c, []))
          (\<lambda>c. (if finish = [] then c else c\<lparr>rc_finish := finish\<rparr>, [])))"

fun resp_choices :: "(nat \<Rightarrow> string) \<Rightarrow> json_object list \<Rightarrow> responder \<Rightarrow> responder \<times> json_object list" where
  "resp_choices fresh [] c = (c, [])"
| "resp_choices fresh (ch # chs) c = then_do (resp_choice fresh ch c) (resp_choices fresh chs)"

definition start_response :: "responder \<Rightarrow> responder \<times> json_object list" where
  "start_response c =
    (if rc_created c then (c, [])
     else
       let data = [(''response'', JObj (responseObj ''in_progress'' c))]
       in case then_do (resp_evt ''response.created'' data c) (resp_evt ''response.in_progress'' data) of
          (c, es) \<Rightarrow> (c\<lparr>rc_created := True\<rparr>, es))"

definition resp_chunk :: "(nat \<Rightarrow> string) \<Rightarrow> json_object \<Rightarrow> responder \<Rightarrow> responder \<times> json_object list" where
  "resp_chunk fresh chunk c =
    (let m = as_str (jget chunk ''model''); c = (if m \<noteq> [] then c\<lparr>rc_model := m\<rparr> else c)
     in then_do (start_response c) (\<lambda>c.
          resp_choices fresh (objects_of (jget chunk ''choices''))
            (c\<lparr>rc_usage := merge_usage (rc_usage c) (jget chunk ''usage'')\<rparr>)))"

definition resp_FeedLine :: "json_codec \<Rightarrow> (nat \<Rightarrow> string) \<Rightarrow> string \<Rightarrow> responder \<Rightarrow> responder \<times> json_object list" where
  "resp_FeedLine jc fresh line c =
    (case line_chunk jc line of None \<Rightarrow> (c, []) | Some chunk \<Rightarrow> resp_chunk fresh chunk c)"

subsection \<open>The end\<close>

definition sorted_calls :: "responder \<Rightarrow> resp_call list" where
  "sorted_calls c = map snd (sort_key fst (rc_tools c))"

text \<open>Kind and data of the closing events of a call.\<close>

definition call_done :: "string \<Rightarrow> resp_call \<Rightarrow> (string \<times> json_object) list" where
  "call_done status t =
    (if rt_emitted t
     then [(''response.function_call_arguments.done'',
            [(''item_id'', JStr (rt_fcID t)), (''output_index'', JInt (int (rt_outputIdx t))), (''arguments'', JStr (rt_args t))]),
           (''response.output_item.done'',
            [(''output_index'', JInt (int (rt_outputIdx t))), (''item'', JObj (fcItem t status))])]
     else [])"

definition reasoning_done :: "string \<Rightarrow> responder \<Rightarrow> (string \<times> json_object) list" where
  "reasoning_done status c =
    (let place = [(''item_id'', JStr (rc_reasoningID c)), (''output_index'', JInt (rc_reasoningIdx c)), (''summary_index'', JInt 0)]
     in if 0 \<le> rc_reasoningIdx c
        then [(''response.reasoning_summary_text.done'', place @ [(''text'', JStr (rc_reasoning c))]),
              (''response.reasoning_summary_part.done'', place @ [(''part'', summary_part (rc_reasoning c))]),
              (''response.output_item.done'',
               [(''output_index'', JInt (rc_reasoningIdx c)), (''item'', JObj (reasoningItem status False c))])]
        else [])"

definition message_done :: "string \<Rightarrow> responder \<Rightarrow> (string \<times> json_object) list" where
  "message_done status c =
    (if rc_contentPart c
     then [(''response.output_text.done'', part_place (rc_textContent c) c @ [(''text'', JStr (rc_content c))]),
           (''response.content_part.done'', part_place (rc_textContent c) c @ [(''part'', output_part (rc_content c))])] else []) @
    (if rc_refusalPart c
     then [(''response.refusal.done'', part_place (rc_refusalContent c) c @ [(''refusal'', JStr (rc_refusal c))]),
           (''response.content_part.done'', part_place (rc_refusalContent c) c @ [(''part'', refusal_part (rc_refusal c))])] else []) @
    (if rc_msgItem c
     then [(''response.output_item.done'',
            [(''output_index'', JInt (rc_messageIdx c)), (''item'', JObj (msgItem status False c))])] else [])"

definition closing_events :: "responder \<Rightarrow> (string \<times> json_object) list" where
  "closing_events c =
    (let status = resp_status c
     in reasoning_done status c @ message_done status c @ concat (map (call_done status) (sorted_calls c)) @
        [(''response.'' @ status, [(''response'', JObj (responseObj status c))])])"

text \<open>Events are handed to the client until one cannot be sent; \<open>sent n\<close> says whether event number n can.\<close>

fun emit_until :: "(nat \<Rightarrow> bool) \<Rightarrow> (string \<times> json_object) list \<Rightarrow> responder \<Rightarrow> responder \<times> json_object list" where
  "emit_until sent [] c = (c, [])"
| "emit_until sent ((kind, data) # es) c =
    (let n = rc_sequence c; (c, e) = eventPayload kind data c
     in if sent n then then_do (c, [e]) (emit_until sent es) else (c, [e]))"

definition FinishEvents :: "(nat \<Rightarrow> bool) \<Rightarrow> responder \<Rightarrow> responder \<times> json_object list" where
  "FinishEvents sent c = emit_until sent (closing_events c) c"

definition resp_Finish :: "json_codec \<Rightarrow> responder \<Rightarrow> string" where
  "resp_Finish jc c = concat (map (resp_frame jc) (snd (FinishEvents (\<lambda>_. True) c)))"

subsection \<open>The log\<close>

definition resp_ToolsSummaryLimited :: "int \<Rightarrow> responder \<Rightarrow> string" where
  "resp_ToolsSummaryLimited limit c =
    limited_parts limit (concat (map (\<lambda>t. summary_parts (rt_name t) (rt_args t)) (sorted_calls c))) []"

definition resp_TextContent :: "responder \<Rightarrow> string" where
  "resp_TextContent c = rc_content c @ rc_refusal c"

end
