(* ===== verification/ResponsesConverterProps.thy ===== *)
theory ResponsesConverterProps
  imports ResponsesConverter EventReader
begin

text \<open>
  The events of the converted stream as a client reads them: it counts the events, collects the items and
  their parts from what it is told, and compares its collection with what the events of the end state.
\<close>

subsection \<open>A client\<close>

type_synonym known_item = "string \<times> string \<times> (string \<times> string) list"

record client =
  cl_seq :: nat
  cl_items :: "known_item list"
  cl_done :: "nat list"
  cl_over :: bool

text \<open>The kind and the text of a part, and the kind, the identifier and the parts of an item.\<close>

definition part_view :: "json_object \<Rightarrow> string \<times> string" where
  "part_view p =
    (let kind = as_str (jget p ''type'') in (kind, as_str (jget p (if kind = ''refusal'' then ''refusal'' else ''text''))))"

definition doc_view :: "json_object \<Rightarrow> known_item" where
  "doc_view item =
    (let kind = as_str (jget item ''type'')
     in (kind, as_str (jget item ''id''),
         if kind = ''function_call'' then [(''arguments'', as_str (jget item ''arguments''))]
         else map part_view (objects_of (jget item (if kind = ''message'' then ''content'' else ''summary'')))))"

definition text_events :: "(string \<times> string \<times> string \<times> string) list" where
  "text_events =
    [(''response.reasoning_summary_text.delta'', ''reasoning'', ''summary_text'', ''delta''),
     (''response.reasoning_summary_text.done'', ''reasoning'', ''summary_text'', ''text''),
     (''response.output_text.delta'', ''message'', ''output_text'', ''delta''),
     (''response.output_text.done'', ''message'', ''output_text'', ''text''),
     (''response.refusal.delta'', ''message'', ''refusal'', ''delta''),
     (''response.refusal.done'', ''message'', ''refusal'', ''refusal''),
     (''response.function_call_arguments.delta'', ''function_call'', ''arguments'', ''delta''),
     (''response.function_call_arguments.done'', ''function_call'', ''arguments'', ''arguments'')]"

definition place :: "json_object \<Rightarrow> string \<Rightarrow> nat option" where
  "place e key = (case jget e key of JInt i \<Rightarrow> if 0 \<le> i then Some (nat i) else None | _ \<Rightarrow> None)"

definition part_place_of :: "json_object \<Rightarrow> nat" where
  "part_place_of e =
    (case place e ''content_index'' of Some p \<Rightarrow> p | None \<Rightarrow> (case place e ''summary_index'' of Some p \<Rightarrow> p | None \<Rightarrow> 0))"

definition part_step :: "string \<Rightarrow> json_object \<Rightarrow> known_item \<Rightarrow> known_item option" where
  "part_step kind e x =
    (let (k, d, parts) = x; p = part_place_of e; part = part_view (as_obj (jget e ''part''))
     in if kind = ''response.content_part.added'' \<or> kind = ''response.reasoning_summary_part.added''
        then (if p = length parts then Some (k, d, parts @ [part]) else None)
        else if length parts \<le> p then None
        else if kind = ''response.content_part.done'' \<or> kind = ''response.reasoning_summary_part.done''
        then (if parts ! p = part then Some x else None)
        else case map_of text_events kind of
               None \<Rightarrow> None
             | Some (item, part, field) \<Rightarrow>
                 let s = as_str (jget e field)
                 in if k \<noteq> item \<or> fst (parts ! p) \<noteq> part then None
                    else if field = ''delta'' then Some (k, d, parts[p := (part, snd (parts ! p) @ s)])
                    else if snd (parts ! p) = s then Some x
                    else None)"

definition item_step :: "string \<Rightarrow> json_object \<Rightarrow> nat \<Rightarrow> client \<Rightarrow> client option" where
  "item_step kind e i b =
    (let item = doc_view (as_obj (jget e ''item''))
     in if kind = ''response.output_item.added''
        then (if i = length (cl_items b) then Some (b\<lparr>cl_items := cl_items b @ [item]\<rparr>) else None)
        else if length (cl_items b) \<le> i \<or> i \<in> set (cl_done b) then None
        else if kind = ''response.output_item.done''
        then (if item = cl_items b ! i then Some (b\<lparr>cl_done := i # cl_done b\<rparr>) else None)
        else if as_str (jget e ''item_id'') \<noteq> fst (snd (cl_items b ! i)) then None
        else map_option (\<lambda>x. b\<lparr>cl_items := (cl_items b)[i := x]\<rparr>) (part_step kind e (cl_items b ! i)))"

definition client_step :: "client \<Rightarrow> json_object \<Rightarrow> client option" where
  "client_step b e =
    (let kind = as_str (jget e ''type''); output = objects_of (jget (as_obj (jget e ''response'')) ''output'');
         b' = b\<lparr>cl_seq := Suc (cl_seq b)\<rparr>
     in if cl_over b \<or> jget e ''sequence_number'' \<noteq> JInt (int (cl_seq b)) then None
        else if kind = ''response.created'' \<or> kind = ''response.in_progress''
        then (if output = [] \<and> cl_items b = [] then Some b' else None)
        else if kind = ''response.completed'' \<or> kind = ''response.incomplete''
        then (if map doc_view output = cl_items b \<and> list_all (\<lambda>i. i \<in> set (cl_done b)) [0..<length output]
              then Some (b'\<lparr>cl_over := True\<rparr>) else None)
        else case place e ''output_index'' of None \<Rightarrow> None | Some i \<Rightarrow> item_step kind e i b')"

abbreviation client_run :: "client \<Rightarrow> json_object list \<Rightarrow> client option" where
  "client_run \<equiv> read_all client_step"

lemma step_counts: "client_step b e = Some b' \<Longrightarrow> cl_seq b' = Suc (cl_seq b)"
  by (auto simp: client_step_def item_step_def Let_def split: if_split_asm option.split_asm)

lemma client_counts: "client_run b es = Some b' \<Longrightarrow> cl_seq b' = cl_seq b + length es"
  by (induction es arbitrary: b) (auto split: option.split_asm dest!: step_counts)

definition new_client :: client where
  "new_client = \<lparr>cl_seq = 0, cl_items = [], cl_done = [], cl_over = False\<rparr>"

subsection \<open>The converter as a client sees it\<close>

definition live_parts :: "responder \<Rightarrow> (string \<times> string) list" where
  "live_parts c =
    (let t = (if rc_contentPart c then [(''output_text'', rc_content c)] else []);
         r = (if rc_refusalPart c then [(''refusal'', rc_refusal c)] else [])
     in if rc_contentPart c \<and> rc_refusalPart c \<and> rc_refusalContent c < rc_textContent c then r @ t else t @ r)"

definition live_call :: "resp_call \<Rightarrow> known_item" where
  "live_call t = (''function_call'', rt_fcID t, [(''arguments'', rt_args t)])"

definition live :: "responder \<Rightarrow> out_item \<Rightarrow> known_item" where
  "live c it =
    (case it of
       ReasoningItem \<Rightarrow> (''reasoning'', rc_reasoningID c, [(''summary_text'', rc_reasoning c)])
     | MessageItem \<Rightarrow> (''message'', rc_msgID c, live_parts c)
     | CallItem k \<Rightarrow> (case map_of (rc_tools c) k of Some t \<Rightarrow> live_call t | None \<Rightarrow> ([], [], [])))"

definition seen :: "responder \<Rightarrow> client" where
  "seen c = \<lparr>cl_seq = rc_sequence c, cl_items = map (live c) (rc_items c), cl_done = [], cl_over = False\<rparr>"

definition parts_ok :: "responder \<Rightarrow> bool" where
  "parts_ok c =
    (if rc_contentPart c then
       (if rc_refusalPart c
        then rc_nextContent c = Suc (Suc 0) \<and>
          (rc_textContent c = 0 \<and> rc_refusalContent c = Suc 0 \<or> rc_textContent c = Suc 0 \<and> rc_refusalContent c = 0)
        else rc_nextContent c = Suc 0 \<and> rc_textContent c = 0)
     else if rc_refusalPart c then rc_nextContent c = Suc 0 \<and> rc_refusalContent c = 0 else rc_nextContent c = 0)"

definition calls_ok :: "out_item list \<Rightarrow> (int \<times> resp_call) list \<Rightarrow> bool" where
  "calls_ok items ts =
    (distinct (map fst ts) \<and>
     (\<forall>(k, t) \<in> set ts. rt_emitted t \<and> rt_outputIdx t < length items \<and> items ! rt_outputIdx t = CallItem k) \<and>
     (\<forall>k. CallItem k \<in> set items \<longrightarrow> k \<in> fst ` set ts))"

definition items_ok :: "responder \<Rightarrow> bool" where
  "items_ok c =
    (distinct (rc_items c) \<and> calls_ok (rc_items c) (rc_tools c) \<and>
     (if 0 \<le> rc_reasoningIdx c
      then nat (rc_reasoningIdx c) < length (rc_items c) \<and> rc_items c ! nat (rc_reasoningIdx c) = ReasoningItem
      else ReasoningItem \<notin> set (rc_items c)) \<and>
     (if rc_msgItem c
      then 0 \<le> rc_messageIdx c \<and> nat (rc_messageIdx c) < length (rc_items c) \<and> rc_items c ! nat (rc_messageIdx c) = MessageItem
      else MessageItem \<notin> set (rc_items c)))"

definition texts_ok :: "responder \<Rightarrow> bool" where
  "texts_ok c =
    ((rc_contentPart c \<or> rc_refusalPart c \<longrightarrow> rc_msgItem c) \<and> (\<not> rc_contentPart c \<longrightarrow> rc_content c = []) \<and>
     (\<not> rc_refusalPart c \<longrightarrow> rc_refusal c = []) \<and> (rc_reasoningIdx c < 0 \<longrightarrow> rc_reasoning c = []))"

definition resp_ok :: "responder \<Rightarrow> bool" where
  "resp_ok c = (\<not> rc_nonstream c \<and> rc_created c \<and> parts_ok c \<and> items_ok c \<and> texts_ok c)"

abbreviation follows :: "responder \<Rightarrow> responder \<times> json_object list \<Rightarrow> bool" where
  "follows \<equiv> tracks resp_ok seen client_step"

lemma map_one: "\<lbrakk>distinct xs; i < length xs; xs ! i = x; \<And>y. y \<noteq> x \<Longrightarrow> g y = f y\<rbrakk> \<Longrightarrow> map g xs = (map f xs)[i := g x]"
  by (rule nth_equalityI) (auto simp: nth_list_update distinct_conv_nth)

subsection \<open>Single events\<close>

definition stream_kinds :: "string list" where
  "stream_kinds =
    [''response.created'', ''response.in_progress'', ''response.completed'', ''response.incomplete'',
     ''response.output_item.added'', ''response.output_item.done'']"

definition numbered :: "nat \<Rightarrow> string \<Rightarrow> json_object \<Rightarrow> json_object" where
  "numbered n kind data = (''type'', JStr kind) # (''sequence_number'', JInt (int n)) # data"

lemma jget_numbered:
  "jget (numbered n kind data) ''type'' = JStr kind" "jget (numbered n kind data) ''sequence_number'' = JInt (int n)"
  "\<lbrakk>k \<noteq> ''type''; k \<noteq> ''sequence_number''\<rbrakk> \<Longrightarrow> jget (numbered n kind data) k = jget data k"
  by (simp_all add: numbered_def jget_def)

lemma resp_evt_numbered:
  "\<not> rc_nonstream c \<Longrightarrow>
   resp_evt kind data c = (c\<lparr>rc_sequence := Suc (rc_sequence c)\<rparr>, [numbered (rc_sequence c) kind data])"
  by (simp add: resp_evt_def eventPayload_def numbered_def)

lemma place_numbered: "\<lbrakk>k \<noteq> ''type''; k \<noteq> ''sequence_number''\<rbrakk> \<Longrightarrow> place (numbered n kind data) k = place data k"
  by (simp add: place_def jget_numbered)

text \<open>An event about one item.\<close>

lemma item_event:
  assumes "i < length (cl_items b)" "i \<notin> set (cl_done b)" "\<not> cl_over b" "cl_seq b = n"
    "list_all (\<lambda>k. kind \<noteq> k) stream_kinds" "place data ''output_index'' = Some i"
    "as_str (jget data ''item_id'') = fst (snd (cl_items b ! i))"
    "part_step kind (numbered n kind data) (cl_items b ! i) = Some x"
  shows "client_step b (numbered n kind data) = Some (b\<lparr>cl_seq := Suc n, cl_items := (cl_items b)[i := x]\<rparr>)"
  using assms by (simp add: client_step_def item_step_def Let_def jget_numbered as_str_def place_numbered stream_kinds_def)

lemma seen_update:
  assumes "distinct (rc_items c)" "i < length (rc_items c)" "rc_items c ! i = it"
    "rc_items d = rc_items c" "rc_sequence d = Suc (rc_sequence c)" "\<And>y. y \<noteq> it \<Longrightarrow> live d y = live c y"
  shows "(seen c)\<lparr>cl_seq := Suc (rc_sequence c), cl_items := (map (live c) (rc_items c))[i := live d it]\<rparr> = seen d"
  using map_one [OF assms(1-3), of "live d" "live c"] assms(4-6) by (simp add: seen_def)

lemma item_event_seen:
  assumes "items_ok c" "i < length (rc_items c)" "rc_items c ! i = it"
    "rc_items d = rc_items c" "rc_sequence d = Suc (rc_sequence c)" "\<And>y. y \<noteq> it \<Longrightarrow> live d y = live c y"
    "list_all (\<lambda>k. kind \<noteq> k) stream_kinds" "place data ''output_index'' = Some i"
    "as_str (jget data ''item_id'') = fst (snd (live c it))"
    "part_step kind (numbered (rc_sequence c) kind data) (live c it) = Some (live d it)"
  shows "client_run (seen c) [numbered (rc_sequence c) kind data] = Some (seen d)"
proof -
  have "distinct (rc_items c)" using assms(1) by (simp add: items_ok_def)
  note u = seen_update [OF this assms(2-6)]
  have "client_step (seen c) (numbered (rc_sequence c) kind data) =
      Some ((seen c)\<lparr>cl_seq := Suc (rc_sequence c), cl_items := (cl_items (seen c))[i := live d it]\<rparr>)"
    by (rule item_event) (use assms in \<open>simp_all add: seen_def\<close>)
  with u show ?thesis by (simp add: seen_def)
qed

text \<open>A new item.\<close>

lemma item_added:
  assumes "rc_items d = rc_items c @ [it]" "rc_sequence d = Suc (rc_sequence c)" "\<forall>y \<in> set (rc_items c). live d y = live c y"
    "place data ''output_index'' = Some (length (rc_items c))" "doc_view (as_obj (jget data ''item'')) = live d it"
  shows "client_run (seen c) [numbered (rc_sequence c) ''response.output_item.added'' data] = Some (seen d)"
  using assms by (simp add: client_step_def item_step_def Let_def jget_numbered as_str_def place_numbered seen_def)

subsection \<open>Reasoning\<close>

lemma objects_none: "objects_of (JList []) = []"
  by (simp add: objects_of_def as_list_def)

lemma live_message: "live c MessageItem = (''message'', rc_msgID c, live_parts c)"
  by (simp add: live_def)

lemma place_int: "place ((k, JInt (int i)) # m) k = Some i" "k \<noteq> k' \<Longrightarrow> place ((k', v) # m) k = place m k" "place [] k = None"
  by (simp_all add: place_def jget_def)

lemma place_pos: "0 \<le> i \<Longrightarrow> place ((k, JInt i) # m) k = Some (nat i)"
  by (simp add: place_def jget_def)

lemmas event_simps = place_int place_pos place_numbered jget_numbered part_step_def part_place_of_def text_events_def
  as_str_def as_obj_def Let_def stream_kinds_def

lemma jget_Cons: "jget ((k, v) # m) k' = (if k = k' then v else jget m k')"
  by (simp add: jget_def)

lemma reasoning_delta:
  assumes "resp_ok c" "0 \<le> rc_reasoningIdx c"
  shows "follows c (resp_evt ''response.reasoning_summary_text.delta''
         [(''item_id'', JStr (rc_reasoningID c)), (''output_index'', JInt (rc_reasoningIdx c)), (''summary_index'', JInt 0),
          (''delta'', JStr s)] (c\<lparr>rc_reasoning := rc_reasoning c @ s\<rparr>))"
proof -
  let ?d = "c\<lparr>rc_reasoning := rc_reasoning c @ s, rc_sequence := Suc (rc_sequence c)\<rparr>"
  have l: "live ?d y = live c y" if "y \<noteq> ReasoningItem" for y
    using that by (simp add: live_def live_parts_def split: out_item.split)
  have i: "items_ok c" "nat (rc_reasoningIdx c) < length (rc_items c)" "rc_items c ! nat (rc_reasoningIdx c) = ReasoningItem"
    using assms by (simp_all add: resp_ok_def items_ok_def)
  have "client_run (seen c) [numbered (rc_sequence c) ''response.reasoning_summary_text.delta''
         [(''item_id'', JStr (rc_reasoningID c)), (''output_index'', JInt (rc_reasoningIdx c)), (''summary_index'', JInt 0),
          (''delta'', JStr s)]] = Some (seen ?d)"
    by (rule item_event_seen [OF i]) (use l assms(2) place_int(1) [of _ 0] in \<open>simp_all add: event_simps jget_Cons live_def\<close>)
  moreover have "resp_ok ?d" using assms by (simp add: resp_ok_def parts_ok_def items_ok_def texts_ok_def)
  ultimately show ?thesis using assms(1) by (simp add: tracks_def resp_evt_numbered resp_ok_def)
qed

text \<open>A new item at the end that only its own index refers to.\<close>

lemma items_ok_append:
  assumes "items_ok c" "it \<notin> set (rc_items c)"
    "rc_items d = rc_items c @ [it]" "rc_tools d = rc_tools c" "\<forall>k. it \<noteq> CallItem k"
    "if it = ReasoningItem then rc_reasoningIdx d = int (length (rc_items c)) else rc_reasoningIdx d = rc_reasoningIdx c"
    "if it = MessageItem then rc_msgItem d \<and> rc_messageIdx d = int (length (rc_items c))
     else rc_msgItem d = rc_msgItem c \<and> rc_messageIdx d = rc_messageIdx c"
  shows "items_ok d"
proof -
  have "calls_ok (rc_items d) (rc_tools d)"
    using assms(1,3-5) by (auto simp: items_ok_def calls_ok_def nth_append)
  then show ?thesis using assms by (auto simp: items_ok_def nth_append split: if_split_asm)
qed

lemma add_reasoning_follows:
  assumes "resp_ok c"
  shows "follows c (add_reasoning c) \<and> 0 \<le> rc_reasoningIdx (fst (add_reasoning c))"
proof (cases "0 \<le> rc_reasoningIdx c")
  case True
  then show ?thesis using assms by (simp add: add_reasoning_def tracks_nil)
next
  case False
  let ?n = "rc_sequence c" let ?i = "length (rc_items c)"
  let ?d = "c\<lparr>rc_items := rc_items c @ [ReasoningItem], rc_reasoningIdx := int ?i, rc_sequence := Suc (Suc ?n)\<rparr>"
  have new: "ReasoningItem \<notin> set (rc_items c)" and e: "rc_reasoning c = []"
    using assms False by (simp_all add: resp_ok_def items_ok_def texts_ok_def)
  have "items_ok ?d" by (rule items_ok_append [of c ReasoningItem]) (use assms new in \<open>simp_all add: resp_ok_def\<close>)
  then have ok: "resp_ok ?d" using assms by (simp add: resp_ok_def parts_ok_def texts_ok_def)
  have l: "live ?d y = live c y" for y by (simp add: live_def live_parts_def split: out_item.split)
  have r: "add_reasoning c = (?d,
      [numbered ?n ''response.output_item.added'' [(''output_index'', JInt (int ?i)), (''item'', JObj (reasoningItem ''in_progress'' True ?d))],
       numbered (Suc ?n) ''response.reasoning_summary_part.added''
         [(''item_id'', JStr (rc_reasoningID c)), (''output_index'', JInt (int ?i)), (''summary_index'', JInt 0),
          (''part'', summary_part [])]])"
    using assms False by (simp add: add_reasoning_def add_item_def resp_evt_numbered then_do_def resp_ok_def reasoningItem_def Let_def)
  let ?b = "(seen c)\<lparr>cl_seq := Suc ?n, cl_items := cl_items (seen c) @ [(''reasoning'', rc_reasoningID c, [])]\<rparr>"
  have "client_step (seen c) (numbered ?n ''response.output_item.added''
      [(''output_index'', JInt (int ?i)), (''item'', JObj (reasoningItem ''in_progress'' True ?d))]) = Some ?b"
    by (simp add: client_step_def item_step_def event_simps jget_Cons seen_def reasoningItem_def doc_view_def objects_none)
  moreover have "client_step ?b (numbered (Suc ?n) ''response.reasoning_summary_part.added''
         [(''item_id'', JStr (rc_reasoningID c)), (''output_index'', JInt (int ?i)), (''summary_index'', JInt 0),
          (''part'', summary_part [])]) =
      Some (?b\<lparr>cl_seq := Suc (Suc ?n), cl_items := (cl_items ?b)[?i := (''reasoning'', rc_reasoningID c, [(''summary_text'', [])])]\<rparr>)"
    by (rule item_event) (use place_int(1) [of _ 0] in \<open>simp_all add: event_simps jget_Cons seen_def nth_append summary_part_def part_view_def\<close>)
  moreover have "(cl_items ?b)[?i := (''reasoning'', rc_reasoningID c, [(''summary_text'', [])])] = map (live ?d) (rc_items ?d)"
    using e by (simp add: seen_def list_update_append l) (simp add: live_def)
  ultimately have "client_run (seen c) (snd (add_reasoning c)) = Some (seen ?d)" unfolding r by (simp add: seen_def)
  with ok show ?thesis unfolding r by (simp add: tracks_def)
qed

lemma resp_reasoning_follows: "resp_ok c \<Longrightarrow> follows c (resp_reasoning s c)"
  unfolding resp_reasoning_def using add_reasoning_follows [of c]
  by (auto intro!: tracks_nil tracks_then reasoning_delta)

subsection \<open>Messages\<close>

lemma add_message_follows:
  assumes "resp_ok c"
  shows "follows c (add_message c) \<and> rc_msgItem (fst (add_message c))"
proof (cases "rc_msgItem c")
  case True
  then show ?thesis using assms by (simp add: add_message_def tracks_nil)
next
  case False
  let ?n = "rc_sequence c" let ?i = "length (rc_items c)"
  let ?d = "c\<lparr>rc_items := rc_items c @ [MessageItem], rc_messageIdx := int ?i, rc_sequence := Suc ?n, rc_msgItem := True\<rparr>"
  have new: "MessageItem \<notin> set (rc_items c)" and e: "\<not> rc_contentPart c" "\<not> rc_refusalPart c"
    using assms False by (simp_all add: resp_ok_def items_ok_def texts_ok_def)
  have "items_ok ?d" by (rule items_ok_append [of c MessageItem]) (use assms new in \<open>simp_all add: resp_ok_def\<close>)
  then have ok: "resp_ok ?d" using assms by (simp add: resp_ok_def parts_ok_def texts_ok_def)
  have l: "live ?d y = live c y" for y by (simp add: live_def live_parts_def split: out_item.split)
  let ?e = "[(''output_index'', JInt (int ?i)), (''item'', JObj (msgItem ''in_progress'' True ?d))]"
  have r: "add_message c = (?d, [numbered ?n ''response.output_item.added'' ?e])"
    using assms False by (simp add: add_message_def add_item_def resp_evt_numbered resp_ok_def msgItem_def Let_def)
  have "client_run (seen c) [numbered ?n ''response.output_item.added'' ?e] = Some (seen ?d)"
    by (rule item_added [of _ _ MessageItem])
       (use e l in \<open>simp_all add: event_simps jget_Cons msgItem_def doc_view_def live_message objects_none live_parts_def\<close>)
  with ok show ?thesis unfolding r by (simp add: tracks_def)
qed

text \<open>An event about a part of the message.\<close>

lemma message_event:
  assumes "resp_ok c" "rc_msgItem c" "list_all (\<lambda>k. kind \<noteq> k) stream_kinds" "resp_ok d"
    "rc_items d = rc_items c" "rc_sequence d = Suc (rc_sequence c)" "rc_msgID d = rc_msgID c"
    "rc_reasoning d = rc_reasoning c" "rc_reasoningID d = rc_reasoningID c" "rc_tools d = rc_tools c"
    "part_step kind (numbered (rc_sequence c) kind (part_place p c @ data)) (''message'', rc_msgID c, live_parts c) =
       Some (''message'', rc_msgID c, live_parts d)"
  shows "follows c (d, [numbered (rc_sequence c) kind (part_place p c @ data)])"
proof -
  have i: "items_ok c" "nat (rc_messageIdx c) < length (rc_items c)" "rc_items c ! nat (rc_messageIdx c) = MessageItem"
      "0 \<le> rc_messageIdx c"
    using assms(1,2) by (simp_all add: resp_ok_def items_ok_def)
  have l: "live d y = live c y" if "y \<noteq> MessageItem" for y
    using that assms(8-10) by (simp add: live_def split: out_item.split)
  have "client_run (seen c) [numbered (rc_sequence c) kind (part_place p c @ data)] = Some (seen d)"
    by (rule item_event_seen [OF i(1-3)])
       (use l i(4) assms in \<open>simp_all add: part_place_def event_simps jget_Cons live_def\<close>)
  with assms(4) show ?thesis by (simp add: tracks_def)
qed

lemma part_place_index: "part_place_of (numbered n kind (part_place p c @ data)) = p"
  by (simp add: part_place_of_def part_place_def place_numbered place_int)

lemma part_place_field:
  "k \<notin> {''item_id'', ''output_index'', ''content_index'', ''type'', ''sequence_number''} \<Longrightarrow>
   jget (numbered n kind (part_place p c @ data)) k = jget data k"
  by (auto simp: jget_numbered part_place_def jget_Cons)

lemmas message_simps = part_step_def text_events_def part_place_index part_place_field jget_Cons Let_def as_str_def as_obj_def stream_kinds_def

lemma live_parts_length: "parts_ok c \<Longrightarrow> length (live_parts c) = rc_nextContent c"
  by (auto simp: parts_ok_def live_parts_def Let_def split: if_split_asm)

lemma add_text_part_follows:
  assumes "resp_ok c" "rc_msgItem c"
  shows "follows c (add_text_part c) \<and> rc_msgItem (fst (add_text_part c)) \<and> rc_contentPart (fst (add_text_part c))"
proof (cases "rc_contentPart c")
  case True
  then show ?thesis using assms by (simp add: add_text_part_def tracks_nil)
next
  case False
  let ?i = "rc_nextContent c"
  let ?d = "c\<lparr>rc_textContent := ?i, rc_nextContent := Suc ?i, rc_sequence := Suc (rc_sequence c), rc_contentPart := True\<rparr>"
  have p: "parts_ok c" and e: "rc_content c = []" using assms False by (simp_all add: resp_ok_def texts_ok_def)
  have r: "add_text_part c = (?d, [numbered (rc_sequence c) ''response.content_part.added'' (part_place ?i c @ [(''part'', output_part [])])])"
    using assms False by (simp add: add_text_part_def resp_evt_numbered resp_ok_def part_place_def Let_def)
  have ok: "resp_ok ?d" using assms p False by (auto simp: resp_ok_def parts_ok_def texts_ok_def items_ok_def split: if_split_asm)
  have l: "live_parts ?d = live_parts c @ [(''output_text'', [])]"
    using p e False by (auto simp: live_parts_def parts_ok_def split: if_split_asm)
  show ?thesis unfolding r fst_conv
    using message_event [OF assms, of "''response.content_part.added''" ?d ?i "[(''part'', output_part [])]"] ok l live_parts_length [OF p] assms(2)
    by (simp add: message_simps output_part_def part_view_def)
qed

lemma text_delta_follows:
  assumes "resp_ok c" "rc_msgItem c" "rc_contentPart c"
  shows "follows c (resp_evt ''response.output_text.delta'' (part_place (rc_textContent c) c @ [(''delta'', JStr s)])
      (c\<lparr>rc_content := rc_content c @ s\<rparr>))"
proof -
  let ?d = "c\<lparr>rc_content := rc_content c @ s, rc_sequence := Suc (rc_sequence c)\<rparr>" let ?p = "rc_textContent c"
  have p: "parts_ok c" and ok: "resp_ok ?d"
    using assms by (simp_all add: resp_ok_def parts_ok_def texts_ok_def items_ok_def)
  have "?p < length (live_parts c)" "live_parts c ! ?p = (''output_text'', rc_content c)"
      "(live_parts c)[?p := (''output_text'', rc_content c @ s)] = live_parts ?d"
    using p assms(3) by (auto simp: live_parts_def parts_ok_def split: if_split_asm)
  then show ?thesis
    using message_event [OF assms(1,2), of "''response.output_text.delta''" ?d ?p "[(''delta'', JStr s)]"] ok assms(1)
    by (simp add: message_simps resp_evt_numbered resp_ok_def)
qed

lemma resp_text_follows: "resp_ok c \<Longrightarrow> follows c (resp_text s c)"
proof (cases "s = []")
  case False
  assume c: "resp_ok c"
  let ?m = "add_message c"
  have m: "follows c ?m" "rc_msgItem (fst ?m)" using add_message_follows [OF c] by simp_all
  have t: "follows (fst ?m) (add_text_part (fst ?m))" "rc_msgItem (fst (add_text_part (fst ?m)))"
      "rc_contentPart (fst (add_text_part (fst ?m)))"
    using add_text_part_follows m by (simp_all add: tracks_def)
  have "fst (then_do ?m add_text_part) = fst (add_text_part (fst ?m))" by (simp add: then_do_def case_prod_beta)
  with m t show ?thesis using False
    by (auto simp: resp_text_def intro!: tracks_then text_delta_follows)
qed (simp add: resp_text_def tracks_nil)

lemma add_refusal_part_follows:
  assumes "resp_ok c" "rc_msgItem c"
  shows "follows c (add_refusal_part c) \<and> rc_msgItem (fst (add_refusal_part c)) \<and> rc_refusalPart (fst (add_refusal_part c))"
proof (cases "rc_refusalPart c")
  case True
  then show ?thesis using assms by (simp add: add_refusal_part_def tracks_nil)
next
  case False
  let ?i = "rc_nextContent c"
  let ?d = "c\<lparr>rc_refusalContent := ?i, rc_nextContent := Suc ?i, rc_sequence := Suc (rc_sequence c), rc_refusalPart := True\<rparr>"
  have p: "parts_ok c" and e: "rc_refusal c = []" using assms False by (simp_all add: resp_ok_def texts_ok_def)
  have r: "add_refusal_part c = (?d, [numbered (rc_sequence c) ''response.content_part.added'' (part_place ?i c @ [(''part'', refusal_part [])])])"
    using assms False by (simp add: add_refusal_part_def resp_evt_numbered resp_ok_def part_place_def Let_def)
  have ok: "resp_ok ?d" using assms p False by (auto simp: resp_ok_def parts_ok_def texts_ok_def items_ok_def split: if_split_asm)
  have l: "live_parts ?d = live_parts c @ [(''refusal'', [])]"
    using p e False by (auto simp: live_parts_def parts_ok_def split: if_split_asm)
  show ?thesis unfolding r fst_conv
    using message_event [OF assms, of "''response.content_part.added''" ?d ?i "[(''part'', refusal_part [])]"] ok l live_parts_length [OF p] assms(2)
    by (simp add: message_simps refusal_part_def part_view_def)
qed

lemma refusal_delta_follows:
  assumes "resp_ok c" "rc_msgItem c" "rc_refusalPart c"
  shows "follows c (resp_evt ''response.refusal.delta'' (part_place (rc_refusalContent c) c @ [(''delta'', JStr s)])
      (c\<lparr>rc_refusal := rc_refusal c @ s\<rparr>))"
proof -
  let ?d = "c\<lparr>rc_refusal := rc_refusal c @ s, rc_sequence := Suc (rc_sequence c)\<rparr>" let ?p = "rc_refusalContent c"
  have p: "parts_ok c" and ok: "resp_ok ?d"
    using assms by (simp_all add: resp_ok_def parts_ok_def texts_ok_def items_ok_def)
  have "?p < length (live_parts c)" "live_parts c ! ?p = (''refusal'', rc_refusal c)"
      "(live_parts c)[?p := (''refusal'', rc_refusal c @ s)] = live_parts ?d"
    using p assms(3) by (auto simp: live_parts_def parts_ok_def split: if_split_asm)
  then show ?thesis
    using message_event [OF assms(1,2), of "''response.refusal.delta''" ?d ?p "[(''delta'', JStr s)]"] ok assms(1)
    by (simp add: message_simps resp_evt_numbered resp_ok_def)
qed

lemma resp_refusal_follows: "resp_ok c \<Longrightarrow> follows c (resp_refusal s c)"
proof (cases "s = []")
  case False
  assume c: "resp_ok c"
  let ?m = "add_message c"
  have m: "follows c ?m" "rc_msgItem (fst ?m)" using add_message_follows [OF c] by simp_all
  have t: "follows (fst ?m) (add_refusal_part (fst ?m))" "rc_msgItem (fst (add_refusal_part (fst ?m)))"
      "rc_refusalPart (fst (add_refusal_part (fst ?m)))"
    using add_refusal_part_follows m by (simp_all add: tracks_def)
  have "fst (then_do ?m add_refusal_part) = fst (add_refusal_part (fst ?m))" by (simp add: then_do_def case_prod_beta)
  with m t show ?thesis using False
    by (auto simp: resp_refusal_def intro!: tracks_then refusal_delta_follows)
qed (simp add: resp_refusal_def tracks_nil)

subsection \<open>Calls\<close>

text \<open>A call that is replaced by one at the same place with the same identifier.\<close>

lemma replace_call:
  assumes "resp_ok c" "map_of (rc_tools c) k = Some u" "rt_outputIdx t = rt_outputIdx u" "rt_emitted t"
  shows "resp_ok (set_call k t c)" "map_of (rc_tools (set_call k t c)) k = Some t"
    "live (set_call k t c) (CallItem k) = live_call t" "y \<noteq> CallItem k \<Longrightarrow> live (set_call k t c) y = live c y"
proof -
  have "distinct (map fst (rc_tools c))" using assms(1) by (simp add: resp_ok_def items_ok_def calls_ok_def)
  then obtain xs ys where x: "rc_tools c = xs @ (k, u) # ys" "rc_tools (set_call k t c) = xs @ (k, t) # ys"
    using update_present [OF assms(2), of t] by (auto simp: set_call_def)
  have "calls_ok (rc_items c) (xs @ (k, t) # ys)"
    using assms(1,3,4) x(1) by (auto simp: resp_ok_def items_ok_def calls_ok_def)
  then have "items_ok (set_call k t c)" using assms(1) x(2) by (simp add: set_call_def resp_ok_def items_ok_def)
  then show "resp_ok (set_call k t c)" using assms(1) by (simp add: resp_ok_def set_call_def parts_ok_def texts_ok_def)
  show m: "map_of (rc_tools (set_call k t c)) k = Some t" by (simp add: set_call_def update_conv)
  then show "live (set_call k t c) (CallItem k) = live_call t" by (simp add: live_def)
  show "y \<noteq> CallItem k \<Longrightarrow> live (set_call k t c) y = live c y"
    by (cases y) (simp_all add: live_def set_call_def live_parts_def update_conv)
qed

lemma call_item:
  "\<lbrakk>resp_ok c; map_of (rc_tools c) k = Some u\<rbrakk> \<Longrightarrow>
   items_ok c \<and> rt_outputIdx u < length (rc_items c) \<and> rc_items c ! rt_outputIdx u = CallItem k \<and> rt_emitted u"
  by (auto simp: resp_ok_def items_ok_def calls_ok_def dest!: map_of_SomeD)

lemma arguments_follow:
  assumes "resp_ok c" "map_of (rc_tools c) k = Some u" "rt_outputIdx t = rt_outputIdx u" "rt_fcID t = rt_fcID u" "rt_args t = rt_args u"
  shows "follows c (resp_arguments k t args c)"
proof (cases "args = []")
  case False
  let ?t = "t\<lparr>rt_emitted := True, rt_args := rt_args t @ args\<rparr>" let ?d = "set_call k ?t c"
  let ?d' = "?d\<lparr>rc_sequence := Suc (rc_sequence c)\<rparr>"
  let ?e = "[(''item_id'', JStr (rt_fcID t)), (''output_index'', JInt (int (rt_outputIdx t))), (''delta'', JStr args)]"
  let ?k = "''response.function_call_arguments.delta''"
  note r = replace_call [OF assms(1,2), of ?t, simplified, OF assms(3)]
  have i: "items_ok c" "rt_outputIdx u < length (rc_items c)" "rc_items c ! rt_outputIdx u = CallItem k"
    using call_item [OF assms(1,2)] by simp_all
  have l: "live ?d' y = live ?d y" for y by (cases y) (simp_all add: live_def live_parts_def)
  have c: "live c (CallItem k) = live_call u" using assms(2) by (simp add: live_def)
  have "client_run (seen c) [numbered (rc_sequence c) ?k ?e] = Some (seen ?d')"
  proof (rule item_event_seen [OF i])
    show "part_step ?k (numbered (rc_sequence c) ?k ?e) (live c (CallItem k)) = Some (live ?d' (CallItem k))"
      unfolding l r(3) c using assms(4,5) by (simp add: live_call_def event_simps jget_Cons)
    show "as_str (jget ?e ''item_id'') = fst (snd (live c (CallItem k)))"
      unfolding c using assms(4) by (simp add: live_call_def as_str_def jget_Cons)
    show "y \<noteq> CallItem k \<Longrightarrow> live ?d' y = live c y" for y unfolding l by (rule r(4))
  qed (use assms(3) in \<open>simp_all add: set_call_def event_simps jget_Cons\<close>)
  moreover have "resp_ok ?d'" using r(1) by (simp add: resp_ok_def parts_ok_def texts_ok_def items_ok_def)
  moreover have "\<not> rc_nonstream ?d" "rc_sequence ?d = rc_sequence c" using assms(1) by (simp_all add: resp_ok_def set_call_def)
  ultimately show ?thesis using False by (simp add: resp_arguments_def resp_evt_numbered tracks_def)
qed (simp add: resp_arguments_def tracks_nil assms)

text \<open>What a call states of itself, put into its slot.\<close>

definition named_call :: "json_object \<Rightarrow> resp_call \<Rightarrow> resp_call" where
  "named_call tc t =
    (let i = as_str (jget tc ''id''); name = as_str (jget (as_obj (jget tc ''function'')) ''name'')
     in t\<lparr>rt_id := (if i \<noteq> [] \<and> \<not> rt_emitted t then i else rt_id t), rt_name := (if name \<noteq> [] then name else rt_name t)\<rparr>)"

lemma named_call_keeps:
  "rt_outputIdx (named_call tc t) = rt_outputIdx t" "rt_fcID (named_call tc t) = rt_fcID t"
  "rt_args (named_call tc t) = rt_args t" "rt_emitted (named_call tc t) = rt_emitted t"
  by (simp_all add: named_call_def Let_def)

lemma known_call_follows:
  assumes "resp_ok c" "map_of (rc_tools c) k = Some u"
  shows "follows c (set_call k (named_call tc u) c, [])"
proof -
  let ?t = "named_call tc u"
  note r = replace_call [OF assms, of ?t, simplified named_call_keeps, OF refl call_item [OF assms, THEN conjunct2, THEN conjunct2, THEN conjunct2]]
  have "live (set_call k ?t c) y = live c y" for y
    using r(3) r(4) [of y] assms(2) by (cases "y = CallItem k") (simp_all add: live_def live_call_def named_call_keeps)
  then show ?thesis using r(1) by (simp add: tracks_def seen_def set_call_def)
qed

lemma update_snoc: "map_of ts k = None \<Longrightarrow> AList.update k t (ts @ [(k, u)]) = ts @ [(k, t)]"
  by (induction ts) (auto split: if_split_asm)

lemma new_call_follows:
  assumes "resp_ok c" "map_of (rc_tools c) k = None" "rt_outputIdx t = length (rc_items c)" "rt_args t = []" "\<not> rt_emitted t"
  shows "follows c (announce_call k t (set_call k t (add_item (CallItem k) c))) \<and>
    map_of (rc_tools (fst (announce_call k t (set_call k t (add_item (CallItem k) c))))) k = Some (t\<lparr>rt_emitted := True\<rparr>)"
proof -
  let ?n = "rc_sequence c" let ?t = "t\<lparr>rt_emitted := True\<rparr>"
  let ?d = "c\<lparr>rc_items := rc_items c @ [CallItem k], rc_tools := rc_tools c @ [(k, ?t)], rc_sequence := Suc ?n\<rparr>"
  let ?e = "[(''output_index'', JInt (int (rt_outputIdx t))), (''item'', JObj (fcItem t ''in_progress''))]"
  have a: "announce_call k t (set_call k t (add_item (CallItem k) c)) = (?d, [numbered ?n ''response.output_item.added'' ?e])"
    using assms(1,2,5) update_absent [OF assms(2)] update_snoc [OF assms(2)]
    by (simp add: announce_call_def set_call_def add_item_def resp_evt_numbered resp_ok_def)
  have nk: "k \<notin> fst ` set (rc_tools c)" using assms(2) by (simp add: map_of_eq_None_iff)
  have i: "items_ok c" using assms(1) by (simp add: resp_ok_def)
  have new: "CallItem k \<notin> set (rc_items c)" using i nk by (auto simp: items_ok_def calls_ok_def)
  have "calls_ok (rc_items c @ [CallItem k]) (rc_tools c @ [(k, ?t)])"
    using i nk assms(3) by (auto simp: items_ok_def calls_ok_def nth_append)
  then have "items_ok ?d" using i new by (auto simp: items_ok_def nth_append)
  then have ok: "resp_ok ?d" using assms(1) by (simp add: resp_ok_def parts_ok_def texts_ok_def)
  have new_live: "live ?d (CallItem k) = live_call ?t" using assms(2) by (simp add: live_def map_add_def)
  have keep: "live ?d y = live c y" if "y \<in> set (rc_items c)" for y
  proof (cases y)
    case (CallItem k')
    with that new have "k' \<noteq> k" by auto
    with CallItem show ?thesis by (simp add: live_def map_add_def split: option.split)
  qed (simp_all add: live_def live_parts_def)
  have "client_run (seen c) [numbered ?n ''response.output_item.added'' ?e] = Some (seen ?d)"
    by (rule item_added [of _ _ "CallItem k"])
       (use assms(3,4) keep new_live in \<open>simp_all add: event_simps jget_Cons fcItem_def doc_view_def live_call_def\<close>)
  with ok show ?thesis unfolding a using assms(2) by (simp add: tracks_def map_add_def)
qed

lemma feed_call_follows: "resp_ok c \<Longrightarrow> follows c (resp_feed_call fresh tc c)"
proof -
  assume c: "resp_ok c"
  let ?k = "call_index (jget tc ''index'')"
  obtain t d where s: "resp_slot fresh ?k tc c = (t, d)" by fastforce
  have "follows c (announce_call ?k t d) \<and>
      (\<exists>u. map_of (rc_tools (fst (announce_call ?k t d))) ?k = Some u \<and>
        rt_outputIdx t = rt_outputIdx u \<and> rt_fcID t = rt_fcID u \<and> rt_args t = rt_args u)"
  proof (cases "map_of (rc_tools c) ?k")
    case (Some u)
    have "t = named_call tc u" "d = set_call ?k t c" using s Some by (auto simp: resp_slot_def named_call_def Let_def)
    moreover have "rt_emitted u" using call_item [OF c Some] by simp
    ultimately show ?thesis using known_call_follows [OF c Some, of tc]
      by (simp add: announce_call_def named_call_keeps) (simp add: set_call_def update_conv named_call_keeps)
  next
    case None
    let ?n = "length (rc_tools c)"
    let ?t = "\<lparr>rt_id = fresh (2 * ?n + 1), rt_name = [], rt_args = [], rt_fcID = fresh (2 * ?n),
        rt_outputIdx = length (rc_items c), rt_emitted = False\<rparr>"
    have "t = named_call tc ?t" "d = set_call ?k t (add_item (CallItem ?k) c)"
      using s None by (auto simp: resp_slot_def named_call_def Let_def)
    then show ?thesis using new_call_follows [OF c None, of "named_call tc ?t"] by (simp add: named_call_keeps)
  qed
  then show ?thesis
    by (auto simp: resp_feed_call_def s Let_def intro!: tracks_then arguments_follow)
qed

lemma feed_calls_follow: "resp_ok c \<Longrightarrow> follows c (resp_feed_calls fresh tcs c)"
  by (induction tcs arbitrary: c) (auto simp: tracks_nil intro!: tracks_then feed_call_follows)

subsection \<open>Chunks\<close>

lemma follows_delta: "resp_ok c \<Longrightarrow> follows c (resp_delta fresh delta c)"
  unfolding resp_delta_def
  by (intro tracks_then resp_reasoning_follows resp_text_follows resp_refusal_follows feed_calls_follow)

lemma follows_choice: "resp_ok c \<Longrightarrow> follows c (resp_choice fresh choice c)"
proof -
  assume c: "resp_ok c"
  have f: "follows d (if b then d else d\<lparr>rc_finish := s\<rparr>, [])" if "resp_ok d" for d b s
    using that by (auto simp: tracks_def seen_def resp_ok_def parts_ok_def texts_ok_def items_ok_def live_def live_parts_def
        cong: out_item.case_cong)
  have "follows c (case jget choice ''delta'' of JObj delta \<Rightarrow> resp_delta fresh delta c | _ \<Rightarrow> (c, []))"
    using c by (auto intro: tracks_nil follows_delta split: json.split)
  then show ?thesis using f by (auto simp: resp_choice_def Let_def intro!: tracks_then)
qed

lemma follows_choices: "resp_ok c \<Longrightarrow> follows c (resp_choices fresh chs c)"
  by (induction chs arbitrary: c) (auto simp: tracks_nil intro!: tracks_then follows_choice)

fun resp_chunks :: "(nat \<Rightarrow> string) \<Rightarrow> json_object list \<Rightarrow> responder \<Rightarrow> responder \<times> json_object list" where
  "resp_chunks fresh [] c = (c, [])"
| "resp_chunks fresh (m # ms) c = then_do (resp_chunk fresh m c) (resp_chunks fresh ms)"

text \<open>Fields that the client does not see.\<close>

lemma unseen_fields:
  "resp_ok (c\<lparr>rc_model := m, rc_usage := u\<rparr>) = resp_ok c" "seen (c\<lparr>rc_model := m, rc_usage := u\<rparr>) = seen c"
  "resp_ok (c\<lparr>rc_usage := u\<rparr>) = resp_ok c" "seen (c\<lparr>rc_usage := u\<rparr>) = seen c"
  "resp_ok (c\<lparr>rc_model := m\<rparr>) = resp_ok c" "seen (c\<lparr>rc_model := m\<rparr>) = seen c"
  by (simp_all add: resp_ok_def parts_ok_def texts_ok_def items_ok_def seen_def live_def live_parts_def cong: out_item.case_cong)

lemma follows_chunk: "resp_ok c \<Longrightarrow> follows c (resp_chunk fresh m c)"
proof -
  assume c: "resp_ok c"
  let ?m = "as_str (jget m ''model'')" let ?c = "if ?m \<noteq> [] then c\<lparr>rc_model := ?m\<rparr> else c"
  let ?d = "?c\<lparr>rc_usage := merge_usage (rc_usage ?c) (jget m ''usage'')\<rparr>"
  have "rc_created ?c" using c by (simp add: resp_ok_def)
  then have "resp_chunk fresh m c = resp_choices fresh (objects_of (jget m ''choices'')) ?d"
    by (simp add: resp_chunk_def start_response_def then_do_def Let_def)
  moreover have "resp_ok ?d" "seen ?d = seen c" using c by (simp_all add: unseen_fields)
  ultimately show ?thesis using follows_choices [of ?d fresh] by (simp add: tracks_def)
qed

lemma follows_chunks: "resp_ok c \<Longrightarrow> follows c (resp_chunks fresh ms c)"
  by (induction ms arbitrary: c) (auto simp: tracks_nil intro!: tracks_then follows_chunk)

lemma first_chunk_follows:
  fixes respID msgID reasoningID now model fresh m
  defines "r \<equiv> resp_chunk fresh m (NewResponsesStreamConverter respID msgID reasoningID now model)"
  shows "resp_ok (fst r) \<and> client_run new_client (snd r) = Some (seen (fst r))"
proof -
  let ?c = "NewResponsesStreamConverter respID msgID reasoningID now model" let ?m = "as_str (jget m ''model'')"
  let ?c' = "if ?m \<noteq> [] then ?c\<lparr>rc_model := ?m\<rparr> else ?c"
  let ?d = "?c'\<lparr>rc_created := True, rc_sequence := 2\<rparr>"
  let ?u = "?d\<lparr>rc_usage := merge_usage (rc_usage ?d) (jget m ''usage'')\<rparr>"
  let ?data = "[(''response'', JObj (responseObj ''in_progress'' ?c'))]"
  have "start_response ?c' = (?d, [numbered 0 ''response.created'' ?data, numbered 1 ''response.in_progress'' ?data])"
    by (simp add: start_response_def resp_evt_numbered then_do_def NewResponsesStreamConverter_def Let_def)
  then have r: "r = (fst (resp_choices fresh (objects_of (jget m ''choices'')) ?u),
      [numbered 0 ''response.created'' ?data, numbered 1 ''response.in_progress'' ?data] @
      snd (resp_choices fresh (objects_of (jget m ''choices'')) ?u))"
    unfolding r_def by (simp add: resp_chunk_def then_do_def Let_def case_prod_beta)
  have "resp_ok ?u"
    by (simp add: NewResponsesStreamConverter_def resp_ok_def parts_ok_def texts_ok_def items_ok_def calls_ok_def)
  then have f: "follows ?u (resp_choices fresh (objects_of (jget m ''choices'')) ?u)" by (rule follows_choices)
  have o: "objects_of (jget (responseObj ''in_progress'' ?c') ''output'') = []"
    by (simp add: responseObj_def jget_Cons objects_none NewResponsesStreamConverter_def)
  have "client_run new_client [numbered 0 ''response.created'' ?data, numbered 1 ''response.in_progress'' ?data] = Some (seen ?u)"
    using o by (simp add: client_step_def jget_numbered as_str_def as_obj_def jget_Cons new_client_def Let_def seen_def
        NewResponsesStreamConverter_def)
  then show ?thesis unfolding r fst_conv snd_conv read_all_append using f by (simp add: tracks_def del: read_all.simps)
qed

subsection \<open>The end\<close>

fun number_events :: "nat \<Rightarrow> (string \<times> json_object) list \<Rightarrow> json_object list" where
  "number_events n [] = []"
| "number_events n ((kind, data) # es) = numbered n kind data # number_events (Suc n) es"

lemma emit_all: "snd (emit_until (\<lambda>_. True) es c) = number_events (rc_sequence c) es"
  by (induction es arbitrary: c)
     (auto simp: eventPayload_def numbered_def then_do_def Let_def case_prod_beta)

lemma number_append: "number_events n (es @ fs) = number_events n es @ number_events (n + length es) fs"
  by (induction es arbitrary: n) auto

definition closing :: "nat \<Rightarrow> known_item list \<Rightarrow> nat list \<Rightarrow> client" where
  "closing n items ds = \<lparr>cl_seq = n, cl_items = items, cl_done = ds, cl_over = False\<rparr>"

definition closes :: "known_item list \<Rightarrow> nat list \<Rightarrow> (string \<times> json_object) list \<Rightarrow> nat list \<Rightarrow> bool" where
  "closes items ds es ds' =
    (\<forall>n. client_run (closing n items ds) (number_events n es) = Some (closing (n + length es) items ds'))"

lemma closes_nil: "closes items ds [] ds"
  by (simp add: closes_def)

lemma closes_append: "\<lbrakk>closes items ds es ds'; closes items ds' fs ds''\<rbrakk> \<Longrightarrow> closes items ds (es @ fs) ds''"
  by (simp add: closes_def number_append read_all_append add.assoc)

lemma closes_Cons: "\<lbrakk>closes items ds [e] ds'; closes items ds' es ds''\<rbrakk> \<Longrightarrow> closes items ds (e # es) ds''"
  using closes_append [of items ds "[e]"] by simp

lemma check_event:
  assumes "i < length items" "i \<notin> set ds" "list_all (\<lambda>k. kind \<noteq> k) stream_kinds" "place data ''output_index'' = Some i"
    "as_str (jget data ''item_id'') = fst (snd (items ! i))"
    "\<And>n. part_step kind (numbered n kind data) (items ! i) = Some (items ! i)"
  shows "closes items ds [(kind, data)] ds"
proof -
  have "client_step (closing n items ds) (numbered n kind data) = Some (closing (Suc n) items ds)" for n
    using item_event [of i "closing n items ds" n kind data "items ! i"] assms by (simp add: closing_def)
  then show ?thesis by (simp add: closes_def)
qed

lemma done_event:
  "\<lbrakk>i < length items; i \<notin> set ds; place data ''output_index'' = Some i; doc_view (as_obj (jget data ''item'')) = items ! i\<rbrakk> \<Longrightarrow>
   closes items ds [(''response.output_item.done'', data)] (i # ds)"
  by (simp add: closes_def closing_def client_step_def item_step_def Let_def jget_numbered as_str_def place_numbered)

lemma objects_some: "objects_of (JList (JObj m # vs)) = m # objects_of (JList vs)"
  by (simp add: objects_of_def as_list_def map_filter_simps)

lemma reasoning_view: "doc_view (reasoningItem status False c) = live c ReasoningItem"
  by (simp add: doc_view_def reasoningItem_def live_def jget_Cons as_str_def objects_none objects_some summary_part_def part_view_def)

lemma message_view: "doc_view (msgItem status False c) = live c MessageItem"
  by (simp add: doc_view_def msgItem_def live_def jget_Cons as_str_def message_parts_def live_parts_def objects_none objects_some
      output_part_def refusal_part_def part_view_def Let_def)

lemma call_view: "doc_view (fcItem t status) = live_call t"
  by (simp add: doc_view_def fcItem_def live_call_def jget_Cons as_str_def)

lemma reasoning_closes:
  assumes "resp_ok c" "0 \<le> rc_reasoningIdx c" "nat (rc_reasoningIdx c) \<notin> set ds"
  shows "closes (map (live c) (rc_items c)) ds (reasoning_done status c) (nat (rc_reasoningIdx c) # ds)"
proof -
  let ?i = "nat (rc_reasoningIdx c)" let ?items = "map (live c) (rc_items c)"
  have i: "?i < length ?items" "?items ! ?i = (''reasoning'', rc_reasoningID c, [(''summary_text'', rc_reasoning c)])"
    using assms(1,2) by (simp_all add: resp_ok_def items_ok_def live_def)
  have z: "place ((''summary_index'', JInt 0) # m) ''summary_index'' = Some 0" for m using place_int(1) [of _ 0] by simp
  show ?thesis unfolding reasoning_done_def Let_def if_P [OF assms(2)]
  proof (rule closes_Cons [OF check_event [of ?i]], goal_cases)
    case 7
    then show ?case
      by (rule closes_Cons [OF check_event [of ?i] done_event])
         (use i assms reasoning_view [of status c] in \<open>simp_all add: event_simps z jget_Cons summary_part_def part_view_def live_def\<close>)
  qed (use i assms in \<open>simp_all add: event_simps z jget_Cons\<close>)
qed

lemma calls_close:
  "\<lbrakk>\<forall>t \<in> set ts. rt_emitted t \<and> rt_outputIdx t < length items \<and> items ! rt_outputIdx t = live_call t \<and> rt_outputIdx t \<notin> set ds;
    distinct (map rt_outputIdx ts)\<rbrakk> \<Longrightarrow>
   \<exists>ds'. closes items ds (concat (map (call_done status) ts)) ds' \<and> set ds' = set ds \<union> rt_outputIdx ` set ts"
proof (induction ts arbitrary: ds)
  case Nil
  then show ?case by (auto intro: closes_nil)
next
  case (Cons t ts)
  let ?i = "rt_outputIdx t"
  have t: "rt_emitted t" "?i < length items" "items ! ?i = live_call t" "?i \<notin> set ds" using Cons.prems(1) by simp_all
  have c: "closes items ds (call_done status t) (?i # ds)" unfolding call_done_def if_P [OF t(1)]
    by (rule closes_Cons [OF check_event [of ?i] done_event])
       (use t call_view [of t status] in \<open>simp_all add: event_simps jget_Cons live_call_def\<close>)
  have "?i \<notin> rt_outputIdx ` set ts" using Cons.prems(2) by simp
  then have "\<forall>u \<in> set ts. rt_outputIdx u \<noteq> ?i" by (metis imageI)
  then have "\<forall>u \<in> set ts. rt_emitted u \<and> rt_outputIdx u < length items \<and> items ! rt_outputIdx u = live_call u \<and> rt_outputIdx u \<notin> set (?i # ds)"
    using Cons.prems(1) by simp
  with Cons.IH [of "?i # ds"] Cons.prems(2) obtain ds' where
    "closes items (?i # ds) (concat (map (call_done status) ts)) ds'" "set ds' = set (?i # ds) \<union> rt_outputIdx ` set ts" by auto
  with closes_append [OF c] show ?case by auto
qed

lemma message_check:
  assumes "items_ok c" "rc_msgItem c" "nat (rc_messageIdx c) \<notin> set ds" "list_all (\<lambda>k. kind \<noteq> k) stream_kinds"
    "\<And>n. part_step kind (numbered n kind (part_place p c @ data)) (''message'', rc_msgID c, live_parts c) =
       Some (''message'', rc_msgID c, live_parts c)"
  shows "closes (map (live c) (rc_items c)) ds [(kind, part_place p c @ data)] ds"
  by (rule check_event [of "nat (rc_messageIdx c)"])
     (use assms in \<open>simp_all add: items_ok_def live_def part_place_def event_simps jget_Cons\<close>)

lemma message_closes:
  assumes c: "resp_ok c" "rc_msgItem c" and ds: "nat (rc_messageIdx c) \<notin> set ds"
  shows "closes (map (live c) (rc_items c)) ds (message_done status c) (nat (rc_messageIdx c) # ds)"
proof -
  let ?items = "map (live c) (rc_items c)"
  have p: "parts_ok c" and i: "items_ok c" using c by (simp_all add: resp_ok_def)
  have t: "closes ?items ds
      [(''response.output_text.done'', part_place (rc_textContent c) c @ [(''text'', JStr (rc_content c))]),
       (''response.content_part.done'', part_place (rc_textContent c) c @ [(''part'', output_part (rc_content c))])] ds"
    if "rc_contentPart c"
  proof -
    have "rc_textContent c < length (live_parts c)" "live_parts c ! rc_textContent c = (''output_text'', rc_content c)"
      using p that by (auto simp: live_parts_def parts_ok_def split: if_split_asm)
    then show ?thesis
      by (intro closes_Cons [OF message_check message_check])
         (use i c(2) ds in \<open>simp_all add: message_simps output_part_def part_view_def\<close>)
  qed
  have r: "closes ?items ds
      [(''response.refusal.done'', part_place (rc_refusalContent c) c @ [(''refusal'', JStr (rc_refusal c))]),
       (''response.content_part.done'', part_place (rc_refusalContent c) c @ [(''part'', refusal_part (rc_refusal c))])] ds"
    if "rc_refusalPart c"
  proof -
    have "rc_refusalContent c < length (live_parts c)" "live_parts c ! rc_refusalContent c = (''refusal'', rc_refusal c)"
      using p that by (auto simp: live_parts_def parts_ok_def split: if_split_asm)
    then show ?thesis
      by (intro closes_Cons [OF message_check message_check])
         (use i c(2) ds in \<open>simp_all add: message_simps refusal_part_def part_view_def\<close>)
  qed
  have d: "closes ?items ds [(''response.output_item.done'', [(''output_index'', JInt (rc_messageIdx c)), (''item'', JObj (msgItem status False c))])]
      (nat (rc_messageIdx c) # ds)"
    by (rule done_event) (use i c(2) ds message_view [of status c] in \<open>simp_all add: items_ok_def live_def event_simps jget_Cons\<close>)
  show ?thesis unfolding message_done_def if_P [OF c(2)]
    by (rule closes_append [of _ _ _ ds, OF _ closes_append [OF _ d]]) (use t r closes_nil in simp_all)
qed

lemma output_view:
  assumes "items_ok c"
  shows "map doc_view (objects_of (JList (concat (map (output_item status c) (rc_items c))))) = map (live c) (rc_items c)"
proof -
  have "map doc_view (objects_of (JList (concat (map (output_item status c) xs)))) = map (live c) xs"
    if "set xs \<subseteq> set (rc_items c)" for xs
    using that
  proof (induction xs)
    case (Cons x xs)
    have "\<exists>m. output_item status c x = [JObj m] \<and> doc_view m = live c x"
    proof (cases x)
      case (CallItem k)
      with Cons.prems assms have "k \<in> fst ` set (rc_tools c)" by (auto simp: items_ok_def calls_ok_def)
      then obtain t where "map_of (rc_tools c) k = Some t" by (metis map_of_eq_None_iff option.exhaust)
      with CallItem show ?thesis by (simp add: output_item_def live_def call_view)
    qed (simp_all add: output_item_def reasoning_view message_view)
    with Cons show ?case by (auto simp: objects_some)
  qed (simp add: objects_none)
  then show ?thesis by simp
qed

lemma calls_live:
  assumes "items_ok c"
  shows "\<forall>t \<in> set (sorted_calls c). rt_emitted t \<and> rt_outputIdx t < length (rc_items c) \<and>
      live c (rc_items c ! rt_outputIdx t) = live_call t \<and> (\<exists>k. rc_items c ! rt_outputIdx t = CallItem k)"
    "distinct (map rt_outputIdx (sorted_calls c))"
    "CallItem k \<in> set (rc_items c) \<Longrightarrow> \<exists>t \<in> set (sorted_calls c). rc_items c ! rt_outputIdx t = CallItem k \<and> rt_outputIdx t < length (rc_items c)"
proof -
  let ?s = "sort_key fst (rc_tools c)"
  have c: "calls_ok (rc_items c) (rc_tools c)" using assms by (simp add: items_ok_def)
  have m: "map_of (rc_tools c) k = Some t" if "(k, t) \<in> set (rc_tools c)" for k t
    using that c by (simp add: calls_ok_def)
  show "\<forall>t \<in> set (sorted_calls c). rt_emitted t \<and> rt_outputIdx t < length (rc_items c) \<and>
      live c (rc_items c ! rt_outputIdx t) = live_call t \<and> (\<exists>k. rc_items c ! rt_outputIdx t = CallItem k)"
    using c m by (auto simp: sorted_calls_def calls_ok_def live_def)
  have "distinct (map fst ?s)" using c by (simp add: calls_ok_def distinct_map)
  moreover have "map (\<lambda>p. rc_items c ! rt_outputIdx (snd p)) ?s = map CallItem (map fst ?s)"
    using c by (auto simp: calls_ok_def)
  ultimately have "distinct (map (\<lambda>p. rc_items c ! rt_outputIdx (snd p)) ?s)" by (simp add: distinct_map inj_on_def)
  then have "distinct (map (\<lambda>i. rc_items c ! i) (map rt_outputIdx (sorted_calls c)))" by (simp add: sorted_calls_def o_def)
  then show "distinct (map rt_outputIdx (sorted_calls c))" by (rule distinct_map [THEN iffD1, THEN conjunct1])
  assume "CallItem k \<in> set (rc_items c)"
  then show "\<exists>t \<in> set (sorted_calls c). rc_items c ! rt_outputIdx t = CallItem k \<and> rt_outputIdx t < length (rc_items c)"
    using c by (force simp: calls_ok_def sorted_calls_def)
qed

lemma all_closed:
  assumes "resp_ok c"
  shows "\<exists>ds. closes (map (live c) (rc_items c)) []
      (reasoning_done status c @ message_done status c @ concat (map (call_done status) (sorted_calls c))) ds \<and>
    (\<forall>i < length (rc_items c). i \<in> set ds)"
proof -
  let ?items = "map (live c) (rc_items c)" let ?r = "nat (rc_reasoningIdx c)" let ?m = "nat (rc_messageIdx c)"
  have i: "items_ok c" using assms by (simp add: resp_ok_def)
  then have dist: "distinct (rc_items c)" by (simp add: items_ok_def)
  define rs where "rs = (if 0 \<le> rc_reasoningIdx c then [?r] else [])"
  define ms where "ms = (if rc_msgItem c then [?m] else [])"
  have at: "\<forall>i \<in> set rs. i < length (rc_items c) \<and> rc_items c ! i = ReasoningItem"
      "\<forall>i \<in> set ms. i < length (rc_items c) \<and> rc_items c ! i = MessageItem"
    using i by (auto simp: rs_def ms_def items_ok_def)
  have r: "closes ?items [] (reasoning_done status c) rs"
    using reasoning_closes [OF assms, of "[]"] closes_nil by (auto simp: rs_def reasoning_done_def)
  have "\<not> rc_contentPart c \<and> \<not> rc_refusalPart c" if "\<not> rc_msgItem c" using assms that by (simp add: resp_ok_def texts_ok_def)
  then have m: "closes ?items rs (message_done status c) (ms @ rs)"
    using message_closes [OF assms, of rs] closes_nil at by (force simp: ms_def message_done_def)
  note cs = calls_live [OF i]
  have "\<forall>t \<in> set (sorted_calls c). rt_outputIdx t \<notin> set (ms @ rs)"
    using cs(1) at by (metis UnE out_item.distinct(3,5) set_append)
  then have "\<forall>t \<in> set (sorted_calls c). rt_emitted t \<and> rt_outputIdx t < length ?items \<and> ?items ! rt_outputIdx t = live_call t \<and>
      rt_outputIdx t \<notin> set (ms @ rs)" using cs(1) by simp
  from calls_close [OF this cs(2), of status] obtain ds where ds:
    "closes ?items (ms @ rs) (concat (map (call_done status) (sorted_calls c))) ds"
    "set ds = set (ms @ rs) \<union> rt_outputIdx ` set (sorted_calls c)" by blast
  have "j \<in> set ds" if "j < length (rc_items c)" for j
  proof (cases "rc_items c ! j")
    case ReasoningItem
    with that have "0 \<le> rc_reasoningIdx c" using i nth_mem [OF that] by (auto simp: items_ok_def split: if_split_asm)
    with ReasoningItem that at(1) dist have "j = ?r" by (simp add: rs_def nth_eq_iff_index_eq [symmetric])
    with \<open>0 \<le> rc_reasoningIdx c\<close> show ?thesis by (simp add: ds(2) rs_def)
  next
    case MessageItem
    with that have "rc_msgItem c" using i nth_mem [OF that] by (auto simp: items_ok_def split: if_split_asm)
    with MessageItem that at(2) dist have "j = ?m" by (simp add: ms_def nth_eq_iff_index_eq [symmetric])
    with \<open>rc_msgItem c\<close> show ?thesis by (simp add: ds(2) ms_def)
  next
    case (CallItem k)
    with that cs(3) [of k] nth_mem [OF that] obtain t where
      "t \<in> set (sorted_calls c)" "rc_items c ! rt_outputIdx t = CallItem k" "rt_outputIdx t < length (rc_items c)" by auto
    with CallItem that dist have "j = rt_outputIdx t" by (simp add: nth_eq_iff_index_eq [symmetric])
    with \<open>t \<in> set (sorted_calls c)\<close> show ?thesis by (simp add: ds(2))
  qed
  with closes_append [OF r closes_append [OF m ds(1)]] show ?thesis by blast
qed

lemma end_event:
  assumes "kind = ''response.completed'' \<or> kind = ''response.incomplete''"
    "map doc_view (objects_of (jget resp ''output'')) = items" "\<forall>i < length items. i \<in> set ds"
  shows "client_step (closing n items ds) (numbered n kind [(''response'', JObj resp)]) =
    Some ((closing (Suc n) items ds)\<lparr>cl_over := True\<rparr>)"
proof -
  have "length (objects_of (jget resp ''output'')) = length items" using assms(2) by (metis length_map)
  with assms show ?thesis
    by (elim disjE) (simp_all add: client_step_def closing_def jget_numbered jget_Cons as_str_def as_obj_def Let_def list_all_iff)
qed

text \<open>C38. Whatever chunks a stream consists of, a client that counts the events, builds the items from them
  and checks each closing event against what it built accepts the whole stream: numbers grow without gaps,
  events only name items that were announced and not closed, every delta goes to a part of its kind, every
  item is closed once, and the output of the final response is what was streamed.\<close>

theorem responses_stream_follows:
  "let (c, es) = resp_chunks fresh (m # ms) (NewResponsesStreamConverter respID msgID reasoningID now model);
       fs = snd (FinishEvents (\<lambda>_. True) c)
   in case client_run new_client (es @ fs) of
        None \<Rightarrow> False
      | Some b \<Rightarrow> cl_over b \<and> cl_seq b = length (es @ fs) \<and>
          cl_items b = map doc_view (objects_of (jget (resp_GetNonstreamResponse c) ''output''))"
proof -
  let ?r = "resp_chunk fresh m (NewResponsesStreamConverter respID msgID reasoningID now model)"
  let ?s = "resp_chunks fresh ms (fst ?r)" let ?c = "fst ?s" let ?items = "map (live ?c) (rc_items ?c)"
  have f: "resp_ok (fst ?r)" "client_run new_client (snd ?r) = Some (seen (fst ?r))" using first_chunk_follows by blast+
  have s: "follows (fst ?r) ?s" using f(1) by (rule follows_chunks)
  then have ok: "resp_ok ?c" and run: "client_run new_client (snd ?r @ snd ?s) = Some (seen ?c)"
    using f by (simp_all add: tracks_def read_all_append)
  define es where "es = reasoning_done (resp_status ?c) ?c @ message_done (resp_status ?c) ?c @
      concat (map (call_done (resp_status ?c)) (sorted_calls ?c))"
  obtain ds where ds: "closes ?items [] es ds" "\<forall>i < length (rc_items ?c). i \<in> set ds"
    using all_closed [OF ok] unfolding es_def by blast
  let ?n = "rc_sequence ?c + length es" let ?last = "(''response.'' @ resp_status ?c, [(''response'', JObj (responseObj (resp_status ?c) ?c))])"
  have o: "map doc_view (objects_of (jget (responseObj (resp_status ?c) ?c) ''output'')) = ?items"
    using output_view [of ?c] ok by (simp add: resp_ok_def responseObj_def jget_Cons)
  have "closing (rc_sequence ?c) ?items [] = seen ?c" by (simp add: closing_def seen_def)
  with ds(1) have e: "client_run (seen ?c) (number_events (rc_sequence ?c) es) = Some (closing ?n ?items ds)"
    unfolding closes_def by metis
  have "client_step (closing ?n ?items ds) (numbered ?n (fst ?last) (snd ?last)) =
      Some ((closing (Suc ?n) ?items ds)\<lparr>cl_over := True\<rparr>)"
    unfolding fst_conv snd_conv by (rule end_event [OF _ o]) (use ds(2) in \<open>simp_all add: resp_status_def completionStatus_def\<close>)
  then have x: "client_run (closing ?n ?items ds) (number_events ?n [?last]) = Some ((closing (Suc ?n) ?items ds)\<lparr>cl_over := True\<rparr>)"
    by simp
  have "snd (FinishEvents (\<lambda>_. True) ?c) = number_events (rc_sequence ?c) es @ number_events ?n [?last]"
    by (simp add: FinishEvents_def emit_all closing_events_def es_def number_append Let_def add.assoc)
  then have all: "client_run new_client ((snd ?r @ snd ?s) @ snd (FinishEvents (\<lambda>_. True) ?c)) =
      Some ((closing (Suc ?n) ?items ds)\<lparr>cl_over := True\<rparr>)"
    using run e x by (simp only: read_all_append option.case)
  have chunks: "resp_chunks fresh (m # ms) (NewResponsesStreamConverter respID msgID reasoningID now model) = (?c, snd ?r @ snd ?s)"
    by (simp add: then_do_def case_prod_beta)
  have b: "cl_over ((closing (Suc ?n) ?items ds)\<lparr>cl_over := True\<rparr>)"
      "cl_items ((closing (Suc ?n) ?items ds)\<lparr>cl_over := True\<rparr>) = ?items" by (simp_all add: closing_def)
  have n: "cl_seq new_client = 0" by (simp add: new_client_def)
  show ?thesis unfolding chunks Let_def prod.case all option.case client_counts [OF all] b n resp_GetNonstreamResponse_def o
    by (intro conjI refl b(1)) (rule add_0)
qed

end
