(* ===== verification/ToolNames.thy ===== *)
theory ToolNames
  imports Projection
begin

text \<open>
  Names of tools that the WorkBuddy upstream takes: internal/workbuddy/upstream/tool_names.go. \<open>sha\<close> is
  SHA-256 as a byte function. A map from names to names is an association list. The search for a free alias
  tries salts 0, 1, \<open>\<dots>\<close> without end; here it ends with None after as many salts as there are
  names in use and one more, which is only the case when hashes of different salts collide. The text of two indices that
  makes the key of a held name is the pair of the indices.
\<close>

subsection \<open>Requests\<close>

definition name_char :: "char \<Rightarrow> bool" where
  "name_char c =
    (c = CHR ''-'' \<or> c = CHR ''_'' \<or>
     list_ex (\<lambda>(least, greatest). least \<le> c \<and> c \<le> greatest)
       [(CHR ''a'', CHR ''z''), (CHR ''A'', CHR ''Z''), (CHR ''0'', CHR ''9'')])"

definition validToolName :: "string \<Rightarrow> bool" where
  "validToolName name = (name \<noteq> [] \<and> length name \<le> 64 \<and> list_all name_char name)"

definition name_of :: "json_object \<Rightarrow> string" where
  "name_of fn = as_str (jget fn ''name'')"

type_synonym rewriter = "json_object \<Rightarrow> json_object option"

text \<open>None is a list in which nothing changed. What is no object is a nil map to the rewriter.\<close>

definition rewriteToolObjects :: "json \<Rightarrow> rewriter \<Rightarrow> json option" where
  "rewriteToolObjects v rw =
    (if list_ex (\<lambda>raw. rw (as_obj raw) \<noteq> None) (as_list v)
     then Some (JList (map (\<lambda>raw. case rw (as_obj raw) of Some m \<Rightarrow> JObj m | None \<Rightarrow> raw) (as_list v)))
     else None)"

definition rewrite_function :: "rewriter \<Rightarrow> rewriter" where
  "rewrite_function rw m = map_option (\<lambda>fn. jset ''function'' (JObj fn) m) (rw (as_obj (jget m ''function'')))"

definition rewrite_message :: "rewriter \<Rightarrow> rewriter" where
  "rewrite_message rw msg =
    (let next = (if jget msg ''role'' = JStr ''tool'' then rw msg else None)
     in case rewriteToolObjects (jget msg ''tool_calls'') (rewrite_function rw) of
          Some calls \<Rightarrow> Some (jset ''tool_calls'' calls (case next of None \<Rightarrow> msg | Some m \<Rightarrow> m))
        | None \<Rightarrow> next)"

definition set_some :: "string \<Rightarrow> json option \<Rightarrow> json_object \<Rightarrow> json_object" where
  "set_some k v m = (case v of None \<Rightarrow> m | Some v \<Rightarrow> jset k v m)"

definition rewriteRequestToolNames :: "rewriter \<Rightarrow> json_object \<Rightarrow> json_object" where
  "rewriteRequestToolNames rw body =
    set_some ''messages'' (rewriteToolObjects (jget body ''messages'') (rewrite_message rw))
     (set_some ''tool_choice'' (map_option JObj (rewrite_function rw (as_obj (jget body ''tool_choice''))))
       (set_some ''tools'' (rewriteToolObjects (jget body ''tools'') (rewrite_function rw)) body))"

text \<open>The names that the rewriter visits.\<close>

definition request_names :: "json_object \<Rightarrow> string list" where
  "request_names body =
    (let fn = (\<lambda>m. name_of (as_obj (jget m ''function'')))
     in map (\<lambda>raw. fn (as_obj raw)) (as_list (jget body ''tools'')) @ [fn (as_obj (jget body ''tool_choice''))] @
        concat (map (\<lambda>raw. let msg = as_obj raw
            in (if jget msg ''role'' = JStr ''tool'' then [name_of msg] else []) @
               map (\<lambda>raw. fn (as_obj raw)) (as_list (jget msg ''tool_calls''))) (as_list (jget body ''messages''))))"

definition alias_name :: "(string \<Rightarrow> nat list) \<Rightarrow> string \<Rightarrow> nat \<Rightarrow> string" where
  "alias_name sha name salt =
    ''w2a_'' @ hex_encode (take 16 (sha (''workbuddy-tool'' @ [CHR 0x00] @ name @ [CHR 0x00] @ utoa salt)))"

text \<open>The names that get an alias, in order, with the names in use.\<close>

fun bind_aliases :: "(string \<Rightarrow> nat list) \<Rightarrow> string list \<Rightarrow> string list \<Rightarrow> (string \<times> string) list option" where
  "bind_aliases sha [] used = Some []"
| "bind_aliases sha (name # names) used =
    (case List.find (\<lambda>salt. alias_name sha name salt \<notin> set used) [0..<Suc (length used)] of
       None \<Rightarrow> None
     | Some salt \<Rightarrow>
         let alias = alias_name sha name salt
         in map_option ((#) (name, alias)) (bind_aliases sha names (alias # used)))"

definition rename_with :: "(string \<times> string) list \<Rightarrow> rewriter" where
  "rename_with forward fn =
    (case map_of forward (name_of fn) of
       Some alias \<Rightarrow> if alias \<noteq> [] then Some (jset ''name'' (JStr alias) fn) else None
     | None \<Rightarrow> None)"

datatype tool_name_error = BlankToolName | NoFreeAlias

definition prepareToolNames ::
  "(string \<Rightarrow> nat list) \<Rightarrow> json_object \<Rightarrow> tool_name_error + json_object \<times> (string \<times> string) list" where
  "prepareToolNames sha body =
    (if list_ex (\<lambda>raw. trim_space (name_of (as_obj (jget (as_obj raw) ''function''))) = []) (as_list (jget body ''tools''))
     then Inl BlankToolName
     else
       let used = remdups (filter (\<lambda>n. n \<noteq> []) (request_names body)); invalid = filter (\<lambda>n. \<not> validToolName n) used
       in if invalid = [] then Inr (body, [])
          else case bind_aliases sha (sort invalid) used of
                 None \<Rightarrow> Inl NoFreeAlias
               | Some forward \<Rightarrow>
                   let out = rewriteRequestToolNames (rename_with forward) body;
                       out = (case jget out ''tool_choice'' of
                                JStr name \<Rightarrow> (case map_of forward name of Some alias \<Rightarrow> jset ''tool_choice'' (JStr alias) out | None \<Rightarrow> out)
                              | _ \<Rightarrow> out)
                   in Inr (out, map (\<lambda>(name, alias). (alias, name)) forward))"

subsection \<open>Streams\<close>

type_synonym held_names = "((json \<times> json) \<times> string) list"

text \<open>One fragment of a name: the name to send, or None when it is held, and whether the fragment changes.\<close>

definition restore_name ::
  "(string \<times> string) list \<Rightarrow> json \<times> json \<Rightarrow> string \<Rightarrow> held_names \<Rightarrow> string option \<times> held_names \<times> bool" where
  "restore_name reverse key part pending =
    (let held = (case map_of pending key of None \<Rightarrow> [] | Some s \<Rightarrow> s); name = held @ part;
         original = (case map_of reverse name of None \<Rightarrow> [] | Some s \<Rightarrow> s)
     in if original \<noteq> [] then (Some original, AList.delete key pending, True)
        else if list_ex (\<lambda>(alias, _). has_prefix alias name) reverse then (None, AList.update key name pending, True)
        else if held \<noteq> [] then (Some name, AList.delete key pending, True)
        else (Some part, pending, False))"

definition restore_call :: "(string \<times> string) list \<Rightarrow> json \<Rightarrow> json \<Rightarrow> held_names \<times> bool \<Rightarrow> json \<times> held_names \<times> bool" where
  "restore_call reverse index raw st =
    (case raw of
       JObj call \<Rightarrow>
         (case jget call ''function'' of
            JObj fn \<Rightarrow>
              (case restore_name reverse (index, jget call ''index'') (name_of fn) (fst st) of
                 (name, pending, change) \<Rightarrow>
                   if name_of fn = [] \<or> \<not> change then (raw, st)
                   else (JObj (jset ''function'' (JObj (case name of
                           Some n \<Rightarrow> jset ''name'' (JStr n) fn | None \<Rightarrow> AList.delete ''name'' fn)) call), pending, True))
          | _ \<Rightarrow> (raw, st))
     | _ \<Rightarrow> (raw, st))"

fun map_state :: "('a \<Rightarrow> 's \<Rightarrow> 'b \<times> 's) \<Rightarrow> 'a list \<Rightarrow> 's \<Rightarrow> 'b list \<times> 's" where
  "map_state f [] s = ([], s)"
| "map_state f (x # xs) s = (case f x s of (y, s) \<Rightarrow> (case map_state f xs s of (ys, s) \<Rightarrow> (y # ys, s)))"

definition restore_choice :: "(string \<times> string) list \<Rightarrow> json \<Rightarrow> held_names \<times> bool \<Rightarrow> json \<times> held_names \<times> bool" where
  "restore_choice reverse raw st =
    (case raw of
       JObj choice \<Rightarrow>
         (case jget choice ''delta'' of
            JObj delta \<Rightarrow>
              (case jget delta ''tool_calls'' of
                 JList calls \<Rightarrow>
                   (case map_state (restore_call reverse (jget choice ''index'')) calls st of
                      (calls, st) \<Rightarrow> (JObj (jset ''delta'' (JObj (jset ''tool_calls'' (JList calls) delta)) choice), st))
               | _ \<Rightarrow> (raw, st))
          | _ \<Rightarrow> (raw, st))
     | _ \<Rightarrow> (raw, st))"

definition restore :: "(string \<times> string) list \<Rightarrow> json_object \<Rightarrow> held_names \<Rightarrow> json_object \<times> held_names \<times> bool" where
  "restore reverse chunk pending =
    (if reverse = [] then (chunk, pending, False)
     else case jget chunk ''choices'' of
       JList choices \<Rightarrow>
         (case map_state (restore_choice reverse) choices (pending, False) of
            (choices, st) \<Rightarrow> (jset ''choices'' (JList choices) chunk, st))
     | _ \<Rightarrow> (chunk, pending, False))"

end
