(* ===== verification/ToolNameProps.thy ===== *)
theory ToolNameProps
  imports ToolNames
begin

text \<open>
  What aliases of tool names keep: the upstream is given valid names only, every alias stands for one name
  of the client, and a stream gives that name back however its alias is cut.
\<close>

subsection \<open>Requests\<close>

definition renamed :: "(string \<times> string) list \<Rightarrow> string \<Rightarrow> string" where
  "renamed names n = (case map_of names n of Some a \<Rightarrow> if a \<noteq> [] then a else n | None \<Rightarrow> n)"

definition changed_raw :: "rewriter \<Rightarrow> json \<Rightarrow> json" where
  "changed_raw rw raw = (case rw (as_obj raw) of Some m \<Rightarrow> JObj m | None \<Rightarrow> raw)"

lemma renamed_name: "name_of (as_obj (changed_raw (rename_with names) raw)) = renamed names (name_of (as_obj raw))"
  by (simp add: changed_raw_def rename_with_def renamed_def name_of_def as_obj_def as_str_def split: option.split)

definition function_name :: "json \<Rightarrow> string" where
  "function_name raw = name_of (as_obj (jget (as_obj raw) ''function''))"

lemma renamed_function:
  "function_name (changed_raw (rewrite_function (rename_with names)) raw) = renamed names (function_name raw)"
  using renamed_name [of names "jget (as_obj raw) ''function''"]
  by (auto simp: changed_raw_def rewrite_function_def function_name_def as_obj_def split: option.splits)

lemma rewritten_list:
  "as_list (case rewriteToolObjects v rw of Some w \<Rightarrow> w | None \<Rightarrow> v) = map (changed_raw rw) (as_list v)"
proof (cases "list_ex (\<lambda>raw. rw (as_obj raw) \<noteq> None) (as_list v)")
  case True
  then show ?thesis by (simp add: rewriteToolObjects_def as_list_def changed_raw_def [abs_def])
next
  case False
  then have "map (changed_raw rw) (as_list v) = as_list v" by (intro map_idI) (auto simp: list_ex_iff changed_raw_def)
  with False show ?thesis by (simp add: rewriteToolObjects_def)
qed

lemma jget_set_some: "jget (set_some k v m) l = (if l = k then (case v of Some w \<Rightarrow> w | None \<Rightarrow> jget m k) else jget m l)"
  by (simp add: set_some_def split: option.split)

definition message_names :: "json \<Rightarrow> string list" where
  "message_names raw =
    (if jget (as_obj raw) ''role'' = JStr ''tool'' then [name_of (as_obj raw)] else []) @
    map function_name (as_list (jget (as_obj raw) ''tool_calls''))"

lemma request_names_split:
  "request_names body =
    map function_name (as_list (jget body ''tools'')) @ [function_name (jget body ''tool_choice'')] @
    concat (map message_names (as_list (jget body ''messages'')))"
  by (simp add: request_names_def function_name_def [abs_def] message_names_def [abs_def] Let_def)

lemma renamed_message:
  "message_names (changed_raw (rewrite_message (rename_with names)) raw) = map (renamed names) (message_names raw)"
proof -
  let ?m = "as_obj raw" let ?rw = "rename_with names"
  let ?next = "if jget ?m ''role'' = JStr ''tool'' then ?rw ?m else None"
  let ?n = "case ?next of None \<Rightarrow> ?m | Some m \<Rightarrow> m" let ?calls = "rewriteToolObjects (jget ?m ''tool_calls'') (rewrite_function ?rw)"
  let ?m' = "set_some ''tool_calls'' ?calls ?n"
  have e: "as_obj (changed_raw (rewrite_message ?rw) raw) = ?m'"
    by (auto simp: changed_raw_def rewrite_message_def Let_def set_some_def as_obj_def split: option.splits)
  have other: "k \<noteq> ''name'' \<Longrightarrow> jget ?n k = jget ?m k" for k
    by (auto simp: rename_with_def split: option.split)
  have role: "jget ?m' ''role'' = jget ?m ''role''" by (simp add: jget_set_some other)
  have name: "name_of ?m' = renamed names (name_of ?m)" if "jget ?m ''role'' = JStr ''tool''"
    using that renamed_name [of names raw] by (simp add: name_of_def jget_set_some changed_raw_def as_obj_def split: option.splits)
  have "as_list (jget ?m' ''tool_calls'') = map (changed_raw (rewrite_function ?rw)) (as_list (jget ?m ''tool_calls''))"
    using rewritten_list [of "jget ?m ''tool_calls''" "rewrite_function ?rw"] by (simp add: jget_set_some other cong: option.case_cong)
  then show ?thesis unfolding message_names_def e role using name by (simp add: renamed_function)
qed

lemma renamed_request:
  "request_names (rewriteRequestToolNames (rename_with names) body) = map (renamed names) (request_names body)"
proof -
  let ?rw = "rename_with names" let ?out = "rewriteRequestToolNames ?rw body"
  have "as_list (jget ?out ''tools'') = map (changed_raw (rewrite_function ?rw)) (as_list (jget body ''tools''))"
    using rewritten_list [of "jget body ''tools''" "rewrite_function ?rw"]
    by (simp add: rewriteRequestToolNames_def jget_set_some cong: option.case_cong)
  moreover have "as_list (jget ?out ''messages'') = map (changed_raw (rewrite_message ?rw)) (as_list (jget body ''messages''))"
    using rewritten_list [of "jget body ''messages''" "rewrite_message ?rw"]
    by (simp add: rewriteRequestToolNames_def jget_set_some cong: option.case_cong)
  moreover have "jget ?out ''tool_choice'' = changed_raw (rewrite_function ?rw) (jget body ''tool_choice'')"
    by (simp add: rewriteRequestToolNames_def jget_set_some changed_raw_def split: option.split)
  ultimately show ?thesis
    by (simp add: request_names_split renamed_function map_concat o_def renamed_message)
qed

subsection \<open>Aliases\<close>

lemma hex_digits_name: "i < 16 \<Longrightarrow> name_char (hex_digit i)"
proof -
  have "list_all (\<lambda>i. name_char (hex_digit i)) [0..<16]" by code_simp
  then show "i < 16 \<Longrightarrow> name_char (hex_digit i)" by (simp add: list_all_iff)
qed

lemma alias_valid: "validToolName (alias_name sha name salt)"
proof -
  let ?bs = "take 16 (sha (''workbuddy-tool'' @ [CHR 0x00] @ name @ [CHR 0x00] @ utoa salt))"
  have h: "list_all name_char (hex_encode bs)" for bs
    by (auto simp: hex_encode_def list_all_iff hex_digits_name)
  have l: "length (hex_encode bs) = 2 * length bs" for bs
    by (induction bs) (simp_all add: hex_encode_def)
  have p: "list_all name_char ''w2a_''" by code_simp
  show ?thesis using h [of ?bs] l [of ?bs] p by (simp add: validToolName_def alias_name_def)
qed

lemma alias_length: "length (sha (''workbuddy-tool'' @ [CHR 0x00] @ name @ [CHR 0x00] @ utoa salt)) = 32 \<Longrightarrow> length (alias_name sha name salt) = 36"
proof -
  have l: "length (hex_encode bs) = 2 * length bs" for bs
    by (induction bs) (simp_all add: hex_encode_def)
  show "length (sha (''workbuddy-tool'' @ [CHR 0x00] @ name @ [CHR 0x00] @ utoa salt)) = 32 \<Longrightarrow> ?thesis"
    by (simp add: alias_name_def l)
qed

lemma bound_aliases:
  "bind_aliases sha names used = Some forward \<Longrightarrow>
   map fst forward = names \<and> distinct (map snd forward) \<and> list_all (\<lambda>(n, a). \<exists>salt. a = alias_name sha n salt) forward \<and>
   set (map snd forward) \<inter> set used = {}"
proof (induction names arbitrary: used forward)
  case (Cons name names)
  from Cons.prems obtain salt rest where f: "List.find (\<lambda>salt. alias_name sha name salt \<notin> set used) [0..<Suc (length used)] = Some salt"
    and r: "bind_aliases sha names (alias_name sha name salt # used) = Some rest" "forward = (name, alias_name sha name salt) # rest"
    by (auto simp: Let_def split: option.splits)
  have "alias_name sha name salt \<notin> set used" using f by (auto simp: find_Some_iff)
  with Cons.IH [OF r(1)] r(2) show ?case by auto
qed simp

subsection \<open>Streams\<close>

fun restore_names :: "(string \<times> string) list \<Rightarrow> json \<times> json \<Rightarrow> string list \<Rightarrow> held_names \<Rightarrow> string option list \<times> held_names" where
  "restore_names reverse key [] pending = ([], pending)"
| "restore_names reverse key (part # parts) pending =
    (case restore_name reverse key part pending of (name, pending, _) \<Rightarrow>
       (case restore_names reverse key parts pending of (names, pending) \<Rightarrow> (name # names, pending)))"

lemma delete_updated: "AList.delete k (AList.update k v m) = AList.delete k m"
  by (induction m) auto

lemma restored_parts:
  assumes "list_all (\<lambda>(a, n). length a = 36 \<and> n \<noteq> []) reverse" "map_of reverse alias = Some name"
  shows "\<lbrakk>parts \<noteq> []; list_all (\<lambda>p. p \<noteq> []) parts; (case map_of pending key of None \<Rightarrow> [] | Some s \<Rightarrow> s) @ concat parts = alias\<rbrakk> \<Longrightarrow>
    restore_names reverse key parts pending = (replicate (length parts - 1) None @ [Some name], AList.delete key pending)"
proof (induction parts arbitrary: pending)
  case (Cons part parts)
  let ?held = "case map_of pending key of None \<Rightarrow> [] | Some s \<Rightarrow> s"
  have n: "name \<noteq> []" and l: "length alias = 36" using assms by (auto simp: list_all_iff dest: map_of_SomeD)
  show ?case
  proof (cases parts)
    case Nil
    with Cons.prems(3) have "?held @ part = alias" by simp
    then have "restore_name reverse key part pending = (Some name, AList.delete key pending, True)"
      using assms(2) n by (simp add: restore_name_def Let_def)
    with Nil show ?thesis by simp
  next
    case (Cons q qs)
    let ?name = "?held @ part"
    have e: "alias = ?name @ concat parts" using Cons.prems(3) by simp
    have "concat parts \<noteq> []" using Cons Cons.prems(2) by simp
    then have "0 < length (concat parts)" by (metis length_greater_0_conv)
    then have "length ?name < 36" using l unfolding e length_append by linarith
    then have "map_of reverse ?name = None"
      using assms(1) by (fastforce simp: list_all_iff map_of_eq_None_iff)
    moreover have "list_ex (\<lambda>(a, _). has_prefix a ?name) reverse"
      using e by (auto simp: list_ex_iff has_prefix_def intro!: bexI [OF _ map_of_SomeD [OF assms(2)]])
    ultimately have r: "restore_name reverse key part pending = (None, AList.update key ?name pending, True)"
      by (simp add: restore_name_def Let_def)
    have "restore_names reverse key parts (AList.update key ?name pending) =
        (replicate (length parts - 1) None @ [Some name], AList.delete key (AList.update key ?name pending))"
      by (rule Cons.IH) (use Cons Cons.prems(2) e in \<open>simp_all add: update_conv\<close>)
    then show ?thesis using Cons r by (simp add: delete_updated)
  qed
qed simp

text \<open>C40. The names of a prepared request are valid and stand for those of the client, in the same order; and
  an alias that a stream sends in fragments is held until it is whole and then replaced by the name the client
  gave, whatever is held of other calls.\<close>

theorem tool_names_round_trip:
  assumes "\<And>x. length (sha x) = 32"
  shows "case prepareToolNames sha body of
     Inl e \<Rightarrow> True
   | Inr (out, reverse) \<Rightarrow>
       list_all (\<lambda>n. n \<noteq> [] \<longrightarrow> validToolName n) (request_names out) \<and>
       map (\<lambda>n. case map_of reverse n of None \<Rightarrow> n | Some m \<Rightarrow> m) (request_names out) = request_names body \<and>
       (case map_of reverse (concat parts) of
          None \<Rightarrow> True
        | Some name \<Rightarrow>
            list_all (\<lambda>p. p \<noteq> []) parts \<and> map_of pending key = None \<longrightarrow>
            restore_names reverse key parts pending = (replicate (length parts - 1) None @ [Some name], AList.delete key pending))"
proof (cases "prepareToolNames sha body")
  case (Inr r)
  let ?used = "remdups (filter (\<lambda>n. n \<noteq> []) (request_names body))" let ?invalid = "filter (\<lambda>n. \<not> validToolName n) ?used"
  show ?thesis
  proof (cases "?invalid = []")
    case True
    then have "r = (body, [])" using Inr by (auto simp: prepareToolNames_def Let_def split: if_split_asm)
    moreover have "list_all (\<lambda>n. n \<noteq> [] \<longrightarrow> validToolName n) (request_names body)"
      using True by (auto simp: list_all_iff filter_empty_conv)
    ultimately show ?thesis using Inr by simp
  next
    case False
    with Inr obtain forward where f: "bind_aliases sha (sort ?invalid) ?used = Some forward"
      by (auto simp: prepareToolNames_def Let_def split: if_split_asm option.splits)
    let ?reverse = "map (\<lambda>(name, alias). (alias, name)) forward"
    let ?mid = "rewriteRequestToolNames (rename_with forward) body"
    let ?out = "case jget ?mid ''tool_choice'' of
        JStr name \<Rightarrow> (case map_of forward name of Some alias \<Rightarrow> jset ''tool_choice'' (JStr alias) ?mid | None \<Rightarrow> ?mid) | _ \<Rightarrow> ?mid"
    have r: "r = (?out, ?reverse)" using Inr False f
      by (auto simp: prepareToolNames_def Let_def split: if_split_asm)
    have "request_names ?out = request_names ?mid"
      by (auto simp: request_names_split function_name_def as_obj_def name_of_def split: json.split option.split)
    then have names: "request_names ?out = map (renamed forward) (request_names body)" by (simp add: renamed_request)
    note b = bound_aliases [OF f]
    have al: "validToolName a \<and> a \<noteq> [] \<and> length a = 36" if m: "(n, a) \<in> set forward" for n a
    proof -
      obtain salt where "a = alias_name sha n salt" using b m by (fastforce simp: list_all_iff)
      then have "validToolName a" "length a = 36" using alias_valid alias_length [OF assms] by simp_all
      then show ?thesis by (simp add: validToolName_def)
    qed
    have keys: "fst ` set forward = set ?invalid" using b by (metis list.set_map set_sort)
    have dist: "distinct (map fst forward)" "distinct (map snd forward)" using b by simp_all
    have orig: "map_of ?reverse a = Some n" if "(n, a) \<in> set forward" for n a
      using that dist(2) by (force simp: o_def case_prod_beta intro!: map_of_is_SomeI)
    have one: "(renamed forward n \<noteq> [] \<longrightarrow> validToolName (renamed forward n)) \<and>
        (case map_of ?reverse (renamed forward n) of None \<Rightarrow> renamed forward n | Some m \<Rightarrow> m) = n" if "n \<in> set (request_names body)" for n
    proof (cases "map_of forward n")
      case (Some a)
      then have m: "(n, a) \<in> set forward" by (rule map_of_SomeD)
      then have "renamed forward n = a" using Some al [OF m] by (simp add: renamed_def)
      with al [OF m] orig [OF m] show ?thesis by simp
    next
      case None
      then have same: "renamed forward n = n" by (simp add: renamed_def)
      have "n \<notin> set ?invalid" using None keys by (metis map_of_eq_None_iff)
      then have v: "n \<noteq> [] \<longrightarrow> validToolName n" using that by auto
      have "n \<notin> snd ` set forward"
      proof
        assume m: "n \<in> snd ` set forward"
        then have "n \<noteq> []" using al by auto
        with m b that show False by (auto simp: set_eq_iff)
      qed
      then have "map_of ?reverse n = None" by (force simp: map_of_eq_None_iff)
      with v same show ?thesis by simp
    qed
    have ends: "list_all (\<lambda>(a, n). length a = 36 \<and> n \<noteq> []) ?reverse"
    proof -
      have "n \<noteq> []" if "(n, a) \<in> set forward" for n a
      proof -
        have "n \<in> fst ` set forward" using that by (rule image_eqI [rotated]) simp
        then have "n \<in> set ?invalid" by (simp only: keys)
        then show ?thesis by simp
      qed
      with al show ?thesis by (auto simp: list_all_iff)
    qed
    have "restore_names ?reverse key parts pending = (replicate (length parts - 1) None @ [Some name], AList.delete key pending)"
      if "map_of ?reverse (concat parts) = Some name" "list_all (\<lambda>p. p \<noteq> []) parts" "map_of pending key = None" for name
    proof (rule restored_parts [OF ends that(1) _ that(2)])
      have "length (concat parts) = 36" using map_of_SomeD [OF that(1)] al by force
      then show "parts \<noteq> []" by auto
    qed (simp add: that(3))
    then have "case map_of ?reverse (concat parts) of None \<Rightarrow> True | Some name \<Rightarrow>
        list_all (\<lambda>p. p \<noteq> []) parts \<and> map_of pending key = None \<longrightarrow>
        restore_names ?reverse key parts pending = (replicate (length parts - 1) None @ [Some name], AList.delete key pending)"
      by (simp split: option.split)
    moreover have "list_all (\<lambda>n. n \<noteq> [] \<longrightarrow> validToolName n) (map (renamed forward) (request_names body))"
      using one by (simp add: list_all_iff)
    moreover have "map (\<lambda>n. case map_of ?reverse n of None \<Rightarrow> n | Some m \<Rightarrow> m) (map (renamed forward) (request_names body)) = request_names body"
      unfolding map_map o_def using one by (intro map_idI) blast
    ultimately show ?thesis unfolding Inr r sum.case prod.case names by blast
  qed
qed simp

theorem tool_names_round_trip_witness:
  "case prepareToolNames (\<lambda>_. replicate 32 0) [(''tools'', JList [JObj [(''function'', JObj [(''name'', JStr ''a b'')])]])] of
     Inl e \<Rightarrow> False
   | Inr (out, reverse) \<Rightarrow> length reverse = 1 \<and>
       map (\<lambda>n. case map_of reverse n of None \<Rightarrow> n | Some m \<Rightarrow> m) (request_names out) = [''a b'', []]"
  using tool_names_round_trip [of "\<lambda>_. replicate 32 0" "[(''tools'', JList [JObj [(''function'', JObj [(''name'', JStr ''a b'')])]])]"
      "[]" "[]" undefined]
  by code_simp

text \<open>
  A valid name that begins like every alias is held for ever when another tool has an alias: the calls of a
  tool of that name are not told from the beginning of an alias, and its name never reaches the client.
\<close>

lemma prefix_name_swallowed:
  "case prepareToolNames (\<lambda>_. replicate 32 0)
      [(''tools'', JList [JObj [(''function'', JObj [(''name'', JStr ''a b'')])], JObj [(''function'', JObj [(''name'', JStr ''w2'')])]])] of
     Inl e \<Rightarrow> False
   | Inr (out, reverse) \<Rightarrow> restore_names reverse (JNull, JNull) [''w2''] [] = ([None], [((JNull, JNull), ''w2'')])"
  by code_simp

end
