(* ===== verification/UpstreamStream.thy ===== *)
theory UpstreamStream
  imports ToolNames TokenUsage
begin

text \<open>
  The answer of the WorkBuddy upstream on its way into the gateway: internal/workbuddy/upstream/completion.go
  (what a complete answer is) and, of upstream.go, the reading of an event stream or a document and its
  collection into one answer. A body is the lines the scanner delivers and whether it failed then, which covers
  the limits of the scanner and of the reader; \<open>scan_lines\<close> is how text is cut into lines. What is yielded is a
  line with the chunk that is remembered with it; \<open>takes n\<close> says whether the receiver takes line n. Chunks the code
  counts as generated output, a statistic, are left out.
\<close>

subsection \<open>Complete answers\<close>

datatype stream_fault =
  NotAnObject | UpstreamReported json_object | BadUsage | BadChoices | BadChoice | BadChoiceIndex | BadDelta | BadFinish
  | FailedFinish | OutputAfterFinish | BadText | BadToolCalls | BadToolCall | BadToolIndex | BadToolType | ChangedIdentity
  | BadFunction | BadArguments | NoReply | NoFinish | NoToolCalls | FinishMismatch | IncompleteTool | EmptyReply
  | BadEvent | LargeTerminal | LargeEvent | HeldName | ReadFailed | YieldFailed | BadDocument | BadCount

text \<open>\<open>toInt\<close> of this package: a float that is no whole number up to 1024 is refused.\<close>

definition small_int :: "json \<Rightarrow> int option" where
  "small_int v =
    (case v of
       JNum x \<Rightarrow> (case x of Fin q \<Rightarrow> if of_int \<lfloor>q\<rfloor> = q \<and> 0 \<le> q \<and> q \<le> 1024 then Some \<lfloor>q\<rfloor> else None | _ \<Rightarrow> None)
     | JInt n \<Rightarrow> Some n
     | _ \<Rightarrow> None)"

definition ValidateChoiceCount :: "json_object \<Rightarrow> stream_fault option" where
  "ValidateChoiceCount body =
    (case map_of body ''n'' of
       None \<Rightarrow> None
     | Some n \<Rightarrow> if small_int n = Some 1 then None else Some BadCount)"

definition codeOK :: "json \<Rightarrow> bool" where
  "codeOK v =
    (case v of
       JNull \<Rightarrow> True
     | JNum x \<Rightarrow> x = Fin 0 \<or> x = Fin 200
     | JInt n \<Rightarrow> n = 0 \<or> n = 200
     | JStr s \<Rightarrow> s = ''0'' \<or> s = ''200''
     | _ \<Rightarrow> False)"

definition no_value :: "json \<Rightarrow> bool" where
  "no_value v = (case v of JNull \<Rightarrow> True | JStr s \<Rightarrow> s = [] | JList xs \<Rightarrow> xs = [] | JObj m \<Rightarrow> m = [] | _ \<Rightarrow> False)"

definition output_entry :: "string \<times> json \<Rightarrow> bool" where
  "output_entry e =
    (case e of (key, v) \<Rightarrow>
       key \<noteq> ''role'' \<and> \<not> no_value v \<and>
       \<not> (key = ''function_call'' \<and>
          (case v of JObj f \<Rightarrow> no_value (jget f ''name'') \<and> no_value (jget f ''arguments'') \<and> length f \<le> 2 | _ \<Rightarrow> False)))"

definition HasOutput :: "json_object \<Rightarrow> bool" where
  "HasOutput chunk =
    list_ex (\<lambda>v. list_ex output_entry (as_obj (jget (as_obj v) ''delta''))) (as_list (jget chunk ''choices''))"

record streamed_tool =
  st_id :: string
  st_name :: string
  st_args :: string

record completion =
  cs_seen :: bool
  cs_content :: bool
  cs_finish :: string
  cs_tools :: "(int \<times> streamed_tool) list"

definition fresh_completion :: completion where
  "fresh_completion = \<lparr>cs_seen = False, cs_content = False, cs_finish = [], cs_tools = []\<rparr>"

definition stableToolField :: "json \<Rightarrow> string \<Rightarrow> stream_fault + string" where
  "stableToolField v dst =
    (case v of
       JNull \<Rightarrow> Inr dst
     | JStr s \<Rightarrow> if dst \<noteq> [] \<and> s \<noteq> [] \<and> dst \<noteq> s then Inl ChangedIdentity else Inr (if s \<noteq> [] then s else dst)
     | _ \<Rightarrow> Inl ChangedIdentity)"

definition tool_function :: "json \<Rightarrow> streamed_tool \<Rightarrow> stream_fault + streamed_tool" where
  "tool_function v t =
    (case v of
       JNull \<Rightarrow> Inr t
     | JObj fn \<Rightarrow>
         (case stableToolField (jget fn ''name'') (st_name t) of
            Inl e \<Rightarrow> Inl e
          | Inr name \<Rightarrow>
              (case jget fn ''arguments'' of
                 JNull \<Rightarrow> Inr (t\<lparr>st_name := name\<rparr>)
               | JStr args \<Rightarrow> Inr (t\<lparr>st_name := name, st_args := st_args t @ args\<rparr>)
               | _ \<Rightarrow> Inl BadArguments))
     | _ \<Rightarrow> Inl BadFunction)"

definition observe_call :: "json \<Rightarrow> completion \<Rightarrow> stream_fault + completion" where
  "observe_call v s =
    (case v of
       JObj call \<Rightarrow>
         (case small_int (jget call ''index'') of
            None \<Rightarrow> Inl BadToolIndex
          | Some i \<Rightarrow>
              if i < 0 \<or> 1024 \<le> i then Inl BadToolIndex
              else
                let t = (case map_of (cs_tools s) i of Some t \<Rightarrow> t | None \<Rightarrow> \<lparr>st_id = [], st_name = [], st_args = []\<rparr>)
                in if jget call ''type'' \<notin> {JNull, JStr [], JStr ''function''} then Inl BadToolType
                   else case stableToolField (jget call ''id'') (st_id t) of
                     Inl e \<Rightarrow> Inl e
                   | Inr ident \<Rightarrow> map_sum id (\<lambda>t. s\<lparr>cs_tools := AList.update i t (cs_tools s)\<rparr>)
                       (tool_function (jget call ''function'') (t\<lparr>st_id := ident\<rparr>)))
     | _ \<Rightarrow> Inl BadToolCall)"

fun observe_calls :: "json list \<Rightarrow> completion \<Rightarrow> stream_fault + completion" where
  "observe_calls [] s = Inr s"
| "observe_calls (v # vs) s = (case observe_call v s of Inl e \<Rightarrow> Inl e | Inr s \<Rightarrow> observe_calls vs s)"

text \<open>The texts of a delta: what they are to \<open>content\<close>, or None for one that is no text.\<close>

fun delta_text :: "json_object \<Rightarrow> string list \<Rightarrow> bool option" where
  "delta_text delta [] = Some False"
| "delta_text delta (k # ks) =
    (case jget delta k of
       JNull \<Rightarrow> delta_text delta ks
     | JStr s \<Rightarrow> map_option (\<lambda>b. s \<noteq> [] \<or> b) (delta_text delta ks)
     | _ \<Rightarrow> None)"

definition tool_complete :: "json_codec \<Rightarrow> streamed_tool \<Rightarrow> bool" where
  "tool_complete jc t =
    (st_id t \<noteq> [] \<and> st_name t \<noteq> [] \<and> (case jc_unmarshal jc (st_args t) of Some (JObj m) \<Rightarrow> True | _ \<Rightarrow> False))"

definition complete :: "json_codec \<Rightarrow> bool \<Rightarrow> completion \<Rightarrow> stream_fault option" where
  "complete jc allowToolFinish s =
    (if \<not> cs_seen s then Some NoReply
     else if cs_finish s = ''length'' \<or> cs_finish s = ''content_filter'' then None
     else if cs_finish s = [] \<and> (\<not> allowToolFinish \<or> cs_tools s = []) then Some NoFinish
     else if cs_finish s = ''tool_calls'' \<and> cs_tools s = [] then Some NoToolCalls
     else if cs_tools s \<noteq> [] then
       (if cs_finish s \<noteq> [] \<and> cs_finish s \<noteq> ''tool_calls'' then Some FinishMismatch
        else if list_all (\<lambda>p. tool_complete jc (snd p)) (cs_tools s) \<and> distinct (map (\<lambda>p. st_id (snd p)) (cs_tools s))
        then None else Some IncompleteTool)
     else if \<not> cs_content s then Some EmptyReply
     else None)"

definition failed_finishes :: "string list" where
  "failed_finishes = [''error'', ''failed'', ''failure'', ''network_error'', ''server_error'']"

definition observe_choice :: "json_codec \<Rightarrow> json_object \<Rightarrow> json_object \<Rightarrow> completion \<Rightarrow> stream_fault option \<times> completion" where
  "observe_choice jc chunk choice s =
    (case jget choice ''delta'' of
       JObj delta \<Rightarrow>
         (let v = jget choice ''finish_reason''; finish = as_str v
          in if (case v of JNull \<Rightarrow> False | JStr _ \<Rightarrow> False | _ \<Rightarrow> True) then (Some BadFinish, s)
             else if to_lower (trim_space finish) \<in> set failed_finishes then (Some FailedFinish, s)
                 else if cs_finish s \<noteq> []
                 then (if finish \<noteq> [] \<and> finish \<noteq> cs_finish s \<or> HasOutput chunk then Some OutputAfterFinish else None, s)
                 else case delta_text delta [''content'', ''reasoning_content'', ''refusal''] of
                   None \<Rightarrow> (Some BadText, s)
                 | Some b \<Rightarrow>
                     let s = s\<lparr>cs_seen := True, cs_content := cs_content s \<or> b\<rparr>
                     in case (case jget delta ''tool_calls'' of
                                JNull \<Rightarrow> Inr s | JList calls \<Rightarrow> observe_calls calls s | _ \<Rightarrow> Inl BadToolCalls) of
                          Inl e \<Rightarrow> (Some e, s)
                        | Inr s \<Rightarrow>
                            let s = s\<lparr>cs_finish := finish\<rparr>
                            in (if finish \<noteq> [] then complete jc False s else None, s))
     | _ \<Rightarrow> (Some BadDelta, s))"

text \<open>A chunk; the state after an error is not used again.\<close>

definition observe :: "json_codec \<Rightarrow> json_object option \<Rightarrow> completion \<Rightarrow> stream_fault option \<times> completion" where
  "observe jc v s =
    (case v of
       None \<Rightarrow> (Some NotAnObject, s)
     | Some chunk \<Rightarrow>
         if jget chunk ''error'' \<noteq> JNull \<or> \<not> codeOK (jget chunk ''code'') then (Some (UpstreamReported chunk), s)
         else if (case jget chunk ''usage'' of JNull \<Rightarrow> False | JObj _ \<Rightarrow> False | _ \<Rightarrow> True) then (Some BadUsage, s)
         else case jget chunk ''choices'' of
                JList [] \<Rightarrow> (if jget chunk ''usage'' = JNull then Some BadChoices else None, s)
              | JList [v] \<Rightarrow>
                  (case v of
                     JObj choice \<Rightarrow>
                       if (case map_of choice ''index'' of None \<Rightarrow> False | Some i \<Rightarrow> small_int i \<noteq> Some 0) then (Some BadChoiceIndex, s)
                       else observe_choice jc chunk choice s
                   | _ \<Rightarrow> (Some BadChoice, s))
              | _ \<Rightarrow> (Some BadChoices, s))"

subsection \<open>Event streams\<close>

text \<open>The line that \<open>scanEventLine\<close> cuts off: how far it advances and the line, or None to ask for more.\<close>

fun scan_from :: "nat \<Rightarrow> string \<Rightarrow> bool \<Rightarrow> string \<Rightarrow> (nat \<times> string) option" where
  "scan_from i [] atEOF past = (if atEOF \<and> past \<noteq> [] then Some (i, rev past) else None)"
| "scan_from i (c # cs) atEOF past =
    (if c = CHR 0x0A then Some (Suc i, rev past)
     else if c = CHR 0x0D then
       (if cs = [] \<and> \<not> atEOF then None
        else Some (if cs \<noteq> [] \<and> hd cs = CHR 0x0A then i + 2 else Suc i, rev past))
     else scan_from (Suc i) cs atEOF (c # past))"

definition scanEventLine :: "string \<Rightarrow> bool \<Rightarrow> (nat \<times> string) option" where
  "scanEventLine data atEOF = scan_from 0 data atEOF []"

lemma scan_from_advance: "scan_from i cs atEOF past = Some (n, line) \<Longrightarrow> i \<le> n \<and> (cs \<noteq> [] \<longrightarrow> i < n)"
proof (induction cs arbitrary: i past)
  case (Cons c cs)
  then show ?case by (auto split: if_split_asm dest!: Cons.IH)
qed (auto split: if_split_asm)

text \<open>A whole text in lines.\<close>

function scan_lines :: "string \<Rightarrow> string list" where
  "scan_lines data =
    (if data = [] then []
     else case scanEventLine data True of None \<Rightarrow> [] | Some (n, line) \<Rightarrow> line # scan_lines (drop n data))"
  by auto
termination
  by (relation "measure length") (auto simp: scanEventLine_def dest!: scan_from_advance)

declare scan_lines.simps [simp del]

type_synonym frame = "string \<times> json_object option"

record sse_reader =
  sr_state :: completion
  sr_event :: string
  sr_terminal :: "frame list"
  sr_bytes :: nat
  sr_done :: bool
  sr_held :: held_names
  sr_yields :: nat

definition event_limit :: nat where
  "event_limit = 8 * 1024 * 1024"

definition done_frame :: frame where
  "done_frame = (''data: [DONE]'', None)"

definition tool_finish_frame :: frame where
  "tool_finish_frame =
    (''data: {'' @ [CHR 0x22] @ ''choices'' @ [CHR 0x22] @ '':[{'' @ [CHR 0x22] @ ''index'' @ [CHR 0x22] @ '':0,'' @
     [CHR 0x22] @ ''delta'' @ [CHR 0x22] @ '':{},'' @ [CHR 0x22] @ ''finish_reason'' @ [CHR 0x22] @ '':'' @
     [CHR 0x22] @ ''tool_calls'' @ [CHR 0x22] @ ''}]}'', None)"

definition yield_frame :: "(nat \<Rightarrow> bool) \<Rightarrow> frame \<Rightarrow> sse_reader \<Rightarrow> stream_fault option \<times> sse_reader \<times> frame list" where
  "yield_frame takes f r =
    (let n = sr_yields r; r = r\<lparr>sr_yields := Suc n\<rparr> in if takes n then (None, r, [f]) else (Some YieldFailed, r, []))"

definition sse_chunk ::
  "json_codec \<Rightarrow> (string \<times> string) list \<Rightarrow> (nat \<Rightarrow> bool) \<Rightarrow> string \<Rightarrow> sse_reader \<Rightarrow> stream_fault option \<times> sse_reader \<times> frame list" where
  "sse_chunk jc reverse takes data r =
    (case jc_unmarshal jc data of
       Some JNull \<Rightarrow> (fst (observe jc None (sr_state r)), r, [])
     | Some (JObj m) \<Rightarrow>
         (case restore reverse m (sr_held r) of
            (chunk, held, renamed) \<Rightarrow>
              (case observe jc (Some chunk) (sr_state r) of
                 (Some e, s) \<Rightarrow> (Some e, r, [])
               | (None, s) \<Rightarrow>
                   let r = r\<lparr>sr_held := held, sr_state := s\<rparr>;
                       text = (if renamed \<or> CHR 0x0A \<in> set data
                               then (case jc_marshal jc (JObj chunk) of Some t \<Rightarrow> t | None \<Rightarrow> []) else data);
                       line = ''data: '' @ text
                   in if cs_finish s \<noteq> [] then
                        (let b = sr_bytes r + length line
                         in if event_limit < b then (Some LargeTerminal, r, [])
                            else (None, r\<lparr>sr_bytes := b, sr_terminal := sr_terminal r @ [(line, Some chunk)]\<rparr>, []))
                      else yield_frame takes (line, Some chunk) r))
     | _ \<Rightarrow> (Some BadEvent, r, []))"

definition trim_newline :: "string \<Rightarrow> string" where
  "trim_newline s = (if has_suffix s [CHR 0x0A] then take (length s - 1) s else s)"

definition sse_done :: "sse_reader \<Rightarrow> sse_reader" where
  "sse_done r =
    r\<lparr>sr_done := True,
      sr_terminal := sr_terminal r @ (if cs_finish (sr_state r) = [] then [tool_finish_frame] else [])\<rparr>"

definition process_event ::
  "json_codec \<Rightarrow> (string \<times> string) list \<Rightarrow> (nat \<Rightarrow> bool) \<Rightarrow> sse_reader \<Rightarrow> stream_fault option \<times> sse_reader \<times> frame list" where
  "process_event jc reverse takes r =
    (if sr_event r = [] then (None, r, [])
     else
       let data = trim_newline (sr_event r); r = r\<lparr>sr_event := []\<rparr>
       in if trim_space data = ''[DONE]'' then
            (if sr_held r \<noteq> [] then (Some HeldName, r, [])
             else case complete jc True (sr_state r) of
                    Some e \<Rightarrow> (Some e, r, [])
                  | None \<Rightarrow> (None, sse_done r, []))
          else sse_chunk jc reverse takes data r)"

definition sse_line :: "string \<Rightarrow> sse_reader \<Rightarrow> stream_fault option \<times> sse_reader" where
  "sse_line line r =
    (if has_prefix line ''data:'' then
       (let value = drop 5 line; value = (if has_prefix value '' '' then drop 1 value else value)
        in if event_limit < length (sr_event r) + length value + 1 then (Some LargeEvent, r)
           else (None, r\<lparr>sr_event := sr_event r @ value @ [CHR 0x0A]\<rparr>))
     else if line = ''data'' then (None, r\<lparr>sr_event := sr_event r @ [CHR 0x0A]\<rparr>)
     else (None, r))"

text \<open>The lines up to the end of the stream or of the input, whichever comes first.\<close>

fun sse_lines ::
  "json_codec \<Rightarrow> (string \<times> string) list \<Rightarrow> (nat \<Rightarrow> bool) \<Rightarrow> string list \<Rightarrow> sse_reader \<Rightarrow> stream_fault option \<times> sse_reader \<times> frame list" where
  "sse_lines jc reverse takes [] r = (None, r, [])"
| "sse_lines jc reverse takes (line # ls) r =
    (if line = [] then
       (case process_event jc reverse takes r of
          (Some e, r, out) \<Rightarrow> (Some e, r, out)
        | (None, r, out) \<Rightarrow>
            if sr_done r then (None, r, out)
            else case sse_lines jc reverse takes ls r of (e, r, out') \<Rightarrow> (e, r, out @ out'))
     else
       (case sse_line line r of
          (Some e, r) \<Rightarrow> (Some e, r, [])
        | (None, r) \<Rightarrow> sse_lines jc reverse takes ls r))"

fun yield_all :: "(nat \<Rightarrow> bool) \<Rightarrow> frame list \<Rightarrow> sse_reader \<Rightarrow> stream_fault option \<times> sse_reader \<times> frame list" where
  "yield_all takes [] r = (None, r, [])"
| "yield_all takes (f # fs) r =
    (case yield_frame takes f r of
       (Some e, r, out) \<Rightarrow> (Some e, r, out)
     | (None, r, out) \<Rightarrow> (case yield_all takes fs r of (e, r, out') \<Rightarrow> (e, r, out @ out')))"

definition fresh_reader :: sse_reader where
  "fresh_reader =
    \<lparr>sr_state = fresh_completion, sr_event = [], sr_terminal = [], sr_bytes = 0, sr_done = False, sr_held = [], sr_yields = 0\<rparr>"

definition strip_first :: "string list \<Rightarrow> string list" where
  "strip_first ls =
    (case ls of
       [] \<Rightarrow> []
     | l # ls \<Rightarrow> (if has_prefix l (bytes [0xEF, 0xBB, 0xBF]) then drop 3 l else l) # ls)"

text \<open>What follows when all input has been read.\<close>

definition sse_end ::
  "json_codec \<Rightarrow> (string \<times> string) list \<Rightarrow> (nat \<Rightarrow> bool) \<Rightarrow> bool \<Rightarrow> sse_reader \<Rightarrow> stream_fault option \<times> sse_reader \<times> frame list" where
  "sse_end jc reverse takes failed r =
    (if sr_done r then (None, r, [])
     else if failed then (Some ReadFailed, r, [])
     else process_event jc reverse takes r)"

definition streamSSE ::
  "json_codec \<Rightarrow> (string \<times> string) list \<Rightarrow> (nat \<Rightarrow> bool) \<Rightarrow> string list \<Rightarrow> bool \<Rightarrow> stream_fault option \<times> frame list" where
  "streamSSE jc reverse takes ls failed =
    (case sse_lines jc reverse takes (strip_first ls) fresh_reader of
       (Some e, r, out) \<Rightarrow> (Some e, out)
     | (None, r, out) \<Rightarrow>
         (case sse_end jc reverse takes failed r of
            (Some e, r, out') \<Rightarrow> (Some e, out @ out')
          | (None, r, out') \<Rightarrow>
              (case complete jc (sr_done r) (sr_state r) of
                 Some e \<Rightarrow> (Some e, out @ out')
               | None \<Rightarrow>
                   (case yield_all takes (sr_terminal r @ [done_frame]) r of
                      (e, r, out'') \<Rightarrow> (e, out @ out' @ out'')))))"

subsection \<open>A document instead of a stream\<close>

definition stripBOM :: "string \<Rightarrow> string" where
  "stripBOM s = (if has_prefix s (bytes [0xEF, 0xBB, 0xBF]) then drop 3 s else s)"

definition number_call :: "nat \<times> json \<Rightarrow> json" where
  "number_call p = (case p of (i, v) \<Rightarrow> (case v of JObj call \<Rightarrow> JObj (jset ''index'' (JInt (int i)) call) | _ \<Rightarrow> v))"

definition choice_delta :: "json \<Rightarrow> json" where
  "choice_delta v =
    (case v of
       JObj choice \<Rightarrow>
         let choice = (if map_of choice ''delta'' = None then jset ''delta'' (jget choice ''message'') choice else choice)
         in (case jget choice ''delta'' of
               JObj delta \<Rightarrow>
                 (case jget delta ''tool_calls'' of
                    JList calls \<Rightarrow>
                      JObj (jset ''delta'' (JObj (jset ''tool_calls'' (JList (map number_call (enumerate 0 calls))) delta)) choice)
                  | _ \<Rightarrow> JObj choice)
             | _ \<Rightarrow> JObj choice)
     | _ \<Rightarrow> v)"

definition finish_first :: "json_object \<Rightarrow> json_object" where
  "finish_first chunk =
    (case jget chunk ''choices'' of
       JList (JObj choice # vs) \<Rightarrow>
         jset ''choices'' (JList (JObj (jset ''finish_reason'' (JStr ''tool_calls'') choice) # vs)) chunk
     | _ \<Rightarrow> chunk)"

text \<open>The two lines of a document: the chunk null has no choices and is refused like a missing one.\<close>

definition handleJSONResponse ::
  "json_codec \<Rightarrow> (string \<times> string) list \<Rightarrow> (nat \<Rightarrow> bool) \<Rightarrow> string option \<Rightarrow> stream_fault option \<times> frame list" where
  "handleJSONResponse jc reverse takes raw =
    (case raw of
       None \<Rightarrow> (Some ReadFailed, [])
     | Some raw \<Rightarrow>
         (case jc_unmarshal jc (stripBOM raw) of
            Some JNull \<Rightarrow> (Some NotAnObject, [])
          | Some (JObj m) \<Rightarrow>
              (let chunk = (case jget m ''choices'' of JList vs \<Rightarrow> jset ''choices'' (JList (map choice_delta vs)) m | _ \<Rightarrow> m)
               in case observe jc (Some chunk) fresh_completion of
                    (Some e, s) \<Rightarrow> (Some e, [])
                  | (None, s) \<Rightarrow>
                      (case complete jc True s of
                         Some e \<Rightarrow> (Some e, [])
                       | None \<Rightarrow>
                           (case restore reverse (if cs_finish s = [] then finish_first chunk else chunk) [] of
                              (chunk, held, _) \<Rightarrow>
                                if held \<noteq> [] then (Some HeldName, [])
                                else
                                  let line = ''data: '' @ (case jc_marshal jc (JObj chunk) of Some t \<Rightarrow> t | None \<Rightarrow> [])
                                  in (case yield_all takes [(line, None), done_frame] fresh_reader of (e, _, out) \<Rightarrow> (e, out)))))
          | _ \<Rightarrow> (Some BadDocument, [])))"

subsection \<open>A stream as one answer\<close>

record collected =
  co_content :: string
  co_reasoning :: string
  co_refusal :: string
  co_model :: string
  co_finish :: string
  co_usage :: "json_object option"
  co_state :: completion

definition fresh_collected :: collected where
  "fresh_collected =
    \<lparr>co_content = [], co_reasoning = [], co_refusal = [], co_model = [], co_finish = [], co_usage = None, co_state = fresh_completion\<rparr>"

definition collect_choice :: "json_object \<Rightarrow> collected \<Rightarrow> collected" where
  "collect_choice choice c =
    (let fr = as_str (jget choice ''finish_reason''); c = (if fr \<noteq> [] then c\<lparr>co_finish := fr\<rparr> else c);
         delta = as_obj (jget choice ''delta'')
     in c\<lparr>co_content := co_content c @ as_str (jget delta ''content''),
          co_reasoning := co_reasoning c @ as_str (jget delta ''reasoning_content''),
          co_refusal := co_refusal c @ as_str (jget delta ''refusal'')\<rparr>)"

definition collect_chunk :: "json_object \<Rightarrow> collected \<Rightarrow> collected" where
  "collect_chunk chunk c =
    (let m = as_str (jget chunk ''model''); c = (if m \<noteq> [] then c\<lparr>co_model := m\<rparr> else c);
         c = (case jget chunk ''usage'' of
                JObj u \<Rightarrow> c\<lparr>co_usage := Some (Merge (case co_usage c of None \<Rightarrow> [] | Some m \<Rightarrow> m) u)\<rparr> | _ \<Rightarrow> c)
     in fold collect_choice (objects_of (jget chunk ''choices'')) c)"

text \<open>The lines up to the end mark: what stopped the reading, if anything but the end mark did, and whether that was seen.\<close>

fun collect_lines :: "json_codec \<Rightarrow> string list \<Rightarrow> collected \<Rightarrow> stream_fault option \<times> bool \<times> collected" where
  "collect_lines jc [] c = (None, False, c)"
| "collect_lines jc (line # ls) c =
    (if \<not> has_prefix line ''data:'' then collect_lines jc ls c
     else
       let data = trim_space (drop 5 line)
       in if data = ''[DONE]'' then (None, True, c)
          else case jc_unmarshal jc data of
            Some JNull \<Rightarrow> (Some NotAnObject, False, c)
          | Some (JObj m) \<Rightarrow>
              (case observe jc (Some m) (co_state c) of
                 (Some e, s) \<Rightarrow> (Some e, False, c)
               | (None, s) \<Rightarrow> collect_lines jc ls (collect_chunk m (c\<lparr>co_state := s\<rparr>)))
          | _ \<Rightarrow> (Some BadEvent, False, c))"

definition collected_call :: "int \<times> streamed_tool \<Rightarrow> json" where
  "collected_call p =
    (case p of (i, t) \<Rightarrow>
       JObj [(''index'', JInt i), (''id'', if st_id t = [] then JNull else JStr (st_id t)), (''type'', JStr ''function''),
         (''function'', JObj [(''name'', JStr (st_name t)), (''arguments'', JStr (st_args t))])])"

definition collected_message :: "collected \<Rightarrow> json_object" where
  "collected_message c =
    [(''role'', JStr ''assistant''), (''content'', JStr (co_content c))] @
    (if co_refusal c \<noteq> [] then [(''refusal'', JStr (co_refusal c))] else []) @
    (if co_reasoning c \<noteq> [] then [(''reasoning_content'', JStr (co_reasoning c))] else []) @
    (if cs_tools (co_state c) \<noteq> []
     then [(''tool_calls'', JList (map collected_call (sort_key fst (cs_tools (co_state c)))))] else [])"

definition collected_usage :: "collected \<Rightarrow> json" where
  "collected_usage c = (case co_usage c of None \<Rightarrow> JNull | Some u \<Rightarrow> JObj u)"

text \<open>The producer gives the lines and, unless it was stopped at the end mark, its own error.\<close>

definition CollectStream ::
  "json_codec \<Rightarrow> string \<Rightarrow> int \<Rightarrow> string list \<times> stream_fault option \<Rightarrow> stream_fault option \<times> json_object" where
  "CollectStream jc fallbackModel now produce =
    (case collect_lines jc (fst produce) fresh_collected of
       (e, ended, c) \<Rightarrow>
         (case (case e of Some e \<Rightarrow> Some e | None \<Rightarrow> if ended then None else snd produce) of
            Some e \<Rightarrow> (Some e, [(''usage'', collected_usage c)])
          | None \<Rightarrow>
              (case complete jc False (co_state c) of
                 Some e \<Rightarrow> (Some e, [(''usage'', collected_usage c)])
               | None \<Rightarrow>
                   (None,
                    [(''id'', JStr ''chatcmpl-workbuddy''), (''object'', JStr ''chat.completion''), (''created'', JInt now),
                     (''model'', JStr (if co_model c = [] then fallbackModel else co_model c)),
                     (''choices'', JList [JObj [(''index'', JInt 0), (''message'', JObj (collected_message c)),
                       (''finish_reason'', JStr (co_finish c))]])] @
                    (case co_usage c of None \<Rightarrow> [] | Some u \<Rightarrow> [(''usage'', JObj u)])))))"

end
