(* ===== verification/UpstreamStreamProps.thy ===== *)
theory UpstreamStreamProps
  imports UpstreamStream
begin

text \<open>
  What the gateway takes for an answer of the upstream: no end is shown before the whole answer was
  found complete, and what is passed on is what was checked.
\<close>

fun observe_all :: "json_codec \<Rightarrow> json_object list \<Rightarrow> completion \<Rightarrow> completion option" where
  "observe_all jc [] s = Some s"
| "observe_all jc (c # cs) s = (case observe jc (Some c) s of (None, s) \<Rightarrow> observe_all jc cs s | (Some e, s) \<Rightarrow> None)"

lemma observe_all_append:
  "observe_all jc (cs @ ds) s = (case observe_all jc cs s of None \<Rightarrow> None | Some s \<Rightarrow> observe_all jc ds s)"
  by (induction cs arbitrary: s) (auto split: prod.splits option.splits)

definition frame_chunks :: "frame list \<Rightarrow> json_object list" where
  "frame_chunks fs = concat (map (\<lambda>(line, c). case c of None \<Rightarrow> [] | Some c \<Rightarrow> [c]) fs)"

lemma frame_chunks_simps [simp]:
  "frame_chunks [] = []" "frame_chunks (fs @ gs) = frame_chunks fs @ frame_chunks gs"
  "frame_chunks [(line, Some c)] = [c]" "frame_chunks [(line, None)] = []"
  by (simp_all add: frame_chunks_def)

definition chunk_finish :: "json_object \<Rightarrow> string" where
  "chunk_finish chunk =
    (case jget chunk ''choices'' of JList [JObj choice] \<Rightarrow> as_str (jget choice ''finish_reason'') | _ \<Rightarrow> [])"

text \<open>A frame that tells the client that the answer is over.\<close>

definition shows_end :: "frame \<Rightarrow> bool" where
  "shows_end f = (case snd f of None \<Rightarrow> True | Some chunk \<Rightarrow> chunk_finish chunk \<noteq> [])"

lemma observe_choice_finish:
  "\<lbrakk>observe_choice jc chunk choice s = (None, s'); cs_finish s' = []\<rbrakk> \<Longrightarrow>
   cs_finish s = [] \<and> as_str (jget choice ''finish_reason'') = []"
  by (cases "jget choice ''delta''")
     (auto simp: observe_choice_def Let_def simp del: delta_text.simps split: if_split_asm option.split_asm sum.split_asm)

lemma observe_cases:
  assumes "observe jc (Some chunk) s = (None, s')"
  obtains "jget chunk ''choices'' = JList []" "s' = s"
  | choice where "jget chunk ''choices'' = JList [JObj choice]" "observe_choice jc chunk choice s = (None, s')"
proof (cases "jget chunk ''choices''")
  case (JList vs)
  note v = this
  show ?thesis
  proof (cases vs)
    case Nil
    with v assms show ?thesis by (intro that(1)) (simp_all add: observe_def split: if_split_asm)
  next
    case (Cons x xs)
    with v assms have "xs = []" by (cases xs) (simp_all add: observe_def split: if_split_asm)
    moreover obtain choice where "x = JObj choice"
      using Cons v assms \<open>xs = []\<close> by (cases x) (simp_all add: observe_def split: if_split_asm)
    ultimately show ?thesis using Cons v assms by (intro that(2)) (simp_all add: observe_def split: if_split_asm)
  qed
qed (use assms in \<open>simp_all add: observe_def split: if_split_asm\<close>)

lemma observe_finish:
  "\<lbrakk>observe jc (Some chunk) s = (None, s'); cs_finish s' = []\<rbrakk> \<Longrightarrow> cs_finish s = [] \<and> chunk_finish chunk = []"
  by (erule observe_cases) (auto simp: chunk_finish_def dest: observe_choice_finish)

subsection \<open>The reader\<close>

text \<open>What was yielded shows no end; with what is kept for the end it is what was checked.\<close>

definition reader_ok :: "json_codec \<Rightarrow> sse_reader \<Rightarrow> frame list \<Rightarrow> bool" where
  "reader_ok jc r out =
    (list_all (\<lambda>f. \<not> shows_end f) out \<and>
     observe_all jc (frame_chunks (out @ sr_terminal r)) fresh_completion = Some (sr_state r) \<and>
     (if sr_done r then complete jc True (sr_state r) = None else cs_finish (sr_state r) = [] \<longrightarrow> sr_terminal r = []))"

text \<open>The outcome of a step: a failure has shown no end either.\<close>

definition step_ok :: "json_codec \<Rightarrow> frame list \<Rightarrow> stream_fault option \<times> sse_reader \<times> frame list \<Rightarrow> bool" where
  "step_ok jc out res =
    (case res of (e, r, out') \<Rightarrow>
       list_all (\<lambda>f. \<not> shows_end f) (out @ out') \<and> observe_all jc (frame_chunks (out @ out')) fresh_completion \<noteq> None \<and>
       (e = None \<longrightarrow> reader_ok jc r (out @ out')))"

lemma step_ok_stay: "reader_ok jc r out \<Longrightarrow> step_ok jc out (e, r, [])"
  by (auto simp: step_ok_def reader_ok_def observe_all_append split: option.split_asm)

lemma chunk_ok:
  assumes "reader_ok jc r out" "\<not> sr_done r"
  shows "step_ok jc out (sse_chunk jc reverse takes data r)"
proof -
  have fail: "step_ok jc out (e, r, [])" for e using assms(1) by (rule step_ok_stay)
  consider (null) "jc_unmarshal jc data = Some JNull" | (obj) m where "jc_unmarshal jc data = Some (JObj m)"
    | (other) "sse_chunk jc reverse takes data r = (Some BadEvent, r, [])"
    by (cases "jc_unmarshal jc data"; cases "the (jc_unmarshal jc data)") (auto simp: sse_chunk_def)
  then show ?thesis
  proof cases
    case null
    then show ?thesis using fail by (simp add: sse_chunk_def)
  next
    case (obj m)
    obtain chunk held renamed where c: "restore reverse m (sr_held r) = (chunk, held, renamed)" by (cases "restore reverse m (sr_held r)")
    obtain e s where o: "observe jc (Some chunk) (sr_state r) = (e, s)" by fastforce
    show ?thesis
    proof (cases e)
      case (Some x)
      then show ?thesis using fail obj c o by (simp add: sse_chunk_def)
    next
      case None
      define line where "line = ''data: '' @ (if renamed \<or> CHR 0x0A \<in> set data
          then (case jc_marshal jc (JObj chunk) of Some t \<Rightarrow> t | None \<Rightarrow> []) else data)"
      let ?r = "r\<lparr>sr_held := held, sr_state := s\<rparr>"
      have e: "sse_chunk jc reverse takes data r =
          (if cs_finish s \<noteq> [] then
             (let b = sr_bytes r + length line
              in if event_limit < b then (Some LargeTerminal, ?r, [])
                 else (None, ?r\<lparr>sr_bytes := b, sr_terminal := sr_terminal r @ [(line, Some chunk)]\<rparr>, []))
           else yield_frame takes (line, Some chunk) ?r)"
        using obj c o None by (simp add: sse_chunk_def Let_def line_def)
      have run: "observe_all jc (frame_chunks (out @ sr_terminal r) @ [chunk]) fresh_completion = Some s"
        unfolding observe_all_append [of jc "frame_chunks (out @ sr_terminal r)"]
        using assms(1) o None by (simp add: reader_ok_def)
      have pre: "observe_all jc (frame_chunks out) fresh_completion \<noteq> None"
        using assms(1) by (auto simp: reader_ok_def observe_all_append split: option.split_asm)
      show ?thesis
      proof (cases "cs_finish s = []")
        case True
        then have f: "cs_finish (sr_state r) = []" "chunk_finish chunk = []" using observe_finish [OF o [unfolded None]] by simp_all
        then have "sr_terminal r = []" using assms by (simp add: reader_ok_def)
        with True f run pre assms show ?thesis unfolding e
          by (simp add: yield_frame_def step_ok_def reader_ok_def shows_end_def Let_def)
      next
        case False
        with run pre assms show ?thesis unfolding e by (simp add: step_ok_def reader_ok_def Let_def)
      qed
    qed
  next
    case other
    then show ?thesis using fail by simp
  qed
qed

lemma event_ok:
  assumes "reader_ok jc r out" "\<not> sr_done r"
  shows "step_ok jc out (process_event jc reverse takes r)"
proof -
  let ?r = "r\<lparr>sr_event := []\<rparr>"
  have r: "reader_ok jc ?r out" "\<not> sr_done ?r" using assms by (simp_all add: reader_ok_def)
  have fail: "step_ok jc out (e, r, [])" "step_ok jc out (e, ?r, [])" for e
    using step_ok_stay assms(1) r(1) by blast+
  have ended: "step_ok jc out (None, sse_done ?r, [])" if "complete jc True (sr_state ?r) = None"
    using that assms(1)
    by (auto simp: sse_done_def step_ok_def reader_ok_def observe_all_append tool_finish_frame_def split: option.split_asm)
  show ?thesis unfolding process_event_def Let_def
    using fail ended chunk_ok [OF r] by (simp split: option.split)
qed

lemma line_ok: "reader_ok jc r out \<Longrightarrow> reader_ok jc (snd (sse_line line r)) out \<and> sr_done (snd (sse_line line r)) = sr_done r"
  by (auto simp: sse_line_def reader_ok_def Let_def)

lemma lines_ok:
  "\<lbrakk>reader_ok jc r out; \<not> sr_done r\<rbrakk> \<Longrightarrow> step_ok jc out (sse_lines jc reverse takes ls r)"
proof (induction ls arbitrary: r out)
  case Nil
  then show ?case by (simp add: step_ok_stay)
next
  case (Cons line ls)
  show ?case
  proof (cases "line = []")
    case True
    obtain e s o1 where p: "process_event jc reverse takes r = (e, s, o1)" by (cases "process_event jc reverse takes r")
    have s: "step_ok jc out (e, s, o1)" using event_ok [OF Cons.prems] p by metis
    show ?thesis
    proof (cases "e = None \<and> \<not> sr_done s")
      case go: True
      then have "reader_ok jc s (out @ o1)" using s by (simp add: step_ok_def)
      then have "step_ok jc (out @ o1) (sse_lines jc reverse takes ls s)" using Cons.IH go by blast
      with go p True show ?thesis by (auto simp: step_ok_def split: prod.splits)
    next
      case False
      with s p True show ?thesis by (auto split: option.split)
    qed
  next
    case False
    obtain e s where l: "sse_line line r = (e, s)" by fastforce
    with line_ok [OF Cons.prems(1), of line] Cons.prems(2) have s: "reader_ok jc s out" "\<not> sr_done s" by simp_all
    show ?thesis using False l Cons.IH [OF s] step_ok_stay [OF s(1)] by (simp split: option.split)
  qed
qed

lemma complete_mono: "complete jc b s = None \<Longrightarrow> complete jc True s = None"
  by (auto simp: complete_def split: if_split_asm)

lemma end_ok: "reader_ok jc r out \<Longrightarrow> step_ok jc out (sse_end jc reverse takes failed r)"
  using event_ok step_ok_stay by (simp add: sse_end_def)

lemma yielded_all:
  "yield_all takes fs r = (e, s, out) \<Longrightarrow>
   (e = None \<or> e = Some YieldFailed) \<and> (e = None \<longrightarrow> out = fs) \<and> (\<exists>gs. fs = out @ gs)"
proof (induction fs arbitrary: r e s out)
  case (Cons f fs)
  let ?r = "r\<lparr>sr_yields := Suc (sr_yields r)\<rparr>"
  obtain e' s' out' where y: "yield_all takes fs ?r = (e', s', out')" by (cases "yield_all takes fs ?r")
  with Cons.IH [OF y] Cons.prems show ?case
    by (cases "takes (sr_yields r)") (auto simp: yield_frame_def Let_def)
qed simp

lemma observed_prefix: "observe_all jc (cs @ ds) s \<noteq> None \<Longrightarrow> observe_all jc cs s \<noteq> None"
  by (auto simp: observe_all_append split: option.split_asm)

text \<open>C39. Whatever the upstream sends and wherever it breaks off: what is passed on are chunks that were
  checked in this order. A stream that ends well has shown a whole reply, with every call named, identified and
  with an object of arguments unless the reply was cut or filtered, and ends with the end mark; and of one that is
  refused no line tells the client that the reply is over, unless the client itself stopped taking lines.\<close>

theorem stream_end_checked:
  "case streamSSE jc reverse takes ls failed of (e, out) \<Rightarrow>
     (case observe_all jc (frame_chunks out) fresh_completion of
        None \<Rightarrow> False
      | Some s \<Rightarrow>
          (case e of
             None \<Rightarrow> complete jc True s = None \<and> out \<noteq> [] \<and> last out = done_frame
           | Some fault \<Rightarrow> if fault = YieldFailed then True else list_all (\<lambda>f. \<not> shows_end f) out))"
proof -
  have start: "reader_ok jc fresh_reader []" "\<not> sr_done fresh_reader"
    by (simp_all add: reader_ok_def fresh_reader_def fresh_completion_def)
  obtain e1 r1 o1 where l: "sse_lines jc reverse takes (strip_first ls) fresh_reader = (e1, r1, o1)"
    by (cases "sse_lines jc reverse takes (strip_first ls) fresh_reader")
  have s1: "step_ok jc [] (e1, r1, o1)" using lines_ok [OF start] l by metis
  show ?thesis
  proof (cases e1)
    case (Some x)
    with s1 l show ?thesis by (auto simp: streamSSE_def step_ok_def split: option.split)
  next
    case None
    then have r1: "reader_ok jc r1 o1" using s1 by (simp add: step_ok_def)
    obtain e2 r2 o2 where m: "sse_end jc reverse takes failed r1 = (e2, r2, o2)" by (cases "sse_end jc reverse takes failed r1")
    have s2: "step_ok jc o1 (e2, r2, o2)" using end_ok [OF r1] m by metis
    show ?thesis
    proof (cases "e2 = None \<and> complete jc (sr_done r2) (sr_state r2) = None")
      case False
      with s2 l m None show ?thesis by (auto simp: streamSSE_def step_ok_def split: option.splits)
    next
      case True
      then have r2: "reader_ok jc r2 (o1 @ o2)" using s2 by (simp add: step_ok_def)
      have c: "complete jc True (sr_state r2) = None" using True complete_mono by blast
      obtain e3 r3 o3 where y: "yield_all takes (sr_terminal r2 @ [done_frame]) r2 = (e3, r3, o3)"
        by (cases "yield_all takes (sr_terminal r2 @ [done_frame]) r2")
      note ya = yielded_all [OF y]
      have run: "observe_all jc (frame_chunks (o1 @ o2 @ sr_terminal r2 @ [done_frame])) fresh_completion = Some (sr_state r2)"
        using r2 by (simp add: reader_ok_def done_frame_def)
      have res: "streamSSE jc reverse takes ls failed = (e3, o1 @ o2 @ o3)"
        using l m y None True by (simp add: streamSSE_def)
      show ?thesis
      proof (cases e3)
        case None
        then have "o3 = sr_terminal r2 @ [done_frame]" using ya by simp
        with res None run c show ?thesis by simp
      next
        case (Some x)
        then have x: "x = YieldFailed" using ya by simp
        from ya obtain gs where "sr_terminal r2 @ [done_frame] = o3 @ gs" by blast
        then have "observe_all jc (frame_chunks (o1 @ o2 @ o3) @ frame_chunks gs) fresh_completion \<noteq> None" using run by simp
        then have "observe_all jc (frame_chunks (o1 @ o2 @ o3)) fresh_completion \<noteq> None" by (rule observed_prefix)
        with res Some x show ?thesis by (auto split: option.split)
      qed
    qed
  qed
qed

end
