(* ===== verification/Spec2Isabelle.thy ===== *)
theory Spec2Isabelle
  imports AdmissionQueue AdmissionProps Refresh Selection AccountPoolProps NodePoolProps
    SessionControl SessionKeyProps FailoverProps ErrClassProps BodyCompatProps TokenUsage
    TranscodeProps ForwardProps CollapseProps
    EffortProps ToolHistory ToolWriterProps
    UpstreamBodyProps NamespaceProps QoderProps QoderMessageProps ToolSchemaProps QoderBody
    ProjectionProps ChatAdapterProps AnthropicConverterProps
    ResponsesConverterProps ToolNameProps UpstreamStreamProps
begin

text \<open>
  Verification of the core of work2api, a gateway in Go that serves the Chat, Responses and Anthropic
  dialects over pools of upstream accounts (WorkBuddy, OpenCode, Qoder, Trae). All paths are under
  src/internal. Definitions carry the names of the Go functions they translate; a group of lines of a
  longer function has a name of its own. Each theory opens with what it models and what it leaves out.

  \<^bold>\<open>The way of a request.\<close> app/request_capacity.go charges its body against a byte budget (Capacity, Refresh);
  app/admission.go queues it and counts the slots it holds (Admission). Its session key is extracted and
  scoped to the caller (SessionKeys), the session router remembers the account of the session and takes
  controls (Sessions), and workbuddy/runtime/routing.go picks an account out of the pool (AccountPool, Routing)
  and fails over to others (Failover), driven by the class of the upstream's error (ErrClass) and with a
  rewritten body where a client template or an image was refused (BodyCompat); core/provider/selection.go
  (Selection) and opencode/pool.go (NodePool) are the choices of the other providers. On the way to the
  upstream the request is translated between dialects: by the protocol bridge (Bridge, Efforts, RequestDecode,
  RequestEncode, ToolHistory, CustomTools, Namespaces), or into Chat by the adapters of WorkBuddy
  (ChatAdapters), condensed (Projection) and repaired (UpstreamBody, ToolSchema); Qoder has its own messages,
  errors, calls and body (QoderMessages, QoderErrors, QoderCall, QoderBody). The upstream of WorkBuddy is given
  names of tools it takes (ToolNames), and its answer is checked before the client is told that it is over
  (UpstreamStream). On the way back complete
  responses are re-encoded (BridgeResponse, TokenUsage), streams are parsed (StreamParse), emitted in the
  dialect of the client (StreamEmit, Transcode), passed through under an observer (Forward), collapsed into
  one document (Collapse), restored for free-text tools (ToolWriter), or converted from Chat chunks into
  Anthropic and Responses events (AnthropicConverter, ResponsesConverter).

  \<^bold>\<open>The common ground.\<close> Prelude has the strings (lists of bytes as char), counters, bounded ints (\<open>wrap64\<close>,
  \<open>go_int\<close>) and the two locales of state components: \<open>counter_table\<close> for Go's maps of counts and \<open>guarded_machine\<close>
  for a component whose critical sections are events with a guard: an invariant kept by each event holds in
  every legal run. It is interpreted on the admission scheduler, the refresh flights, the account pool, the
  proxy pool and the session router. GoFloat is float64 with rounding; GoText and Json are the standard library and the
  JSON access the code uses; StreamRules has the triples of emitter steps and the locale of frame observers;
  EventReader has the readers of event streams that the two Chat converters are checked against.

  \<^bold>\<open>What is shown.\<close>
  Scheduling: the counters of admission are those of the running tickets in every reachable state, limits hold,
  no ready request that fits waits beside a free slot, a release gives everything back once and a second release nothing (AdmissionInv,
  AdmissionSteps, AdmissionProps, AdmissionQueue); the body budget charges what was read (Capacity).
  Accounts: binding counts of proxies are exact (NodePoolProps); the pool, the selector and SelectCandidate
  follow their policies (AccountPoolProps, RoutingProps, Selection).
  Failover: it ends within five attempts and five sends, never sends after output began, and stays in the scope of a
  portal user (FailoverProps); Qoder's calls likewise (QoderProps).
  Sessions: bounded table, exact counts, running sessions kept, stale selections refused, keys of different
  callers apart (SessionProps, SessionControl, SessionKeyProps).
  Requests: calls are answered one by one whatever the client sends, turns alternate, thinking budgets and
  lowered tool names come back, condensed requests keep their context (RequestTypes, RequestProps, EffortProps, ToolHistory,
  NamespaceProps, ToolWriterProps, ChatAdapterProps, ProjectionProps, UpstreamBodyProps, ToolSchemaProps,
  QoderMessageProps, ToolNameProps).
  Streams: what clients read follows the grammar of their dialect, numbers have no gaps, an upstream that stops early is
  never passed off as complete, no end is shown before the whole answer was checked, the cuts of reads do not matter (AnthropicStream, TranscodeProps, ForwardProps, CollapseProps,
  AnthropicConverterProps, ResponsesConverterProps, UpstreamStreamProps).
  Where the code does not do what it says, a lemma on a concrete input records it, such as
  \<open>text_block_overlaps_call\<close>, \<open>converted_budget_exceeds_maximum\<close>, \<open>empty_turn_loses_budget\<close> or \<open>nan_retry_after_cools_nothing\<close>.

  \<^bold>\<open>Bounds and fuel.\<close> Loops that the code bounds have its bounds: five attempts and sends of a failover, four
  rounds of a selection, three openings of three sends for a Qoder account, 65 levels of a schema, 17 of an
  object branch, six of a projected schema, four of a shrunk JSON value, five levels and 64 nodes of a
  diagnostic walk, 40 MiB of an event, 64 KiB of a fragment. Loops that end for a reason of their own are structural or
  have a measure; the loops that make room in the session table have fuel, and \<open>SessionProps\<close> shows that
  the length of the list of recency is enough. No definition is partial.

  \<^bold>\<open>Parameters.\<close> What is not under src or is not determined by it is an argument: the JSON codec (\<open>json_codec\<close>,
  \<open>raw_codec\<close>), SHA-256, base64, URL parsing, regular expressions, random draws and identifiers, the clock, the
  answers of the upstream and the points at which a client or a writer fails. Theorems hold for all of them,
  or state the documented fact they need as a premise, with a witness.

  \<^bold>\<open>Concurrency.\<close> A critical section of a mutex is one step; runs interleave the sections of any number of
  requests in any order (admission, flights, session router, pools). Failover, conversions and streams
  are the sequential code of one request; OpenUpstreamScoped is modelled for a request that runs alone.

  \<^bold>\<open>Go's maps.\<close> A map is an association list with each key once, or a list of keys for a set. Where the code ranges over a map in
  random order and the order can be seen, the theory says which order it takes.

  \<^bold>\<open>Not modelled.\<close> The store (internal/store: SQL, whose meaning is SQLite's), the HTTP handlers of
  administration and portal, process start and updates, the media and orchestration glue of internal/app, the
  HTTP exchange, signatures, catalogues and credentials of the upstreams, the runtime of Trae, configuration,
  cryptography and diagnostics: they are input and output, or calls of libraries that are not under src.
  Log lines are left out throughout.
\<close>

end
